(* ===== verification/Iov_Prelude.thy ===== *)
theory Iov_Prelude
  imports Main "HOL-Library.Word"
begin

text \<open>
  Shared ground of the development: the C integer types of the driver as words, the errno
  values the SR-IOV code returns, the alignment and bit-field macros of the kernel headers,
  and the kernel bitmap library (\<open>bitmap_set\<close>, \<open>bitmap_weight\<close>,
  \<open>for_each_clear_bitrange\<close>, \<open>bitmap_find_next_zero_area\<close>) on lists of bits, with the
  lemmas on them that the components use.
\<close>

unbundle bit_operations_syntax

section \<open>Theorem collections\<close>

named_theorems bitmap_simps \<comment> \<open>length and bits of the results of bitmap operations\<close>
named_theorems field_simps_guc \<comment> \<open>round trips of the bit-field macros\<close>

section \<open>C integers and errno values\<close>

type_synonym u8 = "8 word"
type_synonym u16 = "16 word"
type_synonym u32 = "32 word"
type_synonym u64 = "64 word"

text \<open>
  A C function that returns 0 or a negative errno is modelled with result type
  \<open>errno + unit\<close>, one that returns a non-negative value or a negative errno with
  \<open>errno + 'a\<close>. \<open>Errno n\<close> stands for any code that is not named in the modelled files
  (for example one that firmware communication produces).
\<close>

datatype (plugins only: code) errno =
    EPERM | EIO | ENOMEM | EBUSY | ENODEV | EINVAL | ETXTBSY | ENOSPC | ERANGE | E2BIG
  | EAGAIN | EPIPE | EDEADLK | ENODATA | EPROTO | EOVERFLOW | ESTALE | EUCLEAN | EREMOTEIO | EDQUOT
  | ENOKEY | EKEYREJECTED | EOPNOTSUPP | ENOBUFS | EHOSTDOWN | ETIMEDOUT | ENONET | EBADMSG
  | ENOENT | EACCES | EFAULT | ENOSYS | ENAVAIL | ECONNREFUSED | EXFULL | ENOTCONN | EPFNOSUPPORT
  | EINTR | ESRCH | ETIME | ERFKILL | EBADRQC | EBADSLT | EBADR | ECANCELED | EMSGSIZE | ENOTTY | ENOMSG | ENXIO | EPROTONOSUPPORT
  | Errno nat

type_synonym 'a res = "errno + 'a"

text \<open>The number of context ids of the GuC.\<close>

abbreviation GUC_MAX_CONTEXT_ID :: nat where "GUC_MAX_CONTEXT_ID \<equiv> 65535"

definition is_err :: "'a res \<Rightarrow> bool" where
  "is_err r = (case r of Inl _ \<Rightarrow> True | Inr _ \<Rightarrow> False)"

lemma is_err_simps [simp]: "is_err (Inl e)" "\<not> is_err (Inr v)"
  by (simp_all add: is_err_def)

lemma is_err_iff: "is_err r \<longleftrightarrow> (\<exists>e. r = Inl e)"
  by (cases r) simp_all

lemma unit_res_cases: "(\<exists>e. r = Inl e) \<or> r = Inr ()" for r :: "unit res"
  by (cases r) auto

section \<open>Searching a list\<close>

text \<open>A \<open>list_for_each_entry\<close> that updates the first entry that matches and breaks, with the
  result of the update, or a default when nothing matches.\<close>

primrec update_first :: "('a \<Rightarrow> bool) \<Rightarrow> ('a \<Rightarrow> 'b \<times> 'a) \<Rightarrow> 'b \<Rightarrow> 'a list \<Rightarrow> 'b \<times> 'a list" where
  "update_first P f d [] = (d, [])"
| "update_first P f d (x # xs) =
     (if P x then (case f x of (y, x') \<Rightarrow> (y, x' # xs))
      else case update_first P f d xs of (y, xs') \<Rightarrow> (y, x # xs'))"

lemma update_first_none: "\<forall>x \<in> set xs. \<not> P x \<Longrightarrow> update_first P f d xs = (d, xs)"
  by (induction xs) auto

lemma update_first_some:
  "\<forall>x \<in> set xs. \<not> P x \<Longrightarrow> P q \<Longrightarrow>
     update_first P f d (xs @ q # ys) = (fst (f q), xs @ snd (f q) # ys)"
  by (induction xs) (auto simp: split_beta)

lemma update_first_length [simp]: "length (snd (update_first P f d xs)) = length xs"
  by (induction xs) (auto simp: split_beta)

lemma update_first_other:
  "\<not> P (xs ! k) \<Longrightarrow> snd (update_first P f d xs) ! k = xs ! k"
proof (induction xs arbitrary: k)
  case (Cons x xs)
  then show ?case by (cases k) (auto simp: split_beta)
qed simp

lemma find_skip: "\<forall>x \<in> set xs. \<not> P x \<Longrightarrow> find P (xs @ ys) = find P ys"
  by (induction xs) auto

lemma filter_skip: "\<forall>x \<in> set xs. \<not> P x \<Longrightarrow> filter P (xs @ ys) = filter P ys"
  by (induction xs) auto

section \<open>Alignment macros\<close>

text \<open>
  \<open>ALIGN(x, a)\<close> and \<open>ALIGN_DOWN(x, a)\<close> for a power of two \<open>a\<close>, at the width the C
  expression is stored with.
\<close>

definition ALIGN :: "'a::len word \<Rightarrow> 'a word \<Rightarrow> 'a word" where
  "ALIGN x a = (x + (a - 1)) AND NOT (a - 1)"

definition ALIGN_DOWN :: "'a::len word \<Rightarrow> 'a word \<Rightarrow> 'a word" where
  "ALIGN_DOWN x a = x AND NOT (a - 1)"

definition IS_ALIGNED :: "'a::len word \<Rightarrow> 'a word \<Rightarrow> bool" where
  "IS_ALIGNED x a \<longleftrightarrow> x AND (a - 1) = 0"

lemma and_not_mask_eq: "x AND NOT (mask n) = x - take_bit n x" for x :: "'a::len word"
proof -
  have "x - take_bit n x = x AND NOT (take_bit n x)"
    by (rule disjunctive_diff_eq_and_not) (rule bit_word_eqI, auto simp: bit_simps)
  also have "\<dots> = x AND NOT (mask n)"
    by (rule bit_word_eqI) (auto simp: bit_simps)
  finally show ?thesis by simp
qed

lemma unat_take_bit: "unat (take_bit n x) = unat x mod 2 ^ n" for x :: "'a::len word"
  unfolding unsigned_take_bit_eq by (rule take_bit_eq_mod)

lemma take_bit_word_small: "unat x < 2 ^ n \<Longrightarrow> take_bit n x = x" for x :: "'a::len word"
  by (rule unsigned_word_eqI [where ?'a = nat]) (simp add: unat_take_bit)

lemma unat_and_not_mask: "unat (x AND NOT (mask n)) = unat x - unat x mod 2 ^ n"
  for x :: "'a::len word"
proof -
  note tb = unat_take_bit [of n x]
  have le: "take_bit n x \<le> x"
    unfolding word_le_nat_alt tb by simp
  have "unat (x - take_bit n x) = unat x - unat (take_bit n x)"
    using le by (rule unat_sub)
  then show ?thesis
    by (simp add: and_not_mask_eq tb)
qed

lemma unat_ALIGN_DOWN:
  "a = 2 ^ n \<Longrightarrow> n < LENGTH('a) \<Longrightarrow> unat (ALIGN_DOWN x a) = unat x - unat x mod 2 ^ n"
  for x a :: "'a::len word"
  unfolding ALIGN_DOWN_def by (simp add: unat_and_not_mask flip: mask_eq_exp_minus_1)

lemma unat_ALIGN:
  "a = 2 ^ n \<Longrightarrow> n < LENGTH('a) \<Longrightarrow> unat x + (2 ^ n - 1) < 2 ^ LENGTH('a) \<Longrightarrow>
   unat (ALIGN x a) = (unat x + (2 ^ n - 1)) div 2 ^ n * 2 ^ n"
  for x a :: "'a::len word"
proof -
  assume a: "a = 2 ^ n" and n: "n < LENGTH('a)" and b: "unat x + (2 ^ n - 1) < 2 ^ LENGTH('a)"
  have m: "unat (mask n :: 'a word) = 2 ^ n - 1"
    using n unfolding unat_eq_nat_uint uint_mask_eq by (simp add: nat_mask_eq mask_nat_def)
  have "unat (x + mask n) = unat x + (2 ^ n - 1)"
    using b m by (simp add: unat_word_ariths)
  then have "unat (ALIGN x a) = unat x + (2 ^ n - 1) - (unat x + (2 ^ n - 1)) mod 2 ^ n"
    unfolding ALIGN_def a by (simp add: unat_and_not_mask flip: mask_eq_exp_minus_1)
  then show ?thesis by (simp add: minus_mod_eq_div_mult)
qed

section \<open>Bit fields\<close>

text \<open>
  A register or message field is written in the ABI headers as a mask of \<open>w\<close> ones
  shifted left by \<open>l\<close>; \<open>FIELD_PREP\<close> places a value there and \<open>FIELD_GET\<close> reads it.
\<close>

definition FIELD_PREP :: "nat \<Rightarrow> nat \<Rightarrow> 'a::len word \<Rightarrow> 'a word" where
  "FIELD_PREP w l v = push_bit l (take_bit w v)"

definition FIELD_GET :: "nat \<Rightarrow> nat \<Rightarrow> 'a::len word \<Rightarrow> 'a word" where
  "FIELD_GET w l x = take_bit w (drop_bit l x)"

lemma FIELD_GET_PREP [field_simps_guc]:
  "l + w \<le> LENGTH('a) \<Longrightarrow> FIELD_GET w l (FIELD_PREP w l v) = take_bit w v" for v :: "'a::len word"
  unfolding FIELD_GET_def FIELD_PREP_def
  by (rule bit_word_eqI) (auto simp: bit_simps)

lemma FIELD_GET_OR [field_simps_guc]:
  "FIELD_GET w l (x OR y) = FIELD_GET w l x OR FIELD_GET w l y"
  unfolding FIELD_GET_def by simp

lemma FIELD_GET_PREP_other [field_simps_guc]:
  "l + w \<le> l' \<or> l' + w' \<le> l \<Longrightarrow> FIELD_GET w l (FIELD_PREP w' l' v) = 0"
  unfolding FIELD_GET_def FIELD_PREP_def
  by (rule bit_word_eqI) (auto simp: bit_simps)

lemma FIELD_GET_0 [simp]: "FIELD_GET w l 0 = 0"
  by (simp add: FIELD_GET_def)

definition lower_32_bits :: "u64 \<Rightarrow> u32" where
  "lower_32_bits x = ucast x"

definition upper_32_bits :: "u64 \<Rightarrow> u32" where
  "upper_32_bits x = ucast (drop_bit 32 x)"

definition make_u64 :: "u32 \<Rightarrow> u32 \<Rightarrow> u64" where
  "make_u64 hi lo = push_bit 32 (ucast hi) OR ucast lo"

lemma unat_of_nat_u16: "k < 65536 \<Longrightarrow> unat (of_nat k :: u16) = k"
  by (simp add: unat_of_nat)

lemma unat_ucast: "unat (ucast x :: 'b::len word) = unat x mod 2 ^ LENGTH('b)" for x :: "'a::len word"
  by (simp add: unsigned_ucast_eq take_bit_eq_mod)

lemma make_u64_lower_upper [simp]: "make_u64 (upper_32_bits x) (lower_32_bits x) = x"
  unfolding make_u64_def upper_32_bits_def lower_32_bits_def
  by (rule bit_word_eqI) (auto simp: bit_simps)

section \<open>The kernel bitmap library\<close>

type_synonym bitmap = "bool list"

definition bitmap_zero :: "nat \<Rightarrow> bitmap" where
  "bitmap_zero n = replicate n False"

definition bitmap_set :: "bitmap \<Rightarrow> nat \<Rightarrow> nat \<Rightarrow> bitmap" where
  "bitmap_set bm start nr = map (\<lambda>i. bm ! i \<or> (start \<le> i \<and> i < start + nr)) [0..<length bm]"

definition bitmap_weight :: "bitmap \<Rightarrow> nat" where
  "bitmap_weight bm = length (filter (\<lambda>b. b) bm)"

lemma length_bitmap_zero [bitmap_simps]: "length (bitmap_zero n) = n"
  by (simp add: bitmap_zero_def)

lemma nth_bitmap_zero [bitmap_simps]: "i < n \<Longrightarrow> bitmap_zero n ! i \<longleftrightarrow> False"
  by (simp add: bitmap_zero_def)

lemma length_bitmap_set [bitmap_simps]: "length (bitmap_set bm s n) = length bm"
  by (simp add: bitmap_set_def)

lemma nth_bitmap_set [bitmap_simps]:
  "i < length bm \<Longrightarrow> bitmap_set bm s n ! i \<longleftrightarrow> bm ! i \<or> (s \<le> i \<and> i < s + n)"
  by (simp add: bitmap_set_def)

text \<open>
  \<open>for_each_clear_bitrange(rs, re, bm, size)\<close> visits the maximal runs \<open>[rs, re)\<close> of clear
  bits from the low end to the high end; the model is the list of those pairs.
\<close>

function clear_ranges_from :: "nat \<Rightarrow> bitmap \<Rightarrow> (nat \<times> nat) list" where
  "clear_ranges_from i bs =
     (case dropWhile (\<lambda>b. b) bs of
        [] \<Rightarrow> []
      | b # bs1 \<Rightarrow>
          (let rs = i + length (takeWhile (\<lambda>b. b) bs);
               re = rs + Suc (length (takeWhile Not bs1))
           in (rs, re) # clear_ranges_from re (dropWhile Not bs1)))"
  by pat_completeness auto
termination
proof (relation "measure (\<lambda>(i, bs). length bs)")
  fix i bs b bs1 rs re
  assume "dropWhile (\<lambda>b. b) bs = b # bs1"
  then have "Suc (length bs1) \<le> length bs"
    by (metis length_Cons length_dropWhile_le)
  moreover have "length (dropWhile Not bs1) \<le> length bs1"
    by (rule length_dropWhile_le)
  ultimately show "((re, dropWhile Not bs1), (i, bs)) \<in> measure (\<lambda>(i, bs). length bs)"
    by simp
qed simp

declare clear_ranges_from.simps [simp del]

definition clear_ranges :: "bitmap \<Rightarrow> (nat \<times> nat) list" where
  "clear_ranges bm = clear_ranges_from 0 bm"

text \<open>The shape of a bitmap at the first clear run.\<close>

lemma first_clear_run:
  assumes "dropWhile (\<lambda>b. b) bs = b # bs1"
  defines "a \<equiv> length (takeWhile (\<lambda>b. b) bs)" and "n \<equiv> Suc (length (takeWhile Not bs1))"
  shows "bs = replicate a True @ replicate n False @ dropWhile Not bs1"
proof -
  have b: "\<not> b"
    using assms(1) hd_dropWhile [of "\<lambda>b. b" bs] by (metis list.discI list.sel(1))
  have T: "takeWhile (\<lambda>b. b) bs = replicate a True"
    unfolding a_def by (rule replicate_eqI [symmetric, THEN sym]) (auto dest: set_takeWhileD)
  define m where "m = length (takeWhile Not bs1)"
  have F: "takeWhile Not bs1 = replicate m False"
    unfolding m_def by (rule replicate_eqI) (auto dest: set_takeWhileD)
  have "bs = takeWhile (\<lambda>b. b) bs @ dropWhile (\<lambda>b. b) bs"
    by simp
  also have "\<dots> = replicate a True @ b # takeWhile Not bs1 @ dropWhile Not bs1"
    using assms(1) T by simp
  finally show ?thesis
    using b F unfolding n_def m_def [symmetric] by simp
qed

lemma clear_ranges_from_Nil:
  "dropWhile (\<lambda>b. b) bs = [] \<Longrightarrow> clear_ranges_from i bs = []"
  by (subst clear_ranges_from.simps) (simp only: list.case)

lemma nth_run:
  "(replicate a True @ replicate n False @ bs) ! k \<longleftrightarrow>
     k < a \<or> (a + n \<le> k \<and> bs ! (k - (a + n)))"
  by (auto simp: nth_append not_less)

lemma clear_ranges_from_run:
  assumes "bs = [] \<or> hd bs"
  shows "clear_ranges_from i (replicate a True @ replicate (Suc n) False @ bs) =
     (i + a, i + a + Suc n) # clear_ranges_from (i + a + Suc n) bs"
proof -
  have "takeWhile Not bs = []" "dropWhile Not bs = bs"
    using assms by (cases bs; simp)+
  then show ?thesis
    by (subst clear_ranges_from.simps) (simp add: dropWhile_append takeWhile_append Let_def)
qed

text \<open>
  The decomposition used by every induction below: either no bit is clear, or the bitmap is a
  run of set bits, a non-empty run of clear bits and a rest that does not start with a clear
  bit.
\<close>

lemma clear_ranges_induct [case_names full run]:
  assumes "\<And>i bs. (\<forall>b \<in> set bs. b) \<Longrightarrow> clear_ranges_from i bs = [] \<Longrightarrow> P i bs"
    and "\<And>i a n bs. bs = [] \<or> hd bs \<Longrightarrow> P (i + a + Suc n) bs \<Longrightarrow>
          clear_ranges_from i (replicate a True @ replicate (Suc n) False @ bs) =
            (i + a, i + a + Suc n) # clear_ranges_from (i + a + Suc n) bs \<Longrightarrow>
          P i (replicate a True @ replicate (Suc n) False @ bs)"
  shows "P i bs"
proof (induction i bs rule: clear_ranges_from.induct)
  case (1 i bs)
  show ?case
  proof (cases "dropWhile (\<lambda>b. b) bs")
    case Nil
    then show ?thesis
      using assms(1) clear_ranges_from_Nil by (simp add: dropWhile_eq_Nil_conv)
  next
    case (Cons b bs1)
    define rest where "rest = dropWhile Not bs1"
    define a where "a = length (takeWhile (\<lambda>b. b) bs)"
    define n where "n = length (takeWhile Not bs1)"
    have bs: "bs = replicate a True @ replicate (Suc n) False @ rest"
      using first_clear_run [OF Cons] by (simp only: a_def n_def rest_def)
    have hd: "rest = [] \<or> hd rest"
      unfolding rest_def using hd_dropWhile [of Not bs1] by auto
    have "P (i + a + Suc n) rest"
      using 1 [OF Cons refl refl] by (simp add: a_def n_def rest_def)
    then show ?thesis
      unfolding bs using hd clear_ranges_from_run [OF hd] by (intro assms(2)) simp_all
  qed
qed

lemma clear_ranges_from_sound:
  "(rs, re) \<in> set (clear_ranges_from i bs) \<Longrightarrow>
     i \<le> rs \<and> rs < re \<and> re \<le> i + length bs \<and> (\<forall>k. rs \<le> k \<and> k < re \<longrightarrow> \<not> bs ! (k - i))"
proof (induction i bs rule: clear_ranges_induct)
  case (full i bs)
  then show ?case by simp
next
  case (run i a n bs)
  show ?case
  proof (cases "(rs, re) = (i + a, i + a + Suc n)")
    case True
    then show ?thesis by (auto simp: nth_run simp del: replicate_Suc)
  next
    case False
    then have "(rs, re) \<in> set (clear_ranges_from (i + a + Suc n) bs)"
      using run.prems run.hyps(2) by auto
    then have "i + a + Suc n \<le> rs \<and> rs < re \<and> re \<le> i + a + Suc n + length bs \<and>
        (\<forall>k. rs \<le> k \<and> k < re \<longrightarrow> \<not> bs ! (k - (i + a + Suc n)))" by (rule run.IH)
    moreover have "k - i - (a + Suc n) = k - (i + a + Suc n)" for k by simp
    ultimately show ?thesis by (auto simp: nth_run simp del: replicate_Suc)
  qed
qed

lemma clear_ranges_from_complete:
  "k < length bs \<Longrightarrow> \<not> bs ! k \<Longrightarrow>
     \<exists>rs re. (rs, re) \<in> set (clear_ranges_from i bs) \<and> rs \<le> i + k \<and> i + k < re"
proof (induction i bs arbitrary: k rule: clear_ranges_induct)
  case (full i bs)
  then show ?case using nth_mem by blast
next
  case (run i a n bs)
  consider "k < a" | "a \<le> k" "k < a + Suc n" | "a + Suc n \<le> k" by linarith
  then show ?case
  proof cases
    case 1
    then show ?thesis using run.prems by (simp add: nth_run del: replicate_Suc)
  next
    case 2
    then show ?thesis unfolding run.hyps(2) by (intro exI [of _ "i + a"] exI [of _ "i + a + Suc n"]) auto
  next
    case 3
    then have "k - (a + Suc n) < length bs" "\<not> bs ! (k - (a + Suc n))"
      using run.prems by (auto simp: nth_run simp del: replicate_Suc)
    then obtain rs re where "(rs, re) \<in> set (clear_ranges_from (i + a + Suc n) bs)"
      "rs \<le> i + a + Suc n + (k - (a + Suc n))" "i + a + Suc n + (k - (a + Suc n)) < re"
      using run.IH by blast
    with 3 show ?thesis unfolding run.hyps(2) by auto
  qed
qed

lemma clear_ranges_from_length:
  "sum_list (map (\<lambda>(rs, re). re - rs) (clear_ranges_from i bs)) = length (filter Not bs)"
proof (induction i bs rule: clear_ranges_induct)
  case (full i bs)
  then have "filter Not bs = []" by (simp add: filter_empty_conv)
  with full show ?case by simp
next
  case (run i a n bs)
  then show ?case by (simp add: filter_replicate)
qed

lemma clear_ranges_sound:
  "(rs, re) \<in> set (clear_ranges bm) \<Longrightarrow>
     rs < re \<and> re \<le> length bm \<and> (\<forall>k. rs \<le> k \<and> k < re \<longrightarrow> \<not> bm ! k)"
  using clear_ranges_from_sound [of rs re 0 bm] by (simp add: clear_ranges_def)

lemma clear_ranges_complete:
  "k < length bm \<Longrightarrow> \<not> bm ! k \<Longrightarrow>
     \<exists>rs re. (rs, re) \<in> set (clear_ranges bm) \<and> rs \<le> k \<and> k < re"
  using clear_ranges_from_complete [of k bm 0] by (simp add: clear_ranges_def)

lemma clear_ranges_length:
  "sum_list (map (\<lambda>(rs, re). re - rs) (clear_ranges bm)) = length bm - bitmap_weight bm"
  using clear_ranges_from_length [of 0 bm] sum_length_filter_compl [of "\<lambda>b. b" bm]
  by (simp add: clear_ranges_def bitmap_weight_def)

definition zero_area :: "bitmap \<Rightarrow> nat \<Rightarrow> nat \<Rightarrow> bool" where
  "zero_area bm i nr \<longleftrightarrow> i + nr \<le> length bm \<and> list_all (\<lambda>k. \<not> bm ! k) [i..<i + nr]"

lemma zero_area_iff:
  "zero_area bm i nr \<longleftrightarrow> i + nr \<le> length bm \<and> (\<forall>k. i \<le> k \<and> k < i + nr \<longrightarrow> \<not> bm ! k)"
  by (auto simp: zero_area_def list_all_iff)

lemma zero_area_in_clear_range:
  "(rs, re) \<in> set (clear_ranges bm) \<Longrightarrow> rs \<le> i \<Longrightarrow> i + nr \<le> re \<Longrightarrow> zero_area bm i nr"
  using clear_ranges_sound [of rs re bm] by (auto simp: zero_area_iff)

text \<open>
  \<open>bitmap_find_next_zero_area(map, size, 0, nr, 0)\<close>: the lowest index where \<open>nr\<close> clear
  bits start, or a value past the end of the bitmap when there is none.
\<close>

definition bitmap_find_next_zero_area :: "bitmap \<Rightarrow> nat \<Rightarrow> nat" where
  "bitmap_find_next_zero_area bm nr =
     (case find (\<lambda>i. zero_area bm i nr) [0..<Suc (length bm) - nr] of
        Some i \<Rightarrow> i
      | None \<Rightarrow> length bm + nr)"

lemma find_next_zero_area_sound:
  assumes "bitmap_find_next_zero_area bm nr < length bm"
  shows "zero_area bm (bitmap_find_next_zero_area bm nr) nr"
proof (cases "find (\<lambda>i. zero_area bm i nr) [0..<Suc (length bm) - nr]")
  case None
  with assms show ?thesis by (simp add: bitmap_find_next_zero_area_def)
next
  case (Some i)
  then have "zero_area bm i nr" by (auto simp: find_Some_iff)
  with Some show ?thesis by (simp add: bitmap_find_next_zero_area_def)
qed

lemma find_next_zero_area_complete:
  assumes "zero_area bm i nr" "0 < nr"
  shows "bitmap_find_next_zero_area bm nr \<le> i"
proof -
  have i: "i < Suc (length bm) - nr"
    using assms(1) unfolding zero_area_def by linarith
  then have "find (\<lambda>i. zero_area bm i nr) [0..<Suc (length bm) - nr] \<noteq> None"
    using assms(1) by (auto simp: find_None_iff)
  then obtain j where j: "find (\<lambda>i. zero_area bm i nr) [0..<Suc (length bm) - nr] = Some j"
    by blast
  then have "j \<le> i"
    using i assms(1) by (auto simp: find_Some_iff not_less [symmetric])
  with j show ?thesis by (simp add: bitmap_find_next_zero_area_def)
qed

section \<open>Disjoint ranges\<close>

text \<open>
  The resources that are partitioned between the PF and the VFs (GuC contexts, doorbells, GGTT
  addresses) are given out as ranges \<open>(start, number)\<close>, one per owner. \<open>ranges_ok sz I R\<close>
  says that the ranges of the owners in \<open>I\<close> lie below \<open>sz\<close> and do not overlap.
\<close>

definition range_set :: "nat \<times> nat \<Rightarrow> nat set" where
  "range_set r = {fst r..<fst r + snd r}"

definition ranges_ok :: "nat \<Rightarrow> nat set \<Rightarrow> (nat \<Rightarrow> nat \<times> nat) \<Rightarrow> bool" where
  "ranges_ok sz I R \<longleftrightarrow>
     (\<forall>i \<in> I. snd (R i) \<noteq> 0 \<longrightarrow> fst (R i) + snd (R i) \<le> sz) \<and>
     (\<forall>i \<in> I. \<forall>j \<in> I. i \<noteq> j \<longrightarrow> range_set (R i) \<inter> range_set (R j) = {})"

lemma range_set_empty [simp]: "range_set (s, 0) = {}"
  by (simp add: range_set_def)

lemma mem_range_set: "k \<in> range_set r \<longleftrightarrow> fst r \<le> k \<and> k < fst r + snd r"
  by (simp add: range_set_def)

lemma ranges_okD:
  "ranges_ok sz I R \<Longrightarrow> i \<in> I \<Longrightarrow> j \<in> I \<Longrightarrow> i \<noteq> j \<Longrightarrow>
     range_set (R i) \<inter> range_set (R j) = {}"
  by (simp add: ranges_ok_def)

lemma ranges_ok_bound:
  "ranges_ok sz I R \<Longrightarrow> i \<in> I \<Longrightarrow> snd (R i) \<noteq> 0 \<Longrightarrow> fst (R i) + snd (R i) \<le> sz"
  by (simp add: ranges_ok_def)

lemma ranges_ok_upd:
  assumes "ranges_ok sz I R"
    and "snd r \<noteq> 0 \<Longrightarrow> fst r + snd r \<le> sz"
    and "\<And>j. j \<in> I \<Longrightarrow> j \<noteq> i \<Longrightarrow> range_set r \<inter> range_set (R j) = {}"
  shows "ranges_ok sz I (R(i := r))"
  using assms unfolding ranges_ok_def by (auto simp: Int_commute)

lemma ranges_ok_release: "ranges_ok sz I R \<Longrightarrow> ranges_ok sz I (R(i := (s, 0)))"
  by (rule ranges_ok_upd) simp_all

lemma ranges_ok_cong:
  "(\<And>i. i \<in> I \<Longrightarrow> R i = R' i) \<Longrightarrow> ranges_ok sz I R \<longleftrightarrow> ranges_ok sz I R'"
  unfolding ranges_ok_def by simp

text \<open>
  The bitmap of a family of ranges, as the driver builds it: one \<open>bitmap_set\<close> per owner with
  a non-empty range.
\<close>

fun set_ranges :: "bitmap \<Rightarrow> (nat \<times> nat) list \<Rightarrow> bitmap" where
  "set_ranges bm [] = bm"
| "set_ranges bm (r # rs) = set_ranges (if snd r = 0 then bm else bitmap_set bm (fst r) (snd r)) rs"

lemma length_set_ranges [bitmap_simps]: "length (set_ranges bm rs) = length bm"
  by (induction bm rs rule: set_ranges.induct) (simp_all add: bitmap_simps)

lemma nth_set_ranges [bitmap_simps]:
  "k < length bm \<Longrightarrow> set_ranges bm rs ! k \<longleftrightarrow> bm ! k \<or> (\<exists>r \<in> set rs. k \<in> range_set r)"
proof (induction bm rs rule: set_ranges.induct)
  case (1 bm)
  then show ?case by simp
next
  case (2 bm r rs)
  then show ?case
    by (cases "snd r = 0") (auto simp: bitmap_simps mem_range_set)
qed

text \<open>
  The contract between an allocator of ranges and its clients: the bitmap of the owners' ranges
  has a bit for every unit, set exactly when some owner's range covers it. \<open>first\<close> is the first
  owner that the bitmap counts.
\<close>

locale range_bitmap =
  fixes sz :: nat
    and first :: nat
    and rng :: "nat \<Rightarrow> 'c \<Rightarrow> nat \<times> nat"
    and bitmap :: "(nat \<Rightarrow> 'c) \<Rightarrow> nat \<Rightarrow> bitmap"
  assumes length_bitmap: "length (bitmap cs tot) = sz"
    and nth_bitmap: "k < sz \<Longrightarrow>
      bitmap cs tot ! k \<longleftrightarrow> (\<exists>i. first \<le> i \<and> i \<le> tot \<and> k \<in> range_set (rng i (cs i)))"
begin

lemma zero_area_disjoint:
  assumes "zero_area (bitmap cs tot) s n" "first \<le> j" "j \<le> tot"
  shows "range_set (s, n) \<inter> range_set (rng j (cs j)) = {}"
proof -
  have "\<not> (k \<in> range_set (s, n) \<and> k \<in> range_set (rng j (cs j)))" for k
    using assms nth_bitmap [of k cs tot] length_bitmap [of cs tot]
    unfolding zero_area_iff mem_range_set by auto
  then show ?thesis by blast
qed

lemma alloc_keeps_ranges_ok:
  assumes "ranges_ok sz {first..tot} (\<lambda>i. rng i (cs i))"
    and "zero_area (bitmap cs tot) s n"
    and "rng i c = (s, n)"
  shows "ranges_ok sz {first..tot} (\<lambda>j. rng j ((cs(i := c)) j))"
proof -
  have "ranges_ok sz {first..tot} ((\<lambda>i. rng i (cs i))(i := (s, n)))"
  proof (rule ranges_ok_upd [OF assms(1)])
    show "fst (s, n) + snd (s, n) \<le> sz"
      using assms(2) by (simp add: zero_area_def length_bitmap)
  next
    fix j assume "j \<in> {first..tot}"
    then show "range_set (s, n) \<inter> range_set (rng j (cs j)) = {}"
      using zero_area_disjoint [OF assms(2)] by simp
  qed
  moreover have "(\<lambda>i. rng i (cs i))(i := (s, n)) = (\<lambda>j. rng j ((cs(i := c)) j))"
    using assms(3) by auto
  ultimately show ?thesis by simp
qed

lemma release_keeps_ranges_ok:
  assumes "ranges_ok sz {first..tot} (\<lambda>i. rng i (cs i))" "snd (rng i c) = 0"
  shows "ranges_ok sz {first..tot} (\<lambda>j. rng j ((cs(i := c)) j))"
proof -
  have "(\<lambda>i. rng i (cs i))(i := (fst (rng i c), 0)) = (\<lambda>j. rng j ((cs(i := c)) j))"
    using assms(2) by (auto simp: prod_eq_iff)
  with ranges_ok_release [OF assms(1), of i "fst (rng i c)"] show ?thesis by simp
qed

end

end
