(* ===== verification/Iov_Types.thy ===== *)
theory Iov_Types
  imports Iov_Prelude
begin

text \<open>
  The data of the SR-IOV PF (\<open>gt/iov/intel_iov_types.h\<close>, \<open>i915_sriov_types.h\<close>) as records, the
  device state that the PF operations read and write, and the environment: what the code under
  \<open>gt/iov\<close> calls but does not implement (GuC firmware replies, memory allocation, the
  \<open>drm_mm\<close> range manager), as functions of the call history, so that every theorem holds for
  every behaviour of them that its hypotheses allow.
\<close>

section \<open>Configuration records\<close>

datatype (plugins only: code) intel_iov_threshold =
    IOV_THRESHOLD_CAT_ERR
  | IOV_THRESHOLD_ENGINE_RESET
  | IOV_THRESHOLD_PAGE_FAULT
  | IOV_THRESHOLD_H2G_STORM
  | IOV_THRESHOLD_IRQ_STORM
  | IOV_THRESHOLD_DOORBELL_STORM

text \<open>The expansion order of the \<open>IOV_THRESHOLDS\<close> macro.\<close>

definition IOV_THRESHOLDS :: "intel_iov_threshold list" where
  "IOV_THRESHOLDS =
     [IOV_THRESHOLD_CAT_ERR, IOV_THRESHOLD_ENGINE_RESET, IOV_THRESHOLD_PAGE_FAULT,
      IOV_THRESHOLD_H2G_STORM, IOV_THRESHOLD_IRQ_STORM, IOV_THRESHOLD_DOORBELL_STORM]"

lemma set_IOV_THRESHOLDS: "t \<in> set IOV_THRESHOLDS"
  by (cases t) (simp_all add: IOV_THRESHOLDS_def)

text \<open>A \<open>struct drm_mm_node\<close>; where the source asks \<open>drm_mm_node_allocated\<close>, the model has
  \<open>Some node\<close>.\<close>

record drm_mm_node =
  node_start :: u64
  node_size :: u64

record intel_iov_config =
  ggtt_region :: "drm_mm_node option"
  num_ctxs :: u16
  begin_ctx :: u16
  num_dbs :: u16
  begin_db :: u16
  exec_quantum :: u32
  preempt_timeout :: u32
  thresholds :: "intel_iov_threshold \<Rightarrow> u32"

record intel_iov_spare_config =
  spare_ggtt_size :: u64
  spare_num_ctxs :: u16
  spare_num_dbs :: u16

record intel_iov_policies =
  sched_if_idle :: bool
  reset_engine :: bool
  sample_period :: u32

text \<open>
  The flexible array \<open>configs\<close> is indexed by VF identifier, entry 0 being the PF. Every access
  of the source is guarded by \<open>id \<le> total_vfs\<close>, so the array is a function of the identifier.
\<close>

record intel_iov_provisioning =
  auto_mode :: bool
  num_pushed :: nat
  policies :: intel_iov_policies
  spare :: intel_iov_spare_config
  configs :: "nat \<Rightarrow> intel_iov_config"
  self_done :: bool
  worker_queued :: bool

definition zero_config :: intel_iov_config where
  "zero_config = \<lparr>ggtt_region = None, num_ctxs = 0, begin_ctx = 0, num_dbs = 0, begin_db = 0,
     exec_quantum = 0, preempt_timeout = 0, thresholds = (\<lambda>_. 0)\<rparr>"

abbreviation (input) PFID :: nat where "PFID \<equiv> 0"

section \<open>The GTs and the device\<close>

text \<open>A device has a primary GT (the root of the IOV data) and possibly a media GT.\<close>

datatype (plugins only: code) intel_gt_type = GT_PRIMARY | GT_MEDIA

text \<open>What the GuC sees of one request: the request dwords and the contents of the buffer whose
  GGTT address the request carries.\<close>

record guc_msg =
  msg_request :: "u32 list"
  msg_blob :: "u32 list"

record iov_gt =
  prov :: intel_iov_provisioning
  shadows_ggtt :: "(nat \<Rightarrow> u64 list option) option"
  guc_log :: "guc_msg list"
  guc_ids_in_use :: u16
  guc_ids_empty :: bool
  num_guc_ids :: u32
  wopcm_guc_size :: u64

text \<open>
  \<open>sriov_status\<close> is \<open>i915->sriov.pf.__status\<close>: 0 while the PF is being initialised, the number
  of VFs once it is confirmed, a negative errno once it is aborted.
\<close>

record i915_state =
  driver_vfs :: u16
  pci_num_vf :: u16
  sriov_status :: "nat res"
  disable_auto_provisioning :: bool
  has_media_gt :: bool
  gts :: "intel_gt_type \<Rightarrow> iov_gt"
  ggtt_pf_nodes :: "drm_mm_node list"
  ggtt_pin_bias :: u64
  ggtt_total :: u64
  ggtt_ptes :: "nat \<Rightarrow> u64"
  allocs :: nat
  bitmaps_live :: nat

definition for_each_gt :: "i915_state \<Rightarrow> intel_gt_type list" where
  "for_each_gt s = GT_PRIMARY # (if has_media_gt s then [GT_MEDIA] else [])"

definition pf_get_totalvfs :: "i915_state \<Rightarrow> nat" where
  "pf_get_totalvfs s = unat (driver_vfs s)"

definition pf_get_numvfs :: "i915_state \<Rightarrow> nat" where
  "pf_get_numvfs s = unat (pci_num_vf s)"

abbreviation provisioning :: "intel_gt_type \<Rightarrow> i915_state \<Rightarrow> intel_iov_provisioning" where
  "provisioning g s \<equiv> prov (gts s g)"

abbreviation config :: "intel_gt_type \<Rightarrow> nat \<Rightarrow> i915_state \<Rightarrow> intel_iov_config" where
  "config g vf s \<equiv> configs (provisioning g s) vf"

text \<open>The predicates on which pushes depend: a configuration is pushed to the GuC as soon as it
  changes, but only for a VF that is enabled and was pushed before.\<close>

definition pf_is_vf_enabled :: "nat \<Rightarrow> i915_state \<Rightarrow> bool" where
  "pf_is_vf_enabled vf s \<longleftrightarrow> vf \<le> pf_get_numvfs s"

definition pf_is_config_pushed :: "intel_gt_type \<Rightarrow> nat \<Rightarrow> i915_state \<Rightarrow> bool" where
  "pf_is_config_pushed g vf s \<longleftrightarrow> vf \<le> num_pushed (provisioning g s)"

definition pf_needs_push_config :: "intel_gt_type \<Rightarrow> nat \<Rightarrow> i915_state \<Rightarrow> bool" where
  "pf_needs_push_config g vf s \<longleftrightarrow>
     vf \<noteq> PFID \<and> pf_is_vf_enabled vf s \<and> pf_is_config_pushed g vf s"

text \<open>\<open>i915_sriov_pf_set_auto_provisioning(i915, false)\<close>: disabling is always allowed.\<close>

definition pf_mark_manual_provisioning :: "i915_state \<Rightarrow> i915_state" where
  "pf_mark_manual_provisioning s =
     (if disable_auto_provisioning s then s else s\<lparr>disable_auto_provisioning := True\<rparr>)"

section \<open>Updates of one GT, its provisioning data, one configuration\<close>

definition upd_gt :: "intel_gt_type \<Rightarrow> (iov_gt \<Rightarrow> iov_gt) \<Rightarrow> i915_state \<Rightarrow> i915_state" where
  "upd_gt g f s = s\<lparr>gts := (gts s)(g := f (gts s g))\<rparr>"

definition upd_prov ::
    "intel_gt_type \<Rightarrow> (intel_iov_provisioning \<Rightarrow> intel_iov_provisioning) \<Rightarrow> i915_state \<Rightarrow> i915_state"
  where "upd_prov g f s = upd_gt g (\<lambda>t. t\<lparr>prov := f (prov t)\<rparr>) s"

definition upd_config ::
    "intel_gt_type \<Rightarrow> nat \<Rightarrow> (intel_iov_config \<Rightarrow> intel_iov_config) \<Rightarrow> i915_state \<Rightarrow> i915_state"
  where "upd_config g vf f s =
    upd_prov g (\<lambda>p. p\<lparr>configs := (configs p)(vf := f (configs p vf))\<rparr>) s"

lemma gts_upd_gt [simp]: "gts (upd_gt g f s) = (gts s)(g := f (gts s g))"
  by (simp add: upd_gt_def)

lemma gts_upd_prov [simp]:
  "gts (upd_prov g f s) = (gts s)(g := (gts s g)\<lparr>prov := f (provisioning g s)\<rparr>)"
  by (simp add: upd_prov_def)

lemma gts_upd_config [simp]:
  "gts (upd_config g vf f s) = (gts s)(g := (gts s g)\<lparr>prov := (provisioning g s)
     \<lparr>configs := (configs (provisioning g s))(vf := f (config g vf s))\<rparr>\<rparr>)"
  by (simp add: upd_config_def)

lemma upd_gt_frame [simp]:
  "driver_vfs (upd_gt g f s) = driver_vfs s"
  "pci_num_vf (upd_gt g f s) = pci_num_vf s"
  "sriov_status (upd_gt g f s) = sriov_status s"
  "disable_auto_provisioning (upd_gt g f s) = disable_auto_provisioning s"
  "has_media_gt (upd_gt g f s) = has_media_gt s"
  "ggtt_pf_nodes (upd_gt g f s) = ggtt_pf_nodes s"
  "ggtt_pin_bias (upd_gt g f s) = ggtt_pin_bias s"
  "ggtt_total (upd_gt g f s) = ggtt_total s"
  "ggtt_ptes (upd_gt g f s) = ggtt_ptes s"
  "allocs (upd_gt g f s) = allocs s"
  "bitmaps_live (upd_gt g f s) = bitmaps_live s"
  by (simp_all add: upd_gt_def)

lemma upd_prov_frame [simp]:
  "driver_vfs (upd_prov g f' s) = driver_vfs s"
  "pci_num_vf (upd_prov g f' s) = pci_num_vf s"
  "sriov_status (upd_prov g f' s) = sriov_status s"
  "disable_auto_provisioning (upd_prov g f' s) = disable_auto_provisioning s"
  "has_media_gt (upd_prov g f' s) = has_media_gt s"
  "ggtt_pf_nodes (upd_prov g f' s) = ggtt_pf_nodes s"
  "ggtt_pin_bias (upd_prov g f' s) = ggtt_pin_bias s"
  "ggtt_total (upd_prov g f' s) = ggtt_total s"
  "ggtt_ptes (upd_prov g f' s) = ggtt_ptes s"
  "allocs (upd_prov g f' s) = allocs s"
  "bitmaps_live (upd_prov g f' s) = bitmaps_live s"
  by (simp_all add: upd_prov_def)

lemma upd_config_frame [simp]:
  "driver_vfs (upd_config g vf h s) = driver_vfs s"
  "pci_num_vf (upd_config g vf h s) = pci_num_vf s"
  "sriov_status (upd_config g vf h s) = sriov_status s"
  "disable_auto_provisioning (upd_config g vf h s) = disable_auto_provisioning s"
  "has_media_gt (upd_config g vf h s) = has_media_gt s"
  "ggtt_pf_nodes (upd_config g vf h s) = ggtt_pf_nodes s"
  "ggtt_pin_bias (upd_config g vf h s) = ggtt_pin_bias s"
  "ggtt_total (upd_config g vf h s) = ggtt_total s"
  "ggtt_ptes (upd_config g vf h s) = ggtt_ptes s"
  "allocs (upd_config g vf h s) = allocs s"
  "bitmaps_live (upd_config g vf h s) = bitmaps_live s"
  by (simp_all add: upd_config_def)

lemma pf_get_totalvfs_upd [simp]:
  "pf_get_totalvfs (upd_gt g f s) = pf_get_totalvfs s"
  "pf_get_totalvfs (upd_prov g f' s) = pf_get_totalvfs s"
  "pf_get_totalvfs (upd_config g vf h s) = pf_get_totalvfs s"
  by (simp_all add: pf_get_totalvfs_def)

section \<open>The environment\<close>

text \<open>
  \<^item> \<open>env_alloc n\<close>: whether the \<open>n\<close>-th kernel allocation succeeds;
  \<^item> \<open>env_vma n\<close>: the GGTT address of the buffer of the \<open>n\<close>-th allocation, or the error of
    \<open>intel_guc_allocate_and_map_vma\<close>;
  \<^item> \<open>env_guc g h\<close>: what \<open>intel_guc_send\<close> returns for the last request of the history \<open>h\<close> of
    requests sent to the GuC of GT \<open>g\<close>: an error or the non-negative data word;
  \<^item> \<open>env_mm_holes ns\<close>: the holes \<open>drm_mm_for_each_hole\<close> enumerates when the nodes \<open>ns\<close> are in
    the GGTT;
  \<^item> \<open>env_mm_insert pf vf size align start end\<close>: where the range manager, after evicting
    what it evicts, puts a node of \<open>size\<close>, given the evictable PF nodes and the unevictable VF
    nodes: an error, or the address and the PF nodes that are left;
  \<^item> \<open>env_require_binder\<close>, \<open>env_bind_ready\<close>: the platform has to update GGTT PTEs through the
    binder engine, and the binder context exists;
  \<^item> \<open>env_bind_ce\<close>, \<open>env_bind_ok i\<close>: whether the binder context can be used (the GT is awake and
    not wedged), and whether the binder request that updates the PTEs from page \<open>i\<close> on succeeds;
  \<^item> \<open>env_scratch_pte\<close>: the PTE of the scratch page;
  \<^item> \<open>env_stale_node g vf\<close>: the start and size that the range manager has left in the node of the
    GGTT region of a VF that has none: zeros when the VF was never provisioned, else what removing
    the node leaves there.
\<close>

record iov_env =
  env_alloc :: "nat \<Rightarrow> bool"
  env_vma :: "nat \<Rightarrow> u32 res"
  env_guc :: "intel_gt_type \<Rightarrow> guc_msg list \<Rightarrow> nat res"
  env_mm_holes :: "drm_mm_node list \<Rightarrow> (u64 \<times> u64) list"
  env_mm_insert :: "drm_mm_node list \<Rightarrow> drm_mm_node list \<Rightarrow> u64 \<Rightarrow> u64 \<Rightarrow> u64 \<Rightarrow> u64 \<Rightarrow>
    (u64 \<times> drm_mm_node list) res"
  env_require_binder :: bool
  env_bind_ready :: bool
  env_bind_ce :: bool
  env_bind_ok :: "nat \<Rightarrow> bool"
  env_scratch_pte :: u64
  env_stale_node :: "intel_gt_type \<Rightarrow> nat \<Rightarrow> drm_mm_node"

definition kmalloc :: "iov_env \<Rightarrow> i915_state \<Rightarrow> bool \<times> i915_state" where
  "kmalloc E s = (env_alloc E (allocs s), s\<lparr>allocs := Suc (allocs s)\<rparr>)"

definition bitmap_zalloc :: "iov_env \<Rightarrow> nat \<Rightarrow> i915_state \<Rightarrow> bitmap option \<times> i915_state" where
  "bitmap_zalloc E n s =
     (case kmalloc E s of (ok, s1) \<Rightarrow>
        if ok then (Some (bitmap_zero n), s1\<lparr>bitmaps_live := Suc (bitmaps_live s1)\<rparr>)
        else (None, s1))"

definition bitmap_free :: "i915_state \<Rightarrow> i915_state" where
  "bitmap_free s = s\<lparr>bitmaps_live := bitmaps_live s - 1\<rparr>"

definition intel_guc_allocate_and_map_vma :: "iov_env \<Rightarrow> i915_state \<Rightarrow> u32 res \<times> i915_state" where
  "intel_guc_allocate_and_map_vma E s = (env_vma E (allocs s), s\<lparr>allocs := Suc (allocs s)\<rparr>)"

definition intel_guc_send ::
    "iov_env \<Rightarrow> intel_gt_type \<Rightarrow> u32 list \<Rightarrow> u32 list \<Rightarrow> i915_state \<Rightarrow> nat res \<times> i915_state"
  where "intel_guc_send E g req blob s =
    (let h = guc_log (gts s g) @ [\<lparr>msg_request = req, msg_blob = blob\<rparr>]
     in (env_guc E g h, upd_gt g (\<lambda>t. t\<lparr>guc_log := h\<rparr>) s))"

section \<open>A concrete environment and device\<close>

text \<open>
  Used where a theorem is applied at a concrete input: allocations succeed, the GuC acknowledges
  one KLV per request, the GGTT is one hole above the first 16 MiB and nodes are put at its
  start; a device with two VFs and nothing provisioned.
\<close>

definition quiet_env :: iov_env where
  "quiet_env = \<lparr>env_alloc = (\<lambda>_. True), env_vma = (\<lambda>_. Inr 0x1000), env_guc = (\<lambda>_ _. Inr 1),
     env_mm_holes = (\<lambda>ns. if ns = [] then [(0x1000000, 0x80000000)] else []),
     env_mm_insert = (\<lambda>pf vf sz al st en. if vf = [] then Inr (st, []) else Inl ENOSPC),
     env_require_binder = False, env_bind_ready = False, env_bind_ce = True, env_bind_ok = (\<lambda>_. True),
     env_scratch_pte = 0, env_stale_node = (\<lambda>_ _. \<lparr>node_start = 0, node_size = 0\<rparr>)\<rparr>"

definition fresh_gt :: iov_gt where
  "fresh_gt = \<lparr>prov = \<lparr>auto_mode = False, num_pushed = 0,
       policies = \<lparr>sched_if_idle = False, reset_engine = False, sample_period = 0\<rparr>,
       spare = \<lparr>spare_ggtt_size = 0, spare_num_ctxs = 0, spare_num_dbs = 0\<rparr>,
       configs = (\<lambda>_. zero_config), self_done = False, worker_queued = False\<rparr>,
     shadows_ggtt = None, guc_log = [], guc_ids_in_use = 0, guc_ids_empty = True,
     num_guc_ids = 65535, wopcm_guc_size = 0x100000\<rparr>"

definition fresh_state :: i915_state where
  "fresh_state = \<lparr>driver_vfs = 2, pci_num_vf = 0, sriov_status = Inr 2,
     disable_auto_provisioning = False, has_media_gt = False, gts = (\<lambda>_. fresh_gt),
     ggtt_pf_nodes = [], ggtt_pin_bias = 0x1000000, ggtt_total = 0x100000000,
     ggtt_ptes = (\<lambda>_. 0), allocs = 0, bitmaps_live = 0\<rparr>"

lemma fresh_config [simp]: "config g vf fresh_state = zero_config"
  by (simp add: fresh_state_def fresh_gt_def)

lemma fresh_totalvfs [simp]: "pf_get_totalvfs fresh_state = 2"
  by (simp add: fresh_state_def pf_get_totalvfs_def)

end
