(* ===== verification/Iov_Guc.thy ===== *)
theory Iov_Guc
  imports Iov_Types
begin

text \<open>
  The key-length-value (KLV) messages that the PF sends to the GuC
  (\<open>gt/uc/abi/guc_klvs_abi.h\<close>) and the functions of
  \<open>gt/iov/intel_iov_provisioning.c\<close> that build and send them, up to the encoding of a whole
  VF configuration. The parser is the one of \<open>pf_verify_config_klvs\<close>; the round trip of the
  encoder through it says what configuration the GuC receives.
\<close>

section \<open>Keys\<close>

abbreviation GUC_KLV_VGT_POLICY_SCHED_IF_IDLE_KEY :: u32
  where "GUC_KLV_VGT_POLICY_SCHED_IF_IDLE_KEY \<equiv> 0x8001"
abbreviation GUC_KLV_VGT_POLICY_ADVERSE_SAMPLE_PERIOD_KEY :: u32
  where "GUC_KLV_VGT_POLICY_ADVERSE_SAMPLE_PERIOD_KEY \<equiv> 0x8002"
abbreviation GUC_KLV_VGT_POLICY_RESET_AFTER_VF_SWITCH_KEY :: u32
  where "GUC_KLV_VGT_POLICY_RESET_AFTER_VF_SWITCH_KEY \<equiv> 0x8D00"
abbreviation GUC_KLV_VF_CFG_GGTT_START_KEY :: u32 where "GUC_KLV_VF_CFG_GGTT_START_KEY \<equiv> 0x0001"
abbreviation GUC_KLV_VF_CFG_GGTT_SIZE_KEY :: u32 where "GUC_KLV_VF_CFG_GGTT_SIZE_KEY \<equiv> 0x0002"
abbreviation GUC_KLV_VF_CFG_NUM_CONTEXTS_KEY :: u32 where "GUC_KLV_VF_CFG_NUM_CONTEXTS_KEY \<equiv> 0x0004"
abbreviation GUC_KLV_VF_CFG_NUM_DOORBELLS_KEY :: u32
  where "GUC_KLV_VF_CFG_NUM_DOORBELLS_KEY \<equiv> 0x0006"
abbreviation GUC_KLV_VF_CFG_EXEC_QUANTUM_KEY :: u32 where "GUC_KLV_VF_CFG_EXEC_QUANTUM_KEY \<equiv> 0x8a01"
abbreviation GUC_KLV_VF_CFG_PREEMPT_TIMEOUT_KEY :: u32
  where "GUC_KLV_VF_CFG_PREEMPT_TIMEOUT_KEY \<equiv> 0x8a02"
abbreviation GUC_KLV_VF_CFG_BEGIN_DOORBELL_ID_KEY :: u32
  where "GUC_KLV_VF_CFG_BEGIN_DOORBELL_ID_KEY \<equiv> 0x8a0a"
abbreviation GUC_KLV_VF_CFG_BEGIN_CONTEXT_ID_KEY :: u32
  where "GUC_KLV_VF_CFG_BEGIN_CONTEXT_ID_KEY \<equiv> 0x8a0b"

fun intel_iov_threshold_to_klv_key :: "intel_iov_threshold \<Rightarrow> u32" where
  "intel_iov_threshold_to_klv_key IOV_THRESHOLD_CAT_ERR = 0x8a03"
| "intel_iov_threshold_to_klv_key IOV_THRESHOLD_ENGINE_RESET = 0x8a04"
| "intel_iov_threshold_to_klv_key IOV_THRESHOLD_PAGE_FAULT = 0x8a05"
| "intel_iov_threshold_to_klv_key IOV_THRESHOLD_H2G_STORM = 0x8a06"
| "intel_iov_threshold_to_klv_key IOV_THRESHOLD_IRQ_STORM = 0x8a07"
| "intel_iov_threshold_to_klv_key IOV_THRESHOLD_DOORBELL_STORM = 0x8a08"

definition MAKE_GUC_KLV :: "u32 \<Rightarrow> u32 \<Rightarrow> u32" where
  "MAKE_GUC_KLV key len = FIELD_PREP 16 16 key OR FIELD_PREP 16 0 len"

lemma MAKE_GUC_KLV_fields [field_simps_guc]:
  "FIELD_GET 16 16 (MAKE_GUC_KLV key len) = take_bit 16 key"
  "FIELD_GET 16 0 (MAKE_GUC_KLV key len) = take_bit 16 len"
  unfolding MAKE_GUC_KLV_def by (simp_all add: field_simps_guc)

section \<open>Parsing KLVs\<close>

text \<open>
  The loop of \<open>pf_verify_config_klvs\<close>: the KLVs found, or \<open>None\<close> where the source
  asserts with \<open>GEM_BUG_ON\<close> that the value fits into the rest of the buffer.
\<close>

function pf_verify_config_klvs :: "u32 list \<Rightarrow> (u32 \<times> u32 list) list option" where
  "pf_verify_config_klvs [] = Some []"
| "pf_verify_config_klvs (w # cfg) =
     (let key = FIELD_GET 16 16 w; len = unat (FIELD_GET 16 0 w)
      in if length cfg < len then None
         else map_option (Cons (key, take len cfg)) (pf_verify_config_klvs (drop len cfg)))"
  by pat_completeness auto
termination
  by (relation "measure length") auto

lemma verify_klv32:
  "key < 0x10000 \<Longrightarrow> pf_verify_config_klvs (MAKE_GUC_KLV key 1 # v # cfg) =
     map_option (Cons (key, [v])) (pf_verify_config_klvs cfg)"
proof -
  assume "key < 0x10000"
  then have "take_bit 16 key = key"
    by (intro take_bit_word_small) (simp add: word_less_nat_alt)
  then show ?thesis by (simp add: field_simps_guc Let_def)
qed

lemma verify_klv64:
  "key < 0x10000 \<Longrightarrow> pf_verify_config_klvs (MAKE_GUC_KLV key 2 # lo # hi # cfg) =
     map_option (Cons (key, [lo, hi])) (pf_verify_config_klvs cfg)"
proof -
  assume "key < 0x10000"
  then have "take_bit 16 key = key"
    by (intro take_bit_word_small) (simp add: word_less_nat_alt)
  then show ?thesis by (simp add: field_simps_guc Let_def)
qed

section \<open>Sending KLVs\<close>

abbreviation GUC_ACTION_PF2GUC_UPDATE_VGT_POLICY :: u32
  where "GUC_ACTION_PF2GUC_UPDATE_VGT_POLICY \<equiv> 0x5502"
abbreviation GUC_ACTION_PF2GUC_UPDATE_VF_CFG :: u32
  where "GUC_ACTION_PF2GUC_UPDATE_VF_CFG \<equiv> 0x5503"

definition guc_action_update_policy_cfg ::
    "iov_env \<Rightarrow> intel_gt_type \<Rightarrow> u64 \<Rightarrow> u32 \<Rightarrow> u32 list \<Rightarrow> i915_state \<Rightarrow> nat res \<times> i915_state" where
  "guc_action_update_policy_cfg E g addr sz blob s =
     intel_guc_send E g
       [GUC_ACTION_PF2GUC_UPDATE_VGT_POLICY, lower_32_bits addr, upper_32_bits addr, sz] blob s"

definition guc_action_update_vf_cfg ::
    "iov_env \<Rightarrow> intel_gt_type \<Rightarrow> nat \<Rightarrow> u64 \<Rightarrow> u32 \<Rightarrow> u32 list \<Rightarrow> i915_state \<Rightarrow> nat res \<times> i915_state"
  where
  "guc_action_update_vf_cfg E g vf addr sz blob s =
     intel_guc_send E g
       [GUC_ACTION_PF2GUC_UPDATE_VF_CFG, of_nat vf, lower_32_bits addr, upper_32_bits addr, sz] blob s"

text \<open>The GuC replies with the number of KLVs it parsed; exactly one was sent.\<close>

definition klv_reply :: "nat res \<Rightarrow> unit res" where
  "klv_reply r = (case r of
      Inl e \<Rightarrow> Inl e
    | Inr n \<Rightarrow> if n = 0 then Inl ENOKEY else if n > 1 then Inl EPROTO else Inr ())"

lemma klv_reply_ok [simp]: "klv_reply r = Inr u \<longleftrightarrow> r = Inr 1"
  by (auto simp: klv_reply_def split: sum.splits)

definition guc_update_policy_klv32 ::
    "iov_env \<Rightarrow> intel_gt_type \<Rightarrow> u32 \<Rightarrow> u32 \<Rightarrow> i915_state \<Rightarrow> unit res \<times> i915_state" where
  "guc_update_policy_klv32 E g key value s =
     (case intel_guc_allocate_and_map_vma E s of
        (Inl e, s1) \<Rightarrow> (Inl e, s1)
      | (Inr addr, s1) \<Rightarrow>
          (case guc_action_update_policy_cfg E g (ucast addr) 2 [MAKE_GUC_KLV key 1, value] s1 of
             (r, s2) \<Rightarrow> (klv_reply r, s2)))"

definition guc_update_vf_klv32 ::
    "iov_env \<Rightarrow> intel_gt_type \<Rightarrow> nat \<Rightarrow> u32 \<Rightarrow> u32 \<Rightarrow> i915_state \<Rightarrow> unit res \<times> i915_state" where
  "guc_update_vf_klv32 E g vf key value s =
     (case intel_guc_allocate_and_map_vma E s of
        (Inl e, s1) \<Rightarrow> (Inl e, s1)
      | (Inr addr, s1) \<Rightarrow>
          (case guc_action_update_vf_cfg E g vf (ucast addr) 2 [MAKE_GUC_KLV key 1, value] s1 of
             (r, s2) \<Rightarrow> (klv_reply r, s2)))"

definition guc_update_vf_klv64 ::
    "iov_env \<Rightarrow> intel_gt_type \<Rightarrow> nat \<Rightarrow> u32 \<Rightarrow> u64 \<Rightarrow> i915_state \<Rightarrow> unit res \<times> i915_state" where
  "guc_update_vf_klv64 E g vf key value s =
     (case intel_guc_allocate_and_map_vma E s of
        (Inl e, s1) \<Rightarrow> (Inl e, s1)
      | (Inr addr, s1) \<Rightarrow>
          (case guc_action_update_vf_cfg E g vf (ucast addr) 3
                  [MAKE_GUC_KLV key 2, lower_32_bits value, upper_32_bits value] s1 of
             (r, s2) \<Rightarrow> (klv_reply r, s2)))"

section \<open>What sending leaves alone\<close>

text \<open>
  A push changes the log of requests of one GuC and the allocation counter, nothing else.
  \<open>guc_only s s'\<close> is that relation; every component that pushes uses it as its frame.
\<close>

definition guc_only :: "i915_state \<Rightarrow> i915_state \<Rightarrow> bool" where
  "guc_only s s' \<longleftrightarrow>
     (\<exists>n logs. s' = s\<lparr>allocs := n, gts := (\<lambda>g. (gts s g)\<lparr>guc_log := logs g\<rparr>)\<rparr>)"

lemma guc_only_refl [simp, intro]: "guc_only s s"
  unfolding guc_only_def
  by (rule exI [of _ "allocs s"], rule exI [of _ "\<lambda>g. guc_log (gts s g)"]) simp

lemma guc_only_trans [trans]: "guc_only s s1 \<Longrightarrow> guc_only s1 s2 \<Longrightarrow> guc_only s s2"
  unfolding guc_only_def by fastforce

lemma guc_onlyD:
  assumes "guc_only s s'"
  shows "prov (gts s' g) = prov (gts s g)" "shadows_ggtt (gts s' g) = shadows_ggtt (gts s g)"
    "guc_ids_in_use (gts s' g) = guc_ids_in_use (gts s g)"
    "num_guc_ids (gts s' g) = num_guc_ids (gts s g)"
    "guc_ids_empty (gts s' g) = guc_ids_empty (gts s g)"
    "wopcm_guc_size (gts s' g) = wopcm_guc_size (gts s g)"
    "driver_vfs s' = driver_vfs s" "pci_num_vf s' = pci_num_vf s" "sriov_status s' = sriov_status s"
    "disable_auto_provisioning s' = disable_auto_provisioning s"
    "has_media_gt s' = has_media_gt s" "ggtt_pf_nodes s' = ggtt_pf_nodes s"
    "ggtt_pin_bias s' = ggtt_pin_bias s" "ggtt_total s' = ggtt_total s" "ggtt_ptes s' = ggtt_ptes s"
    "bitmaps_live s' = bitmaps_live s" "pf_get_totalvfs s' = pf_get_totalvfs s"
    "pf_get_numvfs s' = pf_get_numvfs s"
  using assms by (auto simp: guc_only_def pf_get_totalvfs_def pf_get_numvfs_def)

lemma guc_only_send: "intel_guc_send E g req blob s = (r, s') \<Longrightarrow> guc_only s s'"
proof -
  let ?h = "guc_log (gts s g) @ [\<lparr>msg_request = req, msg_blob = blob\<rparr>]"
  assume "intel_guc_send E g req blob s = (r, s')"
  then have "s' = s\<lparr>gts := (gts s)(g := (gts s g)\<lparr>guc_log := ?h\<rparr>)\<rparr>"
    by (simp add: intel_guc_send_def upd_gt_def Let_def)
  moreover have "(gts s)(g := (gts s g)\<lparr>guc_log := ?h\<rparr>) =
      (\<lambda>g'. (gts s g')\<lparr>guc_log := ((\<lambda>g. guc_log (gts s g))(g := ?h)) g'\<rparr>)"
    by auto
  ultimately have "s' = s\<lparr>allocs := allocs s,
      gts := (\<lambda>g'. (gts s g')\<lparr>guc_log := ((\<lambda>g. guc_log (gts s g))(g := ?h)) g'\<rparr>)\<rparr>"
    by simp
  then show ?thesis unfolding guc_only_def by blast
qed

lemma guc_only_vma: "intel_guc_allocate_and_map_vma E s = (r, s') \<Longrightarrow> guc_only s s'"
  unfolding intel_guc_allocate_and_map_vma_def guc_only_def
  by (auto intro!: exI [of _ "Suc (allocs s)"] exI [of _ "\<lambda>g. guc_log (gts s g)"])

lemma guc_only_policy_klv32: "guc_update_policy_klv32 E g key v s = (r, s') \<Longrightarrow> guc_only s s'"
  unfolding guc_update_policy_klv32_def guc_action_update_policy_cfg_def
  by (auto split: prod.splits sum.splits dest!: guc_only_send guc_only_vma intro: guc_only_trans)

lemma guc_only_vf_klv32: "guc_update_vf_klv32 E g vf key v s = (r, s') \<Longrightarrow> guc_only s s'"
  unfolding guc_update_vf_klv32_def guc_action_update_vf_cfg_def
  by (auto split: prod.splits sum.splits dest!: guc_only_send guc_only_vma intro: guc_only_trans)

lemma guc_only_vf_klv64: "guc_update_vf_klv64 E g vf key v s = (r, s') \<Longrightarrow> guc_only s s'"
  unfolding guc_update_vf_klv64_def guc_action_update_vf_cfg_def
  by (auto split: prod.splits sum.splits dest!: guc_only_send guc_only_vma intro: guc_only_trans)

lemma guc_only_vf_cfg: "guc_action_update_vf_cfg E g vf a sz b s = (r, s') \<Longrightarrow> guc_only s s'"
  unfolding guc_action_update_vf_cfg_def by (rule guc_only_send)

section \<open>What provisioning one VF leaves alone\<close>

text \<open>
  \<open>cfg_only R g vf s s'\<close>: besides request logs and the allocation counter, the step changed at
  most the configuration of \<open>vf\<close> on GT \<open>g\<close>, and that as \<open>R\<close> allows.
\<close>

definition cfg_only ::
    "(intel_iov_config \<Rightarrow> intel_iov_config \<Rightarrow> bool) \<Rightarrow> intel_gt_type \<Rightarrow> nat \<Rightarrow> i915_state \<Rightarrow>
     i915_state \<Rightarrow> bool" where
  "cfg_only R g vf s s' \<longleftrightarrow>
     (\<exists>s1 c. guc_only s s1 \<and> s' = upd_config g vf (\<lambda>_. c) s1 \<and> R (config g vf s) c)"

lemma upd_config_const: "upd_config g vf (\<lambda>_. f (config g vf s)) s = upd_config g vf f s"
  by (simp add: upd_config_def upd_prov_def upd_gt_def)

lemma upd_config_self: "upd_config g vf (\<lambda>_. config g vf s) s = s"
proof -
  have "(gts s)(g := gts s g) = gts s" by simp
  then show ?thesis by (simp add: upd_config_def upd_prov_def upd_gt_def)
qed

lemma upd_config_twice: "upd_config g vf (\<lambda>_. c) (upd_config g vf f s) = upd_config g vf (\<lambda>_. c) s"
  by (simp add: upd_config_def upd_prov_def upd_gt_def)

lemma guc_only_upd_config:
  assumes "guc_only (upd_config g vf (\<lambda>_. c) s) s'"
  shows "\<exists>s1. guc_only s s1 \<and> s' = upd_config g vf (\<lambda>_. c) s1"
proof -
  obtain n logs where s': "s' = (upd_config g vf (\<lambda>_. c) s)\<lparr>allocs := n,
      gts := (\<lambda>g'. (gts (upd_config g vf (\<lambda>_. c) s) g')\<lparr>guc_log := logs g'\<rparr>)\<rparr>"
    using assms unfolding guc_only_def by blast
  let ?s1 = "s\<lparr>allocs := n, gts := (\<lambda>g'. (gts s g')\<lparr>guc_log := logs g'\<rparr>)\<rparr>"
  have "(\<lambda>g'. (gts (upd_config g vf (\<lambda>_. c) s) g')\<lparr>guc_log := logs g'\<rparr>) =
      gts (upd_config g vf (\<lambda>_. c) ?s1)"
    by auto
  then have "s' = upd_config g vf (\<lambda>_. c) ?s1"
    unfolding s' by (simp add: upd_config_def upd_prov_def upd_gt_def)
  moreover have "guc_only s ?s1" unfolding guc_only_def by blast
  ultimately show ?thesis by blast
qed

lemma cfg_only_guc: "guc_only s s' \<Longrightarrow> R (config g vf s) (config g vf s) \<Longrightarrow> cfg_only R g vf s s'"
  unfolding cfg_only_def using upd_config_self [of g vf s'] by (metis guc_onlyD(1))

lemma cfg_only_upd:
  "guc_only s s1 \<Longrightarrow> R (config g vf s) (f (config g vf s)) \<Longrightarrow> cfg_only R g vf s (upd_config g vf f s1)"
  unfolding cfg_only_def using upd_config_const [of g vf f s1]
  by (intro exI [of _ s1] exI [of _ "f (config g vf s)"]) (simp add: guc_onlyD)

lemma cfg_only_trans:
  assumes "transp R" "cfg_only R g vf s s1" "cfg_only R g vf s1 s2"
  shows "cfg_only R g vf s s2"
proof -
  obtain t1 c where 1: "guc_only s t1" "s1 = upd_config g vf (\<lambda>_. c) t1" "R (config g vf s) c"
    using assms(2) unfolding cfg_only_def by blast
  obtain t2 d where 2: "guc_only s1 t2" "s2 = upd_config g vf (\<lambda>_. d) t2" "R (config g vf s1) d"
    using assms(3) unfolding cfg_only_def by blast
  obtain t3 where 3: "guc_only t1 t3" "t2 = upd_config g vf (\<lambda>_. c) t3"
    using guc_only_upd_config 1(2) 2(1) by blast
  have "s2 = upd_config g vf (\<lambda>_. d) t3" using 2(2) 3(2) by (simp add: upd_config_twice)
  moreover have "guc_only s t3" using 1(1) 3(1) by (rule guc_only_trans)
  moreover have "R (config g vf s) d"
    using assms(1) 1(2,3) 2(3) by (auto elim: transpE)
  ultimately show ?thesis unfolding cfg_only_def by blast
qed

lemma cfg_onlyD:
  assumes "cfg_only R g vf s s'"
  shows "R (config g vf s) (config g vf s')"
    and "g' \<noteq> g \<or> vf' \<noteq> vf \<Longrightarrow> config g' vf' s' = config g' vf' s"
    and "\<exists>c. provisioning g' s' = (provisioning g' s)\<lparr>configs := c\<rparr>"
    and "shadows_ggtt (gts s' g') = shadows_ggtt (gts s g')"
    and "guc_ids_in_use (gts s' g') = guc_ids_in_use (gts s g')"
    and "num_guc_ids (gts s' g') = num_guc_ids (gts s g')"
    and "guc_ids_empty (gts s' g') = guc_ids_empty (gts s g')"
    and "wopcm_guc_size (gts s' g') = wopcm_guc_size (gts s g')"
    and "driver_vfs s' = driver_vfs s" "pci_num_vf s' = pci_num_vf s"
    and "sriov_status s' = sriov_status s"
    and "disable_auto_provisioning s' = disable_auto_provisioning s"
    and "has_media_gt s' = has_media_gt s" "ggtt_pf_nodes s' = ggtt_pf_nodes s"
    and "ggtt_pin_bias s' = ggtt_pin_bias s" "ggtt_total s' = ggtt_total s"
    and "ggtt_ptes s' = ggtt_ptes s" "bitmaps_live s' = bitmaps_live s"
    and "pf_get_totalvfs s' = pf_get_totalvfs s" "pf_get_numvfs s' = pf_get_numvfs s"
proof -
  obtain s1 c where 1: "guc_only s s1" "s' = upd_config g vf (\<lambda>_. c) s1" "R (config g vf s) c"
    using assms unfolding cfg_only_def by blast
  show "R (config g vf s) (config g vf s')" using 1 by simp
  show "g' \<noteq> g \<or> vf' \<noteq> vf \<Longrightarrow> config g' vf' s' = config g' vf' s"
    using 1(2) guc_onlyD(1) [OF 1(1)] by (auto split: if_splits)
  have "provisioning g' s' = (provisioning g' s)\<lparr>configs := configs (provisioning g' s')\<rparr>"
    using 1(2) guc_onlyD(1) [OF 1(1)] by auto
  then show "\<exists>c. provisioning g' s' = (provisioning g' s)\<lparr>configs := c\<rparr>" by blast
qed (use assms in \<open>auto simp: cfg_only_def guc_onlyD pf_get_numvfs_def split: if_splits\<close>)

end
