(* ===== verification/Iov_Policy.thy ===== *)
theory Iov_Policy
  imports Iov_Guc
begin

text \<open>
  The VGT policies of \<open>gt/iov/intel_iov_provisioning.c\<close>: strict scheduling, engine reset after
  a VF switch, and the sample period of adverse events. A policy is pushed to the GuC first and
  recorded only if the GuC accepted it. The pointer to the policy field that the source passes is
  the field's update function here.
\<close>

section \<open>Operations\<close>

definition policy_key_to_string :: "u32 \<Rightarrow> string" where
  "policy_key_to_string key =
     (if key = GUC_KLV_VGT_POLICY_SCHED_IF_IDLE_KEY then ''sched_if_idle''
      else if key = GUC_KLV_VGT_POLICY_ADVERSE_SAMPLE_PERIOD_KEY then ''sample_period''
      else if key = GUC_KLV_VGT_POLICY_RESET_AFTER_VF_SWITCH_KEY then ''reset_engine''
      else ''<invalid>'')"

definition pf_update_bool_policy ::
    "iov_env \<Rightarrow> intel_gt_type \<Rightarrow> u32 \<Rightarrow>
     ((bool \<Rightarrow> bool) \<Rightarrow> intel_iov_policies \<Rightarrow> intel_iov_policies) \<Rightarrow> bool \<Rightarrow> i915_state \<Rightarrow>
     unit res \<times> i915_state" where
  "pf_update_bool_policy E g key policy value s =
     (case guc_update_policy_klv32 E g key (of_bool value) s of
        (Inl e, s1) \<Rightarrow> (Inl e, s1)
      | (Inr u, s1) \<Rightarrow>
          (Inr (), upd_prov g (\<lambda>p. p\<lparr>policies := policy (\<lambda>_. value) (policies p)\<rparr>) s1))"

definition pf_update_policy_u32 ::
    "iov_env \<Rightarrow> intel_gt_type \<Rightarrow> u32 \<Rightarrow>
     ((u32 \<Rightarrow> u32) \<Rightarrow> intel_iov_policies \<Rightarrow> intel_iov_policies) \<Rightarrow> u32 \<Rightarrow> i915_state \<Rightarrow>
     unit res \<times> i915_state" where
  "pf_update_policy_u32 E g key policy value s =
     (case guc_update_policy_klv32 E g key value s of
        (Inl e, s1) \<Rightarrow> (Inl e, s1)
      | (Inr u, s1) \<Rightarrow>
          (Inr (), upd_prov g (\<lambda>p. p\<lparr>policies := policy (\<lambda>_. value) (policies p)\<rparr>) s1))"

definition pf_provision_sched_if_idle ::
    "iov_env \<Rightarrow> intel_gt_type \<Rightarrow> bool \<Rightarrow> i915_state \<Rightarrow> unit res \<times> i915_state" where
  "pf_provision_sched_if_idle E g enable s =
     pf_update_bool_policy E g GUC_KLV_VGT_POLICY_SCHED_IF_IDLE_KEY sched_if_idle_update enable s"

definition pf_reprovision_sched_if_idle ::
    "iov_env \<Rightarrow> intel_gt_type \<Rightarrow> i915_state \<Rightarrow> unit res \<times> i915_state" where
  "pf_reprovision_sched_if_idle E g s =
     pf_provision_sched_if_idle E g (sched_if_idle (policies (provisioning g s))) s"

definition intel_iov_provisioning_set_sched_if_idle ::
    "iov_env \<Rightarrow> intel_gt_type \<Rightarrow> bool \<Rightarrow> i915_state \<Rightarrow> unit res \<times> i915_state" where
  "intel_iov_provisioning_set_sched_if_idle E g enable s = pf_provision_sched_if_idle E g enable s"

definition intel_iov_provisioning_get_sched_if_idle :: "intel_gt_type \<Rightarrow> i915_state \<Rightarrow> bool" where
  "intel_iov_provisioning_get_sched_if_idle g s = sched_if_idle (policies (provisioning g s))"

definition pf_provision_reset_engine ::
    "iov_env \<Rightarrow> intel_gt_type \<Rightarrow> bool \<Rightarrow> i915_state \<Rightarrow> unit res \<times> i915_state" where
  "pf_provision_reset_engine E g enable s =
     pf_update_bool_policy E g GUC_KLV_VGT_POLICY_RESET_AFTER_VF_SWITCH_KEY reset_engine_update
       enable s"

definition pf_reprovision_reset_engine ::
    "iov_env \<Rightarrow> intel_gt_type \<Rightarrow> i915_state \<Rightarrow> unit res \<times> i915_state" where
  "pf_reprovision_reset_engine E g s =
     pf_provision_reset_engine E g (reset_engine (policies (provisioning g s))) s"

definition intel_iov_provisioning_set_reset_engine ::
    "iov_env \<Rightarrow> intel_gt_type \<Rightarrow> bool \<Rightarrow> i915_state \<Rightarrow> unit res \<times> i915_state" where
  "intel_iov_provisioning_set_reset_engine E g enable s = pf_provision_reset_engine E g enable s"

definition intel_iov_provisioning_get_reset_engine :: "intel_gt_type \<Rightarrow> i915_state \<Rightarrow> bool" where
  "intel_iov_provisioning_get_reset_engine g s = reset_engine (policies (provisioning g s))"

definition pf_provision_sample_period ::
    "iov_env \<Rightarrow> intel_gt_type \<Rightarrow> u32 \<Rightarrow> i915_state \<Rightarrow> unit res \<times> i915_state" where
  "pf_provision_sample_period E g value s =
     pf_update_policy_u32 E g GUC_KLV_VGT_POLICY_ADVERSE_SAMPLE_PERIOD_KEY sample_period_update
       value s"

definition pf_reprovision_sample_period ::
    "iov_env \<Rightarrow> intel_gt_type \<Rightarrow> i915_state \<Rightarrow> unit res \<times> i915_state" where
  "pf_reprovision_sample_period E g s =
     pf_provision_sample_period E g (sample_period (policies (provisioning g s))) s"

definition intel_iov_provisioning_set_sample_period ::
    "iov_env \<Rightarrow> intel_gt_type \<Rightarrow> u32 \<Rightarrow> i915_state \<Rightarrow> unit res \<times> i915_state" where
  "intel_iov_provisioning_set_sample_period E g value s = pf_provision_sample_period E g value s"

definition intel_iov_provisioning_get_sample_period :: "intel_gt_type \<Rightarrow> i915_state \<Rightarrow> u32" where
  "intel_iov_provisioning_get_sample_period g s = sample_period (policies (provisioning g s))"

section \<open>The policy contract\<close>

text \<open>
  What a policy setter promises, whichever policy it is: it succeeds exactly if the GuC took the
  one KLV it was sent; then the getter returns the new value; otherwise the getter is unchanged.
\<close>

locale policy_setter =
  fixes set_op :: "iov_env \<Rightarrow> intel_gt_type \<Rightarrow> 'v \<Rightarrow> i915_state \<Rightarrow> unit res \<times> i915_state"
    and get_op :: "intel_gt_type \<Rightarrow> i915_state \<Rightarrow> 'v"
    and key :: u32
    and enc :: "'v \<Rightarrow> u32"
    and upd :: "'v \<Rightarrow> intel_iov_policies \<Rightarrow> intel_iov_policies"
  assumes set_op_eq: "set_op E g v s =
      (case guc_update_policy_klv32 E g key (enc v) s of
         (Inl e, s1) \<Rightarrow> (Inl e, s1)
       | (Inr u, s1) \<Rightarrow> (Inr (), upd_prov g (\<lambda>p. p\<lparr>policies := upd v (policies p)\<rparr>) s1))"
    and get_upd: "policies (provisioning g s) = upd v q \<Longrightarrow> get_op g s = v"
    and get_cong: "policies (provisioning g s) = policies (provisioning g s') \<Longrightarrow>
      get_op g s = get_op g s'"
begin

lemma get_after_set: "set_op E g v s = (Inr u, s') \<Longrightarrow> get_op g s' = v"
  by (auto simp: set_op_eq split: prod.splits sum.splits intro!: get_upd)

lemma get_after_failed_set: "set_op E g v s = (Inl e, s') \<Longrightarrow> get_op g' s' = get_op g' s"
  by (auto simp: set_op_eq split: prod.splits sum.splits
      dest!: guc_only_policy_klv32 intro!: get_cong simp: guc_onlyD)

lemma other_gt_unchanged: "set_op E g v s = (r, s') \<Longrightarrow> g' \<noteq> g \<Longrightarrow> get_op g' s' = get_op g' s"
  by (auto simp: set_op_eq split: prod.splits sum.splits
      dest!: guc_only_policy_klv32 intro!: get_cong simp: guc_onlyD)

lemma configs_unchanged: "set_op E g v s = (r, s') \<Longrightarrow> config g' vf s' = config g' vf s"
  by (auto simp: set_op_eq guc_onlyD split: prod.splits sum.splits dest!: guc_only_policy_klv32)

lemma success_pushed:
  assumes "set_op E g v s = (Inr u, s')"
  shows "\<exists>addr. env_vma E (allocs s) = Inr addr \<and>
    guc_log (gts s' g) = guc_log (gts s g) @
      [\<lparr>msg_request = [GUC_ACTION_PF2GUC_UPDATE_VGT_POLICY, addr, 0, 2],
        msg_blob = [MAKE_GUC_KLV key 1, enc v]\<rparr>] \<and>
    env_guc E g (guc_log (gts s' g)) = Inr 1"
proof -
  have lo: "lower_32_bits (ucast a) = a" and hi: "upper_32_bits (ucast a) = 0" for a :: u32
    unfolding lower_32_bits_def upper_32_bits_def
    by (rule bit_word_eqI; auto simp: bit_simps dest: bit_imp_le_length)+
  show ?thesis
    using assms
    by (auto simp: set_op_eq guc_update_policy_klv32_def guc_action_update_policy_cfg_def
        intel_guc_allocate_and_map_vma_def intel_guc_send_def Let_def lo hi
        split: prod.splits sum.splits)
qed

end

interpretation sched_if_idle_policy: policy_setter
  intel_iov_provisioning_set_sched_if_idle intel_iov_provisioning_get_sched_if_idle
  GUC_KLV_VGT_POLICY_SCHED_IF_IDLE_KEY "of_bool" "\<lambda>v. sched_if_idle_update (\<lambda>_. v)"
  by unfold_locales
    (simp_all add: intel_iov_provisioning_set_sched_if_idle_def pf_provision_sched_if_idle_def
      pf_update_bool_policy_def intel_iov_provisioning_get_sched_if_idle_def)

interpretation reset_engine_policy: policy_setter
  intel_iov_provisioning_set_reset_engine intel_iov_provisioning_get_reset_engine
  GUC_KLV_VGT_POLICY_RESET_AFTER_VF_SWITCH_KEY "of_bool" "\<lambda>v. reset_engine_update (\<lambda>_. v)"
  by unfold_locales
    (simp_all add: intel_iov_provisioning_set_reset_engine_def pf_provision_reset_engine_def
      pf_update_bool_policy_def intel_iov_provisioning_get_reset_engine_def)

interpretation sample_period_policy: policy_setter
  intel_iov_provisioning_set_sample_period intel_iov_provisioning_get_sample_period
  GUC_KLV_VGT_POLICY_ADVERSE_SAMPLE_PERIOD_KEY "\<lambda>v. v" "\<lambda>v. sample_period_update (\<lambda>_. v)"
  by unfold_locales
    (simp_all add: intel_iov_provisioning_set_sample_period_def pf_provision_sample_period_def
      pf_update_policy_u32_def intel_iov_provisioning_get_sample_period_def)


section \<open>Properties\<close>

text \<open>
  Setting the sample period succeeds exactly when the GuC acknowledged the one KLV it
  was sent, and then the new value is what later reads return; on any error reads return the old
  value. No VF configuration changes in either case.
\<close>

theorem set_sample_period:
  assumes "intel_iov_provisioning_set_sample_period E g v s = (r, s')"
  shows "(case r of
      Inl e \<Rightarrow> intel_iov_provisioning_get_sample_period g s' = intel_iov_provisioning_get_sample_period g s
    | Inr u \<Rightarrow> intel_iov_provisioning_get_sample_period g s' = v \<and>
        (\<exists>addr. guc_log (gts s' g) = guc_log (gts s g) @
           [\<lparr>msg_request = [GUC_ACTION_PF2GUC_UPDATE_VGT_POLICY, addr, 0, 2],
             msg_blob = [MAKE_GUC_KLV GUC_KLV_VGT_POLICY_ADVERSE_SAMPLE_PERIOD_KEY 1, v]\<rparr>] \<and>
         env_guc E g (guc_log (gts s' g)) = Inr 1)) \<and>
    (\<forall>g' vf. config g' vf s' = config g' vf s)"
  using assms sample_period_policy.configs_unchanged [OF assms]
  by (cases r)
    (auto dest: sample_period_policy.get_after_set sample_period_policy.get_after_failed_set
      sample_period_policy.success_pushed)

theorem set_sample_period_witness:
  "\<exists>s'. intel_iov_provisioning_set_sample_period quiet_env GT_PRIMARY 7 fresh_state = (Inr (), s') \<and>
     intel_iov_provisioning_get_sample_period GT_PRIMARY s' = 7"
proof -
  obtain s' where "intel_iov_provisioning_set_sample_period quiet_env GT_PRIMARY 7 fresh_state = (Inr (), s')"
    by (simp add: intel_iov_provisioning_set_sample_period_def pf_provision_sample_period_def
        pf_update_policy_u32_def guc_update_policy_klv32_def intel_guc_allocate_and_map_vma_def
        guc_action_update_policy_cfg_def intel_guc_send_def Let_def quiet_env_def klv_reply_def)
  with set_sample_period [OF this] show ?thesis by auto
qed

end
