(* ===== verification/Iov_Ctxs.thy ===== *)
theory Iov_Ctxs
  imports Iov_Guc
begin

text \<open>
  Provisioning of GuC submission contexts (\<open>gt/iov/intel_iov_provisioning.c\<close>). Context
  identifiers are given out in packages of \<open>CTXS_GRANULARITY\<close>; a bitmap with one bit per package
  is rebuilt from the configurations for every search. The invariant \<open>ctxs_inv\<close> says that the
  identifiers of the PF and of all VFs are aligned to packages, in range and disjoint.
\<close>

section \<open>Packages of contexts\<close>

abbreviation CTXS_GRANULARITY :: nat where "CTXS_GRANULARITY \<equiv> 128"

definition CTXS_MODULO :: nat where "CTXS_MODULO = GUC_MAX_CONTEXT_ID mod CTXS_GRANULARITY"
definition CTXS_DELTA :: nat where "CTXS_DELTA = CTXS_GRANULARITY - CTXS_MODULO"

lemma CTXS_DELTA_eq [simp]: "CTXS_DELTA = 1"
  by (simp add: CTXS_DELTA_def CTXS_MODULO_def)

definition pf_get_min_spare_ctxs :: u16 where "pf_get_min_spare_ctxs = 256"

definition pf_get_spare_ctxs :: "intel_gt_type \<Rightarrow> i915_state \<Rightarrow> u16" where
  "pf_get_spare_ctxs g s = max (spare_num_ctxs (spare (provisioning g s))) pf_get_min_spare_ctxs"

definition intel_iov_provisioning_get_spare_ctxs :: "intel_gt_type \<Rightarrow> i915_state \<Rightarrow> u16" where
  "intel_iov_provisioning_get_spare_ctxs g s = pf_get_spare_ctxs g s"

definition intel_iov_provisioning_set_spare_ctxs ::
    "intel_gt_type \<Rightarrow> u16 \<Rightarrow> i915_state \<Rightarrow> unit res \<times> i915_state" where
  "intel_iov_provisioning_set_spare_ctxs g n s =
     (if unat n > GUC_MAX_CONTEXT_ID then (Inl EINVAL, s)
      else if n \<noteq> 0 \<and> n < pf_get_min_spare_ctxs then (Inl EINVAL, s)
      else (Inr (), upd_prov g (\<lambda>p. p\<lparr>spare := (spare p)\<lparr>spare_num_ctxs := n\<rparr>\<rparr>) s))"

definition pf_is_valid_config_ctxs :: "intel_gt_type \<Rightarrow> nat \<Rightarrow> i915_state \<Rightarrow> bool" where
  "pf_is_valid_config_ctxs g vf s \<longleftrightarrow> num_ctxs (config g vf s) \<noteq> 0"

definition pf_push_config_ctxs ::
    "iov_env \<Rightarrow> intel_gt_type \<Rightarrow> nat \<Rightarrow> u16 \<Rightarrow> u16 \<Rightarrow> i915_state \<Rightarrow> unit res \<times> i915_state" where
  "pf_push_config_ctxs E g vf begin num s =
     (if \<not> pf_needs_push_config g vf s then (Inr (), s)
      else case guc_update_vf_klv32 E g vf GUC_KLV_VF_CFG_BEGIN_CONTEXT_ID_KEY (ucast begin) s of
        (Inl e, s1) \<Rightarrow> (Inl e, s1)
      | (Inr u, s1) \<Rightarrow> guc_update_vf_klv32 E g vf GUC_KLV_VF_CFG_NUM_CONTEXTS_KEY (ucast num) s1)"

definition ctxs_bitmap_total_bits :: nat where
  "ctxs_bitmap_total_bits =
     unat (ALIGN (of_nat GUC_MAX_CONTEXT_ID :: u32) (of_nat CTXS_GRANULARITY)) div CTXS_GRANULARITY"

definition encode_ctxs_count :: "u16 \<Rightarrow> bool \<Rightarrow> u16" where
  "encode_ctxs_count n first =
     (if \<not> first then of_nat (unat n div CTXS_GRANULARITY)
      else of_nat ((unat n + CTXS_DELTA) div CTXS_GRANULARITY))"

definition encode_vf_ctxs_count :: "u16 \<Rightarrow> u16" where
  "encode_vf_ctxs_count n = encode_ctxs_count n False"

definition encode_ctxs_start :: "u16 \<Rightarrow> bool \<Rightarrow> u16" where
  "encode_ctxs_start start first =
     (if start = 0 then 0
      else if \<not> first then of_nat ((unat start + CTXS_DELTA) div CTXS_GRANULARITY) else 0)"

definition decode_ctxs_count :: "u16 \<Rightarrow> bool \<Rightarrow> u16" where
  "decode_ctxs_count num_bits first =
     (if \<not> first then word_of_int (int (unat num_bits) * int CTXS_GRANULARITY)
      else word_of_int (int (unat num_bits) * int CTXS_GRANULARITY - int CTXS_DELTA))"

definition decode_vf_ctxs_count :: "u16 \<Rightarrow> u16" where
  "decode_vf_ctxs_count num_bits = decode_ctxs_count num_bits False"

definition decode_pf_ctxs_count :: "u16 \<Rightarrow> u16" where
  "decode_pf_ctxs_count num_bits = decode_ctxs_count num_bits True"

definition decode_ctxs_start :: "u16 \<Rightarrow> bool \<Rightarrow> u16" where
  "decode_ctxs_start start_bit first =
     (if \<not> first then word_of_int (int (unat start_bit) * int CTXS_GRANULARITY - int CTXS_DELTA)
      else 0)"

definition decode_vf_ctxs_start :: "u16 \<Rightarrow> u16" where
  "decode_vf_ctxs_start start_bit = decode_ctxs_start start_bit False"

definition pf_get_ctxs_quota :: "intel_gt_type \<Rightarrow> nat \<Rightarrow> i915_state \<Rightarrow> u16" where
  "pf_get_ctxs_quota g vf s = num_ctxs (config g vf s)"

text \<open>\<open>ALIGN\<close> is stored in a \<open>u16\<close>, so it wraps.\<close>

definition align_ctxs :: "nat \<Rightarrow> u16 \<Rightarrow> u16" where
  "align_ctxs vf n =
     (if n = 0 then 0
      else let m = ALIGN n (of_nat CTXS_GRANULARITY)
           in if vf \<noteq> 0 then m else m - of_nat CTXS_DELTA)"

section \<open>The bitmap of used packages\<close>

primrec ctxs_bitmap_loop ::
    "(nat \<Rightarrow> intel_iov_config) \<Rightarrow> nat list \<Rightarrow> bitmap \<Rightarrow> bitmap" where
  "ctxs_bitmap_loop cs [] bm = bm"
| "ctxs_bitmap_loop cs (i # is) bm =
     ctxs_bitmap_loop cs is
       (if num_ctxs (cs i) = 0 then bm
        else bitmap_set bm (unat (encode_ctxs_start (begin_ctx (cs i)) (i = 0)))
               (unat (encode_ctxs_count (num_ctxs (cs i)) (i = 0))))"

definition ctxs_bitmap :: "(nat \<Rightarrow> intel_iov_config) \<Rightarrow> nat \<Rightarrow> bitmap" where
  "ctxs_bitmap cs total_vfs =
     ctxs_bitmap_loop cs [0..<Suc total_vfs] (bitmap_zero ctxs_bitmap_total_bits)"

definition pf_get_ctxs_bitmap ::
    "iov_env \<Rightarrow> intel_gt_type \<Rightarrow> i915_state \<Rightarrow> bitmap option \<times> i915_state" where
  "pf_get_ctxs_bitmap E g s =
     (case bitmap_zalloc E ctxs_bitmap_total_bits s of
        (None, s1) \<Rightarrow> (None, s1)
      | (Some bm, s1) \<Rightarrow>
          (Some (ctxs_bitmap_loop (configs (provisioning g s1)) [0..<Suc (pf_get_totalvfs s1)] bm),
           s1))"

section \<open>Search for a range of packages\<close>

abbreviation U16_MAX :: u16 where "U16_MAX \<equiv> 0xffff"

text \<open>The body of the loop over the holes: \<open>(max_size, index, last_equal)\<close>.\<close>

fun alloc_ctxs_step :: "u16 \<Rightarrow> nat \<times> nat \<Rightarrow> u16 \<times> u16 \<times> u16 \<Rightarrow> u16 \<times> u16 \<times> u16" where
  "alloc_ctxs_step num_bits (rs, re) (max_size, index, last_equal) =
     (let size_bits = of_nat (re - rs)
      in if size_bits = num_bits then (max_size, index, of_nat rs)
         else if size_bits > num_bits \<and> num_bits < max_size
         then (size_bits, of_nat re - num_bits, last_equal)
         else (max_size, index, last_equal))"

definition find_ctxs_index :: "u16 \<Rightarrow> bitmap \<Rightarrow> u16 res" where
  "find_ctxs_index num_bits bm =
     (case fold (alloc_ctxs_step num_bits) (clear_ranges bm) (U16_MAX, U16_MAX, 0) of
        (max_size, index, last_equal) \<Rightarrow>
          (let index = (if last_equal \<noteq> 0 then last_equal else index)
           in if index \<ge> U16_MAX then Inl ENOSPC else Inr index))"

definition pf_alloc_vf_ctxs_range ::
    "iov_env \<Rightarrow> intel_gt_type \<Rightarrow> nat \<Rightarrow> u16 \<Rightarrow> i915_state \<Rightarrow> u16 res \<times> i915_state" where
  "pf_alloc_vf_ctxs_range E g vf n s =
     (case pf_get_ctxs_bitmap E g s of
        (None, s1) \<Rightarrow> (Inl ENOMEM, s1)
      | (Some bm, s1) \<Rightarrow>
          (map_sum (\<lambda>e. e) decode_vf_ctxs_start (find_ctxs_index (encode_vf_ctxs_count n) bm),
           bitmap_free s1))"

definition pf_alloc_ctxs_range ::
    "iov_env \<Rightarrow> intel_gt_type \<Rightarrow> nat \<Rightarrow> u16 \<Rightarrow> i915_state \<Rightarrow> u16 res \<times> i915_state" where
  "pf_alloc_ctxs_range E g vf n s = pf_alloc_vf_ctxs_range E g vf n s"

section \<open>Quotas\<close>

definition pf_reserved_ctxs :: "intel_gt_type \<Rightarrow> i915_state \<Rightarrow> u16" where
  "pf_reserved_ctxs g s =
     (let used = guc_ids_in_use (gts s g);
          quota = pf_get_ctxs_quota g PFID s;
          spare_ctxs = pf_get_spare_ctxs g s;
          avail = quota - used
      in if spare_ctxs < avail then 0 else align_ctxs 1 (spare_ctxs - avail))"

definition pf_get_ctxs_free ::
    "iov_env \<Rightarrow> intel_gt_type \<Rightarrow> i915_state \<Rightarrow> u16 \<times> i915_state" where
  "pf_get_ctxs_free E g s =
     (let reserved = encode_vf_ctxs_count (pf_reserved_ctxs g s)
      in case pf_get_ctxs_bitmap E g s of
           (None, s1) \<Rightarrow> (0, s1)
         | (Some bm, s1) \<Rightarrow>
             (let n = fold (\<lambda>(rs, re) acc. acc + of_nat (re - rs)) (clear_ranges bm) (0 :: u16);
                  n = (if n > reserved then n - reserved else 0)
              in (decode_vf_ctxs_count n, bitmap_free s1)))"

definition intel_iov_provisioning_query_free_ctxs ::
    "iov_env \<Rightarrow> intel_gt_type \<Rightarrow> i915_state \<Rightarrow> u16 \<times> i915_state" where
  "intel_iov_provisioning_query_free_ctxs E g s = pf_get_ctxs_free E g s"

text \<open>One hole in the search for the largest one: \<open>(reserved, max)\<close>.\<close>

fun max_quota_step :: "nat \<times> nat \<Rightarrow> u16 \<times> u16 \<Rightarrow> u16 \<times> u16" where
  "max_quota_step (rs, re) (reserved, mx) =
     (reserved - min (min reserved (of_nat (re - rs))) mx, max mx (of_nat (re - rs)))"

definition pf_get_ctxs_max_quota ::
    "iov_env \<Rightarrow> intel_gt_type \<Rightarrow> i915_state \<Rightarrow> u16 \<times> i915_state" where
  "pf_get_ctxs_max_quota E g s =
     (let reserved = encode_vf_ctxs_count (pf_reserved_ctxs g s)
      in case pf_get_ctxs_bitmap E g s of
           (None, s1) \<Rightarrow> (0, s1)
         | (Some bm, s1) \<Rightarrow>
             (case fold max_quota_step (clear_ranges bm) (reserved, 0) of
                (reserved, mx) \<Rightarrow>
                  (decode_vf_ctxs_count (if mx > reserved then mx - reserved else 0),
                   bitmap_free s1)))"

definition intel_iov_provisioning_query_max_ctxs ::
    "iov_env \<Rightarrow> intel_gt_type \<Rightarrow> i915_state \<Rightarrow> u16 \<times> i915_state" where
  "intel_iov_provisioning_query_max_ctxs E g s = pf_get_ctxs_max_quota E g s"

section \<open>Provisioning\<close>

definition pf_provision_vf_ctxs_entry ::
    "intel_gt_type \<Rightarrow> nat \<Rightarrow> u16 \<Rightarrow> u16 \<Rightarrow> i915_state \<Rightarrow> unit res \<times> i915_state" where
  "pf_provision_vf_ctxs_entry g vf start_ctx n s =
     (Inr (), upd_config g vf (\<lambda>c. c\<lparr>begin_ctx := start_ctx, num_ctxs := n\<rparr>) s)"

definition pf_provision_ctxs_range ::
    "iov_env \<Rightarrow> intel_gt_type \<Rightarrow> nat \<Rightarrow> u16 \<Rightarrow> u16 \<Rightarrow> i915_state \<Rightarrow> unit res \<times> i915_state" where
  "pf_provision_ctxs_range E g vf start_ctx n s =
     (case pf_push_config_ctxs E g vf start_ctx n s of
        (Inl e, s1) \<Rightarrow> (Inl e, snd (pf_provision_vf_ctxs_entry g vf 0 0 s1))
      | (Inr u, s1) \<Rightarrow> pf_provision_vf_ctxs_entry g vf start_ctx n s1)"

definition pf_provision_ctxs ::
    "iov_env \<Rightarrow> intel_gt_type \<Rightarrow> nat \<Rightarrow> u16 \<Rightarrow> i915_state \<Rightarrow> unit res \<times> i915_state" where
  "pf_provision_ctxs E g vf n s =
     (let ctxs_quota = align_ctxs vf n
      in if vf = PFID then (Inl EOPNOTSUPP, s)
         else if ctxs_quota = pf_get_ctxs_quota g vf s then (Inr (), s)
         else case pf_provision_ctxs_range E g vf 0 0 s of
           (ret, s1) \<Rightarrow>
             if n = 0 \<or> is_err ret then (ret, s1)
             else case pf_get_ctxs_max_quota E g s1 of
               (mx, s2) \<Rightarrow>
                 if ctxs_quota > mx then (Inl EDQUOT, s2)
                 else case pf_alloc_ctxs_range E g vf ctxs_quota s2 of
                   (Inl e, s3) \<Rightarrow> (Inl e, s3)
                 | (Inr start, s3) \<Rightarrow> pf_provision_ctxs_range E g vf start ctxs_quota s3)"

definition intel_iov_provisioning_set_ctxs ::
    "iov_env \<Rightarrow> intel_gt_type \<Rightarrow> nat \<Rightarrow> u16 \<Rightarrow> i915_state \<Rightarrow> unit res \<times> i915_state" where
  "intel_iov_provisioning_set_ctxs E g vf n s =
     (let reprovisioning = (pf_is_valid_config_ctxs g vf s \<or> n \<noteq> 0)
      in case pf_provision_ctxs E g vf n s of
           (Inl e, s1) \<Rightarrow> (Inl e, s1)
         | (Inr u, s1) \<Rightarrow>
             (Inr (), if reprovisioning \<and> vf \<noteq> PFID then pf_mark_manual_provisioning s1 else s1))"

definition intel_iov_provisioning_get_ctxs :: "intel_gt_type \<Rightarrow> nat \<Rightarrow> i915_state \<Rightarrow> u16" where
  "intel_iov_provisioning_get_ctxs g vf s = pf_get_ctxs_quota g vf s"

text \<open>
  \<open>intel_guc_submission_limit_ids\<close> and the initial partitioning that gives the PF its
  contexts.
\<close>

definition intel_guc_submission_limit_ids ::
    "intel_gt_type \<Rightarrow> u32 \<Rightarrow> i915_state \<Rightarrow> unit res \<times> i915_state" where
  "intel_guc_submission_limit_ids g limit s =
     (if limit > of_nat GUC_MAX_CONTEXT_ID then (Inl E2BIG, s)
      else if \<not> guc_ids_empty (gts s g) then (Inl ETXTBSY, s)
      else (Inr (), upd_gt g (\<lambda>t. t\<lparr>num_guc_ids := limit\<rparr>) s))"

definition pf_assign_ctxs_for_pf :: "intel_gt_type \<Rightarrow> i915_state \<Rightarrow> i915_state" where
  "pf_assign_ctxs_for_pf g s =
     (let total_vfs = pf_get_totalvfs s;
          total_ctxs_bits = ctxs_bitmap_total_bits;
          pf_ctxs_bits = total_ctxs_bits - (total_ctxs_bits div (1 + total_vfs)) * total_vfs;
          pf_ctxs = decode_pf_ctxs_count (of_nat pf_ctxs_bits);
          s1 = upd_config g PFID (\<lambda>c. c\<lparr>begin_ctx := 0, num_ctxs := pf_ctxs\<rparr>) s
      in snd (intel_guc_submission_limit_ids g (ucast pf_ctxs) s1))"

definition intel_iov_provisioning_init :: "intel_gt_type \<Rightarrow> i915_state \<Rightarrow> i915_state" where
  "intel_iov_provisioning_init g s =
     (if is_err (sriov_status s) then s else pf_assign_ctxs_for_pf g s)"

section \<open>Arithmetic of packages\<close>

lemma ctxs_bitmap_total_bits_eq [simp]: "ctxs_bitmap_total_bits = 512"
proof -
  have "unat (ALIGN (of_nat GUC_MAX_CONTEXT_ID :: u32) (of_nat CTXS_GRANULARITY)) = 65536"
    using unat_ALIGN [of "128 :: u32" 7 "65535 :: u32"] by simp
  then show ?thesis by (simp add: ctxs_bitmap_total_bits_def)
qed

lemma u16_bound: "unat (x :: u16) \<le> 65535"
  using unsigned_less [of x, where ?'a = nat] by simp

lemma unat_encode_count:
  "unat (encode_ctxs_count n first) = (if first then unat n + 1 else unat n) div 128"
  using u16_bound [of n] by (simp add: encode_ctxs_count_def unat_of_nat)

lemma unat_encode_start:
  "unat (encode_ctxs_start st first) = (if st = 0 \<or> first then 0 else (unat st + 1) div 128)"
  using u16_bound [of st] by (simp add: encode_ctxs_start_def unat_of_nat)

lemma unat_word_of_int_u16: "0 \<le> z \<Longrightarrow> z < 65536 \<Longrightarrow> unat (word_of_int z :: u16) = nat z"
  by (simp add: unat_eq_nat_uint uint_word_of_int)

lemma unat_decode_start:
  assumes "1 \<le> unat b" "unat b \<le> 512"
  shows "unat (decode_vf_ctxs_start b) = unat b * 128 - 1"
proof -
  have "0 \<le> int (unat b) * 128 - 1" "int (unat b) * 128 - 1 < 65536"
    using assms by linarith+
  then have "unat (word_of_int (int (unat b) * 128 - 1) :: u16) = nat (int (unat b) * 128 - 1)"
    by (rule unat_word_of_int_u16)
  also have "\<dots> = unat b * 128 - 1" using assms by linarith
  finally show ?thesis by (simp add: decode_vf_ctxs_start_def decode_ctxs_start_def)
qed

lemma unat_decode_pf_count:
  assumes "1 \<le> unat b" "unat b \<le> 512"
  shows "unat (decode_pf_ctxs_count b) = unat b * 128 - 1"
  using unat_decode_start [OF assms]
  by (simp add: decode_vf_ctxs_start_def decode_ctxs_start_def decode_pf_ctxs_count_def
      decode_ctxs_count_def)

lemma unat_decode_count: "unat (decode_vf_ctxs_count b) = unat b * 128 mod 65536"
proof -
  have "decode_vf_ctxs_count b = b * 128"
    by (simp add: decode_vf_ctxs_count_def decode_ctxs_count_def)
  then show ?thesis by (simp add: unat_word_ariths)
qed

lemma unat_align_ctxs:
  "vf \<noteq> 0 \<Longrightarrow> unat n \<le> 65408 \<Longrightarrow> unat (align_ctxs vf n) = (unat n + 127) div 128 * 128"
  using unat_ALIGN [of "128 :: u16" 7 n] by (simp add: align_ctxs_def Let_def)

lemma align_ctxs_wraps:
  assumes "unat n > 65408"
  shows "ALIGN n (128 :: u16) = 0"
proof -
  have m: "mask 7 = (127 :: u16)" by (simp add: mask_eq_exp_minus_1)
  have "unat (n + 127) = unat n - 65409"
    using assms u16_bound [of n] by (simp add: unat_word_ariths le_mod_geq)
  then have "unat ((n + 127) AND NOT (mask 7)) = 0"
    using assms u16_bound [of n] by (simp only: unat_and_not_mask) simp
  then show ?thesis by (simp add: ALIGN_def m unsigned_eq_0_iff)
qed

lemma align_ctxs_aligned: "vf \<noteq> 0 \<Longrightarrow> unat (align_ctxs vf n) mod 128 = 0"
proof (cases "unat n \<le> 65408")
  case True
  then show "vf \<noteq> 0 \<Longrightarrow> ?thesis" using unat_align_ctxs [of vf n] by simp
next
  case False
  then show "vf \<noteq> 0 \<Longrightarrow> ?thesis" using align_ctxs_wraps [of n] by (simp add: align_ctxs_def Let_def)
qed

section \<open>The invariant\<close>

definition ctxs_aligned :: "nat \<Rightarrow> intel_iov_config \<Rightarrow> bool" where
  "ctxs_aligned vf c \<longleftrightarrow> num_ctxs c = 0 \<or>
     (if vf = PFID then begin_ctx c = 0 \<and> (unat (num_ctxs c) + CTXS_DELTA) mod CTXS_GRANULARITY = 0
      else (unat (begin_ctx c) + CTXS_DELTA) mod CTXS_GRANULARITY = 0 \<and>
           unat (num_ctxs c) mod CTXS_GRANULARITY = 0)"

text \<open>The context identifiers of an entry, and its packages in the bitmap.\<close>

definition ctx_ids :: "intel_iov_config \<Rightarrow> nat \<times> nat" where
  "ctx_ids c = (unat (begin_ctx c), unat (num_ctxs c))"

definition ctx_packages :: "nat \<Rightarrow> intel_iov_config \<Rightarrow> nat \<times> nat" where
  "ctx_packages vf c =
     (unat (encode_ctxs_start (begin_ctx c) (vf = 0)),
      if num_ctxs c = 0 then 0 else unat (encode_ctxs_count (num_ctxs c) (vf = 0)))"

definition ctxs_inv :: "intel_gt_type \<Rightarrow> i915_state \<Rightarrow> bool" where
  "ctxs_inv g s \<longleftrightarrow>
     (\<forall>vf \<le> pf_get_totalvfs s. ctxs_aligned vf (config g vf s)) \<and>
     ranges_ok GUC_MAX_CONTEXT_ID {0..pf_get_totalvfs s} (\<lambda>vf. ctx_ids (config g vf s))"

text \<open>A context belongs to an entry exactly if its package does.\<close>

lemma mem_ctx_ids:
  assumes "ctxs_aligned vf c"
  shows "k \<in> range_set (ctx_ids c) \<longleftrightarrow> (k + 1) div 128 \<in> range_set (ctx_packages vf c)"
proof (cases "num_ctxs c = 0")
  case True
  then show ?thesis by (simp add: ctx_ids_def ctx_packages_def mem_range_set)
next
  case nz: False
  show ?thesis
  proof (cases "vf = 0")
    case True
    with assms nz obtain b where "unat (num_ctxs c) + 1 = 128 * b" "begin_ctx c = 0"
      by (auto simp: ctxs_aligned_def dvd_def mod_eq_0_iff_dvd)
    with nz True show ?thesis
      by (auto simp: ctx_ids_def ctx_packages_def mem_range_set unat_encode_start unat_encode_count)
  next
    case False
    with assms nz obtain b n where bn: "unat (begin_ctx c) + 1 = 128 * b" "unat (num_ctxs c) = 128 * n"
      by (auto simp: ctxs_aligned_def dvd_def mod_eq_0_iff_dvd)
    then have "begin_ctx c \<noteq> 0" by (metis One_nat_def add_0 dvd_triv_left nat_dvd_1_iff_1 numeral_eq_one_iff semiring_norm(85) unsigned_0)
    with nz False bn show ?thesis
      by (auto simp: ctx_ids_def ctx_packages_def mem_range_set unat_encode_start unat_encode_count)
  qed
qed

lemma package_has_context:
  assumes "ctxs_aligned vf c"
  shows "u \<in> range_set (ctx_packages vf c) \<longleftrightarrow> 128 * u + 126 \<in> range_set (ctx_ids c)"
  using mem_ctx_ids [OF assms, of "128 * u + 126"] by simp

lemma disjoint_ids_packages:
  assumes "ctxs_aligned i c" "ctxs_aligned j d"
  shows "range_set (ctx_ids c) \<inter> range_set (ctx_ids d) = {} \<longleftrightarrow>
         range_set (ctx_packages i c) \<inter> range_set (ctx_packages j d) = {}"
  using mem_ctx_ids [OF assms(1)] mem_ctx_ids [OF assms(2)]
    package_has_context [OF assms(1)] package_has_context [OF assms(2)]
  by (metis disjoint_iff)

lemma bound_ids_packages:
  assumes "ctxs_aligned vf c"
  shows "(snd (ctx_ids c) \<noteq> 0 \<longrightarrow> fst (ctx_ids c) + snd (ctx_ids c) \<le> 65535) \<longleftrightarrow>
         (snd (ctx_packages vf c) \<noteq> 0 \<longrightarrow> fst (ctx_packages vf c) + snd (ctx_packages vf c) \<le> 512)"
proof (cases "num_ctxs c = 0")
  case True
  then show ?thesis by (simp add: ctx_ids_def ctx_packages_def)
next
  case nz: False
  then have n0: "unat (num_ctxs c) \<noteq> 0" by (simp add: unat_0_iff)
  show ?thesis
  proof (cases "vf = 0")
    case True
    with assms nz obtain b where "unat (num_ctxs c) + 1 = 128 * b" "begin_ctx c = 0"
      by (auto simp: ctxs_aligned_def dvd_def mod_eq_0_iff_dvd)
    with nz True n0 show ?thesis
      by (auto simp: ctx_ids_def ctx_packages_def unat_encode_start unat_encode_count)
  next
    case False
    with assms nz obtain b n where bn: "unat (begin_ctx c) + 1 = 128 * b" "unat (num_ctxs c) = 128 * n"
      by (auto simp: ctxs_aligned_def dvd_def mod_eq_0_iff_dvd)
    then have "begin_ctx c \<noteq> 0" by (metis One_nat_def add_0 dvd_triv_left nat_dvd_1_iff_1 numeral_eq_one_iff semiring_norm(85) unsigned_0)
    with nz False bn n0 show ?thesis
      by (auto simp: ctx_ids_def ctx_packages_def unat_encode_start unat_encode_count)
  qed
qed

lemma ranges_ok_packages:
  assumes "\<forall>vf \<le> n. ctxs_aligned vf (cs vf)"
  shows "ranges_ok GUC_MAX_CONTEXT_ID {0..n} (\<lambda>vf. ctx_ids (cs vf)) \<longleftrightarrow>
         ranges_ok 512 {0..n} (\<lambda>vf. ctx_packages vf (cs vf))"
proof -
  have "(\<forall>i\<in>{0..n}. snd (ctx_ids (cs i)) \<noteq> 0 \<longrightarrow>
            fst (ctx_ids (cs i)) + snd (ctx_ids (cs i)) \<le> 65535) \<longleftrightarrow>
        (\<forall>i\<in>{0..n}. snd (ctx_packages i (cs i)) \<noteq> 0 \<longrightarrow>
            fst (ctx_packages i (cs i)) + snd (ctx_packages i (cs i)) \<le> 512)"
    by (rule ball_cong [OF refl], rule bound_ids_packages) (use assms in simp)
  moreover have "range_set (ctx_ids (cs i)) \<inter> range_set (ctx_ids (cs j)) = {} \<longleftrightarrow>
      range_set (ctx_packages i (cs i)) \<inter> range_set (ctx_packages j (cs j)) = {}"
    if "i \<in> {0..n}" "j \<in> {0..n}" for i j
    by (rule disjoint_ids_packages) (use assms that in simp_all)
  ultimately show ?thesis unfolding ranges_ok_def by blast
qed

lemma ctxs_inv_packages:
  "ctxs_inv g s \<longleftrightarrow>
     (\<forall>vf \<le> pf_get_totalvfs s. ctxs_aligned vf (config g vf s)) \<and>
     ranges_ok 512 {0..pf_get_totalvfs s} (\<lambda>vf. ctx_packages vf (config g vf s))"
  unfolding ctxs_inv_def using ranges_ok_packages by blast

section \<open>The bitmap shows the packages in use\<close>

lemma ctxs_bitmap_loop_ranges:
  "ctxs_bitmap_loop cs is bm = set_ranges bm (map (\<lambda>i. ctx_packages i (cs i)) is)"
proof (induction "is" arbitrary: bm)
  case Nil
  then show ?case by simp
next
  case (Cons i "is")
  have "bitmap_set bm k 0 = bm" for k
    by (rule nth_equalityI) (auto simp: bitmap_simps)
  with Cons show ?case by (simp add: ctx_packages_def)
qed

interpretation ctxs_map: range_bitmap 512 0 ctx_packages ctxs_bitmap
proof unfold_locales
  show "length (ctxs_bitmap cs n) = 512" for cs n
    by (simp add: ctxs_bitmap_def ctxs_bitmap_loop_ranges bitmap_simps)
  show "k < 512 \<Longrightarrow> ctxs_bitmap cs n ! k \<longleftrightarrow>
      (\<exists>i. 0 \<le> i \<and> i \<le> n \<and> k \<in> range_set (ctx_packages i (cs i)))" for k cs n
    by (auto simp: ctxs_bitmap_def ctxs_bitmap_loop_ranges bitmap_simps less_Suc_eq_le
        simp del: upt_Suc)
qed

lemma pf_get_ctxs_bitmap_cases:
  obtains s1 where "pf_get_ctxs_bitmap E g s = (None, s1)" "s1 = s\<lparr>allocs := Suc (allocs s)\<rparr>"
  | s1 where "pf_get_ctxs_bitmap E g s =
        (Some (ctxs_bitmap (configs (provisioning g s)) (pf_get_totalvfs s)), s1)"
      "s1 = s\<lparr>allocs := Suc (allocs s), bitmaps_live := Suc (bitmaps_live s)\<rparr>"
  by (cases "env_alloc E (allocs s)")
    (auto simp: pf_get_ctxs_bitmap_def bitmap_zalloc_def kmalloc_def ctxs_bitmap_def
      pf_get_totalvfs_def)

text \<open>
  The searches change nothing but the allocation counter: every bitmap they allocate is freed.
\<close>

lemma bitmap_alloc_free:
  "bitmap_free (s\<lparr>allocs := n, bitmaps_live := Suc (bitmaps_live s)\<rparr>) = s\<lparr>allocs := n\<rparr>"
  by (simp add: bitmap_free_def)

lemma allocs_only: "guc_only s (s\<lparr>allocs := n\<rparr>)"
  unfolding guc_only_def by (intro exI [of _ n] exI [of _ "\<lambda>g. guc_log (gts s g)"]) simp

lemma pf_alloc_ctxs_range_cases:
  assumes "pf_alloc_ctxs_range E g vf n s = (r, s')"
  shows "s' = s\<lparr>allocs := Suc (allocs s)\<rparr>"
    and "r = Inl ENOMEM \<or>
      r = map_sum (\<lambda>e. e) decode_vf_ctxs_start (find_ctxs_index (encode_vf_ctxs_count n)
            (ctxs_bitmap (configs (provisioning g s)) (pf_get_totalvfs s)))"
  using assms
  by (cases rule: pf_get_ctxs_bitmap_cases [of E g s];
      simp add: pf_alloc_ctxs_range_def pf_alloc_vf_ctxs_range_def bitmap_alloc_free)+

lemma pf_get_ctxs_max_quota_state:
  "snd (pf_get_ctxs_max_quota E g s) = s\<lparr>allocs := Suc (allocs s)\<rparr>"
  by (cases rule: pf_get_ctxs_bitmap_cases [of E g s])
    (simp_all add: pf_get_ctxs_max_quota_def bitmap_alloc_free Let_def split_beta)

lemma pf_get_ctxs_free_state:
  "snd (pf_get_ctxs_free E g s) = s\<lparr>allocs := Suc (allocs s)\<rparr>"
  by (cases rule: pf_get_ctxs_bitmap_cases [of E g s])
    (simp_all add: pf_get_ctxs_free_def bitmap_alloc_free Let_def)

section \<open>The search\<close>

text \<open>
  What the loop over the holes computes: the start of the last hole of exactly the size, and the
  top end of the last hole that is larger. The comparison with \<open>max_size\<close> never excludes a hole.
\<close>

definition equal_holes :: "nat \<Rightarrow> (nat \<times> nat) list \<Rightarrow> (nat \<times> nat) list" where
  "equal_holes n hs = filter (\<lambda>(rs, re). re - rs = n) hs"

definition larger_holes :: "nat \<Rightarrow> (nat \<times> nat) list \<Rightarrow> (nat \<times> nat) list" where
  "larger_holes n hs = filter (\<lambda>(rs, re). re - rs > n) hs"

lemma fold_alloc_ctxs_step:
  assumes "\<forall>(rs, re) \<in> set hs. rs < re \<and> re \<le> 512" "unat nb \<le> 512"
  shows "\<exists>mx. nb < mx \<and> fold (alloc_ctxs_step nb) hs (U16_MAX, U16_MAX, 0) =
     (mx,
      if larger_holes (unat nb) hs = [] then U16_MAX
        else of_nat (snd (last (larger_holes (unat nb) hs))) - nb,
      if equal_holes (unat nb) hs = [] then 0 else of_nat (fst (last (equal_holes (unat nb) hs))))"
  using assms
proof (induction hs rule: rev_induct)
  case Nil
  then show ?case by (simp add: larger_holes_def equal_holes_def word_less_nat_alt)
next
  case (snoc h hs)
  obtain rs re where h: "h = (rs, re)" by (cases h)
  with snoc.prems have re: "rs < re" "re \<le> 512" by auto
  then have sz: "unat (of_nat (re - rs) :: u16) = re - rs" by (intro unat_of_nat_u16) simp
  have eq: "of_nat (re - rs) = nb \<longleftrightarrow> re - rs = unat nb"
    using sz by (metis word_unat_eq_iff)
  have gt: "of_nat (re - rs) > nb \<longleftrightarrow> re - rs > unat nb"
    using sz by (simp add: word_less_nat_alt)
  show ?case
    using snoc eq gt unfolding h
    by (auto simp: larger_holes_def equal_holes_def Let_def)
qed

lemma holes_bound:
  "length bm = 512 \<Longrightarrow> \<forall>(rs, re) \<in> set (clear_ranges bm). rs < re \<and> re \<le> 512"
  using clear_ranges_sound by fastforce

lemma last_filter_mem: "filter P xs \<noteq> [] \<Longrightarrow> last (filter P xs) \<in> set xs \<and> P (last (filter P xs))"
  using last_in_set [of "filter P xs"] by auto

lemma find_ctxs_index_sound:
  assumes "length bm = 512" "unat nb \<le> 512" "find_ctxs_index nb bm = Inr i"
  shows "zero_area bm (unat i) (unat nb) \<and> 1 \<le> unat i \<and> unat i \<le> 512"
proof -
  let ?L = "larger_holes (unat nb) (clear_ranges bm)"
  let ?Q = "equal_holes (unat nb) (clear_ranges bm)"
  obtain mx where fold: "fold (alloc_ctxs_step nb) (clear_ranges bm) (U16_MAX, U16_MAX, 0) =
     (mx, if ?L = [] then U16_MAX else of_nat (snd (last ?L)) - nb,
      if ?Q = [] then 0 else of_nat (fst (last ?Q)))"
    using fold_alloc_ctxs_step [OF holes_bound [OF assms(1)] assms(2)] by blast
  show ?thesis
  proof (cases "?Q \<noteq> [] \<and> (of_nat (fst (last ?Q)) :: u16) \<noteq> 0")
    case True
    then have i: "i = of_nat (fst (last ?Q))"
      using assms(3) fold by (simp add: find_ctxs_index_def Let_def split: if_splits)
    obtain rs re where l: "last ?Q = (rs, re)" by (cases "last ?Q")
    then have mem: "(rs, re) \<in> set (clear_ranges bm)" "re - rs = unat nb"
      using True last_filter_mem [of "\<lambda>(rs, re). re - rs = unat nb" "clear_ranges bm"]
      by (auto simp: equal_holes_def)
    with clear_ranges_sound [OF mem(1)] assms(1) have b: "rs < re" "re \<le> 512" by auto
    then have u: "unat i = rs" using i l by (simp add: unat_of_nat)
    have "i \<noteq> 0" using True i by simp
    then have "1 \<le> unat i" by (simp add: Suc_leI unat_gt_0)
    moreover have "zero_area bm rs (unat nb)"
      using zero_area_in_clear_range [OF mem(1)] mem(2) b by simp
    ultimately show ?thesis using u b by simp
  next
    case False
    then have i: "?L \<noteq> []" "i = of_nat (snd (last ?L)) - nb"
      using assms(3) fold by (auto simp: find_ctxs_index_def Let_def split: if_splits)
    obtain rs re where l: "last ?L = (rs, re)" by (cases "last ?L")
    then have mem: "(rs, re) \<in> set (clear_ranges bm)" "re - rs > unat nb"
      using i last_filter_mem [of "\<lambda>(rs, re). re - rs > unat nb" "clear_ranges bm"]
      by (auto simp: larger_holes_def)
    with clear_ranges_sound [OF mem(1)] assms(1) have b: "rs < re" "re \<le> 512" by auto
    have "nb \<le> of_nat re" using mem b by (simp add: word_le_nat_alt unat_of_nat)
    then have u: "unat i = re - unat nb"
      using i l b by (simp add: unat_sub unat_of_nat)
    moreover have "zero_area bm (re - unat nb) (unat nb)"
      using zero_area_in_clear_range [OF mem(1)] mem(2) b by simp
    moreover have "1 \<le> re - unat nb" "re - unat nb \<le> 512" using mem b by linarith+
    ultimately show ?thesis by simp
  qed
qed

section \<open>Every operation keeps the invariant\<close>

lemma ctxs_inv_cong:
  "configs (provisioning g s') = configs (provisioning g s) \<Longrightarrow>
   pf_get_totalvfs s' = pf_get_totalvfs s \<Longrightarrow> ctxs_inv g s' \<longleftrightarrow> ctxs_inv g s"
  by (simp add: ctxs_inv_def)

lemma ctxs_inv_guc_only: "guc_only s s' \<Longrightarrow> ctxs_inv g s' \<longleftrightarrow> ctxs_inv g s"
  by (rule ctxs_inv_cong) (simp_all add: guc_onlyD)

lemma ctxs_inv_release:
  assumes "ctxs_inv g s"
  shows "ctxs_inv g (upd_config g vf (\<lambda>c. c\<lparr>begin_ctx := b, num_ctxs := 0\<rparr>) s)"
proof -
  let ?cs = "configs (provisioning g s)"
  let ?c = "(?cs vf)\<lparr>begin_ctx := b, num_ctxs := 0\<rparr>"
  have "ranges_ok 512 {0..pf_get_totalvfs s} (\<lambda>j. ctx_packages j ((?cs(vf := ?c)) j))"
    using assms by (intro ctxs_map.release_keeps_ranges_ok) (auto simp: ctxs_inv_packages ctx_packages_def)
  moreover have "\<forall>i \<le> pf_get_totalvfs s. ctxs_aligned i ((?cs(vf := ?c)) i)"
    using assms by (auto simp: ctxs_inv_def ctxs_aligned_def)
  ultimately show ?thesis by (simp add: ctxs_inv_packages)
qed

lemma ctxs_inv_alloc:
  assumes "ctxs_inv g s" "vf \<noteq> 0" "1 \<le> unat i" "unat i \<le> 512" "unat q mod 128 = 0"
    and "zero_area (ctxs_bitmap (configs (provisioning g s)) (pf_get_totalvfs s)) (unat i) (unat q div 128)"
  shows "ctxs_inv g (upd_config g vf
           (\<lambda>c. c\<lparr>begin_ctx := decode_vf_ctxs_start i, num_ctxs := q\<rparr>) s)"
proof (cases "q = 0")
  case True
  then show ?thesis using ctxs_inv_release [OF assms(1)] by simp
next
  case False
  let ?cs = "configs (provisioning g s)"
  let ?c = "(?cs vf)\<lparr>begin_ctx := decode_vf_ctxs_start i, num_ctxs := q\<rparr>"
  have st: "unat (decode_vf_ctxs_start i) + 1 = unat i * 128"
    using assms(3,4) by (simp add: unat_decode_start)
  then have "decode_vf_ctxs_start i \<noteq> 0" using assms(3) by auto
  then have pk: "ctx_packages vf ?c = (unat i, unat q div 128)"
    using st False assms(2) by (simp add: ctx_packages_def unat_encode_start unat_encode_count)
  have "ranges_ok 512 {0..pf_get_totalvfs s} (\<lambda>j. ctx_packages j ((?cs(vf := ?c)) j))"
    using assms(1,6) pk by (intro ctxs_map.alloc_keeps_ranges_ok) (auto simp: ctxs_inv_packages)
  moreover have "\<forall>j \<le> pf_get_totalvfs s. ctxs_aligned j ((?cs(vf := ?c)) j)"
    using assms(1,2,5) st by (auto simp: ctxs_inv_def ctxs_aligned_def)
  ultimately show ?thesis by (simp add: ctxs_inv_packages)
qed

lemma guc_only_push_ctxs: "pf_push_config_ctxs E g vf b n s = (r, s') \<Longrightarrow> guc_only s s'"
  by (auto simp: pf_push_config_ctxs_def split: if_splits prod.splits sum.splits
      dest!: guc_only_vf_klv32 intro: guc_only_trans)

lemma pf_provision_ctxs_range_cases:
  assumes "pf_provision_ctxs_range E g vf st n s = (r, s')"
  obtains e s1 where "r = Inl e" "guc_only s s1"
      "s' = upd_config g vf (\<lambda>c. c\<lparr>begin_ctx := 0, num_ctxs := 0\<rparr>) s1"
  | s1 where "r = Inr ()" "guc_only s s1"
      "s' = upd_config g vf (\<lambda>c. c\<lparr>begin_ctx := st, num_ctxs := n\<rparr>) s1"
  using assms
  by (auto simp: pf_provision_ctxs_range_def pf_provision_vf_ctxs_entry_def
      split: prod.splits sum.splits dest!: guc_only_push_ctxs)

lemma ctxs_inv_provision_0:
  "ctxs_inv g s \<Longrightarrow> pf_provision_ctxs_range E g vf 0 0 s = (r, s') \<Longrightarrow> ctxs_inv g s'"
  by (erule pf_provision_ctxs_range_cases)
    (auto intro: ctxs_inv_release simp: ctxs_inv_guc_only)

lemma ctxs_inv_provision_range:
  assumes "ctxs_inv g s" "vf \<noteq> 0" "unat q mod 128 = 0"
    and "pf_alloc_ctxs_range E g vf q s0 = (Inr st, s)"
    and "pf_provision_ctxs_range E g vf st q s = (r, s')"
  shows "ctxs_inv g s'"
proof -
  have s: "s = s0\<lparr>allocs := Suc (allocs s0)\<rparr>"
    using pf_alloc_ctxs_range_cases(1) [OF assms(4)] .
  then have cfg: "configs (provisioning g s0) = configs (provisioning g s)"
    and tot: "pf_get_totalvfs s0 = pf_get_totalvfs s"
    by (simp_all add: pf_get_totalvfs_def)
  have uq: "unat (encode_vf_ctxs_count q) = unat q div 128"
    by (simp add: encode_vf_ctxs_count_def unat_encode_count)
  let ?bm = "ctxs_bitmap (configs (provisioning g s)) (pf_get_totalvfs s)"
  have "Inr st = map_sum (\<lambda>e. e) decode_vf_ctxs_start (find_ctxs_index (encode_vf_ctxs_count q) ?bm)"
    using pf_alloc_ctxs_range_cases(2) [OF assms(4)] by (simp add: cfg tot)
  then obtain i where i: "find_ctxs_index (encode_vf_ctxs_count q) ?bm = Inr i"
      and st: "st = decode_vf_ctxs_start i"
    by (cases "find_ctxs_index (encode_vf_ctxs_count q) ?bm") auto
  have "unat q div 128 \<le> 512" using u16_bound [of q] by simp
  then have za: "zero_area ?bm (unat i) (unat q div 128)" "1 \<le> unat i" "unat i \<le> 512"
    using find_ctxs_index_sound [OF ctxs_map.length_bitmap _ i] uq by auto
  from assms(5) show ?thesis
  proof (cases rule: pf_provision_ctxs_range_cases)
    case (1 e s1)
    then show ?thesis using assms(1) by (simp add: ctxs_inv_release ctxs_inv_guc_only)
  next
    case (2 s1)
    then have "ctxs_inv g s1" "configs (provisioning g s1) = configs (provisioning g s)"
      "pf_get_totalvfs s1 = pf_get_totalvfs s"
      using assms(1) by (simp_all add: ctxs_inv_guc_only guc_onlyD)
    with 2(3) za assms(2,3) show ?thesis by (simp add: st ctxs_inv_alloc)
  qed
qed

lemma ctxs_inv_pf_provision_ctxs:
  assumes "ctxs_inv g s" "pf_provision_ctxs E g vf n s = (r, s')"
  shows "ctxs_inv g s'"
proof -
  let ?q = "align_ctxs vf n"
  consider "s' = s"
    | "vf \<noteq> 0" "pf_provision_ctxs_range E g vf 0 0 s = (r, s')"
    | s1 r1 mx s2 where "vf \<noteq> 0" "pf_provision_ctxs_range E g vf 0 0 s = (r1, s1)"
        "pf_get_ctxs_max_quota E g s1 = (mx, s2)"
        "s' = s2 \<or> s' = snd (pf_alloc_ctxs_range E g vf ?q s2) \<or>
         (\<exists>st s3. pf_alloc_ctxs_range E g vf ?q s2 = (Inr st, s3) \<and>
                  pf_provision_ctxs_range E g vf st ?q s3 = (r, s'))"
    using assms(2)
    by (auto simp: pf_provision_ctxs_def Let_def split: if_splits prod.splits sum.splits)
  then show ?thesis
  proof cases
    case 1
    then show ?thesis using assms(1) by simp
  next
    case 2
    then show ?thesis using ctxs_inv_provision_0 assms(1) by blast
  next
    case 3
    have s1: "ctxs_inv g s1" using ctxs_inv_provision_0 [OF assms(1) 3(2)] .
    have "s2 = s1\<lparr>allocs := Suc (allocs s1)\<rparr>"
      using pf_get_ctxs_max_quota_state [of E g s1] 3(3) by simp
    then have s2: "ctxs_inv g s2" using s1 allocs_only ctxs_inv_guc_only by metis
    have s3: "ctxs_inv g s3" if "pf_alloc_ctxs_range E g vf ?q s2 = (x, s3)" for x s3
      using pf_alloc_ctxs_range_cases(1) [OF that] s2 allocs_only ctxs_inv_guc_only by metis
    show ?thesis
      using 3(4) s2 s3 align_ctxs_aligned [OF 3(1)] ctxs_inv_provision_range [OF s3 3(1)]
      by (metis prod.collapse)
  qed
qed

section \<open>Effect and frame of provisioning\<close>

text \<open>Provisioning contexts changes the two context fields of one configuration entry only.\<close>

definition ctxs_fields :: "intel_iov_config \<Rightarrow> intel_iov_config \<Rightarrow> bool" where
  "ctxs_fields c c' \<longleftrightarrow> (\<exists>b n. c' = c\<lparr>begin_ctx := b, num_ctxs := n\<rparr>)"

lemma ctxs_fields_refl [simp]: "ctxs_fields c c"
  unfolding ctxs_fields_def by (intro exI [of _ "begin_ctx c"] exI [of _ "num_ctxs c"]) simp

lemma ctxs_fields_upd [simp]: "ctxs_fields c (c\<lparr>begin_ctx := b, num_ctxs := n\<rparr>)"
  unfolding ctxs_fields_def by blast

lemma ctxs_fields_trans: "transp ctxs_fields"
proof (rule transpI)
  fix a b c assume "ctxs_fields a b" "ctxs_fields b c"
  then show "ctxs_fields a c" by (auto simp: ctxs_fields_def) blast
qed

lemmas cfg_only_ctxs_trans = cfg_only_trans [OF ctxs_fields_trans]

lemma ctxs_only_range:
  "pf_provision_ctxs_range E g vf st n s = (r, s') \<Longrightarrow> cfg_only ctxs_fields g vf s s'"
  by (erule pf_provision_ctxs_range_cases) (auto intro: cfg_only_upd)

lemma ctxs_only_alloc:
  "pf_alloc_ctxs_range E g vf n s = (r, s') \<Longrightarrow> cfg_only ctxs_fields g vf' s s'"
  using pf_alloc_ctxs_range_cases(1) allocs_only by (metis cfg_only_guc ctxs_fields_refl)

lemma ctxs_only_max_quota:
  "pf_get_ctxs_max_quota E g s = (mx, s') \<Longrightarrow> cfg_only ctxs_fields g vf' s s'"
  using pf_get_ctxs_max_quota_state [of E g s] allocs_only
  by (metis cfg_only_guc ctxs_fields_refl snd_conv)

lemma ctxs_only_pf_provision_ctxs:
  "pf_provision_ctxs E g vf n s = (r, s') \<Longrightarrow> cfg_only ctxs_fields g vf s s'"
  unfolding pf_provision_ctxs_def Let_def
  by (auto split: if_splits prod.splits sum.splits intro: cfg_only_guc
      dest!: ctxs_only_range ctxs_only_alloc [where vf' = vf] ctxs_only_max_quota [where vf' = vf]
      intro: cfg_only_ctxs_trans)

lemma pf_provision_ctxs_success:
  assumes "pf_provision_ctxs E g vf n s = (Inr u, s')"
  shows "vf \<noteq> PFID \<and> num_ctxs (config g vf s') = align_ctxs vf n"
proof -
  have range: "num_ctxs (config g vf s2) = m"
    if "pf_provision_ctxs_range E g vf st m s1 = (Inr v, s2)" for st m s1 v s2
    using that by (cases rule: pf_provision_ctxs_range_cases) auto
  show ?thesis
    using assms unfolding pf_provision_ctxs_def Let_def
    by (auto simp: pf_get_ctxs_quota_def align_ctxs_def is_err_iff dest!: range
        split: if_splits prod.splits sum.splits)
qed

lemma pf_mark_manual_frame [simp]:
  "gts (pf_mark_manual_provisioning s) = gts s"
  "pf_get_totalvfs (pf_mark_manual_provisioning s) = pf_get_totalvfs s"
  "disable_auto_provisioning (pf_mark_manual_provisioning s)"
  by (simp_all add: pf_mark_manual_provisioning_def pf_get_totalvfs_def)

lemma set_ctxs_cases:
  assumes "intel_iov_provisioning_set_ctxs E g vf n s = (r, s')"
  obtains s1 where "pf_provision_ctxs E g vf n s = (r, s1)" "s' = s1 \<or> s' = pf_mark_manual_provisioning s1"
  using assms
  by (auto simp: intel_iov_provisioning_set_ctxs_def Let_def split: prod.splits sum.splits if_splits)

text \<open>Initial partitioning: the PF gets the first packages, the VFs an equal share each.\<close>

lemma pf_ctxs_bits:
  "1 \<le> 512 - (512 div (1 + t)) * t" for t :: nat
proof -
  have "(512 div (1 + t)) * (1 + t) \<le> (512 :: nat)" by (rule div_times_less_eq_dividend)
  then show ?thesis
    by (cases "512 div (1 + t) = (0 :: nat)") (simp_all add: algebra_simps)
qed

lemma pf_assign_ctxs_entry:
  "config g' vf (pf_assign_ctxs_for_pf g s) =
     (if g' = g \<and> vf = PFID then (config g PFID s)\<lparr>begin_ctx := 0, num_ctxs := decode_pf_ctxs_count
        (of_nat (512 - (512 div (1 + pf_get_totalvfs s)) * pf_get_totalvfs s))\<rparr>
      else config g' vf s)"
  by (auto simp: pf_assign_ctxs_for_pf_def intel_guc_submission_limit_ids_def Let_def)

lemma ctxs_inv_zero:
  "(\<And>vf. vf \<le> pf_get_totalvfs s \<Longrightarrow> num_ctxs (config g vf s) = 0) \<Longrightarrow> ctxs_inv g s"
  by (simp add: ctxs_inv_def ctxs_aligned_def ctx_ids_def ranges_ok_def range_set_def)

lemma pf_share:
  fixes t :: nat
  defines "b \<equiv> 512 - (512 div (1 + t)) * t"
  shows "1 \<le> b" "b \<le> 512" "unat (of_nat b :: u16) = b"
    "unat (decode_pf_ctxs_count (of_nat b)) = b * 128 - 1"
proof -
  show b: "1 \<le> b" "b \<le> 512" unfolding b_def using pf_ctxs_bits by simp_all
  then show "unat (of_nat b :: u16) = b" by (intro unat_of_nat_u16) simp
  with b show "unat (decode_pf_ctxs_count (of_nat b)) = b * 128 - 1"
    by (simp add: unat_decode_pf_count)
qed

lemma ctxs_inv_assign_pf:
  assumes "\<And>vf. vf \<le> pf_get_totalvfs s \<Longrightarrow> num_ctxs (config g vf s) = 0"
  shows "ctxs_inv g (pf_assign_ctxs_for_pf g s)"
proof -
  define b where "b = 512 - (512 div (1 + pf_get_totalvfs s)) * pf_get_totalvfs s"
  note sh = pf_share [of "pf_get_totalvfs s", folded b_def]
  let ?s' = "pf_assign_ctxs_for_pf g s"
  have tot: "pf_get_totalvfs ?s' = pf_get_totalvfs s"
    by (auto simp: pf_assign_ctxs_for_pf_def intel_guc_submission_limit_ids_def Let_def)
  have pf: "config g 0 ?s' = (config g 0 s)\<lparr>begin_ctx := 0, num_ctxs := decode_pf_ctxs_count (of_nat b)\<rparr>"
    by (simp add: pf_assign_ctxs_entry b_def)
  have vf: "num_ctxs (config g vf ?s') = 0" if "vf \<noteq> 0" "vf \<le> pf_get_totalvfs s" for vf
    using that assms by (simp add: pf_assign_ctxs_entry)
  have "ctxs_aligned vf (config g vf ?s')" if "vf \<le> pf_get_totalvfs s" for vf
    using vf that sh pf by (cases "vf = 0") (auto simp: ctxs_aligned_def mod_eq_0_iff_dvd)
  moreover have "ranges_ok GUC_MAX_CONTEXT_ID {0..pf_get_totalvfs s} (\<lambda>vf. ctx_ids (config g vf ?s'))"
    unfolding ranges_ok_def
  proof (intro conjI ballI impI)
    fix i assume i: "i \<in> {0..pf_get_totalvfs s}" "snd (ctx_ids (config g i ?s')) \<noteq> 0"
    then have "i = 0" using vf by (cases "i = 0") (auto simp: ctx_ids_def)
    with pf sh show "fst (ctx_ids (config g i ?s')) + snd (ctx_ids (config g i ?s')) \<le> 65535"
      by (simp add: ctx_ids_def)
  next
    fix i j assume "i \<in> {0..pf_get_totalvfs s}" "j \<in> {0..pf_get_totalvfs s}" "i \<noteq> j"
    then have "num_ctxs (config g i ?s') = 0 \<or> num_ctxs (config g j ?s') = 0"
      using vf by (cases "i = 0") auto
    then show "range_set (ctx_ids (config g i ?s')) \<inter> range_set (ctx_ids (config g j ?s')) = {}"
      by (auto simp: ctx_ids_def)
  qed
  ultimately show ?thesis by (simp add: ctxs_inv_def tot)
qed

section \<open>When the search succeeds\<close>

lemma find_ctxs_index_ENOSPC:
  assumes "length bm = 512" "unat nb \<le> 512" "bm ! 0"
  shows "(\<exists>e. find_ctxs_index nb bm = Inl e) \<longleftrightarrow>
         \<not> (\<exists>rs re. (rs, re) \<in> set (clear_ranges bm) \<and> unat nb \<le> re - rs)"
proof -
  let ?L = "larger_holes (unat nb) (clear_ranges bm)"
  let ?Q = "equal_holes (unat nb) (clear_ranges bm)"
  obtain mx where fold: "fold (alloc_ctxs_step nb) (clear_ranges bm) (U16_MAX, U16_MAX, 0) =
     (mx, if ?L = [] then U16_MAX else of_nat (snd (last ?L)) - nb,
      if ?Q = [] then 0 else of_nat (fst (last ?Q)))"
    using fold_alloc_ctxs_step [OF holes_bound [OF assms(1)] assms(2)] by blast
  have Q: "(of_nat (fst (last ?Q)) :: u16) \<noteq> 0 \<and> (of_nat (fst (last ?Q)) :: u16) < U16_MAX"
    if "?Q \<noteq> []"
  proof -
    obtain rs re where l: "last ?Q = (rs, re)" by (cases "last ?Q")
    then have "(rs, re) \<in> set (clear_ranges bm)"
      using that last_filter_mem [of "\<lambda>(rs, re). re - rs = unat nb" "clear_ranges bm"]
      by (auto simp: equal_holes_def)
    from clear_ranges_sound [OF this] assms(1,3) have "rs \<noteq> 0" "rs < 512"
      by (auto intro: ccontr)
    then have "unat (of_nat rs :: u16) = rs" "rs \<noteq> 0" by (simp_all add: unat_of_nat)
    with l \<open>rs < 512\<close> show ?thesis by (auto simp: word_less_nat_alt)
  qed
  have L: "of_nat (snd (last ?L)) - nb < U16_MAX" if "?L \<noteq> []"
  proof -
    obtain rs re where l: "last ?L = (rs, re)" by (cases "last ?L")
    then have m: "(rs, re) \<in> set (clear_ranges bm)" "re - rs > unat nb"
      using that last_filter_mem [of "\<lambda>(rs, re). re - rs > unat nb" "clear_ranges bm"]
      by (auto simp: larger_holes_def)
    with clear_ranges_sound [OF m(1)] assms(1) have b: "re \<le> 512" by simp
    with m have "unat (of_nat re - nb) = re - unat nb"
      by (subst unat_sub) (auto simp: word_le_nat_alt unat_of_nat)
    with l b show ?thesis by (simp add: word_less_nat_alt)
  qed
  have "(\<exists>e. find_ctxs_index nb bm = Inl e) \<longleftrightarrow> ?L = [] \<and> ?Q = []"
    using Q L fold by (auto simp: find_ctxs_index_def Let_def not_le)
  also have "\<dots> \<longleftrightarrow> \<not> (\<exists>rs re. (rs, re) \<in> set (clear_ranges bm) \<and> unat nb \<le> re - rs)"
    by (auto simp: larger_holes_def equal_holes_def filter_empty_conv le_less eq_commute [of "unat nb"])
  finally show ?thesis .
qed

lemma fold_max_quota:
  assumes "\<forall>(rs, re) \<in> set hs. rs < re \<and> re \<le> 512"
    and "fold max_quota_step hs (rv, 0) = (rv', mx)" "mx \<noteq> 0"
  shows "\<exists>rs re. (rs, re) \<in> set hs \<and> re - rs = unat mx"
  using assms
proof (induction hs arbitrary: rv' mx rule: rev_induct)
  case Nil
  then show ?case by simp
next
  case (snoc h hs)
  obtain rs re where h: "h = (rs, re)" by (cases h)
  obtain r0 m0 where f: "fold max_quota_step hs (rv, 0) = (r0, m0)" by (cases "fold max_quota_step hs (rv, 0)")
  have mx: "mx = max m0 (of_nat (re - rs))" using snoc.prems(2) f h by simp
  have "re - rs < 65536" using snoc.prems(1) h by auto
  then have sz: "unat (of_nat (re - rs) :: u16) = re - rs" by (rule unat_of_nat_u16)
  show ?case
  proof (cases "m0 \<le> of_nat (re - rs)")
    case True
    then have "mx = of_nat (re - rs)" unfolding mx by (simp only: max_def if_True)
    then show ?thesis using h sz by auto
  next
    case False
    then have "mx = m0" unfolding mx by (simp only: max_def if_False)
    then show ?thesis using snoc.IH [OF _ f] snoc.prems by auto
  qed
qed

lemma pf_owns_package_0:
  assumes "ctxs_inv g s" "num_ctxs (config g PFID s) \<noteq> 0"
  shows "ctxs_bitmap (configs (provisioning g s)) (pf_get_totalvfs s) ! 0"
proof -
  have "ctxs_aligned 0 (config g 0 s)" using assms(1) by (simp add: ctxs_inv_def)
  then obtain b where "unat (num_ctxs (config g 0 s)) + 1 = 128 * b" "begin_ctx (config g 0 s) = 0"
    using assms(2) by (auto simp: ctxs_aligned_def mod_eq_0_iff_dvd dvd_def)
  then have "0 \<in> range_set (ctx_packages 0 (config g 0 s))"
    using assms(2) by (auto simp: ctx_packages_def mem_range_set unat_encode_start unat_encode_count)
  then show ?thesis using ctxs_map.nth_bitmap [of 0] by auto
qed

lemma max_quota_has_hole:
  assumes "pf_get_ctxs_max_quota E g s = (mx, s1)" "q \<le> mx" "q \<noteq> 0" "unat q mod 128 = 0"
  shows "\<exists>rs re. (rs, re) \<in> set (clear_ranges (ctxs_bitmap (configs (provisioning g s))
            (pf_get_totalvfs s))) \<and> unat (encode_vf_ctxs_count q) \<le> re - rs"
proof (cases rule: pf_get_ctxs_bitmap_cases [of E g s])
  case (1 t)
  then show ?thesis using assms by (simp add: pf_get_ctxs_max_quota_def)
next
  case (2 t)
  let ?bm = "ctxs_bitmap (configs (provisioning g s)) (pf_get_totalvfs s)"
  obtain rv m where f: "fold max_quota_step (clear_ranges ?bm)
      (encode_vf_ctxs_count (pf_reserved_ctxs g s), 0) = (rv, m)"
    by (cases "fold max_quota_step (clear_ranges ?bm)
      (encode_vf_ctxs_count (pf_reserved_ctxs g s), 0)")
  then have mx: "mx = decode_vf_ctxs_count (if m > rv then m - rv else 0)"
    using assms(1) 2 by (simp add: pf_get_ctxs_max_quota_def Let_def)
  have "unat mx \<le> unat m * 128"
  proof -
    have "unat (if m > rv then m - rv else 0) \<le> unat m"
      by (auto simp: unat_sub word_less_nat_alt word_le_nat_alt)
    then show ?thesis unfolding mx unat_decode_count
      by (meson mod_less_eq_dividend mult_le_mono1 order_trans)
  qed
  moreover have "unat q \<le> unat mx" "0 < unat q"
    using assms(2,3) by (simp_all add: word_le_nat_alt unat_gt_0)
  ultimately have "unat q div 128 \<le> unat m" "m \<noteq> 0" by auto
  moreover obtain rs re where "(rs, re) \<in> set (clear_ranges ?bm)" "re - rs = unat m"
    using fold_max_quota [OF holes_bound f] ctxs_map.length_bitmap \<open>m \<noteq> 0\<close> by blast
  ultimately show ?thesis
    by (intro exI [of _ rs] exI [of _ re]) (simp add: encode_vf_ctxs_count_def unat_encode_count)
qed

section \<open>Properties\<close>

text \<open>
  Property C1. Whatever the GuC replies and whichever allocations fail, setting the number of
  contexts of a VF keeps the context identifiers of the PF and all VFs inside
  \<open>[0, GUC_MAX_CONTEXT_ID)\<close>, aligned to packages and pairwise disjoint.
\<close>

theorem set_ctxs_keeps_inv:
  assumes "ctxs_inv g s"
    and "intel_iov_provisioning_set_ctxs E g vf n s = (r, s')"
  shows "ctxs_inv g s'"
proof -
  obtain s1 where s1: "pf_provision_ctxs E g vf n s = (r, s1)"
      "s' = s1 \<or> s' = pf_mark_manual_provisioning s1"
    using set_ctxs_cases [OF assms(2)] .
  have "ctxs_inv g s1" using ctxs_inv_pf_provision_ctxs [OF assms(1) s1(1)] .
  with s1(2) show ?thesis using ctxs_inv_cong [where s' = "pf_mark_manual_provisioning s1" and s = s1] by auto
qed

theorem set_ctxs_keeps_inv_witness:
  "ctxs_inv GT_PRIMARY fresh_state \<and>
   ctxs_inv GT_PRIMARY (snd (intel_iov_provisioning_set_ctxs quiet_env GT_PRIMARY 1 200 fresh_state))"
proof -
  have i: "ctxs_inv GT_PRIMARY fresh_state" by (rule ctxs_inv_zero) (simp add: zero_config_def)
  show ?thesis using i set_ctxs_keeps_inv [OF i surjective_pairing] by simp
qed

text \<open>
  Property C2. What a successful request for \<open>n\<close> contexts does, for every \<open>n\<close>: up to 65408 the VF
  gets the least multiple of the granularity that is at least \<open>n\<close>; above it the rounding up wraps
  around in 16 bits, and the VF gets no contexts at all although the request succeeds. In both cases
  only the context fields of that VF's configuration change, and no bitmap is left behind; with
  \<open>n > 0\<close> automatic provisioning is turned off.
\<close>

theorem set_ctxs_success:
  assumes "intel_iov_provisioning_set_ctxs E g vf n s = (Inr u, s')"
  shows "unat (intel_iov_provisioning_get_ctxs g vf s') =
      (if unat n \<le> 65408 then (unat n + 127) div 128 * 128 else 0) \<and>
    ctxs_fields (config g vf s) (config g vf s') \<and>
    (\<forall>g' vf'. g' \<noteq> g \<or> vf' \<noteq> vf \<longrightarrow> config g' vf' s' = config g' vf' s) \<and>
    bitmaps_live s' = bitmaps_live s \<and>
    (n \<noteq> 0 \<longrightarrow> disable_auto_provisioning s')"
proof -
  obtain s1 where s1: "pf_provision_ctxs E g vf n s = (Inr u, s1)"
      "s' = s1 \<or> s' = pf_mark_manual_provisioning s1"
    using set_ctxs_cases [OF assms(1)] .
  have gts: "gts s' = gts s1" "bitmaps_live s' = bitmaps_live s1"
    using s1(2) by (auto simp: pf_mark_manual_provisioning_def)
  have "vf \<noteq> 0" "num_ctxs (config g vf s') = align_ctxs vf n"
    using pf_provision_ctxs_success [OF s1(1)] gts by simp_all
  moreover have "n \<noteq> 0 \<longrightarrow> disable_auto_provisioning s'"
    using assms(1) s1(1) \<open>vf \<noteq> 0\<close> by (auto simp: intel_iov_provisioning_set_ctxs_def Let_def)
  moreover have "align_ctxs vf n = 0" if "\<not> unat n \<le> 65408"
    using align_ctxs_wraps [of n] \<open>vf \<noteq> 0\<close> that by (simp add: align_ctxs_def Let_def)
  ultimately show ?thesis
    using cfg_onlyD(1,2,18) [OF ctxs_only_pf_provision_ctxs [OF s1(1)]] gts
    by (auto simp: intel_iov_provisioning_get_ctxs_def pf_get_ctxs_quota_def unat_align_ctxs)
qed

lemma clear_ranges_all_free: "clear_ranges (replicate (Suc n) False) = [(0, Suc n)]"
  using clear_ranges_from_run [of "[]" 0 0 n] clear_ranges_from_Nil [of "[]"]
  by (simp add: clear_ranges_def)

lemma fresh_clear_ranges: "clear_ranges (ctxs_bitmap (\<lambda>_. zero_config) n) = [(0, 512)]"
proof -
  have "ctxs_bitmap (\<lambda>_. zero_config) n = replicate (Suc 511) False"
    by (rule nth_equalityI) (auto simp: ctxs_map.length_bitmap ctxs_map.nth_bitmap ctx_packages_def
        zero_config_def mem_range_set)
  then show ?thesis using clear_ranges_all_free [of 511] by simp
qed

lemma quiet_bitmap:
  "pf_get_ctxs_bitmap quiet_env g s = (Some (ctxs_bitmap (configs (provisioning g s)) (pf_get_totalvfs s)),
     s\<lparr>allocs := Suc (allocs s), bitmaps_live := Suc (bitmaps_live s)\<rparr>)"
  by (cases rule: pf_get_ctxs_bitmap_cases [of quiet_env g s])
    (auto simp: pf_get_ctxs_bitmap_def bitmap_zalloc_def kmalloc_def quiet_env_def)

lemma provision_range_unpushed:
  "\<not> pf_needs_push_config g vf s \<Longrightarrow> pf_provision_ctxs_range E g vf st n s =
     (Inr (), upd_config g vf (\<lambda>c. c\<lparr>begin_ctx := st, num_ctxs := n\<rparr>) s)"
  by (simp add: pf_provision_ctxs_range_def pf_push_config_ctxs_def pf_provision_vf_ctxs_entry_def)

lemma fresh_quota_and_search:
  assumes "configs (provisioning g s) = (\<lambda>_. zero_config)" "guc_ids_in_use (gts s g) = 0"
    "spare_num_ctxs (spare (provisioning g s)) = 0"
  shows "fst (pf_get_ctxs_max_quota quiet_env g s) = 65280"
    and "fst (pf_alloc_ctxs_range quiet_env g vf 256 s) = Inr 65279"
proof -
  have al: "align_ctxs 1 256 = (256 :: u16)" by (simp add: align_ctxs_def ALIGN_def)
  have "pf_reserved_ctxs g s = 256"
    using assms by (simp add: pf_reserved_ctxs_def pf_get_ctxs_quota_def pf_get_spare_ctxs_def
        pf_get_min_spare_ctxs_def zero_config_def al [simplified])
  then show "fst (pf_get_ctxs_max_quota quiet_env g s) = 65280"
    using assms by (simp add: pf_get_ctxs_max_quota_def quiet_bitmap fresh_clear_ranges
        encode_vf_ctxs_count_def encode_ctxs_count_def decode_vf_ctxs_count_def decode_ctxs_count_def)
  show "fst (pf_alloc_ctxs_range quiet_env g vf 256 s) = Inr 65279"
    using assms by (simp add: pf_alloc_ctxs_range_def pf_alloc_vf_ctxs_range_def quiet_bitmap
        fresh_clear_ranges find_ctxs_index_def encode_vf_ctxs_count_def encode_ctxs_count_def
        decode_vf_ctxs_start_def decode_ctxs_start_def)
qed

theorem set_ctxs_success_witness:
  "\<exists>s'. intel_iov_provisioning_set_ctxs quiet_env GT_PRIMARY 1 200 fresh_state = (Inr (), s') \<and>
     unat (intel_iov_provisioning_get_ctxs GT_PRIMARY 1 s') = 256 \<and> disable_auto_provisioning s'"
proof -
  let ?s1 = "upd_config GT_PRIMARY 1 (\<lambda>c. c\<lparr>begin_ctx := 0, num_ctxs := 0\<rparr>) fresh_state"
  let ?s2 = "?s1\<lparr>allocs := Suc (allocs ?s1)\<rparr>"
  have al: "align_ctxs 1 200 = 256" by (simp add: align_ctxs_def ALIGN_def)
  have np: "\<not> pf_needs_push_config GT_PRIMARY 1 s" if "pci_num_vf s = 0" for s
    using that by (simp add: pf_needs_push_config_def pf_is_vf_enabled_def pf_get_numvfs_def)
  have z: "configs (provisioning GT_PRIMARY ?s1) = (\<lambda>_. zero_config)"
    by (auto simp: fresh_state_def fresh_gt_def zero_config_def)
  have q: "pf_get_ctxs_max_quota quiet_env GT_PRIMARY ?s1 = (65280, ?s2)"
    using fresh_quota_and_search(1) [OF z] pf_get_ctxs_max_quota_state [of quiet_env GT_PRIMARY ?s1]
    by (simp add: fresh_state_def fresh_gt_def prod_eq_iff)
  obtain s3 where a: "pf_alloc_ctxs_range quiet_env GT_PRIMARY 1 256 ?s2 = (Inr 65279, s3)"
    using fresh_quota_and_search(2) [where g = GT_PRIMARY and s = ?s2 and vf = 1] z
    by (cases "pf_alloc_ctxs_range quiet_env GT_PRIMARY 1 256 ?s2") (simp add: fresh_state_def fresh_gt_def)
  have s3: "pci_num_vf s3 = 0"
    using pf_alloc_ctxs_range_cases(1) [OF a] by (simp add: fresh_state_def)
  have "fst (pf_provision_ctxs quiet_env GT_PRIMARY 1 200 fresh_state) = Inr ()"
    unfolding pf_provision_ctxs_def Let_def al
    using provision_range_unpushed [OF np] q a s3
    by (simp add: pf_get_ctxs_quota_def zero_config_def fresh_state_def)
  then obtain s' where s': "intel_iov_provisioning_set_ctxs quiet_env GT_PRIMARY 1 200 fresh_state = (Inr (), s')"
    by (cases "pf_provision_ctxs quiet_env GT_PRIMARY 1 200 fresh_state")
      (simp add: intel_iov_provisioning_set_ctxs_def)
  show ?thesis using s' set_ctxs_success [OF s'] by auto
qed

text \<open>
  A request for more than 65408 contexts wraps to zero when it is aligned: on a VF
  without contexts it reports success, provisions nothing, and still turns automatic
  provisioning off.
\<close>

theorem set_ctxs_overflow_succeeds:
  assumes "vf \<noteq> PFID" "unat n > 65408" "num_ctxs (config g vf s) = 0"
  shows "intel_iov_provisioning_set_ctxs E g vf n s = (Inr (), pf_mark_manual_provisioning s)"
proof -
  have "n \<noteq> 0" using assms(2) by auto
  moreover have "align_ctxs vf n = 0"
    using assms(1) align_ctxs_wraps [OF assms(2)] by (simp add: align_ctxs_def Let_def)
  ultimately show ?thesis
    using assms by (simp add: intel_iov_provisioning_set_ctxs_def pf_provision_ctxs_def
        pf_get_ctxs_quota_def)
qed

theorem set_ctxs_overflow_succeeds_witness:
  "intel_iov_provisioning_set_ctxs quiet_env GT_PRIMARY 1 65500 fresh_state =
     (Inr (), pf_mark_manual_provisioning fresh_state)"
  by (rule set_ctxs_overflow_succeeds) (simp_all add: zero_config_def)

text \<open>
  Among the holes larger than the request, the search takes the top end of the last
  one, not of the smallest one: its comparison with \<open>max_size\<close> is always true.
\<close>

theorem find_ctxs_index_last_larger:
  assumes "length bm = ctxs_bitmap_total_bits" "unat nb \<le> ctxs_bitmap_total_bits"
    and "equal_holes (unat nb) (clear_ranges bm) = []"
    and "larger_holes (unat nb) (clear_ranges bm) \<noteq> []"
  shows "find_ctxs_index nb bm =
     Inr (of_nat (snd (last (larger_holes (unat nb) (clear_ranges bm))) - unat nb))"
proof -
  let ?l = "last (larger_holes (unat nb) (clear_ranges bm))"
  have l: "?l \<in> set (clear_ranges bm)" "unat nb < snd ?l - fst ?l"
    using assms(4) last_filter_mem [of "\<lambda>(rs, re). re - rs > unat nb" "clear_ranges bm"]
    by (auto simp: larger_holes_def split: prod.splits)
  then have b: "snd ?l \<le> 512" using clear_ranges_sound [of "fst ?l" "snd ?l" bm] assms(1) by simp
  have eq: "of_nat (snd ?l) - nb = of_nat (snd ?l - unat nb)"
  proof -
    have "unat nb \<le> snd ?l" using l(2) by linarith
    then have "(of_nat (snd ?l - unat nb) :: u16) = of_nat (snd ?l) - of_nat (unat nb)"
      by (rule of_nat_diff)
    then show ?thesis by simp
  qed
  have "unat (of_nat (snd ?l - unat nb) :: u16) < 65535"
    using b by (simp add: unat_of_nat_u16)
  then have "of_nat (snd ?l - unat nb) < (U16_MAX :: u16)"
    by (simp only: word_less_nat_alt) simp
  then show ?thesis
    using fold_alloc_ctxs_step [OF holes_bound, of bm nb] assms eq
    by (auto simp: find_ctxs_index_def Let_def not_le)
qed

definition two_holes :: bitmap where
  "two_holes = replicate 10 True @ replicate (Suc 1) False @ replicate 100 True @
     replicate (Suc 4) False @ replicate 395 True"

lemma clear_ranges_two_holes: "clear_ranges two_holes = [(10, 12), (112, 117)]"
proof -
  have "clear_ranges_from 12 (replicate 100 True @ replicate (Suc 4) False @ replicate 395 True) =
      [(112, 117)]"
    using clear_ranges_from_run [of "replicate 395 True" 12 100 4]
      clear_ranges_from_Nil [of "replicate 395 True" 117] by simp
  then show ?thesis
    unfolding clear_ranges_def two_holes_def
    using clear_ranges_from_run [of "replicate 100 True @ replicate (Suc 4) False @ replicate 395 True"
        0 10 1] by simp
qed

theorem find_ctxs_index_last_larger_witness:
  "find_ctxs_index 1 two_holes = Inr 116 \<and> (10, 12) \<in> set (clear_ranges two_holes)"
  using find_ctxs_index_last_larger [of two_holes 1]
  by (simp add: clear_ranges_two_holes larger_holes_def equal_holes_def) (simp add: two_holes_def)

text \<open>
  The initial partitioning of a fresh PF establishes the context invariant, gives the
  PF the first \<open>512 - (512 div (1 + total_vfs)) * total_vfs\<close> packages less one context, and leaves
  every VF an equal share.
\<close>

theorem provisioning_init_partitions:
  assumes "\<not> is_err (sriov_status s)"
    and "\<And>vf. vf \<le> pf_get_totalvfs s \<Longrightarrow> num_ctxs (config g vf s) = 0"
  shows "ctxs_inv g (intel_iov_provisioning_init g s) \<and>
    begin_ctx (config g PFID (intel_iov_provisioning_init g s)) = 0 \<and>
    unat (num_ctxs (config g PFID (intel_iov_provisioning_init g s))) + 1 =
      128 * (512 - (512 div (1 + pf_get_totalvfs s)) * pf_get_totalvfs s)"
  using assms ctxs_inv_assign_pf [OF assms(2)] pf_share [of "pf_get_totalvfs s"]
  by (simp add: intel_iov_provisioning_init_def pf_assign_ctxs_entry)

theorem provisioning_init_partitions_witness:
  "ctxs_inv GT_PRIMARY (intel_iov_provisioning_init GT_PRIMARY fresh_state) \<and>
   unat (num_ctxs (config GT_PRIMARY PFID (intel_iov_provisioning_init GT_PRIMARY fresh_state))) = 22015"
  using provisioning_init_partitions [of fresh_state GT_PRIMARY]
  by (simp add: zero_config_def) (simp add: fresh_state_def zero_config_def)

text \<open>
  Property C3. The quota check of \<open>pf_provision_ctxs\<close> is sufficient: once the PF has its contexts,
  an aligned request that does not exceed \<open>pf_get_ctxs_max_quota\<close> finds a range, unless the
  allocation of the bitmap fails.
\<close>

theorem max_quota_admits_allocation:
  assumes "ctxs_inv g s" "num_ctxs (config g PFID s) \<noteq> 0"
    and "pf_get_ctxs_max_quota E g s = (mx, s1)"
    and "q \<le> mx" "q \<noteq> 0" "unat q mod CTXS_GRANULARITY = 0"
    and "pf_alloc_ctxs_range E g vf q s1 = (r, s2)"
  shows "r = Inl ENOMEM \<or> (\<exists>start. r = Inr start)"
proof -
  let ?bm = "ctxs_bitmap (configs (provisioning g s)) (pf_get_totalvfs s)"
  have "s1 = s\<lparr>allocs := Suc (allocs s)\<rparr>"
    using pf_get_ctxs_max_quota_state [of E g s] assms(3) by simp
  then have bm: "ctxs_bitmap (configs (provisioning g s1)) (pf_get_totalvfs s1) = ?bm"
    by (simp add: pf_get_totalvfs_def)
  have "unat (encode_vf_ctxs_count q) \<le> 512"
    using u16_bound [of q] by (simp add: encode_vf_ctxs_count_def unat_encode_count)
  then have "\<not> (\<exists>e. find_ctxs_index (encode_vf_ctxs_count q) ?bm = Inl e)"
    using find_ctxs_index_ENOSPC [OF ctxs_map.length_bitmap _ pf_owns_package_0 [OF assms(1,2)]]
      max_quota_has_hole [OF assms(3-6)] by blast
  then show ?thesis
    using pf_alloc_ctxs_range_cases(2) [OF assms(7)] bm
    by (cases "find_ctxs_index (encode_vf_ctxs_count q) ?bm") auto
qed

definition ready_state :: i915_state where
  "ready_state = intel_iov_provisioning_init GT_PRIMARY fresh_state"

lemma ready_config:
  "config GT_PRIMARY vf ready_state =
     (if vf = 0 then zero_config\<lparr>begin_ctx := 0, num_ctxs := 22015\<rparr> else zero_config)"
  by (simp add: ready_state_def intel_iov_provisioning_init_def pf_assign_ctxs_entry
      decode_pf_ctxs_count_def decode_ctxs_count_def) (simp add: fresh_state_def)

lemma ready_frame:
  "pf_get_totalvfs ready_state = 2" "guc_ids_in_use (gts ready_state GT_PRIMARY) = 0"
  "spare (provisioning GT_PRIMARY ready_state) = spare (provisioning GT_PRIMARY fresh_state)"
  by (simp_all add: ready_state_def intel_iov_provisioning_init_def pf_assign_ctxs_for_pf_def
      intel_guc_submission_limit_ids_def Let_def fresh_state_def fresh_gt_def pf_get_totalvfs_def)

lemma ready_clear_ranges:
  "clear_ranges (ctxs_bitmap (configs (provisioning GT_PRIMARY ready_state)) 2) = [(172, 512)]"
proof -
  have "ctxs_bitmap (configs (provisioning GT_PRIMARY ready_state)) 2 =
      replicate 172 True @ replicate (Suc 339) False @ []" (is "?l = ?r")
  proof (rule nth_equalityI)
    show "length ?l = length ?r" by (simp add: ctxs_map.length_bitmap)
    fix k assume "k < length ?l"
    then have "k < 512" by (simp add: ctxs_map.length_bitmap)
    moreover from this have "?l ! k \<longleftrightarrow> k < 172"
      by (auto simp: ctxs_map.nth_bitmap ready_config ctx_packages_def mem_range_set
          unat_encode_start unat_encode_count zero_config_def split: if_splits)
    ultimately show "?l ! k = ?r ! k" by (simp only: nth_run) auto
  qed
  then show ?thesis
    using clear_ranges_from_run [of "[]" 0 172 339] clear_ranges_from_Nil [of "[]"]
    by (simp add: clear_ranges_def)
qed

theorem max_quota_admits_allocation_witness:
  "fst (pf_get_ctxs_max_quota quiet_env GT_PRIMARY ready_state) = 43520 \<and>
   (\<exists>r. fst (pf_alloc_ctxs_range quiet_env GT_PRIMARY 1 128
       (snd (pf_get_ctxs_max_quota quiet_env GT_PRIMARY ready_state))) = r \<and>
     (r = Inl ENOMEM \<or> (\<exists>start. r = Inr start)))"
proof -
  have mq: "fst (pf_get_ctxs_max_quota quiet_env GT_PRIMARY ready_state) = 43520"
    by (simp add: pf_get_ctxs_max_quota_def quiet_bitmap ready_frame ready_clear_ranges
        pf_reserved_ctxs_def pf_get_ctxs_quota_def ready_config pf_get_spare_ctxs_def
        pf_get_min_spare_ctxs_def encode_vf_ctxs_count_def encode_ctxs_count_def
        decode_vf_ctxs_count_def decode_ctxs_count_def)
      (simp add: fresh_state_def fresh_gt_def)
  have inv: "ctxs_inv GT_PRIMARY ready_state"
    unfolding ready_state_def intel_iov_provisioning_init_def
    using ctxs_inv_assign_pf [of fresh_state GT_PRIMARY] ctxs_inv_zero [of fresh_state GT_PRIMARY]
    by (simp add: zero_config_def)
  have pf: "num_ctxs (config GT_PRIMARY 0 ready_state) \<noteq> 0" by (simp add: ready_config)
  show ?thesis
    using mq max_quota_admits_allocation [OF inv pf surjective_pairing [of
          "pf_get_ctxs_max_quota quiet_env GT_PRIMARY ready_state"] _ _ _ surjective_pairing, of 128 1]
    by auto
qed

end
