(* ===== verification/Iov_Dbs.thy ===== *)
theory Iov_Dbs
  imports Iov_Ctxs
begin

text \<open>
  Provisioning of GuC doorbells (\<open>gt/iov/intel_iov_provisioning.c\<close>). The bitmap of doorbells in
  use is rebuilt from the VF configurations; the PF is not counted in it but keeps a number of
  spare doorbells. The invariant \<open>dbs_inv\<close> says that the doorbells of the VFs are disjoint and
  in range.
\<close>

section \<open>Operations\<close>

abbreviation (input) GUC_NUM_DOORBELLS :: nat where "GUC_NUM_DOORBELLS \<equiv> 256"

definition pf_get_min_spare_dbs :: u16 where "pf_get_min_spare_dbs = 0"

definition pf_get_spare_dbs :: "intel_gt_type \<Rightarrow> i915_state \<Rightarrow> u16" where
  "pf_get_spare_dbs g s = max (spare_num_dbs (spare (provisioning g s))) pf_get_min_spare_dbs"

definition intel_iov_provisioning_get_spare_dbs :: "intel_gt_type \<Rightarrow> i915_state \<Rightarrow> u16" where
  "intel_iov_provisioning_get_spare_dbs g s = pf_get_spare_dbs g s"

definition intel_iov_provisioning_set_spare_dbs ::
    "intel_gt_type \<Rightarrow> u16 \<Rightarrow> i915_state \<Rightarrow> unit res \<times> i915_state" where
  "intel_iov_provisioning_set_spare_dbs g n s =
     (if unat n > GUC_NUM_DOORBELLS then (Inl EINVAL, s)
      else if n \<noteq> 0 \<and> n < pf_get_min_spare_dbs then (Inl EINVAL, s)
      else (Inr (), upd_prov g (\<lambda>p. p\<lparr>spare := (spare p)\<lparr>spare_num_dbs := n\<rparr>\<rparr>) s))"

definition pf_is_valid_config_dbs :: "intel_gt_type \<Rightarrow> nat \<Rightarrow> i915_state \<Rightarrow> bool" where
  "pf_is_valid_config_dbs g vf s \<longleftrightarrow>
     num_dbs (config g vf s) \<noteq> 0 \<or> begin_db (config g vf s) \<noteq> 0"

primrec dbs_bitmap_loop ::
    "(nat \<Rightarrow> intel_iov_config) \<Rightarrow> nat list \<Rightarrow> bitmap \<Rightarrow> bitmap" where
  "dbs_bitmap_loop cs [] bm = bm"
| "dbs_bitmap_loop cs (i # is) bm =
     dbs_bitmap_loop cs is
       (if num_dbs (cs i) = 0 then bm
        else bitmap_set bm (unat (begin_db (cs i))) (unat (num_dbs (cs i))))"

definition dbs_bitmap :: "(nat \<Rightarrow> intel_iov_config) \<Rightarrow> nat \<Rightarrow> bitmap" where
  "dbs_bitmap cs total_vfs =
     dbs_bitmap_loop cs [1..<Suc total_vfs] (bitmap_zero GUC_NUM_DOORBELLS)"

definition pf_get_dbs_bitmap ::
    "iov_env \<Rightarrow> intel_gt_type \<Rightarrow> i915_state \<Rightarrow> bitmap option \<times> i915_state" where
  "pf_get_dbs_bitmap E g s =
     (case bitmap_zalloc E GUC_NUM_DOORBELLS s of
        (None, s1) \<Rightarrow> (None, s1)
      | (Some bm, s1) \<Rightarrow>
          (Some (dbs_bitmap_loop (configs (provisioning g s1)) [1..<Suc (pf_get_totalvfs s1)] bm),
           s1))"

text \<open>The early return with \<open>-EDQUOT\<close> leaves the bitmap allocated.\<close>

definition pf_alloc_dbs_range ::
    "iov_env \<Rightarrow> intel_gt_type \<Rightarrow> u16 \<Rightarrow> i915_state \<Rightarrow> nat res \<times> i915_state" where
  "pf_alloc_dbs_range E g n s =
     (case pf_get_dbs_bitmap E g s of
        (None, s1) \<Rightarrow> (Inl ENOMEM, s1)
      | (Some bm, s1) \<Rightarrow>
          (let used = bitmap_weight bm
           in if used + unat (pf_get_spare_dbs g s1) + unat n > GUC_NUM_DOORBELLS
              then (Inl EDQUOT, s1)
              else let index = bitmap_find_next_zero_area bm (unat n);
                       s2 = bitmap_free s1
                   in if index \<ge> GUC_NUM_DOORBELLS then (Inl ENOSPC, s2) else (Inr index, s2)))"

definition pf_push_config_dbs ::
    "iov_env \<Rightarrow> intel_gt_type \<Rightarrow> nat \<Rightarrow> u16 \<Rightarrow> u16 \<Rightarrow> i915_state \<Rightarrow> unit res \<times> i915_state" where
  "pf_push_config_dbs E g vf begin num s =
     (if \<not> pf_needs_push_config g vf s then (Inr (), s)
      else case guc_update_vf_klv32 E g vf GUC_KLV_VF_CFG_BEGIN_DOORBELL_ID_KEY (ucast begin) s of
        (Inl e, s1) \<Rightarrow> (Inl e, s1)
      | (Inr u, s1) \<Rightarrow> guc_update_vf_klv32 E g vf GUC_KLV_VF_CFG_NUM_DOORBELLS_KEY (ucast num) s1)"

definition pf_provision_dbs ::
    "iov_env \<Rightarrow> intel_gt_type \<Rightarrow> nat \<Rightarrow> u16 \<Rightarrow> i915_state \<Rightarrow> unit res \<times> i915_state" where
  "pf_provision_dbs E g vf n s =
     (if n = num_dbs (config g vf s) then (Inr (), s)
      else case
        (if num_dbs (config g vf s) \<noteq> 0
         then pf_push_config_dbs E g vf 0 0 (upd_config g vf (\<lambda>c. c\<lparr>begin_db := 0, num_dbs := 0\<rparr>) s)
         else (Inr (), s)) of
        (Inl e, s1) \<Rightarrow> (Inl e, s1)
      | (Inr u, s1) \<Rightarrow>
          if n = 0 then (Inr (), s1)
          else case pf_alloc_dbs_range E g n s1 of
            (Inl e, s2) \<Rightarrow> (Inl e, s2)
          | (Inr ret, s2) \<Rightarrow>
              (case pf_push_config_dbs E g vf (of_nat ret) n s2 of
                 (Inl e, s3) \<Rightarrow> (Inl e, s3)
               | (Inr u, s3) \<Rightarrow>
                   (Inr (), upd_config g vf (\<lambda>c. c\<lparr>begin_db := of_nat ret, num_dbs := n\<rparr>) s3)))"

definition intel_iov_provisioning_set_dbs ::
    "iov_env \<Rightarrow> intel_gt_type \<Rightarrow> nat \<Rightarrow> u16 \<Rightarrow> i915_state \<Rightarrow> unit res \<times> i915_state" where
  "intel_iov_provisioning_set_dbs E g vf n s =
     (let reprovisioning = (pf_is_valid_config_dbs g vf s \<or> n \<noteq> 0)
      in case pf_provision_dbs E g vf n s of
           (Inl e, s1) \<Rightarrow> (Inl e, s1)
         | (Inr u, s1) \<Rightarrow>
             (Inr (), if reprovisioning \<and> vf \<noteq> PFID then pf_mark_manual_provisioning s1 else s1))"

definition intel_iov_provisioning_get_dbs :: "intel_gt_type \<Rightarrow> nat \<Rightarrow> i915_state \<Rightarrow> u16" where
  "intel_iov_provisioning_get_dbs g vf s = num_dbs (config g vf s)"

definition pf_get_free_dbs :: "iov_env \<Rightarrow> intel_gt_type \<Rightarrow> i915_state \<Rightarrow> u16 \<times> i915_state" where
  "pf_get_free_dbs E g s =
     (case pf_get_dbs_bitmap E g s of
        (None, s1) \<Rightarrow> (0, s1)
      | (Some bm, s1) \<Rightarrow> (of_nat (GUC_NUM_DOORBELLS - bitmap_weight bm), bitmap_free s1))"

definition intel_iov_provisioning_query_free_dbs ::
    "iov_env \<Rightarrow> intel_gt_type \<Rightarrow> i915_state \<Rightarrow> u16 \<times> i915_state" where
  "intel_iov_provisioning_query_free_dbs E g s = pf_get_free_dbs E g s"

definition pf_get_max_dbs :: "iov_env \<Rightarrow> intel_gt_type \<Rightarrow> i915_state \<Rightarrow> u16 \<times> i915_state" where
  "pf_get_max_dbs E g s =
     (case pf_get_dbs_bitmap E g s of
        (None, s1) \<Rightarrow> (0, s1)
      | (Some bm, s1) \<Rightarrow>
          (fold (\<lambda>(rs, re) limit. max limit (of_nat (re - rs))) (clear_ranges bm) 0, bitmap_free s1))"

definition intel_iov_provisioning_query_max_dbs ::
    "iov_env \<Rightarrow> intel_gt_type \<Rightarrow> i915_state \<Rightarrow> u16 \<times> i915_state" where
  "intel_iov_provisioning_query_max_dbs E g s = pf_get_max_dbs E g s"

section \<open>The bitmap and the invariant\<close>

definition db_ids :: "nat \<Rightarrow> intel_iov_config \<Rightarrow> nat \<times> nat" where
  "db_ids vf c = (unat (begin_db c), unat (num_dbs c))"

definition dbs_inv :: "intel_gt_type \<Rightarrow> i915_state \<Rightarrow> bool" where
  "dbs_inv g s \<longleftrightarrow>
     ranges_ok GUC_NUM_DOORBELLS {1..pf_get_totalvfs s} (\<lambda>vf. db_ids vf (config g vf s))"

lemma dbs_bitmap_loop_ranges:
  "dbs_bitmap_loop cs is bm = set_ranges bm (map (\<lambda>i. db_ids i (cs i)) is)"
  by (induction "is" arbitrary: bm) (simp_all add: db_ids_def unat_0_iff)

interpretation dbs_map: range_bitmap GUC_NUM_DOORBELLS 1 db_ids dbs_bitmap
proof unfold_locales
  show "length (dbs_bitmap cs n) = 256" for cs n
    by (simp add: dbs_bitmap_def dbs_bitmap_loop_ranges bitmap_simps)
  show "k < 256 \<Longrightarrow> dbs_bitmap cs n ! k \<longleftrightarrow>
      (\<exists>i. 1 \<le> i \<and> i \<le> n \<and> k \<in> range_set (db_ids i (cs i)))" for k cs n
    by (auto simp: dbs_bitmap_def dbs_bitmap_loop_ranges bitmap_simps less_Suc_eq_le
        simp del: upt_Suc)
qed

lemma pf_get_dbs_bitmap_cases:
  obtains s1 where "pf_get_dbs_bitmap E g s = (None, s1)" "s1 = s\<lparr>allocs := Suc (allocs s)\<rparr>"
  | s1 where "pf_get_dbs_bitmap E g s =
        (Some (dbs_bitmap (configs (provisioning g s)) (pf_get_totalvfs s)), s1)"
      "s1 = s\<lparr>allocs := Suc (allocs s), bitmaps_live := Suc (bitmaps_live s)\<rparr>"
  by (cases "env_alloc E (allocs s)")
    (auto simp: pf_get_dbs_bitmap_def bitmap_zalloc_def kmalloc_def dbs_bitmap_def
      pf_get_totalvfs_def)

lemma dbs_inv_cong:
  "configs (provisioning g s') = configs (provisioning g s) \<Longrightarrow>
   pf_get_totalvfs s' = pf_get_totalvfs s \<Longrightarrow> dbs_inv g s' \<longleftrightarrow> dbs_inv g s"
  by (simp add: dbs_inv_def)

lemma dbs_inv_guc_only: "guc_only s s' \<Longrightarrow> dbs_inv g s' \<longleftrightarrow> dbs_inv g s"
  by (rule dbs_inv_cong) (simp_all add: guc_onlyD)

lemma dbs_inv_release:
  assumes "dbs_inv g s"
  shows "dbs_inv g (upd_config g vf (\<lambda>c. c\<lparr>begin_db := b, num_dbs := 0\<rparr>) s)"
  using dbs_map.release_keeps_ranges_ok [of "pf_get_totalvfs s" "configs (provisioning g s)" vf
      "(config g vf s)\<lparr>begin_db := b, num_dbs := 0\<rparr>"] assms
  by (simp add: dbs_inv_def db_ids_def)

lemma dbs_inv_alloc:
  assumes "dbs_inv g s" "i < 256"
    and "zero_area (dbs_bitmap (configs (provisioning g s)) (pf_get_totalvfs s)) i (unat n)"
  shows "dbs_inv g (upd_config g vf (\<lambda>c. c\<lparr>begin_db := of_nat i, num_dbs := n\<rparr>) s)"
proof -
  have "unat (of_nat i :: u16) = i" using assms(2) by (intro unat_of_nat_u16) simp
  then show ?thesis
    using dbs_map.alloc_keeps_ranges_ok [of "pf_get_totalvfs s" "configs (provisioning g s)" i
        "unat n" vf "(config g vf s)\<lparr>begin_db := of_nat i, num_dbs := n\<rparr>"] assms
    by (simp add: dbs_inv_def db_ids_def)
qed

section \<open>The search for doorbells\<close>

lemma pf_alloc_dbs_range_cases [consumes 1, case_names nomem quota nospace found]:
  assumes "pf_alloc_dbs_range E g n s = (r, s')"
  defines "bm \<equiv> dbs_bitmap (configs (provisioning g s)) (pf_get_totalvfs s)"
  obtains "r = Inl ENOMEM" "s' = s\<lparr>allocs := Suc (allocs s)\<rparr>"
  | "r = Inl EDQUOT" "bitmap_weight bm + unat (pf_get_spare_dbs g s) + unat n > 256"
    "s' = s\<lparr>allocs := Suc (allocs s), bitmaps_live := Suc (bitmaps_live s)\<rparr>"
  | "r = Inl ENOSPC" "bitmap_weight bm + unat (pf_get_spare_dbs g s) + unat n \<le> 256"
    "bitmap_find_next_zero_area bm (unat n) \<ge> 256" "s' = s\<lparr>allocs := Suc (allocs s)\<rparr>"
  | i where "r = Inr i" "bitmap_weight bm + unat (pf_get_spare_dbs g s) + unat n \<le> 256"
    "i = bitmap_find_next_zero_area bm (unat n)" "i < 256" "zero_area bm i (unat n)"
    "s' = s\<lparr>allocs := Suc (allocs s)\<rparr>"
proof (cases rule: pf_get_dbs_bitmap_cases [of E g s])
  case (1 t)
  with assms(1) that(1) show thesis by (simp add: pf_alloc_dbs_range_def)
next
  case (2 t)
  have sp: "pf_get_spare_dbs g t = pf_get_spare_dbs g s"
    and fr: "bitmap_free t = s\<lparr>allocs := Suc (allocs s)\<rparr>"
    by (simp_all add: 2(2) pf_get_spare_dbs_def bitmap_alloc_free)
  consider "256 < bitmap_weight bm + unat (pf_get_spare_dbs g s) + unat n"
    | "bitmap_weight bm + unat (pf_get_spare_dbs g s) + unat n \<le> 256"
      "bitmap_find_next_zero_area bm (unat n) \<ge> 256"
    | "bitmap_weight bm + unat (pf_get_spare_dbs g s) + unat n \<le> 256"
      "bitmap_find_next_zero_area bm (unat n) < 256" by linarith
  then show thesis
  proof cases
    case a: 1
    with 2 assms sp that(2) show thesis by (simp add: pf_alloc_dbs_range_def Let_def)
  next
    case b: 2
    with 2 assms sp fr that(3) show thesis by (simp add: pf_alloc_dbs_range_def Let_def)
  next
    case c: 3
    have "zero_area bm (bitmap_find_next_zero_area bm (unat n)) (unat n)"
      using find_next_zero_area_sound [of bm "unat n"] c(2) by (simp add: bm_def dbs_map.length_bitmap)
    with c 2 assms sp fr that(4) show thesis by (simp add: pf_alloc_dbs_range_def Let_def)
  qed
qed

lemma guc_only_push_dbs: "pf_push_config_dbs E g vf b n s = (r, s') \<Longrightarrow> guc_only s s'"
  by (auto simp: pf_push_config_dbs_def split: if_splits prod.splits sum.splits
      dest!: guc_only_vf_klv32 intro: guc_only_trans)

section \<open>Provisioning\<close>

text \<open>
  The possible outcomes of \<open>pf_provision_dbs\<close>: nothing to do; the old doorbells released (in full
  or before a failed push); a range found but its push failed; a range recorded.
\<close>

lemma pf_provision_dbs_cases [consumes 1, case_names same released failed stored]:
  assumes "pf_provision_dbs E g vf n s = (r, s')"
  obtains "n = num_dbs (config g vf s)" "r = Inr ()" "s' = s"
  | s0 s1 where "s0 = (if num_dbs (config g vf s) = 0 then s
        else upd_config g vf (\<lambda>c. c\<lparr>begin_db := 0, num_dbs := 0\<rparr>) s)"
      "guc_only s0 s1" "s' = s1" "is_err r \<or> n = 0"
  | s0 s1 s2 a where "s0 = (if num_dbs (config g vf s) = 0 then s
        else upd_config g vf (\<lambda>c. c\<lparr>begin_db := 0, num_dbs := 0\<rparr>) s)"
      "guc_only s0 s1" "pf_alloc_dbs_range E g n s1 = (a, s2)" "guc_only s2 s'" "is_err r" "n \<noteq> 0"
  | s0 s1 s2 s3 i where "s0 = (if num_dbs (config g vf s) = 0 then s
        else upd_config g vf (\<lambda>c. c\<lparr>begin_db := 0, num_dbs := 0\<rparr>) s)"
      "guc_only s0 s1" "pf_alloc_dbs_range E g n s1 = (Inr i, s2)" "guc_only s2 s3" "r = Inr ()"
      "s' = upd_config g vf (\<lambda>c. c\<lparr>begin_db := of_nat i, num_dbs := n\<rparr>) s3" "n \<noteq> 0"
proof (cases "n = num_dbs (config g vf s)")
  case True
  then have "pf_provision_dbs E g vf n s = (Inr (), s)" by (simp add: pf_provision_dbs_def)
  then show thesis using assms by (intro that(1) [OF True]) simp_all
next
  case False
  define s0 where "s0 = (if num_dbs (config g vf s) = 0 then s
        else upd_config g vf (\<lambda>c. c\<lparr>begin_db := 0, num_dbs := 0\<rparr>) s)"
  define p where "p = (if num_dbs (config g vf s) \<noteq> 0 then pf_push_config_dbs E g vf 0 0 s0
        else (Inr (), s0))"
  obtain r1 s1 where p: "p = (r1, s1)" by (cases p)
  have g1: "guc_only s0 s1"
    using p guc_only_push_dbs by (auto simp: p_def split: if_splits)
  have eq: "pf_provision_dbs E g vf n s =
     (case (r1, s1) of
        (Inl e, s1) \<Rightarrow> (Inl e, s1)
      | (Inr u, s1) \<Rightarrow>
          if n = 0 then (Inr (), s1)
          else case pf_alloc_dbs_range E g n s1 of
            (Inl e, s2) \<Rightarrow> (Inl e, s2)
          | (Inr ret, s2) \<Rightarrow>
              (case pf_push_config_dbs E g vf (of_nat ret) n s2 of
                 (Inl e, s3) \<Rightarrow> (Inl e, s3)
               | (Inr u, s3) \<Rightarrow>
                   (Inr (), upd_config g vf (\<lambda>c. c\<lparr>begin_db := of_nat ret, num_dbs := n\<rparr>) s3)))"
    using False unfolding p [symmetric] p_def s0_def pf_provision_dbs_def by simp
  show thesis
  proof (cases "is_err r1 \<or> n = 0")
    case True
    then show thesis using assms eq that(2) [OF s0_def g1] by (auto simp: is_err_iff split: sum.splits)
  next
    case nf: False
    obtain a s2 where a: "pf_alloc_dbs_range E g n s1 = (a, s2)" by (cases "pf_alloc_dbs_range E g n s1")
    show thesis
    proof (cases a)
      case (Inl e)
      then show thesis using assms eq nf a that(3) [OF s0_def g1 a] by (auto split: sum.splits)
    next
      case (Inr i)
      obtain r3 s3 where r3: "pf_push_config_dbs E g vf (of_nat i) n s2 = (r3, s3)"
        by (cases "pf_push_config_dbs E g vf (of_nat i) n s2")
      note g3 = guc_only_push_dbs [OF r3]
      show thesis
        using assms eq nf a Inr r3 g3 that(3) [OF s0_def g1 a]
          that(4) [OF s0_def g1 a [unfolded Inr] g3]
        by (cases r3) (auto split: sum.splits)
    qed
  qed
qed

lemma dbs_inv_pf_provision_dbs:
  assumes "dbs_inv g s" "pf_provision_dbs E g vf n s = (r, s')"
  shows "dbs_inv g s'"
proof -
  have s0: "dbs_inv g (if num_dbs (config g vf s) = 0 then s
        else upd_config g vf (\<lambda>c. c\<lparr>begin_db := 0, num_dbs := 0\<rparr>) s)"
    using assms(1) dbs_inv_release by simp
  have alloc: "dbs_inv g t'" if "pf_alloc_dbs_range E g n t = (a, t')" "dbs_inv g t" for a t t'
    using that(1) by (cases rule: pf_alloc_dbs_range_cases)
      (use that(2) dbs_inv_cong [where g = g and s = t and s' = t'] in \<open>auto simp: pf_get_totalvfs_def\<close>)
  from assms(2) show ?thesis
  proof (cases rule: pf_provision_dbs_cases)
    case same
    show ?thesis using assms(1) unfolding same(3) .
  next
    case (released s0 s1)
    then have "dbs_inv g s0" using s0 by simp
    then show ?thesis using dbs_inv_guc_only [OF released(2)] released(3) by blast
  next
    case (failed s0 s1 s2 a)
    then have "dbs_inv g s0" using s0 by simp
    then have "dbs_inv g s1" using dbs_inv_guc_only [OF failed(2)] by blast
    then show ?thesis using alloc [OF failed(3)] dbs_inv_guc_only [OF failed(4)] by blast
  next
    case (stored s0 s1 s2 s3 i)
    then have "dbs_inv g s0" using s0 by simp
    then have "dbs_inv g s1" using dbs_inv_guc_only [OF stored(2)] by blast
    then have s3: "dbs_inv g s3" using alloc [OF stored(3)] dbs_inv_guc_only [OF stored(4)] by blast
    from stored(3) show ?thesis
    proof (cases rule: pf_alloc_dbs_range_cases)
      case (found j)
      then have "configs (provisioning g s3) = configs (provisioning g s1)"
        "pf_get_totalvfs s3 = pf_get_totalvfs s1"
        using stored(4) by (simp_all add: guc_onlyD pf_get_totalvfs_def)
      with found s3 show ?thesis unfolding stored(6) by (intro dbs_inv_alloc) simp_all
    qed simp_all
  qed
qed

section \<open>Counting doorbells\<close>

lemma bitmap_weight_card: "bitmap_weight bm = card {k. k < length bm \<and> bm ! k}"
  by (simp add: bitmap_weight_def length_filter_conv_card)

lemma dbs_weight_alloc:
  fixes c :: intel_iov_config
  assumes "1 \<le> vf" "vf \<le> tot" "num_dbs (cs vf) = 0" "zero_area (dbs_bitmap cs tot) i n"
    and "db_ids vf c = (i, n)"
  shows "bitmap_weight (dbs_bitmap (cs(vf := c)) tot) = bitmap_weight (dbs_bitmap cs tot) + n"
proof -
  let ?old = "{k. k < 256 \<and> dbs_bitmap cs tot ! k}"
  have "i + n \<le> 256" using assms(4) by (simp add: zero_area_def dbs_map.length_bitmap)
  moreover have "dbs_bitmap (cs(vf := c)) tot ! k \<longleftrightarrow> dbs_bitmap cs tot ! k \<or> k \<in> {i..<i + n}"
    if k: "k < 256" for k
  proof -
    have e: "range_set (db_ids vf (cs vf)) = {}" "range_set (db_ids vf c) = {i..<i + n}"
      using assms(3,5) by (simp_all add: db_ids_def range_set_def)
    have "(\<exists>j. 1 \<le> j \<and> j \<le> tot \<and> k \<in> range_set (db_ids j ((cs(vf := c)) j))) \<longleftrightarrow>
        (\<exists>j. 1 \<le> j \<and> j \<le> tot \<and> k \<in> range_set (db_ids j (cs j))) \<or> k \<in> {i..<i + n}"
      using e assms(1,2) by (metis empty_iff fun_upd_apply)
    then show ?thesis using dbs_map.nth_bitmap [OF k] by simp
  qed
  ultimately have "{k. k < 256 \<and> dbs_bitmap (cs(vf := c)) tot ! k} = ?old \<union> {i..<i + n}"
    by auto
  moreover have "?old \<inter> {i..<i + n} = {}"
    using assms(4) by (auto simp: zero_area_iff)
  ultimately have "card {k. k < 256 \<and> dbs_bitmap (cs(vf := c)) tot ! k} = card ?old + n"
    by (simp add: card_Un_disjoint)
  then show ?thesis by (simp add: bitmap_weight_card dbs_map.length_bitmap)
qed

section \<open>Effect and frame\<close>

definition dbs_fields :: "intel_iov_config \<Rightarrow> intel_iov_config \<Rightarrow> bool" where
  "dbs_fields c c' \<longleftrightarrow> (\<exists>b n. c' = c\<lparr>begin_db := b, num_dbs := n\<rparr>)"

lemma dbs_fields_refl [simp]: "dbs_fields c c"
  unfolding dbs_fields_def by (intro exI [of _ "begin_db c"] exI [of _ "num_dbs c"]) simp

lemma dbs_fields_upd [simp]: "dbs_fields c (c\<lparr>begin_db := b, num_dbs := n\<rparr>)"
  unfolding dbs_fields_def by blast

lemma dbs_fields_trans: "transp dbs_fields"
proof (rule transpI)
  fix a b c assume "dbs_fields a b" "dbs_fields b c"
  then show "dbs_fields a c" by (auto simp: dbs_fields_def) blast
qed

lemmas cfg_only_dbs_trans = cfg_only_trans [OF dbs_fields_trans]

text \<open>Up to a leaked bitmap, doorbell provisioning changes one configuration's doorbells.\<close>

definition unleak :: "i915_state \<Rightarrow> i915_state \<Rightarrow> i915_state" where
  "unleak s s' = s'\<lparr>bitmaps_live := bitmaps_live s\<rparr>"

lemma guc_only_unleak: "guc_only s s' \<Longrightarrow> guc_only (s\<lparr>bitmaps_live := k\<rparr>) (s'\<lparr>bitmaps_live := k\<rparr>)"
proof -
  assume "guc_only s s'"
  then obtain n logs where "s' = s\<lparr>allocs := n, gts := (\<lambda>g. (gts s g)\<lparr>guc_log := logs g\<rparr>)\<rparr>"
    unfolding guc_only_def by blast
  then have "s'\<lparr>bitmaps_live := k\<rparr> = (s\<lparr>bitmaps_live := k\<rparr>)
      \<lparr>allocs := n, gts := (\<lambda>g. (gts (s\<lparr>bitmaps_live := k\<rparr>) g)\<lparr>guc_log := logs g\<rparr>)\<rparr>"
    by simp
  then show ?thesis unfolding guc_only_def by blast
qed

lemma alloc_dbs_unleak:
  "pf_alloc_dbs_range E g n s = (r, s') \<Longrightarrow> guc_only s (s'\<lparr>bitmaps_live := bitmaps_live s\<rparr>)"
  by (erule pf_alloc_dbs_range_cases) (simp_all add: allocs_only)

lemma dbs_only_pf_provision_dbs:
  assumes "pf_provision_dbs E g vf n s = (r, s')"
  shows "cfg_only dbs_fields g vf s (unleak s s')"
proof -
  have 0: "cfg_only dbs_fields g vf s (if num_dbs (config g vf s) = 0 then s
        else upd_config g vf (\<lambda>c. c\<lparr>begin_db := 0, num_dbs := 0\<rparr>) s)" (is "cfg_only _ _ _ _ ?s0")
    by (auto intro: cfg_only_guc cfg_only_upd)
  have 1: "cfg_only dbs_fields g vf s s1" if "guc_only ?s0 s1" for s1
    using cfg_only_dbs_trans [OF 0] cfg_only_guc [OF that] by simp
  have 2: "cfg_only dbs_fields g vf s (unleak s s3) \<and> config g vf s3 = config g vf s1"
    if "guc_only ?s0 s1" "pf_alloc_dbs_range E g n s1 = (a, s2)" "guc_only s2 s3" for s1 a s2 s3
  proof -
    have bl: "bitmaps_live s1 = bitmaps_live s"
      using that(1) by (simp add: guc_onlyD split: if_splits)
    have g2: "guc_only s1 (s2\<lparr>bitmaps_live := bitmaps_live s\<rparr>)"
      using alloc_dbs_unleak [OF that(2)] bl by simp
    have g3: "guc_only s1 (unleak s s3)"
      using guc_only_trans [OF g2 guc_only_unleak [OF that(3)]] by (simp add: unleak_def)
    then have "config g vf s3 = config g vf s1" using guc_onlyD(1) [OF g3] by (simp add: unleak_def)
    then show ?thesis
      using cfg_only_dbs_trans [OF 1 [OF that(1)]] cfg_only_guc [OF g3] by simp
  qed
  from assms show ?thesis
  proof (cases rule: pf_provision_dbs_cases)
    case same
    show ?thesis unfolding same(3) unleak_def by (simp add: cfg_only_guc)
  next
    case (released s0 s1)
    then have "bitmaps_live s = bitmaps_live s1" by (simp add: guc_onlyD split: if_splits)
    then have "unleak s s1 = s1" unfolding unleak_def by simp
    with 1 released show ?thesis by simp
  next
    case (failed s0 s1 s2 a)
    then show ?thesis using 2 by blast
  next
    case (stored s0 s1 s2 s3 i)
    have "cfg_only dbs_fields g vf s (unleak s s3)" using 2 stored by blast
    moreover have "cfg_only dbs_fields g vf (unleak s s3)
        (upd_config g vf (\<lambda>c. c\<lparr>begin_db := of_nat i, num_dbs := n\<rparr>) (unleak s s3))"
      by (rule cfg_only_upd) simp_all
    moreover have "unleak s s' = upd_config g vf (\<lambda>c. c\<lparr>begin_db := of_nat i, num_dbs := n\<rparr>) (unleak s s3)"
      using stored(6) by (simp add: unleak_def upd_config_def upd_prov_def upd_gt_def)
    ultimately show ?thesis using cfg_only_dbs_trans by metis
  qed
qed

lemma pf_provision_dbs_success:
  assumes "pf_provision_dbs E g vf n s = (Inr u, s')"
  shows "num_dbs (config g vf s') = n"
  using assms
proof (cases rule: pf_provision_dbs_cases)
  case same
  show ?thesis using same(1) unfolding same(3) by (rule sym)
next
  case (released s0 s1)
  then show ?thesis by (simp add: guc_onlyD split: if_splits)
next
  case (failed s0 s1 s2 a)
  then show ?thesis by simp
next
  case (stored s0 s1 s2 s3 i)
  then show ?thesis by simp
qed

text \<open>After a change to a positive number of doorbells, the spare ones are still free.\<close>

lemma pf_provision_dbs_spare:
  assumes "pf_provision_dbs E g vf n s = (Inr u, s')"
    and "n \<noteq> 0" "n \<noteq> num_dbs (config g vf s)" "1 \<le> vf" "vf \<le> pf_get_totalvfs s"
  shows "bitmap_weight (dbs_bitmap (configs (provisioning g s')) (pf_get_totalvfs s')) +
     unat (pf_get_spare_dbs g s') \<le> 256"
  using assms(1)
proof (cases rule: pf_provision_dbs_cases)
  case same
  then show ?thesis using assms(3) by blast
next
  case (released s0 s1)
  then show ?thesis using assms(2) by simp
next
  case (failed s0 s1 s2 a)
  then show ?thesis by simp
next
  case (stored s0 s1 s2 s3 i)
  have z: "num_dbs (config g vf s1) = 0" and t1: "pf_get_totalvfs s1 = pf_get_totalvfs s"
    using stored(1,2) by (simp_all add: guc_onlyD split: if_splits)
  from stored(3) show ?thesis
  proof (cases rule: pf_alloc_dbs_range_cases)
    case (found j)
    then have p3: "provisioning g s3 = provisioning g s1" and t3: "pf_get_totalvfs s3 = pf_get_totalvfs s1"
      using stored(4) by (simp_all add: guc_onlyD pf_get_totalvfs_def)
    have "unat (of_nat i :: u16) = i" using found by (intro unat_of_nat_u16) simp
    then have "db_ids vf ((config g vf s1)\<lparr>begin_db := of_nat i, num_dbs := n\<rparr>) = (i, unat n)"
      by (simp add: db_ids_def)
    from dbs_weight_alloc [where cs = "configs (provisioning g s1)" and tot = "pf_get_totalvfs s1"
        and c = "(config g vf s1)\<lparr>begin_db := of_nat i, num_dbs := n\<rparr>", OF assms(4) _ z _ this]
      found t1 assms(5)
    have "bitmap_weight (dbs_bitmap ((configs (provisioning g s1))
        (vf := (config g vf s1)\<lparr>begin_db := of_nat i, num_dbs := n\<rparr>)) (pf_get_totalvfs s1)) =
      bitmap_weight (dbs_bitmap (configs (provisioning g s1)) (pf_get_totalvfs s1)) + unat n" by simp
    then show ?thesis
      using found(2) unfolding stored(6) by (simp add: p3 t3 pf_get_spare_dbs_def)
  qed simp_all
qed

lemma set_dbs_cases:
  assumes "intel_iov_provisioning_set_dbs E g vf n s = (r, s')"
  obtains s1 where "pf_provision_dbs E g vf n s = (r, s1)" "s' = s1 \<or> s' = pf_mark_manual_provisioning s1"
  using assms
  by (auto simp: intel_iov_provisioning_set_dbs_def Let_def split: prod.splits sum.splits if_splits)

lemma dbs_inv_zero:
  "(\<And>vf. 1 \<le> vf \<Longrightarrow> vf \<le> pf_get_totalvfs s \<Longrightarrow> num_dbs (config g vf s) = 0) \<Longrightarrow> dbs_inv g s"
  by (simp add: dbs_inv_def db_ids_def ranges_ok_def range_set_def)

section \<open>Properties\<close>

text \<open>
  Property C4. Setting the number of doorbells of a VF keeps the doorbells of all VFs inside
  \<open>[0, GUC_NUM_DOORBELLS)\<close> and pairwise disjoint, whatever the GuC replies and whichever
  allocations fail.
\<close>

theorem set_dbs_keeps_inv:
  assumes "dbs_inv g s"
    and "intel_iov_provisioning_set_dbs E g vf n s = (r, s')"
  shows "dbs_inv g s'"
proof -
  obtain s1 where s1: "pf_provision_dbs E g vf n s = (r, s1)"
      "s' = s1 \<or> s' = pf_mark_manual_provisioning s1"
    using set_dbs_cases [OF assms(2)] .
  have "dbs_inv g s1" using dbs_inv_pf_provision_dbs [OF assms(1) s1(1)] .
  with s1(2) show ?thesis using dbs_inv_cong [where s' = "pf_mark_manual_provisioning s1" and s = s1] by auto
qed

theorem set_dbs_keeps_inv_witness:
  "dbs_inv GT_PRIMARY fresh_state \<and>
   dbs_inv GT_PRIMARY (snd (intel_iov_provisioning_set_dbs quiet_env GT_PRIMARY 1 8 fresh_state))"
proof -
  have i: "dbs_inv GT_PRIMARY fresh_state" by (rule dbs_inv_zero) (simp add: zero_config_def)
  show ?thesis using i set_dbs_keeps_inv [OF i surjective_pairing] by simp
qed

text \<open>
  A successful change of a VF to \<open>n > 0\<close> doorbells gives it exactly \<open>n\<close>, changes no
  other configuration and no other field of its own, and leaves at least the spare doorbells of
  the PF unassigned.
\<close>

theorem set_dbs_success:
  assumes "intel_iov_provisioning_set_dbs E g vf n s = (Inr u, s')"
    and "n \<noteq> 0" "n \<noteq> num_dbs (config g vf s)" "1 \<le> vf" "vf \<le> pf_get_totalvfs s"
  shows "intel_iov_provisioning_get_dbs g vf s' = n \<and>
    dbs_fields (config g vf s) (config g vf s') \<and>
    (\<forall>g' vf'. g' \<noteq> g \<or> vf' \<noteq> vf \<longrightarrow> config g' vf' s' = config g' vf' s) \<and>
    bitmap_weight (dbs_bitmap (configs (provisioning g s')) (pf_get_totalvfs s')) +
      unat (pf_get_spare_dbs g s') \<le> GUC_NUM_DOORBELLS"
proof -
  obtain s1 where s1: "pf_provision_dbs E g vf n s = (Inr u, s1)"
      "s' = s1 \<or> s' = pf_mark_manual_provisioning s1"
    using set_dbs_cases [OF assms(1)] .
  have eq: "gts s' = gts s1" "pf_get_totalvfs s' = pf_get_totalvfs s1" using s1(2) by auto
  note f = cfg_onlyD(1,2) [OF dbs_only_pf_provision_dbs [OF s1(1)]]
  show ?thesis
    using f pf_provision_dbs_success [OF s1(1)] pf_provision_dbs_spare [OF s1(1) assms(2-5)]
    by (auto simp: unleak_def eq intel_iov_provisioning_get_dbs_def pf_get_spare_dbs_def)
qed

lemma quiet_alloc_dbs_range:
  assumes "\<And>vf. num_dbs (config g vf s) = 0" "spare_num_dbs (spare (provisioning g s)) = 0"
    and "0 < unat n" "unat n \<le> 256"
  shows "pf_alloc_dbs_range quiet_env g n s = (Inr 0, s\<lparr>allocs := Suc (allocs s)\<rparr>)"
proof -
  have bm: "dbs_bitmap (configs (provisioning g s)) k = bitmap_zero 256" for k
  proof (rule nth_equalityI)
    show "length (dbs_bitmap (configs (provisioning g s)) k) = length (bitmap_zero 256)"
      by (simp add: dbs_map.length_bitmap bitmap_simps)
    show "i < length (dbs_bitmap (configs (provisioning g s)) k) \<Longrightarrow>
        dbs_bitmap (configs (provisioning g s)) k ! i = bitmap_zero 256 ! i" for i
      using assms(1) by (simp add: dbs_map.length_bitmap dbs_map.nth_bitmap db_ids_def bitmap_simps)
  qed
  have "zero_area (bitmap_zero 256) 0 (unat n)" using assms(4) by (simp add: zero_area_iff bitmap_simps)
  then have z: "bitmap_find_next_zero_area (bitmap_zero 256) (unat n) = 0"
    using find_next_zero_area_complete [of "bitmap_zero 256" 0 "unat n"] assms(3) by simp
  have w: "bitmap_weight (bitmap_zero 256) = 0"
    by (simp add: bitmap_weight_def bitmap_zero_def)
  have sp: "pf_get_spare_dbs g s = 0"
    using assms(2) by (simp add: pf_get_spare_dbs_def pf_get_min_spare_dbs_def)
  obtain r t where r: "pf_alloc_dbs_range quiet_env g n s = (r, t)" by force
  from r show ?thesis
  proof (cases rule: pf_alloc_dbs_range_cases)
    case nomem
    have "fst (pf_get_dbs_bitmap quiet_env g s) \<noteq> None"
      by (simp add: pf_get_dbs_bitmap_def bitmap_zalloc_def kmalloc_def quiet_env_def)
    with r nomem show ?thesis
      by (auto simp: pf_alloc_dbs_range_def Let_def split: prod.splits option.splits if_splits)
  qed (use r assms(4) in \<open>simp_all add: bm z w sp\<close>)
qed

lemma fresh_alloc_dbs_range:
  "pf_alloc_dbs_range quiet_env GT_PRIMARY 100 fresh_state =
     (Inr 0, fresh_state\<lparr>allocs := Suc (allocs fresh_state)\<rparr>)"
  by (rule quiet_alloc_dbs_range) (simp_all add: fresh_state_def fresh_gt_def zero_config_def)

lemma fresh_no_push [simp]: "\<not> pf_needs_push_config g (Suc vf) fresh_state"
  by (simp add: pf_needs_push_config_def pf_is_vf_enabled_def pf_get_numvfs_def fresh_state_def)

theorem set_dbs_success_witness:
  "\<exists>s'. intel_iov_provisioning_set_dbs quiet_env GT_PRIMARY 1 100 fresh_state = (Inr (), s') \<and>
     intel_iov_provisioning_get_dbs GT_PRIMARY 1 s' = 100"
proof -
  have "\<not> pf_needs_push_config GT_PRIMARY (Suc 0) (fresh_state\<lparr>allocs := k\<rparr>)" for k
    by (simp add: pf_needs_push_config_def pf_is_vf_enabled_def pf_get_numvfs_def fresh_state_def)
  then have "\<exists>s1. pf_provision_dbs quiet_env GT_PRIMARY 1 100 fresh_state = (Inr (), s1)"
    by (simp add: pf_provision_dbs_def fresh_alloc_dbs_range pf_push_config_dbs_def zero_config_def)
  then obtain s' where s': "intel_iov_provisioning_set_dbs quiet_env GT_PRIMARY 1 100 fresh_state = (Inr (), s')"
    by (auto simp: intel_iov_provisioning_set_dbs_def Let_def)
  show ?thesis using s' set_dbs_success [OF s'] by (simp add: zero_config_def)
qed

text \<open>
  The search for doorbells takes the lowest range that is free for every VF; it
  reports \<open>-ENOSPC\<close> only when there is no such range, and \<open>-EDQUOT\<close> exactly when the request does
  not fit beside the doorbells in use and the spare ones.
\<close>

theorem alloc_dbs_first_fit:
  fixes g :: intel_gt_type
  assumes "n \<noteq> 0" and "env_alloc E (allocs s)"
  defines "bm \<equiv> dbs_bitmap (configs (provisioning g s)) (pf_get_totalvfs s)"
  shows "fst (pf_alloc_dbs_range E g n s) =
    (if bitmap_weight bm + unat (pf_get_spare_dbs g s) + unat n > GUC_NUM_DOORBELLS then Inl EDQUOT
     else if \<exists>i. zero_area bm i (unat n) then Inr (LEAST i. zero_area bm i (unat n))
     else Inl ENOSPC)"
proof -
  obtain r t where r: "pf_alloc_dbs_range E g n s = (r, t)" by force
  have nz: "0 < unat n" using assms(1) by (simp add: unat_gt_0)
  have len: "length bm = 256" by (simp add: bm_def dbs_map.length_bitmap)
  from r show ?thesis
  proof (cases rule: pf_alloc_dbs_range_cases)
    case nomem
    with r assms(2) show ?thesis
      by (auto simp: pf_alloc_dbs_range_def pf_get_dbs_bitmap_def bitmap_zalloc_def kmalloc_def
          Let_def split: if_splits)
  next
    case nospace
    have "\<not> zero_area bm i (unat n)" for i
      using find_next_zero_area_complete [of bm i "unat n"] nospace(3) nz len
      by (auto simp: zero_area_def bm_def)
    with nospace r show ?thesis by (simp add: bm_def)
  next
    case (found i)
    have "(LEAST j. zero_area bm j (unat n)) = i"
      using found(5) find_next_zero_area_complete [of bm _ "unat n"] nz found(3)
      by (intro Least_equality) (auto simp: bm_def)
    with found r show ?thesis by (auto simp: bm_def)
  qed (use r in \<open>simp add: bm_def\<close>)
qed

theorem alloc_dbs_first_fit_witness:
  "fst (pf_alloc_dbs_range quiet_env GT_PRIMARY 300 fresh_state) = Inl EDQUOT"
  using alloc_dbs_first_fit [of 300 quiet_env fresh_state GT_PRIMARY]
  by (simp add: quiet_env_def)

text \<open>
  The error path of the search that reports \<open>-EDQUOT\<close>, and only that one, leaks the
  bitmap of used doorbells.
\<close>

theorem alloc_dbs_range_leak:
  "bitmaps_live (snd (pf_alloc_dbs_range E g n s)) =
     (if fst (pf_alloc_dbs_range E g n s) = Inl EDQUOT then Suc (bitmaps_live s) else bitmaps_live s)"
proof -
  obtain r t where r: "pf_alloc_dbs_range E g n s = (r, t)" by force
  then show ?thesis by (cases rule: pf_alloc_dbs_range_cases) (simp_all add: r)
qed

end
