(* ===== verification/Iov_Sched.thy ===== *)
theory Iov_Sched
  imports Iov_Policy
begin

text \<open>
  The scheduling parameters of a VF (\<open>gt/iov/intel_iov_provisioning.c\<close>): execution quantum,
  preemption timeout, and the thresholds of adverse events. Each is a 32-bit field of the VF's
  configuration that is pushed to the GuC first and recorded only if the GuC accepted it; the
  locale \<open>vf_param\<close> is that contract, with an interpretation for each parameter.
\<close>

section \<open>Operations\<close>

definition pf_push_config_exec_quantum ::
    "iov_env \<Rightarrow> intel_gt_type \<Rightarrow> nat \<Rightarrow> u32 \<Rightarrow> i915_state \<Rightarrow> unit res \<times> i915_state" where
  "pf_push_config_exec_quantum E g vf v s =
     guc_update_vf_klv32 E g vf GUC_KLV_VF_CFG_EXEC_QUANTUM_KEY v s"

definition pf_provision_exec_quantum ::
    "iov_env \<Rightarrow> intel_gt_type \<Rightarrow> nat \<Rightarrow> u32 \<Rightarrow> i915_state \<Rightarrow> unit res \<times> i915_state" where
  "pf_provision_exec_quantum E g vf v s =
     (if v = exec_quantum (config g vf s) then (Inr (), s)
      else case pf_push_config_exec_quantum E g vf v s of
        (Inl e, s1) \<Rightarrow> (Inl e, s1)
      | (Inr u, s1) \<Rightarrow> (Inr (), upd_config g vf (\<lambda>c. c\<lparr>exec_quantum := v\<rparr>) s1))"

definition pf_reprovision_exec_quantum ::
    "iov_env \<Rightarrow> intel_gt_type \<Rightarrow> nat \<Rightarrow> i915_state \<Rightarrow> unit res \<times> i915_state" where
  "pf_reprovision_exec_quantum E g vf s =
     pf_push_config_exec_quantum E g vf (exec_quantum (config g vf s)) s"

definition intel_iov_provisioning_set_exec_quantum ::
    "iov_env \<Rightarrow> intel_gt_type \<Rightarrow> nat \<Rightarrow> u32 \<Rightarrow> i915_state \<Rightarrow> unit res \<times> i915_state" where
  "intel_iov_provisioning_set_exec_quantum E g vf v s =
     (case pf_provision_exec_quantum E g vf v s of
        (Inl e, s1) \<Rightarrow> (Inl e, s1)
      | (Inr u, s1) \<Rightarrow> (Inr (), if v \<noteq> 0 \<and> vf \<noteq> PFID then pf_mark_manual_provisioning s1 else s1))"

definition intel_iov_provisioning_get_exec_quantum :: "intel_gt_type \<Rightarrow> nat \<Rightarrow> i915_state \<Rightarrow> u32" where
  "intel_iov_provisioning_get_exec_quantum g vf s = exec_quantum (config g vf s)"

definition pf_push_config_preempt_timeout ::
    "iov_env \<Rightarrow> intel_gt_type \<Rightarrow> nat \<Rightarrow> u32 \<Rightarrow> i915_state \<Rightarrow> unit res \<times> i915_state" where
  "pf_push_config_preempt_timeout E g vf v s =
     guc_update_vf_klv32 E g vf GUC_KLV_VF_CFG_PREEMPT_TIMEOUT_KEY v s"

definition pf_provision_preempt_timeout ::
    "iov_env \<Rightarrow> intel_gt_type \<Rightarrow> nat \<Rightarrow> u32 \<Rightarrow> i915_state \<Rightarrow> unit res \<times> i915_state" where
  "pf_provision_preempt_timeout E g vf v s =
     (if v = preempt_timeout (config g vf s) then (Inr (), s)
      else case pf_push_config_preempt_timeout E g vf v s of
        (Inl e, s1) \<Rightarrow> (Inl e, s1)
      | (Inr u, s1) \<Rightarrow> (Inr (), upd_config g vf (\<lambda>c. c\<lparr>preempt_timeout := v\<rparr>) s1))"

definition pf_reprovision_preempt_timeout ::
    "iov_env \<Rightarrow> intel_gt_type \<Rightarrow> nat \<Rightarrow> i915_state \<Rightarrow> unit res \<times> i915_state" where
  "pf_reprovision_preempt_timeout E g vf s =
     pf_push_config_preempt_timeout E g vf (preempt_timeout (config g vf s)) s"

definition intel_iov_provisioning_set_preempt_timeout ::
    "iov_env \<Rightarrow> intel_gt_type \<Rightarrow> nat \<Rightarrow> u32 \<Rightarrow> i915_state \<Rightarrow> unit res \<times> i915_state" where
  "intel_iov_provisioning_set_preempt_timeout E g vf v s =
     (case pf_provision_preempt_timeout E g vf v s of
        (Inl e, s1) \<Rightarrow> (Inl e, s1)
      | (Inr u, s1) \<Rightarrow> (Inr (), if v \<noteq> 0 \<and> vf \<noteq> PFID then pf_mark_manual_provisioning s1 else s1))"

definition intel_iov_provisioning_get_preempt_timeout :: "intel_gt_type \<Rightarrow> nat \<Rightarrow> i915_state \<Rightarrow> u32" where
  "intel_iov_provisioning_get_preempt_timeout g vf s = preempt_timeout (config g vf s)"

definition pf_provision_threshold ::
    "iov_env \<Rightarrow> intel_gt_type \<Rightarrow> nat \<Rightarrow> intel_iov_threshold \<Rightarrow> u32 \<Rightarrow> i915_state \<Rightarrow>
     unit res \<times> i915_state" where
  "pf_provision_threshold E g vf t v s =
     (if v = thresholds (config g vf s) t then (Inr (), s)
      else case guc_update_vf_klv32 E g vf (intel_iov_threshold_to_klv_key t) v s of
        (Inl e, s1) \<Rightarrow> (Inl e, s1)
      | (Inr u, s1) \<Rightarrow>
          (Inr (), upd_config g vf (\<lambda>c. c\<lparr>thresholds := (thresholds c)(t := v)\<rparr>) s1))"

text \<open>Unlike the other setters this one also counts a threshold of the PF as manual provisioning.\<close>

definition intel_iov_provisioning_set_threshold ::
    "iov_env \<Rightarrow> intel_gt_type \<Rightarrow> nat \<Rightarrow> intel_iov_threshold \<Rightarrow> u32 \<Rightarrow> i915_state \<Rightarrow>
     unit res \<times> i915_state" where
  "intel_iov_provisioning_set_threshold E g vf t v s =
     (case pf_provision_threshold E g vf t v s of
        (Inl e, s1) \<Rightarrow> (Inl e, s1)
      | (Inr u, s1) \<Rightarrow> (Inr (), if v \<noteq> 0 then pf_mark_manual_provisioning s1 else s1))"

definition intel_iov_provisioning_get_threshold ::
    "intel_gt_type \<Rightarrow> nat \<Rightarrow> intel_iov_threshold \<Rightarrow> i915_state \<Rightarrow> u32" where
  "intel_iov_provisioning_get_threshold g vf t s = thresholds (config g vf s) t"

text \<open>The results of the single steps are ignored.\<close>

definition pf_unprovision_thresholds ::
    "iov_env \<Rightarrow> intel_gt_type \<Rightarrow> nat \<Rightarrow> i915_state \<Rightarrow> i915_state" where
  "pf_unprovision_thresholds E g vf s =
     fold (\<lambda>t s. snd (pf_provision_threshold E g vf t 0 s)) IOV_THRESHOLDS s"

section \<open>The contract of a parameter\<close>

locale vf_param =
  fixes prov_op :: "iov_env \<Rightarrow> intel_gt_type \<Rightarrow> nat \<Rightarrow> u32 \<Rightarrow> i915_state \<Rightarrow> unit res \<times> i915_state"
    and fld :: "intel_iov_config \<Rightarrow> u32"
    and upd :: "u32 \<Rightarrow> intel_iov_config \<Rightarrow> intel_iov_config"
    and key :: u32
  assumes prov_op_eq: "prov_op E g vf v s =
      (if v = fld (config g vf s) then (Inr (), s)
       else case guc_update_vf_klv32 E g vf key v s of
         (Inl e, s1) \<Rightarrow> (Inl e, s1)
       | (Inr u, s1) \<Rightarrow> (Inr (), upd_config g vf (upd v) s1))"
    and fld_upd: "fld (upd v c) = v"
begin

definition only_fld :: "intel_iov_config \<Rightarrow> intel_iov_config \<Rightarrow> bool" where
  "only_fld c c' \<longleftrightarrow> c' = c \<or> c' = upd (fld c') c"

lemma prov_op_fld: "prov_op E g vf v s = (Inr u, s') \<Longrightarrow> fld (config g vf s') = v"
  by (auto simp: prov_op_eq fld_upd split: if_splits prod.splits sum.splits)

lemma prov_op_frame: "prov_op E g vf v s = (r, s') \<Longrightarrow> cfg_only only_fld g vf s s'"
  by (auto simp: prov_op_eq only_fld_def fld_upd split: if_splits prod.splits sum.splits
      intro!: cfg_only_guc cfg_only_upd dest!: guc_only_vf_klv32)

lemma prov_op_failed: "prov_op E g vf v s = (Inl e, s') \<Longrightarrow> guc_only s s'"
  by (auto simp: prov_op_eq split: if_splits prod.splits sum.splits dest!: guc_only_vf_klv32)

text \<open>A value that is already set is not sent again.\<close>

lemma prov_op_same: "v = fld (config g vf s) \<Longrightarrow> prov_op E g vf v s = (Inr (), s)"
  by (simp add: prov_op_eq)

end

interpretation exec_quantum_param: vf_param pf_provision_exec_quantum exec_quantum
  "\<lambda>v c. c\<lparr>exec_quantum := v\<rparr>" GUC_KLV_VF_CFG_EXEC_QUANTUM_KEY
  by unfold_locales (simp_all add: pf_provision_exec_quantum_def pf_push_config_exec_quantum_def)

interpretation preempt_timeout_param: vf_param pf_provision_preempt_timeout preempt_timeout
  "\<lambda>v c. c\<lparr>preempt_timeout := v\<rparr>" GUC_KLV_VF_CFG_PREEMPT_TIMEOUT_KEY
  by unfold_locales (simp_all add: pf_provision_preempt_timeout_def pf_push_config_preempt_timeout_def)

interpretation threshold_param: vf_param "\<lambda>E g vf. pf_provision_threshold E g vf t" "\<lambda>c. thresholds c t"
  "\<lambda>v c. c\<lparr>thresholds := (thresholds c)(t := v)\<rparr>" "intel_iov_threshold_to_klv_key t" for t
  by unfold_locales (simp_all add: pf_provision_threshold_def)

lemma threshold_only_fld:
  assumes "threshold_param.only_fld t c c'"
  shows "thresholds c' = (thresholds c)(t := thresholds c' t)"
proof -
  consider "c' = c" | "c' = c\<lparr>thresholds := (thresholds c)(t := thresholds c' t)\<rparr>"
    using assms unfolding threshold_param.only_fld_def by blast
  then show ?thesis
  proof cases
    case 2
    then have "thresholds c' = thresholds (c\<lparr>thresholds := (thresholds c)(t := thresholds c' t)\<rparr>)"
      by (rule arg_cong)
    then show ?thesis by simp
  qed simp
qed

section \<open>Properties\<close>

text \<open>
  Setting a threshold of a VF either succeeds, and then that threshold reads as the
  new value and is marked as manual provisioning if it is not zero, or leaves every threshold as
  it was; the other thresholds and the configurations of other VFs never change.
\<close>

theorem set_threshold:
  assumes "intel_iov_provisioning_set_threshold E g vf t v s = (r, s')"
  shows "intel_iov_provisioning_get_threshold g vf t s' =
      (if is_err r then intel_iov_provisioning_get_threshold g vf t s else v) \<and>
    (\<forall>t'. t' \<noteq> t \<longrightarrow> intel_iov_provisioning_get_threshold g vf t' s' =
        intel_iov_provisioning_get_threshold g vf t' s) \<and>
    (\<forall>g' vf'. g' \<noteq> g \<or> vf' \<noteq> vf \<longrightarrow> config g' vf' s' = config g' vf' s) \<and>
    (\<not> is_err r \<and> v \<noteq> 0 \<longrightarrow> disable_auto_provisioning s')"
proof -
  obtain s1 where p: "pf_provision_threshold E g vf t v s = (r, s1)"
    and s': "s' = s1 \<or> s' = pf_mark_manual_provisioning s1"
    and m: "\<not> is_err r \<and> v \<noteq> 0 \<Longrightarrow> s' = pf_mark_manual_provisioning s1"
    using assms by (auto simp: intel_iov_provisioning_set_threshold_def is_err_def split: prod.splits sum.splits if_splits)
  have gts: "gts s' = gts s1" using s' by (auto simp: pf_mark_manual_provisioning_def)
  note f = cfg_onlyD(1,2) [OF threshold_param.prov_op_frame [OF p]]
  have "thresholds (config g vf s1) t = (if is_err r then thresholds (config g vf s) t else v)"
    using threshold_param.prov_op_fld [where t = t, of E g vf v s] threshold_param.prov_op_failed [where t = t, of E g vf v s] p
    by (cases r) (auto simp: is_err_def guc_onlyD)
  moreover have "t' \<noteq> t \<Longrightarrow> thresholds (config g vf s1) t' = thresholds (config g vf s) t'" for t'
    using threshold_only_fld [OF f(1), THEN fun_cong, of t'] by simp
  ultimately show ?thesis
    using f(2) m by (auto simp: intel_iov_provisioning_get_threshold_def gts pf_mark_manual_provisioning_def)
qed


theorem set_threshold_witness:
  "\<exists>s'. intel_iov_provisioning_set_threshold quiet_env GT_PRIMARY 1 IOV_THRESHOLD_PAGE_FAULT 9 fresh_state = (Inr (), s') \<and>
     intel_iov_provisioning_get_threshold GT_PRIMARY 1 IOV_THRESHOLD_PAGE_FAULT s' = 9 \<and>
     disable_auto_provisioning s'"
proof -
  obtain s' where "intel_iov_provisioning_set_threshold quiet_env GT_PRIMARY 1 IOV_THRESHOLD_PAGE_FAULT 9 fresh_state = (Inr (), s')"
    by (simp add: intel_iov_provisioning_set_threshold_def pf_provision_threshold_def zero_config_def
        guc_update_vf_klv32_def intel_guc_allocate_and_map_vma_def guc_action_update_vf_cfg_def
        intel_guc_send_def Let_def quiet_env_def klv_reply_def)
  with set_threshold [OF this] show ?thesis by (simp add: is_err_def)
qed

end
