(* ===== verification/I915_Ggtt.thy ===== *)
theory I915_Ggtt
  imports Iov_Guc
begin

text \<open>
  The global GTT page table of the device and the shadow copies the PF keeps of the VFs' parts of
  it: \<open>gt/intel_ggtt.c\<close> (PTE encoding, the binder engine, \<open>i915_ggtt_sgtable_update_ptes\<close>,
  \<open>i915_ggtt_set_space_owner\<close>, saving and restoring PTEs) and the shadow operations of
  \<open>gt/iov/intel_iov_ggtt.c\<close>. The page table is a function from page numbers to PTEs.
\<close>

section \<open>PTEs\<close>

abbreviation (input) I915_GTT_PAGE_SIZE_4K :: u64 where "I915_GTT_PAGE_SIZE_4K \<equiv> 4096"

definition GEN8_PAGE_PRESENT :: u64 where "GEN8_PAGE_PRESENT = 1"

text \<open>\<open>GENMASK_ULL(4, 2)\<close>, \<open>GENMASK_ULL(45, 12)\<close> and \<open>GENMASK_ULL(53, 52)\<close>.\<close>

definition TGL_GGTT_PTE_VFID_MASK :: u64 where "TGL_GGTT_PTE_VFID_MASK = push_bit 2 (mask 3)"

definition GEN12_GGTT_PTE_ADDR_MASK :: u64 where "GEN12_GGTT_PTE_ADDR_MASK = push_bit 12 (mask 34)"

definition MTL_GGTT_PTE_PAT_MASK :: u64 where "MTL_GGTT_PTE_PAT_MASK = push_bit 52 (mask 2)"

definition tgl_prepare_vf_pte_vfid :: "u16 \<Rightarrow> u64" where
  "tgl_prepare_vf_pte_vfid vfid = FIELD_PREP 3 2 (ucast vfid)"

definition i915_ggtt_prepare_vf_pte :: "u16 \<Rightarrow> u64" where
  "i915_ggtt_prepare_vf_pte vfid = tgl_prepare_vf_pte_vfid vfid OR GEN8_PAGE_PRESENT"

definition pte_vfid :: "u64 \<Rightarrow> u64" where
  "pte_vfid pte = FIELD_GET 3 2 pte"

lemma pte_vfid_prepare [simp]: "pte_vfid (i915_ggtt_prepare_vf_pte vfid) = take_bit 3 (ucast vfid)"
proof -
  have "FIELD_GET 3 2 (1 :: u64) = 0" by (simp add: FIELD_GET_def)
  then show ?thesis
    by (simp add: pte_vfid_def i915_ggtt_prepare_vf_pte_def tgl_prepare_vf_pte_vfid_def
        GEN8_PAGE_PRESENT_def field_simps_guc)
qed

text \<open>A run of PTEs written from page \<open>i\<close> on.\<close>

definition write_ptes :: "(nat \<Rightarrow> u64) \<Rightarrow> nat \<Rightarrow> u64 list \<Rightarrow> nat \<Rightarrow> u64" where
  "write_ptes m i xs = (\<lambda>k. if i \<le> k \<and> k < i + length xs then xs ! (k - i) else m k)"

lemma write_ptes_Nil [simp]: "write_ptes m i [] = m"
  by (auto simp: write_ptes_def fun_eq_iff)

lemma write_ptes_Cons: "write_ptes m i (x # xs) = write_ptes (m(i := x)) (Suc i) xs"
  by (auto simp: write_ptes_def fun_eq_iff nth_Cons')

lemma write_ptes_append:
  "write_ptes (write_ptes m i xs) (i + length xs) ys = write_ptes m i (xs @ ys)"
  by (auto simp: write_ptes_def fun_eq_iff nth_append)

lemma write_ptes_in: "j < length xs \<Longrightarrow> write_ptes m i xs (i + j) = xs ! j"
  by (simp add: write_ptes_def)

lemma write_ptes_out: "k < i \<or> i + length xs \<le> k \<Longrightarrow> write_ptes m i xs k = m k"
  by (auto simp: write_ptes_def)

section \<open>Updates through the binder engine\<close>

text \<open>
  The loop of \<open>gen8_ggtt_bind_ptes\<close>: one \<open>MI_UPDATE_GTT\<close> command for at most 511 PTEs per round.
  The scatter list is given by the DMA addresses of its pages; missing ones are filled with the
  scratch PTE.
\<close>

function bind_ptes_loop ::
    "iov_env \<Rightarrow> nat \<Rightarrow> u64 list option \<Rightarrow> nat \<Rightarrow> u64 \<Rightarrow> (nat \<Rightarrow> u64) \<Rightarrow> bool \<times> (nat \<Rightarrow> u64)" where
  "bind_ptes_loop E offset pages num pte m =
     (if num = 0 then (True, m)
      else let n = min 511 num;
               batch = (case pages of
                   None \<Rightarrow> replicate n pte
                 | Some addrs \<Rightarrow> map (\<lambda>a. pte OR a) (take n addrs) @
                     replicate (n - length (take n addrs)) (env_scratch_pte E))
           in if env_bind_ok E offset
              then bind_ptes_loop E (offset + n) (map_option (drop n) pages) (num - n) pte
                     (write_ptes m offset batch)
              else (False, m))"
  by pat_completeness auto
termination by (relation "measure (\<lambda>(E, offset, pages, num, pte, m). num)") auto

declare bind_ptes_loop.simps [simp del]

definition gen8_ggtt_bind_ptes ::
    "iov_env \<Rightarrow> nat \<Rightarrow> u64 list option \<Rightarrow> nat \<Rightarrow> u64 \<Rightarrow> i915_state \<Rightarrow> bool \<times> i915_state" where
  "gen8_ggtt_bind_ptes E offset pages num pte s =
     (if num = 0 then (True, s)
      else if \<not> env_bind_ce E then (False, s)
      else case bind_ptes_loop E offset pages num pte (ggtt_ptes s) of
        (ok, m) \<Rightarrow> (ok, s\<lparr>ggtt_ptes := m\<rparr>))"

definition bind_entries :: "iov_env \<Rightarrow> u64 list option \<Rightarrow> nat \<Rightarrow> u64 \<Rightarrow> u64 list" where
  "bind_entries E pages num pte =
     (case pages of
        None \<Rightarrow> replicate num pte
      | Some addrs \<Rightarrow> map (\<lambda>a. pte OR a) (take num addrs) @
          replicate (num - length addrs) (env_scratch_pte E))"

lemma length_bind_entries [simp]: "length (bind_entries E pages num pte) = num"
  by (auto simp: bind_entries_def split: option.splits)

lemma bind_entries_split:
  "n \<le> num \<Longrightarrow> bind_entries E pages num pte =
     bind_entries E pages n pte @ bind_entries E (map_option (drop n) pages) (num - n) pte"
proof (cases pages)
  case None
  assume "n \<le> num"
  then show ?thesis by (simp add: bind_entries_def None flip: replicate_add)
next
  case (Some addrs)
  assume n: "n \<le> num"
  show ?thesis
  proof (cases "length addrs \<le> n")
    case True
    with n have "num - length addrs = (n - length addrs) + (num - n)" by simp
    then have "replicate (num - length addrs) x =
        replicate (n - length addrs) x @ replicate (num - n) x" for x :: u64
      by (simp only: replicate_add)
    with True n show ?thesis by (simp add: bind_entries_def Some)
  next
    case False
    then have "take num addrs = take n addrs @ take (num - n) (drop n addrs)"
      using n by (metis le_add_diff_inverse take_add)
    with False n show ?thesis by (simp add: bind_entries_def Some)
  qed
qed

text \<open>What the loop writes is a prefix of the requested PTEs, and all of them when it succeeds.\<close>

lemma bind_ptes_loop_prefix:
  assumes "bind_ptes_loop E offset pages num pte m = (ok, m')"
  shows "\<exists>k \<le> num. m' = write_ptes m offset (take k (bind_entries E pages num pte)) \<and> (ok \<longrightarrow> k = num)"
  using assms
proof (induction E offset pages num pte m rule: bind_ptes_loop.induct)
  case (1 E offset pages num pte m)
  show ?case
  proof (cases "num = 0")
    case True
    moreover have "bind_entries E pages 0 pte = []" using length_bind_entries [of E pages 0 pte] by blast
    ultimately show ?thesis using 1(2) by (simp add: bind_ptes_loop.simps [of E offset pages 0])
  next
    case nz: False
    let ?n = "min 511 num"
    have b: "(case pages of None \<Rightarrow> replicate ?n pte
                 | Some addrs \<Rightarrow> map (\<lambda>a. pte OR a) (take ?n addrs) @
                     replicate (?n - length (take ?n addrs)) (env_scratch_pte E)) =
        bind_entries E pages ?n pte"
      by (auto simp: bind_entries_def split: option.splits)
    show ?thesis
    proof (cases "env_bind_ok E offset")
      case False
      then show ?thesis using 1(2) nz by (subst (asm) bind_ptes_loop.simps) (auto simp: Let_def)
    next
      case ok: True
      let ?xs = "bind_entries E pages ?n pte"
      let ?ys = "bind_entries E (map_option (drop ?n) pages) (num - ?n) pte"
      have st: "bind_ptes_loop E (offset + ?n) (map_option (drop ?n) pages) (num - ?n) pte
          (write_ptes m offset ?xs) = (ok, m')"
        using 1(2) nz ok by (subst (asm) bind_ptes_loop.simps) (simp add: Let_def b)
      from 1(1) [OF nz refl refl ok] st b
      obtain k where k: "k \<le> num - ?n" "m' = write_ptes (write_ptes m offset ?xs) (offset + ?n) (take k ?ys)"
          "ok \<longrightarrow> k = num - ?n" by auto
      have "m' = write_ptes m offset (?xs @ take k ?ys)"
        using k(2) write_ptes_append [of m offset ?xs "take k ?ys"] by simp
      also have "?xs @ take k ?ys = take (?n + k) (bind_entries E pages num pte)"
        using bind_entries_split [of ?n num E pages pte] by simp
      finally show ?thesis using k(1,3) by (intro exI [of _ "?n + k"]) auto
    qed
  qed
qed


section \<open>Shadow page tables\<close>

text \<open>
  The PF keeps, when it has allocated the table of shadows, an array of PTEs for the GGTT region of
  each provisioned VF. A page outside the region is a violated assertion in the source; the model
  leaves the shadow as it is there.
\<close>

definition shadow_ptes :: "intel_gt_type \<Rightarrow> nat \<Rightarrow> i915_state \<Rightarrow> u64 list option" where
  "shadow_ptes g vf s = (case shadows_ggtt (gts s g) of None \<Rightarrow> None | Some sh \<Rightarrow> sh vf)"

definition set_shadow_ptes ::
    "intel_gt_type \<Rightarrow> nat \<Rightarrow> u64 list option \<Rightarrow> i915_state \<Rightarrow> i915_state" where
  "set_shadow_ptes g vf xs s =
     upd_gt g (\<lambda>t. t\<lparr>shadows_ggtt := map_option (\<lambda>sh. sh(vf := xs)) (shadows_ggtt t)\<rparr>) s"

definition ggtt_size_to_ptes_size :: "u64 \<Rightarrow> u32" where
  "ggtt_size_to_ptes_size sz = ucast (drop_bit 12 sz * 8)"

definition ggtt_addr_to_pte_offset :: "u64 \<Rightarrow> u64" where
  "ggtt_addr_to_pte_offset a = (a div I915_GTT_PAGE_SIZE_4K) * 8"

definition pf_ggtt_addr_to_vf_pte_offset :: "drm_mm_node \<Rightarrow> u64 \<Rightarrow> u64" where
  "pf_ggtt_addr_to_vf_pte_offset region a = ggtt_addr_to_pte_offset (a - node_start region)"

definition ggtt_shadow_pte_idx :: "drm_mm_node \<Rightarrow> u64 \<Rightarrow> u32" where
  "ggtt_shadow_pte_idx region a = ucast (pf_ggtt_addr_to_vf_pte_offset region a div 8)"

definition intel_iov_ggtt_shadow_init ::
    "iov_env \<Rightarrow> intel_gt_type \<Rightarrow> i915_state \<Rightarrow> unit res \<times> i915_state" where
  "intel_iov_ggtt_shadow_init E g s =
     (case kmalloc E s of (ok, s1) \<Rightarrow>
        if ok then (Inr (), upd_gt g (\<lambda>t. t\<lparr>shadows_ggtt := Some (\<lambda>_. None)\<rparr>) s1)
        else (Inl ENOMEM, s1))"

definition intel_iov_ggtt_shadow_fini :: "intel_gt_type \<Rightarrow> i915_state \<Rightarrow> i915_state" where
  "intel_iov_ggtt_shadow_fini g s = upd_gt g (\<lambda>t. t\<lparr>shadows_ggtt := None\<rparr>) s"

definition intel_iov_ggtt_shadow_vf_alloc ::
    "iov_env \<Rightarrow> intel_gt_type \<Rightarrow> nat \<Rightarrow> drm_mm_node \<Rightarrow> i915_state \<Rightarrow> unit res \<times> i915_state" where
  "intel_iov_ggtt_shadow_vf_alloc E g vf region s =
     (if shadows_ggtt (gts s g) = None then (Inr (), s)
      else case kmalloc E s of (ok, s1) \<Rightarrow>
        if \<not> ok then (Inl ENOMEM, s1)
        else (Inr (), set_shadow_ptes g vf
          (Some (replicate (unat (ggtt_size_to_ptes_size (node_size region)) div 8) 0)) s1))"

definition intel_iov_ggtt_shadow_vf_free :: "intel_gt_type \<Rightarrow> nat \<Rightarrow> i915_state \<Rightarrow> i915_state" where
  "intel_iov_ggtt_shadow_vf_free g vf s =
     (if shadows_ggtt (gts s g) = None then s else set_shadow_ptes g vf None s)"

definition intel_iov_ggtt_shadow_set_pte ::
    "intel_gt_type \<Rightarrow> nat \<Rightarrow> u64 \<Rightarrow> u64 \<Rightarrow> i915_state \<Rightarrow> i915_state" where
  "intel_iov_ggtt_shadow_set_pte g vf a pte s =
     (case (shadow_ptes g vf s, ggtt_region (config g vf s)) of
        (Some xs, Some region) \<Rightarrow>
          set_shadow_ptes g vf (Some (xs[unat (ggtt_shadow_pte_idx region a) := pte])) s
      | _ \<Rightarrow> s)"

definition intel_iov_ggtt_shadow_get_pte :: "intel_gt_type \<Rightarrow> nat \<Rightarrow> u64 \<Rightarrow> i915_state \<Rightarrow> u64" where
  "intel_iov_ggtt_shadow_get_pte g vf a s =
     (case (shadow_ptes g vf s, ggtt_region (config g vf s)) of
        (Some xs, Some region) \<Rightarrow>
          (let i = unat (ggtt_shadow_pte_idx region a) in if i < length xs then xs ! i else 0)
      | _ \<Rightarrow> 0)"

section \<open>Updating PTEs from a scatter list\<close>

definition sgtable_update_ptes_via_cpu ::
    "u64 \<Rightarrow> u64 list \<Rightarrow> u64 \<Rightarrow> i915_state \<Rightarrow> nat \<times> i915_state" where
  "sgtable_update_ptes_via_cpu ggtt_addr st pattern s =
     (length st,
      s\<lparr>ggtt_ptes := write_ptes (ggtt_ptes s) (unat (ucast ggtt_addr :: u32) div 4096)
         (map (\<lambda>a. pattern OR a) st)\<rparr>)"

text \<open>Without a scatter list the shadow address advances with the pages; with one, it does not.\<close>

primrec shadow_fill ::
    "intel_gt_type \<Rightarrow> nat \<Rightarrow> u64 \<Rightarrow> nat \<Rightarrow> u64 \<Rightarrow> i915_state \<Rightarrow> i915_state" where
  "shadow_fill g vf a 0 pattern s = s"
| "shadow_fill g vf a (Suc n) pattern s =
     shadow_fill g vf (a + I915_GTT_PAGE_SIZE_4K) n pattern
       (intel_iov_ggtt_shadow_set_pte g vf a pattern s)"

definition sgtable_update_shadow_ggtt ::
    "nat \<Rightarrow> u64 \<Rightarrow> u64 list option \<Rightarrow> nat \<Rightarrow> u64 \<Rightarrow> i915_state \<Rightarrow> i915_state" where
  "sgtable_update_shadow_ggtt vf ggtt_addr st num pattern s =
     (case st of
        None \<Rightarrow> shadow_fill GT_PRIMARY vf ggtt_addr num pattern s
      | Some addrs \<Rightarrow>
          fold (\<lambda>a. intel_iov_ggtt_shadow_set_pte GT_PRIMARY vf ggtt_addr (pattern OR a)) addrs s)"

text \<open>The CPU path is only entered with a scatter list.\<close>

definition i915_ggtt_sgtable_update_ptes ::
    "iov_env \<Rightarrow> nat \<Rightarrow> u64 \<Rightarrow> u64 list option \<Rightarrow> nat \<Rightarrow> u64 \<Rightarrow> i915_state \<Rightarrow> unit res \<times> i915_state" where
  "i915_ggtt_sgtable_update_ptes E vf ggtt_addr st num pattern s =
     (case
        (if env_bind_ready E
         then (case gen8_ggtt_bind_ptes E (unat (drop_bit 12 ggtt_addr)) st num pattern s of
                 (ok, s1) \<Rightarrow> (if ok then 1 else 0, s1))
         else sgtable_update_ptes_via_cpu ggtt_addr (case st of None \<Rightarrow> [] | Some as \<Rightarrow> as) pattern s) of
        (ret, s1) \<Rightarrow>
          if ret = 0 then (Inl EIO, s1)
          else (Inr (), if vf \<noteq> PFID then sgtable_update_shadow_ggtt vf ggtt_addr st num pattern s1
                        else s1))"

text \<open>
  The fallback is taken when the update through the binder \<^emph>\<open>succeeds\<close>: a non-zero result, an
  error, jumps to the invalidation.
\<close>

definition i915_ggtt_set_space_owner ::
    "iov_env \<Rightarrow> nat \<Rightarrow> drm_mm_node \<Rightarrow> i915_state \<Rightarrow> i915_state" where
  "i915_ggtt_set_space_owner E vf node s =
     (let pte = i915_ggtt_prepare_vf_pte (of_nat vf);
          base = node_start node;
          sz = node_size node;
          (skip, s1) =
            (if env_require_binder E \<and> env_bind_ready E
             then (case i915_ggtt_sgtable_update_ptes E vf base None (unat sz div 4096) pte s of
                     (r, s1) \<Rightarrow> (is_err r, s1))
             else (False, s))
      in if skip then s1
         else s1\<lparr>ggtt_ptes := write_ptes (ggtt_ptes s1) (unat base div 4096)
                (replicate (unat sz div 4096) pte)\<rparr>)"

section \<open>Saving and restoring PTEs\<close>

text \<open>Buffers are lists of PTEs; \<open>None\<close> is the null pointer. Sizes are in bytes.\<close>

definition ggtt_pte_clear_vfid :: "u64 list \<Rightarrow> u64 list" where
  "ggtt_pte_clear_vfid buf = map (\<lambda>p. p AND NOT TGL_GGTT_PTE_VFID_MASK) buf"

definition i915_ggtt_save_ptes ::
    "iov_env \<Rightarrow> drm_mm_node \<Rightarrow> u64 list option \<Rightarrow> u32 \<Rightarrow> bool \<Rightarrow> i915_state \<Rightarrow>
     nat res \<times> u64 list option" where
  "i915_ggtt_save_ptes E node buf sz no_vfid s =
     (let need = ggtt_size_to_ptes_size (node_size node)
      in if env_require_binder E then (Inl EOPNOTSUPP, buf)
         else if buf = None \<and> sz = 0 then (Inr (unat need), buf)
         else if buf = None \<or> sz = 0 then (Inl EINVAL, buf)
         else if sz < need then (Inl ENOSPC, buf)
         else let n = unat need div 8;
                  ptes = map (\<lambda>k. ggtt_ptes s (unat (drop_bit 12 (node_start node)) + k)) [0..<n];
                  out = (if no_vfid then ggtt_pte_clear_vfid ptes else ptes)
              in (Inr (unat need), map_option (\<lambda>b. out @ drop n b) buf))"

definition i915_ggtt_restore_ptes ::
    "iov_env \<Rightarrow> drm_mm_node \<Rightarrow> u64 list \<Rightarrow> u32 option \<Rightarrow> i915_state \<Rightarrow> unit res \<times> i915_state" where
  "i915_ggtt_restore_ptes E node buf new_vfid s =
     (if env_require_binder E then (Inl EOPNOTSUPP, s)
      else if 8 * length buf > unat (ggtt_size_to_ptes_size (node_size node)) then (Inl ENOSPC, s)
      else let out = map (\<lambda>p. case new_vfid of None \<Rightarrow> p
                               | Some vfid \<Rightarrow> p OR tgl_prepare_vf_pte_vfid (ucast vfid)) buf
           in (Inr (), s\<lparr>ggtt_ptes :=
                write_ptes (ggtt_ptes s) (unat (drop_bit 12 (node_start node))) out\<rparr>))"


section \<open>What the updates leave alone\<close>

lemma set_shadow_frame [simp]:
  "ggtt_ptes (set_shadow_ptes g vf xs s) = ggtt_ptes s"
  "driver_vfs (set_shadow_ptes g vf xs s) = driver_vfs s"
  "prov (gts (set_shadow_ptes g vf xs s) g') = prov (gts s g')"
  by (simp_all add: set_shadow_ptes_def)

lemma shadow_ptes_set:
  "shadow_ptes g' vf' (set_shadow_ptes g vf xs s) =
     (if g' = g \<and> vf' = vf \<and> shadows_ggtt (gts s g) \<noteq> None then xs else shadow_ptes g' vf' s)"
  by (auto simp: shadow_ptes_def set_shadow_ptes_def split: option.splits)

text \<open>\<open>pt_only s s'\<close>: the step changed at most PTEs and shadow PTEs (and the allocation counter).\<close>

definition pt_only :: "i915_state \<Rightarrow> i915_state \<Rightarrow> bool" where
  "pt_only s s' \<longleftrightarrow> (\<exists>n m sh. s' = s\<lparr>allocs := n, ggtt_ptes := m,
      gts := (\<lambda>g. (gts s g)\<lparr>shadows_ggtt := sh g\<rparr>)\<rparr> \<and>
      (\<forall>g. (sh g = None) = (shadows_ggtt (gts s g) = None)))"

lemma pt_only_refl [intro, simp]: "pt_only s s"
proof -
  have "(\<lambda>g. (gts s g)\<lparr>shadows_ggtt := (\<lambda>g. shadows_ggtt (gts s g)) g\<rparr>) = gts s" by simp
  then show ?thesis
    unfolding pt_only_def
    by (intro exI [of _ "allocs s"] exI [of _ "ggtt_ptes s"] exI [of _ "\<lambda>g. shadows_ggtt (gts s g)"])
      simp
qed

lemma pt_only_trans:
  assumes "pt_only s s1" "pt_only s1 s2"
  shows "pt_only s s2"
proof -
  obtain n m sh where 1: "s1 = s\<lparr>allocs := n, ggtt_ptes := m,
      gts := (\<lambda>g. (gts s g)\<lparr>shadows_ggtt := sh g\<rparr>)\<rparr>"
      "\<forall>g. (sh g = None) = (shadows_ggtt (gts s g) = None)"
    using assms(1) unfolding pt_only_def by blast
  obtain n' m' sh' where 2: "s2 = s1\<lparr>allocs := n', ggtt_ptes := m',
      gts := (\<lambda>g. (gts s1 g)\<lparr>shadows_ggtt := sh' g\<rparr>)\<rparr>"
      "\<forall>g. (sh' g = None) = (shadows_ggtt (gts s1 g) = None)"
    using assms(2) unfolding pt_only_def by blast
  have "s2 = s\<lparr>allocs := n', ggtt_ptes := m', gts := (\<lambda>g. (gts s g)\<lparr>shadows_ggtt := sh' g\<rparr>)\<rparr>"
    unfolding 2(1) 1(1) by simp
  moreover have "\<forall>g. (sh' g = None) = (shadows_ggtt (gts s g) = None)"
    using 2(2) 1 by simp
  ultimately show ?thesis unfolding pt_only_def by blast
qed

lemma pt_onlyD:
  assumes "pt_only s s'"
  shows "prov (gts s' g) = prov (gts s g)" "guc_log (gts s' g) = guc_log (gts s g)"
    and "(shadows_ggtt (gts s' g) = None) = (shadows_ggtt (gts s g) = None)"
    and "driver_vfs s' = driver_vfs s" "pci_num_vf s' = pci_num_vf s"
    and "sriov_status s' = sriov_status s" "has_media_gt s' = has_media_gt s"
    and "disable_auto_provisioning s' = disable_auto_provisioning s"
    and "ggtt_pf_nodes s' = ggtt_pf_nodes s" "ggtt_pin_bias s' = ggtt_pin_bias s"
    and "ggtt_total s' = ggtt_total s" "bitmaps_live s' = bitmaps_live s"
    and "pf_get_totalvfs s' = pf_get_totalvfs s" "pf_get_numvfs s' = pf_get_numvfs s"
  using assms by (auto simp: pt_only_def pf_get_totalvfs_def pf_get_numvfs_def)

lemma pt_only_ptes [simp]: "pt_only s (s\<lparr>ggtt_ptes := m\<rparr>)"
proof -
  have "(\<lambda>g. (gts s g)\<lparr>shadows_ggtt := (\<lambda>g. shadows_ggtt (gts s g)) g\<rparr>) = gts s" by simp
  then show ?thesis
    unfolding pt_only_def
    by (intro exI [of _ "allocs s"] exI [of _ m] exI [of _ "\<lambda>g. shadows_ggtt (gts s g)"]) simp
qed

lemma pt_only_allocs [simp]: "pt_only s (s\<lparr>allocs := n\<rparr>)"
proof -
  have "(\<lambda>g. (gts s g)\<lparr>shadows_ggtt := (\<lambda>g. shadows_ggtt (gts s g)) g\<rparr>) = gts s" by simp
  then show ?thesis
    unfolding pt_only_def
    by (intro exI [of _ n] exI [of _ "ggtt_ptes s"] exI [of _ "\<lambda>g. shadows_ggtt (gts s g)"]) simp
qed

lemma pt_only_set_shadow [simp]: "pt_only s (set_shadow_ptes g vf xs s)"
proof -
  let ?sh = "(\<lambda>g. shadows_ggtt (gts s g))(g := map_option (\<lambda>sh. sh(vf := xs)) (shadows_ggtt (gts s g)))"
  have "gts (set_shadow_ptes g vf xs s) = (\<lambda>g. (gts s g)\<lparr>shadows_ggtt := ?sh g\<rparr>)"
    by (auto simp: set_shadow_ptes_def)
  then show ?thesis
    unfolding pt_only_def
    by (intro exI [of _ "allocs s"] exI [of _ "ggtt_ptes s"] exI [of _ ?sh])
      (simp add: set_shadow_ptes_def upd_gt_def)
qed

lemma pt_only_shadow_set_pte [simp]: "pt_only s (intel_iov_ggtt_shadow_set_pte g vf a pte s)"
  by (auto simp: intel_iov_ggtt_shadow_set_pte_def split: option.splits)

lemma pt_only_shadow_fill: "pt_only s (shadow_fill g vf a n p s)"
  by (induction n arbitrary: a s) (auto intro: pt_only_trans [OF pt_only_shadow_set_pte])

lemma pt_only_shadow_fold:
  "pt_only s (fold (\<lambda>a. intel_iov_ggtt_shadow_set_pte g vf ga (p OR a)) addrs s)"
  by (induction addrs arbitrary: s) (auto intro: pt_only_trans [OF pt_only_shadow_set_pte])

lemma pt_only_update_shadow: "pt_only s (sgtable_update_shadow_ggtt vf ga st n p s)"
  by (auto simp: sgtable_update_shadow_ggtt_def split: option.splits
      intro: pt_only_shadow_fill pt_only_shadow_fold)

lemma shadow_set_pte_ptes [simp]: "ggtt_ptes (intel_iov_ggtt_shadow_set_pte g vf a pte s) = ggtt_ptes s"
  by (auto simp: intel_iov_ggtt_shadow_set_pte_def split: option.splits)

lemma shadow_fill_ptes [simp]: "ggtt_ptes (shadow_fill g vf a n p s) = ggtt_ptes s"
  by (induction n arbitrary: a s) simp_all

lemma update_shadow_ptes [simp]: "ggtt_ptes (sgtable_update_shadow_ggtt vf ga st n p s) = ggtt_ptes s"
proof -
  have "ggtt_ptes (fold (\<lambda>a. intel_iov_ggtt_shadow_set_pte g vf ga (p OR a)) addrs s) = ggtt_ptes s"
    for g addrs by (induction addrs arbitrary: s) simp_all
  then show ?thesis by (simp add: sgtable_update_shadow_ggtt_def split: option.splits)
qed

lemma pt_only_bind_ptes: "gen8_ggtt_bind_ptes E i st n p s = (ok, s') \<Longrightarrow> pt_only s s'"
  by (auto simp: gen8_ggtt_bind_ptes_def split: if_splits prod.splits)

lemma pt_only_update_ptes: "i915_ggtt_sgtable_update_ptes E vf a st n p s = (r, s') \<Longrightarrow> pt_only s s'"
  by (auto simp: i915_ggtt_sgtable_update_ptes_def sgtable_update_ptes_via_cpu_def
      split: if_splits prod.splits option.splits dest!: pt_only_bind_ptes
      intro: pt_only_trans [OF _ pt_only_update_shadow])

lemma pt_only_set_space_owner: "pt_only s (i915_ggtt_set_space_owner E vf node s)"
  by (auto simp: i915_ggtt_set_space_owner_def Let_def split: prod.splits if_splits
      dest!: pt_only_update_ptes intro: pt_only_trans [OF _ pt_only_ptes])


section \<open>Properties\<close>

lemma write_ptes_twice [simp]: "write_ptes (write_ptes m i xs) i xs = write_ptes m i xs"
  by (auto simp: write_ptes_def fun_eq_iff)

lemma bind_ptes_loop_ok:
  "\<forall>i. env_bind_ok E i \<Longrightarrow> fst (bind_ptes_loop E offset pages num pte m)"
proof (induction E offset pages num pte m rule: bind_ptes_loop.induct)
  case (1 E offset pages num pte m)
  then show ?case by (subst bind_ptes_loop.simps) (auto simp: Let_def)
qed

lemma gen8_ggtt_bind_ptes_ok:
  assumes "env_bind_ce E" "\<forall>i. env_bind_ok E i"
  shows "gen8_ggtt_bind_ptes E offset pages num pte s =
    (True, s\<lparr>ggtt_ptes := write_ptes (ggtt_ptes s) offset (bind_entries E pages num pte)\<rparr>)"
proof (cases "num = 0")
  case True
  moreover have "bind_entries E pages 0 pte = []" using length_bind_entries [of E pages 0 pte] by blast
  ultimately show ?thesis by (simp add: gen8_ggtt_bind_ptes_def)
next
  case False
  obtain ok m where l: "bind_ptes_loop E offset pages num pte (ggtt_ptes s) = (ok, m)" by force
  then have "ok" using bind_ptes_loop_ok [OF assms(2), of offset pages num pte "ggtt_ptes s"] by simp
  with bind_ptes_loop_prefix [OF l] have "m = write_ptes (ggtt_ptes s) offset (bind_entries E pages num pte)"
    by auto
  with False assms(1) l \<open>ok\<close> show ?thesis by (simp add: gen8_ggtt_bind_ptes_def)
qed

lemma unat_drop_bit_12: "unat (drop_bit 12 (x :: u64)) = unat x div 4096"
  by (simp add: unat_drop_bit_eq drop_bit_eq_div unat_div)

text \<open>
  Giving a range of the GGTT to a function writes the PTE of that function, with its
  number in the VFID field, on exactly the pages of the range, when the binder engine is not
  needed or works.
\<close>

theorem set_space_owner_ptes:
  fixes node :: drm_mm_node and s :: i915_state
  assumes "env_require_binder E \<and> env_bind_ready E \<longrightarrow> env_bind_ce E \<and> (\<forall>i. env_bind_ok E i)"
    and "vf < 8"
  defines "i \<equiv> unat (node_start node) div 4096" and "n \<equiv> unat (node_size node) div 4096"
    and "m \<equiv> ggtt_ptes (i915_ggtt_set_space_owner E vf node s)"
  shows "(\<forall>k. i \<le> k \<and> k < i + n \<longrightarrow> m k = i915_ggtt_prepare_vf_pte (of_nat vf) \<and>
       unat (pte_vfid (m k)) = vf) \<and>
     (\<forall>k. k < i \<or> i + n \<le> k \<longrightarrow> m k = ggtt_ptes s k)"
proof -
  let ?pte = "i915_ggtt_prepare_vf_pte (of_nat vf)"
  have m: "m = write_ptes (ggtt_ptes s) i (replicate n ?pte)"
  proof (cases "env_require_binder E \<and> env_bind_ready E")
    case True
    with assms(1) gen8_ggtt_bind_ptes_ok [of E] show ?thesis
      by (simp add: m_def i_def n_def i915_ggtt_set_space_owner_def i915_ggtt_sgtable_update_ptes_def
          unat_drop_bit_12 bind_entries_def Let_def)
  next
    case False
    then show ?thesis by (auto simp: m_def i_def n_def i915_ggtt_set_space_owner_def Let_def)
  qed
  have "unat (of_nat vf :: u16) = vf" using assms(2) by (intro unat_of_nat_u16) simp
  then have "unat (pte_vfid ?pte) = vf"
    using assms(2) by (simp add: unat_ucast unat_mod take_bit_eq_mod)
  then show ?thesis by (auto simp: m write_ptes_def)
qed

text \<open>
  When the binder engine is required and cannot be used, the change of the owner is
  silently dropped: the update reports an error, and the error skips the write of the PTEs by the
  CPU instead of leading to it.
\<close>

theorem set_space_owner_dropped:
  assumes "env_require_binder E" "env_bind_ready E" "\<not> env_bind_ce E" "4096 \<le> unat (node_size node)"
  shows "i915_ggtt_set_space_owner E vf node s = s"
proof -
  have "unat (node_size node) div 4096 \<noteq> 0" using assms(4) by simp
  then have "gen8_ggtt_bind_ptes E i None (unat (node_size node) div 4096) p s = (False, s)" for i p
    using assms(3) by (simp add: gen8_ggtt_bind_ptes_def)
  then show ?thesis
    using assms(1,2) by (simp add: i915_ggtt_set_space_owner_def i915_ggtt_sgtable_update_ptes_def Let_def)
qed

definition mtl_env :: iov_env where
  "mtl_env = quiet_env\<lparr>env_require_binder := True, env_bind_ready := True\<rparr>"

theorem set_space_owner_ptes_witness:
  "unat (pte_vfid (ggtt_ptes
     (i915_ggtt_set_space_owner mtl_env 3 \<lparr>node_start = 0x2000, node_size = 0x3000\<rparr> fresh_state) 4)) = 3"
  using set_space_owner_ptes [of mtl_env 3 "\<lparr>node_start = 0x2000, node_size = 0x3000\<rparr>" fresh_state]
  by (auto simp: mtl_env_def quiet_env_def)

theorem set_space_owner_dropped_witness:
  "i915_ggtt_set_space_owner (mtl_env\<lparr>env_bind_ce := False\<rparr>) 3
     \<lparr>node_start = 0x2000, node_size = 0x3000\<rparr> fresh_state = fresh_state"
  by (rule set_space_owner_dropped) (simp_all add: mtl_env_def)


lemma unat_ptes_size:
  "unat sz < 2 ^ 41 \<Longrightarrow> unat (ggtt_size_to_ptes_size sz) = unat sz div 4096 * 8"
proof -
  assume "unat sz < 2 ^ 41"
  then have "unat sz div 4096 * 8 < 2 ^ 32" by simp
  moreover from this have "unat (drop_bit 12 sz * 8) = unat sz div 4096 * 8"
    by (simp add: unat_word_ariths unat_drop_bit_12)
  ultimately show ?thesis by (simp add: ggtt_size_to_ptes_size_def unat_ucast)
qed

lemma pte_vfid_replaced:
  "pte_vfid ((p AND NOT TGL_GGTT_PTE_VFID_MASK) OR tgl_prepare_vf_pte_vfid v) = take_bit 3 (ucast v)"
proof -
  have "pte_vfid (p AND NOT TGL_GGTT_PTE_VFID_MASK) = 0"
    by (rule bit_word_eqI)
      (auto simp: pte_vfid_def FIELD_GET_def TGL_GGTT_PTE_VFID_MASK_def bit_simps)
  then show ?thesis
    by (simp add: pte_vfid_def tgl_prepare_vf_pte_vfid_def field_simps_guc)
qed

text \<open>
  PTEs saved from the region of one VF without its VFID and restored to the region of
  another one, of the same size, with that one's VFID: every PTE keeps all its bits but the VFID,
  which becomes the new one; PTEs outside the second region do not change.
\<close>

theorem save_restore_ptes:
  assumes "\<not> env_require_binder E" "node_size a = node_size b" "4096 \<le> unat (node_size a)"
    and "unat (node_size a) < 2 ^ 41" "unat vfid < 8"
    and "length buf = unat (node_size a) div 4096" "unat sz = 8 * length buf"
  shows "\<exists>out s'. i915_ggtt_save_ptes E a (Some buf) sz True s = (Inr (8 * length buf), Some out) \<and>
     i915_ggtt_restore_ptes E b out (Some vfid) s = (Inr (), s') \<and>
     (\<forall>k < length buf. let old = ggtt_ptes s (unat (node_start a) div 4096 + k);
                          new = ggtt_ptes s' (unat (node_start b) div 4096 + k)
        in new AND NOT TGL_GGTT_PTE_VFID_MASK = old AND NOT TGL_GGTT_PTE_VFID_MASK \<and>
           unat (pte_vfid new) = unat vfid) \<and>
     (\<forall>k. k < unat (node_start b) div 4096 \<or> unat (node_start b) div 4096 + length buf \<le> k \<longrightarrow>
        ggtt_ptes s' k = ggtt_ptes s k)"
proof -
  let ?n = "unat (node_size a) div 4096"
  let ?old = "\<lambda>k. ggtt_ptes s (unat (node_start a) div 4096 + k)"
  let ?out = "ggtt_pte_clear_vfid (map ?old [0..<?n])"
  let ?v = "tgl_prepare_vf_pte_vfid (ucast vfid)"
  let ?s' = "s\<lparr>ggtt_ptes := write_ptes (ggtt_ptes s) (unat (node_start b) div 4096) (map (\<lambda>p. p OR ?v) ?out)\<rparr>"
  note need = unat_ptes_size [OF assms(4)]
  have "0 < ?n" using assms(3) by (simp add: div_greater_zero_iff)
  with assms(6,7) have "sz \<noteq> 0" "\<not> sz < ggtt_size_to_ptes_size (node_size a)"
    using need by (auto simp: word_less_nat_alt)
  then have save: "i915_ggtt_save_ptes E a (Some buf) sz True s = (Inr (8 * length buf), Some ?out)"
    using assms(1,6) need by (simp add: i915_ggtt_save_ptes_def Let_def unat_drop_bit_12)
  have len: "length ?out = ?n" by (simp add: ggtt_pte_clear_vfid_def)
  have restore: "i915_ggtt_restore_ptes E b ?out (Some vfid) s = (Inr (), ?s')"
    using assms(1,2) need len by (simp add: i915_ggtt_restore_ptes_def Let_def unat_drop_bit_12)
  have new: "ggtt_ptes ?s' (unat (node_start b) div 4096 + k) = (?old k AND NOT TGL_GGTT_PTE_VFID_MASK) OR ?v"
    if "k < ?n" for k
    using that len by (simp add: write_ptes_in) (simp add: ggtt_pte_clear_vfid_def)
  have v: "?v AND NOT TGL_GGTT_PTE_VFID_MASK = 0"
    by (rule bit_word_eqI)
      (auto simp: tgl_prepare_vf_pte_vfid_def TGL_GGTT_PTE_VFID_MASK_def FIELD_PREP_def bit_simps)
  have vf: "unat (take_bit 3 (ucast (ucast vfid :: u16) :: u64)) = unat vfid"
    using assms(5) by (simp add: unat_ucast unat_mod take_bit_eq_mod)
  have "((x AND NOT TGL_GGTT_PTE_VFID_MASK) OR ?v) AND NOT TGL_GGTT_PTE_VFID_MASK =
      x AND NOT TGL_GGTT_PTE_VFID_MASK" for x
    using v by (simp add: bit.conj_disj_distrib2 and.assoc)
  with new vf assms(6) have "\<forall>k < length buf. let old = ?old k;
      new = ggtt_ptes ?s' (unat (node_start b) div 4096 + k)
    in new AND NOT TGL_GGTT_PTE_VFID_MASK = old AND NOT TGL_GGTT_PTE_VFID_MASK \<and>
       unat (pte_vfid new) = unat vfid"
    by (simp add: Let_def pte_vfid_replaced)
  moreover have "\<forall>k. k < unat (node_start b) div 4096 \<or> unat (node_start b) div 4096 + length buf \<le> k \<longrightarrow>
      ggtt_ptes ?s' k = ggtt_ptes s k"
    using assms(6) len by (simp add: write_ptes_out)
  ultimately show ?thesis using save restore by blast
qed

theorem save_restore_ptes_witness:
  "\<exists>out s'. i915_ggtt_save_ptes quiet_env \<lparr>node_start = 0x2000, node_size = 0x1000\<rparr> (Some [0]) 8 True
       (fresh_state\<lparr>ggtt_ptes := (\<lambda>_. 0x5005)\<rparr>) = (Inr 8, Some out) \<and>
     i915_ggtt_restore_ptes quiet_env \<lparr>node_start = 0x9000, node_size = 0x1000\<rparr> out (Some 2)
       (fresh_state\<lparr>ggtt_ptes := (\<lambda>_. 0x5005)\<rparr>) = (Inr (), s') \<and>
     unat (pte_vfid (ggtt_ptes s' 9)) = 2"
  using save_restore_ptes [of quiet_env "\<lparr>node_start = 0x2000, node_size = 0x1000\<rparr>"
      "\<lparr>node_start = 0x9000, node_size = 0x1000\<rparr>" 2 "[0]" 8 "fresh_state\<lparr>ggtt_ptes := (\<lambda>_. 0x5005)\<rparr>"]
  by (auto simp: quiet_env_def Let_def)

text \<open>
  An update from a scatter list records only one PTE in the shadow page table, that of
  the first page, and with the address of the last page of the list: the other shadow PTEs keep
  their old values, although the page table itself gets one PTE per page.
\<close>

theorem shadow_update_one_pte:
  assumes "shadow_ptes GT_PRIMARY vf s = Some xs" "ggtt_region (config GT_PRIMARY vf s) = Some region"
    and "addrs \<noteq> []"
  shows "shadow_ptes GT_PRIMARY vf (sgtable_update_shadow_ggtt vf a (Some addrs) num pattern s) =
    Some (xs[unat (ggtt_shadow_pte_idx region a) := pattern OR last addrs])"
proof -
  let ?i = "unat (ggtt_shadow_pte_idx region a)"
  have step: "shadow_ptes GT_PRIMARY vf (intel_iov_ggtt_shadow_set_pte GT_PRIMARY vf a p t) = Some (ys[?i := p]) \<and>
      ggtt_region (config GT_PRIMARY vf (intel_iov_ggtt_shadow_set_pte GT_PRIMARY vf a p t)) = Some region"
    if "shadow_ptes GT_PRIMARY vf t = Some ys" "ggtt_region (config GT_PRIMARY vf t) = Some region" for p t ys
    using that
    by (auto simp: intel_iov_ggtt_shadow_set_pte_def shadow_ptes_set pt_onlyD(1) [OF pt_only_set_shadow])
      (auto simp: shadow_ptes_def)
  have "shadow_ptes GT_PRIMARY vf
      (fold (\<lambda>x. intel_iov_ggtt_shadow_set_pte GT_PRIMARY vf a (pattern OR x)) addrs s) =
    Some (xs[?i := pattern OR last addrs])"
    using assms
  proof (induction addrs arbitrary: s xs)
    case (Cons x addrs)
    note st = step [OF Cons.prems(1,2), of "pattern OR x"]
    show ?case
    proof (cases "addrs = []")
      case False
      with Cons.IH [OF conjunct1 [OF st] conjunct2 [OF st]] show ?thesis by simp
    qed (use st in simp)
  qed simp
  then show ?thesis by (simp add: sgtable_update_shadow_ggtt_def)
qed

definition shadow_state :: i915_state where
  "shadow_state = set_shadow_ptes GT_PRIMARY 1 (Some [0, 0, 0])
     (upd_gt GT_PRIMARY (\<lambda>t. t\<lparr>shadows_ggtt := Some (\<lambda>_. None)\<rparr>)
       (upd_config GT_PRIMARY 1 (\<lambda>c. c\<lparr>ggtt_region := Some \<lparr>node_start = 0x2000, node_size = 0x3000\<rparr>\<rparr>)
         fresh_state))"

theorem shadow_update_one_pte_witness:
  "shadow_ptes GT_PRIMARY 1
     (sgtable_update_shadow_ggtt 1 0x2000 (Some [0x7000, 0x8000, 0x9000]) 3 5 shadow_state) =
   Some [0x9005, 0, 0]"
proof -
  have "shadow_ptes GT_PRIMARY 1 shadow_state = Some [0, 0, 0]"
    "ggtt_region (config GT_PRIMARY 1 shadow_state) = Some \<lparr>node_start = 0x2000, node_size = 0x3000\<rparr>"
    by (simp_all add: shadow_state_def set_shadow_ptes_def shadow_ptes_def)
  from shadow_update_one_pte [OF this, where addrs = "[0x7000, 0x8000, 0x9000]" and a = "0x2000"
      and num = 3 and pattern = 5] show ?thesis
    by (simp add: ggtt_shadow_pte_idx_def pf_ggtt_addr_to_vf_pte_offset_def ggtt_addr_to_pte_offset_def)
qed

end
