(* ===== verification/Iov_Ggtt.thy ===== *)
theory Iov_Ggtt
  imports I915_Ggtt
begin

text \<open>
  Updates of VF PTEs (\<open>gt/iov/intel_iov_ggtt.c\<close>). A VF that may not write its PTEs buffers them,
  merging runs of equal PTEs (duplicates) and of PTEs with consecutive addresses (replicas), and
  sends the buffer to the PF, which expands it and writes the page table. The main theorem relates
  the two: the expansion of the requests a VF sends is the sequence of the VF's updates.
\<close>

section \<open>The PF: expansion of a request\<close>

abbreviation (input) MMIO_UPDATE_GGTT_MODE_DUPLICATE :: u8
  where "MMIO_UPDATE_GGTT_MODE_DUPLICATE \<equiv> 0"
abbreviation (input) MMIO_UPDATE_GGTT_MODE_REPLICATE :: u8
  where "MMIO_UPDATE_GGTT_MODE_REPLICATE \<equiv> 1"
abbreviation (input) MMIO_UPDATE_GGTT_MODE_DUPLICATE_LAST :: u8
  where "MMIO_UPDATE_GGTT_MODE_DUPLICATE_LAST \<equiv> 2"
abbreviation (input) MMIO_UPDATE_GGTT_MODE_REPLICATE_LAST :: u8
  where "MMIO_UPDATE_GGTT_MODE_REPLICATE_LAST \<equiv> 3"
abbreviation (input) VF_RELAY_UPDATE_GGTT_MODE_INVALID :: u8
  where "VF_RELAY_UPDATE_GGTT_MODE_INVALID \<equiv> 255"

definition pte_gfn :: "u64 \<Rightarrow> u64" where
  "pte_gfn pte = FIELD_GET 34 12 pte"

definition prepare_pattern_pte :: "u64 \<Rightarrow> u16 \<Rightarrow> u64" where
  "prepare_pattern_pte source_pte vfid =
     (source_pte AND MTL_GGTT_PTE_PAT_MASK) OR i915_ggtt_prepare_vf_pte vfid"

text \<open>The scatter list is the list of the addresses of its entries, appended at its end.\<close>

definition sg_add_addr :: "u64 \<Rightarrow> u64 list \<Rightarrow> u64 list" where
  "sg_add_addr addr st = st @ [addr]"

primrec sg_add_pfns :: "u64 \<Rightarrow> nat \<Rightarrow> bool \<Rightarrow> u64 list \<Rightarrow> u64 list" where
  "sg_add_pfns pfn 0 duplicated st = st"
| "sg_add_pfns pfn (Suc count) duplicated st =
     (if duplicated then sg_add_pfns pfn count duplicated (sg_add_addr (push_bit 12 pfn) st)
      else sg_add_pfns (pfn + 1) count duplicated (sg_add_addr (push_bit 12 pfn) st))"

definition sg_add_ptes :: "u64 \<Rightarrow> nat \<Rightarrow> bool \<Rightarrow> u64 list \<Rightarrow> u64 list" where
  "sg_add_ptes source_pte count duplicated st = sg_add_pfns (pte_gfn source_pte) count duplicated st"

definition sg_add_pte :: "u64 \<Rightarrow> u64 list \<Rightarrow> u64 list" where
  "sg_add_pte source_pte st = sg_add_ptes source_pte 1 False st"

text \<open>The switch over the mode: the scatter list for at least one PTE, or \<open>-EINVAL\<close>.\<close>

definition pf_sg_ptes :: "u8 \<Rightarrow> u16 \<Rightarrow> u64 list \<Rightarrow> u64 list res" where
  "pf_sg_ptes mode num_copies ptes =
     (let num_copies = num_copies + 1;
          is_duplicated = (mode = MMIO_UPDATE_GGTT_MODE_DUPLICATE \<or>
                           mode = MMIO_UPDATE_GGTT_MODE_DUPLICATE_LAST)
      in if mode = MMIO_UPDATE_GGTT_MODE_DUPLICATE \<or> mode = MMIO_UPDATE_GGTT_MODE_REPLICATE
         then Inr (fold sg_add_pte (tl ptes) (sg_add_ptes (hd ptes) (unat num_copies) is_duplicated []))
         else if mode = MMIO_UPDATE_GGTT_MODE_DUPLICATE_LAST \<or> mode = MMIO_UPDATE_GGTT_MODE_REPLICATE_LAST
         then Inr (sg_add_ptes (last ptes) (unat num_copies) is_duplicated (fold sg_add_pte (butlast ptes) []))
         else Inl EINVAL)"

text \<open>
  \<open>intel_iov_ggtt_pf_update_vf_ptes\<close>, with \<open>count\<close> the length of \<open>ptes\<close>. The code reads the node
  of the region without asking whether it is allocated: for a VF without a region it sees what the
  range manager has left there.
\<close>

definition vf_ggtt_node :: "iov_env \<Rightarrow> intel_gt_type \<Rightarrow> nat \<Rightarrow> i915_state \<Rightarrow> drm_mm_node" where
  "vf_ggtt_node E g vf s =
     (case ggtt_region (config g vf s) of
        None \<Rightarrow> env_stale_node E g vf
      | Some node \<Rightarrow> node)"

definition intel_iov_ggtt_pf_update_vf_ptes ::
    "iov_env \<Rightarrow> intel_gt_type \<Rightarrow> nat \<Rightarrow> u32 \<Rightarrow> u8 \<Rightarrow> u16 \<Rightarrow> u64 list \<Rightarrow> i915_state \<Rightarrow>
     u16 res \<times> i915_state" where
  "intel_iov_ggtt_pf_update_vf_ptes E g vf pte_offset mode num_copies ptes s =
     (let node = vf_ggtt_node E g vf s;
          count = of_nat (length ptes) :: u16;
          ggtt_addr = node_start node + ucast pte_offset * I915_GTT_PAGE_SIZE_4K;
          ggtt_addr_end = ggtt_addr + ucast count * I915_GTT_PAGE_SIZE_4K - 1;
          vf_ggtt_end = node_start node + node_size node - 1;
          pte_pattern = prepare_pattern_pte (hd ptes) (of_nat vf)
      in if count = 0 then (Inl EINVAL, s)
         else if ggtt_addr_end > vf_ggtt_end then (Inl ERANGE, s)
         else let n_ptes = (if num_copies \<noteq> 0 then num_copies + count else count)
              in case kmalloc E s of (ok, s1) \<Rightarrow>
                 if \<not> ok then (Inl ENOMEM, s1)
                 else case kmalloc E s1 of (ok, s2) \<Rightarrow>
                   if \<not> ok then (Inl ENOMEM, s2)
                   else case pf_sg_ptes mode num_copies ptes of
                     Inl e \<Rightarrow> (Inl e, s2)
                   | Inr st \<Rightarrow>
                       (case i915_ggtt_sgtable_update_ptes E vf ggtt_addr (Some st) (unat n_ptes)
                           pte_pattern s2 of
                          (Inl e, s3) \<Rightarrow> (Inl e, s3)
                        | (Inr u, s3) \<Rightarrow> (Inr n_ptes, s3)))"

section \<open>The VF: buffering of updates\<close>

text \<open>\<open>struct intel_iov_vf_ggtt_ptes\<close>; \<open>count\<close> is the length of \<open>buf_ptes\<close>.\<close>

record intel_iov_vf_ggtt_ptes =
  buf_ptes :: "u64 list"
  buf_offset :: u32
  buf_num_copies :: u16
  buf_mode :: u8

abbreviation (input) MAX_COPIES :: u16 where "MAX_COPIES \<equiv> 0x3ff"

definition max_ptes :: "bool \<Rightarrow> nat" where
  "max_ptes ct_enabled = (if ct_enabled then 125 else 1)"

definition is_next_ggtt_offset :: "intel_iov_vf_ggtt_ptes \<Rightarrow> u32 \<Rightarrow> bool" where
  "is_next_ggtt_offset b offset \<longleftrightarrow>
     offset - (ucast (buf_num_copies b) + of_nat (length (buf_ptes b))) = buf_offset b"

definition is_pte_duplicatable :: "intel_iov_vf_ggtt_ptes \<Rightarrow> u64 \<Rightarrow> bool" where
  "is_pte_duplicatable b pte \<longleftrightarrow> last (buf_ptes b) = pte"

definition is_pte_replicable :: "intel_iov_vf_ggtt_ptes \<Rightarrow> u64 \<Rightarrow> bool" where
  "is_pte_replicable b pte \<longleftrightarrow>
     FIELD_GET 2 52 pte = FIELD_GET 2 52 (last (buf_ptes b)) \<and>
     pte_gfn pte - (ucast (buf_num_copies b) + 1) = pte_gfn (last (buf_ptes b))"

text \<open>One pass of \<open>intel_iov_ggtt_vf_update_pte\<close>; \<open>None\<close> is the jump to \<open>flush\<close>.\<close>

definition vf_buffer_pte ::
    "bool \<Rightarrow> u32 \<Rightarrow> u64 \<Rightarrow> intel_iov_vf_ggtt_ptes \<Rightarrow> intel_iov_vf_ggtt_ptes option" where
  "vf_buffer_pte ct pte_offset pte b =
     (let count = length (buf_ptes b);
          copy = b\<lparr>buf_num_copies := buf_num_copies b + 1\<rparr>;
          append = b\<lparr>buf_ptes := buf_ptes b @ [pte]\<rparr>
      in if count = 0 then
           Some \<lparr>buf_ptes = [pte], buf_offset = pte_offset, buf_num_copies = 0,
                 buf_mode = VF_RELAY_UPDATE_GGTT_MODE_INVALID\<rparr>
         else if \<not> is_next_ggtt_offset b pte_offset \<or> buf_num_copies b = MAX_COPIES then None
         else if buf_num_copies b = 0 then
           (if is_pte_duplicatable b pte then
              Some (copy\<lparr>buf_mode := if count = 1 then MMIO_UPDATE_GGTT_MODE_DUPLICATE
                                    else MMIO_UPDATE_GGTT_MODE_DUPLICATE_LAST\<rparr>)
            else if is_pte_replicable b pte then
              Some (copy\<lparr>buf_mode := if count = 1 then MMIO_UPDATE_GGTT_MODE_REPLICATE
                                    else MMIO_UPDATE_GGTT_MODE_REPLICATE_LAST\<rparr>)
            else if count = max_ptes ct then None
            else Some append)
         else if count = 1 \<and> buf_mode b = MMIO_UPDATE_GGTT_MODE_DUPLICATE \<and> is_pte_duplicatable b pte
           then Some copy
         else if count = 1 \<and> buf_mode b = MMIO_UPDATE_GGTT_MODE_REPLICATE \<and> is_pte_replicable b pte
           then Some copy
         else if buf_mode b = MMIO_UPDATE_GGTT_MODE_DUPLICATE_LAST \<and> is_pte_duplicatable b pte
           then Some copy
         else if buf_mode b = MMIO_UPDATE_GGTT_MODE_REPLICATE_LAST \<and> is_pte_replicable b pte
           then Some copy
         else if buf_mode b < 2 \<and> count \<noteq> max_ptes ct then Some append
         else None)"

text \<open>A request as the VF sends it: offset, mode, number of copies, PTEs.\<close>

type_synonym ggtt_request = "u32 \<times> u8 \<times> u16 \<times> u64 list"

text \<open>\<open>intel_iov_query_update_ggtt_ptes\<close>, up to the encoding of the message.\<close>

definition intel_iov_query_update_ggtt_ptes ::
    "bool \<Rightarrow> intel_iov_vf_ggtt_ptes \<Rightarrow> intel_iov_vf_ggtt_ptes \<times> ggtt_request" where
  "intel_iov_query_update_ggtt_ptes ct b =
     (let mode = (if buf_mode b = VF_RELAY_UPDATE_GGTT_MODE_INVALID \<and> buf_num_copies b = 0 then 0
                  else buf_mode b);
          b' = b\<lparr>buf_mode := mode\<rparr>
      in (b', (buf_offset b, mode, buf_num_copies b,
               if ct then buf_ptes b else [hd (buf_ptes b)])))"

text \<open>The requests already sent are collected, the latest at the end.\<close>

definition intel_iov_ggtt_vf_flush_ptes ::
    "bool \<Rightarrow> intel_iov_vf_ggtt_ptes \<times> ggtt_request list \<Rightarrow> intel_iov_vf_ggtt_ptes \<times> ggtt_request list"
  where
  "intel_iov_ggtt_vf_flush_ptes ct bs =
     (case bs of (b, sent) \<Rightarrow>
        if buf_ptes b = [] then (b, sent)
        else case intel_iov_query_update_ggtt_ptes ct b of
          (b', req) \<Rightarrow> (b'\<lparr>buf_ptes := []\<rparr>, sent @ [req]))"

text \<open>After a flush the buffer is empty and the second pass does not flush again.\<close>

definition intel_iov_ggtt_vf_update_pte ::
    "bool \<Rightarrow> u64 \<Rightarrow> u32 \<Rightarrow> u64 \<Rightarrow> intel_iov_vf_ggtt_ptes \<times> ggtt_request list \<Rightarrow>
     intel_iov_vf_ggtt_ptes \<times> ggtt_request list" where
  "intel_iov_ggtt_vf_update_pte ct ggtt_base offset pte bs =
     (let pte_offset = drop_bit 12 offset - ucast (drop_bit 12 ggtt_base)
      in case vf_buffer_pte ct pte_offset pte (fst bs) of
           Some b \<Rightarrow> (b, snd bs)
         | None \<Rightarrow>
             (case intel_iov_ggtt_vf_flush_ptes ct bs of (b, sent) \<Rightarrow>
                (case vf_buffer_pte ct pte_offset pte b of
                   Some b' \<Rightarrow> (b', sent)
                 | None \<Rightarrow> (b, sent))))"


section \<open>The expansion in closed form\<close>

abbreviation pte_addr :: "u64 \<Rightarrow> u64" where "pte_addr pte \<equiv> push_bit 12 (pte_gfn pte)"

definition copies :: "bool \<Rightarrow> u64 \<Rightarrow> nat \<Rightarrow> u64 list" where
  "copies duplicated pte n = map (\<lambda>i. push_bit 12 (pte_gfn pte + (if duplicated then 0 else of_nat i))) [0..<n]"

lemma length_copies [simp]: "length (copies d pte n) = n"
  by (simp add: copies_def)

lemma copies_1 [simp]: "copies d pte (Suc 0) = [pte_addr pte]"
  by (simp add: copies_def)

lemma copies_Suc: "copies d pte (Suc n) = copies d pte n @ [push_bit 12 (pte_gfn pte + (if d then 0 else of_nat n))]"
  by (simp add: copies_def)

lemma sg_add_pfns_eq:
  "sg_add_pfns pfn n d st = st @ map (\<lambda>i. push_bit 12 (pfn + (if d then 0 else of_nat i))) [0..<n]"
proof (induction n arbitrary: pfn st d)
  case (Suc n)
  show ?case
    by (cases d) (simp_all add: Suc.IH sg_add_addr_def upt_conv_Cons comp_def algebra_simps
        map_Suc_upt [symmetric] del: upt_Suc)
qed simp

lemma unat_Suc_copies: "nc \<le> MAX_COPIES \<Longrightarrow> unat (nc + 1) = Suc (unat nc)"
  by (simp add: unat_word_ariths word_le_nat_alt)

lemma u8_lt_2: "(mode :: u8) < 2 \<longleftrightarrow> mode = 0 \<or> mode = 1"
proof
  assume "mode < 2"
  then have "unat mode = 0 \<or> unat mode = 1" by (auto simp: word_less_nat_alt)
  then show "mode = 0 \<or> mode = 1" by (metis unat_0 unat_1 word_unat_eq_iff)
qed auto

lemma sg_add_ptes_eq: "sg_add_ptes pte n d st = st @ copies d pte n"
  by (simp add: sg_add_ptes_def sg_add_pfns_eq copies_def)

lemma fold_sg_add_pte: "fold sg_add_pte ps st = st @ map pte_addr ps"
  by (induction ps arbitrary: st) (simp_all add: sg_add_pte_def sg_add_ptes_eq)

lemma pf_sg_ptes_first:
  "mode < 2 \<Longrightarrow> nc \<le> MAX_COPIES \<Longrightarrow>
     pf_sg_ptes mode nc ptes = Inr (copies (mode = 0) (hd ptes) (Suc (unat nc)) @ map pte_addr (tl ptes))"
proof -
  assume "mode < 2" and nc: "nc \<le> 0x3ff"
  then have "mode = 0 \<or> mode = 1" by (simp add: u8_lt_2)
  then show ?thesis
    by (auto simp: pf_sg_ptes_def Let_def fold_sg_add_pte sg_add_ptes_eq unat_Suc_copies [OF nc])
qed

lemma pf_sg_ptes_last:
  "mode = 2 \<or> mode = 3 \<Longrightarrow> nc \<le> MAX_COPIES \<Longrightarrow>
     pf_sg_ptes mode nc ptes = Inr (map pte_addr (butlast ptes) @ copies (mode = 2) (last ptes) (Suc (unat nc)))"
proof -
  assume m: "mode = 2 \<or> mode = 3" and nc: "nc \<le> 0x3ff"
  from m show ?thesis
    by (auto simp: pf_sg_ptes_def Let_def fold_sg_add_pte sg_add_ptes_eq unat_Suc_copies [OF nc])
qed

section \<open>The buffer represents a run of updates\<close>

text \<open>The PTE that the PF writes for a PTE of the VF at an address.\<close>

definition vf_entry :: "nat \<Rightarrow> u64 \<Rightarrow> u64 \<Rightarrow> u64" where
  "vf_entry vf pte addr = prepare_pattern_pte pte (of_nat vf) OR addr"

text \<open>
  The PTEs of a request in the order in which they are expanded: the first or the last one once
  more for each copy. A copy differs from its PTE in the address only.
\<close>

definition request_sources :: "u8 \<Rightarrow> u16 \<Rightarrow> u64 list \<Rightarrow> u64 list" where
  "request_sources mode nc ptes =
     (if mode < 2 then replicate (Suc (unat nc)) (hd ptes) @ tl ptes
      else butlast ptes @ replicate (Suc (unat nc)) (last ptes))"

text \<open>What a request of the VF \<open>vf\<close> means: pages of its region, and the entry each is to get.\<close>

definition request_writes :: "nat \<Rightarrow> ggtt_request \<Rightarrow> (u32 \<times> u64) list" where
  "request_writes vf r =
     (case r of (off, mode, nc, ptes) \<Rightarrow>
        case pf_sg_ptes mode nc ptes of
          Inl e \<Rightarrow> []
        | Inr addrs \<Rightarrow> zip (map (\<lambda>i. off + of_nat i) [0..<length addrs])
            (map2 (vf_entry vf) (request_sources mode nc ptes) addrs))"

text \<open>A request fits the fields of its message.\<close>

definition request_ok :: "bool \<Rightarrow> ggtt_request \<Rightarrow> bool" where
  "request_ok ct r \<longleftrightarrow>
     (case r of (off, mode, nc, ptes) \<Rightarrow>
        ptes \<noteq> [] \<and> length ptes \<le> max_ptes ct \<and> mode < 4 \<and> nc \<le> MAX_COPIES)"

definition buffer_ok :: "bool \<Rightarrow> intel_iov_vf_ggtt_ptes \<Rightarrow> bool" where
  "buffer_ok ct b \<longleftrightarrow>
     buf_ptes b = [] \<or>
     length (buf_ptes b) \<le> max_ptes ct \<and> buf_num_copies b \<le> MAX_COPIES \<and>
     (if buf_num_copies b = 0 then buf_mode b = VF_RELAY_UPDATE_GGTT_MODE_INVALID
      else buf_mode b \<in> {0, 1, 2, 3})"

definition buffer_addrs :: "intel_iov_vf_ggtt_ptes \<Rightarrow> u64 list" where
  "buffer_addrs b =
     (let d = (buf_mode b = 0 \<or> buf_mode b = 2); n = Suc (unat (buf_num_copies b)); ptes = buf_ptes b
      in if ptes = [] then []
         else if buf_num_copies b = 0 then map pte_addr ptes
         else if buf_mode b < 2 then copies d (hd ptes) n @ map pte_addr (tl ptes)
         else map pte_addr (butlast ptes) @ copies d (last ptes) n)"

definition buffer_sources :: "intel_iov_vf_ggtt_ptes \<Rightarrow> u64 list" where
  "buffer_sources b =
     (if buf_ptes b = [] then [] else if buf_num_copies b = 0 then buf_ptes b
      else request_sources (buf_mode b) (buf_num_copies b) (buf_ptes b))"

definition buffer_writes :: "nat \<Rightarrow> intel_iov_vf_ggtt_ptes \<Rightarrow> (u32 \<times> u64) list" where
  "buffer_writes vf b =
     zip (map (\<lambda>i. buf_offset b + of_nat i) [0..<length (buffer_addrs b)])
       (map2 (vf_entry vf) (buffer_sources b) (buffer_addrs b))"

lemma length_buffer_addrs:
  "buf_ptes b \<noteq> [] \<Longrightarrow> length (buffer_addrs b) = unat (buf_num_copies b) + length (buf_ptes b)"
  by (auto simp: buffer_addrs_def Let_def)

lemma length_buffer_sources [simp]: "length (buffer_sources b) = length (buffer_addrs b)"
  by (auto simp: buffer_sources_def buffer_addrs_def request_sources_def Let_def)

lemma max_ptes_pos: "0 < max_ptes ct"
  by (simp add: max_ptes_def)

lemma buffer_request:
  assumes "buffer_ok ct b" "buf_ptes b \<noteq> []"
  shows "request_ok ct (snd (intel_iov_query_update_ggtt_ptes ct b))"
    and "request_writes vf (snd (intel_iov_query_update_ggtt_ptes ct b)) = buffer_writes vf b"
proof -
  let ?mode = "if buf_mode b = 255 \<and> buf_num_copies b = 0 then 0 else buf_mode b"
  have p: "(if ct then buf_ptes b else [hd (buf_ptes b)]) = buf_ptes b"
    using assms by (cases "buf_ptes b") (auto simp: buffer_ok_def max_ptes_def)
  have nc: "buf_num_copies b \<le> 0x3ff" using assms by (simp add: buffer_ok_def)
  have mode: "buf_num_copies b = 0 \<and> ?mode = 0 \<or> buf_num_copies b \<noteq> 0 \<and> ?mode = buf_mode b \<and> buf_mode b \<in> {0, 1, 2, 3}"
    using assms by (auto simp: buffer_ok_def split: if_splits)
  then show "request_ok ct (snd (intel_iov_query_update_ggtt_ptes ct b))"
    using assms p by (auto simp: request_ok_def buffer_ok_def intel_iov_query_update_ggtt_ptes_def Let_def)
  have "pf_sg_ptes ?mode (buf_num_copies b) (buf_ptes b) = Inr (buffer_addrs b)"
    using mode
  proof
    assume m: "buf_num_copies b = 0 \<and> ?mode = 0"
    then have "pf_sg_ptes ?mode (buf_num_copies b) (buf_ptes b) = Inr (pte_addr (hd (buf_ptes b)) # map pte_addr (tl (buf_ptes b)))"
      using pf_sg_ptes_first [of 0 0 "buf_ptes b"] by (auto split: if_splits)
    with m assms(2) show ?thesis by (cases "buf_ptes b") (simp_all add: buffer_addrs_def)
  next
    assume m: "buf_num_copies b \<noteq> 0 \<and> ?mode = buf_mode b \<and> buf_mode b \<in> {0, 1, 2, 3}"
    then consider "buf_mode b < 2" "buf_mode b \<noteq> 2" | "buf_mode b = 2 \<or> buf_mode b = 3" "\<not> buf_mode b < 2" "buf_mode b \<noteq> 0" by auto
    then show ?thesis
    proof cases
      case 1
      with m assms(2) pf_sg_ptes_first [OF 1(1) nc, of "buf_ptes b"] show ?thesis by (auto simp: buffer_addrs_def Let_def)
    next
      case 2
      with m assms(2) pf_sg_ptes_last [OF 2(1) nc, of "buf_ptes b"] show ?thesis by (auto simp: buffer_addrs_def Let_def)
    qed
  qed
  moreover have "request_sources ?mode (buf_num_copies b) (buf_ptes b) = buffer_sources b"
    using mode assms(2) by (cases "buf_ptes b") (auto simp: request_sources_def buffer_sources_def)
  ultimately show "request_writes vf (snd (intel_iov_query_update_ggtt_ptes ct b)) = buffer_writes vf b"
    using p by (simp add: request_writes_def buffer_writes_def intel_iov_query_update_ggtt_ptes_def Let_def)
qed


lemma buffer_writes_snoc:
  assumes "buf_ptes b \<noteq> []" "is_next_ggtt_offset b off"
    and "buf_offset b' = buf_offset b" "buffer_addrs b' = buffer_addrs b @ [a]"
    and "buffer_sources b' = buffer_sources b @ [q]"
  shows "buffer_writes vf b' = buffer_writes vf b @ [(off, vf_entry vf q a)]"
proof -
  have "off = buf_offset b + of_nat (length (buffer_addrs b))"
    using assms(2) by (auto simp: is_next_ggtt_offset_def length_buffer_addrs [OF assms(1)] algebra_simps)
  then show ?thesis using assms(3-5) by (simp add: buffer_writes_def zip_append)
qed

lemma duplicatable_addr: "is_pte_duplicatable b pte \<Longrightarrow> push_bit 12 (pte_gfn (last (buf_ptes b))) = pte_addr pte"
  by (simp add: is_pte_duplicatable_def)

lemma replicable_addr:
  "is_pte_replicable b pte \<Longrightarrow>
     push_bit 12 (pte_gfn (last (buf_ptes b)) + of_nat (Suc (unat (buf_num_copies b)))) = pte_addr pte"
proof -
  assume r: "is_pte_replicable b pte"
  have "of_nat (unat (buf_num_copies b)) = (ucast (buf_num_copies b) :: u64)" by simp
  then show ?thesis using r by (simp add: is_pte_replicable_def algebra_simps)
qed

text \<open>What is copied has the flags of the new PTE.\<close>

lemma pat_flags: "FIELD_GET 2 52 p = FIELD_GET 2 52 q \<Longrightarrow> vf_entry vf p = vf_entry vf q"
proof -
  assume f: "FIELD_GET 2 52 p = FIELD_GET 2 52 q"
  have "x AND MTL_GGTT_PTE_PAT_MASK = push_bit 52 (FIELD_GET 2 52 x)" for x
    by (rule bit_word_eqI) (auto simp: MTL_GGTT_PTE_PAT_MASK_def FIELD_GET_def bit_simps)
  then show ?thesis using f unfolding vf_entry_def [abs_def] prepare_pattern_pte_def by simp
qed

lemma copied_entry:
  assumes "is_pte_duplicatable b pte \<or> is_pte_replicable b pte"
  shows "vf_entry vf (last (buf_ptes b)) a = vf_entry vf pte a"
proof -
  have "FIELD_GET 2 52 (last (buf_ptes b)) = FIELD_GET 2 52 pte"
    using assms by (auto simp: is_pte_duplicatable_def is_pte_replicable_def)
  then show ?thesis by (rule pat_flags [THEN fun_cong])
qed

text \<open>Another copy of the first (or only) PTE, of the last PTE, or another PTE.\<close>

lemma buffer_addrs_copy:
  assumes "buf_ptes b \<noteq> []" "buf_num_copies b \<le> MAX_COPIES" "buf_num_copies b \<noteq> MAX_COPIES"
    and "mode \<in> {0, 1, 2, 3}" "mode < 2 \<Longrightarrow> length (buf_ptes b) = 1"
    and "buf_num_copies b \<noteq> 0 \<Longrightarrow> mode = buf_mode b"
    and "if mode = 0 \<or> mode = 2 then is_pte_duplicatable b pte else is_pte_replicable b pte"
  shows "buffer_addrs (b\<lparr>buf_num_copies := buf_num_copies b + 1, buf_mode := mode\<rparr>) = buffer_addrs b @ [pte_addr pte]"
proof -
  let ?d = "mode = 0 \<or> mode = 2"
  let ?n = "Suc (unat (buf_num_copies b))"
  have u: "unat (buf_num_copies b + 1) = ?n" using unat_Suc_copies [OF assms(2)] .
  then have nz: "buf_num_copies b + 1 \<noteq> 0" by (metis nat.distinct(1) unat_0)
  have cp: "copies ?d (last (buf_ptes b)) (Suc ?n) = copies ?d (last (buf_ptes b)) ?n @ [pte_addr pte]"
    using assms(7) duplicatable_addr [of b pte] replicable_addr [of b pte]
    by (auto simp only: copies_Suc [of _ _ ?n] split: if_splits)
      simp_all
  obtain ps p where ps: "buf_ptes b = ps @ [p]" using assms(1) by (cases "buf_ptes b" rule: rev_cases) auto
  show ?thesis
  proof (cases "mode < 2")
    case True
    then have "buf_ptes b = [p]" using assms(5) ps by simp
    then show ?thesis
      using True nz u cp assms(6) by (cases "buf_num_copies b = 0") (auto simp: buffer_addrs_def Let_def)
  next
    case False
    then show ?thesis
      using nz u cp assms(6) ps by (cases "buf_num_copies b = 0") (auto simp: buffer_addrs_def Let_def)
  qed
qed

lemma buffer_addrs_append:
  assumes "buf_ptes b \<noteq> []" "buf_num_copies b = 0 \<or> buf_mode b < 2"
  shows "buffer_addrs (b\<lparr>buf_ptes := buf_ptes b @ [pte]\<rparr>) = buffer_addrs b @ [pte_addr pte]"
  using assms by (cases "buf_ptes b") (auto simp: buffer_addrs_def Let_def)

lemma buffer_sources_copy:
  assumes "buf_ptes b \<noteq> []" "buf_num_copies b \<le> MAX_COPIES"
    and "mode < 2 \<Longrightarrow> length (buf_ptes b) = 1" "buf_num_copies b \<noteq> 0 \<Longrightarrow> mode = buf_mode b"
  shows "buffer_sources (b\<lparr>buf_num_copies := buf_num_copies b + 1, buf_mode := mode\<rparr>) =
    buffer_sources b @ [last (buf_ptes b)]"
proof -
  have u: "unat (buf_num_copies b + 1) = Suc (unat (buf_num_copies b))" using unat_Suc_copies [OF assms(2)] .
  then have nz: "buf_num_copies b + 1 \<noteq> 0" by (metis nat.distinct(1) unat_0)
  obtain ps p where ps: "buf_ptes b = ps @ [p]" using assms(1) by (cases "buf_ptes b" rule: rev_cases) auto
  then have "mode < 2 \<Longrightarrow> ps = []" using assms(3) by simp
  have rep: "replicate (Suc n) p @ [p] = replicate (Suc (Suc n)) p" for n
    by (induction n) simp_all
  have new: "buffer_sources (b\<lparr>buf_num_copies := buf_num_copies b + 1, buf_mode := mode\<rparr>) =
      request_sources mode (buf_num_copies b + 1) (ps @ [p])"
    using nz by (simp add: buffer_sources_def ps)
  have req: "request_sources mode nc (ps @ [p]) = ps @ replicate (Suc (unat nc)) p" for nc
    using \<open>mode < 2 \<Longrightarrow> ps = []\<close> by (auto simp: request_sources_def)
  have "buffer_sources b = ps @ replicate (Suc (unat (buf_num_copies b))) p"
    using req [of "buf_num_copies b"] assms(4) by (cases "buf_num_copies b = 0") (simp_all add: buffer_sources_def ps)
  then show ?thesis using rep [of "unat (buf_num_copies b)"] by (simp only: new req u ps append_assoc last_snoc)
qed

lemma buffer_sources_append:
  assumes "buf_ptes b \<noteq> []" "buf_num_copies b = 0 \<or> buf_mode b < 2"
  shows "buffer_sources (b\<lparr>buf_ptes := buf_ptes b @ [pte]\<rparr>) = buffer_sources b @ [pte]"
  using assms by (cases "buf_ptes b") (auto simp: buffer_sources_def request_sources_def)


lemma vf_buffer_pte_cases [consumes 2, case_names start copy append]:
  assumes "vf_buffer_pte ct off pte b = Some b'" "buffer_ok ct b"
  obtains "buf_ptes b = []" "b' = \<lparr>buf_ptes = [pte], buf_offset = off, buf_num_copies = 0, buf_mode = 255\<rparr>"
  | mode where "buf_ptes b \<noteq> []" "is_next_ggtt_offset b off" "buf_num_copies b \<noteq> MAX_COPIES"
      "mode \<in> {0, 1, 2, 3}" "mode < 2 \<Longrightarrow> length (buf_ptes b) = 1"
      "buf_num_copies b \<noteq> 0 \<Longrightarrow> mode = buf_mode b"
      "if mode = 0 \<or> mode = 2 then is_pte_duplicatable b pte else is_pte_replicable b pte"
      "b' = b\<lparr>buf_num_copies := buf_num_copies b + 1, buf_mode := mode\<rparr>"
  | "buf_ptes b \<noteq> []" "is_next_ggtt_offset b off" "length (buf_ptes b) \<noteq> max_ptes ct"
      "buf_num_copies b = 0 \<or> buf_mode b < 2" "b' = b\<lparr>buf_ptes := buf_ptes b @ [pte]\<rparr>"
proof -
  have same: "b\<lparr>buf_num_copies := buf_num_copies b + 1\<rparr> =
      b\<lparr>buf_num_copies := buf_num_copies b + 1, buf_mode := buf_mode b\<rparr>" by simp
  consider (empty) "buf_ptes b = []"
    | (none) "buf_ptes b \<noteq> []" "\<not> is_next_ggtt_offset b off \<or> buf_num_copies b = MAX_COPIES"
    | (zero) "buf_ptes b \<noteq> []" "is_next_ggtt_offset b off" "buf_num_copies b \<noteq> MAX_COPIES" "buf_num_copies b = 0"
    | (more) "buf_ptes b \<noteq> []" "is_next_ggtt_offset b off" "buf_num_copies b \<noteq> MAX_COPIES" "buf_num_copies b \<noteq> 0"
    by blast
  then show thesis
  proof cases
    case empty
    then show thesis using assms(1) that(1) by (simp add: vf_buffer_pte_def Let_def)
  next
    case none
    then show thesis using assms(1) by (simp add: vf_buffer_pte_def Let_def)
  next
    case zero
    consider "is_pte_duplicatable b pte" | "\<not> is_pte_duplicatable b pte" "is_pte_replicable b pte"
      | "\<not> is_pte_duplicatable b pte" "\<not> is_pte_replicable b pte" by blast
    then show thesis
    proof cases
      case 1
      then show thesis
        using assms(1) zero by (intro that(2) [of "if length (buf_ptes b) = 1 then 0 else 2"])
          (auto simp: vf_buffer_pte_def Let_def split: if_splits)
    next
      case 2
      then show thesis
        using assms(1) zero by (intro that(2) [of "if length (buf_ptes b) = 1 then 1 else 3"])
          (auto simp: vf_buffer_pte_def Let_def split: if_splits)
    next
      case 3
      then show thesis
        using assms(1) zero by (intro that(3)) (auto simp: vf_buffer_pte_def Let_def split: if_splits)
    qed
  next
    case more
    then have m: "buf_mode b \<in> {0, 1, 2, 3}" using assms(2) by (auto simp: buffer_ok_def split: if_splits)
    consider (copy) "b' = b\<lparr>buf_num_copies := buf_num_copies b + 1\<rparr>" "buf_mode b < 2 \<Longrightarrow> length (buf_ptes b) = 1"
        "if buf_mode b = 0 \<or> buf_mode b = 2 then is_pte_duplicatable b pte else is_pte_replicable b pte"
      | (app) "b' = b\<lparr>buf_ptes := buf_ptes b @ [pte]\<rparr>" "buf_mode b < 2" "length (buf_ptes b) \<noteq> max_ptes ct"
    proof -
      from m consider "buf_mode b = 0" | "buf_mode b = 1" | "buf_mode b = 2" | "buf_mode b = 3" by blast
      then show thesis
      proof cases
        case 1
        with assms(1) more that show thesis by (simp add: vf_buffer_pte_def Let_def split: if_split_asm)
      next
        case 2
        with assms(1) more that show thesis by (simp add: vf_buffer_pte_def Let_def split: if_split_asm)
      next
        case 3
        with assms(1) more that(1) show thesis by (simp add: vf_buffer_pte_def Let_def split: if_split_asm)
      next
        case 4
        with assms(1) more that(1) show thesis by (simp add: vf_buffer_pte_def Let_def split: if_split_asm)
      qed
    qed
    then show thesis
    proof cases
      case copy
      show thesis
        by (rule that(2) [of "buf_mode b", OF more(1-3) m copy(2) refl copy(3) trans [OF copy(1) same]])
    next
      case app
      show thesis by (rule that(3) [OF more(1,2) app(3) disjI2 [OF app(2)] app(1)])
    qed
  qed
qed

lemma vf_buffer_pte_step:
  assumes "buffer_ok ct b" "vf_buffer_pte ct off pte b = Some b'"
  shows "buffer_ok ct b'" "buffer_writes vf b' = buffer_writes vf b @ [(off, vf_entry vf pte (pte_addr pte))]"
proof -
  have "buffer_ok ct b' \<and> buffer_writes vf b' = buffer_writes vf b @ [(off, vf_entry vf pte (pte_addr pte))]"
    using assms(2,1)
  proof (cases rule: vf_buffer_pte_cases)
    case start
    then show ?thesis
      using max_ptes_pos [of ct]
      by (auto simp: buffer_ok_def buffer_writes_def buffer_addrs_def buffer_sources_def Let_def)
  next
    case (copy mode)
    have le: "buf_num_copies b \<le> 0x3ff" using assms(1) copy(1) by (simp add: buffer_ok_def)
    then have "unat (buf_num_copies b) < 0x3ff"
      using copy(3) by (auto simp: word_le_nat_alt word_unat_eq_iff)
    then have "buf_num_copies b + 1 \<le> 0x3ff"
      by (simp add: word_le_nat_alt unat_Suc_copies [OF le])
    moreover have "buf_num_copies b + 1 \<noteq> 0"
      using unat_Suc_copies [OF le] by (metis nat.distinct(1) unat_0)
    ultimately have "buffer_ok ct b'" using assms(1) copy by (auto simp: buffer_ok_def)
    moreover have "buffer_writes vf b' =
        buffer_writes vf b @ [(off, vf_entry vf (last (buf_ptes b)) (pte_addr pte))]"
      using buffer_addrs_copy [OF copy(1) le copy(3-7)] buffer_sources_copy [OF copy(1) le copy(5,6)]
      by (intro buffer_writes_snoc [OF copy(1,2)]) (simp_all add: copy(8))
    moreover have "vf_entry vf (last (buf_ptes b)) a = vf_entry vf pte a" for a
      using copy(7) by (intro copied_entry) (auto split: if_splits)
    ultimately show ?thesis by simp
  next
    case append
    then have "buffer_ok ct b'" using assms(1) by (auto simp: buffer_ok_def)
    then show ?thesis
      using buffer_writes_snoc [OF append(1,2), of b'] buffer_addrs_append [OF append(1,4)]
        buffer_sources_append [OF append(1,4)] append(5)
      by simp
  qed
  then show "buffer_ok ct b'" "buffer_writes vf b' = buffer_writes vf b @ [(off, vf_entry vf pte (pte_addr pte))]" by auto
qed

section \<open>Sequences of updates\<close>

definition ggtt_vf_run ::
    "bool \<Rightarrow> u64 \<Rightarrow> (u32 \<times> u64) list \<Rightarrow> intel_iov_vf_ggtt_ptes \<Rightarrow> ggtt_request list" where
  "ggtt_vf_run ct ggtt_base us b =
     snd (intel_iov_ggtt_vf_flush_ptes ct
       (fold (\<lambda>(offset, pte). intel_iov_ggtt_vf_update_pte ct ggtt_base offset pte) us (b, [])))"

definition sent_ok :: "bool \<Rightarrow> intel_iov_vf_ggtt_ptes \<times> ggtt_request list \<Rightarrow> bool" where
  "sent_ok ct bs \<longleftrightarrow> buffer_ok ct (fst bs) \<and> list_all (request_ok ct) (snd bs)"

definition all_writes :: "nat \<Rightarrow> intel_iov_vf_ggtt_ptes \<times> ggtt_request list \<Rightarrow> (u32 \<times> u64) list" where
  "all_writes vf bs = concat (map (request_writes vf) (snd bs)) @ buffer_writes vf (fst bs)"

lemma buffer_writes_Nil [simp]: "buf_ptes b = [] \<Longrightarrow> buffer_writes vf b = []"
  by (simp add: buffer_writes_def buffer_addrs_def)

lemma flush_step:
  assumes "sent_ok ct bs" "intel_iov_ggtt_vf_flush_ptes ct bs = bs'"
  shows "sent_ok ct bs'" "all_writes vf bs' = all_writes vf bs" "buf_ptes (fst bs') = []"
proof -
  obtain b sent where bs: "bs = (b, sent)" by force
  have "sent_ok ct bs' \<and> all_writes vf bs' = all_writes vf bs \<and> buf_ptes (fst bs') = []"
  proof (cases "buf_ptes b = []")
    case True
    then show ?thesis using assms by (auto simp: bs intel_iov_ggtt_vf_flush_ptes_def)
  next
    case False
    have ok: "buffer_ok ct b" using assms(1) by (simp add: sent_ok_def bs)
    obtain b' req where r: "intel_iov_query_update_ggtt_ptes ct b = (b', req)" by (meson surj_pair)
    have "bs' = (b'\<lparr>buf_ptes := []\<rparr>, sent @ [req])"
      using assms(2) False by (simp add: bs intel_iov_ggtt_vf_flush_ptes_def r)
    then show ?thesis
      using assms(1) buffer_request [OF ok False] by (simp add: sent_ok_def all_writes_def bs r buffer_ok_def)
  qed
  then show "sent_ok ct bs'" "all_writes vf bs' = all_writes vf bs" "buf_ptes (fst bs') = []" by auto
qed

lemma update_step:
  assumes "sent_ok ct bs"
  shows "sent_ok ct (intel_iov_ggtt_vf_update_pte ct base offset pte bs)"
    and "all_writes vf (intel_iov_ggtt_vf_update_pte ct base offset pte bs) =
      all_writes vf bs @ [(drop_bit 12 offset - ucast (drop_bit 12 base), vf_entry vf pte (pte_addr pte))]"
proof -
  let ?off = "drop_bit 12 offset - ucast (drop_bit 12 base) :: u32"
  let ?bs' = "intel_iov_ggtt_vf_update_pte ct base offset pte bs"
  have step: "sent_ok ct (b', snd t) \<and> all_writes vf (b', snd t) =
      all_writes vf t @ [(?off, vf_entry vf pte (pte_addr pte))]"
    if "sent_ok ct t" "vf_buffer_pte ct ?off pte (fst t) = Some b'" for t b'
    using that vf_buffer_pte_step [of ct "fst t" ?off pte b'] by (simp add: sent_ok_def all_writes_def)
  have "sent_ok ct ?bs' \<and> all_writes vf ?bs' = all_writes vf bs @ [(?off, vf_entry vf pte (pte_addr pte))]"
  proof (cases "vf_buffer_pte ct ?off pte (fst bs)")
    case (Some b)
    then show ?thesis using step [OF assms Some] by (simp add: intel_iov_ggtt_vf_update_pte_def Let_def)
  next
    case None
    obtain tb ts where t: "intel_iov_ggtt_vf_flush_ptes ct bs = (tb, ts)" by (meson surj_pair)
    note f = flush_step [OF assms t]
    then obtain b' where b': "vf_buffer_pte ct ?off pte (fst (tb, ts)) = Some b'"
      by (simp add: vf_buffer_pte_def Let_def)
    with step [OF f(1) b'] f(2) None t show ?thesis
      by (simp add: intel_iov_ggtt_vf_update_pte_def Let_def)
  qed
  then show "sent_ok ct ?bs'" "all_writes vf ?bs' = all_writes vf bs @ [(?off, vf_entry vf pte (pte_addr pte))]" by auto
qed


lemma entries:
  "vf_entry 1 0x5001 (pte_addr 0x5001) = 0x5005" "vf_entry 1 0x6001 (pte_addr 0x6001) = 0x6005"
  "vf_entry 1 0x10000000007001 (pte_addr 0x10000000007001) = 0x10000000007005"
  "vf_entry 1 0x9001 (pte_addr 0x9001) = 0x9005"
  unfolding vf_entry_def prepare_pattern_pte_def i915_ggtt_prepare_vf_pte_def tgl_prepare_vf_pte_vfid_def
    GEN8_PAGE_PRESENT_def MTL_GGTT_PTE_PAT_MASK_def FIELD_PREP_def pte_gfn_def FIELD_GET_def
  by code_simp+



section \<open>The PF writes what it expands\<close>

lemma pf_sg_ptes_length:
  assumes "pf_sg_ptes mode nc ptes = Inr addrs" "ptes \<noteq> []" "nc \<le> MAX_COPIES"
  shows "length addrs = unat nc + length ptes"
proof -
  have "mode < 2 \<or> mode = 2 \<or> mode = 3"
    using assms(1) by (auto simp: pf_sg_ptes_def Let_def split: if_splits)
  then show ?thesis
    using assms pf_sg_ptes_first [of mode nc ptes] pf_sg_ptes_last [of mode nc ptes]
    by (cases ptes) auto
qed

lemma update_ptes_success:
  assumes "i915_ggtt_sgtable_update_ptes E vf a (Some addrs) (length addrs) pattern s = (Inr u, s')"
    and "unat a < 2 ^ 32"
  shows "ggtt_ptes s' = write_ptes (ggtt_ptes s) (unat a div 4096) (map (\<lambda>x. pattern OR x) addrs)"
proof (cases "env_bind_ready E")
  case True
  obtain ok s1 where b: "gen8_ggtt_bind_ptes E (unat (drop_bit 12 a)) (Some addrs) (length addrs) pattern s = (ok, s1)"
    by force
  with assms(1) True have ok: "ok" "ggtt_ptes s' = ggtt_ptes s1"
    by (auto simp: i915_ggtt_sgtable_update_ptes_def split: if_splits)
  show ?thesis
  proof (cases "addrs = []")
    case False
    then obtain m where l: "bind_ptes_loop E (unat (drop_bit 12 a)) (Some addrs) (length addrs) pattern (ggtt_ptes s) = (True, m)"
      and m: "s1 = s\<lparr>ggtt_ptes := m\<rparr>"
      using b ok(1) by (auto simp: gen8_ggtt_bind_ptes_def split: if_splits prod.splits)
    from bind_ptes_loop_prefix [OF l] m ok(2) show ?thesis
      by (auto simp: bind_entries_def unat_drop_bit_12)
  qed (use b ok in \<open>simp add: gen8_ggtt_bind_ptes_def\<close>)
next
  case False
  have "unat (ucast a :: u32) = unat a" using assms(2) by (simp add: unat_ucast)
  with False assms(1) show ?thesis
    by (auto simp: i915_ggtt_sgtable_update_ptes_def sgtable_update_ptes_via_cpu_def split: if_splits)
qed

text \<open>A region as the PF provisions it: page aligned, below 4 GiB.\<close>

definition region_ok :: "drm_mm_node \<Rightarrow> bool" where
  "region_ok node \<longleftrightarrow> 4096 dvd unat (node_start node) \<and> 4096 dvd unat (node_size node) \<and>
     0 < unat (node_size node) \<and> unat (node_start node) + unat (node_size node) \<le> 2 ^ 32"

abbreviation node_page :: "drm_mm_node \<Rightarrow> nat" where "node_page node \<equiv> unat (node_start node) div 4096"
abbreviation node_pages :: "drm_mm_node \<Rightarrow> nat" where "node_pages node \<equiv> unat (node_size node) div 4096"

lemma unat_ggtt_addr:
  assumes "region_ok node" "unat off < 2 ^ 21"
  shows "unat (node_start node + ucast (off :: u32) * 4096) = unat (node_start node) + unat off * 4096"
proof -
  have "unat off * 4096 < 2 ^ 33" using assms(2) by simp
  moreover have "unat (node_start node) < 2 ^ 33" using assms(1) by (simp add: region_ok_def)
  ultimately show ?thesis by (simp add: unat_word_ariths unat_ucast)
qed

lemma update_in_range:
  assumes "region_ok node" "unat off < 2 ^ 21" "0 < n" "n \<le> 125"
    and "\<not> node_start node + ucast (off :: u32) * 4096 + ucast (of_nat n :: u16) * 4096 - 1 >
        node_start node + node_size node - 1"
  shows "unat off + n \<le> node_pages node"
proof -
  let ?a = "node_start node + ucast off * 4096 :: u64"
  have n: "unat (of_nat n :: u16) = n" using assms(4) by (intro unat_of_nat_u16) simp
  have b: "unat off * 4096 < 2 ^ 33" "unat (node_start node) + unat (node_size node) \<le> 2 ^ 32"
    using assms(1,2) by (simp_all add: region_ok_def)
  have e1: "unat (?a + ucast (of_nat n :: u16) * 4096 - 1) = unat (node_start node) + unat off * 4096 + n * 4096 - 1"
  proof -
    have "unat (?a + ucast (of_nat n :: u16) * 4096) = unat (node_start node) + unat off * 4096 + n * 4096"
      using b assms(4) n unat_ggtt_addr [OF assms(1,2)] by (simp add: unat_word_ariths unat_ucast)
    then show ?thesis using assms(3) by (simp add: unat_minus_one unat_gt_0 [symmetric])
  qed
  have e2: "unat (node_start node + node_size node - 1) = unat (node_start node) + unat (node_size node) - 1"
  proof -
    have "unat (node_start node + node_size node) = unat (node_start node) + unat (node_size node)"
      using b(2) by (simp add: unat_word_ariths)
    moreover have "0 < unat (node_size node)" using assms(1) by (simp add: region_ok_def)
    ultimately show ?thesis by (simp add: unat_minus_one unat_gt_0 [symmetric])
  qed
  have "unat off * 4096 + n * 4096 \<le> unat (node_size node)"
    using assms(3,5) e1 e2 assms(1) by (simp add: word_less_nat_alt region_ok_def)
  then show ?thesis by (simp add: less_eq_div_iff_mult_less_eq algebra_simps)
qed


lemma pf_update_vf_ptes_success:
  assumes "ggtt_region (config g vf s) = Some node" "region_ok node" "unat off < 2 ^ 21"
    and "length ptes \<le> 125" "nc \<le> MAX_COPIES"
    and "intel_iov_ggtt_pf_update_vf_ptes E g vf off mode nc ptes s = (Inr n, s')"
  obtains addrs where "ptes \<noteq> []" "pf_sg_ptes mode nc ptes = Inr addrs" "unat n = length addrs"
    "length addrs = unat nc + length ptes" "unat off + length ptes \<le> node_pages node" "pt_only s s'"
    "ggtt_ptes s' = write_ptes (ggtt_ptes s) (node_page node + unat off)
       (map (\<lambda>a. prepare_pattern_pte (hd ptes) (of_nat vf) OR a) addrs)"
proof -
  let ?c = "of_nat (length ptes) :: u16"
  let ?a = "node_start node + ucast off * 4096"
  have c: "unat ?c = length ptes" using assms(4) by (intro unat_of_nat_u16) simp
  have nd: "vf_ggtt_node E g vf s = node" by (simp add: vf_ggtt_node_def assms(1))
  define n_ptes where "n_ptes = (if nc \<noteq> 0 then nc + ?c else ?c)"
  have un: "unat n_ptes = unat nc + length ptes"
    using c assms(4,5) by (auto simp: n_ptes_def unat_word_ariths word_le_nat_alt)
  from assms(6) have nz: "?c \<noteq> 0"
    and rg: "\<not> ?a + ucast ?c * 4096 - 1 > node_start node + node_size node - 1"
    by (auto simp: intel_iov_ggtt_pf_update_vf_ptes_def Let_def nd split: if_splits)
  from assms(6) obtain addrs t u where addrs: "pf_sg_ptes mode nc ptes = Inr addrs" and nn: "n = n_ptes"
    and t: "i915_ggtt_sgtable_update_ptes E vf ?a (Some addrs) (unat n_ptes)
        (prepare_pattern_pte (hd ptes) (of_nat vf)) t = (Inr u, s')" "t = s\<lparr>allocs := Suc (Suc (allocs s))\<rparr>"
    by (auto simp: intel_iov_ggtt_pf_update_vf_ptes_def Let_def nd n_ptes_def kmalloc_def
        split: if_splits sum.splits prod.splits)
  have ne: "ptes \<noteq> []" using nz by auto
  have len: "length addrs = unat nc + length ptes" using pf_sg_ptes_length [OF addrs ne assms(5)] .
  have "unat ?a = unat (node_start node) + unat off * 4096" using unat_ggtt_addr [OF assms(2,3)] .
  moreover have in_rg: "unat off + length ptes \<le> node_pages node"
    using update_in_range [OF assms(2,3) _ assms(4) rg] ne by simp
  moreover have "node_pages node * 4096 = unat (node_size node)"
    using assms(2) by (simp add: region_ok_def)
  ultimately have a: "unat ?a < 2 ^ 32" "unat ?a div 4096 = node_page node + unat off"
    using assms(2) ne by (auto simp: region_ok_def) (cases ptes; simp)
  have "pt_only s s'"
    using pt_only_trans [OF pt_only_allocs] pt_only_update_ptes [OF t(1)] t(2) by simp
  then show thesis
    using that [OF ne addrs _ len in_rg] update_ptes_success [of E vf ?a addrs] t un len a nn by simp
qed

lemma pte_vfid_pattern:
  "pte_vfid (prepare_pattern_pte p v OR push_bit 12 g) = take_bit 3 (ucast v)"
proof -
  have "pte_vfid (p AND MTL_GGTT_PTE_PAT_MASK) = 0" "pte_vfid (push_bit 12 g) = 0"
    by (auto intro!: bit_word_eqI simp: pte_vfid_def FIELD_GET_def MTL_GGTT_PTE_PAT_MASK_def bit_simps)
  moreover have "pte_vfid (x OR y) = pte_vfid x OR pte_vfid y" for x y
    by (simp add: pte_vfid_def field_simps_guc)
  ultimately show ?thesis by (simp add: prepare_pattern_pte_def)
qed

lemma pf_sg_ptes_addr:
  assumes "pf_sg_ptes mode nc ptes = Inr addrs" "a \<in> set addrs" "nc \<le> MAX_COPIES" "ptes \<noteq> []"
  shows "\<exists>g. a = push_bit 12 g"
proof -
  have "mode < 2 \<or> mode = 2 \<or> mode = 3"
    using assms(1) by (auto simp: pf_sg_ptes_def Let_def split: if_splits)
  then show ?thesis
    using assms pf_sg_ptes_first [of mode nc ptes] pf_sg_ptes_last [of mode nc ptes]
    by (auto simp: copies_def simp del: upt_Suc)
qed

lemma unat_take_bit_vfid: "vf < 8 \<Longrightarrow> unat (take_bit 3 (ucast (of_nat vf :: u16) :: u64)) = vf"
  using unat_of_nat_u16 [of vf] by (simp add: unat_ucast unat_mod take_bit_eq_mod)


lemma pf_update_vf_ptes_eq:
  assumes "vf_ggtt_node E g vf s = node" "\<forall>n. env_alloc E n" "of_nat (length ptes) \<noteq> (0 :: u16)"
    and "\<not> node_start node + ucast off * 4096 + ucast (of_nat (length ptes) :: u16) * 4096 - 1 >
      node_start node + node_size node - 1"
    and "pf_sg_ptes mode nc ptes = Inr addrs"
  shows "intel_iov_ggtt_pf_update_vf_ptes E g vf off mode nc ptes s =
    (let n_ptes = (if nc \<noteq> 0 then nc + of_nat (length ptes) else of_nat (length ptes))
     in case i915_ggtt_sgtable_update_ptes E vf (node_start node + ucast off * 4096) (Some addrs)
         (unat n_ptes) (prepare_pattern_pte (hd ptes) (of_nat vf)) (s\<lparr>allocs := Suc (Suc (allocs s))\<rparr>) of
       (Inl e, s3) \<Rightarrow> (Inl e, s3)
     | (Inr u, s3) \<Rightarrow> (Inr n_ptes, s3))"
  unfolding intel_iov_ggtt_pf_update_vf_ptes_def assms(1) Let_def
  using assms(2-5) by (simp only: kmalloc_def prod.case if_False if_True sum.case not_True_eq_False) simp

text \<open>
  Property C9. The range check of the PF does not count the copies of a request: a VF that asks for
  \<open>nc\<close> duplicates of the PTE of its last page gets its own PTE written to the \<open>nc\<close> pages that
  follow its region, whoever owns them.
\<close>

theorem pf_update_escapes_region:
  assumes "ggtt_region (config g vf s) = Some node" "region_ok node" "vf < 8"
    and "unat off + 1 = node_pages node" "0 < unat nc" "nc \<le> MAX_COPIES"
    and "\<not> env_bind_ready E" "\<forall>n. env_alloc E n" "j < unat nc"
  shows "\<exists>n s'. intel_iov_ggtt_pf_update_vf_ptes E g vf off 0 nc [pte] s = (Inr n, s') \<and>
    unat (pte_vfid (ggtt_ptes s' (node_page node + node_pages node + j))) = vf"
proof -
  have sz: "unat (node_size node) = node_pages node * 4096" "unat (node_start node) + unat (node_size node) \<le> 2 ^ 32"
    using assms(2) by (simp_all add: region_ok_def)
  have off: "unat off < 2 ^ 21" using sz assms(4) by simp
  let ?a = "node_start node + ucast off * 4096"
  have "unat ?a = unat (node_start node) + unat off * 4096" using unat_ggtt_addr [OF assms(2) off] .
  moreover have "unat off * 4096 + 4096 = unat (node_size node)"
    by (subst sz(1)) (simp flip: assms(4))
  ultimately have "unat ?a + 4096 = unat (node_start node) + unat (node_size node)" by simp
  then have eq: "?a + 4096 = node_start node + node_size node"
    by (simp only: word_unat_eq_iff unat_word_ariths) simp
  have rg: "\<not> ?a + ucast (of_nat (length [pte]) :: u16) * 4096 - 1 > node_start node + node_size node - 1"
    by (simp only: flip: eq) simp
  have sg: "pf_sg_ptes 0 nc [pte] = Inr (copies True pte (Suc (unat nc)))"
    using pf_sg_ptes_first [of 0 nc "[pte]"] assms(6) by simp
  have cpu: "\<exists>s'. i915_ggtt_sgtable_update_ptes E vf ?a (Some (copies True pte (Suc (unat nc)))) k p t = (Inr (), s')"
    for k p t
    using assms(7) by (simp only: i915_ggtt_sgtable_update_ptes_def sgtable_update_ptes_via_cpu_def if_False
        prod.case option.case length_copies nat.distinct) blast
  have nd: "vf_ggtt_node E g vf s = node" by (simp add: vf_ggtt_node_def assms(1))
  have "of_nat (length [pte]) \<noteq> (0 :: u16)" by simp
  note eq = pf_update_vf_ptes_eq [OF nd assms(8) this rg sg]
  obtain n s' where r: "intel_iov_ggtt_pf_update_vf_ptes E g vf off 0 nc [pte] s = (Inr n, s')"
  proof -
    obtain s' where "i915_ggtt_sgtable_update_ptes E vf ?a (Some (copies True pte (Suc (unat nc))))
        (unat (if nc \<noteq> 0 then nc + of_nat (length [pte]) else of_nat (length [pte])))
        (prepare_pattern_pte (hd [pte]) (of_nat vf)) (s\<lparr>allocs := Suc (Suc (allocs s))\<rparr>) = (Inr (), s')"
      using cpu by blast
    from that eq [unfolded Let_def this prod.case sum.case] show thesis by blast
  qed
  obtain addrs where a: "pf_sg_ptes 0 nc [pte] = Inr addrs" "length addrs = unat nc + 1"
    "ggtt_ptes s' = write_ptes (ggtt_ptes s) (node_page node + unat off)
       (map (\<lambda>a. prepare_pattern_pte pte (of_nat vf) OR a) addrs)"
    using pf_update_vf_ptes_success [OF assms(1,2) off _ assms(6) r] by auto
  have j: "Suc j < length addrs" using assms(9) a(2) by simp
  have "node_page node + node_pages node + j = node_page node + unat off + Suc j" using assms(4) by simp
  then have "ggtt_ptes s' (node_page node + node_pages node + j) =
      prepare_pattern_pte pte (of_nat vf) OR addrs ! Suc j"
    using a(3) j write_ptes_in [of "Suc j" "map (\<lambda>a. prepare_pattern_pte pte (of_nat vf) OR a) addrs"] by simp
  with r pf_sg_ptes_addr [OF a(1) nth_mem [OF j] assms(6)] unat_take_bit_vfid [OF assms(3)] show ?thesis
    by (auto simp: pte_vfid_pattern)
qed


definition two_page_state :: i915_state where
  "two_page_state = upd_config GT_PRIMARY 1
     (\<lambda>c. c\<lparr>ggtt_region := Some \<lparr>node_start = 0x1000000, node_size = 0x2000\<rparr>\<rparr>) fresh_state"

lemma two_page_region:
  "ggtt_region (config GT_PRIMARY 1 two_page_state) = Some \<lparr>node_start = 0x1000000, node_size = 0x2000\<rparr>"
  "region_ok \<lparr>node_start = 0x1000000, node_size = 0x2000\<rparr>"
  by (simp_all add: two_page_state_def region_ok_def)

theorem pf_update_escapes_region_witness:
  "\<exists>n s'. intel_iov_ggtt_pf_update_vf_ptes quiet_env GT_PRIMARY 1 1 0 2 [0x7001] two_page_state = (Inr n, s') \<and>
     unat (pte_vfid (ggtt_ptes s' 0x1003)) = 1"
  using pf_update_escapes_region [OF two_page_region, of 1 2 quiet_env 1 "0x7001"]
  by (simp add: quiet_env_def)


section \<open>Saving and restoring the shadow\<close>

definition intel_iov_ggtt_shadow_save ::
    "iov_env \<Rightarrow> intel_gt_type \<Rightarrow> nat \<Rightarrow> u64 list option \<Rightarrow> u64 \<Rightarrow> bool \<Rightarrow> i915_state \<Rightarrow>
     u64 res \<times> u64 list option" where
  "intel_iov_ggtt_shadow_save E g vf buf sz no_vfid s =
     (if shadows_ggtt (gts s g) = None then (Inr 0, buf)
      else let need = ucast (ggtt_size_to_ptes_size (node_size (vf_ggtt_node E g vf s)))
      in if buf = None \<and> sz = 0 then (Inr need, buf)
         else if buf = None \<or> sz = 0 then (Inl EINVAL, buf)
         else if sz > need then (Inl ENOSPC, buf)
         else let n = unat sz div 8;
                  ptes = take n (case shadow_ptes g vf s of None \<Rightarrow> [] | Some xs \<Rightarrow> xs);
                  out = (if no_vfid then ggtt_pte_clear_vfid ptes else ptes)
              in (Inr sz, map_option (\<lambda>b. out @ drop n b) buf))"

text \<open>
  The loop of \<open>pf_ggtt_shadow_restore_ggtt\<close> collects PTEs with the same flags and writes them
  when the flags change, and at the end. When they change it frees the scatter list but goes on to
  add to it, which has no defined effect: the result is \<open>None\<close>. The address passed to the write is
  the one after the collected PTEs.
\<close>

primrec restore_ggtt_loop ::
    "iov_env \<Rightarrow> intel_gt_type \<Rightarrow> nat \<Rightarrow> nat \<Rightarrow> u64 \<Rightarrow> u64 list \<Rightarrow> u64 \<Rightarrow> i915_state \<Rightarrow>
     (unit res \<times> i915_state) option" where
  "restore_ggtt_loop E g vf 0 ggtt_addr st pte_flags s =
     Some (i915_ggtt_sgtable_update_ptes E vf ggtt_addr (Some st) (length st) pte_flags s)"
| "restore_ggtt_loop E g vf (Suc n) ggtt_addr st pte_flags s =
     (let pte = intel_iov_ggtt_shadow_get_pte g vf ggtt_addr s;
          new_pte_flags = pte AND NOT GEN12_GGTT_PTE_ADDR_MASK
      in if st \<noteq> [] \<and> new_pte_flags \<noteq> pte_flags
         then (case i915_ggtt_sgtable_update_ptes E vf ggtt_addr (Some st) (length st) pte_flags s of
                 (Inl e, s1) \<Rightarrow> Some (Inl e, s1)
               | (Inr u, s1) \<Rightarrow>
                   (case kmalloc E s1 of (ok, s2) \<Rightarrow> if ok then None else Some (Inl ENOMEM, s2)))
         else restore_ggtt_loop E g vf n (ggtt_addr + I915_GTT_PAGE_SIZE_4K) (sg_add_pte pte st)
                new_pte_flags s)"

definition pf_ggtt_shadow_restore_ggtt ::
    "iov_env \<Rightarrow> intel_gt_type \<Rightarrow> nat \<Rightarrow> i915_state \<Rightarrow> (unit res \<times> i915_state) option" where
  "pf_ggtt_shadow_restore_ggtt E g vf s =
     (if shadows_ggtt (gts s g) = None then Some (Inr (), s)
      else let node = vf_ggtt_node E g vf s
      in case kmalloc E s of (ok, s1) \<Rightarrow>
           if \<not> ok then Some (Inl ENOMEM, s1)
           else case kmalloc E s1 of (ok, s2) \<Rightarrow>
             if \<not> ok then Some (Inl ENOMEM, s2)
             else restore_ggtt_loop E g vf (unat (ggtt_size_to_ptes_size (node_size node)) div 8)
                    (node_start node) [] 0 s2)"

primrec shadow_restore_loop ::
    "intel_gt_type \<Rightarrow> nat \<Rightarrow> u64 list \<Rightarrow> bool \<Rightarrow> u64 \<Rightarrow> i915_state \<Rightarrow> i915_state" where
  "shadow_restore_loop g vf [] new_vfid ggtt_addr s = s"
| "shadow_restore_loop g vf (pte # buf) new_vfid ggtt_addr s =
     shadow_restore_loop g vf buf new_vfid (ggtt_addr + I915_GTT_PAGE_SIZE_4K)
       (intel_iov_ggtt_shadow_set_pte g vf ggtt_addr
          (if new_vfid then pte OR i915_ggtt_prepare_vf_pte (of_nat vf) else pte) s)"

definition intel_iov_ggtt_shadow_restore ::
    "iov_env \<Rightarrow> intel_gt_type \<Rightarrow> nat \<Rightarrow> u64 list \<Rightarrow> bool \<Rightarrow> i915_state \<Rightarrow> (nat res \<times> i915_state) option" where
  "intel_iov_ggtt_shadow_restore E g vf buf new_vfid s =
     (if shadows_ggtt (gts s g) = None then Some (Inr 0, s)
      else let node = vf_ggtt_node E g vf s
      in if 8 * length buf > unat (ggtt_size_to_ptes_size (node_size node)) then Some (Inl ENOSPC, s)
         else if buf = [] then Some (Inl EINVAL, s)
         else map_option (\<lambda>(r, s1). (case r of Inl e \<Rightarrow> Inl e | Inr u \<Rightarrow> Inr (8 * length buf), s1))
           (pf_ggtt_shadow_restore_ggtt E g vf
             (shadow_restore_loop g vf buf new_vfid (node_start node) s)))"

lemma restore_ggtt_loop_uniform:
  assumes "\<forall>k < n. intel_iov_ggtt_shadow_get_pte g vf (a + of_nat k * 4096) s AND NOT GEN12_GGTT_PTE_ADDR_MASK = flags"
    and "st \<noteq> [] \<Longrightarrow> pte_flags = flags" "st \<noteq> [] \<or> 0 < n"
  shows "restore_ggtt_loop E g vf n a st pte_flags s =
    Some (i915_ggtt_sgtable_update_ptes E vf (a + of_nat n * 4096)
      (Some (st @ map (\<lambda>k. pte_addr (intel_iov_ggtt_shadow_get_pte g vf (a + of_nat k * 4096) s)) [0..<n]))
      (length st + n) flags s)"
  using assms
proof (induction n arbitrary: a st pte_flags)
  case (Suc n)
  let ?p = "intel_iov_ggtt_shadow_get_pte g vf a s"
  have f: "?p AND NOT GEN12_GGTT_PTE_ADDR_MASK = flags" using Suc.prems(1) [rule_format, of 0] by simp
  have "\<forall>k < n. intel_iov_ggtt_shadow_get_pte g vf ((a + 4096) + of_nat k * 4096) s AND NOT GEN12_GGTT_PTE_ADDR_MASK = flags"
  proof (intro allI impI)
    fix k assume "k < n"
    then show "intel_iov_ggtt_shadow_get_pte g vf ((a + 4096) + of_nat k * 4096) s AND NOT GEN12_GGTT_PTE_ADDR_MASK = flags"
      using Suc.prems(1) [rule_format, of "Suc k"] by (simp add: algebra_simps)
  qed
  from Suc.IH [OF this, of "st @ [pte_addr ?p]" flags] f Suc.prems(2) show ?case
    by (auto simp: Let_def sg_add_pte_def sg_add_ptes_eq upt_conv_Cons map_Suc_upt [symmetric] comp_def
        algebra_simps simp del: upt_Suc)
qed simp


lemma pte_split: "(pte AND NOT GEN12_GGTT_PTE_ADDR_MASK) OR pte_addr pte = pte"
  by (rule bit_word_eqI)
    (auto simp: GEN12_GGTT_PTE_ADDR_MASK_def pte_gfn_def FIELD_GET_def bit_simps)

lemma shadow_idx:
  assumes "region_ok node" "k < node_pages node"
  shows "unat (ggtt_shadow_pte_idx node (node_start node + of_nat k * 4096)) = k"
proof -
  have k: "k < 2 ^ 20"
    using assms div_le_mono [of "unat (node_size node)" "2 ^ 32" 4096] by (simp add: region_ok_def)
  then have "unat (of_nat k * 4096 :: u64) = k * 4096" by (simp add: unat_word_ariths unat_of_nat)
  then have "unat (of_nat k * 4096 div 4096 :: u64) = k" by (simp add: unat_div)
  then have "of_nat k * 4096 div 4096 = (of_nat k :: u64)"
    using k by (simp add: word_unat_eq_iff unat_of_nat)
  moreover have "unat (of_nat k * 8 :: u64) = k * 8" using k by (simp add: unat_word_ariths unat_of_nat)
  then have "unat (of_nat k * 8 div 8 :: u64) = k" by (simp add: unat_div)
  ultimately show ?thesis
    using k by (simp add: ggtt_shadow_pte_idx_def pf_ggtt_addr_to_vf_pte_offset_def
        ggtt_addr_to_pte_offset_def unat_ucast)
qed

text \<open>
  Restoring the page table of a VF from its shadow writes the PTEs not to the VF's
  region, whose PTEs stay as they were, but to the pages that follow it: the address given to the
  write has already been advanced past the collected PTEs. (Stated for a shadow whose PTEs all have
  the same flags.)
\<close>

theorem shadow_restore_misplaced:
  assumes "ggtt_region (config GT_PRIMARY vf s) = Some node" "region_ok node"
    and "unat (node_start node) + unat (node_size node) < 2 ^ 32"
    and "shadow_ptes GT_PRIMARY vf s = Some xs" "length xs = node_pages node"
    and "\<forall>x \<in> set xs. x AND NOT GEN12_GGTT_PTE_ADDR_MASK = flags"
    and "\<not> env_bind_ready E" "\<forall>n. env_alloc E n"
  shows "\<exists>s'. pf_ggtt_shadow_restore_ggtt E GT_PRIMARY vf s = Some (Inr (), s') \<and>
    (\<forall>k < node_pages node. ggtt_ptes s' (node_page node + node_pages node + k) = xs ! k) \<and>
    (\<forall>k < node_pages node. ggtt_ptes s' (node_page node + k) = ggtt_ptes s (node_page node + k))"
proof -
  let ?n = "node_pages node"
  let ?s = "s\<lparr>allocs := Suc (Suc (allocs s))\<rparr>"
  have sz: "?n * 4096 = unat (node_size node)" and pos: "0 < ?n" and dv: "4096 dvd unat (node_start node)"
    using assms(2) by (auto simp: region_ok_def intro!: div_greater_zero_iff [THEN iffD2] dvd_imp_le)
  have get: "intel_iov_ggtt_shadow_get_pte GT_PRIMARY vf (node_start node + of_nat k * 4096) ?s = xs ! k" if "k < ?n" for k
    using assms(1,4,5) that shadow_idx [OF assms(2) that]
    by (simp add: intel_iov_ggtt_shadow_get_pte_def shadow_ptes_def)
  have "unat (ggtt_size_to_ptes_size (node_size node)) div 8 = ?n"
    using assms(2) unat_ptes_size [of "node_size node"] by (simp add: region_ok_def)
  moreover have "shadows_ggtt (gts s GT_PRIMARY) \<noteq> None"
    using assms(4) by (auto simp: shadow_ptes_def split: option.splits)
  ultimately have "pf_ggtt_shadow_restore_ggtt E GT_PRIMARY vf s =
      restore_ggtt_loop E GT_PRIMARY vf ?n (node_start node) [] 0 ?s"
    using assms(1,8) by (auto simp: pf_ggtt_shadow_restore_ggtt_def vf_ggtt_node_def kmalloc_def Let_def)
  also have "\<dots> = Some (i915_ggtt_sgtable_update_ptes E vf (node_start node + of_nat ?n * 4096)
      (Some (map (\<lambda>k. pte_addr (xs ! k)) [0..<?n])) ?n flags ?s)"
  proof -
    have f: "\<forall>k < ?n. intel_iov_ggtt_shadow_get_pte GT_PRIMARY vf (node_start node + of_nat k * 4096) ?s
        AND NOT GEN12_GGTT_PTE_ADDR_MASK = flags"
      using get assms(5,6) by simp
    have m: "map (\<lambda>k. pte_addr (intel_iov_ggtt_shadow_get_pte GT_PRIMARY vf
        (node_start node + of_nat k * 4096) ?s)) [0..<?n] = map (\<lambda>k. pte_addr (xs ! k)) [0..<?n]"
      using get by (intro map_cong) auto
    show ?thesis
      using restore_ggtt_loop_uniform [OF f _ disjI2 [OF pos], of "[]" 0 E]
      by (simp only: m append_Nil list.size(3) add_0 HOL.simp_thms refl)
  qed
  finally have eq: "pf_ggtt_shadow_restore_ggtt E GT_PRIMARY vf s =
      Some (i915_ggtt_sgtable_update_ptes E vf (node_start node + of_nat ?n * 4096)
        (Some (map (\<lambda>k. pte_addr (xs ! k)) [0..<?n])) (length (map (\<lambda>k. pte_addr (xs ! k)) [0..<?n])) flags ?s)"
    by simp
  obtain s' where s': "i915_ggtt_sgtable_update_ptes E vf (node_start node + of_nat ?n * 4096)
        (Some (map (\<lambda>k. pte_addr (xs ! k)) [0..<?n])) (length (map (\<lambda>k. pte_addr (xs ! k)) [0..<?n])) flags ?s = (Inr (), s')"
    using assms(7) pos by (simp add: i915_ggtt_sgtable_update_ptes_def sgtable_update_ptes_via_cpu_def)
  have "unat (of_nat ?n * 4096 :: u64) = unat (node_size node)"
    using assms(3) sz by (simp add: unat_word_ariths unat_of_nat)
  then have "unat (node_start node + of_nat ?n * 4096) = unat (node_start node) + unat (node_size node)"
    using assms(3) by (simp add: unat_word_ariths)
  then have a: "unat (node_start node + of_nat ?n * 4096) < 2 ^ 32"
      "unat (node_start node + of_nat ?n * 4096) div 4096 = node_page node + ?n"
    using assms(3) dv by (simp_all add: div_plus_div_distrib_dvd_left)
  have "flags OR pte_addr (xs ! k) = xs ! k" if "k < ?n" for k
    using pte_split [of "xs ! k"] assms(6) nth_mem [of k xs] that by (metis assms(5))
  then have "map (\<lambda>x. flags OR x) (map (\<lambda>k. pte_addr (xs ! k)) [0..<?n]) = xs"
    using assms(5) by (intro nth_equalityI) simp_all
  then have "ggtt_ptes s' = write_ptes (ggtt_ptes s) (node_page node + ?n) xs"
    using update_ptes_success [OF s' a(1)] a(2) by simp
  with eq s' assms(5) show ?thesis by (simp add: write_ptes_def)
qed

theorem shadow_restore_misplaced_witness:
  "\<exists>s'. pf_ggtt_shadow_restore_ggtt quiet_env GT_PRIMARY 1 shadow_state = Some (Inr (), s') \<and>
     (\<forall>k < 3. ggtt_ptes s' (5 + k) = 0)"
proof -
  have sh: "shadow_ptes GT_PRIMARY 1 shadow_state = Some [0, 0, 0]"
    and rg: "ggtt_region (config GT_PRIMARY 1 shadow_state) = Some \<lparr>node_start = 0x2000, node_size = 0x3000\<rparr>"
    by (simp_all add: shadow_state_def set_shadow_ptes_def shadow_ptes_def)
  show ?thesis
    using shadow_restore_misplaced [OF rg _ _ sh, of 0 quiet_env]
    by (auto simp: region_ok_def quiet_env_def nth_Cons' split: if_splits)
qed

end
