(* ===== verification/Iov_Prov_Ggtt.thy ===== *)
theory Iov_Prov_Ggtt
  imports Iov_Ggtt
begin

text \<open>
  Provisioning of GGTT regions (\<open>gt/iov/intel_iov_provisioning.c\<close>). The regions live in the
  configurations of the primary GT; the \<open>drm_mm\<close> range manager that places them is a parameter,
  with what the driver relies on as the predicate \<open>mm_insert_ok\<close>. The invariant \<open>ggtt_inv\<close> says
  that the regions of the VFs are page aligned, between the pin bias and \<open>GUC_GGTT_TOP\<close>, disjoint
  from each other and from the nodes of the PF; \<open>owner_inv\<close> that the PTEs of a region carry the
  number of its VF.
\<close>

section \<open>Operations\<close>

definition pf_get_ggtt_alignment :: u64 where "pf_get_ggtt_alignment = 4096"

definition pf_get_min_spare_ggtt :: u64 where "pf_get_min_spare_ggtt = 0x4000000"

definition GUC_GGTT_TOP :: u64 where "GUC_GGTT_TOP = 0xFEE00000"

definition pf_get_spare_ggtt :: "intel_gt_type \<Rightarrow> i915_state \<Rightarrow> u64" where
  "pf_get_spare_ggtt g s = max (spare_ggtt_size (spare (provisioning g s))) pf_get_min_spare_ggtt"

text \<open>\<open>check_round_up_overflow(a, b, &d)\<close>: the rounded value, or \<open>None\<close> on overflow.\<close>

definition check_round_up_overflow :: "u64 \<Rightarrow> u64 \<Rightarrow> u64 option" where
  "check_round_up_overflow a b =
     (if a = 0 then Some 0
      else let d = (a - 1) OR (b - 1) in if d = (- 1) then None else Some (d + 1))"

definition intel_iov_provisioning_set_spare_ggtt ::
    "intel_gt_type \<Rightarrow> u64 \<Rightarrow> i915_state \<Rightarrow> unit res \<times> i915_state" where
  "intel_iov_provisioning_set_spare_ggtt g sz s =
     (if sz \<noteq> 0 \<and> sz < pf_get_min_spare_ggtt then (Inl EINVAL, s)
      else let sz' = (case check_round_up_overflow sz pf_get_ggtt_alignment of
                        None \<Rightarrow> (- 1) | Some d \<Rightarrow> d)
           in (Inr (), upd_prov g (\<lambda>p. p\<lparr>spare := (spare p)\<lparr>spare_ggtt_size := sz'\<rparr>\<rparr>) s))"

definition intel_iov_provisioning_get_spare_ggtt :: "intel_gt_type \<Rightarrow> i915_state \<Rightarrow> u64" where
  "intel_iov_provisioning_get_spare_ggtt g s = pf_get_spare_ggtt g s"

text \<open>The nodes of VFs in the range manager, and the holes between all nodes.\<close>

definition vf_nodes :: "i915_state \<Rightarrow> drm_mm_node list" where
  "vf_nodes s = List.map_filter (\<lambda>vf. ggtt_region (config GT_PRIMARY vf s)) [1..<Suc (pf_get_totalvfs s)]"

definition mm_holes :: "iov_env \<Rightarrow> i915_state \<Rightarrow> (u64 \<times> u64) list" where
  "mm_holes E s = env_mm_holes E (ggtt_pf_nodes s @ vf_nodes s)"

text \<open>The part of a hole that can be provisioned, \<open>None\<close> when the loop skips the hole.\<close>

definition usable_hole :: "u64 \<Rightarrow> u64 \<times> u64 \<Rightarrow> u64 option" where
  "usable_hole hole_min_start h =
     (let hole_start = ALIGN (max (fst h) hole_min_start) pf_get_ggtt_alignment;
          hole_end = ALIGN_DOWN (snd h) pf_get_ggtt_alignment
      in if hole_start \<ge> hole_end then None else Some (hole_end - hole_start))"

definition pf_get_free_ggtt :: "iov_env \<Rightarrow> intel_gt_type \<Rightarrow> i915_state \<Rightarrow> u64" where
  "pf_get_free_ggtt E g s =
     (let sp = pf_get_spare_ggtt g s;
          free_ggtt = fold (\<lambda>h free. case usable_hole (ggtt_pin_bias s) h of
                              None \<Rightarrow> free | Some sz \<Rightarrow> free + sz) (mm_holes E s) 0
      in if free_ggtt > sp then free_ggtt - sp else 0)"

definition max_ggtt_step :: "u64 \<Rightarrow> u64 \<times> u64 \<Rightarrow> u64 \<times> u64 \<Rightarrow> u64 \<times> u64" where
  "max_ggtt_step bias h acc =
     (case acc of (sp, max_hole) \<Rightarrow>
        case usable_hole bias h of
          None \<Rightarrow> (sp, max_hole)
        | Some hole_size \<Rightarrow>
            (sp - min sp (min hole_size max_hole), max max_hole hole_size))"

definition pf_get_max_ggtt :: "iov_env \<Rightarrow> intel_gt_type \<Rightarrow> i915_state \<Rightarrow> u64" where
  "pf_get_max_ggtt E g s =
     (case fold (max_ggtt_step (ggtt_pin_bias s)) (mm_holes E s) (pf_get_spare_ggtt g s, 0) of
        (sp, max_hole) \<Rightarrow> if max_hole > sp then max_hole - sp else 0)"

definition pf_is_valid_config_ggtt :: "intel_gt_type \<Rightarrow> nat \<Rightarrow> i915_state \<Rightarrow> bool" where
  "pf_is_valid_config_ggtt g vf s \<longleftrightarrow> ggtt_region (config g vf s) \<noteq> None"

definition pf_push_config_ggtt_gt ::
    "iov_env \<Rightarrow> intel_gt_type \<Rightarrow> nat \<Rightarrow> u64 \<Rightarrow> u64 \<Rightarrow> i915_state \<Rightarrow> unit res \<times> i915_state" where
  "pf_push_config_ggtt_gt E g vf start sz s =
     (if \<not> pf_needs_push_config g vf s then (Inr (), s)
      else case guc_update_vf_klv64 E g vf GUC_KLV_VF_CFG_GGTT_SIZE_KEY sz s of
        (Inl e, s1) \<Rightarrow> (Inl e, s1)
      | (Inr u, s1) \<Rightarrow> guc_update_vf_klv64 E g vf GUC_KLV_VF_CFG_GGTT_START_KEY start s1)"

text \<open>Both GTs are told, and the first error is returned.\<close>

definition pf_push_config_ggtt ::
    "iov_env \<Rightarrow> intel_gt_type \<Rightarrow> nat \<Rightarrow> u64 \<Rightarrow> u64 \<Rightarrow> i915_state \<Rightarrow> unit res \<times> i915_state" where
  "pf_push_config_ggtt E g vf start sz s =
     (case pf_push_config_ggtt_gt E g vf start sz s of (err, s1) \<Rightarrow>
        if has_media_gt s
        then (case pf_push_config_ggtt_gt E GT_MEDIA vf start sz s1 of
                (err2, s2) \<Rightarrow> (if is_err err then err else err2, s2))
        else (err, s1))"

definition range_overflows :: "u64 \<Rightarrow> u64 \<Rightarrow> u64 \<Rightarrow> bool" where
  "range_overflows start sz mx \<longleftrightarrow> start \<ge> mx \<or> sz > mx - start"

text \<open>
  \<open>i915_gem_gtt_insert\<close> for a node that is not evictable: the guards of the source, then the range
  manager with its evictions, which take nodes of the PF only.
\<close>

definition i915_gem_gtt_insert ::
    "iov_env \<Rightarrow> u64 \<Rightarrow> u64 \<Rightarrow> u64 \<Rightarrow> u64 \<Rightarrow> i915_state \<Rightarrow> drm_mm_node res \<times> i915_state" where
  "i915_gem_gtt_insert E sz align start en s =
     (if range_overflows start sz en then (Inl ENOSPC, s)
      else if ALIGN start align > ALIGN_DOWN (en - sz) align then (Inl ENOSPC, s)
      else case env_mm_insert E (ggtt_pf_nodes s) (vf_nodes s) sz align start en of
        Inl e \<Rightarrow> (Inl e, s)
      | Inr (a, pf) \<Rightarrow> (Inr \<lparr>node_start = a, node_size = sz\<rparr>, s\<lparr>ggtt_pf_nodes := pf\<rparr>))"

text \<open>The block at the label \<open>release\<close>.\<close>

definition pf_release_ggtt ::
    "iov_env \<Rightarrow> intel_gt_type \<Rightarrow> nat \<Rightarrow> drm_mm_node \<Rightarrow> i915_state \<Rightarrow> i915_state" where
  "pf_release_ggtt E g vf node s =
     upd_config g vf (\<lambda>c. c\<lparr>ggtt_region := None\<rparr>)
       (intel_iov_ggtt_shadow_vf_free g vf (i915_ggtt_set_space_owner E 0 node s))"

definition pf_insert_ggtt ::
    "iov_env \<Rightarrow> intel_gt_type \<Rightarrow> nat \<Rightarrow> u64 \<Rightarrow> i915_state \<Rightarrow> unit res \<times> i915_state" where
  "pf_insert_ggtt E g vf sz s =
     (if sz > ggtt_total s then (Inl E2BIG, s)
      else if sz > pf_get_max_ggtt E g s then (Inl EDQUOT, s)
      else case i915_gem_gtt_insert E sz pf_get_ggtt_alignment (ggtt_pin_bias s) GUC_GGTT_TOP s of
        (Inl e, s1) \<Rightarrow> (Inl e, s1)
      | (Inr node, s1) \<Rightarrow>
          (case intel_iov_ggtt_shadow_vf_alloc E g vf node
              (upd_config g vf (\<lambda>c. c\<lparr>ggtt_region := Some node\<rparr>) s1) of
             (Inl e, s2) \<Rightarrow> (Inl e, pf_release_ggtt E g vf node s2)
           | (Inr u, s2) \<Rightarrow>
               (case pf_push_config_ggtt E g vf (node_start node) (node_size node)
                   (i915_ggtt_set_space_owner E vf node s2) of
                  (Inl e, s3) \<Rightarrow> (Inl e, pf_release_ggtt E g vf node s3)
                | (Inr u, s3) \<Rightarrow> (Inr (), s3))))"

definition pf_provision_ggtt ::
    "iov_env \<Rightarrow> intel_gt_type \<Rightarrow> nat \<Rightarrow> u64 \<Rightarrow> i915_state \<Rightarrow> unit res \<times> i915_state" where
  "pf_provision_ggtt E g vf sz s =
     (if g = GT_MEDIA then (Inl ENODEV, s)
      else case check_round_up_overflow sz pf_get_ggtt_alignment of
        None \<Rightarrow> (Inl EOVERFLOW, s)
      | Some sz \<Rightarrow>
          (case ggtt_region (config g vf s) of
             None \<Rightarrow> if sz = 0 then (Inr (), s) else pf_insert_ggtt E g vf sz s
           | Some node \<Rightarrow>
               if sz = node_size node then (Inr (), s)
               else (case pf_push_config_ggtt E g vf 0 0 s of
                  (Inl e, s1) \<Rightarrow> (Inl e, pf_release_ggtt E g vf node s1)
                | (Inr u, s1) \<Rightarrow>
                    (let s2 = pf_release_ggtt E g vf node s1
                     in if sz = 0 then (Inr (), s2) else pf_insert_ggtt E g vf sz s2))))"

definition intel_iov_provisioning_set_ggtt ::
    "iov_env \<Rightarrow> intel_gt_type \<Rightarrow> nat \<Rightarrow> u64 \<Rightarrow> i915_state \<Rightarrow> unit res \<times> i915_state" where
  "intel_iov_provisioning_set_ggtt E g vf sz s =
     (let reprovisioning = (pf_is_valid_config_ggtt g vf s \<or> sz \<noteq> 0)
      in case pf_provision_ggtt E g vf sz s of
           (Inl e, s1) \<Rightarrow> (Inl e, s1)
         | (Inr u, s1) \<Rightarrow> (Inr (), if reprovisioning then pf_mark_manual_provisioning s1 else s1))"

definition intel_iov_provisioning_get_ggtt :: "intel_gt_type \<Rightarrow> nat \<Rightarrow> i915_state \<Rightarrow> u64" where
  "intel_iov_provisioning_get_ggtt g vf s =
     (let node = (if g = GT_MEDIA then ggtt_region (config GT_PRIMARY vf s) else ggtt_region (config g vf s))
      in case node of None \<Rightarrow> 0 | Some n \<Rightarrow> node_size n)"

definition intel_iov_provisioning_query_free_ggtt :: "iov_env \<Rightarrow> intel_gt_type \<Rightarrow> i915_state \<Rightarrow> u64" where
  "intel_iov_provisioning_query_free_ggtt E g s = pf_get_free_ggtt E g s"

definition intel_iov_provisioning_query_max_ggtt :: "iov_env \<Rightarrow> intel_gt_type \<Rightarrow> i915_state \<Rightarrow> u64" where
  "intel_iov_provisioning_query_max_ggtt E g s = pf_get_max_ggtt E g s"


section \<open>The invariants\<close>

definition node_range :: "drm_mm_node \<Rightarrow> nat set" where
  "node_range n = {unat (node_start n)..<unat (node_start n) + unat (node_size n)}"

text \<open>
  What the driver relies on of \<open>drm_mm\<close> and of eviction: a node is put inside the requested range,
  page aligned when the request is, away from the VFs' nodes and from the PF nodes that are left;
  evictions only remove PF nodes.
\<close>

definition mm_insert_ok :: "iov_env \<Rightarrow> bool" where
  "mm_insert_ok E \<longleftrightarrow>
     (\<forall>pf vfs sz align start en a pf'.
        env_mm_insert E pf vfs sz align start en = Inr (a, pf') \<longrightarrow>
        unat start + unat sz \<le> unat en \<longrightarrow> 4096 dvd unat start \<longrightarrow> 4096 dvd unat sz \<longrightarrow>
          4096 dvd unat a \<and> unat start \<le> unat a \<and> unat a + unat sz \<le> unat en \<and> set pf' \<subseteq> set pf \<and>
          (\<forall>n \<in> set (pf' @ vfs). node_range \<lparr>node_start = a, node_size = sz\<rparr> \<inter> node_range n = {}))"

definition binder_ok :: "iov_env \<Rightarrow> bool" where
  "binder_ok E \<longleftrightarrow> (env_require_binder E \<and> env_bind_ready E \<longrightarrow> env_bind_ce E \<and> (\<forall>i. env_bind_ok E i))"

abbreviation region :: "nat \<Rightarrow> i915_state \<Rightarrow> drm_mm_node option" where
  "region vf s \<equiv> ggtt_region (config GT_PRIMARY vf s)"

definition node_placed :: "u64 \<Rightarrow> drm_mm_node \<Rightarrow> bool" where
  "node_placed bias n \<longleftrightarrow> 4096 dvd unat (node_start n) \<and> 4096 dvd unat (node_size n) \<and>
     0 < unat (node_size n) \<and> unat bias \<le> unat (node_start n) \<and>
     unat (node_start n) + unat (node_size n) \<le> unat GUC_GGTT_TOP"

definition ggtt_inv :: "i915_state \<Rightarrow> bool" where
  "ggtt_inv s \<longleftrightarrow>
     (\<forall>vf n. 1 \<le> vf \<and> vf \<le> pf_get_totalvfs s \<and> region vf s = Some n \<longrightarrow>
        node_placed (ggtt_pin_bias s) n \<and>
        (\<forall>m \<in> set (ggtt_pf_nodes s). node_range n \<inter> node_range m = {}) \<and>
        (\<forall>vf' m. 1 \<le> vf' \<and> vf' \<le> pf_get_totalvfs s \<and> vf' \<noteq> vf \<and> region vf' s = Some m \<longrightarrow>
           node_range n \<inter> node_range m = {}))"

text \<open>The pages of a region belong to its VF, for every VF outside \<open>X\<close>.\<close>

definition owner_inv :: "nat set \<Rightarrow> i915_state \<Rightarrow> bool" where
  "owner_inv X s \<longleftrightarrow>
     (\<forall>vf n k. 1 \<le> vf \<and> vf \<le> pf_get_totalvfs s \<and> vf \<notin> X \<and> region vf s = Some n \<and>
        node_page n \<le> k \<and> k < node_page n + node_pages n \<longrightarrow> unat (pte_vfid (ggtt_ptes s k)) = vf)"

lemma set_vf_nodes: "n \<in> set (vf_nodes s) \<longleftrightarrow> (\<exists>vf. 1 \<le> vf \<and> vf \<le> pf_get_totalvfs s \<and> region vf s = Some n)"
  by (force simp: vf_nodes_def List.map_filter_def less_Suc_eq_le simp del: upt_Suc)

lemma ggtt_inv_cong:
  assumes "\<And>vf. region vf s' = region vf s" "ggtt_pf_nodes s' = ggtt_pf_nodes s"
    and "ggtt_pin_bias s' = ggtt_pin_bias s" "pf_get_totalvfs s' = pf_get_totalvfs s"
  shows "ggtt_inv s' \<longleftrightarrow> ggtt_inv s"
  unfolding ggtt_inv_def assms by (rule refl)

lemma owner_inv_cong:
  assumes "\<And>vf. region vf s' = region vf s" "ggtt_ptes s' = ggtt_ptes s" "pf_get_totalvfs s' = pf_get_totalvfs s"
  shows "owner_inv X s' \<longleftrightarrow> owner_inv X s"
  unfolding owner_inv_def assms by (rule refl)

lemma ggtt_inv_guc: "guc_only s s' \<Longrightarrow> ggtt_inv s' \<longleftrightarrow> ggtt_inv s"
  by (rule ggtt_inv_cong) (simp_all add: guc_onlyD)

lemma owner_inv_guc: "guc_only s s' \<Longrightarrow> owner_inv X s' \<longleftrightarrow> owner_inv X s"
  by (rule owner_inv_cong) (simp_all add: guc_onlyD)

lemma ggtt_inv_pt: "pt_only s s' \<Longrightarrow> ggtt_inv s' \<longleftrightarrow> ggtt_inv s"
  by (rule ggtt_inv_cong) (simp_all add: pt_onlyD)

lemma owner_inv_pt: "pt_only s s' \<Longrightarrow> ggtt_ptes s' = ggtt_ptes s \<Longrightarrow> owner_inv X s' \<longleftrightarrow> owner_inv X s"
  by (rule owner_inv_cong) (simp_all add: pt_onlyD)

lemma page_in_node:
  assumes "node_placed b n" "node_page n \<le> k" "k < node_page n + node_pages n"
  shows "4096 * k \<in> node_range n"
proof -
  have "node_page n * 4096 = unat (node_start n)" "node_pages n * 4096 = unat (node_size n)"
    using assms(1) by (simp_all add: node_placed_def)
  moreover have "node_page n * 4096 \<le> k * 4096" "k * 4096 < (node_page n + node_pages n) * 4096"
    using assms(2,3) by simp_all
  ultimately show ?thesis by (simp add: node_range_def algebra_simps)
qed

lemma set_space_owner_write:
  assumes "binder_ok E"
  shows "ggtt_ptes (i915_ggtt_set_space_owner E vf node s) =
    write_ptes (ggtt_ptes s) (node_page node) (replicate (node_pages node) (i915_ggtt_prepare_vf_pte (of_nat vf)))"
proof (cases "env_require_binder E \<and> env_bind_ready E")
  case True
  with assms gen8_ggtt_bind_ptes_ok [of E] show ?thesis
    by (simp add: binder_ok_def i915_ggtt_set_space_owner_def i915_ggtt_sgtable_update_ptes_def
        unat_drop_bit_12 bind_entries_def Let_def)
next
  case False
  then show ?thesis by (auto simp: i915_ggtt_set_space_owner_def Let_def)
qed

text \<open>Whatever the binder requests do, the pages before the first failing one are written.\<close>

lemma set_space_owner_prefix:
  "\<exists>k \<le> node_pages node. ggtt_ptes (i915_ggtt_set_space_owner E vf node s) =
     write_ptes (ggtt_ptes s) (node_page node) (replicate k (i915_ggtt_prepare_vf_pte (of_nat vf)))"
proof (cases "env_require_binder E \<and> env_bind_ready E")
  case False
  then show ?thesis by (intro exI [of _ "node_pages node"]) (auto simp: i915_ggtt_set_space_owner_def Let_def)
next
  case bind: True
  let ?pte = "i915_ggtt_prepare_vf_pte (of_nat vf)" and ?m = "ggtt_ptes s"
  obtain ok s1 where b: "gen8_ggtt_bind_ptes E (unat (drop_bit 12 (node_start node))) None (node_pages node) ?pte s = (ok, s1)"
    by force
  have pre: "\<exists>k \<le> node_pages node. ggtt_ptes s1 = write_ptes ?m (node_page node) (replicate k ?pte)"
  proof (cases "node_pages node = 0 \<or> \<not> env_bind_ce E")
    case True
    then have "ggtt_ptes s1 = ?m" using b by (auto simp: gen8_ggtt_bind_ptes_def split: if_splits)
    then show ?thesis by (intro exI [of _ 0]) simp
  next
    case False
    then obtain m where l: "bind_ptes_loop E (node_page node) None (node_pages node) ?pte ?m = (ok, m)"
      and s1: "s1 = s\<lparr>ggtt_ptes := m\<rparr>"
      using b by (auto simp: gen8_ggtt_bind_ptes_def unat_drop_bit_12 split: prod.splits)
    from bind_ptes_loop_prefix [OF l] s1 show ?thesis by (auto simp: bind_entries_def min_def)
  qed
  have full: "write_ptes (write_ptes ?m i (replicate k ?pte)) i (replicate n ?pte) = write_ptes ?m i (replicate n ?pte)"
    if "k \<le> n" for i k n
    using that by (auto simp: write_ptes_def fun_eq_iff)
  have res: "ggtt_ptes (i915_ggtt_set_space_owner E vf node s) =
      (if ok then write_ptes (ggtt_ptes s2) (node_page node) (replicate (node_pages node) ?pte) else ggtt_ptes s1)"
    if "s2 = (if vf \<noteq> PFID then sgtable_update_shadow_ggtt vf (node_start node) None (node_pages node) ?pte s1 else s1)"
    for s2
    using bind b that by (simp add: i915_ggtt_set_space_owner_def i915_ggtt_sgtable_update_ptes_def Let_def)
  from pre show ?thesis
  proof (elim exE conjE)
    fix k assume k: "k \<le> node_pages node" "ggtt_ptes s1 = write_ptes ?m (node_page node) (replicate k ?pte)"
    have "ggtt_ptes (if vf \<noteq> PFID then sgtable_update_shadow_ggtt vf (node_start node) None (node_pages node) ?pte s1 else s1)
        = ggtt_ptes s1" by simp
    then show ?thesis using res [OF refl] k full by (cases ok) auto
  qed
qed

section \<open>Steps\<close>

lemma region_upd [simp]:
  "region vf' (upd_config GT_PRIMARY vf (\<lambda>c. c\<lparr>ggtt_region := r\<rparr>) s) = (if vf' = vf then r else region vf' s)"
  by simp

lemma pt_only_vf_free: "pt_only s (intel_iov_ggtt_shadow_vf_free g vf s)"
  by (simp add: intel_iov_ggtt_shadow_vf_free_def)

lemma vf_free_ptes [simp]: "ggtt_ptes (intel_iov_ggtt_shadow_vf_free g vf s) = ggtt_ptes s"
  by (simp add: intel_iov_ggtt_shadow_vf_free_def)

lemma vf_alloc_pt:
  assumes "intel_iov_ggtt_shadow_vf_alloc E g vf node s = (r, s')"
  shows "pt_only s s'" "ggtt_ptes s' = ggtt_ptes s"
proof -
  have "pt_only s s' \<and> ggtt_ptes s' = ggtt_ptes s"
    using assms pt_only_trans [OF pt_only_allocs pt_only_set_shadow]
    by (auto simp: intel_iov_ggtt_shadow_vf_alloc_def kmalloc_def split: if_splits)
  then show "pt_only s s'" "ggtt_ptes s' = ggtt_ptes s" by auto
qed

lemma guc_only_push_ggtt_gt: "pf_push_config_ggtt_gt E g vf a n s = (r, s') \<Longrightarrow> guc_only s s'"
  by (auto simp: pf_push_config_ggtt_gt_def split: if_splits prod.splits sum.splits
      dest!: guc_only_vf_klv64 intro: guc_only_trans)

lemma guc_only_push_ggtt: "pf_push_config_ggtt E g vf a n s = (r, s') \<Longrightarrow> guc_only s s'"
  by (auto simp: pf_push_config_ggtt_def split: if_splits prod.splits
      dest!: guc_only_push_ggtt_gt intro: guc_only_trans)

lemma ggtt_inv_drop: "ggtt_inv s \<Longrightarrow> ggtt_inv (upd_config GT_PRIMARY vf (\<lambda>c. c\<lparr>ggtt_region := None\<rparr>) s)"
  unfolding ggtt_inv_def by (auto split: if_splits)

lemma ggtt_inv_release: "ggtt_inv s \<Longrightarrow> ggtt_inv (pf_release_ggtt E GT_PRIMARY vf node s)"
  unfolding pf_release_ggtt_def
  by (intro ggtt_inv_drop)
    (simp add: ggtt_inv_pt [OF pt_only_vf_free] ggtt_inv_pt [OF pt_only_set_space_owner])

text \<open>Writing the pages of one region does not touch those of the others.\<close>

lemma owner_inv_write:
  assumes "ggtt_inv s" "owner_inv X s" "region vf s = Some node" "1 \<le> vf" "vf \<le> pf_get_totalvfs s"
    and "pt_only s s'" "ggtt_ptes s' = write_ptes (ggtt_ptes s) (node_page node) (replicate j p)" "j \<le> node_pages node"
  shows "owner_inv (insert vf X) s'"
  unfolding owner_inv_def
proof (intro allI impI, elim conjE)
  fix v n k
  assume v: "1 \<le> v" "v \<le> pf_get_totalvfs s'" "v \<notin> insert vf X" "region v s' = Some n"
    and k: "node_page n \<le> k" "k < node_page n + node_pages n"
  then have v': "v \<le> pf_get_totalvfs s" "region v s = Some n" using assms(6) by (simp_all add: pt_onlyD)
  have "node_placed (ggtt_pin_bias s) n" "node_placed (ggtt_pin_bias s) node"
    and d: "node_range n \<inter> node_range node = {}"
    using assms(1,3-5) v v' unfolding ggtt_inv_def by blast+
  then have "\<not> (node_page node \<le> k \<and> k < node_page node + node_pages node)"
    using page_in_node [of _ n k] page_in_node [of _ node k] k by blast
  then have "ggtt_ptes s' k = ggtt_ptes s k" using assms(8) by (auto simp: assms(7) write_ptes_def)
  then show "unat (pte_vfid (ggtt_ptes s' k)) = v"
    using assms(2) v v' k unfolding owner_inv_def by simp
qed

lemma owner_inv_mono: "owner_inv X s \<Longrightarrow> X \<subseteq> Y \<Longrightarrow> owner_inv Y s"
  unfolding owner_inv_def by blast

lemma owner_inv_space:
  assumes "ggtt_inv s" "owner_inv X s" "region vf s = Some node" "1 \<le> vf" "vf \<le> pf_get_totalvfs s"
  shows "owner_inv (insert vf X) (i915_ggtt_set_space_owner E v node s)"
proof -
  obtain k where k: "k \<le> node_pages node" "ggtt_ptes (i915_ggtt_set_space_owner E v node s) =
      write_ptes (ggtt_ptes s) (node_page node) (replicate k (i915_ggtt_prepare_vf_pte (of_nat v)))"
    using set_space_owner_prefix by blast
  show ?thesis by (rule owner_inv_write [OF assms pt_only_set_space_owner k(2,1)])
qed

lemma owner_inv_release:
  assumes "ggtt_inv s" "owner_inv X s" "region vf s = Some node" "1 \<le> vf" "vf \<le> pf_get_totalvfs s"
  shows "owner_inv (X - {vf}) (pf_release_ggtt E GT_PRIMARY vf node s)"
proof -
  let ?s1 = "intel_iov_ggtt_shadow_vf_free GT_PRIMARY vf (i915_ggtt_set_space_owner E 0 node s)"
  have "owner_inv (insert vf X) ?s1"
    using owner_inv_space [OF assms] owner_inv_pt [OF pt_only_vf_free vf_free_ptes] by simp
  then show ?thesis
    unfolding pf_release_ggtt_def owner_inv_def by (auto split: if_splits)
qed

lemma owner_inv_set_owner:
  assumes "vf \<in> X \<or> binder_ok E" "ggtt_inv s" "owner_inv (insert vf X) s" "region vf s = Some node"
    and "1 \<le> vf" "vf \<le> pf_get_totalvfs s" "pf_get_totalvfs s < 8"
  shows "owner_inv X (i915_ggtt_set_space_owner E vf node s)"
proof (cases "vf \<in> X")
  case True
  then show ?thesis using owner_inv_space [OF assms(2-6), of E vf] by (simp add: insert_absorb)
next
  case False
  then have E: "binder_ok E" using assms(1) by blast
  let ?s1 = "i915_ggtt_set_space_owner E vf node s"
  note w = set_space_owner_write [OF E, of vf node s]
  have o: "owner_inv (insert vf X) ?s1" using owner_inv_space [OF assms(2-6), of E vf] by simp
  have "region vf ?s1 = Some node" using assms(4) by (simp add: pt_onlyD(1) [OF pt_only_set_space_owner])
  moreover have "unat (pte_vfid (i915_ggtt_prepare_vf_pte (of_nat vf))) = vf"
    using unat_take_bit_vfid [of vf] assms(6,7) by simp
  ultimately have own: "unat (pte_vfid (ggtt_ptes ?s1 k)) = vf"
    if "region vf ?s1 = Some n" "node_page n \<le> k" "k < node_page n + node_pages n" for n k
    using that by (simp add: w write_ptes_def)
  show ?thesis
    unfolding owner_inv_def
  proof (intro allI impI, elim conjE)
    fix v n k
    assume v: "1 \<le> v" "v \<le> pf_get_totalvfs ?s1" "v \<notin> X" "region v ?s1 = Some n"
      and k: "node_page n \<le> k" "k < node_page n + node_pages n"
    show "unat (pte_vfid (ggtt_ptes ?s1 k)) = v"
      using own [of n k] o v k unfolding owner_inv_def by (cases "v = vf") auto
  qed
qed

lemma unat_round_up:
  assumes "check_round_up_overflow sz 4096 = Some d"
  shows "unat d = (unat sz + 4095) div 4096 * 4096"
proof (cases "sz = 0")
  case False
  let ?d = "(sz - 1) OR 4095"
  have d: "?d \<noteq> -1" "d = ?d + 1" using assms False by (auto simp: check_round_up_overflow_def Let_def split: if_splits)
  have "unat ?d = unat (sz - 1) div 4096 * 4096 + 4095"
  proof -
    have "?d = ((sz - 1) AND NOT (mask 12)) OR mask 12"
      by (rule bit_word_eqI) (auto simp: bit_simps mask_eq_exp_minus_1)
    also have "\<dots> = ((sz - 1) AND NOT (mask 12)) + mask 12"
      by (rule disjunctive_add [symmetric]) (simp add: bit_simps)
    finally have e: "?d = ((sz - 1) AND NOT (mask 12)) + mask 12" .
    have u: "unat ((sz - 1) AND NOT (mask 12)) = unat (sz - 1) div 4096 * 4096"
      using unat_and_not_mask [of "sz - 1" 12] by (simp only: minus_mod_eq_div_mult) simp
    have "unat (sz - 1) < 2 ^ 64" using unsigned_less [of "sz - 1"] by simp
    then have "unat (sz - 1) div 4096 < 2 ^ 52" by (simp add: less_mult_imp_div_less)
    then have "unat (sz - 1) div 4096 * 4096 + 4095 < 2 ^ 64" by simp
    moreover have "unat (mask 12 :: u64) = 4095" by (simp add: mask_eq_exp_minus_1)
    ultimately show ?thesis
      unfolding e by (simp only: unat_word_ariths u) simp
  qed
  moreover have "unat (?d + 1) = unat ?d + 1" 
  proof -
    have "1 + ?d \<noteq> 0" using d(1) by (simp add: eq_neg_iff_add_eq_0 add.commute)
    then show ?thesis using unatSuc [of ?d] by (simp add: add.commute)
  qed
  moreover have "unat (sz - 1) = unat sz - 1" "0 < unat sz" using False by (simp_all add: unat_minus_one unat_gt_0)
  moreover have "(x - 1) div 4096 * 4096 + 4095 + 1 = (x + 4095) div 4096 * 4096" if "0 < x" for x :: nat
    using that div_add_self2 [of 4096 "x - 1"] by (simp add: add.commute [of x])
  ultimately show ?thesis by (simp only: d(2))
qed (use assms in \<open>simp add: check_round_up_overflow_def\<close>)


section \<open>Provisioning keeps the invariants\<close>

text \<open>What every step of provisioning keeps: the invariants, the number of VFs and the pin bias.\<close>

definition ggtt_ok :: "nat set \<Rightarrow> i915_state \<Rightarrow> bool" where
  "ggtt_ok X s \<longleftrightarrow> ggtt_inv s \<and> owner_inv X s \<and> pf_get_totalvfs s < 8 \<and>
     4096 dvd unat (ggtt_pin_bias s) \<and> unat (ggtt_pin_bias s) \<le> unat GUC_GGTT_TOP"

lemma ggtt_ok_guc: "guc_only s s' \<Longrightarrow> ggtt_ok X s' \<longleftrightarrow> ggtt_ok X s"
  by (simp add: ggtt_ok_def ggtt_inv_guc owner_inv_guc guc_onlyD)

lemma ggtt_ok_pt: "pt_only s s' \<Longrightarrow> ggtt_ptes s' = ggtt_ptes s \<Longrightarrow> ggtt_ok X s' \<longleftrightarrow> ggtt_ok X s"
  by (simp add: ggtt_ok_def ggtt_inv_pt owner_inv_pt pt_onlyD)

lemma release_frame [simp]:
  "pf_get_totalvfs (pf_release_ggtt E g vf node s) = pf_get_totalvfs s"
  "ggtt_pin_bias (pf_release_ggtt E g vf node s) = ggtt_pin_bias s"
proof -
  have "pt_only s (intel_iov_ggtt_shadow_vf_free g vf (i915_ggtt_set_space_owner E 0 node s))"
    using pt_only_trans [OF pt_only_set_space_owner pt_only_vf_free] .
  then show "pf_get_totalvfs (pf_release_ggtt E g vf node s) = pf_get_totalvfs s"
    "ggtt_pin_bias (pf_release_ggtt E g vf node s) = ggtt_pin_bias s"
    by (simp_all add: pf_release_ggtt_def pt_onlyD)
qed

lemma ggtt_ok_mono: "ggtt_ok X s \<Longrightarrow> X \<subseteq> Y \<Longrightarrow> ggtt_ok Y s"
  using owner_inv_mono [of X s Y] by (simp add: ggtt_ok_def)

lemma ggtt_ok_release:
  assumes "ggtt_ok (insert vf X) s" "region vf s = Some node" "1 \<le> vf" "vf \<le> pf_get_totalvfs s"
  shows "ggtt_ok X (pf_release_ggtt E GT_PRIMARY vf node s)"
proof -
  have "ggtt_ok (insert vf X - {vf}) (pf_release_ggtt E GT_PRIMARY vf node s)"
    using assms ggtt_inv_release owner_inv_release [OF _ _ assms(2-4), of "insert vf X"] by (simp add: ggtt_ok_def)
  then show ?thesis by (rule ggtt_ok_mono) blast
qed

lemma region_release [simp]:
  "region vf' (pf_release_ggtt E GT_PRIMARY vf node s) = (if vf' = vf then None else region vf' s)"
  by (simp add: pf_release_ggtt_def pt_onlyD(1) [OF pt_only_vf_free] pt_onlyD(1) [OF pt_only_set_space_owner])

text \<open>The range manager places a node for a VF that has none.\<close>

lemma ggtt_ok_insert:
  assumes "mm_insert_ok E" "ggtt_ok X s" "region vf s = None"
    and "4096 dvd unat sz" "0 < unat sz"
    and "i915_gem_gtt_insert E sz align (ggtt_pin_bias s) GUC_GGTT_TOP s = (Inr node, s1)"
  defines "s2 \<equiv> upd_config GT_PRIMARY vf (\<lambda>c. c\<lparr>ggtt_region := Some node\<rparr>) s1"
  shows "ggtt_ok (insert vf X) s2" "region vf s2 = Some node" "node_size node = sz"
    "pf_get_totalvfs s2 = pf_get_totalvfs s" "\<exists>pf. s1 = s\<lparr>ggtt_pf_nodes := pf\<rparr>"
proof -
  let ?st = "ggtt_pin_bias s"
  from assms(6) obtain a pf where mm: "env_mm_insert E (ggtt_pf_nodes s) (vf_nodes s) sz align ?st GUC_GGTT_TOP = Inr (a, pf)"
    and node: "node = \<lparr>node_start = a, node_size = sz\<rparr>" and s1: "s1 = s\<lparr>ggtt_pf_nodes := pf\<rparr>"
    and nov: "\<not> range_overflows ?st sz GUC_GGTT_TOP"
    by (auto simp: i915_gem_gtt_insert_def split: if_splits sum.splits)
  have "unat ?st + unat sz \<le> unat GUC_GGTT_TOP"
  proof -
    have lt: "?st < GUC_GGTT_TOP" and "sz \<le> GUC_GGTT_TOP - ?st" using nov by (auto simp: range_overflows_def)
    then have "unat sz \<le> unat (GUC_GGTT_TOP - ?st)" "unat (GUC_GGTT_TOP - ?st) = unat GUC_GGTT_TOP - unat ?st"
      using unat_sub [OF less_imp_le [OF lt]] by (simp_all add: word_le_nat_alt)
    with lt show ?thesis by (simp add: word_less_nat_alt)
  qed
  moreover have "4096 dvd unat ?st" using assms(2) by (simp add: ggtt_ok_def)
  ultimately have ok: "4096 dvd unat a" "unat ?st \<le> unat a" "unat a + unat sz \<le> unat GUC_GGTT_TOP"
    "set pf \<subseteq> set (ggtt_pf_nodes s)" "\<forall>n \<in> set (pf @ vf_nodes s). node_range node \<inter> node_range n = {}"
    using assms(1,4) mm unfolding mm_insert_ok_def node by blast+
  have tot: "pf_get_totalvfs s2 = pf_get_totalvfs s" and bias: "ggtt_pin_bias s2 = ggtt_pin_bias s"
    and nodes: "ggtt_pf_nodes s2 = pf" and ptes: "ggtt_ptes s2 = ggtt_ptes s"
    and reg: "region v s2 = (if v = vf then Some node else region v s)" for v
    by (simp_all add: s2_def s1 pf_get_totalvfs_def)
  have placed: "node_placed (ggtt_pin_bias s) node" using ok assms(4,5) by (simp add: node_placed_def node)
  have "ggtt_inv s2"
    unfolding ggtt_inv_def tot bias nodes
  proof (intro allI impI, elim conjE)
    fix v n assume v: "1 \<le> v" "v \<le> pf_get_totalvfs s" "region v s2 = Some n"
    show "node_placed (ggtt_pin_bias s) n \<and> (\<forall>m \<in> set pf. node_range n \<inter> node_range m = {}) \<and>
        (\<forall>v' m. 1 \<le> v' \<and> v' \<le> pf_get_totalvfs s \<and> v' \<noteq> v \<and> region v' s2 = Some m \<longrightarrow> node_range n \<inter> node_range m = {})"
    proof (cases "v = vf")
      case True
      then have "n = node" using v reg by simp
      then show ?thesis using True placed ok(5) by (auto simp: reg set_vf_nodes)
    next
      case False
      then have n: "region v s = Some n" using v reg by simp
      then have "node_placed (ggtt_pin_bias s) n" "\<forall>m \<in> set (ggtt_pf_nodes s). node_range n \<inter> node_range m = {}"
        "\<forall>v' m. 1 \<le> v' \<and> v' \<le> pf_get_totalvfs s \<and> v' \<noteq> v \<and> region v' s = Some m \<longrightarrow> node_range n \<inter> node_range m = {}"
        using v assms(2) unfolding ggtt_ok_def ggtt_inv_def by blast+
      moreover have "n \<in> set (vf_nodes s)" using n v by (auto simp: set_vf_nodes)
      then have "node_range n \<inter> node_range node = {}" using ok(5) by (auto simp: Int_commute)
      ultimately show ?thesis using ok(4) by (auto simp: reg)
    qed
  qed
  moreover have "owner_inv (insert vf X) s2"
    using assms(2) unfolding ggtt_ok_def owner_inv_def by (auto simp: tot reg ptes)
  ultimately show "ggtt_ok (insert vf X) s2" using assms(2) by (simp add: ggtt_ok_def tot bias)
  show "region vf s2 = Some node" "node_size node = sz" "pf_get_totalvfs s2 = pf_get_totalvfs s"
    "\<exists>pf. s1 = s\<lparr>ggtt_pf_nodes := pf\<rparr>"
    using reg node tot s1 by auto
qed


lemma pf_insert_ggtt_ok:
  assumes E: "mm_insert_ok E" "vf \<in> X \<or> binder_ok E" and ok: "ggtt_ok X s" "region vf s = None"
    and vf: "1 \<le> vf" "vf \<le> pf_get_totalvfs s" and sz: "4096 dvd unat sz" "0 < unat sz"
    and r: "pf_insert_ggtt E GT_PRIMARY vf sz s = (r, s')"
  shows "ggtt_ok X s' \<and>
    (case r of Inl e \<Rightarrow> region vf s' = None | Inr u \<Rightarrow> \<exists>n. region vf s' = Some n \<and> node_size n = sz) \<and>
    (\<forall>v. v \<noteq> vf \<longrightarrow> region v s' = region v s) \<and> pf_get_totalvfs s' = pf_get_totalvfs s"
proof (cases "sz > ggtt_total s \<or> sz > pf_get_max_ggtt E GT_PRIMARY s")
  case True
  then show ?thesis using r ok by (auto simp: pf_insert_ggtt_def split: if_splits)
next
  case fits: False
  show ?thesis
  proof (cases "i915_gem_gtt_insert E sz pf_get_ggtt_alignment (ggtt_pin_bias s) GUC_GGTT_TOP s")
    case i: (Pair q s1)
    show ?thesis
    proof (cases q)
      case (Inl e)
      then have "s1 = s" using i by (auto simp: i915_gem_gtt_insert_def split: if_splits sum.splits prod.splits)
      then show ?thesis using r fits i Inl ok by (auto simp: pf_insert_ggtt_def)
    next
      case (Inr node)
      let ?s2 = "upd_config GT_PRIMARY vf (\<lambda>c. c\<lparr>ggtt_region := Some node\<rparr>) s1"
      note ins = ggtt_ok_insert [OF E(1) ok sz i [unfolded Inr]]
      have other: "v \<noteq> vf \<Longrightarrow> region v ?s2 = region v s" for v using ins(5) by auto
      obtain a s3 where al: "intel_iov_ggtt_shadow_vf_alloc E GT_PRIMARY vf node ?s2 = (a, s3)" by force
      note pt = vf_alloc_pt [OF al]
      have s3: "ggtt_ok (insert vf X) s3" "region vf s3 = Some node" "pf_get_totalvfs s3 = pf_get_totalvfs s"
        "v \<noteq> vf \<Longrightarrow> region v s3 = region v s" for v
        using ins(1,2,4) other ggtt_ok_pt [OF pt] pt_onlyD [OF pt(1)] by simp_all
      show ?thesis
      proof (cases a)
        case (Inl e)
        then have "r = Inl e" "s' = pf_release_ggtt E GT_PRIMARY vf node s3"
          using r fits i \<open>q = Inr node\<close> al by (auto simp: pf_insert_ggtt_def)
        then show ?thesis using ggtt_ok_release [OF s3(1,2) vf(1)] vf(2) s3 by simp
      next
        case ar: (Inr u)
        let ?s4 = "i915_ggtt_set_space_owner E vf node s3"
        have s4: "ggtt_ok X ?s4" "region v ?s4 = region v s3" "pf_get_totalvfs ?s4 = pf_get_totalvfs s" for v
        proof -
          note fr = pt_onlyD [OF pt_only_set_space_owner [of s3 E vf node]]
          show "region v ?s4 = region v s3" "pf_get_totalvfs ?s4 = pf_get_totalvfs s" using fr s3(3) by simp_all
          show "ggtt_ok X ?s4"
            using s3 vf owner_inv_set_owner [OF E(2) _ _ s3(2)] ggtt_inv_pt [OF pt_only_set_space_owner [of s3 E vf node]] fr
            by (simp add: ggtt_ok_def)
        qed
        obtain p s5 where p: "pf_push_config_ggtt E GT_PRIMARY vf (node_start node) (node_size node) ?s4 = (p, s5)" by force
        note g = guc_only_push_ggtt [OF p]
        have s5: "ggtt_ok X s5" "region v s5 = region v s3" "pf_get_totalvfs s5 = pf_get_totalvfs s" for v
          using s4 ggtt_ok_guc [OF g] guc_onlyD [OF g] by simp_all
        show ?thesis
        proof (cases p)
          case (Inl e)
          then have "r = Inl e" "s' = pf_release_ggtt E GT_PRIMARY vf node s5"
            using r fits i \<open>q = Inr node\<close> al ar p by (auto simp: pf_insert_ggtt_def)
          moreover have "ggtt_ok X (pf_release_ggtt E GT_PRIMARY vf node s5)"
            using ggtt_ok_mono [OF s5(1)] s5 s3 vf by (intro ggtt_ok_release) auto
          ultimately show ?thesis using s3 s5 by simp
        next
          case (Inr u)
          then have "r = Inr ()" "s' = s5"
            using r fits i \<open>q = Inr node\<close> al ar p by (auto simp: pf_insert_ggtt_def)
          then show ?thesis using s3 s5 ins(3) by simp
        qed
      qed
    qed
  qed
qed

lemma check_round_up_aligned:
  "check_round_up_overflow sz pf_get_ggtt_alignment = Some d \<Longrightarrow>
     4096 dvd unat d \<and> unat sz \<le> unat d \<and> (d = 0 \<longleftrightarrow> sz = 0)"
proof -
  assume "check_round_up_overflow sz pf_get_ggtt_alignment = Some d"
  then have d: "unat d = (unat sz + 4095) div 4096 * 4096"
    using unat_round_up by (simp add: pf_get_ggtt_alignment_def)
  have le: "x \<le> (x + 4095) div 4096 * 4096" for x :: nat
  proof -
    have "(x + 4095) div 4096 * 4096 + (x + 4095) mod 4096 = x + 4095" "(x + 4095) mod 4096 < 4096"
      by simp_all
    then show ?thesis by linarith
  qed
  have "d = 0 \<longleftrightarrow> sz = 0"
  proof
    assume "sz = 0"
    then have "unat d = 0" using d by simp
    then show "d = 0" by (simp add: unat_eq_zero)
  next
    assume "d = 0"
    then have "unat sz \<le> 0" using d le [of "unat sz"] by simp
    then show "sz = 0" by (simp add: unat_eq_zero)
  qed
  then show ?thesis using d le [of "unat sz"] by simp
qed


lemma pf_provision_ggtt_ok:
  assumes E: "mm_insert_ok E" "vf \<in> X \<or> binder_ok E" and ok: "ggtt_ok X s"
    and vf: "1 \<le> vf" "vf \<le> pf_get_totalvfs s"
    and r: "pf_provision_ggtt E GT_PRIMARY vf sz s = (r, s')"
  shows "ggtt_ok X s' \<and> (\<forall>v. v \<noteq> vf \<longrightarrow> region v s' = region v s) \<and>
    (case r of
       Inl e \<Rightarrow> region vf s' = None \<or> s' = s
     | Inr u \<Rightarrow> (if sz = 0 then region vf s' = None
                 else \<exists>n. region vf s' = Some n \<and> Some (node_size n) = check_round_up_overflow sz 4096))"
proof (cases "check_round_up_overflow sz pf_get_ggtt_alignment")
  case None
  then show ?thesis using r ok by (auto simp: pf_provision_ggtt_def)
next
  case (Some d)
  note al = check_round_up_aligned [OF Some]
  have d: "check_round_up_overflow sz 4096 = Some d" using Some by (simp add: pf_get_ggtt_alignment_def)
  have ins: "ggtt_ok X s' \<and> (\<forall>v. v \<noteq> vf \<longrightarrow> region v s' = region v s) \<and>
      (case q of Inl e \<Rightarrow> region vf s' = None \<or> s' = s
       | Inr u \<Rightarrow> \<exists>n. region vf s' = Some n \<and> Some (node_size n) = check_round_up_overflow sz 4096)"
    if "pf_insert_ggtt E GT_PRIMARY vf d t = (q, s')" "d \<noteq> 0" "ggtt_ok X t" "region vf t = None"
      "\<forall>v. v \<noteq> vf \<longrightarrow> region v t = region v s" "pf_get_totalvfs t = pf_get_totalvfs s" for q t
    using pf_insert_ggtt_ok [OF E that(3,4) vf(1) _ _ _ that(1)] that(2,5,6) vf(2) al d
    by (auto simp: unat_gt_0 split: sum.splits)
  show ?thesis
  proof (cases "region vf s")
    case reg: None
    show ?thesis
    proof (cases "d = 0")
      case True
      then show ?thesis using r reg Some al ok by (auto simp: pf_provision_ggtt_def)
    next
      case False
      then show ?thesis using r reg Some al ok ins [of s r] by (auto simp: pf_provision_ggtt_def split: sum.splits)
    qed
  next
    case reg: (Some node)
    show ?thesis
    proof (cases "d = node_size node")
      case True
      have "node_placed (ggtt_pin_bias s) node" using ok vf reg unfolding ggtt_ok_def ggtt_inv_def by blast
      then have "d \<noteq> 0" using True by (auto simp: node_placed_def)
      then show ?thesis using r reg Some al ok True d by (auto simp: pf_provision_ggtt_def)
    next
      case ne: False
      obtain p s1 where p: "pf_push_config_ggtt E GT_PRIMARY vf 0 0 s = (p, s1)" by force
      note g = guc_only_push_ggtt [OF p]
      let ?s2 = "pf_release_ggtt E GT_PRIMARY vf node s1"
      have s1: "ggtt_ok X s1" "region v s1 = region v s" "pf_get_totalvfs s1 = pf_get_totalvfs s" for v
        using ok ggtt_ok_guc [OF g] guc_onlyD [OF g] by simp_all
      have s2: "ggtt_ok X ?s2" "region v ?s2 = (if v = vf then None else region v s)"
        "pf_get_totalvfs ?s2 = pf_get_totalvfs s" for v
        using ggtt_ok_release [OF ggtt_ok_mono [OF s1(1) subset_insertI] _ vf(1), where node = node and E = E]
          vf(2) reg s1 by simp_all
      show ?thesis
      proof (cases p)
        case (Inl e)
        then show ?thesis using r reg Some ne p s2 by (auto simp: pf_provision_ggtt_def)
      next
        case pr: (Inr u)
        show ?thesis
        proof (cases "d = 0")
          case True
          then show ?thesis using r reg Some ne p pr s1(2) s2(1) al by (auto simp: pf_provision_ggtt_def Let_def)
        next
          case False
          then have i: "pf_insert_ggtt E GT_PRIMARY vf d ?s2 = (r, s')"
            using r reg Some ne p pr by (simp add: pf_provision_ggtt_def Let_def)
          have "r = Inl e \<Longrightarrow> region vf s' = None" for e
            using pf_insert_ggtt_ok [OF E s2(1) _ vf(1) _ _ _ i] s2 vf(2) al False by (simp add: unat_gt_0)
          then show ?thesis using ins [OF i False s2(1)] s1 al False by (auto split: sum.splits)
        qed
      qed
    qed
  qed
qed

lemma set_ggtt_cases:
  assumes "intel_iov_provisioning_set_ggtt E g vf sz s = (r, s')"
  obtains s1 where "pf_provision_ggtt E g vf sz s = (r, s1)" "s' = s1 \<or> s' = pf_mark_manual_provisioning s1"
  using assms
  by (auto simp: intel_iov_provisioning_set_ggtt_def Let_def split: prod.splits sum.splits if_splits)

lemma manual_frame [simp]:
  "gts (pf_mark_manual_provisioning s) = gts s" "ggtt_ptes (pf_mark_manual_provisioning s) = ggtt_ptes s"
  "ggtt_pf_nodes (pf_mark_manual_provisioning s) = ggtt_pf_nodes s"
  "ggtt_pin_bias (pf_mark_manual_provisioning s) = ggtt_pin_bias s"
  "pf_get_totalvfs (pf_mark_manual_provisioning s) = pf_get_totalvfs s"
  by (simp_all add: pf_mark_manual_provisioning_def pf_get_totalvfs_def)

lemma ggtt_ok_manual [simp]: "ggtt_ok X (pf_mark_manual_provisioning s) \<longleftrightarrow> ggtt_ok X s"
  unfolding ggtt_ok_def
  using ggtt_inv_cong [of "pf_mark_manual_provisioning s" s] owner_inv_cong [of "pf_mark_manual_provisioning s" s]
  by simp

section \<open>Properties\<close>

text \<open>
  Property C5. Whatever the GuC replies, whichever allocations fail and whichever requests of the
  binder engine fail, changing the GGTT size of a VF keeps the regions of all VFs aligned, in range
  and disjoint from each other and from the PF, and every page of the region of any other VF is
  still owned by that VF; on success the VF has exactly the requested size rounded up to pages, on
  failure it has its old region or none, and other VFs keep theirs. The pages of the new region
  itself are owned by the VF when no binder request fails (\<open>binder_ok\<close>; it holds trivially on a
  platform that writes the PTEs with the CPU): the code drops the write of the owner when the
  binder fails (\<open>set_space_owner_dropped\<close>). \<open>X\<close> are the VFs whose pages need not be theirs.
\<close>

theorem set_ggtt_isolation:
  assumes "mm_insert_ok E" "ggtt_ok X s" "1 \<le> vf" "vf \<le> pf_get_totalvfs s"
    and "intel_iov_provisioning_set_ggtt E GT_PRIMARY vf sz s = (r, s')"
  shows "ggtt_ok (insert vf X) s' \<and> (binder_ok E \<longrightarrow> ggtt_ok X s') \<and> (\<forall>v. v \<noteq> vf \<longrightarrow> region v s' = region v s) \<and>
    (case r of
       Inl e \<Rightarrow> region vf s' = None \<or> region vf s' = region vf s
     | Inr u \<Rightarrow> unat (intel_iov_provisioning_get_ggtt GT_PRIMARY vf s') = (unat sz + 4095) div 4096 * 4096)"
proof -
  obtain s1 where s1: "pf_provision_ggtt E GT_PRIMARY vf sz s = (r, s1)"
    and s': "s' = s1 \<or> s' = pf_mark_manual_provisioning s1"
    using set_ggtt_cases [OF assms(5)] .
  have eq: "region v s' = region v s1" "ggtt_ok Y s' \<longleftrightarrow> ggtt_ok Y s1" for v Y using s' by auto
  have "ggtt_ok (insert vf X) s" using assms(2) by (rule ggtt_ok_mono) blast
  note p = pf_provision_ggtt_ok [OF assms(1) disjI1 [OF insertI1] this assms(3,4) s1]
  have own: "binder_ok E \<Longrightarrow> ggtt_ok X s1"
    using pf_provision_ggtt_ok [OF assms(1) _ assms(2-4) s1] by blast
  have "unat (intel_iov_provisioning_get_ggtt GT_PRIMARY vf s') = (unat sz + 4095) div 4096 * 4096" if ru: "r = Inr u" for u
  proof (cases "sz = 0")
    case True
    then show ?thesis using p ru by (simp add: intel_iov_provisioning_get_ggtt_def eq)
  next
    case False
    then obtain n where "region vf s1 = Some n" "Some (node_size n) = check_round_up_overflow sz 4096"
      using p ru by auto
    then show ?thesis using unat_round_up [of sz "node_size n"] by (simp add: intel_iov_provisioning_get_ggtt_def eq)
  qed
  then show ?thesis using p own by (auto simp: eq split: sum.splits)
qed

text \<open>
  Property C6. Taking the GGTT away from a VF leaves it without a region and changes no PTE outside
  the region it had; each PTE of that region is given back to the PF, that is, present with function
  number 0, or unchanged, and all of them are given back when no binder request fails
  (\<open>binder_ok\<close>). When one fails the code does not write the rest (\<open>set_space_owner_dropped\<close>).
\<close>

theorem unset_ggtt_returns_pages:
  assumes "region vf s = Some n" "node_size n \<noteq> 0"
    and "intel_iov_provisioning_set_ggtt E GT_PRIMARY vf 0 s = (Inr u, s')"
  shows "region vf s' = None \<and>
    (\<forall>k. ggtt_ptes s' k =
       (if node_page n \<le> k \<and> k < node_page n + node_pages n \<and> (binder_ok E \<or> ggtt_ptes s' k \<noteq> ggtt_ptes s k)
        then i915_ggtt_prepare_vf_pte 0 else ggtt_ptes s k))"
proof -
  obtain s1 where s1: "pf_provision_ggtt E GT_PRIMARY vf 0 s = (Inr u, s1)"
    and s': "s' = s1 \<or> s' = pf_mark_manual_provisioning s1"
    using set_ggtt_cases [OF assms(3)] .
  from s1 assms(1,2) obtain p t where p: "pf_push_config_ggtt E GT_PRIMARY vf 0 0 s = (p, t)"
    and s1': "s1 = pf_release_ggtt E GT_PRIMARY vf n t"
    by (auto simp: pf_provision_ggtt_def check_round_up_overflow_def Let_def split: prod.splits sum.splits)
  have t: "ggtt_ptes t = ggtt_ptes s" using guc_onlyD [OF guc_only_push_ggtt [OF p]] by simp
  have none: "region vf s1 = None" by (simp only: s1' region_release if_True refl)
  have eq: "ggtt_ptes s1 = ggtt_ptes (i915_ggtt_set_space_owner E 0 n t)" by (simp add: s1' pf_release_ggtt_def)
  obtain j where j: "j \<le> node_pages n"
      "ggtt_ptes s1 = write_ptes (ggtt_ptes s) (node_page n) (replicate j (i915_ggtt_prepare_vf_pte 0))"
    using set_space_owner_prefix [of n E 0 t] t eq by auto
  have full: "binder_ok E \<Longrightarrow> ggtt_ptes s1 =
      write_ptes (ggtt_ptes s) (node_page n) (replicate (node_pages n) (i915_ggtt_prepare_vf_pte 0))"
    using set_space_owner_write [of E 0 n t] t eq by simp
  have s': "ggtt_ptes s' = ggtt_ptes s1" "region vf s' = region vf s1" using s' by auto
  have pte: "ggtt_ptes s' k =
      (if node_page n \<le> k \<and> k < node_page n + node_pages n \<and> (binder_ok E \<or> ggtt_ptes s' k \<noteq> ggtt_ptes s k)
       then i915_ggtt_prepare_vf_pte 0 else ggtt_ptes s k)" for k
  proof (cases "binder_ok E")
    case True
    then show ?thesis unfolding s'(1) full [OF True] by (auto simp: write_ptes_def)
  next
    case False
    then show ?thesis unfolding s'(1) j(2) using j(1) by (auto simp: write_ptes_def)
  qed
  show ?thesis by (intro conjI allI pte) (simp only: s'(2) none)
qed


lemma mm_insert_ok_quiet: "mm_insert_ok quiet_env"
  by (auto simp: mm_insert_ok_def quiet_env_def split: if_splits)

lemma binder_ok_quiet: "binder_ok quiet_env"
  by (simp add: binder_ok_def quiet_env_def)

lemma ggtt_ok_fresh: "ggtt_ok {} fresh_state"
proof -
  have r: "region vf fresh_state = None" for vf by (simp add: zero_config_def)
  have "ggtt_pin_bias fresh_state = 0x1000000" by (simp add: fresh_state_def)
  then show ?thesis
    unfolding ggtt_ok_def ggtt_inv_def owner_inv_def r by (simp add: GUC_GGTT_TOP_def)
qed

theorem set_ggtt_isolation_witness:
  "mm_insert_ok quiet_env \<and> ggtt_ok {} (snd (intel_iov_provisioning_set_ggtt quiet_env GT_PRIMARY 1 0x100001 fresh_state))"
  using set_ggtt_isolation [OF mm_insert_ok_quiet ggtt_ok_fresh _ _ surjective_pairing]
  by (simp add: mm_insert_ok_quiet binder_ok_quiet)

theorem unset_ggtt_returns_pages_witness:
  "\<exists>s'. intel_iov_provisioning_set_ggtt quiet_env GT_PRIMARY 1 0 two_page_state = (Inr (), s') \<and>
     region 1 s' = None \<and> ggtt_ptes s' 0x1001 = 1"
proof -
  have np: "\<not> pf_needs_push_config GT_PRIMARY 1 two_page_state"
    by (simp add: two_page_state_def pf_needs_push_config_def pf_is_vf_enabled_def pf_get_numvfs_def fresh_state_def)
  have "\<not> has_media_gt two_page_state" by (simp add: two_page_state_def fresh_state_def)
  then obtain s' where s': "intel_iov_provisioning_set_ggtt quiet_env GT_PRIMARY 1 0 two_page_state = (Inr (), s')"
    using np two_page_region(1)
    by (auto simp: intel_iov_provisioning_set_ggtt_def pf_provision_ggtt_def check_round_up_overflow_def
        pf_push_config_ggtt_def pf_push_config_ggtt_gt_def Let_def)
  show ?thesis
    using s' unset_ggtt_returns_pages [OF two_page_region(1) _ s']
    by (simp add: binder_ok_quiet i915_ggtt_prepare_vf_pte_def tgl_prepare_vf_pte_vfid_def FIELD_PREP_def GEN8_PAGE_PRESENT_def)
qed

end
