(* ===== verification/Iov_Config.thy ===== *)
theory Iov_Config
  imports Iov_Dbs Iov_Sched Iov_Prov_Ggtt
begin

text \<open>
  The configurations as a whole (\<open>gt/iov/intel_iov_provisioning.c\<close>): automatic provisioning,
  unprovisioning, validation, the encoding of a configuration as KLVs and its push to the GuC,
  the self configuration of the PF, and the restart after a GuC reset. The status of the PF is
  that of \<open>i915_sriov.c\<close>.
\<close>

section \<open>Status of the PF\<close>

definition pf_set_status :: "nat res \<Rightarrow> i915_state \<Rightarrow> i915_state" where
  "pf_set_status st s = s\<lparr>sriov_status := st\<rparr>"

definition i915_sriov_pf_abort :: "errno \<Rightarrow> i915_state \<Rightarrow> i915_state" where
  "i915_sriov_pf_abort e s = pf_set_status (Inl e) s"

definition i915_sriov_pf_aborted :: "i915_state \<Rightarrow> bool" where
  "i915_sriov_pf_aborted s = is_err (sriov_status s)"

definition i915_sriov_pf_status :: "i915_state \<Rightarrow> nat res" where
  "i915_sriov_pf_status s = (case sriov_status s of
      Inl e \<Rightarrow> Inl e
    | Inr n \<Rightarrow> if n = 0 then Inl EBUSY else Inr n)"

definition i915_sriov_pf_is_auto_provisioning_enabled :: "i915_state \<Rightarrow> bool" where
  "i915_sriov_pf_is_auto_provisioning_enabled s = (\<not> disable_auto_provisioning s)"

section \<open>Setup\<close>

definition intel_iov_provisioning_init_early ::
    "iov_env \<Rightarrow> intel_gt_type \<Rightarrow> i915_state \<Rightarrow> i915_state" where
  "intel_iov_provisioning_init_early E g s =
     (case kmalloc E s of (ok, s1) \<Rightarrow>
        if \<not> ok then i915_sriov_pf_abort ENOMEM s1
        else upd_prov g (\<lambda>p. p\<lparr>configs := (\<lambda>_. zero_config), worker_queued := False\<rparr>) s1)"

section \<open>Unprovisioning\<close>

definition pf_unprovision_config ::
    "iov_env \<Rightarrow> intel_gt_type \<Rightarrow> nat \<Rightarrow> i915_state \<Rightarrow> i915_state" where
  "pf_unprovision_config E g vf s =
     (let s = snd (pf_provision_ggtt E g vf 0 s);
          s = snd (pf_provision_ctxs E g vf 0 s);
          s = snd (pf_provision_dbs E g vf 0 s);
          s = snd (pf_provision_exec_quantum E g vf 0 s);
          s = snd (pf_provision_preempt_timeout E g vf 0 s)
      in pf_unprovision_thresholds E g vf s)"

definition pf_unprovision_all :: "iov_env \<Rightarrow> intel_gt_type \<Rightarrow> i915_state \<Rightarrow> i915_state" where
  "pf_unprovision_all E g s =
     fold (pf_unprovision_config E g) (rev [1..<Suc (pf_get_totalvfs s)]) s"

definition pf_set_auto_provisioning :: "intel_gt_type \<Rightarrow> bool \<Rightarrow> i915_state \<Rightarrow> i915_state" where
  "pf_set_auto_provisioning g v s = upd_prov g (\<lambda>p. p\<lparr>auto_mode := v\<rparr>) s"

definition pf_is_auto_provisioned :: "intel_gt_type \<Rightarrow> i915_state \<Rightarrow> bool" where
  "pf_is_auto_provisioned g s = auto_mode (provisioning g s)"

definition pf_auto_unprovision :: "iov_env \<Rightarrow> intel_gt_type \<Rightarrow> i915_state \<Rightarrow> i915_state" where
  "pf_auto_unprovision E g s =
     pf_set_auto_provisioning g False
       (if pf_is_auto_provisioned g s then pf_unprovision_all E g s else s)"

definition pf_fini_reprovisioning_worker :: "intel_gt_type \<Rightarrow> i915_state \<Rightarrow> i915_state" where
  "pf_fini_reprovisioning_worker g s = upd_prov g (\<lambda>p. p\<lparr>worker_queued := False\<rparr>) s"

definition intel_iov_provisioning_fini :: "iov_env \<Rightarrow> intel_gt_type \<Rightarrow> i915_state \<Rightarrow> i915_state" where
  "intel_iov_provisioning_fini E g s = pf_unprovision_all E g (pf_fini_reprovisioning_worker g s)"

text \<open>The VF's configuration in the GuC is reset first.\<close>

definition intel_iov_provisioning_clear ::
    "iov_env \<Rightarrow> intel_gt_type \<Rightarrow> nat \<Rightarrow> i915_state \<Rightarrow> nat res \<times> i915_state" where
  "intel_iov_provisioning_clear E g vf s =
     (case guc_action_update_vf_cfg E g vf 0 0 [] s of
        (Inl e, s1) \<Rightarrow> (Inl e, s1)
      | (Inr n, s1) \<Rightarrow> (Inr n, if n = 0 then pf_unprovision_config E g vf s1 else s1))"

section \<open>Automatic provisioning\<close>

primrec auto_ggtt_loop ::
    "iov_env \<Rightarrow> intel_gt_type \<Rightarrow> u64 \<Rightarrow> nat list \<Rightarrow> i915_state \<Rightarrow> unit res \<times> i915_state" where
  "auto_ggtt_loop E g fair [] s = (Inr (), s)"
| "auto_ggtt_loop E g fair (n # ns) s =
     (if pf_is_valid_config_ggtt g n s then (Inl EUCLEAN, s)
      else case pf_provision_ggtt E g n fair s of
        (Inl e, s1) \<Rightarrow> (Inl e, s1)
      | (Inr u, s1) \<Rightarrow> auto_ggtt_loop E g fair ns s1)"

definition pf_auto_provision_ggtt ::
    "iov_env \<Rightarrow> intel_gt_type \<Rightarrow> nat \<Rightarrow> i915_state \<Rightarrow> unit res \<times> i915_state" where
  "pf_auto_provision_ggtt E g num_vfs s =
     (let available = pf_get_max_ggtt E g s;
          fair = ALIGN_DOWN (available div of_nat num_vfs) pf_get_ggtt_alignment
      in if fair = 0 then (Inl ENOSPC, s)
         else auto_ggtt_loop E g fair [1..<Suc num_vfs] s)"

primrec auto_ctxs_loop ::
    "iov_env \<Rightarrow> intel_gt_type \<Rightarrow> u16 \<Rightarrow> nat list \<Rightarrow> i915_state \<Rightarrow> unit res \<times> i915_state" where
  "auto_ctxs_loop E g fair [] s = (Inr (), s)"
| "auto_ctxs_loop E g fair (n # ns) s =
     (if pf_is_valid_config_ctxs g n s then (Inl EUCLEAN, s)
      else case pf_provision_ctxs E g n fair s of
        (Inl e, s1) \<Rightarrow> (Inl e, s1)
      | (Inr u, s1) \<Rightarrow> auto_ctxs_loop E g fair ns s1)"

definition pf_auto_provision_ctxs ::
    "iov_env \<Rightarrow> intel_gt_type \<Rightarrow> nat \<Rightarrow> i915_state \<Rightarrow> unit res \<times> i915_state" where
  "pf_auto_provision_ctxs E g num_vfs s =
     (case pf_get_ctxs_free E g s of (available, s1) \<Rightarrow>
        let fair = of_nat (unat available div num_vfs div CTXS_GRANULARITY * CTXS_GRANULARITY) :: u16
        in if fair = 0 then (Inl ENOSPC, s1)
           else auto_ctxs_loop E g fair [1..<Suc num_vfs] s1)"

primrec auto_dbs_loop ::
    "iov_env \<Rightarrow> intel_gt_type \<Rightarrow> u16 \<Rightarrow> nat list \<Rightarrow> i915_state \<Rightarrow> unit res \<times> i915_state" where
  "auto_dbs_loop E g fair [] s = (Inr (), s)"
| "auto_dbs_loop E g fair (n # ns) s =
     (if pf_is_valid_config_dbs g n s then (Inl EUCLEAN, s)
      else case pf_provision_dbs E g n fair s of
        (Inl e, s1) \<Rightarrow> (Inl e, s1)
      | (Inr u, s1) \<Rightarrow> auto_dbs_loop E g fair ns s1)"

definition pf_auto_provision_dbs ::
    "iov_env \<Rightarrow> intel_gt_type \<Rightarrow> nat \<Rightarrow> i915_state \<Rightarrow> unit res \<times> i915_state" where
  "pf_auto_provision_dbs E g num_vfs s =
     (let available = of_nat GUC_NUM_DOORBELLS - num_dbs (config g PFID s);
          fair = of_nat (unat available div num_vfs) :: u16
      in if fair = 0 then (Inl ENOSPC, s)
         else auto_dbs_loop E g fair [1..<Suc num_vfs] s)"

definition pf_auto_provision ::
    "iov_env \<Rightarrow> intel_gt_type \<Rightarrow> nat \<Rightarrow> i915_state \<Rightarrow> unit res \<times> i915_state" where
  "pf_auto_provision E g num_vfs s =
     (case
        (if \<not> i915_sriov_pf_is_auto_provisioning_enabled s then (Inl EPERM, s)
         else let s = pf_set_auto_provisioning g True s
              in case (if g \<noteq> GT_MEDIA then pf_auto_provision_ggtt E g num_vfs s else (Inr (), s)) of
                (Inl e, s1) \<Rightarrow> (Inl e, s1)
              | (Inr u, s1) \<Rightarrow>
                  (case pf_auto_provision_ctxs E g num_vfs s1 of
                     (Inl e, s2) \<Rightarrow> (Inl e, s2)
                   | (Inr u, s2) \<Rightarrow> pf_auto_provision_dbs E g num_vfs s2)) of
        (Inl e, s1) \<Rightarrow> (Inl e, pf_auto_unprovision E g s1)
      | (Inr u, s1) \<Rightarrow> (Inr (), s1))"

definition intel_iov_provisioning_auto ::
    "iov_env \<Rightarrow> intel_gt_type \<Rightarrow> nat \<Rightarrow> i915_state \<Rightarrow> unit res \<times> i915_state" where
  "intel_iov_provisioning_auto E g num_vfs s =
     (if num_vfs \<noteq> 0 then pf_auto_provision E g num_vfs s else (Inr (), pf_auto_unprovision E g s))"


section \<open>Validation\<close>

definition valid_result :: "bool \<Rightarrow> bool \<Rightarrow> unit res" where
  "valid_result valid_all valid_any =
     (if valid_all then Inr () else if valid_any then Inl ENOKEY else Inl ENODATA)"

definition pf_validate_config_root :: "nat \<Rightarrow> i915_state \<Rightarrow> unit res" where
  "pf_validate_config_root vf s =
     (let valid_ggtt = pf_is_valid_config_ggtt GT_PRIMARY vf s;
          valid_ctxs = pf_is_valid_config_ctxs GT_PRIMARY vf s;
          valid_dbs = pf_is_valid_config_dbs GT_PRIMARY vf s
      in valid_result (valid_ggtt \<and> valid_ctxs) (valid_ggtt \<or> valid_ctxs \<or> valid_dbs))"

text \<open>The media GT has no GGTT of its own: its configuration needs that of the primary GT.\<close>

definition pf_validate_config :: "intel_gt_type \<Rightarrow> nat \<Rightarrow> i915_state \<Rightarrow> unit res" where
  "pf_validate_config g vf s =
     (if g = GT_PRIMARY then pf_validate_config_root vf s
      else let valid_ctxs = pf_is_valid_config_ctxs g vf s;
               valid_dbs = pf_is_valid_config_dbs g vf s;
               valid_ggtt = pf_is_valid_config_ggtt GT_PRIMARY vf s;
               valid_any = (valid_ctxs \<or> valid_dbs);
               valid_all = (valid_any \<and> valid_ggtt \<and> valid_ctxs \<and>
                            pf_validate_config_root vf s = Inr ())
           in valid_result valid_all valid_any)"

definition intel_iov_provisioning_verify :: "intel_gt_type \<Rightarrow> nat \<Rightarrow> i915_state \<Rightarrow> unit res" where
  "intel_iov_provisioning_verify g num_vfs s =
     (let errs = map (\<lambda>n. pf_validate_config g n s) [1..<Suc num_vfs];
          num_valid = length (filter (\<lambda>e. e = Inr ()) errs);
          num_empty = length (filter (\<lambda>e. e = Inl ENODATA) errs)
      in if num_empty = num_vfs then Inl ENODATA
         else if num_valid + num_empty \<noteq> num_vfs then Inl ENOKEY
         else Inr ())"

text \<open>
  \<open>i915_sriov_pf_set_auto_provisioning\<close> (\<open>i915_sriov.c\<close>): turning it on needs all configurations of
  all GTs to be empty.
\<close>

definition i915_sriov_pf_set_auto_provisioning :: "bool \<Rightarrow> i915_state \<Rightarrow> unit res \<times> i915_state" where
  "i915_sriov_pf_set_auto_provisioning enable s =
     (if enable = i915_sriov_pf_is_auto_provisioning_enabled s then (Inr (), s)
      else if enable \<and>
          list_ex (\<lambda>g. intel_iov_provisioning_verify g (pf_get_totalvfs s) s \<noteq> Inl ENODATA) (for_each_gt s)
        then (Inl ESTALE, s)
      else (Inr (), s\<lparr>disable_auto_provisioning := \<not> enable\<rparr>))"

lemma set_auto_provisioning_off:
  "i915_sriov_pf_set_auto_provisioning False s = (Inr (), pf_mark_manual_provisioning s)"
  by (simp add: i915_sriov_pf_set_auto_provisioning_def pf_mark_manual_provisioning_def
      i915_sriov_pf_is_auto_provisioning_enabled_def)

section \<open>Encoding and push\<close>

definition encode_config_ggtt :: "intel_iov_config \<Rightarrow> u32 list" where
  "encode_config_ggtt c =
     (case ggtt_region c of
        None \<Rightarrow> []
      | Some n \<Rightarrow>
          [MAKE_GUC_KLV GUC_KLV_VF_CFG_GGTT_START_KEY 2, lower_32_bits (node_start n), upper_32_bits (node_start n),
           MAKE_GUC_KLV GUC_KLV_VF_CFG_GGTT_SIZE_KEY 2, lower_32_bits (node_size n), upper_32_bits (node_size n)])"

definition encode_config :: "intel_iov_config \<Rightarrow> u32 list" where
  "encode_config c = encode_config_ggtt c @
     [MAKE_GUC_KLV GUC_KLV_VF_CFG_BEGIN_CONTEXT_ID_KEY 1, ucast (begin_ctx c),
      MAKE_GUC_KLV GUC_KLV_VF_CFG_NUM_CONTEXTS_KEY 1, ucast (num_ctxs c),
      MAKE_GUC_KLV GUC_KLV_VF_CFG_BEGIN_DOORBELL_ID_KEY 1, ucast (begin_db c),
      MAKE_GUC_KLV GUC_KLV_VF_CFG_NUM_DOORBELLS_KEY 1, ucast (num_dbs c),
      MAKE_GUC_KLV GUC_KLV_VF_CFG_EXEC_QUANTUM_KEY 1, exec_quantum c,
      MAKE_GUC_KLV GUC_KLV_VF_CFG_PREEMPT_TIMEOUT_KEY 1, preempt_timeout c] @
     concat (map (\<lambda>t. [MAKE_GUC_KLV (intel_iov_threshold_to_klv_key t) 1, thresholds c t]) IOV_THRESHOLDS)"

text \<open>What the loop of \<open>pf_push_configs\<close> puts in the buffer for one VF.\<close>

definition pf_encode_vf :: "intel_gt_type \<Rightarrow> nat \<Rightarrow> i915_state \<Rightarrow> u32 list" where
  "pf_encode_vf g n s =
     (if pf_validate_config g n s \<noteq> Inl ENODATA then encode_config (config g n s) else []) @
     (if g = GT_MEDIA then encode_config_ggtt (config GT_PRIMARY n s) else [])"

primrec push_configs_loop ::
    "iov_env \<Rightarrow> intel_gt_type \<Rightarrow> u32 \<Rightarrow> nat list \<Rightarrow> i915_state \<Rightarrow> unit res \<times> i915_state" where
  "push_configs_loop E g addr [] s = (Inr (), s)"
| "push_configs_loop E g addr (n # ns) s =
     (let cfg = pf_encode_vf g n s
      in if cfg = [] then push_configs_loop E g addr ns s
         else case guc_action_update_vf_cfg E g n (ucast addr) (of_nat (length cfg)) cfg s of
           (Inl e, s1) \<Rightarrow> (Inl e, s1)
         | (Inr k, s1) \<Rightarrow> push_configs_loop E g addr ns s1)"

definition pf_push_configs ::
    "iov_env \<Rightarrow> intel_gt_type \<Rightarrow> nat \<Rightarrow> i915_state \<Rightarrow> unit res \<times> i915_state" where
  "pf_push_configs E g num s =
     (case intel_guc_allocate_and_map_vma E s of
        (Inl e, s1) \<Rightarrow> (Inl e, s1)
      | (Inr addr, s1) \<Rightarrow>
          (case push_configs_loop E g addr [1..<Suc num] s1 of
             (Inl e, s2) \<Rightarrow> (Inl e, s2)
           | (Inr u, s2) \<Rightarrow> (Inr (), upd_prov g (\<lambda>p. p\<lparr>num_pushed := num\<rparr>) s2)))"

text \<open>The loop counts down; it returns where it stopped, 0 when it got through.\<close>

primrec push_no_configs_loop :: "iov_env \<Rightarrow> intel_gt_type \<Rightarrow> nat \<Rightarrow> i915_state \<Rightarrow> nat \<times> i915_state" where
  "push_no_configs_loop E g 0 s = (0, s)"
| "push_no_configs_loop E g (Suc n) s =
     (case guc_action_update_vf_cfg E g (Suc n) 0 0 [] s of
        (Inl e, s1) \<Rightarrow> (Suc n, s1)
      | (Inr k, s1) \<Rightarrow> push_no_configs_loop E g n s1)"

definition pf_push_no_configs :: "iov_env \<Rightarrow> intel_gt_type \<Rightarrow> i915_state \<Rightarrow> unit res \<times> i915_state" where
  "pf_push_no_configs E g s =
     (case push_no_configs_loop E g (num_pushed (provisioning g s)) s of
        (n, s1) \<Rightarrow>
          (if n \<noteq> 0 then Inl ESTALE else Inr (), upd_prov g (\<lambda>p. p\<lparr>num_pushed := n\<rparr>) s1))"

definition intel_iov_provisioning_push ::
    "iov_env \<Rightarrow> intel_gt_type \<Rightarrow> nat \<Rightarrow> i915_state \<Rightarrow> unit res \<times> i915_state" where
  "intel_iov_provisioning_push E g num s =
     (case i915_sriov_pf_status s of
        Inl e \<Rightarrow> (Inl e, s)
      | Inr k \<Rightarrow> if num \<noteq> 0 then pf_push_configs E g num s else pf_push_no_configs E g s)"

section \<open>Self configuration and restart\<close>

text \<open>The errors of the six updates are combined; any error makes the result \<open>-EREMOTEIO\<close>.\<close>

definition self_config_klvs :: "intel_gt_type \<Rightarrow> i915_state \<Rightarrow> (u32 \<times> (u64 + u32)) list" where
  "self_config_klvs g s =
     (let ggtt_start = wopcm_guc_size (gts s g)
      in [(GUC_KLV_VF_CFG_GGTT_START_KEY, Inl ggtt_start),
          (GUC_KLV_VF_CFG_GGTT_SIZE_KEY, Inl (GUC_GGTT_TOP - ggtt_start)),
          (GUC_KLV_VF_CFG_BEGIN_CONTEXT_ID_KEY, Inr 0),
          (GUC_KLV_VF_CFG_NUM_CONTEXTS_KEY, Inr (of_nat GUC_MAX_CONTEXT_ID)),
          (GUC_KLV_VF_CFG_BEGIN_DOORBELL_ID_KEY, Inr 0),
          (GUC_KLV_VF_CFG_NUM_DOORBELLS_KEY, Inr (of_nat GUC_NUM_DOORBELLS))])"

definition self_config_step ::
    "iov_env \<Rightarrow> intel_gt_type \<Rightarrow> u32 \<times> (u64 + u32) \<Rightarrow> bool \<times> i915_state \<Rightarrow> bool \<times> i915_state" where
  "self_config_step E g kv acc =
     (case acc of (err, s) \<Rightarrow>
        case (case snd kv of
                Inl v \<Rightarrow> guc_update_vf_klv64 E g PFID (fst kv) v s
              | Inr v \<Rightarrow> guc_update_vf_klv32 E g PFID (fst kv) v s) of
          (r, s1) \<Rightarrow> (err \<or> is_err r, s1))"

definition pf_push_self_config :: "iov_env \<Rightarrow> intel_gt_type \<Rightarrow> i915_state \<Rightarrow> unit res \<times> i915_state" where
  "pf_push_self_config E g s =
     (case fold (self_config_step E g) (self_config_klvs g s) (False, s) of
        (err, s1) \<Rightarrow> (if err then Inl EREMOTEIO else Inr (), s1))"

definition intel_iov_provisioning_force_vgt_mode ::
    "iov_env \<Rightarrow> intel_gt_type \<Rightarrow> i915_state \<Rightarrow> unit res \<times> i915_state" where
  "intel_iov_provisioning_force_vgt_mode E g s =
     (if is_err (i915_sriov_pf_status s) then (Inl EIO, s)
      else if self_done (provisioning g s) then (Inr (), s)
      else case pf_push_self_config E g s of
        (Inl e, s1) \<Rightarrow> (Inl e, s1)
      | (Inr u, s1) \<Rightarrow> (Inr (), upd_prov g (\<lambda>p. p\<lparr>self_done := True\<rparr>) s1))"

definition intel_iov_provisioning_restart :: "intel_gt_type \<Rightarrow> i915_state \<Rightarrow> i915_state" where
  "intel_iov_provisioning_restart g s =
     upd_prov g (\<lambda>p. p\<lparr>num_pushed := 0, self_done := False,
       worker_queued := worker_queued p \<or> \<not> is_err (i915_sriov_pf_status s)\<rparr>) s"

definition pf_reprovision_pf :: "iov_env \<Rightarrow> intel_gt_type \<Rightarrow> i915_state \<Rightarrow> i915_state" where
  "pf_reprovision_pf E g s =
     (let s = snd (intel_iov_provisioning_force_vgt_mode E g s);
          s = snd (pf_reprovision_sched_if_idle E g s);
          s = snd (pf_reprovision_reset_engine E g s);
          s = snd (pf_reprovision_sample_period E g s);
          s = snd (pf_reprovision_exec_quantum E g PFID s)
      in snd (pf_reprovision_preempt_timeout E g PFID s))"

definition pf_do_reprovisioning :: "iov_env \<Rightarrow> intel_gt_type \<Rightarrow> i915_state \<Rightarrow> i915_state" where
  "pf_do_reprovisioning E g s =
     (let s1 = pf_reprovision_pf E g s
      in if pf_get_numvfs s = 0 then s1
         else snd (intel_iov_provisioning_push E g (pf_get_numvfs s) s1))"

text \<open>The worker runs if it was queued.\<close>

definition pf_reprovisioning_worker_func :: "iov_env \<Rightarrow> intel_gt_type \<Rightarrow> i915_state \<Rightarrow> i915_state" where
  "pf_reprovisioning_worker_func E g s =
     (if worker_queued (provisioning g s)
      then pf_do_reprovisioning E g (upd_prov g (\<lambda>p. p\<lparr>worker_queued := False\<rparr>) s)
      else s)"


section \<open>Releasing resources\<close>

text \<open>
  \<open>releases s s'\<close>: no VF gained resources on the way, on any GT. Every step of unprovisioning has
  that effect, whatever the GuC replies.
\<close>

definition less_res :: "intel_iov_config \<Rightarrow> intel_iov_config \<Rightarrow> bool" where
  "less_res c c' \<longleftrightarrow>
     (ggtt_region c' = ggtt_region c \<or> ggtt_region c' = None) \<and>
     (num_ctxs c' = num_ctxs c \<or> num_ctxs c' = 0) \<and>
     (num_dbs c' = num_dbs c \<or> num_dbs c' = 0)"

definition releases :: "i915_state \<Rightarrow> i915_state \<Rightarrow> bool" where
  "releases s s' \<longleftrightarrow> pf_get_totalvfs s' = pf_get_totalvfs s \<and>
     (\<forall>g vf. less_res (config g vf s) (config g vf s'))"

lemma less_res_refl [simp]: "less_res c c"
  by (simp add: less_res_def)

lemma less_res_trans: "less_res a b \<Longrightarrow> less_res b c \<Longrightarrow> less_res a c"
  by (auto simp: less_res_def)

lemma releases_refl [simp]: "releases s s"
  by (simp add: releases_def)

lemma releases_trans [trans]: "releases s s1 \<Longrightarrow> releases s1 s2 \<Longrightarrow> releases s s2"
  unfolding releases_def using less_res_trans by metis

lemma releases_guc: "guc_only s s' \<Longrightarrow> releases s s'"
  by (simp add: releases_def guc_onlyD)

lemma releases_pt: "pt_only s s' \<Longrightarrow> releases s s'"
  by (simp add: releases_def pt_onlyD)

lemma releases_upd: "less_res (config g vf s) (f (config g vf s)) \<Longrightarrow> releases s (upd_config g vf f s)"
  by (simp add: releases_def)

lemma releases_upd_prov: "(\<And>p. configs (f p) = configs p) \<Longrightarrow> releases s (upd_prov g f s)"
  by (auto simp: releases_def)

lemma releases_ggtt: "releases s (pf_release_ggtt E g vf node s)"
  unfolding pf_release_ggtt_def
  by (rule releases_trans [OF releases_pt releases_upd])
    (rule pt_only_trans [OF pt_only_set_space_owner pt_only_vf_free], simp add: less_res_def)

lemma unprovision_ggtt:
  assumes "pf_provision_ggtt E g vf 0 s = (r, s')"
  shows "releases s s'"
    and "g = GT_PRIMARY \<Longrightarrow> (\<And>n. region vf s = Some n \<Longrightarrow> node_size n \<noteq> 0) \<Longrightarrow> region vf s' = None"
proof -
  have z: "check_round_up_overflow 0 pf_get_ggtt_alignment = Some 0" by (simp add: check_round_up_overflow_def)
  have "releases s s' \<and> (g = GT_PRIMARY \<longrightarrow> (\<forall>n. region vf s = Some n \<longrightarrow> node_size n \<noteq> 0) \<longrightarrow> region vf s' = None)"
  proof (cases "g = GT_MEDIA \<or> ggtt_region (config g vf s) = None \<or>
      (\<exists>n. ggtt_region (config g vf s) = Some n \<and> node_size n = 0)")
    case True
    then have "s' = s" using assms z by (auto simp: pf_provision_ggtt_def split: if_splits)
    then show ?thesis using True by auto
  next
    case False
    then obtain node where node: "ggtt_region (config g vf s) = Some node" "node_size node \<noteq> 0" "g = GT_PRIMARY"
      by (cases g) auto
    obtain p t where p: "pf_push_config_ggtt E g vf 0 0 s = (p, t)" by force
    have "s' = pf_release_ggtt E g vf node t"
      using assms node p z by (auto simp: pf_provision_ggtt_def Let_def split: sum.splits)
    then show ?thesis
      using releases_trans [OF releases_guc [OF guc_only_push_ggtt [OF p]] releases_ggtt] node(3) region_release
      by auto
  qed
  then show "releases s s'"
    "g = GT_PRIMARY \<Longrightarrow> (\<And>n. region vf s = Some n \<Longrightarrow> node_size n \<noteq> 0) \<Longrightarrow> region vf s' = None" by auto
qed

lemma unprovision_ctxs:
  assumes "pf_provision_ctxs E g vf 0 s = (r, s')" "vf \<noteq> PFID"
  shows "releases s s'" "num_ctxs (config g vf s') = 0"
proof -
  have q: "align_ctxs vf 0 = 0" using assms(2) by (simp add: align_ctxs_def ALIGN_def)
  have "releases s s' \<and> num_ctxs (config g vf s') = 0"
  proof (cases "pf_get_ctxs_quota g vf s = 0")
    case True
    then show ?thesis using assms q by (simp add: pf_provision_ctxs_def pf_get_ctxs_quota_def split: if_splits)
  next
    case False
    then obtain r1 where "pf_provision_ctxs_range E g vf 0 0 s = (r1, s')"
      using assms q by (auto simp: pf_provision_ctxs_def Let_def split: prod.splits)
    then show ?thesis
      by (cases rule: pf_provision_ctxs_range_cases)
        (auto intro!: releases_trans [OF releases_guc releases_upd] simp: less_res_def)
  qed
  then show "releases s s'" "num_ctxs (config g vf s') = 0" by auto
qed

lemma unprovision_dbs:
  assumes "pf_provision_dbs E g vf 0 s = (r, s')"
  shows "releases s s'" "num_dbs (config g vf s') = 0"
proof -
  from assms have "releases s s' \<and> num_dbs (config g vf s') = 0"
  proof (cases rule: pf_provision_dbs_cases)
    case same
    then show ?thesis by simp
  next
    case (released s0 s1)
    have "releases s s0" "num_dbs (config g vf s0) = 0"
      unfolding released(1) by (auto intro!: releases_upd simp: less_res_def)
    then show ?thesis
      using releases_trans [OF _ releases_guc [OF released(2)]] released(3) by (simp add: guc_onlyD [OF released(2)])
  qed simp_all
  then show "releases s s'" "num_dbs (config g vf s') = 0" by auto
qed

lemma releases_exec_quantum: "releases s (snd (pf_provision_exec_quantum E g vf v s))"
  by (auto simp: pf_provision_exec_quantum_def pf_push_config_exec_quantum_def less_res_def
      split: prod.splits sum.splits dest!: guc_only_vf_klv32 intro: releases_guc
      intro!: releases_trans [OF releases_guc releases_upd])

lemma releases_preempt_timeout: "releases s (snd (pf_provision_preempt_timeout E g vf v s))"
  by (auto simp: pf_provision_preempt_timeout_def pf_push_config_preempt_timeout_def less_res_def
      split: prod.splits sum.splits dest!: guc_only_vf_klv32 intro: releases_guc
      intro!: releases_trans [OF releases_guc releases_upd])

lemma releases_threshold: "releases s (snd (pf_provision_threshold E g vf t v s))"
  by (auto simp: pf_provision_threshold_def less_res_def
      split: prod.splits sum.splits dest!: guc_only_vf_klv32 intro: releases_guc
      intro!: releases_trans [OF releases_guc releases_upd])

lemma releases_thresholds: "releases s (pf_unprovision_thresholds E g vf s)"
proof -
  have "releases s (fold (\<lambda>t s. snd (pf_provision_threshold E g vf t 0 s)) ts s)" for ts
    by (induction ts arbitrary: s) (auto intro: releases_trans [OF releases_threshold])
  then show ?thesis by (simp add: pf_unprovision_thresholds_def)
qed

definition no_resources :: "intel_gt_type \<Rightarrow> nat \<Rightarrow> i915_state \<Rightarrow> bool" where
  "no_resources g vf s \<longleftrightarrow> (g = GT_PRIMARY \<longrightarrow> region vf s = None) \<and>
     num_ctxs (config g vf s) = 0 \<and> num_dbs (config g vf s) = 0"

definition regions_sized :: "i915_state \<Rightarrow> bool" where
  "regions_sized s \<longleftrightarrow> (\<forall>vf n. region vf s = Some n \<longrightarrow> node_size n \<noteq> 0)"

lemma releases_no_resources: "releases s s' \<Longrightarrow> no_resources g vf s \<Longrightarrow> no_resources g vf s'"
  unfolding releases_def less_res_def no_resources_def by metis

lemma releases_regions_sized: "releases s s' \<Longrightarrow> regions_sized s \<Longrightarrow> regions_sized s'"
  unfolding releases_def less_res_def regions_sized_def by (metis option.distinct(1))

lemma unprovision_config:
  assumes "vf \<noteq> PFID"
  shows "releases s (pf_unprovision_config E g vf s)"
    and "regions_sized s \<Longrightarrow> no_resources g vf (pf_unprovision_config E g vf s)"
proof -
  define s1 where "s1 = snd (pf_provision_ggtt E g vf 0 s)"
  define s2 where "s2 = snd (pf_provision_ctxs E g vf 0 s1)"
  define s3 where "s3 = snd (pf_provision_dbs E g vf 0 s2)"
  define s4 where "s4 = snd (pf_provision_exec_quantum E g vf 0 s3)"
  define s5 where "s5 = snd (pf_provision_preempt_timeout E g vf 0 s4)"
  have eq: "pf_unprovision_config E g vf s = pf_unprovision_thresholds E g vf s5"
    by (simp add: pf_unprovision_config_def Let_def s1_def s2_def s3_def s4_def s5_def)
  note g = unprovision_ggtt [where E = E and g = g and vf = vf and s = s, OF surjective_pairing, folded s1_def]
  note c = unprovision_ctxs [where E = E and g = g and vf = vf and s = s1, OF surjective_pairing assms, folded s2_def]
  note d = unprovision_dbs [where E = E and g = g and vf = vf and s = s2, OF surjective_pairing, folded s3_def]
  have r35: "releases s3 (pf_unprovision_config E g vf s)"
    unfolding eq s4_def s5_def
    by (intro releases_trans [OF releases_exec_quantum releases_trans [OF releases_preempt_timeout releases_thresholds]])
  have r13: "releases s1 s3" using releases_trans [OF c(1) d(1)] .
  show "releases s (pf_unprovision_config E g vf s)"
    using releases_trans [OF g(1) releases_trans [OF r13 r35]] .
  assume "regions_sized s"
  then have "g = GT_PRIMARY \<longrightarrow> region vf s1 = None" using g(2) by (simp add: regions_sized_def)
  then have "no_resources g vf s3"
    using r13 c(2) d unfolding no_resources_def releases_def less_res_def by metis
  then show "no_resources g vf (pf_unprovision_config E g vf s)" using releases_no_resources [OF r35] by simp
qed


section \<open>The frame of a GGTT change\<close>

definition ggtt_step :: "nat \<Rightarrow> i915_state \<Rightarrow> i915_state \<Rightarrow> bool" where
  "ggtt_step vf s s' \<longleftrightarrow>
     pf_get_totalvfs s' = pf_get_totalvfs s \<and> disable_auto_provisioning s' = disable_auto_provisioning s \<and>
     (\<forall>g. auto_mode (provisioning g s') = auto_mode (provisioning g s)) \<and>
     (\<forall>g v. g \<noteq> GT_PRIMARY \<or> v \<noteq> vf \<longrightarrow> config g v s' = config g v s) \<and>
     (\<exists>r. config GT_PRIMARY vf s' = (config GT_PRIMARY vf s)\<lparr>ggtt_region := r\<rparr>)"

lemma region_self [simp]: "\<exists>r. c = c\<lparr>ggtt_region := r\<rparr>" for c :: intel_iov_config
  by (rule exI [of _ "ggtt_region c"]) simp

lemma ggtt_step_refl [simp]: "ggtt_step vf s s"
  by (simp add: ggtt_step_def)

lemma ggtt_step_trans [trans]: "ggtt_step vf s s1 \<Longrightarrow> ggtt_step vf s1 s2 \<Longrightarrow> ggtt_step vf s s2"
  unfolding ggtt_step_def by (metis (no_types, lifting) intel_iov_config.cases intel_iov_config.update_convs(1))

lemma ggtt_step_guc: "guc_only s s' \<Longrightarrow> ggtt_step vf s s'"
  by (simp add: ggtt_step_def guc_onlyD)

lemma ggtt_step_pt: "pt_only s s' \<Longrightarrow> ggtt_step vf s s'"
  by (simp add: ggtt_step_def pt_onlyD)

lemma ggtt_step_upd: "ggtt_step vf s (upd_config GT_PRIMARY vf (\<lambda>c. c\<lparr>ggtt_region := r\<rparr>) s)"
  by (auto simp: ggtt_step_def)

lemma ggtt_step_release: "ggtt_step vf s (pf_release_ggtt E GT_PRIMARY vf node s)"
  unfolding pf_release_ggtt_def
  by (rule ggtt_step_trans [OF ggtt_step_pt ggtt_step_upd])
    (rule pt_only_trans [OF pt_only_set_space_owner pt_only_vf_free])

lemma ggtt_step_insert:
  assumes "i915_gem_gtt_insert E sz al st en s = (Inr node, s1)"
  shows "ggtt_step vf s s1" "node_size node = sz"
proof -
  have "ggtt_step vf s (s\<lparr>ggtt_pf_nodes := pf\<rparr>)" for pf
    by (simp add: ggtt_step_def pf_get_totalvfs_def)
  then have "ggtt_step vf s s1 \<and> node_size node = sz"
    using assms by (auto simp: i915_gem_gtt_insert_def split: if_splits sum.splits)
  then show "ggtt_step vf s s1" "node_size node = sz" by auto
qed

lemma pf_insert_ggtt_step:
  assumes "pf_insert_ggtt E GT_PRIMARY vf sz s = (r, s')"
  shows "ggtt_step vf s s'"
    and "case r of Inl e \<Rightarrow> region vf s' = None \<or> region vf s' = region vf s
         | Inr u \<Rightarrow> \<exists>n. region vf s' = Some n \<and> node_size n = sz"
proof -
  have "ggtt_step vf s s' \<and> (case r of Inl e \<Rightarrow> region vf s' = None \<or> region vf s' = region vf s
         | Inr u \<Rightarrow> \<exists>n. region vf s' = Some n \<and> node_size n = sz)"
  proof (cases "sz > ggtt_total s \<or> sz > pf_get_max_ggtt E GT_PRIMARY s")
    case True
    then show ?thesis using assms by (auto simp: pf_insert_ggtt_def split: if_splits)
  next
    case fits: False
    obtain q s1 where i: "i915_gem_gtt_insert E sz pf_get_ggtt_alignment (ggtt_pin_bias s) GUC_GGTT_TOP s = (q, s1)" by force
    show ?thesis
    proof (cases q)
      case (Inl e)
      then have "s1 = s" using i by (auto simp: i915_gem_gtt_insert_def split: if_splits sum.splits prod.splits)
      then show ?thesis using assms fits i Inl by (auto simp: pf_insert_ggtt_def)
    next
      case q: (Inr node)
      let ?s2 = "upd_config GT_PRIMARY vf (\<lambda>c. c\<lparr>ggtt_region := Some node\<rparr>) s1"
      note ins = ggtt_step_insert [OF i [unfolded q]]
      have s2: "ggtt_step vf s ?s2" using ggtt_step_trans [OF ins(1) ggtt_step_upd] .
      obtain a s3 where al: "intel_iov_ggtt_shadow_vf_alloc E GT_PRIMARY vf node ?s2 = (a, s3)" by force
      have s3: "ggtt_step vf s s3" "region vf s3 = Some node"
        using ggtt_step_trans [OF s2 ggtt_step_pt [OF vf_alloc_pt(1) [OF al]]] pt_onlyD(1) [OF vf_alloc_pt(1) [OF al]]
        by simp_all
      show ?thesis
      proof (cases a)
        case (Inl e)
        then have "r = Inl e" "s' = pf_release_ggtt E GT_PRIMARY vf node s3"
          using assms fits i q al by (auto simp: pf_insert_ggtt_def)
        then show ?thesis using ggtt_step_trans [OF s3(1) ggtt_step_release] region_release by simp
      next
        case ar: (Inr u)
        let ?s4 = "i915_ggtt_set_space_owner E vf node s3"
        obtain p s5 where p: "pf_push_config_ggtt E GT_PRIMARY vf (node_start node) (node_size node) ?s4 = (p, s5)" by force
        note g = guc_only_push_ggtt [OF p]
        have s5: "ggtt_step vf s s5" "region vf s5 = Some node"
          using ggtt_step_trans [OF s3(1) ggtt_step_trans [OF ggtt_step_pt [OF pt_only_set_space_owner] ggtt_step_guc [OF g]]]
            s3(2) guc_onlyD(1) [OF g] pt_onlyD(1) [OF pt_only_set_space_owner] by simp_all
        show ?thesis
        proof (cases p)
          case (Inl e)
          then have "r = Inl e" "s' = pf_release_ggtt E GT_PRIMARY vf node s5"
            using assms fits i q al ar p by (auto simp: pf_insert_ggtt_def)
          then show ?thesis using ggtt_step_trans [OF s5(1) ggtt_step_release] region_release by simp
        next
          case (Inr u)
          then have "r = Inr ()" "s' = s5" using assms fits i q al ar p by (auto simp: pf_insert_ggtt_def)
          then show ?thesis using s5 ins(2) by simp
        qed
      qed
    qed
  qed
  then show "ggtt_step vf s s'" "case r of Inl e \<Rightarrow> region vf s' = None \<or> region vf s' = region vf s
         | Inr u \<Rightarrow> \<exists>n. region vf s' = Some n \<and> node_size n = sz" by auto
qed

text \<open>Provisioning a VF that has no region yet.\<close>

lemma pf_provision_ggtt_step:
  assumes "pf_provision_ggtt E GT_PRIMARY vf sz s = (r, s')" "region vf s = None" "sz \<noteq> 0"
  shows "ggtt_step vf s s'"
    and "case r of Inl e \<Rightarrow> region vf s' = None
         | Inr u \<Rightarrow> \<exists>n. region vf s' = Some n \<and> Some (node_size n) = check_round_up_overflow sz 4096"
proof -
  have "ggtt_step vf s s' \<and> (case r of Inl e \<Rightarrow> region vf s' = None
         | Inr u \<Rightarrow> \<exists>n. region vf s' = Some n \<and> Some (node_size n) = check_round_up_overflow sz 4096)"
  proof (cases "check_round_up_overflow sz pf_get_ggtt_alignment")
    case None
    then show ?thesis using assms by (auto simp: pf_provision_ggtt_def)
  next
    case (Some d)
    then have "pf_insert_ggtt E GT_PRIMARY vf d s = (r, s')"
      using assms check_round_up_aligned [OF Some] by (auto simp: pf_provision_ggtt_def)
    from pf_insert_ggtt_step [OF this] show ?thesis
      using assms(2) Some by (auto simp: pf_get_ggtt_alignment_def split: sum.splits)
  qed
  then show "ggtt_step vf s s'" "case r of Inl e \<Rightarrow> region vf s' = None
         | Inr u \<Rightarrow> \<exists>n. region vf s' = Some n \<and> Some (node_size n) = check_round_up_overflow sz 4096" by auto
qed


section \<open>Fair shares\<close>

text \<open>
  The contract the loops of automatic provisioning share: a loop that gives each VF that has
  nothing yet the same amount, stops at the first failure, and whose steps keep a relation between
  states and the amounts of the other VFs.
\<close>

locale fair_loop =
  fixes loop :: "nat list \<Rightarrow> i915_state \<Rightarrow> unit res \<times> i915_state"
    and taken :: "nat \<Rightarrow> i915_state \<Rightarrow> bool"
    and prov_op :: "nat \<Rightarrow> i915_state \<Rightarrow> unit res \<times> i915_state"
    and share :: "nat \<Rightarrow> i915_state \<Rightarrow> bool"
    and keeps :: "i915_state \<Rightarrow> i915_state \<Rightarrow> bool"
  assumes loop_Nil: "loop [] s = (Inr (), s)"
    and loop_Cons: "loop (n # ns) s =
      (if taken n s then (Inl EUCLEAN, s)
       else case prov_op n s of (Inl e, s1) \<Rightarrow> (Inl e, s1) | (Inr u, s1) \<Rightarrow> loop ns s1)"
    and prov_share: "\<not> taken n s \<Longrightarrow> n \<noteq> PFID \<Longrightarrow> prov_op n s = (Inr u, s') \<Longrightarrow> share n s'"
    and prov_other: "\<not> taken n s \<Longrightarrow> prov_op n s = (r, s') \<Longrightarrow> m \<noteq> n \<Longrightarrow> share m s \<Longrightarrow> share m s'"
    and prov_keeps: "\<not> taken n s \<Longrightarrow> prov_op n s = (r, s') \<Longrightarrow> keeps s s'"
    and keeps_refl: "keeps s s"
    and keeps_trans: "keeps s s1 \<Longrightarrow> keeps s1 s2 \<Longrightarrow> keeps s s2"
begin

lemma loop_keeps: "loop ns s = (r, s') \<Longrightarrow> keeps s s'"
proof (induction ns arbitrary: s)
  case Nil
  then show ?case by (simp add: loop_Nil keeps_refl)
next
  case (Cons n ns)
  then show ?case
    by (auto simp: loop_Cons keeps_refl split: if_splits prod.splits sum.splits
        dest: prov_keeps intro: keeps_trans)
qed

lemma loop_other: "loop ns s = (r, s') \<Longrightarrow> m \<notin> set ns \<Longrightarrow> share m s \<Longrightarrow> share m s'"
  by (induction ns arbitrary: s)
    (auto simp: loop_Nil loop_Cons split: if_splits prod.splits sum.splits dest: prov_other)

lemma loop_share:
  "loop ns s = (Inr u, s') \<Longrightarrow> distinct ns \<Longrightarrow> PFID \<notin> set ns \<Longrightarrow> n \<in> set ns \<Longrightarrow> share n s'"
proof (induction ns arbitrary: s)
  case (Cons k ks)
  obtain v s1 where k: "\<not> taken k s" "prov_op k s = (Inr v, s1)" "loop ks s1 = (Inr u, s')"
    using Cons.prems(1) by (auto simp: loop_Cons split: if_splits prod.splits sum.splits)
  show ?case
  proof (cases "n = k")
    case True
    then show ?thesis using loop_other [OF k(3), of n] prov_share [OF k(1) _ k(2)] Cons.prems by auto
  next
    case False
    then show ?thesis using Cons.IH [OF k(3)] Cons.prems by auto
  qed
qed simp

end

text \<open>What a step keeps besides the resource it gives out.\<close>

definition keeps_but_ggtt :: "i915_state \<Rightarrow> i915_state \<Rightarrow> bool" where
  "keeps_but_ggtt s s' \<longleftrightarrow> pf_get_totalvfs s' = pf_get_totalvfs s \<and>
     (\<forall>g. auto_mode (provisioning g s') = auto_mode (provisioning g s)) \<and>
     (regions_sized s \<longrightarrow> regions_sized s')"

definition keeps_but_ctxs :: "i915_state \<Rightarrow> i915_state \<Rightarrow> bool" where
  "keeps_but_ctxs s s' \<longleftrightarrow> pf_get_totalvfs s' = pf_get_totalvfs s \<and>
     (\<forall>g. auto_mode (provisioning g s') = auto_mode (provisioning g s)) \<and>
     (\<forall>g vf. ggtt_region (config g vf s') = ggtt_region (config g vf s))"

definition keeps_but_dbs :: "i915_state \<Rightarrow> i915_state \<Rightarrow> bool" where
  "keeps_but_dbs s s' \<longleftrightarrow> keeps_but_ctxs s s' \<and>
     (\<forall>g vf. num_ctxs (config g vf s') = num_ctxs (config g vf s))"

lemma keeps_ctxs: "cfg_only ctxs_fields g vf s s' \<Longrightarrow> keeps_but_ctxs s s'"
proof -
  assume c: "cfg_only ctxs_fields g vf s s'"
  have "ggtt_region (config g' vf' s') = ggtt_region (config g' vf' s)" for g' vf'
    using cfg_onlyD(1) [OF c] cfg_onlyD(2) [OF c, of g' vf'] by (cases "g' = g \<and> vf' = vf") (auto simp: ctxs_fields_def)
  moreover have "auto_mode (provisioning g' s') = auto_mode (provisioning g' s)" for g'
    using cfg_onlyD(3) [OF c, of g'] by auto
  ultimately show ?thesis using cfg_onlyD(19) [OF c] by (simp add: keeps_but_ctxs_def)
qed

lemma keeps_dbs: "cfg_only dbs_fields g vf s (unleak s s') \<Longrightarrow> keeps_but_dbs s s'"
proof -
  assume c: "cfg_only dbs_fields g vf s (unleak s s')"
  have u: "gts (unleak s s') = gts s'" "pf_get_totalvfs (unleak s s') = pf_get_totalvfs s'"
    by (simp_all add: unleak_def pf_get_totalvfs_def)
  have "ggtt_region (config g' vf' s') = ggtt_region (config g' vf' s)"
    "num_ctxs (config g' vf' s') = num_ctxs (config g' vf' s)" for g' vf'
    using cfg_onlyD(1) [OF c] cfg_onlyD(2) [OF c, of g' vf'] u by (cases "g' = g \<and> vf' = vf", auto simp: dbs_fields_def)+
  moreover have "auto_mode (provisioning g' s') = auto_mode (provisioning g' s)" for g'
    using cfg_onlyD(3) [OF c, of g'] u by auto
  ultimately show ?thesis using cfg_onlyD(19) [OF c] u by (simp add: keeps_but_dbs_def keeps_but_ctxs_def)
qed

interpretation ctxs_loop: fair_loop "auto_ctxs_loop E g fair" "pf_is_valid_config_ctxs g"
  "\<lambda>n. pf_provision_ctxs E g n fair" "\<lambda>n s. num_ctxs (config g n s) = align_ctxs n fair" keeps_but_ctxs
  for E g fair
proof unfold_locales
  show "pf_provision_ctxs E g n fair s = (r, s') \<Longrightarrow> m \<noteq> n \<Longrightarrow> num_ctxs (config g m s) = align_ctxs m fair \<Longrightarrow>
      num_ctxs (config g m s') = align_ctxs m fair" for n s r s' m
    using cfg_onlyD(2) [OF ctxs_only_pf_provision_ctxs] by metis
  show "pf_provision_ctxs E g n fair s = (r, s') \<Longrightarrow> keeps_but_ctxs s s'" for n s r s'
    by (rule keeps_ctxs [OF ctxs_only_pf_provision_ctxs])
qed (auto dest: pf_provision_ctxs_success simp: keeps_but_ctxs_def)

interpretation dbs_loop: fair_loop "auto_dbs_loop E g fair" "pf_is_valid_config_dbs g"
  "\<lambda>n. pf_provision_dbs E g n fair" "\<lambda>n s. num_dbs (config g n s) = fair" keeps_but_dbs
  for E g fair
proof unfold_locales
  show "pf_provision_dbs E g n fair s = (r, s') \<Longrightarrow> m \<noteq> n \<Longrightarrow> num_dbs (config g m s) = fair \<Longrightarrow>
      num_dbs (config g m s') = fair" for n s r s' m
    using cfg_onlyD(2) [OF dbs_only_pf_provision_dbs, of E g n fair s r s' g m] by (simp add: unleak_def)
  show "pf_provision_dbs E g n fair s = (r, s') \<Longrightarrow> keeps_but_dbs s s'" for n s r s'
    by (rule keeps_dbs [OF dbs_only_pf_provision_dbs])
qed (auto dest: pf_provision_dbs_success simp: keeps_but_dbs_def keeps_but_ctxs_def)

lemma auto_ggtt_step:
  assumes "\<not> pf_is_valid_config_ggtt g n s" "g = GT_PRIMARY" "fair \<noteq> 0" "pf_provision_ggtt E g n fair s = (r, s')"
  shows "ggtt_step n s s'" "regions_sized s \<Longrightarrow> regions_sized s'"
    "r = Inr u \<Longrightarrow> \<exists>k. region n s' = Some k \<and> check_round_up_overflow fair 4096 = Some (node_size k)"
proof -
  have rg: "region n s = None" using assms(1,2) by (simp add: pf_is_valid_config_ggtt_def)
  note st = pf_provision_ggtt_step [OF assms(4) [unfolded assms(2)] rg assms(3)]
  show "ggtt_step n s s'" by (rule st(1))
  show "r = Inr u \<Longrightarrow> \<exists>k. region n s' = Some k \<and> check_round_up_overflow fair 4096 = Some (node_size k)"
    using st(2) by (auto dest: sym)
  have "node_size k \<noteq> 0" if "region n s' = Some k" for k
  proof (cases r)
    case (Inl e)
    then show ?thesis using st(2) that by simp
  next
    case (Inr u)
    then have "check_round_up_overflow fair pf_get_ggtt_alignment = Some (node_size k)"
      using st(2) that by (auto simp: pf_get_ggtt_alignment_def)
    then show ?thesis using check_round_up_aligned assms(3) by blast
  qed
  then show "regions_sized s \<Longrightarrow> regions_sized s'"
    using st(1) unfolding regions_sized_def ggtt_step_def by metis
qed


lemma keeps_ggtt_step: "ggtt_step n s s' \<Longrightarrow> (regions_sized s \<longrightarrow> regions_sized s') \<Longrightarrow> keeps_but_ggtt s s'"
  by (simp add: keeps_but_ggtt_def ggtt_step_def)

interpretation ggtt_loop: fair_loop "auto_ggtt_loop E GT_PRIMARY fair" "pf_is_valid_config_ggtt GT_PRIMARY"
  "\<lambda>n. pf_provision_ggtt E GT_PRIMARY n fair"
  "\<lambda>n s. fair \<noteq> 0 \<longrightarrow> (\<exists>k. region n s = Some k \<and> check_round_up_overflow fair 4096 = Some (node_size k))" keeps_but_ggtt
  for E fair
proof unfold_locales
  have zero: "pf_provision_ggtt E GT_PRIMARY n 0 s = (Inr (), s)" if "\<not> pf_is_valid_config_ggtt GT_PRIMARY n s" for n s
    using that by (simp add: pf_is_valid_config_ggtt_def pf_provision_ggtt_def check_round_up_overflow_def)
  fix n s r s' assume tk: "\<not> pf_is_valid_config_ggtt GT_PRIMARY n s" and p: "pf_provision_ggtt E GT_PRIMARY n fair s = (r, s')"
  show "keeps_but_ggtt s s'"
  proof (cases "fair = 0")
    case True
    then show ?thesis using p zero [OF tk] by (simp add: keeps_but_ggtt_def)
  next
    case False
    then show ?thesis using keeps_ggtt_step auto_ggtt_step(1,2) [OF tk refl _ p] by blast
  qed
  fix m assume "m \<noteq> n" and sh: "fair \<noteq> 0 \<longrightarrow> (\<exists>k. region m s = Some k \<and> check_round_up_overflow fair 4096 = Some (node_size k))"
  show "fair \<noteq> 0 \<longrightarrow> (\<exists>k. region m s' = Some k \<and> check_round_up_overflow fair 4096 = Some (node_size k))"
  proof
    assume f: "fair \<noteq> 0"
    then have "region m s' = region m s"
      using auto_ggtt_step(1) [OF tk refl f p] \<open>m \<noteq> n\<close> by (simp add: ggtt_step_def)
    then show "\<exists>k. region m s' = Some k \<and> check_round_up_overflow fair 4096 = Some (node_size k)" using sh f by simp
  qed
next
  fix n s u s' assume "\<not> pf_is_valid_config_ggtt GT_PRIMARY n s" "pf_provision_ggtt E GT_PRIMARY n fair s = (Inr u, s')"
  then show "fair \<noteq> 0 \<longrightarrow> (\<exists>k. region n s' = Some k \<and> check_round_up_overflow fair 4096 = Some (node_size k))"
    using auto_ggtt_step(3) by blast
qed (simp_all add: keeps_but_ggtt_def split: prod.splits)

lemma unprovision_all:
  assumes "regions_sized s"
  shows "1 \<le> vf \<Longrightarrow> vf \<le> pf_get_totalvfs s \<Longrightarrow> no_resources g vf (pf_unprovision_all E g s)"
    and "releases s (pf_unprovision_all E g s)"
proof -
  have rel: "PFID \<notin> set ns \<Longrightarrow> releases t (fold (pf_unprovision_config E g) ns t)" for ns t
  proof (induction ns arbitrary: t)
    case (Cons n ns)
    have "releases t (pf_unprovision_config E g n t)" using Cons.prems by (intro unprovision_config(1)) auto
    then show ?case using Cons.IH Cons.prems releases_trans by fastforce
  qed simp
  show "releases s (pf_unprovision_all E g s)"
    unfolding pf_unprovision_all_def by (rule rel) simp
  have "vf \<in> set ns \<Longrightarrow> PFID \<notin> set ns \<Longrightarrow> regions_sized t \<Longrightarrow>
      no_resources g vf (fold (pf_unprovision_config E g) ns t)" for ns t
  proof (induction ns arbitrary: t)
    case (Cons n ns)
    let ?t = "pf_unprovision_config E g n t"
    have sized: "regions_sized ?t"
      using Cons.prems releases_regions_sized [OF unprovision_config(1)] by simp
    show ?case
    proof (cases "vf \<in> set ns")
      case True
      then show ?thesis using Cons.IH [OF True _ sized] Cons.prems by simp
    next
      case False
      then have "no_resources g vf ?t" using Cons.prems unprovision_config(2) by simp
      then show ?thesis using releases_no_resources [OF rel] Cons.prems by simp
    qed
  qed simp
  then show "1 \<le> vf \<Longrightarrow> vf \<le> pf_get_totalvfs s \<Longrightarrow> no_resources g vf (pf_unprovision_all E g s)"
    using assms unfolding pf_unprovision_all_def by (simp del: upt_Suc)
qed

lemma align_ctxs_multiple:
  assumes "vf \<noteq> PFID" "unat n mod 128 = 0"
  shows "align_ctxs vf n = n"
proof -
  have "(unat n + 127) div 128 * 128 = unat n"
  proof -
    obtain k where "unat n = 128 * k" using assms(2) by auto
    then show ?thesis by simp
  qed
  moreover have "unat n \<le> 65408"
    using assms(2) u16_bound [of n] by presburger
  ultimately show ?thesis using unat_align_ctxs [OF assms(1), of n] by (simp add: word_unat_eq_iff)
qed


section \<open>Properties\<close>

text \<open>
  Property C10. When the PF goes away it takes back every GGTT region, context and doorbell of every
  VF, whatever the GuC replies to the requests on the way.
\<close>

theorem fini_unprovisions_all:
  assumes "regions_sized s" "1 \<le> vf" "vf \<le> pf_get_totalvfs s"
  shows "no_resources g vf (intel_iov_provisioning_fini E g s)"
proof -
  let ?t = "pf_fini_reprovisioning_worker g s"
  have "releases s ?t" unfolding pf_fini_reprovisioning_worker_def by (rule releases_upd_prov) simp
  then have "regions_sized ?t" "pf_get_totalvfs ?t = pf_get_totalvfs s"
    using assms(1) releases_regions_sized by (auto simp: releases_def)
  then show ?thesis
    unfolding intel_iov_provisioning_fini_def using unprovision_all(1) assms(2,3) by simp
qed

lemma regions_sized_two_page: "regions_sized two_page_state"
  by (auto simp: regions_sized_def two_page_state_def zero_config_def split: if_splits)

theorem fini_unprovisions_all_witness:
  "region 1 two_page_state \<noteq> None \<and> no_resources GT_PRIMARY 1 (intel_iov_provisioning_fini quiet_env GT_PRIMARY two_page_state)"
proof -
  have "pf_get_totalvfs two_page_state = 2" by (simp add: two_page_state_def)
  then show ?thesis
    using fini_unprovisions_all [OF regions_sized_two_page] two_page_region(1) by simp
qed

text \<open>
  Property C11. Automatic provisioning that succeeds gives every VF the same non-zero amount of
  contexts, of doorbells and (on the primary GT) of GGTT, and remembers that it did.
\<close>

theorem auto_provisioning_fair:
  assumes "intel_iov_provisioning_auto E g num_vfs s = (Inr u, s')" "num_vfs \<noteq> 0"
  shows "pf_is_auto_provisioned g s' \<and>
    (\<exists>ctxs dbs sz. ctxs \<noteq> 0 \<and> dbs \<noteq> 0 \<and> (\<forall>n. 1 \<le> n \<and> n \<le> num_vfs \<longrightarrow>
       intel_iov_provisioning_get_ctxs g n s' = ctxs \<and>
       intel_iov_provisioning_get_dbs g n s' = dbs \<and>
       (g = GT_PRIMARY \<longrightarrow> intel_iov_provisioning_get_ggtt g n s' = sz \<and> sz \<noteq> 0)))"
proof -
  let ?s0 = "pf_set_auto_provisioning g True s"
  obtain s1 s2 where g1: "if g \<noteq> GT_MEDIA then pf_auto_provision_ggtt E g num_vfs ?s0 = (Inr (), s1) else s1 = ?s0"
    and c2: "pf_auto_provision_ctxs E g num_vfs s1 = (Inr (), s2)"
    and d3: "pf_auto_provision_dbs E g num_vfs s2 = (Inr (), s')"
    using assms by (auto simp: intel_iov_provisioning_auto_def pf_auto_provision_def Let_def
        split: if_splits prod.splits sum.splits)
  have dist: "distinct [1..<Suc num_vfs]" "PFID \<notin> set [1..<Suc num_vfs]" by simp_all
  obtain fair_d where fd: "fair_d \<noteq> 0" and d: "auto_dbs_loop E g fair_d [1..<Suc num_vfs] s2 = (Inr (), s')"
    using d3 by (auto simp: pf_auto_provision_dbs_def Let_def split: if_splits)
  obtain fair_c t where fc: "fair_c \<noteq> 0" "unat fair_c mod 128 = 0"
    and c: "auto_ctxs_loop E g fair_c [1..<Suc num_vfs] t = (Inr (), s2)"
    and t: "t = s1\<lparr>allocs := Suc (allocs s1)\<rparr>"
  proof -
    obtain av where av: "pf_get_ctxs_free E g s1 = (av, s1\<lparr>allocs := Suc (allocs s1)\<rparr>)"
      using pf_get_ctxs_free_state [of E g s1] by (metis prod.collapse)
    let ?n = "unat av div num_vfs div 128 * 128"
    have "?n \<le> 65535" using u16_bound [of av] div_le_dividend [of "unat av" num_vfs]
      by (meson div_times_less_eq_dividend le_trans)
    then have "unat (of_nat ?n :: u16) = ?n" by (intro unat_of_nat_u16) simp
    then have "unat (of_nat ?n :: u16) mod 128 = 0" by (simp only: mod_mult_self2_is_0)
    moreover have c2': "(if of_nat ?n = (0 :: u16) then (Inl ENOSPC, s1\<lparr>allocs := Suc (allocs s1)\<rparr>)
        else auto_ctxs_loop E g (of_nat ?n) [1..<Suc num_vfs] (s1\<lparr>allocs := Suc (allocs s1)\<rparr>)) = (Inr (), s2)"
      using c2 unfolding pf_auto_provision_ctxs_def av prod.case Let_def .
    moreover have "of_nat ?n \<noteq> (0 :: u16)"
    proof
      assume "of_nat ?n = (0 :: u16)"
      with c2' show False by (simp only: if_True prod.inject Inl_Inr_False simp_thms)
    qed
    ultimately show thesis using that by (simp only: if_False simp_thms)
  qed
  have dk: "keeps_but_dbs s2 s'" using dbs_loop.loop_keeps [OF d] .
  have ck: "keeps_but_ctxs s1 s2"
    using ctxs_loop.loop_keeps [OF c] by (simp add: t keeps_but_ctxs_def pf_get_totalvfs_def)
  have "n \<in> set [1..<Suc num_vfs] \<Longrightarrow> num_dbs (config g n s') = fair_d" for n
    by (rule dbs_loop.loop_share [OF d dist])
  moreover have "num_ctxs (config g n s') = fair_c" if n: "n \<in> set [1..<Suc num_vfs]" for n
  proof -
    have "num_ctxs (config g n s2) = align_ctxs n fair_c" using ctxs_loop.loop_share [OF c dist n] .
    then show ?thesis using dk n align_ctxs_multiple [of n fair_c] fc(2) by (auto simp: keeps_but_dbs_def)
  qed
  moreover have "\<exists>sz. \<forall>n \<in> set [1..<Suc num_vfs]. g = GT_PRIMARY \<longrightarrow> (\<exists>k. region n s' = Some k \<and> node_size k = sz \<and> sz \<noteq> 0)"
  proof (cases "g = GT_PRIMARY")
    case True
    then obtain fair_g where fg: "fair_g \<noteq> 0" and l: "auto_ggtt_loop E GT_PRIMARY fair_g [1..<Suc num_vfs] ?s0 = (Inr (), s1)"
      using g1 by (auto simp: pf_auto_provision_ggtt_def Let_def split: if_splits)
    have rg: "\<exists>k. region n s' = Some k \<and> check_round_up_overflow fair_g 4096 = Some (node_size k)"
      if "n \<in> set [1..<Suc num_vfs]" for n
      using ggtt_loop.loop_share [OF l dist that] fg dk ck by (simp add: keeps_but_dbs_def keeps_but_ctxs_def)
    have "1 \<in> set [1..<Suc num_vfs]" using assms(2) by (auto simp del: upt_Suc)
    then obtain sz where sz: "check_round_up_overflow fair_g 4096 = Some sz" using rg by blast
    have nz: "sz \<noteq> 0"
      using check_round_up_aligned [of fair_g sz] fg sz by (simp add: pf_get_ggtt_alignment_def)
    have "\<exists>k. region n s' = Some k \<and> node_size k = sz \<and> sz \<noteq> 0" if "n \<in> set [1..<Suc num_vfs]" for n
      using rg [OF that] sz nz by auto
    then show ?thesis by blast
  qed simp
  moreover have "auto_mode (provisioning g s')"
  proof -
    have "auto_mode (provisioning g ?s0)" by (simp add: pf_set_auto_provisioning_def)
    moreover have "auto_mode (provisioning g s1) = auto_mode (provisioning g ?s0)"
      using g1 ggtt_loop.loop_keeps
      by (cases g) (auto simp: pf_auto_provision_ggtt_def Let_def keeps_but_ggtt_def split: if_splits, blast?)
    ultimately show ?thesis using dk ck by (simp add: keeps_but_dbs_def keeps_but_ctxs_def)
  qed
  ultimately obtain sz where d': "\<And>n. 1 \<le> n \<Longrightarrow> n \<le> num_vfs \<Longrightarrow> num_dbs (config g n s') = fair_d"
    and c': "\<And>n. 1 \<le> n \<Longrightarrow> n \<le> num_vfs \<Longrightarrow> num_ctxs (config g n s') = fair_c"
    and g': "\<And>n. 1 \<le> n \<Longrightarrow> n \<le> num_vfs \<Longrightarrow> g = GT_PRIMARY \<Longrightarrow>
      \<exists>k. region n s' = Some k \<and> node_size k = sz \<and> sz \<noteq> 0"
    and am: "auto_mode (provisioning g s')"
    by (metis atLeastLessThan_iff le_imp_less_Suc set_upt)
  have "\<forall>n. 1 \<le> n \<and> n \<le> num_vfs \<longrightarrow>
      intel_iov_provisioning_get_ctxs g n s' = fair_c \<and> intel_iov_provisioning_get_dbs g n s' = fair_d \<and>
      (g = GT_PRIMARY \<longrightarrow> intel_iov_provisioning_get_ggtt g n s' = sz \<and> sz \<noteq> 0)"
  proof (intro allI impI conjI, goal_cases)
    case (1 n) then show ?case using c' by (simp add: intel_iov_provisioning_get_ctxs_def pf_get_ctxs_quota_def)
  next
    case (2 n) then show ?case using d' by (simp add: intel_iov_provisioning_get_dbs_def)
  next
    case (3 n) then show ?case using g' [of n] by (auto simp: intel_iov_provisioning_get_ggtt_def)
  next
    case (4 n) then show ?case using g' [of n] by blast
  qed
  then show ?thesis using fd fc(1) am unfolding pf_is_auto_provisioned_def by blast
qed


text \<open>Every VF on a fresh device can be provisioned with all that one VF can get.\<close>

lemma fresh_auto_media:
  "\<exists>s'. intel_iov_provisioning_auto quiet_env GT_MEDIA 1 fresh_state = (Inr (), s')"
proof -
  let ?g = GT_MEDIA
  let ?s0 = "pf_set_auto_provisioning ?g True fresh_state"
  let ?s1 = "?s0\<lparr>allocs := Suc (allocs ?s0)\<rparr>"
  let ?z = "upd_config ?g 1 (\<lambda>c. c\<lparr>begin_ctx := 0, num_ctxs := 0\<rparr>)"
  have np: "\<not> pf_needs_push_config g 1 s" if "pci_num_vf s = 0" for g s
    using that by (simp add: pf_needs_push_config_def pf_is_vf_enabled_def pf_get_numvfs_def)
  have cf: "configs (provisioning ?g ?s0) = (\<lambda>_. zero_config)" "guc_ids_in_use (gts ?s0 ?g) = 0"
    "spare_num_ctxs (spare (provisioning ?g ?s0)) = 0" "spare_num_dbs (spare (provisioning ?g ?s0)) = 0" "pci_num_vf ?s0 = 0"
    by (simp_all add: pf_set_auto_provisioning_def fresh_state_def fresh_gt_def)
  have al: "align_ctxs 1 256 = (256 :: u16)" by (simp add: align_ctxs_def ALIGN_def)
  have res: "pf_reserved_ctxs ?g ?s0 = 256"
    using cf by (simp add: pf_reserved_ctxs_def pf_get_ctxs_quota_def pf_get_spare_ctxs_def
        pf_get_min_spare_ctxs_def zero_config_def al [simplified])
  have "fst (pf_get_ctxs_free quiet_env ?g ?s0) = 65280"
    using cf res by (simp add: pf_get_ctxs_free_def quiet_bitmap fresh_clear_ranges
        encode_vf_ctxs_count_def encode_ctxs_count_def decode_vf_ctxs_count_def decode_ctxs_count_def)
  then have free: "pf_get_ctxs_free quiet_env ?g ?s0 = (65280, ?s1)"
    using pf_get_ctxs_free_state [of quiet_env ?g ?s0] by (simp add: prod_eq_iff)
  have z1: "configs (provisioning ?g (?z ?s1)) = (\<lambda>_. zero_config)"
    using cf(1) by (auto simp: zero_config_def)
  have q: "pf_get_ctxs_max_quota quiet_env ?g (?z ?s1) = (65280, (?z ?s1)\<lparr>allocs := Suc (allocs (?z ?s1))\<rparr>)"
    using fresh_quota_and_search(1) [OF z1] pf_get_ctxs_max_quota_state [of quiet_env ?g "?z ?s1"] cf
    by (simp add: prod_eq_iff)
  let ?s2 = "(?z ?s1)\<lparr>allocs := Suc (allocs (?z ?s1))\<rparr>"
  have "fst (pf_alloc_ctxs_range quiet_env ?g 1 65280 ?s2) = Inr 255"
    using z1 by (simp add: pf_alloc_ctxs_range_def pf_alloc_vf_ctxs_range_def quiet_bitmap
        fresh_clear_ranges find_ctxs_index_def encode_vf_ctxs_count_def encode_ctxs_count_def
        decode_vf_ctxs_start_def decode_ctxs_start_def)
  then obtain s3 where a: "pf_alloc_ctxs_range quiet_env ?g 1 65280 ?s2 = (Inr 255, s3)"
    by (cases "pf_alloc_ctxs_range quiet_env ?g 1 65280 ?s2") simp
  have s3: "pci_num_vf s3 = 0" "provisioning ?g s3 = provisioning ?g (?z ?s1)"
    using pf_alloc_ctxs_range_cases(1) [OF a] cf(5) by simp_all
  have al2: "align_ctxs 1 65280 = (65280 :: u16)" by (simp add: align_ctxs_def ALIGN_def)
  let ?s4 = "upd_config ?g 1 (\<lambda>c. c\<lparr>begin_ctx := 255, num_ctxs := 65280\<rparr>) s3"
  have ct: "pf_provision_ctxs quiet_env ?g 1 65280 ?s1 = (Inr (), ?s4)"
    unfolding pf_provision_ctxs_def Let_def al2
    using provision_range_unpushed [OF np] q a s3 cf
    by (simp add: pf_get_ctxs_quota_def zero_config_def)
  have "\<not> pf_is_valid_config_ctxs ?g 1 ?s1"
    using cf by (simp add: pf_is_valid_config_ctxs_def zero_config_def)
  then have c: "pf_auto_provision_ctxs quiet_env ?g 1 ?s0 = (Inr (), ?s4)"
    using ct by (simp add: pf_auto_provision_ctxs_def free Let_def)
  have d0: "num_dbs (config ?g vf ?s4) = 0" "begin_db (config ?g vf ?s4) = 0" for vf
    using s3 z1 by (auto simp: zero_config_def)
  have d1: "num_dbs (config ?g 1 s3) = 0" "begin_db (config ?g 1 s3) = 0"
    using d0 [of 1] by simp_all
  have "pf_alloc_dbs_range quiet_env ?g 256 ?s4 = (Inr 0, ?s4\<lparr>allocs := Suc (allocs ?s4)\<rparr>)"
    by (rule quiet_alloc_dbs_range) (use d0 s3 cf in simp_all)
  then have "\<exists>s5. pf_provision_dbs quiet_env ?g 1 256 ?s4 = (Inr (), s5)"
    using np s3(1) d1 by (simp add: pf_provision_dbs_def pf_push_config_dbs_def)
  moreover have "\<not> pf_is_valid_config_dbs ?g 1 ?s4" using d1 by (simp add: pf_is_valid_config_dbs_def)
  ultimately have "\<exists>s5. pf_auto_provision_dbs quiet_env ?g 1 ?s4 = (Inr (), s5)"
    using d1 d0 [of 0] by (auto simp: pf_auto_provision_dbs_def Let_def)
  moreover have "i915_sriov_pf_is_auto_provisioning_enabled fresh_state"
    by (simp add: i915_sriov_pf_is_auto_provisioning_enabled_def fresh_state_def)
  ultimately show ?thesis
    using c by (auto simp: intel_iov_provisioning_auto_def pf_auto_provision_def Let_def)
qed

theorem auto_provisioning_fair_witness:
  "\<exists>s'. intel_iov_provisioning_auto quiet_env GT_MEDIA 1 fresh_state = (Inr (), s') \<and>
     pf_is_auto_provisioned GT_MEDIA s' \<and> intel_iov_provisioning_get_ctxs GT_MEDIA 1 s' \<noteq> 0"
proof -
  obtain s' where s': "intel_iov_provisioning_auto quiet_env GT_MEDIA 1 fresh_state = (Inr (), s')"
    using fresh_auto_media by blast
  show ?thesis using s' auto_provisioning_fair [OF s'] by auto
qed

end
