(* ===== verification/Guc_Hxg.thy ===== *)
theory Guc_Hxg
  imports Iov_Prelude
begin

text \<open>
  The header of a GuC HXG message (\<open>gt/uc/abi/guc_messages_abi.h\<close>): origin, type and the fields
  of the first dword that the message types share. All messages between the driver, the GuC and
  the VFs start with such a dword.
\<close>

section \<open>Types of messages\<close>

abbreviation GUC_HXG_ORIGIN_HOST :: u32 where "GUC_HXG_ORIGIN_HOST \<equiv> 0"
abbreviation GUC_HXG_ORIGIN_GUC :: u32 where "GUC_HXG_ORIGIN_GUC \<equiv> 1"
abbreviation GUC_HXG_TYPE_REQUEST :: u32 where "GUC_HXG_TYPE_REQUEST \<equiv> 0"
abbreviation GUC_HXG_TYPE_EVENT :: u32 where "GUC_HXG_TYPE_EVENT \<equiv> 1"
abbreviation GUC_HXG_TYPE_FAST_REQUEST :: u32 where "GUC_HXG_TYPE_FAST_REQUEST \<equiv> 2"
abbreviation GUC_HXG_TYPE_NO_RESPONSE_BUSY :: u32 where "GUC_HXG_TYPE_NO_RESPONSE_BUSY \<equiv> 3"
abbreviation GUC_HXG_TYPE_NO_RESPONSE_RETRY :: u32 where "GUC_HXG_TYPE_NO_RESPONSE_RETRY \<equiv> 5"
abbreviation GUC_HXG_TYPE_RESPONSE_FAILURE :: u32 where "GUC_HXG_TYPE_RESPONSE_FAILURE \<equiv> 6"
abbreviation GUC_HXG_TYPE_RESPONSE_SUCCESS :: u32 where "GUC_HXG_TYPE_RESPONSE_SUCCESS \<equiv> 7"

section \<open>Fields of the first dword\<close>

definition GUC_HXG_MSG_0_ORIGIN :: "u32 \<Rightarrow> u32" where
  "GUC_HXG_MSG_0_ORIGIN w = FIELD_GET 1 31 w"

definition GUC_HXG_MSG_0_TYPE :: "u32 \<Rightarrow> u32" where
  "GUC_HXG_MSG_0_TYPE w = FIELD_GET 3 28 w"

definition GUC_HXG_MSG_0_AUX :: "u32 \<Rightarrow> u32" where
  "GUC_HXG_MSG_0_AUX w = FIELD_GET 28 0 w"

text \<open>Requests and events have the action in the low half and \<open>DATA0\<close> above it, failures the
  error and the hint.\<close>

definition GUC_HXG_REQUEST_MSG_0_ACTION :: "u32 \<Rightarrow> u32" where
  "GUC_HXG_REQUEST_MSG_0_ACTION w = FIELD_GET 16 0 w"

definition GUC_HXG_REQUEST_MSG_0_DATA0 :: "u32 \<Rightarrow> u32" where
  "GUC_HXG_REQUEST_MSG_0_DATA0 w = FIELD_GET 12 16 w"

definition GUC_HXG_FAILURE_MSG_0_ERROR :: "u32 \<Rightarrow> u32" where
  "GUC_HXG_FAILURE_MSG_0_ERROR w = FIELD_GET 16 0 w"

definition GUC_HXG_FAILURE_MSG_0_HINT :: "u32 \<Rightarrow> u32" where
  "GUC_HXG_FAILURE_MSG_0_HINT w = FIELD_GET 12 16 w"

text \<open>The first dword of a message, as the senders build it.\<close>

definition hxg_aux_msg :: "u32 \<Rightarrow> u32 \<Rightarrow> u32 \<Rightarrow> u32" where
  "hxg_aux_msg origin type aux = FIELD_PREP 1 31 origin OR FIELD_PREP 3 28 type OR FIELD_PREP 28 0 aux"

definition hxg_request_msg :: "u32 \<Rightarrow> u32 \<Rightarrow> u32 \<Rightarrow> u32 \<Rightarrow> u32" where
  "hxg_request_msg origin type action data0 =
     FIELD_PREP 1 31 origin OR FIELD_PREP 3 28 type OR
     (FIELD_PREP 16 0 action OR FIELD_PREP 12 16 data0)"

named_theorems hxg_simps \<comment> \<open>fields of the dwords that senders build\<close>

lemma hxg_aux_msg_fields [hxg_simps]:
  "GUC_HXG_MSG_0_ORIGIN (hxg_aux_msg r t a) = take_bit 1 r"
  "GUC_HXG_MSG_0_TYPE (hxg_aux_msg r t a) = take_bit 3 t"
  "GUC_HXG_MSG_0_AUX (hxg_aux_msg r t a) = take_bit 28 a"
  unfolding hxg_aux_msg_def GUC_HXG_MSG_0_ORIGIN_def GUC_HXG_MSG_0_TYPE_def GUC_HXG_MSG_0_AUX_def
  by (simp_all add: field_simps_guc)

lemma hxg_request_msg_fields [hxg_simps]:
  "GUC_HXG_MSG_0_ORIGIN (hxg_request_msg r t a d) = take_bit 1 r"
  "GUC_HXG_MSG_0_TYPE (hxg_request_msg r t a d) = take_bit 3 t"
  "GUC_HXG_REQUEST_MSG_0_ACTION (hxg_request_msg r t a d) = take_bit 16 a"
  "GUC_HXG_REQUEST_MSG_0_DATA0 (hxg_request_msg r t a d) = take_bit 12 d"
  unfolding hxg_request_msg_def GUC_HXG_MSG_0_ORIGIN_def GUC_HXG_MSG_0_TYPE_def
    GUC_HXG_REQUEST_MSG_0_ACTION_def GUC_HXG_REQUEST_MSG_0_DATA0_def
  by (simp_all add: field_simps_guc)

end
