(* ===== verification/Iov_State.thy ===== *)
theory Iov_State
  imports Iov_Config Guc_Hxg
begin

text \<open>
  The state of the VFs as the PF tracks it (\<open>gt/iov/intel_iov_state.c\<close>,
  \<open>gt/iov/intel_iov_event.c\<close>): the flags of \<open>struct intel_iov_data\<close>, the worker that drives a
  function level reset (FLR) of a VF on every GT, the notifications of the GuC, pausing and
  resuming of VFs, and the saving of their state. Every handler and the processing of one VF by
  a worker is one atomic step; the step relation \<open>flr_step\<close> interleaves them.
\<close>

section \<open>Data\<close>

text \<open>The bits of \<open>intel_iov_data::state\<close>; the source reads and writes them one at a time.\<close>

datatype (plugins only: code) iov_vf_flag =
    IOV_VF_FLR_IN_PROGRESS
  | IOV_VF_NEEDS_FLR_START
  | IOV_VF_FLR_DONE_RECEIVED
  | IOV_VF_NEEDS_FLR_FINISH
  | IOV_VF_NEEDS_FLR_DONE_SYNC
  | IOV_VF_PAUSE_IN_PROGRESS
  | IOV_VF_PAUSE_BY_SUSPEND
  | IOV_VF_FLR_FAILED

record intel_iov_data =
  flags :: "iov_vf_flag \<Rightarrow> bool"
  paused :: bool
  adverse_events :: "intel_iov_threshold \<Rightarrow> u32"
  guc_state_blob :: "u32 list option"
  guc_state_size :: u32

definition zero_data :: intel_iov_data where
  "zero_data = \<lparr>flags = (\<lambda>_. False), paused = False, adverse_events = (\<lambda>_. 0),
     guc_state_blob = None, guc_state_size = 0\<rparr>"

text \<open>
  The device with the state data of every GT: \<open>vf_states\<close> is the array \<open>pf.state.data\<close>
  (\<open>None\<close> is the null pointer), \<open>state_worker\<close> whether \<open>pf.state.worker\<close> is queued.
\<close>

record pf_state =
  dev :: i915_state
  vf_states :: "intel_gt_type \<Rightarrow> (nat \<Rightarrow> intel_iov_data) option"
  state_worker :: "intel_gt_type \<Rightarrow> bool"

definition vf_data :: "intel_gt_type \<Rightarrow> nat \<Rightarrow> pf_state \<Rightarrow> intel_iov_data" where
  "vf_data g vf s = (case vf_states s g of None \<Rightarrow> zero_data | Some d \<Rightarrow> d vf)"

definition upd_data ::
    "intel_gt_type \<Rightarrow> nat \<Rightarrow> (intel_iov_data \<Rightarrow> intel_iov_data) \<Rightarrow> pf_state \<Rightarrow> pf_state" where
  "upd_data g vf f s =
     s\<lparr>vf_states := (vf_states s)(g := map_option (\<lambda>d. d(vf := f (d vf))) (vf_states s g))\<rparr>"

definition test_bit :: "intel_gt_type \<Rightarrow> nat \<Rightarrow> iov_vf_flag \<Rightarrow> pf_state \<Rightarrow> bool" where
  "test_bit g vf b s \<longleftrightarrow> flags (vf_data g vf s) b"

definition put_bit :: "intel_gt_type \<Rightarrow> nat \<Rightarrow> iov_vf_flag \<Rightarrow> bool \<Rightarrow> pf_state \<Rightarrow> pf_state" where
  "put_bit g vf b v s = upd_data g vf (\<lambda>d. d\<lparr>flags := (flags d)(b := v)\<rparr>) s"

abbreviation set_bit :: "intel_gt_type \<Rightarrow> nat \<Rightarrow> iov_vf_flag \<Rightarrow> pf_state \<Rightarrow> pf_state" where
  "set_bit g vf b s \<equiv> put_bit g vf b True s"

abbreviation clear_bit :: "intel_gt_type \<Rightarrow> nat \<Rightarrow> iov_vf_flag \<Rightarrow> pf_state \<Rightarrow> pf_state" where
  "clear_bit g vf b s \<equiv> put_bit g vf b False s"

text \<open>Both GTs have their data, which is what a PF without initialisation error has.\<close>

definition data_ready :: "pf_state \<Rightarrow> bool" where
  "data_ready s \<longleftrightarrow> (\<forall>g. vf_states s g \<noteq> None)"

lemma data_ready_upd [simp]: "data_ready (upd_data g vf f s) = data_ready s"
  by (auto simp: data_ready_def upd_data_def)

lemma upd_data_frame [simp]:
  "dev (upd_data g vf f s) = dev s" "state_worker (upd_data g vf f s) = state_worker s"
  by (simp_all add: upd_data_def)

lemma put_bit_frame [simp]:
  "dev (put_bit g vf b v s) = dev s" "state_worker (put_bit g vf b v s) = state_worker s"
  "data_ready (put_bit g vf b v s) = data_ready s"
  by (simp_all add: put_bit_def)

lemma vf_data_upd:
  "data_ready s \<Longrightarrow> vf_data g' vf' (upd_data g vf f s) =
     (if g' = g \<and> vf' = vf then f (vf_data g vf s) else vf_data g' vf' s)"
  by (cases "vf_states s g"; cases "vf_states s g'")
     (auto simp: data_ready_def vf_data_def upd_data_def dest!: spec [of _ g] spec [of _ g'])

lemma test_put_bit [simp]:
  "data_ready s \<Longrightarrow> test_bit g' vf' b' (put_bit g vf b v s) =
     (if g' = g \<and> vf' = vf \<and> b' = b then v else test_bit g' vf' b' s)"
  by (auto simp: test_bit_def put_bit_def vf_data_upd)

lemma vf_data_other [simp]:
  "vf_data g vf (s\<lparr>dev := d\<rparr>) = vf_data g vf s" "vf_data g vf (s\<lparr>state_worker := w\<rparr>) = vf_data g vf s"
  "test_bit g vf b (s\<lparr>dev := d\<rparr>) = test_bit g vf b s"
  "test_bit g vf b (s\<lparr>state_worker := w\<rparr>) = test_bit g vf b s"
  "data_ready (s\<lparr>dev := d\<rparr>) = data_ready s" "data_ready (s\<lparr>state_worker := w\<rparr>) = data_ready s"
  by (simp_all add: vf_data_def test_bit_def data_ready_def)

section \<open>Setup\<close>

definition pf_update_status :: "errno \<Rightarrow> pf_state \<Rightarrow> pf_state" where
  "pf_update_status e s = s\<lparr>dev := i915_sriov_pf_abort e (dev s)\<rparr>"

definition intel_iov_state_init_early :: "iov_env \<Rightarrow> intel_gt_type \<Rightarrow> pf_state \<Rightarrow> pf_state" where
  "intel_iov_state_init_early E g s =
     (case kmalloc E (dev s) of (ok, d) \<Rightarrow>
        if \<not> ok then pf_update_status ENOMEM (s\<lparr>dev := d\<rparr>)
        else s\<lparr>dev := d, vf_states := (vf_states s)(g := Some (\<lambda>_. zero_data))\<rparr>)"

definition intel_iov_state_release :: "intel_gt_type \<Rightarrow> pf_state \<Rightarrow> pf_state" where
  "intel_iov_state_release g s =
     s\<lparr>state_worker := (state_worker s)(g := False), vf_states := (vf_states s)(g := None)\<rparr>"

definition pf_reset_vf_state :: "intel_gt_type \<Rightarrow> nat \<Rightarrow> pf_state \<Rightarrow> pf_state" where
  "pf_reset_vf_state g vf s = upd_data g vf (\<lambda>d. d\<lparr>flags := (\<lambda>_. False), paused := False\<rparr>) s"

definition intel_iov_state_reset :: "intel_gt_type \<Rightarrow> pf_state \<Rightarrow> pf_state" where
  "intel_iov_state_reset g s =
     (if vf_states s g = None then s
      else fold (pf_reset_vf_state g) [0..<1 + pf_get_totalvfs (dev s)] s)"

section \<open>Control commands\<close>

abbreviation GUC_ACTION_PF2GUC_VF_CONTROL :: u32 where "GUC_ACTION_PF2GUC_VF_CONTROL \<equiv> 0x5506"
abbreviation GUC_PF_TRIGGER_VF_PAUSE :: u32 where "GUC_PF_TRIGGER_VF_PAUSE \<equiv> 1"
abbreviation GUC_PF_TRIGGER_VF_RESUME :: u32 where "GUC_PF_TRIGGER_VF_RESUME \<equiv> 2"
abbreviation GUC_PF_TRIGGER_VF_STOP :: u32 where "GUC_PF_TRIGGER_VF_STOP \<equiv> 3"
abbreviation GUC_PF_TRIGGER_VF_FLR_START :: u32 where "GUC_PF_TRIGGER_VF_FLR_START \<equiv> 4"
abbreviation GUC_PF_TRIGGER_VF_FLR_FINISH :: u32 where "GUC_PF_TRIGGER_VF_FLR_FINISH \<equiv> 5"

definition vf_control_request :: "nat \<Rightarrow> u32 \<Rightarrow> u32 list" where
  "vf_control_request vf cmd =
     [hxg_request_msg GUC_HXG_ORIGIN_HOST GUC_HXG_TYPE_REQUEST GUC_ACTION_PF2GUC_VF_CONTROL 0,
      of_nat vf, cmd]"

definition guc_action_vf_control_cmd ::
    "iov_env \<Rightarrow> intel_gt_type \<Rightarrow> nat \<Rightarrow> u32 \<Rightarrow> i915_state \<Rightarrow> unit res \<times> i915_state" where
  "guc_action_vf_control_cmd E g vf cmd d =
     (case intel_guc_send E g (vf_control_request vf cmd) [] d of
        (Inl e, d1) \<Rightarrow> (Inl e, d1)
      | (Inr n, d1) \<Rightarrow> (if n > 0 then Inl EPROTO else Inr (), d1))"

definition pf_control_vf ::
    "iov_env \<Rightarrow> intel_gt_type \<Rightarrow> nat \<Rightarrow> u32 \<Rightarrow> pf_state \<Rightarrow> unit res \<times> pf_state" where
  "pf_control_vf E g vf cmd s =
     (case guc_action_vf_control_cmd E g vf cmd (dev s) of (r, d) \<Rightarrow> (r, s\<lparr>dev := d\<rparr>))"

definition pf_trigger_vf_flr_start ::
    "iov_env \<Rightarrow> intel_gt_type \<Rightarrow> nat \<Rightarrow> pf_state \<Rightarrow> unit res \<times> pf_state" where
  "pf_trigger_vf_flr_start E g vf s = pf_control_vf E g vf GUC_PF_TRIGGER_VF_FLR_START s"

definition pf_trigger_vf_flr_finish ::
    "iov_env \<Rightarrow> intel_gt_type \<Rightarrow> nat \<Rightarrow> pf_state \<Rightarrow> unit res \<times> pf_state" where
  "pf_trigger_vf_flr_finish E g vf s = pf_control_vf E g vf GUC_PF_TRIGGER_VF_FLR_FINISH s"

section \<open>Processing of one VF\<close>

definition intel_iov_event_reset :: "intel_gt_type \<Rightarrow> nat \<Rightarrow> pf_state \<Rightarrow> pf_state" where
  "intel_iov_event_reset g vf s =
     (if vf_states s g = None then s
      else fold (\<lambda>e. upd_data g vf (\<lambda>d. d\<lparr>adverse_events := (adverse_events d)(e := 0)\<rparr>))
             IOV_THRESHOLDS s)"

text \<open>The PTEs of the VF's region are written with its identifier and no address.\<close>

definition pf_clear_vf_ggtt_entries ::
    "iov_env \<Rightarrow> intel_gt_type \<Rightarrow> nat \<Rightarrow> pf_state \<Rightarrow> pf_state" where
  "pf_clear_vf_ggtt_entries E g vf s =
     (case ggtt_region (config g vf (dev s)) of
        None \<Rightarrow> s
      | Some node \<Rightarrow> s\<lparr>dev := i915_ggtt_set_space_owner E vf node (dev s)\<rparr>)"

text \<open>The workaround that clears a PCI status bit of the VF touches no state modelled here.\<close>

definition pf_process_vf_flr_finish ::
    "iov_env \<Rightarrow> intel_gt_type \<Rightarrow> nat \<Rightarrow> pf_state \<Rightarrow> unit res \<times> pf_state" where
  "pf_process_vf_flr_finish E g vf s =
     pf_trigger_vf_flr_finish E g vf
       (pf_clear_vf_ggtt_entries E g vf (intel_iov_event_reset g vf s))"

definition pf_vf_flr_done_received :: "intel_gt_type \<Rightarrow> nat \<Rightarrow> pf_state \<Rightarrow> bool" where
  "pf_vf_flr_done_received g vf s = test_bit g vf IOV_VF_FLR_DONE_RECEIVED s"

definition pf_vf_flr_needs_sync :: "intel_gt_type \<Rightarrow> nat \<Rightarrow> pf_state \<Rightarrow> bool" where
  "pf_vf_flr_needs_sync g vf s = test_bit g vf IOV_VF_NEEDS_FLR_DONE_SYNC s"

definition pf_vf_flr_in_progress :: "intel_gt_type \<Rightarrow> nat \<Rightarrow> pf_state \<Rightarrow> bool" where
  "pf_vf_flr_in_progress g vf s = test_bit g vf IOV_VF_FLR_IN_PROGRESS s"

text \<open>The result says whether more processing is needed.\<close>

definition pf_process_vf ::
    "iov_env \<Rightarrow> intel_gt_type \<Rightarrow> nat \<Rightarrow> pf_state \<Rightarrow> bool \<times> pf_state" where
  "pf_process_vf E g vf s =
     (if test_bit g vf IOV_VF_NEEDS_FLR_START s then
        (case pf_trigger_vf_flr_start E g vf (clear_bit g vf IOV_VF_NEEDS_FLR_START s) of
           (Inr u, s1) \<Rightarrow> (True, clear_bit g vf IOV_VF_PAUSE_IN_PROGRESS s1)
         | (Inl e, s1) \<Rightarrow>
             if e = EBUSY then (True, set_bit g vf IOV_VF_NEEDS_FLR_START s1)
             else (False, clear_bit g vf IOV_VF_FLR_IN_PROGRESS (set_bit g vf IOV_VF_FLR_FAILED s1)))
      else if test_bit g vf IOV_VF_NEEDS_FLR_DONE_SYNC s then
        (if \<exists>h \<in> set (for_each_gt (dev s)). \<not> pf_vf_flr_done_received h vf s then (True, s)
         else (True, clear_bit g vf IOV_VF_NEEDS_FLR_DONE_SYNC s))
      else if test_bit g vf IOV_VF_FLR_DONE_RECEIVED s \<and>
              (\<exists>h \<in> set (for_each_gt (dev s)). pf_vf_flr_needs_sync h vf s) then (True, s)
      else if test_bit g vf IOV_VF_FLR_DONE_RECEIVED s then
        (True, set_bit g vf IOV_VF_NEEDS_FLR_FINISH (clear_bit g vf IOV_VF_FLR_DONE_RECEIVED s))
      else if test_bit g vf IOV_VF_NEEDS_FLR_FINISH s then
        (case pf_process_vf_flr_finish E g vf (clear_bit g vf IOV_VF_NEEDS_FLR_FINISH s) of
           (Inr u, s1) \<Rightarrow> (True, s1)
         | (Inl e, s1) \<Rightarrow>
             if e = EBUSY then (True, set_bit g vf IOV_VF_NEEDS_FLR_FINISH s1)
             else (False, clear_bit g vf IOV_VF_FLR_IN_PROGRESS (set_bit g vf IOV_VF_FLR_FAILED s1)))
      else if test_bit g vf IOV_VF_FLR_IN_PROGRESS s then
        (if g = GT_PRIMARY \<and>
            (\<exists>h \<in> set (for_each_gt (dev s)). h \<noteq> GT_PRIMARY \<and> pf_vf_flr_in_progress h vf s)
         then (True, s)
         else (False, clear_bit g vf IOV_VF_FLR_IN_PROGRESS s))
      else (False, s))"

definition pf_queue_worker :: "intel_gt_type \<Rightarrow> pf_state \<Rightarrow> pf_state" where
  "pf_queue_worker g s = s\<lparr>state_worker := (state_worker s)(g := True)\<rparr>"

primrec process_vfs_loop ::
    "iov_env \<Rightarrow> intel_gt_type \<Rightarrow> nat list \<Rightarrow> bool \<Rightarrow> pf_state \<Rightarrow> bool \<times> pf_state" where
  "process_vfs_loop E g [] again s = (again, s)"
| "process_vfs_loop E g (n # ns) again s =
     (case pf_process_vf E g n s of (m, s1) \<Rightarrow> process_vfs_loop E g ns (again \<or> m) s1)"

definition pf_process_all_vfs :: "iov_env \<Rightarrow> intel_gt_type \<Rightarrow> pf_state \<Rightarrow> pf_state" where
  "pf_process_all_vfs E g s =
     (case process_vfs_loop E g [1..<Suc (pf_get_totalvfs (dev s))] False s of
        (again, s1) \<Rightarrow> if again then pf_queue_worker g s1 else s1)"

text \<open>The work queue takes the work off before it runs it.\<close>

definition pf_state_worker_func :: "iov_env \<Rightarrow> intel_gt_type \<Rightarrow> pf_state \<Rightarrow> pf_state" where
  "pf_state_worker_func E g s =
     pf_process_all_vfs E g (s\<lparr>state_worker := (state_worker s)(g := False)\<rparr>)"

section \<open>Notifications of the GuC\<close>

definition pf_init_vf_flr :: "intel_gt_type \<Rightarrow> nat \<Rightarrow> pf_state \<Rightarrow> pf_state" where
  "pf_init_vf_flr g vf s =
     (let s1 = set_bit g vf IOV_VF_FLR_IN_PROGRESS s;
          s2 = (if has_media_gt (dev s1) then set_bit g vf IOV_VF_NEEDS_FLR_DONE_SYNC s1 else s1)
      in pf_queue_worker g (set_bit g vf IOV_VF_NEEDS_FLR_START s2))"

definition pf_handle_vf_flr :: "intel_gt_type \<Rightarrow> nat \<Rightarrow> pf_state \<Rightarrow> pf_state" where
  "pf_handle_vf_flr g vf s =
     (if g \<noteq> GT_PRIMARY then s
      else if test_bit g vf IOV_VF_FLR_IN_PROGRESS s then s
      else fold (\<lambda>h. pf_init_vf_flr h vf) (for_each_gt (dev s))
             (upd_data g vf (\<lambda>d. d\<lparr>paused := False\<rparr>) s))"

definition pf_handle_vf_flr_done :: "intel_gt_type \<Rightarrow> nat \<Rightarrow> pf_state \<Rightarrow> pf_state" where
  "pf_handle_vf_flr_done g vf s = pf_queue_worker g (set_bit g vf IOV_VF_FLR_DONE_RECEIVED s)"

definition pf_handle_vf_pause_done :: "intel_gt_type \<Rightarrow> nat \<Rightarrow> pf_state \<Rightarrow> pf_state" where
  "pf_handle_vf_pause_done g vf s =
     clear_bit g vf IOV_VF_PAUSE_IN_PROGRESS (upd_data g vf (\<lambda>d. d\<lparr>paused := True\<rparr>) s)"

abbreviation GUC_PF_NOTIFY_VF_ENABLE :: u32 where "GUC_PF_NOTIFY_VF_ENABLE \<equiv> 1"
abbreviation GUC_PF_NOTIFY_VF_FLR :: u32 where "GUC_PF_NOTIFY_VF_FLR \<equiv> 1"
abbreviation GUC_PF_NOTIFY_VF_FLR_DONE :: u32 where "GUC_PF_NOTIFY_VF_FLR_DONE \<equiv> 2"
abbreviation GUC_PF_NOTIFY_VF_PAUSE_DONE :: u32 where "GUC_PF_NOTIFY_VF_PAUSE_DONE \<equiv> 3"

text \<open>\<open>Errno 65\<close> is \<open>ENOPKG\<close>.\<close>

abbreviation ENOPKG :: errno where "ENOPKG \<equiv> Errno 65"

definition pf_handle_vf_event ::
    "intel_gt_type \<Rightarrow> nat \<Rightarrow> u32 \<Rightarrow> pf_state \<Rightarrow> unit res \<times> pf_state" where
  "pf_handle_vf_event g vf eventid s =
     (if eventid = GUC_PF_NOTIFY_VF_FLR then (Inr (), pf_handle_vf_flr g vf s)
      else if eventid = GUC_PF_NOTIFY_VF_FLR_DONE then (Inr (), pf_handle_vf_flr_done g vf s)
      else if eventid = GUC_PF_NOTIFY_VF_PAUSE_DONE then (Inr (), pf_handle_vf_pause_done g vf s)
      else (Inl ENOPKG, s))"

definition pf_handle_pf_event :: "u32 \<Rightarrow> unit res" where
  "pf_handle_pf_event eventid = (if eventid = GUC_PF_NOTIFY_VF_ENABLE then Inr () else Inl ENOPKG)"

text \<open>A notification of three dwords; \<open>is_pf\<close> tells whether the driver runs as the PF.\<close>

definition intel_iov_state_process_guc2pf ::
    "bool \<Rightarrow> intel_gt_type \<Rightarrow> u32 list \<Rightarrow> pf_state \<Rightarrow> unit res \<times> pf_state" where
  "intel_iov_state_process_guc2pf is_pf g msg s =
     (if \<not> is_pf then (Inl EPROTO, s)
      else if GUC_HXG_REQUEST_MSG_0_DATA0 (msg ! 0) \<noteq> 0 then (Inl EPFNOSUPPORT, s)
      else if length msg \<noteq> 3 then (Inl EPROTO, s)
      else let vfid = unat (msg ! 1); eventid = msg ! 2
           in if vfid > pf_get_totalvfs (dev s) then (Inl EINVAL, s)
              else if vfid \<noteq> 0 then pf_handle_vf_event g vfid eventid s
              else (pf_handle_pf_event eventid, s))"

definition intel_iov_state_start_flr :: "intel_gt_type \<Rightarrow> nat \<Rightarrow> pf_state \<Rightarrow> pf_state" where
  "intel_iov_state_start_flr g vf s = pf_init_vf_flr g vf s"

definition intel_iov_state_no_flr :: "intel_gt_type \<Rightarrow> nat \<Rightarrow> pf_state \<Rightarrow> bool" where
  "intel_iov_state_no_flr g vf s \<longleftrightarrow> \<not> test_bit g vf IOV_VF_FLR_IN_PROGRESS s"

section \<open>Pausing and resuming\<close>

definition intel_iov_state_no_pause :: "intel_gt_type \<Rightarrow> nat \<Rightarrow> pf_state \<Rightarrow> bool" where
  "intel_iov_state_no_pause g vf s \<longleftrightarrow>
     \<not> test_bit g vf IOV_VF_PAUSE_IN_PROGRESS s \<and> \<not> paused (vf_data g vf s)"

definition intel_iov_state_pause_vf ::
    "iov_env \<Rightarrow> intel_gt_type \<Rightarrow> nat \<Rightarrow> pf_state \<Rightarrow> unit res \<times> pf_state" where
  "intel_iov_state_pause_vf E g vf s =
     (if \<not> intel_iov_state_no_flr g vf s \<or> \<not> intel_iov_state_no_pause g vf s then (Inl EBUSY, s)
      else if test_bit g vf IOV_VF_PAUSE_IN_PROGRESS s then (Inl EBUSY, s)
      else case pf_control_vf E g vf GUC_PF_TRIGGER_VF_PAUSE
                  (set_bit g vf IOV_VF_PAUSE_IN_PROGRESS s) of
        (Inl e, s1) \<Rightarrow> (Inl e, clear_bit g vf IOV_VF_PAUSE_IN_PROGRESS s1)
      | (Inr u, s1) \<Rightarrow> (Inr (), s1))"

text \<open>
  While the driver waits, the handlers of the notifications run: \<open>meanwhile\<close> is what they did to
  the state before the wait ended.
\<close>

definition intel_iov_state_pause_vf_sync ::
    "iov_env \<Rightarrow> (pf_state \<Rightarrow> pf_state) \<Rightarrow> intel_gt_type \<Rightarrow> nat \<Rightarrow> bool \<Rightarrow> pf_state \<Rightarrow> unit res \<times> pf_state"
  where
  "intel_iov_state_pause_vf_sync E meanwhile g vf inferred s =
     (case (if intel_iov_state_no_pause g vf s
            then (case intel_iov_state_pause_vf E g vf s of
                    (Inl e, s1) \<Rightarrow> (Inl e, s1)
                  | (Inr u, s1) \<Rightarrow>
                      (Inr (), if inferred then set_bit g vf IOV_VF_PAUSE_BY_SUSPEND s1 else s1))
            else (Inr (), s)) of
        (Inl e, s1) \<Rightarrow> (Inl e, s1)
      | (Inr u, s1) \<Rightarrow>
          (let s2 = meanwhile (if inferred then s1 else clear_bit g vf IOV_VF_PAUSE_BY_SUSPEND s1)
           in (if paused (vf_data g vf s2) then Inr () else Inl ETIMEDOUT, s2)))"

definition intel_iov_state_resume_vf ::
    "iov_env \<Rightarrow> intel_gt_type \<Rightarrow> nat \<Rightarrow> pf_state \<Rightarrow> unit res \<times> pf_state" where
  "intel_iov_state_resume_vf E g vf s =
     (case pf_control_vf E g vf GUC_PF_TRIGGER_VF_RESUME s of
        (Inl e, s1) \<Rightarrow> (Inl e, s1)
      | (Inr u, s1) \<Rightarrow> (Inr (), upd_data g vf (\<lambda>d. d\<lparr>paused := False\<rparr>) s1))"

definition intel_iov_state_stop_vf ::
    "iov_env \<Rightarrow> intel_gt_type \<Rightarrow> nat \<Rightarrow> pf_state \<Rightarrow> unit res \<times> pf_state" where
  "intel_iov_state_stop_vf E g vf s = pf_control_vf E g vf GUC_PF_TRIGGER_VF_STOP s"

section \<open>Adverse events\<close>

definition threshold_key_to_enum :: "u32 \<Rightarrow> intel_iov_threshold option" where
  "threshold_key_to_enum key = find (\<lambda>t. intel_iov_threshold_to_klv_key t = key) IOV_THRESHOLDS"

definition pf_update_event_counter ::
    "intel_gt_type \<Rightarrow> nat \<Rightarrow> intel_iov_threshold \<Rightarrow> pf_state \<Rightarrow> pf_state" where
  "pf_update_event_counter g vf e s =
     upd_data g vf (\<lambda>d. d\<lparr>adverse_events := (adverse_events d)(e := adverse_events d e + 1)\<rparr>) s"

definition pf_handle_vf_threshold_event ::
    "intel_gt_type \<Rightarrow> nat \<Rightarrow> u32 \<Rightarrow> pf_state \<Rightarrow> unit res \<times> pf_state" where
  "pf_handle_vf_threshold_event g vf threshold s =
     (if vf = 0 \<or> vf > pf_get_totalvfs (dev s) then (Inl EINVAL, s)
      else case threshold_key_to_enum threshold of
        None \<Rightarrow> (Inl EINVAL, s)
      | Some e \<Rightarrow> (Inr (), pf_update_event_counter g vf e s))"

definition intel_iov_event_process_guc2pf ::
    "bool \<Rightarrow> intel_gt_type \<Rightarrow> u32 list \<Rightarrow> pf_state \<Rightarrow> unit res \<times> pf_state" where
  "intel_iov_event_process_guc2pf is_pf g msg s =
     (if \<not> is_pf then (Inl EPROTO, s)
      else if GUC_HXG_REQUEST_MSG_0_DATA0 (msg ! 0) \<noteq> 0 then (Inl EPFNOSUPPORT, s)
      else if length msg \<noteq> 3 then (Inl EPROTO, s)
      else pf_handle_vf_threshold_event g (unat (msg ! 1)) (msg ! 2) s)"

section \<open>Saving and restoring\<close>

definition intel_iov_state_save_ggtt ::
    "iov_env \<Rightarrow> intel_gt_type \<Rightarrow> nat \<Rightarrow> u64 list option \<Rightarrow> u64 \<Rightarrow> pf_state \<Rightarrow>
     u64 res \<times> u64 list option" where
  "intel_iov_state_save_ggtt E g vf buf sz s =
     (case ggtt_region (config g vf (dev s)) of
        None \<Rightarrow> (Inl EINVAL, buf)
      | Some node \<Rightarrow>
          if env_require_binder E then intel_iov_ggtt_shadow_save E g vf buf sz True (dev s)
          else case i915_ggtt_save_ptes E node buf (ucast sz) True (dev s) of
            (r, out) \<Rightarrow> (case r of Inl e \<Rightarrow> Inl e | Inr n \<Rightarrow> Inr (of_nat n), out))"

text \<open>\<open>None\<close> where the restoring of the shadow reads a scatter list it has freed.\<close>

definition intel_iov_state_restore_ggtt ::
    "iov_env \<Rightarrow> intel_gt_type \<Rightarrow> nat \<Rightarrow> u64 list \<Rightarrow> pf_state \<Rightarrow> (nat res \<times> pf_state) option" where
  "intel_iov_state_restore_ggtt E g vf buf s =
     (if env_require_binder E
      then map_option (\<lambda>(r, d). (r, s\<lparr>dev := d\<rparr>))
             (intel_iov_ggtt_shadow_restore E g vf buf True (dev s))
      else case i915_ggtt_restore_ptes E (vf_ggtt_node E g vf (dev s)) buf (Some (of_nat vf)) (dev s) of
        (r, d) \<Rightarrow> Some (case r of Inl e \<Rightarrow> Inl e | Inr u \<Rightarrow> Inr 0, s\<lparr>dev := d\<rparr>))"

abbreviation GUC_ACTION_PF2GUC_SAVE_RESTORE_VF :: u32 where
  "GUC_ACTION_PF2GUC_SAVE_RESTORE_VF \<equiv> 0x550B"
abbreviation GUC_PF_OPCODE_VF_SAVE :: u32 where "GUC_PF_OPCODE_VF_SAVE \<equiv> 0"
abbreviation GUC_PF_OPCODE_VF_RESTORE :: u32 where "GUC_PF_OPCODE_VF_RESTORE \<equiv> 1"
abbreviation PF2GUC_SAVE_RESTORE_VF_BUFF_MIN_SIZE :: u64 where
  "PF2GUC_SAVE_RESTORE_VF_BUFF_MIN_SIZE \<equiv> 32"

text \<open>
  The comparison of the signed result with the unsigned size makes every error of a request with
  a buffer larger than the size, so that it is reported as \<open>EPROTO\<close>.
\<close>

definition guc_action_save_restore_vf ::
    "iov_env \<Rightarrow> intel_gt_type \<Rightarrow> nat \<Rightarrow> u32 \<Rightarrow> u64 \<Rightarrow> u32 \<Rightarrow> u32 list \<Rightarrow> i915_state \<Rightarrow>
     nat res \<times> i915_state" where
  "guc_action_save_restore_vf E g vf opcode offset sz blob d =
     (case intel_guc_send E g
             [hxg_request_msg GUC_HXG_ORIGIN_HOST GUC_HXG_TYPE_REQUEST
                GUC_ACTION_PF2GUC_SAVE_RESTORE_VF opcode,
              of_nat vf, lower_32_bits offset, upper_32_bits offset, FIELD_PREP 28 0 sz] blob d of
        (Inl e, d1) \<Rightarrow> (Inl (if offset \<noteq> 0 then EPROTO else e), d1)
      | (Inr n, d1) \<Rightarrow> (if offset \<noteq> 0 \<and> n > unat sz then Inl EPROTO else Inr n, d1))"

definition pf_save_vf_size ::
    "iov_env \<Rightarrow> intel_gt_type \<Rightarrow> nat \<Rightarrow> pf_state \<Rightarrow> nat res \<times> pf_state" where
  "pf_save_vf_size E g vf s =
     (case guc_action_save_restore_vf E g vf GUC_PF_OPCODE_VF_SAVE 0 0 [] (dev s) of
        (r, d) \<Rightarrow> (case r of Inl e \<Rightarrow> Inl e | Inr n \<Rightarrow> Inr (n * 4), s\<lparr>dev := d\<rparr>))"

text \<open>\<open>written\<close> is what the buffer shared with the GuC holds after the request, in dwords.\<close>

definition pf_save_vf ::
    "iov_env \<Rightarrow> u32 list \<Rightarrow> intel_gt_type \<Rightarrow> nat \<Rightarrow> u32 list \<Rightarrow> pf_state \<Rightarrow>
     nat res \<times> u32 list \<times> pf_state" where
  "pf_save_vf E written g vf buf s =
     (case intel_guc_allocate_and_map_vma E (dev s) of
        (Inl e, d) \<Rightarrow> (Inl e, buf, s\<lparr>dev := d\<rparr>)
      | (Inr addr, d) \<Rightarrow>
          (case guc_action_save_restore_vf E g vf GUC_PF_OPCODE_VF_SAVE (ucast addr)
                  (of_nat (length buf)) [] d of
             (Inl e, d1) \<Rightarrow> (Inl e, buf, s\<lparr>dev := d1\<rparr>)
           | (Inr n, d1) \<Rightarrow>
               if n > 0 then (Inr (n * 4), take (length buf) written, s\<lparr>dev := d1\<rparr>)
               else (Inr 0, buf, s\<lparr>dev := d1\<rparr>)))"

definition intel_iov_state_save_vf_size ::
    "iov_env \<Rightarrow> intel_gt_type \<Rightarrow> nat \<Rightarrow> pf_state \<Rightarrow> nat res \<times> pf_state" where
  "intel_iov_state_save_vf_size E g vf s = pf_save_vf_size E g vf s"

definition intel_iov_state_save_vf ::
    "iov_env \<Rightarrow> u32 list \<Rightarrow> intel_gt_type \<Rightarrow> nat \<Rightarrow> u32 list \<Rightarrow> pf_state \<Rightarrow>
     nat res \<times> u32 list \<times> pf_state" where
  "intel_iov_state_save_vf E written g vf buf s =
     (if of_nat (4 * length buf) < PF2GUC_SAVE_RESTORE_VF_BUFF_MIN_SIZE then (Inl EINVAL, buf, s)
      else pf_save_vf E written g vf buf s)"

definition pf_restore_vf ::
    "iov_env \<Rightarrow> intel_gt_type \<Rightarrow> nat \<Rightarrow> u32 list \<Rightarrow> pf_state \<Rightarrow> nat res \<times> pf_state" where
  "pf_restore_vf E g vf buf s =
     (case intel_guc_allocate_and_map_vma E (dev s) of
        (Inl e, d) \<Rightarrow> (Inl e, s\<lparr>dev := d\<rparr>)
      | (Inr addr, d) \<Rightarrow>
          (case guc_action_save_restore_vf E g vf GUC_PF_OPCODE_VF_RESTORE (ucast addr)
                  (of_nat (length buf)) buf d of
             (r, d1) \<Rightarrow> (case r of Inl e \<Rightarrow> Inl e | Inr n \<Rightarrow> Inr (n * 4), s\<lparr>dev := d1\<rparr>)))"

definition intel_iov_state_restore_vf ::
    "iov_env \<Rightarrow> intel_gt_type \<Rightarrow> nat \<Rightarrow> u32 list \<Rightarrow> pf_state \<Rightarrow> nat res \<times> pf_state" where
  "intel_iov_state_restore_vf E g vf buf s =
     (if of_nat (4 * length buf) < PF2GUC_SAVE_RESTORE_VF_BUFF_MIN_SIZE then (Inl EINVAL, s)
      else pf_restore_vf E g vf buf s)"

definition intel_iov_state_store_guc_migration_state ::
    "iov_env \<Rightarrow> intel_gt_type \<Rightarrow> nat \<Rightarrow> u32 list \<Rightarrow> pf_state \<Rightarrow> unit res \<times> pf_state" where
  "intel_iov_state_store_guc_migration_state E g vf buf s =
     (if of_nat (4 * length buf) < PF2GUC_SAVE_RESTORE_VF_BUFF_MIN_SIZE then (Inl EINVAL, s)
      else case intel_iov_state_restore_vf E g vf buf s of
        (r, s1) \<Rightarrow> (case r of Inl e \<Rightarrow> Inl e | Inr n \<Rightarrow> Inr (), s1))"

end
