(* ===== verification/Iov_Relay.thy ===== *)
theory Iov_Relay
  imports Guc_Hxg
begin

text \<open>
  The relay of messages between the PF and its VFs (\<open>gt/iov/intel_iov_relay.c\<close>). A relay belongs
  to one driver, the PF or a VF; the GuC carries the messages. A sender that waits for a reply is
  in the list \<open>pending_relays\<close>, and the handlers of received messages complete it. What the
  handlers do while a sender runs is a function of the environment, called at every point at
  which the sender does not hold the lock and its next step depends on them.
\<close>

section \<open>Data\<close>

text \<open>
  \<open>pending_relay::reply\<close> is an \<open>int\<close>: 0, a negative errno of this driver, or the positive error
  code of the peer.
\<close>

datatype (plugins only: code) relay_reply = Reply_ok | Reply_err errno | Reply_error u32

record pending_relay =
  pr_id :: nat
  pr_done :: bool
  pr_target :: u32
  pr_fence :: u32
  pr_reply :: relay_reply
  pr_response :: "u32 list"
  pr_response_size :: u32

text \<open>\<open>relay_sent\<close> lists the requests that the GuC accepted, the last one first.\<close>

record intel_iov_relay =
  pending_relays :: "pending_relay list"
  relay_last_fence :: u32
  relay_sent :: "u32 list list"
  relay_attempts :: nat
  relay_points :: nat
  relay_ids :: nat

record relay_env =
  env_send_nb :: "nat \<Rightarrow> unit res"
  env_handlers :: "nat \<Rightarrow> intel_iov_relay \<Rightarrow> intel_iov_relay"
  relay_is_pf :: bool
  relay_is_vf :: bool

abbreviation GUC_ACTION_PF2GUC_RELAY_TO_VF :: u32 where "GUC_ACTION_PF2GUC_RELAY_TO_VF \<equiv> 0x5101"
abbreviation GUC_ACTION_VF2GUC_RELAY_TO_PF :: u32 where "GUC_ACTION_VF2GUC_RELAY_TO_PF \<equiv> 0x5103"
abbreviation VF2PF_MSG_MAX_LEN :: nat where "VF2PF_MSG_MAX_LEN \<equiv> 252"
abbreviation IOV_ERROR_UNDISCLOSED :: u32 where "IOV_ERROR_UNDISCLOSED \<equiv> 0"

text \<open>The numbers of the error codes.\<close>

primrec errno_code :: "errno \<Rightarrow> nat" where
  "errno_code EPERM = 1" | "errno_code ENOENT = 2" | "errno_code ESRCH = 3" | "errno_code EINTR = 4"
| "errno_code EIO = 5" | "errno_code ENXIO = 6" | "errno_code E2BIG = 7" | "errno_code EAGAIN = 11"
| "errno_code ENOMEM = 12" | "errno_code EACCES = 13" | "errno_code EFAULT = 14" | "errno_code EBUSY = 16"
| "errno_code ENODEV = 19" | "errno_code EINVAL = 22" | "errno_code ENOTTY = 25" | "errno_code ETXTBSY = 26"
| "errno_code ENOSPC = 28" | "errno_code EPIPE = 32" | "errno_code ERANGE = 34" | "errno_code EDEADLK = 35"
| "errno_code ENOSYS = 38" | "errno_code ENOMSG = 42" | "errno_code EBADR = 53" | "errno_code EXFULL = 54"
| "errno_code EBADRQC = 56" | "errno_code EBADSLT = 57" | "errno_code ENODATA = 61" | "errno_code ETIME = 62"
| "errno_code ENONET = 64" | "errno_code EPROTO = 71" | "errno_code EBADMSG = 74" | "errno_code EOVERFLOW = 75"
| "errno_code EMSGSIZE = 90" | "errno_code EPROTONOSUPPORT = 93" | "errno_code EOPNOTSUPP = 95"
| "errno_code EPFNOSUPPORT = 96" | "errno_code ENOBUFS = 105" | "errno_code ENOTCONN = 107"
| "errno_code ETIMEDOUT = 110" | "errno_code ECONNREFUSED = 111" | "errno_code EHOSTDOWN = 112"
| "errno_code ESTALE = 116" | "errno_code EUCLEAN = 117" | "errno_code ENAVAIL = 119"
| "errno_code EREMOTEIO = 121" | "errno_code EDQUOT = 122" | "errno_code ECANCELED = 125"
| "errno_code ENOKEY = 126" | "errno_code EKEYREJECTED = 129" | "errno_code ERFKILL = 132"
| "errno_code (Errno n) = n"

section \<open>Sending\<close>

definition relay_get_next_fence :: "intel_iov_relay \<Rightarrow> u32 \<times> intel_iov_relay" where
  "relay_get_next_fence r =
     (let fence = relay_last_fence r + 1; fence' = (if fence = 0 then 1 else fence)
      in (fence', r\<lparr>relay_last_fence := fence'\<rparr>))"

text \<open>\<open>intel_guc_send_nb\<close>, tried again as long as it reports EBUSY.\<close>

partial_function (option) relay_guc_send ::
    "relay_env \<Rightarrow> u32 list \<Rightarrow> intel_iov_relay \<Rightarrow> (unit res \<times> intel_iov_relay) option" where
  "relay_guc_send E req r =
     (let r1 = r\<lparr>relay_attempts := Suc (relay_attempts r)\<rparr>
      in case env_send_nb E (relay_attempts r) of
           Inr _ \<Rightarrow> Some (Inr (), r1\<lparr>relay_sent := req # relay_sent r\<rparr>)
         | Inl e \<Rightarrow> if e = EBUSY then relay_guc_send E req r1 else Some (Inl e, r1))"

definition pf_relay_send ::
    "relay_env \<Rightarrow> u32 \<Rightarrow> u32 \<Rightarrow> u32 list \<Rightarrow> intel_iov_relay \<Rightarrow> (unit res \<times> intel_iov_relay) option" where
  "pf_relay_send E target relay_id msg r =
     relay_guc_send E
       ([hxg_request_msg GUC_HXG_ORIGIN_HOST GUC_HXG_TYPE_REQUEST GUC_ACTION_PF2GUC_RELAY_TO_VF 0,
         target, relay_id] @ msg) r"

definition vf_relay_send ::
    "relay_env \<Rightarrow> u32 \<Rightarrow> u32 list \<Rightarrow> intel_iov_relay \<Rightarrow> (unit res \<times> intel_iov_relay) option" where
  "vf_relay_send E relay_id msg r =
     relay_guc_send E
       ([hxg_request_msg GUC_HXG_ORIGIN_HOST GUC_HXG_TYPE_REQUEST GUC_ACTION_VF2GUC_RELAY_TO_PF 0,
         relay_id] @ msg) r"

definition relay_send ::
    "relay_env \<Rightarrow> u32 \<Rightarrow> u32 \<Rightarrow> u32 list \<Rightarrow> intel_iov_relay \<Rightarrow> (unit res \<times> intel_iov_relay) option" where
  "relay_send E target relay_id msg r =
     (if target \<noteq> 0 then pf_relay_send E target relay_id msg r else vf_relay_send E relay_id msg r)"

section \<open>Replies to a VF\<close>

definition intel_iov_relay_reply_to_vf ::
    "relay_env \<Rightarrow> u32 \<Rightarrow> u32 \<Rightarrow> u32 list \<Rightarrow> intel_iov_relay \<Rightarrow> (unit res \<times> intel_iov_relay) option" where
  "intel_iov_relay_reply_to_vf E target relay_id msg r = relay_send E target relay_id msg r"

definition relay_send_success ::
    "relay_env \<Rightarrow> u32 \<Rightarrow> u32 \<Rightarrow> u32 \<Rightarrow> intel_iov_relay \<Rightarrow> (unit res \<times> intel_iov_relay) option" where
  "relay_send_success E target relay_id data r =
     relay_send E target relay_id
       [hxg_aux_msg GUC_HXG_ORIGIN_HOST GUC_HXG_TYPE_RESPONSE_SUCCESS data] r"

definition intel_iov_relay_reply_ack_to_vf ::
    "relay_env \<Rightarrow> u32 \<Rightarrow> u32 \<Rightarrow> u32 \<Rightarrow> intel_iov_relay \<Rightarrow> (unit res \<times> intel_iov_relay) option" where
  "intel_iov_relay_reply_ack_to_vf E target relay_id data r = relay_send_success E target relay_id data r"

definition from_err_to_iov_error :: "errno \<Rightarrow> u32" where
  "from_err_to_iov_error err = of_nat (errno_code err)"

text \<open>
  The configuration without \<open>CONFIG_DRM_I915_SELFTEST\<close>: no error code and no hint leaves the PF. With
  the selftests both functions return their argument.
\<close>

definition sanitize_iov_error :: "u32 \<Rightarrow> u32" where
  "sanitize_iov_error error = IOV_ERROR_UNDISCLOSED"

definition sanitize_iov_error_hint :: "u32 \<Rightarrow> u32" where
  "sanitize_iov_error_hint hint = 0"

definition relay_failure_msg :: "u32 \<Rightarrow> u32 \<Rightarrow> u32" where
  "relay_failure_msg error hint =
     hxg_request_msg GUC_HXG_ORIGIN_HOST GUC_HXG_TYPE_RESPONSE_FAILURE error hint"

definition relay_send_failure ::
    "relay_env \<Rightarrow> u32 \<Rightarrow> u32 \<Rightarrow> u32 \<Rightarrow> u32 \<Rightarrow> intel_iov_relay \<Rightarrow> (unit res \<times> intel_iov_relay) option" where
  "relay_send_failure E target relay_id error hint r =
     relay_send E target relay_id [relay_failure_msg error hint] r"

definition intel_iov_relay_reply_err_to_vf ::
    "relay_env \<Rightarrow> u32 \<Rightarrow> u32 \<Rightarrow> errno \<Rightarrow> intel_iov_relay \<Rightarrow> (unit res \<times> intel_iov_relay) option" where
  "intel_iov_relay_reply_err_to_vf E target relay_id err r =
     relay_send_failure E target relay_id (sanitize_iov_error (from_err_to_iov_error err)) 0 r"

definition intel_iov_relay_reply_error_to_vf ::
    "relay_env \<Rightarrow> u32 \<Rightarrow> u32 \<Rightarrow> u16 \<Rightarrow> u16 \<Rightarrow> intel_iov_relay \<Rightarrow> (unit res \<times> intel_iov_relay) option" where
  "intel_iov_relay_reply_error_to_vf E target relay_id error hint r =
     relay_send_failure E target relay_id (sanitize_iov_error (ucast error))
       (sanitize_iov_error_hint (ucast hint)) r"

section \<open>Sending and waiting for the reply\<close>

definition relay_point :: "relay_env \<Rightarrow> intel_iov_relay \<Rightarrow> intel_iov_relay" where
  "relay_point E r = env_handlers E (relay_points r) (r\<lparr>relay_points := Suc (relay_points r)\<rparr>)"

definition relay_add_pending ::
    "u32 \<Rightarrow> u32 \<Rightarrow> u32 list \<Rightarrow> intel_iov_relay \<Rightarrow> nat \<times> intel_iov_relay" where
  "relay_add_pending target relay_id buf r =
     (relay_ids r, r\<lparr>relay_ids := Suc (relay_ids r), pending_relays := pending_relays r @
        [\<lparr>pr_id = relay_ids r, pr_done = False, pr_target = target, pr_fence = relay_id,
          pr_reply = Reply_err ENOMSG, pr_response = buf, pr_response_size = of_nat (length buf)\<rparr>]\<rparr>)"

definition relay_unlink :: "nat \<Rightarrow> intel_iov_relay \<Rightarrow> intel_iov_relay" where
  "relay_unlink i r = r\<lparr>pending_relays := filter (\<lambda>p. pr_id p \<noteq> i) (pending_relays r)\<rparr>"

definition relay_pending :: "nat \<Rightarrow> intel_iov_relay \<Rightarrow> pending_relay" where
  "relay_pending i r = hd (filter (\<lambda>p. pr_id p = i) (pending_relays r))"

definition relay_reinit :: "nat \<Rightarrow> intel_iov_relay \<Rightarrow> intel_iov_relay" where
  "relay_reinit i r = r\<lparr>pending_relays :=
     map (\<lambda>p. if pr_id p = i then p\<lparr>pr_done := False\<rparr> else p) (pending_relays r)\<rparr>"

text \<open>
  The loop between the labels \<open>retry\<close> and \<open>unlink\<close>; \<open>resend\<close> tells which of the two labels it
  starts at. The handlers can run while the sender waits, between its test of the reply and the
  reset of the completion, and between the reset and its second look at the reply.
\<close>

partial_function (option) relay_wait_loop ::
    "relay_env \<Rightarrow> u32 \<Rightarrow> u32 \<Rightarrow> u32 list \<Rightarrow> nat \<Rightarrow> bool \<Rightarrow> intel_iov_relay \<Rightarrow>
     (u32 res \<times> intel_iov_relay) option" where
  "relay_wait_loop E target relay_id msg i resend r =
     (case (if resend then relay_send E target relay_id msg r else Some (Inr (), r)) of
        None \<Rightarrow> None
      | Some (Inl e, r1) \<Rightarrow> Some (Inl e, r1)
      | Some (Inr _, r1) \<Rightarrow>
          (let r2 = relay_point E r1; p = relay_pending i r2
           in if \<not> pr_done p then Some (Inl ETIME, r2)
              else if pr_reply p = Reply_ok then Some (Inr (pr_response_size p), r2)
              else let r3 = relay_point E (relay_reinit i (relay_point E r2))
                   in (case pr_reply (relay_pending i r3) of
                         Reply_ok \<Rightarrow> Some (Inr 0, r3)
                       | Reply_error e \<Rightarrow> Some (Inl (Errno (unat e)), r3)
                       | Reply_err e \<Rightarrow>
                           if e = EAGAIN then relay_wait_loop E target relay_id msg i True r3
                           else if e = EBUSY then relay_wait_loop E target relay_id msg i False r3
                           else Some (Inl e, r3))))"

definition relay_send_and_wait ::
    "relay_env \<Rightarrow> u32 \<Rightarrow> u32 \<Rightarrow> u32 list \<Rightarrow> u32 list \<Rightarrow> intel_iov_relay \<Rightarrow>
     ((u32 res \<times> u32 list) \<times> intel_iov_relay) option" where
  "relay_send_and_wait E target relay_id msg buf r =
     (case relay_add_pending target relay_id buf r of (i, r1) \<Rightarrow>
        case relay_wait_loop E target relay_id msg i True r1 of
          None \<Rightarrow> None
        | Some (ret, r2) \<Rightarrow> Some ((ret, pr_response (relay_pending i r2)), relay_unlink i r2))"

definition intel_iov_relay_send_to_vf ::
    "relay_env \<Rightarrow> u32 \<Rightarrow> u32 list \<Rightarrow> u32 list \<Rightarrow> intel_iov_relay \<Rightarrow>
     ((u32 res \<times> u32 list) \<times> intel_iov_relay) option" where
  "intel_iov_relay_send_to_vf E target msg buf r =
     (case relay_get_next_fence r of (relay_id, r1) \<Rightarrow>
        if GUC_HXG_MSG_0_TYPE (msg ! 0) = GUC_HXG_TYPE_EVENT
        then map_option (\<lambda>(ret, r2). ((map_sum (\<lambda>e. e) (\<lambda>_. 0) ret, buf), r2))
               (relay_send E target relay_id msg r1)
        else relay_send_and_wait E target relay_id msg buf r1)"

definition intel_iov_relay_send_to_pf ::
    "relay_env \<Rightarrow> u32 list \<Rightarrow> u32 list \<Rightarrow> intel_iov_relay \<Rightarrow>
     ((u32 res \<times> u32 list) \<times> intel_iov_relay) option" where
  "intel_iov_relay_send_to_pf E msg buf r =
     (case relay_get_next_fence r of (relay_id, r1) \<Rightarrow>
        if GUC_HXG_MSG_0_TYPE (msg ! 0) = GUC_HXG_TYPE_EVENT
        then map_option (\<lambda>(ret, r2). ((map_sum (\<lambda>e. e) (\<lambda>_. 0) ret, buf), r2))
               (relay_send E 0 relay_id msg r1)
        else relay_send_and_wait E 0 relay_id msg buf r1)"

section \<open>Handling a message\<close>

text \<open>The first pending relay with the target and the fence of the reply is completed.\<close>

definition complete_relay ::
    "u32 \<Rightarrow> u32 \<Rightarrow> relay_reply \<Rightarrow> u32 list \<Rightarrow> pending_relay list \<Rightarrow> unit res \<times> pending_relay list" where
  "complete_relay origin relay_id reply msg =
     update_first (\<lambda>p. pr_target p = origin \<and> pr_fence p = relay_id)
       (\<lambda>p. if reply \<noteq> Reply_ok then (Inr (), p\<lparr>pr_reply := reply, pr_done := True\<rparr>)
            else if of_nat (length msg) > pr_response_size p
              then (Inl ENOBUFS, p\<lparr>pr_reply := Reply_err ENOBUFS, pr_done := True\<rparr>)
            else (Inr (), p\<lparr>pr_response := GUC_HXG_MSG_0_AUX (hd msg) # tl msg @ drop (length msg) (pr_response p),
                    pr_response_size := of_nat (length msg), pr_reply := Reply_ok, pr_done := True\<rparr>))
       (Inl ESRCH)"

definition relay_handle_reply ::
    "u32 \<Rightarrow> u32 \<Rightarrow> relay_reply \<Rightarrow> u32 list \<Rightarrow> intel_iov_relay \<Rightarrow> unit res \<times> intel_iov_relay" where
  "relay_handle_reply origin relay_id reply msg r =
     (case complete_relay origin relay_id reply msg (pending_relays r) of
        (e, ps) \<Rightarrow> (e, r\<lparr>pending_relays := ps\<rparr>))"

definition relay_handle_failure ::
    "u32 \<Rightarrow> u32 \<Rightarrow> u32 list \<Rightarrow> intel_iov_relay \<Rightarrow> unit res \<times> intel_iov_relay" where
  "relay_handle_failure origin relay_id msg r =
     (let error = GUC_HXG_FAILURE_MSG_0_ERROR (hd msg)
      in relay_handle_reply origin relay_id
           (if error \<noteq> 0 then Reply_error error else Reply_err ERFKILL) [] r)"

definition relay_handle_event :: "u32 \<Rightarrow> u32 \<Rightarrow> u32 list \<Rightarrow> unit res" where
  "relay_handle_event origin relay_id msg = Inl EOPNOTSUPP"

end
