(* ===== verification/Iov_Service.thy ===== *)
theory Iov_Service
  imports Iov_State Iov_Relay
begin

text \<open>
  The services of the PF (\<open>gt/iov/intel_iov_service.c\<close>): the runtime registers that the PF shares
  with the VFs, the negotiation of the ABI version, the GGTT updates on behalf of a VF, each over
  the relay and over the MMIO relay, and the processing of relayed messages that ends in them
  (the second half of \<open>gt/iov/intel_iov_relay.c\<close>).
\<close>

section \<open>Data\<close>

record intel_iov_runtime_regs =
  rt_size :: nat
  rt_regs :: "u32 list"
  rt_values :: "u32 list"

text \<open>The PF side of \<open>struct intel_iov\<close> of one GT, with its relay.\<close>

record intel_iov =
  iov_state :: pf_state
  iov_relay :: intel_iov_relay
  iov_runtime :: intel_iov_runtime_regs
  iov_reads :: nat

text \<open>
  The platform decides which registers are shared; \<open>svc_read\<close> is what the hardware returns for a
  register in the n-th round of reads.
\<close>

datatype (plugins only: code) iov_platform = PLATFORM_12_70 | PLATFORM_TGL_ADL | PLATFORM_OTHER

record service_env =
  svc_iov :: iov_env
  svc_relay :: relay_env
  svc_gt :: intel_gt_type
  svc_platform :: iov_platform
  svc_read :: "nat \<Rightarrow> u32 \<Rightarrow> u32"

definition upd_dev :: "(i915_state \<Rightarrow> 'a \<times> i915_state) \<Rightarrow> intel_iov \<Rightarrow> 'a \<times> intel_iov" where
  "upd_dev f v =
     (case f (dev (iov_state v)) of (r, d) \<Rightarrow> (r, v\<lparr>iov_state := (iov_state v)\<lparr>dev := d\<rparr>\<rparr>))"

text \<open>A call of the relay with the relay of this \<open>intel_iov\<close>.\<close>

definition on_relay ::
    "(intel_iov_relay \<Rightarrow> ('a \<times> intel_iov_relay) option) \<Rightarrow> intel_iov \<Rightarrow> ('a \<times> intel_iov) option" where
  "on_relay f v = map_option (\<lambda>(ret, r). (ret, v\<lparr>iov_relay := r\<rparr>)) (f (iov_relay v))"

section \<open>Runtime registers\<close>

definition tgl_runtime_regs :: "u32 list" where
  "tgl_runtime_regs =
     [0x0D00, 0x9118, 0x9134, 0x9138, 0x913C, 0x9140, 0x9144, 0xA26C, 0xC1DC, 0x44074]"

definition mtl_runtime_regs :: "u32 list" where
  "mtl_runtime_regs =
     [0x0D00, 0x9114, 0x9118, 0x911C, 0x9134, 0x913C, 0x9140, 0x9144, 0x9148, 0xA26C, 0xC1DC, 0x44074,
      0x10100C, 0x116C68, 0x138010, 0x389140, 0x38C1DC]"

definition get_runtime_regs :: "service_env \<Rightarrow> (u32 list) res" where
  "get_runtime_regs E =
     (case svc_platform E of
        PLATFORM_12_70 \<Rightarrow> Inr mtl_runtime_regs
      | PLATFORM_TGL_ADL \<Rightarrow> Inr tgl_runtime_regs
      | PLATFORM_OTHER \<Rightarrow> Inl ENODEV)"

definition pf_alloc_runtime_info :: "service_env \<Rightarrow> intel_iov \<Rightarrow> unit res \<times> intel_iov" where
  "pf_alloc_runtime_info E v =
     (case get_runtime_regs E of
        Inl e \<Rightarrow> (Inl e, v)
      | Inr regs \<Rightarrow>
          if length regs = 0 then (Inr (), v)
          else case upd_dev (kmalloc (svc_iov E)) v of
            (ok, v1) \<Rightarrow>
              if \<not> ok then (Inl ENOMEM, v1)
              else (Inr (), v1\<lparr>iov_runtime := \<lparr>rt_size = length regs, rt_regs = regs,
                                              rt_values = replicate (length regs) 0\<rparr>\<rparr>))"

definition pf_release_runtime_info :: "intel_iov \<Rightarrow> intel_iov" where
  "pf_release_runtime_info v = v\<lparr>iov_runtime := \<lparr>rt_size = 0, rt_regs = [], rt_values = []\<rparr>\<rparr>"

definition pf_prepare_runtime_info :: "service_env \<Rightarrow> intel_iov \<Rightarrow> intel_iov" where
  "pf_prepare_runtime_info E v =
     (if rt_size (iov_runtime v) = 0 then v
      else v\<lparr>iov_reads := Suc (iov_reads v),
             iov_runtime := (iov_runtime v)
               \<lparr>rt_values := map (svc_read E (iov_reads v)) (take (rt_size (iov_runtime v)) (rt_regs (iov_runtime v)))\<rparr>\<rparr>)"

definition pf_reset_runtime_info :: "intel_iov \<Rightarrow> intel_iov" where
  "pf_reset_runtime_info v =
     (if rt_size (iov_runtime v) = 0 then v
      else v\<lparr>iov_runtime := (iov_runtime v)\<lparr>rt_values := replicate (rt_size (iov_runtime v)) 0\<rparr>\<rparr>)"

definition intel_iov_service_init_early :: "service_env \<Rightarrow> intel_iov \<Rightarrow> intel_iov" where
  "intel_iov_service_init_early E v =
     (case pf_alloc_runtime_info E v of
        (Inr _, v1) \<Rightarrow> v1
      | (Inl e, v1) \<Rightarrow> v1\<lparr>iov_state := pf_update_status e (iov_state v1)\<rparr>)"

definition intel_iov_service_release :: "intel_iov \<Rightarrow> intel_iov" where
  "intel_iov_service_release v = pf_release_runtime_info v"

definition intel_iov_service_update :: "service_env \<Rightarrow> intel_iov \<Rightarrow> intel_iov" where
  "intel_iov_service_update E v = pf_prepare_runtime_info E v"

definition intel_iov_service_reset :: "intel_iov \<Rightarrow> intel_iov" where
  "intel_iov_service_reset v = pf_reset_runtime_info v"

section \<open>Requests over the relay\<close>

abbreviation (input) IOV_VERSION_LATEST_MAJOR :: u32 where "IOV_VERSION_LATEST_MAJOR \<equiv> 1"
abbreviation (input) IOV_VERSION_LATEST_MINOR :: u32 where "IOV_VERSION_LATEST_MINOR \<equiv> 0"
abbreviation (input) IOV_VERSION_BASE_MAJOR :: u32 where "IOV_VERSION_BASE_MAJOR \<equiv> 1"
abbreviation (input) IOV_ACTION_VF2PF_HANDSHAKE :: u32 where "IOV_ACTION_VF2PF_HANDSHAKE \<equiv> 0x0001"
abbreviation (input) IOV_ACTION_VF2PF_QUERY_RUNTIME :: u32 where "IOV_ACTION_VF2PF_QUERY_RUNTIME \<equiv> 0x0101"
abbreviation (input) IOV_ACTION_VF2PF_UPDATE_GGTT32 :: u32 where "IOV_ACTION_VF2PF_UPDATE_GGTT32 \<equiv> 0x0102"

abbreviation iov_success :: "u32 \<Rightarrow> u32" where
  "iov_success data \<equiv> hxg_aux_msg GUC_HXG_ORIGIN_HOST GUC_HXG_TYPE_RESPONSE_SUCCESS data"

definition iov_version :: "u32 \<Rightarrow> u32 \<Rightarrow> u32" where
  "iov_version major minor = FIELD_PREP 16 16 major OR FIELD_PREP 16 0 minor"

definition iov_version_major :: "u32 \<Rightarrow> u32" where "iov_version_major w = FIELD_GET 16 16 w"
definition iov_version_minor :: "u32 \<Rightarrow> u32" where "iov_version_minor w = FIELD_GET 16 0 w"

lemma iov_version_fields [hxg_simps]:
  "iov_version_major (iov_version a b) = take_bit 16 a"
  "iov_version_minor (iov_version a b) = take_bit 16 b"
  unfolding iov_version_major_def iov_version_minor_def iov_version_def by (simp_all add: field_simps_guc)

definition handshake_version :: "u32 \<Rightarrow> u32 \<Rightarrow> (u32 \<times> u32) res" where
  "handshake_version wanted_major wanted_minor =
     (if wanted_major = 0 \<and> wanted_minor = 0
        then Inr (IOV_VERSION_LATEST_MAJOR, IOV_VERSION_LATEST_MINOR)
      else if wanted_major > IOV_VERSION_LATEST_MAJOR
        then Inr (IOV_VERSION_LATEST_MAJOR, IOV_VERSION_LATEST_MINOR)
      else if wanted_major < IOV_VERSION_BASE_MAJOR then Inl EINVAL
      else if wanted_major < IOV_VERSION_LATEST_MAJOR then Inr (wanted_major, wanted_minor)
      else Inr (wanted_major, min IOV_VERSION_LATEST_MINOR wanted_minor))"

definition reply_handshake ::
    "service_env \<Rightarrow> u32 \<Rightarrow> u32 \<Rightarrow> u32 list \<Rightarrow> intel_iov \<Rightarrow> (unit res \<times> intel_iov) option" where
  "reply_handshake E origin relay_id msg v =
     (if length msg \<noteq> 2 then Some (Inl EMSGSIZE, v)
      else if GUC_HXG_REQUEST_MSG_0_DATA0 (msg ! 0) \<noteq> 0 then Some (Inl EINVAL, v)
      else case handshake_version (iov_version_major (msg ! 1)) (iov_version_minor (msg ! 1)) of
        Inl e \<Rightarrow> Some (Inl e, v)
      | Inr (major, minor) \<Rightarrow>
          on_relay (intel_iov_relay_reply_to_vf (svc_relay E) origin relay_id
            [iov_success 0, iov_version major minor]) v)"

text \<open>The response of 20 dwords holds nine registers.\<close>

abbreviation runtime_max_chunk :: nat where "runtime_max_chunk \<equiv> 9"

definition runtime_chunk :: "intel_iov_runtime_regs \<Rightarrow> nat \<Rightarrow> nat \<Rightarrow> nat" where
  "runtime_chunk rt start limit =
     (let chunk = min (rt_size rt - start) runtime_max_chunk
      in if limit \<noteq> 0 then min chunk limit else chunk)"

definition runtime_response :: "intel_iov_runtime_regs \<Rightarrow> nat \<Rightarrow> nat \<Rightarrow> u32 list" where
  "runtime_response rt start limit =
     (let chunk = runtime_chunk rt start limit
      in [iov_success (of_nat chunk), of_nat (rt_size rt - start - chunk)] @
         concat (map (\<lambda>i. [rt_regs rt ! (start + i), rt_values rt ! (start + i)]) [0..<chunk]))"

definition pf_reply_runtime_query ::
    "service_env \<Rightarrow> u32 \<Rightarrow> u32 \<Rightarrow> u32 list \<Rightarrow> intel_iov \<Rightarrow> (unit res \<times> intel_iov) option" where
  "pf_reply_runtime_query E origin relay_id msg v =
     (if length msg > 2 then Some (Inl EMSGSIZE, v)
      else if length msg < 2 then Some (Inl EPROTO, v)
      else let limit = unat (GUC_HXG_REQUEST_MSG_0_DATA0 (msg ! 0)); start = unat (msg ! 1)
           in if start > rt_size (iov_runtime v) then Some (Inl EINVAL, v)
              else on_relay (intel_iov_relay_reply_to_vf (svc_relay E) origin relay_id
                     (runtime_response (iov_runtime v) start limit)) v)"

definition get_pte_from_msg :: "u32 list \<Rightarrow> nat \<Rightarrow> u64" where
  "get_pte_from_msg msg i = make_u64 (msg ! (i * 2 + 3)) (msg ! (i * 2 + 2))"

definition is_last_mode :: "u8 \<Rightarrow> bool" where
  "is_last_mode mode \<longleftrightarrow>
     mode = MMIO_UPDATE_GGTT_MODE_DUPLICATE_LAST \<or> mode = MMIO_UPDATE_GGTT_MODE_REPLICATE_LAST"

text \<open>
  The loop over the PTEs of a request: \<open>rng\<close> is the current range of PTEs with equal flags,
  \<open>updated\<close> counts what was written. A range is written when the flags change, the last one after
  the loop.
\<close>

primrec update_ggtt_ranges ::
    "service_env \<Rightarrow> nat \<Rightarrow> u8 \<Rightarrow> u64 list \<Rightarrow> u64 list \<Rightarrow> u32 \<Rightarrow> u16 \<Rightarrow> u16 \<Rightarrow> i915_state \<Rightarrow>
     u16 res \<times> i915_state" where
  "update_ggtt_ranges E vf mode [] rng pte_offset num_copies updated s =
     (case intel_iov_ggtt_pf_update_vf_ptes (svc_iov E) (svc_gt E) vf pte_offset mode num_copies rng s of
        (Inl e, s1) \<Rightarrow> (Inl e, s1)
      | (Inr ret, s1) \<Rightarrow> (Inr (updated + ret), s1))"
| "update_ggtt_ranges E vf mode (pte # ptes) rng pte_offset num_copies updated s =
     (if last rng AND NOT GEN12_GGTT_PTE_ADDR_MASK \<noteq> pte AND NOT GEN12_GGTT_PTE_ADDR_MASK then
        (case intel_iov_ggtt_pf_update_vf_ptes (svc_iov E) (svc_gt E) vf pte_offset mode
            (if is_last_mode mode then 0 else num_copies) rng s of
           (Inl e, s1) \<Rightarrow> (Inl e, s1)
         | (Inr ret, s1) \<Rightarrow>
             update_ggtt_ranges E vf mode ptes [pte] (pte_offset + of_nat (length rng))
               (if is_last_mode mode then num_copies else 0) (updated + ret) s1)
      else update_ggtt_ranges E vf mode ptes (rng @ [pte]) pte_offset num_copies updated s)"

text \<open>The second dword of an update: offset, mode and number of copies.\<close>

definition update_ggtt_msg_1 :: "u32 \<Rightarrow> u8 \<Rightarrow> u16 \<Rightarrow> u32" where
  "update_ggtt_msg_1 pte_offset mode num_copies =
     FIELD_PREP 2 10 (ucast mode) OR FIELD_PREP 10 0 (ucast num_copies) OR FIELD_PREP 20 12 pte_offset"

definition update_ggtt_copies :: "u32 \<Rightarrow> u16" where "update_ggtt_copies w = ucast (FIELD_GET 10 0 w)"
definition update_ggtt_mode :: "u32 \<Rightarrow> u8" where "update_ggtt_mode w = ucast (FIELD_GET 2 10 w)"
definition update_ggtt_offset :: "u32 \<Rightarrow> u32" where "update_ggtt_offset w = FIELD_GET 20 12 w"

definition pf_reply_update_ggtt ::
    "service_env \<Rightarrow> u32 \<Rightarrow> u32 \<Rightarrow> u32 list \<Rightarrow> intel_iov \<Rightarrow> (unit res \<times> intel_iov) option" where
  "pf_reply_update_ggtt E origin relay_id msg v =
     (if \<not> env_require_binder (svc_iov E) then Some (Inl EOPNOTSUPP, v)
      else if msg ! 0 = 0 \<or> msg ! 1 = 0 \<or> length msg < 4 \<or> length msg mod 2 \<noteq> 0 then Some (Inl EPROTO, v)
      else let count = (length msg - 2) div 2
           in if count > max_ptes True then Some (Inl EMSGSIZE, v)
              else case upd_dev (update_ggtt_ranges E (unat origin) (update_ggtt_mode (msg ! 1))
                     (map (get_pte_from_msg msg) [1..<count]) [get_pte_from_msg msg 0]
                     (update_ggtt_offset (msg ! 1)) (update_ggtt_copies (msg ! 1)) 0) v of
                (Inl e, v1) \<Rightarrow> Some (Inl e, v1)
              | (Inr updated, v1) \<Rightarrow>
                  on_relay (intel_iov_relay_reply_to_vf (svc_relay E) origin relay_id
                    [iov_success (ucast updated)]) v1)"

definition intel_iov_service_process_msg ::
    "service_env \<Rightarrow> u32 \<Rightarrow> u32 \<Rightarrow> u32 list \<Rightarrow> intel_iov \<Rightarrow> (unit res \<times> intel_iov) option" where
  "intel_iov_service_process_msg E origin relay_id msg v =
     (let action = GUC_HXG_REQUEST_MSG_0_ACTION (msg ! 0)
      in if origin = 0 then Some (Inl EPROTO, v)
         else if action = IOV_ACTION_VF2PF_HANDSHAKE then reply_handshake E origin relay_id msg v
         else if action = IOV_ACTION_VF2PF_QUERY_RUNTIME then pf_reply_runtime_query E origin relay_id msg v
         else if action = IOV_ACTION_VF2PF_UPDATE_GGTT32 then pf_reply_update_ggtt E origin relay_id msg v
         else Some (Inl EOPNOTSUPP, v))"

section \<open>Relayed messages\<close>

definition relay_handle_request ::
    "service_env \<Rightarrow> u32 \<Rightarrow> u32 \<Rightarrow> u32 list \<Rightarrow> intel_iov \<Rightarrow> (unit res \<times> intel_iov) option" where
  "relay_handle_request E origin relay_id msg v =
     (case (if relay_is_pf (svc_relay E) then intel_iov_service_process_msg E origin relay_id msg v
            else Some (Inl EOPNOTSUPP, v)) of
        None \<Rightarrow> None
      | Some (Inr u, v1) \<Rightarrow> Some (Inr u, v1)
      | Some (Inl err, v1) \<Rightarrow>
          (let error = from_err_to_iov_error err
           in on_relay (relay_send_failure (svc_relay E) origin relay_id
                (if origin \<noteq> 0 then sanitize_iov_error error else error) 0) v1))"

definition relay_process_msg ::
    "service_env \<Rightarrow> u32 \<Rightarrow> u32 \<Rightarrow> u32 list \<Rightarrow> intel_iov \<Rightarrow> (unit res \<times> intel_iov) option" where
  "relay_process_msg E origin relay_id msg v =
     (let reply = (\<lambda>h. Some (case h (iov_relay v) of (e, r) \<Rightarrow> (e, v\<lparr>iov_relay := r\<rparr>)));
          type = GUC_HXG_MSG_0_TYPE (msg ! 0)
      in if length msg < 1 then Some (Inl EPROTO, v)
         else if GUC_HXG_MSG_0_ORIGIN (msg ! 0) \<noteq> GUC_HXG_ORIGIN_HOST then Some (Inl EPROTO, v)
         else if type = GUC_HXG_TYPE_REQUEST then relay_handle_request E origin relay_id msg v
         else if type = GUC_HXG_TYPE_EVENT then Some (relay_handle_event origin relay_id msg, v)
         else if type = GUC_HXG_TYPE_RESPONSE_SUCCESS then reply (relay_handle_reply origin relay_id Reply_ok msg)
         else if type = GUC_HXG_TYPE_NO_RESPONSE_BUSY
           then reply (relay_handle_reply origin relay_id (Reply_err EBUSY) [])
         else if type = GUC_HXG_TYPE_NO_RESPONSE_RETRY
           then reply (relay_handle_reply origin relay_id (Reply_err EAGAIN) [])
         else if type = GUC_HXG_TYPE_RESPONSE_FAILURE then reply (relay_handle_failure origin relay_id msg)
         else Some (Inl EBADRQC, v))"

definition intel_iov_relay_process_guc2pf ::
    "service_env \<Rightarrow> u32 list \<Rightarrow> intel_iov \<Rightarrow> (unit res \<times> intel_iov) option" where
  "intel_iov_relay_process_guc2pf E msg v =
     (if \<not> relay_is_pf (svc_relay E) then Some (Inl EPERM, v)
      else if length msg < 3 then Some (Inl EPROTO, v)
      else if length msg > 3 + VF2PF_MSG_MAX_LEN then Some (Inl EMSGSIZE, v)
      else if GUC_HXG_REQUEST_MSG_0_DATA0 (msg ! 0) \<noteq> 0 then Some (Inl EPFNOSUPPORT, v)
      else if msg ! 1 = 0 then Some (Inl EPROTO, v)
      else relay_process_msg E (msg ! 1) (msg ! 2) (drop 3 msg) v)"

definition intel_iov_relay_process_guc2vf ::
    "service_env \<Rightarrow> u32 list \<Rightarrow> intel_iov \<Rightarrow> (unit res \<times> intel_iov) option" where
  "intel_iov_relay_process_guc2vf E msg v =
     (if \<not> relay_is_vf (svc_relay E) then Some (Inl EPERM, v)
      else if length msg < 2 then Some (Inl EPROTO, v)
      else if length msg > 2 + VF2PF_MSG_MAX_LEN then Some (Inl EMSGSIZE, v)
      else if GUC_HXG_REQUEST_MSG_0_DATA0 (msg ! 0) \<noteq> 0 then Some (Inl EPFNOSUPPORT, v)
      else relay_process_msg E 0 (msg ! 1) (drop 2 msg) v)"

section \<open>Requests over the MMIO relay\<close>

abbreviation (input) GUC_ACTION_PF2GUC_MMIO_RELAY_SUCCESS :: u32 where "GUC_ACTION_PF2GUC_MMIO_RELAY_SUCCESS \<equiv> 0x5007"
abbreviation (input) GUC_ACTION_PF2GUC_MMIO_RELAY_FAILURE :: u32 where "GUC_ACTION_PF2GUC_MMIO_RELAY_FAILURE \<equiv> 0x5008"
abbreviation (input) IOV_OPCODE_VF2PF_MMIO_HANDSHAKE :: u32 where "IOV_OPCODE_VF2PF_MMIO_HANDSHAKE \<equiv> 0x01"
abbreviation (input) IOV_OPCODE_VF2PF_MMIO_UPDATE_GGTT :: u32 where "IOV_OPCODE_VF2PF_MMIO_UPDATE_GGTT \<equiv> 0x02"
abbreviation (input) IOV_OPCODE_VF2PF_MMIO_GET_RUNTIME :: u32 where "IOV_OPCODE_VF2PF_MMIO_GET_RUNTIME \<equiv> 0x10"

definition send_mmio_relay_error ::
    "service_env \<Rightarrow> u32 \<Rightarrow> u32 \<Rightarrow> errno \<Rightarrow> intel_iov \<Rightarrow> nat res \<times> intel_iov" where
  "send_mmio_relay_error E vfid magic fault v =
     upd_dev (intel_guc_send (svc_iov E) (svc_gt E)
       [hxg_request_msg GUC_HXG_ORIGIN_HOST GUC_HXG_TYPE_REQUEST GUC_ACTION_PF2GUC_MMIO_RELAY_FAILURE 0,
        vfid, FIELD_PREP 4 24 magic OR FIELD_PREP 8 0 (of_nat (errno_code fault))] []) v"

definition send_mmio_relay_reply ::
    "service_env \<Rightarrow> u32 \<Rightarrow> u32 \<Rightarrow> u32 list \<Rightarrow> intel_iov \<Rightarrow> nat res \<times> intel_iov" where
  "send_mmio_relay_reply E vfid magic data v =
     upd_dev (intel_guc_send (svc_iov E) (svc_gt E)
       [hxg_request_msg GUC_HXG_ORIGIN_HOST GUC_HXG_TYPE_REQUEST GUC_ACTION_PF2GUC_MMIO_RELAY_SUCCESS 0,
        vfid, FIELD_PREP 4 24 magic OR FIELD_PREP 24 0 (data ! 0), data ! 1, data ! 2, data ! 3] []) v"

definition mmio_handshake_version :: "u32 list \<Rightarrow> (u32 \<times> u32) res" where
  "mmio_handshake_version msg =
     (let wanted_major = iov_version_major (msg ! 1); wanted_minor = iov_version_minor (msg ! 1)
      in if wanted_major = 0 \<and> wanted_minor = 0
           then Inr (IOV_VERSION_LATEST_MAJOR, IOV_VERSION_LATEST_MINOR)
         else if wanted_major > IOV_VERSION_LATEST_MAJOR
           then Inr (IOV_VERSION_LATEST_MAJOR, IOV_VERSION_LATEST_MINOR)
         else if wanted_major < IOV_VERSION_LATEST_MAJOR then Inl ENOPKG
         else if msg ! 0 = 0 \<or> msg ! 2 \<noteq> 0 \<or> msg ! 3 \<noteq> 0 then Inl EPROTO
         else Inr (wanted_major, min IOV_VERSION_LATEST_MINOR wanted_minor))"

definition reply_mmio_relay_handshake ::
    "service_env \<Rightarrow> u32 \<Rightarrow> u32 \<Rightarrow> u32 list \<Rightarrow> intel_iov \<Rightarrow> nat res \<times> intel_iov" where
  "reply_mmio_relay_handshake E vfid magic msg v =
     (case mmio_handshake_version msg of
        Inl fault \<Rightarrow> send_mmio_relay_error E vfid magic fault v
      | Inr (major, minor) \<Rightarrow> send_mmio_relay_reply E vfid magic [0, iov_version major minor, 0, 0] v)"

definition reply_mmio_relay_update_ggtt ::
    "service_env \<Rightarrow> u32 \<Rightarrow> u32 \<Rightarrow> u32 list \<Rightarrow> intel_iov \<Rightarrow> nat res \<times> intel_iov" where
  "reply_mmio_relay_update_ggtt E vfid magic msg v =
     (if \<not> env_require_binder (svc_iov E) then (Inl EOPNOTSUPP, v)
      else if msg ! 0 = 0 then (Inl EPROTO, v)
      else case upd_dev (intel_iov_ggtt_pf_update_vf_ptes (svc_iov E) (svc_gt E) (unat vfid)
             (update_ggtt_offset (msg ! 1)) (update_ggtt_mode (msg ! 1)) (update_ggtt_copies (msg ! 1))
             [make_u64 (msg ! 3) (msg ! 2)]) v of
        (Inl e, v1) \<Rightarrow> (Inl e, v1)
      | (Inr ret, v1) \<Rightarrow> send_mmio_relay_reply E vfid magic [FIELD_PREP 24 0 (ucast ret), 0, 0, 0] v1)"

definition i915_reg_cmp :: "u32 \<Rightarrow> u32 \<Rightarrow> int" where
  "i915_reg_cmp a b = sint (a - b)"

text \<open>The \<open>bsearch\<close> of the kernel: \<open>num\<close> entries from index \<open>base\<close> on are left.\<close>

function bsearch :: "u32 list \<Rightarrow> u32 \<Rightarrow> nat \<Rightarrow> nat \<Rightarrow> nat option" where
  "bsearch regs key base num =
     (if num = 0 then None
      else let pivot = base + num div 2; result = i915_reg_cmp key (regs ! pivot)
           in if result = 0 then Some pivot
              else if result > 0 then bsearch regs key (Suc pivot) ((num - 1) div 2)
              else bsearch regs key base (num div 2))"
  by pat_completeness auto
termination by (relation "measure (\<lambda>(regs, key, base, num). num)") auto

declare bsearch.simps [simp del]

definition lookup_reg_index :: "intel_iov_runtime_regs \<Rightarrow> u32 \<Rightarrow> nat res" where
  "lookup_reg_index rt offset =
     (case bsearch (rt_regs rt) offset 0 (rt_size rt) of None \<Rightarrow> Inl ENODATA | Some i \<Rightarrow> Inr i)"

text \<open>The values for the three offsets of a request, 0 for offset 0.\<close>

primrec get_reg_values :: "intel_iov_runtime_regs \<Rightarrow> u32 list \<Rightarrow> (u32 list) res" where
  "get_reg_values rt [] = Inr []"
| "get_reg_values rt (offset # offsets) =
     (case (if offset = 0 then Inr 0
            else case lookup_reg_index rt offset of
                   Inl _ \<Rightarrow> Inl EACCES
                 | Inr i \<Rightarrow> Inr (rt_values rt ! i)) of
        Inl e \<Rightarrow> Inl e
      | Inr x \<Rightarrow> map_sum (\<lambda>e. e) (\<lambda>xs. x # xs) (get_reg_values rt offsets))"

definition reply_mmio_relay_get_reg ::
    "service_env \<Rightarrow> u32 \<Rightarrow> u32 \<Rightarrow> u32 list \<Rightarrow> intel_iov \<Rightarrow> nat res \<times> intel_iov" where
  "reply_mmio_relay_get_reg E vfid magic msg v =
     (if msg ! 0 = 0 then (Inl EPROTO, v)
      else if msg ! 1 = 0 then (Inl EINVAL, v)
      else case get_reg_values (iov_runtime v) [msg ! 1, msg ! 2, msg ! 3] of
        Inl e \<Rightarrow> (Inl e, v)
      | Inr xs \<Rightarrow> send_mmio_relay_reply E vfid magic (0 # xs) v)"

definition mmio_relay_magic :: "u32 \<Rightarrow> u32" where "mmio_relay_magic w = FIELD_GET 4 24 w"
definition mmio_relay_opcode :: "u32 \<Rightarrow> u32" where "mmio_relay_opcode w = FIELD_GET 8 16 w"

definition intel_iov_service_process_mmio_relay ::
    "service_env \<Rightarrow> u32 list \<Rightarrow> intel_iov \<Rightarrow> nat res \<times> intel_iov" where
  "intel_iov_service_process_mmio_relay E msg v =
     (if \<not> relay_is_pf (svc_relay E) then (Inl EPERM, v)
      else if length msg \<noteq> 6 then (Inl EPROTO, v)
      else let vfid = msg ! 1; magic = mmio_relay_magic (msg ! 2); opcode = mmio_relay_opcode (msg ! 2)
           in if vfid = 0 then (Inl EPROTO, v)
              else case (if opcode = IOV_OPCODE_VF2PF_MMIO_HANDSHAKE
                           then reply_mmio_relay_handshake E vfid magic (drop 2 msg) v
                         else if opcode = IOV_OPCODE_VF2PF_MMIO_UPDATE_GGTT
                           then reply_mmio_relay_update_ggtt E vfid magic (drop 2 msg) v
                         else if opcode = IOV_OPCODE_VF2PF_MMIO_GET_RUNTIME
                           then reply_mmio_relay_get_reg E vfid magic (drop 2 msg) v
                         else (Inl EOPNOTSUPP, v)) of
                (Inr ret, v1) \<Rightarrow> (Inr ret, v1)
              | (Inl err, v1) \<Rightarrow> (Inl err, snd (send_mmio_relay_error E vfid magic err v1)))"

end
