(* ===== verification/I915_Sriov.thy ===== *)
theory I915_Sriov
  imports Iov_Service
begin

text \<open>
  SR-IOV on the level of the device (\<open>i915_sriov.c\<close>): the detection of the mode, the enabling and
  disabling of VFs, the operations on a VF that reach all GTs, the saving and restoring of the VFs
  around a system suspend, and the functions exported to the VFIO driver.
\<close>

section \<open>Data\<close>

datatype (plugins only: code) i915_iov_mode =
    I915_IOV_MODE_NONE | I915_IOV_MODE_GVT_VGPU | I915_IOV_MODE_SRIOV_PF | I915_IOV_MODE_SRIOV_VF

text \<open>What the PCI core knows of the device of a VF.\<close>

datatype (plugins only: code) vf_pci_dev =
    No_device | No_driver | Same_driver | Other_driver

text \<open>
  The device: the data of the PF, per GT the relay and the runtime registers, the references to the
  runtime power management of each GT, whether the GSC engine of a GT is scheduled, the references
  to the PCI devices of the VFs, the VFs whose PCI state was restored, the writes to the interrupt
  registers of the VFs, whether the links in sysfs exist, and the number of waits so far.
\<close>

record sriov_device =
  sd_pf :: pf_state
  sd_relay :: "intel_gt_type \<Rightarrow> intel_iov_relay"
  sd_runtime :: "intel_gt_type \<Rightarrow> intel_iov_runtime_regs"
  sd_reads :: "intel_gt_type \<Rightarrow> nat"
  device_vfs :: u16
  gt_pm :: "intel_gt_type \<Rightarrow> int"
  gsc_on :: "intel_gt_type \<Rightarrow> bool"
  vf_refs :: "nat \<Rightarrow> nat"
  pci_restored :: "nat list"
  irq_writes :: "(intel_gt_type \<times> u32 \<times> u32) list"
  sysfs_links :: bool
  sd_waits :: nat

text \<open>
  The environment:
  \<^item> \<open>sr_iov\<close>, \<open>sr_svc g\<close>: that of the PF operations and of the services of a GT;
  \<^item> \<open>sr_wait n ms\<close>: what the handlers of the driver do to the state during the \<open>n\<close>-th wait, of at
    most \<open>ms\<close> milliseconds;
  \<^item> \<open>sr_pci_enable n\<close>: the result of \<open>pci_enable_sriov\<close>, \<open>sr_vfs_assigned\<close>: of \<open>pci_vfs_assigned\<close>,
    \<open>sr_vf_dev vf\<close>: the PCI device of a VF;
  \<^item> \<open>sr_meteorlake\<close>, \<open>sr_has_gsc\<close>, \<open>sr_gsc_idle\<close>, \<open>sr_engine_sched\<close>, \<open>sr_gsc_reset\<close>, \<open>sr_pxp_init\<close>:
    the platform, and the results of the calls of the workaround for its GSC engine;
  \<^item> \<open>sr_guc_version g\<close>: the version of the GuC firmware; \<open>sr_written g vf\<close>: the state of the VF that
    the GuC writes; \<open>sr_ip_12_50\<close>: the graphics version is 12.50 or later;
  \<^item> \<open>sr_wedged g\<close>: the GT has an unrecoverable error.
\<close>

record sriov_env =
  sr_iov :: iov_env
  sr_svc :: "intel_gt_type \<Rightarrow> service_env"
  sr_wait :: "nat \<Rightarrow> nat \<Rightarrow> pf_state \<Rightarrow> pf_state"
  sr_pci_enable :: "nat \<Rightarrow> unit res"
  sr_vfs_assigned :: bool
  sr_vf_dev :: "nat \<Rightarrow> vf_pci_dev"
  sr_meteorlake :: bool
  sr_has_gsc :: "intel_gt_type \<Rightarrow> bool"
  sr_gsc_idle :: "intel_gt_type \<Rightarrow> bool"
  sr_engine_sched :: "intel_gt_type \<Rightarrow> bool \<Rightarrow> unit res"
  sr_gsc_reset :: "intel_gt_type \<Rightarrow> unit res"
  sr_pxp_init :: "unit res"
  sr_guc_version :: "intel_gt_type \<Rightarrow> u32"
  sr_written :: "intel_gt_type \<Rightarrow> nat \<Rightarrow> u32 list"
  sr_ip_12_50 :: bool
  sr_wedged :: "intel_gt_type \<Rightarrow> bool"

section \<open>Operations of one GT on the device\<close>

definition on_pf :: "(pf_state \<Rightarrow> 'a \<times> pf_state) \<Rightarrow> sriov_device \<Rightarrow> 'a \<times> sriov_device" where
  "on_pf f d = (case f (sd_pf d) of (r, s) \<Rightarrow> (r, d\<lparr>sd_pf := s\<rparr>))"

definition on_i915 :: "(i915_state \<Rightarrow> 'a \<times> i915_state) \<Rightarrow> sriov_device \<Rightarrow> 'a \<times> sriov_device" where
  "on_i915 f = on_pf (\<lambda>s. case f (dev s) of (r, x) \<Rightarrow> (r, s\<lparr>dev := x\<rparr>))"

text \<open>The \<open>struct intel_iov\<close> of one GT, for an operation of its services.\<close>

definition on_iov :: "intel_gt_type \<Rightarrow> (intel_iov \<Rightarrow> intel_iov) \<Rightarrow> sriov_device \<Rightarrow> sriov_device" where
  "on_iov g f d =
     (let v = f \<lparr>iov_state = sd_pf d, iov_relay = sd_relay d g, iov_runtime = sd_runtime d g,
                iov_reads = sd_reads d g\<rparr>
      in d\<lparr>sd_pf := iov_state v, sd_relay := (sd_relay d)(g := iov_relay v),
           sd_runtime := (sd_runtime d)(g := iov_runtime v), sd_reads := (sd_reads d)(g := iov_reads v)\<rparr>)"

abbreviation i915_of :: "sriov_device \<Rightarrow> i915_state" where
  "i915_of d \<equiv> dev (sd_pf d)"

definition sriov_gts :: "sriov_device \<Rightarrow> intel_gt_type list" where
  "sriov_gts d = for_each_gt (i915_of d)"

text \<open>A loop over the GTs that leaves at the first error.\<close>

primrec try_gts ::
    "(intel_gt_type \<Rightarrow> 's \<Rightarrow> 'a res \<times> 's) \<Rightarrow> intel_gt_type list \<Rightarrow> 's \<Rightarrow> unit res \<times> 's" where
  "try_gts f [] d = (Inr (), d)"
| "try_gts f (g # gs) d =
     (case f g d of (Inl e, d1) \<Rightarrow> (Inl e, d1) | (Inr v, d1) \<Rightarrow> try_gts f gs d1)"

text \<open>A loop over the GTs that goes on after an error and returns the first one
  (\<open>result = result ?: err\<close>).\<close>

primrec all_gts ::
    "(intel_gt_type \<Rightarrow> 's \<Rightarrow> nat res \<times> 's) \<Rightarrow> intel_gt_type list \<Rightarrow> nat res \<Rightarrow> 's \<Rightarrow> nat res \<times> 's" where
  "all_gts f [] result d = (result, d)"
| "all_gts f (g # gs) result d =
     (case f g d of (err, d1) \<Rightarrow> all_gts f gs (if result = Inr 0 then err else result) d1)"

text \<open>\<open>wait_for\<close> tests the condition, sleeps, and tests it once more when the time is over.\<close>

definition sriov_wait_for ::
    "sriov_env \<Rightarrow> (pf_state \<Rightarrow> bool) \<Rightarrow> nat \<Rightarrow> sriov_device \<Rightarrow> bool \<times> sriov_device" where
  "sriov_wait_for E cond ms d =
     (if cond (sd_pf d) then (True, d)
      else let d1 = d\<lparr>sd_pf := sr_wait E (sd_waits d) ms (sd_pf d), sd_waits := Suc (sd_waits d)\<rparr>
           in (cond (sd_pf d1), d1))"

definition intel_gt_pm_get :: "intel_gt_type \<Rightarrow> sriov_device \<Rightarrow> sriov_device" where
  "intel_gt_pm_get g d = d\<lparr>gt_pm := (gt_pm d)(g := gt_pm d g + 1)\<rparr>"

definition intel_gt_pm_put :: "intel_gt_type \<Rightarrow> sriov_device \<Rightarrow> sriov_device" where
  "intel_gt_pm_put g d = d\<lparr>gt_pm := (gt_pm d)(g := gt_pm d g - 1)\<rparr>"

section \<open>Detection of the mode\<close>

text \<open>
  What the device tells: SR-IOV of the platform, the VF capability register, whether the PCI core
  sees a PF, the number of VFs of the device, the module parameter, the BARs for the VFs, and
  local memory.
\<close>

record sriov_probe_env =
  pb_has_sriov :: bool
  pb_vf_cap :: u32
  pb_is_pf :: bool
  pb_totalvfs :: u16
  pb_max_vfs :: u32
  pb_gttmm_bar :: bool
  pb_lmem_bar :: bool
  pb_has_lmem :: bool

definition gen12_pci_capability_is_vf :: "sriov_probe_env \<Rightarrow> bool" where
  "gen12_pci_capability_is_vf E =
     (let v = pb_vf_cap E in if v AND NOT 1 \<noteq> 0 then False else v AND 1 \<noteq> 0)"

definition wanted_max_vfs :: "sriov_probe_env \<Rightarrow> u32" where
  "wanted_max_vfs E = pb_max_vfs E"

definition pf_has_valid_vf_bars :: "sriov_probe_env \<Rightarrow> bool" where
  "pf_has_valid_vf_bars E =
     (if \<not> pb_gttmm_bar E then False else if pb_has_lmem E \<and> \<not> pb_lmem_bar E then False else True)"

text \<open>The limit that the PCI core is given, and the numbers of VFs that the driver stores.\<close>

record sriov_limits =
  lim_total :: u16
  lim_device :: u16
  lim_driver :: u16

definition pf_reduce_totalvfs :: "u16 \<Rightarrow> sriov_limits \<Rightarrow> sriov_limits" where
  "pf_reduce_totalvfs n l = l\<lparr>lim_total := n\<rparr>"

definition pf_continue_as_native :: "sriov_limits \<Rightarrow> bool \<times> sriov_limits" where
  "pf_continue_as_native l = (False, pf_reduce_totalvfs 0 l)"

text \<open>\<open>min_t(u16, ...)\<close> converts both arguments to 16 bits before it compares them.\<close>

definition pf_verify_readiness :: "sriov_probe_env \<Rightarrow> sriov_limits \<Rightarrow> bool \<times> sriov_limits" where
  "pf_verify_readiness E l =
     (let newlimit = min (ucast (wanted_max_vfs E)) (pb_totalvfs E) :: u16
      in if newlimit = 0 then pf_continue_as_native l
         else if \<not> pf_has_valid_vf_bars E then pf_continue_as_native l
         else (True, (pf_reduce_totalvfs newlimit l)\<lparr>lim_device := pb_totalvfs E, lim_driver := newlimit\<rparr>))"

definition i915_sriov_probe :: "sriov_probe_env \<Rightarrow> sriov_limits \<Rightarrow> i915_iov_mode \<times> sriov_limits" where
  "i915_sriov_probe E l =
     (if \<not> pb_has_sriov E then (I915_IOV_MODE_NONE, l)
      else if gen12_pci_capability_is_vf E then (I915_IOV_MODE_SRIOV_VF, l)
      else if \<not> pb_is_pf E then (I915_IOV_MODE_NONE, l)
      else case pf_verify_readiness E l of
        (True, l1) \<Rightarrow> (I915_IOV_MODE_SRIOV_PF, l1) | (False, l1) \<Rightarrow> (I915_IOV_MODE_NONE, l1))"

definition vf_check_guc_submission_support :: "bool \<Rightarrow> unit res" where
  "vf_check_guc_submission_support wanted = (if \<not> wanted then Inl ENODEV else Inr ())"

section \<open>Confirming the PF\<close>

definition i915_sriov_pf_get_device_totalvfs :: "sriov_device \<Rightarrow> nat" where
  "i915_sriov_pf_get_device_totalvfs d = unat (device_vfs d)"

definition i915_sriov_pf_get_totalvfs :: "sriov_device \<Rightarrow> nat" where
  "i915_sriov_pf_get_totalvfs d = unat (driver_vfs (i915_of d))"

definition pf_checklist :: "sriov_env \<Rightarrow> sriov_device \<Rightarrow> bool \<times> sriov_device" where
  "pf_checklist E d =
     (if list_ex (sr_wedged E) (sriov_gts d)
      then (False, d\<lparr>sd_pf := pf_update_status EIO (sd_pf d)\<rparr>) else (True, d))"

text \<open>The result is the limit that the PCI core is given, if any.\<close>

definition i915_sriov_pf_confirm :: "sriov_env \<Rightarrow> sriov_device \<Rightarrow> nat option \<times> sriov_device" where
  "i915_sriov_pf_confirm E d =
     (case (if i915_sriov_pf_aborted (i915_of d) then (False, d) else pf_checklist E d) of
        (False, d1) \<Rightarrow> (Some 0, d1)
      | (True, d1) \<Rightarrow>
          let d2 = snd (on_i915 (\<lambda>s. ((), pf_set_status (Inr (i915_sriov_pf_get_totalvfs d1)) s)) d1)
          in (None, fold (\<lambda>g x. snd (on_i915 (intel_iov_provisioning_force_vgt_mode (sr_iov E) g) x))
                      (sriov_gts d2) d2))"

section \<open>The workaround for the GSC engine\<close>

definition intel_guc_set_engine_sched ::
    "sriov_env \<Rightarrow> intel_gt_type \<Rightarrow> bool \<Rightarrow> sriov_device \<Rightarrow> unit res \<times> sriov_device" where
  "intel_guc_set_engine_sched E g on d =
     (sr_engine_sched E g on,
      if sr_engine_sched E g on = Inr () then d\<lparr>gsc_on := (gsc_on d)(g := on)\<rparr> else d)"

definition intel_guc_enable_gsc_engine ::
    "sriov_env \<Rightarrow> intel_gt_type \<Rightarrow> sriov_device \<Rightarrow> unit res \<times> sriov_device" where
  "intel_guc_enable_gsc_engine E g d =
     (if \<not> sr_has_gsc E g then (Inr (), d) else intel_guc_set_engine_sched E g True d)"

definition intel_guc_disable_gsc_engine ::
    "sriov_env \<Rightarrow> intel_gt_type \<Rightarrow> sriov_device \<Rightarrow> unit res \<times> sriov_device" where
  "intel_guc_disable_gsc_engine E g d =
     (if \<not> sr_has_gsc E g then (Inr (), d)
      else if \<not> sr_gsc_idle E g then (Inl EBUSY, d)
      else case intel_guc_set_engine_sched E g False d of
        (Inl e, d1) \<Rightarrow> (Inl e, d1) | (Inr u, d1) \<Rightarrow> (sr_gsc_reset E g, d1))"

definition pf_enable_gsc_engine :: "sriov_env \<Rightarrow> sriov_device \<Rightarrow> unit res \<times> sriov_device" where
  "pf_enable_gsc_engine E d =
     (case try_gts (intel_guc_enable_gsc_engine E) (sriov_gts d) d of
        (Inl e, d1) \<Rightarrow> (Inl e, d1)
      | (Inr u, d1) \<Rightarrow>
          (case sr_pxp_init E of Inl e \<Rightarrow> if e \<noteq> ENODEV then Inl e else Inr () | Inr u \<Rightarrow> Inr (), d1))"

text \<open>Flushing the work of the GSC and \<open>intel_pxp_fini\<close> touch no state modelled here.\<close>

definition pf_disable_gsc_engine :: "sriov_env \<Rightarrow> sriov_device \<Rightarrow> unit res \<times> sriov_device" where
  "pf_disable_gsc_engine E d = try_gts (intel_guc_disable_gsc_engine E) (sriov_gts d) d"

section \<open>Enabling VFs\<close>

definition pf_update_guc_clients ::
    "sriov_env \<Rightarrow> intel_gt_type \<Rightarrow> nat \<Rightarrow> sriov_device \<Rightarrow> unit res \<times> sriov_device" where
  "pf_update_guc_clients E g num_vfs d = on_i915 (intel_iov_provisioning_push (sr_iov E) g num_vfs) d"

text \<open>One iteration of the first loop over the GTs: the configurations of the VFs are valid, or
  there is none and they are made, or left to be made later.\<close>

definition pf_prepare_vfs ::
    "sriov_env \<Rightarrow> bool \<Rightarrow> nat \<Rightarrow> intel_gt_type \<Rightarrow> sriov_device \<Rightarrow> unit res \<times> sriov_device" where
  "pf_prepare_vfs E auto num_vfs g d =
     (case (case intel_iov_provisioning_verify g num_vfs (i915_of d) of
              Inl e \<Rightarrow>
                if e = ENODATA
                then (if auto then on_i915 (intel_iov_provisioning_auto (sr_iov E) g num_vfs) d
                      else (Inr (), d))
                else (Inl e, d)
            | Inr u \<Rightarrow> (Inr (), d)) of
        (Inl e, d1) \<Rightarrow> (Inl e, d1)
      | (Inr u, d1) \<Rightarrow> (Inr (), on_iov g (intel_iov_service_update (sr_svc E g)) d1))"

definition pf_unprovision_gt :: "sriov_env \<Rightarrow> intel_gt_type \<Rightarrow> sriov_device \<Rightarrow> sriov_device" where
  "pf_unprovision_gt E g d = snd (on_i915 (intel_iov_provisioning_auto (sr_iov E) g 0) d)"

definition pf_enable_fail_pm :: "sriov_env \<Rightarrow> sriov_device \<Rightarrow> sriov_device" where
  "pf_enable_fail_pm E d =
     fold (\<lambda>g x. intel_gt_pm_put g (pf_unprovision_gt E g x)) (sriov_gts d) d"

definition pf_enable_fail_guc :: "sriov_env \<Rightarrow> sriov_device \<Rightarrow> sriov_device" where
  "pf_enable_fail_guc E d =
     pf_enable_fail_pm E (fold (\<lambda>g x. snd (pf_update_guc_clients E g 0 x)) (sriov_gts d) d)"

text \<open>The PCI core counts the VFs it has enabled.\<close>

definition pci_enable_sriov :: "sriov_env \<Rightarrow> nat \<Rightarrow> sriov_device \<Rightarrow> unit res \<times> sriov_device" where
  "pci_enable_sriov E num_vfs d =
     (case sr_pci_enable E num_vfs of
        Inl e \<Rightarrow> (Inl e, d)
      | Inr u \<Rightarrow> (Inr (), snd (on_i915 (\<lambda>s. ((), s\<lparr>pci_num_vf := of_nat num_vfs\<rparr>)) d)))"

definition i915_sriov_pf_enable_vfs ::
    "sriov_env \<Rightarrow> nat \<Rightarrow> sriov_device \<Rightarrow> nat res \<times> sriov_device" where
  "i915_sriov_pf_enable_vfs E num_vfs d =
     (let auto = i915_sriov_pf_is_auto_provisioning_enabled (i915_of d)
      in case i915_sriov_pf_status (i915_of d) of
        Inl e \<Rightarrow> (Inl e, d)
      | Inr st \<Rightarrow>
          (let d1 = fold intel_gt_pm_get (sriov_gts d) d;
               d2 = (if sr_meteorlake E then snd (pf_disable_gsc_engine E d1) else d1)
           in case try_gts (pf_prepare_vfs E auto num_vfs) (sriov_gts d2) d2 of
             (Inl e, d3) \<Rightarrow> (Inl e, pf_enable_fail_pm E d3)
           | (Inr u, d3) \<Rightarrow>
               (case try_gts (\<lambda>g. pf_update_guc_clients E g num_vfs) (sriov_gts d3) d3 of
                  (Inl e, d4) \<Rightarrow> (Inl e, pf_enable_fail_pm E d4)
                | (Inr u, d4) \<Rightarrow>
                    (case pci_enable_sriov E num_vfs d4 of
                       (Inl e, d5) \<Rightarrow> (Inl e, pf_enable_fail_guc E d5)
                     | (Inr u, d5) \<Rightarrow> (Inr num_vfs, d5\<lparr>sysfs_links := True\<rparr>)))))"

section \<open>Disabling VFs\<close>

definition pf_start_vfs_flr :: "intel_gt_type \<Rightarrow> nat \<Rightarrow> sriov_device \<Rightarrow> sriov_device" where
  "pf_start_vfs_flr g num_vfs d = d\<lparr>sd_pf := fold (intel_iov_state_start_flr g) [1..<Suc num_vfs] (sd_pf d)\<rparr>"

abbreviation (input) I915_VF_FLR_TIMEOUT_MS :: nat where "I915_VF_FLR_TIMEOUT_MS \<equiv> 1000"

text \<open>Each VF that is not done in time halves the time for the next ones.\<close>

primrec wait_vfs_flr_loop ::
    "sriov_env \<Rightarrow> intel_gt_type \<Rightarrow> nat list \<Rightarrow> nat \<Rightarrow> nat \<Rightarrow> sriov_device \<Rightarrow> nat \<times> sriov_device" where
  "wait_vfs_flr_loop E g [] ms timed_out d = (timed_out, d)"
| "wait_vfs_flr_loop E g (n # ns) ms timed_out d =
     (case sriov_wait_for E (intel_iov_state_no_flr g n) ms d of
        (ok, d1) \<Rightarrow> if ok then wait_vfs_flr_loop E g ns ms timed_out d1
                   else wait_vfs_flr_loop E g ns (ms div 2) (Suc timed_out) d1)"

definition pf_wait_vfs_flr ::
    "sriov_env \<Rightarrow> intel_gt_type \<Rightarrow> nat \<Rightarrow> nat \<Rightarrow> sriov_device \<Rightarrow> nat \<times> sriov_device" where
  "pf_wait_vfs_flr E g num_vfs ms d = wait_vfs_flr_loop E g [1..<Suc num_vfs] ms 0 d"

definition pci_disable_sriov :: "sriov_device \<Rightarrow> sriov_device" where
  "pci_disable_sriov d = snd (on_i915 (\<lambda>s. ((), s\<lparr>pci_num_vf := 0\<rparr>)) d)"

definition pf_release_vfs :: "sriov_env \<Rightarrow> nat \<Rightarrow> intel_gt_type \<Rightarrow> sriov_device \<Rightarrow> sriov_device" where
  "pf_release_vfs E num_vfs g d =
     (case pf_wait_vfs_flr E g num_vfs 0 d of
        (in_flr, d1) \<Rightarrow>
          if in_flr \<noteq> 0 then d1
          else pf_unprovision_gt E g (snd (pf_update_guc_clients E g 0 d1)))"

definition i915_sriov_pf_disable_vfs :: "sriov_env \<Rightarrow> sriov_device \<Rightarrow> unit res \<times> sriov_device" where
  "i915_sriov_pf_disable_vfs E d =
     (let num_vfs = unat (pci_num_vf (i915_of d))
      in if sr_vfs_assigned E then (Inl EPERM, d)
         else if num_vfs = 0 then (Inr (), d)
         else
           (let d = pci_disable_sriov (d\<lparr>sysfs_links := False\<rparr>);
                gs = sriov_gts d;
                d = fold (\<lambda>g. pf_start_vfs_flr g num_vfs) gs d;
                d = fold (\<lambda>g x. snd (pf_wait_vfs_flr E g num_vfs I915_VF_FLR_TIMEOUT_MS x)) gs d;
                d = fold (pf_release_vfs E num_vfs) gs d;
                d = (if sr_meteorlake E then snd (pf_enable_gsc_engine E d) else d)
            in (Inr (), fold intel_gt_pm_put gs d)))"

section \<open>Operations on a VF on all GTs\<close>

definition ret0 :: "unit res \<Rightarrow> nat res" where
  "ret0 r = (case r of Inl e \<Rightarrow> Inl e | Inr u \<Rightarrow> Inr 0)"

definition on_all_gts ::
    "(intel_gt_type \<Rightarrow> pf_state \<Rightarrow> unit res \<times> pf_state) \<Rightarrow> sriov_device \<Rightarrow> nat res \<times> sriov_device" where
  "on_all_gts f d = all_gts (\<lambda>g. on_pf (\<lambda>s. apfst ret0 (f g s))) (sriov_gts d) (Inr 0) d"

definition i915_sriov_pf_stop_vf :: "sriov_env \<Rightarrow> nat \<Rightarrow> sriov_device \<Rightarrow> nat res \<times> sriov_device" where
  "i915_sriov_pf_stop_vf E vf d = on_all_gts (\<lambda>g. intel_iov_state_stop_vf (sr_iov E) g vf) d"

definition i915_sriov_pf_pause_vf :: "sriov_env \<Rightarrow> nat \<Rightarrow> sriov_device \<Rightarrow> nat res \<times> sriov_device" where
  "i915_sriov_pf_pause_vf E vf d = on_all_gts (\<lambda>g. intel_iov_state_pause_vf (sr_iov E) g vf) d"

definition i915_sriov_pf_resume_vf :: "sriov_env \<Rightarrow> nat \<Rightarrow> sriov_device \<Rightarrow> nat res \<times> sriov_device" where
  "i915_sriov_pf_resume_vf E vf d = on_all_gts (\<lambda>g. intel_iov_state_resume_vf (sr_iov E) g vf) d"

text \<open>Unlike the others \<open>intel_iov_provisioning_clear\<close> can return a positive number, which counts
  as a failure here.\<close>

definition i915_sriov_pf_clear_vf :: "sriov_env \<Rightarrow> nat \<Rightarrow> sriov_device \<Rightarrow> nat res \<times> sriov_device" where
  "i915_sriov_pf_clear_vf E vf d =
     all_gts (\<lambda>g. on_i915 (intel_iov_provisioning_clear (sr_iov E) g vf)) (sriov_gts d) (Inr 0) d"

end
