(* ===== verification/I915_Sriov_Pm.thy ===== *)
theory I915_Sriov_Pm
  imports I915_Sriov
begin

text \<open>
  System suspend and resume with VFs enabled, and the functions that \<open>i915_sriov.c\<close> exports to the
  VFIO driver of the VFs: waiting for a reset, and saving and loading the GGTT and the GuC state of
  a VF of one tile.
\<close>

section \<open>Which VFs the PF saves\<close>

text \<open>\<open>i915_pci_pf_get_vf_dev\<close> takes a reference, \<open>pci_dev_put\<close> gives it back.\<close>

definition i915_pci_pf_get_vf_dev ::
    "sriov_env \<Rightarrow> nat \<Rightarrow> sriov_device \<Rightarrow> vf_pci_dev option \<times> sriov_device" where
  "i915_pci_pf_get_vf_dev E vf d =
     (if sr_vf_dev E vf = No_device then (None, d)
      else (Some (sr_vf_dev E vf), d\<lparr>vf_refs := (vf_refs d)(vf := Suc (vf_refs d vf))\<rparr>))"

definition pci_dev_put :: "nat \<Rightarrow> sriov_device \<Rightarrow> sriov_device" where
  "pci_dev_put vf d = d\<lparr>vf_refs := (vf_refs d)(vf := vf_refs d vf - 1)\<rparr>"

definition needs_save_restore :: "sriov_env \<Rightarrow> nat \<Rightarrow> sriov_device \<Rightarrow> bool \<times> sriov_device" where
  "needs_save_restore E vf d =
     (case i915_pci_pf_get_vf_dev E vf d of
        (None, d1) \<Rightarrow> (False, d1)
      | (Some p, d1) \<Rightarrow> (p = Other_driver, pci_dev_put vf d1))"

section \<open>Saving\<close>

abbreviation (input) I915_VF_PAUSE_TIMEOUT_MS :: nat where "I915_VF_PAUSE_TIMEOUT_MS \<equiv> 500"

definition pf_pause_sync ::
    "sriov_env \<Rightarrow> intel_gt_type \<Rightarrow> nat \<Rightarrow> sriov_device \<Rightarrow> unit res \<times> sriov_device" where
  "pf_pause_sync E g vf d =
     (case on_pf (intel_iov_state_pause_vf_sync (sr_iov E)
                    (sr_wait E (sd_waits d) I915_VF_PAUSE_TIMEOUT_MS) g vf True) d of
        (r, d1) \<Rightarrow> (r, d1\<lparr>sd_waits := Suc (sd_waits d1)\<rparr>))"

definition pf_gt_save_vf_running ::
    "sriov_env \<Rightarrow> nat \<Rightarrow> intel_gt_type \<Rightarrow> sriov_device \<Rightarrow> unit res \<times> sriov_device" where
  "pf_gt_save_vf_running E vf g d = pf_pause_sync E g vf d"

text \<open>
  A loop over the VFs of which \<open>f\<close> handles one on a GT: VFs that need no saving are skipped, and
  the first error ends the loop.
\<close>

primrec vfs_until_error ::
    "sriov_env \<Rightarrow> (nat \<Rightarrow> intel_gt_type \<Rightarrow> sriov_device \<Rightarrow> unit res \<times> sriov_device) \<Rightarrow> nat list \<Rightarrow>
     sriov_device \<Rightarrow> sriov_device" where
  "vfs_until_error E f [] d = d"
| "vfs_until_error E f (n # ns) d =
     (case needs_save_restore E n d of
        (False, d1) \<Rightarrow> vfs_until_error E f ns d1
      | (True, d1) \<Rightarrow>
          (case try_gts (f n) (sriov_gts d1) d1 of
             (Inl e, d2) \<Rightarrow> d2 | (Inr u, d2) \<Rightarrow> vfs_until_error E f ns d2))"

definition pf_save_vfs_running :: "sriov_env \<Rightarrow> nat \<Rightarrow> sriov_device \<Rightarrow> sriov_device" where
  "pf_save_vfs_running E num_vfs d = vfs_until_error E (pf_gt_save_vf_running E) [1..<Suc num_vfs] d"

text \<open>The buffer for the state of the VF: the old one if it is large enough, else a new one.\<close>

definition guc_state_buffer :: "iov_env \<Rightarrow> intel_gt_type \<Rightarrow> nat \<Rightarrow> nat \<Rightarrow> pf_state \<Rightarrow> pf_state" where
  "guc_state_buffer E g vf sz s =
     (let x = vf_data g vf s
      in case guc_state_blob x of
        Some b \<Rightarrow>
          if of_nat sz \<le> guc_state_size x
          then upd_data g vf (\<lambda>x. x\<lparr>guc_state_blob := Some (replicate (unat (guc_state_size x) div 4) 0)\<rparr>) s
          else (case kmalloc E (dev s) of (ok, y) \<Rightarrow>
                  upd_data g vf (\<lambda>x. x\<lparr>guc_state_blob := if ok then Some (replicate (sz div 4) 0) else None,
                    guc_state_size := of_nat sz\<rparr>) (s\<lparr>dev := y\<rparr>))
      | None \<Rightarrow>
          (case kmalloc E (dev s) of (ok, y) \<Rightarrow>
             upd_data g vf (\<lambda>x. x\<lparr>guc_state_blob := if ok then Some (replicate (sz div 4) 0) else None,
               guc_state_size := of_nat sz\<rparr>) (s\<lparr>dev := y\<rparr>)))"

definition save_vf_guc_state ::
    "iov_env \<Rightarrow> u32 list \<Rightarrow> intel_gt_type \<Rightarrow> nat \<Rightarrow> pf_state \<Rightarrow> unit res \<times> pf_state" where
  "save_vf_guc_state E written g vf s =
     (case intel_iov_state_save_vf_size E g vf s of
        (Inl e, s1) \<Rightarrow> (Inl e, s1)
      | (Inr sz, s1) \<Rightarrow>
          (let s2 = guc_state_buffer E g vf sz s1
           in case guc_state_blob (vf_data g vf s2) of
             None \<Rightarrow> (Inl ENOMEM, s2)
           | Some buf \<Rightarrow>
               (case intel_iov_state_save_vf E written g vf buf s2 of
                  (r, out, s3) \<Rightarrow>
                    (case r of Inl e \<Rightarrow> Inl e | Inr n \<Rightarrow> Inr (),
                     upd_data g vf (\<lambda>x. x\<lparr>guc_state_blob := Some out\<rparr>) s3))))"

definition pf_gt_save_vf_guc_state ::
    "sriov_env \<Rightarrow> nat \<Rightarrow> intel_gt_type \<Rightarrow> sriov_device \<Rightarrow> unit res \<times> sriov_device" where
  "pf_gt_save_vf_guc_state E vf g d = on_pf (save_vf_guc_state (sr_iov E) (sr_written E g vf) g vf) d"

definition pf_save_vfs_guc_state :: "sriov_env \<Rightarrow> nat \<Rightarrow> sriov_device \<Rightarrow> sriov_device" where
  "pf_save_vfs_guc_state E num_vfs d =
     vfs_until_error E (pf_gt_save_vf_guc_state E) [1..<Suc num_vfs] d"

definition pf_suspend_active_vfs :: "sriov_env \<Rightarrow> sriov_device \<Rightarrow> sriov_device" where
  "pf_suspend_active_vfs E d =
     (let num_vfs = pf_get_numvfs (i915_of d)
      in if num_vfs = 0 then d
         else pf_save_vfs_guc_state E num_vfs (pf_save_vfs_running E num_vfs d))"

section \<open>Restoring\<close>

text \<open>A VF that needs no restoring keeps the reference taken at the top of the loop.\<close>

primrec restore_pci_loop :: "sriov_env \<Rightarrow> nat list \<Rightarrow> sriov_device \<Rightarrow> sriov_device" where
  "restore_pci_loop E [] d = d"
| "restore_pci_loop E (n # ns) d =
     (case i915_pci_pf_get_vf_dev E n d of
        (None, d1) \<Rightarrow> restore_pci_loop E ns d1
      | (Some p, d1) \<Rightarrow>
          (case needs_save_restore E n d1 of
             (False, d2) \<Rightarrow> restore_pci_loop E ns d2
           | (True, d2) \<Rightarrow>
               restore_pci_loop E ns (pci_dev_put n (d2\<lparr>pci_restored := n # pci_restored d2\<rparr>))))"

definition pf_restore_vfs_pci_state :: "sriov_env \<Rightarrow> nat \<Rightarrow> sriov_device \<Rightarrow> sriov_device" where
  "pf_restore_vfs_pci_state E num_vfs d = restore_pci_loop E [1..<Suc num_vfs] d"

definition MAKE_GUC_VER :: "u32 \<Rightarrow> u32 \<Rightarrow> u32 \<Rightarrow> u32" where
  "MAKE_GUC_VER maj mnr pat = push_bit 16 maj OR push_bit 8 mnr OR pat"

definition guc_supports_save_restore_v2 :: "sriov_env \<Rightarrow> intel_gt_type \<Rightarrow> bool" where
  "guc_supports_save_restore_v2 E g \<longleftrightarrow> sr_guc_version E g \<ge> MAKE_GUC_VER 70 25 0"

abbreviation (input) I915_VF_REPROVISION_TIMEOUT_MS :: nat where "I915_VF_REPROVISION_TIMEOUT_MS \<equiv> 1000"

definition restore_guc_blob ::
    "sriov_env \<Rightarrow> intel_gt_type \<Rightarrow> nat \<Rightarrow> u32 list \<Rightarrow> sriov_device \<Rightarrow> unit res \<times> sriov_device" where
  "restore_guc_blob E g vf buf d =
     on_pf (\<lambda>s. case intel_iov_state_restore_vf (sr_iov E) g vf buf s of
       (Inl e, s1) \<Rightarrow> (Inl e, s1)
     | (Inr n, s1) \<Rightarrow> (Inr (), upd_data g vf (\<lambda>x. x\<lparr>guc_state_blob := None\<rparr>) s1)) d"

definition pf_gt_restore_vf_guc_state ::
    "sriov_env \<Rightarrow> nat \<Rightarrow> intel_gt_type \<Rightarrow> sriov_device \<Rightarrow> unit res \<times> sriov_device" where
  "pf_gt_restore_vf_guc_state E vf g d =
     (case guc_state_blob (vf_data g vf (sd_pf d)) of
        None \<Rightarrow> (Inl EINVAL, d)
      | Some b \<Rightarrow>
          (case sriov_wait_for E (\<lambda>s. num_pushed (provisioning g (dev s)) \<ge> vf)
                  I915_VF_REPROVISION_TIMEOUT_MS d of
             (False, d1) \<Rightarrow> (Inl ETIMEDOUT, d1)
           | (True, d1) \<Rightarrow>
               (case (if guc_supports_save_restore_v2 E g then pf_pause_sync E g vf d1 else (Inr (), d1)) of
                  (Inl e, d2) \<Rightarrow> (Inl e, d2)
                | (Inr u, d2) \<Rightarrow>
                    restore_guc_blob E g vf (the (guc_state_blob (vf_data g vf (sd_pf d2)))) d2)))"

definition pf_restore_vfs_guc_state :: "sriov_env \<Rightarrow> nat \<Rightarrow> sriov_device \<Rightarrow> sriov_device" where
  "pf_restore_vfs_guc_state E num_vfs d =
     vfs_until_error E (pf_gt_restore_vf_guc_state E) [1..<Suc num_vfs] d"

definition vf_master_irq :: "sriov_env \<Rightarrow> nat \<Rightarrow> u32" where
  "vf_master_irq E vf = 0x190010 + of_nat vf * (if \<not> sr_ip_12_50 E then 0x1000 else 0x400)"

abbreviation (input) GEN11_MASTER_IRQ :: u32 where "GEN11_MASTER_IRQ \<equiv> 0x80000000"

definition pf_restore_vfs_irqs :: "sriov_env \<Rightarrow> nat \<Rightarrow> sriov_device \<Rightarrow> sriov_device" where
  "pf_restore_vfs_irqs E num_vfs d =
     d\<lparr>irq_writes := irq_writes d @
         concat (map (\<lambda>g. map (\<lambda>vf. (g, vf_master_irq E vf, GEN11_MASTER_IRQ)) [1..<Suc num_vfs]) (sriov_gts d))\<rparr>"

definition restore_vf_running :: "iov_env \<Rightarrow> intel_gt_type \<Rightarrow> nat \<Rightarrow> pf_state \<Rightarrow> unit res \<times> pf_state" where
  "restore_vf_running E g vf s =
     (if \<not> test_bit g vf IOV_VF_PAUSE_BY_SUSPEND s then (Inr (), s)
      else intel_iov_state_resume_vf E g vf (clear_bit g vf IOV_VF_PAUSE_BY_SUSPEND s))"

definition pf_gt_restore_vf_running ::
    "sriov_env \<Rightarrow> nat \<Rightarrow> intel_gt_type \<Rightarrow> sriov_device \<Rightarrow> unit res \<times> sriov_device" where
  "pf_gt_restore_vf_running E vf g d = on_pf (restore_vf_running (sr_iov E) g vf) d"

definition pf_restore_vfs_running :: "sriov_env \<Rightarrow> nat \<Rightarrow> sriov_device \<Rightarrow> sriov_device" where
  "pf_restore_vfs_running E num_vfs d =
     fold (\<lambda>vf x. snd (try_gts (pf_gt_restore_vf_running E vf) (sriov_gts x) x)) [1..<Suc num_vfs] d"

definition pf_resume_active_vfs :: "sriov_env \<Rightarrow> sriov_device \<Rightarrow> sriov_device" where
  "pf_resume_active_vfs E d =
     (let n = pf_get_numvfs (i915_of d)
      in if n = 0 then d
         else pf_restore_vfs_running E n (pf_restore_vfs_irqs E n
                (pf_restore_vfs_guc_state E n (pf_restore_vfs_pci_state E n d))))"

section \<open>Suspend and resume\<close>

text \<open>
  \<open>intel_iov_init_hw\<close> of the PF (\<open>gt/iov/intel_iov.c\<close>), which runs on every GT whenever the hardware
  is initialised again, at the end of a system suspend before \<open>i915_sriov_resume\<close>. The register that
  lets the VFs update their GGTT touches no state modelled here.
\<close>

definition intel_iov_init_hw_pf :: "sriov_env \<Rightarrow> intel_gt_type \<Rightarrow> sriov_device \<Rightarrow> sriov_device" where
  "intel_iov_init_hw_pf E g d =
     (let d = on_iov g (intel_iov_service_update (sr_svc E g)) d;
          d = snd (on_i915 (\<lambda>s. ((), intel_iov_provisioning_restart g s)) d)
      in d\<lparr>sd_pf := intel_iov_state_reset g (sd_pf d)\<rparr>)"

text \<open>\<open>is_pf\<close> tells whether the driver runs as the PF; both functions return 0.\<close>

definition i915_sriov_suspend_prepare :: "sriov_env \<Rightarrow> bool \<Rightarrow> sriov_device \<Rightarrow> sriov_device" where
  "i915_sriov_suspend_prepare E is_pf d =
     (if is_pf
      then pf_suspend_active_vfs E
             (if pci_num_vf (i915_of d) \<noteq> 0 then fold intel_gt_pm_put (sriov_gts d) d else d)
      else d)"

definition i915_sriov_resume :: "sriov_env \<Rightarrow> bool \<Rightarrow> sriov_device \<Rightarrow> sriov_device" where
  "i915_sriov_resume E is_pf d =
     (if is_pf
      then (let d1 = pf_resume_active_vfs E d
            in if pci_num_vf (i915_of d1) \<noteq> 0 then fold intel_gt_pm_get (sriov_gts d1) d1 else d1)
      else d)"

section \<open>Functions for the VFIO driver\<close>

definition i915_sriov_pause_vf :: "sriov_env \<Rightarrow> bool \<Rightarrow> nat \<Rightarrow> sriov_device \<Rightarrow> nat res \<times> sriov_device" where
  "i915_sriov_pause_vf E is_pf vf d = (if \<not> is_pf then (Inl ENODEV, d) else i915_sriov_pf_pause_vf E vf d)"

definition i915_sriov_resume_vf :: "sriov_env \<Rightarrow> bool \<Rightarrow> nat \<Rightarrow> sriov_device \<Rightarrow> nat res \<times> sriov_device" where
  "i915_sriov_resume_vf E is_pf vf d = (if \<not> is_pf then (Inl ENODEV, d) else i915_sriov_pf_resume_vf E vf d)"

definition wait_vf_flr_gt ::
    "sriov_env \<Rightarrow> nat \<Rightarrow> intel_gt_type \<Rightarrow> sriov_device \<Rightarrow> unit res \<times> sriov_device" where
  "wait_vf_flr_gt E vf g d =
     (case sriov_wait_for E (intel_iov_state_no_flr g vf) I915_VF_FLR_TIMEOUT_MS d of
        (ok, d1) \<Rightarrow> (if ok then Inr () else Inl ETIMEDOUT, d1))"

definition i915_sriov_wait_vf_flr_done ::
    "sriov_env \<Rightarrow> bool \<Rightarrow> nat \<Rightarrow> sriov_device \<Rightarrow> unit res \<times> sriov_device" where
  "i915_sriov_wait_vf_flr_done E is_pf vf d =
     (if \<not> is_pf then (Inl ENODEV, d) else try_gts (wait_vf_flr_gt E vf) (sriov_gts d) d)"

text \<open>\<open>extra\<close> is \<open>HAS_EXTRA_GT_LIST\<close>; the array of GTs has two entries.\<close>

definition sriov_to_gt :: "bool \<Rightarrow> bool \<Rightarrow> nat \<Rightarrow> sriov_device \<Rightarrow> intel_gt_type option" where
  "sriov_to_gt is_pf extra tile d =
     (if \<not> is_pf then None
      else if \<not> extra \<and> tile > 0 then None
      else if tile = 0 then Some GT_PRIMARY
      else if tile = 1 \<and> has_media_gt (i915_of d) then Some GT_MEDIA
      else None)"

definition i915_sriov_ggtt_size :: "sriov_env \<Rightarrow> intel_gt_type option \<Rightarrow> nat \<Rightarrow> sriov_device \<Rightarrow> u64 res" where
  "i915_sriov_ggtt_size E gt vf d =
     (case gt of
        None \<Rightarrow> Inr 0
      | Some g \<Rightarrow> if g = GT_MEDIA then Inr 0
                  else fst (intel_iov_state_save_ggtt (sr_iov E) g vf None 0 (sd_pf d)))"

definition i915_sriov_ggtt_save ::
    "sriov_env \<Rightarrow> intel_gt_type option \<Rightarrow> nat \<Rightarrow> u64 list option \<Rightarrow> u64 \<Rightarrow> sriov_device \<Rightarrow>
     u64 res \<times> u64 list option" where
  "i915_sriov_ggtt_save E gt vf buf sz d =
     (case gt of
        None \<Rightarrow> (Inl ENODEV, buf)
      | Some g \<Rightarrow> if g = GT_MEDIA then (Inl ENODEV, buf)
                  else intel_iov_state_save_ggtt (sr_iov E) g vf buf sz (sd_pf d))"

definition i915_sriov_ggtt_load ::
    "sriov_env \<Rightarrow> intel_gt_type option \<Rightarrow> nat \<Rightarrow> u64 list \<Rightarrow> sriov_device \<Rightarrow>
     (nat res \<times> sriov_device) option" where
  "i915_sriov_ggtt_load E gt vf buf d =
     (case gt of
        None \<Rightarrow> Some (Inl ENODEV, d)
      | Some g \<Rightarrow>
          if g = GT_MEDIA then Some (Inl ENODEV, d)
          else map_option (\<lambda>(r, s). (r, d\<lparr>sd_pf := s\<rparr>))
                 (intel_iov_state_restore_ggtt (sr_iov E) g vf buf (sd_pf d)))"

definition i915_sriov_fw_state_size ::
    "sriov_env \<Rightarrow> intel_gt_type option \<Rightarrow> nat \<Rightarrow> sriov_device \<Rightarrow> nat res \<times> sriov_device" where
  "i915_sriov_fw_state_size E gt vf d =
     (case gt of
        None \<Rightarrow> (Inl ENODEV, d)
      | Some g \<Rightarrow> on_pf (intel_iov_state_save_vf_size (sr_iov E) g vf) d)"

definition i915_sriov_fw_state_save ::
    "sriov_env \<Rightarrow> intel_gt_type option \<Rightarrow> nat \<Rightarrow> u32 list \<Rightarrow> sriov_device \<Rightarrow>
     (nat res \<times> u32 list) \<times> sriov_device" where
  "i915_sriov_fw_state_save E gt vf buf d =
     (case gt of
        None \<Rightarrow> ((Inl ENODEV, buf), d)
      | Some g \<Rightarrow> on_pf (\<lambda>s. case intel_iov_state_save_vf (sr_iov E) (sr_written E g vf) g vf buf s of
          (r, out, s1) \<Rightarrow> ((r, out), s1)) d)"

definition i915_sriov_fw_state_load ::
    "sriov_env \<Rightarrow> intel_gt_type option \<Rightarrow> nat \<Rightarrow> u32 list \<Rightarrow> sriov_device \<Rightarrow> unit res \<times> sriov_device" where
  "i915_sriov_fw_state_load E gt vf buf d =
     (case gt of
        None \<Rightarrow> (Inl ENODEV, d)
      | Some g \<Rightarrow> on_pf (intel_iov_state_store_guc_migration_state (sr_iov E) g vf buf) d)"

end
