(* ===== verification/Iov_Frame.thy ===== *)
theory Iov_Frame
  imports Iov_Config
begin

text \<open>
  What provisioning leaves alone. A locale names the steps of which every provisioning operation
  consists; a relation that holds for them holds for the operations. Its instances are the frame
  of the device and of the modes of the GTs, on which the enabling of VFs relies.
\<close>

section \<open>Relations that provisioning respects\<close>

locale provisioning_frame =
  fixes R :: "i915_state \<Rightarrow> i915_state \<Rightarrow> bool"
  assumes R_refl: "R s s"
    and R_trans: "R s s1 \<Longrightarrow> R s1 s2 \<Longrightarrow> R s s2"
    and R_guc: "guc_only s s' \<Longrightarrow> R s s'"
    and R_pt: "pt_only s s' \<Longrightarrow> R s s'"
    and R_upd: "R s (upd_config g vf f s)"
    and R_nodes: "R s (s\<lparr>ggtt_pf_nodes := ns\<rparr>)"
    and R_bitmaps: "R s (s\<lparr>bitmaps_live := n\<rparr>)"
begin

lemma R_cfg_only: "cfg_only C g vf s s' \<Longrightarrow> R s s'"
  unfolding cfg_only_def by (auto intro: R_trans [OF R_guc R_upd])

lemma R_fold: "(\<And>x s. R s (f x s)) \<Longrightarrow> R s (fold f xs s)"
  by (induction xs arbitrary: s) (auto intro: R_refl R_trans)

lemma R_release: "R s (pf_release_ggtt E g vf node s)"
  unfolding pf_release_ggtt_def
  by (rule R_trans [OF R_trans [OF R_pt [OF pt_only_set_space_owner] R_pt [OF pt_only_vf_free]] R_upd])

lemma R_gtt_insert: "i915_gem_gtt_insert E sz al st en s = (r, s') \<Longrightarrow> R s s'"
  by (auto simp: i915_gem_gtt_insert_def split: if_splits sum.splits intro: R_refl R_nodes)

lemma R_push_ggtt: "pf_push_config_ggtt E g vf st sz s = (r, s') \<Longrightarrow> R s s'"
  by (rule R_guc [OF guc_only_push_ggtt])

lemma R_own_push: "pf_push_config_ggtt E g vf st sz (i915_ggtt_set_space_owner E v node s) = (r, s') \<Longrightarrow> R s s'"
  by (rule R_trans [OF R_pt [OF pt_only_set_space_owner] R_push_ggtt])

lemma R_upd_alloc: "intel_iov_ggtt_shadow_vf_alloc E g vf node (upd_config h v f s) = (r, s') \<Longrightarrow> R s s'"
  by (rule R_trans [OF R_upd R_pt [OF vf_alloc_pt(1)]])

lemma R_insert_ggtt: "pf_insert_ggtt E g vf sz s = (r, s') \<Longrightarrow> R s s'"
  unfolding pf_insert_ggtt_def
  by (auto split: if_splits prod.splits sum.splits dest!: R_gtt_insert R_upd_alloc R_own_push
      intro!: R_refl intro: R_trans R_trans [OF _ R_release])

lemma R_provision_ggtt: "pf_provision_ggtt E g vf sz s = (r, s') \<Longrightarrow> R s s'"
proof -
  have rel: "R s s1 \<Longrightarrow> R s (pf_release_ggtt E g vf node s1)" for s1 node
    by (rule R_trans [OF _ R_release])
  have ins: "R s s1 \<Longrightarrow> pf_insert_ggtt E g vf n s1 = (r, s') \<Longrightarrow> R s s'" for n s1
    by (rule R_trans [OF _ R_insert_ggtt])
  assume "pf_provision_ggtt E g vf sz s = (r, s')"
  then show "R s s'"
    unfolding pf_provision_ggtt_def Let_def
    by (auto simp: R_refl rel R_push_ggtt split: if_splits prod.splits sum.splits option.splits
        elim!: ins [rotated])
qed

lemma R_provision_ctxs: "pf_provision_ctxs E g vf n s = (r, s') \<Longrightarrow> R s s'"
  by (rule R_cfg_only [OF ctxs_only_pf_provision_ctxs])

lemma R_provision_dbs: "pf_provision_dbs E g vf n s = (r, s') \<Longrightarrow> R s s'"
proof -
  assume "pf_provision_dbs E g vf n s = (r, s')"
  then have 1: "R s (unleak s s')" by (rule R_cfg_only [OF dbs_only_pf_provision_dbs])
  have "R (unleak s s') (unleak s s'\<lparr>bitmaps_live := bitmaps_live s'\<rparr>)" by (rule R_bitmaps)
  moreover have "(unleak s s')\<lparr>bitmaps_live := bitmaps_live s'\<rparr> = s'" by (simp add: unleak_def)
  ultimately show "R s s'" using R_trans [OF 1] by simp
qed

lemma R_exec_quantum: "R s (snd (pf_provision_exec_quantum E g vf v s))"
  by (rule R_cfg_only [OF exec_quantum_param.prov_op_frame [OF surjective_pairing]])

lemma R_preempt_timeout: "R s (snd (pf_provision_preempt_timeout E g vf v s))"
  by (rule R_cfg_only [OF preempt_timeout_param.prov_op_frame [OF surjective_pairing]])

lemma R_thresholds: "R s (pf_unprovision_thresholds E g vf s)"
proof -
  have "R s (snd (pf_provision_threshold E g vf t v s))" for t v s
    by (rule R_cfg_only [OF threshold_param.prov_op_frame [OF surjective_pairing]])
  then show ?thesis unfolding pf_unprovision_thresholds_def by (intro R_fold) auto
qed

lemma R_unprovision_config: "R s (pf_unprovision_config E g vf s)"
proof -
  have p: "R t (snd (pf_provision_ggtt E g vf 0 t))" "R t (snd (pf_provision_ctxs E g vf 0 t))"
    "R t (snd (pf_provision_dbs E g vf 0 t))" for t
    by (rule R_provision_ggtt R_provision_ctxs R_provision_dbs, rule surjective_pairing)+
  show ?thesis
    unfolding pf_unprovision_config_def Let_def
    by (rule R_trans [OF p(1) R_trans [OF p(2) R_trans [OF p(3) R_trans [OF R_exec_quantum
          R_trans [OF R_preempt_timeout R_thresholds]]]]])
qed

lemma R_unprovision_all: "R s (pf_unprovision_all E g s)"
  unfolding pf_unprovision_all_def by (intro R_fold R_unprovision_config)

lemma R_auto_ggtt: "auto_ggtt_loop E g fair ns s = (r, s') \<Longrightarrow> R s s'"
  by (induction ns arbitrary: s)
    (auto split: if_splits prod.splits sum.splits dest!: R_provision_ggtt intro: R_refl R_trans)

lemma R_auto_ctxs: "auto_ctxs_loop E g fair ns s = (r, s') \<Longrightarrow> R s s'"
  by (induction ns arbitrary: s)
    (auto split: if_splits prod.splits sum.splits dest!: R_provision_ctxs intro: R_refl R_trans)

lemma R_auto_dbs: "auto_dbs_loop E g fair ns s = (r, s') \<Longrightarrow> R s s'"
  by (induction ns arbitrary: s)
    (auto split: if_splits prod.splits sum.splits dest!: R_provision_dbs intro: R_refl R_trans)

lemma R_auto_provision_ggtt: "pf_auto_provision_ggtt E g n s = (r, s') \<Longrightarrow> R s s'"
  unfolding pf_auto_provision_ggtt_def Let_def
  by (auto split: if_splits dest!: R_auto_ggtt intro: R_refl)

lemma R_auto_provision_ctxs: "pf_auto_provision_ctxs E g n s = (r, s') \<Longrightarrow> R s s'"
proof -
  assume a: "pf_auto_provision_ctxs E g n s = (r, s')"
  obtain av s1 where f: "pf_get_ctxs_free E g s = (av, s1)" by force
  have "R s s1"
    using pf_get_ctxs_free_state [of E g s] f by (simp add: R_guc [OF allocs_only])
  then show ?thesis
    using a f unfolding pf_auto_provision_ctxs_def Let_def
    by (auto simp del: of_nat_mult split: if_splits dest!: R_auto_ctxs intro: R_trans)
qed

lemma R_auto_provision_dbs: "pf_auto_provision_dbs E g n s = (r, s') \<Longrightarrow> R s s'"
  unfolding pf_auto_provision_dbs_def Let_def
  by (auto split: if_splits dest!: R_auto_dbs intro: R_refl)

end

section \<open>The frame of the device\<close>

definition same_device :: "i915_state \<Rightarrow> i915_state \<Rightarrow> bool" where
  "same_device s s' \<longleftrightarrow> driver_vfs s' = driver_vfs s \<and> pci_num_vf s' = pci_num_vf s \<and>
     sriov_status s' = sriov_status s \<and> disable_auto_provisioning s' = disable_auto_provisioning s \<and>
     has_media_gt s' = has_media_gt s"

lemma same_device_refl [simp, intro]: "same_device s s"
  by (simp add: same_device_def)

lemma same_device_trans [trans]: "same_device s s1 \<Longrightarrow> same_device s1 s2 \<Longrightarrow> same_device s s2"
  by (simp add: same_device_def)

lemma same_device_upd_prov [simp]: "same_device s (upd_prov g f s)"
  by (simp add: same_device_def)

lemma same_device_guc: "guc_only s s' \<Longrightarrow> same_device s s'"
  by (simp add: same_device_def guc_onlyD)

interpretation device: provisioning_frame same_device
  by unfold_locales (auto simp: same_device_def guc_onlyD pt_onlyD)

text \<open>On each GT, whether it was provisioned automatically and how many VFs were pushed.\<close>

definition same_modes :: "i915_state \<Rightarrow> i915_state \<Rightarrow> bool" where
  "same_modes s s' \<longleftrightarrow> (\<forall>g. auto_mode (provisioning g s') = auto_mode (provisioning g s) \<and>
     num_pushed (provisioning g s') = num_pushed (provisioning g s))"

lemma same_modes_guc: "guc_only s s' \<Longrightarrow> same_modes s s'"
  by (simp add: same_modes_def guc_onlyD)

interpretation modes: provisioning_frame same_modes
  by unfold_locales (auto simp: same_modes_def guc_onlyD pt_onlyD)

section \<open>Automatic provisioning and the push\<close>

lemma auto_unprovision_modes:
  "same_device s (pf_auto_unprovision E g s)"
  "auto_mode (provisioning h (pf_auto_unprovision E g s)) = (h \<noteq> g \<and> auto_mode (provisioning h s))"
  "num_pushed (provisioning h (pf_auto_unprovision E g s)) = num_pushed (provisioning h s)"
  using modes.R_unprovision_all [of s E g] same_device_trans [OF device.R_unprovision_all same_device_upd_prov]
  by (auto simp: pf_auto_unprovision_def pf_set_auto_provisioning_def same_modes_def)

lemma auto_provision_frame:
  assumes "intel_iov_provisioning_auto E g n s = (r, s')"
  shows "same_device s s'" "num_pushed (provisioning h s') = num_pushed (provisioning h s)"
    "h \<noteq> g \<Longrightarrow> auto_mode (provisioning h s') = auto_mode (provisioning h s)"
proof -
  define K where "K g s s' \<longleftrightarrow> same_device s s' \<and>
      (\<forall>h. num_pushed (provisioning h s') = num_pushed (provisioning h s)) \<and>
      (\<forall>h. h \<noteq> g \<longrightarrow> auto_mode (provisioning h s') = auto_mode (provisioning h s))" for g s s'
  have refl: "K g s s" for g s by (simp add: K_def)
  have trans: "K g s s1 \<Longrightarrow> K g s1 s2 \<Longrightarrow> K g s s2" for g s s1 s2
    by (auto simp: K_def intro: same_device_trans)
  have frames: "same_device s s' \<Longrightarrow> same_modes s s' \<Longrightarrow> K g s s'" for g s s'
    by (simp add: K_def same_modes_def)
  have set: "K g s (pf_set_auto_provisioning g b s)" for g s b
    by (simp add: K_def pf_set_auto_provisioning_def)
  have unp: "K g s (pf_auto_unprovision E g s)" for g s by (simp add: K_def auto_unprovision_modes)
  have ggtt: "K g s s'" if "pf_auto_provision_ggtt E g n s = (r, s')" for g s r s'
    by (rule frames [OF device.R_auto_provision_ggtt modes.R_auto_provision_ggtt]) (rule that)+
  have ctxs: "K g s s'" if "pf_auto_provision_ctxs E g n s = (r, s')" for g s r s'
    by (rule frames [OF device.R_auto_provision_ctxs modes.R_auto_provision_ctxs]) (rule that)+
  have dbs: "K g s s'" if "pf_auto_provision_dbs E g n s = (r, s')" for g s r s'
    by (rule frames [OF device.R_auto_provision_dbs modes.R_auto_provision_dbs]) (rule that)+
  have "K g s s'"
    using assms unfolding intel_iov_provisioning_auto_def pf_auto_provision_def Let_def
    by (auto split: if_splits prod.splits sum.splits dest!: ggtt ctxs dbs
        intro: refl unp trans [OF set] trans trans [OF _ unp])
  then show "same_device s s'" "num_pushed (provisioning h s') = num_pushed (provisioning h s)"
    "h \<noteq> g \<Longrightarrow> auto_mode (provisioning h s') = auto_mode (provisioning h s)"
    by (auto simp: K_def)
qed

lemma push_configs_guc: "push_configs_loop E g addr ns s = (r, s') \<Longrightarrow> guc_only s s'"
  by (induction ns arbitrary: s)
    (auto simp: Let_def split: if_splits prod.splits sum.splits dest!: guc_only_vf_cfg intro: guc_only_trans)

lemma push_no_configs_guc: "push_no_configs_loop E g n s = (k, s') \<Longrightarrow> guc_only s s'"
  by (induction n arbitrary: s)
    (auto split: prod.splits sum.splits dest!: guc_only_vf_cfg intro: guc_only_trans)

text \<open>A push changes the number of pushed VFs of its GT only; a successful one makes it what was asked.\<close>

lemma push_frame:
  assumes "intel_iov_provisioning_push E g n s = (r, s')"
  shows "same_device s s'" "auto_mode (provisioning h s') = auto_mode (provisioning h s)"
    "h \<noteq> g \<Longrightarrow> num_pushed (provisioning h s') = num_pushed (provisioning h s)"
    "r = Inr () \<Longrightarrow> num_pushed (provisioning g s') = n"
    "n \<noteq> 0 \<Longrightarrow> r \<noteq> Inr () \<Longrightarrow> num_pushed (provisioning g s') = num_pushed (provisioning g s)"
proof -
  consider (status) e where "r = Inl e" "s' = s"
    | (push) "n \<noteq> 0" "pf_push_configs E g n s = (r, s')"
    | (none) "n = 0" "pf_push_no_configs E g s = (r, s')"
    using assms by (auto simp: intel_iov_provisioning_push_def split: sum.splits if_splits)
  then have "same_device s s' \<and> auto_mode (provisioning h s') = auto_mode (provisioning h s) \<and>
    (h \<noteq> g \<longrightarrow> num_pushed (provisioning h s') = num_pushed (provisioning h s)) \<and>
    (r = Inr () \<longrightarrow> num_pushed (provisioning g s') = n) \<and>
    (n \<noteq> 0 \<longrightarrow> r \<noteq> Inr () \<longrightarrow> num_pushed (provisioning g s') = num_pushed (provisioning g s))"
  proof cases
    case push
    then obtain s1 where "guc_only s s1" "(s' = s1 \<and> r \<noteq> Inr ()) \<or> s' = upd_prov g (\<lambda>p. p\<lparr>num_pushed := n\<rparr>) s1"
      "r = Inr () \<longrightarrow> s' = upd_prov g (\<lambda>p. p\<lparr>num_pushed := n\<rparr>) s1" "r \<noteq> Inr () \<longrightarrow> s' = s1"
      by (auto simp: pf_push_configs_def split: prod.splits sum.splits
          dest!: push_configs_guc guc_only_vma dest: guc_only_trans)
    then show ?thesis by (auto simp: same_device_def guc_onlyD split: if_splits)
  next
    case none
    then obtain s1 k where "guc_only s s1" "s' = upd_prov g (\<lambda>p. p\<lparr>num_pushed := k\<rparr>) s1" "r = Inr () \<longrightarrow> k = 0"
      by (auto simp: pf_push_no_configs_def split: prod.splits if_splits dest!: push_no_configs_guc)
    then show ?thesis using none(1) by (auto simp: same_device_def guc_onlyD split: if_splits)
  qed simp
  then show "same_device s s'" "auto_mode (provisioning h s') = auto_mode (provisioning h s)"
    "h \<noteq> g \<Longrightarrow> num_pushed (provisioning h s') = num_pushed (provisioning h s)"
    "r = Inr () \<Longrightarrow> num_pushed (provisioning g s') = n"
    "n \<noteq> 0 \<Longrightarrow> r \<noteq> Inr () \<Longrightarrow> num_pushed (provisioning g s') = num_pushed (provisioning g s)" by auto
qed

lemma force_vgt_frame:
  assumes "intel_iov_provisioning_force_vgt_mode E g s = (r, s')"
  shows "same_device s s'"
proof -
  have "guc_only s (snd (fold (self_config_step E g) kvs (b, s)))" for kvs b s
  proof (induction kvs arbitrary: b s)
    case (Cons kv kvs)
    obtain b1 :: bool and s1 where st: "self_config_step E g kv (b, s) = (b1, s1)" by force
    then have "guc_only s s1"
      by (auto simp: self_config_step_def split: prod.splits sum.splits dest: guc_only_vf_klv32 guc_only_vf_klv64)
    then show ?case using Cons.IH [where b = b1 and s = s1] st by (simp add: guc_only_trans)
  qed simp
  then have "same_device s (snd (pf_push_self_config E g s))"
    unfolding pf_push_self_config_def by (simp add: same_device_guc split: prod.split)
      (metis same_device_guc snd_conv)
  then show ?thesis
    using assms by (auto simp: intel_iov_provisioning_force_vgt_mode_def split: if_splits prod.splits sum.splits
        intro: same_device_trans)
qed

end
