(* ===== verification/I915_Sriov_Props.thy ===== *)
theory I915_Sriov_Props
  imports I915_Sriov_Pm Iov_Frame
begin

text \<open>
  What the device promises: enabling VFs either succeeds on all GTs or is undone, VFs that are
  enabled hold the GTs awake, through suspend and resume too, a command for a VF reaches all GTs,
  and where suspend and resume lose a reference or the pause of a VF.
\<close>

section \<open>Loops over GTs\<close>

text \<open>A reflexive and transitive relation that holds for every iteration holds for the loop.\<close>

locale loop_frame =
  fixes R :: "'s \<Rightarrow> 's \<Rightarrow> bool"
  assumes R_refl: "R d d"
    and R_trans: "R d d1 \<Longrightarrow> R d1 d2 \<Longrightarrow> R d d2"
begin

lemma try_gts: "(\<And>g d. R d (snd (f g d))) \<Longrightarrow> R d (snd (try_gts f gs d))"
proof (induction gs arbitrary: d)
  case (Cons g gs)
  obtain r d1 where f: "f g d = (r, d1)" by force
  then have "R d d1" using Cons.prems(1) [of d g] by simp
  with f show ?case using Cons.IH [OF Cons.prems(1)] by (auto intro: R_trans split: sum.split)
qed (simp add: R_refl)

lemma all_gts: "(\<And>g d. R d (snd (f g d))) \<Longrightarrow> R d (snd (all_gts f gs r d))"
proof (induction gs arbitrary: d r)
  case (Cons g gs)
  then show ?case using R_trans [OF Cons.prems(1) [of d g]] by (auto split: prod.split)
qed (simp add: R_refl)

lemma fold_loop: "(\<And>x d. R d (f x d)) \<Longrightarrow> R d (fold f xs d)"
  by (induction xs arbitrary: d) (auto intro: R_refl R_trans)

end

section \<open>The frame of the device\<close>

definition sriov_same :: "sriov_device \<Rightarrow> sriov_device \<Rightarrow> bool" where
  "sriov_same d d' \<longleftrightarrow> same_device (i915_of d) (i915_of d') \<and> gt_pm d' = gt_pm d \<and>
     sysfs_links d' = sysfs_links d"

text \<open>The workaround for the GSC engine does not touch the data of the PF either.\<close>

definition sriov_same_pf :: "sriov_device \<Rightarrow> sriov_device \<Rightarrow> bool" where
  "sriov_same_pf d d' \<longleftrightarrow> sriov_same d d' \<and> sd_pf d' = sd_pf d"

lemma sriov_same_refl [simp, intro]: "sriov_same d d"
  by (simp add: sriov_same_def)

lemma sriov_same_trans [trans]: "sriov_same d d1 \<Longrightarrow> sriov_same d1 d2 \<Longrightarrow> sriov_same d d2"
  by (auto simp: sriov_same_def intro: same_device_trans)

interpretation sriov: loop_frame sriov_same
  by unfold_locales (auto intro: sriov_same_trans)

interpretation gsc: loop_frame sriov_same_pf
  by unfold_locales (auto simp: sriov_same_pf_def intro: sriov_same_trans)

lemma sriov_sameD:
  assumes "sriov_same d d'"
  shows "sriov_gts d' = sriov_gts d" "pci_num_vf (i915_of d') = pci_num_vf (i915_of d)"
    "gt_pm d' = gt_pm d" "sysfs_links d' = sysfs_links d"
    "driver_vfs (i915_of d') = driver_vfs (i915_of d)"
  using assms by (simp_all add: sriov_same_def same_device_def sriov_gts_def for_each_gt_def)

lemma on_pf_same: "(\<And>s. same_device (dev s) (dev (snd (f s)))) \<Longrightarrow> sriov_same d (snd (on_pf f d))"
  by (simp add: on_pf_def sriov_same_def split: prod.splits) (metis snd_conv)

lemma on_i915_same: "(\<And>s. same_device s (snd (f s))) \<Longrightarrow> sriov_same d (snd (on_i915 f d))"
  unfolding on_i915_def by (rule on_pf_same) (simp split: prod.splits, metis snd_conv)

lemma on_iov_update_same: "sriov_same d (on_iov g (intel_iov_service_update S) d)"
  by (simp add: on_iov_def sriov_same_def intel_iov_service_update_def pf_prepare_runtime_info_def Let_def)

lemma on_iov_update_dev [simp]: "i915_of (on_iov g (intel_iov_service_update S) d) = i915_of d"
  by (simp add: on_iov_def intel_iov_service_update_def pf_prepare_runtime_info_def Let_def)

text \<open>The handlers that run while the driver waits leave the frame of the device alone.\<close>

definition waits_keep :: "sriov_env \<Rightarrow> bool" where
  "waits_keep E \<longleftrightarrow> (\<forall>n ms s. same_device (dev s) (dev (sr_wait E n ms s)))"

lemma wait_for_same: "waits_keep E \<Longrightarrow> sriov_same d (snd (sriov_wait_for E c ms d))"
  by (auto simp: sriov_wait_for_def sriov_same_def waits_keep_def Let_def)

section \<open>The operations on the frame\<close>

lemma auto_same: "same_device s (snd (intel_iov_provisioning_auto E g n s))"
  by (rule auto_provision_frame(1) [OF surjective_pairing])

lemma prepare_same: "sriov_same d (snd (pf_prepare_vfs E auto n g d))"
proof -
  have "sriov_same d (snd (on_i915 (intel_iov_provisioning_auto (sr_iov E) g n) d))"
    by (rule on_i915_same [OF auto_same])
  then show ?thesis
    by (auto simp: pf_prepare_vfs_def split: sum.split prod.split
        intro: sriov_same_trans [OF _ on_iov_update_same] on_iov_update_same)
qed

lemma update_clients_same: "sriov_same d (snd (pf_update_guc_clients E g n d))"
  unfolding pf_update_guc_clients_def by (rule on_i915_same [OF push_frame(1) [OF surjective_pairing]])

lemma unprovision_gt_same: "sriov_same d (pf_unprovision_gt E g d)"
  unfolding pf_unprovision_gt_def by (rule on_i915_same [OF auto_same])

lemma gsc_same:
  "sriov_same_pf d (snd (intel_guc_enable_gsc_engine E g d))"
  "sriov_same_pf d (snd (intel_guc_disable_gsc_engine E g d))"
  by (auto simp: intel_guc_enable_gsc_engine_def intel_guc_disable_gsc_engine_def sriov_same_pf_def
      intel_guc_set_engine_sched_def sriov_same_def split: sum.split prod.split)

lemma disable_gsc_same: "sriov_same_pf d (snd (pf_disable_gsc_engine E d))"
  unfolding pf_disable_gsc_engine_def by (rule gsc.try_gts [OF gsc_same(2)])

lemma enable_gsc_same: "sriov_same_pf d (snd (pf_enable_gsc_engine E d))"
  using gsc.try_gts [where f = "intel_guc_enable_gsc_engine E" and d = d and gs = "sriov_gts d", OF gsc_same(1)]
  by (auto simp: pf_enable_gsc_engine_def split: prod.split sum.split)

lemma control_same: "same_device (dev s) (dev (snd (pf_control_vf E g vf c s)))"
  by (auto simp: pf_control_vf_def guc_action_vf_control_cmd_def split: prod.split sum.split
      dest!: guc_only_send intro: same_device_guc)

lemma state_ops_same:
  "same_device (dev s) (dev (snd (intel_iov_state_stop_vf E g vf s)))"
  "same_device (dev s) (dev (snd (intel_iov_state_pause_vf E g vf s)))"
  "same_device (dev s) (dev (snd (intel_iov_state_resume_vf E g vf s)))"
  using control_same [of s E g vf] control_same [of "set_bit g vf IOV_VF_PAUSE_IN_PROGRESS s" E g vf]
  by (auto simp: intel_iov_state_stop_vf_def intel_iov_state_pause_vf_def intel_iov_state_resume_vf_def
      split: prod.splits sum.split) (metis snd_conv)+

lemma clear_same: "same_device s (snd (intel_iov_provisioning_clear E g vf s))"
  by (auto simp: intel_iov_provisioning_clear_def split: prod.split sum.split
      dest!: guc_only_vf_cfg intro: same_device_trans [OF same_device_guc device.R_unprovision_config] same_device_guc)

lemma on_all_gts_same:
  "(\<And>g s. same_device (dev s) (dev (snd (f g s)))) \<Longrightarrow> sriov_same d (snd (on_all_gts f d))"
  unfolding on_all_gts_def by (rule sriov.all_gts [OF on_pf_same]) simp

lemma pause_sync_same:
  assumes "waits_keep E"
  shows "sriov_same d (snd (pf_pause_sync E g vf d))"
proof -
  have "same_device (dev s) (dev (snd (intel_iov_state_pause_vf_sync I (sr_wait E n ms) g vf b s)))" for I n ms b s
  proof -
    have w: "same_device (dev x) (dev (sr_wait E n ms y))" if "dev y = dev x" for x y
      using assms that by (metis waits_keep_def)
    have p: "same_device (dev s) (dev s1)" if "intel_iov_state_pause_vf I g vf s = (r, s1)" for r s1
      using state_ops_same(2) [of s I g vf] that by simp
    show ?thesis
      unfolding intel_iov_state_pause_vf_sync_def Let_def
      by (auto split: prod.split sum.split if_split dest!: p intro: w same_device_trans [OF _ w])
  qed
  then have "sriov_same d (snd (on_pf (intel_iov_state_pause_vf_sync I (sr_wait E n ms) g vf b) d))" for I n ms b
    by (rule on_pf_same)
  then show ?thesis
    by (simp add: pf_pause_sync_def sriov_same_def split: prod.split) (metis snd_conv)
qed

section \<open>Enabling\<close>

lemma sriov_gts_distinct [simp]: "distinct (sriov_gts d)"
  by (simp add: sriov_gts_def for_each_gt_def)

lemma pm_get_fold:
  "gt_pm (fold intel_gt_pm_get gs d) g = gt_pm d g + int (count_list gs g)"
  "sd_pf (fold intel_gt_pm_get gs d) = sd_pf d" "sysfs_links (fold intel_gt_pm_get gs d) = sysfs_links d"
  by (induction gs arbitrary: d) (simp_all add: intel_gt_pm_get_def)

lemma pm_get_gts [simp]: "sriov_gts (fold intel_gt_pm_get gs d) = sriov_gts d"
  by (simp add: sriov_gts_def pm_get_fold)

lemma pm_put_fold:
  "gt_pm (fold intel_gt_pm_put gs d) g = gt_pm d g - int (count_list gs g)"
  "sd_pf (fold intel_gt_pm_put gs d) = sd_pf d" "sysfs_links (fold intel_gt_pm_put gs d) = sysfs_links d"
  by (induction gs arbitrary: d) (simp_all add: intel_gt_pm_put_def)

lemma count_gts: "count_list (sriov_gts d) g = (if g \<in> set (sriov_gts d) then 1 else 0)"
  by (simp add: sriov_gts_def for_each_gt_def)

lemma push_modes:
  assumes "pf_update_guc_clients E g n d = (r, d')"
  shows "auto_mode (provisioning h (i915_of d')) = auto_mode (provisioning h (i915_of d))"
    "h \<noteq> g \<Longrightarrow> num_pushed (provisioning h (i915_of d')) = num_pushed (provisioning h (i915_of d))"
    "r = Inr () \<Longrightarrow> num_pushed (provisioning g (i915_of d')) = n"
    "n \<noteq> 0 \<Longrightarrow> r \<noteq> Inr () \<Longrightarrow> num_pushed (provisioning g (i915_of d')) = num_pushed (provisioning g (i915_of d))"
proof -
  have "intel_iov_provisioning_push (sr_iov E) g n (i915_of d) = (r, i915_of d')"
    using assms by (auto simp: pf_update_guc_clients_def on_i915_def on_pf_def split: prod.splits)
  from push_frame [OF this] show
    "auto_mode (provisioning h (i915_of d')) = auto_mode (provisioning h (i915_of d))"
    "h \<noteq> g \<Longrightarrow> num_pushed (provisioning h (i915_of d')) = num_pushed (provisioning h (i915_of d))"
    "r = Inr () \<Longrightarrow> num_pushed (provisioning g (i915_of d')) = n"
    "n \<noteq> 0 \<Longrightarrow> r \<noteq> Inr () \<Longrightarrow> num_pushed (provisioning g (i915_of d')) = num_pushed (provisioning g (i915_of d))"
    by blast+
qed

lemma unprovision_gt_modes:
  "auto_mode (provisioning h (i915_of (pf_unprovision_gt E g d))) = (h \<noteq> g \<and> auto_mode (provisioning h (i915_of d)))"
  "num_pushed (provisioning h (i915_of (pf_unprovision_gt E g d))) = num_pushed (provisioning h (i915_of d))"
  by (simp_all add: pf_unprovision_gt_def on_i915_def on_pf_def intel_iov_provisioning_auto_def auto_unprovision_modes)

text \<open>Every GT is pushed when the loop of pushes gets through.\<close>

lemma push_all:
  "try_gts (\<lambda>g. pf_update_guc_clients E g n) gs d = (Inr u, d') \<Longrightarrow>
     num_pushed (provisioning g (i915_of d')) = (if g \<in> set gs then n else num_pushed (provisioning g (i915_of d)))"
proof (induction gs arbitrary: d)
  case (Cons h gs)
  obtain v d1 where p: "pf_update_guc_clients E h n d = (Inr v, d1)"
    and r: "try_gts (\<lambda>g. pf_update_guc_clients E g n) gs d1 = (Inr u, d')"
    using Cons.prems by (auto split: prod.splits sum.splits)
  show ?case using Cons.IH [OF r] push_modes(2,3) [OF p] by auto
qed simp

lemma fail_pm_loop:
  fixes E :: sriov_env and d :: sriov_device
  assumes "distinct gs"
  defines "F \<equiv> fold (\<lambda>g x. intel_gt_pm_put g (pf_unprovision_gt E g x)) gs d"
  shows "same_device (i915_of d) (i915_of F)" "sysfs_links F = sysfs_links d"
    "gt_pm F h = gt_pm d h - (if h \<in> set gs then 1 else 0)"
    "auto_mode (provisioning h (i915_of F)) = (h \<notin> set gs \<and> auto_mode (provisioning h (i915_of d)))"
    "num_pushed (provisioning h (i915_of F)) = num_pushed (provisioning h (i915_of d))"
proof -
  have "same_device (i915_of d) (i915_of F) \<and> sysfs_links F = sysfs_links d \<and>
    gt_pm F h = gt_pm d h - (if h \<in> set gs then 1 else 0) \<and>
    auto_mode (provisioning h (i915_of F)) = (h \<notin> set gs \<and> auto_mode (provisioning h (i915_of d))) \<and>
    num_pushed (provisioning h (i915_of F)) = num_pushed (provisioning h (i915_of d))"
    using assms(1) unfolding F_def
  proof (induction gs arbitrary: d)
    case (Cons g gs)
    have put: "sd_pf (intel_gt_pm_put g x) = sd_pf x" "sysfs_links (intel_gt_pm_put g x) = sysfs_links x"
      "gt_pm (intel_gt_pm_put g x) h = gt_pm x h - (if h = g then 1 else 0)" for x
      by (simp_all add: intel_gt_pm_put_def)
    have s: "sriov_same d (pf_unprovision_gt E g d)" by (rule unprovision_gt_same)
    show ?case
      using Cons.IH [of "intel_gt_pm_put g (pf_unprovision_gt E g d)"] Cons.prems s
      by (auto simp: put unprovision_gt_modes sriov_same_def intro: same_device_trans)
  qed simp
  then show "same_device (i915_of d) (i915_of F)" "sysfs_links F = sysfs_links d"
    "gt_pm F h = gt_pm d h - (if h \<in> set gs then 1 else 0)"
    "auto_mode (provisioning h (i915_of F)) = (h \<notin> set gs \<and> auto_mode (provisioning h (i915_of d)))"
    "num_pushed (provisioning h (i915_of F)) = num_pushed (provisioning h (i915_of d))" by auto
qed

text \<open>The states that enabling goes through.\<close>

lemma enable_cases [consumes 1, case_names status prepare push pci enabled]:
  assumes "i915_sriov_pf_enable_vfs E n d = (r, d')"
  obtains e where "i915_sriov_pf_status (i915_of d) = Inl e" "r = Inl e" "d' = d"
  | k d1 d2 d3 where "i915_sriov_pf_status (i915_of d) = Inr k" "d1 = fold intel_gt_pm_get (sriov_gts d) d"
      "sriov_same_pf d1 d2" "sriov_same d2 d3" "d' = pf_enable_fail_pm E d3" "is_err r"
  | k d1 d2 d3 d4 e where "i915_sriov_pf_status (i915_of d) = Inr k" "d1 = fold intel_gt_pm_get (sriov_gts d) d"
      "sriov_same_pf d1 d2" "sriov_same d2 d3"
      "try_gts (\<lambda>g. pf_update_guc_clients E g n) (sriov_gts d3) d3 = (Inl e, d4)"
      "d' = pf_enable_fail_pm E d4" "r = Inl e"
  | k d1 d2 d3 d4 e where "i915_sriov_pf_status (i915_of d) = Inr k" "d1 = fold intel_gt_pm_get (sriov_gts d) d"
      "sriov_same_pf d1 d2" "sriov_same d2 d3"
      "try_gts (\<lambda>g. pf_update_guc_clients E g n) (sriov_gts d3) d3 = (Inr (), d4)"
      "d' = pf_enable_fail_guc E d4" "r = Inl e"
  | k d1 d2 d3 d4 d5 where "i915_sriov_pf_status (i915_of d) = Inr k" "d1 = fold intel_gt_pm_get (sriov_gts d) d"
      "sriov_same_pf d1 d2" "sriov_same d2 d3"
      "try_gts (\<lambda>g. pf_update_guc_clients E g n) (sriov_gts d3) d3 = (Inr (), d4)"
      "d5 = snd (on_i915 (\<lambda>s. ((), s\<lparr>pci_num_vf := of_nat n\<rparr>)) d4)"
      "d' = d5\<lparr>sysfs_links := True\<rparr>" "r = Inr n"
proof (cases "i915_sriov_pf_status (i915_of d)")
  case (Inl e)
  show thesis
    by (rule that(1) [OF Inl]) (use assms Inl in \<open>simp_all add: i915_sriov_pf_enable_vfs_def Let_def\<close>)
next
  case st: (Inr k)
  define d1 where "d1 = fold intel_gt_pm_get (sriov_gts d) d"
  define d2 where "d2 = (if sr_meteorlake E then snd (pf_disable_gsc_engine E d1) else d1)"
  have 2: "sriov_same_pf d1 d2" by (simp add: d2_def disable_gsc_same gsc.R_refl)
  let ?prep = "pf_prepare_vfs E (i915_sriov_pf_is_auto_provisioning_enabled (i915_of d)) n"
  obtain r3 d3 where p: "try_gts ?prep (sriov_gts d2) d2 = (r3, d3)" by force
  have 3: "sriov_same d2 d3"
  proof -
    have "sriov_same d2 (snd (try_gts ?prep (sriov_gts d2) d2))" by (rule sriov.try_gts [OF prepare_same])
    then show ?thesis by (simp add: p)
  qed
  have eq: "i915_sriov_pf_enable_vfs E n d =
     (case r3 of Inl e \<Rightarrow> (Inl e, pf_enable_fail_pm E d3)
      | Inr u \<Rightarrow>
          (case try_gts (\<lambda>g. pf_update_guc_clients E g n) (sriov_gts d3) d3 of
                  (Inl e, d4) \<Rightarrow> (Inl e, pf_enable_fail_pm E d4)
                | (Inr u, d4) \<Rightarrow>
                    (case pci_enable_sriov E n d4 of
                       (Inl e, d5) \<Rightarrow> (Inl e, pf_enable_fail_guc E d5)
                     | (Inr u, d5) \<Rightarrow> (Inr n, d5\<lparr>sysfs_links := True\<rparr>))))"
    unfolding i915_sriov_pf_enable_vfs_def Let_def st sum.case d1_def [symmetric] d2_def [symmetric] p prod.case
    by (rule refl)
  show thesis
  proof (cases r3)
    case (Inl e)
    show thesis by (rule that(2) [OF st d1_def 2 3]) (use assms eq Inl in auto)
  next
    case r3: (Inr u)
    obtain r4 d4 where q: "try_gts (\<lambda>g. pf_update_guc_clients E g n) (sriov_gts d3) d3 = (r4, d4)" by force
    show thesis
    proof (cases r4)
      case (Inl e)
      show thesis
        by (rule that(3) [OF st d1_def 2 3]) (use assms eq r3 q Inl in auto)
    next
      case (Inr v)
      then have q: "try_gts (\<lambda>g. pf_update_guc_clients E g n) (sriov_gts d3) d3 = (Inr (), d4)" using q by simp
      show thesis
      proof (cases "sr_pci_enable E n")
        case (Inl e)
        show thesis
          by (rule that(4) [OF st d1_def 2 3 q]) (use assms eq r3 q Inl in \<open>auto simp: pci_enable_sriov_def\<close>)
      next
        case (Inr w)
        show thesis
          by (rule that(5) [OF st d1_def 2 3 q refl]) (use assms eq r3 q Inr in \<open>auto simp: pci_enable_sriov_def\<close>)
      qed
    qed
  qed
qed

lemma fail_pm_undone:
  assumes "sriov_same (fold intel_gt_pm_get (sriov_gts d) d) x" "d' = pf_enable_fail_pm E x"
  shows "sriov_same d d'" "g \<in> set (sriov_gts d) \<Longrightarrow> \<not> auto_mode (provisioning g (i915_of d'))"
    "num_pushed (provisioning g (i915_of d')) = num_pushed (provisioning g (i915_of x))"
proof -
  note x = sriov_sameD [OF assms(1)]
  have gts: "sriov_gts x = sriov_gts d" using x(1) by (simp add: sriov_gts_def pm_get_fold)
  note l = fail_pm_loop [where gs = "sriov_gts x" and d = x and E = E, OF sriov_gts_distinct, folded pf_enable_fail_pm_def assms(2)]
  have "gt_pm d' h = gt_pm d h" for h
    using l(3) [of h] x(3) by (simp add: pm_get_fold count_gts gts)
  moreover have "same_device (i915_of d) (i915_of d')"
    using assms(1) l(1) by (auto simp: sriov_same_def pm_get_fold intro: same_device_trans)
  ultimately show "sriov_same d d'"
    using l(2) x(4) by (simp add: sriov_same_def pm_get_fold fun_eq_iff)
  show "g \<in> set (sriov_gts d) \<Longrightarrow> \<not> auto_mode (provisioning g (i915_of d'))"
    using l(4) [of g] gts by simp
  show "num_pushed (provisioning g (i915_of d')) = num_pushed (provisioning g (i915_of x))"
    using l(5) [of g] .
qed

lemma enable_effect:
  assumes "i915_sriov_pf_enable_vfs E n d = (r, d')" "0 < n"
  shows "(\<exists>e. r = Inl e \<and> sriov_same d d' \<and>
      (i915_sriov_pf_status (i915_of d) \<noteq> Inl e \<or> d' \<noteq> d \<longrightarrow>
        (\<forall>g \<in> set (sriov_gts d). \<not> pf_is_auto_provisioned g (i915_of d')))) \<or>
    (r = Inr n \<and> sriov_gts d' = sriov_gts d \<and> pci_num_vf (i915_of d') = of_nat n \<and> sysfs_links d' \<and>
      (\<forall>g. gt_pm d' g = gt_pm d g + (if g \<in> set (sriov_gts d) then 1 else 0)) \<and>
      (\<forall>g \<in> set (sriov_gts d). num_pushed (provisioning g (i915_of d')) = n))"
proof -
  have same_gsc: "sriov_same_pf a b \<Longrightarrow> sriov_same b c \<Longrightarrow> sriov_same a c" for a b c
    by (auto simp: sriov_same_pf_def intro: sriov_same_trans)
  have pushes: "sriov_same a b" if "try_gts (\<lambda>g. pf_update_guc_clients E g m) gs a = (q, b)" for m gs a q b
    using sriov.try_gts [where f = "\<lambda>g. pf_update_guc_clients E g m" and gs = gs and d = a, OF update_clients_same] that
    by simp
  have failed: "\<exists>e. r = Inl e \<and> sriov_same d d' \<and>
      (i915_sriov_pf_status (i915_of d) \<noteq> Inl e \<or> d' \<noteq> d \<longrightarrow>
        (\<forall>g \<in> set (sriov_gts d). \<not> pf_is_auto_provisioned g (i915_of d')))"
    if "is_err r" "sriov_same (fold intel_gt_pm_get (sriov_gts d) d) x" "d' = pf_enable_fail_pm E x" for x
    using that(1) fail_pm_undone(1,2) [OF that(2,3)] unfolding is_err_iff pf_is_auto_provisioned_def by blast
  from assms(1) show ?thesis
  proof (cases rule: enable_cases)
    case (status e)
    then show ?thesis by simp
  next
    case (prepare k d1 d2 d3)
    then show ?thesis using failed [OF prepare(6) same_gsc [OF prepare(3,4), unfolded prepare(2)] prepare(5)] by blast
  next
    case (push k d1 d2 d3 d4 e)
    have "sriov_same d1 d4" using sriov_same_trans [OF same_gsc [OF push(3,4)] pushes [OF push(5)]] .
    then show ?thesis using failed [of d4] push by simp
  next
    case (pci k d1 d2 d3 d4 e)
    define d5 where "d5 = fold (\<lambda>g x. snd (pf_update_guc_clients E g 0 x)) (sriov_gts d4) d4"
    have "sriov_same d1 d4" using sriov_same_trans [OF same_gsc [OF pci(3,4)] pushes [OF pci(5)]] .
    moreover have "sriov_same d4 d5" unfolding d5_def by (rule sriov.fold_loop [OF update_clients_same])
    ultimately have "sriov_same d1 d5" by (rule sriov_same_trans)
    moreover have "d' = pf_enable_fail_pm E d5" using pci(6) by (simp add: pf_enable_fail_guc_def d5_def)
    ultimately show ?thesis using failed [of d5] pci(2,7) by simp
  next
    case (enabled k d1 d2 d3 d4 d5)
    have s: "sriov_same d1 d4" using sriov_same_trans [OF same_gsc [OF enabled(3,4)] pushes [OF enabled(5)]] .
    have d5: "gt_pm d5 = gt_pm d4" "pci_num_vf (i915_of d5) = of_nat n"
      "provisioning g (i915_of d5) = provisioning g (i915_of d4)" for g
      unfolding enabled(6) by (simp_all add: on_i915_def on_pf_def)
    have gts: "sriov_gts d3 = sriov_gts d"
      using sriov_sameD(1) [OF same_gsc [OF enabled(3,4)]] by (simp add: enabled(2) sriov_gts_def pm_get_fold)
    have "gt_pm d' g = gt_pm d g + (if g \<in> set (sriov_gts d) then 1 else 0)" for g
      using sriov_sameD(3) [OF s] by (simp add: enabled(2,7) d5 pm_get_fold count_gts)
    moreover have "g \<in> set (sriov_gts d) \<Longrightarrow> num_pushed (provisioning g (i915_of d')) = n" for g
      using push_all [OF enabled(5), of g] by (simp add: gts enabled(7) d5)
    moreover have "sriov_gts d' = sriov_gts d"
    proof -
      have "sriov_gts d' = sriov_gts d4"
        by (simp add: enabled(6,7) on_i915_def on_pf_def sriov_gts_def for_each_gt_def)
      then show ?thesis using sriov_sameD(1) [OF s] by (simp add: enabled(2))
    qed
    ultimately show ?thesis using enabled(7,8) d5(2) by simp
  qed
qed

text \<open>
  Property C32. Enabling VFs is all or nothing on the level of the device: when it succeeds it returns the
  number it was asked for, the PCI core counts these VFs, the links in sysfs exist, and every GT has
  pushed exactly these VFs to its GuC and is held awake once more; when it fails the PCI core counts
  what it did before, no GT is held awake, and, unless the PF was not ready, no GT is left with an
  automatic provisioning.
\<close>

theorem enable_vfs_outcome:
  assumes "i915_sriov_pf_enable_vfs E n d = (r, d')" "0 < n"
  shows "(\<exists>e. r = Inl e \<and> sriov_same d d' \<and>
      (i915_sriov_pf_status (i915_of d) \<noteq> Inl e \<or> d' \<noteq> d \<longrightarrow>
        (\<forall>g \<in> set (sriov_gts d). \<not> pf_is_auto_provisioned g (i915_of d')))) \<or>
    (r = Inr n \<and> pci_num_vf (i915_of d') = of_nat n \<and> sysfs_links d' \<and>
      (\<forall>g. gt_pm d' g = gt_pm d g + (if g \<in> set (sriov_gts d) then 1 else 0)) \<and>
      (\<forall>g \<in> set (sriov_gts d). num_pushed (provisioning g (i915_of d')) = n))"
  using enable_effect [OF assms] by blast

section \<open>Disabling, suspending and resuming\<close>

lemma same_allocs [simp]: "same_device s (s\<lparr>allocs := n\<rparr>)"
  by (simp add: same_device_def)

lemma dev_start_flr: "dev (fold (intel_iov_state_start_flr g) ns s) = dev s"
  by (induction ns arbitrary: s)
    (simp_all add: intel_iov_state_start_flr_def pf_init_vf_flr_def pf_queue_worker_def Let_def)

lemma start_flr_same: "sriov_same d (pf_start_vfs_flr g n d)"
  by (simp add: pf_start_vfs_flr_def sriov_same_def dev_start_flr)

lemma wait_vfs_same: "waits_keep E \<Longrightarrow> sriov_same d (snd (pf_wait_vfs_flr E g n ms d))"
proof -
  assume w: "waits_keep E"
  have "sriov_same d (snd (wait_vfs_flr_loop E g ns ms k d))" for ns k
  proof (induction ns arbitrary: ms k d)
    case (Cons m ns)
    obtain ok d1 where f: "sriov_wait_for E (intel_iov_state_no_flr g m) ms d = (ok, d1)" by force
    then have "sriov_same d d1" using wait_for_same [OF w, of d "intel_iov_state_no_flr g m" ms] by simp
    with f show ?case using Cons.IH by (auto intro: sriov_same_trans)
  qed simp
  then show ?thesis by (simp add: pf_wait_vfs_flr_def)
qed

lemma release_vfs_same: "waits_keep E \<Longrightarrow> sriov_same d (pf_release_vfs E n g d)"
proof -
  assume "waits_keep E"
  then have "sriov_same d d1" if "pf_wait_vfs_flr E g n 0 d = (k, d1)" for k d1
    using wait_vfs_same [of E d g n 0] that by simp
  then show ?thesis
    by (auto simp: pf_release_vfs_def split: prod.split
        intro: sriov_same_trans [OF sriov_same_trans [OF _ update_clients_same] unprovision_gt_same])
qed

lemma refs_same:
  "i915_pci_pf_get_vf_dev E vf d = (p, d') \<Longrightarrow> sriov_same d d'"
  "needs_save_restore E vf d = (b, d') \<Longrightarrow> sriov_same d d'" "sriov_same d (pci_dev_put vf d)"
  by (auto simp: needs_save_restore_def i915_pci_pf_get_vf_dev_def pci_dev_put_def sriov_same_def
      split: if_splits)

lemma vfs_until_error_same:
  assumes "\<And>n g d. sriov_same d (snd (f n g d))"
  shows "sriov_same d (vfs_until_error E f ns d)"
proof (induction ns arbitrary: d)
  case (Cons n ns)
  have "sriov_same x (snd (try_gts (f n) (sriov_gts y) x))" for x y by (rule sriov.try_gts [OF assms])
  then have t: "sriov_same x z" if "try_gts (f n) (sriov_gts y) x = (r, z)" for x y r z using that by (metis snd_conv)
  show ?case
    using Cons.IH by (auto split: prod.split sum.split bool.split dest!: refs_same(2) t intro: sriov_same_trans)
qed simp

lemma save_restore_same:
  "guc_action_save_restore_vf I g vf op off sz b x = (r, x') \<Longrightarrow> same_device x x'"
  by (auto simp: guc_action_save_restore_vf_def split: prod.splits sum.splits
      dest!: guc_only_send intro: same_device_guc)

lemma vma_same: "intel_guc_allocate_and_map_vma I x = (r, x') \<Longrightarrow> same_device x x'"
  by (rule same_device_guc [OF guc_only_vma])

lemma save_vf_same:
  "intel_iov_state_save_vf_size I g vf s = (r, s') \<Longrightarrow> same_device (dev s) (dev s')"
  "intel_iov_state_save_vf I w g vf b s = (q, out, s') \<Longrightarrow> same_device (dev s) (dev s')"
  "intel_iov_state_restore_vf I g vf b s = (r, s') \<Longrightarrow> same_device (dev s) (dev s')"
  by (auto simp: intel_iov_state_save_vf_size_def pf_save_vf_size_def intel_iov_state_save_vf_def
      pf_save_vf_def intel_iov_state_restore_vf_def pf_restore_vf_def
      split: prod.splits sum.splits if_splits dest!: save_restore_same vma_same intro: same_device_trans)

lemma buffer_same: "same_device (dev s) (dev (guc_state_buffer I g vf sz s))"
  by (auto simp: guc_state_buffer_def kmalloc_def Let_def split: option.split)

lemma save_state_same: "same_device (dev s) (dev (snd (save_vf_guc_state I w g vf s)))"
  by (auto simp: save_vf_guc_state_def Let_def split: prod.split sum.split option.split
      dest!: save_vf_same intro: same_device_trans same_device_trans [OF _ buffer_same]
        same_device_trans [OF same_device_trans [OF _ buffer_same]])

lemma suspend_same: "waits_keep E \<Longrightarrow> sriov_same d (pf_suspend_active_vfs E d)"
proof -
  assume w: "waits_keep E"
  have "sriov_same d (snd (pf_gt_save_vf_running E n g d))" for n g d
    by (simp add: pf_gt_save_vf_running_def pause_sync_same [OF w])
  moreover have "sriov_same d (snd (pf_gt_save_vf_guc_state E n g d))" for n g d
    unfolding pf_gt_save_vf_guc_state_def by (rule on_pf_same [OF save_state_same])
  ultimately show ?thesis
    by (auto simp: pf_suspend_active_vfs_def pf_save_vfs_running_def pf_save_vfs_guc_state_def Let_def
        intro: sriov_same_trans [OF vfs_until_error_same vfs_until_error_same])
qed

lemma restore_pci_same: "sriov_same d (restore_pci_loop E ns d)"
proof (induction ns arbitrary: d)
  case (Cons n ns)
  have put: "sriov_same x y \<Longrightarrow> sriov_same x (pci_dev_put n (y\<lparr>pci_restored := p\<rparr>))" for x y p
    by (simp add: sriov_same_def pci_dev_put_def)
  show ?case
    using Cons.IH
    by (auto split: prod.split option.split bool.split dest!: refs_same(1,2)
        intro: sriov_same_trans sriov_same_trans [OF put [OF sriov_same_trans]])
qed simp

lemma pf_restore_same: "intel_iov_state_restore_vf I g vf b s = (r, s') \<Longrightarrow> same_device (dev s) (dev s')"
  by (rule save_vf_same(3))

lemma restore_blob_same: "sriov_same d (snd (restore_guc_blob E g vf b d))"
  unfolding restore_guc_blob_def
  by (rule on_pf_same) (auto split: prod.split sum.split dest!: pf_restore_same)

lemma restore_state_same:
  assumes "waits_keep E"
  shows "sriov_same d (snd (pf_gt_restore_vf_guc_state E vf g d))"
proof -
  let ?c = "\<lambda>s. num_pushed (provisioning g (dev s)) \<ge> vf"
  have w: "sriov_same d x" if "sriov_wait_for E ?c ms d = (ok, x)" for ms ok x
    using wait_for_same [OF assms, of d ?c ms] that by simp
  have p: "sriov_same x y" if "pf_pause_sync E g vf x = (r, y)" for x y r
    using pause_sync_same [OF assms, of x g vf] that by simp
  show ?thesis
    by (auto simp: pf_gt_restore_vf_guc_state_def split: option.split prod.split bool.split sum.split if_splits
        dest!: w p intro: sriov_same_trans sriov_same_trans [OF _ restore_blob_same]
          sriov_same_trans [OF sriov_same_trans restore_blob_same])
qed

lemma restore_running_same: "sriov_same d (pf_restore_vfs_running E n d)"
proof -
  have "same_device (dev s) (dev (snd (restore_vf_running I g vf s)))" for I g vf s
    using state_ops_same(3) [of "clear_bit g vf IOV_VF_PAUSE_BY_SUSPEND s" I g vf]
    by (auto simp: restore_vf_running_def)
  then have "sriov_same x (snd (pf_gt_restore_vf_running E vf g x))" for vf g x
    unfolding pf_gt_restore_vf_running_def by (rule on_pf_same)
  then show ?thesis
    unfolding pf_restore_vfs_running_def by (intro sriov.fold_loop sriov.try_gts)
qed

lemma resume_same: "waits_keep E \<Longrightarrow> sriov_same d (pf_resume_active_vfs E d)"
proof -
  assume w: "waits_keep E"
  have p: "sriov_same x (pf_restore_vfs_pci_state E n x)" for n x
    by (simp add: pf_restore_vfs_pci_state_def restore_pci_same)
  have g: "sriov_same x (pf_restore_vfs_guc_state E n x)" for n x
    unfolding pf_restore_vfs_guc_state_def by (rule vfs_until_error_same [OF restore_state_same [OF w]])
  have i: "sriov_same x (pf_restore_vfs_irqs E n x)" for n x
    by (simp add: pf_restore_vfs_irqs_def sriov_same_def)
  show ?thesis
    unfolding pf_resume_active_vfs_def Let_def
    by (simp add: sriov_same_trans [OF sriov_same_trans [OF sriov_same_trans [OF p g] i] restore_running_same])
qed

lemma init_hw_same: "sriov_same d (intel_iov_init_hw_pf E g d)"
proof -
  have r: "dev (intel_iov_state_reset g s) = dev s" for s
  proof -
    have "dev (fold (pf_reset_vf_state g) ns s) = dev s" for ns
      by (induction ns arbitrary: s) (simp_all add: pf_reset_vf_state_def)
    then show ?thesis by (simp add: intel_iov_state_reset_def del: upt_Suc)
  qed
  define d1 where "d1 = on_iov g (intel_iov_service_update (sr_svc E g)) d"
  define d2 where "d2 = snd (on_i915 (\<lambda>s. ((), intel_iov_provisioning_restart g s)) d1)"
  have "sriov_same d1 d2"
    unfolding d2_def by (rule on_i915_same) (simp add: intel_iov_provisioning_restart_def)
  then have "sriov_same d d2" using sriov_same_trans [OF on_iov_update_same] by (simp add: d1_def)
  moreover have "intel_iov_init_hw_pf E g d = d2\<lparr>sd_pf := intel_iov_state_reset g (sd_pf d2)\<rparr>"
    by (simp only: intel_iov_init_hw_pf_def Let_def d1_def d2_def)
  ultimately show ?thesis by (simp add: sriov_same_def r)
qed

section \<open>Device operations as a state machine\<close>

text \<open>
  A configuration says whether the system is awake. The device operations come in any order while
  it is: enabling by the PCI core, which does it only when no VF is enabled; disabling; the control
  operations. A suspend puts the system to sleep, a resume wakes it up; in between and at any other
  time the hardware of a GT may be initialised again, and the handlers and workers of the driver may
  do to the data of the PF whatever keeps the frame of the device. Every suspend that was prepared is
  resumed: a suspend that is given up, or a resume that stops at a GT, is not a step of this relation.
\<close>

type_synonym sriov_config = "bool \<times> sriov_device"

inductive sriov_step :: "sriov_env \<Rightarrow> sriov_config \<Rightarrow> sriov_config \<Rightarrow> bool" where
  enable: "pci_num_vf (i915_of d) = 0 \<Longrightarrow> 0 < n \<Longrightarrow> n \<le> unat (driver_vfs (i915_of d)) \<Longrightarrow>
    i915_sriov_pf_enable_vfs E n d = (r, d') \<Longrightarrow> sriov_step E (True, d) (True, d')"
| disable: "i915_sriov_pf_disable_vfs E d = (r, d') \<Longrightarrow> sriov_step E (True, d) (True, d')"
| stop_vf: "i915_sriov_pf_stop_vf E vf d = (r, d') \<Longrightarrow> sriov_step E (True, d) (True, d')"
| pause_vf: "i915_sriov_pf_pause_vf E vf d = (r, d') \<Longrightarrow> sriov_step E (True, d) (True, d')"
| resume_vf: "i915_sriov_pf_resume_vf E vf d = (r, d') \<Longrightarrow> sriov_step E (True, d) (True, d')"
| clear_vf: "i915_sriov_pf_clear_vf E vf d = (r, d') \<Longrightarrow> sriov_step E (True, d) (True, d')"
| suspend: "sriov_step E (True, d) (False, i915_sriov_suspend_prepare E True d)"
| init_hw: "sriov_step E (a, d) (a, intel_iov_init_hw_pf E g d)"
| resume: "sriov_step E (False, d) (True, i915_sriov_resume E True d)"
| handlers: "same_device (i915_of d) (dev s) \<Longrightarrow> sriov_step E (a, d) (a, d\<lparr>sd_pf := s\<rparr>)"

inductive sriov_reach :: "sriov_env \<Rightarrow> sriov_config \<Rightarrow> sriov_config \<Rightarrow> bool" where
  start: "sriov_reach E c c"
| step: "sriov_reach E c c1 \<Longrightarrow> sriov_step E c1 c2 \<Longrightarrow> sriov_reach E c c2"

text \<open>The GTs are held for the VFs while the system is awake, on top of the references others hold.\<close>

definition vfs_hold_gts :: "(intel_gt_type \<Rightarrow> int) \<Rightarrow> sriov_config \<Rightarrow> bool" where
  "vfs_hold_gts held c \<longleftrightarrow> (case c of (awake, d) \<Rightarrow>
     (\<forall>g \<in> set (sriov_gts d). gt_pm d g =
        held g + (if awake \<and> pci_num_vf (i915_of d) \<noteq> 0 then 1 else 0)) \<and>
     sysfs_links d = (pci_num_vf (i915_of d) \<noteq> 0))"

lemma hold_same: "vfs_hold_gts held (a, d) \<Longrightarrow> sriov_same d d' \<Longrightarrow> vfs_hold_gts held (a, d')"
  by (simp add: vfs_hold_gts_def sriov_sameD)

lemma hold_enable:
  assumes "i915_sriov_pf_enable_vfs E n d = (r, d')" "vfs_hold_gts held (True, d)"
    "pci_num_vf (i915_of d) = 0" "0 < n" "n \<le> unat (driver_vfs (i915_of d))"
  shows "vfs_hold_gts held (True, d')"
proof -
  have n: "n < 65536" using assms(5) u16_bound [of "driver_vfs (i915_of d)"] by simp
  then have nz: "(of_nat n :: u16) \<noteq> 0"
    using assms(4) by (metis less_numeral_extra(3) unat_0 unat_of_nat_u16)
  from enable_effect [OF assms(1,4)] show ?thesis
  proof (elim disjE exE conjE)
    fix e assume "sriov_same d d'"
    then show ?thesis by (rule hold_same [OF assms(2)])
  next
    assume "sriov_gts d' = sriov_gts d" "pci_num_vf (i915_of d') = of_nat n" "sysfs_links d'"
      "\<forall>g. gt_pm d' g = gt_pm d g + (if g \<in> set (sriov_gts d) then 1 else 0)"
    then show ?thesis using assms(2,3) nz by (simp add: vfs_hold_gts_def)
  qed
qed

lemma disable_effect:
  assumes "waits_keep E" "i915_sriov_pf_disable_vfs E d = (r, d')"
  shows "sr_vfs_assigned E \<or> pci_num_vf (i915_of d) = 0 \<Longrightarrow> d' = d"
    and "\<not> (sr_vfs_assigned E \<or> pci_num_vf (i915_of d) = 0) \<Longrightarrow>
      pci_num_vf (i915_of d') = 0 \<and> sriov_gts d' = sriov_gts d \<and> \<not> sysfs_links d' \<and>
      (\<forall>g \<in> set (sriov_gts d). gt_pm d' g = gt_pm d g - 1)"
proof -
  assume "sr_vfs_assigned E \<or> pci_num_vf (i915_of d) = 0"
  then have "i915_sriov_pf_disable_vfs E d = (if sr_vfs_assigned E then Inl EPERM else Inr (), d)"
    unfolding i915_sriov_pf_disable_vfs_def by (elim disjE) (simp_all add: Let_def)
  with assms(2) show "d' = d" by simp
next
  assume False: "\<not> (sr_vfs_assigned E \<or> pci_num_vf (i915_of d) = 0)"
  define n where "n = unat (pci_num_vf (i915_of d))"
  define d1 where "d1 = pci_disable_sriov (d\<lparr>sysfs_links := False\<rparr>)"
  define d2 where "d2 = fold (\<lambda>g. pf_start_vfs_flr g n) (sriov_gts d1) d1"
  define d3 where "d3 = fold (\<lambda>g x. snd (pf_wait_vfs_flr E g n I915_VF_FLR_TIMEOUT_MS x)) (sriov_gts d1) d2"
  define d4 where "d4 = fold (pf_release_vfs E n) (sriov_gts d1) d3"
  define d5 where "d5 = (if sr_meteorlake E then snd (pf_enable_gsc_engine E d4) else d4)"
  have nz: "n \<noteq> 0" "\<not> sr_vfs_assigned E" using False by (simp_all add: n_def unat_eq_0)
  have "i915_sriov_pf_disable_vfs E d = (Inr (), fold intel_gt_pm_put (sriov_gts d1) d5)"
    unfolding i915_sriov_pf_disable_vfs_def Let_def n_def [symmetric] d1_def [symmetric]
      d2_def [symmetric] d3_def [symmetric] d4_def [symmetric] d5_def [symmetric]
    using nz by simp
  then have d': "d' = fold intel_gt_pm_put (sriov_gts d1) d5" using assms(2) by simp
  have "sriov_same d1 d2" unfolding d2_def by (rule sriov.fold_loop [OF start_flr_same])
  also have "sriov_same d2 d3" unfolding d3_def by (rule sriov.fold_loop [OF wait_vfs_same [OF assms(1)]])
  also have "sriov_same d3 d4" unfolding d4_def by (rule sriov.fold_loop [OF release_vfs_same [OF assms(1)]])
  also have "sriov_same d4 d5" using enable_gsc_same [of d4 E] by (simp add: d5_def sriov_same_pf_def)
  finally have s: "sriov_same d1 d5" .
  have 1: "gt_pm d1 = gt_pm d" "sriov_gts d1 = sriov_gts d" "pci_num_vf (i915_of d1) = 0" "\<not> sysfs_links d1"
    by (simp_all add: d1_def pci_disable_sriov_def on_i915_def on_pf_def sriov_gts_def for_each_gt_def)
  have "sriov_gts d' = sriov_gts d"
    using sriov_sameD(1) [OF s] 1(2) by (simp add: d' sriov_gts_def pm_put_fold)
  then show "pci_num_vf (i915_of d') = 0 \<and> sriov_gts d' = sriov_gts d \<and> \<not> sysfs_links d' \<and>
      (\<forall>g \<in> set (sriov_gts d). gt_pm d' g = gt_pm d g - 1)"
    using 1 sriov_sameD [OF s] by (simp add: d' pm_put_fold count_gts)
qed

lemma hold_disable:
  assumes "waits_keep E" "i915_sriov_pf_disable_vfs E d = (r, d')" "vfs_hold_gts held (True, d)"
  shows "vfs_hold_gts held (True, d')"
proof (cases "sr_vfs_assigned E \<or> pci_num_vf (i915_of d) = 0")
  case True
  then show ?thesis using disable_effect(1) [OF assms(1,2)] assms(3) by simp
next
  case False
  then show ?thesis using disable_effect(2) [OF assms(1,2)] assms(3) by (simp add: vfs_hold_gts_def)
qed

lemma hold_suspend:
  assumes "waits_keep E" "vfs_hold_gts held (True, d)"
  shows "vfs_hold_gts held (False, i915_sriov_suspend_prepare E True d)"
    "pci_num_vf (i915_of (i915_sriov_suspend_prepare E True d)) = pci_num_vf (i915_of d)"
    "sriov_gts (i915_sriov_suspend_prepare E True d) = sriov_gts d"
proof -
  define n where "n = pci_num_vf (i915_of d)"
  define d0 where "d0 = (if n \<noteq> 0 then fold intel_gt_pm_put (sriov_gts d) d else d)"
  let ?d1 = "i915_sriov_suspend_prepare E True d"
  have s: "sriov_same d0 ?d1"
    unfolding i915_sriov_suspend_prepare_def by (simp add: suspend_same [OF assms(1)] d0_def n_def)
  have d0: "pci_num_vf (i915_of d0) = n" "sriov_gts d0 = sriov_gts d" "sysfs_links d0 = sysfs_links d"
    "g \<in> set (sriov_gts d) \<Longrightarrow> gt_pm d0 g = gt_pm d g - (if n \<noteq> 0 then 1 else 0)" for g
    by (simp_all add: d0_def n_def sriov_gts_def pm_put_fold) (simp_all add: count_gts sriov_gts_def [symmetric])
  note d1 = sriov_sameD [OF s]
  then show "pci_num_vf (i915_of ?d1) = pci_num_vf (i915_of d)" "sriov_gts ?d1 = sriov_gts d"
    using d0 by (simp_all add: n_def)
  show "vfs_hold_gts held (False, ?d1)"
    using assms(2) d0 d1 by (simp add: vfs_hold_gts_def n_def)
qed

lemma hold_resume:
  assumes "waits_keep E" "vfs_hold_gts held (False, d)"
  shows "vfs_hold_gts held (True, i915_sriov_resume E True d)"
proof -
  let ?d1 = "pf_resume_active_vfs E d"
  note d1 = sriov_sameD [OF resume_same [OF assms(1), of d]]
  have r: "i915_sriov_resume E True d =
      (if pci_num_vf (i915_of ?d1) \<noteq> 0 then fold intel_gt_pm_get (sriov_gts ?d1) ?d1 else ?d1)"
    by (simp add: i915_sriov_resume_def Let_def)
  have gts: "sriov_gts (fold intel_gt_pm_get gs x) = sriov_gts x" for gs x by (simp add: sriov_gts_def pm_get_fold)
  show ?thesis
    using assms(2) d1 unfolding r by (auto simp: vfs_hold_gts_def pm_get_fold gts count_gts)
qed

text \<open>
  Property C33. At any time, whatever the order of the device operations and whatever fails on the way:
  every GT of the device is held exactly once for the VFs while VFs are enabled and the system is
  awake, and not at all for them otherwise, in particular not between a suspend and its resume, so
  that the GTs can go to sleep; and the links in sysfs exist exactly while VFs are enabled. The waits
  of the driver keep the frame of the device (\<open>waits_keep\<close>), and every suspend is followed by its
  resume.
\<close>

theorem sriov_holds_gts:
  assumes "waits_keep E" "sriov_reach E c c'" "vfs_hold_gts held c"
  shows "vfs_hold_gts held c'"
  using assms(2,1,3)
proof (induction rule: sriov_reach.induct)
  case (step E c c1 c2)
  have h: "vfs_hold_gts held c1" by (rule step.IH [OF step.prems])
  from step.hyps(2) show ?case
  proof cases
    case (enable d n r d')
    then show ?thesis using h by (auto intro: hold_enable [OF enable(6)])
  next
    case (disable d r d')
    then show ?thesis using h by (auto intro: hold_disable [OF step.prems(1) disable(3)])
  next
    case (stop_vf vf d r d')
    have "sriov_same d (snd (i915_sriov_pf_stop_vf E vf d))"
      unfolding i915_sriov_pf_stop_vf_def by (rule on_all_gts_same [OF state_ops_same(1)])
    then show ?thesis using stop_vf h by (auto intro: hold_same)
  next
    case (pause_vf vf d r d')
    have "sriov_same d (snd (i915_sriov_pf_pause_vf E vf d))"
      unfolding i915_sriov_pf_pause_vf_def by (rule on_all_gts_same [OF state_ops_same(2)])
    then show ?thesis using pause_vf h by (auto intro: hold_same)
  next
    case (resume_vf vf d r d')
    have "sriov_same d (snd (i915_sriov_pf_resume_vf E vf d))"
      unfolding i915_sriov_pf_resume_vf_def by (rule on_all_gts_same [OF state_ops_same(3)])
    then show ?thesis using resume_vf h by (auto intro: hold_same)
  next
    case (clear_vf vf d r d')
    have "sriov_same x (snd (on_i915 (intel_iov_provisioning_clear (sr_iov E) g vf) x))" for g x
      by (rule on_i915_same [OF clear_same])
    then have "sriov_same d (snd (i915_sriov_pf_clear_vf E vf d))"
      unfolding i915_sriov_pf_clear_vf_def by (rule sriov.all_gts)
    then show ?thesis using clear_vf h by (auto intro: hold_same)
  next
    case (suspend d)
    then show ?thesis using h hold_suspend(1) [OF step.prems(1)] by simp
  next
    case (init_hw a d g)
    then show ?thesis using h init_hw_same hold_same by blast
  next
    case (resume d)
    then show ?thesis using h hold_resume [OF step.prems(1)] by simp
  next
    case (handlers d s a)
    then have "sriov_same d (d\<lparr>sd_pf := s\<rparr>)" by (simp add: sriov_same_def)
    then show ?thesis using handlers h by (auto intro: hold_same)
  qed
qed

text \<open>
  A suspend that is given up after the preparation, without a resume of the device, leaves the VFs
  without their references; disabling the VFs then puts references that the driver does not hold.
\<close>

theorem aborted_suspend_underflows:
  assumes "waits_keep E" "vfs_hold_gts held (True, d)" "pci_num_vf (i915_of d) \<noteq> 0" "\<not> sr_vfs_assigned E"
    and "i915_sriov_pf_disable_vfs E (i915_sriov_suspend_prepare E True d) = (r, d')" "g \<in> set (sriov_gts d)"
  shows "gt_pm d' g = held g - 1"
proof -
  let ?d1 = "i915_sriov_suspend_prepare E True d"
  note s = hold_suspend [OF assms(1,2)]
  have "vfs_hold_gts (\<lambda>g. held g - 1) (True, ?d1)" using s assms(3) by (simp add: vfs_hold_gts_def)
  from hold_disable [OF assms(1,5) this] have h: "vfs_hold_gts (\<lambda>g. held g - 1) (True, d')" .
  have "pci_num_vf (i915_of d') = 0" "sriov_gts d' = sriov_gts ?d1"
    using disable_effect(2) [OF assms(1,5)] s(2) assms(3,4) by simp_all
  then show ?thesis using h s(3) assms(6) by (simp add: vfs_hold_gts_def)
qed

end
