(* ===== verification/Iov_Flr.thy ===== *)
theory Iov_Flr
  imports Iov_State
begin

text \<open>
  The VF FLR flow of \<open>gt/iov/intel_iov_state.c\<close> as a state machine. \<open>flr_step\<close> interleaves the
  handlers and workers of all GTs, the starts of resets by \<open>pf_start_vfs_flr\<close> and the new
  initialisations of GTs with a GuC that reports the end of a reset only after it was told to start
  it; \<open>flr_reach\<close> are the states it reaches from a VF without a reset. A mark of the configuration
  tells whether the reset of the VF that is followed is started on every GT, on the primary GT
  only, or was started over or torn down on one GT while it ran. Unless it was, the phases of each
  GT and the pairs of phases two GTs can be in are the invariant; from it follow the barrier
  between the GTs and the completion of every reset in a fair run. Three theorems show where the
  flow breaks: on a device with one GT, after a failed start, and when a reset is started over.
\<close>

section \<open>One command\<close>

definition control_result :: "nat res \<Rightarrow> unit res" where
  "control_result r = (case r of Inl e \<Rightarrow> Inl e | Inr n \<Rightarrow> if n > 0 then Inl EPROTO else Inr ())"

lemma control_result_simps [simp]:
  "control_result (Inl e) = Inl e" "control_result (Inr 0) = Inr ()"
  by (simp_all add: control_result_def)

definition control_log :: "intel_gt_type \<Rightarrow> nat \<Rightarrow> u32 \<Rightarrow> pf_state \<Rightarrow> guc_msg list" where
  "control_log g vf cmd s =
     guc_log (gts (dev s) g) @ [\<lparr>msg_request = vf_control_request vf cmd, msg_blob = []\<rparr>]"

lemma pf_control_vf_eq:
  "pf_control_vf E g vf cmd s =
     (control_result (env_guc E g (control_log g vf cmd s)),
      s\<lparr>dev := upd_gt g (\<lambda>t. t\<lparr>guc_log := control_log g vf cmd s\<rparr>) (dev s)\<rparr>)"
  by (simp add: pf_control_vf_def guc_action_vf_control_cmd_def intel_guc_send_def control_result_def
      control_log_def Let_def split: sum.split)

lemma control_log_frame [simp]:
  "control_log g vf cmd (put_bit g' vf' b v s) = control_log g vf cmd s"
  by (simp add: control_log_def)

text \<open>The preparation of the finish command leaves the flags and the messages alone.\<close>

definition flr_finish_prep :: "iov_env \<Rightarrow> intel_gt_type \<Rightarrow> nat \<Rightarrow> pf_state \<Rightarrow> pf_state" where
  "flr_finish_prep E g vf s = pf_clear_vf_ggtt_entries E g vf (intel_iov_event_reset g vf s)"

lemma event_reset_flags [simp]:
  "test_bit g' vf' b (intel_iov_event_reset g vf s) = test_bit g' vf' b s"
  "data_ready (intel_iov_event_reset g vf s) = data_ready s"
  "dev (intel_iov_event_reset g vf s) = dev s"
proof -
  let ?f = "\<lambda>e. upd_data g vf (\<lambda>d. d\<lparr>adverse_events := (adverse_events d)(e := 0)\<rparr>)"
  have one: "test_bit g' vf' b (?f e s) = test_bit g' vf' b s" for e s
    by (auto simp: test_bit_def vf_data_def upd_data_def split: option.splits)
  have "test_bit g' vf' b (fold ?f es s) = test_bit g' vf' b s \<and>
      data_ready (fold ?f es s) = data_ready s \<and> dev (fold ?f es s) = dev s" for es
    by (induction es arbitrary: s) (simp_all add: one)
  then show "test_bit g' vf' b (intel_iov_event_reset g vf s) = test_bit g' vf' b s"
    "data_ready (intel_iov_event_reset g vf s) = data_ready s"
    "dev (intel_iov_event_reset g vf s) = dev s"
    by (simp_all add: intel_iov_event_reset_def)
qed

lemma flr_finish_prep_frame [simp]:
  "test_bit g' vf' b (flr_finish_prep E g vf s) = test_bit g' vf' b s"
  "data_ready (flr_finish_prep E g vf s) = data_ready s"
  "pt_only (dev s) (dev (flr_finish_prep E g vf s))"
  by (simp_all add: flr_finish_prep_def pf_clear_vf_ggtt_entries_def pt_only_set_space_owner
      split: option.split)

lemmas flr_finish_prep_dev = pt_onlyD [OF flr_finish_prep_frame(3)]

lemma flr_finish_prep_log [simp]:
  "control_log g' vf' cmd (flr_finish_prep E g vf s) = control_log g' vf' cmd s"
  "has_media_gt (dev (flr_finish_prep E g vf s)) = has_media_gt (dev s)"
  "pf_get_totalvfs (dev (flr_finish_prep E g vf s)) = pf_get_totalvfs (dev s)"
  by (simp_all add: control_log_def flr_finish_prep_dev)

lemma pf_process_vf_flr_finish_eq:
  "pf_process_vf_flr_finish E g vf s =
     pf_control_vf E g vf GUC_PF_TRIGGER_VF_FLR_FINISH (flr_finish_prep E g vf s)"
  by (simp add: pf_process_vf_flr_finish_def pf_trigger_vf_flr_finish_def flr_finish_prep_def)

section \<open>The step relation\<close>

text \<open>What the GuC of a GT does for the VF whose reset is followed.\<close>

datatype (plugins only: code) guc_flr = GUC_IDLE | GUC_RUNNING | GUC_DONE

text \<open>The effect of the last message of a history, if it is new and was accepted.\<close>

definition guc_flr_next ::
    "iov_env \<Rightarrow> intel_gt_type \<Rightarrow> nat \<Rightarrow> i915_state \<Rightarrow> i915_state \<Rightarrow> guc_flr \<Rightarrow> guc_flr" where
  "guc_flr_next E g v d d' p =
     (let h = guc_log (gts d' g)
      in if length h = length (guc_log (gts d g)) \<or> env_guc E g h \<noteq> Inr 0 then p
         else if msg_request (last h) = vf_control_request v GUC_PF_TRIGGER_VF_FLR_START
         then GUC_RUNNING
         else if msg_request (last h) = vf_control_request v GUC_PF_TRIGGER_VF_FLR_FINISH
         then GUC_IDLE
         else p)"

text \<open>The flags of a reset, and whether the reset of a VF is over on both GTs.\<close>

definition flr_bits :: "iov_vf_flag list" where
  "flr_bits = [IOV_VF_FLR_IN_PROGRESS, IOV_VF_NEEDS_FLR_START, IOV_VF_FLR_DONE_RECEIVED,
     IOV_VF_NEEDS_FLR_FINISH, IOV_VF_NEEDS_FLR_DONE_SYNC]"

definition flr_clear :: "nat \<Rightarrow> pf_state \<Rightarrow> bool" where
  "flr_clear v s \<longleftrightarrow> (\<forall>g \<in> {GT_PRIMARY, GT_MEDIA}. \<forall>b \<in> set flr_bits. \<not> test_bit g v b s)"

text \<open>
  How the reset of the VF that is followed came about: it was started on both GTs, or there is
  none (\<open>WHOLE\<close>); it was started on the primary GT and the driver has yet to start it on the
  media GT (\<open>HALF\<close>); it was started over while it was running, or torn down on one GT by a new
  initialisation of that GT (\<open>BROKEN\<close>). The driver keeps no such mark; it records what the
  steps did.
\<close>

datatype (plugins only: code) flr_mark = WHOLE | HALF | BROKEN

fun mark_start :: "intel_gt_type \<Rightarrow> bool \<Rightarrow> flr_mark \<Rightarrow> flr_mark" where
  "mark_start GT_PRIMARY idle M = (if idle \<and> M = WHOLE then HALF else BROKEN)"
| "mark_start GT_MEDIA idle M = (if M = HALF then WHOLE else BROKEN)"

definition mark_reinit :: "nat \<Rightarrow> pf_state \<Rightarrow> (intel_gt_type \<Rightarrow> guc_flr) \<Rightarrow> flr_mark" where
  "mark_reinit v s G =
     (if flr_clear v s \<and> G GT_PRIMARY = GUC_IDLE \<and> G GT_MEDIA = GUC_IDLE then WHOLE else BROKEN)"

text \<open>
  A step for the VF \<open>v\<close> that is followed: a notification for any VF, which is handled in one step
  or interrupted after the primary GT; the start of a reset of any VF on any GT, by
  \<open>pf_start_vfs_flr\<close> when VFs are disabled or by the rest of an interrupted handler; a new
  initialisation of any GT, which clears the flags and comes after a reset of its GuC; the
  processing of any VF by the worker of any GT; and the control requests of users. Each is one
  step: the test of a flag and the update it guards are not interrupted by another step.
\<close>

type_synonym flr_config = "pf_state \<times> (intel_gt_type \<Rightarrow> guc_flr) \<times> flr_mark"

abbreviation config_mark :: "flr_config \<Rightarrow> flr_mark" where
  "config_mark c \<equiv> snd (snd c)"

inductive flr_step :: "iov_env \<Rightarrow> nat \<Rightarrow> flr_config \<Rightarrow> flr_config \<Rightarrow> bool" where
  flr_notify: "flr_step E v (s, G, M) (pf_handle_vf_flr g n s, G, M)"
| flr_notify_root: "\<not> test_bit GT_PRIMARY n IOV_VF_FLR_IN_PROGRESS s \<Longrightarrow>
    flr_step E v (s, G, M)
      (pf_init_vf_flr GT_PRIMARY n (upd_data GT_PRIMARY n (\<lambda>d. d\<lparr>paused := False\<rparr>) s), G,
       if n = v then mark_start GT_PRIMARY (flr_clear v s) M else M)"
| flr_begin: "flr_step E v (s, G, M)
      (intel_iov_state_start_flr g n s, G, if n = v then mark_start g (flr_clear v s) M else M)"
| gt_reinit: "s' = intel_iov_state_reset g s \<Longrightarrow> G' = G(g := GUC_IDLE) \<Longrightarrow>
    flr_step E v (s, G, M) (s', G', mark_reinit v s' G')"
| flr_done: "(n = v \<Longrightarrow> G g = GUC_RUNNING) \<Longrightarrow>
    flr_step E v (s, G, M) (pf_handle_vf_flr_done g n s, if n = v then G(g := GUC_DONE) else G, M)"
| pause_done: "flr_step E v (s, G, M) (pf_handle_vf_pause_done g n s, G, M)"
| process: "n \<le> pf_get_totalvfs (dev s) \<Longrightarrow> pf_process_vf E g n s = (again, s') \<Longrightarrow>
    flr_step E v (s, G, M) (s', G(g := guc_flr_next E g v (dev s) (dev s') (G g)), M)"
| pause: "intel_iov_state_pause_vf E g n s = (r, s') \<Longrightarrow> flr_step E v (s, G, M) (s', G, M)"
| resume: "intel_iov_state_resume_vf E g n s = (r, s') \<Longrightarrow> flr_step E v (s, G, M) (s', G, M)"
| stop: "intel_iov_state_stop_vf E g n s = (r, s') \<Longrightarrow> flr_step E v (s, G, M) (s', G, M)"

inductive flr_reach :: "iov_env \<Rightarrow> nat \<Rightarrow> flr_config \<Rightarrow> flr_config \<Rightarrow> bool" where
  start: "flr_reach E v c c"
| step: "flr_reach E v c c1 \<Longrightarrow> flr_step E v c1 c2 \<Longrightarrow> flr_reach E v c c2"

inductive_cases flr_stepE: "flr_step E v (s, G, M) c"

text \<open>The handler of a notification is its first half and the start on the media GT.\<close>

lemma notify_halves:
  "has_media_gt (dev s) \<Longrightarrow> \<not> test_bit GT_PRIMARY n IOV_VF_FLR_IN_PROGRESS s \<Longrightarrow>
   pf_handle_vf_flr GT_PRIMARY n s = intel_iov_state_start_flr GT_MEDIA n
     (pf_init_vf_flr GT_PRIMARY n (upd_data GT_PRIMARY n (\<lambda>d. d\<lparr>paused := False\<rparr>) s))"
  by (simp add: pf_handle_vf_flr_def for_each_gt_def intel_iov_state_start_flr_def)

section \<open>Phases\<close>

datatype (plugins only: code) flr_phase =
    FLR_IDLE | FLR_PENDING | FLR_RUNNING | FLR_DONE | FLR_SYNCED | FLR_FINISHING | FLR_FINISHED

fun phase_bits :: "flr_phase \<Rightarrow> iov_vf_flag list" where
  "phase_bits FLR_IDLE = []"
| "phase_bits FLR_PENDING =
     [IOV_VF_FLR_IN_PROGRESS, IOV_VF_NEEDS_FLR_START, IOV_VF_NEEDS_FLR_DONE_SYNC]"
| "phase_bits FLR_RUNNING = [IOV_VF_FLR_IN_PROGRESS, IOV_VF_NEEDS_FLR_DONE_SYNC]"
| "phase_bits FLR_DONE =
     [IOV_VF_FLR_IN_PROGRESS, IOV_VF_FLR_DONE_RECEIVED, IOV_VF_NEEDS_FLR_DONE_SYNC]"
| "phase_bits FLR_SYNCED = [IOV_VF_FLR_IN_PROGRESS, IOV_VF_FLR_DONE_RECEIVED]"
| "phase_bits FLR_FINISHING = [IOV_VF_FLR_IN_PROGRESS, IOV_VF_NEEDS_FLR_FINISH]"
| "phase_bits FLR_FINISHED = [IOV_VF_FLR_IN_PROGRESS]"

fun phase_guc :: "flr_phase \<Rightarrow> guc_flr" where
  "phase_guc FLR_RUNNING = GUC_RUNNING"
| "phase_guc FLR_DONE = GUC_DONE"
| "phase_guc FLR_SYNCED = GUC_DONE"
| "phase_guc FLR_FINISHING = GUC_DONE"
| "phase_guc p = GUC_IDLE"

definition in_phase :: "flr_phase \<Rightarrow> intel_gt_type \<Rightarrow> nat \<Rightarrow> pf_state \<Rightarrow> bool" where
  "in_phase p g v s \<longleftrightarrow> (\<forall>b \<in> set flr_bits. test_bit g v b s = (b \<in> set (phase_bits p)))"

abbreviation other_gt :: "intel_gt_type \<Rightarrow> intel_gt_type" where
  "other_gt g \<equiv> (if g = GT_PRIMARY then GT_MEDIA else GT_PRIMARY)"

lemma other_gt_neq [simp]: "other_gt g \<noteq> g" "g \<noteq> other_gt g"
  by (cases g; simp)+

text \<open>The phase after the processing of a VF, when the GuC accepts the command (\<open>ok\<close>) or is busy.\<close>

fun next_phase :: "bool \<Rightarrow> intel_gt_type \<Rightarrow> flr_phase \<Rightarrow> flr_phase \<Rightarrow> flr_phase" where
  "next_phase ok g FLR_PENDING q = (if ok then FLR_RUNNING else FLR_PENDING)"
| "next_phase ok g FLR_DONE q = (if q \<in> {FLR_DONE, FLR_SYNCED} then FLR_SYNCED else FLR_DONE)"
| "next_phase ok g FLR_SYNCED q =
     (if q \<in> {FLR_PENDING, FLR_RUNNING, FLR_DONE} then FLR_SYNCED else FLR_FINISHING)"
| "next_phase ok g FLR_FINISHING q = (if ok then FLR_FINISHED else FLR_FINISHING)"
| "next_phase ok g FLR_FINISHED q =
     (if g = GT_PRIMARY \<and> q \<noteq> FLR_IDLE then FLR_FINISHED else FLR_IDLE)"
| "next_phase ok g p q = p"

text \<open>The command the processing sends, if any.\<close>

fun phase_cmd :: "flr_phase \<Rightarrow> u32 option" where
  "phase_cmd FLR_PENDING = Some GUC_PF_TRIGGER_VF_FLR_START"
| "phase_cmd FLR_FINISHING = Some GUC_PF_TRIGGER_VF_FLR_FINISH"
| "phase_cmd p = None"

text \<open>A GuC that accepts every command or asks to try again.\<close>

definition guc_cooperates :: "iov_env \<Rightarrow> bool" where
  "guc_cooperates E \<longleftrightarrow> (\<forall>g h. env_guc E g h = Inr 0 \<or> env_guc E g h = Inl EBUSY)"

definition flr_log :: "flr_phase \<Rightarrow> intel_gt_type \<Rightarrow> nat \<Rightarrow> pf_state \<Rightarrow> guc_msg list" where
  "flr_log p g v s = (case phase_cmd p of None \<Rightarrow> guc_log (gts (dev s) g) | Some c \<Rightarrow> control_log g v c s)"

lemma in_phaseD:
  assumes "in_phase p g v s"
  shows "test_bit g v IOV_VF_FLR_IN_PROGRESS s = (p \<noteq> FLR_IDLE)"
    and "test_bit g v IOV_VF_NEEDS_FLR_START s = (p = FLR_PENDING)"
    and "test_bit g v IOV_VF_FLR_DONE_RECEIVED s = (p \<in> {FLR_DONE, FLR_SYNCED})"
    and "test_bit g v IOV_VF_NEEDS_FLR_FINISH s = (p = FLR_FINISHING)"
    and "test_bit g v IOV_VF_NEEDS_FLR_DONE_SYNC s = (p \<in> {FLR_PENDING, FLR_RUNNING, FLR_DONE})"
  using assms by (cases p; simp add: in_phase_def flr_bits_def)+

lemma in_phase_unique: "in_phase p g v s \<Longrightarrow> in_phase q g v s \<Longrightarrow> p = q"
  using in_phaseD [of p g v s] in_phaseD [of q g v s] by (cases p; cases q) simp_all

lemma in_phaseI:
  assumes "test_bit g v IOV_VF_FLR_IN_PROGRESS s = (p \<noteq> FLR_IDLE)"
    and "test_bit g v IOV_VF_NEEDS_FLR_START s = (p = FLR_PENDING)"
    and "test_bit g v IOV_VF_FLR_DONE_RECEIVED s = (p \<in> {FLR_DONE, FLR_SYNCED})"
    and "test_bit g v IOV_VF_NEEDS_FLR_FINISH s = (p = FLR_FINISHING)"
    and "test_bit g v IOV_VF_NEEDS_FLR_DONE_SYNC s = (p \<in> {FLR_PENDING, FLR_RUNNING, FLR_DONE})"
  shows "in_phase p g v s"
  using assms by (cases p) (simp_all add: in_phase_def flr_bits_def)

lemma in_phase_idle: "in_phase FLR_IDLE g v s \<longleftrightarrow> (\<forall>b \<in> set flr_bits. \<not> test_bit g v b s)"
  by (simp add: in_phase_def flr_bits_def)

lemma in_phase_clear: "flr_clear v s \<longleftrightarrow> (\<forall>g. in_phase FLR_IDLE g v s)"
proof -
  have "(\<forall>g. in_phase FLR_IDLE g v s) \<longleftrightarrow>
      in_phase FLR_IDLE GT_PRIMARY v s \<and> in_phase FLR_IDLE GT_MEDIA v s"
    by (metis (full_types) intel_gt_type.exhaust)
  then show ?thesis by (simp only: flr_clear_def in_phase_idle) simp
qed

lemma bex_gts:
  assumes "has_media_gt d"
  shows "(\<exists>h \<in> set (for_each_gt d). P h) \<longleftrightarrow> P g \<or> P (other_gt g)"
  using assms by (cases g) (auto simp: for_each_gt_def)

text \<open>The processing of a VF as a function of the phases of the two GTs.\<close>

lemmas process_simps =
  pf_process_vf_def pf_trigger_vf_flr_start_def pf_process_vf_flr_finish_eq pf_control_vf_eq
  pf_vf_flr_done_received_def pf_vf_flr_needs_sync_def pf_vf_flr_in_progress_def

lemma process_phase:
  assumes ready: "data_ready s" and media: "has_media_gt (dev s)"
    and p: "in_phase p g v s" and q: "in_phase q (other_gt g) v s"
    and r: "r = env_guc E g (flr_log p g v s)" "r = Inr 0 \<or> r = Inl EBUSY"
  shows "in_phase (next_phase (r = Inr 0) g p q) g v (snd (pf_process_vf E g v s))"
proof -
  note bits = in_phaseD [OF p] in_phaseD [OF q]
  note bex = bex_gts [OF media, where g = g]
  note log = r(1) [unfolded flr_log_def]
  show ?thesis
  proof (cases p)
    case FLR_IDLE
    then show ?thesis using bits p by (simp add: process_simps)
  next
    case FLR_PENDING
    then show ?thesis using bits r(2) log ready
      by (intro in_phaseI) (auto simp: process_simps)
  next
    case FLR_RUNNING
    then show ?thesis using bits p by (simp add: process_simps bex)
  next
    case FLR_DONE
    then show ?thesis using bits p ready by (intro in_phaseI) (auto simp: process_simps bex)
  next
    case FLR_SYNCED
    then show ?thesis using bits p ready by (intro in_phaseI) (auto simp: process_simps bex)
  next
    case FLR_FINISHING
    then show ?thesis using bits r(2) log ready
      by (intro in_phaseI) (auto simp: process_simps bex)
  next
    case FLR_FINISHED
    then show ?thesis using bits p ready by (cases g; intro in_phaseI) (auto simp: process_simps bex)
  qed
qed

text \<open>What the processing sends: nothing, or the command of the phase.\<close>

definition process_cmd :: "intel_gt_type \<Rightarrow> nat \<Rightarrow> pf_state \<Rightarrow> u32 option" where
  "process_cmd g n s =
     (if test_bit g n IOV_VF_NEEDS_FLR_START s then Some GUC_PF_TRIGGER_VF_FLR_START
      else if \<not> test_bit g n IOV_VF_NEEDS_FLR_DONE_SYNC s \<and> \<not> test_bit g n IOV_VF_FLR_DONE_RECEIVED s \<and>
              test_bit g n IOV_VF_NEEDS_FLR_FINISH s then Some GUC_PF_TRIGGER_VF_FLR_FINISH
      else None)"

lemma process_cmd_cases:
  obtains (start) "process_cmd g n s = Some GUC_PF_TRIGGER_VF_FLR_START" "test_bit g n IOV_VF_NEEDS_FLR_START s"
  | (finish) "process_cmd g n s = Some GUC_PF_TRIGGER_VF_FLR_FINISH"
      "\<not> test_bit g n IOV_VF_NEEDS_FLR_START s" "\<not> test_bit g n IOV_VF_NEEDS_FLR_DONE_SYNC s"
      "\<not> test_bit g n IOV_VF_FLR_DONE_RECEIVED s" "test_bit g n IOV_VF_NEEDS_FLR_FINISH s"
  | (none) "process_cmd g n s = None" "\<not> test_bit g n IOV_VF_NEEDS_FLR_START s"
      "test_bit g n IOV_VF_NEEDS_FLR_DONE_SYNC s \<or> test_bit g n IOV_VF_FLR_DONE_RECEIVED s \<or>
       \<not> test_bit g n IOV_VF_NEEDS_FLR_FINISH s"
  unfolding process_cmd_def by presburger

lemma process_dev:
  "dev (snd (pf_process_vf E g n s)) =
     (case process_cmd g n s of
        None \<Rightarrow> dev s
      | Some c \<Rightarrow> upd_gt g (\<lambda>t. t\<lparr>guc_log := control_log g n c s\<rparr>)
          (if c = GUC_PF_TRIGGER_VF_FLR_START then dev s
           else dev (flr_finish_prep E g n (clear_bit g n IOV_VF_NEEDS_FLR_FINISH s))))"
proof (cases rule: process_cmd_cases [of g n s])
  case start
  then show ?thesis
    by (cases "control_result (env_guc E g (control_log g n GUC_PF_TRIGGER_VF_FLR_START s))")
      (simp_all add: process_simps)
next
  case finish
  then show ?thesis
    by (cases "control_result (env_guc E g (control_log g n GUC_PF_TRIGGER_VF_FLR_FINISH s))")
      (simp_all add: process_simps)
next
  case none
  then show ?thesis by (auto simp: process_simps)
qed

lemma process_dev_frame:
  "has_media_gt (dev (snd (pf_process_vf E g n s))) = has_media_gt (dev s)"
  "pf_get_totalvfs (dev (snd (pf_process_vf E g n s))) = pf_get_totalvfs (dev s)"
  by (simp_all add: process_dev split: option.split)

lemma process_log:
  "guc_log (gts (dev (snd (pf_process_vf E g n s))) h) =
     (case process_cmd g n s of
        Some c \<Rightarrow> if h = g then control_log g n c s else guc_log (gts (dev s) h)
      | None \<Rightarrow> guc_log (gts (dev s) h))"
  by (simp add: process_dev flr_finish_prep_dev split: option.split)

lemma process_bits_frame:
  assumes "data_ready s"
  shows "h \<noteq> g \<or> v \<noteq> n \<Longrightarrow> test_bit h v b (snd (pf_process_vf E g n s)) = test_bit h v b s"
    and "data_ready (snd (pf_process_vf E g n s))"
proof (atomize (full), cases rule: process_cmd_cases [of g n s])
  case start
  then show "(h \<noteq> g \<or> v \<noteq> n \<longrightarrow> test_bit h v b (snd (pf_process_vf E g n s)) = test_bit h v b s) \<and>
      data_ready (snd (pf_process_vf E g n s))"
    using assms
    by (cases "control_result (env_guc E g (control_log g n GUC_PF_TRIGGER_VF_FLR_START s))")
      (auto simp: process_simps)
next
  case finish
  then show "(h \<noteq> g \<or> v \<noteq> n \<longrightarrow> test_bit h v b (snd (pf_process_vf E g n s)) = test_bit h v b s) \<and>
      data_ready (snd (pf_process_vf E g n s))"
    using assms
    by (cases "control_result (env_guc E g (control_log g n GUC_PF_TRIGGER_VF_FLR_FINISH s))")
      (auto simp: process_simps)
next
  case none
  then show "(h \<noteq> g \<or> v \<noteq> n \<longrightarrow> test_bit h v b (snd (pf_process_vf E g n s)) = test_bit h v b s) \<and>
      data_ready (snd (pf_process_vf E g n s))"
    using assms by (auto simp: process_simps)
qed

lemma process_cmd_phase:
  assumes "in_phase p g v s"
  shows "process_cmd g v s = phase_cmd p"
  using in_phaseD [OF assms] by (cases p) (simp_all add: process_cmd_def)

lemma vf_control_request_inject:
  assumes "n < 2 ^ 32" "v < 2 ^ 32"
  shows "vf_control_request n c = vf_control_request v c' \<longleftrightarrow> n = v \<and> c = c'"
proof -
  have "unat (of_nat n :: u32) = n" "unat (of_nat v :: u32) = v"
    using assms by (simp_all add: unat_of_nat)
  then have "(of_nat n :: u32) = of_nat v \<longleftrightarrow> n = v" by metis
  then show ?thesis by (auto simp: vf_control_request_def)
qed

lemma totalvfs_bound: "n \<le> pf_get_totalvfs d \<Longrightarrow> n < 2 ^ 32"
proof -
  assume "n \<le> pf_get_totalvfs d"
  also have "pf_get_totalvfs d < 2 ^ 16"
    using unsigned_less [of "driver_vfs d", where 'a = nat] by (simp add: pf_get_totalvfs_def)
  finally show ?thesis by simp
qed

text \<open>The effect on the GuC of the reset that is followed.\<close>

lemma process_guc_other:
  assumes "n \<noteq> v" "n \<le> pf_get_totalvfs (dev s)" "v \<le> pf_get_totalvfs (dev s)"
  shows "guc_flr_next E g v (dev s) (dev (snd (pf_process_vf E g n s))) p = p"
  using assms totalvfs_bound [OF assms(2)] totalvfs_bound [OF assms(3)]
  by (auto simp: guc_flr_next_def process_log control_log_def vf_control_request_inject Let_def
      split: option.split)

lemma process_guc_same:
  assumes "r = env_guc E g (flr_log p g v s)" "in_phase p g v s"
  shows "guc_flr_next E g v (dev s) (dev (snd (pf_process_vf E g v s))) x =
     (if r \<noteq> Inr 0 then x
      else if p = FLR_PENDING then GUC_RUNNING else if p = FLR_FINISHING then GUC_IDLE else x)"
  unfolding assms(1)
  by (cases p) (simp_all add: guc_flr_next_def process_log process_cmd_phase [OF assms(2)] Let_def
      flr_log_def control_log_def vf_control_request_def)

section \<open>The invariant of a device with two GTs\<close>

text \<open>The pairs of phases the primary and the media GT can be in.\<close>

definition before_sync :: "flr_phase set" where
  "before_sync = {FLR_PENDING, FLR_RUNNING, FLR_DONE}"

definition phases_ok :: "bool \<Rightarrow> flr_phase \<Rightarrow> flr_phase \<Rightarrow> bool" where
  "phases_ok half p q \<longleftrightarrow>
     (if half then p \<in> before_sync \<and> q = FLR_IDLE
      else (p = FLR_IDLE \<longrightarrow> q = FLR_IDLE) \<and>
        (p \<in> before_sync \<longrightarrow> q \<in> before_sync \<or> (p = FLR_DONE \<and> q = FLR_SYNCED)) \<and>
        (q \<in> before_sync \<longrightarrow> p \<in> before_sync \<or> (q = FLR_DONE \<and> p = FLR_SYNCED)) \<and>
        (p \<in> before_sync \<longrightarrow> q \<noteq> FLR_IDLE))"

text \<open>What every step keeps.\<close>

definition flr_base :: "nat \<Rightarrow> pf_state \<Rightarrow> bool" where
  "flr_base v s \<longleftrightarrow> data_ready s \<and> has_media_gt (dev s) \<and> v \<le> pf_get_totalvfs (dev s)"

text \<open>The configuration at the phases \<open>ph\<close>.\<close>

definition at_phases :: "nat \<Rightarrow> (intel_gt_type \<Rightarrow> flr_phase) \<Rightarrow> flr_config \<Rightarrow> bool" where
  "at_phases v ph c \<longleftrightarrow> (case c of (s, G, M) \<Rightarrow>
     flr_base v s \<and> M \<noteq> BROKEN \<and> phases_ok (M = HALF) (ph GT_PRIMARY) (ph GT_MEDIA) \<and>
     (\<forall>g. in_phase (ph g) g v s \<and> G g = phase_guc (ph g)))"

lemma at_phasesD:
  assumes "at_phases v ph (s, G, M)"
  shows "data_ready s" "has_media_gt (dev s)" "v \<le> pf_get_totalvfs (dev s)"
    "phases_ok (M = HALF) (ph GT_PRIMARY) (ph GT_MEDIA)" "in_phase (ph g) g v s" "G g = phase_guc (ph g)"
    "M \<noteq> BROKEN"
  using assms by (simp_all add: at_phases_def flr_base_def)

lemma at_phasesI:
  assumes "flr_base v s" "M \<noteq> BROKEN"
    and "phases_ok (M = HALF) (ph GT_PRIMARY) (ph GT_MEDIA)"
    and "\<And>g. in_phase (ph g) g v s" "\<And>g. G g = phase_guc (ph g)"
  shows "at_phases v ph (s, G, M)"
  unfolding at_phases_def using assms by simp

lemma at_phases_base: "at_phases v ph (s, G, M) \<Longrightarrow> flr_base v s"
  by (simp add: at_phases_def)

lemma at_phases_frame:
  assumes "at_phases v ph (s, G, M)" "flr_base v s'"
    and "\<And>g b. b \<in> set flr_bits \<Longrightarrow> test_bit g v b s' = test_bit g v b s"
  shows "at_phases v ph (s', G, M)"
  using assms unfolding at_phases_def in_phase_def by (auto simp del: set_simps)

lemma at_phases_clear:
  assumes "flr_base v s" "flr_clear v s" "G GT_PRIMARY = GUC_IDLE" "G GT_MEDIA = GUC_IDLE"
  shows "at_phases v (\<lambda>_. FLR_IDLE) (s, G, WHOLE)"
proof (rule at_phasesI)
  fix g show "G g = phase_guc FLR_IDLE" using assms(3,4) by (cases g) simp_all
qed (use assms in_phase_clear in \<open>auto simp: phases_ok_def before_sync_def\<close>)

lemma phases_ok_next:
  assumes "phases_ok half (ph GT_PRIMARY) (ph GT_MEDIA)"
  shows "phases_ok half ((ph(g := next_phase ok g (ph g) (ph (other_gt g)))) GT_PRIMARY)
     ((ph(g := next_phase ok g (ph g) (ph (other_gt g)))) GT_MEDIA)"
  using assms
  by (cases g; cases half; cases "ph GT_PRIMARY"; cases "ph GT_MEDIA")
     (simp_all add: phases_ok_def before_sync_def)

text \<open>How far a reset is from its end; one that is not started on the media GT is the farthest.\<close>

fun phase_rank :: "flr_phase \<Rightarrow> nat" where
  "phase_rank FLR_IDLE = 0"
| "phase_rank FLR_FINISHED = 1"
| "phase_rank FLR_FINISHING = 2"
| "phase_rank FLR_SYNCED = 3"
| "phase_rank FLR_DONE = 4"
| "phase_rank FLR_RUNNING = 5"
| "phase_rank FLR_PENDING = 6"

definition flr_rank :: "flr_mark \<Rightarrow> (intel_gt_type \<Rightarrow> flr_phase) \<Rightarrow> nat" where
  "flr_rank M ph = phase_rank (ph GT_PRIMARY) + (if M = HALF then 7 else phase_rank (ph GT_MEDIA))"

lemma next_phase_rank: "next_phase ok g p q = p \<or> phase_rank (next_phase ok g p q) < phase_rank p"
  by (cases p) simp_all

lemma flr_rank_less:
  "phase_rank p < phase_rank (ph g) \<Longrightarrow> phases_ok (M = HALF) (ph GT_PRIMARY) (ph GT_MEDIA) \<Longrightarrow>
   flr_rank M (ph(g := p)) < flr_rank M ph"
  by (cases g) (auto simp: flr_rank_def phases_ok_def)

lemma flr_rank_idle: "flr_rank M ph = 0 \<longleftrightarrow> M \<noteq> HALF \<and> ph = (\<lambda>_. FLR_IDLE)"
proof -
  have "phase_rank p = 0 \<longleftrightarrow> p = FLR_IDLE" for p by (cases p) simp_all
  moreover have "ph = (\<lambda>_. FLR_IDLE) \<longleftrightarrow> ph GT_PRIMARY = FLR_IDLE \<and> ph GT_MEDIA = FLR_IDLE"
    by (metis intel_gt_type.exhaust)
  ultimately show ?thesis by (auto simp: flr_rank_def)
qed

text \<open>A step moves the reset that is followed towards its end, starts it, or leaves it alone.\<close>

definition flr_moves ::
    "flr_mark \<Rightarrow> (intel_gt_type \<Rightarrow> flr_phase) \<Rightarrow> flr_mark \<Rightarrow> (intel_gt_type \<Rightarrow> flr_phase) \<Rightarrow> bool" where
  "flr_moves M ph M' ph' \<longleftrightarrow>
     ph' = ph \<and> M' = M \<or> flr_rank M' ph' < flr_rank M ph \<or> flr_rank M ph = 0"

lemma flr_moves_same [simp]: "flr_moves M ph M ph"
  by (simp add: flr_moves_def)

lemma at_process:
  assumes at: "at_phases v ph (s, G, M)" and s': "s' = snd (pf_process_vf E g v s)"
    and r_def: "r = env_guc E g (flr_log (ph g) g v s)" and r: "r = Inr 0 \<or> r = Inl EBUSY"
  shows "at_phases v (ph(g := next_phase (r = Inr 0) g (ph g) (ph (other_gt g))))
    (s', G(g := guc_flr_next E g v (dev s) (dev s') (G g)), M)"
proof -
  note I = at_phasesD [OF at]
  let ?ph = "ph(g := next_phase (r = Inr 0) g (ph g) (ph (other_gt g)))"
  have "in_phase (?ph h) h v s'" for h
    using process_phase [OF I(1,2) I(5) [of g] I(5) [of "other_gt g"] r_def r] I(1,5)
      process_bits_frame(1) [OF I(1), where h = h and g = g and v = v and n = v] s'
    by (simp add: in_phase_def)
  moreover have "guc_flr_next E g v (dev s) (dev s') (G g) = phase_guc (?ph g)"
    using process_guc_same [OF r_def I(5) [of g]] I(6) [of g] s' by (cases "ph g") auto
  then have "(G(g := guc_flr_next E g v (dev s) (dev s') (G g))) h = phase_guc (?ph h)" for h
    using I(6) by simp
  ultimately show ?thesis
    using I(1-3,7) s' phases_ok_next [OF I(4), of g "r = Inr 0"]
    by (intro at_phasesI) (simp_all add: flr_base_def process_dev_frame process_bits_frame)
qed

lemma process_base: "flr_base v s \<Longrightarrow> flr_base v (snd (pf_process_vf E g n s))"
  by (simp add: flr_base_def process_bits_frame process_dev_frame)

lemma moves_process:
  assumes at: "at_phases v ph (s, G, M)" and E: "guc_cooperates E"
    and n: "n \<le> pf_get_totalvfs (dev s)" and s': "s' = snd (pf_process_vf E g n s)"
  shows "\<exists>ph'. at_phases v ph' (s', G(g := guc_flr_next E g v (dev s) (dev s') (G g)), M) \<and>
    flr_moves M ph M ph'"
proof -
  note I = at_phasesD [OF at]
  show ?thesis
  proof (cases "n = v")
    case False
    have "at_phases v ph (s', G, M)"
      using process_base [OF at_phases_base [OF at], of E g n] s' False I(1)
      by (intro at_phases_frame [OF at]) (simp_all add: process_bits_frame)
    moreover have "G(g := guc_flr_next E g v (dev s) (dev s') (G g)) = G"
      using process_guc_other [OF False n I(3)] s' by simp
    ultimately show ?thesis by (metis flr_moves_same)
  next
    case True
    let ?r = "env_guc E g (flr_log (ph g) g v s)"
    have "?r = Inr 0 \<or> ?r = Inl EBUSY" using E by (simp add: guc_cooperates_def)
    from at_process [OF at s' [unfolded True] refl this] show ?thesis
      using next_phase_rank [of "?r = Inr 0" g "ph g" "ph (other_gt g)"] flr_rank_less [OF _ I(4)]
      unfolding flr_moves_def by (metis fun_upd_triv)
  qed
qed

lemma init_flr_bits [simp]:
  "data_ready s \<Longrightarrow> test_bit h v b (pf_init_vf_flr g n s) =
     (test_bit h v b s \<or>
      h = g \<and> v = n \<and> (b = IOV_VF_FLR_IN_PROGRESS \<or> b = IOV_VF_NEEDS_FLR_START \<or>
        b = IOV_VF_NEEDS_FLR_DONE_SYNC \<and> has_media_gt (dev s)))"
  "data_ready (pf_init_vf_flr g n s) = data_ready s"
  "dev (pf_init_vf_flr g n s) = dev s"
  by (auto simp: pf_init_vf_flr_def pf_queue_worker_def Let_def)

lemma upd_data_bits [simp]:
  "(\<And>d. flags (f d) = flags d) \<Longrightarrow> test_bit h v b (upd_data g n f s) = test_bit h v b s"
  by (auto simp: test_bit_def vf_data_def upd_data_def split: option.split)

lemma handle_flr_base: "flr_base v s \<Longrightarrow> flr_base v (pf_handle_vf_flr g n s)"
  by (simp add: flr_base_def pf_handle_vf_flr_def for_each_gt_def)

lemma moves_notify:
  assumes at: "at_phases v ph (s, G, M)"
  shows "\<exists>ph'. at_phases v ph' (pf_handle_vf_flr g n s, G, M) \<and> flr_moves M ph M ph'"
proof (cases "g = GT_PRIMARY \<and> \<not> test_bit g n IOV_VF_FLR_IN_PROGRESS s")
  case True
  note I = at_phasesD [OF at]
  note base = handle_flr_base [OF at_phases_base [OF at], of g n]
  have root: "g = GT_PRIMARY" "\<not> test_bit GT_PRIMARY n IOV_VF_FLR_IN_PROGRESS s" using True by auto
  have new: "pf_handle_vf_flr g n s = pf_init_vf_flr GT_MEDIA n (pf_init_vf_flr GT_PRIMARY n
      (upd_data GT_PRIMARY n (\<lambda>d. d\<lparr>paused := False\<rparr>) s))"
    using notify_halves [OF I(2) root(2)] root(1) by (simp add: intel_iov_state_start_flr_def)
  show ?thesis
  proof (cases "n = v")
    case False
    have "at_phases v ph (pf_handle_vf_flr g n s, G, M)"
      by (rule at_phases_frame [OF at base]) (use I(1) False in \<open>auto simp: new\<close>)
    then show ?thesis using flr_moves_same by blast
  next
    case n: True
    have p: "ph GT_PRIMARY = FLR_IDLE" using root(2) n in_phaseD(1) [OF I(5) [of GT_PRIMARY]] by simp
    then have q: "ph GT_MEDIA = FLR_IDLE" "M = WHOLE"
      using I(4,7) by (cases M; auto simp: phases_ok_def before_sync_def)+
    have idle: "ph h = FLR_IDLE" for h using p q by (cases h) auto
    have "in_phase FLR_PENDING h v (pf_handle_vf_flr g n s)" for h
      using in_phaseD [OF I(5) [of h]] I(1,2) n idle [of h] unfolding new
      by (cases h) (auto intro!: in_phaseI)
    then have "at_phases v (\<lambda>_. FLR_PENDING) (pf_handle_vf_flr g n s, G, M)"
      using base I(6,7) idle q(2) by (intro at_phasesI) (auto simp: phases_ok_def before_sync_def)
    moreover have "flr_rank M ph = 0" using idle q(2) by (auto simp: flr_rank_idle)
    ultimately show ?thesis unfolding flr_moves_def by blast
  qed
next
  case False
  then have "pf_handle_vf_flr g n s = s" by (auto simp: pf_handle_vf_flr_def)
  then show ?thesis using at flr_moves_same by auto
qed

text \<open>The start of a reset on one GT, by the driver or in the first half of a handler.\<close>

lemma moves_start:
  assumes at: "at_phases v ph (s, G, M)" and t: "flr_base v t" "\<And>h n b. test_bit h n b t = test_bit h n b s"
    and M': "M' = (if n = v then mark_start g (flr_clear v s) M else M)" "M' \<noteq> BROKEN"
  shows "\<exists>ph'. at_phases v ph' (pf_init_vf_flr g n t, G, M') \<and> flr_moves M ph M' ph'"
proof (cases "n = v")
  case False
  have "at_phases v ph (pf_init_vf_flr g n t, G, M)"
    by (rule at_phases_frame [OF at]) (use t False in \<open>auto simp: flr_base_def\<close>)
  then show ?thesis using M' False flr_moves_same by auto
next
  case n: True
  note I = at_phasesD [OF at]
  have idle: "ph g = FLR_IDLE"
    using M' n in_phase_clear [of v s] I(4) in_phase_unique [OF I(5)]
    by (cases g) (auto simp: phases_ok_def split: if_splits)
  have "in_phase ((ph(g := FLR_PENDING)) h) h v (pf_init_vf_flr g n t)" for h
    using in_phaseD [OF I(5) [of h]] t I(2) n idle
    by (cases "h = g") (auto intro!: in_phaseI simp: flr_base_def)
  moreover have "flr_base v (pf_init_vf_flr g n t)" using t(1) by (simp add: flr_base_def)
  moreover have "phases_ok (M' = HALF) ((ph(g := FLR_PENDING)) GT_PRIMARY) ((ph(g := FLR_PENDING)) GT_MEDIA) \<and>
      flr_moves M ph M' (ph(g := FLR_PENDING))"
  proof (cases g)
    case GT_PRIMARY
    then have c: "flr_clear v s" "M = WHOLE" "M' = HALF" using M' n by (auto split: if_splits)
    then have "ph h = FLR_IDLE" for h
      using in_phase_clear [of v s] in_phase_unique [OF I(5)] by blast
    then show ?thesis using c GT_PRIMARY
      by (auto simp: flr_moves_def flr_rank_idle phases_ok_def before_sync_def)
  next
    case GT_MEDIA
    then have "M = HALF" "M' = WHOLE" using M' n by (auto split: if_splits)
    then show ?thesis using I(4) GT_MEDIA
      by (auto simp: flr_moves_def flr_rank_def phases_ok_def before_sync_def)
  qed
  moreover have "G h = phase_guc ((ph(g := FLR_PENDING)) h)" for h using I(6) [of h] idle by simp
  ultimately show ?thesis using M'(2) by (intro exI [of _ "ph(g := FLR_PENDING)"]) (auto intro: at_phasesI)
qed

lemma flr_done_frame [simp]:
  "data_ready (pf_handle_vf_flr_done g n s) = data_ready s"
  "dev (pf_handle_vf_flr_done g n s) = dev s"
  "data_ready s \<Longrightarrow> test_bit h v b (pf_handle_vf_flr_done g n s) =
     (test_bit h v b s \<or> h = g \<and> v = n \<and> b = IOV_VF_FLR_DONE_RECEIVED)"
  by (auto simp: pf_handle_vf_flr_done_def pf_queue_worker_def)

lemma at_done:
  assumes at: "at_phases v ph (s, G, M)" and p: "ph g = FLR_RUNNING"
  shows "at_phases v (ph(g := FLR_DONE)) (pf_handle_vf_flr_done g v s, G(g := GUC_DONE), M)"
proof -
  note I = at_phasesD [OF at]
  let ?ph = "ph(g := FLR_DONE)"
  have "in_phase (?ph h) h v (pf_handle_vf_flr_done g v s)" for h
  proof (cases "h = g")
    case hg: True
    show ?thesis
      using in_phaseD [OF I(5) [of g]] I(1) p by (intro in_phaseI) (simp_all add: hg)
  next
    case False
    then show ?thesis using I(1) I(5) [of h] by (simp add: in_phase_def)
  qed
  moreover have "phases_ok (M = HALF) (?ph GT_PRIMARY) (?ph GT_MEDIA)"
    using I(4) p by (cases g) (auto simp: phases_ok_def before_sync_def split: if_splits)
  moreover have "(G(g := GUC_DONE)) h = phase_guc (?ph h)" for h using I(6) by simp
  ultimately show ?thesis using I(1-3,7) by (intro at_phasesI) (simp_all add: flr_base_def)
qed

lemma moves_done:
  assumes at: "at_phases v ph (s, G, M)" and G: "n = v \<Longrightarrow> G g = GUC_RUNNING"
  shows "\<exists>ph'. at_phases v ph' (pf_handle_vf_flr_done g n s, if n = v then G(g := GUC_DONE) else G, M) \<and>
    flr_moves M ph M ph'"
proof (cases "n = v")
  case False
  have "at_phases v ph (pf_handle_vf_flr_done g n s, G, M)"
    by (rule at_phases_frame [OF at])
      (use at_phases_base [OF at] False in \<open>auto simp: flr_base_def\<close>)
  with False show ?thesis using flr_moves_same by auto
next
  case True
  note I = at_phasesD [OF at]
  have p: "ph g = FLR_RUNNING" using True G I(6) [of g] by (cases "ph g") auto
  then have "flr_rank M (ph(g := FLR_DONE)) < flr_rank M ph" by (intro flr_rank_less I(4)) simp
  with at_done [OF at p] True show ?thesis unfolding flr_moves_def by auto
qed

lemma reinit_base: "flr_base v s \<Longrightarrow> flr_base v (intel_iov_state_reset g s)"
proof -
  have "flr_base v (fold (pf_reset_vf_state g) ns s)" if "flr_base v s" for ns
    using that by (induction ns arbitrary: s) (simp_all add: flr_base_def pf_reset_vf_state_def)
  then show "flr_base v s \<Longrightarrow> flr_base v (intel_iov_state_reset g s)"
    by (simp add: intel_iov_state_reset_def del: upt_Suc)
qed

lemma reinit_whole:
  "flr_base v s' \<Longrightarrow> mark_reinit v s' G' \<noteq> BROKEN \<Longrightarrow>
   at_phases v (\<lambda>_. FLR_IDLE) (s', G', mark_reinit v s' G')"
  using at_phases_clear [of v s' G'] by (simp add: mark_reinit_def split: if_splits)

lemma moves_reinit:
  assumes "at_phases v ph (s, G, M)" "flr_base v s'" "mark_reinit v s' G' \<noteq> BROKEN"
  shows "\<exists>ph'. at_phases v ph' (s', G', mark_reinit v s' G') \<and>
    flr_moves M ph (mark_reinit v s' G') ph'"
proof -
  have "mark_reinit v s' G' = WHOLE" using assms(3) by (simp add: mark_reinit_def split: if_splits)
  then have "flr_rank (mark_reinit v s' G') (\<lambda>_. FLR_IDLE) = 0" by (simp add: flr_rank_idle)
  then have "flr_moves M ph (mark_reinit v s' G') (\<lambda>_. FLR_IDLE)" unfolding flr_moves_def by linarith
  with reinit_whole [OF assms(2,3)] show ?thesis by blast
qed

text \<open>The steps that do not touch the FLR flags.\<close>

definition flr_frame :: "pf_state \<Rightarrow> pf_state \<Rightarrow> bool" where
  "flr_frame s s' \<longleftrightarrow>
     data_ready s' \<and> has_media_gt (dev s') = has_media_gt (dev s) \<and>
     pf_get_totalvfs (dev s') = pf_get_totalvfs (dev s) \<and>
     (\<forall>g n b. b \<in> set flr_bits \<longrightarrow> test_bit g n b s' = test_bit g n b s)"

lemma flr_frame_base: "flr_base v s \<Longrightarrow> flr_frame s s' \<Longrightarrow> flr_base v s'"
  by (simp add: flr_frame_def flr_base_def)

lemma moves_frame:
  assumes "at_phases v ph (s, G, M)" "flr_frame s s'"
  shows "\<exists>ph'. at_phases v ph' (s', G, M) \<and> flr_moves M ph M ph'"
proof -
  have "at_phases v ph (s', G, M)"
    by (rule at_phases_frame [OF assms(1) flr_frame_base [OF at_phases_base [OF assms(1)] assms(2)]])
      (use assms(2) in \<open>simp add: flr_frame_def\<close>)
  then show ?thesis using flr_moves_same by blast
qed

lemma pause_not_flr: "b \<in> set flr_bits \<Longrightarrow> b \<noteq> IOV_VF_PAUSE_IN_PROGRESS"
  by (auto simp: flr_bits_def)

lemma flr_frame_pause_done: "data_ready s \<Longrightarrow> flr_frame s (pf_handle_vf_pause_done g n s)"
  by (simp add: flr_frame_def pf_handle_vf_pause_done_def pause_not_flr)

lemma flr_frame_control: "data_ready s \<Longrightarrow> pf_control_vf E g n c s = (r, s') \<Longrightarrow> flr_frame s s'"
  by (auto simp: flr_frame_def pf_control_vf_eq)

lemma flr_frame_put: "data_ready s \<Longrightarrow> flr_frame s (put_bit g n IOV_VF_PAUSE_IN_PROGRESS x s)"
  by (simp add: flr_frame_def pause_not_flr)

lemma flr_frame_upd:
  "data_ready s \<Longrightarrow> (\<And>d. flags (f d) = flags d) \<Longrightarrow> flr_frame s (upd_data g n f s)"
  by (simp add: flr_frame_def)

lemma flr_frame_trans: "flr_frame s s1 \<Longrightarrow> flr_frame s1 s2 \<Longrightarrow> flr_frame s s2"
  by (simp add: flr_frame_def)

lemma flr_frame_ready: "flr_frame s s' \<Longrightarrow> data_ready s'"
  by (simp add: flr_frame_def)

lemma flr_frame_refl: "data_ready s \<Longrightarrow> flr_frame s s"
  by (simp add: flr_frame_def)

lemma flr_frame_resume:
  assumes "data_ready s" "intel_iov_state_resume_vf E g n s = (r, s')"
  shows "flr_frame s s'"
  using assms flr_frame_upd [OF flr_frame_ready] flr_frame_trans
  by (fastforce simp: intel_iov_state_resume_vf_def split: prod.splits sum.splits
      dest: flr_frame_control [OF assms(1)])

lemma flr_frame_pause:
  assumes "data_ready s" "intel_iov_state_pause_vf E g n s = (r, s')"
  shows "flr_frame s s'"
proof (cases "intel_iov_state_no_flr g n s \<and> intel_iov_state_no_pause g n s")
  case False
  then show ?thesis using assms flr_frame_refl by (auto simp: intel_iov_state_pause_vf_def)
next
  case True
  let ?s = "set_bit g n IOV_VF_PAUSE_IN_PROGRESS s"
  have 1: "flr_frame s ?s" using assms(1) by (rule flr_frame_put)
  obtain r1 s1 where c: "pf_control_vf E g n GUC_PF_TRIGGER_VF_PAUSE ?s = (r1, s1)" by force
  have 2: "flr_frame s s1" using flr_frame_trans [OF 1 flr_frame_control [OF _ c]] assms(1) by simp
  then have "flr_frame s (clear_bit g n IOV_VF_PAUSE_IN_PROGRESS s1)"
    by (rule flr_frame_trans) (rule flr_frame_put [OF flr_frame_ready [OF 2]])
  with 2 c True assms(2) show ?thesis
    by (auto simp: intel_iov_state_pause_vf_def intel_iov_state_no_pause_def split: if_splits sum.splits)
qed

lemma flr_baseD: "flr_base v s \<Longrightarrow> data_ready s"
  by (simp add: flr_base_def)

lemma flr_frame_stop:
  "data_ready s \<Longrightarrow> intel_iov_state_stop_vf E g n s = (r, s') \<Longrightarrow> flr_frame s s'"
  unfolding intel_iov_state_stop_vf_def by (rule flr_frame_control)

lemmas flr_frames = flr_frame_pause_done flr_frame_pause flr_frame_resume flr_frame_stop

lemma flr_step_base: "flr_step E v c c' \<Longrightarrow> flr_base v (fst c) \<Longrightarrow> flr_base v (fst c')"
proof (induction rule: flr_step.induct)
  case (flr_notify E v s G M g n)
  then show ?case by (simp add: handle_flr_base)
next
  case (flr_notify_root n s E v G M)
  then show ?case by (simp add: flr_base_def)
next
  case (flr_begin E v s G M g n)
  then show ?case by (simp add: flr_base_def intel_iov_state_start_flr_def)
next
  case (gt_reinit s' g s G' G E v M)
  then show ?case by (simp add: reinit_base)
next
  case (flr_done n v G g E s M)
  then show ?case by (simp add: flr_base_def)
next
  case (process n s E g again s' v G M)
  then have "s' = snd (pf_process_vf E g n s)" by simp
  with process(3) show ?case by (simp add: process_base)
next
  case (pause_done E v s G M g n)
  then show ?case using flr_frame_base [OF _ flr_frames(1)] flr_baseD by simp
next
  case (pause E g n s r s' v G M)
  then show ?case using flr_frame_base [OF _ flr_frames(2) [OF flr_baseD pause(1)]] by simp
next
  case (resume E g n s r s' v G M)
  then show ?case using flr_frame_base [OF _ flr_frames(3) [OF flr_baseD resume(1)]] by simp
next
  case (stop E g n s r s' v G M)
  then show ?case using flr_frame_base [OF _ flr_frames(4) [OF flr_baseD stop(1)]] by simp
qed

lemma flr_step_moves:
  assumes "flr_step E v c c'" "guc_cooperates E" "at_phases v ph c" "config_mark c' \<noteq> BROKEN"
  shows "\<exists>ph'. at_phases v ph' c' \<and> flr_moves (config_mark c) ph (config_mark c') ph'"
  using assms
proof (induction rule: flr_step.induct)
  case (flr_notify E v s G M g n)
  then show ?case by (simp add: moves_notify)
next
  case (flr_notify_root n s E v G M)
  have "\<exists>ph'. at_phases v ph' (pf_init_vf_flr GT_PRIMARY n (upd_data GT_PRIMARY n (\<lambda>d. d\<lparr>paused := False\<rparr>) s), G,
      if n = v then mark_start GT_PRIMARY (flr_clear v s) M else M) \<and>
      flr_moves M ph (if n = v then mark_start GT_PRIMARY (flr_clear v s) M else M) ph'"
    by (rule moves_start [OF flr_notify_root(3)])
      (use at_phases_base [OF flr_notify_root(3)] flr_notify_root(4) in \<open>simp_all add: flr_base_def\<close>)
  then show ?case by simp
next
  case (flr_begin E v s G M g n)
  then show ?case
    using moves_start [OF flr_begin(2) at_phases_base [OF flr_begin(2)] refl refl]
    by (simp add: intel_iov_state_start_flr_def)
next
  case (gt_reinit s' g s G' G E v M)
  then show ?case using moves_reinit [OF gt_reinit(4)] reinit_base [OF at_phases_base [OF gt_reinit(4)]] by simp
next
  case (flr_done n v G g E s M)
  then show ?case using moves_done [OF flr_done(3), of n g] by simp
next
  case (pause_done E v s G M g n)
  then show ?case using moves_frame [OF pause_done(2) flr_frames(1)] at_phases_base flr_baseD by simp blast
next
  case (process n s E g again s' v G M)
  then have "s' = snd (pf_process_vf E g n s)" by simp
  then show ?case using moves_process [OF process(4,3,1)] by simp
next
  case (pause E g n s r s' v G M)
  then show ?case
    using moves_frame [OF pause(3) flr_frames(2) [OF flr_baseD [OF at_phases_base [OF pause(3)]] pause(1)]] by simp
next
  case (resume E g n s r s' v G M)
  then show ?case
    using moves_frame [OF resume(3) flr_frames(3) [OF flr_baseD [OF at_phases_base [OF resume(3)]] resume(1)]] by simp
next
  case (stop E g n s r s' v G M)
  then show ?case
    using moves_frame [OF stop(3) flr_frames(4) [OF flr_baseD [OF at_phases_base [OF stop(3)]] stop(1)]] by simp
qed

text \<open>Only new initialisations of the GTs make a broken reset whole again: there is none then.\<close>

lemma flr_step_broken:
  assumes "flr_step E v c c'" "flr_base v (fst c)" "config_mark c = BROKEN" "config_mark c' \<noteq> BROKEN"
  shows "at_phases v (\<lambda>_. FLR_IDLE) c'"
  using assms
proof (induction rule: flr_step.induct)
  case (flr_notify_root n s E v G M)
  then show ?case by (simp split: if_splits)
next
  case (flr_begin E v s G M g n)
  then show ?case by (cases g) (auto split: if_splits)
next
  case (gt_reinit s' g s G' G E v M)
  then show ?case by (intro reinit_whole) (simp_all add: reinit_base)
qed simp_all

definition flr_inv :: "nat \<Rightarrow> flr_config \<Rightarrow> bool" where
  "flr_inv v c \<longleftrightarrow> flr_base v (fst c) \<and> (config_mark c \<noteq> BROKEN \<longrightarrow> (\<exists>ph. at_phases v ph c))"

lemma flr_inv_step:
  assumes "flr_step E v c c'" "guc_cooperates E" "flr_inv v c"
  shows "flr_inv v c'"
proof -
  have "flr_base v (fst c)" using assms(3) by (simp add: flr_inv_def)
  then show ?thesis
    using assms(3) flr_step_base [OF assms(1)] flr_step_moves [OF assms(1,2)] flr_step_broken [OF assms(1)]
    unfolding flr_inv_def by blast
qed

text \<open>A VF without a reset on a device with two GTs.\<close>

definition flr_quiet :: "nat \<Rightarrow> flr_config \<Rightarrow> bool" where
  "flr_quiet v c \<longleftrightarrow> (case c of (s, G, M) \<Rightarrow>
     flr_base v s \<and> flr_clear v s \<and> (\<forall>g \<in> {GT_PRIMARY, GT_MEDIA}. G g = GUC_IDLE) \<and> M = WHOLE)"

lemma flr_quiet_at: "flr_quiet v c \<Longrightarrow> at_phases v (\<lambda>_. FLR_IDLE) c"
  using at_phases_clear by (auto simp: flr_quiet_def)

lemma flr_reach_inv:
  assumes "flr_reach E v c c'" "flr_quiet v c" "guc_cooperates E"
  shows "flr_inv v c'"
  using assms
proof (induction rule: flr_reach.induct)
  case (start E v c)
  moreover have "flr_base v (fst c)" using start by (auto simp: flr_quiet_def)
  ultimately show ?case using flr_quiet_at unfolding flr_inv_def by blast
next
  case (step E v c c1 c2)
  then show ?case using flr_inv_step by blast
qed

section \<open>The barrier between the GTs\<close>

text \<open>
  Property C17. On a device with two GTs, whatever the interleaving of the notifications of the
  GuCs, the starts of resets by the driver, the new initialisations of GTs, the workers of the two
  GTs and the requests of users: as long as the reset of a VF that is running was not started over
  and was not torn down on one GT alone (the mark is not \<open>BROKEN\<close>), a worker sends the command that
  finishes it only when the GuC of no GT is still running that reset, no GT has yet to start it and
  the driver has started it on every GT; and a worker starts a reset only on a GuC that is idle for
  the VF. The GuCs accept each command or answer it with busy (\<open>guc_cooperates\<close>).
\<close>

theorem flr_barrier:
  assumes "guc_cooperates E" "flr_quiet v c" "flr_reach E v c (s, G, M)" "M \<noteq> BROKEN"
    and "process_cmd g v s = Some cmd"
  shows "(cmd = GUC_PF_TRIGGER_VF_FLR_FINISH \<longrightarrow>
      M = WHOLE \<and> (\<forall>h. G h \<noteq> GUC_RUNNING \<and> \<not> test_bit h v IOV_VF_NEEDS_FLR_START s)) \<and>
    (cmd = GUC_PF_TRIGGER_VF_FLR_START \<longrightarrow> G g = GUC_IDLE) \<and>
    guc_log (gts (dev (snd (pf_process_vf E g v s))) g) =
      guc_log (gts (dev s) g) @ [\<lparr>msg_request = vf_control_request v cmd, msg_blob = []\<rparr>]"
proof -
  obtain ph where at: "at_phases v ph (s, G, M)"
    using flr_reach_inv [OF assms(3,2,1)] assms(4) by (auto simp: flr_inv_def)
  note I = at_phasesD(4-7) [OF at]
  have cmd: "phase_cmd (ph g) = Some cmd" using assms(5) process_cmd_phase [OF I(2)] by simp
  have late: "M = WHOLE \<and> ph h \<notin> {FLR_PENDING, FLR_RUNNING}" if "ph g = FLR_FINISHING" for h
    using I(1,4) that by (cases M; cases g; cases h) (auto simp: phases_ok_def before_sync_def)
  have "M = WHOLE \<and> G h \<noteq> GUC_RUNNING \<and> \<not> test_bit h v IOV_VF_NEEDS_FLR_START s"
    if "cmd = GUC_PF_TRIGGER_VF_FLR_FINISH" for h
  proof -
    have "ph g = FLR_FINISHING" using that cmd by (cases "ph g") auto
    from late [OF this, of h] show ?thesis
      using I(3) [of h] in_phaseD(2) [OF I(2) [of h]] by (cases "ph h") auto
  qed
  moreover have "G g = GUC_IDLE" if "cmd = GUC_PF_TRIGGER_VF_FLR_START"
    using that cmd I(3) by (cases "ph g") auto
  ultimately show ?thesis using assms(5) by (simp add: process_log control_log_def)
qed

section \<open>Completion\<close>

lemma some_gt_moves:
  assumes "phases_ok False (ph GT_PRIMARY) (ph GT_MEDIA)" "ph \<noteq> (\<lambda>_. FLR_IDLE)"
  shows "\<exists>g. ph g = FLR_RUNNING \<or> next_phase True g (ph g) (ph (other_gt g)) \<noteq> ph g"
proof -
  let ?m = "\<lambda>g. ph g = FLR_RUNNING \<or> next_phase True g (ph g) (ph (other_gt g)) \<noteq> ph g"
  have "ph GT_PRIMARY \<noteq> FLR_IDLE \<or> ph GT_MEDIA \<noteq> FLR_IDLE"
    using assms(2) by (metis (full_types) intel_gt_type.exhaust)
  then have "?m GT_PRIMARY \<or> ?m GT_MEDIA"
    using assms(1)
    by (cases "ph GT_PRIMARY"; cases "ph GT_MEDIA") (simp_all add: phases_ok_def before_sync_def)
  then show ?thesis by blast
qed

text \<open>A GuC that accepts every command.\<close>

definition guc_accepts :: "iov_env \<Rightarrow> bool" where
  "guc_accepts E \<longleftrightarrow> (\<forall>g h. env_guc E g h = Inr 0)"

text \<open>
  An infinite run in which no reset of the VF is broken, every GT's worker processes the VF again
  and again, no GuC runs a reset for ever, and the driver does not stop between the GTs.
\<close>

definition flr_processed ::
    "iov_env \<Rightarrow> nat \<Rightarrow> intel_gt_type \<Rightarrow> flr_config \<Rightarrow> flr_config \<Rightarrow> bool" where
  "flr_processed E v g c c' \<longleftrightarrow> (case c of (s, G, M) \<Rightarrow>
     let s' = snd (pf_process_vf E g v s)
     in c' = (s', G(g := guc_flr_next E g v (dev s) (dev s') (G g)), M))"

definition flr_fair_run :: "iov_env \<Rightarrow> nat \<Rightarrow> (nat \<Rightarrow> flr_config) \<Rightarrow> bool" where
  "flr_fair_run E v \<sigma> \<longleftrightarrow>
     (\<forall>i. flr_step E v (\<sigma> i) (\<sigma> (Suc i)) \<and> config_mark (\<sigma> i) \<noteq> BROKEN) \<and>
     (\<forall>g i. \<exists>j \<ge> i. flr_processed E v g (\<sigma> j) (\<sigma> (Suc j))) \<and>
     (\<forall>g i. \<exists>j \<ge> i. fst (snd (\<sigma> j)) g \<noteq> GUC_RUNNING) \<and>
     (\<forall>i. \<exists>j \<ge> i. config_mark (\<sigma> j) \<noteq> HALF)"

lemma flr_fair_runD:
  assumes "flr_fair_run E v \<sigma>"
  shows "flr_step E v (\<sigma> i) (\<sigma> (Suc i))" "config_mark (\<sigma> i) \<noteq> BROKEN"
    "\<exists>j \<ge> i. flr_processed E v g (\<sigma> j) (\<sigma> (Suc j))"
    "\<exists>j \<ge> i. fst (snd (\<sigma> j)) g \<noteq> GUC_RUNNING" "\<exists>j \<ge> i. config_mark (\<sigma> j) \<noteq> HALF"
  using assms by (simp_all add: flr_fair_run_def)

text \<open>A run that stays at the same phases of a reset that is not over is not fair.\<close>

lemma stalled_not_fair:
  assumes run: "flr_fair_run E v \<sigma>" and E: "guc_accepts E"
    and same: "\<And>j. i \<le> j \<Longrightarrow> at_phases v ph (\<sigma> j) \<and> config_mark (\<sigma> j) = M"
  shows "flr_rank M ph = 0"
proof (rule ccontr)
  assume busy: "flr_rank M ph \<noteq> 0"
  note F = flr_fair_runD [OF run]
  have M: "M = WHOLE" using F(2) [of i] F(5) [of i] same by (cases M) auto
  have parts: "at_phases v ph (fst (\<sigma> j), fst (snd (\<sigma> j)), WHOLE)" if "i \<le> j" for j
    using same [OF that] M by (cases "\<sigma> j") auto
  have "ph \<noteq> (\<lambda>_. FLR_IDLE)" using busy M by (auto simp: flr_rank_idle)
  then obtain g where g: "ph g = FLR_RUNNING \<or> next_phase True g (ph g) (ph (other_gt g)) \<noteq> ph g"
    using some_gt_moves [of ph] at_phasesD(4) [OF parts [OF order_refl]] by auto
  then have "next_phase True g (ph g) (ph (other_gt g)) \<noteq> ph g"
    using F(4) [of i g] at_phasesD(6) [OF parts, of _ g] by fastforce
  moreover obtain j where j: "i \<le> j" "flr_processed E v g (\<sigma> j) (\<sigma> (Suc j))" using F(3) by blast
  obtain s G where c: "\<sigma> j = (s, G, WHOLE)" using same [OF j(1)] M by (cases "\<sigma> j") auto
  have "Inr 0 = env_guc E g (flr_log (ph g) g v s)" using E by (simp add: guc_accepts_def)
  from at_process [OF parts [OF j(1), unfolded c fst_conv snd_conv] refl this]
  have "at_phases v (ph(g := next_phase True g (ph g) (ph (other_gt g)))) (\<sigma> (Suc j))"
    using j(2) by (simp add: flr_processed_def c Let_def)
  then have "in_phase (next_phase True g (ph g) (ph (other_gt g))) g v (fst (\<sigma> (Suc j)))"
    by (cases "\<sigma> (Suc j)") (auto dest: at_phasesD(5) [where g = g])
  moreover have "in_phase (ph g) g v (fst (\<sigma> (Suc j)))" using at_phasesD(5) [OF parts, of "Suc j" g] j(1) by simp
  ultimately show False using in_phase_unique by blast
qed

lemma run_idles:
  assumes run: "flr_fair_run E v \<sigma>" and E: "guc_accepts E"
    and "at_phases v ph (\<sigma> i)" "flr_rank (config_mark (\<sigma> i)) ph = n"
  shows "\<exists>j \<ge> i. at_phases v (\<lambda>_. FLR_IDLE) (\<sigma> j)"
  using assms(3,4)
proof (induction n arbitrary: i ph rule: less_induct)
  case (less n)
  note F = flr_fair_runD [OF run]
  have coop: "guc_cooperates E" using E by (simp add: guc_accepts_def guc_cooperates_def)
  show ?case
  proof (rule ccontr)
    assume no: "\<not> (\<exists>j \<ge> i. at_phases v (\<lambda>_. FLR_IDLE) (\<sigma> j))"
    let ?M = "config_mark (\<sigma> i)"
    have busy: "flr_rank ?M ph \<noteq> 0" using no less.prems(1) by (auto simp: flr_rank_idle)
    have "at_phases v ph (\<sigma> (i + k)) \<and> config_mark (\<sigma> (i + k)) = ?M" for k
    proof (induction k)
      case 0
      show ?case using less.prems(1) by simp
    next
      case (Suc k)
      obtain ph' where p: "at_phases v ph' (\<sigma> (Suc (i + k)))"
          "flr_moves ?M ph (config_mark (\<sigma> (Suc (i + k)))) ph'"
        using flr_step_moves [OF F(1) coop _ F(2)] Suc by metis
      have "\<not> flr_rank (config_mark (\<sigma> (Suc (i + k)))) ph' < n"
        using less.IH [OF _ p(1) refl] no by (meson Suc_leD le_add1 order_trans)
      with p busy less.prems(2) show ?case by (auto simp: flr_moves_def)
    qed
    then have "at_phases v ph (\<sigma> j) \<and> config_mark (\<sigma> j) = ?M" if "i \<le> j" for j
      using that by (metis le_Suc_ex)
    from stalled_not_fair [OF run E this] busy show False by simp
  qed
qed

text \<open>
  Property C18. On a device with two GTs whose GuCs accept the commands no reset of a VF gets
  stuck: take any infinite run, from a state that any interleaving has reached, that is fair (every
  GT's worker processes the VF again and again, no GuC runs a reset for ever, the driver does not
  stop for ever between starting a reset on the primary and on the media GT) and in which no reset
  of the VF is started over or torn down on one GT while it runs. Then again and again there is a
  state in which every GuC is idle for the VF and no FLR flag of the VF is set on any GT.
\<close>

theorem flr_completes:
  assumes "guc_accepts E" "flr_quiet v c" "flr_reach E v c (\<sigma> 0)" "flr_fair_run E v \<sigma>"
  shows "\<exists>j \<ge> i. flr_clear v (fst (\<sigma> j)) \<and> (\<forall>g. fst (snd (\<sigma> j)) g = GUC_IDLE)"
proof -
  note F = flr_fair_runD [OF assms(4)]
  have coop: "guc_cooperates E" using assms(1) by (simp add: guc_accepts_def guc_cooperates_def)
  have "flr_inv v (\<sigma> k)" for k
    by (induction k) (use flr_reach_inv [OF assms(3,2) coop] flr_inv_step [OF F(1) coop] in auto)
  then obtain ph where "at_phases v ph (\<sigma> i)" using F(2) [of i] by (auto simp: flr_inv_def)
  from run_idles [OF assms(4,1) this refl]
  obtain j where j: "i \<le> j" "at_phases v (\<lambda>_. FLR_IDLE) (\<sigma> j)" by blast
  obtain s G M where c: "\<sigma> j = (s, G, M)" by (metis surj_pair)
  show ?thesis
    using j(1) at_phasesD(5,6) [OF j(2) [unfolded c]] in_phase_clear [of v s]
    by (intro exI [of _ j]) (simp add: c)
qed

section \<open>The worker\<close>

text \<open>Processing asks for more until the reset is over on the GT or has failed.\<close>

definition flr_over :: "iov_env \<Rightarrow> intel_gt_type \<Rightarrow> nat \<Rightarrow> pf_state \<Rightarrow> bool" where
  "flr_over E g v s \<longleftrightarrow> (\<forall>b \<in> set flr_bits. \<not> test_bit g v b s) \<or>
     (test_bit g v IOV_VF_FLR_FAILED s \<and> \<not> guc_cooperates E)"

lemma process_stops:
  assumes "data_ready s" "pf_process_vf E g v s = (False, s')"
  shows "flr_over E g v s'"
proof -
  have fail: "\<not> guc_cooperates E" if "control_result (env_guc E g h) = Inl e" "e \<noteq> EBUSY" for h e
  proof
    assume "guc_cooperates E"
    then have "env_guc E g h = Inr 0 \<or> env_guc E g h = Inl EBUSY" by (simp add: guc_cooperates_def)
    with that show False by auto
  qed
  show ?thesis
  proof (cases rule: process_cmd_cases [of g v s])
    case start
    then show ?thesis using assms fail
      by (cases "control_result (env_guc E g (control_log g v GUC_PF_TRIGGER_VF_FLR_START s))")
        (auto simp: process_simps flr_over_def split: if_splits)
  next
    case finish
    then show ?thesis using assms fail
      by (cases "control_result (env_guc E g (control_log g v GUC_PF_TRIGGER_VF_FLR_FINISH s))")
        (auto simp: process_simps flr_over_def split: if_splits)
  next
    case none
    then show ?thesis using assms
      by (auto simp: process_simps flr_over_def flr_bits_def split: if_splits)
  qed
qed

lemma loop_requeues:
  assumes "process_vfs_loop E g ns a s = (a', s')" "data_ready s" "v \<in> set ns \<or> a \<or> flr_over E g v s"
  shows "a' \<or> flr_over E g v s'"
  using assms
proof (induction ns arbitrary: a s)
  case Nil
  then show ?case by auto
next
  case (Cons n ns)
  obtain m s1 where p: "pf_process_vf E g n s = (m, s1)" by force
  have s1: "data_ready s1" using process_bits_frame(2) [OF Cons.prems(2), of E g n] p by simp
  have "v \<in> set ns \<or> a \<or> m \<or> flr_over E g v s1"
  proof (cases "n = v")
    case True
    then show ?thesis using process_stops [OF Cons.prems(2)] p by (cases m) auto
  next
    case False
    then have "flr_over E g v s1 = flr_over E g v s"
      using process_bits_frame(1) [OF Cons.prems(2), where h = g and g = g and v = v and n = n] p
      unfolding flr_over_def by (metis snd_conv)
    with False Cons.prems(3) show ?thesis by auto
  qed
  then show ?case using Cons.IH [OF _ s1, of "a \<or> m"] Cons.prems(1) p by auto
qed

text \<open>
  Property C19. The worker of a GT is not lost. From every state of the flags, and on a device with
  one or two GTs: when the worker has run over all VFs and some FLR flag of a VF is still set on
  that GT, the worker is queued again, or the reset of the VF is marked as failed there
  (\<open>FLR_FAILED\<close>). If the GuCs accept each command or answer it with busy, the worker is queued
  again in every such case.
\<close>

theorem flr_worker_requeued:
  assumes "data_ready s" "1 \<le> v" "v \<le> pf_get_totalvfs (dev s)"
    and "b \<in> set flr_bits" "test_bit g v b (pf_state_worker_func E g s)"
  shows "(state_worker (pf_state_worker_func E g s) g \<or>
      test_bit g v IOV_VF_FLR_FAILED (pf_state_worker_func E g s)) \<and>
    (guc_cooperates E \<longrightarrow> state_worker (pf_state_worker_func E g s) g)"
proof -
  let ?s = "s\<lparr>state_worker := (state_worker s)(g := False)\<rparr>"
  obtain a s' where l: "process_vfs_loop E g [1..<Suc (pf_get_totalvfs (dev s))] False ?s = (a, s')"
    by force
  have fin: "pf_state_worker_func E g s = (if a then pf_queue_worker g s' else s')"
    using l by (simp add: pf_state_worker_func_def pf_process_all_vfs_def del: upt_Suc)
  have "a \<or> flr_over E g v s'"
    by (rule loop_requeues [OF l]) (use assms(1-3) in auto)
  then show ?thesis using assms(4,5) by (auto simp: fin pf_queue_worker_def flr_over_def)
qed

section \<open>Where the flow breaks\<close>

text \<open>
  On a device with one GT nothing waits for the GuC: after a notification, two runs
  over the VF are enough to clear the flag that says a reset is in progress, although the only
  message sent is the command to start the reset, and the GuC has not reported that it is done.
\<close>

theorem flr_done_not_awaited:
  assumes "data_ready s" "\<not> has_media_gt (dev s)" "\<forall>b \<in> set flr_bits. \<not> test_bit GT_PRIMARY v b s"
    and "env_guc E GT_PRIMARY (control_log GT_PRIMARY v GUC_PF_TRIGGER_VF_FLR_START s) = Inr 0"
    and s1: "s1 = snd (pf_process_vf E GT_PRIMARY v (pf_handle_vf_flr GT_PRIMARY v s))"
    and s2: "s2 = snd (pf_process_vf E GT_PRIMARY v s1)"
  shows "\<not> intel_iov_state_no_flr GT_PRIMARY v s1 \<and> intel_iov_state_no_flr GT_PRIMARY v s2 \<and>
    guc_log (gts (dev s2) GT_PRIMARY) = guc_log (gts (dev s) GT_PRIMARY) @
      [\<lparr>msg_request = vf_control_request v GUC_PF_TRIGGER_VF_FLR_START, msg_blob = []\<rparr>] \<and>
    \<not> fst (pf_process_vf E GT_PRIMARY v s1)"
proof -
  let ?f = "pf_init_vf_flr GT_PRIMARY v (upd_data GT_PRIMARY v (\<lambda>d. d\<lparr>paused := False\<rparr>) s)"
  have bits: "\<not> test_bit GT_PRIMARY v IOV_VF_FLR_IN_PROGRESS s"
      "\<not> test_bit GT_PRIMARY v IOV_VF_NEEDS_FLR_START s"
      "\<not> test_bit GT_PRIMARY v IOV_VF_FLR_DONE_RECEIVED s"
      "\<not> test_bit GT_PRIMARY v IOV_VF_NEEDS_FLR_FINISH s"
      "\<not> test_bit GT_PRIMARY v IOV_VF_NEEDS_FLR_DONE_SYNC s"
    using assms(3) by (simp_all add: flr_bits_def)
  have f: "pf_handle_vf_flr GT_PRIMARY v s = ?f"
    using assms(2) bits by (simp add: pf_handle_vf_flr_def for_each_gt_def)
  have log: "control_log GT_PRIMARY v c ?f = control_log GT_PRIMARY v c s" for c
    by (simp add: control_log_def)
  have "pf_process_vf E GT_PRIMARY v ?f = (True, clear_bit GT_PRIMARY v IOV_VF_PAUSE_IN_PROGRESS
      ((clear_bit GT_PRIMARY v IOV_VF_NEEDS_FLR_START ?f)\<lparr>dev := upd_gt GT_PRIMARY
        (\<lambda>t. t\<lparr>guc_log := control_log GT_PRIMARY v GUC_PF_TRIGGER_VF_FLR_START s\<rparr>) (dev s)\<rparr>))"
    using assms(1,4) by (simp add: process_simps log)
  then have s1': "s1 = clear_bit GT_PRIMARY v IOV_VF_PAUSE_IN_PROGRESS
      ((clear_bit GT_PRIMARY v IOV_VF_NEEDS_FLR_START ?f)\<lparr>dev := upd_gt GT_PRIMARY
        (\<lambda>t. t\<lparr>guc_log := control_log GT_PRIMARY v GUC_PF_TRIGGER_VF_FLR_START s\<rparr>) (dev s)\<rparr>)"
    by (simp add: s1 f)
  have bits1: "test_bit GT_PRIMARY v IOV_VF_FLR_IN_PROGRESS s1"
      "\<not> test_bit GT_PRIMARY v IOV_VF_NEEDS_FLR_START s1"
      "\<not> test_bit GT_PRIMARY v IOV_VF_FLR_DONE_RECEIVED s1"
      "\<not> test_bit GT_PRIMARY v IOV_VF_NEEDS_FLR_FINISH s1"
      "\<not> test_bit GT_PRIMARY v IOV_VF_NEEDS_FLR_DONE_SYNC s1"
    using assms(1,2) bits by (simp_all add: s1')
  have media: "\<not> has_media_gt (dev s1)" "data_ready s1" using assms(1,2) by (simp_all add: s1')
  have "pf_process_vf E GT_PRIMARY v s1 = (False, clear_bit GT_PRIMARY v IOV_VF_FLR_IN_PROGRESS s1)"
    using bits1 media by (simp add: process_simps for_each_gt_def)
  with bits1 media show ?thesis
    unfolding s2 by (simp add: intel_iov_state_no_flr_def) (simp add: s1' control_log_def)
qed

text \<open>The media GT failed to start the reset that the primary GT is running.\<close>

definition flr_stuck :: "nat \<Rightarrow> flr_config \<Rightarrow> bool" where
  "flr_stuck v c \<longleftrightarrow> (case c of (s, G, M) \<Rightarrow>
     flr_base v s \<and> M = WHOLE \<and> G GT_MEDIA = GUC_IDLE \<and>
     \<not> test_bit GT_MEDIA v IOV_VF_NEEDS_FLR_START s \<and>
     test_bit GT_MEDIA v IOV_VF_NEEDS_FLR_DONE_SYNC s \<and>
     \<not> test_bit GT_MEDIA v IOV_VF_FLR_DONE_RECEIVED s \<and>
     test_bit GT_PRIMARY v IOV_VF_FLR_IN_PROGRESS s \<and>
     \<not> test_bit GT_PRIMARY v IOV_VF_NEEDS_FLR_START s \<and>
     test_bit GT_PRIMARY v IOV_VF_NEEDS_FLR_DONE_SYNC s)"

lemma flr_stuck_process: "flr_stuck v (s, G, M) \<Longrightarrow> pf_process_vf E g v s = (True, s)"
  using bex_gts [of "dev s" "\<lambda>h. \<not> test_bit h v IOV_VF_FLR_DONE_RECEIVED s" GT_MEDIA]
  by (cases g) (simp_all add: flr_stuck_def flr_base_def process_simps)

lemma flr_stuck_frame: "flr_stuck v (s, G, M) \<Longrightarrow> flr_frame s s' \<Longrightarrow> flr_stuck v (s', G, M)"
  by (auto simp: flr_stuck_def flr_frame_def flr_bits_def flr_base_def)

lemma flr_stuckD: "flr_stuck v (s, G, M) \<Longrightarrow> flr_base v s" "flr_stuck v (s, G, M) \<Longrightarrow> data_ready s"
  by (simp_all add: flr_stuck_def flr_base_def)

lemma flr_stuck_busy: "flr_stuck v (s, G, M) \<Longrightarrow> \<not> flr_clear v s"
  by (auto simp: flr_stuck_def flr_clear_def flr_bits_def)

lemma reinit_other_gt:
  assumes "data_ready s" "h \<noteq> g"
  shows "test_bit h v b (intel_iov_state_reset g s) = test_bit h v b s"
proof -
  have "test_bit h v b (fold (pf_reset_vf_state g) ns s) = test_bit h v b s" if "data_ready s" for ns
    using that assms(2)
    by (induction ns arbitrary: s) (simp_all add: pf_reset_vf_state_def test_bit_def vf_data_upd)
  with assms(1) show ?thesis by (simp add: intel_iov_state_reset_def del: upt_Suc)
qed

lemma flr_stuck_reinit: "flr_stuck v (s, G, M) \<Longrightarrow> \<not> flr_clear v (intel_iov_state_reset g s)"
  using reinit_other_gt [of s "other_gt g" g v IOV_VF_NEEDS_FLR_DONE_SYNC]
  by (cases g) (auto simp: flr_stuck_def flr_base_def flr_clear_def flr_bits_def)

text \<open>A step that does not break the reset that is followed.\<close>

definition flr_keep :: "iov_env \<Rightarrow> nat \<Rightarrow> flr_config \<Rightarrow> flr_config \<Rightarrow> bool" where
  "flr_keep E v c c' \<longleftrightarrow> flr_step E v c c' \<and> config_mark c' \<noteq> BROKEN"

lemma flr_stuck_step:
  assumes "flr_step E v c c'" "config_mark c' \<noteq> BROKEN" "flr_stuck v c"
  shows "flr_stuck v c'"
  using assms
proof (induction rule: flr_step.induct)
  case (flr_notify E v s G M g n)
  show ?case
  proof (cases "n = v \<or> g \<noteq> GT_PRIMARY")
    case True
    then have "pf_handle_vf_flr g n s = s" using flr_notify by (auto simp: pf_handle_vf_flr_def flr_stuck_def)
    with flr_notify show ?thesis by simp
  next
    case False
    then have "test_bit h v b (pf_handle_vf_flr g n s) = test_bit h v b s" for h b
      using flr_notify by (auto simp: pf_handle_vf_flr_def for_each_gt_def flr_stuck_def flr_base_def)
    with flr_notify handle_flr_base [OF flr_stuckD(1) [OF flr_notify(2)], of g n]
    show ?thesis by (simp add: flr_stuck_def)
  qed
next
  case (flr_notify_root n s E v G M)
  then have "n \<noteq> v" by (auto simp: flr_stuck_def)
  with flr_notify_root show ?case by (auto simp: flr_stuck_def flr_base_def)
next
  case (flr_begin E v s G M g n)
  then have "n \<noteq> v"
    using flr_stuck_busy [OF flr_begin(2)] by (cases g) (auto simp: flr_stuck_def split: if_splits)
  with flr_begin show ?case by (auto simp: flr_stuck_def flr_base_def intel_iov_state_start_flr_def)
next
  case (gt_reinit s' g s G' G E v M)
  then show ?case using flr_stuck_reinit [OF gt_reinit(4)] by (simp add: mark_reinit_def)
next
  case (flr_done n v G g E s M)
  then have "n = v \<Longrightarrow> g \<noteq> GT_MEDIA" by (auto simp: flr_stuck_def)
  with flr_done show ?case by (auto simp: flr_stuck_def flr_base_def)
next
  case (pause_done E v s G M g n)
  then show ?case using flr_stuck_frame [OF _ flr_frames(1)] flr_stuckD(2) by blast
next
  case (process n s E g again s' v G M)
  show ?case
  proof (cases "n = v")
    case True
    then have "s' = s" using process flr_stuck_process by fastforce
    with process show ?thesis by (simp add: guc_flr_next_def fun_upd_idem)
  next
    case False
    have s': "s' = snd (pf_process_vf E g n s)" using process by simp
    have st: "flr_stuck v (s, G, M)" by (rule process)
    have "test_bit h v b s' = test_bit h v b s" for h b
      using False process_bits_frame(1) [OF flr_stuckD(2) [OF st]] s' by simp
    moreover have "guc_flr_next E g v (dev s) (dev s') (G g) = G g"
      using process_guc_other [OF False process(1)] st s' by (simp add: flr_stuck_def flr_base_def)
    ultimately show ?thesis
      using st process_base [OF flr_stuckD(1) [OF st], of E g n] by (simp add: flr_stuck_def s')
  qed
next
  case (pause E g n s r s' v G M)
  then show ?case using flr_stuck_frame [OF _ flr_frames(2)] flr_stuckD(2) by blast
next
  case (resume E g n s r s' v G M)
  then show ?case using flr_stuck_frame [OF _ flr_frames(3)] flr_stuckD(2) by blast
next
  case (stop E g n s r s' v G M)
  then show ?case using flr_stuck_frame [OF _ flr_frames(4)] flr_stuckD(2) by blast
qed

lemma flr_stuck_reach: "(flr_keep E v)\<^sup>*\<^sup>* c c' \<Longrightarrow> flr_stuck v c \<Longrightarrow> flr_stuck v c'"
  by (induction rule: rtranclp_induct) (auto intro: flr_stuck_step simp: flr_keep_def)

text \<open>
  When the GuC of the media GT refuses to start a reset that the primary GT has
  started already, the reset never ends: after any further interleaving of handlers, workers and
  user requests that neither starts it over nor initialises a GT anew, and whatever the GuCs
  answer, the reset of the VF is still in progress on the primary GT, and its worker processes the
  VF to no effect and asks to be run again.
\<close>

theorem flr_failed_start_stuck:
  assumes "at_phases v ph (s, G, M)" "ph GT_PRIMARY = FLR_RUNNING" "ph GT_MEDIA = FLR_PENDING"
    and "env_guc E GT_MEDIA (control_log GT_MEDIA v GUC_PF_TRIGGER_VF_FLR_START s) = Inl e" "e \<noteq> EBUSY"
    and "pf_process_vf E GT_MEDIA v s = (again, s1)" "(flr_keep E v)\<^sup>*\<^sup>* (s1, G, M) (s2, G2, M2)"
  shows "\<not> intel_iov_state_no_flr GT_PRIMARY v s2 \<and> pf_process_vf E GT_PRIMARY v s2 = (True, s2)"
proof -
  note I = at_phasesD [OF assms(1)]
  note bits = in_phaseD [OF I(5) [of GT_PRIMARY]] in_phaseD [OF I(5) [of GT_MEDIA]]
  have s1: "s1 = snd (pf_process_vf E GT_MEDIA v s)" using assms(6) by simp
  have "M = WHOLE" using I(4,7) assms(2,3) by (cases M) (auto simp: phases_ok_def)
  then have "flr_stuck v (s1, G, M)"
    using bits assms(2-5) I(1-3) I(6) [of GT_MEDIA]
    unfolding s1 by (simp add: flr_stuck_def flr_base_def process_simps)
  with assms(7) have "flr_stuck v (s2, G2, M2)" by (rule flr_stuck_reach)
  then show ?thesis
    using flr_stuck_process by (simp add: flr_stuck_def intel_iov_state_no_flr_def)
qed

text \<open>A reset that was started over while it ran: the flags of the VF and the states of its GuCs.\<close>

definition flr_stale ::
    "nat \<Rightarrow> (intel_gt_type \<Rightarrow> iov_vf_flag list) \<Rightarrow> (intel_gt_type \<Rightarrow> guc_flr) \<Rightarrow> flr_config \<Rightarrow> bool" where
  "flr_stale v B G c \<longleftrightarrow> (case c of (s, G', M) \<Rightarrow>
     flr_base v s \<and> M = BROKEN \<and> G' = G \<and>
     (\<forall>g. \<forall>b \<in> set flr_bits. test_bit g v b s = (b \<in> set (B g))))"

lemma flr_staleD:
  assumes "flr_stale v B G (s, G', M)"
  shows "data_ready s" "has_media_gt (dev s)" "v \<le> pf_get_totalvfs (dev s)" "G' = G" "M = BROKEN"
    "test_bit g v IOV_VF_FLR_IN_PROGRESS s = (IOV_VF_FLR_IN_PROGRESS \<in> set (B g))"
    "test_bit g v IOV_VF_NEEDS_FLR_START s = (IOV_VF_NEEDS_FLR_START \<in> set (B g))"
    "test_bit g v IOV_VF_FLR_DONE_RECEIVED s = (IOV_VF_FLR_DONE_RECEIVED \<in> set (B g))"
    "test_bit g v IOV_VF_NEEDS_FLR_FINISH s = (IOV_VF_NEEDS_FLR_FINISH \<in> set (B g))"
    "test_bit g v IOV_VF_NEEDS_FLR_DONE_SYNC s = (IOV_VF_NEEDS_FLR_DONE_SYNC \<in> set (B g))"
  using assms by (simp_all add: flr_stale_def flr_base_def flr_bits_def)

lemma stale_process:
  assumes "flr_stale v B G (s, G', M)"
    and "\<forall>b \<in> set flr_bits. test_bit g v b (snd (pf_process_vf E g v s)) = (b \<in> set B')"
    and "guc_flr_next E g v (dev s) (dev (snd (pf_process_vf E g v s))) (G g) = x"
  shows "\<exists>c. flr_step E v (s, G', M) c \<and> flr_stale v (B(g := B')) (G(g := x)) c"
proof -
  obtain again s' where p: "pf_process_vf E g v s = (again, s')" by force
  note D = flr_staleD [OF assms(1)]
  have base: "flr_base v s'" using process_base [of v s E g v] D p by (simp add: flr_base_def)
  have other: "test_bit h v b s' = test_bit h v b s" if "h \<noteq> g" for h b
    using process_bits_frame(1) [OF D(1), of h g v v b E] that p by simp
  have "\<forall>b \<in> set flr_bits. test_bit h v b s' = (b \<in> set ((B(g := B')) h))" for h
    using assms(1,2) other p by (cases "h = g") (simp_all add: flr_stale_def del: set_simps)
  then have "flr_stale v (B(g := B')) (G(g := x)) (s', G'(g := guc_flr_next E g v (dev s) (dev s') (G' g)), M)"
    using base D(4,5) assms(3) p by (simp add: flr_stale_def)
  then show ?thesis using process [OF D(3) p] by blast
qed

abbreviation stale_bits :: "nat \<Rightarrow> iov_vf_flag list" where
  "stale_bits k \<equiv> drop k [IOV_VF_NEEDS_FLR_START, IOV_VF_NEEDS_FLR_DONE_SYNC,
     IOV_VF_FLR_DONE_RECEIVED, IOV_VF_FLR_IN_PROGRESS]"

lemma stale_start:
  assumes "guc_accepts E" "flr_stale v B G c" "B g = stale_bits 0"
  shows "\<exists>c'. flr_step E v c c' \<and> flr_stale v (B(g := stale_bits 1)) (G(g := GUC_RUNNING)) c'"
proof -
  obtain s G' M where c: "c = (s, G', M)" by (metis surj_pair)
  note D = flr_staleD [OF assms(2) [unfolded c]]
  have acc: "env_guc E g h = Inr 0" for h using assms(1) by (simp add: guc_accepts_def)
  have cmd: "process_cmd g v s = Some GUC_PF_TRIGGER_VF_FLR_START" using D(7) assms(3) by (simp add: process_cmd_def)
  show ?thesis unfolding c
    by (rule stale_process [OF assms(2) [unfolded c]])
      (use D(1) D(6-10) [of g] assms(3) acc cmd in
        \<open>simp_all add: process_simps flr_bits_def guc_flr_next_def process_log control_log_def Let_def\<close>)
qed

lemma stale_sync:
  assumes "flr_stale v B G c" "B g = stale_bits 1" "B (other_gt g) = stale_bits k" "k \<in> {1, 2}"
  shows "\<exists>c'. flr_step E v c c' \<and> flr_stale v (B(g := stale_bits 2)) G c'"
proof -
  obtain s G' M where c: "c = (s, G', M)" by (metis surj_pair)
  note D = flr_staleD [OF assms(1) [unfolded c]]
  have recv: "test_bit h v IOV_VF_FLR_DONE_RECEIVED s" for h
    using D(8) [of h] assms(2-4) by (cases "h = g"; cases g; cases h) auto
  have cmd: "process_cmd g v s = None" using D(7,10) assms(2) by (simp add: process_cmd_def)
  have "\<exists>c'. flr_step E v c c' \<and> flr_stale v (B(g := stale_bits 2)) (G(g := G g)) c'"
    unfolding c
    by (rule stale_process [OF assms(1) [unfolded c]])
      (use D(1) D(6-10) [of g] assms(2) recv cmd in
        \<open>simp_all add: process_simps flr_bits_def guc_flr_next_def process_log\<close>)
  then show ?thesis by simp
qed

lemma stale_finish:
  assumes "flr_stale v (\<lambda>_. stale_bits 2) G c"
  shows "\<exists>c'. flr_step E v c c' \<and>
    flr_stale v ((\<lambda>_. stale_bits 2)(g := [IOV_VF_NEEDS_FLR_FINISH, IOV_VF_FLR_IN_PROGRESS])) G c'"
proof -
  obtain s G' M where c: "c = (s, G', M)" by (metis surj_pair)
  note D = flr_staleD [OF assms [unfolded c]]
  have cmd: "process_cmd g v s = None" using D(7,8) by (simp add: process_cmd_def)
  have "\<exists>c'. flr_step E v c c' \<and>
      flr_stale v ((\<lambda>_. stale_bits 2)(g := [IOV_VF_NEEDS_FLR_FINISH, IOV_VF_FLR_IN_PROGRESS])) (G(g := G g)) c'"
    unfolding c
    by (rule stale_process [OF assms [unfolded c]])
      (use D(1,6-10) cmd in \<open>simp_all add: process_simps flr_bits_def guc_flr_next_def process_log\<close>)
  then show ?thesis by simp
qed

lemma stale_begin:
  assumes "at_phases v (\<lambda>_. FLR_DONE) c"
  shows "\<exists>c'. flr_reach E v c c' \<and> flr_stale v (\<lambda>_. stale_bits 0) (\<lambda>_. GUC_DONE) c'"
proof -
  obtain s G M where c: "c = (s, G, M)" by (metis surj_pair)
  note I = at_phasesD [OF assms [unfolded c]]
  let ?s = "intel_iov_state_start_flr GT_MEDIA v (intel_iov_state_start_flr GT_PRIMARY v s)"
  have M: "M = WHOLE" using I(4,7) by (cases M) (auto simp: phases_ok_def)
  have busy: "\<not> flr_clear v s" using in_phaseD(1) [OF I(5) [of GT_PRIMARY]] by (auto simp: flr_clear_def flr_bits_def)
  have G: "G = (\<lambda>_. GUC_DONE)" using I(6) by auto
  have "flr_step E v c (intel_iov_state_start_flr GT_PRIMARY v s, G, BROKEN)"
    using flr_begin [of E v s G M GT_PRIMARY v] busy by (simp add: c)
  moreover have "flr_step E v (intel_iov_state_start_flr GT_PRIMARY v s, G, BROKEN) (?s, G, BROKEN)"
    using flr_begin [of E v _ G BROKEN GT_MEDIA v] by simp
  ultimately have "flr_reach E v c (?s, G, BROKEN)"
    by (rule flr_reach.step [OF flr_reach.step [OF flr_reach.start]])
  moreover have "\<forall>b \<in> set flr_bits. test_bit h v b ?s = (b \<in> set (stale_bits 0))" for h
    using I(1,2) in_phaseD [OF I(5) [of h]]
    by (cases h) (simp_all add: intel_iov_state_start_flr_def flr_bits_def)
  moreover have "flr_base v ?s" using I(1-3) by (simp add: flr_base_def intel_iov_state_start_flr_def)
  ultimately show ?thesis using G unfolding flr_stale_def by (intro exI [of _ "(?s, G, BROKEN)"]) simp
qed

text \<open>
  Starting a reset over breaks the barrier. \<open>pf_start_vfs_flr\<close> does not look whether a reset is
  running: when both GuCs have reported the end of a reset that the workers have not processed yet
  and VFs are disabled, the new starts leave the old \<open>FLR_DONE_RECEIVED\<close> flags set, both GTs pass
  the barrier with them, and the primary GT sends the command that finishes the reset while the
  GuCs of both GTs are running the second one.
\<close>

theorem flr_restart_breaks_barrier:
  assumes "guc_accepts E" "at_phases v (\<lambda>_. FLR_DONE) c"
  shows "\<exists>s. flr_reach E v c (s, \<lambda>_. GUC_RUNNING, BROKEN) \<and>
    process_cmd GT_PRIMARY v s = Some GUC_PF_TRIGGER_VF_FLR_FINISH"
proof -
  let ?B = "\<lambda>k l. (\<lambda>_. stale_bits 0)(GT_PRIMARY := stale_bits k, GT_MEDIA := stale_bits l)"
  have two: "(\<lambda>_. x)(GT_PRIMARY := y, GT_MEDIA := y) = (\<lambda>_. y)" for x y :: guc_flr
    by (rule ext) (metis fun_upd_apply intel_gt_type.exhaust)
  obtain c0 where c0: "flr_reach E v c c0" "flr_stale v (\<lambda>_. stale_bits 0) (\<lambda>_. GUC_DONE) c0"
    using stale_begin [OF assms(2)] by blast
  obtain c1 where c1: "flr_step E v c0 c1"
      "flr_stale v ((\<lambda>_. stale_bits 0)(GT_PRIMARY := stale_bits 1)) ((\<lambda>_. GUC_DONE)(GT_PRIMARY := GUC_RUNNING)) c1"
    using stale_start [OF assms(1) c0(2) refl] by blast
  obtain c2 where c2: "flr_step E v c1 c2" "flr_stale v (?B 1 1) (\<lambda>_. GUC_RUNNING) c2"
    using stale_start [OF assms(1) c1(2), of GT_MEDIA] two [of GUC_DONE GUC_RUNNING] by auto
  obtain c3 where c3: "flr_step E v c2 c3" "flr_stale v ((?B 1 1)(GT_PRIMARY := stale_bits 2)) (\<lambda>_. GUC_RUNNING) c3"
    using stale_sync [OF c2(2), of GT_PRIMARY 1 E] by auto
  obtain c4 where c4: "flr_step E v c3 c4"
      "flr_stale v ((?B 1 1)(GT_PRIMARY := stale_bits 2, GT_MEDIA := stale_bits 2)) (\<lambda>_. GUC_RUNNING) c4"
    using stale_sync [OF c3(2), of GT_MEDIA 2 E] by auto
  have "(?B 1 1)(GT_PRIMARY := stale_bits 2, GT_MEDIA := stale_bits 2) = (\<lambda>_. stale_bits 2)"
    by (rule ext) (metis fun_upd_apply intel_gt_type.exhaust)
  then obtain c5 where c5: "flr_step E v c4 c5"
      "flr_stale v ((\<lambda>_. stale_bits 2)(GT_PRIMARY := [IOV_VF_NEEDS_FLR_FINISH, IOV_VF_FLR_IN_PROGRESS]))
         (\<lambda>_. GUC_RUNNING) c5"
    using stale_finish [of v "\<lambda>_. GUC_RUNNING" c4 E GT_PRIMARY] c4(2) by auto
  have reach: "flr_reach E v c c5"
    by (rule step [OF step [OF step [OF step [OF step [OF c0(1) c1(1)] c2(1)] c3(1)] c4(1)] c5(1)])
  obtain s G M where s: "c5 = (s, G, M)" by (metis surj_pair)
  note D = flr_staleD [OF c5(2) [unfolded s]]
  have "process_cmd GT_PRIMARY v s = Some GUC_PF_TRIGGER_VF_FLR_FINISH"
    using D(7-10) [of GT_PRIMARY] by (simp add: process_cmd_def)
  with reach D(4,5) s show ?thesis by blast
qed

section \<open>Concrete runs\<close>

text \<open>A GuC that accepts everything, and a device with two GTs and one VF in given phases.\<close>

definition ack_env :: iov_env where
  "ack_env = quiet_env\<lparr>env_guc := (\<lambda>_ _. Inr 0)\<rparr>"

definition flr_state :: "(intel_gt_type \<Rightarrow> flr_phase) \<Rightarrow> pf_state" where
  "flr_state ph = \<lparr>dev = fresh_state\<lparr>driver_vfs := 1, has_media_gt := True\<rparr>,
     vf_states = (\<lambda>g. Some (\<lambda>_. zero_data\<lparr>flags := (\<lambda>b. b \<in> set (phase_bits (ph g)))\<rparr>)),
     state_worker = (\<lambda>_. True)\<rparr>"

definition flr_start :: flr_config where
  "flr_start = (flr_state (\<lambda>_. FLR_IDLE), \<lambda>_. GUC_IDLE, WHOLE)"

lemma ack_accepts [simp]: "guc_accepts ack_env" "guc_cooperates ack_env" "env_guc ack_env g h = Inr 0"
  by (simp_all add: ack_env_def guc_accepts_def guc_cooperates_def)

lemma flr_state_frame [simp]:
  "data_ready (flr_state ph)" "has_media_gt (dev (flr_state ph))"
  "pf_get_totalvfs (dev (flr_state ph)) = 1" "in_phase (ph g) g v (flr_state ph)"
  by (simp_all add: flr_state_def data_ready_def pf_get_totalvfs_def in_phase_def test_bit_def vf_data_def)

lemma flr_start_quiet [simp]: "flr_quiet 1 flr_start"
  using flr_state_frame(4) [of "\<lambda>_. FLR_IDLE"] in_phase_clear
  by (simp add: flr_quiet_def flr_start_def flr_base_def)

text \<open>Runs are built a phase at a time.\<close>

definition flr_notified :: pf_state where
  "flr_notified = pf_handle_vf_flr GT_PRIMARY 1 (flr_state (\<lambda>_. FLR_IDLE))"

lemma flr_notified_total: "pf_get_totalvfs (dev flr_notified) = 1"
  by (simp add: flr_notified_def pf_handle_vf_flr_def for_each_gt_def)

text \<open>The handler is interrupted between the GTs.\<close>

lemma reach_notify:
  "flr_reach ack_env 1 flr_start (flr_notified, \<lambda>_. GUC_IDLE, WHOLE)"
  "at_phases 1 (\<lambda>_. FLR_PENDING) (flr_notified, \<lambda>_. GUC_IDLE, WHOLE)"
proof -
  let ?s = "flr_state (\<lambda>_. FLR_IDLE)"
  let ?half = "pf_init_vf_flr GT_PRIMARY 1 (upd_data GT_PRIMARY 1 (\<lambda>d. d\<lparr>paused := False\<rparr>) ?s)"
  note idle = in_phaseD [OF flr_state_frame(4) [of "\<lambda>_. FLR_IDLE"]]
  have clear: "flr_clear 1 ?s" using flr_state_frame(4) [of "\<lambda>_. FLR_IDLE"] in_phase_clear by blast
  have new: "flr_notified = intel_iov_state_start_flr GT_MEDIA 1 ?half"
    unfolding flr_notified_def by (rule notify_halves) (use idle in simp_all)
  have "flr_step ack_env 1 flr_start (?half, \<lambda>_. GUC_IDLE, HALF)"
    using flr_notify_root [of 1 ?s ack_env 1 "\<lambda>_. GUC_IDLE" WHOLE] idle clear by (simp add: flr_start_def)
  moreover have "flr_step ack_env 1 (?half, \<lambda>_. GUC_IDLE, HALF) (flr_notified, \<lambda>_. GUC_IDLE, WHOLE)"
    using flr_begin [of ack_env 1 ?half "\<lambda>_. GUC_IDLE" HALF GT_MEDIA 1] by (simp add: new)
  ultimately show r: "flr_reach ack_env 1 flr_start (flr_notified, \<lambda>_. GUC_IDLE, WHOLE)"
    by (rule flr_reach.step [OF flr_reach.step [OF flr_reach.start]])
  then obtain ph where at: "at_phases 1 ph (flr_notified, \<lambda>_. GUC_IDLE, WHOLE)"
    using flr_reach_inv [OF r flr_start_quiet ack_accepts(2)] unfolding flr_inv_def by auto
  have "test_bit g 1 IOV_VF_NEEDS_FLR_START flr_notified" for g
    using idle by (cases g) (simp_all add: flr_notified_def pf_handle_vf_flr_def for_each_gt_def)
  then have "ph g = FLR_PENDING" for g
    using in_phaseD(2) [OF at_phasesD(5) [OF at], of g] by simp
  then have "ph = (\<lambda>_. FLR_PENDING)" by auto
  with at show "at_phases 1 (\<lambda>_. FLR_PENDING) (flr_notified, \<lambda>_. GUC_IDLE, WHOLE)" by simp
qed

abbreviation flr_reaches :: "(intel_gt_type \<Rightarrow> flr_phase) \<Rightarrow> bool" where
  "flr_reaches ph \<equiv> (\<exists>c. flr_reach ack_env 1 flr_start c \<and> at_phases 1 ph c)"

lemma reach_process:
  assumes "flr_reaches ph"
  shows "flr_reaches (ph(g := next_phase True g (ph g) (ph (other_gt g))))"
proof -
  obtain s G M where c: "flr_reach ack_env 1 flr_start (s, G, M)" "at_phases 1 ph (s, G, M)" using assms by auto
  obtain again s' where p: "pf_process_vf ack_env g 1 s = (again, s')" by force
  then have s': "s' = snd (pf_process_vf ack_env g 1 s)" by simp
  let ?c = "(s', G(g := guc_flr_next ack_env g 1 (dev s) (dev s') (G g)), M)"
  have "flr_step ack_env 1 (s, G, M) ?c" by (rule process [OF at_phasesD(3) [OF c(2)] p])
  then have "flr_reach ack_env 1 flr_start ?c" by (rule step [OF c(1)])
  moreover have "at_phases 1 (ph(g := next_phase (Inr 0 = (Inr 0 :: nat res)) g (ph g) (ph (other_gt g)))) ?c"
    by (rule at_process [OF c(2) s']) simp_all
  ultimately show ?thesis by (metis (full_types))
qed

lemma reach_done:
  assumes "flr_reaches ph" "ph g = FLR_RUNNING"
  shows "flr_reaches (ph(g := FLR_DONE))"
proof -
  obtain s G M where c: "flr_reach ack_env 1 flr_start (s, G, M)" "at_phases 1 ph (s, G, M)" using assms by auto
  have "flr_step ack_env 1 (s, G, M) (pf_handle_vf_flr_done g 1 s, if (1::nat) = 1 then G(g := GUC_DONE) else G, M)"
    by (rule flr_done) (use at_phasesD(6) [OF c(2), of g] assms(2) in simp)
  then have "flr_reach ack_env 1 flr_start (pf_handle_vf_flr_done g 1 s, G(g := GUC_DONE), M)"
    using step [OF c(1)] by simp
  with at_done [OF c(2) assms(2)] show ?thesis by blast
qed

definition flr_pair :: "flr_phase \<Rightarrow> flr_phase \<Rightarrow> bool" where
  "flr_pair p q \<longleftrightarrow> (\<exists>ph. flr_reaches ph \<and> ph GT_PRIMARY = p \<and> ph GT_MEDIA = q)"

lemma flr_pair_steps:
  "flr_pair p q \<Longrightarrow> flr_pair (next_phase True GT_PRIMARY p q) q"
  "flr_pair p q \<Longrightarrow> flr_pair p (next_phase True GT_MEDIA q p)"
  "flr_pair FLR_RUNNING q \<Longrightarrow> flr_pair FLR_DONE q"
  "flr_pair p FLR_RUNNING \<Longrightarrow> flr_pair p FLR_DONE"
proof -
  show "flr_pair (next_phase True GT_PRIMARY p q) q" if "flr_pair p q"
    using that reach_process [of _ GT_PRIMARY] unfolding flr_pair_def by fastforce
  show "flr_pair p (next_phase True GT_MEDIA q p)" if "flr_pair p q"
    using that reach_process [of _ GT_MEDIA] unfolding flr_pair_def by fastforce
  show "flr_pair FLR_DONE q" if "flr_pair FLR_RUNNING q"
    using that reach_done [of _ GT_PRIMARY] unfolding flr_pair_def by fastforce
  show "flr_pair p FLR_DONE" if "flr_pair p FLR_RUNNING"
    using that reach_done [of _ GT_MEDIA] unfolding flr_pair_def by fastforce
qed

text \<open>The primary GT is about to finish, the media GT has passed the barrier.\<close>

lemma reach_both_done: "flr_pair FLR_DONE FLR_DONE"
proof -
  have "flr_pair FLR_PENDING FLR_PENDING" using reach_notify unfolding flr_pair_def by blast
  from flr_pair_steps(1) [OF this] have "flr_pair FLR_RUNNING FLR_PENDING" by simp
  from flr_pair_steps(2) [OF this] have "flr_pair FLR_RUNNING FLR_RUNNING" by simp
  from flr_pair_steps(3) [OF this] have "flr_pair FLR_DONE FLR_RUNNING" .
  from flr_pair_steps(4) [OF this] show ?thesis .
qed

lemma reach_finishing: "flr_pair FLR_FINISHING FLR_SYNCED"
proof -
  from flr_pair_steps(1) [OF reach_both_done] have "flr_pair FLR_SYNCED FLR_DONE" by simp
  from flr_pair_steps(2) [OF this] have "flr_pair FLR_SYNCED FLR_SYNCED" by simp
  from flr_pair_steps(1) [OF this] show ?thesis by simp
qed

theorem flr_barrier_witness:
  "\<exists>s G. flr_reach ack_env 1 flr_start (s, G, WHOLE) \<and>
     process_cmd GT_PRIMARY 1 s = Some GUC_PF_TRIGGER_VF_FLR_FINISH \<and> (\<forall>h. G h \<noteq> GUC_RUNNING)"
proof -
  obtain ph s G M where c: "ph GT_PRIMARY = FLR_FINISHING" "flr_reach ack_env 1 flr_start (s, G, M)"
      "at_phases 1 ph (s, G, M)"
    using reach_finishing unfolding flr_pair_def by (metis surj_pair)
  have cmd: "process_cmd GT_PRIMARY 1 s = Some GUC_PF_TRIGGER_VF_FLR_FINISH"
    using process_cmd_phase [OF at_phasesD(5) [OF c(3), of GT_PRIMARY]] c(1) by simp
  show ?thesis
    using c(2) cmd flr_barrier [OF ack_accepts(2) flr_start_quiet c(2) at_phasesD(7) [OF c(3)] cmd] by blast
qed

theorem flr_restart_breaks_barrier_witness:
  "\<exists>s. flr_reach ack_env 1 flr_start (s, \<lambda>_. GUC_RUNNING, BROKEN) \<and>
     process_cmd GT_PRIMARY 1 s = Some GUC_PF_TRIGGER_VF_FLR_FINISH"
proof -
  obtain ph c where c: "flr_reach ack_env 1 flr_start c" "at_phases 1 ph c"
      "ph GT_PRIMARY = FLR_DONE" "ph GT_MEDIA = FLR_DONE"
    using reach_both_done unfolding flr_pair_def by blast
  then have "ph = (\<lambda>_. FLR_DONE)" by (metis (full_types) intel_gt_type.exhaust)
  with c(2) have at: "at_phases 1 (\<lambda>_. FLR_DONE) c" by simp
  have trans: "flr_reach E v a b \<Longrightarrow> flr_reach E v d a \<Longrightarrow> flr_reach E v d b" for E v a b d
    by (induction rule: flr_reach.induct) (auto intro: flr_reach.step)
  show ?thesis using flr_restart_breaks_barrier [OF ack_accepts(1) at] trans [OF _ c(1)] by blast
qed

text \<open>
  A schedule: the workers of the two GTs take turns, and between them each GuC reports the end of
  its reset if it runs one.
\<close>

definition demo_turn :: "nat \<Rightarrow> flr_config \<Rightarrow> flr_config" where
  "demo_turn i c = (case c of (s, G, M) \<Rightarrow>
     let g = (if even i then GT_PRIMARY else GT_MEDIA); s' = snd (pf_process_vf ack_env g 1 s)
     in if i mod 4 < 2 then (s', G(g := guc_flr_next ack_env g 1 (dev s) (dev s') (G g)), M)
        else if G g = GUC_RUNNING then (pf_handle_vf_flr_done g 1 s, G(g := GUC_DONE), M)
        else (pf_handle_vf_pause_done g 0 s, G, M))"

primrec demo_run :: "nat \<Rightarrow> flr_config" where
  "demo_run 0 = (flr_notified, \<lambda>_. GUC_IDLE, WHOLE)"
| "demo_run (Suc i) = demo_turn i (demo_run i)"

lemma demo_turn_step: "1 \<le> pf_get_totalvfs (dev (fst c)) \<Longrightarrow> flr_step ack_env 1 c (demo_turn i c)"
proof -
  assume total: "1 \<le> pf_get_totalvfs (dev (fst c))"
  obtain s G M where c: "c = (s, G, M)" by (metis surj_pair)
  let ?g = "if even i then GT_PRIMARY else GT_MEDIA"
  obtain again s' where p: "pf_process_vf ack_env ?g 1 s = (again, s')" by force
  consider "i mod 4 < 2" | "\<not> i mod 4 < 2" "G ?g = GUC_RUNNING" | "\<not> i mod 4 < 2" "G ?g \<noteq> GUC_RUNNING" by blast
  then show ?thesis
  proof cases
    case 1
    have "flr_step ack_env 1 (s, G, M) (s', G(?g := guc_flr_next ack_env ?g 1 (dev s) (dev s') (G ?g)), M)"
      by (rule process [OF _ p]) (use total c in simp)
    with 1 p show ?thesis by (simp add: demo_turn_def c Let_def del: fun_upd_apply)
  next
    case 2
    have "flr_step ack_env 1 (s, G, M) (pf_handle_vf_flr_done ?g 1 s, if (1::nat) = 1 then G(?g := GUC_DONE) else G, M)"
      by (rule flr_done) (use 2(2) in simp)
    with 2 show ?thesis by (simp add: demo_turn_def c Let_def del: fun_upd_apply split del: if_split)
  next
    case 3
    have "flr_step ack_env 1 (s, G, M) (pf_handle_vf_pause_done ?g 0 s, G, M)" by (rule pause_done)
    with 3 show ?thesis by (simp add: demo_turn_def c Let_def del: fun_upd_apply split del: if_split)
  qed
qed

lemma demo_turn_mark: "config_mark (demo_turn i c) = config_mark c"
  by (simp add: demo_turn_def Let_def split: prod.split)

lemma demo_run_base: "flr_base 1 (fst (demo_run i)) \<and> config_mark (demo_run i) = WHOLE"
proof (induction i)
  case 0
  show ?case using at_phases_base [OF reach_notify(2)] by simp
next
  case (Suc i)
  then have "flr_step ack_env 1 (demo_run i) (demo_turn i (demo_run i))"
    by (intro demo_turn_step) (simp add: flr_base_def)
  with Suc show ?case by (simp add: flr_step_base demo_turn_mark)
qed

lemma demo_turn_report:
  "2 \<le> i mod 4 \<Longrightarrow> fst (snd (demo_turn i c)) (if even i then GT_PRIMARY else GT_MEDIA) \<noteq> GUC_RUNNING"
  by (auto simp: demo_turn_def Let_def split: prod.split)

lemma demo_turn_process:
  "i mod 4 < 2 \<Longrightarrow> flr_processed ack_env 1 (if even i then GT_PRIMARY else GT_MEDIA) c (demo_turn i c)"
  by (simp add: demo_turn_def flr_processed_def Let_def split: prod.split)

lemma demo_run_fair: "flr_fair_run ack_env 1 demo_run"
proof -
  have turn: "\<exists>j \<ge> i. j mod 4 = k" if "k < 4" for i k :: nat
    by (rule exI [of _ "4 * i + k"]) (use that in simp)
  have parity: "j mod 4 = 0 \<or> j mod 4 = 2 \<Longrightarrow> even j" "j mod 4 = 1 \<or> j mod 4 = 3 \<Longrightarrow> odd j" for j :: nat
    by presburger+
  have "\<exists>j \<ge> i. flr_processed ack_env 1 g (demo_run j) (demo_run (Suc j))" for g i
  proof -
    obtain j where j: "i \<le> j" "j mod 4 = (if g = GT_PRIMARY then 0 else 1)"
      using turn [of 0 i] turn [of 1 i] by (cases g) auto
    from j(2) have "even j = (g = GT_PRIMARY)" using parity [of j] by (cases g) auto
    then show ?thesis using demo_turn_process [of j "demo_run j"] j
      by (cases g) (auto intro!: exI [of _ j])
  qed
  moreover have "\<exists>j \<ge> i. fst (snd (demo_run j)) g \<noteq> GUC_RUNNING" for g i
  proof -
    obtain j where j: "i \<le> j" "j mod 4 = (if g = GT_PRIMARY then 2 else 3)"
      using turn [of 2 i] turn [of 3 i] by (cases g) auto
    from j(2) have "even j = (g = GT_PRIMARY)" using parity [of j] by (cases g) auto
    then show ?thesis using demo_turn_report [of j "demo_run j"] j
      by (cases g) (auto intro!: exI [of _ "Suc j"])
  qed
  moreover have "flr_step ack_env 1 (demo_run i) (demo_run (Suc i))" for i
    using demo_turn_step [of "demo_run i" i] demo_run_base [of i] by (simp add: flr_base_def)
  ultimately show ?thesis using demo_run_base by (auto simp: flr_fair_run_def)
qed

theorem flr_completes_witness:
  "\<exists>\<sigma> j. flr_fair_run ack_env 1 \<sigma> \<and> \<sigma> 0 = (flr_notified, \<lambda>_. GUC_IDLE, WHOLE) \<and>
     test_bit GT_MEDIA 1 IOV_VF_FLR_IN_PROGRESS (fst (\<sigma> 0)) \<and>
     flr_clear 1 (fst (\<sigma> j)) \<and> (\<forall>g. fst (snd (\<sigma> j)) g = GUC_IDLE)"
proof -
  have "flr_reach ack_env 1 flr_start (demo_run 0)" using reach_notify(1) by simp
  from flr_completes [OF ack_accepts(1) flr_start_quiet this demo_run_fair, of 0]
  obtain j where "flr_clear 1 (fst (demo_run j)) \<and> (\<forall>g. fst (snd (demo_run j)) g = GUC_IDLE)" by blast
  moreover have "test_bit GT_MEDIA 1 IOV_VF_FLR_IN_PROGRESS (fst (demo_run 0))"
    using in_phaseD(1) [OF at_phasesD(5) [OF reach_notify(2), of GT_MEDIA]] by simp
  ultimately show ?thesis using demo_run_fair by (intro exI [of _ demo_run] exI [of _ j]) simp
qed

theorem flr_worker_requeued_witness:
  "test_bit GT_PRIMARY 1 IOV_VF_FLR_IN_PROGRESS (pf_state_worker_func ack_env GT_PRIMARY flr_notified) \<and>
   state_worker (pf_state_worker_func ack_env GT_PRIMARY flr_notified) GT_PRIMARY"
proof -
  let ?w = "flr_notified\<lparr>state_worker := (state_worker flr_notified)(GT_PRIMARY := False)\<rparr>"
  note I = at_phasesD [OF reach_notify(2)]
  have bit: "test_bit GT_PRIMARY 1 IOV_VF_NEEDS_FLR_START ?w" "data_ready ?w"
      "test_bit GT_PRIMARY 1 IOV_VF_FLR_IN_PROGRESS ?w"
    using in_phaseD [OF I(5) [of GT_PRIMARY]] I(1) by simp_all
  obtain m s1 where p: "pf_process_vf ack_env GT_PRIMARY 1 ?w = (m, s1)" by force
  have "test_bit GT_PRIMARY 1 IOV_VF_FLR_IN_PROGRESS (snd (pf_process_vf ack_env GT_PRIMARY 1 ?w))"
    using bit by (simp add: process_simps)
  then have "test_bit GT_PRIMARY 1 IOV_VF_FLR_IN_PROGRESS s1" using p by simp
  then have flag: "test_bit GT_PRIMARY 1 IOV_VF_FLR_IN_PROGRESS
      (pf_state_worker_func ack_env GT_PRIMARY flr_notified)"
    using p flr_notified_total
    by (simp add: pf_state_worker_func_def pf_process_all_vfs_def pf_queue_worker_def)
  have "state_worker (pf_state_worker_func ack_env GT_PRIMARY flr_notified) GT_PRIMARY"
    using flr_worker_requeued [OF I(1) order_refl I(3) _ flag] ack_accepts(2) by (simp add: flr_bits_def)
  with flag show ?thesis ..
qed

text \<open>One GT.\<close>

definition flr_single :: pf_state where
  "flr_single = (flr_state (\<lambda>_. FLR_IDLE))\<lparr>dev := fresh_state\<rparr>"

theorem flr_done_not_awaited_witness:
  "intel_iov_state_no_flr GT_PRIMARY 1 (snd (pf_process_vf ack_env GT_PRIMARY 1
     (snd (pf_process_vf ack_env GT_PRIMARY 1 (pf_handle_vf_flr GT_PRIMARY 1 flr_single)))))"
proof -
  have "data_ready flr_single" "\<not> has_media_gt (dev flr_single)"
      "\<forall>b \<in> set flr_bits. \<not> test_bit GT_PRIMARY 1 b flr_single"
    using flr_state_frame(4) [of "\<lambda>_. FLR_IDLE" GT_PRIMARY 1]
    by (simp_all add: flr_single_def fresh_state_def in_phase_def)
  from flr_done_not_awaited [OF this ack_accepts(3) refl refl] show ?thesis by blast
qed

text \<open>The GuC of the media GT refuses.\<close>

definition refuse_env :: iov_env where
  "refuse_env = quiet_env\<lparr>env_guc := (\<lambda>g _. if g = GT_MEDIA then Inl EIO else Inr 0)\<rparr>"

theorem flr_failed_start_stuck_witness:
  "\<exists>s1. pf_process_vf refuse_env GT_MEDIA 1 (flr_state ((\<lambda>_. FLR_RUNNING)(GT_MEDIA := FLR_PENDING))) = (False, s1) \<and>
     \<not> intel_iov_state_no_flr GT_PRIMARY 1 s1 \<and> pf_process_vf refuse_env GT_PRIMARY 1 s1 = (True, s1)"
proof -
  let ?ph = "(\<lambda>_. FLR_RUNNING)(GT_MEDIA := FLR_PENDING)"
  let ?s = "flr_state ?ph"
  let ?G = "\<lambda>g. phase_guc (?ph g)"
  have at: "at_phases 1 ?ph (?s, ?G, WHOLE)"
  proof (rule at_phasesI)
    show "phases_ok (WHOLE = HALF) (?ph GT_PRIMARY) (?ph GT_MEDIA)" by (simp add: phases_ok_def before_sync_def)
  qed (rule flr_state_frame refl | simp add: flr_base_def)+
  have r: "env_guc refuse_env GT_MEDIA h = Inl EIO" for h by (simp add: refuse_env_def)
  obtain s1 where p: "pf_process_vf refuse_env GT_MEDIA 1 ?s = (False, s1)"
    using in_phaseD [OF at_phasesD(5) [OF at, of GT_MEDIA]] r by (simp add: process_simps)
  from flr_failed_start_stuck [OF at _ _ r _ p rtranclp.rtrancl_refl] p show ?thesis by simp
qed

end
