(* ===== verification/Iov_Service_Props.thy ===== *)
theory Iov_Service_Props
  imports Iov_Service
begin

text \<open>
  What the services of the PF promise: a VF reads the values of the shared registers and of no
  others, and the updates of the GGTT that it relays land where it asked, with the two exceptions
  that the code has.
\<close>

section \<open>Looking up a register\<close>

lemma i915_reg_cmp_zero: "i915_reg_cmp a b = 0 \<longleftrightarrow> a = b"
  by (simp only: i915_reg_cmp_def signed_eq_0_iff right_minus_eq)

lemma i915_reg_cmp_small:
  assumes "a < 0x80000000" "b < 0x80000000"
  shows "i915_reg_cmp a b = uint a - uint b"
proof -
  have "uint a < 0x80000000" "uint b < 0x80000000" using assms by (simp_all add: word_less_def)
  moreover have small: "sint w = uint w" if "uint w < 0x80000000" for w :: u32
    unfolding sint_uint using that uint_ge_0 [of w] order.trans [OF _ uint_ge_0 [of w]]
    by (intro signed_take_bit_int_eq_self) simp_all
  ultimately have "sint a = uint a" "sint b = uint b" by blast+
  then have c: "sint (a - b) = signed_take_bit 31 (uint a - uint b)"
    by (simp add: sint_word_ariths)
  have p: "(2 :: int) ^ 31 = 2147483648" by simp
  have "signed_take_bit 31 (uint a - uint b) = uint a - uint b"
    using \<open>uint a < 0x80000000\<close> \<open>uint b < 0x80000000\<close> uint_ge_0 [of a] uint_ge_0 [of b]
    by (intro signed_take_bit_int_eq_self; unfold p; linarith)
  with c show ?thesis by (simp add: i915_reg_cmp_def)
qed

lemma bsearch_0: "bsearch regs key base 0 = None"
  by (subst bsearch.simps) simp

lemma bsearch_step:
  "num \<noteq> 0 \<Longrightarrow> bsearch regs key base num =
     (let c = i915_reg_cmp key (regs ! (base + num div 2))
      in if c = 0 then Some (base + num div 2)
         else if 0 < c then bsearch regs key (Suc (base + num div 2)) ((num - 1) div 2)
         else bsearch regs key base (num div 2))"
  by (subst bsearch.simps) (simp add: Let_def)

lemma bsearch_sound: "bsearch regs key base num = Some i \<Longrightarrow> base \<le> i \<and> i < base + num \<and> regs ! i = key"
proof (induction regs key base num rule: bsearch.induct)
  case (1 regs key base num)
  let ?p = "base + num div 2" and ?c = "i915_reg_cmp key (regs ! (base + num div 2))"
  have nz: "num \<noteq> 0" using "1.prems" bsearch_0 by (metis option.distinct(1))
  then have h: "num div 2 < num" "Suc ?p + (num - 1) div 2 \<le> base + num" by linarith+
  consider "?c = 0" | "0 < ?c" | "?c < 0" by linarith
  then show ?case
  proof cases
    case 1
    then show ?thesis using "1.prems" nz h(1) by (auto simp: bsearch_step i915_reg_cmp_zero)
  next
    case 2
    with nz have "bsearch regs key (Suc ?p) ((num - 1) div 2) = Some i"
      using "1.prems" by (simp add: bsearch_step)
    with "1.IH"(1) [OF nz refl refl _ 2] 2 h(2) show ?thesis by simp
  next
    case 3
    with nz have "bsearch regs key base (num div 2) = Some i"
      using "1.prems" by (simp add: bsearch_step)
    with "1.IH"(2) [OF nz refl refl] 3 h(1) show ?thesis by simp
  qed
qed

lemma bsearch_complete:
  "\<lbrakk> sorted_wrt (<) regs; \<forall>r \<in> set regs. r < 0x80000000; base + num \<le> length regs;
     base \<le> i; i < base + num; regs ! i = key \<rbrakk> \<Longrightarrow> bsearch regs key base num = Some i"
proof (induction regs key base num rule: bsearch.induct)
  case (1 regs key base num)
  let ?p = "base + num div 2"
  have n: "num \<noteq> 0" "?p < length regs" "i < length regs" using 1 by auto
  have less: "regs ! j < regs ! k" if "j < k" "k < length regs" for j k
    using 1(3) that by (simp add: sorted_wrt_iff_nth_less)
  have "i915_reg_cmp key (regs ! ?p) = uint key - uint (regs ! ?p)"
    using 1(4,8) n by (intro i915_reg_cmp_small) auto
  then have cmp: "i915_reg_cmp key (regs ! ?p) > 0 \<longleftrightarrow> regs ! ?p < key" by (simp add: word_less_def)
  consider "i = ?p" | "?p < i" | "i < ?p" by linarith
  then show ?case
  proof cases
    case 1
    then show ?thesis using 1 n \<open>regs ! i = key\<close> by (simp add: bsearch_step i915_reg_cmp_zero)
  next
    case 2
    then have l: "regs ! ?p < key" using less n \<open>regs ! i = key\<close> by blast
    moreover have "bsearch regs key (Suc ?p) ((num - 1) div 2) = Some i"
      using 2 l cmp n "1.prems" i915_reg_cmp_zero [of key "regs ! ?p"] by (intro "1.IH"(1)) auto
    ultimately show ?thesis
      using n cmp i915_reg_cmp_zero [of key "regs ! ?p"] by (auto simp: bsearch_step)
  next
    case 3
    then have l: "key < regs ! ?p" using less n \<open>regs ! i = key\<close> by blast
    moreover have "bsearch regs key base (num div 2) = Some i"
      using 3 l cmp n "1.prems" i915_reg_cmp_zero [of key "regs ! ?p"] by (intro "1.IH"(2)) auto
    ultimately show ?thesis
      using n cmp i915_reg_cmp_zero [of key "regs ! ?p"] by (auto simp: bsearch_step)
  qed
qed

lemma runtime_regs_sorted:
  "get_runtime_regs E = Inr regs \<Longrightarrow> sorted_wrt (<) regs \<and> (\<forall>r \<in> set regs. r < 0x80000000 \<and> r \<noteq> 0)"
  by (auto simp: get_runtime_regs_def tgl_runtime_regs_def mtl_runtime_regs_def split: iov_platform.splits)

lemma lookup_reg_index_iff:
  assumes "get_runtime_regs E = Inr (rt_regs rt)" "rt_size rt = length (rt_regs rt)"
  shows "lookup_reg_index rt offset = Inr i \<longleftrightarrow> i < rt_size rt \<and> rt_regs rt ! i = offset"
proof -
  have "bsearch (rt_regs rt) offset 0 (rt_size rt) = Some i \<longleftrightarrow> i < rt_size rt \<and> rt_regs rt ! i = offset"
    using runtime_regs_sorted [OF assms(1)] assms(2) bsearch_sound [of "rt_regs rt" offset 0 "rt_size rt" i]
      bsearch_complete [of "rt_regs rt" 0 "rt_size rt" i offset] by auto
  then show ?thesis by (auto simp: lookup_reg_index_def split: option.splits)
qed

section \<open>Reading registers over MMIO\<close>

lemma lookup_reg_index_None:
  "lookup_reg_index rt offset = Inl e \<longleftrightarrow> (\<forall>i. lookup_reg_index rt offset \<noteq> Inr i) \<and> e = ENODATA"
  by (auto simp: lookup_reg_index_def split: option.splits)

lemma lookup_reg_in:
  assumes "get_runtime_regs E = Inr (rt_regs rt)" "rt_size rt = length (rt_regs rt)"
    and "rt_values rt = map f (rt_regs rt)" "offset \<in> set (rt_regs rt)"
  shows "\<exists>i. lookup_reg_index rt offset = Inr i \<and> rt_values rt ! i = f offset"
proof -
  obtain i where i: "i < rt_size rt" "rt_regs rt ! i = offset"
    using assms(2,4) by (auto simp: in_set_conv_nth)
  have "lookup_reg_index rt offset = Inr i" using lookup_reg_index_iff [OF assms(1,2)] i by blast
  moreover have "rt_values rt ! i = f offset" using i assms(2) unfolding assms(3) by simp
  ultimately show ?thesis by blast
qed

lemma lookup_reg_out:
  assumes "get_runtime_regs E = Inr (rt_regs rt)" "rt_size rt = length (rt_regs rt)" "offset \<notin> set (rt_regs rt)"
  shows "lookup_reg_index rt offset = Inl ENODATA"
  unfolding lookup_reg_index_None lookup_reg_index_iff [OF assms(1,2)] using assms(2,3) by (metis nth_mem)

lemma get_reg_values_eq:
  assumes "get_runtime_regs E = Inr (rt_regs rt)" "rt_size rt = length (rt_regs rt)"
    and "rt_values rt = map f (rt_regs rt)"
  shows "get_reg_values rt offsets =
    (if set offsets - {0} \<subseteq> set (rt_regs rt) then Inr (map (\<lambda>r. if r = 0 then 0 else f r) offsets) else Inl EACCES)"
proof (induction offsets)
  case (Cons offset offsets)
  consider "offset = 0" | "offset \<noteq> 0" "offset \<in> set (rt_regs rt)" | "offset \<noteq> 0" "offset \<notin> set (rt_regs rt)"
    by blast
  then show ?case
  proof cases
    case 2
    obtain i where "lookup_reg_index rt offset = Inr i" "rt_values rt ! i = f offset"
      using lookup_reg_in [OF assms 2(2)] by blast
    with 2 Cons.IH show ?thesis by (simp add: insert_Diff_if)
  next
    case 3
    with lookup_reg_out [OF assms(1,2) 3(2)] show ?thesis by auto
  qed (use Cons.IH in simp)
qed simp

lemma service_started:
  assumes "get_runtime_regs E = Inr regs" "env_alloc (svc_iov E) (allocs (dev (iov_state v0)))"
    and "v = intel_iov_service_update E (intel_iov_service_init_early E v0)"
  shows "iov_runtime v = \<lparr>rt_size = length regs, rt_regs = regs, rt_values = map (svc_read E (iov_reads v0)) regs\<rparr>"
proof -
  have "regs \<noteq> []"
    using assms(1) by (auto simp: get_runtime_regs_def tgl_runtime_regs_def mtl_runtime_regs_def split: iov_platform.splits)
  then show ?thesis
    using assms by (auto simp: intel_iov_service_update_def intel_iov_service_init_early_def pf_alloc_runtime_info_def
        pf_prepare_runtime_info_def upd_dev_def kmalloc_def)
qed

text \<open>
  Property C30. Once the PF has started its services, a VF that asks over the MMIO relay for three
  registers gets the values that the PF has read from the hardware, when they are all registers
  that the PF shares (0 stands for none); otherwise it is refused and gets nothing, whatever
  offsets it asks for.
\<close>

theorem mmio_get_reg_exact:
  assumes "get_runtime_regs E = Inr regs" "env_alloc (svc_iov E) (allocs (dev (iov_state v0)))"
    and "v = intel_iov_service_update E (intel_iov_service_init_early E v0)"
    and "msg ! 0 \<noteq> 0" "msg ! 1 \<noteq> 0"
  shows "reply_mmio_relay_get_reg E vfid magic msg v =
    (if {msg ! 1, msg ! 2, msg ! 3} - {0} \<subseteq> set regs
     then send_mmio_relay_reply E vfid magic
       (0 # map (\<lambda>r. if r = 0 then 0 else svc_read E (iov_reads v0) r) [msg ! 1, msg ! 2, msg ! 3]) v
     else (Inl EACCES, v))"
proof -
  note rt = service_started [OF assms(1-3)]
  have "get_runtime_regs E = Inr (rt_regs (iov_runtime v))"
    "rt_size (iov_runtime v) = length (rt_regs (iov_runtime v))"
    "rt_values (iov_runtime v) = map (svc_read E (iov_reads v0)) (rt_regs (iov_runtime v))"
    using assms(1) by (simp_all add: rt)
  from get_reg_values_eq [OF this, of "[msg ! 1, msg ! 2, msg ! 3]"] assms(4,5) show ?thesis
    by (simp add: reply_mmio_relay_get_reg_def rt)
qed

definition mmio_demo_env :: service_env where
  "mmio_demo_env = \<lparr>svc_iov = quiet_env, svc_relay = \<lparr>env_send_nb = (\<lambda>_. Inr ()), env_handlers = (\<lambda>_ x. x),
       relay_is_pf = True, relay_is_vf = False\<rparr>,
     svc_gt = GT_PRIMARY, svc_platform = PLATFORM_TGL_ADL, svc_read = (\<lambda>n r. r + 1)\<rparr>"

definition mmio_demo :: intel_iov where
  "mmio_demo = \<lparr>iov_state = \<lparr>dev = fresh_state, vf_states = (\<lambda>_. None), state_worker = (\<lambda>_. False)\<rparr>,
     iov_relay = \<lparr>pending_relays = [], relay_last_fence = 0, relay_sent = [], relay_attempts = 0,
       relay_points = 0, relay_ids = 0\<rparr>,
     iov_runtime = \<lparr>rt_size = 0, rt_regs = [], rt_values = []\<rparr>, iov_reads = 0\<rparr>"

lemma mmio_get_reg_exact_witness:
  "let v = intel_iov_service_update mmio_demo_env (intel_iov_service_init_early mmio_demo_env mmio_demo)
   in reply_mmio_relay_get_reg mmio_demo_env 1 0 [0x10, 0x9118, 0, 0xC1DC] v =
        send_mmio_relay_reply mmio_demo_env 1 0 [0, 0x9119, 0, 0xC1DD] v \<and>
      reply_mmio_relay_get_reg mmio_demo_env 1 0 [0x10, 0x9118, 0x9119, 0] v = (Inl EACCES, v)"
proof -
  define v where "v = intel_iov_service_update mmio_demo_env (intel_iov_service_init_early mmio_demo_env mmio_demo)"
  have regs: "get_runtime_regs mmio_demo_env = Inr tgl_runtime_regs"
    by (simp add: get_runtime_regs_def mmio_demo_env_def)
  have al: "env_alloc (svc_iov mmio_demo_env) n" for n by (simp add: mmio_demo_env_def quiet_env_def)
  have rd: "svc_read mmio_demo_env n r = r + 1" for n r by (simp add: mmio_demo_env_def)
  note exact = mmio_get_reg_exact [OF regs al v_def]
  have "reply_mmio_relay_get_reg mmio_demo_env 1 0 [0x10, 0x9118, 0, 0xC1DC] v =
      send_mmio_relay_reply mmio_demo_env 1 0 [0, 0x9119, 0, 0xC1DD] v"
    using exact [of "[0x10, 0x9118, 0, 0xC1DC]" 1 0] by (simp add: rd tgl_runtime_regs_def insert_Diff_if)
  moreover have "reply_mmio_relay_get_reg mmio_demo_env 1 0 [0x10, 0x9118, 0x9119, 0] v = (Inl EACCES, v)"
    using exact [of "[0x10, 0x9118, 0x9119, 0]" 1 0] by (simp add: tgl_runtime_regs_def insert_Diff_if)
  ultimately show ?thesis unfolding v_def [symmetric] by (simp add: Let_def)
qed

section \<open>Updates of the GGTT in ranges\<close>

text \<open>
  What a request means: the copies follow the first PTE or, in the modes for the last PTE, the
  last one, and every PTE keeps its own flags.
\<close>

definition update_entries :: "nat \<Rightarrow> u8 \<Rightarrow> u16 \<Rightarrow> u64 list \<Rightarrow> u64 list" where
  "update_entries vf mode nc ptes =
     (if mode < 2
      then map (vf_entry vf (hd ptes)) (copies (mode = 0) (hd ptes) (Suc (unat nc))) @
           map (\<lambda>p. vf_entry vf p (pte_addr p)) (tl ptes)
      else map (\<lambda>p. vf_entry vf p (pte_addr p)) (butlast ptes) @
           map (vf_entry vf (last ptes)) (copies (mode = 2) (last ptes) (Suc (unat nc))))"

abbreviation pte_flags :: "u64 \<Rightarrow> u64" where "pte_flags pte \<equiv> pte AND NOT GEN12_GGTT_PTE_ADDR_MASK"

definition same_flags :: "u64 list \<Rightarrow> bool" where
  "same_flags ptes \<longleftrightarrow> (\<forall>p \<in> set ptes. pte_flags p = pte_flags (hd ptes))"

lemma vf_entry_flags: "pte_flags p = pte_flags q \<Longrightarrow> vf_entry vf p = vf_entry vf q"
proof -
  assume f: "pte_flags p = pte_flags q"
  have "x AND MTL_GGTT_PTE_PAT_MASK = pte_flags x AND MTL_GGTT_PTE_PAT_MASK" for x
  proof -
    have "NOT GEN12_GGTT_PTE_ADDR_MASK AND MTL_GGTT_PTE_PAT_MASK = MTL_GGTT_PTE_PAT_MASK"
      by code_simp
    then show ?thesis by (simp add: and.assoc)
  qed
  then have "p AND MTL_GGTT_PTE_PAT_MASK = q AND MTL_GGTT_PTE_PAT_MASK" using f by metis
  then show ?thesis unfolding vf_entry_def [abs_def] prepare_pattern_pte_def by simp
qed

lemma update_entries_no_copies:
  "ptes \<noteq> [] \<Longrightarrow> update_entries vf mode 0 ptes = map (\<lambda>p. vf_entry vf p (pte_addr p)) ptes"
proof -
  assume ne: "ptes \<noteq> []"
  show ?thesis
  proof (cases "mode < 2")
    case True
    with ne show ?thesis by (cases ptes) (simp_all add: update_entries_def)
  next
    case False
    with ne show ?thesis by (cases ptes rule: rev_cases) (simp_all add: update_entries_def)
  qed
qed

lemma update_entries_append:
  "is_last_mode mode \<Longrightarrow> rest \<noteq> [] \<Longrightarrow>
     update_entries vf mode nc (rng @ rest) = map (\<lambda>p. vf_entry vf p (pte_addr p)) rng @ update_entries vf mode nc rest"
  by (auto simp: update_entries_def is_last_mode_def butlast_append)

text \<open>One range.\<close>

lemma range_entries:
  assumes "pf_sg_ptes mode nc rng = Inr addrs" "rng \<noteq> []" "same_flags rng" "nc \<le> MAX_COPIES"
  shows "map (\<lambda>a. prepare_pattern_pte (hd rng) (of_nat vf) OR a) addrs = update_entries vf mode nc rng"
proof -
  have m: "mode < 2 \<or> mode = 2 \<or> mode = 3"
    using assms(1) by (auto simp: pf_sg_ptes_def Let_def split: if_splits)
  have e: "vf_entry vf p = vf_entry vf (hd rng)" if "p \<in> set rng" for p
    using assms(3) that by (intro vf_entry_flags) (simp add: same_flags_def)
  have "map (vf_entry vf (hd rng)) addrs = update_entries vf mode nc rng"
  proof (cases "mode < 2")
    case True
    have "map (\<lambda>p. vf_entry vf (hd rng) (pte_addr p)) (tl rng) = map (\<lambda>p. vf_entry vf p (pte_addr p)) (tl rng)"
      by (rule map_cong [OF refl]) (use e list.set_sel(2) [OF assms(2)] in metis)
    with True pf_sg_ptes_first [OF True assms(4)] assms(1) show ?thesis by (auto simp: update_entries_def)
  next
    case False
    have "map (\<lambda>p. vf_entry vf (hd rng) (pte_addr p)) (butlast rng) = map (\<lambda>p. vf_entry vf p (pte_addr p)) (butlast rng)"
      by (rule map_cong [OF refl]) (use e in_set_butlastD in metis)
    moreover have "vf_entry vf (last rng) = vf_entry vf (hd rng)" by (rule e [OF last_in_set [OF assms(2)]])
    ultimately show ?thesis
      using False m pf_sg_ptes_last [of mode nc rng] assms(1,4) by (auto simp: update_entries_def)
  qed
  then show ?thesis by (simp add: vf_entry_def [abs_def])
qed

lemma pf_update_entries:
  assumes "intel_iov_ggtt_pf_update_vf_ptes E g vf off mode nc rng s = (Inr n, s')"
    and "ggtt_region (config g vf s) = Some node" "region_ok node" "unat off < 2 ^ 21"
    and "length rng \<le> 125" "nc \<le> MAX_COPIES" "same_flags rng"
  shows "n = of_nat (unat nc + length rng)" "rng \<noteq> []" "unat off + length rng \<le> node_pages node" "pt_only s s'"
    and "ggtt_ptes s' = write_ptes (ggtt_ptes s) (node_page node + unat off) (update_entries vf mode nc rng)"
proof -
  obtain addrs where a: "rng \<noteq> []" "pf_sg_ptes mode nc rng = Inr addrs" "unat n = length addrs"
    "length addrs = unat nc + length rng" "unat off + length rng \<le> node_pages node" "pt_only s s'"
    "ggtt_ptes s' = write_ptes (ggtt_ptes s) (node_page node + unat off)
       (map (\<lambda>a. prepare_pattern_pte (hd rng) (of_nat vf) OR a) addrs)"
    using pf_update_vf_ptes_success [OF assms(2-6) assms(1)] by blast
  show "n = of_nat (unat nc + length rng)" using a(3,4) by (metis of_nat_unat ucast_id)
  show "rng \<noteq> []" "unat off + length rng \<le> node_pages node" "pt_only s s'" using a(1,5,6) by auto
  show "ggtt_ptes s' = write_ptes (ggtt_ptes s) (node_page node + unat off) (update_entries vf mode nc rng)"
    using a(7) unfolding range_entries [OF a(2,1) assms(7,6)] .
qed

lemma update_ggtt_ranges_same_flags:
  "same_flags (rng @ ptes) \<Longrightarrow> rng \<noteq> [] \<Longrightarrow>
     update_ggtt_ranges E vf mode ptes rng off nc upd s =
     update_ggtt_ranges E vf mode [] (rng @ ptes) off nc upd s"
proof (induction ptes arbitrary: rng)
  case (Cons pte ptes)
  have "pte_flags (last rng) = pte_flags pte"
    using Cons.prems unfolding same_flags_def by (metis Un_iff last_in_set list.set_intros(1) set_append)
  with Cons.IH [of "rng @ [pte]"] Cons.prems show ?case by simp
qed simp

lemma same_flags_snoc:
  assumes "same_flags rng" "rng \<noteq> []" "pte_flags (last rng) = pte_flags pte"
  shows "same_flags (rng @ [pte])"
proof -
  have "pte_flags pte = pte_flags (hd rng)"
    using assms unfolding same_flags_def by (metis last_in_set)
  moreover have "hd (rng @ [pte]) = hd rng" using assms(2) by simp
  ultimately show ?thesis
    using assms(1) unfolding same_flags_def set_append ball_Un by (intro conjI; simp only: ) simp
qed

lemma node_pages_bound: "region_ok node \<Longrightarrow> node_pages node \<le> 2 ^ 20"
  by (simp add: region_ok_def) linarith

lemma update_ggtt_ranges_lands:
  "\<lbrakk> update_ggtt_ranges E vf mode ptes rng off nc upd s = (Inr n, s'); nc = 0 \<or> is_last_mode mode;
     rng \<noteq> []; same_flags rng; ggtt_region (config (svc_gt E) vf s) = Some node; region_ok node;
     unat off < 2 ^ 21; length rng + length ptes \<le> 125; nc \<le> MAX_COPIES \<rbrakk> \<Longrightarrow>
     n = upd + of_nat (unat nc + length (rng @ ptes)) \<and> pt_only s s' \<and>
     ggtt_ptes s' = write_ptes (ggtt_ptes s) (node_page node + unat off) (update_entries vf mode nc (rng @ ptes))"
proof (induction ptes arbitrary: rng off upd s)
  case Nil
  obtain ret where u: "intel_iov_ggtt_pf_update_vf_ptes (svc_iov E) (svc_gt E) vf off mode nc rng s = (Inr ret, s')"
    "n = upd + ret"
    using Nil(1) by (auto split: prod.splits sum.splits)
  from pf_update_entries [OF u(1) Nil(5-7) _ Nil(9,4)] Nil(8) u(2) show ?case by simp
next
  case (Cons pte ptes)
  show ?case
  proof (cases "pte_flags (last rng) = pte_flags pte")
    case True
    have "same_flags (rng @ [pte])" using same_flags_snoc [OF Cons.prems(4,3) True] .
    then show ?thesis using Cons.IH [of "rng @ [pte]" off upd s] Cons.prems True by simp
  next
    case False
    have nc: "(if is_last_mode mode then 0 else nc) = 0" "(if is_last_mode mode then nc else 0) = nc"
      using Cons.prems(2) by auto
    obtain ret s1 where u: "intel_iov_ggtt_pf_update_vf_ptes (svc_iov E) (svc_gt E) vf off mode 0 rng s = (Inr ret, s1)"
      and r: "update_ggtt_ranges E vf mode ptes [pte] (off + of_nat (length rng)) nc (upd + ret) s1 = (Inr n, s')"
      using Cons.prems(1) False nc by (auto split: prod.splits sum.splits)
    have "length rng \<le> 125" using Cons.prems(8) by simp
    note e = pf_update_entries [OF u Cons.prems(5-7) this _ Cons.prems(4)]
    have e: "ret = of_nat (length rng)" "unat off + length rng \<le> node_pages node" "pt_only s s1"
      "ggtt_ptes s1 = write_ptes (ggtt_ptes s) (node_page node + unat off) (map (\<lambda>p. vf_entry vf p (pte_addr p)) rng)"
      using e by (simp_all add: update_entries_no_copies [OF Cons.prems(3)])
    have "unat off + length rng < 2 ^ 21" using e(2) node_pages_bound [OF Cons.prems(6)] by simp
    then have off: "unat (off + of_nat (length rng)) = unat off + length rng"
      by (simp add: unat_word_ariths unat_of_nat)
    have "ggtt_region (config (svc_gt E) vf s1) = Some node"
      using pt_onlyD(1) [OF e(3)] Cons.prems(5) by simp
    moreover have "unat (off + of_nat (length rng)) < 2 ^ 21"
      unfolding off by (rule \<open>unat off + length rng < 2 ^ 21\<close>)
    moreover have "length [pte] + length ptes \<le> 125" using Cons.prems(8) by simp
    moreover have "same_flags [pte]" by (simp add: same_flags_def)
    ultimately have IH: "n = upd + ret + of_nat (unat nc + length ([pte] @ ptes))" "pt_only s1 s'"
      "ggtt_ptes s' = write_ptes (ggtt_ptes s1) (node_page node + unat (off + of_nat (length rng)))
         (update_entries vf mode nc ([pte] @ ptes))"
      using Cons.IH [OF r Cons.prems(2) list.distinct(2) _ _ Cons.prems(6) _ _ Cons.prems(9)] by blast+
    have "update_entries vf mode nc (rng @ pte # ptes) =
        map (\<lambda>p. vf_entry vf p (pte_addr p)) rng @ update_entries vf mode nc (pte # ptes)"
      using Cons.prems(2) update_entries_append [of mode "pte # ptes"] by (auto simp: update_entries_no_copies)
    then have "ggtt_ptes s' = write_ptes (ggtt_ptes s) (node_page node + unat off) (update_entries vf mode nc (rng @ pte # ptes))"
      using IH(3) e(4) write_ptes_append [of "ggtt_ptes s" "node_page node + unat off"
          "map (\<lambda>p. vf_entry vf p (pte_addr p)) rng"]
      by (simp add: off add.assoc)
    with IH(1) e(1) pt_only_trans [OF e(3) IH(2)] show ?thesis by simp
  qed
qed

end
