(* ===== verification/Iov_Relay_Props.thy ===== *)
theory Iov_Relay_Props
  imports Iov_Relay
begin

text \<open>
  What the relay guarantees: replies reach only the sender that waits for them, a success arrives
  with its data, a failure without an error code arrives as ERFKILL, and one race of the code in
  which a reply is lost.
\<close>

section \<open>Fences\<close>

lemma relay_fence_not_zero: "fst (relay_get_next_fence r) \<noteq> 0"
  by (simp add: relay_get_next_fence_def Let_def)

section \<open>Completing a pending relay\<close>

abbreviation relay_awaits :: "u32 \<Rightarrow> u32 \<Rightarrow> pending_relay \<Rightarrow> bool" where
  "relay_awaits origin relay_id p \<equiv> pr_target p = origin \<and> pr_fence p = relay_id"

lemma relay_reply_effect:
  assumes "relay_handle_reply origin relay_id reply msg r = (e, r')"
  shows "r' = r\<lparr>pending_relays := pending_relays r'\<rparr>"
    and "length (pending_relays r') = length (pending_relays r)"
    and "\<And>k. \<not> relay_awaits origin relay_id (pending_relays r ! k) \<Longrightarrow>
      pending_relays r' ! k = pending_relays r ! k"
    and "\<forall>p \<in> set (pending_relays r). \<not> relay_awaits origin relay_id p \<Longrightarrow> e = Inl ESRCH \<and> r' = r"
    and "\<lbrakk>pending_relays r = xs @ p # ys; \<forall>q \<in> set xs. \<not> relay_awaits origin relay_id q;
      relay_awaits origin relay_id p\<rbrakk> \<Longrightarrow>
      \<exists>p'. pending_relays r' = xs @ p' # ys \<and> pr_done p' \<and> pr_target p' = origin \<and> pr_fence p' = relay_id"
proof -
  have h: "(e, pending_relays r') = complete_relay origin relay_id reply msg (pending_relays r)"
    and r': "r' = r\<lparr>pending_relays := pending_relays r'\<rparr>"
    using assms by (auto simp: relay_handle_reply_def split: prod.splits)
  show "r' = r\<lparr>pending_relays := pending_relays r'\<rparr>" by (fact r')
  have ps: "pending_relays r' = snd (complete_relay origin relay_id reply msg (pending_relays r))"
    using h by (metis snd_conv)
  show "length (pending_relays r') = length (pending_relays r)"
    unfolding ps complete_relay_def by simp
  show "pending_relays r' ! k = pending_relays r ! k"
    if "\<not> relay_awaits origin relay_id (pending_relays r ! k)" for k
    unfolding ps complete_relay_def by (rule update_first_other) (use that in blast)
  show "e = Inl ESRCH \<and> r' = r" if "\<forall>p \<in> set (pending_relays r). \<not> relay_awaits origin relay_id p"
  proof -
    have "complete_relay origin relay_id reply msg (pending_relays r) = (Inl ESRCH, pending_relays r)"
      unfolding complete_relay_def by (rule update_first_none [OF that])
    with h r' show ?thesis by simp
  qed
  show "\<exists>p'. pending_relays r' = xs @ p' # ys \<and> pr_done p' \<and> pr_target p' = origin \<and> pr_fence p' = relay_id"
    if a: "pending_relays r = xs @ p # ys" "\<forall>q \<in> set xs. \<not> relay_awaits origin relay_id q"
      "relay_awaits origin relay_id p"
    unfolding ps complete_relay_def a(1) update_first_some [where P = "relay_awaits origin relay_id", OF a(2,3)]
    using a(3) by (intro exI conjI) auto
qed

text \<open>
  Property C27. A reply from one origin changes only pending relays that were sent to this origin
  with this message id: no VF can complete, or put data into, a request that was sent to another
  VF. When nothing waits for it, the reply changes nothing and is reported; otherwise exactly the
  first relay that waits for it is completed.
\<close>

theorem relay_reply_isolated:
  assumes "relay_handle_reply origin relay_id reply msg r = (e, r')"
  shows "r' = r\<lparr>pending_relays := pending_relays r'\<rparr> \<and>
    length (pending_relays r') = length (pending_relays r) \<and>
    (\<forall>k. \<not> relay_awaits origin relay_id (pending_relays r ! k) \<longrightarrow>
      pending_relays r' ! k = pending_relays r ! k) \<and>
    ((\<forall>p \<in> set (pending_relays r). \<not> relay_awaits origin relay_id p) \<longrightarrow> e = Inl ESRCH \<and> r' = r) \<and>
    (\<forall>xs p ys. pending_relays r = xs @ p # ys \<longrightarrow> (\<forall>q \<in> set xs. \<not> relay_awaits origin relay_id q) \<longrightarrow>
      relay_awaits origin relay_id p \<longrightarrow>
      (\<exists>p'. pending_relays r' = xs @ p' # ys \<and> pr_done p' \<and> pr_target p' = origin \<and> pr_fence p' = relay_id))"
  using relay_reply_effect [OF assms] by blast

section \<open>A sender and the reply to it\<close>

text \<open>No relay is pending with the identity the next sender gets, or with its target and fence.\<close>

definition relay_fresh :: "u32 \<Rightarrow> u32 \<Rightarrow> intel_iov_relay \<Rightarrow> bool" where
  "relay_fresh target fence r \<longleftrightarrow>
     (\<forall>p \<in> set (pending_relays r). pr_id p < relay_ids r \<and> \<not> relay_awaits target fence p)"

lemma relay_pending_last:
  "\<forall>p \<in> set ps. pr_id p < i \<Longrightarrow> pr_id q = i \<Longrightarrow> pending_relays r = ps @ [q] \<Longrightarrow> relay_pending i r = q"
proof -
  assume a: "\<forall>p \<in> set ps. pr_id p < i" "pr_id q = i" "pending_relays r = ps @ [q]"
  then have "\<forall>p \<in> set ps. pr_id p \<noteq> i" by fastforce
  with a show ?thesis by (simp add: relay_pending_def filter_skip)
qed

lemma relay_unlink_last:
  "\<forall>p \<in> set ps. pr_id p < i \<Longrightarrow> pr_id q = i \<Longrightarrow> pending_relays r = ps @ [q] \<Longrightarrow>
     relay_unlink i r = r\<lparr>pending_relays := ps\<rparr>"
proof -
  assume a: "\<forall>p \<in> set ps. pr_id p < i" "pr_id q = i" "pending_relays r = ps @ [q]"
  then have "filter (\<lambda>p. pr_id p \<noteq> i) ps = ps" by (fastforce simp: filter_id_conv)
  with a show ?thesis by (simp add: relay_unlink_def)
qed

lemma relay_reinit_last:
  "\<forall>p \<in> set ps. pr_id p < i \<Longrightarrow> pr_id q = i \<Longrightarrow> pending_relays r = ps @ [q] \<Longrightarrow>
     relay_reinit i r = r\<lparr>pending_relays := ps @ [q\<lparr>pr_done := False\<rparr>]\<rparr>"
proof -
  assume a: "\<forall>p \<in> set ps. pr_id p < i" "pr_id q = i" "pending_relays r = ps @ [q]"
  then have "map (\<lambda>p. if pr_id p = i then p\<lparr>pr_done := False\<rparr> else p) ps = ps"
    by (fastforce intro: map_idI)
  with a show ?thesis by (simp add: relay_reinit_def)
qed

lemma complete_last:
  "\<forall>p \<in> set ps. \<not> relay_awaits target fence p \<Longrightarrow> relay_awaits target fence q \<Longrightarrow>
     complete_relay target fence reply msg (ps @ [q]) =
       (fst (complete_relay target fence reply msg [q]), ps @ snd (complete_relay target fence reply msg [q]))"
  unfolding complete_relay_def by (subst update_first_some) (auto split: prod.splits)

text \<open>The message to the GuC that carries a request to the PF or to a VF.\<close>

definition relay_request :: "u32 \<Rightarrow> u32 \<Rightarrow> u32 list \<Rightarrow> u32 list" where
  "relay_request target fence msg =
     (if target \<noteq> 0
      then [hxg_request_msg GUC_HXG_ORIGIN_HOST GUC_HXG_TYPE_REQUEST GUC_ACTION_PF2GUC_RELAY_TO_VF 0,
            target, fence] @ msg
      else [hxg_request_msg GUC_HXG_ORIGIN_HOST GUC_HXG_TYPE_REQUEST GUC_ACTION_VF2GUC_RELAY_TO_PF 0,
            fence] @ msg)"

lemma relay_send_accepted:
  "env_send_nb E (relay_attempts r) = Inr () \<Longrightarrow> relay_send E target fence msg r =
     Some (Inr (), r\<lparr>relay_attempts := Suc (relay_attempts r), relay_sent := relay_request target fence msg # relay_sent r\<rparr>)"
  by (auto simp: relay_send_def pf_relay_send_def vf_relay_send_def relay_request_def relay_guc_send.simps Let_def)

text \<open>
  The GuC does not reject a message as busy for ever.
\<close>

lemma relay_guc_send_ends:
  assumes "env_send_nb E (relay_attempts r + n) \<noteq> Inl EBUSY"
  shows "\<exists>ret r'. relay_guc_send E req r = Some (ret, r')"
  using assms
proof (induction n arbitrary: r)
  case 0
  then show ?case by (subst relay_guc_send.simps) (auto simp: Let_def split: sum.split)
next
  case (Suc n)
  have "\<exists>ret r'. relay_guc_send E req (r\<lparr>relay_attempts := Suc (relay_attempts r)\<rparr>) = Some (ret, r')"
    by (rule Suc.IH) (use Suc.prems in simp)
  then show ?case by (subst relay_guc_send.simps) (auto simp: Let_def split: sum.split)
qed

definition relay_started :: "u32 \<Rightarrow> u32 \<Rightarrow> u32 list \<Rightarrow> u32 list \<Rightarrow> intel_iov_relay \<Rightarrow> intel_iov_relay" where
  "relay_started target fence msg buf r = r\<lparr>relay_ids := Suc (relay_ids r),
     pending_relays := pending_relays r @
       [\<lparr>pr_id = relay_ids r, pr_done = False, pr_target = target, pr_fence = fence,
         pr_reply = Reply_err ENOMSG, pr_response = buf, pr_response_size = of_nat (length buf)\<rparr>],
     relay_attempts := Suc (relay_attempts r), relay_sent := relay_request target fence msg # relay_sent r,
     relay_points := Suc (relay_points r)\<rparr>"

text \<open>The first reply that the sender sees.\<close>

lemma relay_first_reply:
  assumes fresh: "relay_fresh target fence r"
    and send: "env_send_nb E (relay_attempts r) = Inr ()"
    and reply: "env_handlers E (relay_points r) (relay_started target fence msg buf r) = r2"
    and pend: "pending_relays r2 = pending_relays r @ [q]" "pr_id q = relay_ids r" "pr_done q"
  shows "relay_send_and_wait E target fence msg buf r =
    (if pr_reply q = Reply_ok then Some ((Inr (pr_response_size q), pr_response q), r2\<lparr>pending_relays := pending_relays r\<rparr>)
     else case (let i = relay_ids r; r3 = relay_point E (relay_reinit i (relay_point E r2))
                in (case pr_reply (relay_pending i r3) of
                         Reply_ok \<Rightarrow> Some (Inr 0, r3)
                       | Reply_error e \<Rightarrow> Some (Inl (Errno (unat e)), r3)
                       | Reply_err e \<Rightarrow>
                           if e = EAGAIN then relay_wait_loop E target fence msg i True r3
                           else if e = EBUSY then relay_wait_loop E target fence msg i False r3
                           else Some (Inl e, r3))) of
            None \<Rightarrow> None
          | Some (ret, r4) \<Rightarrow> Some ((ret, pr_response (relay_pending (relay_ids r) r4)), relay_unlink (relay_ids r) r4))"
proof -
  have old: "\<forall>p \<in> set (pending_relays r). pr_id p < relay_ids r"
    using fresh by (simp add: relay_fresh_def)
  note last = relay_pending_last [OF old pend(2,1)] relay_unlink_last [OF old pend(2,1)]
  obtain i r1 where a: "relay_add_pending target fence buf r = (i, r1)" by fastforce
  then have i: "i = relay_ids r" and at: "relay_attempts r1 = relay_attempts r"
    by (auto simp: relay_add_pending_def)
  have "env_send_nb E (relay_attempts r1) = Inr ()" using send at by simp
  note s = relay_send_accepted [OF this, of target fence msg]
  have pt: "relay_point E (r1\<lparr>relay_attempts := Suc (relay_attempts r1),
      relay_sent := relay_request target fence msg # relay_sent r1\<rparr>) = r2"
    using reply a by (auto simp: relay_point_def relay_started_def relay_add_pending_def)
  show ?thesis
    unfolding relay_send_and_wait_def a
    by (subst relay_wait_loop.simps) (simp add: s pt i last pend(3) Let_def)
qed

text \<open>The pending relay of the sender after a reply.\<close>

definition relay_answered :: "relay_reply \<Rightarrow> u32 list \<Rightarrow> pending_relay \<Rightarrow> pending_relay" where
  "relay_answered reply msg q =
     (if reply \<noteq> Reply_ok then q\<lparr>pr_reply := reply, pr_done := True\<rparr>
      else q\<lparr>pr_response := GUC_HXG_MSG_0_AUX (hd msg) # tl msg @ drop (length msg) (pr_response q),
             pr_response_size := of_nat (length msg), pr_reply := Reply_ok, pr_done := True\<rparr>)"

lemma relay_handle_reply_last:
  assumes "\<forall>p \<in> set ps. \<not> relay_awaits target fence p" "relay_awaits target fence q"
    and "pending_relays x = ps @ [q]" "reply = Reply_ok \<Longrightarrow> of_nat (length msg) \<le> pr_response_size q"
  shows "snd (relay_handle_reply target fence reply msg x) =
    x\<lparr>pending_relays := ps @ [relay_answered reply msg q]\<rparr>"
  using complete_last [OF assms(1,2), of reply msg] assms(4)
  by (auto simp: relay_handle_reply_def assms(3) complete_relay_def relay_answered_def assms(2)
      not_less [symmetric] split: if_splits)

definition pending_entry :: "nat \<Rightarrow> u32 \<Rightarrow> u32 \<Rightarrow> u32 list \<Rightarrow> pending_relay" where
  "pending_entry i target fence buf =
     \<lparr>pr_id = i, pr_done = False, pr_target = target, pr_fence = fence, pr_reply = Reply_err ENOMSG,
      pr_response = buf, pr_response_size = of_nat (length buf)\<rparr>"

lemma relay_started_pending:
  "pending_relays (relay_started target fence msg buf r) =
     pending_relays r @ [pending_entry (relay_ids r) target fence buf]"
  by (simp add: relay_started_def pending_entry_def)

lemma pending_entry_fields [simp]:
  "pr_target (pending_entry i t f b) = t" "pr_fence (pending_entry i t f b) = f"
  "pr_id (pending_entry i t f b) = i" "pr_response (pending_entry i t f b) = b"
  "pr_response_size (pending_entry i t f b) = of_nat (length b)"
  by (simp_all add: pending_entry_def)

lemma relay_answered_fields [simp]:
  "pr_target (relay_answered reply msg q) = pr_target q" "pr_fence (relay_answered reply msg q) = pr_fence q"
  "pr_id (relay_answered reply msg q) = pr_id q" "pr_done (relay_answered reply msg q)"
  "pr_reply (relay_answered reply msg q) = reply"
  by (auto simp: relay_answered_def)

lemma relay_answered_other: "reply \<noteq> Reply_ok \<Longrightarrow> pr_response (relay_answered reply msg q) = pr_response q"
  by (simp add: relay_answered_def)

lemma of_nat_length_mono:
  "length xs \<le> length ys \<Longrightarrow> length ys < 2 ^ 32 \<Longrightarrow> of_nat (length xs) \<le> (of_nat (length ys) :: u32)"
  by (simp add: word_le_nat_alt unat_of_nat)

lemma send_to_pf_reply:
  assumes "relay_get_next_fence r = (fence, r1)" "relay_fresh 0 fence r"
    and "GUC_HXG_MSG_0_TYPE (msg ! 0) \<noteq> GUC_HXG_TYPE_EVENT"
    and "env_send_nb E (relay_attempts r) = Inr ()"
    and "env_handlers E (relay_points r) (relay_started 0 fence msg buf r1) =
      snd (relay_handle_reply 0 fence Reply_ok reply (relay_started 0 fence msg buf r1))"
    and "length reply \<le> length buf" "length buf < 2 ^ 32"
  shows "\<exists>r'. intel_iov_relay_send_to_pf E msg buf r =
      Some ((Inr (of_nat (length reply)),
             GUC_HXG_MSG_0_AUX (hd reply) # tl reply @ drop (length reply) buf), r') \<and>
    pending_relays r' = pending_relays r \<and> relay_sent r' = relay_request 0 fence msg # relay_sent r"
proof -
  have r1: "r1 = r\<lparr>relay_last_fence := fence\<rparr>"
    using assms(1) by (auto simp: relay_get_next_fence_def Let_def)
  let ?q = "pending_entry (relay_ids r) 0 fence buf"
  define x where "x = relay_started 0 fence msg buf r1"
  have x: "pending_relays x = pending_relays r @ [?q]" "relay_sent x = relay_request 0 fence msg # relay_sent r"
    unfolding x_def relay_started_pending by (simp_all add: r1 relay_started_def)
  define r2 where "r2 = x\<lparr>pending_relays := pending_relays r @ [relay_answered Reply_ok reply ?q]\<rparr>"
  have "snd (relay_handle_reply 0 fence Reply_ok reply x) = r2"
    unfolding r2_def using assms(2,6,7) x(1)
    by (intro relay_handle_reply_last) (auto simp: relay_fresh_def of_nat_length_mono)
  then have h: "env_handlers E (relay_points r1) (relay_started 0 fence msg buf r1) = r2"
    using assms(5) by (simp add: r1 x_def)
  have "relay_fresh 0 fence r1" using assms(2) by (simp add: relay_fresh_def r1)
  from relay_first_reply [OF this _ h, of "relay_answered Reply_ok reply ?q"] assms(4)
  have "relay_send_and_wait E 0 fence msg buf r1 =
      Some ((Inr (of_nat (length reply)), GUC_HXG_MSG_0_AUX (hd reply) # tl reply @ drop (length reply) buf),
        r2\<lparr>pending_relays := pending_relays r\<rparr>)"
    by (simp add: r2_def r1) (simp add: relay_answered_def)
  moreover have "relay_sent r2 = relay_request 0 fence msg # relay_sent r"
    using x(2) by (simp add: r2_def)
  ultimately show ?thesis using assms(1,3) by (simp add: intel_iov_relay_send_to_pf_def)
qed

text \<open>
  Property C28. When the success reply of the PF to the message id of the request arrives while
  the VF waits, the VF returns the length of the reply, its buffer starts with the data of the
  reply, the GuC was given exactly one request, with this id, and nothing is left pending.
\<close>

theorem relay_send_gets_reply:
  assumes "relay_get_next_fence r = (fence, r1)" "relay_fresh 0 fence r"
    and "GUC_HXG_MSG_0_TYPE (msg ! 0) \<noteq> GUC_HXG_TYPE_EVENT"
    and "env_send_nb E (relay_attempts r) = Inr ()"
    and "env_handlers E (relay_points r) = (\<lambda>x. snd (relay_handle_reply 0 fence Reply_ok reply x))"
    and "length reply \<le> length buf" "length buf < 2 ^ 32"
  shows "\<exists>r'. intel_iov_relay_send_to_pf E msg buf r =
      Some ((Inr (of_nat (length reply)),
             GUC_HXG_MSG_0_AUX (hd reply) # tl reply @ drop (length reply) buf), r') \<and>
    pending_relays r' = pending_relays r \<and> relay_sent r' = relay_request 0 fence msg # relay_sent r"
  using send_to_pf_reply [OF assms(1-4) _ assms(6,7)] assms(5) by simp

text \<open>A failure without an error code completes the request with ERFKILL.\<close>

lemma relay_failure_without_code:
  assumes "relay_get_next_fence r = (fence, r1)" "relay_fresh 0 fence r"
    and "GUC_HXG_MSG_0_TYPE (msg ! 0) \<noteq> GUC_HXG_TYPE_EVENT"
    and "env_send_nb E (relay_attempts r) = Inr ()"
    and "env_handlers E (relay_points r) = (\<lambda>x. snd (relay_handle_failure 0 fence [f] x))"
    and "GUC_HXG_FAILURE_MSG_0_ERROR f = 0"
    and "\<And>x. env_handlers E (Suc (relay_points r)) x = x"
    and "\<And>x. env_handlers E (Suc (Suc (relay_points r))) x = x"
  shows "\<exists>r'. intel_iov_relay_send_to_pf E msg buf r = Some ((Inl ERFKILL, buf), r') \<and>
    pending_relays r' = pending_relays r"
proof -
  have r1: "r1 = r\<lparr>relay_last_fence := fence\<rparr>"
    using assms(1) by (auto simp: relay_get_next_fence_def Let_def)
  let ?q = "pending_entry (relay_ids r) 0 fence buf"
  let ?q' = "relay_answered (Reply_err ERFKILL) [] ?q"
  define x where "x = relay_started 0 fence msg buf r1"
  have x: "pending_relays x = pending_relays r @ [?q]" "relay_points x = Suc (relay_points r)"
    unfolding x_def relay_started_pending by (simp_all add: r1 relay_started_def)
  define r2 where "r2 = x\<lparr>pending_relays := pending_relays r @ [?q']\<rparr>"
  have old: "\<forall>p \<in> set (pending_relays r). pr_id p < relay_ids r" "\<forall>p \<in> set (pending_relays r). \<not> relay_awaits 0 fence p"
    using assms(2) by (auto simp: relay_fresh_def)
  have "snd (relay_handle_reply 0 fence (Reply_err ERFKILL) [] x) = r2"
    unfolding r2_def using old x(1) by (intro relay_handle_reply_last) auto
  then have h: "env_handlers E (relay_points r1) (relay_started 0 fence msg buf r1) = r2"
    using assms(5,6) by (simp add: r1 x_def relay_handle_failure_def)
  define r3 where "r3 = relay_point E (relay_reinit (relay_ids r) (relay_point E r2))"
  have "relay_reinit (relay_ids r) (relay_point E r2) =
      (relay_point E r2)\<lparr>pending_relays := pending_relays r @ [?q'\<lparr>pr_done := False\<rparr>]\<rparr>"
    using assms(7) x(2) by (intro relay_reinit_last [OF old(1)]) (simp_all add: relay_point_def r2_def)
  then have r3: "pending_relays r3 = pending_relays r @ [?q'\<lparr>pr_done := False\<rparr>]"
    using assms(7,8) x(2) by (simp add: r3_def relay_point_def r2_def)
  have last: "relay_pending (relay_ids r) r3 = ?q'\<lparr>pr_done := False\<rparr>"
    "relay_unlink (relay_ids r) r3 = r3\<lparr>pending_relays := pending_relays r\<rparr>"
    using relay_pending_last [OF old(1) _ r3] relay_unlink_last [OF old(1) _ r3] by simp_all
  have "relay_fresh 0 fence r1" using assms(2) by (simp add: relay_fresh_def r1)
  then have "relay_send_and_wait E 0 fence msg buf r1 =
      Some ((Inl ERFKILL, buf), r3\<lparr>pending_relays := pending_relays r\<rparr>)"
  proof (subst relay_first_reply [OF _ _ h])
    show "env_send_nb E (relay_attempts r1) = Inr ()" "pending_relays r2 = pending_relays r1 @ [?q']"
      "pr_id ?q' = relay_ids r1" "pr_done ?q'"
      using assms(4) by (simp_all add: r1 r2_def)
  qed (simp_all add: r1 Let_def r3_def [symmetric] last relay_answered_other)
  then show ?thesis using assms(1,3) by (simp add: intel_iov_relay_send_to_pf_def)
qed

text \<open>
  A reply can get lost. When the peer first reports that it is busy and then
  succeeds, the sender returns the length of the reply if the success arrives while the sender
  waits again; but if it arrives after the sender has looked at the busy reply and before it
  resets the completion, the sender returns 0, as if the reply were empty.
\<close>

theorem relay_reply_race:
  assumes "relay_fresh target fence r" "env_send_nb E (relay_attempts r) = Inr ()"
    and "env_handlers E = (\<lambda>n x. if n = relay_points r
        then snd (relay_handle_reply target fence (Reply_err EBUSY) [] x)
      else if n = relay_points r + (if late then 3 else 1)
        then snd (relay_handle_reply target fence Reply_ok reply x) else x)"
    and "length reply \<le> length buf" "length buf < 2 ^ 32"
  shows "\<exists>r'. relay_send_and_wait E target fence msg buf r =
    Some ((Inr (if late then of_nat (length reply) else 0),
           GUC_HXG_MSG_0_AUX (hd reply) # tl reply @ drop (length reply) buf), r')"
proof -
  let ?q = "pending_entry (relay_ids r) target fence buf"
  let ?b = "relay_answered (Reply_err EBUSY) [] ?q"
  let ?w = "GUC_HXG_MSG_0_AUX (hd reply) # tl reply @ drop (length reply) buf"
  define x where "x = relay_started target fence msg buf r"
  have x: "pending_relays x = pending_relays r @ [?q]" "relay_points x = Suc (relay_points r)"
    unfolding x_def relay_started_pending by (simp_all add: relay_started_def)
  have old: "\<forall>p \<in> set (pending_relays r). pr_id p < relay_ids r"
      "\<forall>p \<in> set (pending_relays r). \<not> relay_awaits target fence p"
    using assms(1) by (auto simp: relay_fresh_def)
  have fit: "of_nat (length reply) \<le> (of_nat (length buf) :: u32)"
    using assms(4,5) by (rule of_nat_length_mono)
  define r2 where "r2 = x\<lparr>pending_relays := pending_relays r @ [?b]\<rparr>"
  have h: "env_handlers E (relay_points r) (relay_started target fence msg buf r) = r2"
    using relay_handle_reply_last [OF old(2) _ x(1), of "Reply_err EBUSY" "[]"]
    by (simp add: assms(3) x_def [symmetric] r2_def)
  have r2: "pending_relays r2 = pending_relays r @ [?b]" "relay_points r2 = Suc (relay_points r)"
    using x(2) by (simp_all add: r2_def)
  define r3 where "r3 = relay_point E (relay_reinit (relay_ids r) (relay_point E r2))"
  have first: "relay_send_and_wait E target fence msg buf r =
     (case (case pr_reply (relay_pending (relay_ids r) r3) of
              Reply_ok \<Rightarrow> Some (Inr 0, r3)
            | Reply_error e \<Rightarrow> Some (Inl (Errno (unat e)), r3)
            | Reply_err e \<Rightarrow>
                if e = EAGAIN then relay_wait_loop E target fence msg (relay_ids r) True r3
                else if e = EBUSY then relay_wait_loop E target fence msg (relay_ids r) False r3
                else Some (Inl e, r3)) of
            None \<Rightarrow> None
          | Some (ret, r4) \<Rightarrow> Some ((ret, pr_response (relay_pending (relay_ids r) r4)), relay_unlink (relay_ids r) r4))"
    unfolding r3_def using assms(2)
    by (subst relay_first_reply [OF assms(1) _ h r2(1)]) (simp_all add: Let_def)
  show ?thesis
  proof (cases late)
    case False
    have "relay_point E r2 = r2\<lparr>relay_points := Suc (Suc (relay_points r)),
        pending_relays := pending_relays r @ [relay_answered Reply_ok reply ?b]\<rparr>"
      using relay_handle_reply_last [OF old(2) _ r2(1), of Reply_ok reply] r2(2) fit False
        relay_handle_reply_last [OF old(2), of ?b "r2\<lparr>relay_points := Suc (Suc (relay_points r))\<rparr>" Reply_ok reply] r2(1)
      by (simp add: relay_point_def assms(3) relay_answered_def)
    then have "pending_relays r3 = pending_relays r @ [(relay_answered Reply_ok reply ?b)\<lparr>pr_done := False\<rparr>]"
      using relay_reinit_last [OF old(1), of "relay_answered Reply_ok reply ?b" "relay_point E r2"] False
      by (simp add: r3_def relay_point_def assms(3))
    from relay_pending_last [OF old(1) _ this] have "relay_pending (relay_ids r) r3 =
        (relay_answered Reply_ok reply ?b)\<lparr>pr_done := False\<rparr>" by simp
    then show ?thesis using False first by (simp add: relay_answered_def)
  next
    case True
    have "relay_point E r2 = r2\<lparr>relay_points := Suc (Suc (relay_points r))\<rparr>"
      using True r2(2) by (simp add: relay_point_def assms(3))
    then have "relay_reinit (relay_ids r) (relay_point E r2) =
        r2\<lparr>relay_points := Suc (Suc (relay_points r)), pending_relays := pending_relays r @ [?b\<lparr>pr_done := False\<rparr>]\<rparr>"
      using relay_reinit_last [OF old(1), of ?b "relay_point E r2"] r2(1) by simp
    then have r3: "r3 = r2\<lparr>relay_points := Suc (Suc (Suc (relay_points r))),
        pending_relays := pending_relays r @ [?b\<lparr>pr_done := False\<rparr>]\<rparr>"
      using True by (simp add: r3_def relay_point_def assms(3))
    then have p3: "relay_pending (relay_ids r) r3 = ?b\<lparr>pr_done := False\<rparr>"
      by (intro relay_pending_last [OF old(1)]) simp_all
    define r4 where "r4 = relay_point E r3"
    let ?d = "relay_answered Reply_ok reply (?b\<lparr>pr_done := False\<rparr>)"
    have r4: "pending_relays r4 = pending_relays r @ [?d]"
      using relay_handle_reply_last [OF old(2), of "?b\<lparr>pr_done := False\<rparr>"
          "r3\<lparr>relay_points := Suc (relay_points r3)\<rparr>" Reply_ok reply] fit True
      by (simp add: r4_def relay_point_def assms(3) r3 relay_answered_def)
    from relay_pending_last [OF old(1) _ r4] have p4: "relay_pending (relay_ids r) r4 = ?d" by simp
    have "relay_wait_loop E target fence msg (relay_ids r) False r3 = Some (Inr (of_nat (length reply)), r4)"
      by (subst relay_wait_loop.simps) (simp add: r4_def [symmetric] p4 Let_def, simp add: relay_answered_def)
    then show ?thesis using True first p3 p4 by (simp add: relay_answered_def)
  qed
qed

section \<open>Concrete relays\<close>

definition relay_boot :: intel_iov_relay where
  "relay_boot = \<lparr>pending_relays = [], relay_last_fence = 0, relay_sent = [], relay_attempts = 0,
     relay_points = 0, relay_ids = 0\<rparr>"

definition relay_vf_env :: "(nat \<Rightarrow> intel_iov_relay \<Rightarrow> intel_iov_relay) \<Rightarrow> relay_env" where
  "relay_vf_env h = \<lparr>env_send_nb = (\<lambda>_. Inr ()), env_handlers = h, relay_is_pf = False, relay_is_vf = True\<rparr>"

lemma relay_boot_first: "relay_get_next_fence relay_boot = (1, relay_boot\<lparr>relay_last_fence := 1\<rparr>)"
  by (simp add: relay_get_next_fence_def relay_boot_def Let_def)

lemma relay_boot_fresh: "relay_fresh t f relay_boot"
  by (simp add: relay_fresh_def relay_boot_def)

text \<open>Relays to two VFs wait; the reply of the second VF completes the second one only.\<close>

lemma relay_reply_isolated_witness:
  "let r = relay_boot\<lparr>pending_relays := [pending_entry 0 1 5 [0], pending_entry 1 2 5 [0]]\<rparr>;
       r' = snd (relay_handle_reply 2 5 Reply_ok [0x70000007] r)
   in pending_relays r' ! 0 = pending_entry 0 1 5 [0] \<and> pr_done (pending_relays r' ! 1)"
proof -
  define r where "r = relay_boot\<lparr>pending_relays := [pending_entry 0 1 5 [0], pending_entry 1 2 5 [0]]\<rparr>"
  obtain e r' where h: "relay_handle_reply 2 5 Reply_ok [0x70000007] r = (e, r')" by fastforce
  have "pending_relays r' ! 0 = pending_entry 0 1 5 [0]"
    using relay_reply_isolated [OF h] by (simp add: r_def)
  moreover have "\<exists>p'. pending_relays r' = [pending_entry 0 1 5 [0]] @ p' # [] \<and> pr_done p' \<and>
      pr_target p' = 2 \<and> pr_fence p' = 5"
    using relay_reply_isolated [OF h, THEN conjunct2, THEN conjunct2, THEN conjunct2, THEN conjunct2,
        THEN spec [where x = "[pending_entry 0 1 5 [0]]"], THEN spec [where x = "pending_entry 1 2 5 [0]"],
        THEN spec [where x = "[]"]] by (simp add: r_def)
  ultimately show ?thesis using h unfolding r_def [symmetric] by auto
qed

lemma relay_send_gets_reply_witness:
  "\<exists>r'. intel_iov_relay_send_to_pf
       (relay_vf_env (\<lambda>_ x. snd (relay_handle_reply 0 1 Reply_ok [0x70000002, 9] x)))
       [hxg_request_msg 0 0 0x101 0, 0] [0, 0, 0] relay_boot = Some ((Inr 2, [2, 9, 0]), r') \<and>
     pending_relays r' = []"
proof -
  let ?E = "relay_vf_env (\<lambda>_ x. snd (relay_handle_reply 0 1 Reply_ok [0x70000002, 9] x))"
  have "\<exists>r'. intel_iov_relay_send_to_pf ?E [hxg_request_msg 0 0 0x101 0, 0] [0, 0, 0] relay_boot =
      Some ((Inr (of_nat (length [0x70000002, 9 :: u32])),
        GUC_HXG_MSG_0_AUX (hd [0x70000002, 9]) # tl [0x70000002, 9] @ drop (length [0x70000002, 9 :: u32]) [0, 0, 0]), r') \<and>
      pending_relays r' = pending_relays relay_boot \<and>
      relay_sent r' = relay_request 0 1 [hxg_request_msg 0 0 0x101 0, 0] # relay_sent relay_boot"
    by (rule relay_send_gets_reply [OF relay_boot_first relay_boot_fresh])
      (simp_all add: relay_vf_env_def hxg_simps take_bit_eq_mod)
  moreover have "GUC_HXG_MSG_0_AUX 0x70000002 = 2" by code_simp
  ultimately show ?thesis by (auto simp: relay_boot_def)
qed

definition race_env :: "bool \<Rightarrow> relay_env" where
  "race_env late = relay_vf_env (\<lambda>n x. if n = 0 then snd (relay_handle_reply 0 1 (Reply_err EBUSY) [] x)
      else if n = 0 + (if late then 3 else 1) then snd (relay_handle_reply 0 1 Reply_ok [0x70000002, 9] x) else x)"

lemma relay_reply_race_witness:
  "(\<exists>r'. relay_send_and_wait (race_env True) 0 1 [0] [0, 0] relay_boot = Some ((Inr 2, [2, 9]), r')) \<and>
   (\<exists>r'. relay_send_and_wait (race_env False) 0 1 [0] [0, 0] relay_boot = Some ((Inr 0, [2, 9]), r'))"
proof -
  have E: "env_handlers (race_env late) = (\<lambda>n x. if n = relay_points relay_boot
        then snd (relay_handle_reply 0 1 (Reply_err EBUSY) [] x)
      else if n = relay_points relay_boot + (if late then 3 else 1)
        then snd (relay_handle_reply 0 1 Reply_ok [0x70000002, 9] x) else x)" for late
  proof -
    have "relay_points relay_boot = 0" by (simp add: relay_boot_def)
    then show ?thesis unfolding race_env_def relay_vf_env_def by (simp only: relay_env.simps)
  qed
  have "env_send_nb (race_env late) (relay_attempts relay_boot) = Inr ()" for late
    by (simp add: race_env_def relay_vf_env_def)
  note race = relay_reply_race [OF relay_boot_fresh this E, where msg = "[0]" and buf = "[0, 0]"]
  have "GUC_HXG_MSG_0_AUX 0x70000002 = 2" by code_simp
  then show ?thesis using race [of True] race [of False] by simp
qed

end
