(* ===== verification/Sriov_Pm_Props.thy ===== *)
theory Sriov_Pm_Props
  imports I915_Sriov_Props Iov_Flr Iov_Service_Props Iov_Relay_Props
begin

text \<open>
  A command for a VF on all GTs, and what a system suspend and resume does to the VFs: the pause a
  user asked for is lost with firmware of the second save/restore version, and references to the
  PCI devices of VFs are taken and not given back. The section at the end has a concrete device.
\<close>

section \<open>One command on all GTs\<close>

lemma on_all_gts_cases:
  "on_all_gts f d =
     (case f GT_PRIMARY (sd_pf d) of (r1, s1) \<Rightarrow>
        if has_media_gt (i915_of d)
        then (case f GT_MEDIA s1 of (r2, s2) \<Rightarrow>
                (if ret0 r1 = Inr 0 then ret0 r2 else ret0 r1, d\<lparr>sd_pf := s2\<rparr>))
        else (ret0 r1, d\<lparr>sd_pf := s1\<rparr>))"
  by (auto simp: on_all_gts_def sriov_gts_def for_each_gt_def on_pf_def split: prod.split)

lemma ret0_ok [simp]: "ret0 r = Inr 0 \<longleftrightarrow> r = Inr ()" "ret0 (Inr u) = Inr 0"
  by (simp_all add: ret0_def split: sum.split)

lemma control_log_other [simp]:
  "h \<noteq> g \<Longrightarrow> control_log g vf c (s\<lparr>dev := upd_gt h f (dev s)\<rparr>) = control_log g vf c s"
  "control_log g vf c (upd_data h v k s) = control_log g vf c s"
  by (simp_all add: control_log_def)

lemma resume_eq:
  "intel_iov_state_resume_vf E g vf s =
     (let r = control_result (env_guc E g (control_log g vf GUC_PF_TRIGGER_VF_RESUME s));
          s1 = s\<lparr>dev := upd_gt g (\<lambda>t. t\<lparr>guc_log := control_log g vf GUC_PF_TRIGGER_VF_RESUME s\<rparr>) (dev s)\<rparr>
      in (r, if r = Inr () then upd_data g vf (\<lambda>d. d\<lparr>paused := False\<rparr>) s1 else s1))"
  by (auto simp: intel_iov_state_resume_vf_def pf_control_vf_eq Let_def split: sum.split)

text \<open>
  Property C34. Resuming a VF sends the command to the GuC of every GT, also when the GuC of another GT
  has refused it; a VF is then running on exactly the GTs whose GuC accepted, or where it was not
  paused; and the caller gets the error of the first GT that refused, or success.
\<close>

theorem resume_vf_all_gts:
  assumes "i915_sriov_pf_resume_vf E vf d = (r, d')" "data_ready (sd_pf d)"
    and "\<And>g. reply g = control_result (env_guc (sr_iov E) g (control_log g vf GUC_PF_TRIGGER_VF_RESUME (sd_pf d)))"
  shows "(\<forall>g \<in> set (sriov_gts d).
      guc_log (gts (i915_of d') g) = control_log g vf GUC_PF_TRIGGER_VF_RESUME (sd_pf d) \<and>
      paused (vf_data g vf (sd_pf d')) = (paused (vf_data g vf (sd_pf d)) \<and> reply g \<noteq> Inr ())) \<and>
    r = (case find (\<lambda>x. x \<noteq> Inr ()) (map reply (sriov_gts d)) of None \<Rightarrow> Inr 0 | Some e \<Rightarrow> ret0 e)"
proof (cases "has_media_gt (i915_of d)")
  case False
  then show ?thesis
    using assms(1,2) assms(3) [symmetric]
    by (auto simp: i915_sriov_pf_resume_vf_def on_all_gts_cases resume_eq Let_def sriov_gts_def
        for_each_gt_def vf_data_upd)
next
  case True
  then have gts: "sriov_gts d = [GT_PRIMARY, GT_MEDIA]" by (simp add: sriov_gts_def for_each_gt_def)
  show ?thesis
    using assms(1,2) assms(3) [symmetric] True unfolding gts
    by (auto simp: i915_sriov_pf_resume_vf_def on_all_gts_cases resume_eq Let_def vf_data_upd)
qed

section \<open>Suspend and resume forget the pause of a user\<close>

text \<open>
  What the handlers may do to a VF on a GT while the driver waits: they do not touch the flag that
  marks the pause of the suspend, nor take the data away, and they report a pause only when one was
  asked for.
\<close>

definition waits_pause :: "sriov_env \<Rightarrow> intel_gt_type \<Rightarrow> nat \<Rightarrow> bool" where
  "waits_pause E g vf \<longleftrightarrow> (\<forall>n ms s. let s' = sr_wait E n ms s in
     (data_ready s \<longrightarrow> data_ready s') \<and>
     test_bit g vf IOV_VF_PAUSE_BY_SUSPEND s' = test_bit g vf IOV_VF_PAUSE_BY_SUSPEND s \<and>
     (intel_iov_state_no_pause g vf s \<longrightarrow> intel_iov_state_no_pause g vf s'))"

lemma state_reset_vf:
  assumes "data_ready s" "vf \<le> pf_get_totalvfs (dev s)"
  shows "data_ready (intel_iov_state_reset g s)" "intel_iov_state_no_pause g vf (intel_iov_state_reset g s)"
proof -
  have one: "data_ready (pf_reset_vf_state g n s) = data_ready s" "dev (pf_reset_vf_state g n s) = dev s" for n s
    by (simp_all add: pf_reset_vf_state_def)
  have reset: "intel_iov_state_no_pause g vf (pf_reset_vf_state g vf s)" if "data_ready s" for s
    using that by (simp add: intel_iov_state_no_pause_def test_bit_def pf_reset_vf_state_def vf_data_upd)
  have keep: "intel_iov_state_no_pause g vf (pf_reset_vf_state g n s)"
    if "data_ready s" "intel_iov_state_no_pause g vf s" for n s
    using that by (simp add: intel_iov_state_no_pause_def test_bit_def pf_reset_vf_state_def vf_data_upd)
  have "data_ready (fold (pf_reset_vf_state g) ns s) \<and>
      (vf \<in> set ns \<or> intel_iov_state_no_pause g vf s \<longrightarrow> intel_iov_state_no_pause g vf (fold (pf_reset_vf_state g) ns s))"
    if "data_ready s" for ns s
    using that
  proof (induction ns arbitrary: s)
    case (Cons n ns)
    then show ?case
      using Cons.IH [of "pf_reset_vf_state g n s"] reset [of s] keep [of s n] by (auto simp: one)
  qed simp
  note f = this [OF assms(1), of "[0..<1 + pf_get_totalvfs (dev s)]"]
  have "intel_iov_state_reset g s = fold (pf_reset_vf_state g) [0..<1 + pf_get_totalvfs (dev s)] s"
  proof -
    have "vf_states s g \<noteq> None" using assms(1) unfolding data_ready_def by (rule spec)
    then show ?thesis by (simp only: intel_iov_state_reset_def if_False)
  qed
  moreover have "vf \<in> set [0..<1 + pf_get_totalvfs (dev s)]" using assms(2) by (simp del: upt_Suc)
  ultimately show "data_ready (intel_iov_state_reset g s)" "intel_iov_state_no_pause g vf (intel_iov_state_reset g s)"
    using f by (metis, metis)
qed

lemma init_hw_vf:
  assumes "data_ready (sd_pf d)" "vf \<le> pf_get_totalvfs (i915_of d)"
  shows "data_ready (sd_pf (intel_iov_init_hw_pf E g d))"
    "intel_iov_state_no_pause g vf (sd_pf (intel_iov_init_hw_pf E g d))"
proof -
  define d1 where "d1 = on_iov g (intel_iov_service_update (sr_svc E g)) d"
  define d2 where "d2 = snd (on_i915 (\<lambda>s. ((), intel_iov_provisioning_restart g s)) d1)"
  have 1: "sd_pf d1 = sd_pf d"
    by (simp add: d1_def on_iov_def intel_iov_service_update_def pf_prepare_runtime_info_def Let_def)
  have 2: "data_ready (sd_pf d2)" "pf_get_totalvfs (i915_of d2) = pf_get_totalvfs (i915_of d)"
    using assms(1) by (simp_all add: d2_def on_i915_def on_pf_def 1 intel_iov_provisioning_restart_def)
  have eq: "intel_iov_init_hw_pf E g d = d2\<lparr>sd_pf := intel_iov_state_reset g (sd_pf d2)\<rparr>"
    by (simp only: intel_iov_init_hw_pf_def Let_def d1_def d2_def)
  show "data_ready (sd_pf (intel_iov_init_hw_pf E g d))"
    "intel_iov_state_no_pause g vf (sd_pf (intel_iov_init_hw_pf E g d))"
    using state_reset_vf [of "sd_pf d2" vf g] 2 assms(2) unfolding eq by simp_all
qed

text \<open>A pause that succeeds on a VF without a pause is marked as one of the suspend.\<close>

lemma pause_sync_marks:
  assumes "pf_pause_sync E g vf d = (Inr u, d')" "data_ready (sd_pf d)"
    "intel_iov_state_no_pause g vf (sd_pf d)" "waits_pause E g vf"
  shows "data_ready (sd_pf d')" "test_bit g vf IOV_VF_PAUSE_BY_SUSPEND (sd_pf d')"
proof -
  let ?w = "sr_wait E (sd_waits d) I915_VF_PAUSE_TIMEOUT_MS"
  obtain s1 where s1: "intel_iov_state_pause_vf (sr_iov E) g vf (sd_pf d) = (Inr (), s1)"
    and s': "sd_pf d' = ?w (set_bit g vf IOV_VF_PAUSE_BY_SUSPEND s1)"
    using assms(1,3)
    by (auto simp: pf_pause_sync_def on_pf_def intel_iov_state_pause_vf_sync_def Let_def
        split: prod.splits sum.splits if_splits)
  have "data_ready s1"
    using s1 assms(2) by (auto simp: intel_iov_state_pause_vf_def pf_control_vf_eq split: if_splits prod.splits sum.splits)
  then show "data_ready (sd_pf d')" "test_bit g vf IOV_VF_PAUSE_BY_SUSPEND (sd_pf d')"
    using assms(4) unfolding s' waits_pause_def Let_def by auto
qed

text \<open>
  With a firmware that saves and restores in the second way, a VF whose state the PF could
  restore after a system suspend is resumed, whether or not a user had paused it before the suspend:
  the initialisation of the GTs forgets that it was paused, the restoring pauses it once more and
  takes this pause for one of its own.
\<close>

theorem resume_forgets_pause:
  assumes "data_ready (sd_pf d)" "vf \<le> pf_get_totalvfs (i915_of d)" "waits_pause E g vf"
    and "guc_supports_save_restore_v2 E g"
    and "pf_gt_restore_vf_guc_state E vf g (intel_iov_init_hw_pf E g d) = (Inr (), d2)"
    and "pf_gt_restore_vf_running E vf g d2 = (r, d3)"
  shows "guc_log (gts (i915_of d3) g) = control_log g vf GUC_PF_TRIGGER_VF_RESUME (sd_pf d2) \<and>
    (r = Inr () \<longrightarrow> \<not> paused (vf_data g vf (sd_pf d3)))"
proof -
  let ?d1 = "intel_iov_init_hw_pf E g d"
  let ?c = "\<lambda>s. num_pushed (provisioning g (dev s)) \<ge> vf"
  note 1 = init_hw_vf [OF assms(1,2), where E = E and g = g]
  obtain x y where x: "sriov_wait_for E ?c I915_VF_REPROVISION_TIMEOUT_MS ?d1 = (True, x)"
    and y: "pf_pause_sync E g vf x = (Inr (), y)"
    and d2: "restore_guc_blob E g vf (the (guc_state_blob (vf_data g vf (sd_pf y)))) y = (Inr (), d2)"
    using assms(4,5)
    by (auto simp: pf_gt_restore_vf_guc_state_def split: option.splits prod.splits bool.splits sum.splits)
  have "data_ready (sd_pf x) \<and> intel_iov_state_no_pause g vf (sd_pf x)"
    using x 1 assms(3) by (auto simp: sriov_wait_for_def waits_pause_def Let_def split: if_splits)
  note m = pause_sync_marks [OF y conjunct1 [OF this] conjunct2 [OF this] assms(3)]
  have restored: "data_ready s' \<and> test_bit g vf b s' = test_bit g vf b s"
    if "intel_iov_state_restore_vf I g vf buf s = (q, s')" "data_ready s" for I buf s q s' b
    using that by (auto simp: intel_iov_state_restore_vf_def pf_restore_vf_def split: prod.splits sum.splits if_splits)
  have upd: "test_bit g vf b (upd_data g vf (\<lambda>x. x\<lparr>guc_state_blob := None\<rparr>) s) = test_bit g vf b s"
    if "data_ready s" for b s
    using that by (simp add: test_bit_def vf_data_upd)
  have 2: "data_ready (sd_pf d2)" "test_bit g vf IOV_VF_PAUSE_BY_SUSPEND (sd_pf d2)"
    using d2 m by (auto simp: restore_guc_blob_def on_pf_def upd split: prod.splits sum.splits dest!: restored)
  show ?thesis
    using assms(6) 2
    by (auto simp: pf_gt_restore_vf_running_def on_pf_def restore_vf_running_def resume_eq Let_def vf_data_upd)
qed

section \<open>References to the VFs\<close>

definition same_refs :: "sriov_device \<Rightarrow> sriov_device \<Rightarrow> bool" where
  "same_refs d d' \<longleftrightarrow> vf_refs d' = vf_refs d \<and> pci_num_vf (i915_of d') = pci_num_vf (i915_of d)"

interpretation refs: loop_frame same_refs
  by unfold_locales (auto simp: same_refs_def)

lemma needs_refs: "needs_save_restore E vf d = (b, d') \<Longrightarrow>
    vf_refs d' = vf_refs d \<and> sd_pf d' = sd_pf d \<and> b = (sr_vf_dev E vf = Other_driver)"
  by (auto simp: needs_save_restore_def i915_pci_pf_get_vf_dev_def pci_dev_put_def fun_eq_iff split: if_splits)

lemma restore_pci_refs:
  "distinct ns \<Longrightarrow> vf_refs (restore_pci_loop E ns d) vf =
     vf_refs d vf + (if vf \<in> set ns \<and> sr_vf_dev E vf \<in> {No_driver, Same_driver} then 1 else 0)"
proof (induction ns arbitrary: d)
  case (Cons n ns)
  show ?case
  proof (cases "sr_vf_dev E n = No_device")
    case True
    then show ?thesis using Cons by (auto simp: i915_pci_pf_get_vf_dev_def)
  next
    case False
    define d1 where "d1 = d\<lparr>vf_refs := (vf_refs d)(n := Suc (vf_refs d n))\<rparr>"
    obtain b d2 where n: "needs_save_restore E n d1 = (b, d2)" by force
    note r = needs_refs [OF n]
    have e: "restore_pci_loop E (n # ns) d = restore_pci_loop E ns
        (if b then pci_dev_put n (d2\<lparr>pci_restored := n # pci_restored d2\<rparr>) else d2)"
      using False n by (simp add: i915_pci_pf_get_vf_dev_def d1_def split: bool.split)
    show ?thesis
      unfolding e using Cons r False by (cases "sr_vf_dev E n") (auto simp: pci_dev_put_def d1_def)
  qed
qed simp

lemma on_pf_refs: "(\<And>s. same_device (dev s) (dev (snd (f s)))) \<Longrightarrow> same_refs d (snd (on_pf f d))"
  using on_pf_same [of f d] by (auto simp: same_refs_def sriov_sameD on_pf_def split: prod.splits)

lemma same_refsI: "sriov_same d d' \<Longrightarrow> vf_refs d' = vf_refs d \<Longrightarrow> same_refs d d'"
  by (simp add: same_refs_def sriov_sameD)

lemma restore_state_refs: "waits_keep E \<Longrightarrow> same_refs d (snd (pf_gt_restore_vf_guc_state E vf g d))"
proof (rule same_refsI [OF restore_state_same])
  have w: "vf_refs x' = vf_refs x" if "sriov_wait_for E c ms x = (ok, x')" for c ms x ok x'
    using that by (auto simp: sriov_wait_for_def Let_def split: if_splits)
  have p: "vf_refs x' = vf_refs x" if "pf_pause_sync E g vf x = (q, x')" for x q x'
    using that by (auto simp: pf_pause_sync_def on_pf_def split: prod.splits)
  have r: "vf_refs (snd (restore_guc_blob E g vf b x)) = vf_refs x" for b x
    by (simp add: restore_guc_blob_def on_pf_def split: prod.split)
  show "vf_refs (snd (pf_gt_restore_vf_guc_state E vf g d)) = vf_refs d"
    by (auto simp: pf_gt_restore_vf_guc_state_def r split: option.split prod.split bool.split sum.split if_splits
        dest!: w p)
qed

lemma vfs_until_error_refs:
  assumes "\<And>n g d. same_refs d (snd (f n g d))"
  shows "same_refs d (vfs_until_error E f ns d)"
proof (induction ns arbitrary: d)
  case (Cons n ns)
  have "same_refs x (snd (try_gts (f n) (sriov_gts y) x))" for x y by (rule refs.try_gts [OF assms])
  then have t: "same_refs x z" if "try_gts (f n) (sriov_gts y) x = (r, z)" for x y r z using that by (metis snd_conv)
  have q: "same_refs x z" if "needs_save_restore E n x = (b, z)" for x b z
    using needs_refs [OF that] by (simp add: same_refs_def)
  show ?case
    using Cons.IH by (auto split: prod.split sum.split bool.split dest!: q t intro: refs.R_trans)
qed (simp add: refs.R_refl)

text \<open>
  Each resume of the system leaves the PF with one more reference to the PCI device of
  every enabled VF whose driver is not a foreign one: the loop that restores the PCI state takes a
  reference and goes on to the next VF without giving it back. The references to the other devices
  are balanced.
\<close>

theorem resume_leaks_reference:
  assumes "waits_keep E" "1 \<le> vf" "vf \<le> pf_get_numvfs (i915_of d)"
  shows "vf_refs (i915_sriov_resume E True d) vf =
    vf_refs d vf + (if sr_vf_dev E vf \<in> {No_driver, Same_driver} then 1 else 0)"
proof -
  define n where "n = pf_get_numvfs (i915_of d)"
  define d1 where "d1 = restore_pci_loop E [1..<Suc n] d"
  define d2 where "d2 = pf_restore_vfs_guc_state E n d1"
  define d3 where "d3 = pf_restore_vfs_irqs E n d2"
  define d4 where "d4 = pf_restore_vfs_running E n d3"
  have n: "n \<noteq> 0" using assms(2,3) by (simp add: n_def)
  have eq: "pf_resume_active_vfs E d = d4"
    unfolding pf_resume_active_vfs_def Let_def n_def [symmetric] pf_restore_vfs_pci_state_def
      d1_def [symmetric] d2_def [symmetric] d3_def [symmetric] d4_def [symmetric] using n by simp
  have "same_refs d1 d2"
    unfolding d2_def pf_restore_vfs_guc_state_def by (rule vfs_until_error_refs [OF restore_state_refs [OF assms(1)]])
  moreover have "same_refs d2 d3" by (simp add: d3_def pf_restore_vfs_irqs_def same_refs_def)
  moreover have "same_refs d3 d4"
  proof -
    have "same_device (dev s) (dev (snd (restore_vf_running I g v s)))" for I g v s
      using state_ops_same(3) [of "clear_bit g v IOV_VF_PAUSE_BY_SUSPEND s" I g v]
      by (auto simp: restore_vf_running_def)
    then have "same_refs x (snd (pf_gt_restore_vf_running E v g x))" for v g x
      unfolding pf_gt_restore_vf_running_def by (rule on_pf_refs)
    then show ?thesis
      unfolding d4_def pf_restore_vfs_running_def by (intro refs.fold_loop refs.try_gts)
  qed
  ultimately have "vf_refs d4 = vf_refs d1" by (simp add: same_refs_def)
  moreover have "vf_refs (fold intel_gt_pm_get gs x) = vf_refs x" for gs x
    by (induction gs arbitrary: x) (simp_all add: intel_gt_pm_get_def)
  ultimately have "vf_refs (i915_sriov_resume E True d) vf = vf_refs d1 vf"
    by (simp add: i915_sriov_resume_def Let_def eq)
  also have "\<dots> = vf_refs d vf + (if sr_vf_dev E vf \<in> {No_driver, Same_driver} then 1 else 0)"
    unfolding d1_def using restore_pci_refs [of "[1..<Suc n]" E d vf] assms(2,3) by (simp add: n_def del: upt_Suc)
  finally show ?thesis .
qed

section \<open>A concrete device\<close>

text \<open>
  Two GTs whose GuCs accept every command; two VFs, nothing provisioned, automatic provisioning turned
  off; a foreign driver on the first VF, the driver of the PF on the second. While the driver waits
  the worker pushes the configurations, or the GuC reports that a pause in progress is done.
\<close>

definition demo_wait :: "nat \<Rightarrow> nat \<Rightarrow> pf_state \<Rightarrow> pf_state" where
  "demo_wait n ms s =
     (if ms = I915_VF_REPROVISION_TIMEOUT_MS
      then s\<lparr>dev := upd_prov GT_PRIMARY (\<lambda>p. p\<lparr>num_pushed := 2\<rparr>) (dev s)\<rparr>
      else if test_bit GT_PRIMARY 1 IOV_VF_PAUSE_IN_PROGRESS s then pf_handle_vf_pause_done GT_PRIMARY 1 s
      else s)"

definition demo_env :: sriov_env where
  "demo_env =
     \<lparr>sr_iov = ack_env, sr_svc = (\<lambda>_. mmio_demo_env), sr_wait = demo_wait, sr_pci_enable = (\<lambda>_. Inr ()),
      sr_vfs_assigned = False, sr_vf_dev = (\<lambda>v. if v = 1 then Other_driver else Same_driver),
      sr_meteorlake = False, sr_has_gsc = (\<lambda>_. False), sr_gsc_idle = (\<lambda>_. True),
      sr_engine_sched = (\<lambda>_ _. Inr ()), sr_gsc_reset = (\<lambda>_. Inr ()), sr_pxp_init = Inr (),
      sr_guc_version = (\<lambda>_. MAKE_GUC_VER 70 29 2), sr_written = (\<lambda>_ _. []), sr_ip_12_50 = True,
      sr_wedged = (\<lambda>_. False)\<rparr>"

definition demo_device :: "bool \<Rightarrow> intel_iov_data \<Rightarrow> sriov_device" where
  "demo_device media x =
     \<lparr>sd_pf = \<lparr>dev = fresh_state\<lparr>disable_auto_provisioning := True, has_media_gt := media\<rparr>,
               vf_states = (\<lambda>_. Some (\<lambda>_. x)), state_worker = (\<lambda>_. False)\<rparr>,
      sd_relay = (\<lambda>_. relay_boot), sd_runtime = (\<lambda>_. \<lparr>rt_size = 0, rt_regs = [], rt_values = []\<rparr>),
      sd_reads = (\<lambda>_. 0), device_vfs = 2, gt_pm = (\<lambda>_. 0), gsc_on = (\<lambda>_. True), vf_refs = (\<lambda>_. 0),
      pci_restored = [], irq_writes = [], sysfs_links = False, sd_waits = 0\<rparr>"

lemma demo_waits: "waits_keep demo_env" "waits_pause demo_env GT_PRIMARY 1"
  by (auto simp: waits_keep_def waits_pause_def demo_env_def demo_wait_def same_device_def Let_def
      pf_handle_vf_pause_done_def intel_iov_state_no_pause_def put_bit_def test_bit_def vf_data_def
      upd_data_def data_ready_def split: option.split)

lemma demo_enabled: "fst (i915_sriov_pf_enable_vfs demo_env 2 (demo_device True zero_data)) = Inr 2"
  by code_simp

lemma enable_vfs_outcome_witness:
  "\<exists>d'. i915_sriov_pf_enable_vfs demo_env 2 (demo_device True zero_data) = (Inr 2, d') \<and>
     sysfs_links d' \<and> num_pushed (provisioning GT_MEDIA (i915_of d')) = 2"
proof -
  obtain r d' where e: "i915_sriov_pf_enable_vfs demo_env 2 (demo_device True zero_data) = (r, d')" by force
  then have "r = Inr 2" using demo_enabled by simp
  moreover have "GT_MEDIA \<in> set (sriov_gts (demo_device True zero_data))"
    by (simp add: sriov_gts_def for_each_gt_def demo_device_def)
  ultimately show ?thesis using enable_vfs_outcome [OF e] e by auto
qed

lemma sriov_holds_gts_witness:
  "\<exists>d1 d2. sriov_reach demo_env (True, demo_device True zero_data) (True, d1) \<and>
     pci_num_vf (i915_of d1) = 2 \<and> gt_pm d1 GT_MEDIA = 1 \<and>
     sriov_step demo_env (True, d1) (False, d2) \<and> pci_num_vf (i915_of d2) = 2 \<and> gt_pm d2 GT_MEDIA = 0"
proof -
  let ?d = "demo_device True zero_data"
  obtain r d1 where e: "i915_sriov_pf_enable_vfs demo_env 2 ?d = (r, d1)" by force
  let ?d2 = "i915_sriov_suspend_prepare demo_env True d1"
  have "pci_num_vf (i915_of (snd (i915_sriov_pf_enable_vfs demo_env 2 ?d))) = 2 \<and>
      has_media_gt (i915_of (snd (i915_sriov_pf_enable_vfs demo_env 2 ?d)))" by code_simp
  then have n: "pci_num_vf (i915_of d1) = 2" "has_media_gt (i915_of d1)" using e by simp_all
  have "sriov_step demo_env (True, ?d) (True, d1)"
    by (rule sriov_step.enable [OF _ _ _ e]) (simp_all add: demo_device_def fresh_state_def)
  then have reach1: "sriov_reach demo_env (True, ?d) (True, d1)" by (rule sriov_reach.step [OF sriov_reach.start])
  have st: "sriov_step demo_env (True, d1) (False, ?d2)" by (rule sriov_step.suspend)
  then have reach2: "sriov_reach demo_env (True, ?d) (False, ?d2)" by (rule sriov_reach.step [OF reach1])
  have h: "vfs_hold_gts (\<lambda>_. 0) (True, ?d)" by (simp add: vfs_hold_gts_def demo_device_def fresh_state_def)
  have h1: "vfs_hold_gts (\<lambda>_. 0) (True, d1)" by (rule sriov_holds_gts [OF demo_waits(1) reach1 h])
  have h2: "vfs_hold_gts (\<lambda>_. 0) (False, ?d2)" by (rule sriov_holds_gts [OF demo_waits(1) reach2 h])
  have m: "GT_MEDIA \<in> set (sriov_gts d1)" using n by (simp add: sriov_gts_def for_each_gt_def)
  have "gt_pm d1 GT_MEDIA = 1" using h1 m n by (simp add: vfs_hold_gts_def)
  moreover have "pci_num_vf (i915_of ?d2) = 2" "gt_pm ?d2 GT_MEDIA = 0"
    using h2 m n hold_suspend(2,3) [OF demo_waits(1) h1] by (simp_all add: vfs_hold_gts_def)
  ultimately show ?thesis using reach1 n st by blast
qed

lemma resume_vf_all_gts_witness:
  "let d = demo_device True (zero_data\<lparr>paused := True\<rparr>);
       (r, d') = i915_sriov_pf_resume_vf demo_env 1 d
   in r = Inr 0 \<and> paused (vf_data GT_MEDIA 1 (sd_pf d)) \<and> \<not> paused (vf_data GT_MEDIA 1 (sd_pf d'))"
proof -
  define d where "d = demo_device True (zero_data\<lparr>paused := True\<rparr>)"
  obtain r d' where e: "i915_sriov_pf_resume_vf demo_env 1 d = (r, d')" by force
  have g: "sriov_gts d = [GT_PRIMARY, GT_MEDIA]" "data_ready (sd_pf d)" "paused (vf_data GT_MEDIA 1 (sd_pf d))"
    by (simp_all add: d_def demo_device_def sriov_gts_def for_each_gt_def data_ready_def vf_data_def)
  have "Inr () = control_result (env_guc (sr_iov demo_env) g (control_log g 1 GUC_PF_TRIGGER_VF_RESUME (sd_pf d)))" for g
    by (simp add: demo_env_def)
  from resume_vf_all_gts [OF e g(2) this] have "r = Inr 0" "\<not> paused (vf_data GT_MEDIA 1 (sd_pf d'))"
    using g by auto
  then show ?thesis using e g(3) unfolding d_def [symmetric] by simp
qed

lemma resume_forgets_pause_witness:
  "let d = demo_device False (zero_data\<lparr>paused := True, guc_state_blob := Some (replicate 8 0)\<rparr>);
       d2 = snd (pf_gt_restore_vf_guc_state demo_env 1 GT_PRIMARY (intel_iov_init_hw_pf demo_env GT_PRIMARY d));
       d3 = snd (pf_gt_restore_vf_running demo_env 1 GT_PRIMARY d2)
   in paused (vf_data GT_PRIMARY 1 (sd_pf d)) \<and> \<not> paused (vf_data GT_PRIMARY 1 (sd_pf d3))"
proof -
  define d where "d = demo_device False (zero_data\<lparr>paused := True, guc_state_blob := Some (replicate 8 0)\<rparr>)"
  define restored where
    "restored = pf_gt_restore_vf_guc_state demo_env 1 GT_PRIMARY (intel_iov_init_hw_pf demo_env GT_PRIMARY d)"
  obtain r2 d2 where 2: "restored = (r2, d2)" by force
  obtain r3 d3 where 3: "pf_gt_restore_vf_running demo_env 1 GT_PRIMARY d2 = (r3, d3)" by force
  have "fst restored = Inr () \<and> fst (pf_gt_restore_vf_running demo_env 1 GT_PRIMARY (snd restored)) = Inr ()"
    unfolding restored_def d_def by code_simp
  then have r: "r2 = Inr ()" "r3 = Inr ()" using 2 3 by simp_all
  have d: "data_ready (sd_pf d)" "1 \<le> pf_get_totalvfs (i915_of d)" "paused (vf_data GT_PRIMARY 1 (sd_pf d))"
    by (simp_all add: d_def demo_device_def data_ready_def pf_get_totalvfs_def fresh_state_def vf_data_def)
  have v2: "guc_supports_save_restore_v2 demo_env GT_PRIMARY" by code_simp
  from resume_forgets_pause [OF d(1,2) demo_waits(2) v2 2 [unfolded restored_def r] 3] d(3) r
  show ?thesis using 2 3 unfolding d_def [symmetric] Let_def restored_def by simp
qed

lemma resume_leaks_reference_witness:
  "let d = snd (on_i915 (\<lambda>s. ((), s\<lparr>pci_num_vf := 2\<rparr>)) (demo_device True zero_data))
   in vf_refs (i915_sriov_resume demo_env True d) 2 = 1 \<and> vf_refs (i915_sriov_resume demo_env True d) 1 = 0"
proof -
  define d where "d = snd (on_i915 (\<lambda>s. ((), s\<lparr>pci_num_vf := 2\<rparr>)) (demo_device True zero_data))"
  have "pf_get_numvfs (i915_of d) = 2" "vf_refs d = (\<lambda>_. 0)"
    by (simp_all add: d_def on_i915_def on_pf_def demo_device_def pf_get_numvfs_def)
  then have "vf_refs (i915_sriov_resume demo_env True d) 2 = 1" "vf_refs (i915_sriov_resume demo_env True d) 1 = 0"
    using resume_leaks_reference [OF demo_waits(1), of 2 d] resume_leaks_reference [OF demo_waits(1), of 1 d]
    by (simp_all add: demo_env_def)
  then show ?thesis unfolding d_def [symmetric] by (simp add: Let_def)
qed

end
