(* ===== verification/Guc_Mmio.thy ===== *)
theory Guc_Mmio
  imports Guc_Hxg
begin

text \<open>
  Requests to the GuC over MMIO registers (\<open>intel_guc_send_mmio\<close> of \<open>gt/uc/intel_guc.c\<close>) and
  the self-configuration built on them. The registers are shared with the GuC: what the driver
  finds there is a function of the number of waits made so far, so that the theorems hold for
  every behaviour of the GuC that their hypotheses allow. A wait ends with the last header read;
  whether it was successful is what its condition says of that header.
\<close>

section \<open>The registers\<close>

record mmio_env =
  env_header :: "nat \<Rightarrow> u32"
  env_reg :: "nat \<Rightarrow> nat \<Rightarrow> u32"
  env_is_vf :: bool
  send_regs_count :: nat

text \<open>\<open>mmio_log\<close> is the list of the requests written so far, the last one first.\<close>

record guc_mmio =
  mmio_log :: "u32 list list"
  mmio_waits :: nat

definition mmio_write_request :: "u32 list \<Rightarrow> guc_mmio \<Rightarrow> guc_mmio" where
  "mmio_write_request req m = m\<lparr>mmio_log := req # mmio_log m\<rparr>"

definition mmio_wait :: "mmio_env \<Rightarrow> guc_mmio \<Rightarrow> u32 \<times> guc_mmio" where
  "mmio_wait E m = (env_header E (mmio_waits m), m\<lparr>mmio_waits := Suc (mmio_waits m)\<rparr>)"

section \<open>One request\<close>

definition mmio_not_busy :: "u32 \<Rightarrow> bool" where
  "mmio_not_busy header \<longleftrightarrow>
     GUC_HXG_MSG_0_ORIGIN header \<noteq> GUC_HXG_ORIGIN_GUC \<or>
     GUC_HXG_MSG_0_TYPE header \<noteq> GUC_HXG_TYPE_NO_RESPONSE_BUSY"

text \<open>While the GuC is busy: one wait and \<open>n\<close> more.\<close>

primrec mmio_busy_loop :: "mmio_env \<Rightarrow> nat \<Rightarrow> guc_mmio \<Rightarrow> u32 res \<times> guc_mmio" where
  "mmio_busy_loop E 0 m =
     (case mmio_wait E m of (h, m1) \<Rightarrow> (if mmio_not_busy h then Inr h else Inl ETIMEDOUT, m1))"
| "mmio_busy_loop E (Suc n) m =
     (case mmio_wait E m of (h, m1) \<Rightarrow>
        if mmio_not_busy h then (Inr h, m1) else mmio_busy_loop E n m1)"

text \<open>From the writing of the request to the header that ends the attempt.\<close>

definition mmio_attempt :: "mmio_env \<Rightarrow> u32 list \<Rightarrow> guc_mmio \<Rightarrow> u32 res \<times> guc_mmio" where
  "mmio_attempt E req m =
     (case mmio_wait E (mmio_write_request req m) of (h, m1) \<Rightarrow>
        if GUC_HXG_MSG_0_ORIGIN h \<noteq> GUC_HXG_ORIGIN_GUC then (Inl ETIMEDOUT, m1)
        else if GUC_HXG_MSG_0_TYPE h = GUC_HXG_TYPE_NO_RESPONSE_BUSY then
          (case mmio_busy_loop E (if env_is_vf E then 19 else 0) m1 of
             (Inl e, m2) \<Rightarrow> (Inl e, m2)
           | (Inr h2, m2) \<Rightarrow>
               (if GUC_HXG_MSG_0_ORIGIN h2 \<noteq> GUC_HXG_ORIGIN_GUC then Inl EPROTO else Inr h2, m2))
        else (Inr h, m1))"

text \<open>The return value and, where the caller has a buffer, the reply.\<close>

definition mmio_reply :: "mmio_env \<Rightarrow> u32 \<Rightarrow> nat option \<Rightarrow> guc_mmio \<Rightarrow> u32 res \<times> u32 list" where
  "mmio_reply E header bufsize m =
     (if GUC_HXG_MSG_0_TYPE header = GUC_HXG_TYPE_RESPONSE_FAILURE then (Inl ENXIO, [])
      else if GUC_HXG_MSG_0_TYPE header \<noteq> GUC_HXG_TYPE_RESPONSE_SUCCESS then (Inl EPROTO, [])
      else case bufsize of
        None \<Rightarrow> (Inr (GUC_HXG_MSG_0_AUX header), [])
      | Some n \<Rightarrow>
          (let count = min n (send_regs_count E)
           in (Inr (of_nat count),
               header # map (env_reg E (mmio_waits m)) [1..<count])))"

text \<open>The driver repeats the request as often as the GuC asks for it, so it may not return.\<close>

partial_function (option) intel_guc_send_mmio ::
    "mmio_env \<Rightarrow> u32 list \<Rightarrow> nat option \<Rightarrow> guc_mmio \<Rightarrow> ((u32 res \<times> u32 list) \<times> guc_mmio) option"
  where
  "intel_guc_send_mmio E req bufsize m =
     (case mmio_attempt E req m of
        (Inl e, m1) \<Rightarrow> Some ((Inl e, []), m1)
      | (Inr header, m1) \<Rightarrow>
          if GUC_HXG_MSG_0_TYPE header = GUC_HXG_TYPE_NO_RESPONSE_RETRY
          then intel_guc_send_mmio E req bufsize m1
          else Some (mmio_reply E header bufsize m1, m1))"

section \<open>Self configuration\<close>

abbreviation GUC_ACTION_HOST2GUC_SELF_CFG :: u32 where "GUC_ACTION_HOST2GUC_SELF_CFG \<equiv> 0x0508"

definition self_cfg_request :: "u16 \<Rightarrow> u16 \<Rightarrow> u64 \<Rightarrow> u32 list" where
  "self_cfg_request key len value =
     [hxg_request_msg GUC_HXG_ORIGIN_HOST GUC_HXG_TYPE_REQUEST GUC_ACTION_HOST2GUC_SELF_CFG 0,
      FIELD_PREP 16 16 (ucast key) OR FIELD_PREP 16 0 (ucast len),
      lower_32_bits value, upper_32_bits value]"

definition guc_action_self_cfg ::
    "mmio_env \<Rightarrow> u16 \<Rightarrow> u16 \<Rightarrow> u64 \<Rightarrow> guc_mmio \<Rightarrow> (unit res \<times> guc_mmio) option" where
  "guc_action_self_cfg E key len value m =
     (case intel_guc_send_mmio E (self_cfg_request key len value) None m of
        None \<Rightarrow> None
      | Some ((Inl e, _), m1) \<Rightarrow> Some (Inl e, m1)
      | Some ((Inr ret, _), m1) \<Rightarrow>
          Some (if ret > 1 then Inl EPROTO else if ret = 0 then Inl ENOKEY else Inr (), m1))"

definition intel_guc_self_cfg32 ::
    "mmio_env \<Rightarrow> u16 \<Rightarrow> u32 \<Rightarrow> guc_mmio \<Rightarrow> (unit res \<times> guc_mmio) option" where
  "intel_guc_self_cfg32 E key value m = guc_action_self_cfg E key 1 (ucast value) m"

definition intel_guc_self_cfg64 ::
    "mmio_env \<Rightarrow> u16 \<Rightarrow> u64 \<Rightarrow> guc_mmio \<Rightarrow> (unit res \<times> guc_mmio) option" where
  "intel_guc_self_cfg64 E key value m = guc_action_self_cfg E key 2 value m"

section \<open>The request comes back\<close>

lemma mmio_busy_loop_waits:
  "mmio_busy_loop E n m = (r, m') \<Longrightarrow>
     mmio_log m' = mmio_log m \<and> mmio_waits m < mmio_waits m' \<and> mmio_waits m' \<le> mmio_waits m + Suc n"
proof (induction n arbitrary: m)
  case 0
  then show ?case by (auto simp: mmio_wait_def)
next
  case (Suc n)
  then show ?case
    by (cases "mmio_not_busy (env_header E (mmio_waits m))") (fastforce simp: mmio_wait_def)+
qed

text \<open>An attempt makes one to 21 waits, and only one to two of them on the PF.\<close>

lemma mmio_attempt_waits:
  assumes "mmio_attempt E req m = (r, m')"
  shows "mmio_log m' = req # mmio_log m" "mmio_waits m < mmio_waits m'"
    "mmio_waits m' \<le> mmio_waits m + (if env_is_vf E then 21 else 2)"
proof -
  let ?b = "mmio_busy_loop E (if env_is_vf E then 19 else 0)
              (m\<lparr>mmio_log := req # mmio_log m, mmio_waits := Suc (mmio_waits m)\<rparr>)"
  obtain rb mb where b: "?b = (rb, mb)" by fastforce
  have "mmio_log mb = req # mmio_log m \<and> mmio_waits m < mmio_waits mb \<and>
      mmio_waits mb \<le> mmio_waits m + (if env_is_vf E then 21 else 2)"
    using mmio_busy_loop_waits [OF b] by (auto split: if_splits)
  moreover have "m' = mb \<or> m' = m\<lparr>mmio_log := req # mmio_log m, mmio_waits := Suc (mmio_waits m)\<rparr>"
    using assms b
    by (auto simp: mmio_attempt_def mmio_wait_def mmio_write_request_def split: if_splits sum.splits)
  ultimately show "mmio_log m' = req # mmio_log m" "mmio_waits m < mmio_waits m'"
      "mmio_waits m' \<le> mmio_waits m + (if env_is_vf E then 21 else 2)"
    by auto
qed

text \<open>The GuC stops asking for a repetition after \<open>k\<close> more waits.\<close>

definition no_retry_after :: "mmio_env \<Rightarrow> nat \<Rightarrow> bool" where
  "no_retry_after E k \<longleftrightarrow>
     (\<forall>n \<ge> k. GUC_HXG_MSG_0_TYPE (env_header E n) \<noteq> GUC_HXG_TYPE_NO_RESPONSE_RETRY)"

lemma mmio_busy_loop_header:
  "mmio_busy_loop E n m = (Inr h, m') \<Longrightarrow> \<exists>k \<ge> mmio_waits m. h = env_header E k"
proof (induction n arbitrary: m)
  case 0
  then show ?case by (auto simp: mmio_wait_def split: if_splits)
next
  case (Suc n)
  show ?case
  proof (cases "mmio_not_busy (env_header E (mmio_waits m))")
    case True
    then show ?thesis using Suc.prems by (auto simp: mmio_wait_def)
  next
    case False
    then have "mmio_busy_loop E n (m\<lparr>mmio_waits := Suc (mmio_waits m)\<rparr>) = (Inr h, m')"
      using Suc.prems by (simp add: mmio_wait_def)
    from Suc.IH [OF this] show ?thesis by (auto intro: Suc_leD)
  qed
qed

lemma mmio_attempt_header:
  assumes "mmio_attempt E req m = (Inr h, m')"
  shows "\<exists>k \<ge> mmio_waits m. h = env_header E k"
proof -
  consider "h = env_header E (mmio_waits m)"
    | m1 m2 where "mmio_busy_loop E (if env_is_vf E then 19 else 0) m1 = (Inr h, m2)"
        "mmio_waits m1 = Suc (mmio_waits m)"
    using assms
    by (auto simp: mmio_attempt_def mmio_wait_def mmio_write_request_def simp del: mmio_busy_loop.simps
        split: if_splits sum.splits prod.splits)
  then show ?thesis
  proof cases
    case 1
    then show ?thesis by blast
  next
    case 2
    from mmio_busy_loop_header [OF 2(1)] 2(2) show ?thesis by (auto intro: Suc_leD)
  qed
qed

lemma send_mmio_ends:
  assumes "no_retry_after E k"
  shows "\<exists>r m'. intel_guc_send_mmio E req bufsize m = Some (r, m')"
proof (induction "k - mmio_waits m" arbitrary: m rule: less_induct)
  case less
  obtain r m1 where a: "mmio_attempt E req m = (r, m1)" by fastforce
  show ?case
  proof (cases r)
    case (Inl e)
    then show ?thesis using a by (simp add: intel_guc_send_mmio.simps)
  next
    case (Inr h)
    show ?thesis
    proof (cases "GUC_HXG_MSG_0_TYPE h = GUC_HXG_TYPE_NO_RESPONSE_RETRY")
      case False
      then show ?thesis using a Inr by (simp add: intel_guc_send_mmio.simps)
    next
      case True
      obtain j where "mmio_waits m \<le> j" "h = env_header E j"
        using mmio_attempt_header a Inr by blast
      then have "mmio_waits m < k"
        using True assms unfolding no_retry_after_def by (metis le_trans linorder_not_le)
      with mmio_attempt_waits(2) [OF a] have "k - mmio_waits m1 < k - mmio_waits m" by simp
      from less.hyps [OF this] show ?thesis
        using a Inr True by (simp add: intel_guc_send_mmio.simps [of E req bufsize m])
    qed
  qed
qed

end
