(* ===== verification/Iov_Query.thy ===== *)
theory Iov_Query
  imports Guc_Mmio Iov_Service
begin

text \<open>
  The VF driver learns its configuration (\<open>gt/iov/intel_iov_query.c\<close>): from the GuC over MMIO
  the interface version, its share of the GGTT, of the contexts and doorbells; from the PF, over
  the MMIO relay or the relay, the ABI version and the runtime registers; and it sends its updates
  of the GGTT to the PF. The GuC and the PF are behind the environments of \<open>Guc_Mmio\<close> and
  \<open>Iov_Relay\<close>; the numbers and fields of the messages to the PF are those of \<open>Iov_Service\<close>.
\<close>

section \<open>Data\<close>

record guc_abi_version =
  abi_branch :: u8
  abi_major :: u8
  abi_minor :: u8
  abi_patch :: u8

record intel_iov_vf_config =
  guc_abi :: guc_abi_version
  ggtt_base :: u64
  ggtt_size :: u64
  vf_num_ctxs :: u16
  vf_num_dbs :: u16

record ip_version =
  ip_ver :: u32
  ip_rel :: u32
  ip_step :: u32

text \<open>
  The VF side of \<open>struct intel_iov\<close>. \<open>vf_regs\<close> is the allocated array of pairs of offset and
  value, \<open>vf_regs_size\<close> the number of its entries in use.
\<close>

record intel_iov_vf =
  vf_relay :: intel_iov_relay
  vf_mmio :: guc_mmio
  vf_config :: intel_iov_vf_config
  vf_ip :: ip_version
  vf_regs :: "(u32 \<times> u32) list"
  vf_regs_size :: nat
  vf_allocs :: nat

datatype (plugins only: code) vf_platform = VF_PLATFORM_12_70 | VF_PLATFORM_TGL_ADL | VF_PLATFORM_OTHER

text \<open>\<open>query_crc32\<close> is the \<open>crc32_le\<close> of the kernel.\<close>

record query_env =
  query_mmio :: mmio_env
  query_relay :: relay_env
  query_alloc :: "nat \<Rightarrow> bool"
  query_platform :: vf_platform
  query_has_gmd_id :: bool
  query_crc32 :: "u32 list \<Rightarrow> u32"

definition on_mmio ::
    "(guc_mmio \<Rightarrow> ('a \<times> guc_mmio) option) \<Rightarrow> intel_iov_vf \<Rightarrow> ('a \<times> intel_iov_vf) option" where
  "on_mmio f w = map_option (\<lambda>(r, m). (r, w\<lparr>vf_mmio := m\<rparr>)) (f (vf_mmio w))"

definition on_vf_relay ::
    "(intel_iov_relay \<Rightarrow> ('a \<times> intel_iov_relay) option) \<Rightarrow> intel_iov_vf \<Rightarrow> ('a \<times> intel_iov_vf) option" where
  "on_vf_relay f w = map_option (\<lambda>(r, x). (r, w\<lparr>vf_relay := x\<rparr>)) (f (vf_relay w))"

section \<open>The interface version of the GuC\<close>

abbreviation (input) GUC_ACTION_VF2GUC_MATCH_VERSION :: u32 where "GUC_ACTION_VF2GUC_MATCH_VERSION \<equiv> 0x5500"
abbreviation (input) GUC_ACTION_VF2GUC_VF_RESET :: u32 where "GUC_ACTION_VF2GUC_VF_RESET \<equiv> 0x5507"
abbreviation (input) GUC_ACTION_VF2GUC_QUERY_SINGLE_KLV :: u32 where "GUC_ACTION_VF2GUC_QUERY_SINGLE_KLV \<equiv> 0x5509"
abbreviation (input) GUC_ACTION_VF2GUC_MMIO_RELAY_SERVICE :: u32 where "GUC_ACTION_VF2GUC_MMIO_RELAY_SERVICE \<equiv> 0x5005"
abbreviation (input) GUC_VERSION_BRANCH_ANY :: u32 where "GUC_VERSION_BRANCH_ANY \<equiv> 0"
abbreviation (input) GUC_VERSION_MAJOR_ANY :: u32 where "GUC_VERSION_MAJOR_ANY \<equiv> 0"
abbreviation (input) GUC_VERSION_MINOR_ANY :: u32 where "GUC_VERSION_MINOR_ANY \<equiv> 0"
abbreviation (input) GUC_VF_VERSION_LATEST_MAJOR :: u32 where "GUC_VF_VERSION_LATEST_MAJOR \<equiv> 1"
abbreviation (input) GUC_VF_VERSION_LATEST_MINOR :: u32 where "GUC_VF_VERSION_LATEST_MINOR \<equiv> 1"

abbreviation vf_request :: "u32 \<Rightarrow> u32" where
  "vf_request action \<equiv> hxg_request_msg GUC_HXG_ORIGIN_HOST GUC_HXG_TYPE_REQUEST action 0"

definition guc_action_vf_reset :: "query_env \<Rightarrow> intel_iov_vf \<Rightarrow> (unit res \<times> intel_iov_vf) option" where
  "guc_action_vf_reset E w =
     (case on_mmio (intel_guc_send_mmio (query_mmio E) [vf_request GUC_ACTION_VF2GUC_VF_RESET] None) w of
        None \<Rightarrow> None
      | Some ((Inl e, _), w1) \<Rightarrow> Some (Inl e, w1)
      | Some ((Inr ret, _), w1) \<Rightarrow> Some (if ret > 0 then Inl EPROTO else Inr (), w1))"

definition vf_reset_guc_state :: "query_env \<Rightarrow> intel_iov_vf \<Rightarrow> (unit res \<times> intel_iov_vf) option" where
  "vf_reset_guc_state E w = guc_action_vf_reset E w"

text \<open>Branch, major and minor version of the request; the answer has a patch level too.\<close>

definition match_version_request :: "u32 \<Rightarrow> u32 \<Rightarrow> u32 \<Rightarrow> u32 list" where
  "match_version_request branch major minor =
     [vf_request GUC_ACTION_VF2GUC_MATCH_VERSION,
      FIELD_PREP 8 24 branch OR FIELD_PREP 8 16 major OR FIELD_PREP 8 8 minor]"

definition guc_action_match_version ::
    "query_env \<Rightarrow> u32 \<Rightarrow> u32 \<Rightarrow> u32 \<Rightarrow> intel_iov_vf \<Rightarrow>
     ((u32 \<times> u32 \<times> u32 \<times> u32) res \<times> intel_iov_vf) option" where
  "guc_action_match_version E branch major minor w =
     (case on_mmio (intel_guc_send_mmio (query_mmio E) (match_version_request branch major minor) (Some 2)) w of
        None \<Rightarrow> None
      | Some ((Inl e, _), w1) \<Rightarrow> Some (Inl e, w1)
      | Some ((Inr ret, response), w1) \<Rightarrow>
          Some (if GUC_HXG_MSG_0_AUX (response ! 0) \<noteq> 0 then Inl EPROTO
                else Inr (FIELD_GET 8 24 (response ! 1), FIELD_GET 8 16 (response ! 1),
                          FIELD_GET 8 8 (response ! 1), FIELD_GET 8 0 (response ! 1)), w1))"

definition vf_handshake_with_guc :: "query_env \<Rightarrow> intel_iov_vf \<Rightarrow> (unit res \<times> intel_iov_vf) option" where
  "vf_handshake_with_guc E w =
     (let fail = (\<lambda>err w1. map_option (\<lambda>(_, w2). (Inl err, w2))
                     (guc_action_match_version E GUC_VERSION_BRANCH_ANY GUC_VERSION_MAJOR_ANY
                        GUC_VERSION_MINOR_ANY w1))
      in case guc_action_match_version E GUC_VERSION_BRANCH_ANY GUC_VF_VERSION_LATEST_MAJOR
           GUC_VF_VERSION_LATEST_MINOR w of
        None \<Rightarrow> None
      | Some (Inl err, w1) \<Rightarrow> fail err w1
      | Some (Inr (branch, major, minor, patch), w1) \<Rightarrow>
          if major > GUC_VF_VERSION_LATEST_MAJOR then fail EPROTO w1
          else Some (Inr (), w1\<lparr>vf_config := (vf_config w1)\<lparr>guc_abi :=
                 \<lparr>abi_branch = ucast branch, abi_major = ucast major, abi_minor = ucast minor,
                  abi_patch = ucast patch\<rparr>\<rparr>\<rparr>))"

definition intel_iov_query_bootstrap :: "query_env \<Rightarrow> intel_iov_vf \<Rightarrow> (unit res \<times> intel_iov_vf) option" where
  "intel_iov_query_bootstrap E w =
     (case vf_reset_guc_state E w of
        None \<Rightarrow> None
      | Some (Inl e, w1) \<Rightarrow> Some (Inl e, w1)
      | Some (Inr _, w1) \<Rightarrow> vf_handshake_with_guc E w1)"

section \<open>The configuration of the VF\<close>

abbreviation (input) GUC_KLV_GLOBAL_CFG_GMD_ID_KEY :: u32 where "GUC_KLV_GLOBAL_CFG_GMD_ID_KEY \<equiv> 0x3000"
abbreviation (input) QUERY_GGTT_START_KEY :: u32 where "QUERY_GGTT_START_KEY \<equiv> 0x0001"
abbreviation (input) QUERY_GGTT_SIZE_KEY :: u32 where "QUERY_GGTT_SIZE_KEY \<equiv> 0x0002"
abbreviation (input) QUERY_NUM_CONTEXTS_KEY :: u32 where "QUERY_NUM_CONTEXTS_KEY \<equiv> 0x0004"
abbreviation (input) QUERY_NUM_DOORBELLS_KEY :: u32 where "QUERY_NUM_DOORBELLS_KEY \<equiv> 0x0006"

definition single_klv_request :: "u32 \<Rightarrow> u32 list" where
  "single_klv_request key = [vf_request GUC_ACTION_VF2GUC_QUERY_SINGLE_KLV, FIELD_PREP 16 0 key]"

text \<open>The answer is as long as the caller expects it, or an error.\<close>

definition guc_action_query_single_klv ::
    "query_env \<Rightarrow> u32 \<Rightarrow> nat \<Rightarrow> intel_iov_vf \<Rightarrow> (u32 list res \<times> intel_iov_vf) option" where
  "guc_action_query_single_klv E key value_len w =
     (case on_mmio (intel_guc_send_mmio (query_mmio E) (single_klv_request key) (Some 4)) w of
        None \<Rightarrow> None
      | Some ((Inl e, _), w1) \<Rightarrow> Some (Inl e, w1)
      | Some ((Inr ret, response), w1) \<Rightarrow>
          (let len = unat (FIELD_GET 16 0 (response ! 0))
           in Some (if FIELD_GET 12 16 (response ! 0) \<noteq> 0 then Inl EPROTO
                    else if len > value_len then Inl EOVERFLOW
                    else if len < value_len then Inl ENODATA
                    else if value_len > 3 then Inl EINVAL
                    else Inr (take value_len (tl response)), w1)))"

definition guc_action_query_single_klv32 ::
    "query_env \<Rightarrow> u32 \<Rightarrow> intel_iov_vf \<Rightarrow> (u32 res \<times> intel_iov_vf) option" where
  "guc_action_query_single_klv32 E key w =
     map_option (\<lambda>(r, w1). (map_sum (\<lambda>e. e) (\<lambda>value. value ! 0) r, w1))
       (guc_action_query_single_klv E key 1 w)"

definition guc_action_query_single_klv64 ::
    "query_env \<Rightarrow> u32 \<Rightarrow> intel_iov_vf \<Rightarrow> (u64 res \<times> intel_iov_vf) option" where
  "guc_action_query_single_klv64 E key w =
     map_option (\<lambda>(r, w1). (map_sum (\<lambda>e. e) (\<lambda>value. make_u64 (value ! 1) (value ! 0)) r, w1))
       (guc_action_query_single_klv E key 2 w)"

definition abi_supports_gmd_klv :: "intel_iov_vf \<Rightarrow> bool" where
  "abi_supports_gmd_klv w \<longleftrightarrow>
     abi_major (guc_abi (vf_config w)) = 1 \<and> abi_minor (guc_abi (vf_config w)) \<ge> 2"

text \<open>\<open>vf_ip\<close> is the IP version of the kind of this GT, hardcoded at first.\<close>

definition vf_get_ipver :: "query_env \<Rightarrow> intel_iov_vf \<Rightarrow> (unit res \<times> intel_iov_vf) option" where
  "vf_get_ipver E w =
     (if \<not> query_has_gmd_id E then Some (Inr (), w)
      else if \<not> abi_supports_gmd_klv w then Some (Inr (), w)
      else case guc_action_query_single_klv32 E GUC_KLV_GLOBAL_CFG_GMD_ID_KEY w of
        None \<Rightarrow> None
      | Some (Inl err, w1) \<Rightarrow> Some (Inr (), w1)
      | Some (Inr gmd_id, w1) \<Rightarrow>
          Some (Inr (), w1\<lparr>vf_ip := \<lparr>ip_ver = FIELD_GET 10 22 gmd_id, ip_rel = FIELD_GET 8 14 gmd_id,
                                     ip_step = FIELD_GET 6 0 gmd_id\<rparr>\<rparr>))"

definition vf_get_ggtt_info :: "query_env \<Rightarrow> intel_iov_vf \<Rightarrow> (unit res \<times> intel_iov_vf) option" where
  "vf_get_ggtt_info E w =
     (case guc_action_query_single_klv64 E QUERY_GGTT_START_KEY w of
        None \<Rightarrow> None
      | Some (Inl e, w1) \<Rightarrow> Some (Inl e, w1)
      | Some (Inr start, w1) \<Rightarrow>
          (case guc_action_query_single_klv64 E QUERY_GGTT_SIZE_KEY w1 of
             None \<Rightarrow> None
           | Some (Inl e, w2) \<Rightarrow> Some (Inl e, w2)
           | Some (Inr sz, w2) \<Rightarrow>
               Some (if sz \<noteq> 0 then Inr () else Inl ENODATA,
                     w2\<lparr>vf_config := (vf_config w2)\<lparr>ggtt_base := start, ggtt_size := sz\<rparr>\<rparr>)))"

definition vf_get_submission_cfg :: "query_env \<Rightarrow> intel_iov_vf \<Rightarrow> (unit res \<times> intel_iov_vf) option" where
  "vf_get_submission_cfg E w =
     (case guc_action_query_single_klv32 E QUERY_NUM_CONTEXTS_KEY w of
        None \<Rightarrow> None
      | Some (Inl e, w1) \<Rightarrow> Some (Inl e, w1)
      | Some (Inr nctxs, w1) \<Rightarrow>
          (case guc_action_query_single_klv32 E QUERY_NUM_DOORBELLS_KEY w1 of
             None \<Rightarrow> None
           | Some (Inl e, w2) \<Rightarrow> Some (Inl e, w2)
           | Some (Inr ndbs, w2) \<Rightarrow>
               Some (if (ucast nctxs :: u16) \<noteq> 0 then Inr () else Inl ENODATA,
                     w2\<lparr>vf_config := (vf_config w2)\<lparr>vf_num_ctxs := ucast nctxs,
                                                   vf_num_dbs := ucast ndbs\<rparr>\<rparr>)))"

definition intel_iov_query_config :: "query_env \<Rightarrow> intel_iov_vf \<Rightarrow> (unit res \<times> intel_iov_vf) option" where
  "intel_iov_query_config E w =
     (case vf_get_ipver E w of
        None \<Rightarrow> None
      | Some (Inl e, w1) \<Rightarrow> Some (Inl e, w1)
      | Some (Inr _, w1) \<Rightarrow>
          (case vf_get_ggtt_info E w1 of
             None \<Rightarrow> None
           | Some (Inl e, w2) \<Rightarrow> Some (Inl e, w2)
           | Some (Inr _, w2) \<Rightarrow> vf_get_submission_cfg E w2))"

section \<open>The ABI version of the PF\<close>

definition handshake_request :: "u32 \<Rightarrow> u32 \<Rightarrow> u32 list" where
  "handshake_request major minor =
     [vf_request IOV_ACTION_VF2PF_HANDSHAKE, iov_version major minor]"

definition iov_action_handshake ::
    "query_env \<Rightarrow> u32 \<Rightarrow> u32 \<Rightarrow> intel_iov_vf \<Rightarrow> ((u32 \<times> u32) res \<times> intel_iov_vf) option" where
  "iov_action_handshake E major minor w =
     (case on_vf_relay (intel_iov_relay_send_to_pf (query_relay E) (handshake_request major minor) [0, 0]) w of
        None \<Rightarrow> None
      | Some ((Inl e, _), w1) \<Rightarrow> Some (Inl e, w1)
      | Some ((Inr ret, response), w1) \<Rightarrow>
          Some (if ret \<noteq> 2 then Inl EPROTO
                else if GUC_HXG_MSG_0_AUX (response ! 0) \<noteq> 0 then Inl EPROTO
                else Inr (iov_version_major (response ! 1), iov_version_minor (response ! 1)), w1))"

definition vf_handshake_with_pf :: "query_env \<Rightarrow> intel_iov_vf \<Rightarrow> (unit res \<times> intel_iov_vf) option" where
  "vf_handshake_with_pf E w =
     map_option (\<lambda>(r, w1). (map_sum (\<lambda>e. e) (\<lambda>_. ()) r, w1))
       (iov_action_handshake E IOV_VERSION_LATEST_MAJOR IOV_VERSION_LATEST_MINOR w)"

definition intel_iov_query_version :: "query_env \<Rightarrow> intel_iov_vf \<Rightarrow> (unit res \<times> intel_iov_vf) option" where
  "intel_iov_query_version E w = vf_handshake_with_pf E w"

section \<open>The MMIO relay\<close>

definition mmio_relay_header :: "u32 \<Rightarrow> u32 \<Rightarrow> u32" where
  "mmio_relay_header opcode magic =
     vf_request GUC_ACTION_VF2GUC_MMIO_RELAY_SERVICE OR FIELD_PREP 4 24 magic OR FIELD_PREP 8 16 opcode"

definition guc_send_mmio_relay ::
    "query_env \<Rightarrow> u32 list \<Rightarrow> nat \<Rightarrow> intel_iov_vf \<Rightarrow> ((u32 res \<times> u32 list) \<times> intel_iov_vf) option" where
  "guc_send_mmio_relay E request response_size w =
     (let magic1 = FIELD_GET 4 24 (request ! 0)
      in case on_mmio (intel_guc_send_mmio (query_mmio E) request (Some response_size)) w of
        None \<Rightarrow> None
      | Some ((Inl e, response), w1) \<Rightarrow> Some ((Inl e, response), w1)
      | Some ((Inr ret, response), w1) \<Rightarrow>
          Some (if magic1 \<noteq> FIELD_GET 4 24 (response ! 0) then (Inl EPROTO, response)
                else (Inr ret, response), w1))"

definition vf_handshake_with_pf_mmio :: "query_env \<Rightarrow> intel_iov_vf \<Rightarrow> (unit res \<times> intel_iov_vf) option" where
  "vf_handshake_with_pf_mmio E w =
     (let request = [mmio_relay_header IOV_OPCODE_VF2PF_MMIO_HANDSHAKE 0xF,
                     iov_version IOV_VERSION_LATEST_MAJOR IOV_VERSION_LATEST_MINOR, 0, 0]
      in case guc_send_mmio_relay E request 4 w of
        None \<Rightarrow> None
      | Some ((Inl e, _), w1) \<Rightarrow> Some (Inl ECONNREFUSED, w1)
      | Some ((Inr ret, response), w1) \<Rightarrow>
          Some (if iov_version_major (response ! 1) \<noteq> IOV_VERSION_LATEST_MAJOR \<or>
                   iov_version_minor (response ! 1) \<noteq> IOV_VERSION_LATEST_MINOR
                then Inl ECONNREFUSED else Inr (), w1))"

section \<open>Updates of the GGTT\<close>

definition intel_iov_query_update_ggtt_pte_mmio ::
    "query_env \<Rightarrow> u32 \<Rightarrow> u8 \<Rightarrow> u16 \<Rightarrow> u64 \<Rightarrow> intel_iov_vf \<Rightarrow> (u16 res \<times> intel_iov_vf) option" where
  "intel_iov_query_update_ggtt_pte_mmio E pte_offset mode num_copies pte w =
     (let request = [mmio_relay_header IOV_OPCODE_VF2PF_MMIO_UPDATE_GGTT 0xF,
                     update_ggtt_msg_1 pte_offset mode num_copies, lower_32_bits pte, upper_32_bits pte]
      in map_option (\<lambda>((ret, response), w1).
           (map_sum (\<lambda>e. e) (\<lambda>_. ucast (FIELD_GET 24 0 (response ! 0))) ret, w1))
           (guc_send_mmio_relay E request 1 w))"

definition update_ggtt_request :: "u32 \<Rightarrow> u8 \<Rightarrow> u16 \<Rightarrow> u64 list \<Rightarrow> u32 list" where
  "update_ggtt_request pte_offset mode num_copies ptes =
     [vf_request IOV_ACTION_VF2PF_UPDATE_GGTT32, update_ggtt_msg_1 pte_offset mode num_copies] @
     concat (map (\<lambda>pte. [lower_32_bits pte, upper_32_bits pte]) ptes)"

definition intel_iov_query_update_ggtt_pte_relay ::
    "query_env \<Rightarrow> u32 \<Rightarrow> u8 \<Rightarrow> u16 \<Rightarrow> u64 list \<Rightarrow> intel_iov_vf \<Rightarrow> (u16 res \<times> intel_iov_vf) option" where
  "intel_iov_query_update_ggtt_pte_relay E pte_offset mode num_copies ptes w =
     (if length ptes < 1 then Some (Inl EINVAL, w)
      else map_option (\<lambda>((ret, response), w1). (map_sum (\<lambda>e. e) (\<lambda>_. ucast (response ! 0)) ret, w1))
             (on_vf_relay (intel_iov_relay_send_to_pf (query_relay E)
                (update_ggtt_request pte_offset mode num_copies ptes) [0]) w))"

text \<open>What \<open>intel_iov_query_update_ggtt_ptes\<close> does with the request that it takes from the buffer.\<close>

definition send_ggtt_request ::
    "query_env \<Rightarrow> bool \<Rightarrow> ggtt_request \<Rightarrow> intel_iov_vf \<Rightarrow> (u16 res \<times> intel_iov_vf) option" where
  "send_ggtt_request E ct_enabled req w =
     (case req of (pte_offset, mode, num_copies, ptes) \<Rightarrow>
        if \<not> ct_enabled
        then intel_iov_query_update_ggtt_pte_mmio E pte_offset mode num_copies (ptes ! 0) w
        else intel_iov_query_update_ggtt_pte_relay E pte_offset mode num_copies ptes w)"

section \<open>Runtime registers\<close>

definition tgl_early_regs :: "u32 list" where
  "tgl_early_regs = [0x0D00, 0x9118, 0x9134, 0x9138, 0x913C, 0x9140, 0xA26C, 0xC1DC]"

definition mtl_early_regs :: "u32 list" where
  "mtl_early_regs =
     [0x0D00, 0x9114, 0x9118, 0x911C, 0x9134, 0x913C, 0x9140, 0x9144, 0x9148, 0xA26C, 0xC1DC,
      0x116C68, 0x138010]"

definition get_early_regs :: "query_env \<Rightarrow> (u32 list) res" where
  "get_early_regs E =
     (case query_platform E of
        VF_PLATFORM_12_70 \<Rightarrow> Inr mtl_early_regs
      | VF_PLATFORM_TGL_ADL \<Rightarrow> Inr tgl_early_regs
      | VF_PLATFORM_OTHER \<Rightarrow> Inl ENODEV)"

definition vf_cleanup_runtime_info :: "intel_iov_vf \<Rightarrow> intel_iov_vf" where
  "vf_cleanup_runtime_info w = w\<lparr>vf_regs := [], vf_regs_size := 0\<rparr>"

text \<open>\<open>krealloc\<close> keeps the old contents and zeroes what is new; the result is the rounded size.\<close>

definition vf_prepare_runtime_info ::
    "query_env \<Rightarrow> nat \<Rightarrow> nat \<Rightarrow> intel_iov_vf \<Rightarrow> nat res \<times> intel_iov_vf" where
  "vf_prepare_runtime_info E regs_size alignment w =
     (let regs_size_up = (regs_size + alignment - 1) div alignment * alignment;
          w1 = w\<lparr>vf_allocs := Suc (vf_allocs w)\<rparr>
      in if \<not> query_alloc E (vf_allocs w) then (Inl ENOMEM, w1\<lparr>vf_regs := []\<rparr>)
         else (Inr regs_size_up,
               w1\<lparr>vf_regs := take regs_size_up
                     (vf_regs w @ replicate (regs_size_up - length (vf_regs w)) (0, 0)),
                  vf_regs_size := regs_size\<rparr>))"

text \<open>Chunks of three registers; \<open>i\<close> is the index of the first one, \<open>n\<close> the chunks that are left.\<close>

primrec runtime_mmio_loop ::
    "query_env \<Rightarrow> nat \<Rightarrow> nat \<Rightarrow> intel_iov_vf \<Rightarrow> (unit res \<times> intel_iov_vf) option" where
  "runtime_mmio_loop E 0 i w = Some (Inr (), w)"
| "runtime_mmio_loop E (Suc n) i w =
     (let header = mmio_relay_header IOV_OPCODE_VF2PF_MMIO_GET_RUNTIME 0;
          offsets = map (\<lambda>k. fst (vf_regs w ! (i + k))) [0..<3];
          magic = query_crc32 E (header # offsets)
      in case guc_send_mmio_relay E ((header OR FIELD_PREP 4 24 magic) # offsets) 4 w of
           None \<Rightarrow> None
         | Some ((Inl e, _), w1) \<Rightarrow> Some (Inl e, w1)
         | Some ((Inr ret, response), w1) \<Rightarrow>
             runtime_mmio_loop E n (i + 3)
               (w1\<lparr>vf_regs := fold (\<lambda>k rs. rs[i + k := (fst (rs ! (i + k)), response ! (1 + k))]) [0..<3]
                               (vf_regs w1)\<rparr>))"

definition vf_get_runtime_info_mmio :: "query_env \<Rightarrow> intel_iov_vf \<Rightarrow> (unit res \<times> intel_iov_vf) option" where
  "vf_get_runtime_info_mmio E w =
     (let failed = (\<lambda>e w1. Some (Inl e, vf_cleanup_runtime_info w1))
      in case get_early_regs E of
           Inl e \<Rightarrow> failed e w
         | Inr regs \<Rightarrow>
             if length regs = 0 then Some (Inr (), w)
             else case vf_prepare_runtime_info E (length regs) 3 w of
               (Inl e, w1) \<Rightarrow> failed e w1
             | (Inr size_up, w1) \<Rightarrow>
                 (case runtime_mmio_loop E (size_up div 3) 0
                    (w1\<lparr>vf_regs := fold (\<lambda>i rs. rs[i := (regs ! i, snd (rs ! i))]) [0..<length regs] (vf_regs w1)\<rparr>) of
                    None \<Rightarrow> None
                  | Some (Inl e, w2) \<Rightarrow> failed e w2
                  | Some (Inr _, w2) \<Rightarrow> Some (Inr (), w2)))"

text \<open>The response buffer of 20 dwords holds nine registers.\<close>

definition query_runtime_request :: "u32 \<Rightarrow> u32 list" where
  "query_runtime_request start =
     [hxg_request_msg GUC_HXG_ORIGIN_HOST GUC_HXG_TYPE_REQUEST IOV_ACTION_VF2PF_QUERY_RUNTIME 9, start]"

definition store_regs :: "nat \<Rightarrow> nat \<Rightarrow> u32 list \<Rightarrow> (u32 \<times> u32) list \<Rightarrow> (u32 \<times> u32) list" where
  "store_regs start num response =
     fold (\<lambda>i rs. rs[start + i := (response ! (2 + 2 * i), response ! (2 + 2 * i + 1))]) [0..<num]"

text \<open>From the label \<open>repeat\<close> on; the PF decides how often the VF asks.\<close>

partial_function (option) runtime_relay_loop ::
    "query_env \<Rightarrow> u32 \<Rightarrow> intel_iov_vf \<Rightarrow> (unit res \<times> intel_iov_vf) option" where
  "runtime_relay_loop E start w =
     (case on_vf_relay (intel_iov_relay_send_to_pf (query_relay E) (query_runtime_request start)
             (replicate 20 0)) w of
        None \<Rightarrow> None
      | Some ((Inl e, _), w1) \<Rightarrow> Some (Inl e, vf_cleanup_runtime_info w1)
      | Some ((Inr ret, response), w1) \<Rightarrow>
          (let num = (ret - 2) div 2; count = response ! 0; remaining = response ! 1;
               store = (\<lambda>w2. w2\<lparr>vf_regs := store_regs (unat start) (unat num) response (vf_regs w2)\<rparr>)
           in if ret < 2 \<or> (ret - 2) mod 2 \<noteq> 0 \<or> count \<noteq> num
              then Some (Inl EPROTO, vf_cleanup_runtime_info w1)
              else case (if start = 0 then vf_prepare_runtime_info E (unat (num + remaining)) 1 w1
                         else if unat (start + num) > vf_regs_size w1 then (Inl EPROTO, w1)
                         else (Inr 0, w1)) of
                (Inl e, w2) \<Rightarrow> Some (Inl e, vf_cleanup_runtime_info w2)
              | (Inr _, w2) \<Rightarrow>
                  if remaining \<noteq> 0 then runtime_relay_loop E (start + num) (store w2)
                  else Some (Inr (), store w2)))"

definition vf_get_runtime_info_relay :: "query_env \<Rightarrow> intel_iov_vf \<Rightarrow> (unit res \<times> intel_iov_vf) option" where
  "vf_get_runtime_info_relay E w = runtime_relay_loop E 0 w"

definition intel_iov_query_runtime :: "query_env \<Rightarrow> bool \<Rightarrow> intel_iov_vf \<Rightarrow> (unit res \<times> intel_iov_vf) option" where
  "intel_iov_query_runtime E early w =
     (case (if early then vf_handshake_with_pf_mmio E w else Some (Inr (), w)) of
        None \<Rightarrow> None
      | Some (Inl e, w1) \<Rightarrow> Some (Inl e, w1)
      | Some (Inr _, w1) \<Rightarrow>
          if early then vf_get_runtime_info_mmio E w1 else vf_get_runtime_info_relay E w1)"

definition intel_iov_query_fini :: "intel_iov_vf \<Rightarrow> intel_iov_vf" where
  "intel_iov_query_fini w = vf_cleanup_runtime_info w"

end
