(* ===== verification/Iov_Vf_Pf.thy ===== *)
theory Iov_Vf_Pf
  imports Iov_Query Iov_Service_Props Iov_Relay_Props
begin

text \<open>
  The two drivers together: what a VF encodes and the PF decodes, and a VF that asks a PF for its
  runtime registers, with the GuC that carries the messages between them.
\<close>

section \<open>The message of an update\<close>

lemma update_ggtt_msg_fields [hxg_simps]:
  "update_ggtt_offset (update_ggtt_msg_1 off mode nc) = take_bit 20 off"
  "update_ggtt_mode (update_ggtt_msg_1 off mode nc) = ucast (take_bit 2 (ucast mode :: u32))"
  "update_ggtt_copies (update_ggtt_msg_1 off mode nc) = ucast (take_bit 10 (ucast nc :: u32))"
  unfolding update_ggtt_offset_def update_ggtt_mode_def update_ggtt_copies_def update_ggtt_msg_1_def
  by (simp_all add: field_simps_guc)

lemma take_bit_mode: "mode < 4 \<Longrightarrow> ucast (take_bit 2 (ucast mode :: u32)) = (mode :: u8)"
  by (rule word_unat_eq_iff [THEN iffD2])
    (simp add: unat_ucast unsigned_take_bit_eq word_less_nat_alt take_bit_nat_eq_self)

lemma take_bit_copies: "nc \<le> MAX_COPIES \<Longrightarrow> ucast (take_bit 10 (ucast nc :: u32)) = (nc :: u16)"
  by (rule word_unat_eq_iff [THEN iffD2])
    (simp add: unat_ucast unsigned_take_bit_eq word_le_nat_alt take_bit_nat_eq_self)

lemma take_bit_offset: "unat off < 2 ^ 20 \<Longrightarrow> take_bit 20 off = (off :: u32)"
  by (rule word_unat_eq_iff [THEN iffD2]) (simp add: unsigned_take_bit_eq take_bit_nat_eq_self)

lemma length_update_ggtt_request [simp]: "length (update_ggtt_request off mode nc ptes) = 2 + 2 * length ptes"
  by (induction ptes) (simp_all add: update_ggtt_request_def)

lemma concat_pairs_nth:
  "i < length xs \<Longrightarrow> concat (map (\<lambda>x. [f x, g x]) xs) ! (2 * i) = f (xs ! i)"
  "i < length xs \<Longrightarrow> concat (map (\<lambda>x. [f x, g x]) xs) ! Suc (2 * i) = g (xs ! i)"
proof (induction xs arbitrary: i)
  case (Cons x xs)
  { case 1 with Cons.IH(1) show ?case by (cases i) auto }
  { case 2 with Cons.IH(2) show ?case by (cases i) auto }
qed simp_all

lemma get_pte_update_ggtt_request:
  "i < length ptes \<Longrightarrow> get_pte_from_msg (update_ggtt_request off mode nc ptes) i = ptes ! i"
  using concat_pairs_nth [of i ptes lower_32_bits upper_32_bits]
  by (simp add: get_pte_from_msg_def update_ggtt_request_def numeral_eq_Suc mult.commute)

lemma update_ggtt_request_head:
  "update_ggtt_request off mode nc ptes ! 0 \<noteq> 0"
  "update_ggtt_request off mode nc ptes ! 1 = update_ggtt_msg_1 off mode nc"
proof -
  have "vf_request IOV_ACTION_VF2PF_UPDATE_GGTT32 \<noteq> 0" by code_simp
  then show "update_ggtt_request off mode nc ptes ! 0 \<noteq> 0"
    "update_ggtt_request off mode nc ptes ! 1 = update_ggtt_msg_1 off mode nc"
    by (simp_all add: update_ggtt_request_def)
qed

lemma update_ggtt_msg_zero:
  assumes "unat off < 2 ^ 20" "mode < 4" "nc \<le> MAX_COPIES"
  shows "update_ggtt_msg_1 off mode nc = 0 \<longleftrightarrow> off = 0 \<and> mode = 0 \<and> nc = 0"
proof
  assume z: "update_ggtt_msg_1 off mode nc = 0"
  have "update_ggtt_offset 0 = 0" "update_ggtt_mode 0 = 0" "update_ggtt_copies 0 = 0"
    by (simp_all add: update_ggtt_offset_def update_ggtt_mode_def update_ggtt_copies_def)
  then have "take_bit 20 off = 0" "ucast (take_bit 2 (ucast mode :: u32)) = (0 :: u8)"
    "ucast (take_bit 10 (ucast nc :: u32)) = (0 :: u16)"
    using update_ggtt_msg_fields [of off mode nc] unfolding z by simp_all
  then show "off = 0 \<and> mode = 0 \<and> nc = 0"
    unfolding take_bit_mode [OF assms(2)] take_bit_copies [OF assms(3)] take_bit_offset [OF assms(1)] by blast
qed (simp add: update_ggtt_msg_1_def FIELD_PREP_def)

text \<open>The PF decodes what the VF encodes.\<close>

lemma pf_decodes_update:
  assumes "unat off < 2 ^ 20" "mode < 4" "nc \<le> MAX_COPIES" "ptes \<noteq> []" "length ptes \<le> 125"
    and "env_require_binder (svc_iov E)" "off \<noteq> 0 \<or> mode \<noteq> 0 \<or> nc \<noteq> 0"
  shows "pf_reply_update_ggtt E origin relay_id (update_ggtt_request off mode nc ptes) v =
    (case upd_dev (update_ggtt_ranges E (unat origin) mode (tl ptes) [hd ptes] off nc 0) v of
       (Inl e, v1) \<Rightarrow> Some (Inl e, v1)
     | (Inr updated, v1) \<Rightarrow>
         on_relay (intel_iov_relay_reply_to_vf (svc_relay E) origin relay_id [iov_success (ucast updated)]) v1)"
proof -
  let ?m = "update_ggtt_request off mode nc ptes"
  have "map (get_pte_from_msg ?m) [1..<length ptes] = map ((!) ptes) [1..<length ptes]"
    by (rule map_cong [OF refl]) (simp add: get_pte_update_ggtt_request)
  also have "\<dots> = tl ptes" by (rule nth_equalityI) (simp_all add: nth_tl)
  finally have tl: "map (get_pte_from_msg ?m) [1..<length ptes] = tl ptes" .
  have hd: "get_pte_from_msg ?m 0 = hd ptes"
    using assms(4) by (simp add: get_pte_update_ggtt_request hd_conv_nth)
  have f: "update_ggtt_mode (?m ! 1) = mode" "update_ggtt_copies (?m ! 1) = nc" "update_ggtt_offset (?m ! 1) = off"
    using assms(1-3)
    by (simp_all only: update_ggtt_request_head update_ggtt_msg_fields take_bit_mode take_bit_copies take_bit_offset)
  have "?m ! 1 \<noteq> 0" using update_ggtt_msg_zero [OF assms(1-3)] assms(7) unfolding update_ggtt_request_head by blast
  moreover have "\<not> length ?m < 4" "length ?m mod 2 = 0" "(length ?m - 2) div 2 = length ptes"
    using assms(4) by (cases ptes; simp)+
  moreover have "max_ptes True = 125" by (simp add: max_ptes_def)
  ultimately show ?thesis
    using assms(5,6) update_ggtt_request_head(1)
    unfolding pf_reply_update_ggtt_def Let_def by (simp add: f [unfolded One_nat_def] tl [unfolded One_nat_def] hd)
qed

section \<open>Updates that land\<close>

lemma relay_guc_send_result:
  "relay_guc_send E req r = Some y \<Longrightarrow> fst y = Inr () \<longrightarrow> relay_sent (snd y) = req # relay_sent r"
  by (erule relay_guc_send.raw_induct [rotated])
    (fastforce simp: Let_def split: sum.splits if_splits)

lemma relay_guc_send_sent: "relay_guc_send E req r = Some (Inr (), r') \<Longrightarrow> relay_sent r' = req # relay_sent r"
  using relay_guc_send_result [of E req r "(Inr (), r')"] by simp

lemma reply_to_vf_sent:
  assumes "target \<noteq> 0" "intel_iov_relay_reply_to_vf E target relay_id msg r = Some (Inr u, r')"
  shows "relay_sent r' = relay_request target relay_id msg # relay_sent r"
  using assms relay_guc_send_sent [of E _ r r']
  by (auto simp: intel_iov_relay_reply_to_vf_def relay_send_def pf_relay_send_def relay_request_def)

lemma update_ggtt_ranges_effect:
  assumes "update_ggtt_ranges E vf mode (tl ptes) [hd ptes] off nc 0 s = (Inr n, s')"
    and "nc = 0 \<or> is_last_mode mode \<or> same_flags ptes" "ptes \<noteq> []" "length ptes \<le> 125"
    and "ggtt_region (config (svc_gt E) vf s) = Some node" "region_ok node" "unat off < 2 ^ 20" "nc \<le> MAX_COPIES"
  shows "n = of_nat (unat nc + length ptes) \<and>
    ggtt_ptes s' = write_ptes (ggtt_ptes s) (node_page node + unat off) (update_entries vf mode nc ptes)"
proof -
  have off: "unat off < 2 ^ 21" using assms(7) by simp
  have eq: "[hd ptes] @ tl ptes = ptes" using assms(3) by simp
  show ?thesis
  proof (cases "same_flags ptes")
    case True
    have "update_ggtt_ranges E vf mode [] ptes off nc 0 s = (Inr n, s')"
      using update_ggtt_ranges_same_flags [of "[hd ptes]" "tl ptes" E vf mode off nc 0 s] True assms(1) eq by simp
    then obtain ret where u: "intel_iov_ggtt_pf_update_vf_ptes (svc_iov E) (svc_gt E) vf off mode nc ptes s = (Inr ret, s')"
      "n = ret"
      by (auto split: prod.splits sum.splits)
    from pf_update_entries [OF u(1) assms(5,6) off assms(4,8) True] u(2) show ?thesis by simp
  next
    case False
    then have "nc = 0 \<or> is_last_mode mode" using assms(2) by blast
    moreover have "length [hd ptes] + length (tl ptes) \<le> 125" using assms(3,4) by (cases ptes) simp_all
    moreover have "same_flags [hd ptes]" by (simp add: same_flags_def)
    ultimately have "n = 0 + of_nat (unat nc + length ([hd ptes] @ tl ptes)) \<and> pt_only s s' \<and>
        ggtt_ptes s' = write_ptes (ggtt_ptes s) (node_page node + unat off) (update_entries vf mode nc ([hd ptes] @ tl ptes))"
      using update_ggtt_ranges_lands [OF assms(1) _ _ _ assms(5,6) off _ assms(8)] by blast
    then show ?thesis unfolding eq by simp
  qed
qed

lemma pf_update_reply:
  assumes "pf_reply_update_ggtt E vfid relay_id (update_ggtt_request off mode nc ptes) v = Some (Inr u, v')"
    and "unat off < 2 ^ 20" "mode < 4" "nc \<le> MAX_COPIES" "ptes \<noteq> []" "length ptes \<le> 125" "vfid \<noteq> 0"
    and "off \<noteq> 0 \<or> mode \<noteq> 0 \<or> nc \<noteq> 0"
  obtains n where "update_ggtt_ranges E (unat vfid) mode (tl ptes) [hd ptes] off nc 0 (dev (iov_state v)) =
      (Inr n, dev (iov_state v'))"
    "relay_sent (iov_relay v') = relay_request vfid relay_id [iov_success (ucast n)] # relay_sent (iov_relay v)"
proof -
  have "env_require_binder (svc_iov E)"
    using assms(1) by (auto simp: pf_reply_update_ggtt_def split: if_splits)
  from assms(1) [unfolded pf_decodes_update [OF assms(2-6) this assms(8)]]
  obtain n d where r: "update_ggtt_ranges E (unat vfid) mode (tl ptes) [hd ptes] off nc 0 (dev (iov_state v)) = (Inr n, d)"
    and o: "on_relay (intel_iov_relay_reply_to_vf (svc_relay E) vfid relay_id [iov_success (ucast n)])
        (v\<lparr>iov_state := (iov_state v)\<lparr>dev := d\<rparr>\<rparr>) = Some (Inr u, v')"
    by (auto simp: upd_dev_def split: prod.splits sum.splits)
  then obtain x where x: "intel_iov_relay_reply_to_vf (svc_relay E) vfid relay_id [iov_success (ucast n)] (iov_relay v) =
      Some (Inr u, x)" "v' = v\<lparr>iov_state := (iov_state v)\<lparr>dev := d\<rparr>, iov_relay := x\<rparr>"
    by (auto simp: on_relay_def)
  from reply_to_vf_sent [OF assms(7) x(1)] show thesis
    using that [of n] r x(2) by simp
qed

text \<open>
  Property C31. When the PF accepts an update that a VF has sent over the relay, and the update has
  no copies, or its copies are those of the last PTE, or all its PTEs have the same flags, and it is
  not an update of the first page without mode and copies (the PF refuses that one), then the
  PF has written exactly the PTEs that the update means, at the place in the region of the VF that
  the VF asked for, however the PF has split the update into ranges; and it tells the VF the number
  of PTEs it has written.
\<close>

theorem relay_update_lands:
  assumes "pf_reply_update_ggtt E vfid relay_id (update_ggtt_request off mode nc ptes) v = Some (Inr u, v')"
    and "unat off < 2 ^ 20" "mode < 4" "nc \<le> MAX_COPIES" "ptes \<noteq> []" "length ptes \<le> 125" "vfid \<noteq> 0"
    and "off \<noteq> 0 \<or> mode \<noteq> 0 \<or> nc \<noteq> 0"
    and "nc = 0 \<or> is_last_mode mode \<or> same_flags ptes"
    and "ggtt_region (config (svc_gt E) (unat vfid) (dev (iov_state v))) = Some node" "region_ok node"
  shows "ggtt_ptes (dev (iov_state v')) = write_ptes (ggtt_ptes (dev (iov_state v)))
      (node_page node + unat off) (update_entries (unat vfid) mode nc ptes) \<and>
    relay_sent (iov_relay v') =
      relay_request vfid relay_id [iov_success (of_nat (unat nc + length ptes))] # relay_sent (iov_relay v)"
proof -
  obtain n where n: "update_ggtt_ranges E (unat vfid) mode (tl ptes) [hd ptes] off nc 0 (dev (iov_state v)) =
      (Inr n, dev (iov_state v'))"
    "relay_sent (iov_relay v') = relay_request vfid relay_id [iov_success (ucast n)] # relay_sent (iov_relay v)"
    by (rule pf_update_reply [OF assms(1-8)])
  note e = update_ggtt_ranges_effect [OF n(1) assms(9,5,6,10,11,2,4)]
  have "unat nc + length ptes < 2 ^ 16" using assms(4,6) by (simp add: word_le_nat_alt)
  then have "unat (of_nat (unat nc + length ptes) :: u16) = unat nc + length ptes"
    by (simp only: unat_of_nat) simp
  then have "ucast n = (of_nat (unat nc + length ptes) :: u32)" using e by (metis of_nat_unat)
  with n(2) e show ?thesis by simp
qed

section \<open>Updates that do not\<close>

text \<open>
  When the copies belong to the first PTE and the flags of the second PTE differ from
  it, the PF writes the second PTE right behind the first one, over its first copy, and not behind
  its copies: the page behind the copies, where the VF asked for it, keeps its old entry.
\<close>

theorem relay_update_misplaced:
  assumes "pf_reply_update_ggtt E vfid relay_id (update_ggtt_request off mode nc [p, q]) v = Some (Inr u, v')"
    and "unat off < 2 ^ 20" "mode < 2" "0 < nc" "nc \<le> MAX_COPIES" "vfid \<noteq> 0" "pte_flags p \<noteq> pte_flags q"
    and "ggtt_region (config (svc_gt E) (unat vfid) (dev (iov_state v))) = Some node" "region_ok node"
  shows "ggtt_ptes (dev (iov_state v')) (node_page node + unat off + 1) = vf_entry (unat vfid) q (pte_addr q) \<and>
    ggtt_ptes (dev (iov_state v')) (node_page node + unat off + unat nc + 1) =
      ggtt_ptes (dev (iov_state v)) (node_page node + unat off + unat nc + 1)"
proof -
  let ?s = "dev (iov_state v)" and ?s' = "dev (iov_state v')" and ?b = "node_page node + unat off"
  have "mode < 4" using assms(3) by (auto simp: u8_lt_2)
  moreover have "length [p, q] \<le> 125" "nc \<noteq> 0" using assms(4) by auto
  ultimately obtain n where n: "update_ggtt_ranges E (unat vfid) mode [q] [p] off nc 0 ?s = (Inr n, ?s')"
    using pf_update_reply [OF assms(1,2) _ assms(5) list.distinct(2) _ assms(6)] by auto
  have m: "\<not> is_last_mode mode" using assms(3) by (auto simp: u8_lt_2 is_last_mode_def)
  obtain r1 s1 where u1: "intel_iov_ggtt_pf_update_vf_ptes (svc_iov E) (svc_gt E) (unat vfid) off mode nc [p] ?s = (Inr r1, s1)"
    and n1: "update_ggtt_ranges E (unat vfid) mode [] [q] (off + 1) 0 r1 s1 = (Inr n, ?s')"
    using n m assms(7) by (auto split: prod.splits sum.splits)
  obtain r2 where u2: "intel_iov_ggtt_pf_update_vf_ptes (svc_iov E) (svc_gt E) (unat vfid) (off + 1) mode 0 [q] s1 = (Inr r2, ?s')"
    using n1 by (auto split: prod.splits sum.splits)
  have off: "unat off < 2 ^ 21" using assms(2) by simp
  have sf: "same_flags [x]" "length [x] \<le> 125" for x by (simp_all add: same_flags_def)
  note e1 = pf_update_entries [OF u1 assms(8,9) off sf(2) assms(5) sf(1)]
  have off1: "unat (off + 1) = unat off + 1" using assms(2) by (simp add: unat_word_ariths)
  then have "unat (off + 1) < 2 ^ 21" using assms(2) by simp
  moreover have "ggtt_region (config (svc_gt E) (unat vfid) s1) = Some node"
    using pt_onlyD(1) [OF e1(4)] assms(8) by simp
  ultimately have e2: "ggtt_ptes ?s' = write_ptes (ggtt_ptes s1) (?b + 1) [vf_entry (unat vfid) q (pte_addr q)]"
    using pf_update_entries(5) [OF u2 _ assms(9) _ sf(2) _ sf(1)] by (simp add: off1 update_entries_no_copies add.assoc)
  have "length (update_entries (unat vfid) mode nc [p]) = Suc (unat nc)"
    using assms(3) by (simp add: update_entries_def)
  moreover have "0 < unat nc" using assms(4) by (simp add: word_less_nat_alt)
  ultimately show ?thesis
    using e1(5) e2 by (simp add: write_ptes_def)
qed

text \<open>
  A VF that updates only the PTE of the first page of its region sends the update with
  offset, mode and number of copies 0. The PF takes the dword of these three for a missing argument
  and refuses the update, and writes nothing.
\<close>

theorem relay_first_page_refused:
  assumes "env_require_binder (svc_iov E)" "unat base < 2 ^ 32" "buf_ptes b = []"
  shows "ggtt_vf_run True base [(ucast base, pte)] b = [(0, 0, 0, [pte])] \<and>
    pf_reply_update_ggtt E vfid relay_id (update_ggtt_request 0 0 0 [pte]) v = Some (Inl EPROTO, v)"
proof
  have "drop_bit 12 (ucast base :: u32) = ucast (drop_bit 12 base)"
    by (rule word_unat_eq_iff [THEN iffD2])
      (use assms(2) in \<open>simp add: unat_ucast unsigned_drop_bit_eq drop_bit_eq_div unat_div div_le_dividend [THEN order.strict_trans1]\<close>)
  then show "ggtt_vf_run True base [(ucast base, pte)] b = [(0, 0, 0, [pte])]"
    using assms(3) by (simp add: ggtt_vf_run_def intel_iov_ggtt_vf_update_pte_def vf_buffer_pte_def Let_def
        intel_iov_ggtt_vf_flush_ptes_def intel_iov_query_update_ggtt_ptes_def)
  have "update_ggtt_request 0 0 0 [pte] ! 1 = 0"
    by (simp only: update_ggtt_request_head) (simp add: update_ggtt_msg_1_def FIELD_PREP_def)
  with assms(1) show "pf_reply_update_ggtt E vfid relay_id (update_ggtt_request 0 0 0 [pte]) v = Some (Inl EPROTO, v)"
    by (simp add: pf_reply_update_ggtt_def)
qed

section \<open>Errors stay undisclosed\<close>

lemma undisclosed_failure_msg [simp]:
  "GUC_HXG_FAILURE_MSG_0_ERROR (relay_failure_msg 0 0) = 0"
  "GUC_HXG_MSG_0_ORIGIN (relay_failure_msg 0 0) = GUC_HXG_ORIGIN_HOST"
  "GUC_HXG_MSG_0_TYPE (relay_failure_msg 0 0) = GUC_HXG_TYPE_RESPONSE_FAILURE"
  by (simp_all add: relay_failure_msg_def hxg_request_msg_def GUC_HXG_FAILURE_MSG_0_ERROR_def
      GUC_HXG_MSG_0_ORIGIN_def GUC_HXG_MSG_0_TYPE_def field_simps_guc)

text \<open>What the PF sends for a request of a VF that its service rejects.\<close>

lemma rejected_request_sent:
  assumes "intel_iov_relay_process_guc2pf E ([hdr, vfid, fence] @ msg) p = Some (Inr u, p')"
    and "GUC_HXG_MSG_0_TYPE (msg ! 0) = GUC_HXG_TYPE_REQUEST"
    and "intel_iov_service_process_msg E vfid fence msg p = Some (Inl err, p1)"
  shows "relay_sent (iov_relay p') = relay_request vfid fence [relay_failure_msg 0 0] # relay_sent (iov_relay p1)"
proof -
  have pf: "relay_is_pf (svc_relay E)" "vfid \<noteq> 0" and
    m: "relay_process_msg E vfid fence msg p = Some (Inr u, p')"
    using assms(1) by (auto simp: intel_iov_relay_process_guc2pf_def split: if_splits)
  have "relay_handle_request E vfid fence msg p = Some (Inr u, p')"
    using m assms(2) by (auto simp: relay_process_msg_def Let_def split: if_splits)
  then obtain r where "relay_send_failure (svc_relay E) vfid fence 0 0 (iov_relay p1) = Some (Inr u, r)"
      "p' = p1\<lparr>iov_relay := r\<rparr>"
    using pf assms(3) by (auto simp: relay_handle_request_def on_relay_def Let_def sanitize_iov_error_def)
  then show ?thesis
    using pf(2) relay_guc_send_sent by (simp add: relay_send_failure_def relay_send_def pf_relay_send_def relay_request_def)
qed

lemma vf_handles_failure:
  assumes "relay_is_vf (svc_relay E)" "GUC_HXG_REQUEST_MSG_0_DATA0 hdr = 0"
  shows "iov_relay (snd (the (intel_iov_relay_process_guc2vf E ([hdr, fence] @ [relay_failure_msg 0 0]) (v\<lparr>iov_relay := x\<rparr>)))) =
    snd (relay_handle_failure 0 fence [relay_failure_msg 0 0] x)"
  using assms by (simp add: intel_iov_relay_process_guc2vf_def relay_process_msg_def Let_def split: prod.split)

text \<open>
  Property C29. Whatever the reason for which the service of the PF rejects a request that a VF has
  sent over the relay, the VF learns nothing of it. The PF that processes the request (and manages
  to send its reply) sends one and the same message, a failure with the undisclosed error code and
  no hint; and when the GuC hands the payload of that message to the waiting VF with the message
  id of the request, and no other message follows, the sender of the request gets ERFKILL with its
  buffer untouched, and nothing is left pending. This is the configuration without
  \<open>CONFIG_DRM_I915_SELFTEST\<close>; with the selftests the PF discloses the code.
\<close>

theorem relay_error_undisclosed:
  assumes "intel_iov_relay_process_guc2pf P ([hp, vfid, fence] @ msg) p = Some (Inr u, p')"
    and "intel_iov_service_process_msg P vfid fence msg p = Some (Inl err, p1)"
    and "GUC_HXG_MSG_0_TYPE (msg ! 0) = GUC_HXG_TYPE_REQUEST"
    and "relay_get_next_fence r = (fence, r1)" "relay_fresh 0 fence r"
    and "env_send_nb E (relay_attempts r) = Inr ()"
    and "env_handlers E (relay_points r) = (\<lambda>x. iov_relay (snd (the (intel_iov_relay_process_guc2vf V
           ([hv, fence] @ drop 3 (hd (relay_sent (iov_relay p')))) (v\<lparr>iov_relay := x\<rparr>)))))"
    and "relay_is_vf (svc_relay V)" "GUC_HXG_REQUEST_MSG_0_DATA0 hv = 0"
    and "\<And>x. env_handlers E (Suc (relay_points r)) x = x"
    and "\<And>x. env_handlers E (Suc (Suc (relay_points r))) x = x"
  shows "hd (relay_sent (iov_relay p')) =
      relay_request vfid fence [relay_failure_msg IOV_ERROR_UNDISCLOSED 0] \<and>
    (\<exists>r'. intel_iov_relay_send_to_pf E msg buf r = Some ((Inl ERFKILL, buf), r') \<and>
      pending_relays r' = pending_relays r)"
proof -
  have sent: "hd (relay_sent (iov_relay p')) = relay_request vfid fence [relay_failure_msg 0 0]"
    using rejected_request_sent [OF assms(1,3,2)] by simp
  then have "drop 3 (hd (relay_sent (iov_relay p'))) = [relay_failure_msg 0 0]" if "vfid \<noteq> 0"
    using that by (simp add: relay_request_def)
  moreover have "vfid \<noteq> 0" using assms(1) by (auto simp: intel_iov_relay_process_guc2pf_def split: if_splits)
  ultimately have "env_handlers E (relay_points r) =
      (\<lambda>x. snd (relay_handle_failure 0 fence [relay_failure_msg 0 0] x))"
    using assms(7) vf_handles_failure [OF assms(8,9), of fence _ v] by simp
  moreover have "GUC_HXG_MSG_0_TYPE (msg ! 0) \<noteq> GUC_HXG_TYPE_EVENT" using assms(3) by simp
  ultimately show ?thesis
    using relay_failure_without_code [OF assms(4,5) _ assms(6) _ _ assms(10,11), of msg "relay_failure_msg 0 0"] sent
    by simp
qed

section \<open>A PF with one VF of four pages\<close>

definition pf_relay_env :: relay_env where
  "pf_relay_env = \<lparr>env_send_nb = (\<lambda>_. Inr ()), env_handlers = (\<lambda>_ x. x), relay_is_pf = True, relay_is_vf = False\<rparr>"

definition svc_demo_env :: service_env where
  "svc_demo_env = \<lparr>svc_iov = quiet_env\<lparr>env_require_binder := True\<rparr>, svc_relay = pf_relay_env,
     svc_gt = GT_PRIMARY, svc_platform = PLATFORM_TGL_ADL, svc_read = (\<lambda>n r. r + 1)\<rparr>"

definition svc_demo_state :: i915_state where
  "svc_demo_state = upd_config GT_PRIMARY 1
     (\<lambda>c. c\<lparr>ggtt_region := Some \<lparr>node_start = 0x1000000, node_size = 0x4000\<rparr>\<rparr>) fresh_state"

definition svc_demo :: intel_iov where
  "svc_demo = \<lparr>iov_state = \<lparr>dev = svc_demo_state, vf_states = (\<lambda>_. None), state_worker = (\<lambda>_. False)\<rparr>,
     iov_relay = relay_boot, iov_runtime = \<lparr>rt_size = 0, rt_regs = [], rt_values = []\<rparr>, iov_reads = 0\<rparr>"

lemma svc_demo_region:
  "ggtt_region (config (svc_gt svc_demo_env) (unat (1 :: u32)) (dev (iov_state svc_demo))) =
     Some \<lparr>node_start = 0x1000000, node_size = 0x4000\<rparr>"
  "region_ok \<lparr>node_start = 0x1000000, node_size = 0x4000\<rparr>"
  by (simp_all add: svc_demo_def svc_demo_state_def svc_demo_env_def region_ok_def)

text \<open>Without a binder the PF writes the page table itself, and this does not fail.\<close>

lemma cpu_update_accepted:
  assumes "ggtt_region (config g vf s) = Some node" "\<not> env_bind_ready E" "\<forall>n. env_alloc E n" "mode = 0 \<or> mode = 2" "nc \<le> MAX_COPIES"
    and "\<not> node_start node + ucast off * 4096 + 4096 - 1 > node_start node + node_size node - 1"
  shows "\<exists>n s'. intel_iov_ggtt_pf_update_vf_ptes E g vf off mode nc [pte] s = (Inr n, s')"
proof -
  have nd: "vf_ggtt_node E g vf s = node" by (simp add: vf_ggtt_node_def assms(1))
  obtain addrs where sg: "pf_sg_ptes mode nc [pte] = Inr addrs"
    using assms(4) by (auto simp: pf_sg_ptes_def Let_def)
  have ne: "of_nat (length [pte]) \<noteq> (0 :: u16)" by simp
  have rg: "\<not> node_start node + ucast off * 4096 + ucast (of_nat (length [pte]) :: u16) * 4096 - 1 >
      node_start node + node_size node - 1"
    using assms(6) by simp
  have "length addrs = Suc (unat nc)" using pf_sg_ptes_length [OF sg _ assms(5)] by simp
  then have "\<exists>s'. i915_ggtt_sgtable_update_ptes E vf a (Some addrs) k p t = (Inr (), s')" for a k p t
    using assms(2) by (simp add: i915_ggtt_sgtable_update_ptes_def sgtable_update_ptes_via_cpu_def)
  then obtain s' where "i915_ggtt_sgtable_update_ptes E vf (node_start node + ucast off * 4096) (Some addrs)
      (unat (if nc \<noteq> 0 then nc + of_nat (length [pte]) else of_nat (length [pte])))
      (prepare_pattern_pte (hd [pte]) (of_nat vf)) (s\<lparr>allocs := Suc (Suc (allocs s))\<rparr>) = (Inr (), s')"
    by blast
  then show ?thesis
    unfolding pf_update_vf_ptes_eq [OF nd assms(3) ne rg sg] Let_def by (simp only: prod.case sum.case) (intro exI, rule refl)
qed

lemma svc_demo_cpu: "\<not> env_bind_ready (svc_iov svc_demo_env)" "\<forall>n. env_alloc (svc_iov svc_demo_env) n"
    "env_require_binder (svc_iov svc_demo_env)" "env_send_nb (svc_relay svc_demo_env) n = Inr ()"
  by (simp_all add: svc_demo_env_def quiet_env_def pf_relay_env_def)

text \<open>Two PTEs with different flags, and a copy of one of them.\<close>

lemma svc_demo_accepts:
  assumes "mode = 0 \<or> mode = 2"
  shows "\<exists>v'. pf_reply_update_ggtt svc_demo_env 1 7
     (update_ggtt_request 1 mode 1 [0x7001, 0x10000000008001]) svc_demo = Some (Inr (), v')"
proof -
  let ?E = svc_demo_env and ?s = "dev (iov_state svc_demo)"
  have step: "\<exists>n s'. intel_iov_ggtt_pf_update_vf_ptes (svc_iov ?E) (svc_gt ?E) (unat (1 :: u32)) off mode nc [pte] s = (Inr n, s')"
    if "off = 1 \<or> off = 2" "nc = 0 \<or> nc = 1" "prov (gts s (svc_gt ?E)) = prov (gts ?s (svc_gt ?E))" for off nc pte s
  proof (rule cpu_update_accepted [OF _ svc_demo_cpu(1,2) assms])
    show "ggtt_region (config (svc_gt ?E) (unat (1 :: u32)) s) = Some \<lparr>node_start = 0x1000000, node_size = 0x4000\<rparr>"
      using svc_demo_region(1) that(3) by simp
  qed (use that(1,2) in auto)
  define a b :: u16 where "a = (if is_last_mode mode then 0 else 1)" and "b = (if is_last_mode mode then 1 else 0)"
  then have ab: "a = 0 \<or> a = 1" "b = 0 \<or> b = 1" by simp_all
  obtain n1 s1 where u1: "intel_iov_ggtt_pf_update_vf_ptes (svc_iov ?E) (svc_gt ?E) (unat (1 :: u32)) 1 mode a [0x7001] ?s = (Inr n1, s1)"
    using step [OF disjI1 [OF refl] ab(1) refl] by blast
  have "unat (1 :: u32) < 2 ^ 21" "length [0x7001 :: u64] \<le> 125" "a \<le> MAX_COPIES" "same_flags [0x7001]"
    using ab by (auto simp: same_flags_def)
  from pt_onlyD(1) [OF pf_update_entries(4) [OF u1 svc_demo_region this]]
  obtain n2 s2 where u2: "intel_iov_ggtt_pf_update_vf_ptes (svc_iov ?E) (svc_gt ?E) (unat (1 :: u32)) 2 mode b
      [0x10000000008001] s1 = (Inr n2, s2)"
    using step [OF disjI2 [OF refl] ab(2)] by blast
  have "pte_flags 0x7001 \<noteq> pte_flags 0x10000000008001" by code_simp
  then have r: "update_ggtt_ranges ?E (unat (1 :: u32)) mode (tl [0x7001, 0x10000000008001]) [hd [0x7001, 0x10000000008001]] 1 1 0 ?s =
      (Inr (0 + n1 + n2), s2)"
    using u1 u2 by (simp add: a_def b_def)
  have d: "pf_reply_update_ggtt ?E 1 7 (update_ggtt_request 1 mode 1 [0x7001, 0x10000000008001]) svc_demo =
    (case upd_dev (update_ggtt_ranges ?E (unat (1 :: u32)) mode (tl [0x7001, 0x10000000008001])
        [hd [0x7001, 0x10000000008001]] 1 1 0) svc_demo of
       (Inl e, v1) \<Rightarrow> Some (Inl e, v1)
     | (Inr updated, v1) \<Rightarrow>
         on_relay (intel_iov_relay_reply_to_vf (svc_relay ?E) 1 7 [iov_success (ucast updated)]) v1)"
    by (rule pf_decodes_update) (use assms svc_demo_cpu(3) in auto)
  show ?thesis
    unfolding d upd_dev_def r
    by (simp add: on_relay_def intel_iov_relay_reply_to_vf_def relay_send_accepted svc_demo_cpu(4))
qed

lemma relay_update_lands_witness:
  "\<exists>v'. pf_reply_update_ggtt svc_demo_env 1 7 (update_ggtt_request 1 2 1 [0x7001, 0x10000000008001]) svc_demo =
      Some (Inr (), v') \<and>
    relay_sent (iov_relay v') = [relay_request 1 7 [iov_success 3]]"
proof -
  obtain v' where v': "pf_reply_update_ggtt svc_demo_env 1 7
      (update_ggtt_request 1 2 1 [0x7001, 0x10000000008001]) svc_demo = Some (Inr (), v')"
    using svc_demo_accepts [of 2] by auto
  have "relay_sent (iov_relay svc_demo) = []" by (simp add: svc_demo_def relay_boot_def)
  with relay_update_lands [OF v' _ _ _ _ _ _ _ _ svc_demo_region] v' show ?thesis
    by (simp add: is_last_mode_def)
qed

lemma relay_update_misplaced_witness:
  "\<exists>v'. pf_reply_update_ggtt svc_demo_env 1 7 (update_ggtt_request 1 0 1 [0x7001, 0x10000000008001]) svc_demo =
      Some (Inr (), v') \<and>
    ggtt_ptes (dev (iov_state v')) 0x1002 = vf_entry 1 0x10000000008001 0x8000 \<and>
    ggtt_ptes (dev (iov_state v')) 0x1003 = 0"
proof -
  obtain v' where v': "pf_reply_update_ggtt svc_demo_env 1 7
      (update_ggtt_request 1 0 1 [0x7001, 0x10000000008001]) svc_demo = Some (Inr (), v')"
    using svc_demo_accepts [of 0] by auto
  have "pte_flags 0x7001 \<noteq> pte_flags 0x10000000008001" "pte_addr 0x10000000008001 = 0x8000" by code_simp+
  moreover have "ggtt_ptes (dev (iov_state svc_demo)) k = 0" for k
    by (simp add: svc_demo_def svc_demo_state_def fresh_state_def upd_config_def upd_prov_def upd_gt_def)
  ultimately show ?thesis
    using relay_update_misplaced [OF v' _ _ _ _ _ _ svc_demo_region] v' by simp
qed

lemma relay_first_page_refused_witness:
  "pf_reply_update_ggtt svc_demo_env 1 7 (update_ggtt_request 0 0 0 [0x7001]) svc_demo = Some (Inl EPROTO, svc_demo)"
  using relay_first_page_refused [OF svc_demo_cpu(3), of "0x1000000"
      "\<lparr>buf_ptes = [], buf_offset = 0, buf_num_copies = 0, buf_mode = 0\<rparr>"] by simp


text \<open>A request that the PF does not know: the service fails with EOPNOTSUPP.\<close>

abbreviation "unknown_request \<equiv> [hxg_request_msg 0 0 0x1FF 0, 0]"

definition rejecting_pf :: "(unit res \<times> intel_iov) option" where
  "rejecting_pf = intel_iov_relay_process_guc2pf svc_demo_env ([hxg_request_msg 1 2 0x5002 0, 1, 1] @ unknown_request) svc_demo"

definition undisclosed_vf :: service_env where
  "undisclosed_vf = svc_demo_env\<lparr>svc_relay := relay_vf_env (\<lambda>_ x. x)\<rparr>"

lemma relay_error_undisclosed_witness:
  "\<exists>u p' r'. rejecting_pf = Some (Inr u, p') \<and>
     intel_iov_relay_send_to_pf (relay_vf_env (\<lambda>n. if n = 0 then (\<lambda>x. iov_relay (snd (the (intel_iov_relay_process_guc2vf
         undisclosed_vf ([hxg_request_msg 1 2 0x5003 0, 1] @ drop 3 (hd (relay_sent (iov_relay p'))))
         (svc_demo\<lparr>iov_relay := x\<rparr>))))) else (\<lambda>x. x)))
       unknown_request [0, 0] relay_boot = Some ((Inl ERFKILL, [0, 0]), r')"
proof -
  have msg: "GUC_HXG_MSG_0_TYPE (unknown_request ! 0) = GUC_HXG_TYPE_REQUEST"
      "GUC_HXG_MSG_0_ORIGIN (unknown_request ! 0) = GUC_HXG_ORIGIN_HOST"
      "GUC_HXG_REQUEST_MSG_0_ACTION (unknown_request ! 0) = 0x1FF"
      "GUC_HXG_REQUEST_MSG_0_DATA0 (hxg_request_msg 1 2 0x5002 0) = 0"
      "GUC_HXG_REQUEST_MSG_0_DATA0 (hxg_request_msg 1 2 0x5003 0) = 0"
    by code_simp+
  have rej: "intel_iov_service_process_msg svc_demo_env 1 1 unknown_request svc_demo = Some (Inl EOPNOTSUPP, svc_demo)"
    using msg(3) by (simp add: intel_iov_service_process_msg_def Let_def)
  have "relay_handle_request svc_demo_env 1 1 unknown_request svc_demo \<noteq> None \<and>
      fst (the (relay_handle_request svc_demo_env 1 1 unknown_request svc_demo)) = Inr ()"
    unfolding relay_handle_request_def rej
    by (simp add: svc_demo_env_def pf_relay_env_def on_relay_def Let_def relay_send_failure_def relay_send_def
        pf_relay_send_def relay_guc_send.simps)
  then obtain p' where "relay_handle_request svc_demo_env 1 1 unknown_request svc_demo = Some (Inr (), p')"
    by (metis option.exhaust_sel prod.collapse)
  then have pf: "intel_iov_relay_process_guc2pf svc_demo_env
      ([hxg_request_msg 1 2 0x5002 0, 1, 1] @ unknown_request) svc_demo = Some (Inr (), p')"
    using msg by (simp add: intel_iov_relay_process_guc2pf_def relay_process_msg_def svc_demo_env_def pf_relay_env_def Let_def)
  have "relay_is_vf (svc_relay undisclosed_vf)" by (simp add: undisclosed_vf_def relay_vf_env_def)
  from relay_error_undisclosed [OF pf rej msg(1) relay_boot_first relay_boot_fresh _ _ this msg(5), of
      "relay_vf_env (\<lambda>n. if n = 0 then (\<lambda>x. iov_relay (snd (the (intel_iov_relay_process_guc2vf
         undisclosed_vf ([hxg_request_msg 1 2 0x5003 0, 1] @ drop 3 (hd (relay_sent (iov_relay p'))))
         (svc_demo\<lparr>iov_relay := x\<rparr>))))) else (\<lambda>x. x))" svc_demo "[0, 0]"]
  have "\<exists>r'. intel_iov_relay_send_to_pf (relay_vf_env (\<lambda>n. if n = 0 then (\<lambda>x. iov_relay (snd (the (intel_iov_relay_process_guc2vf
         undisclosed_vf ([hxg_request_msg 1 2 0x5003 0, 1] @ drop 3 (hd (relay_sent (iov_relay p'))))
         (svc_demo\<lparr>iov_relay := x\<rparr>))))) else (\<lambda>x. x)))
       unknown_request [0, 0] relay_boot = Some ((Inl ERFKILL, [0, 0]), r')"
    by (auto simp: relay_vf_env_def relay_boot_def)
  with pf show ?thesis unfolding rejecting_pf_def by blast
qed

end
