(* ===== verification/Guc_Ring.thy ===== *)
theory Guc_Ring
  imports Iov_Prelude
begin

text \<open>
  The ring buffers through which the driver and the GuC talk (\<open>gt/uc/intel_guc_ct.c\<close>): the loops
  that store and fetch dwords at an index that wraps at the size of the ring, the count and space
  of \<open>linux/circ_buf.h\<close>, and the queue of dwords that a ring stands for. The locale \<open>dword_queue\<close>
  is the contract between a producer and a consumer of such a ring; it is interpreted on the
  ring below.
\<close>

section \<open>The loops and the counts\<close>

fun ring_put :: "u32 \<Rightarrow> u32 list \<Rightarrow> u32 \<Rightarrow> u32 list \<Rightarrow> u32 list \<times> u32" where
  "ring_put sz cs tail [] = (cs, tail)"
| "ring_put sz cs tail (x # xs) =
     ring_put sz (cs[unat tail := x]) ((tail + 1) mod sz) xs"

primrec ring_get :: "u32 \<Rightarrow> u32 list \<Rightarrow> u32 \<Rightarrow> nat \<Rightarrow> u32 list \<times> u32" where
  "ring_get sz cs head 0 = ([], head)"
| "ring_get sz cs head (Suc n) =
     (case ring_get sz cs ((head + 1) mod sz) n of
        (xs, head') \<Rightarrow> (cs ! unat head # xs, head'))"

definition CIRC_CNT :: "u32 \<Rightarrow> u32 \<Rightarrow> u32 \<Rightarrow> u32" where
  "CIRC_CNT head tail sz = (head - tail) AND (sz - 1)"

definition CIRC_SPACE :: "u32 \<Rightarrow> u32 \<Rightarrow> u32 \<Rightarrow> u32" where
  "CIRC_SPACE head tail sz = CIRC_CNT tail (head + 1) sz"

section \<open>The queue of a ring\<close>

definition ring_slots :: "u32 list \<Rightarrow> nat \<Rightarrow> nat \<Rightarrow> nat \<Rightarrow> u32 list" where
  "ring_slots cs N from n = map (\<lambda>i. cs ! ((from + i) mod N)) [0..<n]"

definition ring_used :: "nat \<Rightarrow> nat \<Rightarrow> nat \<Rightarrow> nat" where
  "ring_used N head tail = (tail + N - head) mod N"

definition ring_contents :: "u32 list \<Rightarrow> u32 \<Rightarrow> u32 \<Rightarrow> u32 \<Rightarrow> u32 list" where
  "ring_contents cs sz head tail =
     ring_slots cs (unat sz) (unat head) (ring_used (unat sz) (unat head) (unat tail))"

text \<open>The size is a power of two, the offsets are in the ring.\<close>

definition ring_ok :: "u32 list \<Rightarrow> u32 \<Rightarrow> u32 \<Rightarrow> u32 \<Rightarrow> bool" where
  "ring_ok cs sz head tail \<longleftrightarrow>
     (\<exists>k. 0 < k \<and> k < 32 \<and> sz = 2 ^ k) \<and> length cs = unat sz \<and> head < sz \<and> tail < sz"

lemma unat_two_power: "k < 32 \<Longrightarrow> unat (2 ^ k :: u32) = 2 ^ k"
proof -
  assume "k < 32"
  then have "(2::nat) ^ k < 2 ^ LENGTH(32)" by (subst power_strict_increasing_iff) simp_all
  then show ?thesis by (metis of_nat_numeral of_nat_power take_bit_nat_eq_self unsigned_of_nat)
qed

lemma ring_okD:
  assumes "ring_ok cs sz head tail"
  shows "1 < unat sz" "unat head < unat sz" "unat tail < unat sz" "length cs = unat sz"
    "head < sz" "tail < sz"
proof -
  obtain k where k: "0 < k" "k < 32" "sz = 2 ^ k" using assms unfolding ring_ok_def by blast
  then have "unat sz = 2 ^ k" by (simp add: unat_two_power)
  then show "1 < unat sz" using k(1) by (metis one_less_numeral_iff one_less_power semiring_norm(76))
qed (use assms in \<open>auto simp: ring_ok_def word_less_nat_alt\<close>)

lemma unat_next_index:
  assumes "t < sz"
  shows "unat ((t + 1) mod sz) = (unat t + 1) mod unat sz"
proof -
  have "t \<noteq> - 1" using assms word_order.extremum_strict by blast
  then have "1 + t \<noteq> 0" by (metis add.commute add_eq_0_iff minus_minus)
  then have "unat (t + 1) = unat t + 1" by (simp add: unatSuc add.commute)
  then show ?thesis by (simp add: unat_mod)
qed

lemma next_index_less: "t < sz \<Longrightarrow> (t + 1) mod sz < sz" for t :: u32
  by (simp add: word_less_nat_alt unat_mod)

lemma mod_offsets_differ:
  fixes a i j N :: nat
  assumes "i < N" "j < N" "i \<noteq> j"
  shows "(a + i) mod N \<noteq> (a + j) mod N"
proof (rule ccontr)
  assume "\<not> (a + i) mod N \<noteq> (a + j) mod N"
  then have eq: "(a + i) mod N = (a + j) mod N" by simp
  show False
  proof (cases "i < j")
    case True
    with eq have "N dvd j - i" using mod_eq_dvd_iff_nat [of "a + i" "a + j" N] by simp
    with True assms show False by (auto dest: dvd_imp_le)
  next
    case False
    with eq have "N dvd i - j" using mod_eq_dvd_iff_nat [of "a + j" "a + i" N] by simp
    with False assms show False by (auto dest: dvd_imp_le)
  qed
qed

section \<open>What the loops do\<close>

lemma ring_put_index:
  "t < sz \<Longrightarrow> length (fst (ring_put sz cs t xs)) = length cs \<and>
     snd (ring_put sz cs t xs) < sz \<and>
     unat (snd (ring_put sz cs t xs)) = (unat t + length xs) mod unat sz"
proof (induction xs arbitrary: cs t)
  case Nil
  then show ?case by (simp add: word_less_nat_alt)
next
  case (Cons x xs)
  from Cons.IH [OF next_index_less [OF Cons.prems], of "cs[unat t := x]"] Cons.prems
  show ?case by (simp add: unat_next_index mod_simps)
qed

lemma ring_put_other:
  "t < sz \<Longrightarrow> \<forall>i < length xs. j \<noteq> (unat t + i) mod unat sz \<Longrightarrow>
     fst (ring_put sz cs t xs) ! j = cs ! j"
proof (induction xs arbitrary: cs t)
  case Nil
  then show ?case by simp
next
  case (Cons x xs)
  have "j \<noteq> (unat ((t + 1) mod sz) + i) mod unat sz" if "i < length xs" for i
    using Cons.prems(2) [rule_format, of "Suc i"] that
    by (simp add: unat_next_index [OF Cons.prems(1)] mod_simps)
  moreover have "j \<noteq> unat t"
    using Cons.prems by (auto simp: word_less_nat_alt dest!: spec [of _ 0])
  ultimately show ?case
    using Cons.IH [OF next_index_less [OF Cons.prems(1)], of "cs[unat t := x]"] by simp
qed

lemma ring_put_nth:
  "t < sz \<Longrightarrow> length cs = unat sz \<Longrightarrow> length xs \<le> unat sz \<Longrightarrow> i < length xs \<Longrightarrow>
     fst (ring_put sz cs t xs) ! ((unat t + i) mod unat sz) = xs ! i"
proof (induction xs arbitrary: cs t i)
  case Nil
  then show ?case by simp
next
  case (Cons x xs)
  let ?t = "(t + 1) mod sz" and ?cs = "cs[unat t := x]"
  have t: "unat t < unat sz" using Cons.prems(1) by (simp add: word_less_nat_alt)
  show ?case
  proof (cases i)
    case 0
    have "unat t \<noteq> (unat ?t + j) mod unat sz" if "j < length xs" for j
      using mod_offsets_differ [of 0 "unat sz" "Suc j" "unat t"] that Cons.prems(3) t
      by (simp add: unat_next_index [OF Cons.prems(1)] mod_simps)
    then have "fst (ring_put sz ?cs ?t xs) ! unat t = x"
      using ring_put_other [OF next_index_less [OF Cons.prems(1)], of xs "unat t" ?cs] t Cons.prems(2)
      by simp
    then show ?thesis using 0 t by simp
  next
    case (Suc k)
    with Cons.IH [OF next_index_less [OF Cons.prems(1)], of ?cs k] Cons.prems
    show ?thesis by (simp add: unat_next_index mod_simps)
  qed
qed

lemma ring_get_slots:
  "h < sz \<Longrightarrow> fst (ring_get sz cs h n) = ring_slots cs (unat sz) (unat h) n \<and>
     snd (ring_get sz cs h n) < sz \<and> unat (snd (ring_get sz cs h n)) = (unat h + n) mod unat sz"
proof (induction n arbitrary: h)
  case 0
  then show ?case by (simp add: ring_slots_def word_less_nat_alt)
next
  case (Suc n)
  have h: "unat h mod unat sz = unat h" using Suc.prems by (simp add: word_less_nat_alt)
  have "ring_slots cs (unat sz) (unat h) (Suc n) =
      cs ! unat h # ring_slots cs (unat sz) (unat ((h + 1) mod sz)) n"
    unfolding ring_slots_def
    by (simp only: upt_conv_Cons map_Suc_upt [symmetric] zero_less_Suc list.map map_map o_def)
       (simp add: h unat_next_index [OF Suc.prems] mod_simps)
  then show ?case
    using Suc.IH [OF next_index_less [OF Suc.prems]]
    by (cases "ring_get sz cs ((h + 1) mod sz) n")
      (simp add: unat_next_index [OF Suc.prems] mod_simps)
qed

section \<open>Counts and contents\<close>

lemma ring_used_less: "0 < N \<Longrightarrow> ring_used N h t < N"
  by (simp add: ring_used_def)

lemma ring_used_tail: "h < N \<Longrightarrow> t < N \<Longrightarrow> (h + ring_used N h t) mod N = t"
  by (simp add: ring_used_def mod_simps)

lemma ring_used_unique: "h < N \<Longrightarrow> u < N \<Longrightarrow> ring_used N h ((h + u) mod N) = u"
proof -
  assume a: "h < N" "u < N"
  have "((h + u) mod N + N - h) mod N = ((h + u) mod N + (N - h)) mod N" using a(1) by simp
  also have "\<dots> = (h + u + (N - h)) mod N" by (simp add: mod_simps)
  also have "\<dots> = (u + N) mod N" using a(1) by simp
  finally show ?thesis using a(2) by (simp add: ring_used_def)
qed

lemma unat_CIRC_CNT:
  assumes "k < 32" "sz = 2 ^ k"
  shows "unat (CIRC_CNT h t sz) = nat ((uint h - uint t) mod int (unat sz))"
proof -
  have "sz - 1 = mask k" using assms(2) by (simp add: mask_eq_exp_minus_1)
  then have "CIRC_CNT h t sz = take_bit k (h - t)"
    by (simp add: CIRC_CNT_def take_bit_eq_mask)
  then have "unat (CIRC_CNT h t sz) = nat (uint (h - t)) mod 2 ^ k"
    by (simp add: unat_take_bit)
  also have "\<dots> = nat (uint (h - t) mod 2 ^ k)" by (simp add: nat_mod_distrib nat_power_eq)
  also have "uint (h - t) mod 2 ^ k = (uint h - uint t) mod 2 ^ 32 mod 2 ^ k"
    by (simp add: uint_word_ariths)
  also have "\<dots> = (uint h - uint t) mod 2 ^ k"
    using assms(1) by (intro mod_mod_cancel le_imp_power_dvd) simp
  finally show ?thesis using assms unat_two_power [of k] by simp
qed

lemma unat_CIRC_SPACE:
  assumes ok: "ring_ok cs sz h t"
  shows "unat (CIRC_SPACE t h sz) + ring_used (unat sz) (unat h) (unat t) + 1 = unat sz"
proof -
  let ?N = "unat sz" and ?u = "ring_used (unat sz) (unat h) (unat t)"
  obtain k where k: "k < 32" "sz = 2 ^ k" using ok unfolding ring_ok_def by blast
  note N = ring_okD [OF ok]
  have u: "?u < ?N" using N(1) by (simp add: ring_used_less)
  have ut: "uint (t + 1) mod int ?N = int ((unat t + 1) mod ?N)"
  proof -
    have "(2 :: nat) ^ k dvd 2 ^ 32" using k(1) by (intro le_imp_power_dvd) simp
    then have "?N dvd 2 ^ 32" unfolding k(2) unat_two_power [OF k(1)] .
    then have "int ?N dvd 2 ^ 32" by (metis of_nat_dvd_iff of_nat_numeral of_nat_power)
    then have "uint (t + 1) mod int ?N = (uint t + 1) mod int ?N"
      by (simp add: uint_word_ariths mod_mod_cancel)
    then show ?thesis by (simp add: zmod_int add.commute)
  qed
  have "(uint h - uint (t + 1)) mod int ?N = (int (unat h) - int (unat t + 1)) mod int ?N"
    by (metis mod_diff_right_eq ut uint_nat zmod_int)
  also have "int (unat t + 1) mod int ?N = int (unat h + ?u + 1) mod int ?N"
    using ring_used_tail [OF N(2,3)]
    by (metis mod_add_left_eq zmod_int)
  then have "(int (unat h) - int (unat t + 1)) mod int ?N =
      (int (unat h) - int (unat h + ?u + 1)) mod int ?N"
    by (metis mod_diff_right_eq)
  also have "\<dots> = (int ?N - 1 - int ?u) mod int ?N"
  proof -
    have "int (unat h) - int (unat h + ?u + 1) = (int ?N - 1 - int ?u) - int ?N" by simp
    then show ?thesis by (simp only: minus_mod_self2)
  qed
  also have "\<dots> = int ?N - 1 - int ?u"
    by (rule mod_pos_pos_trivial) (use u in linarith)+
  finally have "unat (CIRC_SPACE t h sz) = ?N - 1 - ?u"
    unfolding CIRC_SPACE_def unat_CIRC_CNT [OF k] by linarith
  then show ?thesis using u by simp
qed

text \<open>Storing dwords appends them to the queue, and touches no slot of the queue.\<close>

lemma ring_put_contents:
  assumes ok: "ring_ok cs sz h t" and room: "length xs \<le> unat (CIRC_SPACE t h sz)"
    and put: "ring_put sz cs t xs = (cs', t')"
  shows "ring_contents cs' sz h t' = ring_contents cs sz h t @ xs" "ring_ok cs' sz h t'"
proof -
  let ?N = "unat sz"
  obtain u where u: "u = ring_used (unat sz) (unat h) (unat t)" by simp
  note N = ring_okD [OF ok]
  have fit: "u + length xs < ?N" using unat_CIRC_SPACE [OF ok] room u by simp
  note idx = ring_put_index [OF N(6), of cs xs, unfolded put fst_conv snd_conv]
  show "ring_ok cs' sz h t'" using ok idx unfolding ring_ok_def by auto
  have t: "unat t = (unat h + u) mod ?N" using ring_used_tail [OF N(2,3)] u by simp
  have at: "(unat t + j) mod ?N = (unat h + (u + j)) mod ?N" for j
    unfolding t by (simp add: mod_simps add.assoc)
  have used': "ring_used ?N (unat h) (unat t') = u + length xs"
    using idx at ring_used_unique [OF N(2) fit] by simp
  have old: "cs' ! ((unat h + i) mod ?N) = cs ! ((unat h + i) mod ?N)" if i: "i < u" for i
  proof -
    have "(unat h + i) mod ?N \<noteq> (unat t + j) mod ?N" if "j < length xs" for j
      unfolding at by (rule mod_offsets_differ) (use that i fit in auto)
    then show ?thesis
      using ring_put_other [OF N(6), of xs "(unat h + i) mod ?N" cs] by (simp add: put)
  qed
  have new: "cs' ! ((unat h + i) mod ?N) = xs ! (i - u)" if "u \<le> i" "i < u + length xs" for i
  proof -
    have "(unat t + (i - u)) mod ?N = (unat h + i) mod ?N" unfolding at using that(1) by simp
    then show ?thesis
      using ring_put_nth [OF N(6,4), of xs "i - u"] that fit by (simp add: put)
  qed
  show "ring_contents cs' sz h t' = ring_contents cs sz h t @ xs"
    unfolding ring_contents_def used' ring_slots_def u [symmetric]
    by (rule nth_equalityI) (auto simp: nth_append old new)
qed

text \<open>Fetching dwords takes them off the queue.\<close>

lemma ring_get_contents:
  assumes ok: "ring_ok cs sz h t" and n: "n \<le> length (ring_contents cs sz h t)"
    and get: "ring_get sz cs h n = (xs, h')"
  shows "xs = take n (ring_contents cs sz h t)"
    "ring_contents cs sz h' t = drop n (ring_contents cs sz h t)" "ring_ok cs sz h' t"
proof -
  let ?N = "unat sz" and ?u = "ring_used (unat sz) (unat h) (unat t)"
  note N = ring_okD [OF ok]
  note g = ring_get_slots [OF N(5), of cs n, unfolded get fst_conv snd_conv]
  have u: "?u < ?N" "n \<le> ?u" using N(1) n by (auto simp: ring_used_less ring_contents_def ring_slots_def)
  show "ring_ok cs sz h' t" using ok g unfolding ring_ok_def by auto
  show "xs = take n (ring_contents cs sz h t)"
    using g u by (auto simp: ring_contents_def ring_slots_def take_map)
  have "unat t = (unat h' + (?u - n)) mod ?N"
  proof -
    have "(unat h' + (?u - n)) mod ?N = (unat h + n + (?u - n)) mod ?N"
      using g by (simp add: mod_simps)
    also have "\<dots> = (unat h + ?u) mod ?N" using u(2) by simp
    finally show ?thesis using ring_used_tail [OF N(2,3)] by simp
  qed
  moreover have "unat h' < ?N" using g by (simp add: word_less_nat_alt)
  ultimately have used': "ring_used ?N (unat h') (unat t) = ?u - n"
    using ring_used_unique [of "unat h'" ?N "?u - n"] u by simp
  show "ring_contents cs sz h' t = drop n (ring_contents cs sz h t)"
    unfolding ring_contents_def used' ring_slots_def
    using g u by (intro nth_equalityI) (auto simp: mod_simps add.assoc)
qed

lemma length_ring_contents:
  "ring_ok cs sz h t \<Longrightarrow>
     length (ring_contents cs sz h t) + unat (CIRC_SPACE t h sz) + 1 = unat sz"
  using unat_CIRC_SPACE [of cs sz h t] by (simp add: ring_contents_def ring_slots_def)

section \<open>The contract of a queue of dwords\<close>

text \<open>
  What the producer and the consumer of a ring rely on: dwords that fit are appended, dwords that
  are there are taken off in order, and the capacity is constant.
\<close>

locale dword_queue =
  fixes good :: "'q \<Rightarrow> bool" and contents :: "'q \<Rightarrow> u32 list" and room :: "'q \<Rightarrow> nat"
    and put :: "u32 list \<Rightarrow> 'q \<Rightarrow> 'q" and get :: "nat \<Rightarrow> 'q \<Rightarrow> u32 list \<times> 'q"
  assumes put_appends: "good q \<Longrightarrow> length xs \<le> room q \<Longrightarrow>
      contents (put xs q) = contents q @ xs \<and> good (put xs q)"
    and put_room: "good q \<Longrightarrow> length xs \<le> room q \<Longrightarrow> room (put xs q) + length xs = room q"
    and get_takes: "good q \<Longrightarrow> n \<le> length (contents q) \<Longrightarrow> get n q = (xs, q') \<Longrightarrow>
      xs = take n (contents q) \<and> contents q' = drop n (contents q) \<and> good q'"
    and get_room: "good q \<Longrightarrow> n \<le> length (contents q) \<Longrightarrow> get n q = (xs, q') \<Longrightarrow>
      room q' = room q + n"
begin

text \<open>Messages that fit together are taken off one by one as they were put in.\<close>

lemma put_many:
  "good q \<Longrightarrow> length (concat ms) \<le> room q \<Longrightarrow>
     contents (fold put ms q) = contents q @ concat ms \<and> good (fold put ms q)"
proof (induction ms arbitrary: q)
  case Nil
  then show ?case by simp
next
  case (Cons m ms)
  then have "length m \<le> room q" by simp
  from put_appends [OF Cons.prems(1) this] put_room [OF Cons.prems(1) this] Cons
  show ?case by simp
qed

primrec get_many :: "nat list \<Rightarrow> 'q \<Rightarrow> u32 list list \<times> 'q" where
  "get_many [] q = ([], q)"
| "get_many (n # ns) q =
     (case get n q of (m, q1) \<Rightarrow> case get_many ns q1 of (ms, q2) \<Rightarrow> (m # ms, q2))"

lemma get_many_splits:
  "good q \<Longrightarrow> contents q = concat ms @ rest \<Longrightarrow>
     \<exists>q'. get_many (map length ms) q = (ms, q') \<and> contents q' = rest \<and> good q'"
proof (induction ms arbitrary: q)
  case Nil
  then show ?case by simp
next
  case (Cons m ms)
  obtain xs q1 where g: "get (length m) q = (xs, q1)" by fastforce
  from get_takes [OF Cons.prems(1) _ g] Cons.prems(2)
  have "xs = m" "contents q1 = concat ms @ rest" "good q1" by simp_all
  with Cons.IH [of q1] g show ?case by fastforce
qed

lemma fifo:
  assumes "good q" "contents q = []" "length (concat ms) \<le> room q"
  shows "\<exists>q'. get_many (map length ms) (fold put ms q) = (ms, q') \<and> contents q' = [] \<and> good q'"
  using get_many_splits [of "fold put ms q" ms "[]"] put_many [OF assms(1,3)] assms(2) by simp

end

text \<open>The ring provides it: a ring is its dwords, its size, its head and its tail.\<close>

type_synonym ring = "u32 list \<times> u32 \<times> u32 \<times> u32"

definition ring_good :: "ring \<Rightarrow> bool" where
  "ring_good = (\<lambda>(cs, sz, h, t). ring_ok cs sz h t)"

definition ring_queue :: "ring \<Rightarrow> u32 list" where
  "ring_queue = (\<lambda>(cs, sz, h, t). ring_contents cs sz h t)"

definition ring_room :: "ring \<Rightarrow> nat" where
  "ring_room = (\<lambda>(cs, sz, h, t). unat (CIRC_SPACE t h sz))"

definition ring_write :: "u32 list \<Rightarrow> ring \<Rightarrow> ring" where
  "ring_write xs = (\<lambda>(cs, sz, h, t). case ring_put sz cs t xs of (cs', t') \<Rightarrow> (cs', sz, h, t'))"

definition ring_read :: "nat \<Rightarrow> ring \<Rightarrow> u32 list \<times> ring" where
  "ring_read n = (\<lambda>(cs, sz, h, t). case ring_get sz cs h n of (xs, h') \<Rightarrow> (xs, (cs, sz, h', t)))"

lemma ring_length_room: "ring_good r \<Longrightarrow> length (ring_queue r) + ring_room r + 1 = unat (fst (snd r))"
  using length_ring_contents
  by (cases r) (auto simp: ring_good_def ring_queue_def ring_room_def split_beta)

lemma ring_write_appends:
  "ring_good r \<Longrightarrow> length xs \<le> ring_room r \<Longrightarrow>
     ring_queue (ring_write xs r) = ring_queue r @ xs \<and> ring_good (ring_write xs r) \<and>
     fst (snd (ring_write xs r)) = fst (snd r)"
proof -
  obtain cs sz h t where r: "r = (cs, sz, h, t)" by (cases r)
  obtain cs' t' where p: "ring_put sz cs t xs = (cs', t')" by fastforce
  assume "ring_good r" "length xs \<le> ring_room r"
  then show ?thesis
    using ring_put_contents [OF _ _ p, of h]
    by (simp add: r p ring_good_def ring_queue_def ring_room_def ring_write_def)
qed

lemma ring_read_takes:
  "ring_good r \<Longrightarrow> n \<le> length (ring_queue r) \<Longrightarrow> ring_read n r = (xs, r') \<Longrightarrow>
     xs = take n (ring_queue r) \<and> ring_queue r' = drop n (ring_queue r) \<and> ring_good r' \<and>
     fst (snd r') = fst (snd r)"
proof -
  obtain cs sz h t where r: "r = (cs, sz, h, t)" by (cases r)
  obtain ys h' where g: "ring_get sz cs h n = (ys, h')" by fastforce
  assume "ring_good r" "n \<le> length (ring_queue r)" "ring_read n r = (xs, r')"
  then show ?thesis
    using ring_get_contents [OF _ _ g, of t]
    by (auto simp: r g ring_good_def ring_queue_def ring_read_def)
qed

interpretation guc_ring: dword_queue ring_good ring_queue ring_room ring_write ring_read
proof unfold_locales
  fix q :: ring and xs :: "u32 list"
  assume a: "ring_good q" "length xs \<le> ring_room q"
  note w = ring_write_appends [OF a] and r = ring_length_room [OF a(1)]
  show "ring_queue (ring_write xs q) = ring_queue q @ xs \<and> ring_good (ring_write xs q)"
    using w by simp
  show "ring_room (ring_write xs q) + length xs = ring_room q"
    using w r ring_length_room [of "ring_write xs q"] by simp
next
  fix q q' :: ring and n and xs :: "u32 list"
  assume a: "ring_good q" "n \<le> length (ring_queue q)" "ring_read n q = (xs, q')"
  note g = ring_read_takes [OF a] and r = ring_length_room [OF a(1)] and n = a(2)
  show "xs = take n (ring_queue q) \<and> ring_queue q' = drop n (ring_queue q) \<and> ring_good q'"
    using g by simp
  show "ring_room q' = ring_room q + n" using g r n ring_length_room [of q'] by simp
qed

end
