(* ===== verification/Guc_Ct.thy ===== *)
theory Guc_Ct
  imports Guc_Mmio Guc_Ring
begin

text \<open>
  The command transport between the driver and the GuC (\<open>gt/uc/intel_guc_ct.c\<close>): the two ring
  buffers with their descriptors, sending with flow control, the requests that wait for a
  response, and the receiving of messages up to their dispatch to the handlers of the driver.
  The descriptors and the rings are shared with the GuC, and other threads run while a sender
  sleeps: both are the functions \<open>env_sleep\<close> and \<open>env_others\<close> of the environment, called with the
  number of pauses made so far. The handlers act on a state \<open>'h\<close> of their own. The debugging
  options of the driver (\<open>CONFIG_DRM_I915_DEBUG_GUC\<close>, \<open>CONFIG_DRM_I915_DEBUG_GEM\<close>) are off.
\<close>

section \<open>Data\<close>

record guc_ct_buffer_desc =
  desc_head :: u32
  desc_tail :: u32
  desc_status :: u32

record intel_guc_ct_buffer =
  desc :: guc_ct_buffer_desc
  cmds :: "u32 list"
  ctb_size :: u32
  resv_space :: u32
  ctb_tail :: u32
  ctb_head :: u32
  ctb_space :: u32
  broken :: bool

text \<open>A sender's request lives on its stack; \<open>req_id\<close> is its identity in the list.\<close>

record ct_request =
  req_id :: nat
  req_fence :: u32
  req_status :: u32
  response_len :: u32
  response_buf :: "u32 list"

text \<open>\<open>stall_time\<close> is \<open>None\<close> for \<open>KTIME_MAX\<close>; the clock counts milliseconds.\<close>

record 'h intel_guc_ct =
  ct_vma :: "u32 option"
  ct_enabled :: bool
  ctb_send :: intel_guc_ct_buffer
  ctb_recv :: intel_guc_ct_buffer
  receive_tasklet :: bool
  last_fence :: u16
  pending :: "ct_request list"
  incoming :: "u32 list list"
  ct_worker :: bool
  stall_time :: "nat option"
  mtl_work :: bool
  ct_mmio :: guc_mmio
  ct_clock :: nat
  ct_pauses :: nat
  ct_allocs :: nat
  ct_requests :: nat
  ct_notifies :: nat
  tail_writes :: nat
  hstate :: 'h

text \<open>The handlers of the messages, in the order of the switch that calls them.\<close>

type_synonym 'h handler = "u32 list \<Rightarrow> 'h \<Rightarrow> unit res \<times> 'h"

record 'h ct_handlers =
  on_default :: "'h handler"
  on_deregister_done :: "'h handler"
  on_sched_done :: "'h handler"
  on_set_engine_sched_done :: "'h handler"
  on_context_reset :: "'h handler"
  on_error_capture :: "'h handler"
  on_engine_failure :: "'h handler"
  on_vf_state_notify :: "'h handler"
  on_adverse_event :: "'h handler"
  on_relay_from_vf :: "'h handler"
  on_relay_from_pf :: "'h handler"
  on_mmio_relay :: "'h handler"
  on_flush_log :: "'h \<Rightarrow> 'h"
  on_crash :: "u32 \<Rightarrow> 'h \<Rightarrow> unit res \<times> 'h"
  on_tlb_done :: "'h handler"

record 'h ct_env =
  env_mmio :: mmio_env
  env_mtl :: bool
  env_tail_lost :: "nat \<Rightarrow> bool"
  env_ct_alloc :: "nat \<Rightarrow> bool"
  env_ct_vma :: "(u32 \<times> u32 list \<times> u32 list) res"
  env_fw_running :: bool
  env_sleep :: "nat \<Rightarrow> u32 \<Rightarrow> 'h intel_guc_ct \<Rightarrow> bool \<times> 'h intel_guc_ct"
  env_others :: "nat \<Rightarrow> 'h intel_guc_ct \<Rightarrow> 'h intel_guc_ct"
  handlers :: "'h ct_handlers"

definition upd_send ::
    "(intel_guc_ct_buffer \<Rightarrow> intel_guc_ct_buffer) \<Rightarrow> 'h intel_guc_ct \<Rightarrow> 'h intel_guc_ct" where
  "upd_send f c = c\<lparr>ctb_send := f (ctb_send c)\<rparr>"

definition upd_recv ::
    "(intel_guc_ct_buffer \<Rightarrow> intel_guc_ct_buffer) \<Rightarrow> 'h intel_guc_ct \<Rightarrow> 'h intel_guc_ct" where
  "upd_recv f c = c\<lparr>ctb_recv := f (ctb_recv c)\<rparr>"

section \<open>Constants\<close>

abbreviation CTB_DESC_SIZE :: u32 where "CTB_DESC_SIZE \<equiv> 0x800"
abbreviation CTB_H2G_BUFFER_SIZE :: u32 where "CTB_H2G_BUFFER_SIZE \<equiv> 0x1000"
abbreviation CTB_G2H_BUFFER_SIZE :: u32 where "CTB_G2H_BUFFER_SIZE \<equiv> 0x4000"
abbreviation G2H_ROOM_BUFFER_SIZE :: u32 where "G2H_ROOM_BUFFER_SIZE \<equiv> 0x1000"
abbreviation GUC_CTB_STATUS_OVERFLOW :: u32 where "GUC_CTB_STATUS_OVERFLOW \<equiv> 1"
abbreviation GUC_CTB_STATUS_UNDERFLOW :: u32 where "GUC_CTB_STATUS_UNDERFLOW \<equiv> 2"
abbreviation GUC_CTB_STATUS_UNUSED :: u32 where "GUC_CTB_STATUS_UNUSED \<equiv> 8"
abbreviation GUC_CTB_HDR_LEN :: u32 where "GUC_CTB_HDR_LEN \<equiv> 1"
abbreviation GUC_CTB_HXG_MSG_MIN_LEN :: u32 where "GUC_CTB_HXG_MSG_MIN_LEN \<equiv> 2"
abbreviation GUC_CTB_HXG_MSG_MAX_LEN :: u32 where "GUC_CTB_HXG_MSG_MAX_LEN \<equiv> 256"
abbreviation GUC_CTB_FORMAT_HXG :: u32 where "GUC_CTB_FORMAT_HXG \<equiv> 0"
abbreviation GUC_CTB_TIMEOUT_MS :: nat where "GUC_CTB_TIMEOUT_MS \<equiv> 1500"

definition GUC_CTB_MSG_0_FENCE :: "u32 \<Rightarrow> u32" where
  "GUC_CTB_MSG_0_FENCE w = FIELD_GET 16 16 w"

definition GUC_CTB_MSG_0_FORMAT :: "u32 \<Rightarrow> u32" where
  "GUC_CTB_MSG_0_FORMAT w = FIELD_GET 4 12 w"

definition GUC_CTB_MSG_0_NUM_DWORDS :: "u32 \<Rightarrow> u32" where
  "GUC_CTB_MSG_0_NUM_DWORDS w = FIELD_GET 8 0 w"

definition ct_header :: "u32 \<Rightarrow> u32 \<Rightarrow> u32" where
  "ct_header fence len =
     FIELD_PREP 4 12 GUC_CTB_FORMAT_HXG OR FIELD_PREP 8 0 len OR FIELD_PREP 16 16 fence"

lemma ct_header_fields [hxg_simps]:
  "GUC_CTB_MSG_0_FENCE (ct_header f n) = take_bit 16 f"
  "GUC_CTB_MSG_0_FORMAT (ct_header f n) = GUC_CTB_FORMAT_HXG"
  "GUC_CTB_MSG_0_NUM_DWORDS (ct_header f n) = take_bit 8 n"
  unfolding ct_header_def GUC_CTB_MSG_0_FENCE_def GUC_CTB_MSG_0_FORMAT_def GUC_CTB_MSG_0_NUM_DWORDS_def
  by (simp_all add: field_simps_guc)

section \<open>Setting up the buffers\<close>

definition guc_ct_buffer_desc_init :: guc_ct_buffer_desc where
  "guc_ct_buffer_desc_init = \<lparr>desc_head = 0, desc_tail = 0, desc_status = 0\<rparr>"

definition guc_ct_buffer_reset :: "intel_guc_ct_buffer \<Rightarrow> intel_guc_ct_buffer" where
  "guc_ct_buffer_reset b =
     b\<lparr>broken := False, ctb_tail := 0, ctb_head := 0,
       ctb_space := CIRC_SPACE 0 0 (ctb_size b) - resv_space b, desc := guc_ct_buffer_desc_init\<rparr>"

definition guc_ct_buffer_init ::
    "u32 list \<Rightarrow> u32 \<Rightarrow> u32 \<Rightarrow> intel_guc_ct_buffer \<Rightarrow> intel_guc_ct_buffer" where
  "guc_ct_buffer_init cs size_in_bytes resv b =
     guc_ct_buffer_reset (b\<lparr>cmds := cs, ctb_size := size_in_bytes div 4, resv_space := resv div 4\<rparr>)"

definition intel_guc_ct_init :: "'h ct_env \<Rightarrow> 'h intel_guc_ct \<Rightarrow> unit res \<times> 'h intel_guc_ct" where
  "intel_guc_ct_init E c =
     (case env_ct_vma E of
        Inl e \<Rightarrow> (Inl e, c)
      | Inr (base, send_cmds, recv_cmds) \<Rightarrow>
          (Inr (), upd_recv (guc_ct_buffer_init recv_cmds CTB_G2H_BUFFER_SIZE G2H_ROOM_BUFFER_SIZE)
                     (upd_send (guc_ct_buffer_init send_cmds CTB_H2G_BUFFER_SIZE 0)
                       (c\<lparr>ct_vma := Some base\<rparr>))))"

section \<open>Enabling and disabling\<close>

abbreviation GUC_ACTION_HOST2GUC_CONTROL_CTB :: u32 where
  "GUC_ACTION_HOST2GUC_CONTROL_CTB \<equiv> 0x4509"

abbreviation GUC_KLV_SELF_CFG_H2G_CTB_ADDR_KEY :: u16 where
  "GUC_KLV_SELF_CFG_H2G_CTB_ADDR_KEY \<equiv> 0x0902"
abbreviation GUC_KLV_SELF_CFG_H2G_CTB_DESCRIPTOR_ADDR_KEY :: u16 where
  "GUC_KLV_SELF_CFG_H2G_CTB_DESCRIPTOR_ADDR_KEY \<equiv> 0x0903"
abbreviation GUC_KLV_SELF_CFG_H2G_CTB_SIZE_KEY :: u16 where
  "GUC_KLV_SELF_CFG_H2G_CTB_SIZE_KEY \<equiv> 0x0904"
abbreviation GUC_KLV_SELF_CFG_G2H_CTB_ADDR_KEY :: u16 where
  "GUC_KLV_SELF_CFG_G2H_CTB_ADDR_KEY \<equiv> 0x0905"
abbreviation GUC_KLV_SELF_CFG_G2H_CTB_DESCRIPTOR_ADDR_KEY :: u16 where
  "GUC_KLV_SELF_CFG_G2H_CTB_DESCRIPTOR_ADDR_KEY \<equiv> 0x0906"
abbreviation GUC_KLV_SELF_CFG_G2H_CTB_SIZE_KEY :: u16 where
  "GUC_KLV_SELF_CFG_G2H_CTB_SIZE_KEY \<equiv> 0x0907"

definition guc_action_control_ctb ::
    "mmio_env \<Rightarrow> u32 \<Rightarrow> guc_mmio \<Rightarrow> (unit res \<times> guc_mmio) option" where
  "guc_action_control_ctb E control m =
     (case intel_guc_send_mmio E
         [hxg_request_msg GUC_HXG_ORIGIN_HOST GUC_HXG_TYPE_REQUEST GUC_ACTION_HOST2GUC_CONTROL_CTB 0,
          control] None m of
        None \<Rightarrow> None
      | Some ((Inl e, _), m1) \<Rightarrow> Some (Inl e, m1)
      | Some ((Inr ret, _), m1) \<Rightarrow> Some (if ret > 0 then Inl EPROTO else Inr (), m1))"

definition ct_control_enable ::
    "'h ct_env \<Rightarrow> bool \<Rightarrow> 'h intel_guc_ct \<Rightarrow> (unit res \<times> 'h intel_guc_ct) option" where
  "ct_control_enable E enable c =
     map_option (\<lambda>(r, m). (r, c\<lparr>ct_mmio := m\<rparr>))
       (guc_action_control_ctb (env_mmio E) (if enable then 1 else 0) (ct_mmio c))"

definition ct_register_buffer ::
    "mmio_env \<Rightarrow> bool \<Rightarrow> u32 \<Rightarrow> u32 \<Rightarrow> u32 \<Rightarrow> guc_mmio \<Rightarrow> (unit res \<times> guc_mmio) option" where
  "ct_register_buffer E send desc_addr buff_addr n m =
     (case intel_guc_self_cfg64 E
         (if send then GUC_KLV_SELF_CFG_H2G_CTB_DESCRIPTOR_ADDR_KEY
          else GUC_KLV_SELF_CFG_G2H_CTB_DESCRIPTOR_ADDR_KEY) (ucast desc_addr) m of
        None \<Rightarrow> None
      | Some (Inl e, m1) \<Rightarrow> Some (Inl e, m1)
      | Some (Inr _, m1) \<Rightarrow>
         (case intel_guc_self_cfg64 E
             (if send then GUC_KLV_SELF_CFG_H2G_CTB_ADDR_KEY
              else GUC_KLV_SELF_CFG_G2H_CTB_ADDR_KEY) (ucast buff_addr) m1 of
            None \<Rightarrow> None
          | Some (Inl e, m2) \<Rightarrow> Some (Inl e, m2)
          | Some (Inr _, m2) \<Rightarrow>
              intel_guc_self_cfg32 E
                (if send then GUC_KLV_SELF_CFG_H2G_CTB_SIZE_KEY
                 else GUC_KLV_SELF_CFG_G2H_CTB_SIZE_KEY) n m2))"

text \<open>The three steps of enabling that talk to the GuC, then the flags.\<close>

definition ct_setup ::
    "'h ct_env \<Rightarrow> u32 \<Rightarrow> 'h intel_guc_ct \<Rightarrow> (unit res \<times> 'h intel_guc_ct) option" where
  "ct_setup E base c =
     (case ct_register_buffer (env_mmio E) False (base + CTB_DESC_SIZE)
         (base + 2 * CTB_DESC_SIZE + CTB_H2G_BUFFER_SIZE) (ctb_size (ctb_recv c) * 4) (ct_mmio c) of
        None \<Rightarrow> None
      | Some (Inl e, m1) \<Rightarrow> Some (Inl e, c\<lparr>ct_mmio := m1\<rparr>)
      | Some (Inr _, m1) \<Rightarrow>
         (case ct_register_buffer (env_mmio E) True base (base + 2 * CTB_DESC_SIZE)
             (ctb_size (ctb_send c) * 4) m1 of
            None \<Rightarrow> None
          | Some (Inl e, m2) \<Rightarrow> Some (Inl e, c\<lparr>ct_mmio := m2\<rparr>)
          | Some (Inr _, m2) \<Rightarrow> ct_control_enable E True (c\<lparr>ct_mmio := m2\<rparr>)))"

definition intel_guc_ct_enable ::
    "'h ct_env \<Rightarrow> 'h intel_guc_ct \<Rightarrow> (unit res \<times> 'h intel_guc_ct) option" where
  "intel_guc_ct_enable E c =
     (case ct_setup E (case ct_vma c of None \<Rightarrow> 0 | Some b \<Rightarrow> b)
         (upd_recv guc_ct_buffer_reset (upd_send guc_ct_buffer_reset c)) of
        None \<Rightarrow> None
      | Some (Inl e, c1) \<Rightarrow> Some (Inl e, c1)
      | Some (Inr _, c1) \<Rightarrow>
          Some (Inr (), c1\<lparr>ct_enabled := True, stall_time := None,
                           mtl_work := mtl_work c1 \<or> env_mtl E\<rparr>))"

definition intel_guc_ct_disable :: "'h ct_env \<Rightarrow> 'h intel_guc_ct \<Rightarrow> 'h intel_guc_ct option" where
  "intel_guc_ct_disable E c =
     (let c1 = c\<lparr>ct_enabled := False, mtl_work := mtl_work c \<and> \<not> env_mtl E\<rparr>
      in if env_fw_running E then map_option snd (ct_control_enable E False c1) else Some c1)"

definition intel_guc_ct_sanitize :: "'h ct_env \<Rightarrow> 'h intel_guc_ct \<Rightarrow> 'h intel_guc_ct" where
  "intel_guc_ct_sanitize E c = c\<lparr>ct_enabled := False, mtl_work := mtl_work c \<and> \<not> env_mtl E\<rparr>"

section \<open>Writing a message\<close>

definition ct_get_next_fence :: "'h intel_guc_ct \<Rightarrow> u32 \<times> 'h intel_guc_ct" where
  "ct_get_next_fence c = (ucast (last_fence c + 1), c\<lparr>last_fence := last_fence c + 1\<rparr>)"

text \<open>One store of the tail to the descriptor, which may get lost on Meteor Lake.\<close>

definition write_desc_tail :: "'h ct_env \<Rightarrow> u32 \<Rightarrow> 'h intel_guc_ct \<Rightarrow> 'h intel_guc_ct" where
  "write_desc_tail E t c =
     (if env_mtl E \<and> env_tail_lost E (tail_writes c) then c
      else upd_send (\<lambda>b. b\<lparr>desc := (desc b)\<lparr>desc_tail := t\<rparr>\<rparr>) c)\<lparr>tail_writes := Suc (tail_writes c)\<rparr>"

definition ct_message :: "u32 list \<Rightarrow> u32 \<Rightarrow> bool \<Rightarrow> u32 list" where
  "ct_message action fence nb =
     ct_header fence (of_nat (length action)) #
     hxg_aux_msg GUC_HXG_ORIGIN_HOST
       (if nb then GUC_HXG_TYPE_FAST_REQUEST else GUC_HXG_TYPE_REQUEST) (hd action) # tl action"

definition ct_write ::
    "'h ct_env \<Rightarrow> u32 list \<Rightarrow> u32 \<Rightarrow> bool \<Rightarrow> 'h intel_guc_ct \<Rightarrow> unit res \<times> 'h intel_guc_ct" where
  "ct_write E action fence nb c =
     (if desc_status (desc (ctb_send c)) \<noteq> 0
      then (Inl EPIPE, upd_send (\<lambda>b. b\<lparr>broken := True\<rparr>) c)
      else case ring_put (ctb_size (ctb_send c)) (cmds (ctb_send c)) (ctb_tail (ctb_send c))
                  (ct_message action fence nb) of
        (cs, t) \<Rightarrow>
          let c1 = upd_send (\<lambda>b. b\<lparr>cmds := cs, ctb_tail := t,
                     ctb_space := ctb_space b - (of_nat (length action) + GUC_CTB_HDR_LEN)\<rparr>) c;
              c2 = write_desc_tail E t c1;
              c3 = (if env_mtl E \<and> desc_tail (desc (ctb_send c2)) \<noteq> t then write_desc_tail E t c2
                    else c2)
          in (Inr (), c3))"

definition mtl_workaround_worker_func :: "'h ct_env \<Rightarrow> 'h intel_guc_ct \<Rightarrow> 'h intel_guc_ct" where
  "mtl_workaround_worker_func E c =
     (if \<not> ct_enabled c then c
      else let t = ctb_tail (ctb_send c);
               c1 = (if t \<noteq> desc_tail (desc (ctb_send c))
                     then (write_desc_tail E t c)\<lparr>ct_notifies := Suc (ct_notifies c)\<rparr> else c)
           in c1\<lparr>mtl_work := True\<rparr>)"

section \<open>Flow control\<close>

definition ct_deadlocked :: "'h intel_guc_ct \<Rightarrow> bool" where
  "ct_deadlocked c \<longleftrightarrow>
     (case stall_time c of None \<Rightarrow> False | Some t \<Rightarrow> ct_clock c > t + GUC_CTB_TIMEOUT_MS)"

definition ct_check_deadlock :: "'h intel_guc_ct \<Rightarrow> bool \<times> 'h intel_guc_ct" where
  "ct_check_deadlock c =
     (if ct_deadlocked c then (True, upd_send (\<lambda>b. b\<lparr>broken := True\<rparr>) c) else (False, c))"

definition g2h_has_room :: "u32 \<Rightarrow> 'h intel_guc_ct \<Rightarrow> bool" where
  "g2h_has_room n c \<longleftrightarrow> n = 0 \<or> ctb_space (ctb_recv c) \<ge> n"

definition g2h_reserve_space :: "u32 \<Rightarrow> 'h intel_guc_ct \<Rightarrow> 'h intel_guc_ct" where
  "g2h_reserve_space n c =
     (if n \<noteq> 0 then upd_recv (\<lambda>b. b\<lparr>ctb_space := ctb_space b - n\<rparr>) c else c)"

definition g2h_release_space :: "u32 \<Rightarrow> 'h intel_guc_ct \<Rightarrow> 'h intel_guc_ct" where
  "g2h_release_space n c = upd_recv (\<lambda>b. b\<lparr>ctb_space := ctb_space b + n\<rparr>) c"

definition h2g_has_room :: "u32 \<Rightarrow> 'h intel_guc_ct \<Rightarrow> bool \<times> 'h intel_guc_ct" where
  "h2g_has_room n c =
     (let b = ctb_send c; head = desc_head (desc b); space = CIRC_SPACE (ctb_tail b) head (ctb_size b)
      in if ctb_space b \<ge> n then (True, c)
         else if head > ctb_size b
         then (False, upd_send (\<lambda>b. b\<lparr>broken := True,
                 desc := (desc b)\<lparr>desc_status := desc_status (desc b) OR GUC_CTB_STATUS_OVERFLOW\<rparr>\<rparr>) c)
         else (space \<ge> n, upd_send (\<lambda>b. b\<lparr>ctb_space := space\<rparr>) c))"

definition ct_note_stall :: "'h intel_guc_ct \<Rightarrow> 'h intel_guc_ct" where
  "ct_note_stall c = (case stall_time c of None \<Rightarrow> c\<lparr>stall_time := Some (ct_clock c)\<rparr> | Some _ \<Rightarrow> c)"

definition has_room_nb :: "u32 \<Rightarrow> u32 \<Rightarrow> 'h intel_guc_ct \<Rightarrow> unit res \<times> 'h intel_guc_ct" where
  "has_room_nb h2g_dw g2h_dw c =
     (case h2g_has_room h2g_dw c of
        (h2g, c1) \<Rightarrow>
          let g2h = g2h_has_room g2h_dw c1
          in if \<not> h2g \<or> \<not> g2h then
               let c2 = ct_note_stall c1;
                   c3 = (if g2h then c2 else c2\<lparr>receive_tasklet := True\<rparr>)
               in (case ct_check_deadlock c3 of
                     (dead, c4) \<Rightarrow> (if dead then Inl EPIPE else Inl EBUSY, c4))
             else (Inr (), c1\<lparr>stall_time := None\<rparr>))"

definition G2H_LEN_DW :: "u32 \<Rightarrow> u32" where
  "G2H_LEN_DW flags = (if FIELD_GET 8 0 flags \<noteq> 0 then FIELD_GET 8 0 flags + GUC_CTB_HXG_MSG_MIN_LEN else 0)"

definition ct_notify :: "'h intel_guc_ct \<Rightarrow> 'h intel_guc_ct" where
  "ct_notify c = c\<lparr>ct_notifies := Suc (ct_notifies c)\<rparr>"

definition ct_send_nb ::
    "'h ct_env \<Rightarrow> u32 list \<Rightarrow> u32 \<Rightarrow> 'h intel_guc_ct \<Rightarrow> unit res \<times> 'h intel_guc_ct" where
  "ct_send_nb E action flags c =
     (case has_room_nb (of_nat (length action) + GUC_CTB_HDR_LEN) (G2H_LEN_DW flags) c of
        (Inl e, c1) \<Rightarrow> (Inl e, c1)
      | (Inr _, c1) \<Rightarrow>
         (case ct_get_next_fence c1 of (fence, c2) \<Rightarrow>
            case ct_write E action fence (bit flags 31) c2 of
              (Inl e, c3) \<Rightarrow> (Inl e, c3)
            | (Inr _, c3) \<Rightarrow> (Inr (), ct_notify (g2h_reserve_space (G2H_LEN_DW flags) c3))))"

section \<open>Sending and waiting for the response\<close>

text \<open>Until there is room: sleep for one, two, four, ... milliseconds. The sleep may be
  interrupted.\<close>

definition ct_sleep :: "'h ct_env \<Rightarrow> u32 \<Rightarrow> 'h intel_guc_ct \<Rightarrow> bool \<times> 'h intel_guc_ct" where
  "ct_sleep E ms c = env_sleep E (ct_pauses c) ms (c\<lparr>ct_pauses := Suc (ct_pauses c)\<rparr>)"

partial_function (option) ct_wait_room ::
    "'h ct_env \<Rightarrow> u32 \<Rightarrow> u32 \<Rightarrow> 'h intel_guc_ct \<Rightarrow> (u32 res \<times> 'h intel_guc_ct) option" where
  "ct_wait_room E len period c =
     (case h2g_has_room (len + GUC_CTB_HDR_LEN) c of
        (h2g, c1) \<Rightarrow>
          if \<not> h2g \<or> \<not> g2h_has_room GUC_CTB_HXG_MSG_MAX_LEN c1 then
            (case ct_check_deadlock (ct_note_stall c1) of
               (dead, c2) \<Rightarrow>
                 if dead then Some (Inl EPIPE, c2)
                 else (case ct_sleep E period c2 of
                   (interrupted, c3) \<Rightarrow>
                     if interrupted then Some (Inl EINTR, c3)
                     else ct_wait_room E len (push_bit 1 period) c3))
          else Some (Inr period, c1\<lparr>stall_time := None\<rparr>))"

definition ct_add_request :: "u32 \<Rightarrow> u32 list option \<Rightarrow> 'h intel_guc_ct \<Rightarrow> nat \<times> 'h intel_guc_ct" where
  "ct_add_request fence buf c =
     (let r = \<lparr>req_id = ct_requests c, req_fence = fence, req_status = 0,
               response_len = (case buf of None \<Rightarrow> 0 | Some b \<Rightarrow> of_nat (length b)),
               response_buf = (case buf of None \<Rightarrow> [] | Some b \<Rightarrow> b)\<rparr>
      in (ct_requests c, c\<lparr>pending := pending c @ [r], ct_requests := Suc (ct_requests c)\<rparr>))"

definition ct_unlink :: "nat \<Rightarrow> 'h intel_guc_ct \<Rightarrow> 'h intel_guc_ct" where
  "ct_unlink i c = c\<lparr>pending := filter (\<lambda>r. req_id r \<noteq> i) (pending c)\<rparr>"

text \<open>The two timed waits are one pause, in which the others run; what counts is what the
  condition says at their end.\<close>

definition wait_for_ct_request_update ::
    "'h ct_env \<Rightarrow> nat \<Rightarrow> 'h intel_guc_ct \<Rightarrow> ct_request res \<times> 'h intel_guc_ct" where
  "wait_for_ct_request_update E i c =
     (let c1 = env_others E (ct_pauses c) (c\<lparr>ct_pauses := Suc (ct_pauses c)\<rparr>)
      in if \<not> ct_enabled c1 then (Inl ENODEV, c1)
         else case find (\<lambda>r. req_id r = i) (pending c1) of
                None \<Rightarrow> (Inl ETIMEDOUT, c1)
              | Some r \<Rightarrow>
                  (if GUC_HXG_MSG_0_ORIGIN (req_status r) = GUC_HXG_ORIGIN_GUC then Inr r
                   else Inl ETIMEDOUT, c1))"

text \<open>What the sender makes of the status: \<open>None\<close> when the request is to be sent again.\<close>

definition ct_reply :: "bool \<Rightarrow> ct_request \<Rightarrow> (u32 res \<times> u32 list) option" where
  "ct_reply has_buf r =
     (if GUC_HXG_MSG_0_TYPE (req_status r) = GUC_HXG_TYPE_NO_RESPONSE_RETRY then None
      else if GUC_HXG_MSG_0_TYPE (req_status r) \<noteq> GUC_HXG_TYPE_RESPONSE_SUCCESS
        then Some (Inl EIO, response_buf r)
      else if has_buf then Some (Inr (response_len r), response_buf r)
      else Some (Inr (GUC_HXG_MSG_0_AUX (req_status r)), []))"

partial_function (option) ct_send ::
    "'h ct_env \<Rightarrow> u32 list \<Rightarrow> u32 list option \<Rightarrow> u32 \<Rightarrow> 'h intel_guc_ct \<Rightarrow>
     ((u32 res \<times> u32 list) \<times> 'h intel_guc_ct) option" where
  "ct_send E action buf period c =
     (case ct_wait_room E (of_nat (length action)) period c of
        None \<Rightarrow> None
      | Some (Inl e, c1) \<Rightarrow> Some ((Inl e, []), c1)
      | Some (Inr period1, c1) \<Rightarrow>
         (case ct_get_next_fence c1 of (fence, c2) \<Rightarrow>
          case ct_add_request fence buf c2 of (i, c3) \<Rightarrow>
          case ct_write E action fence False c3 of (err, c4) \<Rightarrow>
          let c5 = g2h_reserve_space GUC_CTB_HXG_MSG_MAX_LEN c4
          in case err of
            Inl e \<Rightarrow> Some ((Inl e, []), ct_unlink i c5)
          | Inr _ \<Rightarrow>
             (case wait_for_ct_request_update E i (ct_notify c5) of (reply, c6) \<Rightarrow>
              let c7 = ct_unlink i (g2h_release_space GUC_CTB_HXG_MSG_MAX_LEN c6)
              in case reply of
                Inl e \<Rightarrow> Some ((Inl e, []), c7)
              | Inr r \<Rightarrow>
                  (case ct_reply (buf \<noteq> None) r of
                     None \<Rightarrow> ct_send E action buf period1 c7
                   | Some ret \<Rightarrow> Some (ret, c7)))))"

definition intel_guc_ct_send ::
    "'h ct_env \<Rightarrow> u32 list \<Rightarrow> u32 list option \<Rightarrow> u32 \<Rightarrow> 'h intel_guc_ct \<Rightarrow>
     ((u32 res \<times> u32 list) \<times> 'h intel_guc_ct) option" where
  "intel_guc_ct_send E action buf flags c =
     (if \<not> ct_enabled c then Some ((Inl ENODEV, []), c)
      else if broken (ctb_send c) then Some ((Inl EPIPE, []), c)
      else if bit flags 31 then
        (case ct_send_nb E action flags c of
           (r, c1) \<Rightarrow> Some ((map_sum (\<lambda>e. e) (\<lambda>_. 0) r, []), c1))
      else ct_send E action buf 1 c)"

section \<open>Reading a message\<close>

definition ct_alloc_msg :: "'h ct_env \<Rightarrow> 'h intel_guc_ct \<Rightarrow> bool \<times> 'h intel_guc_ct" where
  "ct_alloc_msg E c = (env_ct_alloc E (ct_allocs c), c\<lparr>ct_allocs := Suc (ct_allocs c)\<rparr>)"

definition ct_read_corrupted :: "u32 \<Rightarrow> 'h intel_guc_ct \<Rightarrow> 'h intel_guc_ct" where
  "ct_read_corrupted st c =
     upd_recv (\<lambda>b. b\<lparr>broken := True,
       desc := (desc b)\<lparr>desc_status := desc_status (desc b) OR st\<rparr>\<rparr>) c"

text \<open>The number of dwords left to read, and the message if there was one.\<close>

definition ct_read ::
    "'h ct_env \<Rightarrow> 'h intel_guc_ct \<Rightarrow> (nat \<times> u32 list option) res \<times> 'h intel_guc_ct" where
  "ct_read E c =
     (let b = ctb_recv c; sz = ctb_size b; head = ctb_head b; tail = desc_tail (desc b);
          available = (if tail < head then tail - head + sz else tail - head);
          header = cmds b ! unat head;
          len = GUC_CTB_MSG_0_NUM_DWORDS header + 1
      in if broken b then (Inl EPIPE, c)
         else if desc_status (desc b) AND NOT GUC_CTB_STATUS_UNUSED \<noteq> 0
           then (Inl EPIPE, ct_read_corrupted 0 c)
         else if tail \<ge> sz then (Inl EPIPE, ct_read_corrupted GUC_CTB_STATUS_OVERFLOW c)
         else if available = 0 then (Inr (0, None), c)
         else if len > available then (Inl EPIPE, ct_read_corrupted GUC_CTB_STATUS_UNDERFLOW c)
         else case ct_alloc_msg E c of (ok, c1) \<Rightarrow>
           if \<not> ok then (Inr (unat available, None), c1)
           else case ring_get sz (cmds b) ((head + 1) mod sz) (unat len - 1) of
             (payload, head') \<Rightarrow>
               (Inr (unat (available - len), Some (header # payload)),
                upd_recv (\<lambda>b. b\<lparr>ctb_head := head', desc := (desc b)\<lparr>desc_head := head'\<rparr>\<rparr>) c1))"

section \<open>Handling a message\<close>

text \<open>The first pending request with the fence gets the status and the data that fit.\<close>

definition complete_request ::
    "u32 \<Rightarrow> u32 \<Rightarrow> u32 list \<Rightarrow> ct_request list \<Rightarrow> unit res \<times> ct_request list" where
  "complete_request fence status data =
     update_first (\<lambda>r. req_fence r = fence)
       (\<lambda>r. let datalen = of_nat (length data); n = min datalen (response_len r)
            in (if datalen > response_len r then Inl EMSGSIZE else Inr (),
                r\<lparr>response_buf := take (unat n) data @ drop (unat n) (response_buf r),
                  response_len := n, req_status := status\<rparr>))
       (Inl ENOKEY)"

definition ct_handle_response :: "u32 list \<Rightarrow> 'h intel_guc_ct \<Rightarrow> unit res \<times> 'h intel_guc_ct" where
  "ct_handle_response msg c =
     (case complete_request (GUC_CTB_MSG_0_FENCE (msg ! 0)) (msg ! 1)
         (take (unat (GUC_CTB_MSG_0_NUM_DWORDS (msg ! 0)) - 1) (drop 2 msg)) (pending c) of
        (r, ps) \<Rightarrow> (r, c\<lparr>pending := ps\<rparr>))"

abbreviation INTEL_GUC_ACTION_DEFAULT :: u32 where "INTEL_GUC_ACTION_DEFAULT \<equiv> 0"
abbreviation INTEL_GUC_ACTION_DEREGISTER_CONTEXT_DONE :: u32 where
  "INTEL_GUC_ACTION_DEREGISTER_CONTEXT_DONE \<equiv> 0x4600"
abbreviation INTEL_GUC_ACTION_SCHED_CONTEXT_MODE_DONE :: u32 where
  "INTEL_GUC_ACTION_SCHED_CONTEXT_MODE_DONE \<equiv> 0x1002"
abbreviation GUC_ACTION_GUC2HOST_SET_ENGINE_SCHED_DONE :: u32 where
  "GUC_ACTION_GUC2HOST_SET_ENGINE_SCHED_DONE \<equiv> 0x1004"
abbreviation INTEL_GUC_ACTION_CONTEXT_RESET_NOTIFICATION :: u32 where
  "INTEL_GUC_ACTION_CONTEXT_RESET_NOTIFICATION \<equiv> 0x1008"
abbreviation INTEL_GUC_ACTION_STATE_CAPTURE_NOTIFICATION :: u32 where
  "INTEL_GUC_ACTION_STATE_CAPTURE_NOTIFICATION \<equiv> 0x8002"
abbreviation INTEL_GUC_ACTION_ENGINE_FAILURE_NOTIFICATION :: u32 where
  "INTEL_GUC_ACTION_ENGINE_FAILURE_NOTIFICATION \<equiv> 0x1009"
abbreviation GUC_ACTION_GUC2PF_VF_STATE_NOTIFY :: u32 where
  "GUC_ACTION_GUC2PF_VF_STATE_NOTIFY \<equiv> 0x5106"
abbreviation GUC_ACTION_GUC2PF_ADVERSE_EVENT :: u32 where "GUC_ACTION_GUC2PF_ADVERSE_EVENT \<equiv> 0x5104"
abbreviation GUC_ACTION_GUC2PF_RELAY_FROM_VF :: u32 where "GUC_ACTION_GUC2PF_RELAY_FROM_VF \<equiv> 0x5100"
abbreviation GUC_ACTION_GUC2VF_RELAY_FROM_PF :: u32 where "GUC_ACTION_GUC2VF_RELAY_FROM_PF \<equiv> 0x5102"
abbreviation GUC_ACTION_GUC2PF_MMIO_RELAY_SERVICE :: u32 where
  "GUC_ACTION_GUC2PF_MMIO_RELAY_SERVICE \<equiv> 0x5006"
abbreviation INTEL_GUC_ACTION_NOTIFY_FLUSH_LOG_BUFFER_TO_FILE :: u32 where
  "INTEL_GUC_ACTION_NOTIFY_FLUSH_LOG_BUFFER_TO_FILE \<equiv> 0x8003"
abbreviation INTEL_GUC_ACTION_NOTIFY_CRASH_DUMP_POSTED :: u32 where
  "INTEL_GUC_ACTION_NOTIFY_CRASH_DUMP_POSTED \<equiv> 0x8004"
abbreviation INTEL_GUC_ACTION_NOTIFY_EXCEPTION :: u32 where
  "INTEL_GUC_ACTION_NOTIFY_EXCEPTION \<equiv> 0x8005"
abbreviation INTEL_GUC_ACTION_TLB_INVALIDATION_DONE :: u32 where
  "INTEL_GUC_ACTION_TLB_INVALIDATION_DONE \<equiv> 0x7001"

definition ct_dispatch :: "'h ct_handlers \<Rightarrow> u32 list \<Rightarrow> 'h \<Rightarrow> unit res \<times> 'h" where
  "ct_dispatch H hxg h =
     (let action = GUC_HXG_REQUEST_MSG_0_ACTION (hxg ! 0); payload = drop 1 hxg
      in if action = INTEL_GUC_ACTION_DEFAULT then on_default H payload h
         else if action = INTEL_GUC_ACTION_DEREGISTER_CONTEXT_DONE then on_deregister_done H payload h
         else if action = INTEL_GUC_ACTION_SCHED_CONTEXT_MODE_DONE then on_sched_done H payload h
         else if action = GUC_ACTION_GUC2HOST_SET_ENGINE_SCHED_DONE
           then on_set_engine_sched_done H hxg h
         else if action = INTEL_GUC_ACTION_CONTEXT_RESET_NOTIFICATION
           then on_context_reset H payload h
         else if action = INTEL_GUC_ACTION_STATE_CAPTURE_NOTIFICATION
           then on_error_capture H payload h
         else if action = INTEL_GUC_ACTION_ENGINE_FAILURE_NOTIFICATION
           then on_engine_failure H payload h
         else if action = GUC_ACTION_GUC2PF_VF_STATE_NOTIFY then on_vf_state_notify H hxg h
         else if action = GUC_ACTION_GUC2PF_ADVERSE_EVENT then on_adverse_event H hxg h
         else if action = GUC_ACTION_GUC2PF_RELAY_FROM_VF then on_relay_from_vf H hxg h
         else if action = GUC_ACTION_GUC2VF_RELAY_FROM_PF then on_relay_from_pf H hxg h
         else if action = GUC_ACTION_GUC2PF_MMIO_RELAY_SERVICE then on_mmio_relay H hxg h
         else if action = INTEL_GUC_ACTION_NOTIFY_FLUSH_LOG_BUFFER_TO_FILE
           then (Inr (), on_flush_log H h)
         else if action = INTEL_GUC_ACTION_NOTIFY_CRASH_DUMP_POSTED \<or>
                 action = INTEL_GUC_ACTION_NOTIFY_EXCEPTION then on_crash H action h
         else if action = INTEL_GUC_ACTION_TLB_INVALIDATION_DONE then on_tlb_done H payload h
         else (Inl EOPNOTSUPP, h))"

definition ct_process_request ::
    "'h ct_env \<Rightarrow> u32 list \<Rightarrow> 'h intel_guc_ct \<Rightarrow> unit res \<times> 'h intel_guc_ct" where
  "ct_process_request E msg c =
     (case ct_dispatch (handlers E) (drop 1 msg) (hstate c) of (r, h) \<Rightarrow> (r, c\<lparr>hstate := h\<rparr>))"

definition ct_process_incoming_requests ::
    "'h ct_env \<Rightarrow> 'h intel_guc_ct \<Rightarrow> bool \<times> 'h intel_guc_ct" where
  "ct_process_incoming_requests E c =
     (case incoming c of
        [] \<Rightarrow> (True, c)
      | msg # msgs \<Rightarrow> (msgs = [], snd (ct_process_request E msg (c\<lparr>incoming := msgs\<rparr>))))"

function incoming_worker_loop :: "'h ct_env \<Rightarrow> 'h intel_guc_ct \<Rightarrow> 'h intel_guc_ct" where
  "incoming_worker_loop E c =
     (case ct_process_incoming_requests E c of
        (finished, c1) \<Rightarrow> if finished then c1 else incoming_worker_loop E c1)"
  by pat_completeness auto
termination
  by (relation "measure (\<lambda>(E, c). length (incoming c))")
    (auto simp: ct_process_incoming_requests_def ct_process_request_def split: list.splits prod.splits)

definition ct_incoming_request_worker_func :: "'h ct_env \<Rightarrow> 'h intel_guc_ct \<Rightarrow> 'h intel_guc_ct" where
  "ct_incoming_request_worker_func E c = incoming_worker_loop E (c\<lparr>ct_worker := False\<rparr>)"

definition ct_handle_event ::
    "'h ct_env \<Rightarrow> u32 list \<Rightarrow> 'h intel_guc_ct \<Rightarrow> unit res \<times> 'h intel_guc_ct" where
  "ct_handle_event E msg c =
     (let action = GUC_HXG_REQUEST_MSG_0_ACTION (msg ! 1);
          c1 = (if action \<in> {GUC_ACTION_GUC2HOST_SET_ENGINE_SCHED_DONE,
                             INTEL_GUC_ACTION_SCHED_CONTEXT_MODE_DONE,
                             INTEL_GUC_ACTION_DEREGISTER_CONTEXT_DONE,
                             INTEL_GUC_ACTION_TLB_INVALIDATION_DONE}
                then g2h_release_space (of_nat (length msg)) c else c)
      in if action = INTEL_GUC_ACTION_TLB_INVALIDATION_DONE then ct_process_request E msg c1
         else (Inr (), c1\<lparr>incoming := incoming c1 @ [msg], ct_worker := True\<rparr>))"

definition ct_handle_hxg ::
    "'h ct_env \<Rightarrow> u32 list \<Rightarrow> 'h intel_guc_ct \<Rightarrow> unit res \<times> 'h intel_guc_ct" where
  "ct_handle_hxg E msg c =
     (let type = GUC_HXG_MSG_0_TYPE (msg ! 1)
      in if length msg < 2 then (Inl EBADMSG, c)
         else if GUC_HXG_MSG_0_ORIGIN (msg ! 1) \<noteq> GUC_HXG_ORIGIN_GUC then (Inl EPROTO, c)
         else if type = GUC_HXG_TYPE_EVENT then ct_handle_event E msg c
         else if type = GUC_HXG_TYPE_RESPONSE_SUCCESS \<or> type = GUC_HXG_TYPE_RESPONSE_FAILURE \<or>
                 type = GUC_HXG_TYPE_NO_RESPONSE_RETRY then ct_handle_response msg c
         else (Inl EOPNOTSUPP, c))"

text \<open>Errors are reported and the message is dropped.\<close>

definition ct_handle_msg :: "'h ct_env \<Rightarrow> u32 list \<Rightarrow> 'h intel_guc_ct \<Rightarrow> 'h intel_guc_ct" where
  "ct_handle_msg E msg c =
     (if GUC_CTB_MSG_0_FORMAT (msg ! 0) = GUC_CTB_FORMAT_HXG then snd (ct_handle_hxg E msg c) else c)"

definition ct_receive :: "'h ct_env \<Rightarrow> 'h intel_guc_ct \<Rightarrow> nat res \<times> 'h intel_guc_ct" where
  "ct_receive E c =
     (case ct_read E c of
        (Inl e, c1) \<Rightarrow> (Inl e, c1)
      | (Inr (n, None), c1) \<Rightarrow> (Inr n, c1)
      | (Inr (n, Some msg), c1) \<Rightarrow> (Inr n, ct_handle_msg E msg c1))"

definition ct_try_receive_message :: "'h ct_env \<Rightarrow> 'h intel_guc_ct \<Rightarrow> 'h intel_guc_ct" where
  "ct_try_receive_message E c =
     (if \<not> ct_enabled c then c
      else case ct_receive E c of
        (Inl _, c1) \<Rightarrow> c1
      | (Inr n, c1) \<Rightarrow> if n > 0 then c1\<lparr>receive_tasklet := True\<rparr> else c1)"

definition ct_receive_tasklet_func :: "'h ct_env \<Rightarrow> 'h intel_guc_ct \<Rightarrow> 'h intel_guc_ct" where
  "ct_receive_tasklet_func E c = ct_try_receive_message E (c\<lparr>receive_tasklet := False\<rparr>)"

definition intel_guc_ct_event_handler :: "'h ct_env \<Rightarrow> 'h intel_guc_ct \<Rightarrow> 'h intel_guc_ct" where
  "intel_guc_ct_event_handler E c = (if ct_enabled c then ct_try_receive_message E c else c)"

end
