(* ===== verification/Guc_Ct_Queue.thy ===== *)
theory Guc_Ct_Queue
  imports Guc_Ct
begin

text \<open>
  The command transport as a pair of queues: a message that is sent is appended to the queue from
  the driver to the GuC and overwrites nothing that the GuC has still to read, the messages that
  the GuC queued are handled one by one in their order, a response completes the request with its
  fence and no other, and a sender that finds no room gives up after a bounded time.
\<close>

section \<open>The queue of a direction\<close>

text \<open>
  The ring to the GuC as the driver books it, with its own copy of the tail, and as the GuC sees
  it, with the tail in the descriptor that both share.
\<close>

definition own_ring :: "'h intel_guc_ct \<Rightarrow> ring" where
  "own_ring c = (let b = ctb_send c in (cmds b, ctb_size b, desc_head (desc b), ctb_tail b))"

definition send_ring :: "'h intel_guc_ct \<Rightarrow> ring" where
  "send_ring c = (let b = ctb_send c in (cmds b, ctb_size b, desc_head (desc b), desc_tail (desc b)))"

definition recv_ring :: "'h intel_guc_ct \<Rightarrow> ring" where
  "recv_ring c = (let b = ctb_recv c in (cmds b, ctb_size b, ctb_head b, desc_tail (desc b)))"

abbreviation own_queue :: "'h intel_guc_ct \<Rightarrow> u32 list" where
  "own_queue c \<equiv> ring_queue (own_ring c)"

abbreviation send_queue :: "'h intel_guc_ct \<Rightarrow> u32 list" where
  "send_queue c \<equiv> ring_queue (send_ring c)"

abbreviation recv_queue :: "'h intel_guc_ct \<Rightarrow> u32 list" where
  "recv_queue c \<equiv> ring_queue (recv_ring c)"

text \<open>The credits of the sender never exceed the room in the ring.\<close>

definition send_ok :: "'h intel_guc_ct \<Rightarrow> bool" where
  "send_ok c \<longleftrightarrow> ring_good (own_ring c) \<and> unat (ctb_space (ctb_send c)) \<le> ring_room (own_ring c)"

text \<open>What the GuC sees is what the driver has queued, up to messages not published yet.\<close>

definition send_visible :: "'h intel_guc_ct \<Rightarrow> bool" where
  "send_visible c \<longleftrightarrow> ring_good (send_ring c) \<and> (\<exists>rest. own_queue c = send_queue c @ rest)"

text \<open>One of the two stores of the tail to the descriptor reaches it; always, but on Meteor Lake.\<close>

definition tail_lands :: "'h ct_env \<Rightarrow> 'h intel_guc_ct \<Rightarrow> bool" where
  "tail_lands E c \<longleftrightarrow>
     \<not> (env_mtl E \<and> env_tail_lost E (tail_writes c) \<and> env_tail_lost E (Suc (tail_writes c)))"

lemma published_visible:
  "ring_good (own_ring c) \<Longrightarrow> desc_tail (desc (ctb_send c)) = ctb_tail (ctb_send c) \<Longrightarrow>
     send_visible c \<and> send_queue c = own_queue c"
  by (simp add: send_visible_def own_ring_def send_ring_def)

definition recv_ok :: "'h intel_guc_ct \<Rightarrow> bool" where
  "recv_ok c \<longleftrightarrow> ring_good (recv_ring c) \<and> \<not> broken (ctb_recv c) \<and>
     desc_status (desc (ctb_recv c)) AND NOT GUC_CTB_STATUS_UNUSED = 0"

lemma upd_simps [simp]:
  "ctb_send (upd_send f c) = f (ctb_send c)" "ctb_recv (upd_send f c) = ctb_recv c"
  "ctb_recv (upd_recv f c) = f (ctb_recv c)" "ctb_send (upd_recv f c) = ctb_send c"
  "last_fence (upd_send f c) = last_fence c" "last_fence (upd_recv f c) = last_fence c"
  "pending (upd_send f c) = pending c" "pending (upd_recv f c) = pending c"
  "stall_time (upd_send f c) = stall_time c" "stall_time (upd_recv f c) = stall_time c"
  "ct_clock (upd_send f c) = ct_clock c" "ct_clock (upd_recv f c) = ct_clock c"
  "ct_enabled (upd_send f c) = ct_enabled c" "ct_enabled (upd_recv f c) = ct_enabled c"
  "receive_tasklet (upd_send f c) = receive_tasklet c" "receive_tasklet (upd_recv f c) = receive_tasklet c"
  "hstate (upd_send f c) = hstate c" "hstate (upd_recv f c) = hstate c"
  "incoming (upd_send f c) = incoming c" "incoming (upd_recv f c) = incoming c"
  "ct_allocs (upd_send f c) = ct_allocs c" "ct_allocs (upd_recv f c) = ct_allocs c"
  "ct_requests (upd_send f c) = ct_requests c" "ct_requests (upd_recv f c) = ct_requests c"
  "ct_pauses (upd_send f c) = ct_pauses c" "ct_pauses (upd_recv f c) = ct_pauses c"
  by (simp_all add: upd_send_def upd_recv_def)

lemma write_desc_tail_frame [simp]:
  "own_ring (write_desc_tail E t c) = own_ring c"
  "ctb_space (ctb_send (write_desc_tail E t c)) = ctb_space (ctb_send c)"
  "broken (ctb_send (write_desc_tail E t c)) = broken (ctb_send c)"
  "ctb_recv (write_desc_tail E t c) = ctb_recv c"
  "last_fence (write_desc_tail E t c) = last_fence c"
  "pending (write_desc_tail E t c) = pending c"
  "ct_requests (write_desc_tail E t c) = ct_requests c"
  "ct_enabled (write_desc_tail E t c) = ct_enabled c"
  "ct_pauses (write_desc_tail E t c) = ct_pauses c"
  by (simp_all add: write_desc_tail_def own_ring_def Let_def)

section \<open>Sending\<close>

lemma length_ct_message [simp]: "action \<noteq> [] \<Longrightarrow> length (ct_message action fence nb) = length action + 1"
  by (cases action) (simp_all add: ct_message_def)

lemma h2g_has_room_ok:
  assumes "h2g_has_room n c = (r, c')" "send_ok c"
  shows "send_ok c'" "own_ring c' = own_ring c" "r \<Longrightarrow> unat n \<le> unat (ctb_space (ctb_send c'))"
    "ctb_recv c' = ctb_recv c" "last_fence c' = last_fence c" "stall_time c' = stall_time c"
    "ct_clock c' = ct_clock c" "ct_pauses c' = ct_pauses c"
    "desc_status (desc (ctb_send c')) = desc_status (desc (ctb_send c))"
    "send_ring c' = send_ring c" "tail_writes c' = tail_writes c"
proof -
  have "\<not> desc_head (desc (ctb_send c)) > ctb_size (ctb_send c)"
    using assms(2) by (auto simp: send_ok_def own_ring_def Let_def ring_good_def dest: ring_okD(5))
  then have c': "c' = c \<and> (r \<longrightarrow> n \<le> ctb_space (ctb_send c)) \<or>
      (\<exists>sp. sp = CIRC_SPACE (ctb_tail (ctb_send c)) (desc_head (desc (ctb_send c))) (ctb_size (ctb_send c)) \<and>
        c' = upd_send (\<lambda>b. b\<lparr>ctb_space := sp\<rparr>) c \<and> (r \<longrightarrow> n \<le> sp))"
    using assms(1) by (auto simp: h2g_has_room_def Let_def split: if_splits)
  then show "send_ok c'" "own_ring c' = own_ring c" "ctb_recv c' = ctb_recv c"
      "last_fence c' = last_fence c" "stall_time c' = stall_time c" "ct_clock c' = ct_clock c"
      "ct_pauses c' = ct_pauses c"
      "desc_status (desc (ctb_send c')) = desc_status (desc (ctb_send c))"
      "send_ring c' = send_ring c" "tail_writes c' = tail_writes c"
    using assms(2)
    by (auto simp: send_ok_def own_ring_def send_ring_def Let_def ring_room_def upd_send_def)
  show "r \<Longrightarrow> unat n \<le> unat (ctb_space (ctb_send c'))"
    using c' by (auto simp: word_le_nat_alt)
qed

lemma ct_write_ok:
  assumes w: "ct_write E action fence nb c = (r, c')" and ok: "send_ok c"
    and room: "unat (of_nat (length action) + 1 :: u32) \<le> unat (ctb_space (ctb_send c))"
    and len: "action \<noteq> []" "length action < 256" and st: "desc_status (desc (ctb_send c)) = 0"
  shows "r = Inr ()" "send_ok c'" "own_queue c' = own_queue c @ ct_message action fence nb"
    "ctb_recv c' = ctb_recv c" "pending c' = pending c"
proof -
  let ?b = "ctb_send c" and ?n = "of_nat (length action) + 1 :: u32"
  have n: "unat ?n = length action + 1"
  proof -
    have "?n = of_nat (length action + 1)" by simp
    then show ?thesis using len(2) by (simp only: unat_of_nat) simp
  qed
  obtain cs t where p: "ring_put (ctb_size ?b) (cmds ?b) (ctb_tail ?b) (ct_message action fence nb) = (cs, t)"
    by fastforce
  define c1 where "c1 = upd_send (\<lambda>b. b\<lparr>cmds := cs, ctb_tail := t, ctb_space := ctb_space b - ?n\<rparr>) c"
  have r: "r = Inr ()" "c' = write_desc_tail E t c1 \<or>
      c' = write_desc_tail E t (write_desc_tail E t c1)"
    using w st p by (auto simp: ct_write_def c1_def Let_def split: if_splits)
  then have same: "own_ring c' = own_ring c1" "ctb_space (ctb_send c') = ctb_space (ctb_send c1)"
      "ctb_recv c' = ctb_recv c1" "pending c' = pending c1" by auto
  have ring1: "own_ring c1 = ring_write (ct_message action fence nb) (own_ring c)"
    using p by (simp add: c1_def own_ring_def ring_write_def Let_def)
  have fits: "length (ct_message action fence nb) \<le> ring_room (own_ring c)"
    using ok room n len(1) by (simp add: send_ok_def)
  have good: "ring_good (own_ring c)" using ok by (simp add: send_ok_def)
  note app = guc_ring.put_appends [OF good fits] and rm = guc_ring.put_room [OF good fits]
  have "unat (ctb_space ?b - ?n) = unat (ctb_space ?b) - (length action + 1)"
    using room n by (simp add: unat_sub word_le_nat_alt)
  then have "unat (ctb_space (ctb_send c1)) = unat (ctb_space ?b) - (length action + 1)"
    by (simp add: c1_def)
  moreover have "ring_room (own_ring c1) + (length action + 1) = ring_room (own_ring c)"
    using rm len(1) by (simp add: ring1)
  ultimately have "unat (ctb_space (ctb_send c1)) \<le> ring_room (own_ring c1)"
    using ok unfolding send_ok_def by linarith
  then show "r = Inr ()" "send_ok c'" "own_queue c' = own_queue c @ ct_message action fence nb"
      "ctb_recv c' = ctb_recv c" "pending c' = pending c"
    using r(1) app same by (simp_all add: send_ok_def ring1) (simp_all add: c1_def)
qed

text \<open>Where the descriptor stands after the write, and that the GuC loses nothing it saw before.\<close>

lemma ct_write_tail:
  assumes w: "ct_write E action fence nb c = (r, c')" and st: "desc_status (desc (ctb_send c)) = 0"
  shows "desc_tail (desc (ctb_send c')) =
      (if tail_lands E c then ctb_tail (ctb_send c') else desc_tail (desc (ctb_send c)))"
    "desc_head (desc (ctb_send c')) = desc_head (desc (ctb_send c))" "ctb_size (ctb_send c') = ctb_size (ctb_send c)"
proof -
  obtain cs t where p: "ring_put (ctb_size (ctb_send c)) (cmds (ctb_send c)) (ctb_tail (ctb_send c))
      (ct_message action fence nb) = (cs, t)"
    by fastforce
  define c1 where "c1 = upd_send (\<lambda>b. b\<lparr>cmds := cs, ctb_tail := t,
      ctb_space := ctb_space b - (of_nat (length action) + GUC_CTB_HDR_LEN)\<rparr>) c"
  have c1: "ctb_tail (ctb_send c1) = t" "desc (ctb_send c1) = desc (ctb_send c)" "tail_writes c1 = tail_writes c"
      "ctb_size (ctb_send c1) = ctb_size (ctb_send c)"
    by (simp_all add: c1_def) (simp add: upd_send_def)
  have "c' = (if env_mtl E \<and> desc_tail (desc (ctb_send (write_desc_tail E t c1))) \<noteq> t
      then write_desc_tail E t (write_desc_tail E t c1) else write_desc_tail E t c1)"
    using w st p by (auto simp: ct_write_def c1_def Let_def split: if_splits)
  then show "desc_tail (desc (ctb_send c')) =
      (if tail_lands E c then ctb_tail (ctb_send c') else desc_tail (desc (ctb_send c)))"
    "desc_head (desc (ctb_send c')) = desc_head (desc (ctb_send c))" "ctb_size (ctb_send c') = ctb_size (ctb_send c)"
    using c1 by (auto simp: tail_lands_def write_desc_tail_def upd_send_def)
qed

lemma ct_write_visible:
  assumes w: "ct_write E action fence nb c = (r, c')" and ok: "send_ok c" "send_ok c'"
    and app: "own_queue c' = own_queue c @ ct_message action fence nb"
    and vis: "send_visible c" and st: "desc_status (desc (ctb_send c)) = 0"
  shows "send_visible c'" "send_queue c' = (if tail_lands E c then own_queue c' else send_queue c)"
proof -
  note t = ct_write_tail [OF w st]
  let ?b = "ctb_send c" and ?b' = "ctb_send c'"
  have "send_visible c' \<and> send_queue c' = (if tail_lands E c then own_queue c' else send_queue c)"
  proof (cases "tail_lands E c")
    case True
    then show ?thesis using published_visible [of c'] t(1) ok(2) by (simp add: send_ok_def)
  next
    case False
    let ?N = "unat (ctb_size ?b)" and ?h = "unat (desc_head (desc ?b))"
    let ?k = "ring_used ?N ?h (unat (desc_tail (desc ?b)))"
    have len: "length (send_queue c) = ?k"
      by (simp add: ring_queue_def send_ring_def ring_contents_def ring_slots_def Let_def)
    have cs: "send_ring c' = (cmds ?b', ctb_size ?b, desc_head (desc ?b), desc_tail (desc ?b))"
      using t False by (simp add: send_ring_def Let_def)
    obtain rest where rest: "own_queue c = send_queue c @ rest" using vis by (auto simp: send_visible_def)
    have own: "own_queue c' = ring_slots (cmds ?b') ?N ?h (ring_used ?N ?h (unat (ctb_tail ?b')))"
      using t by (simp add: ring_queue_def own_ring_def ring_contents_def Let_def)
    then have "?k \<le> ring_used ?N ?h (unat (ctb_tail ?b'))"
      using arg_cong [OF app, of length] len rest by (simp add: ring_slots_def)
    then have "take ?k (own_queue c') = ring_slots (cmds ?b') ?N ?h ?k"
      unfolding own by (simp add: ring_slots_def take_map)
    moreover have "take ?k (own_queue c') = send_queue c" using app rest len by simp
    ultimately have eq: "send_queue c' = send_queue c"
      unfolding cs by (simp add: ring_queue_def ring_contents_def)
    moreover have "ring_good (send_ring c')"
      using vis ok(2) t unfolding cs
      by (auto simp: send_visible_def send_ok_def ring_good_def own_ring_def send_ring_def ring_ok_def Let_def)
    ultimately show ?thesis using False app rest by (simp add: send_visible_def)
  qed
  then show "send_visible c'" "send_queue c' = (if tail_lands E c then own_queue c' else send_queue c)" by auto
qed

lemma has_room_nb_ok:
  assumes "has_room_nb n m c = (r, c')" "send_ok c"
  shows "send_ok c'" "own_queue c' = own_queue c" "ctb_recv c' = ctb_recv c"
    "last_fence c' = last_fence c" "r = Inr () \<or> r = Inl EBUSY \<or> r = Inl EPIPE"
    "r = Inr () \<Longrightarrow> unat n \<le> unat (ctb_space (ctb_send c')) \<and> g2h_has_room m c'"
    "send_ring c' = send_ring c" "tail_writes c' = tail_writes c"
proof -
  obtain h c1 where h: "h2g_has_room n c = (h, c1)" by fastforce
  note k = h2g_has_room_ok [OF h assms(2)]
  have stall [simp]: "ctb_send (ct_note_stall c1) = ctb_send c1" "ctb_recv (ct_note_stall c1) = ctb_recv c1"
      "last_fence (ct_note_stall c1) = last_fence c1" "tail_writes (ct_note_stall c1) = tail_writes c1"
    by (simp_all add: ct_note_stall_def split: option.split)
  have "send_ok c' \<and> own_queue c' = own_queue c \<and> ctb_recv c' = ctb_recv c \<and>
      last_fence c' = last_fence c \<and> (r = Inr () \<or> r = Inl EBUSY \<or> r = Inl EPIPE) \<and>
      (r = Inr () \<longrightarrow> unat n \<le> unat (ctb_space (ctb_send c')) \<and> g2h_has_room m c') \<and>
      send_ring c' = send_ring c \<and> tail_writes c' = tail_writes c"
    using assms(1) h k(1-5,10,11)
    by (auto simp: has_room_nb_def ct_check_deadlock_def Let_def send_ok_def own_ring_def send_ring_def
        g2h_has_room_def upd_send_def split: if_splits)
  then show "send_ok c'" "own_queue c' = own_queue c" "ctb_recv c' = ctb_recv c"
    "last_fence c' = last_fence c" "r = Inr () \<or> r = Inl EBUSY \<or> r = Inl EPIPE"
    "r = Inr () \<Longrightarrow> unat n \<le> unat (ctb_space (ctb_send c')) \<and> g2h_has_room m c'"
    "send_ring c' = send_ring c" "tail_writes c' = tail_writes c"
    by blast+
qed

text \<open>
  Property C22. Sending without waiting for a response either queues exactly one message, after
  everything the GuC has not read yet and with the next fence, and takes the credits for the
  answer; or it fails with EBUSY or EPIPE and leaves the queue and the credits alone. When it
  succeeds and the store of the tail reaches the shared descriptor (\<open>tail_lands\<close>, which can fail on
  Meteor Lake only), the queue that the GuC sees through the descriptor is everything queued so
  far, the new message last; when the store is lost, the GuC sees what it saw before. In all cases
  the credits of the sender still fit the free room of the ring, and what the GuC sees stays a
  prefix of what was queued.
\<close>

theorem ct_send_nb_queues:
  assumes "send_ok c" "send_visible c" "action \<noteq> []" "length action < 256"
    and "ct_send_nb E action flags c = (r, c')"
  shows "send_ok c' \<and> send_visible c' \<and>
    (r = Inr () \<longrightarrow>
      own_queue c' = own_queue c @ ct_message action (ucast (last_fence c + 1)) (bit flags 31) \<and>
      send_queue c' = (if tail_lands E c then own_queue c' else send_queue c) \<and>
      unat (ctb_space (ctb_recv c')) + unat (G2H_LEN_DW flags) = unat (ctb_space (ctb_recv c))) \<and>
    (r \<noteq> Inr () \<longrightarrow> (r = Inl EBUSY \<or> r = Inl EPIPE) \<and>
      own_queue c' = own_queue c \<and> send_queue c' = send_queue c \<and> ctb_recv c' = ctb_recv c)"
proof -
  obtain r1 c1 where h: "has_room_nb (of_nat (length action) + GUC_CTB_HDR_LEN) (G2H_LEN_DW flags) c = (r1, c1)"
    by fastforce
  note k = has_room_nb_ok [OF h assms(1)]
  define c2 where "c2 = c1\<lparr>last_fence := last_fence c1 + 1\<rparr>"
  have c2: "send_ok c2" "own_queue c2 = own_queue c" "ctb_recv c2 = ctb_recv c" "ctb_send c2 = ctb_send c1"
      "send_ring c2 = send_ring c" "tail_lands E c2 = tail_lands E c"
    using k by (simp_all add: c2_def send_ok_def own_ring_def send_ring_def tail_lands_def)
  have vis: "send_visible x" if "own_queue x = own_queue c" "send_ring x = send_ring c" for x :: "'a intel_guc_ct"
    using assms(2) that by (simp add: send_visible_def)
  obtain r3 c3 where w: "ct_write E action (ucast (last_fence c + 1)) (bit flags 31) c2 = (r3, c3)"
    by fastforce
  show ?thesis
  proof (cases "r1 = Inr ()")
    case False
    then obtain e where e: "r1 = Inl e" by (cases r1) auto
    then have "r = Inl e" "c' = c1" using assms(5) h by (simp_all add: ct_send_nb_def)
    then show ?thesis using k e vis [of c1] by auto
  next
    case True
    have send: "(r, c') = (case r3 of Inl e \<Rightarrow> (Inl e, c3)
        | Inr _ \<Rightarrow> (Inr (), ct_notify (g2h_reserve_space (G2H_LEN_DW flags) c3)))"
      using assms(5) h True w k(4) by (simp add: ct_send_nb_def ct_get_next_fence_def c2_def)
    show ?thesis
    proof (cases "desc_status (desc (ctb_send c2)) = 0")
      case False
      then have "r3 = Inl EPIPE" "c3 = upd_send (\<lambda>b. b\<lparr>broken := True\<rparr>) c2"
        using w by (simp_all add: ct_write_def)
      moreover from this have f: "own_ring c3 = own_ring c2" "send_ring c3 = send_ring c2"
        by (simp_all add: own_ring_def send_ring_def Let_def)
      ultimately show ?thesis using send c2 vis [of c3] by (simp add: send_ok_def)
    next
      case st: True
      have "unat (of_nat (length action) + 1 :: u32) \<le> unat (ctb_space (ctb_send c2))"
        using k(6) [OF True] c2(4) by simp
      note o = ct_write_ok [OF w c2(1) this assms(3,4) st]
      have "send_visible c2" using vis c2 by simp
      note v = ct_write_visible [OF w c2(1) o(2,3) this st]
      have "c' = ct_notify (g2h_reserve_space (G2H_LEN_DW flags) c3)" "r = Inr ()"
        using send o(1) by simp_all
      moreover have "g2h_has_room (G2H_LEN_DW flags) c3"
        using k(3) k(6) [OF True] o(4) c2(3) by (simp add: g2h_has_room_def)
      moreover have "own_ring (ct_notify (g2h_reserve_space n c3)) = own_ring c3"
        "send_ring (ct_notify (g2h_reserve_space n c3)) = send_ring c3"
        "ctb_send (ct_notify (g2h_reserve_space n c3)) = ctb_send c3" for n
        by (simp_all add: own_ring_def send_ring_def ct_notify_def g2h_reserve_space_def)
      ultimately show ?thesis
        using o c2 v by (auto simp: send_ok_def send_visible_def ct_notify_def g2h_reserve_space_def
            g2h_has_room_def unat_sub word_le_nat_alt)
    qed
  qed
qed

section \<open>Waiting for room\<close>

text \<open>
  What a sleep does: time passes, and other senders may run. One that finds room meanwhile clears
  the stall time, one that does not may set it anew; \<open>S\<close> are the sleeps during which that happens.
\<close>

definition sleeps_shared :: "'h ct_env \<Rightarrow> nat set \<Rightarrow> bool" where
  "sleeps_shared E S \<longleftrightarrow> (\<forall>n ms c. let c' = snd (env_sleep E n ms c) in
     ct_clock c + unat ms \<le> ct_clock c' \<and> ct_pauses c' = ct_pauses c \<and>
     (if n \<in> S then \<forall>t. stall_time c' = Some t \<longrightarrow> t \<le> ct_clock c' else stall_time c' = stall_time c))"

definition resets_left :: "nat set \<Rightarrow> nat \<Rightarrow> nat" where
  "resets_left S p = card {n \<in> S. p \<le> n}"

lemma resets_left_Suc:
  "finite S \<Longrightarrow> resets_left S p = (if p \<in> S then Suc (resets_left S (Suc p)) else resets_left S (Suc p))"
proof -
  assume "finite S"
  moreover have "{n \<in> S. p \<le> n} = (if p \<in> S then insert p {n \<in> S. Suc p \<le> n} else {n \<in> S. Suc p \<le> n})"
    by (auto simp: not_less_eq_eq [symmetric] order_le_less)
  ultimately show ?thesis by (simp add: resets_left_def)
qed

definition stalled_for :: "'h intel_guc_ct \<Rightarrow> nat" where
  "stalled_for c = (case stall_time c of None \<Rightarrow> 0 | Some t \<Rightarrow> ct_clock c - t)"

text \<open>
  With the next sleep of \<open>2 ^ k\<close> milliseconds, \<open>m\<close> more sleeps in a row without a reset are enough
  to find the transport dead.
\<close>

definition wait_budget :: "nat \<Rightarrow> nat \<Rightarrow> nat \<Rightarrow> bool" where
  "wait_budget k m e \<longleftrightarrow> 11 \<le> k + m \<and> 1500 + 2 ^ k < (2 ^ (k + m) + e :: nat)"

lemma wait_budget_sleep:
  assumes "wait_budget k m e" "e \<le> 1500" "e + 2 ^ k \<le> e'"
  shows "0 < m" "wait_budget (Suc k) (m - 1) e'" "wait_budget (Suc k) m x"
proof -
  show m: "0 < m" using assms(1,2) by (cases m) (simp_all add: wait_budget_def)
  then obtain j where j: "m = Suc j" by (cases m) auto
  show "wait_budget (Suc k) (m - 1) e'" using assms(1,3) by (simp add: wait_budget_def j)
  have "(2::nat) ^ 11 \<le> 2 ^ (k + m)" using assms(1) by (intro power_increasing) (simp_all add: wait_budget_def)
  moreover have "(2::nat) ^ Suc k \<le> 2 ^ (k + m)" using m by (intro power_increasing) simp_all
  ultimately show "wait_budget (Suc k) m x" using assms(1) by (simp add: wait_budget_def)
qed

lemma h2g_has_room_stall:
  "stall_time (snd (h2g_has_room n c)) = stall_time c" "ct_clock (snd (h2g_has_room n c)) = ct_clock c"
  "ct_pauses (snd (h2g_has_room n c)) = ct_pauses c"
  by (auto simp: h2g_has_room_def Let_def)

lemma ct_wait_room_from:
  assumes S: "sleeps_shared E S" "finite S"
  shows "(\<And>t. stall_time c = Some t \<Longrightarrow> t \<le> ct_clock c) \<Longrightarrow> wait_budget k m (stalled_for c) \<Longrightarrow>
    k + m + resets_left S (ct_pauses c) \<le> 31 \<Longrightarrow>
    \<exists>r c'. ct_wait_room E len (2 ^ k) c = Some (r, c') \<and>
      ct_pauses c' \<le> ct_pauses c + (m + resets_left S (ct_pauses c))"
proof (induction "m + resets_left S (ct_pauses c)" arbitrary: k m c rule: less_induct)
  case less
  obtain h c1 where h: "h2g_has_room (len + GUC_CTB_HDR_LEN) c = (h, c1)" by fastforce
  have c1: "stall_time c1 = stall_time c" "ct_clock c1 = ct_clock c" "ct_pauses c1 = ct_pauses c"
    using h2g_has_room_stall [of "len + GUC_CTB_HDR_LEN" c] h by simp_all
  define c2 where "c2 = ct_note_stall c1"
  obtain t where t: "stall_time c2 = Some t" "t \<le> ct_clock c2" "stalled_for c2 = stalled_for c"
    using less.prems(1) c1 by (cases "stall_time c") (auto simp: c2_def ct_note_stall_def stalled_for_def)
  have c2: "ct_pauses c2 = ct_pauses c" using c1 by (simp add: c2_def ct_note_stall_def split: option.split)
  consider (room) "h" "g2h_has_room GUC_CTB_HXG_MSG_MAX_LEN c1"
    | (dead) "\<not> h \<or> \<not> g2h_has_room GUC_CTB_HXG_MSG_MAX_LEN c1" "ct_deadlocked c2"
    | (wait) "\<not> h \<or> \<not> g2h_has_room GUC_CTB_HXG_MSG_MAX_LEN c1" "\<not> ct_deadlocked c2"
    by blast
  then show ?case
  proof cases
    case room
    then show ?thesis using h c1 by (subst ct_wait_room.simps) simp
  next
    case dead
    then show ?thesis
      using h c2 by (subst ct_wait_room.simps) (auto simp: c2_def ct_check_deadlock_def)
  next
    case wait
    obtain i c3 where s: "ct_sleep E (2 ^ k) c2 = (i, c3)" by fastforce
    have e: "stalled_for c \<le> 1500"
      using wait(2) t(1,3) by (simp add: ct_deadlocked_def stalled_for_def)
    note bud = wait_budget_sleep [OF less.prems(2) e]
    have m: "0 < m" using bud(1) [OF order_refl] .
    then have k: "k < 32" using less.prems(3) by simp
    define p where "p = ct_pauses c"
    have c3: "ct_clock c2 + 2 ^ k \<le> ct_clock c3" "ct_pauses c3 = Suc p"
        "p \<notin> S \<Longrightarrow> stall_time c3 = Some t" "p \<in> S \<Longrightarrow> stall_time c3 = Some u \<Longrightarrow> u \<le> ct_clock c3" for u
      using S(1) [unfolded sleeps_shared_def, THEN spec, THEN spec, THEN spec,
          of "ct_pauses c2" "2 ^ k" "c2\<lparr>ct_pauses := Suc (ct_pauses c2)\<rparr>"] s t(1) c2 unat_two_power [OF k]
      by (auto simp: ct_sleep_def Let_def p_def split: if_splits)
    note left = resets_left_Suc [OF S(2), of p]
    define m' where "m' = (if p \<in> S then m else m - 1)"
    have sum: "Suc (m' + resets_left S (ct_pauses c3)) = m + resets_left S (ct_pauses c)"
      using left m c3(2) by (simp add: m'_def p_def [symmetric])
    have "\<exists>r c'. ct_wait_room E len (2 ^ Suc k) c3 = Some (r, c') \<and>
        ct_pauses c' \<le> ct_pauses c3 + (m' + resets_left S (ct_pauses c3))"
    proof (rule less.hyps)
      show "m' + resets_left S (ct_pauses c3) < m + resets_left S (ct_pauses c)" using sum by simp
      show "u \<le> ct_clock c3" if "stall_time c3 = Some u" for u
        using that t(2) c3 by (cases "p \<in> S") auto
      show "wait_budget (Suc k) m' (stalled_for c3)"
      proof (cases "p \<in> S")
        case True
        then show ?thesis using bud(3) [OF order_refl] by (simp add: m'_def)
      next
        case False
        then have "stalled_for c + 2 ^ k \<le> stalled_for c3"
          using c3(1,3) t by (simp add: stalled_for_def [of c3] t(3) [symmetric]) (simp add: stalled_for_def)
        with False show ?thesis using bud(2) by (simp add: m'_def)
      qed
      show "Suc k + m' + resets_left S (ct_pauses c3) \<le> 31" using sum less.prems(3) by simp
    qed
    then obtain r c' where rec: "ct_wait_room E len (2 ^ Suc k) c3 = Some (r, c')"
        "ct_pauses c' \<le> ct_pauses c + (m + resets_left S (ct_pauses c))"
      using sum c3(2) p_def by fastforce
    have dbl: "push_bit 1 (2 ^ k :: u32) = 2 ^ Suc k" by (simp add: push_bit_eq_mult)
    have "Suc p \<le> ct_pauses c + (m + resets_left S (ct_pauses c))" using m by (simp add: p_def)
    then show ?thesis
      using h wait s rec dbl c3(2)
      by (subst ct_wait_room.simps) (auto simp: c2_def ct_check_deadlock_def mult.commute)
  qed
qed

text \<open>
  Property C26. A sender that finds no room does not wait for ever: it returns, with room or with
  an error, after at most eleven sleeps and one more for each of its sleeps during which another
  sender has found room or stalled anew, provided that there are at most twenty of these and that
  every sleep lasts as long as it was asked to. (After 32 sleeps the period would wrap around to 0.)
\<close>

theorem ct_wait_room_returns:
  assumes "sleeps_shared E S" "finite S" "card S \<le> 20" "\<And>t. stall_time c = Some t \<Longrightarrow> t \<le> ct_clock c"
  shows "\<exists>r c'. ct_wait_room E len 1 c = Some (r, c') \<and> ct_pauses c' \<le> ct_pauses c + (11 + card S)"
proof -
  have left: "resets_left S (ct_pauses c) \<le> card S"
    unfolding resets_left_def by (rule card_mono) (use assms(2) in auto)
  have "wait_budget 0 11 (stalled_for c)" by (simp add: wait_budget_def)
  moreover have "0 + 11 + resets_left S (ct_pauses c) \<le> 31" using left assms(3) by simp
  ultimately obtain r c' where "ct_wait_room E len (2 ^ 0) c = Some (r, c')"
      "ct_pauses c' \<le> ct_pauses c + (11 + resets_left S (ct_pauses c))"
    using ct_wait_room_from [OF assms(1,2,4)] by blast
  with left show ?thesis by auto
qed

section \<open>Responses\<close>

lemma complete_request_known:
  "\<forall>r \<in> set xs. req_fence r \<noteq> f \<Longrightarrow> req_fence q = f \<Longrightarrow>
     n = min (of_nat (length ds)) (response_len q) \<Longrightarrow>
     complete_request f st ds (xs @ q # ys) =
       (if of_nat (length ds) > response_len q then Inl EMSGSIZE else Inr (),
        xs @ q\<lparr>response_buf := take (unat n) ds @ drop (unat n) (response_buf q),
          response_len := n, req_status := st\<rparr> # ys)"
  unfolding complete_request_def by (subst update_first_some) (auto simp: Let_def)

lemma ct_response_effect:
  assumes "ct_handle_response msg c = (res, c')"
    and "fence = GUC_CTB_MSG_0_FENCE (msg ! 0)"
    and "data = take (unat (GUC_CTB_MSG_0_NUM_DWORDS (msg ! 0)) - 1) (drop 2 msg)"
  shows "fence \<notin> req_fence ` set (pending c) \<Longrightarrow> res = Inl ENOKEY \<and> c' = c"
    and "\<lbrakk>pending c = xs @ q # ys; fence \<notin> req_fence ` set xs; req_fence q = fence;
      n = min (of_nat (length data)) (response_len q)\<rbrakk> \<Longrightarrow>
      c' = c\<lparr>pending := xs @ q\<lparr>req_status := msg ! 1, response_len := n,
        response_buf := take (unat n) data @ drop (unat n) (response_buf q)\<rparr> # ys\<rparr> \<and>
      (res = Inr () \<longleftrightarrow> of_nat (length data) \<le> response_len q) \<and>
      (res \<noteq> Inr () \<longrightarrow> res = Inl EMSGSIZE)"
proof -
  have h: "(res, c') = (case complete_request fence (msg ! 1) data (pending c) of
      (r, ps) \<Rightarrow> (r, c\<lparr>pending := ps\<rparr>))"
    using assms(1) unfolding ct_handle_response_def assms(2,3) by simp
  show "fence \<notin> req_fence ` set (pending c) \<Longrightarrow> res = Inl ENOKEY \<and> c' = c"
  proof -
    assume "fence \<notin> req_fence ` set (pending c)"
    then have "\<forall>r \<in> set (pending c). req_fence r \<noteq> fence" by auto
    then have "complete_request fence (msg ! 1) data (pending c) = (Inl ENOKEY, pending c)"
      unfolding complete_request_def by (rule update_first_none)
    with h show ?thesis by simp
  qed
  assume a: "pending c = xs @ q # ys" "fence \<notin> req_fence ` set xs" "req_fence q = fence"
    "n = min (of_nat (length data)) (response_len q)"
  have "\<forall>r \<in> set xs. req_fence r \<noteq> fence" using a(2) by blast
  note k = complete_request_known [OF this a(3,4), of "msg ! 1" ys]
  show "c' = c\<lparr>pending := xs @ q\<lparr>req_status := msg ! 1, response_len := n,
        response_buf := take (unat n) data @ drop (unat n) (response_buf q)\<rparr> # ys\<rparr> \<and>
      (res = Inr () \<longleftrightarrow> of_nat (length data) \<le> response_len q) \<and>
      (res \<noteq> Inr () \<longrightarrow> res = Inl EMSGSIZE)"
    using h k by (auto simp: a(1) not_le split: if_splits)
qed

text \<open>
  Property C24. A response changes the first pending request with its fence and no other: that
  request gets the status and as much of the data as its buffer holds, and the handler reports
  whether the data were too long. A response with an unknown fence changes nothing.
\<close>

theorem ct_response_matches:
  assumes "ct_handle_response msg c = (res, c')"
    and "fence = GUC_CTB_MSG_0_FENCE (msg ! 0)"
    and "data = take (unat (GUC_CTB_MSG_0_NUM_DWORDS (msg ! 0)) - 1) (drop 2 msg)"
  shows "(fence \<notin> req_fence ` set (pending c) \<longrightarrow> res = Inl ENOKEY \<and> c' = c) \<and>
    (\<forall>xs q ys n. pending c = xs @ q # ys \<longrightarrow> fence \<notin> req_fence ` set xs \<longrightarrow> req_fence q = fence \<longrightarrow>
      n = min (of_nat (length data)) (response_len q) \<longrightarrow>
      c' = c\<lparr>pending := xs @ q\<lparr>req_status := msg ! 1, response_len := n,
        response_buf := take (unat n) data @ drop (unat n) (response_buf q)\<rparr> # ys\<rparr> \<and>
      (res = Inr () \<longleftrightarrow> of_nat (length data) \<le> response_len q) \<and>
      (res \<noteq> Inr () \<longrightarrow> res = Inl EMSGSIZE))"
  using ct_response_effect [OF assms] by blast

section \<open>Receiving\<close>

lemma available_dwords:
  assumes "ring_ok cs sz h t"
  shows "unat (if t < h then t - h + sz else t - h) = length (ring_contents cs sz h t)"
proof -
  note N = ring_okD [OF assms]
  have len: "length (ring_contents cs sz h t) = (unat t + unat sz - unat h) mod unat sz"
    by (simp add: ring_contents_def ring_slots_def ring_used_def)
  show ?thesis
  proof (cases "t < h")
    case True
    have ht: "unat (h - t) = unat h - unat t"
      using True by (simp add: unat_sub word_less_nat_alt word_le_nat_alt)
    have "h - t \<le> sz" using N(5) ht by (simp add: word_le_nat_alt word_less_nat_alt)
    then have "unat (sz - (h - t)) = unat sz - (unat h - unat t)" using ht by (simp add: unat_sub)
    moreover have "sz - (h - t) = t - h + sz" by simp
    ultimately have "unat (t - h + sz) = unat sz - (unat h - unat t)" by metis
    then show ?thesis using True N(2) by (simp add: len word_less_nat_alt)
  next
    case False
    then have "unat (t - h) = unat t - unat h" by (simp add: unat_sub)
    moreover have "(unat t + unat sz - unat h) mod unat sz = unat t - unat h"
    proof -
      have eq: "unat t + unat sz - unat h = (unat t - unat h) + unat sz"
        using False by (simp add: word_less_nat_alt)
      have "unat t - unat h < unat sz" using N(3) by simp
      then show ?thesis unfolding eq mod_add_self2 by (rule mod_less)
    qed
    ultimately show ?thesis using False by (simp add: len)
  qed
qed

definition same_but_recv :: "'h intel_guc_ct \<Rightarrow> 'h intel_guc_ct \<Rightarrow> bool" where
  "same_but_recv c c' \<longleftrightarrow> (\<exists>h.
     c' = upd_recv (\<lambda>b. b\<lparr>ctb_head := h, desc := (desc b)\<lparr>desc_head := h\<rparr>\<rparr>) (c\<lparr>ct_allocs := Suc (ct_allocs c)\<rparr>))"

lemma ct_read_message:
  assumes ok: "recv_ok c" and q: "recv_queue c = hdr # pl @ rest"
    and len: "length pl = unat (GUC_CTB_MSG_0_NUM_DWORDS hdr)" and alloc: "env_ct_alloc E (ct_allocs c)"
  shows "\<exists>c'. ct_read E c = (Inr (length rest, Some (hdr # pl)), c') \<and> recv_ok c' \<and>
    recv_queue c' = rest \<and> same_but_recv c c'"
proof -
  let ?b = "ctb_recv c"
  define cs sz h t where "cs = cmds ?b" and "sz = ctb_size ?b" and "h = ctb_head ?b"
    and "t = desc_tail (desc ?b)"
  note defs = cs_def sz_def h_def t_def
  have ring: "ring_ok cs sz h t" using ok by (simp add: recv_ok_def ring_good_def recv_ring_def Let_def defs)
  have cont: "ring_contents cs sz h t = hdr # pl @ rest"
    using q by (simp add: ring_queue_def recv_ring_def Let_def defs)
  note N = ring_okD [OF ring]
  define av where "av = (if t < h then t - h + sz else t - h)"
  have av: "unat av = Suc (length pl + length rest)"
    using available_dwords [OF ring] by (simp add: av_def cont)
  obtain xs h' where g: "ring_get sz cs h (Suc (length pl)) = (xs, h')" by fastforce
  note get = ring_get_contents [OF ring _ g, unfolded cont]
  have xs: "xs = hdr # pl" using get(1) by simp
  obtain ys where g': "ring_get sz cs ((h + 1) mod sz) (length pl) = (ys, h')" "xs = cs ! unat h # ys"
    using g by (auto split: prod.splits)
  have head: "cs ! unat h = hdr" "ys = pl" using g'(2) xs by simp_all
  define len' where "len' = GUC_CTB_MSG_0_NUM_DWORDS hdr + 1"
  have small: "unat (GUC_CTB_MSG_0_NUM_DWORDS hdr) < 256"
    by (simp add: GUC_CTB_MSG_0_NUM_DWORDS_def FIELD_GET_def unat_take_bit)
  then have len': "unat len' = Suc (length pl)"
    unfolding len'_def using len by (simp add: unat_word_ariths)
  have "unat (av - len') = length rest" using av len' by (simp add: unat_sub word_le_nat_alt)
  moreover have "\<not> len' > av" "av \<noteq> 0" using av len' by (auto simp: word_less_nat_alt)
  ultimately have "ct_read E c = (Inr (length rest, Some (hdr # pl)),
      upd_recv (\<lambda>b. b\<lparr>ctb_head := h', desc := (desc b)\<lparr>desc_head := h'\<rparr>\<rparr>)
        (c\<lparr>ct_allocs := Suc (ct_allocs c)\<rparr>))"
    using ok alloc g'(1) head len' N(6)
    unfolding ct_read_def Let_def defs [symmetric] av_def [symmetric] head(1) len'_def [symmetric]
    by (simp add: recv_ok_def ct_alloc_msg_def)
  moreover have "recv_queue (upd_recv (\<lambda>b. b\<lparr>ctb_head := h', desc := (desc b)\<lparr>desc_head := h'\<rparr>\<rparr>)
        (c\<lparr>ct_allocs := Suc (ct_allocs c)\<rparr>)) = rest"
    using get(2) by (simp add: ring_queue_def recv_ring_def Let_def defs)
  moreover have "recv_ok (upd_recv (\<lambda>b. b\<lparr>ctb_head := h', desc := (desc b)\<lparr>desc_head := h'\<rparr>\<rparr>)
        (c\<lparr>ct_allocs := Suc (ct_allocs c)\<rparr>))"
    using get(3) ok by (simp add: recv_ok_def ring_good_def recv_ring_def Let_def defs)
  ultimately show ?thesis by (auto simp: same_but_recv_def)
qed

lemma ct_read_empty:
  assumes "recv_ok c" "recv_queue c = []"
  shows "ct_read E c = (Inr (0, None), c)"
proof -
  have ring: "ring_ok (cmds (ctb_recv c)) (ctb_size (ctb_recv c)) (ctb_head (ctb_recv c)) (desc_tail (desc (ctb_recv c)))"
    using assms(1) by (simp add: recv_ok_def ring_good_def recv_ring_def Let_def)
  have "unat (if desc_tail (desc (ctb_recv c)) < ctb_head (ctb_recv c)
      then desc_tail (desc (ctb_recv c)) - ctb_head (ctb_recv c) + ctb_size (ctb_recv c)
      else desc_tail (desc (ctb_recv c)) - ctb_head (ctb_recv c)) = 0"
    using available_dwords [OF ring] assms(2) by (simp add: ring_queue_def recv_ring_def Let_def)
  then show ?thesis using assms(1) ring_okD [OF ring] by (simp add: ct_read_def Let_def recv_ok_def unat_eq_zero)
qed

text \<open>A message as the GuC queues it: its header counts the dwords behind it.\<close>

definition ct_framed :: "u32 list \<Rightarrow> bool" where
  "ct_framed m \<longleftrightarrow> m \<noteq> [] \<and> length (tl m) = unat (GUC_CTB_MSG_0_NUM_DWORDS (hd m))"

text \<open>What the handling of messages works on.\<close>

definition ct_view :: "'h intel_guc_ct \<Rightarrow> ct_request list \<times> u32 list list \<times> bool \<times> 'h \<times> u32" where
  "ct_view c = (pending c, incoming c, ct_worker c, hstate c, ctb_space (ctb_recv c))"

lemma ct_handle_msg_frame:
  "recv_ring (ct_handle_msg E m c) = recv_ring c" "recv_ok (ct_handle_msg E m c) = recv_ok c"
  "ct_enabled (ct_handle_msg E m c) = ct_enabled c"
  "receive_tasklet (ct_handle_msg E m c) = receive_tasklet c"
  by (auto simp: ct_handle_msg_def ct_handle_hxg_def ct_handle_event_def ct_handle_response_def
      ct_process_request_def g2h_release_space_def recv_ring_def recv_ok_def Let_def split: prod.split)

lemma ct_view_handle:
  "ct_view c = ct_view d \<Longrightarrow> ct_view (ct_handle_msg E m c) = ct_view (ct_handle_msg E m d)"
  by (auto simp: ct_view_def ct_handle_msg_def ct_handle_hxg_def ct_handle_event_def
      ct_handle_response_def ct_process_request_def g2h_release_space_def upd_recv_def Let_def split: prod.split)

lemma ct_tasklet_step:
  assumes "recv_ok c" "ct_enabled c" "recv_queue c = m @ rest" "ct_framed m"
    and alloc: "\<And>n. env_ct_alloc E n"
  shows "recv_ok (ct_receive_tasklet_func E c)" "ct_enabled (ct_receive_tasklet_func E c)"
    "recv_queue (ct_receive_tasklet_func E c) = rest"
    "ct_view (ct_receive_tasklet_func E c) = ct_view (ct_handle_msg E m c)"
    "receive_tasklet (ct_receive_tasklet_func E c) \<longleftrightarrow> rest \<noteq> []"
proof -
  let ?c = "c\<lparr>receive_tasklet := False\<rparr>"
  obtain hdr pl where m: "m = hdr # pl" "length pl = unat (GUC_CTB_MSG_0_NUM_DWORDS hdr)"
    using assms(4) by (cases m) (auto simp: ct_framed_def)
  have "recv_ok ?c" "recv_queue ?c = hdr # pl @ rest"
    using assms(1,3) m by (simp_all add: recv_ok_def recv_ring_def)
  from ct_read_message [OF this m(2) alloc [of "ct_allocs ?c"]] obtain c1
    where r: "ct_read E ?c = (Inr (length rest, Some m), c1)" "recv_ok c1" "recv_queue c1 = rest"
      "same_but_recv ?c c1" using m(1) by auto
  have c1: "ct_enabled c1" "\<not> receive_tasklet c1" "ct_view c1 = ct_view c"
    using r(4) assms(2) by (auto simp: same_but_recv_def ct_view_def upd_recv_def)
  have t: "ct_receive_tasklet_func E c =
      (if rest \<noteq> [] then (ct_handle_msg E m c1)\<lparr>receive_tasklet := True\<rparr> else ct_handle_msg E m c1)"
    using assms(2) r(1) by (auto simp: ct_receive_tasklet_func_def ct_try_receive_message_def ct_receive_def)
  show "recv_ok (ct_receive_tasklet_func E c)" "ct_enabled (ct_receive_tasklet_func E c)"
    "recv_queue (ct_receive_tasklet_func E c) = rest"
    "receive_tasklet (ct_receive_tasklet_func E c) \<longleftrightarrow> rest \<noteq> []"
    unfolding t using r(2,3) c1(1,2) ct_handle_msg_frame [of E m c1]
    by (auto simp: recv_ok_def recv_ring_def)
  show "ct_view (ct_receive_tasklet_func E c) = ct_view (ct_handle_msg E m c)"
    unfolding t using ct_view_handle [OF c1(3), of E m] by (simp add: ct_view_def)
qed

text \<open>
  Property C23. When the GuC has queued messages, the runs of the receive tasklet handle them one
  by one, in the order in which the GuC queued them, each exactly once; the tasklet schedules
  itself again as long as a message is left and stops when the queue is empty.
\<close>

theorem ct_tasklet_drains:
  assumes "recv_ok c" "ct_enabled c" "recv_queue c = concat ms" "\<forall>m \<in> set ms. ct_framed m"
    and "\<And>n. env_ct_alloc E n" and "k \<le> length ms"
    and "c' = (ct_receive_tasklet_func E ^^ k) c"
  shows "recv_queue c' = concat (drop k ms) \<and> ct_view c' = ct_view (fold (ct_handle_msg E) (take k ms) c) \<and>
    (0 < k \<longrightarrow> receive_tasklet c' = (k < length ms))"
proof -
  have "k \<le> length ms \<Longrightarrow> (let d = (ct_receive_tasklet_func E ^^ k) c in
      recv_ok d \<and> ct_enabled d \<and> recv_queue d = concat (drop k ms) \<and>
      ct_view d = ct_view (fold (ct_handle_msg E) (take k ms) c) \<and>
      (0 < k \<longrightarrow> receive_tasklet d = (k < length ms)))"
  proof (induction k)
    case 0
    then show ?case using assms(1-3) by simp
  next
    case (Suc k)
    let ?d = "(ct_receive_tasklet_func E ^^ k) c"
    have k: "k < length ms" using Suc.prems by simp
    then have ms: "drop k ms = ms ! k # drop (Suc k) ms" by (simp add: Cons_nth_drop_Suc)
    have d: "recv_ok ?d" "ct_enabled ?d" "recv_queue ?d = ms ! k @ concat (drop (Suc k) ms)"
        "ct_view ?d = ct_view (fold (ct_handle_msg E) (take k ms) c)"
      using Suc k ms by (simp_all add: Let_def)
    have "ct_framed (ms ! k)" using assms(4) k by simp
    note st = ct_tasklet_step [OF d(1-3) this assms(5)]
    have "concat (drop (Suc k) ms) = [] \<longleftrightarrow> Suc k = length ms"
    proof
      assume a: "concat (drop (Suc k) ms) = []"
      show "Suc k = length ms"
      proof (rule ccontr)
        assume "Suc k \<noteq> length ms"
        then have "Suc k < length ms" using k by simp
        then have "ms ! Suc k \<in> set (drop (Suc k) ms)" "ct_framed (ms ! Suc k)"
          using assms(4) by (auto simp: Cons_nth_drop_Suc [symmetric])
        then show False using a by (auto simp: ct_framed_def)
      qed
    qed simp
    moreover have "ct_view (ct_handle_msg E (ms ! k) ?d) =
        ct_view (fold (ct_handle_msg E) (take (Suc k) ms) c)"
      using ct_view_handle [OF d(4)] k by (simp add: take_Suc_conv_app_nth)
    ultimately show ?case using st k by (auto simp: Let_def)
  qed
  then show ?thesis using assms(6,7) by (simp add: Let_def)
qed

section \<open>A request and its response\<close>

lemma ct_wait_room_free:
  assumes "n \<le> ctb_space (ctb_send c)" "n = len + GUC_CTB_HDR_LEN" "GUC_CTB_HXG_MSG_MAX_LEN \<le> ctb_space (ctb_recv c)"
  shows "ct_wait_room E len p c = Some (Inr p, c\<lparr>stall_time := None\<rparr>)"
  using assms by (subst ct_wait_room.simps) (simp add: h2g_has_room_def g2h_has_room_def Let_def)

text \<open>The response of the GuC with data \<open>ds\<close> to the request with a fence.\<close>

definition success_msg :: "u32 \<Rightarrow> u32 list \<Rightarrow> u32 list" where
  "success_msg fence ds =
     ct_header fence (of_nat (length ds) + 1) #
     hxg_aux_msg GUC_HXG_ORIGIN_GUC GUC_HXG_TYPE_RESPONSE_SUCCESS 0 # ds"

text \<open>
  Property C25. When there is room and the GuC answers while the sender waits, the sender returns
  the number of data dwords of the answer with its buffer filled, the request is the last one
  queued for the GuC, who sees it once the store of the tail has reached the descriptor, no request
  is left pending that was not before, and the credits reserved for the answer are back.
\<close>

theorem ct_send_gets_reply:
  assumes "send_ok c" "ct_enabled c" "\<not> broken (ctb_send c)" "desc_status (desc (ctb_send c)) = 0"
    and "action \<noteq> []" "length action < 256" "of_nat (length action) + 1 \<le> ctb_space (ctb_send c)"
    and "GUC_CTB_HXG_MSG_MAX_LEN \<le> ctb_space (ctb_recv c)"
    and "\<forall>r \<in> set (pending c). req_id r < ct_requests c \<and> req_fence r \<noteq> fence"
    and "fence = ucast (last_fence c + 1)"
    and "env_others E (ct_pauses c) = (\<lambda>x. snd (ct_handle_response (success_msg fence ds) x))"
    and "length ds \<le> length buf" "length buf < 255"
  shows "\<exists>c'. intel_guc_ct_send E action (Some buf) 0 c =
      Some ((Inr (of_nat (length ds)), ds @ drop (length ds) buf), c') \<and>
    pending c' = pending c \<and> own_queue c' = own_queue c @ ct_message action fence False \<and>
    (send_visible c \<and> tail_lands E c \<longrightarrow> send_queue c' = own_queue c') \<and>
    ctb_space (ctb_recv c') = ctb_space (ctb_recv c)"
proof -
  define c2 where "c2 = c\<lparr>stall_time := None, last_fence := last_fence c + 1\<rparr>"
  define q where "q = \<lparr>req_id = ct_requests c, req_fence = fence, req_status = 0,
      response_len = of_nat (length buf), response_buf = buf\<rparr>"
  define c3 where "c3 = c2\<lparr>pending := pending c @ [q], ct_requests := Suc (ct_requests c)\<rparr>"
  obtain r4 c4 where w: "ct_write E action fence False c3 = (r4, c4)" by fastforce
  have c3: "send_ok c3" "ctb_send c3 = ctb_send c" "ctb_recv c3 = ctb_recv c" "ct_pauses c3 = ct_pauses c"
    using assms(1) by (simp_all add: c3_def c2_def send_ok_def own_ring_def)
  have "own_queue c3 = own_queue c" using c3(2) by (simp add: own_ring_def)
  note ow = ct_write_ok [OF w c3(1) _ assms(5,6), unfolded this]
  have "send_queue c4 = own_queue c4" if "send_visible c" "tail_lands E c"
  proof -
    have vis: "send_visible c3" "tail_lands E c3"
      using that c3(2) by (simp_all add: send_visible_def own_ring_def send_ring_def tail_lands_def c3_def c2_def)
    have "unat (of_nat (length action) + 1 :: u32) \<le> unat (ctb_space (ctb_send c3))"
      "desc_status (desc (ctb_send c3)) = 0"
      using assms(4,7) c3(2) by (simp_all add: word_le_nat_alt)
    note q = ct_write_ok [OF w c3(1) this(1) assms(5,6) this(2)]
    show ?thesis using ct_write_visible [OF w c3(1) q(2,3) vis(1)] assms(4) c3(2) vis(2) by simp
  qed
  note seen = this
  have o: "r4 = Inr ()" "own_queue c4 = own_queue c @ ct_message action fence False"
      "ctb_recv c4 = ctb_recv c" "pending c4 = pending c @ [q]"
    using ow assms(4,7) c3(2,3) by (simp_all add: word_le_nat_alt) (simp_all add: c3_def)
  have fr: "ct_pauses c4 = ct_pauses c" "ct_enabled c4"
    using w c3(4) assms(2,4) c3(2) by (auto simp: ct_write_def Let_def c3_def c2_def split: prod.splits)
  have fence: "take_bit 16 fence = fence"
    unfolding assms(10) by (rule bit_word_eqI) (auto simp: bit_simps dest: bit_imp_le_length)
  define st where "st = hxg_aux_msg GUC_HXG_ORIGIN_GUC GUC_HXG_TYPE_RESPONSE_SUCCESS 0"
  define q' where "q' = q\<lparr>response_buf := ds @ drop (length ds) buf, response_len := of_nat (length ds), req_status := st\<rparr>"
  have n1: "unat (of_nat (length ds) + 1 :: u32) = length ds + 1"
  proof -
    have "of_nat (length ds) + 1 = (of_nat (length ds + 1) :: u32)" by simp
    then show ?thesis using assms(12,13) by (simp only: unat_of_nat) simp
  qed
  have n: "unat (take_bit 8 (of_nat (length ds) + 1 :: u32)) = Suc (length ds)"
    using assms(12,13) n1 by (simp add: unat_take_bit)
  have le: "of_nat (length ds) \<le> (of_nat (length buf) :: u32)" "unat (of_nat (length ds) :: u32) = length ds"
    using assms(12,13) by (simp_all add: word_le_nat_alt unat_of_nat)
  have "complete_request fence st ds (pending c @ [q]) = (Inr (), pending c @ [q'])"
  proof -
    have "\<forall>r \<in> set (pending c). req_fence r \<noteq> fence" "req_fence q = fence"
      using assms(9) by (auto simp: q_def)
    from complete_request_known [OF this refl, of st ds "[]"] show ?thesis
      using le by (simp add: q_def q'_def min_def)
  qed
  then have resp: "ct_handle_response (success_msg fence ds) x = (Inr (), x\<lparr>pending := pending c @ [q']\<rparr>)"
    if "pending x = pending c @ [q]" for x :: "'a intel_guc_ct"
    using that n fence by (simp add: ct_handle_response_def success_msg_def hxg_simps st_def)
  let ?c5 = "ct_notify (g2h_reserve_space GUC_CTB_HXG_MSG_MAX_LEN c4)"
  have c5: "pending ?c5 = pending c @ [q]" "ct_pauses ?c5 = ct_pauses c" "ct_enabled ?c5"
    using o(4) fr by (simp_all add: ct_notify_def g2h_reserve_space_def)
  define c6 where "c6 = ?c5\<lparr>ct_pauses := Suc (ct_pauses c), pending := pending c @ [q']\<rparr>"
  have "find (\<lambda>r. req_id r = ct_requests c) (pending c @ [q']) = Some q'"
  proof -
    have "\<forall>r \<in> set (pending c). req_id r \<noteq> ct_requests c" using assms(9) by auto
    then have "find (\<lambda>r. req_id r = ct_requests c) (pending c @ [q']) =
        find (\<lambda>r. req_id r = ct_requests c) [q']"
      by (rule find_skip)
    then show ?thesis by (simp add: q'_def q_def)
  qed
  then have wait: "wait_for_ct_request_update E (ct_requests c) ?c5 = (Inr q', c6)"
    using c5 resp [of "?c5\<lparr>ct_pauses := Suc (ct_pauses c)\<rparr>"] assms(11)
    by (simp add: wait_for_ct_request_update_def Let_def c6_def q'_def st_def hxg_simps)
  define c7 where "c7 = ct_unlink (ct_requests c) (g2h_release_space GUC_CTB_HXG_MSG_MAX_LEN c6)"
  have rep: "ct_reply True q' = Some (Inr (of_nat (length ds)), ds @ drop (length ds) buf)"
    by (simp add: ct_reply_def q'_def st_def hxg_simps)
  have "filter (\<lambda>r. req_id r \<noteq> ct_requests c) (pending c) = pending c"
    using assms(9) by (auto simp: filter_id_conv)
  then have c7: "pending c7 = pending c" "own_queue c7 = own_queue c @ ct_message action fence False"
      "ctb_space (ctb_recv c7) = ctb_space (ctb_recv c)" "ctb_send c7 = ctb_send c4"
    using o(2,3) by (simp_all add: c7_def c6_def ct_unlink_def g2h_release_space_def g2h_reserve_space_def
        ct_notify_def q'_def q_def own_ring_def)
  have c2r: "ct_requests c2 = ct_requests c" by (simp add: c2_def)
  have room: "ct_wait_room E (of_nat (length action)) 1 c = Some (Inr 1, c\<lparr>stall_time := None\<rparr>)"
    using ct_wait_room_free [OF assms(7) refl assms(8)] by simp
  have "ct_send E action (Some buf) 1 c = Some ((Inr (of_nat (length ds)), ds @ drop (length ds) buf), c7)"
    using room w o(1) wait rep c2r
    by (subst ct_send.simps)
      (simp add: ct_get_next_fence_def ct_add_request_def assms(10) [symmetric] c2_def [symmetric]
        c3_def [symmetric] q_def [symmetric] c7_def Let_def)
  then have "intel_guc_ct_send E action (Some buf) 0 c =
      Some ((Inr (of_nat (length ds)), ds @ drop (length ds) buf), c7)"
    using assms(2,3) by (simp add: intel_guc_ct_send_def)
  moreover have "send_visible c \<and> tail_lands E c \<longrightarrow> send_queue c7 = own_queue c7"
    using seen c7(4) by (simp add: own_ring_def send_ring_def)
  ultimately show ?thesis using c7 by blast
qed

section \<open>A transport that was just enabled\<close>

lemma ring_ok_fresh:
  "0 < k \<Longrightarrow> k < 32 \<Longrightarrow> sz = 2 ^ k \<Longrightarrow> length cs = 2 ^ k \<Longrightarrow> ring_ok cs sz 0 0"
  unfolding ring_ok_def by (auto simp: unat_two_power word_less_nat_alt)

text \<open>The buffers that the initialisation sets up are empty queues with their full credits.\<close>

definition ct_sized :: "'h intel_guc_ct \<Rightarrow> bool" where
  "ct_sized c \<longleftrightarrow>
     ctb_size (ctb_send c) = 2 ^ 10 \<and> length (cmds (ctb_send c)) = 2 ^ 10 \<and> resv_space (ctb_send c) = 0 \<and>
     ctb_size (ctb_recv c) = 2 ^ 12 \<and> length (cmds (ctb_recv c)) = 2 ^ 12 \<and> resv_space (ctb_recv c) = 2 ^ 10"

lemma ct_reset_ok:
  assumes "ct_sized c" "c' = upd_recv guc_ct_buffer_reset (upd_send guc_ct_buffer_reset c)"
  shows "send_ok c'" "recv_ok c'" "own_queue c' = []" "recv_queue c' = []"
    "ctb_space (ctb_send c') = 1023" "ctb_space (ctb_recv c') = 3071"
proof -
  have s: "ring_ok (cmds (ctb_send c)) 1024 0 0" "ring_ok (cmds (ctb_recv c)) 4096 0 0"
    using assms(1) by (auto simp: ct_sized_def intro: ring_ok_fresh [where k = 10] ring_ok_fresh [where k = 12])
  have sp: "CIRC_SPACE 0 0 1024 = 1023" "CIRC_SPACE 0 0 4096 = 4095"
    by (simp_all add: CIRC_SPACE_def CIRC_CNT_def)
  show "send_ok c'" "recv_ok c'" "own_queue c' = []" "recv_queue c' = []"
    "ctb_space (ctb_send c') = 1023" "ctb_space (ctb_recv c') = 3071"
    using assms s sp
    by (simp_all add: ct_sized_def guc_ct_buffer_reset_def guc_ct_buffer_desc_init_def send_ok_def recv_ok_def
        ring_good_def ring_queue_def ring_room_def own_ring_def recv_ring_def ring_contents_def
        ring_slots_def ring_used_def)
qed

lemma ct_init_sized:
  assumes "intel_guc_ct_init E c = (Inr (), c')" "env_ct_vma E = Inr (base, cs, cs')"
    "length cs = 1024" "length cs' = 4096"
  shows "ct_sized c'" "ct_vma c' = Some base"
  using assms by (auto simp: intel_guc_ct_init_def guc_ct_buffer_init_def guc_ct_buffer_reset_def ct_sized_def
      upd_send_def upd_recv_def)

text \<open>Concrete transports: a boot whose GuC acknowledges everything.\<close>

definition ct_fresh :: "'h \<Rightarrow> 'h intel_guc_ct" where
  "ct_fresh h =
     (let b = \<lparr>desc = guc_ct_buffer_desc_init, cmds = [], ctb_size = 0, resv_space = 0, ctb_tail = 0,
               ctb_head = 0, ctb_space = 0, broken = False\<rparr>
      in \<lparr>ct_vma = None, ct_enabled = False, ctb_send = b, ctb_recv = b, receive_tasklet = False,
          last_fence = 0, pending = [], incoming = [], ct_worker = False, stall_time = None,
          mtl_work = False, ct_mmio = \<lparr>mmio_log = [], mmio_waits = 0\<rparr>, ct_clock = 0, ct_pauses = 0,
          ct_allocs = 0, ct_requests = 0, ct_notifies = 0, tail_writes = 0, hstate = h\<rparr>)"

definition ct_booted :: "'h \<Rightarrow> 'h intel_guc_ct" where
  "ct_booted h =
     (upd_recv (guc_ct_buffer_init (replicate 4096 0) CTB_G2H_BUFFER_SIZE G2H_ROOM_BUFFER_SIZE)
       (upd_send (guc_ct_buffer_init (replicate 1024 0) CTB_H2G_BUFFER_SIZE 0)
         (ct_fresh h)))\<lparr>ct_enabled := True\<rparr>"

lemma ct_booted_ok:
  "send_ok (ct_booted h)" "recv_ok (ct_booted h)" "own_queue (ct_booted h) = []"
  "recv_queue (ct_booted h) = []" "ctb_space (ctb_send (ct_booted h)) = 1023"
  "ctb_space (ctb_recv (ct_booted h)) = 3071"
proof -
  define c where "c = (ct_booted h)\<lparr>ct_vma := None\<rparr>"
  have z: "ct_sized (ct_booted h)"
    by (simp add: ct_booted_def ct_sized_def guc_ct_buffer_init_def guc_ct_buffer_reset_def)
  have e: "ct_booted h = upd_recv guc_ct_buffer_reset (upd_send guc_ct_buffer_reset (ct_booted h))"
    by (simp add: ct_booted_def upd_recv_def upd_send_def guc_ct_buffer_init_def guc_ct_buffer_reset_def)
  show "send_ok (ct_booted h)" "recv_ok (ct_booted h)" "own_queue (ct_booted h) = []"
    "recv_queue (ct_booted h) = []" "ctb_space (ctb_send (ct_booted h)) = 1023"
    "ctb_space (ctb_recv (ct_booted h)) = 3071"
    using ct_reset_ok [OF z e] by blast+
qed

definition quiet_handlers :: "'h ct_handlers" where
  "quiet_handlers =
     (let ok = (\<lambda>_ h. (Inr (), h))
      in \<lparr>on_default = ok, on_deregister_done = ok, on_sched_done = ok, on_set_engine_sched_done = ok,
          on_context_reset = ok, on_error_capture = ok, on_engine_failure = ok, on_vf_state_notify = ok,
          on_adverse_event = ok, on_relay_from_vf = ok, on_relay_from_pf = ok, on_mmio_relay = ok,
          on_flush_log = (\<lambda>h. h), on_crash = (\<lambda>_ h. (Inr (), h)), on_tlb_done = ok\<rparr>)"

definition quiet_ct :: "'h ct_env" where
  "quiet_ct =
     \<lparr>env_mmio = \<lparr>env_header = (\<lambda>_. hxg_aux_msg GUC_HXG_ORIGIN_GUC GUC_HXG_TYPE_RESPONSE_SUCCESS 1),
                  env_reg = (\<lambda>_ _. 0), env_is_vf = False, send_regs_count = 4\<rparr>,
      env_mtl = False, env_tail_lost = (\<lambda>_. False), env_ct_alloc = (\<lambda>_. True),
      env_ct_vma = Inr (0, [], []), env_fw_running = True,
      env_sleep = (\<lambda>_ ms c. (False, c\<lparr>ct_clock := ct_clock c + unat ms\<rparr>)),
      env_others = (\<lambda>_ c. c), handlers = quiet_handlers\<rparr>"

lemma ct_booted_fields:
  "ct_enabled (ct_booted h)" "\<not> broken (ctb_send (ct_booted h))" "desc_status (desc (ctb_send (ct_booted h))) = 0"
  "pending (ct_booted h) = []" "last_fence (ct_booted h) = 0" "stall_time (ct_booted h) = None"
  "ct_pauses (ct_booted h) = 0" "incoming (ct_booted h) = []" "hstate (ct_booted h) = h"
  by (simp_all add: ct_booted_def ct_fresh_def guc_ct_buffer_init_def guc_ct_buffer_reset_def
      guc_ct_buffer_desc_init_def Let_def)

lemma ct_booted_visible: "send_visible (ct_booted h)" "tail_lands quiet_ct c"
proof -
  have "desc_tail (desc (ctb_send (ct_booted h))) = ctb_tail (ctb_send (ct_booted h))"
    by (simp add: ct_booted_def guc_ct_buffer_init_def guc_ct_buffer_reset_def guc_ct_buffer_desc_init_def)
  then show "send_visible (ct_booted h)"
    using conjunct1 [OF published_visible [of "ct_booted h"]] ct_booted_ok(1) [of h] by (simp add: send_ok_def)
  show "tail_lands quiet_ct c" by (simp add: tail_lands_def quiet_ct_def)
qed

lemma ct_send_nb_queues_witness:
  "send_queue (snd (ct_send_nb quiet_ct [0x1000, 7] 0x80000002 (ct_booted ()))) =
     ct_message [0x1000, 7] 1 True"
proof -
  let ?r = "ct_send_nb quiet_ct [0x1000, 7] 0x80000002 (ct_booted ())"
  have "fst ?r = Inr ()"
    using ct_booted_ok [of "()"] ct_booted_fields [of "()"]
    by (simp add: ct_send_nb_def has_room_nb_def h2g_has_room_def g2h_has_room_def G2H_LEN_DW_def
        FIELD_GET_def ct_get_next_fence_def ct_write_def Let_def take_bit_minus_one_eq_mask split: prod.split)
  then obtain c' where p: "?r = (Inr (), c')" by (metis prod.collapse)
  from ct_send_nb_queues [OF ct_booted_ok(1) ct_booted_visible(1) _ _ p]
  have "send_queue (snd ?r) = own_queue (ct_booted ()) @
      ct_message [0x1000, 7] (ucast (last_fence (ct_booted ()) + 1)) (bit (0x80000002 :: u32) 31)"
    by (simp add: p ct_booted_visible(2))
  moreover have "bit (0x80000002 :: u32) 31" by code_simp
  ultimately show ?thesis by (simp add: ct_booted_ok ct_booted_fields)
qed

text \<open>A sender without credits for the answer, while another one finds room during its third sleep.\<close>

definition shared_ct :: "'h ct_env" where
  "shared_ct = quiet_ct\<lparr>env_sleep := (\<lambda>n ms c. (False,
     c\<lparr>ct_clock := ct_clock c + unat ms, stall_time := (if n = 2 then None else stall_time c)\<rparr>))\<rparr>"

lemma ct_wait_room_returns_witness:
  "\<exists>r c'. ct_wait_room shared_ct 3 1 (upd_recv (\<lambda>b. b\<lparr>ctb_space := 100\<rparr>) (ct_booted ())) = Some (r, c') \<and>
     ct_pauses c' \<le> 12"
  using ct_wait_room_returns [of shared_ct "{2}" "upd_recv (\<lambda>b. b\<lparr>ctb_space := 100\<rparr>) (ct_booted ())" 3]
    ct_booted_fields [of "()"]
  by (simp add: sleeps_shared_def shared_ct_def Let_def)

lemma ct_response_matches_witness:
  "let q = \<lparr>req_id = 0, req_fence = 5, req_status = 0, response_len = 2, response_buf = [0, 0]\<rparr>;
       c = (ct_booted ())\<lparr>pending := [q]\<rparr>
   in fst (ct_handle_response (success_msg 5 [7]) c) = Inr () \<and>
      map response_buf (pending (snd (ct_handle_response (success_msg 5 [7]) c))) = [[7, 0]] \<and>
      fst (ct_handle_response (success_msg 6 [7]) c) = Inl ENOKEY"
proof -
  define q where "q = \<lparr>req_id = 0, req_fence = 5, req_status = 0, response_len = 2, response_buf = [0, 0]\<rparr>"
  define c where "c = (ct_booted ())\<lparr>pending := [q]\<rparr>"
  have h: "GUC_CTB_MSG_0_FENCE (success_msg f [7] ! 0) = take_bit 16 f"
    "take (unat (GUC_CTB_MSG_0_NUM_DWORDS (success_msg f [7] ! 0)) - 1) (drop 2 (success_msg f [7])) = [7]" for f
    by (simp_all add: success_msg_def hxg_simps)
  have f: "take_bit 16 (5::u32) = 5" "take_bit 16 (6::u32) = 6" by code_simp+
  have 1: "fst (ct_handle_response (success_msg 5 [7]) c) = Inr () \<and>
      map response_buf (pending (snd (ct_handle_response (success_msg 5 [7]) c))) = [[7, 0]]"
    using ct_response_matches [where msg = "success_msg 5 [7]" and c = c and fence = 5 and data = "[7]"
        and res = "fst (ct_handle_response (success_msg 5 [7]) c)"
        and c' = "snd (ct_handle_response (success_msg 5 [7]) c)", THEN conjunct2,
        THEN spec [where x = "[]"], THEN spec [where x = q], THEN spec [where x = "[]"], THEN spec [where x = 1]]
    using h [of 5] f by (simp add: c_def q_def)
  have 2: "fst (ct_handle_response (success_msg 6 [7]) c) = Inl ENOKEY"
    using ct_response_matches [where msg = "success_msg 6 [7]" and c = c and fence = 6 and data = "[7]"
        and res = "fst (ct_handle_response (success_msg 6 [7]) c)"
        and c' = "snd (ct_handle_response (success_msg 6 [7]) c)", THEN conjunct1]
    using h [of 6] f by (simp add: c_def q_def)
  show ?thesis using 1 2 unfolding c_def q_def by (simp add: Let_def)
qed

text \<open>Two notifications of the GuC in a small ring, the second one across its end.\<close>

definition event_msg :: "u32 \<Rightarrow> u32 \<Rightarrow> u32 list" where
  "event_msg action d = [ct_header 0 2, hxg_request_msg GUC_HXG_ORIGIN_GUC GUC_HXG_TYPE_EVENT action 0, d]"

definition ct_two_events :: "unit intel_guc_ct" where
  "ct_two_events = upd_recv (\<lambda>b. b\<lparr>ctb_size := 8, ctb_head := 4, desc := (desc b)\<lparr>desc_tail := 2\<rparr>,
     cmds := (case (event_msg 0x1008 5, event_msg 0x1009 6) of
       (m1, [x, y, z]) \<Rightarrow> [y, z, 0, 0] @ m1 @ [x] | _ \<Rightarrow> [])\<rparr>) (ct_booted ())"

lemma ct_two_events_ok:
  "recv_ok ct_two_events" "ct_enabled ct_two_events"
  "recv_queue ct_two_events = concat [event_msg 0x1008 5, event_msg 0x1009 6]"
proof -
  have "ring_ok (cmds (ctb_recv ct_two_events)) 8 4 2"
    unfolding ring_ok_def
    by (auto simp: ct_two_events_def event_msg_def word_less_nat_alt intro!: exI [of _ "3 :: nat"])
  then show "recv_ok ct_two_events"
    using ct_booted_ok(2) [of "()"]
    by (simp add: recv_ok_def ring_good_def recv_ring_def ct_two_events_def)
  show "ct_enabled ct_two_events" using ct_booted_fields(1) by (simp add: ct_two_events_def)
  have six: "[0..<6] = [0, 1, 2, 3, 4, 5 :: nat]" by code_simp
  show "recv_queue ct_two_events = concat [event_msg 0x1008 5, event_msg 0x1009 6]"
    using six by (simp add: ring_queue_def recv_ring_def ct_two_events_def event_msg_def ring_contents_def
        ring_slots_def ring_used_def)
qed

lemma ct_tasklet_drains_witness:
  "recv_queue ((ct_receive_tasklet_func quiet_ct ^^ 2) ct_two_events) = [] \<and>
   incoming ((ct_receive_tasklet_func quiet_ct ^^ 2) ct_two_events) = [event_msg 0x1008 5, event_msg 0x1009 6]"
proof -
  let ?ms = "[event_msg 0x1008 5, event_msg 0x1009 6]"
  have "\<forall>m \<in> set ?ms. ct_framed m"
    by (simp add: ct_framed_def event_msg_def hxg_simps unat_take_bit)
  then have t: "recv_queue ((ct_receive_tasklet_func quiet_ct ^^ 2) ct_two_events) = concat (drop 2 ?ms) \<and>
      ct_view ((ct_receive_tasklet_func quiet_ct ^^ 2) ct_two_events) =
        ct_view (fold (ct_handle_msg quiet_ct) (take 2 ?ms) ct_two_events)"
    using ct_tasklet_drains [OF ct_two_events_ok, of quiet_ct 2] by (simp add: quiet_ct_def)
  have "incoming (fold (ct_handle_msg quiet_ct) (take 2 ?ms) ct_two_events) = ?ms"
    using ct_booted_fields(8) [of "()"]
    by (simp add: ct_handle_msg_def event_msg_def hxg_simps ct_handle_hxg_def ct_handle_event_def Let_def
        take_bit_eq_mod ct_two_events_def)
  then show ?thesis using t by (simp add: ct_view_def)
qed

definition answering_ct :: "unit ct_env" where
  "answering_ct = quiet_ct\<lparr>env_others := (\<lambda>_ x. snd (ct_handle_response (success_msg 1 [7]) x))\<rparr>"

lemma ct_send_gets_reply_witness:
  "\<exists>c'. intel_guc_ct_send answering_ct [0x5507] (Some [0, 0]) 0 (ct_booted ()) = Some ((Inr 1, [7, 0]), c') \<and>
     pending c' = [] \<and> send_queue c' = ct_message [0x5507] 1 False"
proof -
  have lands: "tail_lands answering_ct c" for c :: "unit intel_guc_ct"
    by (simp add: tail_lands_def answering_ct_def quiet_ct_def)
  have "env_others answering_ct (ct_pauses (ct_booted ())) =
      (\<lambda>x. snd (ct_handle_response (success_msg 1 [7]) x))"
    by (simp add: answering_ct_def)
  from ct_send_gets_reply [OF ct_booted_ok(1) ct_booted_fields(1-3) _ _ _ _ _ _ this,
      where action = "[0x5507]" and buf = "[0, 0]"]
  have "\<exists>c'. intel_guc_ct_send answering_ct [0x5507] (Some [0, 0]) 0 (ct_booted ()) = Some ((Inr 1, [7, 0]), c') \<and>
      pending c' = [] \<and> own_queue c' = ct_message [0x5507] 1 False \<and> send_queue c' = own_queue c' \<and>
      ctb_space (ctb_recv c') = 3071"
    using ct_booted_ok [of "()"] ct_booted_fields [of "()"] ct_booted_visible(1) [of "()"] lands by simp
  then show ?thesis by force
qed

end
