(* ===== verification/Iov_Runtime.thy ===== *)
theory Iov_Runtime
  imports Iov_Vf_Pf Guc_Ct_Queue
begin

text \<open>
  A VF that asks the PF for its runtime registers, with both drivers and the GuC that carries the
  messages between them. The VF sends a query, the GuC hands it to the PF as a notification, the
  PF answers, and the GuC hands the answer to the VF while it waits. Nine registers fit into an
  answer; the VF asks until the PF has no more.
\<close>

section \<open>The GuC between the drivers\<close>


abbreviation (input) relay_notice :: "u32 \<Rightarrow> u32" where
  "relay_notice action \<equiv> hxg_request_msg GUC_HXG_ORIGIN_GUC GUC_HXG_TYPE_EVENT action 0"

text \<open>
  The last message of VF \<open>vf\<close> reaches the PF \<open>v\<close>, and what the PF sends reaches the relay \<open>x\<close> of
  the VF, whose driver has the other data \<open>u\<close>.
\<close>

definition vf_receives :: "service_env \<Rightarrow> intel_iov \<Rightarrow> u32 list \<Rightarrow> intel_iov_relay \<Rightarrow> intel_iov_relay" where
  "vf_receives G u sent x =
     (case intel_iov_relay_process_guc2vf G (relay_notice GUC_ACTION_GUC2VF_RELAY_FROM_PF # drop 2 sent)
             (u\<lparr>iov_relay := x\<rparr>) of
        None \<Rightarrow> x | Some (e, u1) \<Rightarrow> iov_relay u1)"

definition guc_relays ::
    "service_env \<Rightarrow> intel_iov \<Rightarrow> service_env \<Rightarrow> intel_iov \<Rightarrow> u32 \<Rightarrow> intel_iov_relay \<Rightarrow> intel_iov_relay" where
  "guc_relays F v G u vf x =
     (case relay_sent x of
        [] \<Rightarrow> x
      | req # _ \<Rightarrow>
          (case intel_iov_relay_process_guc2pf F
                  (relay_notice GUC_ACTION_GUC2PF_RELAY_FROM_VF # vf # drop 1 req)
                  (v\<lparr>iov_relay := (iov_relay v)\<lparr>relay_sent := []\<rparr>\<rparr>) of
             None \<Rightarrow> x
           | Some (e, v1) \<Rightarrow> fold (vf_receives G u) (rev (relay_sent (iov_relay v1))) x))"

section \<open>One answer\<close>

lemma runtime_chunk_query: "runtime_chunk rt start 9 = min (rt_size rt - start) 9"
  by (simp add: runtime_chunk_def Let_def)

lemma length_pairs: "length (concat (map (\<lambda>i. [f i, g i]) xs)) = 2 * length xs"
  by (induction xs) simp_all

lemma length_runtime_response [simp]: "length (runtime_response rt start l) = 2 + 2 * runtime_chunk rt start l"
  by (simp add: runtime_response_def Let_def length_pairs)

lemma runtime_response_head:
  "hd (runtime_response rt start l) = iov_success (of_nat (runtime_chunk rt start l))"
  "runtime_response rt start l ! 0 = iov_success (of_nat (runtime_chunk rt start l))"
  by (simp_all add: runtime_response_def Let_def)

lemma guc_relays_query:
  assumes "relay_is_pf (svc_relay F)" "\<And>n. env_send_nb (svc_relay F) n = Inr ()" "relay_is_vf (svc_relay G)"
    and "vf \<noteq> 0" "unat start \<le> rt_size (iov_runtime v)"
    and "relay_sent x = relay_request 0 fence (query_runtime_request start) # xs"
  shows "guc_relays F v G u vf x =
    snd (relay_handle_reply 0 fence Reply_ok (runtime_response (iov_runtime v) (unat start) 9) x)"
proof -
  let ?v = "v\<lparr>iov_relay := (iov_relay v)\<lparr>relay_sent := []\<rparr>\<rparr>"
  let ?rsp = "runtime_response (iov_runtime v) (unat start) 9"
  let ?m = "relay_notice GUC_ACTION_GUC2PF_RELAY_FROM_VF # vf # drop 1 (relay_request 0 fence (query_runtime_request start))"
  have m: "?m = [relay_notice GUC_ACTION_GUC2PF_RELAY_FROM_VF, vf, fence] @ query_runtime_request start"
    by (simp add: relay_request_def)
  define r' where "r' = (iov_relay ?v)\<lparr>relay_attempts := Suc (relay_attempts (iov_relay ?v)),
      relay_sent := [relay_request vf fence ?rsp]\<rparr>"
  have send: "intel_iov_relay_reply_to_vf (svc_relay F) vf fence ?rsp (iov_relay ?v) = Some (Inr (), r')"
    by (simp add: intel_iov_relay_reply_to_vf_def relay_send_accepted assms(2) r'_def)
  have q: "pf_reply_runtime_query F vf fence (query_runtime_request start) ?v = Some (Inr (), ?v\<lparr>iov_relay := r'\<rparr>)"
    using assms(5) send
    by (simp add: pf_reply_runtime_query_def query_runtime_request_def hxg_simps take_bit_eq_mod on_relay_def)
  have pf: "intel_iov_relay_process_guc2pf F ?m ?v = Some (Inr (), ?v\<lparr>iov_relay := r'\<rparr>)"
    unfolding m using assms(1,4) q
    by (simp add: intel_iov_relay_process_guc2pf_def relay_process_msg_def relay_handle_request_def
        intel_iov_service_process_msg_def query_runtime_request_def hxg_simps take_bit_eq_mod Let_def)
  have "vf_receives G u (relay_request vf fence ?rsp) x = snd (relay_handle_reply 0 fence Reply_ok ?rsp x)"
  proof -
    have "GUC_HXG_MSG_0_TYPE (?rsp ! 0) = GUC_HXG_TYPE_RESPONSE_SUCCESS"
      "GUC_HXG_MSG_0_ORIGIN (?rsp ! 0) = GUC_HXG_ORIGIN_HOST"
      by (simp_all add: runtime_response_head hxg_simps take_bit_eq_mod)
    moreover have "drop 2 (relay_request vf fence ?rsp) = fence # ?rsp" using assms(4) by (simp add: relay_request_def)
    moreover have "runtime_chunk (iov_runtime v) (unat start) 9 \<le> 9" by (simp add: runtime_chunk_query)
    ultimately show ?thesis
      using assms(3)
      by (simp add: vf_receives_def intel_iov_relay_process_guc2vf_def relay_process_msg_def hxg_simps
          take_bit_eq_mod Let_def split: prod.split)
  qed
  with pf assms(6) show ?thesis by (simp add: guc_relays_def r'_def)
qed

text \<open>The exchange as the VF sees it: the length and the dwords of the answer.\<close>

definition runtime_link :: "query_env \<Rightarrow> u32 \<Rightarrow> intel_iov_runtime_regs \<Rightarrow> bool" where
  "runtime_link E vf rt \<longleftrightarrow>
     (\<forall>n. env_send_nb (query_relay E) n = Inr ()) \<and> (\<forall>n. query_alloc E n) \<and>
     (\<forall>n. \<exists>F v G u. env_handlers (query_relay E) n = guc_relays F v G u vf \<and> iov_runtime v = rt \<and>
        relay_is_pf (svc_relay F) \<and> (\<forall>k. env_send_nb (svc_relay F) k = Inr ()) \<and> relay_is_vf (svc_relay G))"

lemma runtime_exchange:
  assumes "runtime_link E vf rt" "vf \<noteq> 0" "unat start \<le> rt_size rt" "pending_relays r = []"
    and "rsp = runtime_response rt (unat start) 9"
  shows "\<exists>r'. intel_iov_relay_send_to_pf (query_relay E) (query_runtime_request start) (replicate 20 0) r =
      Some ((Inr (of_nat (length rsp)),
        GUC_HXG_MSG_0_AUX (hd rsp) # tl rsp @ drop (length rsp) (replicate 20 0)), r') \<and>
    pending_relays r' = []"
proof -
  obtain F v G u where h: "env_handlers (query_relay E) (relay_points r) = guc_relays F v G u vf" "iov_runtime v = rt"
    "relay_is_pf (svc_relay F)" "\<And>k. env_send_nb (svc_relay F) k = Inr ()" "relay_is_vf (svc_relay G)"
    using assms(1) unfolding runtime_link_def by blast
  obtain fence r1 where f: "relay_get_next_fence r = (fence, r1)" by fastforce
  let ?x = "relay_started 0 fence (query_runtime_request start) (replicate 20 0) r1"
  have "relay_sent ?x = relay_request 0 fence (query_runtime_request start) # relay_sent r1"
    by (simp add: relay_started_def)
  from guc_relays_query [OF h(3-5) assms(2) _ this] assms(3,5) h(2)
  have "env_handlers (query_relay E) (relay_points r) ?x = snd (relay_handle_reply 0 fence Reply_ok rsp ?x)"
    by (simp add: h(1))
  moreover have "env_send_nb (query_relay E) (relay_attempts r) = Inr ()" using assms(1) by (simp add: runtime_link_def)
  moreover have "relay_fresh 0 fence r" by (simp add: relay_fresh_def assms(4))
  moreover have "GUC_HXG_MSG_0_TYPE (query_runtime_request start ! 0) \<noteq> GUC_HXG_TYPE_EVENT"
    by (simp add: query_runtime_request_def hxg_simps take_bit_eq_mod)
  moreover have "length rsp \<le> 20" by (simp add: assms(5) runtime_chunk_query)
  ultimately show ?thesis
    using send_to_pf_reply [OF f, of "query_runtime_request start" "query_relay E" "replicate 20 0" rsp] assms(4) by auto
qed

section \<open>Collecting the registers\<close>

lemma store_regs_nth:
  "length (store_regs start n rsp rs) = length rs"
  "j < length rs \<Longrightarrow> store_regs start n rsp rs ! j =
     (if start \<le> j \<and> j < start + n then (rsp ! (2 + 2 * (j - start)), rsp ! (2 + 2 * (j - start) + 1)) else rs ! j)"
proof (induction n)
  case (Suc n)
  have "store_regs start (Suc n) rsp rs =
      (store_regs start n rsp rs)[start + n := (rsp ! (2 + 2 * n), rsp ! (2 + 2 * n + 1))]"
    by (simp add: store_regs_def)
  moreover note Suc.IH
  moreover { case 1 show ?case using Suc.IH by (simp add: store_regs_def) }
  moreover { case 2 then show ?case using calculation by (auto simp: nth_list_update less_Suc_eq) }
qed (auto simp: store_regs_def)

text \<open>What an answer holds, seen through the buffer of the VF.\<close>

lemma runtime_answer:
  assumes "rsp = runtime_response rt start 9" "c = runtime_chunk rt start 9" "start + c \<le> rt_size rt"
    and "rt_size rt < 2 ^ 32" "buf = GUC_HXG_MSG_0_AUX (hd rsp) # tl rsp @ xs"
  shows "buf ! 0 = of_nat c" "buf ! 1 = of_nat (rt_size rt - start - c)"
    "i < c \<Longrightarrow> (buf ! (2 + 2 * i), buf ! (2 + 2 * i + 1)) = (rt_regs rt ! (start + i), rt_values rt ! (start + i))"
proof -
  let ?ps = "concat (map (\<lambda>i. [rt_regs rt ! (start + i), rt_values rt ! (start + i)]) [0..<c])"
  have b: "buf = take_bit 28 (of_nat c) # of_nat (rt_size rt - start - c) # ?ps @ xs"
    by (simp add: assms(1,2,5) runtime_response_def Let_def hxg_simps)
  have "c \<le> 9" by (simp add: assms(2) runtime_chunk_query)
  then have "take_bit 28 (of_nat c) = (of_nat c :: u32)"
    by (intro word_unat_eq_iff [THEN iffD2]) (simp add: unsigned_take_bit_eq take_bit_nat_eq_self unat_of_nat)
  then show "buf ! 0 = of_nat c" "buf ! 1 = of_nat (rt_size rt - start - c)" by (simp_all add: b)
  assume i: "i < c"
  then have "i < length [0..<c]" "Suc (2 * i) < length ?ps" by (simp_all add: length_pairs)
  then show "(buf ! (2 + 2 * i), buf ! (2 + 2 * i + 1)) = (rt_regs rt ! (start + i), rt_values rt ! (start + i))"
    using concat_pairs_nth [of i "[0..<c]" "\<lambda>i. rt_regs rt ! (start + i)" "\<lambda>i. rt_values rt ! (start + i)"] i
    by (simp add: b nth_append)
qed

lemma runtime_answer_length:
  assumes "c \<le> 9" "ret = of_nat (2 + 2 * c)"
  shows "\<not> ret < (2 :: u32)" "(ret - 2) mod 2 = 0" "(ret - 2) div 2 = of_nat c"
proof -
  have "c \<in> {0..9}" using assms(1) by simp
  also have "{0..9} = {0, 1, 2, 3, 4, 5, 6, 7, 8, 9 :: nat}" by code_simp
  finally show "\<not> ret < (2 :: u32)" "(ret - 2) mod 2 = 0" "(ret - 2) div 2 = of_nat c"
    by (auto simp: assms(2))
qed

text \<open>The VF has the first \<open>k\<close> registers, and room for all of them once it has any.\<close>

definition runtime_have :: "intel_iov_runtime_regs \<Rightarrow> nat \<Rightarrow> intel_iov_vf \<Rightarrow> bool" where
  "runtime_have rt k w \<longleftrightarrow> k \<le> rt_size rt \<and> length (vf_regs w) = rt_size rt \<and> vf_regs_size w = rt_size rt \<and>
     (\<forall>j < k. vf_regs w ! j = (rt_regs rt ! j, rt_values rt ! j))"

lemma runtime_have_store:
  assumes "runtime_have rt k w" "rsp = runtime_response rt k 9" "c = runtime_chunk rt k 9" "rt_size rt < 2 ^ 32"
    and "buf = GUC_HXG_MSG_0_AUX (hd rsp) # tl rsp @ xs"
  shows "runtime_have rt (k + c) (w\<lparr>vf_regs := store_regs k c buf (vf_regs w)\<rparr>)"
proof -
  have c: "k + c \<le> rt_size rt" using assms(1) by (auto simp: assms(3) runtime_have_def runtime_chunk_query)
  have "store_regs k c buf (vf_regs w) ! j = (rt_regs rt ! j, rt_values rt ! j)" if j: "j < k + c" for j
  proof (cases "j < k")
    case True
    then show ?thesis using assms(1) j by (simp add: store_regs_nth runtime_have_def)
  next
    case False
    then show ?thesis
      using assms(1) j c runtime_answer(3) [OF assms(2,3) c assms(4,5), of "j - k"]
      by (simp add: store_regs_nth runtime_have_def)
  qed
  then show ?thesis using assms(1) c by (simp add: runtime_have_def store_regs_nth)
qed

text \<open>One round of the query.\<close>

lemma runtime_round:
  assumes "runtime_link E vf rt" "vf \<noteq> 0" "pending_relays (vf_relay w) = []" "rt_size rt < 2 ^ 32"
    and "start = 0 \<or> runtime_have rt (unat start) w"
    and "c = runtime_chunk rt (unat start) 9" "k = unat start + c"
  shows "\<exists>w'. runtime_have rt k w' \<and> pending_relays (vf_relay w') = [] \<and>
    runtime_relay_loop E start w = (if k = rt_size rt then Some (Inr (), w') else runtime_relay_loop E (of_nat k) w')"
proof -
  have s: "unat start \<le> rt_size rt" using assms(5) by (auto simp: runtime_have_def)
  then have k: "unat start + c \<le> rt_size rt" "c \<le> 9" using assms(6) by (simp_all add: runtime_chunk_query)
  define rsp where "rsp = runtime_response rt (unat start) 9"
  define buf where "buf = GUC_HXG_MSG_0_AUX (hd rsp) # tl rsp @ drop (length rsp) (replicate 20 0)"
  define ret :: u32 where "ret = of_nat (2 + 2 * c)"
  obtain r' where x: "intel_iov_relay_send_to_pf (query_relay E) (query_runtime_request start) (replicate 20 0) (vf_relay w) =
      Some ((Inr ret, buf), r')" "pending_relays r' = []"
    using runtime_exchange [OF assms(1,2) s assms(3) refl] unfolding rsp_def [symmetric] buf_def [symmetric]
    by (auto simp: rsp_def ret_def assms(6))
  define w1 where "w1 = w\<lparr>vf_relay := r'\<rparr>"
  have ret: "\<not> ret < 2" "(ret - 2) mod 2 = 0" "(ret - 2) div 2 = of_nat c"
    using runtime_answer_length [OF k(2) ret_def] by auto
  have b: "buf ! 0 = of_nat c" "buf ! 1 = of_nat (rt_size rt - k)"
    using runtime_answer(1,2) [OF rsp_def assms(6) k(1) assms(4) buf_def] by (simp_all add: assms(7))
  have kw: "unat (start + of_nat c) = k" "start + of_nat c = of_nat k"
    using k assms(4,7) by (simp_all add: unat_word_ariths unat_of_nat word_unat_eq_iff)
  have "of_nat c + of_nat (rt_size rt - k) = (of_nat (c + (rt_size rt - k)) :: u32)" by simp
  then have all: "start = 0 \<Longrightarrow> unat (of_nat c + of_nat (rt_size rt - k) :: u32) = rt_size rt"
    using k assms(4,7) by (simp add: unat_of_nat del: of_nat_add)
  have "\<exists>a w2. (if start = 0 then vf_prepare_runtime_info E (unat (of_nat c + of_nat (rt_size rt - k) :: u32)) 1 w1
      else if unat (start + of_nat c) > vf_regs_size w1 then (Inl EPROTO, w1) else (Inr 0, w1)) = (Inr a, w2) \<and>
      runtime_have rt (unat start) w2 \<and> pending_relays (vf_relay w2) = []"
  proof (cases "start = 0")
    case True
    then show ?thesis
      using assms(1) x(2)
      by (simp add: all vf_prepare_runtime_info_def Let_def runtime_link_def runtime_have_def w1_def)
  next
    case False
    then show ?thesis
      using assms(5) k x(2) kw(1) assms(7) by (auto simp: runtime_have_def w1_def)
  qed
  then obtain a w2 where prep: "(if start = 0 then vf_prepare_runtime_info E (unat (of_nat c + of_nat (rt_size rt - k) :: u32)) 1 w1
      else if unat (start + of_nat c) > vf_regs_size w1 then (Inl EPROTO, w1) else (Inr 0, w1)) = (Inr a, w2)"
    and w2: "runtime_have rt (unat start) w2" "pending_relays (vf_relay w2) = []" by blast
  define w' where "w' = w2\<lparr>vf_regs := store_regs (unat start) c buf (vf_regs w2)\<rparr>"
  have c32: "unat (of_nat c :: u32) = c" using k(2) by (simp add: unat_of_nat)
  have "unat (of_nat (rt_size rt - k) :: u32) = rt_size rt - k"
    using assms(4) by (simp add: unat_of_nat del: of_nat_diff)
  then have "of_nat (rt_size rt - k) = (0 :: u32) \<longleftrightarrow> rt_size rt - k = 0"
    by (metis unat_eq_0)
  then have "of_nat (rt_size rt - k) = (0 :: u32) \<longleftrightarrow> k = rt_size rt" using k(1) assms(7) by auto
  moreover have "runtime_relay_loop E start w = (if of_nat (rt_size rt - k) \<noteq> (0 :: u32)
      then runtime_relay_loop E (start + of_nat c) w' else Some (Inr (), w'))"
    by (subst runtime_relay_loop.simps)
      (simp split del: if_split del: of_nat_diff One_nat_def
        add: on_vf_relay_def x(1) ret b(1) Let_def w1_def [symmetric],
       unfold b(2) c32, simp del: of_nat_diff One_nat_def add: prep w'_def)
  ultimately have "runtime_relay_loop E start w =
      (if k = rt_size rt then Some (Inr (), w') else runtime_relay_loop E (of_nat k) w')"
    by (simp add: kw(2))
  moreover have "runtime_have rt k w'"
    unfolding w'_def assms(7) by (rule runtime_have_store [OF w2(1) rsp_def assms(6) assms(4) buf_def])
  moreover have "pending_relays (vf_relay w') = []" using w2(2) by (simp add: w'_def)
  ultimately show ?thesis by blast
qed

lemma runtime_rounds:
  assumes "runtime_link E vf rt" "vf \<noteq> 0" "rt_size rt < 2 ^ 32"
  shows "start = 0 \<or> runtime_have rt (unat start) w \<Longrightarrow> pending_relays (vf_relay w) = [] \<Longrightarrow>
    \<exists>w'. runtime_relay_loop E start w = Some (Inr (), w') \<and> runtime_have rt (rt_size rt) w'"
proof (induction "rt_size rt - unat start" arbitrary: start w rule: less_induct)
  case less
  define k where "k = unat start + runtime_chunk rt (unat start) 9"
  from runtime_round [OF assms(1,2) less.prems(2) assms(3) less.prems(1) refl k_def]
  obtain w' where w': "runtime_have rt k w'" "pending_relays (vf_relay w') = []"
    "runtime_relay_loop E start w = (if k = rt_size rt then Some (Inr (), w') else runtime_relay_loop E (of_nat k) w')"
    by blast
  show ?case
  proof (cases "k = rt_size rt")
    case True
    then show ?thesis using w' by auto
  next
    case False
    with w'(1) have lt: "unat start < k" "k < rt_size rt"
      by (auto simp: runtime_have_def k_def runtime_chunk_query)
    then have "unat (of_nat k :: u32) = k" using assms(3) by (simp add: unat_of_nat)
    then show ?thesis using less.hyps [of "of_nat k" w'] lt w' False by simp
  qed
qed

text \<open>
  Property C36. A VF that queries the runtime registers over the relay gets from the PF all registers
  that the PF shares, in the order of the PF and with its values, and the query ends, however many
  registers there are: for every state of the PFs that answer, as long as the shared registers stay
  the same and the messages and allocations succeed.
\<close>

theorem runtime_query_roundtrip:
  assumes "runtime_link E vf rt" "vf \<noteq> 0" "pending_relays (vf_relay w) = []" "rt_size rt < 2 ^ 32"
    and "length (rt_regs rt) = rt_size rt" "length (rt_values rt) = rt_size rt"
  shows "\<exists>w'. intel_iov_query_runtime E False w = Some (Inr (), w') \<and>
    vf_regs w' = zip (rt_regs rt) (rt_values rt) \<and> vf_regs_size w' = rt_size rt"
proof -
  obtain w' where w': "runtime_relay_loop E 0 w = Some (Inr (), w')" "runtime_have rt (rt_size rt) w'"
    using runtime_rounds [OF assms(1,2,4)] assms(3) by blast
  then have "vf_regs w' = zip (rt_regs rt) (rt_values rt)"
    by (intro nth_equalityI) (simp_all add: runtime_have_def assms(5,6))
  then show ?thesis
    using w' by (simp add: intel_iov_query_runtime_def vf_get_runtime_info_relay_def runtime_have_def)
qed

section \<open>A Tiger Lake PF\<close>

text \<open>Ten registers, so that the VF asks twice.\<close>

definition tgl_runtime :: intel_iov_runtime_regs where
  "tgl_runtime = \<lparr>rt_size = 10, rt_regs = tgl_runtime_regs, rt_values = map (\<lambda>r. r + 1) tgl_runtime_regs\<rparr>"

definition tgl_vf_env :: query_env where
  "tgl_vf_env =
     \<lparr>query_mmio = env_mmio (quiet_ct :: unit ct_env),
      query_relay = relay_vf_env (\<lambda>n. guc_relays svc_demo_env (svc_demo\<lparr>iov_runtime := tgl_runtime, iov_reads := n\<rparr>)
        (svc_demo_env\<lparr>svc_relay := relay_vf_env (\<lambda>_ x. x)\<rparr>) svc_demo 1),
      query_alloc = (\<lambda>_. True), query_platform = VF_PLATFORM_TGL_ADL, query_has_gmd_id = False,
      query_crc32 = (\<lambda>_. 0)\<rparr>"

definition tgl_vf :: intel_iov_vf where
  "tgl_vf = \<lparr>vf_relay = relay_boot, vf_mmio = ct_mmio (ct_booted ()),
     vf_config = \<lparr>guc_abi = \<lparr>abi_branch = 0, abi_major = 1, abi_minor = 0, abi_patch = 0\<rparr>,
       ggtt_base = 0x1000000, ggtt_size = 0x4000, vf_num_ctxs = 128, vf_num_dbs = 4\<rparr>,
     vf_ip = \<lparr>ip_ver = 12, ip_rel = 0, ip_step = 0\<rparr>, vf_regs = [], vf_regs_size = 0, vf_allocs = 0\<rparr>"

lemma runtime_query_roundtrip_witness:
  "\<exists>w'. intel_iov_query_runtime tgl_vf_env False tgl_vf = Some (Inr (), w') \<and>
     vf_regs w' = map (\<lambda>r. (r, r + 1)) tgl_runtime_regs"
proof -
  have "\<exists>F v G u. env_handlers (query_relay tgl_vf_env) n = guc_relays F v G u 1 \<and> iov_runtime v = tgl_runtime \<and>
      relay_is_pf (svc_relay F) \<and> (\<forall>k. env_send_nb (svc_relay F) k = Inr ()) \<and> relay_is_vf (svc_relay G)" for n
    by (rule exI [of _ svc_demo_env], rule exI [of _ "svc_demo\<lparr>iov_runtime := tgl_runtime, iov_reads := n\<rparr>"],
        rule exI [of _ "svc_demo_env\<lparr>svc_relay := relay_vf_env (\<lambda>_ x. x)\<rparr>"], rule exI [of _ svc_demo])
      (simp add: tgl_vf_env_def relay_vf_env_def svc_demo_env_def pf_relay_env_def)
  then have "runtime_link tgl_vf_env 1 tgl_runtime"
    by (simp add: runtime_link_def) (simp add: tgl_vf_env_def relay_vf_env_def)
  from runtime_query_roundtrip [OF this, of tgl_vf]
  have "\<exists>w'. intel_iov_query_runtime tgl_vf_env False tgl_vf = Some (Inr (), w') \<and>
      vf_regs w' = zip tgl_runtime_regs (map (\<lambda>r. r + 1) tgl_runtime_regs)"
    by (auto simp: tgl_runtime_def tgl_runtime_regs_def tgl_vf_def relay_boot_def)
  then show ?thesis by (simp add: zip_map2 zip_same_conv_map comp_def)
qed

end
