(* ===== verification/Iov_Memirq.thy ===== *)
theory Iov_Memirq
  imports Guc_Mmio
begin

text \<open>
  Interrupts of a VF through memory (\<open>gt/iov/intel_iov_memirq.c\<close>): the hardware writes a status byte
  and a source byte into a page, and the handler of the VF looks at the sources of the engines and
  of the GuC, clears them, and looks at the status. The hardware writes at any point between two
  accesses of the handler.
\<close>

section \<open>The page\<close>

abbreviation (input) I915_VF_IRQ_STATUS :: nat where "I915_VF_IRQ_STATUS \<equiv> 0x0"
abbreviation (input) I915_VF_IRQ_SOURCE :: nat where "I915_VF_IRQ_SOURCE \<equiv> 0x400"
abbreviation (input) I915_VF_IRQ_ENABLE :: nat where "I915_VF_IRQ_ENABLE \<equiv> 0x440"
abbreviation (input) GEN11_GUC :: nat where "GEN11_GUC \<equiv> 25"
abbreviation (input) RENDER_USER_BIT :: nat where "RENDER_USER_BIT \<equiv> 0"
abbreviation (input) GUC2HOST_BIT :: nat where "GUC2HOST_BIT \<equiv> 15"

text \<open>The interrupt offset of each engine, in the order of the engine table.\<close>

definition engine_irq_offsets :: "nat list" where
  "engine_irq_offsets =
     [0, 15, 14, 13, 12, 11, 10, 9, 8, 23] @ map (\<lambda>i. 32 + i) [0..<8] @ map (\<lambda>i. 32 + (31 - i)) [0..<4] @
     [4, 5, 6, 7, 31]"

datatype (plugins only: code) irq_event = Engine_irq nat | Guc_irq

text \<open>
  The page by its bytes, when there is one; its object with the number of references, its mapping in
  the GGTT; the events that were signalled; and for the hardware: the offsets whose status is
  written and whose source is still to be written, and the accesses so far.
\<close>

record vf_memirq =
  irq_obj :: bool
  irq_obj_refs :: int
  irq_vma :: "u32 option"
  irq_page :: "(nat \<Rightarrow> u8) option"
  irq_events :: "irq_event list"
  irq_due :: "nat set"
  irq_points :: nat

record memirq_env =
  mi_has_memirq :: bool
  mi_create :: "unit res"
  mi_pin_map :: "(nat \<Rightarrow> u8) res"
  mi_vma :: "u32 res"
  mi_pin :: "unit res"

definition write_u32 :: "nat \<Rightarrow> u32 \<Rightarrow> (nat \<Rightarrow> u8) \<Rightarrow> nat \<Rightarrow> u8" where
  "write_u32 a v p = p(a := ucast v, a + 1 := ucast (drop_bit 8 v),
     a + 2 := ucast (drop_bit 16 v), a + 3 := ucast (drop_bit 24 v))"

section \<open>Creation and release\<close>

definition vf_create_memirq_data :: "memirq_env \<Rightarrow> vf_memirq \<Rightarrow> unit res \<times> vf_memirq" where
  "vf_create_memirq_data E m =
     (case mi_create E of
        Inl e \<Rightarrow> (Inl e, m)
      | Inr u \<Rightarrow>
          (case mi_pin_map E of
             Inl e \<Rightarrow> (Inl e, m)
           | Inr p \<Rightarrow>
               (Inr (), m\<lparr>irq_obj := True, irq_obj_refs := irq_obj_refs m + 1,
                         irq_page := Some (write_u32 I915_VF_IRQ_ENABLE 0xffff p)\<rparr>)))"

text \<open>When pinning fails the object is put, but the page stays in use by the handler.\<close>

definition vf_map_memirq_data :: "memirq_env \<Rightarrow> vf_memirq \<Rightarrow> unit res \<times> vf_memirq" where
  "vf_map_memirq_data E m =
     (case mi_vma E of
        Inl e \<Rightarrow> (Inl e, m)
      | Inr base \<Rightarrow>
          (case mi_pin E of
             Inl e \<Rightarrow> (Inl e, m\<lparr>irq_obj_refs := irq_obj_refs m - 1\<rparr>)
           | Inr u \<Rightarrow> (Inr (), m\<lparr>irq_vma := Some base\<rparr>)))"

text \<open>\<open>i915_vma_unpin_and_release\<close> does nothing without a VMA, and else drops the object too.\<close>

definition vf_release_memirq_data :: "vf_memirq \<Rightarrow> vf_memirq" where
  "vf_release_memirq_data m =
     m\<lparr>irq_obj_refs := (if irq_vma m = None then irq_obj_refs m else irq_obj_refs m - 1),
       irq_vma := None, irq_obj := False, irq_page := None\<rparr>"

definition intel_iov_memirq_init :: "memirq_env \<Rightarrow> vf_memirq \<Rightarrow> unit res \<times> vf_memirq" where
  "intel_iov_memirq_init E m =
     (if \<not> mi_has_memirq E then (Inr (), m)
      else case vf_create_memirq_data E m of
        (Inl e, m1) \<Rightarrow> (Inl e, m1)
      | (Inr u, m1) \<Rightarrow> vf_map_memirq_data E m1)"

definition intel_iov_memirq_fini :: "memirq_env \<Rightarrow> vf_memirq \<Rightarrow> vf_memirq" where
  "intel_iov_memirq_fini E m = (if \<not> mi_has_memirq E then m else vf_release_memirq_data m)"

section \<open>Telling the GuC\<close>

abbreviation (input) GUC_KLV_SELF_CFG_MEMIRQ_STATUS_ADDR_KEY :: u16 where
  "GUC_KLV_SELF_CFG_MEMIRQ_STATUS_ADDR_KEY \<equiv> 0x0900"
abbreviation (input) GUC_KLV_SELF_CFG_MEMIRQ_SOURCE_ADDR_KEY :: u16 where
  "GUC_KLV_SELF_CFG_MEMIRQ_SOURCE_ADDR_KEY \<equiv> 0x0901"

definition intel_iov_memirq_prepare_guc ::
    "mmio_env \<Rightarrow> vf_memirq \<Rightarrow> guc_mmio \<Rightarrow> (unit res \<times> guc_mmio) option" where
  "intel_iov_memirq_prepare_guc E m g =
     (let base = the (irq_vma m);
          source = base + of_nat I915_VF_IRQ_SOURCE + of_nat GEN11_GUC;
          status = base + of_nat I915_VF_IRQ_STATUS + of_nat (GEN11_GUC * 16)
      in case intel_guc_self_cfg64 E GUC_KLV_SELF_CFG_MEMIRQ_SOURCE_ADDR_KEY (ucast source) g of
        None \<Rightarrow> None
      | Some (Inl e, g1) \<Rightarrow> Some (Inl e, g1)
      | Some (Inr u, g1) \<Rightarrow>
          intel_guc_self_cfg64 E GUC_KLV_SELF_CFG_MEMIRQ_STATUS_ADDR_KEY (ucast status) g1)"

definition intel_iov_memirq_reset :: "vf_memirq \<Rightarrow> vf_memirq" where
  "intel_iov_memirq_reset m =
     (case irq_page m of None \<Rightarrow> m | Some p \<Rightarrow> m\<lparr>irq_page := Some (write_u32 I915_VF_IRQ_ENABLE 0 p)\<rparr>)"

definition intel_iov_memirq_postinstall :: "vf_memirq \<Rightarrow> vf_memirq" where
  "intel_iov_memirq_postinstall m =
     (case irq_page m of None \<Rightarrow> m | Some p \<Rightarrow> m\<lparr>irq_page := Some (write_u32 I915_VF_IRQ_ENABLE 0xffff p)\<rparr>)"

section \<open>The handler\<close>

text \<open>
  What the hardware writes: it raises a bit of the status of a unit, and then its source.
  \<open>irq_hw n\<close> are the writes before the \<open>n\<close>-th access of the handler.
\<close>

datatype (plugins only: code) irq_write = Raise_status nat nat | Raise_source nat

abbreviation (input) status_addr :: "nat \<Rightarrow> nat \<Rightarrow> nat" where
  "status_addr off b \<equiv> I915_VF_IRQ_STATUS + off * 16 + b"

abbreviation (input) source_addr :: "nat \<Rightarrow> nat" where
  "source_addr off \<equiv> I915_VF_IRQ_SOURCE + off"

definition poke :: "nat \<Rightarrow> u8 \<Rightarrow> vf_memirq \<Rightarrow> vf_memirq" where
  "poke a v m = m\<lparr>irq_page := map_option (\<lambda>p. p(a := v)) (irq_page m)\<rparr>"

definition peek :: "nat \<Rightarrow> vf_memirq \<Rightarrow> u8" where
  "peek a m = (case irq_page m of None \<Rightarrow> 0 | Some p \<Rightarrow> p a)"

primrec irq_raise :: "irq_write \<Rightarrow> vf_memirq \<Rightarrow> vf_memirq" where
  "irq_raise (Raise_status off b) m =
     (if off < 64 \<and> b < 16 then (poke (status_addr off b) 0xff m)\<lparr>irq_due := insert off (irq_due m)\<rparr> else m)"
| "irq_raise (Raise_source off) m =
     (if off < 64 then (poke (source_addr off) 0xff m)\<lparr>irq_due := irq_due m - {off}\<rparr> else m)"

definition irq_point :: "(nat \<Rightarrow> irq_write list) \<Rightarrow> vf_memirq \<Rightarrow> vf_memirq" where
  "irq_point hw m = fold irq_raise (hw (irq_points m)) (m\<lparr>irq_points := Suc (irq_points m)\<rparr>)"

definition READ_ONCE :: "(nat \<Rightarrow> irq_write list) \<Rightarrow> nat \<Rightarrow> vf_memirq \<Rightarrow> u8 \<times> vf_memirq" where
  "READ_ONCE hw a m = (let m1 = irq_point hw m in (peek a m1, m1))"

definition WRITE_ONCE :: "(nat \<Rightarrow> irq_write list) \<Rightarrow> nat \<Rightarrow> u8 \<Rightarrow> vf_memirq \<Rightarrow> vf_memirq" where
  "WRITE_ONCE hw a v m = poke a v (irq_point hw m)"

definition engine_mem_irq_handler :: "(nat \<Rightarrow> irq_write list) \<Rightarrow> nat \<Rightarrow> vf_memirq \<Rightarrow> vf_memirq" where
  "engine_mem_irq_handler hw off m =
     (case READ_ONCE hw (status_addr off RENDER_USER_BIT) m of (v, m1) \<Rightarrow>
        if v = 0xff
        then (WRITE_ONCE hw (status_addr off RENDER_USER_BIT) 0 m1)
               \<lparr>irq_events := irq_events m1 @ [Engine_irq off]\<rparr>
        else m1)"

definition guc_mem_irq_handler :: "(nat \<Rightarrow> irq_write list) \<Rightarrow> vf_memirq \<Rightarrow> vf_memirq" where
  "guc_mem_irq_handler hw m =
     (case READ_ONCE hw (status_addr GEN11_GUC GUC2HOST_BIT) m of (v, m1) \<Rightarrow>
        if v = 0xff
        then (WRITE_ONCE hw (status_addr GEN11_GUC GUC2HOST_BIT) 0 m1)
               \<lparr>irq_events := irq_events m1 @ [Guc_irq]\<rparr>
        else m1)"

text \<open>One unit: its source is cleared before its status is read.\<close>

definition memirq_source ::
    "(nat \<Rightarrow> irq_write list) \<Rightarrow> nat \<Rightarrow> (vf_memirq \<Rightarrow> vf_memirq) \<Rightarrow> vf_memirq \<Rightarrow> vf_memirq" where
  "memirq_source hw off handler m =
     (case READ_ONCE hw (source_addr off) m of (v, m1) \<Rightarrow>
        if v = 0xff then handler (WRITE_ONCE hw (source_addr off) 0 m1) else m1)"

text \<open>\<open>engines\<close> are the interrupt offsets of the engines of the GT.\<close>

definition intel_iov_memirq_handler :: "(nat \<Rightarrow> irq_write list) \<Rightarrow> nat list \<Rightarrow> vf_memirq \<Rightarrow> vf_memirq" where
  "intel_iov_memirq_handler hw engines m =
     (if irq_page m = None then m
      else memirq_source hw GEN11_GUC (guc_mem_irq_handler hw)
             (fold (\<lambda>off. memirq_source hw off (engine_mem_irq_handler hw off)) engines m))"

section \<open>No interrupt is lost\<close>

text \<open>The status bit that the handler of a unit looks at, and the event it signals.\<close>

definition unit_bit :: "nat \<Rightarrow> nat" where
  "unit_bit off = (if off = GEN11_GUC then GUC2HOST_BIT else RENDER_USER_BIT)"

definition unit_event :: "nat \<Rightarrow> irq_event" where
  "unit_event off = (if off = GEN11_GUC then Guc_irq else Engine_irq off)"

text \<open>A unit whose status is set has its source set, or the hardware is about to set it.\<close>

definition noticed :: "nat \<Rightarrow> vf_memirq \<Rightarrow> bool" where
  "noticed off m \<longleftrightarrow> (peek (status_addr off (unit_bit off)) m = 0xff \<longrightarrow>
     peek (source_addr off) m = 0xff \<or> off \<in> irq_due m)"

definition raised :: "nat \<Rightarrow> vf_memirq \<Rightarrow> bool" where
  "raised off m \<longleftrightarrow> peek (source_addr off) m = 0xff \<and> peek (status_addr off (unit_bit off)) m = 0xff"

text \<open>What the hardware can do to a unit, and to the rest.\<close>

definition hw_change :: "vf_memirq \<Rightarrow> vf_memirq \<Rightarrow> bool" where
  "hw_change m m' \<longleftrightarrow> (irq_page m = None \<longleftrightarrow> irq_page m' = None) \<and> irq_events m' = irq_events m \<and>
     (\<forall>a. peek a m = 0xff \<longrightarrow> peek a m' = 0xff) \<and> (\<forall>off < 64. noticed off m \<longrightarrow> noticed off m')"

lemma unit_bit_less [simp]: "unit_bit off < 16" by (simp add: unit_bit_def)

lemma status_addr_eq: "b < 16 \<Longrightarrow> b' < 16 \<Longrightarrow> off * 16 + b = off' * 16 + b' \<longleftrightarrow> off = off' \<and> b = (b' :: nat)"
proof
  assume b: "b < 16" "b' < 16" and e: "off * 16 + b = off' * 16 + b'"
  have "off = (off * 16 + b) div 16" "off' = (off' * 16 + b') div 16" using b by simp_all
  with e show "off = off' \<and> b = b'" by simp
qed simp

lemma unit_addr [simp]:
  "b < 16 \<Longrightarrow> off * 16 + unit_bit off = off' * 16 + b \<longleftrightarrow> off = off' \<and> unit_bit off = b"
  "b < 16 \<Longrightarrow> off' * 16 + b = off * 16 + unit_bit off \<longleftrightarrow> off = off' \<and> unit_bit off = b"
  using status_addr_eq [of "unit_bit off" b off off'] status_addr_eq [of b "unit_bit off" off' off] by auto

lemma source_not_status [simp]:
  "off < 64 \<Longrightarrow> off * 16 + unit_bit off \<noteq> 1024 + y" "off < 64 \<Longrightarrow> 1024 + y \<noteq> off * 16 + unit_bit off"
  using unit_bit_less [of off] by linarith+

lemma peek_poke [simp]: "peek a (poke b v m) = (if a = b \<and> irq_page m \<noteq> None then v else peek a m)"
  by (simp add: peek_def poke_def split: option.split)

lemma poke_fields [simp]:
  "irq_page (poke a v m) = None \<longleftrightarrow> irq_page m = None" "irq_events (poke a v m) = irq_events m"
  "irq_due (poke a v m) = irq_due m" "irq_points (poke a v m) = irq_points m"
  by (simp_all add: poke_def)

lemma peek_upd [simp]: "peek a (m\<lparr>irq_due := D\<rparr>) = peek a m" "peek a (m\<lparr>irq_points := n\<rparr>) = peek a m"
  "peek a (m\<lparr>irq_events := e\<rparr>) = peek a m"
  by (simp_all add: peek_def)

lemma peek_no_page: "irq_page m = None \<Longrightarrow> peek a m = 0"
  by (simp add: peek_def)

lemma hw_change_refl [simp]: "hw_change m m" by (simp add: hw_change_def)

lemma hw_change_trans: "hw_change a b \<Longrightarrow> hw_change b c \<Longrightarrow> hw_change a c"
  by (simp add: hw_change_def)

lemma irq_raise_change: "hw_change m (irq_raise w m)"
  by (cases w) (auto simp: hw_change_def noticed_def peek_no_page)

lemma irq_point_change: "hw_change m (irq_point hw m)"
proof -
  have "hw_change x (fold irq_raise ws x)" for ws x
    by (induction ws arbitrary: x) (auto intro: hw_change_trans irq_raise_change)
  moreover have "hw_change m (m\<lparr>irq_points := Suc (irq_points m)\<rparr>)" by (simp add: hw_change_def noticed_def)
  ultimately show ?thesis unfolding irq_point_def by (blast intro: hw_change_trans)
qed

lemma hw_changeD:
  assumes "hw_change m m'"
  shows "irq_page m = None \<longleftrightarrow> irq_page m' = None" "irq_events m' = irq_events m"
    "peek a m = 0xff \<Longrightarrow> peek a m' = 0xff" "off < 64 \<Longrightarrow> noticed off m \<Longrightarrow> noticed off m'"
    "off < 64 \<Longrightarrow> raised off m \<Longrightarrow> raised off m'"
  using assms by (auto simp: hw_change_def raised_def)

text \<open>The two handlers are one handler of a unit.\<close>

definition unit_handler :: "(nat \<Rightarrow> irq_write list) \<Rightarrow> nat \<Rightarrow> vf_memirq \<Rightarrow> vf_memirq" where
  "unit_handler hw off m =
     (case READ_ONCE hw (status_addr off (unit_bit off)) m of (v, m1) \<Rightarrow>
        if v = 0xff
        then (WRITE_ONCE hw (status_addr off (unit_bit off)) 0 m1)\<lparr>irq_events := irq_events m1 @ [unit_event off]\<rparr>
        else m1)"

lemma unit_values:
  "off \<noteq> GEN11_GUC \<Longrightarrow> unit_bit off = RENDER_USER_BIT" "unit_bit GEN11_GUC = GUC2HOST_BIT"
  "off \<noteq> GEN11_GUC \<Longrightarrow> unit_event off = Engine_irq off" "unit_event GEN11_GUC = Guc_irq"
  by (simp_all add: unit_bit_def unit_event_def)

lemma handlers_unit:
  "off \<noteq> GEN11_GUC \<Longrightarrow> engine_mem_irq_handler hw off = unit_handler hw off"
  "guc_mem_irq_handler hw = unit_handler hw GEN11_GUC"
proof -
  show "guc_mem_irq_handler hw = unit_handler hw GEN11_GUC"
    unfolding guc_mem_irq_handler_def unit_handler_def fun_eq_iff unit_values by (intro allI refl)
  assume off: "off \<noteq> GEN11_GUC"
  show "engine_mem_irq_handler hw off = unit_handler hw off"
    unfolding engine_mem_irq_handler_def unit_handler_def fun_eq_iff unit_values(1,3) [OF off] by (intro allI refl)
qed

text \<open>What one run over a unit promises for this unit and keeps for the others.\<close>

definition unit_served :: "nat \<Rightarrow> vf_memirq \<Rightarrow> vf_memirq \<Rightarrow> bool" where
  "unit_served off m m' \<longleftrightarrow> (irq_page m' = None \<longleftrightarrow> irq_page m = None) \<and>
     set (irq_events m) \<subseteq> set (irq_events m') \<and>
     (\<forall>o' < 64. noticed o' m \<longrightarrow> noticed o' m') \<and>
     (\<forall>o' < 64. o' \<noteq> off \<longrightarrow> raised o' m \<longrightarrow> raised o' m') \<and>
     (irq_page m \<noteq> None \<longrightarrow> raised off m \<longrightarrow> unit_event off \<in> set (irq_events m'))"

text \<open>After the source is cleared, the unit itself need not be noticed until its status is read.\<close>

lemma unit_handler_serves:
  assumes "off < 64" "irq_page m \<noteq> None"
  shows "unit_handler hw off m = m' \<Longrightarrow>
    irq_page m' \<noteq> None \<and> set (irq_events m) \<subseteq> set (irq_events m') \<and> noticed off m' \<and>
    (\<forall>o' < 64. o' \<noteq> off \<longrightarrow> (noticed o' m \<longrightarrow> noticed o' m') \<and> (raised o' m \<longrightarrow> raised o' m')) \<and>
    (peek (status_addr off (unit_bit off)) m = 0xff \<longrightarrow> unit_event off \<in> set (irq_events m'))"
proof -
  assume m': "unit_handler hw off m = m'"
  let ?a = "status_addr off (unit_bit off)"
  define m1 where "m1 = irq_point hw m"
  have c1: "hw_change m m1" unfolding m1_def by (rule irq_point_change)
  have p1: "irq_page m1 \<noteq> None" using hw_changeD(1) [OF c1] assms(2) by blast
  show ?thesis
  proof (cases "peek ?a m1 = 0xff")
    case True
    define m2 where "m2 = irq_point hw m1"
    have c2: "hw_change m1 m2" unfolding m2_def by (rule irq_point_change)
    note d = hw_changeD [OF hw_change_trans [OF c1 c2]]
    have e: "m' = (poke ?a 0 m2)\<lparr>irq_events := irq_events m1 @ [unit_event off]\<rparr>"
      using True m' by (simp add: unit_handler_def READ_ONCE_def WRITE_ONCE_def Let_def m1_def [symmetric] m2_def [symmetric])
    have "noticed off m'" using assms p1 hw_changeD(1) [OF c2] by (simp add: e noticed_def)
    moreover have "(noticed o' m \<longrightarrow> noticed o' m') \<and> (raised o' m \<longrightarrow> raised o' m')" if "o' < 64" "o' \<noteq> off" for o'
      using d(4,5) [OF that(1)] that assms(1) by (auto simp: e noticed_def raised_def)
    ultimately show ?thesis using d(1) assms(2) hw_changeD(2) [OF c1] by (auto simp: e)
  next
    case False
    then have e: "m' = m1"
      using m' by (simp add: unit_handler_def READ_ONCE_def Let_def m1_def [symmetric])
    note d = hw_changeD [OF c1]
    have "noticed off m'" using False by (simp add: e noticed_def)
    moreover have "peek ?a m \<noteq> 0xff" using False d(3) by blast
    ultimately show ?thesis using d p1 by (auto simp: e)
  qed
qed

lemma memirq_source_serves:
  assumes "off < 64"
  shows "unit_served off m (memirq_source hw off (unit_handler hw off) m)"
proof -
  let ?a = "source_addr off" and ?m' = "memirq_source hw off (unit_handler hw off) m"
  define m1 where "m1 = irq_point hw m"
  have c1: "hw_change m m1" unfolding m1_def by (rule irq_point_change)
  show ?thesis
  proof (cases "peek ?a m1 = 0xff")
    case True
    define m2 where "m2 = irq_point hw m1"
    have c2: "hw_change m1 m2" unfolding m2_def by (rule irq_point_change)
    note d = hw_changeD [OF hw_change_trans [OF c1 c2]]
    define m3 where "m3 = poke ?a 0 m2"
    have e: "?m' = unit_handler hw off m3"
      using True by (simp add: memirq_source_def READ_ONCE_def WRITE_ONCE_def Let_def m1_def [symmetric] m2_def [symmetric] m3_def)
    have p: "irq_page m3 \<noteq> None" using True peek_no_page [of m1 ?a] hw_changeD(1) [OF c2] by (auto simp: m3_def)
    note u = unit_handler_serves [OF assms p e [symmetric]]
    have o': "(noticed o' m \<longrightarrow> noticed o' m3) \<and> (raised o' m \<longrightarrow> raised o' m3)" if "o' < 64" "o' \<noteq> off" for o'
      using d(4,5) [OF that(1)] that by (auto simp: m3_def noticed_def raised_def)
    have "raised off m \<longrightarrow> peek (status_addr off (unit_bit off)) m3 = 0xff"
      using d(5) [OF assms] assms by (auto simp: m3_def raised_def)
    then show ?thesis
      using u o' p d(1,2) unfolding unit_served_def by (auto simp: m3_def)
  next
    case False
    then have e: "?m' = m1" by (simp add: memirq_source_def READ_ONCE_def Let_def m1_def [symmetric])
    note d = hw_changeD [OF c1]
    have "\<not> raised off m" using False d(3) by (auto simp: raised_def)
    then show ?thesis using d by (auto simp: e unit_served_def)
  qed
qed

lemma engine_offsets:
  "distinct engine_irq_offsets" "off \<in> set engine_irq_offsets \<Longrightarrow> off < 64 \<and> off \<noteq> GEN11_GUC"
  by (auto simp: engine_irq_offsets_def upt_rec)

text \<open>The promises of the units of a run, one after the other.\<close>

lemma units_served:
  "distinct offs \<Longrightarrow> \<forall>off \<in> set offs. off < 64 \<Longrightarrow> irq_page m \<noteq> None \<Longrightarrow>
   m' = fold (\<lambda>off. memirq_source hw off (unit_handler hw off)) offs m \<Longrightarrow>
   irq_page m' \<noteq> None \<and> set (irq_events m) \<subseteq> set (irq_events m') \<and>
     (\<forall>off < 64. noticed off m \<longrightarrow> noticed off m') \<and>
     (\<forall>off \<in> set offs. raised off m \<longrightarrow> unit_event off \<in> set (irq_events m'))"
proof (induction offs arbitrary: m)
  case (Cons off offs)
  define m1 where "m1 = memirq_source hw off (unit_handler hw off) m"
  have s: "unit_served off m m1" unfolding m1_def by (rule memirq_source_serves) (use Cons.prems in simp)
  have p: "irq_page m1 \<noteq> None" using s Cons.prems(3) by (simp add: unit_served_def)
  have m': "m' = fold (\<lambda>off. memirq_source hw off (unit_handler hw off)) offs m1"
    using Cons.prems(4) by (simp add: m1_def)
  have "raised o' m1" if "o' \<in> set offs" "raised o' m" for o'
    using s Cons.prems(1,2) that unfolding unit_served_def by auto
  then show ?case
    using Cons.IH [OF _ _ p m'] s Cons.prems(1-3) unfolding unit_served_def by auto
qed simp

text \<open>
  Property C39. No interrupt of a unit gets lost, whatever the hardware writes between the accesses
  of the handler, as long as it writes the status before the source: a run of the handler signals
  every engine and the GuC whose status and source were set at its start, and afterwards every unit
  whose status is set again has its source set too, or the hardware is about to set it, so that the
  next run signals it.
\<close>

theorem memirq_not_lost:
  assumes "distinct engines" "set engines \<subseteq> set engine_irq_offsets" "irq_page m \<noteq> None"
    and "\<forall>off < 64. noticed off m" "m' = intel_iov_memirq_handler hw engines m"
  shows "(\<forall>off \<in> set engines \<union> {GEN11_GUC}. raised off m \<longrightarrow> unit_event off \<in> set (irq_events m')) \<and>
    (\<forall>off < 64. noticed off m')"
proof -
  have off: "off < 64 \<and> off \<noteq> GEN11_GUC" if "off \<in> set engines" for off
    using engine_offsets(2) assms(2) that by blast
  have "fold (\<lambda>off. memirq_source hw off (engine_mem_irq_handler hw off)) engines m =
      fold (\<lambda>off. memirq_source hw off (unit_handler hw off)) engines m"
    by (rule fold_cong) (simp_all add: handlers_unit(1) off)
  then have "m' = fold (\<lambda>off. memirq_source hw off (unit_handler hw off)) (engines @ [GEN11_GUC]) m"
    using assms(3) unfolding assms(5) intel_iov_memirq_handler_def handlers_unit(2) by auto
  moreover have "distinct (engines @ [GEN11_GUC])" "\<forall>off \<in> set (engines @ [GEN11_GUC]). off < 64"
    using assms(1) off by auto
  ultimately show ?thesis using units_served [of "engines @ [GEN11_GUC]" m m' hw] assms(3,4) by auto
qed

text \<open>The render engine has raised an interrupt, and raises another one after its source is cleared.\<close>

definition irq_demo :: vf_memirq where
  "irq_demo = \<lparr>irq_obj = True, irq_obj_refs = 1, irq_vma = Some 0x10000,
     irq_page = Some ((\<lambda>_. 0)(status_addr 0 0 := 0xff, source_addr 0 := 0xff)),
     irq_events = [], irq_due = {}, irq_points = 0\<rparr>"

definition irq_demo_hw :: "nat \<Rightarrow> irq_write list" where
  "irq_demo_hw n = (if n = 3 then [Raise_status 0 0, Raise_source 0] else [])"

theorem memirq_not_lost_witness:
  "Engine_irq 0 \<in> set (irq_events (intel_iov_memirq_handler irq_demo_hw [0, 15] irq_demo)) \<and>
   noticed 0 (intel_iov_memirq_handler irq_demo_hw [0, 15] irq_demo)"
proof -
  have "off * 16 + unit_bit off \<noteq> 1024" if "off < 64" for off using source_not_status(1) [OF that, of 0] by simp
  then have "\<forall>off < 64. noticed off irq_demo" by (auto simp: noticed_def irq_demo_def peek_def)
  moreover have "raised 0 irq_demo" "unit_event 0 = Engine_irq 0"
    by (simp_all add: raised_def irq_demo_def peek_def unit_bit_def unit_event_def)
  ultimately show ?thesis
    using memirq_not_lost [OF _ _ _ _ refl, of "[0, 15]" irq_demo irq_demo_hw]
    by (simp add: engine_irq_offsets_def irq_demo_def)
qed

end
