(* ===== verification/Iov_Driver.thy ===== *)
theory Iov_Driver
  imports Iov_Runtime Iov_Memirq
begin

text \<open>
  The phases of the driver (\<open>gt/iov/intel_iov.c\<close>) as the core calls them for a GT: early
  initialisation, MMIO, the GGTT, the hardware, and their undoing, on a native driver, on a PF and
  on a VF. The operations of the PF and of the VF are those of the other theories; this one adds
  how a VF keeps its GGTT to its own region (\<open>i915_ggtt_balloon\<close>).
\<close>

section \<open>Data\<close>

text \<open>
  The VF driver: the data of the queries, the buffer of PTE updates, the page for interrupts, the
  nodes of the allocator of its GGTT, the two balloons, the space they reserve, and what it shares
  with a PF.
\<close>

record vf_driver =
  vd_iov :: intel_iov_vf
  vd_ptes :: intel_iov_vf_ggtt_ptes
  vd_memirq :: vf_memirq
  vd_nodes :: "drm_mm_node list"
  vd_balloon_0 :: "drm_mm_node option"
  vd_balloon_1 :: "drm_mm_node option"
  vd_reserved :: u64
  vd_dev :: i915_state

datatype (plugins only: code) iov_driver = Drv_native | Drv_pf intel_iov | Drv_vf vf_driver

text \<open>
  \<open>de_reserve\<close> is \<open>drm_mm_reserve_node\<close>, \<open>de_evict\<close> is \<open>i915_gem_evict_for_node\<close>, and
  \<open>de_guc_submission\<close> tells whether the GuC submits the work.
\<close>

record driver_env =
  de_pf :: service_env
  de_query :: query_env
  de_memirq :: memirq_env
  de_gt :: intel_gt_type
  de_guc_submission :: bool
  de_reserve :: "drm_mm_node list \<Rightarrow> drm_mm_node \<Rightarrow> unit res"
  de_evict :: "drm_mm_node list \<Rightarrow> drm_mm_node \<Rightarrow> unit res \<times> drm_mm_node list"

definition pf_on_state :: "(pf_state \<Rightarrow> pf_state) \<Rightarrow> intel_iov \<Rightarrow> intel_iov" where
  "pf_on_state f v = v\<lparr>iov_state := f (iov_state v)\<rparr>"

definition pf_on_dev :: "(i915_state \<Rightarrow> i915_state) \<Rightarrow> intel_iov \<Rightarrow> intel_iov" where
  "pf_on_dev f = pf_on_state (\<lambda>s. s\<lparr>dev := f (dev s)\<rparr>)"

text \<open>An operation of the queries on the VF driver.\<close>

definition on_vf_iov ::
    "(intel_iov_vf \<Rightarrow> ('a \<times> intel_iov_vf) option) \<Rightarrow> vf_driver \<Rightarrow> ('a \<times> vf_driver) option" where
  "on_vf_iov f d = map_option (\<lambda>(r, w). (r, d\<lparr>vd_iov := w\<rparr>)) (f (vd_iov d))"

section \<open>Early initialisation\<close>

definition intel_iov_relay_init_early :: "intel_iov_relay \<Rightarrow> intel_iov_relay" where
  "intel_iov_relay_init_early r = r\<lparr>pending_relays := []\<rparr>"

text \<open>The configurations are freed; a configuration that is not there is the zero one.\<close>

definition intel_iov_provisioning_release :: "intel_gt_type \<Rightarrow> i915_state \<Rightarrow> i915_state" where
  "intel_iov_provisioning_release g s = upd_prov g (\<lambda>p. p\<lparr>configs := (\<lambda>_. zero_config)\<rparr>) s"

text \<open>The buffer of a VF only has a mutex to initialise and to destroy.\<close>

definition intel_iov_init_early :: "driver_env \<Rightarrow> iov_driver \<Rightarrow> iov_driver" where
  "intel_iov_init_early E drv =
     (case drv of
        Drv_native \<Rightarrow> Drv_native
      | Drv_pf v \<Rightarrow>
          (let v = pf_on_dev (intel_iov_provisioning_init_early (svc_iov (de_pf E)) (de_gt E)) v;
               v = intel_iov_service_init_early (de_pf E) v;
               v = pf_on_state (intel_iov_state_init_early (svc_iov (de_pf E)) (de_gt E)) v
           in Drv_pf (v\<lparr>iov_relay := intel_iov_relay_init_early (iov_relay v)\<rparr>))
      | Drv_vf d \<Rightarrow>
          Drv_vf (d\<lparr>vd_iov := (vd_iov d)\<lparr>vf_relay := intel_iov_relay_init_early (vf_relay (vd_iov d))\<rparr>\<rparr>))"

definition intel_iov_release :: "driver_env \<Rightarrow> iov_driver \<Rightarrow> iov_driver" where
  "intel_iov_release E drv =
     (case drv of
        Drv_pf v \<Rightarrow>
          (let v = pf_on_state (intel_iov_state_release (de_gt E)) v;
               v = intel_iov_service_release v
           in Drv_pf (pf_on_dev (intel_iov_provisioning_release (de_gt E)) v))
      | _ \<Rightarrow> drv)"

section \<open>MMIO and initialisation\<close>

definition vf_init_mmio :: "query_env \<Rightarrow> intel_iov_vf \<Rightarrow> (unit res \<times> intel_iov_vf) option" where
  "vf_init_mmio E w =
     (case intel_iov_query_bootstrap E w of
        None \<Rightarrow> None
      | Some (Inl e, w1) \<Rightarrow> Some (Inl e, w1)
      | Some (Inr _, w1) \<Rightarrow>
          (case intel_iov_query_config E w1 of
             None \<Rightarrow> None
           | Some (Inl e, w2) \<Rightarrow> Some (Inl e, w2)
           | Some (Inr _, w2) \<Rightarrow> intel_iov_query_runtime E True w2))"

definition on_vf :: "(vf_driver \<Rightarrow> (unit res \<times> vf_driver) option) \<Rightarrow> iov_driver \<Rightarrow> (unit res \<times> iov_driver) option" where
  "on_vf f drv =
     (case drv of
        Drv_vf d \<Rightarrow> map_option (\<lambda>(r, d1). (r, Drv_vf d1)) (f d)
      | _ \<Rightarrow> Some (Inr (), drv))"

definition intel_iov_init_mmio :: "driver_env \<Rightarrow> iov_driver \<Rightarrow> (unit res \<times> iov_driver) option" where
  "intel_iov_init_mmio E = on_vf (on_vf_iov (vf_init_mmio (de_query E)))"

definition vf_tweak_guc_submission :: "driver_env \<Rightarrow> vf_driver \<Rightarrow> unit res \<times> vf_driver" where
  "vf_tweak_guc_submission E d =
     (case intel_guc_submission_limit_ids (de_gt E) (ucast (vf_num_ctxs (vf_config (vd_iov d)))) (vd_dev d) of
        (r, s) \<Rightarrow> (r, d\<lparr>vd_dev := s\<rparr>))"

definition vf_init :: "driver_env \<Rightarrow> vf_driver \<Rightarrow> (unit res \<times> vf_driver) option" where
  "vf_init E d =
     (case on_vf_iov (intel_iov_query_bootstrap (de_query E)) d of
        None \<Rightarrow> None
      | Some (Inl e, d1) \<Rightarrow> Some (Inl e, d1)
      | Some (Inr _, d1) \<Rightarrow>
          (let d2 = snd (vf_tweak_guc_submission E d1)
           in case intel_iov_memirq_init (de_memirq E) (vd_memirq d2) of
                (r, m) \<Rightarrow> Some (r, d2\<lparr>vd_memirq := m\<rparr>)))"

definition intel_iov_init :: "driver_env \<Rightarrow> iov_driver \<Rightarrow> (unit res \<times> iov_driver) option" where
  "intel_iov_init E drv =
     (case drv of
        Drv_native \<Rightarrow> Some (Inr (), drv)
      | Drv_pf v \<Rightarrow> Some (Inr (), Drv_pf (pf_on_dev (intel_iov_provisioning_init (de_gt E)) v))
      | Drv_vf d \<Rightarrow> on_vf (vf_init E) drv)"

definition intel_iov_fini :: "driver_env \<Rightarrow> iov_driver \<Rightarrow> iov_driver" where
  "intel_iov_fini E drv =
     (case drv of
        Drv_native \<Rightarrow> drv
      | Drv_pf v \<Rightarrow> Drv_pf (pf_on_dev (intel_iov_provisioning_fini (svc_iov (de_pf E)) (de_gt E)) v)
      | Drv_vf d \<Rightarrow> Drv_vf (d\<lparr>vd_memirq := intel_iov_memirq_fini (de_memirq E) (vd_memirq d)\<rparr>))"

section \<open>The GGTT of a VF\<close>

text \<open>
  \<open>i915_gem_gtt_reserve\<close> on the list of nodes: the allocator takes the node, or, unless eviction is
  forbidden (\<open>PIN_NOEVICT\<close>), the nodes in the way are evicted first.
\<close>

definition i915_gem_gtt_reserve ::
    "driver_env \<Rightarrow> bool \<Rightarrow> drm_mm_node \<Rightarrow> drm_mm_node list \<Rightarrow> unit res \<times> drm_mm_node list" where
  "i915_gem_gtt_reserve E noevict node nodes =
     (case de_reserve E nodes node of
        Inr u \<Rightarrow> (Inr (), node # nodes)
      | Inl e \<Rightarrow>
          if e \<noteq> ENOSPC then (Inl e, nodes)
          else if noevict then (Inl ENOSPC, nodes)
          else case de_evict E nodes node of
            (Inl e, nodes1) \<Rightarrow> (Inl e, nodes1)
          | (Inr u, nodes1) \<Rightarrow>
              (case de_reserve E nodes1 node of
                 Inl e \<Rightarrow> (Inl e, nodes1) | Inr u \<Rightarrow> (Inr (), node # nodes1)))"

definition i915_ggtt_balloon ::
    "driver_env \<Rightarrow> u64 \<Rightarrow> u64 \<Rightarrow> vf_driver \<Rightarrow> drm_mm_node option \<times> unit res \<times> vf_driver" where
  "i915_ggtt_balloon E start en d =
     (let node = \<lparr>node_start = start, node_size = en - start\<rparr>
      in case i915_gem_gtt_reserve E True node (vd_nodes d) of
           (Inl e, nodes) \<Rightarrow> (None, Inl e, d\<lparr>vd_nodes := nodes\<rparr>)
         | (Inr u, nodes) \<Rightarrow>
             (Some node, Inr (), d\<lparr>vd_nodes := nodes, vd_reserved := vd_reserved d + node_size node\<rparr>))"

definition i915_ggtt_deballoon :: "drm_mm_node option \<Rightarrow> vf_driver \<Rightarrow> vf_driver" where
  "i915_ggtt_deballoon node d =
     (case node of
        None \<Rightarrow> d
      | Some n \<Rightarrow> d\<lparr>vd_nodes := remove1 n (vd_nodes d), vd_reserved := vd_reserved d - node_size n\<rparr>)"

definition vf_balloon_ggtt :: "driver_env \<Rightarrow> vf_driver \<Rightarrow> unit res \<times> vf_driver" where
  "vf_balloon_ggtt E d =
     (let base = ggtt_base (vf_config (vd_iov d)); sz = ggtt_size (vf_config (vd_iov d))
      in case i915_ggtt_balloon E 0 base d of
           (b0, Inl e, d1) \<Rightarrow> (Inl e, d1\<lparr>vd_balloon_0 := b0\<rparr>)
         | (b0, Inr u, d1) \<Rightarrow>
             (case i915_ggtt_balloon E (base + sz) GUC_GGTT_TOP (d1\<lparr>vd_balloon_0 := b0\<rparr>) of
                (b1, r, d2) \<Rightarrow> (r, d2\<lparr>vd_balloon_1 := b1\<rparr>)))"

definition vf_deballoon_ggtt :: "vf_driver \<Rightarrow> vf_driver" where
  "vf_deballoon_ggtt d =
     (let d1 = (i915_ggtt_deballoon (vd_balloon_1 d) d)\<lparr>vd_balloon_1 := None\<rparr>
      in (i915_ggtt_deballoon (vd_balloon_0 d1) d1)\<lparr>vd_balloon_0 := None\<rparr>)"

definition intel_iov_init_ggtt :: "driver_env \<Rightarrow> iov_driver \<Rightarrow> unit res \<times> iov_driver" where
  "intel_iov_init_ggtt E drv =
     (case drv of
        Drv_native \<Rightarrow> (Inr (), drv)
      | Drv_pf v \<Rightarrow>
          if env_require_binder (svc_iov (de_pf E)) \<and> de_gt E \<noteq> GT_MEDIA
          then (case upd_dev (intel_iov_ggtt_shadow_init (svc_iov (de_pf E)) (de_gt E)) v of
                  (r, v1) \<Rightarrow> (r, Drv_pf v1))
          else (Inr (), drv)
      | Drv_vf d \<Rightarrow> (case vf_balloon_ggtt E d of (r, d1) \<Rightarrow> (r, Drv_vf d1)))"

definition intel_iov_fini_ggtt :: "driver_env \<Rightarrow> iov_driver \<Rightarrow> iov_driver" where
  "intel_iov_fini_ggtt E drv =
     (case drv of
        Drv_native \<Rightarrow> drv
      | Drv_pf v \<Rightarrow> Drv_pf (pf_on_dev (intel_iov_ggtt_shadow_fini (de_gt E)) v)
      | Drv_vf d \<Rightarrow> Drv_vf (vf_deballoon_ggtt d))"

section \<open>The hardware\<close>

text \<open>The register that lets the VFs update their GGTT touches no state modelled here.\<close>

definition intel_iov_init_hw :: "driver_env \<Rightarrow> iov_driver \<Rightarrow> (unit res \<times> iov_driver) option" where
  "intel_iov_init_hw E drv =
     (case drv of
        Drv_native \<Rightarrow> Some (Inr (), drv)
      | Drv_pf v \<Rightarrow>
          (let v = intel_iov_service_update (de_pf E) v;
               v = pf_on_dev (intel_iov_provisioning_restart (de_gt E)) v
           in Some (Inr (), Drv_pf (pf_on_state (intel_iov_state_reset (de_gt E)) v)))
      | Drv_vf d \<Rightarrow>
          map_option (\<lambda>(r, d1). (case r of Inl e \<Rightarrow> Inl EIO | Inr u \<Rightarrow> Inr (), Drv_vf d1))
            (on_vf_iov (intel_iov_query_runtime (de_query E) False) d))"

definition intel_iov_fini_hw :: "iov_driver \<Rightarrow> iov_driver" where
  "intel_iov_fini_hw drv =
     (case drv of
        Drv_native \<Rightarrow> drv
      | Drv_pf v \<Rightarrow> Drv_pf (intel_iov_service_reset v)
      | Drv_vf d \<Rightarrow> Drv_vf (d\<lparr>vd_iov := intel_iov_query_fini (vd_iov d)\<rparr>))"

definition intel_iov_init_late :: "driver_env \<Rightarrow> iov_driver \<Rightarrow> unit res \<times> iov_driver" where
  "intel_iov_init_late E drv =
     (case drv of
        Drv_native \<Rightarrow> (Inr (), drv)
      | Drv_pf v \<Rightarrow>
          (Inr (), if \<not> de_guc_submission E then Drv_pf (pf_on_state (pf_update_status EIO) v) else drv)
      | Drv_vf d \<Rightarrow> (if \<not> de_guc_submission E then Inl EIO else Inr (), drv))"

section \<open>What a VF knows after it talked to the GuC\<close>

text \<open>A configuration that the rest of the driver can use.\<close>

definition vf_config_ok :: "intel_iov_vf_config \<Rightarrow> bool" where
  "vf_config_ok c \<longleftrightarrow> abi_major (guc_abi c) \<le> 1 \<and> ggtt_size c \<noteq> 0 \<and> vf_num_ctxs c \<noteq> 0"

text \<open>A query over MMIO changes nothing but the log of MMIO.\<close>

definition same_but_mmio :: "intel_iov_vf \<Rightarrow> intel_iov_vf \<Rightarrow> bool" where
  "same_but_mmio w w' \<longleftrightarrow> (\<exists>m. w' = w\<lparr>vf_mmio := m\<rparr>)"

lemma on_mmio_same: "on_mmio f w = Some (r, w') \<Longrightarrow> same_but_mmio w w'"
  by (auto simp: on_mmio_def same_but_mmio_def)

lemma same_but_mmioD:
  "same_but_mmio w w' \<Longrightarrow> vf_config w' = vf_config w \<and> vf_regs w' = vf_regs w \<and> vf_regs_size w' = vf_regs_size w"
  by (auto simp: same_but_mmio_def)

lemma query_frames:
  "guc_action_vf_reset E w = Some (r1, w') \<Longrightarrow> same_but_mmio w w'"
  "guc_action_match_version E b ma mi w = Some (r2, w') \<Longrightarrow> same_but_mmio w w'"
  "guc_action_query_single_klv E k n w = Some (r3, w') \<Longrightarrow> same_but_mmio w w'"
  "guc_action_query_single_klv32 E k w = Some (r4, w') \<Longrightarrow> same_but_mmio w w'"
  "guc_action_query_single_klv64 E k w = Some (r5, w') \<Longrightarrow> same_but_mmio w w'"
  "guc_send_mmio_relay E req n w = Some (r6, w') \<Longrightarrow> same_but_mmio w w'"
  "vf_handshake_with_pf_mmio E w = Some (r7, w') \<Longrightarrow> same_but_mmio w w'"
proof -
  show klv: "guc_action_query_single_klv E k n w = Some (r3, w') \<Longrightarrow> same_but_mmio w w'" for k n r3
    by (auto simp: guc_action_query_single_klv_def Let_def split: option.splits sum.splits dest: on_mmio_same)
  show relay: "guc_send_mmio_relay E req n w = Some (r6, w') \<Longrightarrow> same_but_mmio w w'" for req n r6
    by (auto simp: guc_send_mmio_relay_def Let_def split: option.splits sum.splits dest: on_mmio_same)
  show "guc_action_vf_reset E w = Some (r1, w') \<Longrightarrow> same_but_mmio w w'"
    by (auto simp: guc_action_vf_reset_def split: option.splits sum.splits dest: on_mmio_same)
  show "guc_action_match_version E b ma mi w = Some (r2, w') \<Longrightarrow> same_but_mmio w w'"
    by (auto simp: guc_action_match_version_def split: option.splits sum.splits dest: on_mmio_same)
  show "guc_action_query_single_klv32 E k w = Some (r4, w') \<Longrightarrow> same_but_mmio w w'"
    "guc_action_query_single_klv64 E k w = Some (r5, w') \<Longrightarrow> same_but_mmio w w'"
    by (auto simp: guc_action_query_single_klv32_def guc_action_query_single_klv64_def dest: klv)
  show "vf_handshake_with_pf_mmio E w = Some (r7, w') \<Longrightarrow> same_but_mmio w w'"
    by (auto simp: vf_handshake_with_pf_mmio_def Let_def split: option.splits sum.splits dest: relay)
qed

lemma bootstrap_abi:
  assumes "intel_iov_query_bootstrap E w = Some (Inr (), w')"
  shows "abi_major (guc_abi (vf_config w')) \<le> 1"
proof -
  have small: "(ucast major :: u8) \<le> 1" if "\<not> major > (1 :: u32)" for major
  proof -
    have "unat major \<le> 1" using that by (simp add: word_less_nat_alt not_less)
    then have "unat (ucast major :: u8) \<le> 1" using mod_less_eq_dividend [of "unat major" 256] by (simp add: unat_ucast)
    then show ?thesis by (simp add: word_le_nat_alt)
  qed
  from assms obtain w1 where "vf_handshake_with_guc E w1 = Some (Inr (), w')"
    by (auto simp: intel_iov_query_bootstrap_def split: option.splits sum.splits)
  then show ?thesis
    using small by (auto simp: vf_handshake_with_guc_def Let_def split: option.splits sum.splits prod.splits if_splits)
qed

lemma query_config_ok:
  assumes "intel_iov_query_config E w = Some (Inr (), w')"
  shows "guc_abi (vf_config w') = guc_abi (vf_config w) \<and> ggtt_size (vf_config w') \<noteq> 0 \<and> vf_num_ctxs (vf_config w') \<noteq> 0"
proof -
  from assms obtain w1 w2 where a: "vf_get_ipver E w = Some (Inr (), w1)" "vf_get_ggtt_info E w1 = Some (Inr (), w2)"
    "vf_get_submission_cfg E w2 = Some (Inr (), w')"
    by (auto simp: intel_iov_query_config_def split: option.splits sum.splits)
  have "vf_config w1 = vf_config w"
    using a(1) by (auto simp: vf_get_ipver_def split: option.splits sum.splits if_splits dest!: query_frames same_but_mmioD)
  moreover have "guc_abi (vf_config w2) = guc_abi (vf_config w1) \<and> ggtt_size (vf_config w2) \<noteq> 0"
    using a(2) by (auto simp: vf_get_ggtt_info_def split: option.splits sum.splits if_splits dest!: query_frames(5) same_but_mmioD)
  moreover have "guc_abi (vf_config w') = guc_abi (vf_config w2) \<and> ggtt_size (vf_config w') = ggtt_size (vf_config w2) \<and>
      vf_num_ctxs (vf_config w') \<noteq> 0"
    using a(3) by (auto simp: vf_get_submission_cfg_def split: option.splits sum.splits if_splits dest!: query_frames(4) same_but_mmioD)
  ultimately show ?thesis by simp
qed

text \<open>The registers: their offsets are those of the early registers, padded to whole chunks.\<close>

lemma map_fst_update: "map fst (xs[i := (fst (xs ! i), y)]) = map fst xs"
  by (simp add: map_update) (metis list_update_beyond list_update_id map_update not_le nth_map)

lemma map_fst_fold_update:
  "map fst (fold (\<lambda>k rs. rs[f k := (fst (rs ! f k), g k)]) ks xs) = map fst xs"
  by (induction ks arbitrary: xs) (simp_all add: map_fst_update)

lemma runtime_mmio_loop_frame:
  "runtime_mmio_loop E n i w = Some (r, w') \<Longrightarrow>
     vf_config w' = vf_config w \<and> map fst (vf_regs w') = map fst (vf_regs w) \<and> vf_regs_size w' = vf_regs_size w"
proof (induction n arbitrary: i w)
  case (Suc n)
  then show ?case
    by (fastforce simp: Let_def map_fst_fold_update split: option.splits sum.splits
        dest: query_frames(6) same_but_mmioD)
qed simp

lemma fold_offsets:
  "n \<le> length regs \<Longrightarrow> length regs \<le> length xs \<Longrightarrow>
   length (fold (\<lambda>i rs. rs[i := (regs ! i, snd (rs ! i))]) [0..<n] xs) = length xs \<and>
   (\<forall>j < n. fst (fold (\<lambda>i rs. rs[i := (regs ! i, snd (rs ! i))]) [0..<n] xs ! j) = regs ! j)"
  by (induction n) (auto simp: nth_list_update less_Suc_eq)

lemma early_runtime:
  assumes "vf_get_runtime_info_mmio E w = Some (Inr (), w')" "get_early_regs E = Inr regs"
  shows "vf_config w' = vf_config w \<and> take (length regs) (map fst (vf_regs w')) = regs \<and>
    vf_regs_size w' = length regs \<and> length (vf_regs w') = (length regs + 2) div 3 * 3"
proof -
  have ne: "length regs \<noteq> 0"
    using assms(2) by (auto simp: get_early_regs_def tgl_early_regs_def mtl_early_regs_def split: vf_platform.splits)
  let ?up = "(length regs + 2) div 3 * 3"
  have up: "length regs \<le> ?up" by presburger
  let ?xs = "take ?up (vf_regs w @ replicate (?up - length (vf_regs w)) (0, 0))"
  define w1 where "w1 = w\<lparr>vf_allocs := Suc (vf_allocs w), vf_regs := ?xs, vf_regs_size := length regs\<rparr>"
  let ?rs = "fold (\<lambda>i rs. rs[i := (regs ! i, snd (rs ! i))]) [0..<length regs] ?xs"
  have "query_alloc E (vf_allocs w)"
    using assms ne by (auto simp: vf_get_runtime_info_mmio_def vf_prepare_runtime_info_def Let_def split: if_splits)
  then have "runtime_mmio_loop E (?up div 3) 0 (w1\<lparr>vf_regs := ?rs\<rparr>) = Some (Inr (), w')"
    using assms ne
    by (auto simp: vf_get_runtime_info_mmio_def vf_prepare_runtime_info_def Let_def w1_def split: option.splits sum.splits)
  from runtime_mmio_loop_frame [OF this]
  have f: "vf_config w' = vf_config w" "map fst (vf_regs w') = map fst ?rs" "vf_regs_size w' = length regs"
    by (simp_all add: w1_def)
  have l: "length ?xs = ?up" by simp
  have rs: "length ?rs = ?up" "\<forall>j < length regs. fst (?rs ! j) = regs ! j"
    using fold_offsets [of "length regs" regs ?xs] up unfolding l by blast+
  have "take (length regs) (map fst ?rs) = regs"
    by (rule nth_equalityI) (use rs up in auto)
  moreover have "length (vf_regs w') = ?up" using arg_cong [OF f(2), of length] rs(1) by simp
  ultimately show ?thesis using f by simp
qed

text \<open>
  Property C37. A VF whose MMIO phase succeeds has a configuration it can use: the interface version
  of the GuC is one it knows, it has GGTT space and contexts, and its table of runtime registers
  has the registers that its platform needs, in whole chunks.
\<close>

theorem init_mmio_well_formed:
  assumes "intel_iov_init_mmio E (Drv_vf d) = Some (Inr (), Drv_vf d')" "get_early_regs (de_query E) = Inr regs"
  shows "vf_config_ok (vf_config (vd_iov d')) \<and> take (length regs) (map fst (vf_regs (vd_iov d'))) = regs \<and>
    vf_regs_size (vd_iov d') = length regs \<and> length (vf_regs (vd_iov d')) mod 3 = 0"
proof -
  have "vf_init_mmio (de_query E) (vd_iov d) = Some (Inr (), vd_iov d')"
    using assms(1) by (auto simp: intel_iov_init_mmio_def on_vf_def on_vf_iov_def)
  then obtain w1 w2 where w: "intel_iov_query_bootstrap (de_query E) (vd_iov d) = Some (Inr (), w1)"
    "intel_iov_query_config (de_query E) w1 = Some (Inr (), w2)"
    "intel_iov_query_runtime (de_query E) True w2 = Some (Inr (), vd_iov d')"
    by (auto simp: vf_init_mmio_def split: option.splits sum.splits)
  from w(3) obtain w3 where w3: "vf_handshake_with_pf_mmio (de_query E) w2 = Some (Inr (), w3)"
    "vf_get_runtime_info_mmio (de_query E) w3 = Some (Inr (), vd_iov d')"
    by (auto simp: intel_iov_query_runtime_def split: option.splits sum.splits)
  have "vf_config w3 = vf_config w2" using w3(1) by (auto dest!: query_frames(7) same_but_mmioD)
  then show ?thesis
    using bootstrap_abi [OF w(1)] query_config_ok [OF w(2)] early_runtime [OF w3(2) assms(2)]
    by (simp add: vf_config_ok_def)
qed

section \<open>Balloons\<close>

text \<open>The allocator only takes a node that overlaps no other (\<open>drm_mm_reserve_node\<close>).\<close>

definition mm_reserve_ok :: "driver_env \<Rightarrow> bool" where
  "mm_reserve_ok E \<longleftrightarrow>
     (\<forall>nodes node. de_reserve E nodes node = Inr () \<longrightarrow> (\<forall>n \<in> set nodes. node_range node \<inter> node_range n = {}))"

lemma ggtt_balloon_cases:
  assumes "i915_ggtt_balloon E start en d = (b, r, d')"
  shows "case r of
      Inl e \<Rightarrow> b = None \<and> d' = d
    | Inr u \<Rightarrow> b = Some \<lparr>node_start = start, node_size = en - start\<rparr> \<and>
        de_reserve E (vd_nodes d) \<lparr>node_start = start, node_size = en - start\<rparr> = Inr () \<and>
        d' = d\<lparr>vd_nodes := \<lparr>node_start = start, node_size = en - start\<rparr> # vd_nodes d,
               vd_reserved := vd_reserved d + (en - start)\<rparr>"
  using assms
  by (auto simp: i915_ggtt_balloon_def i915_gem_gtt_reserve_def Let_def split: sum.splits if_splits)

text \<open>
  Property C38. After a VF has ballooned its GGTT, every node of its GGTT other than the two balloons,
  and every node that the allocator adds to them below the top of the GuC's address space, lies
  inside the region that the PF gave the VF; and undoing the balloons gives back exactly the nodes
  and the reserved space of before.
\<close>

theorem vf_balloon_confines:
  assumes "vf_balloon_ggtt E d = (Inr (), d')" "mm_reserve_ok E"
    and "vd_balloon_0 d = None" "vd_balloon_1 d = None"
    and "base = unat (ggtt_base (vf_config (vd_iov d)))" "sz = unat (ggtt_size (vf_config (vd_iov d)))"
    and "base + sz < unat GUC_GGTT_TOP"
  shows "(\<forall>n. node_range n \<noteq> {} \<and> node_range n \<subseteq> {..< unat GUC_GGTT_TOP} \<and>
        (n \<in> set (vd_nodes d) \<or> (\<forall>m \<in> set (vd_nodes d'). node_range n \<inter> node_range m = {})) \<longrightarrow>
      node_range n \<subseteq> {base..<base + sz}) \<and>
    vf_deballoon_ggtt d' = d"
proof -
  let ?b = "ggtt_base (vf_config (vd_iov d))" and ?s = "ggtt_size (vf_config (vd_iov d))"
  let ?n0 = "\<lparr>node_start = 0, node_size = ?b\<rparr>" and ?n1 = "\<lparr>node_start = ?b + ?s, node_size = GUC_GGTT_TOP - (?b + ?s)\<rparr>"
  obtain d1 where d1: "i915_ggtt_balloon E 0 ?b d = (Some ?n0, Inr (), d1)"
    "de_reserve E (vd_nodes d) ?n0 = Inr ()"
    "d1 = d\<lparr>vd_nodes := ?n0 # vd_nodes d, vd_reserved := vd_reserved d + ?b\<rparr>"
    and d2: "\<exists>b1 d2. i915_ggtt_balloon E (?b + ?s) GUC_GGTT_TOP (d1\<lparr>vd_balloon_0 := Some ?n0\<rparr>) = (b1, Inr (), d2) \<and>
      d' = d2\<lparr>vd_balloon_1 := b1\<rparr>"
    using assms(1) ggtt_balloon_cases [of E 0 ?b d]
    by (auto simp: vf_balloon_ggtt_def Let_def split: prod.splits sum.splits)
  from d2 ggtt_balloon_cases [of E "?b + ?s" GUC_GGTT_TOP "d1\<lparr>vd_balloon_0 := Some ?n0\<rparr>"]
  have r1: "de_reserve E (?n0 # vd_nodes d) ?n1 = Inr ()"
    and d': "d' = d\<lparr>vd_nodes := ?n1 # ?n0 # vd_nodes d, vd_balloon_0 := Some ?n0, vd_balloon_1 := Some ?n1,
        vd_reserved := vd_reserved d + ?b + (GUC_GGTT_TOP - (?b + ?s))\<rparr>"
    by (fastforce simp: d1(3))+
  have "unat (?b + ?s) = base + sz" using assms(5-7) by (simp add: unat_word_ariths GUC_GGTT_TOP_def)
  moreover from this have "unat (GUC_GGTT_TOP - (?b + ?s)) = unat GUC_GGTT_TOP - (base + sz)"
    using assms(7) by (simp add: unat_sub word_le_nat_alt)
  ultimately have ranges: "node_range ?n0 = {..<base}" "node_range ?n1 = {base + sz..<unat GUC_GGTT_TOP}"
    using assms(5,7) by (auto simp: node_range_def)
  have apart: "node_range ?n0 \<inter> node_range n = {}" "node_range ?n1 \<inter> node_range n = {}" if "n \<in> set (vd_nodes d)" for n
    using assms(2) d1(2) r1 that unfolding mm_reserve_ok_def by (metis list.set_intros(2))+
  have "node_range n \<subseteq> {base..<base + sz}"
    if "node_range n \<subseteq> {..< unat GUC_GGTT_TOP}"
      "n \<in> set (vd_nodes d) \<or> (\<forall>m \<in> set (vd_nodes d'). node_range n \<inter> node_range m = {})" for n
  proof -
    have "node_range n \<inter> node_range ?n0 = {}" "node_range n \<inter> node_range ?n1 = {}"
      using that(2) apart [of n] by (auto simp: d')
    then show ?thesis using that(1) unfolding ranges by fastforce
  qed
  moreover have "vf_deballoon_ggtt d' = d"
    using assms(3,4) by (simp add: d' vf_deballoon_ggtt_def i915_ggtt_deballoon_def Let_def)
  ultimately show ?thesis by blast
qed

section \<open>A VF with four pages\<close>

text \<open>The answers of the GuC to the requests of the MMIO phase, one wait for each.\<close>

definition tgl_answers :: mmio_env where
  "tgl_answers =
     \<lparr>env_header = (\<lambda>n. 0xF0000000 + (if n = 2 \<or> n = 3 then 2 else if n = 4 \<or> n = 5 then 1
                        else if n = 6 then 0x0F000000 else 0)),
      env_reg = (\<lambda>n i. if i = 1 \<and> n = 2 then 0x00010100 else if i = 1 \<and> n = 3 then 0x1000000
                       else if i = 1 \<and> n = 4 then 0x4000 else if i = 1 \<and> n = 5 then 128
                       else if i = 1 \<and> n = 6 then 4 else if i = 1 \<and> n = 7 then 0x10000 else 0),
      env_is_vf = True, send_regs_count = 4\<rparr>"

definition tgl_mmio_env :: query_env where
  "tgl_mmio_env = tgl_vf_env\<lparr>query_mmio := tgl_answers\<rparr>"

text \<open>Each request is answered at once.\<close>

lemma tgl_send:
  "intel_guc_send_mmio tgl_answers req n m =
     (let m1 = m\<lparr>mmio_log := req # mmio_log m, mmio_waits := Suc (mmio_waits m)\<rparr>
      in Some (mmio_reply tgl_answers (env_header tgl_answers (mmio_waits m)) n m1, m1))"
proof -
  let ?h = "env_header tgl_answers (mmio_waits m)"
  have "?h \<in> {0xF0000000, 0xF0000001, 0xF0000002, 0xFF000000}" by (simp add: tgl_answers_def)
  then have "GUC_HXG_MSG_0_ORIGIN ?h = GUC_HXG_ORIGIN_GUC \<and> GUC_HXG_MSG_0_TYPE ?h = GUC_HXG_TYPE_RESPONSE_SUCCESS"
  proof -
    have "\<forall>h \<in> {0xF0000000, 0xF0000001, 0xF0000002, 0xFF000000 :: u32}.
        GUC_HXG_MSG_0_ORIGIN h = GUC_HXG_ORIGIN_GUC \<and> GUC_HXG_MSG_0_TYPE h = GUC_HXG_TYPE_RESPONSE_SUCCESS"
      by code_simp
    with \<open>?h \<in> _\<close> show ?thesis by blast
  qed
  then show ?thesis
    by (subst intel_guc_send_mmio.simps)
      (simp add: mmio_attempt_def mmio_wait_def mmio_write_request_def Let_def)
qed

lemma tgl_bootstrap:
  assumes "mmio_waits (vf_mmio w) = 0"
  shows "\<exists>w'. intel_iov_query_bootstrap tgl_mmio_env w = Some (Inr (), w') \<and> mmio_waits (vf_mmio w') = 2"
proof -
  have "GUC_HXG_MSG_0_AUX 0xF0000000 = 0" "FIELD_GET 8 16 0x00010100 = (1 :: u32)"
    "GUC_HXG_MSG_0_TYPE 0xF0000000 = GUC_HXG_TYPE_RESPONSE_SUCCESS" by code_simp+
  then show ?thesis
    using assms
    by (simp add: tgl_mmio_env_def intel_iov_query_bootstrap_def vf_reset_guc_state_def guc_action_vf_reset_def
        vf_handshake_with_guc_def guc_action_match_version_def on_mmio_def tgl_send Let_def mmio_reply_def)
      (simp add: tgl_answers_def upt_rec)
qed

text \<open>The answer to a query of one or two dwords.\<close>

lemma tgl_klv:
  assumes "n = mmio_waits (vf_mmio w)" "env_header tgl_answers n = 0xF0000000 + of_nat k" "k \<in> {1, 2}"
  shows "\<exists>m. mmio_waits m = Suc n \<and> guc_action_query_single_klv tgl_mmio_env key k w =
    Some (Inr (take k (map (env_reg tgl_answers (Suc n)) [1, 2, 3])), w\<lparr>vf_mmio := m\<rparr>)"
proof -
  have "\<forall>k \<in> {1, 2}. GUC_HXG_MSG_0_TYPE (0xF0000000 + of_nat k) = GUC_HXG_TYPE_RESPONSE_SUCCESS \<and>
      FIELD_GET 12 16 (0xF0000000 + of_nat k :: u32) = 0 \<and> unat (FIELD_GET 16 0 (0xF0000000 + of_nat k :: u32)) = k"
    by code_simp
  then have f: "GUC_HXG_MSG_0_TYPE (0xF0000000 + of_nat k) = GUC_HXG_TYPE_RESPONSE_SUCCESS"
    "FIELD_GET 12 16 (0xF0000000 + of_nat k :: u32) = 0" "unat (FIELD_GET 16 0 (0xF0000000 + of_nat k :: u32)) = k"
    using assms(3) by blast+
  have c: "min 4 (send_regs_count tgl_answers) = 4" "query_mmio tgl_mmio_env = tgl_answers"
    "[1..<4] = [1, 2, 3 :: nat]"
    by (simp_all add: tgl_answers_def tgl_mmio_env_def upt_rec)
  have "[Suc 0..<4] = [1, 2, 3 :: nat]" by (simp add: upt_rec)
  then show ?thesis
    using assms(3)
    by (intro exI [of _ "(vf_mmio w)\<lparr>mmio_log := single_klv_request key # mmio_log (vf_mmio w), mmio_waits := Suc n\<rparr>"])
      (auto simp: guc_action_query_single_klv_def on_mmio_def c tgl_send mmio_reply_def Let_def f
        assms(1) [symmetric] assms(2) simp del: upt_Suc)
qed

lemma tgl_klv32:
  assumes "n = mmio_waits (vf_mmio w)" "env_header tgl_answers n = 0xF0000001"
  shows "\<exists>m. mmio_waits m = Suc n \<and> guc_action_query_single_klv32 tgl_mmio_env key w =
    Some (Inr (env_reg tgl_answers (Suc n) 1), w\<lparr>vf_mmio := m\<rparr>)"
  using tgl_klv [OF assms(1), of 1 key] assms(2) by (auto simp: guc_action_query_single_klv32_def)

lemma tgl_klv64:
  assumes "n = mmio_waits (vf_mmio w)" "env_header tgl_answers n = 0xF0000002"
  shows "\<exists>m. mmio_waits m = Suc n \<and> guc_action_query_single_klv64 tgl_mmio_env key w =
    Some (Inr (make_u64 (env_reg tgl_answers (Suc n) 2) (env_reg tgl_answers (Suc n) 1)), w\<lparr>vf_mmio := m\<rparr>)"
  using tgl_klv [OF assms(1), of 2 key] assms(2) by (auto simp: guc_action_query_single_klv64_def)

lemma tgl_config:
  assumes "mmio_waits (vf_mmio w) = 2"
  shows "\<exists>w'. intel_iov_query_config tgl_mmio_env w = Some (Inr (), w') \<and> mmio_waits (vf_mmio w') = 6"
proof -
  have h: "env_header tgl_answers 2 = 0xF0000002" "env_header tgl_answers 3 = 0xF0000002"
    "env_header tgl_answers 4 = 0xF0000001" "env_header tgl_answers 5 = 0xF0000001"
    by (simp_all add: tgl_answers_def)
  have "make_u64 0 0x4000 \<noteq> 0" "(ucast (128 :: u32) :: u16) \<noteq> 0" by code_simp+
  then have v: "make_u64 (env_reg tgl_answers 4 2) (env_reg tgl_answers 4 1) \<noteq> 0" "(ucast (env_reg tgl_answers 5 1) :: u16) \<noteq> 0"
    by (simp_all add: tgl_answers_def)
  have "\<exists>w1. vf_get_ggtt_info tgl_mmio_env w = Some (Inr (), w1) \<and> mmio_waits (vf_mmio w1) = 4"
  proof -
    obtain m1 where m1: "mmio_waits m1 = 3" "guc_action_query_single_klv64 tgl_mmio_env QUERY_GGTT_START_KEY w =
        Some (Inr (make_u64 (env_reg tgl_answers 3 2) (env_reg tgl_answers 3 1)), w\<lparr>vf_mmio := m1\<rparr>)"
      using tgl_klv64 [of 2 w QUERY_GGTT_START_KEY] h assms by auto
    obtain m2 where "mmio_waits m2 = 4" "guc_action_query_single_klv64 tgl_mmio_env QUERY_GGTT_SIZE_KEY (w\<lparr>vf_mmio := m1\<rparr>) =
        Some (Inr (make_u64 (env_reg tgl_answers 4 2) (env_reg tgl_answers 4 1)), w\<lparr>vf_mmio := m2\<rparr>)"
      using tgl_klv64 [of 3 "w\<lparr>vf_mmio := m1\<rparr>" QUERY_GGTT_SIZE_KEY] h m1(1) by auto
    then show ?thesis using m1(2) v(1) by (simp add: vf_get_ggtt_info_def)
  qed
  moreover have "\<exists>w'. vf_get_submission_cfg tgl_mmio_env w1 = Some (Inr (), w') \<and> mmio_waits (vf_mmio w') = 6"
    if w1: "mmio_waits (vf_mmio w1) = 4" for w1
  proof -
    obtain m1 where m1: "mmio_waits m1 = 5" "guc_action_query_single_klv32 tgl_mmio_env QUERY_NUM_CONTEXTS_KEY w1 =
        Some (Inr (env_reg tgl_answers 5 1), w1\<lparr>vf_mmio := m1\<rparr>)"
      using tgl_klv32 [of 4 w1 QUERY_NUM_CONTEXTS_KEY] h w1 by auto
    obtain m2 where "mmio_waits m2 = 6" "guc_action_query_single_klv32 tgl_mmio_env QUERY_NUM_DOORBELLS_KEY (w1\<lparr>vf_mmio := m1\<rparr>) =
        Some (Inr (env_reg tgl_answers 6 1), w1\<lparr>vf_mmio := m2\<rparr>)"
      using tgl_klv32 [of 5 "w1\<lparr>vf_mmio := m1\<rparr>" QUERY_NUM_DOORBELLS_KEY] h m1(1) by auto
    then show ?thesis using m1(2) v(2) by (simp add: vf_get_submission_cfg_def)
  qed
  moreover have "vf_get_ipver tgl_mmio_env w = Some (Inr (), w)"
    by (simp add: vf_get_ipver_def tgl_mmio_env_def tgl_vf_env_def)
  ultimately show ?thesis by (auto simp: intel_iov_query_config_def)
qed

lemma tgl_runtime_loop:
  "mmio_waits (vf_mmio w) \<ge> 7 \<Longrightarrow> \<exists>w'. runtime_mmio_loop tgl_mmio_env n i w = Some (Inr (), w')"
proof (induction n arbitrary: i w)
  case (Suc n)
  have h: "env_header tgl_answers (mmio_waits (vf_mmio w)) = 0xF0000000"
    using Suc.prems by (simp add: tgl_answers_def)
  have f: "GUC_HXG_MSG_0_TYPE 0xF0000000 = GUC_HXG_TYPE_RESPONSE_SUCCESS" "FIELD_GET 4 24 (0xF0000000 :: u32) = 0"
    by code_simp+
  have "FIELD_GET 4 24 (mmio_relay_header IOV_OPCODE_VF2PF_MMIO_GET_RUNTIME 0 OR FIELD_PREP 4 24 0) = 0" by code_simp
  then show ?case
    using Suc.IH Suc.prems
    by (simp add: tgl_mmio_env_def tgl_vf_env_def guc_send_mmio_relay_def on_mmio_def tgl_send h f Let_def mmio_reply_def)
qed simp

lemma tgl_query_runtime:
  assumes "mmio_waits (vf_mmio w) = 6"
  shows "\<exists>w'. intel_iov_query_runtime tgl_mmio_env True w = Some (Inr (), w')"
proof -
  have h: "env_header tgl_answers 6 = 0xFF000000" by (simp add: tgl_answers_def)
  have f: "GUC_HXG_MSG_0_TYPE 0xFF000000 = GUC_HXG_TYPE_RESPONSE_SUCCESS" "FIELD_GET 4 24 (0xFF000000 :: u32) = 0xF"
    "FIELD_GET 4 24 (mmio_relay_header IOV_OPCODE_VF2PF_MMIO_HANDSHAKE 0xF) = 0xF"
    "iov_version_major 0x10000 = 1" "iov_version_minor 0x10000 = 0" by code_simp+
  have "\<exists>w1. vf_handshake_with_pf_mmio tgl_mmio_env w = Some (Inr (), w1) \<and> mmio_waits (vf_mmio w1) = 7"
    using assms
    by (simp add: tgl_mmio_env_def vf_handshake_with_pf_mmio_def guc_send_mmio_relay_def on_mmio_def tgl_send h f
        Let_def mmio_reply_def) (simp add: tgl_answers_def upt_rec f)
  moreover have "\<exists>w'. vf_get_runtime_info_mmio tgl_mmio_env w1 = Some (Inr (), w')" if w1: "mmio_waits (vf_mmio w1) = 7" for w1
  proof -
    have r: "get_early_regs tgl_mmio_env = Inr tgl_early_regs" "length tgl_early_regs = 8" "query_alloc tgl_mmio_env n" for n
      by (simp_all add: get_early_regs_def tgl_mmio_env_def tgl_vf_env_def tgl_early_regs_def)
    obtain w2 where w2: "vf_prepare_runtime_info tgl_mmio_env 8 3 w1 = (Inr 9, w2)" "vf_mmio w2 = vf_mmio w1"
      by (simp add: vf_prepare_runtime_info_def r(3) Let_def)
    let ?w = "w2\<lparr>vf_regs := fold (\<lambda>i rs. rs[i := (tgl_early_regs ! i, snd (rs ! i))]) [0..<8] (vf_regs w2)\<rparr>"
    obtain w' where "runtime_mmio_loop tgl_mmio_env 3 0 ?w = Some (Inr (), w')"
      using tgl_runtime_loop [of ?w 3 0] w2(2) w1 by auto
    then show ?thesis using w2(1) by (auto simp: vf_get_runtime_info_mmio_def r(1,2) simp del: runtime_mmio_loop.simps)
  qed
  ultimately show ?thesis by (auto simp: intel_iov_query_runtime_def)
qed

definition tgl_driver :: vf_driver where
  "tgl_driver = \<lparr>vd_iov = tgl_vf\<lparr>vf_mmio := \<lparr>mmio_log = [], mmio_waits = 0\<rparr>\<rparr>,
     vd_ptes = \<lparr>buf_ptes = [], buf_offset = 0, buf_num_copies = 0, buf_mode = 0\<rparr>,
     vd_memirq = irq_demo, vd_nodes = [\<lparr>node_start = 0x1001000, node_size = 0x1000\<rparr>], vd_balloon_0 = None,
     vd_balloon_1 = None, vd_reserved = 0, vd_dev = fresh_state\<rparr>"

definition tgl_driver_env :: driver_env where
  "tgl_driver_env =
     \<lparr>de_pf = svc_demo_env, de_query = tgl_mmio_env,
      de_memirq = \<lparr>mi_has_memirq = False, mi_create = Inr (), mi_pin_map = Inr (\<lambda>_. 0), mi_vma = Inr 0, mi_pin = Inr ()\<rparr>,
      de_gt = GT_PRIMARY, de_guc_submission = True,
      de_reserve = (\<lambda>nodes node. if \<forall>n \<in> set nodes. node_range node \<inter> node_range n = {} then Inr () else Inl ENOSPC),
      de_evict = (\<lambda>nodes node. (Inl ENOSPC, nodes))\<rparr>"

theorem init_mmio_well_formed_witness:
  "\<exists>d'. intel_iov_init_mmio tgl_driver_env (Drv_vf tgl_driver) = Some (Inr (), Drv_vf d') \<and>
     vf_config_ok (vf_config (vd_iov d')) \<and> vf_regs_size (vd_iov d') = 8"
proof -
  have w: "mmio_waits (vf_mmio (vd_iov tgl_driver)) = 0" by (simp add: tgl_driver_def)
  obtain w1 where w1: "intel_iov_query_bootstrap tgl_mmio_env (vd_iov tgl_driver) = Some (Inr (), w1)" "mmio_waits (vf_mmio w1) = 2"
    using tgl_bootstrap [OF w] by blast
  obtain w2 where w2: "intel_iov_query_config tgl_mmio_env w1 = Some (Inr (), w2)" "mmio_waits (vf_mmio w2) = 6"
    using tgl_config [OF w1(2)] by blast
  obtain w3 where w3: "intel_iov_query_runtime tgl_mmio_env True w2 = Some (Inr (), w3)"
    using tgl_query_runtime [OF w2(2)] by blast
  have q: "de_query tgl_driver_env = tgl_mmio_env" by (simp add: tgl_driver_env_def)
  let ?d = "tgl_driver\<lparr>vd_iov := w3\<rparr>"
  have i: "intel_iov_init_mmio tgl_driver_env (Drv_vf tgl_driver) = Some (Inr (), Drv_vf ?d)"
    using w1 w2 w3 by (simp add: intel_iov_init_mmio_def on_vf_def on_vf_iov_def vf_init_mmio_def q)
  have "get_early_regs (de_query tgl_driver_env) = Inr tgl_early_regs" "length tgl_early_regs = 8"
    by (simp_all add: q get_early_regs_def tgl_mmio_env_def tgl_vf_env_def tgl_early_regs_def)
  with init_mmio_well_formed [OF i] i show ?thesis by auto
qed

text \<open>The region of the VF has four pages at 16 MB, of which the second one is in use.\<close>

theorem vf_balloon_confines_witness:
  "\<exists>d'. vf_balloon_ggtt tgl_driver_env tgl_driver = (Inr (), d') \<and> vd_reserved d' = GUC_GGTT_TOP - 0x4000 \<and>
     vf_deballoon_ggtt d' = tgl_driver"
proof -
  have c: "ggtt_base (vf_config (vd_iov tgl_driver)) = 0x1000000" "ggtt_size (vf_config (vd_iov tgl_driver)) = 0x4000"
    "vd_balloon_0 tgl_driver = None" "vd_balloon_1 tgl_driver = None" "vd_reserved tgl_driver = 0"
    "vd_nodes tgl_driver = [\<lparr>node_start = 0x1001000, node_size = 0x1000\<rparr>]"
    by (simp_all add: tgl_driver_def tgl_vf_def)
  have "\<exists>d'. vf_balloon_ggtt tgl_driver_env tgl_driver = (Inr (), d') \<and> vd_reserved d' = GUC_GGTT_TOP - 0x4000"
    by (auto simp: vf_balloon_ggtt_def i915_ggtt_balloon_def i915_gem_gtt_reserve_def tgl_driver_env_def c
        node_range_def GUC_GGTT_TOP_def Let_def)
  then obtain d' where d': "vf_balloon_ggtt tgl_driver_env tgl_driver = (Inr (), d')" "vd_reserved d' = GUC_GGTT_TOP - 0x4000"
    by blast
  have "mm_reserve_ok tgl_driver_env" by (auto simp: mm_reserve_ok_def tgl_driver_env_def split: if_splits)
  from vf_balloon_confines [OF d'(1) this c(3,4) refl refl] d' show ?thesis
    by (simp add: c GUC_GGTT_TOP_def)
qed

end
