(* ===== verification/Iov_Events.thy ===== *)
theory Iov_Events
  imports Iov_Flr
begin

text \<open>
  Properties of the other operations on the state of a VF: which data a notification of the GuC
  can change, the protocol of pausing and resuming, and what the caller learns when the GuC fails
  to save or restore the state of a VF.
\<close>

section \<open>Notifications\<close>

lemma vf_data_put_other: "h \<noteq> g \<or> n \<noteq> vf \<Longrightarrow> vf_data h n (put_bit g vf b x s) = vf_data h n s"
  by (auto simp: put_bit_def vf_data_def upd_data_def split: option.split)

lemma vf_data_upd_other: "h \<noteq> g \<or> n \<noteq> vf \<Longrightarrow> vf_data h n (upd_data g vf f s) = vf_data h n s"
  by (auto simp: vf_data_def upd_data_def split: option.split)

lemma vf_data_init_other: "n \<noteq> vf \<Longrightarrow> vf_data h n (pf_init_vf_flr g vf s) = vf_data h n s"
  by (simp add: pf_init_vf_flr_def pf_queue_worker_def Let_def vf_data_put_other)

lemma vf_data_init_fold_other:
  "n \<noteq> vf \<Longrightarrow> vf_data h n (fold (\<lambda>g. pf_init_vf_flr g vf) gs s) = vf_data h n s"
  by (induction gs arbitrary: s) (simp_all add: vf_data_init_other)

lemma dev_init_fold: "dev (fold (\<lambda>g. pf_init_vf_flr g vf) gs s) = dev s"
  by (induction gs arbitrary: s) simp_all

lemma handle_vf_event_frame:
  assumes "pf_handle_vf_event g vf e s = (r, s')"
  shows "dev s' = dev s" "n \<noteq> vf \<Longrightarrow> vf_data h n s' = vf_data h n s"
    and "r \<noteq> Inr () \<Longrightarrow> s' = s" "r = Inr () \<longleftrightarrow> e \<in> {1, 2, 3}"
  using assms
  by (auto simp: pf_handle_vf_event_def pf_handle_vf_flr_def pf_handle_vf_flr_done_def
      pf_handle_vf_pause_done_def pf_queue_worker_def vf_data_put_other vf_data_upd_other
      vf_data_init_fold_other dev_init_fold split: if_splits)

text \<open>
  Property C20. A state notification of the GuC is accepted exactly when it is well formed: the
  driver is the PF, the reserved bits are zero, it has three dwords, names an existing function
  and an event the driver knows for it. Otherwise nothing changes; and an accepted one changes
  the data of no VF but the one it names, nor the device.
\<close>

theorem state_notify_confined:
  assumes "msg \<noteq> []" "intel_iov_state_process_guc2pf is_pf g msg s = (r, s')"
  shows "(r = Inr () \<longleftrightarrow> is_pf \<and> GUC_HXG_REQUEST_MSG_0_DATA0 (hd msg) = 0 \<and> length msg = 3 \<and>
      unat (msg ! 1) \<le> pf_get_totalvfs (dev s) \<and>
      msg ! 2 \<in> (if msg ! 1 = 0 then {1} else {1, 2, 3})) \<and>
    (r \<noteq> Inr () \<longrightarrow> s' = s) \<and> dev s' = dev s \<and>
    (\<forall>h n. n \<noteq> unat (msg ! 1) \<longrightarrow> vf_data h n s' = vf_data h n s)"
proof -
  have hd: "msg ! 0 = hd msg" using assms(1) by (cases msg) simp_all
  let ?ok = "is_pf \<and> GUC_HXG_REQUEST_MSG_0_DATA0 (hd msg) = 0 \<and> length msg = 3 \<and>
      unat (msg ! 1) \<le> pf_get_totalvfs (dev s)"
  consider (bad) "\<not> ?ok" | (vf) ?ok "msg ! 1 \<noteq> 0" | (pf) ?ok "msg ! 1 = 0" by blast
  then show ?thesis
  proof cases
    case bad
    then have "s' = s" "r \<noteq> Inr ()"
      using assms(2) by (auto simp: intel_iov_state_process_guc2pf_def hd Let_def split: if_splits)
    with bad show ?thesis by blast
  next
    case vf
    then have "unat (msg ! 1) \<noteq> 0" by (simp add: unat_eq_0)
    then have e: "pf_handle_vf_event g (unat (msg ! 1)) (msg ! 2) s = (r, s')"
      using assms(2) vf by (simp add: intel_iov_state_process_guc2pf_def hd Let_def)
    show ?thesis using handle_vf_event_frame [OF e] vf by simp
  next
    case pf
    then show ?thesis
      using assms(2) by (auto simp: intel_iov_state_process_guc2pf_def hd Let_def pf_handle_pf_event_def split: if_splits)
  qed
qed

theorem state_notify_confined_witness:
  "vf_data GT_PRIMARY 2 (snd (intel_iov_state_process_guc2pf True GT_PRIMARY [0, 1, 3] flr_notified)) =
     vf_data GT_PRIMARY 2 flr_notified"
proof -
  obtain r s' where e: "intel_iov_state_process_guc2pf True GT_PRIMARY [0, 1, 3] flr_notified = (r, s')"
    by force
  from state_notify_confined [OF _ e] have "vf_data GT_PRIMARY 2 s' = vf_data GT_PRIMARY 2 flr_notified" by simp
  with e show ?thesis by simp
qed

section \<open>Pausing and resuming\<close>

text \<open>
  Property C21. Pausing: a VF with a reset in progress, a pause in progress or already paused is
  refused with \<open>EBUSY\<close> and nothing is sent. Otherwise exactly the pause command is sent; if the
  GuC accepts it the pause is in progress, so that a second request is refused, until the GuC
  reports that it is done, which makes the VF paused; if it does not, no pause is in progress.
  Resuming a paused VF makes it ready for the next pause.
\<close>

theorem pause_vf_protocol:
  assumes "data_ready s" "intel_iov_state_pause_vf E g vf s = (r, s1)"
    and reply: "reply = control_result (env_guc E g (control_log g vf GUC_PF_TRIGGER_VF_PAUSE s))"
    and s2: "s2 = pf_handle_vf_pause_done g vf s1"
    and resume: "intel_iov_state_resume_vf E g vf s2 = (r3, s3)"
  shows "(\<not> (intel_iov_state_no_flr g vf s \<and> intel_iov_state_no_pause g vf s) \<longrightarrow>
      r = Inl EBUSY \<and> s1 = s) \<and>
    (intel_iov_state_no_flr g vf s \<and> intel_iov_state_no_pause g vf s \<longrightarrow>
      r = reply \<and> guc_log (gts (dev s1) g) = control_log g vf GUC_PF_TRIGGER_VF_PAUSE s \<and>
      (reply = Inr () \<longrightarrow>
        test_bit g vf IOV_VF_PAUSE_IN_PROGRESS s1 \<and>
        intel_iov_state_pause_vf E g vf s1 = (Inl EBUSY, s1) \<and>
        paused (vf_data g vf s2) \<and> \<not> test_bit g vf IOV_VF_PAUSE_IN_PROGRESS s2 \<and>
        intel_iov_state_pause_vf E g vf s2 = (Inl EBUSY, s2) \<and>
        (r3 = Inr () \<longrightarrow> intel_iov_state_no_pause g vf s3)) \<and>
      (reply \<noteq> Inr () \<longrightarrow> intel_iov_state_no_pause g vf s1))"
proof (cases "intel_iov_state_no_flr g vf s \<and> intel_iov_state_no_pause g vf s")
  case False
  then show ?thesis using assms(2) by (auto simp: intel_iov_state_pause_vf_def)
next
  case True
  let ?s = "set_bit g vf IOV_VF_PAUSE_IN_PROGRESS s"
  let ?d = "upd_gt g (\<lambda>t. t\<lparr>guc_log := control_log g vf GUC_PF_TRIGGER_VF_PAUSE s\<rparr>) (dev s)"
  have np: "\<not> test_bit g vf IOV_VF_PAUSE_IN_PROGRESS s" "\<not> paused (vf_data g vf s)"
    using True by (simp_all add: intel_iov_state_no_pause_def)
  have paused1: "paused (vf_data g vf (put_bit g vf b x s)) = paused (vf_data g vf s)" for b x s
    by (auto simp: put_bit_def vf_data_def upd_data_def split: option.split)
  have run: "(r, s1) = (reply, if reply = Inr () then ?s\<lparr>dev := ?d\<rparr>
      else clear_bit g vf IOV_VF_PAUSE_IN_PROGRESS (?s\<lparr>dev := ?d\<rparr>))"
    using assms(2) True np
    by (auto simp: intel_iov_state_pause_vf_def pf_control_vf_eq reply split: sum.splits)
  show ?thesis
  proof (cases "reply = Inr ()")
    case False
    then show ?thesis
      using run True np assms(1)
      by (simp add: intel_iov_state_no_pause_def paused1)
  next
    case ok: True
    have s1: "s1 = ?s\<lparr>dev := ?d\<rparr>" using run ok by simp
    have ready1: "data_ready s1" using assms(1) by (simp add: s1)
    have 2: "paused (vf_data g vf s2)" "\<not> test_bit g vf IOV_VF_PAUSE_IN_PROGRESS s2" "data_ready s2"
      using ready1 by (simp_all add: s2 pf_handle_vf_pause_done_def paused1 vf_data_upd)
    have "intel_iov_state_no_pause g vf s3" if "r3 = Inr ()"
      using resume 2 that
      by (auto simp: intel_iov_state_resume_vf_def pf_control_vf_eq intel_iov_state_no_pause_def
          vf_data_upd split: sum.splits)
    then show ?thesis
      using run True ok 2 assms(1)
      by (simp add: s1 intel_iov_state_pause_vf_def intel_iov_state_no_pause_def)
  qed
qed

theorem pause_vf_protocol_witness:
  "\<exists>s1. intel_iov_state_pause_vf ack_env GT_PRIMARY 1 flr_single = (Inr (), s1) \<and>
     intel_iov_state_pause_vf ack_env GT_PRIMARY 1 s1 = (Inl EBUSY, s1)"
proof -
  obtain r s1 where p: "intel_iov_state_pause_vf ack_env GT_PRIMARY 1 flr_single = (r, s1)" by force
  obtain r3 s3 where q: "intel_iov_state_resume_vf ack_env GT_PRIMARY 1
      (pf_handle_vf_pause_done GT_PRIMARY 1 s1) = (r3, s3)" by force
  have "data_ready flr_single" "intel_iov_state_no_flr GT_PRIMARY 1 flr_single"
      "intel_iov_state_no_pause GT_PRIMARY 1 flr_single"
    by (simp_all add: flr_single_def flr_state_def data_ready_def intel_iov_state_no_flr_def
        intel_iov_state_no_pause_def test_bit_def vf_data_def zero_data_def)
  with pause_vf_protocol [OF _ p refl refl q] p show ?thesis by simp
qed

section \<open>Errors of saving and restoring\<close>

text \<open>
  When the GuC fails to save or to restore the state of a VF, the caller learns only
  \<open>EPROTO\<close>, whatever the error was, since the result is compared with the size of the buffer as an
  unsigned number; the error of the query of the size, which has no buffer, is passed on.
\<close>

theorem save_restore_error_masked:
  assumes "env_vma E (allocs (dev s)) = Inr addr" "addr \<noteq> 0" "\<forall>h. env_guc E g h = Inl e"
    and "8 \<le> length buf" "length buf < 2 ^ 30"
  shows "fst (intel_iov_state_save_vf E written g vf buf s) = Inl EPROTO \<and>
    fst (intel_iov_state_restore_vf E g vf buf s) = Inl EPROTO \<and>
    fst (intel_iov_state_save_vf_size E g vf s) = Inl e"
proof -
  have addr: "(ucast addr :: u64) \<noteq> 0"
  proof
    assume "(ucast addr :: u64) = 0"
    then have "unat (ucast addr :: u64) = 0" by simp
    then have "unat addr mod 2 ^ 64 = 0" by (simp add: unat_ucast)
    moreover have "unat addr < 2 ^ 64" using unsigned_less [of addr, where 'a = nat] by simp
    ultimately have "unat addr = 0" by simp
    with assms(2) show False by (simp add: unat_eq_0)
  qed
  have len: "\<not> (of_nat (4 * length buf) :: u64) < 32"
  proof -
    have "unat (of_nat (4 * length buf) :: u64) = 4 * length buf"
      using assms(5) unat_of_nat [where 'a = 64, of "4 * length buf"] by (simp del: of_nat_mult)
    then show ?thesis using assms(4) by (simp add: word_less_nat_alt)
  qed
  show ?thesis
    using assms(1,3) addr len
    by (simp add: intel_iov_state_save_vf_def intel_iov_state_restore_vf_def pf_save_vf_def pf_restore_vf_def
        intel_iov_state_save_vf_size_def pf_save_vf_size_def intel_guc_allocate_and_map_vma_def
        guc_action_save_restore_vf_def intel_guc_send_def Let_def)
qed

theorem save_restore_error_masked_witness:
  "fst (intel_iov_state_save_vf refuse_env [] GT_MEDIA 1 (replicate 8 0) flr_notified) = Inl EPROTO"
  using save_restore_error_masked [where E = refuse_env and s = flr_notified and addr = "0x1000"
      and g = GT_MEDIA and e = EIO and buf = "replicate 8 0" and written = "[]"]
  by (simp add: refuse_env_def quiet_env_def)

end
