(* ===== verification/Pf_Guc_Ct.thy ===== *)
theory Pf_Guc_Ct
  imports Guc_Ct_Queue Iov_Flr Iov_Events
begin

text \<open>
  The transport and the PF together: the notifications of the GuC travel through the G2H ring, are
  taken off it by the receive tasklet, wait in the list of incoming requests, and reach the
  handlers of the PF when the worker runs. However the two are scheduled, the PF handles every
  notification once and in the order of the GuC.
\<close>

section \<open>The handlers of the PF\<close>

text \<open>The two cases of the switch in \<open>ct_process_request\<close> for notifications to the PF.\<close>

definition pf_ct_handlers :: "intel_gt_type \<Rightarrow> pf_state ct_handlers \<Rightarrow> pf_state ct_handlers" where
  "pf_ct_handlers g H =
     H\<lparr>on_vf_state_notify := intel_iov_state_process_guc2pf True g,
       on_adverse_event := intel_iov_event_process_guc2pf True g\<rparr>"

section \<open>Notices\<close>

text \<open>What the GuC tells the PF about a VF, and the message it queues for it.\<close>

datatype (plugins only: code) pf_notice =
    Vf_state u32 u32
  | Vf_threshold u32 u32

abbreviation (input) notice_header :: "u32 \<Rightarrow> u32" where
  "notice_header action \<equiv> hxg_request_msg GUC_HXG_ORIGIN_GUC GUC_HXG_TYPE_EVENT action 0"

fun notice_msg :: "pf_notice \<Rightarrow> u32 list" where
  "notice_msg (Vf_state vf e) = [ct_header 0 3, notice_header GUC_ACTION_GUC2PF_VF_STATE_NOTIFY, vf, e]"
| "notice_msg (Vf_threshold vf k) = [ct_header 0 3, notice_header GUC_ACTION_GUC2PF_ADVERSE_EVENT, vf, k]"

text \<open>What the notice means for the PF: nothing when the VF or the event does not exist.\<close>

fun notice_effect :: "intel_gt_type \<Rightarrow> pf_notice \<Rightarrow> pf_state \<Rightarrow> pf_state" where
  "notice_effect g (Vf_state vf e) s =
     (if vf = 0 \<or> unat vf > pf_get_totalvfs (dev s) then s
      else if e = GUC_PF_NOTIFY_VF_FLR then pf_handle_vf_flr g (unat vf) s
      else if e = GUC_PF_NOTIFY_VF_FLR_DONE then pf_handle_vf_flr_done g (unat vf) s
      else if e = GUC_PF_NOTIFY_VF_PAUSE_DONE then pf_handle_vf_pause_done g (unat vf) s
      else s)"
| "notice_effect g (Vf_threshold vf k) s =
     (if vf = 0 \<or> unat vf > pf_get_totalvfs (dev s) then s
      else case threshold_key_to_enum k of None \<Rightarrow> s | Some t \<Rightarrow> pf_update_event_counter g (unat vf) t s)"

lemma notice_framed: "ct_framed (notice_msg n)"
  by (cases n) (simp_all add: ct_framed_def hxg_simps unat_take_bit)

lemma notice_dispatch:
  "snd (ct_dispatch (pf_ct_handlers g H) (drop 1 (notice_msg n)) s) = notice_effect g n s"
proof (cases n)
  case (Vf_state vf e)
  then show ?thesis
    by (auto simp: ct_dispatch_def pf_ct_handlers_def hxg_simps Let_def take_bit_eq_mod unat_eq_0
        intel_iov_state_process_guc2pf_def pf_handle_vf_event_def)
next
  case (Vf_threshold vf k)
  then show ?thesis
    by (auto simp: ct_dispatch_def pf_ct_handlers_def hxg_simps Let_def take_bit_eq_mod unat_eq_0
        intel_iov_event_process_guc2pf_def pf_handle_vf_threshold_event_def split: option.split)
qed

text \<open>Receiving a notice puts it in the list of incoming requests.\<close>

lemma notice_received:
  "ct_handle_msg E (notice_msg n) c = c\<lparr>incoming := incoming c @ [notice_msg n], ct_worker := True\<rparr>"
  by (cases n) (simp_all add: ct_handle_msg_def ct_handle_hxg_def ct_handle_event_def hxg_simps
      take_bit_eq_mod Let_def)

section \<open>Schedules\<close>

text \<open>One run of the receive tasklet, or one request taken by the worker.\<close>

definition ct_turn :: "'h ct_env \<Rightarrow> bool \<Rightarrow> 'h intel_guc_ct \<Rightarrow> 'h intel_guc_ct" where
  "ct_turn E tasklet c =
     (if tasklet then ct_receive_tasklet_func E c else snd (ct_process_incoming_requests E c))"

text \<open>The first \<open>i\<close> notices are handled, the next ones up to \<open>j\<close> are received, the rest is queued.\<close>

definition pf_progress ::
    "intel_gt_type \<Rightarrow> pf_notice list \<Rightarrow> pf_state \<Rightarrow> nat \<Rightarrow> nat \<Rightarrow> pf_state intel_guc_ct \<Rightarrow> bool" where
  "pf_progress g ns s i j c \<longleftrightarrow> i \<le> j \<and> j \<le> length ns \<and> recv_ok c \<and> ct_enabled c \<and>
     hstate c = fold (notice_effect g) (take i ns) s \<and>
     incoming c = map notice_msg (take (j - i) (drop i ns)) \<and>
     recv_queue c = concat (map notice_msg (drop j ns))"

lemma tasklet_empty:
  assumes "recv_ok c" "recv_queue c = []"
  shows "ct_receive_tasklet_func E c = c\<lparr>receive_tasklet := False\<rparr>"
proof -
  have "recv_ok (c\<lparr>receive_tasklet := False\<rparr>)" "recv_queue (c\<lparr>receive_tasklet := False\<rparr>) = []"
    using assms by (simp_all add: recv_ok_def recv_ring_def)
  from ct_read_empty [OF this, of E] show ?thesis
    by (simp add: ct_receive_tasklet_func_def ct_try_receive_message_def ct_receive_def)
qed

lemma tasklet_progress:
  assumes "pf_progress g ns s i j c" "\<And>n. env_ct_alloc E n"
  shows "pf_progress g ns s i (min (Suc j) (length ns)) (ct_receive_tasklet_func E c)"
proof (cases "j < length ns")
  case True
  then have "recv_queue c = notice_msg (ns ! j) @ concat (map notice_msg (drop (Suc j) ns))"
    using assms(1) by (simp add: pf_progress_def Cons_nth_drop_Suc [symmetric])
  note st = ct_tasklet_step [OF _ _ this notice_framed assms(2)]
  have v: "ct_view (ct_receive_tasklet_func E c) = ct_view (c\<lparr>incoming := incoming c @ [notice_msg (ns ! j)], ct_worker := True\<rparr>)"
    using st(4) assms(1) by (simp add: pf_progress_def notice_received)
  have "take (Suc j - i) (drop i ns) = take (j - i) (drop i ns) @ [ns ! j]"
  proof -
    have "i \<le> j" using assms(1) by (simp add: pf_progress_def)
    then have "j - i < length (drop i ns)" "drop i ns ! (j - i) = ns ! j" "Suc j - i = Suc (j - i)"
      using True by (simp_all add: Suc_diff_le)
    then show ?thesis using take_Suc_conv_app_nth [of "j - i" "drop i ns"] by simp
  qed
  then show ?thesis
    using st(1-3) assms(1) True v by (simp add: pf_progress_def ct_view_def)
next
  case False
  then have e: "recv_ok c" "recv_queue c = []" "min (Suc j) (length ns) = j"
    using assms(1) by (auto simp: pf_progress_def)
  have "pf_progress g ns s i j (c\<lparr>receive_tasklet := False\<rparr>)"
    using assms(1) by (simp add: pf_progress_def recv_ok_def recv_ring_def)
  then show ?thesis by (simp only: e(3) tasklet_empty [OF e(1,2)])
qed

lemma process_progress:
  assumes "pf_progress g ns s i j c" "handlers E = pf_ct_handlers g H"
  shows "pf_progress g ns s (min (Suc i) j) j (snd (ct_process_incoming_requests E c))"
    "fst (ct_process_incoming_requests E c) = (j \<le> Suc i)"
proof -
  have "pf_progress g ns s (min (Suc i) j) j (snd (ct_process_incoming_requests E c)) \<and>
    fst (ct_process_incoming_requests E c) = (j \<le> Suc i)"
  proof (cases "i < j")
    case True
    then have i: "i < length ns" using assms(1) by (simp add: pf_progress_def)
    then have "drop i ns = ns ! i # drop (Suc i) ns" by (simp add: Cons_nth_drop_Suc)
    then have "take (j - i) (drop i ns) = ns ! i # take (j - Suc i) (drop (Suc i) ns)"
      using True by (simp add: take_Cons' Suc_diff_Suc [symmetric])
    then have inc: "incoming c = notice_msg (ns ! i) # map notice_msg (take (j - Suc i) (drop (Suc i) ns))"
      using assms(1) by (simp add: pf_progress_def)
    define c1 where "c1 = c\<lparr>incoming := map notice_msg (take (j - Suc i) (drop (Suc i) ns)),
        hstate := notice_effect g (ns ! i) (hstate c)\<rparr>"
    have "snd (ct_process_request E (notice_msg (ns ! i)) x) = x\<lparr>hstate := notice_effect g (ns ! i) (hstate x)\<rparr>" for x
      using notice_dispatch [of g H "ns ! i" "hstate x"] assms(2)
      by (auto simp: ct_process_request_def split: prod.split)
    then have p: "ct_process_incoming_requests E c =
        (map notice_msg (take (j - Suc i) (drop (Suc i) ns)) = [], c1)"
      by (simp add: ct_process_incoming_requests_def inc c1_def)
    have "take (j - Suc i) (drop (Suc i) ns) = [] \<longleftrightarrow> j \<le> Suc i"
      using assms(1) True by (auto simp: pf_progress_def)
    then have d: "fst (ct_process_incoming_requests E c) = (j \<le> Suc i)" by (simp add: p)
    have "pf_progress g ns s (Suc i) j c1"
      using assms(1) True i by (simp add: pf_progress_def c1_def take_Suc_conv_app_nth recv_ok_def recv_ring_def)
    then show ?thesis using d True by (simp add: p min_def)
  next
    case False
    then show ?thesis using assms(1) by (simp add: pf_progress_def ct_process_incoming_requests_def)
  qed
  then show "pf_progress g ns s (min (Suc i) j) j (snd (ct_process_incoming_requests E c))"
    "fst (ct_process_incoming_requests E c) = (j \<le> Suc i)" by auto
qed

lemma worker_progress:
  assumes "handlers E = pf_ct_handlers g H"
  shows "pf_progress g ns s i j c \<Longrightarrow> pf_progress g ns s j j (incoming_worker_loop E c)"
proof (induction "j - i" arbitrary: i c rule: less_induct)
  case less
  note p = process_progress [OF less.prems assms]
  obtain b c1 where c1: "ct_process_incoming_requests E c = (b, c1)" by force
  have ij: "i \<le> j" using less.prems by (simp add: pf_progress_def)
  show ?case
  proof (cases "j \<le> Suc i")
    case True
    then have "min (Suc i) j = j" by simp
    then show ?thesis using p c1 True by (subst incoming_worker_loop.simps) simp
  next
    case False
    then have "pf_progress g ns s (Suc i) j c1" using p(1) c1 by (simp add: min_def)
    then have "pf_progress g ns s j j (incoming_worker_loop E c1)"
      by (rule less.hyps [rotated]) (use False in simp)
    then show ?thesis using p(2) c1 False by (subst incoming_worker_loop.simps) simp
  qed
qed

lemma turns_progress:
  assumes "pf_progress g ns s i j c" "handlers E = pf_ct_handlers g H" "\<And>n. env_ct_alloc E n"
  shows "\<exists>k. pf_progress g ns s k (min (j + count_list bs True) (length ns)) (fold (ct_turn E) bs c)"
  using assms(1)
proof (induction bs arbitrary: i j c)
  case Nil
  then show ?case by (auto simp: pf_progress_def min_def)
next
  case (Cons b bs)
  show ?case
  proof (cases b)
    case True
    have "min (min (Suc j) (length ns) + n) (length ns) = min (Suc (j + n)) (length ns)" for n by simp
    then show ?thesis
      using Cons.IH [OF tasklet_progress [OF Cons.prems assms(3)]] True by (simp add: ct_turn_def)
  next
    case False
    then show ?thesis using Cons.IH [OF process_progress(1) [OF Cons.prems assms(2)]] by (simp add: ct_turn_def)
  qed
qed

text \<open>
  Property C35. The notices of the GuC reach the PF whatever the schedule: when the GuC has queued
  notices about VFs in the G2H ring, then after any sequence of runs of the receive tasklet and of
  turns of the worker the PF has handled the first ones of them, in order and each once, the next
  ones wait in the list of incoming requests, one received by each run of the tasklet, and the rest
  is still in the ring. Once the tasklet has run for each notice, one run of the worker leaves the
  PF in the state that all notices lead to, with nothing waiting.
\<close>

theorem pf_notices_delivered:
  assumes "recv_ok c" "ct_enabled c" "incoming c = []" "recv_queue c = concat (map notice_msg ns)"
    and "handlers E = pf_ct_handlers g H" "\<And>n. env_ct_alloc E n"
    and "c' = fold (ct_turn E) bs c" "j = min (count_list bs True) (length ns)"
  shows "(\<exists>i \<le> j. hstate c' = fold (notice_effect g) (take i ns) (hstate c) \<and>
      incoming c' = map notice_msg (take (j - i) (drop i ns)) \<and>
      recv_queue c' = concat (map notice_msg (drop j ns))) \<and>
    (length ns \<le> count_list bs True \<longrightarrow>
      hstate (ct_incoming_request_worker_func E c') = fold (notice_effect g) ns (hstate c) \<and>
      incoming (ct_incoming_request_worker_func E c') = [] \<and>
      recv_queue (ct_incoming_request_worker_func E c') = [])"
proof -
  have "pf_progress g ns (hstate c) 0 0 c" using assms(1-4) by (simp add: pf_progress_def)
  from turns_progress [OF this assms(5,6), of bs] obtain i where i: "pf_progress g ns (hstate c) i j c'"
    unfolding assms(7,8) by auto
  then have "pf_progress g ns (hstate c) i j (c'\<lparr>ct_worker := False\<rparr>)"
    by (simp add: pf_progress_def recv_ok_def recv_ring_def)
  from worker_progress [OF assms(5) this]
  have "pf_progress g ns (hstate c) j j (ct_incoming_request_worker_func E c')"
    by (simp add: ct_incoming_request_worker_func_def)
  then show ?thesis using i unfolding pf_progress_def assms(8) by (auto simp: min_def)
qed

text \<open>The GuC reports a reset of a VF that does not exist and then one of VF 1.\<close>

definition two_notices :: "pf_notice list" where
  "two_notices = [Vf_state 9 GUC_PF_NOTIFY_VF_FLR, Vf_state 1 GUC_PF_NOTIFY_VF_FLR]"

definition pf_ct :: "pf_state intel_guc_ct" where
  "pf_ct = upd_recv (\<lambda>b. b\<lparr>ctb_size := 16, ctb_head := 4, desc := (desc b)\<lparr>desc_tail := 12\<rparr>,
     cmds := [0, 0, 0, 0] @ concat (map notice_msg two_notices) @ [0, 0, 0, 0]\<rparr>) (ct_booted (flr_state (\<lambda>_. FLR_IDLE)))"

lemma pf_ct_ok:
  "recv_ok pf_ct" "ct_enabled pf_ct" "incoming pf_ct = []" "hstate pf_ct = flr_state (\<lambda>_. FLR_IDLE)"
  "recv_queue pf_ct = concat (map notice_msg two_notices)"
proof -
  have "ring_ok (cmds (ctb_recv pf_ct)) 16 4 12"
    unfolding ring_ok_def
    by (auto simp: pf_ct_def two_notices_def word_less_nat_alt intro!: exI [of _ "4 :: nat"])
  then show "recv_ok pf_ct"
    using ct_booted_ok(2) [of "flr_state (\<lambda>_. FLR_IDLE)"]
    by (simp add: recv_ok_def ring_good_def recv_ring_def pf_ct_def)
  show "ct_enabled pf_ct" "incoming pf_ct = []" "hstate pf_ct = flr_state (\<lambda>_. FLR_IDLE)"
    using ct_booted_fields by (simp_all add: pf_ct_def)
  have "[0..<8] = [0, 1, 2, 3, 4, 5, 6, 7 :: nat]" by code_simp
  then show "recv_queue pf_ct = concat (map notice_msg two_notices)"
    by (simp add: ring_queue_def recv_ring_def pf_ct_def two_notices_def ring_contents_def
        ring_slots_def ring_used_def)
qed

lemma pf_notices_delivered_witness:
  "let E = quiet_ct\<lparr>handlers := pf_ct_handlers GT_PRIMARY quiet_handlers\<rparr>;
       c = ct_incoming_request_worker_func E (fold (ct_turn E) [True, False, True] pf_ct)
   in hstate c = flr_notified \<and> incoming c = [] \<and> recv_queue c = []"
proof -
  define E where "E = quiet_ct\<lparr>handlers := pf_ct_handlers GT_PRIMARY quiet_handlers\<rparr>"
  have e: "handlers E = pf_ct_handlers GT_PRIMARY quiet_handlers" "env_ct_alloc E n" for n
    by (simp_all add: E_def quiet_ct_def)
  have "fold (notice_effect GT_PRIMARY) two_notices (flr_state (\<lambda>_. FLR_IDLE)) = flr_notified"
    by (simp add: two_notices_def flr_notified_def)
  then show ?thesis
    using pf_notices_delivered [OF pf_ct_ok(1-3,5) e refl refl, of "[True, False, True]", THEN conjunct2] pf_ct_ok(4)
    by (simp add: E_def [symmetric] two_notices_def)
qed

end
