(* ===== verification/Guc_Wopcm.thy ===== *)
theory Guc_Wopcm
  imports Iov_Prelude
begin

text \<open>
  The partition of the write-once protected memory (\<open>gt/intel_wopcm.c\<close>): the HuC firmware at the
  bottom, the GuC behind it, the hardware contexts at the top. The boundaries are computed in
  32 bits and checked against the restrictions of the hardware before they are used. The assertions
  (\<open>GEM_BUG_ON\<close>) are hypotheses where they matter.
\<close>

section \<open>Data\<close>

record intel_wopcm =
  wopcm_size :: u32
  guc_wopcm_base :: u32
  guc_wopcm_size :: u32

text \<open>The platform, the sizes of the firmwares (0 when there is none), and the registers.\<close>

record wopcm_env =
  wp_graphics_ver :: nat
  wp_gen9_lp :: bool
  wp_has_gt_uc :: bool
  wp_supports_huc :: bool
  wp_deprivilege :: bool
  wp_media_gt :: bool
  wp_inject_failure :: bool
  wp_guc_fw_size :: u32
  wp_huc_fw_size :: u32
  wp_reg_offset :: u32
  wp_reg_size :: u32
  wp_reg_shim_control2 :: u32

abbreviation (input) GEN11_WOPCM_SIZE :: u32 where "GEN11_WOPCM_SIZE \<equiv> 0x200000"
abbreviation (input) GEN9_WOPCM_SIZE :: u32 where "GEN9_WOPCM_SIZE \<equiv> 0x100000"
abbreviation (input) MAX_WOPCM_SIZE :: u32 where "MAX_WOPCM_SIZE \<equiv> 0x800000"
abbreviation (input) WOPCM_RESERVED_SIZE :: u32 where "WOPCM_RESERVED_SIZE \<equiv> 0x4000"
abbreviation (input) GUC_WOPCM_RESERVED :: u32 where "GUC_WOPCM_RESERVED \<equiv> 0x4000"
abbreviation (input) GUC_WOPCM_STACK_RESERVED :: u32 where "GUC_WOPCM_STACK_RESERVED \<equiv> 0x2000"
abbreviation (input) GUC_WOPCM_OFFSET_ALIGNMENT :: u32 where "GUC_WOPCM_OFFSET_ALIGNMENT \<equiv> 0x4000"
abbreviation (input) BXT_WOPCM_RC6_CTX_RESERVED :: u32 where "BXT_WOPCM_RC6_CTX_RESERVED \<equiv> 0x6000"
abbreviation (input) ICL_WOPCM_HW_CTX_RESERVED :: u32 where "ICL_WOPCM_HW_CTX_RESERVED \<equiv> 0x9000"
abbreviation (input) GEN9_GUC_WOPCM_OFFSET :: u32 where "GEN9_GUC_WOPCM_OFFSET \<equiv> 0x4000 + 0x20000"
abbreviation (input) GUC_WOPCM_OFFSET_VALID :: u32 where "GUC_WOPCM_OFFSET_VALID \<equiv> 1"
abbreviation (input) GUC_WOPCM_SIZE_LOCKED :: u32 where "GUC_WOPCM_SIZE_LOCKED \<equiv> 1"
abbreviation (input) GUC_WOPCM_OFFSET_MASK :: u32 where "GUC_WOPCM_OFFSET_MASK \<equiv> 0xFFFFC000"
abbreviation (input) GUC_WOPCM_SIZE_MASK :: u32 where "GUC_WOPCM_SIZE_MASK \<equiv> 0xFFFFF000"
abbreviation (input) GUC_IS_PRIVILEGED :: u32 where "GUC_IS_PRIVILEGED \<equiv> 0x20000000"

section \<open>The size and the checks\<close>

definition intel_wopcm_init_early :: "wopcm_env \<Rightarrow> intel_wopcm \<Rightarrow> intel_wopcm" where
  "intel_wopcm_init_early E w =
     (if \<not> wp_has_gt_uc E then w
      else w\<lparr>wopcm_size := if wp_graphics_ver E \<ge> 11 then GEN11_WOPCM_SIZE else GEN9_WOPCM_SIZE\<rparr>)"

definition context_reserved_size :: "wopcm_env \<Rightarrow> u32" where
  "context_reserved_size E =
     (if wp_gen9_lp E then BXT_WOPCM_RC6_CTX_RESERVED
      else if wp_graphics_ver E \<ge> 11 then ICL_WOPCM_HW_CTX_RESERVED
      else 0)"

definition gen9_check_dword_gap :: "u32 \<Rightarrow> u32 \<Rightarrow> bool" where
  "gen9_check_dword_gap base sz =
     (let offset = base + GEN9_GUC_WOPCM_OFFSET
      in if offset > sz \<or> sz - offset < 4 then False else True)"

definition gen9_check_huc_fw_fits :: "u32 \<Rightarrow> u32 \<Rightarrow> bool" where
  "gen9_check_huc_fw_fits sz huc_fw_size =
     (if huc_fw_size > sz - GUC_WOPCM_RESERVED then False else True)"

definition check_hw_restrictions :: "wopcm_env \<Rightarrow> u32 \<Rightarrow> u32 \<Rightarrow> u32 \<Rightarrow> bool" where
  "check_hw_restrictions E base sz huc_fw_size =
     (if wp_graphics_ver E = 9 \<and> \<not> gen9_check_dword_gap base sz then False
      else if wp_graphics_ver E = 9 \<and> \<not> gen9_check_huc_fw_fits sz huc_fw_size then False
      else True)"

definition wopcm_range_overflows :: "u32 \<Rightarrow> u32 \<Rightarrow> u32 \<Rightarrow> bool" where
  "wopcm_range_overflows start sz limit \<longleftrightarrow> start \<ge> limit \<or> sz > limit - start"

definition check_layout :: "wopcm_env \<Rightarrow> u32 \<Rightarrow> u32 \<Rightarrow> u32 \<Rightarrow> u32 \<Rightarrow> u32 \<Rightarrow> bool" where
  "check_layout E whole base sz guc_fw_size huc_fw_size =
     (if wopcm_range_overflows base sz (whole - context_reserved_size E) then False
      else if sz < guc_fw_size + GUC_WOPCM_RESERVED + GUC_WOPCM_STACK_RESERVED then False
      else if wp_supports_huc E \<and> base < huc_fw_size + WOPCM_RESERVED_SIZE then False
      else check_hw_restrictions E base sz huc_fw_size)"

section \<open>The partition\<close>

definition wopcm_regs_locked :: "wopcm_env \<Rightarrow> (u32 \<times> u32) option" where
  "wopcm_regs_locked E =
     (if wp_reg_size E AND GUC_WOPCM_SIZE_LOCKED = 0 \<or> wp_reg_offset E AND GUC_WOPCM_OFFSET_VALID = 0 then None
      else Some (wp_reg_offset E AND GUC_WOPCM_OFFSET_MASK, wp_reg_size E AND GUC_WOPCM_SIZE_MASK))"

definition wopcm_regs_writable :: "wopcm_env \<Rightarrow> bool" where
  "wopcm_regs_writable E =
     (if \<not> wp_deprivilege E then True else wp_reg_shim_control2 E AND GUC_IS_PRIVILEGED \<noteq> 0)"

text \<open>The boundaries that the driver computes when the registers are not locked yet.\<close>

definition wopcm_calculate :: "wopcm_env \<Rightarrow> u32 \<Rightarrow> u32 \<times> u32" where
  "wopcm_calculate E whole =
     (let ctx_rsvd = context_reserved_size E;
          base = ALIGN (wp_huc_fw_size E + WOPCM_RESERVED_SIZE) GUC_WOPCM_OFFSET_ALIGNMENT;
          base = min base (whole - ctx_rsvd);
          sz = whole - ctx_rsvd - base
      in (base, sz AND GUC_WOPCM_SIZE_MASK))"

definition intel_wopcm_init :: "wopcm_env \<Rightarrow> intel_wopcm \<Rightarrow> intel_wopcm" where
  "intel_wopcm_init E w =
     (let check = (\<lambda>whole (base, sz).
            if check_layout E whole base sz (wp_guc_fw_size E) (wp_huc_fw_size E)
            then w\<lparr>guc_wopcm_base := base, guc_wopcm_size := sz\<rparr> else w)
      in if wp_guc_fw_size E = 0 then w
         else if wp_inject_failure E then w
         else case wopcm_regs_locked E of
           Some layout \<Rightarrow> check (if \<not> wopcm_regs_writable E then MAX_WOPCM_SIZE else wopcm_size w) layout
         | None \<Rightarrow> if wp_media_gt E then w
                   else check (wopcm_size w) (wopcm_calculate E (wopcm_size w)))"

section \<open>Layouts that fit\<close>

text \<open>
  The picture in the source, in unbounded numbers: the HuC firmware with its reserved area below the
  GuC, the contexts above it, room in the GuC region for its firmware, reserved area and stack, and
  the two restrictions of Gen9. The base and the size are multiples of 16K and 4K.
\<close>

definition wopcm_fits :: "wopcm_env \<Rightarrow> nat \<Rightarrow> nat \<Rightarrow> nat \<Rightarrow> bool" where
  "wopcm_fits E whole base sz \<longleftrightarrow>
     2 ^ 14 dvd base \<and> 2 ^ 12 dvd sz \<and>
     unat (wp_huc_fw_size E) + 0x4000 \<le> base \<and>
     base + sz + unat (context_reserved_size E) \<le> whole \<and>
     unat (wp_guc_fw_size E) + 0x6000 \<le> sz \<and>
     (wp_graphics_ver E = 9 \<longrightarrow>
        base + 0x24000 + 4 \<le> sz \<and> unat (wp_huc_fw_size E) + 0x4000 \<le> sz)"

lemma context_reserved_bound: "unat (context_reserved_size E) \<le> 0x9000"
  by (simp add: context_reserved_size_def)

text \<open>The checks of the code in unbounded numbers, as long as no sum wraps.\<close>

lemma wopcm_range_overflows_iff:
  "\<not> wopcm_range_overflows b s m \<longleftrightarrow> unat b < unat m \<and> unat b + unat s \<le> unat m"
  by (auto simp: wopcm_range_overflows_def not_less word_le_nat_alt word_less_nat_alt unat_sub)

lemma check_layout_iff:
  assumes "unat g < 0x800000" "unat h < 0x800000" "0x100000 \<le> unat whole" "unat whole \<le> 0x800000"
  shows "check_layout E whole b s g h \<longleftrightarrow>
    unat b + unat s + unat (context_reserved_size E) \<le> unat whole \<and> unat g + 0x6000 \<le> unat s \<and>
    (wp_supports_huc E \<longrightarrow> unat h + 0x4000 \<le> unat b) \<and>
    (wp_graphics_ver E = 9 \<longrightarrow> unat b + 0x24000 + 4 \<le> unat s \<and> unat h + 0x4000 \<le> unat s)"
proof -
  let ?c = "context_reserved_size E"
  have c: "unat ?c \<le> unat whole" using assms(3) context_reserved_bound [of E] by linarith
  then have whole: "unat (whole - ?c) = unat whole - unat ?c" by (simp add: unat_sub word_le_nat_alt)
  have guc: "unat (g + GUC_WOPCM_RESERVED + GUC_WOPCM_STACK_RESERVED) = unat g + 0x6000"
    and huc: "unat (h + WOPCM_RESERVED_SIZE) = unat h + 0x4000"
    using assms(1,2) by (simp_all add: unat_word_ariths)
  have gen9: "gen9_check_dword_gap b s \<longleftrightarrow> unat b + 0x24000 + 4 \<le> unat s"
      "gen9_check_huc_fw_fits s h \<longleftrightarrow> unat h + 0x4000 \<le> unat s"
    if "unat b < unat (whole - ?c)" "unat g + 0x6000 \<le> unat s"
  proof -
    have "unat b < 0x800000" using that(1) assms(4) whole by simp
    then have "unat (b + GEN9_GUC_WOPCM_OFFSET) = unat b + 0x24000" by (simp add: unat_word_ariths)
    then show "gen9_check_dword_gap b s \<longleftrightarrow> unat b + 0x24000 + 4 \<le> unat s"
      by (auto simp: gen9_check_dword_gap_def Let_def word_less_nat_alt unat_sub not_less word_le_nat_alt)
    have "unat (s - 0x4000) = unat s - 0x4000" using that(2) by (simp add: unat_sub word_le_nat_alt)
    then show "gen9_check_huc_fw_fits s h \<longleftrightarrow> unat h + 0x4000 \<le> unat s"
      using that(2) by (auto simp: gen9_check_huc_fw_fits_def word_less_nat_alt not_less)
  qed
  have "unat b + unat s + unat ?c \<le> unat whole \<and> unat g + 0x6000 \<le> unat s \<longleftrightarrow>
      \<not> wopcm_range_overflows b s (whole - ?c) \<and> \<not> s < g + GUC_WOPCM_RESERVED + GUC_WOPCM_STACK_RESERVED"
    unfolding wopcm_range_overflows_iff word_less_nat_alt guc whole using c by auto
  moreover have "unat b < unat (whole - ?c)" if "\<not> wopcm_range_overflows b s (whole - ?c)"
    using that by (simp add: wopcm_range_overflows_iff)
  moreover have "\<not> b < h + WOPCM_RESERVED_SIZE \<longleftrightarrow> unat h + 0x4000 \<le> unat b"
    unfolding word_less_nat_alt huc by auto
  ultimately show ?thesis
    unfolding check_layout_def check_hw_restrictions_def using gen9 by (auto split: if_splits)
qed

text \<open>What the driver computes: the lowest base, and the largest size above it.\<close>

lemma wopcm_calculate_values:
  assumes "wopcm_calculate E whole = (base, sz)" "unat (wp_huc_fw_size E) < 0x800000"
    and "0x100000 \<le> unat whole" "unat whole \<le> 0x800000"
  defines "b \<equiv> (unat (wp_huc_fw_size E) + 0x7FFF) div 2 ^ 14 * 2 ^ 14"
    and "room \<equiv> unat whole - unat (context_reserved_size E)"
  shows "unat base = min b room" "unat sz = (room - min b room) div 2 ^ 12 * 2 ^ 12"
proof -
  let ?c = "context_reserved_size E"
  have c: "unat ?c \<le> unat whole" using assms(3) context_reserved_bound [of E] by linarith
  then have room: "unat (whole - ?c) = room" by (simp add: unat_sub word_le_nat_alt room_def)
  have huc: "unat (wp_huc_fw_size E + WOPCM_RESERVED_SIZE) = unat (wp_huc_fw_size E) + 0x4000"
    using assms(2) by (simp add: unat_word_ariths)
  have "unat (ALIGN (wp_huc_fw_size E + WOPCM_RESERVED_SIZE) GUC_WOPCM_OFFSET_ALIGNMENT) = b"
    using unat_ALIGN [of GUC_WOPCM_OFFSET_ALIGNMENT 14 "wp_huc_fw_size E + WOPCM_RESERVED_SIZE"] assms(2)
    unfolding huc b_def by simp
  moreover have "base = min (ALIGN (wp_huc_fw_size E + WOPCM_RESERVED_SIZE) GUC_WOPCM_OFFSET_ALIGNMENT) (whole - ?c)"
    and sz: "sz = (whole - ?c - base) AND GUC_WOPCM_SIZE_MASK"
    using assms(1) by (auto simp: wopcm_calculate_def Let_def)
  ultimately show base: "unat base = min b room" using room by (simp add: min_def word_le_nat_alt)
  have "GUC_WOPCM_SIZE_MASK = NOT (mask 12)" by (simp add: mask_eq_exp_minus_1)
  then have "unat sz = unat (whole - ?c - base) - unat (whole - ?c - base) mod 2 ^ 12"
    unfolding sz by (simp only: unat_and_not_mask)
  moreover have "unat (whole - ?c - base) = room - min b room"
    using base room by (simp add: unat_sub word_le_nat_alt)
  ultimately show "unat sz = (room - min b room) div 2 ^ 12 * 2 ^ 12" by (simp add: minus_mod_eq_div_mult)
qed

lemma round_up_le: "0 < a \<Longrightarrow> a dvd y \<Longrightarrow> x \<le> y \<Longrightarrow> (x + (a - 1)) div a * a \<le> (y :: nat)"
proof -
  assume a: "0 < a" "a dvd y" "x \<le> y"
  then obtain k where y: "y = a * k" by blast
  have "x + (a - 1) < a * Suc k" using a y by simp
  then have "(x + (a - 1)) div a < Suc k" using a(1) by (simp add: less_mult_imp_div_less mult.commute)
  then have "(x + (a - 1)) div a \<le> k" by simp
  from mult_le_mono1 [OF this, of a] show ?thesis by (simp only: y mult.commute)
qed

lemma round_up_ge: "0 < a \<Longrightarrow> x \<le> (x + (a - 1)) div a * (a :: nat)"
  using div_mult_mod_eq [of "x + (a - 1)" a] mod_less_divisor [of a "x + (a - 1)"] by linarith

lemma round_down_ge: "a dvd x \<Longrightarrow> x \<le> y \<Longrightarrow> x \<le> y div a * (a :: nat)"
  by (metis div_le_mono dvd_div_mult_self mult_le_mono1)

lemma wopcm_calculate_fits:
  assumes "wopcm_calculate E whole = (base, sz)" "0x100000 \<le> unat whole" "unat whole \<le> 0x200000"
    and "wp_guc_fw_size E < whole" "wp_huc_fw_size E < whole"
  shows "check_layout E whole base sz (wp_guc_fw_size E) (wp_huc_fw_size E) \<longleftrightarrow>
      wopcm_fits E (unat whole) (unat base) (unat sz)"
    and "wopcm_fits E (unat whole) b s \<Longrightarrow>
      unat base \<le> b \<and> s \<le> unat sz \<and> wopcm_fits E (unat whole) (unat base) (unat sz)"
proof -
  let ?h = "unat (wp_huc_fw_size E)" and ?g = "unat (wp_guc_fw_size E)"
  let ?b = "(?h + 0x7FFF) div 2 ^ 14 * 2 ^ 14" and ?room = "unat whole - unat (context_reserved_size E)"
  have h: "?h < 0x800000" "?g < 0x800000" "unat whole \<le> 0x800000"
    using assms(3-5) by (simp_all add: word_less_nat_alt)
  note v = wopcm_calculate_values [OF assms(1) h(1) assms(2) h(3)]
  note c = check_layout_iff [OF h(2) h(1) assms(2) h(3), of E base sz]
  have up: "?h + 0x4000 \<le> ?b" using round_up_ge [of "2 ^ 14" "?h + 0x4000"] by simp
  have "2 ^ 12 dvd unat sz" unfolding v(2) by simp
  moreover have "unat base = ?b \<and> 2 ^ 14 dvd unat base" if "?g + 0x6000 \<le> unat sz"
  proof -
    have "?b < ?room" using that unfolding v(2) by (cases "?b \<le> ?room") (auto simp: min_def)
    then have "unat base = ?b" unfolding v(1) by simp
    then show ?thesis by simp
  qed
  ultimately show "check_layout E whole base sz (wp_guc_fw_size E) (wp_huc_fw_size E) \<longleftrightarrow>
      wopcm_fits E (unat whole) (unat base) (unat sz)"
    unfolding c wopcm_fits_def using up by auto
next
  let ?h = "unat (wp_huc_fw_size E)" and ?g = "unat (wp_guc_fw_size E)"
  let ?b = "(?h + 0x7FFF) div 2 ^ 14 * 2 ^ 14" and ?room = "unat whole - unat (context_reserved_size E)"
  have h: "?h < 0x800000" "unat whole \<le> 0x800000" using assms(3,5) by (simp_all add: word_less_nat_alt)
  note v = wopcm_calculate_values [OF assms(1) h(1) assms(2) h(2)]
  assume f: "wopcm_fits E (unat whole) b s"
  then have bs: "2 ^ 14 dvd b" "2 ^ 12 dvd s" "?h + 0x4000 \<le> b" "b + s + unat (context_reserved_size E) \<le> unat whole"
    by (simp_all add: wopcm_fits_def)
  have "?b \<le> b" using round_up_le [of "2 ^ 14" b "?h + 0x4000"] bs(1,3) by (simp add: add.commute)
  with bs(4) have base: "unat base = ?b" "?b \<le> b" "s \<le> ?room - ?b" unfolding v(1) by simp_all
  then have sz: "s \<le> unat sz" "unat sz \<le> ?room - ?b"
    using round_down_ge [OF bs(2), of "?room - ?b"] unfolding v(2) v(1) [symmetric] by simp_all
  have "?h + 0x4000 \<le> ?b" using round_up_ge [of "2 ^ 14" "?h + 0x4000"] by simp
  moreover have "2 ^ 14 dvd unat base" "2 ^ 12 dvd unat sz" unfolding base v(2) by simp_all
  ultimately show "unat base \<le> b \<and> s \<le> unat sz \<and> wopcm_fits E (unat whole) (unat base) (unat sz)"
    using f base sz bs(4) by (auto simp: wopcm_fits_def)
qed

text \<open>
  Property C40. When the registers are not locked yet, the driver finds a partition whenever there is
  one: if any base and size fit the firmwares, the contexts and the restrictions of the hardware,
  it sets a base and a size that fit, with the lowest base and the largest size for the GuC of all
  that fit; and if none fits it sets none. No sum wraps. The sizes of the firmwares are below that
  of the memory, as the driver asserts.
\<close>

theorem wopcm_init_largest:
  assumes "wp_has_gt_uc E" "wopcm_regs_locked E = None" "\<not> wp_media_gt E" "\<not> wp_inject_failure E"
    and "w = intel_wopcm_init_early E w0"
    and "wp_guc_fw_size E \<noteq> 0" "wp_guc_fw_size E < wopcm_size w" "wp_huc_fw_size E < wopcm_size w"
    and "w' = intel_wopcm_init E w" "n = unat (wopcm_size w)"
  shows "(if \<exists>b s. wopcm_fits E n b s
      then wopcm_fits E n (unat (guc_wopcm_base w')) (unat (guc_wopcm_size w')) \<and>
        (\<forall>b s. wopcm_fits E n b s \<longrightarrow> unat (guc_wopcm_base w') \<le> b \<and> s \<le> unat (guc_wopcm_size w'))
      else w' = w) \<and> wopcm_size w' = wopcm_size w"
proof -
  obtain base sz where l: "wopcm_calculate E (wopcm_size w) = (base, sz)" by fastforce
  have n: "0x100000 \<le> unat (wopcm_size w)" "unat (wopcm_size w) \<le> 0x200000"
    using assms(1) by (simp_all add: assms(5) intel_wopcm_init_early_def)
  note fits = wopcm_calculate_fits [OF l n assms(7,8)]
  have w': "w' = (if wopcm_fits E n (unat base) (unat sz) then w\<lparr>guc_wopcm_base := base, guc_wopcm_size := sz\<rparr> else w)"
    using assms(2-4,6) l fits(1) by (simp add: assms(9,10) intel_wopcm_init_def)
  show ?thesis
    unfolding w' using fits(2) by (auto simp: assms(10))
qed

text \<open>A Tiger Lake with a GuC of 320 KB and a HuC of 540 KB.\<close>

definition tgl_wopcm :: wopcm_env where
  "tgl_wopcm = \<lparr>wp_graphics_ver = 12, wp_gen9_lp = False, wp_has_gt_uc = True, wp_supports_huc = True,
     wp_deprivilege = False, wp_media_gt = False, wp_inject_failure = False, wp_guc_fw_size = 0x50000,
     wp_huc_fw_size = 0x87000, wp_reg_offset = 0, wp_reg_size = 0, wp_reg_shim_control2 = 0\<rparr>"

theorem wopcm_init_largest_witness:
  "let w = intel_wopcm_init tgl_wopcm (intel_wopcm_init_early tgl_wopcm
             \<lparr>wopcm_size = 0, guc_wopcm_base = 0, guc_wopcm_size = 0\<rparr>)
   in wopcm_fits tgl_wopcm 0x200000 (unat (guc_wopcm_base w)) (unat (guc_wopcm_size w)) \<and>
      0x100000 \<le> unat (guc_wopcm_size w)"
proof -
  define w where "w = intel_wopcm_init_early tgl_wopcm \<lparr>wopcm_size = 0, guc_wopcm_base = 0, guc_wopcm_size = 0\<rparr>"
  have s: "wopcm_size w = 0x200000"
    by (simp add: w_def intel_wopcm_init_early_def tgl_wopcm_def)
  have f: "wopcm_fits tgl_wopcm 0x200000 0xA0000 0x100000"
    by (simp add: wopcm_fits_def tgl_wopcm_def context_reserved_size_def dvd_def)
  have e: "wp_has_gt_uc tgl_wopcm" "wopcm_regs_locked tgl_wopcm = None" "\<not> wp_media_gt tgl_wopcm"
    "\<not> wp_inject_failure tgl_wopcm" "wp_guc_fw_size tgl_wopcm \<noteq> 0"
    "wp_guc_fw_size tgl_wopcm < wopcm_size w" "wp_huc_fw_size tgl_wopcm < wopcm_size w"
    by (simp_all add: tgl_wopcm_def wopcm_regs_locked_def s)
  have n: "unat (wopcm_size w) = 0x200000" by (simp add: s)
  have ex: "\<exists>b s. wopcm_fits tgl_wopcm 0x200000 b s" using f by blast
  note wopcm_init_largest [OF e(1-4) w_def e(5-7) refl refl, unfolded n if_P [OF ex]]
  then have "wopcm_fits tgl_wopcm 0x200000 (unat (guc_wopcm_base (intel_wopcm_init tgl_wopcm w)))
        (unat (guc_wopcm_size (intel_wopcm_init tgl_wopcm w))) \<and>
      0x100000 \<le> unat (guc_wopcm_size (intel_wopcm_init tgl_wopcm w))"
    using f by blast
  then show ?thesis by (simp add: w_def Let_def)
qed

end
