(* ===== verification/Guc_Context.thy ===== *)
theory Guc_Context
  imports Iov_Prelude
begin

text \<open>
  The scheduling state of a submission context (\<open>gt/uc/intel_guc_submission.c\<close>): the flags and the
  block counter in the word \<open>guc_state.sched_state\<close>, with the functions that test, set and clear
  them, and the fields of \<open>struct intel_context\<close> on which submission through the GuC depends.
\<close>

section \<open>The context\<close>

text \<open>
  Contexts and requests are named by numbers. \<open>ce_waiting\<close> has the requests that wait for their
  submit fence, \<open>ce_fences\<close> those of them that the GuC code holds back itself, \<open>ce_requests\<close> the
  requests that were submitted and not yet retired, and \<open>ce_completed\<close> those of them that are
  complete. \<open>ce_work\<close> tells whether the delayed work that disables scheduling is pending, and
  \<open>ce_blocked_done\<close> is \<open>i915_sw_fence_done(&ce->guc_state.blocked)\<close>. The locks are the points at
  which an operation of another thread can come between, so each function is one step.
\<close>

record intel_context =
  ce_guc_id :: u16
  ce_ref :: int
  ce_pin_count :: int
  ce_kref :: int
  ce_state :: u32
  ce_waiting :: "nat list"
  ce_fences :: "nat list"
  ce_requests :: "nat list"
  ce_completed :: "nat list"
  ce_blocked_done :: bool
  ce_work :: bool
  ce_init :: bool
  ce_dirty :: bool
  ce_closed :: bool
  ce_exiting :: bool
  ce_children :: "nat list"
  ce_parent :: "nat option"

definition GUC_INVALID_CONTEXT_ID :: u16 where
  "GUC_INVALID_CONTEXT_ID = of_nat GUC_MAX_CONTEXT_ID"

definition context_guc_id_invalid :: "intel_context \<Rightarrow> bool" where
  "context_guc_id_invalid ce \<longleftrightarrow> ce_guc_id ce = GUC_INVALID_CONTEXT_ID"

definition set_context_guc_id_invalid :: "intel_context \<Rightarrow> intel_context" where
  "set_context_guc_id_invalid ce = ce\<lparr>ce_guc_id := GUC_INVALID_CONTEXT_ID\<rparr>"

definition intel_context_is_child :: "intel_context \<Rightarrow> bool" where
  "intel_context_is_child ce \<longleftrightarrow> ce_parent ce \<noteq> None"

definition intel_context_is_parent :: "intel_context \<Rightarrow> bool" where
  "intel_context_is_parent ce \<longleftrightarrow> length (ce_children ce) \<noteq> 0"

definition intel_context_is_pinned :: "intel_context \<Rightarrow> bool" where
  "intel_context_is_pinned ce \<longleftrightarrow> ce_pin_count ce \<noteq> 0"

definition intel_context_is_schedulable :: "intel_context \<Rightarrow> bool" where
  "intel_context_is_schedulable ce \<longleftrightarrow> \<not> ce_exiting ce"

section \<open>The scheduling state\<close>

definition SCHED_STATE_WAIT_FOR_DEREGISTER_TO_REGISTER :: u32 where
  "SCHED_STATE_WAIT_FOR_DEREGISTER_TO_REGISTER = push_bit 0 1"

definition SCHED_STATE_DESTROYED :: u32 where
  "SCHED_STATE_DESTROYED = push_bit 1 1"

definition SCHED_STATE_PENDING_DISABLE :: u32 where
  "SCHED_STATE_PENDING_DISABLE = push_bit 2 1"

definition SCHED_STATE_BANNED :: u32 where
  "SCHED_STATE_BANNED = push_bit 3 1"

definition SCHED_STATE_ENABLED :: u32 where
  "SCHED_STATE_ENABLED = push_bit 4 1"

definition SCHED_STATE_PENDING_ENABLE :: u32 where
  "SCHED_STATE_PENDING_ENABLE = push_bit 5 1"

definition SCHED_STATE_REGISTERED :: u32 where
  "SCHED_STATE_REGISTERED = push_bit 6 1"

definition SCHED_STATE_POLICY_REQUIRED :: u32 where
  "SCHED_STATE_POLICY_REQUIRED = push_bit 7 1"

definition SCHED_STATE_CLOSED :: u32 where
  "SCHED_STATE_CLOSED = push_bit 8 1"

definition SCHED_STATE_BLOCKED_SHIFT :: nat where
  "SCHED_STATE_BLOCKED_SHIFT = 9"

definition SCHED_STATE_BLOCKED :: u32 where
  "SCHED_STATE_BLOCKED = push_bit SCHED_STATE_BLOCKED_SHIFT 1"

definition SCHED_STATE_BLOCKED_MASK :: u32 where
  "SCHED_STATE_BLOCKED_MASK = push_bit SCHED_STATE_BLOCKED_SHIFT 0xfff"

definition SCHED_STATE_VALID_INIT :: u32 where
  "SCHED_STATE_VALID_INIT = SCHED_STATE_BLOCKED_MASK OR SCHED_STATE_CLOSED OR SCHED_STATE_REGISTERED"

definition SCHED_STATE_MULTI_BLOCKED_MASK :: u32 where
  "SCHED_STATE_MULTI_BLOCKED_MASK = SCHED_STATE_BLOCKED_MASK AND NOT SCHED_STATE_BLOCKED"

definition SCHED_STATE_NO_UNBLOCK :: u32 where
  "SCHED_STATE_NO_UNBLOCK =
     SCHED_STATE_MULTI_BLOCKED_MASK OR SCHED_STATE_PENDING_DISABLE OR SCHED_STATE_BANNED"

text \<open>The three operations on a flag that the accessors below instantiate.\<close>

definition state_test :: "u32 \<Rightarrow> intel_context \<Rightarrow> bool" where
  "state_test m ce \<longleftrightarrow> ce_state ce AND m \<noteq> 0"

definition state_set :: "u32 \<Rightarrow> intel_context \<Rightarrow> intel_context" where
  "state_set m ce = ce\<lparr>ce_state := ce_state ce OR m\<rparr>"

definition state_clr :: "u32 \<Rightarrow> intel_context \<Rightarrow> intel_context" where
  "state_clr m ce = ce\<lparr>ce_state := ce_state ce AND NOT m\<rparr>"

definition init_sched_state :: "intel_context \<Rightarrow> intel_context" where
  "init_sched_state ce = ce\<lparr>ce_state := ce_state ce AND SCHED_STATE_BLOCKED_MASK\<rparr>"

definition sched_state_is_init :: "intel_context \<Rightarrow> bool" where
  "sched_state_is_init ce \<longleftrightarrow> ce_state ce AND NOT SCHED_STATE_VALID_INIT = 0"

definition context_wait_for_deregister_to_register :: "intel_context \<Rightarrow> bool" where
  "context_wait_for_deregister_to_register = state_test SCHED_STATE_WAIT_FOR_DEREGISTER_TO_REGISTER"

definition set_context_wait_for_deregister_to_register :: "intel_context \<Rightarrow> intel_context" where
  "set_context_wait_for_deregister_to_register = state_set SCHED_STATE_WAIT_FOR_DEREGISTER_TO_REGISTER"

definition clr_context_wait_for_deregister_to_register :: "intel_context \<Rightarrow> intel_context" where
  "clr_context_wait_for_deregister_to_register = state_clr SCHED_STATE_WAIT_FOR_DEREGISTER_TO_REGISTER"

definition context_destroyed :: "intel_context \<Rightarrow> bool" where
  "context_destroyed = state_test SCHED_STATE_DESTROYED"

definition set_context_destroyed :: "intel_context \<Rightarrow> intel_context" where
  "set_context_destroyed = state_set SCHED_STATE_DESTROYED"

definition context_pending_disable :: "intel_context \<Rightarrow> bool" where
  "context_pending_disable = state_test SCHED_STATE_PENDING_DISABLE"

definition set_context_pending_disable :: "intel_context \<Rightarrow> intel_context" where
  "set_context_pending_disable = state_set SCHED_STATE_PENDING_DISABLE"

definition clr_context_pending_disable :: "intel_context \<Rightarrow> intel_context" where
  "clr_context_pending_disable = state_clr SCHED_STATE_PENDING_DISABLE"

definition context_banned :: "intel_context \<Rightarrow> bool" where
  "context_banned = state_test SCHED_STATE_BANNED"

definition set_context_banned :: "intel_context \<Rightarrow> intel_context" where
  "set_context_banned = state_set SCHED_STATE_BANNED"

definition clr_context_banned :: "intel_context \<Rightarrow> intel_context" where
  "clr_context_banned = state_clr SCHED_STATE_BANNED"

definition context_enabled :: "intel_context \<Rightarrow> bool" where
  "context_enabled = state_test SCHED_STATE_ENABLED"

definition set_context_enabled :: "intel_context \<Rightarrow> intel_context" where
  "set_context_enabled = state_set SCHED_STATE_ENABLED"

definition clr_context_enabled :: "intel_context \<Rightarrow> intel_context" where
  "clr_context_enabled = state_clr SCHED_STATE_ENABLED"

definition context_pending_enable :: "intel_context \<Rightarrow> bool" where
  "context_pending_enable = state_test SCHED_STATE_PENDING_ENABLE"

definition set_context_pending_enable :: "intel_context \<Rightarrow> intel_context" where
  "set_context_pending_enable = state_set SCHED_STATE_PENDING_ENABLE"

definition clr_context_pending_enable :: "intel_context \<Rightarrow> intel_context" where
  "clr_context_pending_enable = state_clr SCHED_STATE_PENDING_ENABLE"

definition context_registered :: "intel_context \<Rightarrow> bool" where
  "context_registered = state_test SCHED_STATE_REGISTERED"

definition set_context_registered :: "intel_context \<Rightarrow> intel_context" where
  "set_context_registered = state_set SCHED_STATE_REGISTERED"

definition clr_context_registered :: "intel_context \<Rightarrow> intel_context" where
  "clr_context_registered = state_clr SCHED_STATE_REGISTERED"

definition context_policy_required :: "intel_context \<Rightarrow> bool" where
  "context_policy_required = state_test SCHED_STATE_POLICY_REQUIRED"

definition set_context_policy_required :: "intel_context \<Rightarrow> intel_context" where
  "set_context_policy_required = state_set SCHED_STATE_POLICY_REQUIRED"

definition clr_context_policy_required :: "intel_context \<Rightarrow> intel_context" where
  "clr_context_policy_required = state_clr SCHED_STATE_POLICY_REQUIRED"

definition context_close_done :: "intel_context \<Rightarrow> bool" where
  "context_close_done = state_test SCHED_STATE_CLOSED"

definition set_context_close_done :: "intel_context \<Rightarrow> intel_context" where
  "set_context_close_done = state_set SCHED_STATE_CLOSED"

definition context_blocked :: "intel_context \<Rightarrow> u32" where
  "context_blocked ce = drop_bit SCHED_STATE_BLOCKED_SHIFT (ce_state ce AND SCHED_STATE_BLOCKED_MASK)"

definition incr_context_blocked :: "intel_context \<Rightarrow> intel_context" where
  "incr_context_blocked ce = ce\<lparr>ce_state := ce_state ce + SCHED_STATE_BLOCKED\<rparr>"

definition decr_context_blocked :: "intel_context \<Rightarrow> intel_context" where
  "decr_context_blocked ce = ce\<lparr>ce_state := ce_state ce - SCHED_STATE_BLOCKED\<rparr>"

section \<open>The flags are independent\<close>

text \<open>
  Every accessor reads one bit of the state word and every update writes one bit or counts above
  bit 8, so that the lemmas below decide each pair of them.
\<close>

named_theorems state_simps \<comment> \<open>a flag after an update of the state word\<close>

lemma state_test_bit: "state_test (push_bit k 1) ce \<longleftrightarrow> bit (ce_state ce) k"
  by (simp add: state_test_def push_bit_eq_mult and_exp_eq_0_iff_not_bit)

lemma bit_flag [state_simps]: "bit (push_bit j 1 :: u32) k \<longleftrightarrow> k = j \<and> k < 32"
  by (auto simp: bit_simps)

lemma bit_state_set [state_simps]: "bit (ce_state (state_set m ce)) k \<longleftrightarrow> bit (ce_state ce) k \<or> bit m k"
  by (simp add: state_set_def bit_simps)

lemma bit_state_clr [state_simps]: "bit (ce_state (state_clr m ce)) k \<longleftrightarrow> bit (ce_state ce) k \<and> \<not> bit m k"
  by (auto simp: state_clr_def bit_simps dest: bit_imp_le_length)

lemma bit_incr_blocked:
  fixes x :: u32
  assumes "k < 9"
  shows "bit (x + 512) k = bit x k" "bit (x - 512) k = bit x k"
proof -
  have low: "bit (y + 512) k = bit y k" for y :: u32
  proof -
    have nat: "take_bit 9 (n + 512) = take_bit 9 n" for n :: nat
      using take_bit_add [of 9 n 512] by simp
    have un: "bit z k \<longleftrightarrow> bit (unat z) k" for z :: u32
      by (simp add: bit_unsigned_iff)
    have "unat (y + 512) = take_bit 32 (unat y + 512)"
      by (simp add: unat_word_ariths take_bit_eq_mod)
    then have "bit (y + 512) k \<longleftrightarrow> bit (unat y + 512) k"
      using assms unfolding un by (simp add: bit_take_bit_iff)
    also have "\<dots> \<longleftrightarrow> bit (unat y) k"
      using assms by (metis bit_take_bit_iff nat)
    finally show ?thesis by (simp add: un)
  qed
  show "bit (x + 512) k = bit x k" by (rule low)
  show "bit (x - 512) k = bit x k" using low [of "x - 512"] by simp
qed

lemma bit_state_blocked [state_simps]:
  "k < 9 \<Longrightarrow> bit (ce_state (incr_context_blocked ce)) k = bit (ce_state ce) k"
  "k < 9 \<Longrightarrow> bit (ce_state (decr_context_blocked ce)) k = bit (ce_state ce) k"
  by (simp_all add: incr_context_blocked_def decr_context_blocked_def SCHED_STATE_BLOCKED_def
      SCHED_STATE_BLOCKED_SHIFT_def bit_incr_blocked)

lemma context_flags [state_simps]:
  "context_wait_for_deregister_to_register ce \<longleftrightarrow> bit (ce_state ce) 0"
  "context_destroyed ce \<longleftrightarrow> bit (ce_state ce) 1"
  "context_pending_disable ce \<longleftrightarrow> bit (ce_state ce) 2"
  "context_banned ce \<longleftrightarrow> bit (ce_state ce) 3"
  "context_enabled ce \<longleftrightarrow> bit (ce_state ce) 4"
  "context_pending_enable ce \<longleftrightarrow> bit (ce_state ce) 5"
  "context_registered ce \<longleftrightarrow> bit (ce_state ce) 6"
  "context_policy_required ce \<longleftrightarrow> bit (ce_state ce) 7"
  "context_close_done ce \<longleftrightarrow> bit (ce_state ce) 8"
  by (simp_all only: context_wait_for_deregister_to_register_def context_destroyed_def context_pending_disable_def context_banned_def context_enabled_def context_pending_enable_def context_registered_def context_policy_required_def context_close_done_def
      SCHED_STATE_WAIT_FOR_DEREGISTER_TO_REGISTER_def SCHED_STATE_DESTROYED_def SCHED_STATE_PENDING_DISABLE_def SCHED_STATE_BANNED_def SCHED_STATE_ENABLED_def SCHED_STATE_PENDING_ENABLE_def SCHED_STATE_REGISTERED_def SCHED_STATE_POLICY_REQUIRED_def SCHED_STATE_CLOSED_def state_test_bit)

lemmas state_updates [state_simps] =
  set_context_wait_for_deregister_to_register_def set_context_destroyed_def set_context_pending_disable_def set_context_banned_def set_context_enabled_def set_context_pending_enable_def set_context_registered_def set_context_policy_required_def set_context_close_done_def
  clr_context_wait_for_deregister_to_register_def clr_context_pending_disable_def clr_context_banned_def clr_context_enabled_def clr_context_pending_enable_def clr_context_registered_def clr_context_policy_required_def
  SCHED_STATE_WAIT_FOR_DEREGISTER_TO_REGISTER_def SCHED_STATE_DESTROYED_def SCHED_STATE_PENDING_DISABLE_def SCHED_STATE_BANNED_def SCHED_STATE_ENABLED_def SCHED_STATE_PENDING_ENABLE_def SCHED_STATE_REGISTERED_def SCHED_STATE_POLICY_REQUIRED_def SCHED_STATE_CLOSED_def

lemma unat_context_blocked: "unat (context_blocked ce) = unat (ce_state ce) div 512 mod 4096"
proof -
  have "SCHED_STATE_BLOCKED_MASK = push_bit 9 (mask 12)"
    by (simp add: SCHED_STATE_BLOCKED_MASK_def SCHED_STATE_BLOCKED_SHIFT_def mask_eq_exp_minus_1)
  then have "context_blocked ce = drop_bit 9 (ce_state ce) AND mask 12"
    by (auto simp: context_blocked_def SCHED_STATE_BLOCKED_SHIFT_def bit_eq_iff
        bit_drop_bit_eq bit_and_iff bit_push_bit_iff bit_mask_iff dest: bit_imp_le_length)
  then have "context_blocked ce = take_bit 12 (drop_bit 9 (ce_state ce))"
    by (simp add: take_bit_eq_mask)
  then show ?thesis by (simp only: unat_take_bit unat_drop_bit_eq) (simp add: drop_bit_eq_div)
qed

text \<open>Blocking counts up to 4095, where \<open>GEM_BUG_ON\<close> reports the overflow.\<close>

lemma context_blocked_incr:
  assumes "unat (context_blocked ce) < 4095"
  shows "unat (context_blocked (incr_context_blocked ce)) = Suc (unat (context_blocked ce))"
proof -
  have "unat (ce_state (incr_context_blocked ce)) = (unat (ce_state ce) + 512) mod 4294967296"
    by (simp add: incr_context_blocked_def SCHED_STATE_BLOCKED_def
        SCHED_STATE_BLOCKED_SHIFT_def unat_word_ariths push_bit_eq_mult)
  moreover have "(n mod 4294967296) div 512 mod 4096 = n div 512 mod 4096" for n :: nat
  proof -
    have "n mod 4294967296 div 512 = n div 512 mod 8388608"
      using mod_mult2_eq [of n 512 8388608] by simp
    then show ?thesis by (simp add: mod_mod_cancel)
  qed
  moreover have "(n + 512) div 512 = Suc (n div 512)" for n :: nat
    using div_mult_self1 [of 512 n 1] by simp
  ultimately show ?thesis
    using assms unfolding unat_context_blocked by (simp add: mod_Suc)
qed

lemma context_blocked_decr:
  assumes "context_blocked ce \<noteq> 0"
  shows "unat (context_blocked (decr_context_blocked ce)) = unat (context_blocked ce) - 1"
proof -
  have pos: "unat (ce_state ce) div 512 mod 4096 \<noteq> 0"
    using assms unat_context_blocked [of ce] by (metis unat_eq_0)
  then have "512 \<le> unat (ce_state ce)"
    by (metis div_less mod_0 not_le)
  then have "unat (ce_state (decr_context_blocked ce)) = unat (ce_state ce) - 512"
    by (simp add: decr_context_blocked_def SCHED_STATE_BLOCKED_def SCHED_STATE_BLOCKED_SHIFT_def
        unat_sub word_le_nat_alt push_bit_eq_mult)
  moreover have "(n - 512) div 512 mod 4096 = n div 512 mod 4096 - 1"
    if "n div 512 mod 4096 \<noteq> 0" for n :: nat
  proof (cases "n div 512")
    case 0
    with that show ?thesis by simp
  next
    case (Suc m)
    then have "512 \<le> n" by (metis div_less not_le old.nat.distinct(1))
    then have "(n - 512) div 512 = m"
      using Suc div_mult_self1 [of 512 "n - 512" 1] by simp
    with Suc that show ?thesis by (simp add: mod_Suc split: if_splits)
  qed
  ultimately show ?thesis
    using pos unfolding unat_context_blocked by simp
qed

end
