(* ===== verification/Guc_Ids.thy ===== *)
theory Guc_Ids
  imports Guc_Context
begin

text \<open>
  The ids under which the GuC knows contexts (\<open>gt/uc/intel_guc_submission.c\<close>): the partition of the
  id space of a PF or VF between single and parallel contexts, allocation, stealing and release of
  ids. The state is the part of \<open>struct intel_guc\<close> that submission uses, with the messages to and
  from the GuC as queues (\<open>Guc_Ct_Queue\<close> shows that the CT buffers are such queues).
\<close>

section \<open>The state of submission\<close>

text \<open>\<open>UPDATE_CONTEXT_POLICIES\<close> also stands for the message that older firmware has for the preemption
  timeout alone.\<close>

datatype (plugins only: code) h2g_action =
    REGISTER_CONTEXT u32
  | DEREGISTER_CONTEXT u32
  | SCHED_CONTEXT u32
  | SCHED_CONTEXT_MODE_SET u32 bool
  | UPDATE_CONTEXT_POLICIES u32

datatype (plugins only: code) g2h_action =
    DEREGISTER_CONTEXT_DONE "u32 list"
  | SCHED_CONTEXT_MODE_DONE "u32 list"

datatype (plugins only: code) stall_reason =
  STALL_NONE | STALL_REGISTER_CONTEXT | STALL_MOVE_LRC_TAIL | STALL_ADD_REQUEST

text \<open>
  \<open>gs_ctxs\<close> has the contexts that are not freed, \<open>gs_lookup\<close> is the xarray \<open>context_lookup\<close>,
  \<open>gs_ids\<close> the ida of the ids of single contexts, \<open>gs_bitmap\<close> the bitmap of the ids of parallel
  contexts, and \<open>gs_queue\<close> the requests in the priority lists in the order in which the tasklet
  finds them.
\<close>

record guc_submission =
  gs_ctxs :: "nat \<Rightarrow> intel_context option"
  gs_lookup :: "u32 \<Rightarrow> nat option"
  gs_ids :: "nat list"
  gs_bitmap :: bitmap
  gs_num_ids :: nat
  gs_in_use :: u32
  gs_id_list :: "nat list"
  gs_destroyed :: "nat list"
  gs_destroyed_work :: bool
  gs_delay_ms :: u32
  gs_threshold :: nat
  gs_disabled :: bool
  gs_initialized :: bool
  gs_outstanding :: int
  gs_queue :: "(int \<times> nat \<times> nat) list"
  gs_stalled :: "(nat \<times> nat) option"
  gs_stall_reason :: stall_reason
  gs_tasklet :: bool
  gs_h2g :: "h2g_action list"
  gs_g2h :: "g2h_action list"

text \<open>
  What the code leaves to its surroundings: whether the ida finds memory, whether the ring to the
  GuC has room for a message whose sender does not wait, and the order of the timelines in
  \<open>intel_gt_retire_requests\<close>.
\<close>

record guc_env =
  ge_ida_memory :: bool
  ge_h2g_room :: "guc_submission \<Rightarrow> bool"
  ge_timelines :: "nat list"

definition the_ctx :: "guc_submission \<Rightarrow> nat \<Rightarrow> intel_context" where
  "the_ctx s c = the (gs_ctxs s c)"

definition upd_ctx :: "nat \<Rightarrow> (intel_context \<Rightarrow> intel_context) \<Rightarrow> guc_submission \<Rightarrow> guc_submission" where
  "upd_ctx c f s = s\<lparr>gs_ctxs := (gs_ctxs s)(c := map_option f (gs_ctxs s c))\<rparr>"

definition ctx_key :: "intel_context \<Rightarrow> u32" where
  "ctx_key ce = ucast (ce_guc_id ce)"

section \<open>The lookup table\<close>

definition ctx_id_mapped :: "guc_submission \<Rightarrow> u32 \<Rightarrow> bool" where
  "ctx_id_mapped s i \<longleftrightarrow> gs_lookup s i \<noteq> None"

definition set_ctx_id_mapping :: "u32 \<Rightarrow> nat \<Rightarrow> guc_submission \<Rightarrow> guc_submission" where
  "set_ctx_id_mapping i c s = s\<lparr>gs_lookup := (gs_lookup s)(i \<mapsto> c)\<rparr>"

definition clr_ctx_id_mapping :: "u32 \<Rightarrow> guc_submission \<Rightarrow> guc_submission" where
  "clr_ctx_id_mapping i s =
     (if \<not> gs_initialized s then s else s\<lparr>gs_lookup := (gs_lookup s)(i := None)\<rparr>)"

section \<open>Partition of the ids\<close>

definition MLRC_GUC_ID_RATIO :: nat where
  "MLRC_GUC_ID_RATIO = 16"

definition number_mlrc_guc_id :: "guc_submission \<Rightarrow> nat" where
  "number_mlrc_guc_id s = gs_num_ids s div MLRC_GUC_ID_RATIO"

definition number_slrc_guc_id :: "guc_submission \<Rightarrow> nat" where
  "number_slrc_guc_id s = gs_num_ids s - number_mlrc_guc_id s"

definition mlrc_guc_id_base :: "guc_submission \<Rightarrow> nat" where
  "mlrc_guc_id_base s = number_slrc_guc_id s"

definition intel_guc_sched_disable_gucid_threshold_max :: "guc_submission \<Rightarrow> nat" where
  "intel_guc_sched_disable_gucid_threshold_max s = gs_num_ids s - number_mlrc_guc_id s"

definition NUM_SCHED_DISABLE_GUCIDS_DEFAULT_THRESHOLD :: "guc_submission \<Rightarrow> nat" where
  "NUM_SCHED_DISABLE_GUCIDS_DEFAULT_THRESHOLD s = intel_guc_sched_disable_gucid_threshold_max s * 3 div 4"

definition SCHED_DISABLE_DELAY_MS :: u32 where
  "SCHED_DISABLE_DELAY_MS = 34"

text \<open>\<open>intel_guc_submission_init_early\<close>, for the contexts \<open>C\<close> that will be created.\<close>

definition intel_guc_submission_init_early :: "(nat \<Rightarrow> intel_context option) \<Rightarrow> guc_submission" where
  "intel_guc_submission_init_early C =
     (let s = \<lparr>gs_ctxs = C, gs_lookup = Map.empty, gs_ids = [], gs_bitmap = [],
               gs_num_ids = GUC_MAX_CONTEXT_ID, gs_in_use = 0, gs_id_list = [], gs_destroyed = [],
               gs_destroyed_work = False, gs_delay_ms = SCHED_DISABLE_DELAY_MS, gs_threshold = 0,
               gs_disabled = False, gs_initialized = False, gs_outstanding = 0, gs_queue = [],
               gs_stalled = None, gs_stall_reason = STALL_NONE, gs_tasklet = False,
               gs_h2g = [], gs_g2h = []\<rparr>
      in s\<lparr>gs_threshold := NUM_SCHED_DISABLE_GUCIDS_DEFAULT_THRESHOLD s\<rparr>)"

text \<open>The limit on the ids of this function (see \<open>intel_guc_submission_limit_ids\<close> for its use by the
  PF and by a VF).\<close>

definition limit_guc_ids :: "u32 \<Rightarrow> guc_submission \<Rightarrow> unit res \<times> guc_submission" where
  "limit_guc_ids limit s =
     (if unat limit > GUC_MAX_CONTEXT_ID then (Inl E2BIG, s)
      else if gs_ids s \<noteq> [] then (Inl ETXTBSY, s)
      else (Inr (), s\<lparr>gs_num_ids := unat limit\<rparr>))"

text \<open>The part of \<open>intel_guc_submission_init\<close> that concerns the ids: the bitmap of the parallel
  contexts gets its size from the limit that holds at this time.\<close>

definition submission_init_ids :: "guc_submission \<Rightarrow> guc_submission" where
  "submission_init_ids s =
     (if gs_initialized s then s
      else s\<lparr>gs_bitmap := bitmap_zero (number_mlrc_guc_id s), gs_initialized := True\<rparr>)"

section \<open>Allocation\<close>

text \<open>\<open>ida_simple_get(ida, 0, end)\<close>: the lowest free id, where an \<open>end\<close> of 0 means no end (up to
  \<open>INT_MAX\<close>, far more than the memory of the ida can hold; the lowest free one is at most the
  number of ids that are taken).\<close>

definition ida_simple_get :: "guc_env \<Rightarrow> nat list \<Rightarrow> nat \<Rightarrow> nat res" where
  "ida_simple_get E ids end =
     (if \<not> ge_ida_memory E then Inl ENOMEM
      else case find (\<lambda>i. i \<notin> set ids) [0..<(if end = 0 then Suc (length ids) else end)] of
        None \<Rightarrow> Inl ENOSPC
      | Some i \<Rightarrow> Inr i)"

fun order_base_2 :: "nat \<Rightarrow> nat" where
  "order_base_2 n = (if n \<le> 1 then 0 else Suc (order_base_2 ((n + 1) div 2)))"

declare order_base_2.simps [simp del]

definition bitmap_clear :: "bitmap \<Rightarrow> nat \<Rightarrow> nat \<Rightarrow> bitmap" where
  "bitmap_clear bm start nr = map (\<lambda>i. bm ! i \<and> \<not> (start \<le> i \<and> i < start + nr)) [0..<length bm]"

text \<open>\<open>bitmap_find_free_region\<close>: the first region of \<open>2 ^ order\<close> clear bits that is aligned to its
  size. It is marked as taken.\<close>

definition bitmap_find_free_region :: "bitmap \<Rightarrow> nat \<Rightarrow> nat \<Rightarrow> nat res \<times> bitmap" where
  "bitmap_find_free_region bm bits order =
     (case find (\<lambda>pos. zero_area bm pos (2 ^ order))
        (map (\<lambda>k. k * 2 ^ order) [0..<bits div 2 ^ order]) of
        None \<Rightarrow> (Inl ENOMEM, bm)
      | Some pos \<Rightarrow> (Inr pos, bitmap_set bm pos (2 ^ order)))"

definition bitmap_release_region :: "bitmap \<Rightarrow> nat \<Rightarrow> nat \<Rightarrow> bitmap" where
  "bitmap_release_region bm pos order = bitmap_clear bm pos (2 ^ order)"

definition new_mlrc_guc_id :: "guc_submission \<Rightarrow> intel_context \<Rightarrow> nat res \<times> guc_submission" where
  "new_mlrc_guc_id s ce =
     (case bitmap_find_free_region (gs_bitmap s) (number_mlrc_guc_id s)
        (order_base_2 (length (ce_children ce) + 1)) of
        (Inl e, bm) \<Rightarrow> (Inl e, s)
      | (Inr ret, bm) \<Rightarrow> (Inr (ret + mlrc_guc_id_base s), s\<lparr>gs_bitmap := bm\<rparr>))"

definition new_slrc_guc_id :: "guc_env \<Rightarrow> guc_submission \<Rightarrow> nat res \<times> guc_submission" where
  "new_slrc_guc_id E s =
     (case ida_simple_get E (gs_ids s) (number_slrc_guc_id s) of
        Inl e \<Rightarrow> (Inl e, s)
      | Inr ret \<Rightarrow> (Inr ret, s\<lparr>gs_ids := ret # gs_ids s\<rparr>))"

definition new_guc_id :: "guc_env \<Rightarrow> nat \<Rightarrow> guc_submission \<Rightarrow> unit res \<times> guc_submission" where
  "new_guc_id E c s =
     (let ce = the_ctx s c;
          (ret, s1) = (if intel_context_is_parent ce then new_mlrc_guc_id s ce else new_slrc_guc_id E s)
      in case ret of
           Inl e \<Rightarrow> (Inl e, s1)
         | Inr i \<Rightarrow>
             let s2 = (if intel_context_is_parent ce then s1 else s1\<lparr>gs_in_use := gs_in_use s1 + 1\<rparr>)
             in (Inr (), upd_ctx c (\<lambda>ce. ce\<lparr>ce_guc_id := of_nat i\<rparr>) s2))"

definition release_guc_id :: "nat \<Rightarrow> guc_submission \<Rightarrow> guc_submission" where
  "release_guc_id c s =
     (let ce = the_ctx s c;
          s1 = (if context_guc_id_invalid ce then s
                else
                  let s2 = (if intel_context_is_parent ce
                            then s\<lparr>gs_bitmap := bitmap_release_region (gs_bitmap s)
                                     (unat (ce_guc_id ce) - mlrc_guc_id_base s)
                                     (order_base_2 (length (ce_children ce) + 1))\<rparr>
                            else s\<lparr>gs_in_use := gs_in_use s - 1,
                                   gs_ids := removeAll (unat (ce_guc_id ce)) (gs_ids s)\<rparr>);
                      s3 = clr_ctx_id_mapping (ctx_key ce) s2
                  in upd_ctx c set_context_guc_id_invalid s3)
      in s1\<lparr>gs_id_list := removeAll c (gs_id_list s1)\<rparr>)"

section \<open>Stealing\<close>

definition steal_guc_id :: "nat \<Rightarrow> guc_submission \<Rightarrow> unit res \<times> guc_submission" where
  "steal_guc_id c s =
     (case gs_id_list s of
        [] \<Rightarrow> (Inl EAGAIN, s)
      | cn # rest \<Rightarrow>
          let i = ce_guc_id (the_ctx s cn);
              s1 = s\<lparr>gs_id_list := rest\<rparr>;
              s2 = upd_ctx c (\<lambda>ce. ce\<lparr>ce_guc_id := i\<rparr>) s1;
              s3 = upd_ctx cn clr_context_registered s2
          in (Inr (), upd_ctx cn set_context_guc_id_invalid s3))"

fun number_children :: "u16 \<Rightarrow> nat list \<Rightarrow> guc_submission \<Rightarrow> guc_submission" where
  "number_children i [] s = s"
| "number_children i (child # cs) s =
     number_children (i + 1) cs (upd_ctx child (\<lambda>ce. ce\<lparr>ce_guc_id := i\<rparr>) s)"

definition assign_guc_id :: "guc_env \<Rightarrow> nat \<Rightarrow> guc_submission \<Rightarrow> unit res \<times> guc_submission" where
  "assign_guc_id E c s =
     (case new_guc_id E c s of
        (Inl e, s1) \<Rightarrow>
          if intel_context_is_parent (the_ctx s c) then (Inl ENOSPC, s1)
          else steal_guc_id c s1
      | (Inr _, s1) \<Rightarrow>
          let ce = the_ctx s1 c
          in (Inr (), number_children (ce_guc_id ce + 1) (ce_children ce) s1))"

definition unpin_guc_id :: "nat \<Rightarrow> guc_submission \<Rightarrow> guc_submission" where
  "unpin_guc_id c s =
     (let ce = the_ctx s c
      in if context_guc_id_invalid ce \<or> intel_context_is_parent ce then s
         else if c \<notin> set (gs_id_list s) \<and> ce_ref ce = 0 then s\<lparr>gs_id_list := gs_id_list s @ [c]\<rparr>
         else s)"

end
