(* ===== verification/Guc_Submission.thy ===== *)
theory Guc_Submission
  imports Guc_Ids
begin

text \<open>
  Submission through the GuC (\<open>gt/uc/intel_guc_submission.c\<close>): contexts are registered under an id,
  enabled, disabled and deregistered by messages to the GuC, most of which it answers later.
  Requests take an id, may have to wait for an answer, reach the GuC and retire. Modelled are single
  contexts with their whole life; work queues of parallel contexts, priorities, statistics and GPU
  resets are not.
\<close>

section \<open>Messages to the GuC\<close>

text \<open>\<open>ge_wait\<close> of the environment is the result for a sender that waits for room in the ring, which
  fails only when the CT is disabled; \<open>ge_v70\<close> tells whether policies are set by messages of their
  own.\<close>

record guc_sub_env = guc_env +
  ge_wait :: "guc_submission \<Rightarrow> unit res"
  ge_v70 :: bool

definition h2g_push :: "h2g_action \<Rightarrow> guc_submission \<Rightarrow> guc_submission" where
  "h2g_push m s = s\<lparr>gs_h2g := gs_h2g s @ [m]\<rparr>"

definition guc_send_nb :: "guc_sub_env \<Rightarrow> h2g_action \<Rightarrow> guc_submission \<Rightarrow> unit res \<times> guc_submission" where
  "guc_send_nb E m s = (if ge_h2g_room E s then (Inr (), h2g_push m s) else (Inl EBUSY, s))"

definition guc_send_busy_loop ::
  "guc_sub_env \<Rightarrow> h2g_action \<Rightarrow> bool \<Rightarrow> guc_submission \<Rightarrow> unit res \<times> guc_submission" where
  "guc_send_busy_loop E m loop s =
     (if loop then (case ge_wait E s of Inl e \<Rightarrow> (Inl e, s) | Inr _ \<Rightarrow> (Inr (), h2g_push m s))
      else guc_send_nb E m s)"

definition guc_submission_send_busy_loop ::
  "guc_sub_env \<Rightarrow> h2g_action \<Rightarrow> bool \<Rightarrow> bool \<Rightarrow> guc_submission \<Rightarrow> unit res \<times> guc_submission" where
  "guc_submission_send_busy_loop E m g2h loop s =
     guc_send_busy_loop E m loop (if g2h then s\<lparr>gs_outstanding := gs_outstanding s + 1\<rparr> else s)"

definition decr_outstanding_submission_g2h :: "guc_submission \<Rightarrow> guc_submission" where
  "decr_outstanding_submission_g2h s = s\<lparr>gs_outstanding := gs_outstanding s - 1\<rparr>"

section \<open>Life of a context\<close>

definition guc_context_free :: "nat \<Rightarrow> guc_submission \<Rightarrow> guc_submission" where
  "guc_context_free c s = s\<lparr>gs_ctxs := (gs_ctxs s)(c := None)\<rparr>"

definition guc_context_destroy :: "nat \<Rightarrow> guc_submission \<Rightarrow> guc_submission" where
  "guc_context_destroy c s =
     (let ce = the_ctx s c
      in if gs_disabled s \<or> context_guc_id_invalid ce \<or> \<not> ctx_id_mapped s (ctx_key ce)
         then guc_context_free c (release_guc_id c s)
         else s\<lparr>gs_id_list := removeAll c (gs_id_list s), gs_destroyed := gs_destroyed s @ [c],
                gs_destroyed_work := True\<rparr>)"

definition intel_context_get :: "nat \<Rightarrow> guc_submission \<Rightarrow> guc_submission" where
  "intel_context_get c = upd_ctx c (\<lambda>ce. ce\<lparr>ce_kref := ce_kref ce + 1\<rparr>)"

definition intel_context_put :: "nat \<Rightarrow> guc_submission \<Rightarrow> guc_submission" where
  "intel_context_put c s =
     (let s1 = upd_ctx c (\<lambda>ce. ce\<lparr>ce_kref := ce_kref ce - 1\<rparr>) s
      in if ce_kref (the_ctx s1 c) = 0 then guc_context_destroy c s1 else s1)"

text \<open>\<open>ops->unpin\<close> gives the id up for stealing, and the active reference of a pinned context is put.\<close>

definition intel_context_do_unpin :: "int \<Rightarrow> nat \<Rightarrow> guc_submission \<Rightarrow> guc_submission" where
  "intel_context_do_unpin k c s =
     (let s1 = upd_ctx c (\<lambda>ce. ce\<lparr>ce_pin_count := ce_pin_count ce - k\<rparr>) s
      in if ce_pin_count (the_ctx s1 c) \<noteq> 0 then s1
         else intel_context_put c (unpin_guc_id c s1))"

definition intel_context_sched_disable_unpin :: "nat \<Rightarrow> guc_submission \<Rightarrow> guc_submission" where
  "intel_context_sched_disable_unpin = intel_context_do_unpin 2"

text \<open>A pin of an unpinned context takes the active reference; the context may have moved, which
  \<open>moved\<close> says.\<close>

definition intel_context_pin :: "bool \<Rightarrow> nat \<Rightarrow> guc_submission \<Rightarrow> unit res \<times> guc_submission" where
  "intel_context_pin moved c s =
     (let ce = the_ctx s c
      in if ce_pin_count ce \<noteq> 0
         then (Inr (), upd_ctx c (\<lambda>ce. ce\<lparr>ce_pin_count := ce_pin_count ce + 1\<rparr>) s)
         else if ce_closed ce then (Inl ENOENT, s)
         else (Inr (), upd_ctx c (\<lambda>ce. ce\<lparr>ce_pin_count := 1, ce_kref := ce_kref ce + 1,
                                          ce_dirty := ce_dirty ce \<or> moved\<rparr>) s))"

section \<open>Registration\<close>

definition guc_context_policy_init_v70 ::
  "guc_sub_env \<Rightarrow> bool \<Rightarrow> nat \<Rightarrow> guc_submission \<Rightarrow> unit res \<times> guc_submission" where
  "guc_context_policy_init_v70 E loop c s =
     (let (ret, s1) = guc_submission_send_busy_loop E
            (UPDATE_CONTEXT_POLICIES (ctx_key (the_ctx s c))) False loop s
      in (ret, upd_ctx c (if is_err ret then set_context_policy_required else clr_context_policy_required) s1))"

definition register_context ::
  "guc_sub_env \<Rightarrow> bool \<Rightarrow> nat \<Rightarrow> guc_submission \<Rightarrow> unit res \<times> guc_submission" where
  "register_context E loop c s =
     (let (ret, s1) = guc_submission_send_busy_loop E
            (REGISTER_CONTEXT (ctx_key (the_ctx s c))) False loop s
      in if is_err ret then (ret, s1)
         else
           let s2 = upd_ctx c set_context_registered s1
           in (ret, if ge_v70 E then snd (guc_context_policy_init_v70 E loop c s2) else s2))"

definition deregister_context ::
  "guc_sub_env \<Rightarrow> u32 \<Rightarrow> guc_submission \<Rightarrow> unit res \<times> guc_submission" where
  "deregister_context E i = guc_submission_send_busy_loop E (DEREGISTER_CONTEXT i) True True"

definition try_context_registration ::
  "guc_sub_env \<Rightarrow> bool \<Rightarrow> nat \<Rightarrow> guc_submission \<Rightarrow> unit res \<times> guc_submission" where
  "try_context_registration E loop c s =
     (let i = ctx_key (the_ctx s c);
          registered = ctx_id_mapped s i;
          s1 = set_ctx_id_mapping i c (clr_ctx_id_mapping i s)
      in if registered then
           if gs_disabled s1 then (Inr (), clr_ctx_id_mapping i s1)
           else
             let s2 = intel_context_get c (upd_ctx c set_context_wait_for_deregister_to_register s1);
                 (ret, s3) = deregister_context E i s2
             in (if ret = Inl ENODEV then Inr () else ret, s3)
         else
           let (ret, s2) = register_context E loop c s1
           in if ret = Inl EBUSY then (ret, clr_ctx_id_mapping i s2)
              else if ret = Inl ENODEV then (Inr (), clr_ctx_id_mapping i s2)
              else (ret, s2))"

section \<open>Disabling of scheduling\<close>

definition prep_context_pending_disable :: "nat \<Rightarrow> guc_submission \<Rightarrow> u16 \<times> guc_submission" where
  "prep_context_pending_disable c s =
     (let s1 = upd_ctx c (\<lambda>ce. (clr_context_enabled (set_context_pending_disable ce))\<lparr>ce_blocked_done := False\<rparr>) s
      in (ce_guc_id (the_ctx s c), intel_context_get c s1))"

definition guc_context_sched_disable_h2g :: "guc_sub_env \<Rightarrow> u16 \<Rightarrow> guc_submission \<Rightarrow> guc_submission" where
  "guc_context_sched_disable_h2g E i s =
     snd (guc_submission_send_busy_loop E (SCHED_CONTEXT_MODE_SET (ucast i) False) True True s)"

definition guc_context_sched_enable_h2g :: "guc_sub_env \<Rightarrow> nat \<Rightarrow> guc_submission \<Rightarrow> guc_submission" where
  "guc_context_sched_enable_h2g E c s =
     snd (guc_submission_send_busy_loop E
            (SCHED_CONTEXT_MODE_SET (ctx_key (the_ctx s c)) True) True True s)"

definition do_sched_disable :: "guc_sub_env \<Rightarrow> nat \<Rightarrow> guc_submission \<Rightarrow> guc_submission" where
  "do_sched_disable E c s =
     (let (i, s1) = prep_context_pending_disable c s in guc_context_sched_disable_h2g E i s1)"

definition bypass_sched_disable :: "nat \<Rightarrow> guc_submission \<Rightarrow> bool \<times> guc_submission" where
  "bypass_sched_disable c s =
     (let ce = the_ctx s c
      in if gs_disabled s \<or> context_guc_id_invalid ce \<or> \<not> ctx_id_mapped s (ctx_key ce)
         then (True, upd_ctx c clr_context_enabled s)
         else (\<not> context_enabled ce, s))"

definition delay_sched_disable :: "guc_sub_env \<Rightarrow> nat \<Rightarrow> guc_submission \<Rightarrow> guc_submission" where
  "delay_sched_disable E c s =
     (let (bypass, s1) = bypass_sched_disable c s
      in if bypass then intel_context_sched_disable_unpin c s1 else do_sched_disable E c s1)"

definition guc_id_pressure :: "intel_context \<Rightarrow> guc_submission \<Rightarrow> bool" where
  "guc_id_pressure ce s \<longleftrightarrow> intel_context_is_parent ce \<or> unat (gs_in_use s) > gs_threshold s"

definition guc_context_sched_disable :: "guc_sub_env \<Rightarrow> nat \<Rightarrow> guc_submission \<Rightarrow> guc_submission" where
  "guc_context_sched_disable E c s =
     (let (bypass, s1) = bypass_sched_disable c s
      in if bypass then intel_context_sched_disable_unpin c s1
         else if \<not> ce_closed (the_ctx s1 c) \<and> \<not> guc_id_pressure (the_ctx s1 c) s1 \<and> gs_delay_ms s1 \<noteq> 0
         then upd_ctx c (\<lambda>ce. ce\<lparr>ce_work := True\<rparr>) s1
         else do_sched_disable E c s1)"

text \<open>The last pin becomes the two pins that the end of the disabling gives back.\<close>

definition intel_context_unpin :: "guc_sub_env \<Rightarrow> nat \<Rightarrow> guc_submission \<Rightarrow> guc_submission" where
  "intel_context_unpin E c s =
     (if ce_pin_count (the_ctx s c) \<noteq> 1
      then upd_ctx c (\<lambda>ce. ce\<lparr>ce_pin_count := ce_pin_count ce - 1\<rparr>) s
      else guc_context_sched_disable E c (upd_ctx c (\<lambda>ce. ce\<lparr>ce_pin_count := 2\<rparr>) s))"

text \<open>The delayed work runs, and the context is closed, which runs pending work at once.\<close>

definition sched_disable_work :: "guc_sub_env \<Rightarrow> nat \<Rightarrow> guc_submission \<Rightarrow> guc_submission" where
  "sched_disable_work E c s =
     (if ce_work (the_ctx s c) then delay_sched_disable E c (upd_ctx c (\<lambda>ce. ce\<lparr>ce_work := False\<rparr>) s)
      else s)"

definition guc_context_close :: "guc_sub_env \<Rightarrow> nat \<Rightarrow> guc_submission \<Rightarrow> guc_submission" where
  "guc_context_close E c s =
     upd_ctx c set_context_close_done
       (if ce_init (the_ctx s c) then sched_disable_work E c s else s)"

section \<open>Blocking and revoking\<close>

definition guc_context_block :: "guc_sub_env \<Rightarrow> nat \<Rightarrow> guc_submission \<Rightarrow> guc_submission" where
  "guc_context_block E c s =
     (let s1 = upd_ctx c incr_context_blocked s;
          enabled = context_enabled (the_ctx s1 c)
      in if \<not> enabled \<or> gs_disabled s1
         then (if enabled then upd_ctx c clr_context_enabled s1 else s1)
         else
           let s2 = upd_ctx c (\<lambda>ce. ce\<lparr>ce_pin_count := ce_pin_count ce + 2\<rparr>) s1;
               (i, s3) = prep_context_pending_disable c s2
           in guc_context_sched_disable_h2g E i s3)"

definition context_cant_unblock :: "nat \<Rightarrow> guc_submission \<Rightarrow> bool" where
  "context_cant_unblock c s =
     (let ce = the_ctx s c
      in ce_state ce AND SCHED_STATE_NO_UNBLOCK \<noteq> 0 \<or> context_guc_id_invalid ce
         \<or> \<not> ctx_id_mapped s (ctx_key ce) \<or> \<not> intel_context_is_pinned ce)"

definition guc_context_unblock :: "guc_sub_env \<Rightarrow> nat \<Rightarrow> guc_submission \<Rightarrow> guc_submission" where
  "guc_context_unblock E c s =
     (if gs_disabled s \<or> context_cant_unblock c s then upd_ctx c decr_context_blocked s
      else
        let s1 = intel_context_get c
              (upd_ctx c (\<lambda>ce. set_context_enabled (set_context_pending_enable ce)) s);
            s2 = upd_ctx c decr_context_blocked s1
        in guc_context_sched_enable_h2g E c s2)"

definition guc_cancel_context_requests :: "nat \<Rightarrow> guc_submission \<Rightarrow> guc_submission" where
  "guc_cancel_context_requests c = upd_ctx c (\<lambda>ce. ce\<lparr>ce_completed := ce_requests ce\<rparr>)"

definition guc_context_set_preemption_timeout ::
  "guc_sub_env \<Rightarrow> u16 \<Rightarrow> guc_submission \<Rightarrow> guc_submission" where
  "guc_context_set_preemption_timeout E i s =
     snd (guc_submission_send_busy_loop E (UPDATE_CONTEXT_POLICIES (ucast i)) False True s)"

definition guc_context_revoke :: "guc_sub_env \<Rightarrow> nat \<Rightarrow> guc_submission \<Rightarrow> guc_submission" where
  "guc_context_revoke E c s =
     (let s1 = upd_ctx c set_context_banned s; ce = the_ctx s1 c
      in if gs_disabled s1 \<or> \<not> context_enabled ce \<and> \<not> context_pending_disable ce
         then guc_cancel_context_requests c s1
         else if \<not> context_pending_disable ce then
           let s2 = upd_ctx c (\<lambda>ce. ce\<lparr>ce_pin_count := ce_pin_count ce + 2\<rparr>) s1;
               (i, s3) = prep_context_pending_disable c s2
           in guc_context_sched_disable_h2g E i (guc_context_set_preemption_timeout E i s3)
         else if \<not> context_guc_id_invalid ce
         then guc_context_set_preemption_timeout E (ce_guc_id ce) s1
         else s1)"

definition intel_context_revoke :: "guc_sub_env \<Rightarrow> nat \<Rightarrow> guc_submission \<Rightarrow> guc_submission" where
  "intel_context_revoke E c s = guc_context_revoke E c (upd_ctx c (\<lambda>ce. ce\<lparr>ce_exiting := True\<rparr>) s)"

section \<open>Requests\<close>

definition remove_from_context :: "nat \<Rightarrow> nat \<Rightarrow> guc_submission \<Rightarrow> guc_submission" where
  "remove_from_context c r =
     upd_ctx c (\<lambda>ce. ce\<lparr>ce_requests := remove1 r (ce_requests ce),
                        ce_completed := remove1 r (ce_completed ce), ce_ref := ce_ref ce - 1\<rparr>)"

definition i915_request_retire ::
  "guc_sub_env \<Rightarrow> nat \<Rightarrow> nat \<Rightarrow> guc_submission \<Rightarrow> bool \<times> guc_submission" where
  "i915_request_retire E c r s =
     (if r \<notin> set (ce_completed (the_ctx s c)) then (False, s)
      else (True, intel_context_unpin E c (remove_from_context c r s)))"

fun retire_requests :: "guc_sub_env \<Rightarrow> nat \<Rightarrow> nat list \<Rightarrow> guc_submission \<Rightarrow> guc_submission" where
  "retire_requests E c [] s = s"
| "retire_requests E c (r # rs) s =
     (let (retired, s1) = i915_request_retire E c r s
      in if retired then retire_requests E c rs s1 else s1)"

definition intel_gt_retire_requests :: "guc_sub_env \<Rightarrow> guc_submission \<Rightarrow> guc_submission" where
  "intel_gt_retire_requests E s =
     fold (\<lambda>c s. if gs_ctxs s c = None then s else retire_requests E c (ce_requests (the_ctx s c)) s)
       (ge_timelines E) s"

definition PIN_GUC_ID_TRIES :: nat where
  "PIN_GUC_ID_TRIES = 4"

text \<open>The result tells whether a new id was assigned. \<open>tries\<close> counts the attempts left.\<close>

fun pin_guc_id_tries :: "guc_sub_env \<Rightarrow> nat \<Rightarrow> nat \<Rightarrow> guc_submission \<Rightarrow> bool res \<times> guc_submission" where
  "pin_guc_id_tries E tries c s =
     (let (ret, s1) = (if context_guc_id_invalid (the_ctx s c)
            then (case assign_guc_id (guc_env.truncate E) c s of
                    (Inl e, s1) \<Rightarrow> (Inl e, s1) | (Inr _, s1) \<Rightarrow> (Inr True, s1))
            else (Inr False, s))
      in case ret of
           Inr new \<Rightarrow>
             (Inr new, upd_ctx c (\<lambda>ce. ce\<lparr>ce_ref := ce_ref ce + 1\<rparr>)
                (s1\<lparr>gs_id_list := removeAll c (gs_id_list s1)\<rparr>))
         | Inl e \<Rightarrow>
             (case tries of
                Suc (Suc n) \<Rightarrow>
                  if e = EAGAIN then pin_guc_id_tries E (Suc n) c (intel_gt_retire_requests E s1)
                  else (Inl e, s1)
              | _ \<Rightarrow> (Inl e, s1)))"

declare pin_guc_id_tries.simps [simp del]

definition pin_guc_id :: "guc_sub_env \<Rightarrow> nat \<Rightarrow> guc_submission \<Rightarrow> bool res \<times> guc_submission" where
  "pin_guc_id E = pin_guc_id_tries E PIN_GUC_ID_TRIES"

definition context_needs_register :: "bool \<Rightarrow> nat \<Rightarrow> guc_submission \<Rightarrow> bool" where
  "context_needs_register new c s =
     ((new \<or> ce_dirty (the_ctx s c) \<or> \<not> ctx_id_mapped s (ctx_key (the_ctx s c))) \<and> \<not> gs_disabled s)"

definition disable_submission :: "guc_submission \<Rightarrow> guc_submission" where
  "disable_submission s = s\<lparr>gs_disabled := True\<rparr>"

text \<open>A request whose context waits for an answer of the GuC is held back by an extra fence.\<close>

definition guc_request_fence :: "nat \<Rightarrow> nat \<Rightarrow> guc_submission \<Rightarrow> guc_submission" where
  "guc_request_fence c r s =
     upd_ctx c (\<lambda>ce. if context_wait_for_deregister_to_register ce \<or> context_pending_disable ce
                     then ce\<lparr>ce_fences := ce_fences ce @ [r]\<rparr> else ce) s"

definition guc_request_alloc ::
  "guc_sub_env \<Rightarrow> nat \<Rightarrow> nat \<Rightarrow> guc_submission \<Rightarrow> unit res \<times> guc_submission" where
  "guc_request_alloc E c r s =
     (let s1 = upd_ctx c (\<lambda>ce. ce\<lparr>ce_init := True\<rparr>) s;
          s2 = (if ce_work (the_ctx s1 c)
                then intel_context_sched_disable_unpin c (upd_ctx c (\<lambda>ce. ce\<lparr>ce_work := False\<rparr>) s1)
                else s1)
      in if ce_ref (the_ctx s2 c) \<noteq> 0
         then (Inr (), guc_request_fence c r (upd_ctx c (\<lambda>ce. ce\<lparr>ce_ref := ce_ref ce + 1\<rparr>) s2))
         else
           (case pin_guc_id E c s2 of
              (Inl e, s3) \<Rightarrow> (Inl e, s3)
            | (Inr new, s3) \<Rightarrow>
                let (ret, s4) = (if context_needs_register new c s3
                                 then try_context_registration E True c s3 else (Inr (), s3))
                in if ret = Inl EPIPE
                   then (Inr (), guc_request_fence c r (disable_submission s4))
                   else if is_err ret
                   then (ret, unpin_guc_id c (upd_ctx c (\<lambda>ce. ce\<lparr>ce_ref := ce_ref ce - 1\<rparr>) s4))
                   else (Inr (), guc_request_fence c r (upd_ctx c (\<lambda>ce. ce\<lparr>ce_dirty := False\<rparr>) s4))))"

text \<open>\<open>i915_request_create\<close> pins the context for the request, and unpins it when there is no id.\<close>

definition i915_request_create ::
  "guc_sub_env \<Rightarrow> nat \<Rightarrow> nat \<Rightarrow> guc_submission \<Rightarrow> unit res \<times> guc_submission" where
  "i915_request_create E c r s =
     (let s1 = upd_ctx c (\<lambda>ce. ce\<lparr>ce_pin_count := ce_pin_count ce + 1\<rparr>) s
      in case guc_request_alloc E c r s1 of
           (Inl e, s2) \<Rightarrow> (Inl e, intel_context_unpin E c s2)
         | (Inr _, s2) \<Rightarrow> (Inr (), upd_ctx c (\<lambda>ce. ce\<lparr>ce_waiting := ce_waiting ce @ [r]\<rparr>) s2))"

section \<open>Submission\<close>

definition guc_add_request ::
  "guc_sub_env \<Rightarrow> nat \<Rightarrow> nat \<Rightarrow> guc_submission \<Rightarrow> unit res \<times> guc_submission" where
  "guc_add_request E c r s =
     (let (ret, s1) =
        (if \<not> intel_context_is_schedulable (the_ctx s c)
         then (Inr (), upd_ctx c (\<lambda>ce. ce\<lparr>ce_completed := ce_completed ce @ [r]\<rparr>) s)
         else
           let (err, s1) = (if context_policy_required (the_ctx s c)
                            then guc_context_policy_init_v70 E False c s else (Inr (), s));
               ce = the_ctx s1 c
           in if is_err err then (err, s1)
              else if context_blocked ce \<noteq> 0 \<and> \<not> intel_context_is_parent ce then (Inr (), s1)
              else if context_enabled ce \<or> context_blocked ce \<noteq> 0
              then guc_send_nb E (SCHED_CONTEXT (ctx_key ce)) s1
              else
                let s2 = intel_context_get c (upd_ctx c set_context_pending_enable s1)
                in case guc_send_nb E (SCHED_CONTEXT_MODE_SET (ctx_key ce) True) s2 of
                     (Inr _, s3) \<Rightarrow>
                       let s4 = upd_ctx c set_context_enabled (s3\<lparr>gs_outstanding := gs_outstanding s3 + 1\<rparr>)
                       in if intel_context_is_parent ce
                          then guc_send_nb E (SCHED_CONTEXT (ctx_key ce)) s4 else (Inr (), s4)
                   | (Inl e, s3) \<Rightarrow>
                       (Inl e, intel_context_put c (upd_ctx c clr_context_pending_enable s3)))
      in (ret, if ret = Inl EBUSY
               then s1\<lparr>gs_stalled := Some (c, r), gs_stall_reason := STALL_ADD_REQUEST\<rparr> else s1))"

definition i915_request_submit :: "nat \<Rightarrow> nat \<Rightarrow> guc_submission \<Rightarrow> guc_submission" where
  "i915_request_submit c r = upd_ctx c (\<lambda>ce. ce\<lparr>ce_requests := ce_requests ce @ [r]\<rparr>)"

definition queue_request :: "int \<Rightarrow> nat \<Rightarrow> nat \<Rightarrow> guc_submission \<Rightarrow> guc_submission" where
  "queue_request prio c r s =
     s\<lparr>gs_queue := takeWhile (\<lambda>(p, _). prio \<le> p) (gs_queue s) @ (prio, c, r)
                    # dropWhile (\<lambda>(p, _). prio \<le> p) (gs_queue s),
       gs_tasklet := True\<rparr>"

definition need_tasklet :: "nat \<Rightarrow> guc_submission \<Rightarrow> bool" where
  "need_tasklet c s =
     (gs_disabled s \<or> gs_stalled s \<noteq> None \<or> gs_queue s \<noteq> [] \<or> \<not> ctx_id_mapped s (ctx_key (the_ctx s c)))"

definition guc_bypass_tasklet_submit ::
  "guc_sub_env \<Rightarrow> nat \<Rightarrow> nat \<Rightarrow> guc_submission \<Rightarrow> unit res \<times> guc_submission" where
  "guc_bypass_tasklet_submit E c r s =
     (let (ret, s1) = guc_add_request E c r (i915_request_submit c r s)
      in (ret, if ret = Inl EPIPE then disable_submission s1 else s1))"

text \<open>The submit fence of a request signals.\<close>

definition guc_submit_request :: "guc_sub_env \<Rightarrow> int \<Rightarrow> nat \<Rightarrow> nat \<Rightarrow> guc_submission \<Rightarrow> guc_submission" where
  "guc_submit_request E prio c r s =
     (let s1 = upd_ctx c (\<lambda>ce. ce\<lparr>ce_waiting := remove1 r (ce_waiting ce)\<rparr>) s
      in if need_tasklet c s1 then queue_request prio c r s1
         else
           let (ret, s2) = guc_bypass_tasklet_submit E c r s1
           in if ret = Inl EBUSY then s2\<lparr>gs_tasklet := True\<rparr> else s2)"

text \<open>The tasklet takes the requests of one context off the queue and submits the last of them,
  unless an earlier request is stalled; a stalled request always has a reason. The result tells
  whether there may be more to do.\<close>

definition guc_dequeue_finish ::
  "guc_sub_env \<Rightarrow> bool \<Rightarrow> nat \<times> nat \<Rightarrow> guc_submission \<Rightarrow> bool \<times> guc_submission" where
  "guc_dequeue_finish E registered = (\<lambda>(c, r) s.
     let (ret, s1) =
           (if \<not> registered \<and> \<not> ctx_id_mapped s (ctx_key (the_ctx s c))
               \<and> intel_context_is_schedulable (the_ctx s c)
            then try_context_registration E False c s else (Inr (), s))
     in if ret = Inl EBUSY
        then (False, s1\<lparr>gs_stalled := Some (c, r), gs_stall_reason := STALL_REGISTER_CONTEXT,
                        gs_tasklet := True\<rparr>)
        else if is_err ret then (False, disable_submission s1)
        else
          let (ret2, s2) = guc_add_request E c r s1
          in if ret2 = Inl EBUSY then (False, s2\<lparr>gs_tasklet := True\<rparr>)
             else if is_err ret2 then (False, disable_submission s2)
             else (True, s2\<lparr>gs_stalled := None, gs_stall_reason := STALL_NONE\<rparr>))"

definition guc_dequeue_one_context :: "guc_sub_env \<Rightarrow> guc_submission \<Rightarrow> bool \<times> guc_submission" where
  "guc_dequeue_one_context E s =
     (case gs_stalled s of
        Some cr \<Rightarrow> guc_dequeue_finish E (gs_stall_reason s \<noteq> STALL_REGISTER_CONTEXT) cr s
      | None \<Rightarrow>
          (case gs_queue s of
             [] \<Rightarrow> (False, s\<lparr>gs_stalled := None, gs_stall_reason := STALL_NONE\<rparr>)
           | (p, c, r) # _ \<Rightarrow>
               let mine = takeWhile (\<lambda>(_, c', _). c' = c) (gs_queue s);
                   s1 = fold (\<lambda>(_, c', r'). i915_request_submit c' r') mine
                     (s\<lparr>gs_queue := dropWhile (\<lambda>(_, c', _). c' = c) (gs_queue s)\<rparr>)
               in guc_dequeue_finish E False (c, snd (snd (List.last mine))) s1))"

section \<open>Answers of the GuC\<close>

definition g2h_context_lookup :: "u32 \<Rightarrow> guc_submission \<Rightarrow> nat option" where
  "g2h_context_lookup i s =
     (if unat i \<ge> GUC_MAX_CONTEXT_ID then None
      else case gs_lookup s i of
             None \<Rightarrow> None
           | Some c \<Rightarrow> if intel_context_is_child (the_ctx s c) then None else Some c)"

definition guc_signal_context_fence :: "nat \<Rightarrow> guc_submission \<Rightarrow> guc_submission" where
  "guc_signal_context_fence c =
     upd_ctx c (\<lambda>ce. (clr_context_wait_for_deregister_to_register ce)\<lparr>ce_fences := []\<rparr>)"

definition intel_guc_deregister_done_process_msg ::
  "guc_sub_env \<Rightarrow> u32 list \<Rightarrow> guc_submission \<Rightarrow> unit res \<times> guc_submission" where
  "intel_guc_deregister_done_process_msg E msg s =
     (if length msg < 1 then (Inl EPROTO, s)
      else case g2h_context_lookup (msg ! 0) s of
        None \<Rightarrow> (Inl EPROTO, s)
      | Some c \<Rightarrow>
          let s1 =
            (if context_wait_for_deregister_to_register (the_ctx s c)
             then intel_context_put c (guc_signal_context_fence c (snd (register_context E True c s)))
             else if context_destroyed (the_ctx s c)
             then guc_context_free c (release_guc_id c s)
             else s)
          in (Inr (), decr_outstanding_submission_g2h s1))"

definition intel_guc_sched_done_process_msg ::
  "u32 list \<Rightarrow> guc_submission \<Rightarrow> unit res \<times> guc_submission" where
  "intel_guc_sched_done_process_msg msg s =
     (if length msg < 2 then (Inl EPROTO, s)
      else case g2h_context_lookup (msg ! 0) s of
        None \<Rightarrow> (Inl EPROTO, s)
      | Some c \<Rightarrow>
          let ce = the_ctx s c
          in if context_destroyed ce \<or> \<not> context_pending_enable ce \<and> \<not> context_pending_disable ce
             then (Inl EPROTO, s)
             else
               let s1 =
                 (if context_pending_enable ce then upd_ctx c clr_context_pending_enable s
                  else
                    let s2 = intel_context_sched_disable_unpin c s;
                        banned = context_banned (the_ctx s2 c);
                        s3 = upd_ctx c (\<lambda>ce. (clr_context_pending_disable (clr_context_banned ce))
                               \<lparr>ce_fences := [], ce_blocked_done := True\<rparr>) s2
                    in if banned then guc_cancel_context_requests c s3 else s3)
               in (Inr (), intel_context_put c (decr_outstanding_submission_g2h s1)))"

section \<open>Destruction\<close>

definition guc_lrc_desc_unpin :: "guc_sub_env \<Rightarrow> nat \<Rightarrow> guc_submission \<Rightarrow> guc_submission" where
  "guc_lrc_desc_unpin E c s =
     (if gs_disabled s then guc_context_free c (release_guc_id c s)
      else
        let s1 = upd_ctx c (\<lambda>ce. clr_context_registered (set_context_destroyed ce)) s
        in snd (deregister_context E (ctx_key (the_ctx s1 c)) s1))"

fun deregister_destroyed_loop :: "guc_sub_env \<Rightarrow> nat list \<Rightarrow> guc_submission \<Rightarrow> guc_submission" where
  "deregister_destroyed_loop E [] s = s"
| "deregister_destroyed_loop E (c # cs) s =
     deregister_destroyed_loop E cs (guc_lrc_desc_unpin E c (s\<lparr>gs_destroyed := cs\<rparr>))"

definition destroyed_worker_func :: "guc_sub_env \<Rightarrow> guc_submission \<Rightarrow> guc_submission" where
  "destroyed_worker_func E s =
     deregister_destroyed_loop E (gs_destroyed s) (s\<lparr>gs_destroyed_work := False\<rparr>)"

end
