(* ===== verification/Guc_Protocol.thy ===== *)
theory Guc_Protocol
  imports Guc_Submission
begin

text \<open>
  The protocol between submission and the GuC. The GuC is specified by what it accepts: a context is
  registered once, scheduling is enabled only when no disabling is under way, and a registration
  only when no deregistration is. The driver and the GuC run as interleaved steps over the two
  queues of messages between them.
\<close>

section \<open>What the GuC accepts\<close>

datatype (plugins only: code) fw_status =
  FW_Unregistered | FW_Disabled | FW_Enabled | FW_Disabling | FW_Deregistering

text \<open>The id a message is about, and the status after it; \<open>None\<close> when the GuC refuses the message.\<close>

fun h2g_id :: "h2g_action \<Rightarrow> u32" where
  "h2g_id (REGISTER_CONTEXT i) = i"
| "h2g_id (DEREGISTER_CONTEXT i) = i"
| "h2g_id (SCHED_CONTEXT i) = i"
| "h2g_id (SCHED_CONTEXT_MODE_SET i b) = i"
| "h2g_id (UPDATE_CONTEXT_POLICIES i) = i"

fun fw_accept :: "h2g_action \<Rightarrow> fw_status \<Rightarrow> fw_status option" where
  "fw_accept (REGISTER_CONTEXT i) st = (if st = FW_Unregistered then Some FW_Disabled else None)"
| "fw_accept (DEREGISTER_CONTEXT i) st = (if st = FW_Disabled then Some FW_Deregistering else None)"
| "fw_accept (SCHED_CONTEXT i) st = (if st = FW_Enabled then Some st else None)"
| "fw_accept (SCHED_CONTEXT_MODE_SET i enable) st =
     (if enable then (if st = FW_Disabled then Some FW_Enabled else None)
      else (if st = FW_Enabled then Some FW_Disabling else None))"
| "fw_accept (UPDATE_CONTEXT_POLICIES i) st =
     (if st = FW_Unregistered \<or> st = FW_Deregistering then None else Some st)"

text \<open>Answers that a message calls for, those that a status still owes, and the status after it.\<close>

datatype (plugins only: code) g2h_kind = Sched_Done | Deregister_Done

fun h2g_answers :: "h2g_action \<Rightarrow> g2h_kind list" where
  "h2g_answers (SCHED_CONTEXT_MODE_SET i b) = [Sched_Done]"
| "h2g_answers (DEREGISTER_CONTEXT i) = [Deregister_Done]"
| "h2g_answers _ = []"

fun fw_owes :: "fw_status \<Rightarrow> g2h_kind list" where
  "fw_owes FW_Disabling = [Sched_Done]"
| "fw_owes FW_Deregistering = [Deregister_Done]"
| "fw_owes _ = []"

fun fw_settle :: "fw_status \<Rightarrow> fw_status" where
  "fw_settle FW_Disabling = FW_Disabled"
| "fw_settle FW_Deregistering = FW_Unregistered"
| "fw_settle st = st"

fun g2h_id :: "g2h_action \<Rightarrow> u32" where
  "g2h_id (DEREGISTER_CONTEXT_DONE msg) = msg ! 0"
| "g2h_id (SCHED_CONTEXT_MODE_DONE msg) = msg ! 0"

fun g2h_kind_of :: "g2h_action \<Rightarrow> g2h_kind" where
  "g2h_kind_of (DEREGISTER_CONTEXT_DONE msg) = Deregister_Done"
| "g2h_kind_of (SCHED_CONTEXT_MODE_DONE msg) = Sched_Done"

fun g2h_well_formed :: "g2h_action \<Rightarrow> bool" where
  "g2h_well_formed (DEREGISTER_CONTEXT_DONE msg) \<longleftrightarrow> length msg = 1"
| "g2h_well_formed (SCHED_CONTEXT_MODE_DONE msg) \<longleftrightarrow> length msg = 2"

text \<open>An enabling is answered at once, a disabling and a deregistration when they are finished.\<close>

fun h2g_answer_now :: "h2g_action \<Rightarrow> g2h_action list" where
  "h2g_answer_now (SCHED_CONTEXT_MODE_SET i enable) =
     (if enable then [SCHED_CONTEXT_MODE_DONE [i, 1]] else [])"
| "h2g_answer_now _ = []"

fun fw_answer :: "u32 \<Rightarrow> fw_status \<Rightarrow> g2h_action list" where
  "fw_answer i FW_Disabling = [SCHED_CONTEXT_MODE_DONE [i, 0]]"
| "fw_answer i FW_Deregistering = [DEREGISTER_CONTEXT_DONE [i]]"
| "fw_answer i _ = []"

type_synonym fw = "u32 \<Rightarrow> fw_status"

section \<open>One id\<close>

text \<open>
  \<open>fw_run\<close> is the status after the messages that are still in the queue. \<open>chan_ok\<close> says of one id
  that the GuC will accept all of them, that it will end in the status \<open>want\<close> that the driver
  assumes, and that the answers on the way and to come are those that the driver expects.
\<close>

fun fw_run :: "h2g_action list \<Rightarrow> fw_status \<Rightarrow> fw_status option" where
  "fw_run [] st = Some st"
| "fw_run (m # ms) st = (case fw_accept m st of None \<Rightarrow> None | Some st' \<Rightarrow> fw_run ms st')"

definition chan_ok ::
  "fw_status \<Rightarrow> g2h_kind list \<Rightarrow> h2g_action list \<Rightarrow> fw_status \<Rightarrow> g2h_kind list \<Rightarrow> bool" where
  "chan_ok want expect hs st gs \<longleftrightarrow>
     (\<exists>fin. fw_run hs st = Some fin \<and> fw_settle fin = want)
     \<and> gs @ fw_owes st @ concat (map h2g_answers hs) = expect"

lemma fw_run_append:
  "fw_run (hs @ hs') st = (case fw_run hs st of None \<Rightarrow> None | Some st' \<Rightarrow> fw_run hs' st')"
  by (induction hs arbitrary: st) (auto split: option.splits)

lemma fw_accept_owes:
  assumes "fw_accept m st = Some st'"
  shows "fw_owes st @ h2g_answers m = map g2h_kind_of (h2g_answer_now m) @ fw_owes st'"
    "fw_owes st = [] \<Longrightarrow> h2g_answers m = [] \<Longrightarrow> fw_owes st' = []"
  using assms by (cases m; cases st; simp split: if_splits; auto)+

lemma fw_accept_busy:
  assumes "fw_accept m st = Some st'" "fw_settle st \<noteq> st"
  shows "st' = st" "fw_accept m (fw_settle st) = Some (fw_settle st)"
  using assms by (cases m; cases st; simp split: if_splits)+

text \<open>When no answer is outstanding the GuC rests in the status that the driver assumes.\<close>

lemma fw_run_rest:
  assumes "fw_run hs st = Some fin" "fw_owes st @ concat (map h2g_answers hs) = []"
  shows "fw_settle fin = fin"
  using assms
proof (induction hs arbitrary: st)
  case Nil
  then show ?case by (cases fin) simp_all
next
  case (Cons m hs)
  then obtain st' where st': "fw_accept m st = Some st'" "fw_run hs st' = Some fin"
    by (auto split: option.splits)
  with Cons.prems(2) have "fw_owes st' = []"
    using fw_accept_owes(2) [OF st'(1)] by simp
  with Cons st'(2) show ?case by simp
qed

lemma chan_ok_rest:
  assumes "chan_ok want [] hs st gs"
  shows "fw_run hs st = Some want" "concat (map h2g_answers hs) = []" "fw_owes st = []" "gs = []"
proof -
  from assms obtain fin where fin: "fw_run hs st = Some fin" "fw_settle fin = want"
      and e: "gs @ fw_owes st @ concat (map h2g_answers hs) = []"
    by (auto simp: chan_ok_def)
  have "fw_settle fin = fin" using fw_run_rest [OF fin(1)] e by simp
  with fin show "fw_run hs st = Some want" by simp
  from e show "concat (map h2g_answers hs) = []" "fw_owes st = []" "gs = []" by simp_all
qed

text \<open>The driver sends a message when it knows that the GuC rests.\<close>

lemma chan_ok_send:
  assumes "chan_ok want [] hs st gs" "fw_accept m want = Some st'"
  shows "chan_ok (fw_settle st') (h2g_answers m) (hs @ [m]) st gs"
  using chan_ok_rest [OF assms(1)] assms(2) by (simp add: chan_ok_def fw_run_append)

text \<open>While scheduling is enabled the driver may disable it without waiting for the answer to the
  enabling.\<close>

lemma chan_ok_run_enabled:
  assumes "chan_ok FW_Enabled e hs st gs"
  shows "fw_run hs st = Some FW_Enabled"
proof -
  from assms obtain fin where "fw_run hs st = Some fin" "fw_settle fin = FW_Enabled"
    by (auto simp: chan_ok_def)
  then show ?thesis by (cases fin) simp_all
qed

lemma chan_ok_send_enabled:
  assumes "chan_ok FW_Enabled e hs st gs" "fw_accept m FW_Enabled = Some st'"
  shows "chan_ok (fw_settle st') (e @ h2g_answers m) (hs @ [m]) st gs"
  using chan_ok_run_enabled [OF assms(1)] assms by (auto simp: chan_ok_def fw_run_append)

lemma chan_ok_policy:
  assumes "chan_ok want e hs st gs" "want \<noteq> FW_Unregistered" "m = UPDATE_CONTEXT_POLICIES i"
  shows "chan_ok want e (hs @ [m]) st gs"
proof -
  from assms(1) obtain fin where fin: "fw_run hs st = Some fin" "fw_settle fin = want"
      and e: "gs @ fw_owes st @ concat (map h2g_answers hs) = e"
    by (auto simp: chan_ok_def)
  then have "fw_accept m fin = Some fin" using assms(2,3) by (cases fin) simp_all
  with fin e assms(3) show ?thesis by (simp add: chan_ok_def fw_run_append)
qed

text \<open>The GuC takes a message, finishes an operation, and the driver takes an answer.\<close>

lemma chan_ok_take:
  assumes "chan_ok want e (m # hs) st gs"
  obtains st' where "fw_accept m st = Some st'"
    "chan_ok want e hs st' (gs @ map g2h_kind_of (h2g_answer_now m))"
proof -
  from assms obtain fin st' where st': "fw_accept m st = Some st'" "fw_run hs st' = Some fin"
      "fw_settle fin = want"
      and e: "gs @ fw_owes st @ h2g_answers m @ concat (map h2g_answers hs) = e"
    by (auto simp: chan_ok_def split: option.splits)
  note owes = fw_accept_owes(1) [OF st'(1)]
  have "chan_ok want e hs st' (gs @ map g2h_kind_of (h2g_answer_now m))"
    using st' e owes by (auto simp: chan_ok_def)
  with st'(1) show ?thesis by (rule that)
qed

lemma chan_ok_finish:
  assumes "chan_ok want e hs st gs"
  shows "chan_ok want e hs (fw_settle st) (gs @ map g2h_kind_of (fw_answer i st))"
proof -
  from assms obtain fin where fin: "fw_run hs st = Some fin" "fw_settle fin = want"
    by (auto simp: chan_ok_def)
  have "\<exists>fin. fw_run hs (fw_settle st) = Some fin \<and> fw_settle fin = want"
    using fin
  proof (induction hs arbitrary: st)
    case Nil
    then show ?case by (cases st) auto
  next
    case (Cons m hs)
    show ?case
    proof (cases "fw_settle st = st")
      case True
      with Cons.prems show ?thesis by auto
    next
      case False
      from Cons.prems(1) obtain st' where "fw_accept m st = Some st'"
        by (auto split: option.splits)
      with fw_accept_busy [OF this False] Cons False show ?thesis by auto
    qed
  qed
  with assms show ?thesis
    by (cases st) (auto simp: chan_ok_def)
qed

lemma chan_ok_receive: "chan_ok want (k # e) hs st (k # gs) \<Longrightarrow> chan_ok want e hs st gs"
  by (simp add: chan_ok_def)

lemma chan_ok_first: "chan_ok want e hs st (k # gs) \<Longrightarrow> e \<noteq> [] \<and> hd e = k"
  by (auto simp: chan_ok_def)

section \<open>Steps of the driver and of the GuC\<close>

text \<open>
  The callers of submission hold a reference or a pin of a context of their own while they work
  on it. \<open>own_refs\<close> and \<open>own_pins\<close> are the references and the pins that submission holds itself, so
  that the rest belongs to the callers.
\<close>

definition queued :: "guc_submission \<Rightarrow> nat \<Rightarrow> nat list" where
  "queued s c = map (\<lambda>(_, _, r). r) (filter (\<lambda>(_, d, _). d = c) (gs_queue s))"

definition own_refs :: "intel_context \<Rightarrow> int" where
  "own_refs ce = of_bool (ce_pin_count ce \<noteq> 0) + of_bool (context_wait_for_deregister_to_register ce)
     + of_bool (context_pending_enable ce) + of_bool (context_pending_disable ce)
     + int (unat (context_blocked ce))"

definition own_pins :: "intel_context \<Rightarrow> int" where
  "own_pins ce = ce_ref ce + 2 * of_bool (ce_work ce) + 2 * of_bool (context_pending_disable ce)"

definition held :: "guc_submission \<Rightarrow> nat \<Rightarrow> bool" where
  "held s c \<longleftrightarrow> gs_ctxs s c \<noteq> None \<and> ce_kref (the_ctx s c) > own_refs (the_ctx s c)"

definition pinned :: "guc_submission \<Rightarrow> nat \<Rightarrow> bool" where
  "pinned s c \<longleftrightarrow> gs_ctxs s c \<noteq> None \<and> ce_pin_count (the_ctx s c) > own_pins (the_ctx s c)"

definition intel_context_close :: "guc_sub_env \<Rightarrow> nat \<Rightarrow> guc_submission \<Rightarrow> guc_submission" where
  "intel_context_close E c s = guc_context_close E c (upd_ctx c (\<lambda>ce. ce\<lparr>ce_closed := True\<rparr>) s)"

text \<open>\<open>guc_context_cancel_request\<close> before and after the wait for the blocked fence. It holds a
  reference meanwhile.\<close>

definition cancel_request_block :: "guc_sub_env \<Rightarrow> nat \<Rightarrow> guc_submission \<Rightarrow> guc_submission" where
  "cancel_request_block E c s = guc_context_block E c (intel_context_get c s)"

definition cancel_request_unblock :: "guc_sub_env \<Rightarrow> nat \<Rightarrow> guc_submission \<Rightarrow> guc_submission" where
  "cancel_request_unblock E c s = intel_context_put c (guc_context_unblock E c s)"

text \<open>One round of the loop of \<open>guc_submission_tasklet\<close>.\<close>

definition guc_submission_tasklet :: "guc_sub_env \<Rightarrow> guc_submission \<Rightarrow> guc_submission" where
  "guc_submission_tasklet E s =
     (let (loop, s1) = guc_dequeue_one_context E (s\<lparr>gs_tasklet := False\<rparr>)
      in if loop then s1\<lparr>gs_tasklet := True\<rparr> else s1)"

definition gpu_completes :: "nat \<Rightarrow> nat \<Rightarrow> guc_submission \<Rightarrow> guc_submission" where
  "gpu_completes c r = upd_ctx c (\<lambda>ce. ce\<lparr>ce_completed := ce_completed ce @ [r]\<rparr>)"

definition process_g2h :: "guc_sub_env \<Rightarrow> g2h_action \<Rightarrow> guc_submission \<Rightarrow> unit res \<times> guc_submission" where
  "process_g2h E m s =
     (case m of
        DEREGISTER_CONTEXT_DONE msg \<Rightarrow> intel_guc_deregister_done_process_msg E msg s
      | SCHED_CONTEXT_MODE_DONE msg \<Rightarrow> intel_guc_sched_done_process_msg msg s)"

definition ct_up :: "guc_sub_env \<Rightarrow> bool" where
  "ct_up E \<longleftrightarrow> (\<forall>s. ge_wait E s = Inr ())"

text \<open>
  The steps, for single contexts and a limit on ids that does not change. Two of them have a
  condition that the code does not enforce: a stalled request is not revoked, and a context is not
  unblocked when its id may be stolen or when it waits for the deregistration of an id that it stole.
  In all of them the communication with the GuC is up and no send is interrupted by a signal
  (\<open>ct_up\<close>; the code ignores the error of such a send). Each function of the driver is one step, also
  where it leaves a critical section and enters another.
  A message that the GuC refuses is a step to no state, so that refusal shows as a queue whose head
  is not acceptable.
\<close>

inductive sub_step :: "guc_submission \<times> fw \<Rightarrow> guc_submission \<times> fw \<Rightarrow> bool" where
  step_get: "held s c \<Longrightarrow> sub_step (s, f) (intel_context_get c s, f)"
| step_put: "held s c \<Longrightarrow> sub_step (s, f) (intel_context_put c s, f)"
| step_pin: "held s c \<Longrightarrow> sub_step (s, f) (snd (intel_context_pin moved c s), f)"
| step_unpin: "pinned s c \<Longrightarrow> ct_up E \<Longrightarrow> sub_step (s, f) (intel_context_unpin E c s, f)"
| step_close: "held s c \<Longrightarrow> ct_up E \<Longrightarrow> sub_step (s, f) (intel_context_close E c s, f)"
| step_work: "gs_ctxs s c \<noteq> None \<Longrightarrow> ct_up E \<Longrightarrow> sub_step (s, f) (sched_disable_work E c s, f)"
| step_request: "pinned s c \<Longrightarrow> ct_up E \<Longrightarrow>
    r \<notin> set (ce_waiting (the_ctx s c)) \<union> set (ce_requests (the_ctx s c)) \<union> set (queued s c) \<Longrightarrow>
    sub_step (s, f) (snd (i915_request_create E c r s), f)"
| step_submit: "gs_ctxs s c \<noteq> None \<Longrightarrow> ct_up E \<Longrightarrow>
    r \<in> set (ce_waiting (the_ctx s c)) - set (ce_fences (the_ctx s c)) \<Longrightarrow>
    sub_step (s, f) (guc_submit_request E prio c r s, f)"
| step_tasklet: "gs_tasklet s \<Longrightarrow> ct_up E \<Longrightarrow> sub_step (s, f) (guc_submission_tasklet E s, f)"
| step_complete: "gs_ctxs s c \<noteq> None \<Longrightarrow> gs_stalled s \<noteq> Some (c, r) \<Longrightarrow>
    r \<in> set (ce_requests (the_ctx s c)) - set (ce_completed (the_ctx s c)) \<Longrightarrow>
    sub_step (s, f) (gpu_completes c r s, f)"
| step_retire: "ct_up E \<Longrightarrow> sub_step (s, f) (intel_gt_retire_requests E s, f)"
| step_block: "held s c \<Longrightarrow> ct_up E \<Longrightarrow> unat (context_blocked (the_ctx s c)) < 4095 \<Longrightarrow>
    r \<in> set (ce_requests (the_ctx s c)) \<union> set (queued s c) \<Longrightarrow>
    sub_step (s, f) (cancel_request_block E c s, f)"
| step_unblock: "gs_ctxs s c \<noteq> None \<Longrightarrow> ct_up E \<Longrightarrow> context_blocked (the_ctx s c) \<noteq> 0 \<Longrightarrow>
    ce_blocked_done (the_ctx s c) \<Longrightarrow> c \<notin> set (gs_id_list s) \<Longrightarrow>
    \<not> context_wait_for_deregister_to_register (the_ctx s c) \<Longrightarrow>
    sub_step (s, f) (cancel_request_unblock E c s, f)"
| step_revoke: "held s c \<Longrightarrow> ct_up E \<Longrightarrow> (\<forall>r. gs_stalled s \<noteq> Some (c, r)) \<Longrightarrow>
    sub_step (s, f) (intel_context_revoke E c s, f)"
| step_destroy: "gs_destroyed_work s \<Longrightarrow> ct_up E \<Longrightarrow> sub_step (s, f) (destroyed_worker_func E s, f)"
| step_receive: "gs_g2h s = m # ms \<Longrightarrow> ct_up E \<Longrightarrow>
    sub_step (s, f) (snd (process_g2h E m (s\<lparr>gs_g2h := ms\<rparr>)), f)"
| step_fw_take: "gs_h2g s = m # ms \<Longrightarrow> fw_accept m (f (h2g_id m)) = Some st \<Longrightarrow>
    sub_step (s, f) (s\<lparr>gs_h2g := ms, gs_g2h := gs_g2h s @ h2g_answer_now m\<rparr>, f(h2g_id m := st))"
| step_fw_finish:
    "sub_step (s, f) (s\<lparr>gs_g2h := gs_g2h s @ fw_answer i (f i)\<rparr>, f(i := fw_settle (f i)))"

text \<open>A context before its first use, and the state after initialisation with the limit \<open>n\<close> on ids.\<close>

definition fresh_context :: "intel_context \<Rightarrow> bool" where
  "fresh_context ce \<longleftrightarrow> context_guc_id_invalid ce \<and> ce_ref ce = 0 \<and> ce_pin_count ce = 0 \<and> ce_kref ce > 0
     \<and> ce_state ce = 0 \<and> ce_waiting ce = [] \<and> ce_fences ce = [] \<and> ce_requests ce = [] \<and> ce_completed ce = []
     \<and> ce_blocked_done ce \<and> \<not> ce_work ce \<and> \<not> ce_exiting ce \<and> \<not> ce_closed ce
     \<and> ce_children ce = [] \<and> ce_parent ce = None"

definition sub_init :: "u32 \<Rightarrow> (nat \<Rightarrow> intel_context option) \<Rightarrow> guc_submission" where
  "sub_init n C = submission_init_ids (snd (limit_guc_ids n (intel_guc_submission_init_early C)))"

inductive sub_reach :: "guc_submission \<times> fw \<Rightarrow> guc_submission \<times> fw \<Rightarrow> bool" for c0 where
  sub_reach_refl: "sub_reach c0 c0"
| sub_reach_step: "sub_reach c0 c1 \<Longrightarrow> sub_step c1 c2 \<Longrightarrow> sub_reach c0 c2"

section \<open>The invariant of a context\<close>

definition valid :: "intel_context \<Rightarrow> bool" where
  "valid ce \<longleftrightarrow> \<not> context_guc_id_invalid ce"

abbreviation (input) W where "W ce \<equiv> context_wait_for_deregister_to_register ce"
abbreviation (input) PE where "PE ce \<equiv> context_pending_enable ce"
abbreviation (input) PD where "PD ce \<equiv> context_pending_disable ce"
abbreviation (input) EN where "EN ce \<equiv> context_enabled ce"
abbreviation (input) DE where "DE ce \<equiv> context_destroyed ce"
abbreviation (input) blocked where "blocked ce \<equiv> unat (context_blocked ce)"

text \<open>
  What holds of a context between steps, given whether it is in the list of ids to steal (\<open>inl\<close>) and
  in that of destroyed contexts (\<open>des\<close>), and its requests in the queue of the scheduler (\<open>q\<close>).
\<close>

definition counts_ok :: "nat list \<Rightarrow> intel_context \<Rightarrow> bool" where
  "counts_ok q ce \<longleftrightarrow>
     ce_ref ce = int (length (ce_waiting ce) + length (ce_requests ce) + length q)
     \<and> own_pins ce \<le> ce_pin_count ce \<and> own_refs ce \<le> ce_kref ce
     \<and> distinct (ce_waiting ce @ ce_requests ce @ q)
     \<and> set (ce_fences ce) \<subseteq> set (ce_waiting ce) \<and> set (ce_completed ce) \<subseteq> set (ce_requests ce)
     \<and> distinct (ce_completed ce) \<and> (ce_work ce \<longrightarrow> ce_ref ce = 0)"

definition flags_ok :: "intel_context \<Rightarrow> bool" where
  "flags_ok ce \<longleftrightarrow>
     (EN ce \<longrightarrow> ce_pin_count ce \<noteq> 0 \<and> \<not> PD ce \<and> \<not> W ce \<and> blocked ce = 0)
     \<and> (PE ce \<longrightarrow> EN ce \<or> PD ce) \<and> (W ce \<longrightarrow> \<not> PE ce \<and> \<not> PD ce)
     \<and> (ce_blocked_done ce \<longleftrightarrow> \<not> PD ce)
     \<and> (W ce \<or> EN ce \<or> PE ce \<or> PD ce \<or> DE ce \<or> ce_ref ce \<noteq> 0 \<longrightarrow> valid ce)
     \<and> (context_banned ce \<longrightarrow> ce_exiting ce)
     \<and> ce_children ce = [] \<and> ce_parent ce = None"

definition fences_ok :: "nat list \<Rightarrow> intel_context \<Rightarrow> bool" where
  "fences_ok q ce \<longleftrightarrow>
     (W ce \<or> PD ce \<and> blocked ce = 0 \<and> \<not> ce_exiting ce
        \<longrightarrow> set (ce_waiting ce) \<subseteq> set (ce_fences ce) \<and> ce_requests ce = [] \<and> q = [])
     \<and> (ce_fences ce \<noteq> [] \<longrightarrow> W ce \<or> PD ce) \<and> (W ce \<longrightarrow> ce_waiting ce \<noteq> [])"

text \<open>A context that nobody has pinned, or that moved when it was pinned, has its id in the list of ids
  to steal.\<close>

definition idle_listed :: "bool \<Rightarrow> intel_context \<Rightarrow> bool" where
  "idle_listed inl ce \<longleftrightarrow> (valid ce \<and> ce_kref ce \<noteq> 0 \<and> (ce_dirty ce \<or> ce_pin_count ce = 0) \<longrightarrow> inl)"

definition lists_ok :: "bool \<Rightarrow> bool \<Rightarrow> intel_context \<Rightarrow> bool" where
  "lists_ok inl des ce \<longleftrightarrow>
     (inl \<longrightarrow> valid ce \<and> ce_ref ce = 0 \<and> \<not> W ce \<and> \<not> EN ce \<and> \<not> PE ce \<and> \<not> PD ce \<and> ce_kref ce > 0)
     \<and> (des \<longrightarrow> valid ce \<and> \<not> DE ce) \<and> (ce_kref ce = 0 \<longleftrightarrow> des \<or> DE ce)
     \<and> idle_listed inl ce"

definition ctx_ok :: "bool \<Rightarrow> bool \<Rightarrow> nat list \<Rightarrow> intel_context \<Rightarrow> bool" where
  "ctx_ok inl des q ce \<longleftrightarrow> counts_ok q ce \<and> flags_ok ce \<and> fences_ok q ce \<and> lists_ok inl des ce"

text \<open>The status that the driver assumes for a context, and the answers that it expects.\<close>

definition want :: "intel_context \<Rightarrow> fw_status" where
  "want ce = (if W ce \<or> DE ce then FW_Unregistered else if EN ce then FW_Enabled else FW_Disabled)"

definition expected :: "intel_context \<Rightarrow> g2h_kind list" where
  "expected ce = (if PE ce then [Sched_Done] else []) @ (if PD ce then [Sched_Done] else [])
     @ (if W ce \<or> DE ce then [Deregister_Done] else [])"

definition about :: "u32 \<Rightarrow> h2g_action list \<Rightarrow> h2g_action list" where
  "about i = filter (\<lambda>m. h2g_id m = i)"

definition answers_about :: "u32 \<Rightarrow> g2h_action list \<Rightarrow> g2h_kind list" where
  "answers_about i gs = map g2h_kind_of (filter (\<lambda>m. g2h_id m = i) gs)"

definition id_ok :: "guc_submission \<Rightarrow> fw \<Rightarrow> u32 \<Rightarrow> bool" where
  "id_ok s f i \<longleftrightarrow>
     (case gs_lookup s i of
        None \<Rightarrow> chan_ok FW_Unregistered [] (about i (gs_h2g s)) (f i) (answers_about i (gs_g2h s))
      | Some c \<Rightarrow> chan_ok (want (the_ctx s c)) (expected (the_ctx s c))
          (about i (gs_h2g s)) (f i) (answers_about i (gs_g2h s)))"

definition ids_ok :: "guc_submission \<Rightarrow> bool" where
  "ids_ok s \<longleftrightarrow>
     distinct (gs_ids s) \<and> number_slrc_guc_id s \<noteq> 0 \<and> gs_num_ids s \<le> GUC_MAX_CONTEXT_ID
     \<and> set (gs_ids s) \<subseteq> {..<number_slrc_guc_id s}
     \<and> unat (gs_in_use s) = length (gs_ids s)
     \<and> (\<forall>i. gs_lookup s i \<noteq> None \<longleftrightarrow> unat i \<in> set (gs_ids s))
     \<and> (\<forall>i c. gs_lookup s i = Some c \<longrightarrow>
          (\<exists>ce. gs_ctxs s c = Some ce \<and> valid ce \<and> ctx_key ce = i))
     \<and> (\<forall>c ce. gs_ctxs s c = Some ce \<and> valid ce \<longrightarrow> gs_lookup s (ctx_key ce) = Some c)"

definition queues_ok :: "guc_submission \<Rightarrow> bool" where
  "queues_ok s \<longleftrightarrow>
     \<not> gs_disabled s \<and> gs_initialized s \<and> gs_bitmap s = bitmap_zero (number_mlrc_guc_id s)
     \<and> distinct (gs_id_list s) \<and> distinct (gs_destroyed s)
     \<and> (\<forall>c \<in> set (gs_id_list s) \<union> set (gs_destroyed s). gs_ctxs s c \<noteq> None)
     \<and> (\<forall>c. gs_ctxs s c = None \<longrightarrow> queued s c = [])
     \<and> (\<forall>c r. gs_stalled s = Some (c, r) \<longrightarrow>
          (\<exists>ce. gs_ctxs s c = Some ce \<and> \<not> ce_exiting ce \<and> r \<in> set (ce_requests ce) - set (ce_completed ce)))
     \<and> list_all g2h_well_formed (gs_g2h s)"

definition sub_inv :: "guc_submission \<times> fw \<Rightarrow> bool" where
  "sub_inv = (\<lambda>(s, f). ids_ok s \<and> queues_ok s
     \<and> (\<forall>c ce. gs_ctxs s c = Some ce \<longrightarrow>
          ctx_ok (c \<in> set (gs_id_list s)) (c \<in> set (gs_destroyed s)) (queued s c) ce)
     \<and> (\<forall>i. id_ok s f i))"

end
