(* ===== verification/Guc_Protocol_Inv.thy ===== *)
theory Guc_Protocol_Inv
  imports Guc_Protocol
begin

text \<open>
  Every step of submission and of the GuC keeps the invariant of \<open>Guc_Protocol\<close>. Most steps change
  one context and send messages about its id; \<open>local_inv\<close> treats them all.
\<close>

section \<open>Steps on one context\<close>

definition frame :: "guc_submission \<Rightarrow> guc_submission \<Rightarrow> bool" where
  "frame s s' \<longleftrightarrow> gs_lookup s' = gs_lookup s \<and> gs_ids s' = gs_ids s \<and> gs_num_ids s' = gs_num_ids s
     \<and> gs_in_use s' = gs_in_use s \<and> gs_bitmap s' = gs_bitmap s \<and> gs_disabled s' = gs_disabled s
     \<and> gs_initialized s' = gs_initialized s"

definition frame_lists :: "nat \<Rightarrow> guc_submission \<Rightarrow> guc_submission \<Rightarrow> bool" where
  "frame_lists c s s' \<longleftrightarrow>
     (\<forall>d. d \<noteq> c \<longrightarrow> (d \<in> set (gs_id_list s') \<longleftrightarrow> d \<in> set (gs_id_list s))
        \<and> (d \<in> set (gs_destroyed s') \<longleftrightarrow> d \<in> set (gs_destroyed s)) \<and> queued s' d = queued s d)
     \<and> distinct (gs_id_list s') \<and> distinct (gs_destroyed s')"

definition stall_ok :: "guc_submission \<Rightarrow> bool" where
  "stall_ok s \<longleftrightarrow>
     (\<forall>c r. gs_stalled s = Some (c, r) \<longrightarrow>
        (\<exists>ce. gs_ctxs s c = Some ce \<and> \<not> ce_exiting ce \<and> r \<in> set (ce_requests ce) - set (ce_completed ce)))"

lemma the_ctx_Some [simp]: "gs_ctxs s c = Some ce \<Longrightarrow> the_ctx s c = ce"
  by (simp add: the_ctx_def)

lemma upd_ctx_simps [simp]:
  "gs_lookup (upd_ctx c g s) = gs_lookup s" "gs_ids (upd_ctx c g s) = gs_ids s"
  "gs_bitmap (upd_ctx c g s) = gs_bitmap s" "gs_num_ids (upd_ctx c g s) = gs_num_ids s"
  "gs_in_use (upd_ctx c g s) = gs_in_use s" "gs_id_list (upd_ctx c g s) = gs_id_list s"
  "gs_destroyed (upd_ctx c g s) = gs_destroyed s" "gs_destroyed_work (upd_ctx c g s) = gs_destroyed_work s"
  "gs_disabled (upd_ctx c g s) = gs_disabled s" "gs_initialized (upd_ctx c g s) = gs_initialized s"
  "gs_outstanding (upd_ctx c g s) = gs_outstanding s" "gs_queue (upd_ctx c g s) = gs_queue s"
  "gs_stalled (upd_ctx c g s) = gs_stalled s" "gs_tasklet (upd_ctx c g s) = gs_tasklet s"
  "gs_stall_reason (upd_ctx c g s) = gs_stall_reason s"
  "gs_h2g (upd_ctx c g s) = gs_h2g s" "gs_g2h (upd_ctx c g s) = gs_g2h s"
  "gs_delay_ms (upd_ctx c g s) = gs_delay_ms s" "gs_threshold (upd_ctx c g s) = gs_threshold s"
  by (simp_all add: upd_ctx_def)

lemma ctxs_upd_ctx: "gs_ctxs (upd_ctx c g s) = (gs_ctxs s)(c := map_option g (gs_ctxs s c))"
  by (simp add: upd_ctx_def)

lemma ctxs_upd_ctx_same [simp]: "gs_ctxs s c = Some ce \<Longrightarrow> gs_ctxs (upd_ctx c g s) c = Some (g ce)"
  by (simp add: upd_ctx_def)

lemma upd_ctx_upd_ctx [simp]: "upd_ctx c g (upd_ctx c h s) = upd_ctx c (\<lambda>ce. g (h ce)) s"
  by (simp add: upd_ctx_def option.map_comp comp_def)

lemma queued_upd_ctx [simp]: "queued (upd_ctx c g s) d = queued s d"
  by (simp add: queued_def)

lemma queued_cong: "gs_queue s' = gs_queue s \<Longrightarrow> queued s' d = queued s d"
  by (simp add: queued_def)

lemma about_append [simp]: "about i (hs @ hs') = about i hs @ about i hs'"
  by (simp add: about_def)

lemma about_other: "\<forall>m \<in> set ms. h2g_id m \<noteq> i \<Longrightarrow> about i ms = []"
  by (simp add: about_def filter_empty_conv)

lemma about_all: "\<forall>m \<in> set ms. h2g_id m = i \<Longrightarrow> about i ms = ms"
  by (simp add: about_def)

lemma ids_lookupD: "ids_ok s \<Longrightarrow> gs_lookup s i = Some c \<Longrightarrow> gs_ctxs s c = Some ce \<Longrightarrow> valid ce \<and> ctx_key ce = i"
  unfolding ids_ok_def by (metis option.inject)

lemma ids_validD: "ids_ok s \<Longrightarrow> gs_ctxs s c = Some ce \<Longrightarrow> valid ce \<Longrightarrow> gs_lookup s (ctx_key ce) = Some c"
  unfolding ids_ok_def by blast

lemma answers_about_append [simp]: "answers_about i (gs @ gs') = answers_about i gs @ answers_about i gs'"
  by (simp add: answers_about_def)

lemma answers_about_other: "\<forall>m \<in> set gs. g2h_id m \<noteq> i \<Longrightarrow> answers_about i gs = []"
  by (simp add: answers_about_def filter_empty_conv)

lemma answers_about_all: "\<forall>m \<in> set gs. g2h_id m = i \<Longrightarrow> answers_about i gs = map g2h_kind_of gs"
  by (simp add: answers_about_def)

text \<open>The general case takes the answers \<open>pre\<close> off the queue of the driver.\<close>

lemma local_inv_receive:
  assumes inv: "sub_inv (s, f)" and c: "gs_ctxs s c = Some ce"
    and ctxs: "gs_ctxs s' = (gs_ctxs s)(c \<mapsto> ce')"
    and frame: "frame s s'" and lists: "frame_lists c s s'"
    and g2h: "gs_g2h s = pre @ gs_g2h s'" and h2g: "gs_h2g s' = gs_h2g s @ ms"
    and key: "ce_guc_id ce' = ce_guc_id ce"
    and ok: "ctx_ok (c \<in> set (gs_id_list s')) (c \<in> set (gs_destroyed s')) (queued s' c) ce'"
    and ms: "\<forall>m \<in> set ms. h2g_id m = ctx_key ce" "\<forall>m \<in> set pre. g2h_id m = ctx_key ce"
      "ms \<noteq> [] \<or> pre \<noteq> [] \<longrightarrow> valid ce"
    and chan: "\<And>hs st gs. valid ce \<Longrightarrow> chan_ok (want ce) (expected ce) hs st (map g2h_kind_of pre @ gs) \<Longrightarrow>
        chan_ok (want ce') (expected ce') (hs @ ms) st gs"
    and stall: "stall_ok s'"
  shows "sub_inv (s', f)"
proof -
  from inv have ids: "ids_ok s" and qs: "queues_ok s" and idok: "\<And>i. id_ok s f i"
    and cs: "\<And>d ce. gs_ctxs s d = Some ce \<Longrightarrow>
        ctx_ok (d \<in> set (gs_id_list s)) (d \<in> set (gs_destroyed s)) (queued s d) ce"
    by (auto simp: sub_inv_def)
  have kv: "ctx_key ce' = ctx_key ce" "valid ce' = valid ce"
    using key by (simp_all add: ctx_key_def valid_def context_guc_id_invalid_def)
  have num: "number_slrc_guc_id s' = number_slrc_guc_id s" "number_mlrc_guc_id s' = number_mlrc_guc_id s"
    using frame by (simp_all add: frame_def number_slrc_guc_id_def number_mlrc_guc_id_def)
  have "ids_ok s'"
    using ids frame c kv unfolding ids_ok_def frame_def num ctxs
    by (auto split: if_splits) (metis option.inject)+
  moreover have "queues_ok s'"
    using qs frame lists c g2h stall unfolding queues_ok_def frame_def num ctxs frame_lists_def stall_ok_def
    by (auto simp: fun_upd_def split: if_splits)
  moreover have "ctx_ok (d \<in> set (gs_id_list s')) (d \<in> set (gs_destroyed s')) (queued s' d) de"
    if "gs_ctxs s' d = Some de" for d de
    using that ok cs lists by (auto simp: ctxs frame_lists_def split: if_splits)
  moreover have "id_ok s' f i" for i
  proof (cases "gs_lookup s i = Some c")
    case True
    with ids_lookupD [OF ids] c have v: "valid ce" "ctx_key ce = i" by blast+
    have "chan_ok (want ce) (expected ce) (about i (gs_h2g s)) (f i)
        (map g2h_kind_of pre @ answers_about i (gs_g2h s'))"
      using idok [of i] True c ms(2) v(2) by (simp add: id_ok_def g2h answers_about_all)
    from chan [OF v(1) this] True ms(1) v(2) frame show ?thesis
      by (simp add: id_ok_def frame_def ctxs the_ctx_def h2g about_all)
  next
    case other: False
    have "ms = [] \<and> pre = [] \<or> ctx_key ce \<noteq> i"
      using other ms(3) ids_validD [OF ids c] by auto
    then have "about i ms = []" "answers_about i pre = []"
      using ms(1,2) by (auto simp: about_def answers_about_def filter_empty_conv)
    with other idok [of i] frame show ?thesis
      by (auto simp: id_ok_def frame_def ctxs the_ctx_def h2g g2h split: option.splits)
  qed
  ultimately show ?thesis by (auto simp: sub_inv_def)
qed

lemma local_inv:
  assumes inv: "sub_inv (s, f)" and c: "gs_ctxs s c = Some ce"
    and ctxs: "gs_ctxs s' = (gs_ctxs s)(c \<mapsto> ce')"
    and frame: "frame s s'" and lists: "frame_lists c s s'"
    and g2h: "gs_g2h s' = gs_g2h s" and h2g: "gs_h2g s' = gs_h2g s @ ms"
    and key: "ce_guc_id ce' = ce_guc_id ce"
    and ok: "ctx_ok (c \<in> set (gs_id_list s')) (c \<in> set (gs_destroyed s')) (queued s' c) ce'"
    and ms: "\<forall>m \<in> set ms. h2g_id m = ctx_key ce" "ms \<noteq> [] \<longrightarrow> valid ce"
    and chan: "\<And>hs st gs. valid ce \<Longrightarrow> chan_ok (want ce) (expected ce) hs st gs \<Longrightarrow>
        chan_ok (want ce') (expected ce') (hs @ ms) st gs"
    and stall: "stall_ok s'"
  shows "sub_inv (s', f)"
  by (rule local_inv_receive [OF inv c ctxs frame lists _ h2g key ok ms(1), where pre = "[]"])
    (use g2h ms(2) chan stall in simp_all)

lemma inv_ctxD:
  "sub_inv (s, f) \<Longrightarrow> gs_ctxs s c = Some ce \<Longrightarrow>
     ctx_ok (c \<in> set (gs_id_list s)) (c \<in> set (gs_destroyed s)) (queued s c) ce"
  "sub_inv (s, f) \<Longrightarrow> ids_ok s" "sub_inv (s, f) \<Longrightarrow> queues_ok s" "sub_inv (s, f) \<Longrightarrow> stall_ok s"
  "sub_inv (s, f) \<Longrightarrow> id_ok s f i"
  by (auto simp: sub_inv_def queues_ok_def stall_ok_def)

text \<open>The case in which no list and no queue changes.\<close>

lemma local_inv_flat:
  assumes inv: "sub_inv (s, f)" and c: "gs_ctxs s c = Some ce"
    and ctxs: "gs_ctxs s' = (gs_ctxs s)(c \<mapsto> ce')"
    and frame: "frame s s'"
    and same: "gs_id_list s' = gs_id_list s" "gs_destroyed s' = gs_destroyed s" "gs_queue s' = gs_queue s"
      "gs_stalled s' = gs_stalled s"
    and g2h: "gs_g2h s' = gs_g2h s" and h2g: "gs_h2g s' = gs_h2g s @ ms"
    and key: "ce_guc_id ce' = ce_guc_id ce"
    and ms: "\<forall>m \<in> set ms. h2g_id m = ctx_key ce" "ms \<noteq> [] \<longrightarrow> valid ce"
    and ok: "\<And>inl des q. inl = (c \<in> set (gs_id_list s)) \<Longrightarrow> des = (c \<in> set (gs_destroyed s)) \<Longrightarrow>
        q = queued s c \<Longrightarrow> ctx_ok inl des q ce \<Longrightarrow> ctx_ok inl des q ce'"
    and chan: "\<And>hs st gs. valid ce \<Longrightarrow> chan_ok (want ce) (expected ce) hs st gs \<Longrightarrow>
        chan_ok (want ce') (expected ce') (hs @ ms) st gs"
    and stall: "\<And>r. gs_stalled s = Some (c, r) \<Longrightarrow> \<not> ce_exiting ce \<Longrightarrow>
        r \<in> set (ce_requests ce) - set (ce_completed ce) \<Longrightarrow>
        \<not> ce_exiting ce' \<and> r \<in> set (ce_requests ce') - set (ce_completed ce')"
  shows "sub_inv (s', f)"
proof (rule local_inv [OF inv c ctxs frame _ g2h h2g key _ ms chan])
  note D = inv_ctxD [OF inv]
  show "frame_lists c s s'"
    using D(3) same by (simp add: frame_lists_def queues_ok_def queued_def)
  show "ctx_ok (c \<in> set (gs_id_list s')) (c \<in> set (gs_destroyed s')) (queued s' c) ce'"
    unfolding same queued_cong [OF same(3)] by (rule ok [OF refl refl refl D(1) [OF c]])
  show "stall_ok s'"
    using D(4) stall c unfolding stall_ok_def same ctxs by auto
qed

named_theorems ctx_simps \<comment> \<open>how updates of a context act on what the invariant reads\<close>

lemma context_blocked_upd [ctx_simps]:
  "context_blocked (ce\<lparr>ce_guc_id := i\<rparr>) = context_blocked ce"
  "context_blocked (ce\<lparr>ce_ref := k\<rparr>) = context_blocked ce"
  "context_blocked (ce\<lparr>ce_pin_count := k\<rparr>) = context_blocked ce"
  "context_blocked (ce\<lparr>ce_kref := k\<rparr>) = context_blocked ce"
  "context_blocked (ce\<lparr>ce_waiting := rs\<rparr>) = context_blocked ce"
  "context_blocked (ce\<lparr>ce_fences := rs\<rparr>) = context_blocked ce"
  "context_blocked (ce\<lparr>ce_requests := rs\<rparr>) = context_blocked ce"
  "context_blocked (ce\<lparr>ce_completed := rs\<rparr>) = context_blocked ce"
  "context_blocked (ce\<lparr>ce_blocked_done := b\<rparr>) = context_blocked ce"
  "context_blocked (ce\<lparr>ce_work := b\<rparr>) = context_blocked ce"
  "context_blocked (ce\<lparr>ce_init := b\<rparr>) = context_blocked ce"
  "context_blocked (ce\<lparr>ce_dirty := b\<rparr>) = context_blocked ce"
  "context_blocked (ce\<lparr>ce_closed := b\<rparr>) = context_blocked ce"
  "context_blocked (ce\<lparr>ce_exiting := b\<rparr>) = context_blocked ce"
  by (simp_all add: context_blocked_def)

lemma context_blocked_flags [ctx_simps]:
  assumes "m < 512"
  shows "context_blocked (state_set m ce) = context_blocked ce"
    "context_blocked (state_clr m ce) = context_blocked ce"
proof -
  have mask: "bit SCHED_STATE_BLOCKED_MASK n \<longleftrightarrow> 9 \<le> n \<and> n < 21" for n
  proof -
    have "SCHED_STATE_BLOCKED_MASK = push_bit 9 (mask 12)"
      by (simp add: SCHED_STATE_BLOCKED_MASK_def SCHED_STATE_BLOCKED_SHIFT_def mask_eq_exp_minus_1)
    then have "bit SCHED_STATE_BLOCKED_MASK n \<longleftrightarrow> bit (push_bit 9 (mask 12) :: u32) n"
      by (rule arg_cong)
    then show ?thesis by (auto simp: bit_push_bit_iff bit_mask_iff)
  qed
  have "take_bit 9 m = m"
    using assms by (intro take_bit_word_small) (simp add: word_less_nat_alt)
  then have low: "\<not> bit m (9 + n)" for n
    by (metis bit_take_bit_iff not_add_less1)
  show "context_blocked (state_set m ce) = context_blocked ce"
    "context_blocked (state_clr m ce) = context_blocked ce"
    by (auto simp: context_blocked_def state_set_def state_clr_def bit_eq_iff bit_drop_bit_eq
        bit_and_iff bit_or_iff bit_not_iff mask low SCHED_STATE_BLOCKED_SHIFT_def)
qed

lemma valid_upd [ctx_simps]:
  "valid (ce\<lparr>ce_ref := k\<rparr>) = valid ce" "valid (ce\<lparr>ce_pin_count := k\<rparr>) = valid ce"
  "valid (ce\<lparr>ce_kref := k\<rparr>) = valid ce" "valid (ce\<lparr>ce_state := x\<rparr>) = valid ce"
  "valid (ce\<lparr>ce_waiting := rs\<rparr>) = valid ce" "valid (ce\<lparr>ce_fences := rs\<rparr>) = valid ce"
  "valid (ce\<lparr>ce_requests := rs\<rparr>) = valid ce" "valid (ce\<lparr>ce_completed := rs\<rparr>) = valid ce"
  "valid (ce\<lparr>ce_blocked_done := b\<rparr>) = valid ce" "valid (ce\<lparr>ce_work := b\<rparr>) = valid ce"
  "valid (ce\<lparr>ce_init := b\<rparr>) = valid ce" "valid (ce\<lparr>ce_dirty := b\<rparr>) = valid ce"
  "valid (ce\<lparr>ce_closed := b\<rparr>) = valid ce" "valid (ce\<lparr>ce_exiting := b\<rparr>) = valid ce"
  "valid (state_set m ce) = valid ce" "valid (state_clr m ce) = valid ce"
  "valid (incr_context_blocked ce) = valid ce" "valid (decr_context_blocked ce) = valid ce"
  by (simp_all add: valid_def context_guc_id_invalid_def state_set_def state_clr_def
      incr_context_blocked_def decr_context_blocked_def)

lemma state_upd_fields [ctx_simps]:
  "ce_guc_id (state_set m ce) = ce_guc_id ce" "ce_ref (state_set m ce) = ce_ref ce"
  "ce_pin_count (state_set m ce) = ce_pin_count ce" "ce_kref (state_set m ce) = ce_kref ce"
  "ce_waiting (state_set m ce) = ce_waiting ce" "ce_fences (state_set m ce) = ce_fences ce"
  "ce_requests (state_set m ce) = ce_requests ce" "ce_completed (state_set m ce) = ce_completed ce"
  "ce_blocked_done (state_set m ce) = ce_blocked_done ce" "ce_work (state_set m ce) = ce_work ce"
  "ce_exiting (state_set m ce) = ce_exiting ce" "ce_children (state_set m ce) = ce_children ce"
  "ce_parent (state_set m ce) = ce_parent ce" "ce_init (state_set m ce) = ce_init ce" "ce_dirty (state_set m ce) = ce_dirty ce"
  "ce_guc_id (state_clr m ce) = ce_guc_id ce" "ce_ref (state_clr m ce) = ce_ref ce"
  "ce_pin_count (state_clr m ce) = ce_pin_count ce" "ce_kref (state_clr m ce) = ce_kref ce"
  "ce_waiting (state_clr m ce) = ce_waiting ce" "ce_fences (state_clr m ce) = ce_fences ce"
  "ce_requests (state_clr m ce) = ce_requests ce" "ce_completed (state_clr m ce) = ce_completed ce"
  "ce_blocked_done (state_clr m ce) = ce_blocked_done ce" "ce_work (state_clr m ce) = ce_work ce"
  "ce_exiting (state_clr m ce) = ce_exiting ce" "ce_children (state_clr m ce) = ce_children ce"
  "ce_parent (state_clr m ce) = ce_parent ce" "ce_dirty (state_clr m ce) = ce_dirty ce"
  by (simp_all add: state_set_def state_clr_def)

lemma idle_listed_upd [ctx_simps]:
  "idle_listed inl (ce\<lparr>ce_ref := k\<rparr>) = idle_listed inl ce"
  "idle_listed inl (ce\<lparr>ce_waiting := rs\<rparr>) = idle_listed inl ce"
  "idle_listed inl (ce\<lparr>ce_fences := rs\<rparr>) = idle_listed inl ce"
  "idle_listed inl (ce\<lparr>ce_requests := rs\<rparr>) = idle_listed inl ce"
  "idle_listed inl (ce\<lparr>ce_completed := rs\<rparr>) = idle_listed inl ce"
  "idle_listed inl (ce\<lparr>ce_blocked_done := b\<rparr>) = idle_listed inl ce"
  "idle_listed inl (ce\<lparr>ce_work := b\<rparr>) = idle_listed inl ce"
  "idle_listed inl (ce\<lparr>ce_init := b\<rparr>) = idle_listed inl ce"
  "idle_listed inl (ce\<lparr>ce_closed := b\<rparr>) = idle_listed inl ce"
  "idle_listed inl (ce\<lparr>ce_exiting := b\<rparr>) = idle_listed inl ce"
  "idle_listed inl (state_set m ce) = idle_listed inl ce"
  "idle_listed inl (state_clr m ce) = idle_listed inl ce"
  "idle_listed inl (incr_context_blocked ce) = idle_listed inl ce"
  "idle_listed inl (decr_context_blocked ce) = idle_listed inl ce"
  "idle_listed True ce"
  by (simp_all add: idle_listed_def valid_def context_guc_id_invalid_def state_set_def state_clr_def
      incr_context_blocked_def decr_context_blocked_def)

lemma idle_listed_refs [ctx_simps]:
  "idle_listed inl ce \<Longrightarrow> ce_kref ce \<noteq> 0 \<Longrightarrow> idle_listed inl (ce\<lparr>ce_kref := k\<rparr>)"
  "idle_listed inl ce \<Longrightarrow> k \<noteq> 0 \<Longrightarrow> idle_listed inl (ce\<lparr>ce_pin_count := k\<rparr>)"
  "\<not> valid ce \<Longrightarrow> idle_listed inl ce" "idle_listed inl (ce\<lparr>ce_kref := 0\<rparr>)"
  by (auto simp: idle_listed_def valid_def context_guc_id_invalid_def)

lemma blocked_fields [ctx_simps]:
  "ce_guc_id (incr_context_blocked ce) = ce_guc_id ce" "ce_ref (incr_context_blocked ce) = ce_ref ce"
  "ce_pin_count (incr_context_blocked ce) = ce_pin_count ce" "ce_kref (incr_context_blocked ce) = ce_kref ce"
  "ce_waiting (incr_context_blocked ce) = ce_waiting ce" "ce_fences (incr_context_blocked ce) = ce_fences ce"
  "ce_requests (incr_context_blocked ce) = ce_requests ce"
  "ce_completed (incr_context_blocked ce) = ce_completed ce"
  "ce_blocked_done (incr_context_blocked ce) = ce_blocked_done ce" "ce_work (incr_context_blocked ce) = ce_work ce"
  "ce_exiting (incr_context_blocked ce) = ce_exiting ce" "ce_children (incr_context_blocked ce) = ce_children ce"
  "ce_parent (incr_context_blocked ce) = ce_parent ce" "ce_dirty (incr_context_blocked ce) = ce_dirty ce"
  "ce_guc_id (decr_context_blocked ce) = ce_guc_id ce" "ce_ref (decr_context_blocked ce) = ce_ref ce"
  "ce_pin_count (decr_context_blocked ce) = ce_pin_count ce" "ce_kref (decr_context_blocked ce) = ce_kref ce"
  "ce_waiting (decr_context_blocked ce) = ce_waiting ce" "ce_fences (decr_context_blocked ce) = ce_fences ce"
  "ce_requests (decr_context_blocked ce) = ce_requests ce"
  "ce_completed (decr_context_blocked ce) = ce_completed ce"
  "ce_blocked_done (decr_context_blocked ce) = ce_blocked_done ce" "ce_work (decr_context_blocked ce) = ce_work ce"
  "ce_exiting (decr_context_blocked ce) = ce_exiting ce" "ce_children (decr_context_blocked ce) = ce_children ce"
  "ce_parent (decr_context_blocked ce) = ce_parent ce" "ce_dirty (decr_context_blocked ce) = ce_dirty ce"
  by (simp_all add: incr_context_blocked_def decr_context_blocked_def)

lemmas ok_defs = ctx_ok_def counts_ok_def flags_ok_def fences_ok_def lists_ok_def own_refs_def own_pins_def

lemmas view_defs = want_def expected_def

lemma ctx_okD:
  assumes "ctx_ok inl des q ce"
  shows "counts_ok q ce" "flags_ok ce" "fences_ok q ce" "lists_ok inl des ce"
  using assms by (simp_all add: ctx_ok_def)

lemma counts_idle:
  assumes "counts_ok q ce" "ce_ref ce = 0"
  shows "ce_waiting ce = []" "ce_requests ce = []" "q = []" "ce_fences ce = []" "ce_completed ce = []"
proof -
  have "int (length (ce_waiting ce) + length (ce_requests ce) + length q) = 0"
    using assms by (simp only: counts_ok_def)
  then have "length (ce_waiting ce) + length (ce_requests ce) + length q = 0"
    by (simp only: of_nat_eq_0_iff)
  then show "ce_waiting ce = []" "ce_requests ce = []" "q = []" by simp_all
  with assms(1) show "ce_fences ce = []" "ce_completed ce = []" by (simp_all add: counts_ok_def)
qed

lemma view_cong:
  assumes "W a = W b" "PE a = PE b" "PD a = PD b" "EN a = EN b" "DE a = DE b"
  shows "want a = want b" "expected a = expected b"
  using assms by (simp_all add: view_defs)

text \<open>Updates of the fields and flags that neither the view of the GuC nor the lists depend on.\<close>

lemma local_quiet:
  assumes inv: "sub_inv (s, f)" and c: "gs_ctxs s c = Some ce"
    and s': "s' = upd_ctx c g s"
    and key: "ce_guc_id (g ce) = ce_guc_id ce"
    and ok: "\<And>inl des q. inl = (c \<in> set (gs_id_list s)) \<Longrightarrow> des = (c \<in> set (gs_destroyed s)) \<Longrightarrow>
        q = queued s c \<Longrightarrow> ctx_ok inl des q ce \<Longrightarrow> ctx_ok inl des q (g ce)"
    and view: "W (g ce) = W ce" "PE (g ce) = PE ce" "PD (g ce) = PD ce" "EN (g ce) = EN ce" "DE (g ce) = DE ce"
    and stall: "\<And>r. gs_stalled s = Some (c, r) \<Longrightarrow> \<not> ce_exiting ce \<Longrightarrow>
        r \<in> set (ce_requests ce) - set (ce_completed ce) \<Longrightarrow>
        \<not> ce_exiting (g ce) \<and> r \<in> set (ce_requests (g ce)) - set (ce_completed (g ce))"
  shows "sub_inv (s', f)"
proof (rule local_inv_flat [OF inv c, where ce' = "g ce" and ms = "[]"])
  show "gs_ctxs s' = (gs_ctxs s)(c \<mapsto> g ce)"
    using c s' by (simp add: ctxs_upd_ctx)
  show "chan_ok (want (g ce)) (expected (g ce)) (hs @ []) st gs"
    if "chan_ok (want ce) (expected ce) hs st gs" for hs st gs
    using that view_cong [OF view] by simp
qed (use s' ok key stall in \<open>simp_all add: frame_def\<close>)

section \<open>References and pins\<close>

lemma get_inv:
  assumes inv: "sub_inv (s, f)" and c: "gs_ctxs s c = Some ce" and k: "0 < ce_kref ce"
  shows "sub_inv (intel_context_get c s, f)"
proof (rule local_quiet [OF inv c intel_context_get_def [THEN fun_cong]])
  fix inl des q assume "ctx_ok inl des q ce"
  with k show "ctx_ok inl des q (ce\<lparr>ce_kref := ce_kref ce + 1\<rparr>)"
    by (clarsimp simp: ok_defs state_simps ctx_simps)
qed (simp_all add: state_simps)

text \<open>A context is freed when it has no id any more.\<close>

lemma free_inv:
  assumes inv: "sub_inv (s, f)" and c: "gs_ctxs s c = Some ce" and "\<not> valid ce"
    and s': "gs_ctxs s' = (gs_ctxs s)(c := None)" "frame s s'" "gs_id_list s' = gs_id_list s"
      "gs_destroyed s' = gs_destroyed s" "gs_queue s' = gs_queue s" "gs_stalled s' = gs_stalled s"
      "gs_h2g s' = gs_h2g s" "gs_g2h s' = gs_g2h s"
  shows "sub_inv (s', f)"
proof -
  note D = inv_ctxD [OF inv]
  note ok = ctx_okD [OF D(1) [OF c]]
  have "ce_ref ce = 0" using ok(2) assms(3) by (auto simp: flags_ok_def)
  then have reqs: "queued s c = []" "ce_requests ce = []" using counts_idle [OF ok(1)] by simp_all
  have out: "c \<notin> set (gs_id_list s)" "c \<notin> set (gs_destroyed s)"
    using ok(4) assms(3) by (auto simp: lists_ok_def)
  have nl: "gs_lookup s i \<noteq> Some c" for i
    using ids_lookupD [OF D(2) _ c] assms(3) by blast
  have q: "queued s' d = queued s d" for d by (rule queued_cong) (rule s')
  have num: "number_slrc_guc_id s' = number_slrc_guc_id s" "number_mlrc_guc_id s' = number_mlrc_guc_id s"
    using s'(2) by (simp_all add: frame_def number_slrc_guc_id_def number_mlrc_guc_id_def)
  have "ids_ok s'"
    using D(2) s'(1,2) nl unfolding ids_ok_def num frame_def by (auto; metis)
  moreover have "queues_ok s'"
    using D(3) s' reqs out q unfolding queues_ok_def num frame_def
    by (auto simp: c)
  moreover have "id_ok s' f i" for i
    using D(5) [of i] nl [of i] s'
    by (auto simp: id_ok_def frame_def the_ctx_def split: option.splits)
  ultimately show ?thesis
    using inv s' q unfolding sub_inv_def by (auto split: if_splits)
qed

lemma own_refs_nonneg: "0 \<le> own_refs ce"
  by (simp add: own_refs_def)

lemma own_refs_zero:
  assumes "own_refs ce < 1"
  shows "ce_pin_count ce = 0" "\<not> W ce" "\<not> PE ce" "\<not> PD ce" "context_blocked ce = 0"
proof -
  have nn: "0 \<le> (of_bool P :: int)" for P by simp
  have "of_bool (ce_pin_count ce \<noteq> 0) < (1 :: int)" "of_bool (W ce) < (1 :: int)"
      "of_bool (PE ce) < (1 :: int)" "of_bool (PD ce) < (1 :: int)" "int (blocked ce) < 1"
    using assms nn [of "ce_pin_count ce \<noteq> 0"] nn [of "W ce"] nn [of "PE ce"] nn [of "PD ce"]
    unfolding own_refs_def by linarith+
  moreover from this(5) have "blocked ce = 0" by linarith
  ultimately show "ce_pin_count ce = 0" "\<not> W ce" "\<not> PE ce" "\<not> PD ce" "context_blocked ce = 0"
    by (simp_all add: of_bool_def unat_eq_0 split: if_splits)
qed

text \<open>A put of the last reference destroys the context or leaves it to the worker.\<close>

lemma put_inv:
  assumes inv: "sub_inv (s, f)" and c: "gs_ctxs s c = Some ce" and h: "own_refs ce < ce_kref ce"
  shows "sub_inv (intel_context_put c s, f)"
proof (cases "ce_kref ce = 1")
  case False
  from h own_refs_nonneg [of ce] False have k: "1 < ce_kref ce" by linarith
  then have "intel_context_put c s = upd_ctx c (\<lambda>ce. ce\<lparr>ce_kref := ce_kref ce - 1\<rparr>) s"
    using c by (simp add: intel_context_put_def Let_def)
  then show ?thesis
  proof (rule local_quiet [OF inv c])
    fix inl des q assume "ctx_ok inl des q ce"
    with k h show "ctx_ok inl des q (ce\<lparr>ce_kref := ce_kref ce - 1\<rparr>)"
      by (clarsimp simp: ok_defs state_simps ctx_simps)
  qed (simp_all add: state_simps)
next
  case True
  let ?g = "\<lambda>ce. ce\<lparr>ce_kref := ce_kref ce - 1\<rparr>"
  note D = inv_ctxD [OF inv]
  note ok = ctx_okD [OF D(1) [OF c]]
  from h True have "own_refs ce < 1" by simp
  note z = own_refs_zero [OF this]
  then have ref: "ce_ref ce = 0" "\<not> EN ce" "\<not> ce_work ce"
    using ok(1,2) by (auto simp: counts_ok_def flags_ok_def own_pins_def split: if_splits)
  have nd: "c \<notin> set (gs_destroyed s)" "\<not> DE ce" using ok(4) True by (auto simp: lists_ok_def)
  have put: "intel_context_put c s = guc_context_destroy c (upd_ctx c ?g s)"
    using c True by (simp add: intel_context_put_def Let_def)
  have dis: "\<not> gs_disabled s" using D(3) by (simp add: queues_ok_def)
  show ?thesis
  proof (cases "valid ce")
    case True
    have m: "gs_lookup s (ctx_key ce) = Some c" by (rule ids_validD [OF D(2) c True])
    have k: "ctx_key (?g ce) = ctx_key ce" by (simp add: ctx_key_def)
    have e: "intel_context_put c s =
        (upd_ctx c ?g s)\<lparr>gs_id_list := removeAll c (gs_id_list s), gs_destroyed := gs_destroyed s @ [c],
           gs_destroyed_work := True\<rparr>" (is "_ = ?s")
      using True c dis m k
      by (simp add: put guc_context_destroy_def Let_def ctx_id_mapped_def valid_def context_guc_id_invalid_def)
    show ?thesis unfolding e
    proof (rule local_inv [OF inv c, where ce' = "?g ce" and ms = "[]"])
      show "frame_lists c s ?s"
        using D(3) nd by (auto simp: frame_lists_def queues_ok_def queued_def distinct_removeAll)
      show "ctx_ok (c \<in> set (gs_id_list ?s)) (c \<in> set (gs_destroyed ?s)) (queued ?s c) (?g ce)"
      proof -
        have "queued ?s c = queued s c" by (rule queued_cong) simp
        then show ?thesis
          using D(1) [OF c] z ref nd True \<open>ce_kref ce = 1\<close>
          by (clarsimp simp: ok_defs state_simps ctx_simps)
      qed
      show "stall_ok ?s"
        using D(4) c by (auto simp: stall_ok_def ctxs_upd_ctx)
      have "want (?g ce) = want ce" "expected (?g ce) = expected ce"
        by (rule view_cong; simp add: state_simps)+
      then show "chan_ok (want (?g ce)) (expected (?g ce)) (hs @ []) st gs"
        if "chan_ok (want ce) (expected ce) hs st gs" for hs st gs
        using that by simp
    qed (use c in \<open>simp_all add: ctxs_upd_ctx frame_def\<close>)
  next
    case False
    have e: "intel_context_put c s = guc_context_free c (upd_ctx c ?g s)"
    proof -
      have "c \<notin> set (gs_id_list s)" using ok(4) False by (auto simp: lists_ok_def)
      with False c show ?thesis
        by (simp add: put guc_context_destroy_def Let_def valid_def context_guc_id_invalid_def
            release_guc_id_def removeAll_id guc_context_free_def)
    qed
    show ?thesis unfolding e
      by (rule free_inv [OF inv c False]) (simp_all add: guc_context_free_def ctxs_upd_ctx frame_def)
  qed
qed

lemma own_pins_nonneg: "counts_ok q ce \<Longrightarrow> 0 \<le> ce_ref ce \<and> ce_ref ce \<le> own_pins ce"
  by (simp add: counts_ok_def own_pins_def)

lemma own_pins_zero:
  assumes "counts_ok q ce" "own_pins ce \<le> 0"
  shows "ce_ref ce = 0" "\<not> ce_work ce" "\<not> PD ce"
proof -
  have nn: "0 \<le> (of_bool P :: int)" for P by simp
  have "ce_ref ce = 0 \<and> of_bool (ce_work ce) < (1 :: int) \<and> of_bool (PD ce) < (1 :: int)"
    using assms(2) own_pins_nonneg [OF assms(1)] nn [of "ce_work ce"] nn [of "PD ce"]
    unfolding own_pins_def by linarith
  then show "ce_ref ce = 0" "\<not> ce_work ce" "\<not> PD ce"
    by (simp_all add: of_bool_def split: if_splits)
qed

lemma do_unpin_inv:
  assumes inv: "sub_inv (s, f)" and c: "gs_ctxs s c = Some ce"
    and k: "0 < k" "own_pins ce + k \<le> ce_pin_count ce" and en: "ce_pin_count ce = k \<longrightarrow> \<not> EN ce"
  shows "sub_inv (intel_context_do_unpin k c s, f)"
proof -
  let ?g = "\<lambda>ce. ce\<lparr>ce_pin_count := ce_pin_count ce - k\<rparr>"
  note D = inv_ctxD [OF inv]
  note ok = ctx_okD [OF D(1) [OF c]]
  from k own_pins_nonneg [OF ok(1)] have pin: "ce_pin_count ce \<noteq> 0" by linarith
  show ?thesis
  proof (cases "ce_pin_count ce = k")
    case False
    then have "intel_context_do_unpin k c s = upd_ctx c ?g s"
      using c by (simp add: intel_context_do_unpin_def Let_def)
    then show ?thesis
    proof (rule local_quiet [OF inv c])
      fix inl des q assume "ctx_ok inl des q ce"
      with k False pin show "ctx_ok inl des q (?g ce)"
        by (clarsimp simp: ok_defs state_simps ctx_simps)
    qed (simp_all add: state_simps)
  next
    case True
    then have "own_pins ce \<le> 0" using k by linarith
    note z = own_pins_zero [OF ok(1) this]
    note idle = counts_idle [OF ok(1) z(1)]
    have flags: "\<not> EN ce" "\<not> PE ce" "\<not> W ce"
      using en True z ok(2,3) idle by (auto simp: flags_ok_def fences_ok_def)
    have refs: "own_refs ce \<le> ce_kref ce" "own_refs (?g ce) = own_refs ce - 1"
      using ok(1) True pin by (simp_all add: counts_ok_def own_refs_def state_simps ctx_simps)
    then have kref: "own_refs (?g ce) < ce_kref ce" "0 < ce_kref ce"
      using own_refs_nonneg [of "?g ce"] by linarith+
    have single: "\<not> intel_context_is_parent ce"
      using ok(2) by (simp add: flags_ok_def intel_context_is_parent_def)
    let ?s = "unpin_guc_id c (upd_ctx c ?g s)"
    have ctxs: "gs_ctxs ?s = (gs_ctxs s)(c \<mapsto> ?g ce)"
      using c by (auto simp: unpin_guc_id_def Let_def ctxs_upd_ctx)
    have un: "gs_destroyed ?s = gs_destroyed s" "gs_queue ?s = gs_queue s" "gs_stalled ?s = gs_stalled s"
        "gs_h2g ?s = gs_h2g s" "gs_g2h ?s = gs_g2h s" "frame s ?s"
        "distinct (gs_id_list s) \<Longrightarrow> distinct (gs_id_list ?s)"
        "set (gs_id_list s) \<subseteq> set (gs_id_list ?s)" "set (gs_id_list ?s) \<subseteq> insert c (set (gs_id_list s))"
        "c \<in> set (gs_id_list ?s) \<Longrightarrow> c \<in> set (gs_id_list s) \<or> valid ce"
        "valid ce \<Longrightarrow> c \<in> set (gs_id_list ?s)"
      using c z(1) single by (auto simp: unpin_guc_id_def Let_def frame_def valid_def context_guc_id_invalid_def
          intel_context_is_parent_def)
    have "sub_inv (?s, f)"
    proof (rule local_inv [OF inv c ctxs, where ms = "[]"])
      show "frame_lists c s ?s"
        using D(3) un(1,7-9) queued_cong [OF un(2)] by (auto simp: frame_lists_def queues_ok_def)
      have "\<not> (c \<in> set (gs_id_list ?s) \<and> \<not> valid ce)"
        using un(10) ok(4) by (auto simp: lists_ok_def)
      moreover have "idle_listed (c \<in> set (gs_id_list ?s)) (?g ce)"
        using un(11) by (auto simp: idle_listed_def ctx_simps)
      ultimately show "ctx_ok (c \<in> set (gs_id_list ?s)) (c \<in> set (gs_destroyed ?s)) (queued ?s c) (?g ce)"
        using D(1) [OF c] z flags kref True pin idle refs(1) unfolding un(1) queued_cong [OF un(2)]
        by (clarsimp simp: ok_defs state_simps ctx_simps)
      have "want (?g ce) = want ce" "expected (?g ce) = expected ce"
        by (rule view_cong; simp add: state_simps)+
      then show "chan_ok (want (?g ce)) (expected (?g ce)) (hs @ []) st gs"
        if "chan_ok (want ce) (expected ce) hs st gs" for hs st gs
        using that by simp
      show "stall_ok ?s"
        using D(4) c un(3) by (auto simp: stall_ok_def ctxs)
    qed (use un in simp_all)
    from put_inv [OF this] ctxs kref have "sub_inv (intel_context_put c ?s, f)" by simp
    then show ?thesis
      using c True by (simp add: intel_context_do_unpin_def Let_def)
  qed
qed

section \<open>Disabling\<close>

lemma send_up [simp]:
  "ct_up E \<Longrightarrow> guc_submission_send_busy_loop E m g2h True s =
     (Inr (), h2g_push m (if g2h then s\<lparr>gs_outstanding := gs_outstanding s + 1\<rparr> else s))"
  by (simp add: guc_submission_send_busy_loop_def guc_send_busy_loop_def ct_up_def)

lemma state_clr_id:
  assumes "\<not> state_test m ce"
  shows "state_clr m ce = ce"
proof -
  have "bit (ce_state ce AND m) n \<longleftrightarrow> False" for n
    using assms by (simp add: state_test_def)
  then have "ce_state ce AND NOT m = ce_state ce"
    by (intro bit_word_eqI) (auto simp: bit_simps)
  then show ?thesis by (simp add: state_clr_def)
qed

lemma bypass_eq:
  assumes inv: "sub_inv (s, f)" and c: "gs_ctxs s c = Some ce"
  shows "bypass_sched_disable c s = (\<not> EN ce, s)"
proof -
  note D = inv_ctxD [OF inv]
  note ok = ctx_okD [OF D(1) [OF c]]
  have dis: "\<not> gs_disabled s" using D(3) by (simp add: queues_ok_def)
  show ?thesis
  proof (cases "valid ce")
    case True
    from ids_validD [OF D(2) c True] True dis c show ?thesis
      by (simp add: bypass_sched_disable_def Let_def ctx_id_mapped_def valid_def)
  next
    case False
    then have en: "\<not> EN ce" using ok(2) by (auto simp: flags_ok_def)
    then have "clr_context_enabled ce = ce"
      by (simp add: clr_context_enabled_def context_enabled_def state_clr_id)
    with c have "upd_ctx c clr_context_enabled s = s"
      by (simp add: upd_ctx_def fun_upd_idem)
    with False en c show ?thesis
      by (simp add: bypass_sched_disable_def Let_def valid_def)
  qed
qed

lemma enabled_want:
  assumes ok: "ctx_ok inl des q ce" and en: "EN ce"
  shows "want ce = FW_Enabled" "expected ce = (if PE ce then [Sched_Done] else [])" "valid ce"
    "\<not> W ce" "\<not> PD ce" "\<not> DE ce" "0 < ce_kref ce" "ce_pin_count ce \<noteq> 0" "blocked ce = 0" "\<not> inl" "\<not> des"
proof -
  note p = ctx_okD [OF ok]
  from p(2) en have fl: "\<not> W ce" "\<not> PD ce" "ce_pin_count ce \<noteq> 0" "valid ce" "blocked ce = 0"
    by (auto simp: flags_ok_def)
  have "own_refs ce \<noteq> 0"
    using own_refs_zero(1) [of ce] fl(3) by force
  then have k: "0 < ce_kref ce" using p(1) own_refs_nonneg [of ce] by (auto simp: counts_ok_def)
  with p(4) have "\<not> DE ce" "\<not> des" by (auto simp: lists_ok_def)
  moreover have "\<not> inl" using p(4) en by (auto simp: lists_ok_def)
  ultimately show "want ce = FW_Enabled" "expected ce = (if PE ce then [Sched_Done] else [])" "valid ce"
    "\<not> W ce" "\<not> PD ce" "\<not> DE ce" "0 < ce_kref ce" "ce_pin_count ce \<noteq> 0" "blocked ce = 0" "\<not> inl" "\<not> des"
    using fl en k by (simp_all add: view_defs)
qed

lemma disable_inv:
  assumes inv: "sub_inv (s, f)" and c: "gs_ctxs s c = Some ce" and en: "EN ce"
    and ctxs: "gs_ctxs s' = (gs_ctxs s)(c \<mapsto> ce')" and frame: "frame s s'"
    and same: "gs_id_list s' = gs_id_list s" "gs_destroyed s' = gs_destroyed s" "gs_queue s' = gs_queue s"
      "gs_stalled s' = gs_stalled s" "gs_g2h s' = gs_g2h s"
    and h2g: "gs_h2g s' = gs_h2g s @ ps @ [SCHED_CONTEXT_MODE_SET (ctx_key ce) False]"
    and ps: "ps = [] \<or> ps = [UPDATE_CONTEXT_POLICIES (ctx_key ce)]"
    and key: "ce_guc_id ce' = ce_guc_id ce"
    and flags: "PD ce'" "\<not> EN ce'" "PE ce' = PE ce" "W ce' = W ce" "DE ce' = DE ce"
    and ok: "\<And>inl des q. ctx_ok inl des q ce \<Longrightarrow> ctx_ok inl des q ce'"
    and stall: "\<And>r. gs_stalled s = Some (c, r) \<Longrightarrow> \<not> ce_exiting ce \<Longrightarrow>
        r \<in> set (ce_requests ce) - set (ce_completed ce) \<Longrightarrow>
        \<not> ce_exiting ce' \<and> r \<in> set (ce_requests ce') - set (ce_completed ce')"
  shows "sub_inv (s', f)"
proof (rule local_inv_flat [OF inv c ctxs frame same h2g key])
  note e = enabled_want [OF inv_ctxD(1) [OF inv c] en]
  show "\<forall>m \<in> set (ps @ [SCHED_CONTEXT_MODE_SET (ctx_key ce) False]). h2g_id m = ctx_key ce"
    using ps by auto
  show "ps @ [SCHED_CONTEXT_MODE_SET (ctx_key ce) False] \<noteq> [] \<longrightarrow> valid ce"
    using e(3) by simp
  fix hs st gs assume ch: "chan_ok (want ce) (expected ce) hs st gs"
  have "chan_ok FW_Enabled (expected ce) (hs @ ps) st gs"
    using ps ch chan_ok_policy [of FW_Enabled "expected ce" hs st gs] by (auto simp: e(1))
  from chan_ok_send_enabled [OF this, of "SCHED_CONTEXT_MODE_SET (ctx_key ce) False" FW_Disabling]
  show "chan_ok (want ce') (expected ce') (hs @ ps @ [SCHED_CONTEXT_MODE_SET (ctx_key ce) False]) st gs"
    using flags e by (simp add: want_def expected_def)
qed (use ok stall in auto)

lemma do_sched_disable_inv:
  assumes inv: "sub_inv (s, f)" and c: "gs_ctxs s c = Some ce" and en: "EN ce" and up: "ct_up E"
    and pins: "own_pins ce + 2 \<le> ce_pin_count ce" and ref: "ce_ref ce = 0"
  shows "sub_inv (do_sched_disable E c s, f)"
proof -
  let ?g = "\<lambda>ce. (clr_context_enabled (set_context_pending_disable ce))
      \<lparr>ce_blocked_done := False, ce_kref := ce_kref ce + 1\<rparr>"
  note D = inv_ctxD [OF inv]
  note e = enabled_want [OF D(1) [OF c] en]
  have key: "ucast (ce_guc_id ce) = ctx_key ce" by (simp add: ctx_key_def)
  show ?thesis
  proof (rule disable_inv [OF inv c en, where ce' = "?g ce" and ps = "[]"])
    show "gs_ctxs (do_sched_disable E c s) = (gs_ctxs s)(c \<mapsto> ?g ce)"
      using c up by (simp add: do_sched_disable_def prep_context_pending_disable_def Let_def
          guc_context_sched_disable_h2g_def intel_context_get_def h2g_push_def ctxs_upd_ctx ctx_simps
          clr_context_enabled_def set_context_pending_disable_def)
    fix inl des q assume ok: "ctx_ok inl des q ce"
    note idle = counts_idle [OF ctx_okD(1) [OF ok] ref]
    show "ctx_ok inl des q (?g ce)"
      using ok e(4-9) en pins ref idle by (clarsimp simp: ok_defs state_simps ctx_simps)
  qed (use c up in \<open>simp_all add: do_sched_disable_def prep_context_pending_disable_def Let_def
      guc_context_sched_disable_h2g_def intel_context_get_def h2g_push_def frame_def state_simps ctx_simps key\<close>)
qed

lemma sched_disable_inv:
  assumes inv: "sub_inv (s, f)" and c: "gs_ctxs s c = Some ce" and up: "ct_up E"
    and pins: "own_pins ce + 2 \<le> ce_pin_count ce" and ref: "ce_ref ce = 0" and nw: "\<not> ce_work ce"
  shows "sub_inv (guc_context_sched_disable E c s, f)" "sub_inv (delay_sched_disable E c s, f)"
proof -
  have off: "sub_inv (intel_context_sched_disable_unpin c s, f)" if "\<not> EN ce"
    unfolding intel_context_sched_disable_unpin_def
    by (rule do_unpin_inv [OF inv c]) (use pins that in auto)
  have on: "sub_inv (do_sched_disable E c s, f)" if "EN ce"
    by (rule do_sched_disable_inv [OF inv c that up pins ref])
  have work: "sub_inv (upd_ctx c (\<lambda>ce. ce\<lparr>ce_work := True\<rparr>) s, f)"
  proof (rule local_quiet [OF inv c refl])
    fix inl des q assume "ctx_ok inl des q ce"
    with pins ref nw show "ctx_ok inl des q (ce\<lparr>ce_work := True\<rparr>)"
      by (clarsimp simp: ok_defs state_simps ctx_simps)
  qed (simp_all add: state_simps)
  show "sub_inv (guc_context_sched_disable E c s, f)"
    using off on work by (simp add: guc_context_sched_disable_def bypass_eq [OF inv c])
  show "sub_inv (delay_sched_disable E c s, f)"
    using off on by (simp add: delay_sched_disable_def bypass_eq [OF inv c])
qed

lemma unpin_inv:
  assumes inv: "sub_inv (s, f)" and c: "gs_ctxs s c = Some ce" and up: "ct_up E"
    and pin: "own_pins ce < ce_pin_count ce"
  shows "sub_inv (intel_context_unpin E c s, f)"
proof -
  note ok = ctx_okD [OF inv_ctxD(1) [OF inv c]]
  note nn = own_pins_nonneg [OF ok(1)]
  show ?thesis
  proof (cases "ce_pin_count ce = 1")
    case False
    then have e: "intel_context_unpin E c s = upd_ctx c (\<lambda>ce. ce\<lparr>ce_pin_count := ce_pin_count ce - 1\<rparr>) s"
      using c by (simp add: intel_context_unpin_def)
    show ?thesis
    proof (rule local_quiet [OF inv c e])
      fix inl des q assume "ctx_ok inl des q ce"
      moreover have "0 < ce_pin_count ce" using pin nn by linarith
      ultimately show "ctx_ok inl des q (ce\<lparr>ce_pin_count := ce_pin_count ce - 1\<rparr>)"
        using pin False by (clarsimp simp: ok_defs state_simps ctx_simps)
    qed (simp_all add: state_simps)
  next
    case True
    let ?s = "upd_ctx c (\<lambda>ce. ce\<lparr>ce_pin_count := 2\<rparr>) s"
    from True pin have "own_pins ce \<le> 0" by linarith
    note z = own_pins_zero [OF ok(1) this]
    have "sub_inv (?s, f)"
    proof (rule local_quiet [OF inv c refl])
      fix inl des q assume "ctx_ok inl des q ce"
      with True pin show "ctx_ok inl des q (ce\<lparr>ce_pin_count := 2\<rparr>)"
        by (clarsimp simp: ok_defs state_simps ctx_simps)
    qed (simp_all add: state_simps)
    from sched_disable_inv(1) [OF this ctxs_upd_ctx_same [OF c] up] z True c show ?thesis
      by (simp add: intel_context_unpin_def own_pins_def state_simps)
  qed
qed

lemma work_off:
  assumes inv: "sub_inv (s, f)" and c: "gs_ctxs s c = Some ce" and w: "ce_work ce"
  shows "sub_inv (upd_ctx c (\<lambda>ce. ce\<lparr>ce_work := False\<rparr>) s, f)"
    "own_pins (ce\<lparr>ce_work := False\<rparr>) + 2 = own_pins ce" "own_pins ce \<le> ce_pin_count ce" "ce_ref ce = 0"
proof -
  note ok = ctx_okD [OF inv_ctxD(1) [OF inv c]]
  show "own_pins (ce\<lparr>ce_work := False\<rparr>) + 2 = own_pins ce"
    using w by (simp add: own_pins_def state_simps)
  show "own_pins ce \<le> ce_pin_count ce" "ce_ref ce = 0" using ok(1) w by (auto simp: counts_ok_def)
  show "sub_inv (upd_ctx c (\<lambda>ce. ce\<lparr>ce_work := False\<rparr>) s, f)"
  proof (rule local_quiet [OF inv c refl])
    fix inl des q assume "ctx_ok inl des q ce"
    with w show "ctx_ok inl des q (ce\<lparr>ce_work := False\<rparr>)"
      by (clarsimp simp: ok_defs state_simps ctx_simps)
  qed (simp_all add: state_simps)
qed

lemma work_inv:
  assumes inv: "sub_inv (s, f)" and c: "gs_ctxs s c = Some ce" and up: "ct_up E"
  shows "sub_inv (sched_disable_work E c s, f)"
proof (cases "ce_work ce")
  case True
  note w = work_off [OF inv c True]
  from sched_disable_inv(2) [OF w(1) ctxs_upd_ctx_same [OF c] up] w(2-4) True c show ?thesis
    by (simp add: sched_disable_work_def)
qed (use inv c in \<open>simp add: sched_disable_work_def\<close>)

lemma quiet_field_inv:
  assumes inv: "sub_inv (s, f)"
    and ok: "\<And>ce inl des q. gs_ctxs s c = Some ce \<Longrightarrow> ctx_ok inl des q ce \<Longrightarrow> ctx_ok inl des q (g ce)"
    and "\<And>ce. ce_guc_id (g ce) = ce_guc_id ce" "\<And>ce. ce_exiting (g ce) = ce_exiting ce"
      "\<And>ce. ce_requests (g ce) = ce_requests ce" "\<And>ce. ce_completed (g ce) = ce_completed ce"
      "\<And>ce. W (g ce) = W ce" "\<And>ce. PE (g ce) = PE ce" "\<And>ce. PD (g ce) = PD ce"
      "\<And>ce. EN (g ce) = EN ce" "\<And>ce. DE (g ce) = DE ce"
  shows "sub_inv (upd_ctx c g s, f)"
proof (cases "gs_ctxs s c")
  case None
  then have "upd_ctx c g s = s" by (simp add: upd_ctx_def fun_upd_idem)
  with inv show ?thesis by simp
next
  case (Some ce)
  show ?thesis by (rule local_quiet [OF inv Some refl]) (use ok Some assms(3-) in auto)
qed

lemma close_inv:
  assumes inv: "sub_inv (s, f)" and c: "gs_ctxs s c = Some ce" and up: "ct_up E"
  shows "sub_inv (intel_context_close E c s, f)"
proof -
  let ?s = "upd_ctx c (\<lambda>ce. ce\<lparr>ce_closed := True\<rparr>) s"
  have "sub_inv (?s, f)"
    by (rule quiet_field_inv [OF inv]) (clarsimp simp: state_simps ctx_simps ok_defs)+
  then have "sub_inv (if ce_init (the_ctx ?s c) then sched_disable_work E c ?s else ?s, f)"
    using work_inv [OF _ ctxs_upd_ctx_same [OF c] up] by simp
  then show ?thesis
    unfolding intel_context_close_def guc_context_close_def
    by (rule quiet_field_inv) (clarsimp simp: state_simps ctx_simps ok_defs)+
qed

end
