(* ===== verification/Guc_Protocol_Steps.thy ===== *)
theory Guc_Protocol_Steps
  imports Guc_Protocol_Inv
begin

text \<open>
  The invariant under the remaining steps: completion and retirement of requests, blocking and
  revoking of contexts, and their destruction.
\<close>

section \<open>Completion and retirement\<close>

lemma complete_inv:
  assumes inv: "sub_inv (s, f)" and c: "gs_ctxs s c = Some ce" and st: "gs_stalled s \<noteq> Some (c, r)"
    and r: "r \<in> set (ce_requests ce) - set (ce_completed ce)"
  shows "sub_inv (gpu_completes c r s, f)"
proof (rule local_quiet [OF inv c gpu_completes_def [THEN fun_cong]])
  fix inl des q assume "ctx_ok inl des q ce"
  with r show "ctx_ok inl des q (ce\<lparr>ce_completed := ce_completed ce @ [r]\<rparr>)"
    by (clarsimp simp: ok_defs state_simps ctx_simps)
qed (use st in \<open>auto simp: state_simps\<close>)

lemma counts_busy:
  assumes "counts_ok q ce" "r \<in> set (ce_waiting ce) \<union> set (ce_requests ce) \<union> set q"
  shows "0 < ce_ref ce" "\<not> ce_work ce"
proof -
  have "ce_waiting ce \<noteq> [] \<or> ce_requests ce \<noteq> [] \<or> q \<noteq> []" using assms(2) by auto
  then have "0 < length (ce_waiting ce) + length (ce_requests ce) + length q" by auto
  then have "0 < int (length (ce_waiting ce) + length (ce_requests ce) + length q)"
    by (simp only: of_nat_0_less_iff)
  then show "0 < ce_ref ce" using assms(1) by (simp only: counts_ok_def)
  then show "\<not> ce_work ce" using assms(1) by (auto simp: counts_ok_def)
qed

lemma remove_inv:
  assumes inv: "sub_inv (s, f)" and c: "gs_ctxs s c = Some ce" and r: "r \<in> set (ce_completed ce)"
  defines "ce' \<equiv> ce\<lparr>ce_requests := remove1 r (ce_requests ce), ce_completed := remove1 r (ce_completed ce),
             ce_ref := ce_ref ce - 1\<rparr>"
  shows "sub_inv (remove_from_context c r s, f)" "gs_ctxs (remove_from_context c r s) c = Some ce'"
    "own_pins ce' < ce_pin_count ce'"
proof -
  note ok = ctx_okD [OF inv_ctxD(1) [OF inv c]]
  have mem: "r \<in> set (ce_requests ce)" using ok(1) r by (auto simp: counts_ok_def)
  have ref: "0 < ce_ref ce" "\<not> ce_work ce" using counts_busy [OF ok(1)] mem by auto
  have len: "int (length (ce_requests ce)) = int (length (remove1 r (ce_requests ce))) + 1"
    using mem length_pos_if_in_set [OF mem] by (simp add: length_remove1 of_nat_diff Suc_leI)
  have dist: "distinct (ce_requests ce)" "distinct (ce_completed ce)"
    using ok(1) by (auto simp: counts_ok_def)
  have sets: "set (remove1 r (ce_requests ce)) = set (ce_requests ce) - {r}"
      "set (remove1 r (ce_completed ce)) = set (ce_completed ce) - {r}"
    by (simp_all add: set_remove1_eq dist)
  show "gs_ctxs (remove_from_context c r s) c = Some ce'"
    using c by (simp add: remove_from_context_def ce'_def)
  show "own_pins ce' < ce_pin_count ce'"
    using ok(1) by (simp add: counts_ok_def own_pins_def ce'_def state_simps)
  show "sub_inv (remove_from_context c r s, f)"
  proof (rule local_quiet [OF inv c remove_from_context_def [THEN fun_cong]])
    fix inl des q assume o: "ctx_ok inl des q ce"
    have "\<not> W ce" "\<not> inl" "ce_ref ce \<noteq> 0"
      using o mem ref by (auto simp: ctx_ok_def fences_ok_def lists_ok_def)
    moreover have "q \<noteq> [] \<or> q = []" by simp
    moreover have "\<not> (PD ce \<and> blocked ce = 0 \<and> \<not> ce_exiting ce)"
      using o mem by (auto simp: ctx_ok_def fences_ok_def)
    moreover note dist
    moreover have "set (remove1 r (ce_completed ce)) \<subseteq> set (remove1 r (ce_requests ce))"
      using ok(1) by (auto simp: counts_ok_def sets)
    moreover have "ce_ref ce = int (length (ce_waiting ce) + length (ce_requests ce) + length q)"
      using o by (simp only: ctx_ok_def counts_ok_def)
    ultimately show "ctx_ok inl des q (ce\<lparr>ce_requests := remove1 r (ce_requests ce),
        ce_completed := remove1 r (ce_completed ce), ce_ref := ce_ref ce - 1\<rparr>)"
      using o ref len
      by (clarsimp simp: ok_defs state_simps ctx_simps sets distinct_remove1) blast
  qed (use dist r in \<open>auto simp: state_simps sets\<close>)
qed

text \<open>What an operation on one context leaves alone of the others.\<close>

lemma ctxs_other [simp]:
  assumes "d \<noteq> c"
  shows "gs_ctxs (upd_ctx c g s) d = gs_ctxs s d"
    "gs_ctxs (intel_context_get c s) d = gs_ctxs s d"
    "gs_ctxs (release_guc_id c s) d = gs_ctxs s d"
    "gs_ctxs (unpin_guc_id c s) d = gs_ctxs s d"
    "gs_ctxs (intel_context_put c s) d = gs_ctxs s d"
    "gs_ctxs (intel_context_do_unpin k c s) d = gs_ctxs s d"
proof -
  show upd: "gs_ctxs (upd_ctx c g s) d = gs_ctxs s d" for g s
    using assms by (simp add: upd_ctx_def)
  show "gs_ctxs (intel_context_get c s) d = gs_ctxs s d"
    by (simp add: intel_context_get_def upd)
  show rel: "gs_ctxs (release_guc_id c s) d = gs_ctxs s d" for s
    by (simp add: release_guc_id_def Let_def upd clr_ctx_id_mapping_def)
  show un: "gs_ctxs (unpin_guc_id c s) d = gs_ctxs s d" for s
    by (simp add: unpin_guc_id_def Let_def)
  show put: "gs_ctxs (intel_context_put c s) d = gs_ctxs s d" for s
    using assms by (simp add: intel_context_put_def guc_context_destroy_def guc_context_free_def Let_def upd rel)
  show "gs_ctxs (intel_context_do_unpin k c s) d = gs_ctxs s d"
    by (simp add: intel_context_do_unpin_def Let_def upd put un)
qed

lemma h2g_push_ctxs [simp]: "gs_ctxs (h2g_push m s) = gs_ctxs s"
  by (simp add: h2g_push_def)

lemma send_ctxs [simp]:
  "gs_ctxs (snd (guc_submission_send_busy_loop E m g2h loop s)) d = gs_ctxs s d"
  by (simp add: guc_submission_send_busy_loop_def guc_send_busy_loop_def guc_send_nb_def split: sum.split)

lemma unpin_other [simp]:
  assumes "d \<noteq> c"
  shows "gs_ctxs (intel_context_unpin E c s) d = gs_ctxs s d"
proof -
  have dis: "gs_ctxs (do_sched_disable E c s) d = gs_ctxs s d" for s
    using assms by (simp add: do_sched_disable_def prep_context_pending_disable_def Let_def
        guc_context_sched_disable_h2g_def)
  show ?thesis
    using assms by (simp add: intel_context_unpin_def guc_context_sched_disable_def bypass_sched_disable_def
        intel_context_sched_disable_unpin_def Let_def dis)
qed

lemma retire_requests_inv:
  assumes "sub_inv (s, f)" "rs = [] \<or> (\<exists>ce. gs_ctxs s c = Some ce \<and> ce_requests ce = rs)" and up: "ct_up E"
  shows "sub_inv (retire_requests E c rs s, f)"
  using assms(1,2)
proof (induction rs arbitrary: s)
  case (Cons r rs)
  from Cons.prems(2) obtain ce where c: "gs_ctxs s c = Some ce" and rs: "ce_requests ce = r # rs" by auto
  show ?case
  proof (cases "r \<in> set (ce_completed ce)")
    case True
    let ?ce = "ce\<lparr>ce_requests := remove1 r (ce_requests ce), ce_completed := remove1 r (ce_completed ce),
             ce_ref := ce_ref ce - 1\<rparr>"
    let ?s = "remove_from_context c r s"
    note rem = remove_inv [OF Cons.prems(1) c True]
    have inv: "sub_inv (intel_context_unpin E c ?s, f)"
      by (rule unpin_inv [OF rem(1,2) up rem(3)])
    have "rs = [] \<or> (\<exists>ce. gs_ctxs (intel_context_unpin E c ?s) c = Some ce \<and> ce_requests ce = rs)"
    proof (cases "rs = []")
      case False
      note ok = ctx_okD(1) [OF inv_ctxD(1) [OF rem(1,2)]]
      have "0 < ce_ref ?ce" using counts_busy(1) [OF ok, of "hd rs"] False rs by simp
      then have "ce_pin_count ?ce \<noteq> 1" using rem(3) own_pins_nonneg [OF ok] by linarith
      then show ?thesis
        using rem(2) rs by (simp add: intel_context_unpin_def)
    qed simp
    from Cons.IH [OF inv this] show ?thesis
      using True c by (simp add: i915_request_retire_def)
  qed (use Cons.prems c in \<open>simp add: i915_request_retire_def\<close>)
qed simp

lemma retire_requests_other: "d \<noteq> c \<Longrightarrow> gs_ctxs (retire_requests E c rs s) d = gs_ctxs s d"
  by (induction rs arbitrary: s) (simp_all add: i915_request_retire_def remove_from_context_def Let_def)

lemma gt_retire_inv:
  assumes "sub_inv (s, f)" and up: "ct_up E"
  shows "sub_inv (intel_gt_retire_requests E s, f)"
proof -
  let ?step = "\<lambda>c s. if gs_ctxs s c = None then s else retire_requests E c (ce_requests (the_ctx s c)) s"
  have step: "sub_inv (?step d s, f)" if "sub_inv (s, f)" for d s
  proof (cases "gs_ctxs s d")
    case (Some ce)
    from retire_requests_inv [OF that _ up] Some show ?thesis by simp
  qed (use that in simp)
  have "sub_inv (fold ?step tl s, f)" for tl
    using assms(1)
  proof (induction tl arbitrary: s)
    case (Cons d tl)
    from Cons.IH [OF step [OF Cons.prems]] show ?case by simp
  qed simp
  then show ?thesis by (simp add: intel_gt_retire_requests_def)
qed

lemma gt_retire_idle:
  assumes "gs_ctxs s c = Some ce" "ce_requests ce = []"
  shows "gs_ctxs (intel_gt_retire_requests E s) c = Some ce"
proof -
  let ?step = "\<lambda>c s. if gs_ctxs s c = None then s else retire_requests E c (ce_requests (the_ctx s c)) s"
  have "gs_ctxs (?step d s) c = Some ce" if "gs_ctxs s c = Some ce" for d s
    using that assms(2) by (cases "d = c") (auto simp: retire_requests_other)
  then have "gs_ctxs (fold ?step tl s) c = Some ce" for tl
    using assms(1) by (induction tl arbitrary: s) auto
  then show ?thesis by (simp add: intel_gt_retire_requests_def)
qed

section \<open>Blocking and revoking\<close>

lemma prep_eq:
  "prep_context_pending_disable c s =
     (ce_guc_id (the_ctx s c), upd_ctx c (\<lambda>ce. (clr_context_enabled (set_context_pending_disable ce))
        \<lparr>ce_blocked_done := False, ce_kref := ce_kref ce + 1\<rparr>) s)"
  by (simp add: prep_context_pending_disable_def Let_def intel_context_get_def ctx_simps
      clr_context_enabled_def set_context_pending_disable_def)

lemma busy_flags:
  assumes ok: "ctx_ok inl des q ce" and r: "r \<in> set (ce_requests ce) \<union> set q"
  shows "\<not> W ce" "\<not> inl" "0 < ce_ref ce" "\<not> (PD ce \<and> blocked ce = 0 \<and> \<not> ce_exiting ce)" "\<not> ce_work ce"
proof -
  note p = ctx_okD [OF ok]
  show "\<not> W ce" "\<not> (PD ce \<and> blocked ce = 0 \<and> \<not> ce_exiting ce)" using p(3) r by (auto simp: fences_ok_def)
  show "0 < ce_ref ce" "\<not> ce_work ce" using counts_busy [OF p(1)] r by auto
  then show "\<not> inl" using p(4) by (auto simp: lists_ok_def)
qed

lemma block_inv:
  assumes inv: "sub_inv (s, f)" and c: "gs_ctxs s c = Some ce" and up: "ct_up E"
    and h: "own_refs ce < ce_kref ce" and b: "blocked ce < 4095"
    and r: "r \<in> set (ce_requests ce) \<union> set (queued s c)"
  shows "sub_inv (cancel_request_block E c s, f)"
proof -
  let ?h = "\<lambda>ce. incr_context_blocked (ce\<lparr>ce_kref := ce_kref ce + 1\<rparr>)"
  note D = inv_ctxD [OF inv]
  have dis: "\<not> gs_disabled s" using D(3) by (simp add: queues_ok_def)
  note busy = busy_flags [OF D(1) [OF c] r]
  have bl: "blocked (?h ce) = Suc (blocked ce)"
    using context_blocked_incr [of "ce\<lparr>ce_kref := ce_kref ce + 1\<rparr>"] b by (simp add: ctx_simps)
  have en: "EN (?h ce) = EN ce" by (simp add: state_simps)
  from h own_refs_nonneg [of ce] have k: "0 < ce_kref ce" by linarith
  have pos: "0 \<le> ce_pin_count ce"
    using own_pins_nonneg [OF ctx_okD(1) [OF D(1) [OF c]]] ctx_okD(1) [OF D(1) [OF c]]
    by (simp add: counts_ok_def)
  show ?thesis
  proof (cases "EN ce")
    case False
    then have "cancel_request_block E c s = upd_ctx c ?h s"
      using c en dis by (simp add: cancel_request_block_def guc_context_block_def Let_def intel_context_get_def)
    then show ?thesis
    proof (rule local_quiet [OF inv c])
      fix inl des q assume "ctx_ok inl des q ce"
      with k False bl h show "ctx_ok inl des q (?h ce)"
        by (clarsimp simp: ok_defs state_simps ctx_simps)
    qed (auto simp: state_simps ctx_simps)
  next
    case True
    let ?g = "\<lambda>ce. (clr_context_enabled (set_context_pending_disable ((?h ce)\<lparr>ce_pin_count := ce_pin_count ce + 2\<rparr>)))
      \<lparr>ce_blocked_done := False, ce_kref := ce_kref ce + 2\<rparr>"
    note e = enabled_want [OF D(1) [OF c] True]
    have key: "ucast (ce_guc_id ce) = ctx_key ce" by (simp add: ctx_key_def)
    have eq: "cancel_request_block E c s =
        h2g_push (SCHED_CONTEXT_MODE_SET (ctx_key ce) False)
          ((upd_ctx c ?g s)\<lparr>gs_outstanding := gs_outstanding s + 1\<rparr>)"
      using c en True dis up
      by (simp add: cancel_request_block_def guc_context_block_def Let_def intel_context_get_def prep_eq
          guc_context_sched_disable_h2g_def ctx_simps clr_context_enabled_def set_context_pending_disable_def
          ctx_key_def add.assoc)
    show ?thesis unfolding eq
    proof (rule disable_inv [OF inv c True, where ce' = "?g ce" and ps = "[]"])
      show "gs_ctxs (h2g_push (SCHED_CONTEXT_MODE_SET (ctx_key ce) False)
          ((upd_ctx c ?g s)\<lparr>gs_outstanding := gs_outstanding s + 1\<rparr>)) = (gs_ctxs s)(c \<mapsto> ?g ce)"
        using c by (simp add: h2g_push_def ctxs_upd_ctx)
      fix inl des q assume "ctx_ok inl des q ce"
      then show "ctx_ok inl des q (?g ce)"
        using e(4-11) True bl h k pos
        by (clarsimp simp: ok_defs state_simps ctx_simps)
    qed (simp_all add: h2g_push_def frame_def state_simps ctx_simps)
  qed
qed

lemma cant_unblock_iff:
  "ce_state ce AND SCHED_STATE_NO_UNBLOCK = 0 \<longleftrightarrow> blocked ce \<le> 1 \<and> \<not> PD ce \<and> \<not> context_banned ce"
proof -
  have mask: "SCHED_STATE_NO_UNBLOCK = push_bit 10 (mask 11) OR push_bit 2 1 OR push_bit 3 1"
    by (simp add: SCHED_STATE_NO_UNBLOCK_def SCHED_STATE_MULTI_BLOCKED_MASK_def SCHED_STATE_BLOCKED_MASK_def
        SCHED_STATE_BLOCKED_def SCHED_STATE_BLOCKED_SHIFT_def SCHED_STATE_PENDING_DISABLE_def
        SCHED_STATE_BANNED_def mask_eq_exp_minus_1)
  have split: "x AND (a OR b OR d) = 0 \<longleftrightarrow> x AND a = 0 \<and> x AND b = 0 \<and> x AND d = 0" for x a b d :: u32
    by (simp add: bit.conj_disj_distrib or_eq_0_iff)
  have flags: "ce_state ce AND push_bit 2 1 = 0 \<longleftrightarrow> \<not> PD ce"
      "ce_state ce AND push_bit 3 1 = 0 \<longleftrightarrow> \<not> context_banned ce"
    by (simp_all only: context_pending_disable_def context_banned_def SCHED_STATE_PENDING_DISABLE_def
        SCHED_STATE_BANNED_def state_test_def not_not)
  have "ce_state ce AND push_bit 10 (mask 11) = push_bit 10 (take_bit 11 (drop_bit 10 (ce_state ce)))"
    by (auto simp: bit_eq_iff bit_simps)
  then have "ce_state ce AND push_bit 10 (mask 11) = 0 \<longleftrightarrow> take_bit 11 (drop_bit 10 (ce_state ce)) = 0"
    by (auto simp: bit_eq_iff bit_simps)
  also have "\<dots> \<longleftrightarrow> unat (take_bit 11 (drop_bit 10 (ce_state ce))) = 0"
    by (simp only: unat_eq_0)
  also have "unat (take_bit 11 (drop_bit 10 (ce_state ce))) = unat (ce_state ce) div 1024 mod 2048"
    by (simp only: unat_take_bit unat_drop_bit_eq) (simp add: drop_bit_eq_div)
  also have "\<dots> = blocked ce div 2"
  proof -
    have "n div 1024 mod 2048 = n div 512 mod 4096 div 2" for n :: nat
    proof -
      have "n div 512 mod (2 * 2048) = 2 * (n div 512 div 2 mod 2048) + n div 512 mod 2"
        by (rule mod_mult2_eq)
      moreover have "n div 512 div 2 = n div 1024" by (simp add: div_mult2_eq [symmetric])
      ultimately show ?thesis by simp
    qed
    then show ?thesis by (simp add: unat_context_blocked)
  qed
  finally have "ce_state ce AND push_bit 10 (mask 11) = 0 \<longleftrightarrow> blocked ce \<le> 1" by auto
  with flags show ?thesis unfolding mask split by blast
qed

lemma unblock_inv:
  assumes inv: "sub_inv (s, f)" and c: "gs_ctxs s c = Some ce" and up: "ct_up E"
    and b: "context_blocked ce \<noteq> 0" and bdone: "ce_blocked_done ce" and out: "c \<notin> set (gs_id_list s)"
    and w: "\<not> W ce"
  shows "sub_inv (cancel_request_unblock E c s, f)"
proof -
  note D = inv_ctxD [OF inv]
  note ok = ctx_okD [OF D(1) [OF c]]
  have dis: "\<not> gs_disabled s" using D(3) by (simp add: queues_ok_def)
  have b1: "0 < blocked ce" using b by (simp add: unat_gt_0)
  have fl: "\<not> EN ce" "\<not> PD ce" "\<not> PE ce" using ok(2) bdone b1 by (auto simp: flags_ok_def)
  have refs: "own_refs ce \<le> ce_kref ce" "1 \<le> own_refs ce"
    using ok(1) own_refs_zero(5) [of ce] b by (auto simp: counts_ok_def not_less [symmetric])
  then have k: "0 < ce_kref ce" by linarith
  then have nd: "\<not> DE ce" "c \<notin> set (gs_destroyed s)" using ok(4) by (auto simp: lists_ok_def)
  show ?thesis
  proof (cases "context_cant_unblock c s")
    case True
    let ?s = "upd_ctx c decr_context_blocked s"
    note bd = context_blocked_decr [OF b]
    have "sub_inv (?s, f)"
    proof (rule local_quiet [OF inv c refl])
      fix inl des q assume "ctx_ok inl des q ce"
      with bd b1 fl show "ctx_ok inl des q (decr_context_blocked ce)"
        by (clarsimp simp: ok_defs state_simps ctx_simps)
    qed (auto simp: state_simps ctx_simps)
    moreover have "own_refs (decr_context_blocked ce) = own_refs ce - 1"
      using bd b1 by (simp add: own_refs_def state_simps ctx_simps of_nat_diff del: of_nat_unat)
    ultimately have "sub_inv (intel_context_put c ?s, f)"
      using put_inv [OF _ ctxs_upd_ctx_same [OF c]] refs by (simp add: ctx_simps)
    with True show ?thesis by (simp add: cancel_request_unblock_def guc_context_unblock_def)
  next
    case False
    let ?g = "\<lambda>ce. decr_context_blocked
      ((set_context_enabled (set_context_pending_enable ce))\<lparr>ce_kref := ce_kref ce + 1\<rparr>)"
    let ?s = "h2g_push (SCHED_CONTEXT_MODE_SET (ctx_key ce) True)
        ((upd_ctx c ?g s)\<lparr>gs_outstanding := gs_outstanding s + 1\<rparr>)"
    have key: "ctx_key (?g ce) = ctx_key ce"
      by (simp add: ctx_key_def ctx_simps set_context_enabled_def set_context_pending_enable_def)
    have can: "blocked ce = 1" "valid ce" "ce_pin_count ce \<noteq> 0"
      using False c b1 cant_unblock_iff [of ce]
      by (auto simp: context_cant_unblock_def Let_def valid_def intel_context_is_pinned_def)
    have "context_blocked ((set_context_enabled (set_context_pending_enable ce))\<lparr>ce_kref := ce_kref ce + 1\<rparr>)
        = context_blocked ce"
      by (simp add: ctx_simps state_updates)
    with context_blocked_decr b can(1) have bd: "blocked (?g ce) = 0" by simp
    have eq: "guc_context_unblock E c s = ?s"
      using False dis c up key
      by (simp add: guc_context_unblock_def Let_def intel_context_get_def guc_context_sched_enable_h2g_def
          ctx_simps state_updates)
    have "sub_inv (?s, f)"
    proof (rule local_inv_flat [OF inv c, where ce' = "?g ce"
          and ms = "[SCHED_CONTEXT_MODE_SET (ctx_key ce) True]"])
      show "gs_ctxs ?s = (gs_ctxs s)(c \<mapsto> ?g ce)"
        using c by (simp add: ctxs_upd_ctx)
      fix inl des q assume *: "inl = (c \<in> set (gs_id_list s))" "ctx_ok inl des q ce"
      with out have "\<not> inl" by simp
      with *(2) can bd b1 fl k w show "ctx_ok inl des q (?g ce)"
        by (clarsimp simp: ok_defs state_simps ctx_simps)
    next
      fix hs st gs assume "chan_ok (want ce) (expected ce) hs st gs"
      then have "chan_ok FW_Disabled [] hs st gs" using fl nd w by (simp add: view_defs)
      from chan_ok_send [OF this, of "SCHED_CONTEXT_MODE_SET (ctx_key ce) True" FW_Enabled]
      show "chan_ok (want (?g ce)) (expected (?g ce)) (hs @ [SCHED_CONTEXT_MODE_SET (ctx_key ce) True]) st gs"
        using fl nd w by (simp add: want_def expected_def state_simps)
    qed (use can in \<open>simp_all add: h2g_push_def frame_def ctx_simps state_updates\<close>)
    moreover have "gs_ctxs ?s c = Some (?g ce)" using c by simp
    moreover have "own_refs (?g ce) < ce_kref (?g ce)"
      using refs bd can(1,3) fl w by (simp add: own_refs_def state_simps ctx_simps)
    ultimately have "sub_inv (intel_context_put c ?s, f)" by (rule put_inv)
    then show ?thesis by (simp add: cancel_request_unblock_def eq)
  qed
qed

lemma disabled_want:
  assumes ok: "ctx_ok inl des q ce" and "PD ce"
  shows "want ce = FW_Disabled" "valid ce"
proof -
  note p = ctx_okD [OF ok]
  have fl: "\<not> EN ce" "\<not> W ce" "valid ce" using p(2) assms(2) by (auto simp: flags_ok_def)
  have "\<not> own_refs ce < 1" using own_refs_zero(4) [of ce] assms(2) by blast
  then have "0 < ce_kref ce" using p(1) by (simp add: counts_ok_def)
  then have "\<not> DE ce" using p(4) by (auto simp: lists_ok_def)
  with fl show "want ce = FW_Disabled" "valid ce" by (simp_all add: view_defs)
qed

lemma revoke_inv:
  assumes inv: "sub_inv (s, f)" and c: "gs_ctxs s c = Some ce" and up: "ct_up E"
    and h: "own_refs ce < ce_kref ce" and st: "\<forall>r. gs_stalled s \<noteq> Some (c, r)"
  shows "sub_inv (intel_context_revoke E c s, f)"
proof -
  let ?b = "\<lambda>ce. set_context_banned (ce\<lparr>ce_exiting := True\<rparr>)"
  note D = inv_ctxD [OF inv]
  have dis: "\<not> gs_disabled s" using D(3) by (simp add: queues_ok_def)
  have b: "gs_ctxs (upd_ctx c ?b s) c = Some (?b ce)" using c by simp
  have fl: "EN (?b ce) = EN ce" "PD (?b ce) = PD ce" "ce_guc_id (?b ce) = ce_guc_id ce"
    by (simp_all add: state_simps ctx_simps)
  from h own_refs_nonneg [of ce] have k: "0 < ce_kref ce" by linarith
  have pos: "0 \<le> ce_pin_count ce"
    using own_pins_nonneg [OF ctx_okD(1) [OF D(1) [OF c]]] ctx_okD(1) [OF D(1) [OF c]]
    by (simp add: counts_ok_def)
  consider (idle) "\<not> EN ce" "\<not> PD ce" | (on) "EN ce" | (pending) "PD ce" by blast
  then show ?thesis
  proof cases
    case idle
    let ?g = "\<lambda>ce. (?b ce)\<lparr>ce_completed := ce_requests ce\<rparr>"
    have "intel_context_revoke E c s = upd_ctx c ?g s"
      using idle fl b by (simp add: intel_context_revoke_def guc_context_revoke_def Let_def
          guc_cancel_context_requests_def ctx_simps set_context_banned_def)
    then show ?thesis
    proof (rule local_quiet [OF inv c])
      fix inl des q assume o: "ctx_ok inl des q ce"
      have own: "own_refs (?g ce) = own_refs ce" "own_pins (?g ce) = own_pins ce"
        by (simp_all add: own_refs_def own_pins_def state_simps ctx_simps)
      have "counts_ok q (?g ce)"
        using ctx_okD(1) [OF o] unfolding counts_ok_def own by (clarsimp simp: ctx_simps state_updates)
      moreover have "flags_ok (?g ce)" "fences_ok q (?g ce)" "lists_ok inl des (?g ce)"
        using ctx_okD(2-4) [OF o] idle by (simp_all add: flags_ok_def fences_ok_def lists_ok_def state_simps ctx_simps)
      ultimately show "ctx_ok inl des q (?g ce)" by (simp add: ctx_ok_def)
    qed (use st in \<open>auto simp: state_simps ctx_simps\<close>)
  next
    case on
    let ?g = "\<lambda>ce. (clr_context_enabled (set_context_pending_disable ((?b ce)\<lparr>ce_pin_count := ce_pin_count ce + 2\<rparr>)))
      \<lparr>ce_blocked_done := False, ce_kref := ce_kref ce + 1\<rparr>"
    note e = enabled_want [OF D(1) [OF c] on]
    have eq: "intel_context_revoke E c s =
        h2g_push (SCHED_CONTEXT_MODE_SET (ctx_key ce) False) ((h2g_push (UPDATE_CONTEXT_POLICIES (ctx_key ce))
          (upd_ctx c ?g s))\<lparr>gs_outstanding := gs_outstanding s + 1\<rparr>)"
      using c on e(5) fl dis up
      by (simp add: intel_context_revoke_def guc_context_revoke_def Let_def prep_eq h2g_push_def
          guc_context_sched_disable_h2g_def guc_context_set_preemption_timeout_def ctx_simps
          clr_context_enabled_def set_context_pending_disable_def set_context_banned_def ctx_key_def)
    show ?thesis unfolding eq
    proof (rule disable_inv [OF inv c on, where ce' = "?g ce" and ps = "[UPDATE_CONTEXT_POLICIES (ctx_key ce)]"])
      show "gs_ctxs (h2g_push (SCHED_CONTEXT_MODE_SET (ctx_key ce) False)
          ((h2g_push (UPDATE_CONTEXT_POLICIES (ctx_key ce)) (upd_ctx c ?g s))
             \<lparr>gs_outstanding := gs_outstanding s + 1\<rparr>)) = (gs_ctxs s)(c \<mapsto> ?g ce)"
        using c by (simp add: h2g_push_def ctxs_upd_ctx)
      fix inl des q assume "ctx_ok inl des q ce"
      then show "ctx_ok inl des q (?g ce)"
        using e(4-11) on h k pos by (clarsimp simp: ok_defs state_simps ctx_simps)
    qed (use st in \<open>simp_all add: h2g_push_def frame_def state_simps ctx_simps\<close>)
  next
    case pending
    note e = disabled_want [OF D(1) [OF c] pending]
    have en: "\<not> EN ce" using ctx_okD(2) [OF D(1) [OF c]] pending by (auto simp: flags_ok_def)
    have eq: "intel_context_revoke E c s = h2g_push (UPDATE_CONTEXT_POLICIES (ctx_key ce)) (upd_ctx c ?b s)"
      using c pending en e(2) fl b dis up
      by (simp add: intel_context_revoke_def guc_context_revoke_def Let_def h2g_push_def valid_def
          guc_context_set_preemption_timeout_def context_guc_id_invalid_def ctx_key_def)
    show ?thesis unfolding eq
    proof (rule local_inv_flat [OF inv c, where ce' = "?b ce" and ms = "[UPDATE_CONTEXT_POLICIES (ctx_key ce)]"])
      show "gs_ctxs (h2g_push (UPDATE_CONTEXT_POLICIES (ctx_key ce)) (upd_ctx c ?b s)) = (gs_ctxs s)(c \<mapsto> ?b ce)"
        using c by (simp add: ctxs_upd_ctx)
      fix inl des q assume "ctx_ok inl des q ce"
      then show "ctx_ok inl des q (?b ce)"
        by (clarsimp simp: ok_defs state_simps ctx_simps)
    next
      fix hs st gs assume ch: "chan_ok (want ce) (expected ce) hs st gs"
      have "want (?b ce) = want ce" "expected (?b ce) = expected ce"
        by (rule view_cong; simp add: state_simps)+
      then show "chan_ok (want (?b ce)) (expected (?b ce)) (hs @ [UPDATE_CONTEXT_POLICIES (ctx_key ce)]) st gs"
        using chan_ok_policy [OF ch] e(1) by simp
    qed (use st e in \<open>simp_all add: h2g_push_def frame_def state_simps ctx_simps\<close>)
  qed
qed

section \<open>Destruction\<close>

lemma sub_inv_fields:
  assumes "sub_inv (s, f)"
  shows "sub_inv (s\<lparr>gs_destroyed_work := b\<rparr>, f)" "sub_inv (s\<lparr>gs_tasklet := b\<rparr>, f)"
    "sub_inv (s\<lparr>gs_outstanding := n\<rparr>, f)" "sub_inv (s\<lparr>gs_stall_reason := r\<rparr>, f)"
    "sub_inv (s\<lparr>gs_stalled := None\<rparr>, f)"
  using assms
  by (simp_all add: sub_inv_def ids_ok_def queues_ok_def id_ok_def number_slrc_guc_id_def
      number_mlrc_guc_id_def queued_def the_ctx_def cong: option.case_cong)

lemma desc_unpin_inv:
  assumes inv: "sub_inv (s, f)" and ds: "gs_destroyed s = c # cs" and up: "ct_up E"
  shows "sub_inv (guc_lrc_desc_unpin E c (s\<lparr>gs_destroyed := cs\<rparr>), f)"
    "gs_destroyed (guc_lrc_desc_unpin E c (s\<lparr>gs_destroyed := cs\<rparr>)) = cs"
proof -
  let ?g = "\<lambda>ce. clr_context_registered (set_context_destroyed ce)"
  note D = inv_ctxD [OF inv]
  have dis: "\<not> gs_disabled s" using D(3) by (simp add: queues_ok_def)
  obtain ce where c: "gs_ctxs s c = Some ce" using D(3) ds by (auto simp: queues_ok_def)
  note ok = ctx_okD [OF D(1) [OF c]]
  have des: "valid ce" "\<not> DE ce" "ce_kref ce = 0" using ok(4) ds by (auto simp: lists_ok_def)
  then have "own_refs ce < 1" using ok(1) by (simp add: counts_ok_def)
  note z = own_refs_zero [OF this]
  have en: "\<not> EN ce" using ok(2) z by (auto simp: flags_ok_def)
  have inl: "c \<notin> set (gs_id_list s)" using ok(4) des by (auto simp: lists_ok_def)
  have cs: "c \<notin> set cs" "distinct cs" using D(3) ds by (auto simp: queues_ok_def)
  have key: "ctx_key (?g ce) = ctx_key ce" by (simp add: ctx_key_def ctx_simps state_updates)
  let ?s = "h2g_push (DEREGISTER_CONTEXT (ctx_key ce))
      ((upd_ctx c ?g (s\<lparr>gs_destroyed := cs\<rparr>))\<lparr>gs_outstanding := gs_outstanding s + 1\<rparr>)"
  have eq: "guc_lrc_desc_unpin E c (s\<lparr>gs_destroyed := cs\<rparr>) = ?s"
    using dis c up key by (simp add: guc_lrc_desc_unpin_def Let_def deregister_context_def)
  show "gs_destroyed (guc_lrc_desc_unpin E c (s\<lparr>gs_destroyed := cs\<rparr>)) = cs"
    unfolding eq by (simp add: h2g_push_def)
  have ctxs: "gs_ctxs ?s = (gs_ctxs s)(c \<mapsto> ?g ce)" using c by (simp add: ctxs_upd_ctx)
  show "sub_inv (guc_lrc_desc_unpin E c (s\<lparr>gs_destroyed := cs\<rparr>), f)"
    unfolding eq
  proof (rule local_inv [OF inv c ctxs, where ms = "[DEREGISTER_CONTEXT (ctx_key ce)]"])
    show "frame_lists c s ?s"
      using D(3) ds cs by (auto simp: frame_lists_def queues_ok_def queued_def h2g_push_def)
    have "queued ?s c = queued s c" by (rule queued_cong) (simp add: h2g_push_def)
    moreover have "gs_id_list ?s = gs_id_list s" "gs_destroyed ?s = cs" by (simp_all add: h2g_push_def)
    ultimately show "ctx_ok (c \<in> set (gs_id_list ?s)) (c \<in> set (gs_destroyed ?s)) (queued ?s c) (?g ce)"
      using D(1) [OF c] des z en inl cs ds by (clarsimp simp: ok_defs state_simps ctx_simps)
  next
    fix hs st gs assume "chan_ok (want ce) (expected ce) hs st gs"
    then have "chan_ok FW_Disabled [] hs st gs" using z en des by (simp add: view_defs)
    from chan_ok_send [OF this, of "DEREGISTER_CONTEXT (ctx_key ce)" FW_Deregistering]
    show "chan_ok (want (?g ce)) (expected (?g ce)) (hs @ [DEREGISTER_CONTEXT (ctx_key ce)]) st gs"
      using z en by (simp add: want_def expected_def state_simps)
  next
    show "stall_ok ?s"
      using D(4) c unfolding stall_ok_def ctxs by (auto simp: h2g_push_def ctx_simps state_updates)
  qed (use des in \<open>simp_all add: h2g_push_def frame_def ctx_simps state_updates\<close>)
qed

lemma destroy_inv:
  assumes inv: "sub_inv (s, f)" and up: "ct_up E"
  shows "sub_inv (destroyed_worker_func E s, f)"
proof -
  have "sub_inv (deregister_destroyed_loop E cs s, f)" if "gs_destroyed s = cs" "sub_inv (s, f)" for cs s
    using that
  proof (induction cs arbitrary: s)
    case (Cons c cs)
    from desc_unpin_inv [OF Cons.prems(2,1) up] Cons.IH show ?case by simp
  qed simp
  from this [OF _ sub_inv_fields(1) [OF inv]] show ?thesis
    by (simp add: destroyed_worker_func_def)
qed

end
