(* ===== verification/Guc_Protocol_Answers.thy ===== *)
theory Guc_Protocol_Answers
  imports Guc_Protocol_Steps
begin

text \<open>
  The invariant when the GuC takes messages and answers, and when the driver handles the answers.
\<close>

section \<open>Steps of the GuC\<close>

lemma about_Cons: "about i (m # ms) = (if h2g_id m = i then m # about i ms else about i ms)"
  by (simp add: about_def)

lemma answer_now_id: "g \<in> set (h2g_answer_now m) \<Longrightarrow> g2h_id g = h2g_id m \<and> g2h_well_formed g"
  by (cases m) (auto split: if_splits)

lemma fw_answer_id: "g \<in> set (fw_answer i st) \<Longrightarrow> g2h_id g = i \<and> g2h_well_formed g"
  by (cases st) auto

text \<open>The view of an id that the steps of the GuC do not change.\<close>

definition id_view :: "guc_submission \<Rightarrow> u32 \<Rightarrow> fw_status \<times> g2h_kind list" where
  "id_view s i = (case gs_lookup s i of None \<Rightarrow> (FW_Unregistered, [])
     | Some c \<Rightarrow> (want (the_ctx s c), expected (the_ctx s c)))"

lemma id_ok_view:
  "id_ok s f i \<longleftrightarrow> (case id_view s i of (w, e) \<Rightarrow>
     chan_ok w e (about i (gs_h2g s)) (f i) (answers_about i (gs_g2h s)))"
  by (simp add: id_ok_def id_view_def split: option.split)

lemma id_view_queues [simp]:
  "id_view (s\<lparr>gs_h2g := hs, gs_g2h := gs\<rparr>) i = id_view s i" "id_view (s\<lparr>gs_g2h := gs\<rparr>) i = id_view s i"
  "id_view (s\<lparr>gs_h2g := hs\<rparr>) i = id_view s i"
  by (simp_all add: id_view_def the_ctx_def cong: option.case_cong)

lemma fw_inv:
  assumes inv: "sub_inv (s, f)"
    and ids: "\<And>i. id_ok (s\<lparr>gs_h2g := hs, gs_g2h := gs\<rparr>) f' i"
    and gs: "\<And>g. g \<in> set gs \<Longrightarrow> g \<in> set (gs_g2h s) \<or> g2h_well_formed g"
  shows "sub_inv (s\<lparr>gs_h2g := hs, gs_g2h := gs\<rparr>, f')"
proof -
  have "list_all g2h_well_formed gs"
    using inv_ctxD(3) [OF inv] gs unfolding queues_ok_def list_all_iff by blast
  moreover have "\<forall>i. id_ok (s\<lparr>gs_h2g := hs, gs_g2h := gs\<rparr>) f' i" using ids by blast
  ultimately show ?thesis
    using inv by (simp add: sub_inv_def ids_ok_def queues_ok_def number_slrc_guc_id_def
        number_mlrc_guc_id_def queued_def)
qed

lemma fw_take_inv:
  assumes inv: "sub_inv (s, f)" and hs: "gs_h2g s = m # ms" and acc: "fw_accept m (f (h2g_id m)) = Some st"
  shows "sub_inv (s\<lparr>gs_h2g := ms, gs_g2h := gs_g2h s @ h2g_answer_now m\<rparr>, f(h2g_id m := st))"
proof (rule fw_inv [OF inv])
  fix i
  obtain w e where v: "id_view s i = (w, e)" by fastforce
  have ok: "chan_ok w e (about i (m # ms)) (f i) (answers_about i (gs_g2h s))"
    using inv_ctxD(5) [OF inv, of i] v hs by (simp add: id_ok_view)
  show "id_ok (s\<lparr>gs_h2g := ms, gs_g2h := gs_g2h s @ h2g_answer_now m\<rparr>) (f(h2g_id m := st)) i"
  proof (cases "h2g_id m = i")
    case True
    with ok have "chan_ok w e (m # about i ms) (f i) (answers_about i (gs_g2h s))"
      by (simp add: about_Cons)
    from chan_ok_take [OF this] obtain st' where "fw_accept m (f i) = Some st'"
        "chan_ok w e (about i ms) st' (answers_about i (gs_g2h s) @ map g2h_kind_of (h2g_answer_now m))" .
    moreover have "answers_about i (h2g_answer_now m) = map g2h_kind_of (h2g_answer_now m)"
      using True by (auto intro: answers_about_all simp: answer_now_id)
    ultimately show ?thesis
      using True acc by (simp add: id_ok_view v)
  next
    case False
    then have "answers_about i (h2g_answer_now m) = []"
      by (auto intro!: answers_about_other simp: answer_now_id)
    with False ok show ?thesis by (simp add: id_ok_view v about_Cons)
  qed
qed (auto simp: answer_now_id)

lemma fw_finish_inv:
  assumes inv: "sub_inv (s, f)"
  shows "sub_inv (s\<lparr>gs_g2h := gs_g2h s @ fw_answer i (f i)\<rparr>, f(i := fw_settle (f i)))"
proof -
  have "sub_inv (s\<lparr>gs_h2g := gs_h2g s, gs_g2h := gs_g2h s @ fw_answer i (f i)\<rparr>, f(i := fw_settle (f i)))"
  proof (rule fw_inv [OF inv])
    fix j
    obtain w e where v: "id_view s j = (w, e)" by fastforce
    have ok: "chan_ok w e (about j (gs_h2g s)) (f j) (answers_about j (gs_g2h s))"
      using inv_ctxD(5) [OF inv, of j] v by (simp add: id_ok_view)
    show "id_ok (s\<lparr>gs_h2g := gs_h2g s, gs_g2h := gs_g2h s @ fw_answer i (f i)\<rparr>) (f(i := fw_settle (f i))) j"
    proof (cases "j = i")
      case True
      then have "answers_about j (fw_answer i (f i)) = map g2h_kind_of (fw_answer i (f i))"
        by (auto intro: answers_about_all simp: fw_answer_id)
      with True v chan_ok_finish [OF ok, of i] show ?thesis by (simp add: id_ok_view v)
    next
      case False
      then have "answers_about j (fw_answer i (f i)) = []"
        by (auto intro!: answers_about_other simp: fw_answer_id)
      with False ok show ?thesis by (simp add: id_ok_view v)
    qed
  qed (auto simp: fw_answer_id)
  then show ?thesis by simp
qed

section \<open>Answers\<close>

text \<open>The answer at the head of the queue is one that its context expects next.\<close>

lemma receive_lookup:
  assumes inv: "sub_inv (s, f)" and g: "gs_g2h s = m # ms"
  obtains c ce where "gs_lookup s (g2h_id m) = Some c" "gs_ctxs s c = Some ce" "valid ce"
    "ctx_key ce = g2h_id m" "\<exists>e. expected ce = g2h_kind_of m # e" "g2h_well_formed m"
    "g2h_context_lookup (g2h_id m) (s\<lparr>gs_g2h := ms\<rparr>) = Some c"
proof -
  note D = inv_ctxD [OF inv]
  let ?i = "g2h_id m"
  obtain w e where v: "id_view s ?i = (w, e)" by fastforce
  have "chan_ok w e (about ?i (gs_h2g s)) (f ?i) (g2h_kind_of m # answers_about ?i ms)"
    using D(5) [of ?i] v g by (simp add: id_ok_view answers_about_def)
  note e = chan_ok_first [OF this]
  with v obtain c where l: "gs_lookup s ?i = Some c"
    by (auto simp: id_view_def split: option.splits)
  with D(2) obtain ce where c: "gs_ctxs s c = Some ce" "valid ce" "ctx_key ce = ?i"
    unfolding ids_ok_def by blast
  have ex: "\<exists>e. expected ce = g2h_kind_of m # e"
    using e v l c by (auto simp: id_view_def neq_Nil_conv)
  have "unat ?i < GUC_MAX_CONTEXT_ID"
  proof -
    have "ce_guc_id ce \<noteq> 65535" using c(2) by (simp add: valid_def context_guc_id_invalid_def
        GUC_INVALID_CONTEXT_ID_def)
    then have "unat (ce_guc_id ce) \<noteq> unat (65535 :: u16)" by (metis unsigned_word_eqI)
    then have "unat (ce_guc_id ce) \<noteq> 65535" by simp
    moreover have "unat (ce_guc_id ce) < 65536" using unsigned_less [of "ce_guc_id ce", where ?'a = nat] by simp
    ultimately show ?thesis
      by (simp add: c(3) [symmetric] ctx_key_def unat_ucast)
  qed
  moreover have "ce_parent ce = None" using ctx_okD(2) [OF D(1) [OF c(1)]] by (simp add: flags_ok_def)
  ultimately have "g2h_context_lookup ?i (s\<lparr>gs_g2h := ms\<rparr>) = Some c"
    using l c by (simp add: g2h_context_lookup_def intel_context_is_child_def the_ctx_def)
  moreover have "g2h_well_formed m" using D(3) g by (simp add: queues_ok_def)
  ultimately show ?thesis using that l c ex by blast
qed

lemma receive_deregister_wait:
  assumes inv: "sub_inv (s, f)" and g: "gs_g2h s = DEREGISTER_CONTEXT_DONE msg # ms"
    and c: "gs_ctxs s c = Some ce" and w: "W ce" and key: "ctx_key ce = msg ! 0" and up: "ct_up E"
  shows "sub_inv (intel_context_put c (guc_signal_context_fence c
      (snd (register_context E True c (s\<lparr>gs_g2h := ms\<rparr>)))), f)"
proof -
  note D = inv_ctxD [OF inv]
  note ok = ctx_okD [OF D(1) [OF c]]
  have fl: "\<not> EN ce" "\<not> PE ce" "\<not> PD ce" "valid ce" using ok(2) w by (auto simp: flags_ok_def)
  have refs: "own_refs ce \<le> ce_kref ce" using ok(1) by (simp add: counts_ok_def)
  have "\<not> own_refs ce < 1" using own_refs_zero(2) [of ce] w by blast
  with refs have k: "0 < ce_kref ce" by linarith
  then have nd: "\<not> DE ce" using ok(4) by (auto simp: lists_ok_def)
  define g where "g = (\<lambda>ce. (clr_context_wait_for_deregister_to_register
      (if ge_v70 E then clr_context_policy_required (set_context_registered ce) else set_context_registered ce))
      \<lparr>ce_fences := []\<rparr>)"
  define ps where "ps = (if ge_v70 E then [UPDATE_CONTEXT_POLICIES (ctx_key ce)] else [])"
  let ?s = "guc_signal_context_fence c (snd (register_context E True c (s\<lparr>gs_g2h := ms\<rparr>)))"
  have keys: "ctx_key (set_context_registered ce) = ctx_key ce"
    by (simp add: ctx_key_def set_context_registered_def ctx_simps)
  have s: "gs_ctxs ?s = (gs_ctxs s)(c \<mapsto> g ce)" "frame s ?s" "gs_id_list ?s = gs_id_list s"
      "gs_destroyed ?s = gs_destroyed s" "gs_queue ?s = gs_queue s" "gs_stalled ?s = gs_stalled s"
      "gs_g2h ?s = ms" "gs_h2g ?s = gs_h2g s @ REGISTER_CONTEXT (ctx_key ce) # ps"
    using c up keys
    by (auto simp: guc_signal_context_fence_def register_context_def guc_context_policy_init_v70_def
        Let_def h2g_push_def upd_ctx_def frame_def g_def ps_def the_ctx_def)
  have fg: "ce_guc_id (g ce) = ce_guc_id ce" "ce_requests (g ce) = ce_requests ce"
      "ce_completed (g ce) = ce_completed ce" "ce_exiting (g ce) = ce_exiting ce"
      "ce_kref (g ce) = ce_kref ce" "own_refs (g ce) = own_refs ce - 1"
      "\<not> W (g ce)" "EN (g ce) = EN ce" "PE (g ce) = PE ce" "PD (g ce) = PD ce" "DE (g ce) = DE ce"
    using w by (simp_all add: g_def state_simps ctx_simps own_refs_def)
  have "sub_inv (?s, f)"
  proof (rule local_inv_receive [OF inv c s(1,2), where pre = "[DEREGISTER_CONTEXT_DONE msg]"
        and ms = "REGISTER_CONTEXT (ctx_key ce) # ps"])
    show "frame_lists c s ?s"
      using D(3) s(3-5) by (simp add: frame_lists_def queues_ok_def queued_def)
    show "ctx_ok (c \<in> set (gs_id_list ?s)) (c \<in> set (gs_destroyed ?s)) (queued ?s c) (g ce)"
      using D(1) [OF c] w fl nd k refs unfolding s(3,4) queued_cong [OF s(5)]
      by (cases "ge_v70 E") (clarsimp simp: g_def ok_defs state_simps ctx_simps)+
    fix hs st gs
    assume "chan_ok (want ce) (expected ce) hs st (map g2h_kind_of [DEREGISTER_CONTEXT_DONE msg] @ gs)"
    then have "chan_ok FW_Unregistered [] hs st gs"
      using w fl by (simp add: view_defs chan_ok_def)
    from chan_ok_send [OF this, of "REGISTER_CONTEXT (ctx_key ce)" FW_Disabled]
    have "chan_ok FW_Disabled [] (hs @ [REGISTER_CONTEXT (ctx_key ce)]) st gs" by simp
    from this chan_ok_policy [OF this _ refl, of "ctx_key ce"]
    have "chan_ok FW_Disabled [] (hs @ REGISTER_CONTEXT (ctx_key ce) # ps) st gs"
      by (simp add: ps_def)
    then show "chan_ok (want (g ce)) (expected (g ce)) (hs @ REGISTER_CONTEXT (ctx_key ce) # ps) st gs"
      using fg fl nd by (simp add: want_def expected_def)
  next
    show "stall_ok ?s"
      using D(4) c fg unfolding stall_ok_def s(1,6) by auto
  qed (use s g fl key fg in \<open>auto simp: ps_def\<close>)
  moreover have "own_refs (g ce) < ce_kref (g ce)" using fg refs by simp
  ultimately show ?thesis by (intro put_inv) (simp_all add: s(1))
qed

lemma receive_enabled:
  assumes inv: "sub_inv (s, f)" and g: "gs_g2h s = SCHED_CONTEXT_MODE_DONE msg # ms"
    and c: "gs_ctxs s c = Some ce" and pe: "PE ce" and key: "ctx_key ce = msg ! 0"
  shows "sub_inv (intel_context_put c (decr_outstanding_submission_g2h
      (upd_ctx c clr_context_pending_enable (s\<lparr>gs_g2h := ms\<rparr>))), f)"
proof -
  note D = inv_ctxD [OF inv]
  note ok = ctx_okD [OF D(1) [OF c]]
  have v: "valid ce" using ok(2) pe by (auto simp: flags_ok_def)
  have refs: "own_refs ce \<le> ce_kref ce" using ok(1) by (simp add: counts_ok_def)
  let ?g = clr_context_pending_enable
  let ?s = "decr_outstanding_submission_g2h (upd_ctx c ?g (s\<lparr>gs_g2h := ms\<rparr>))"
  have own: "own_refs (?g ce) = own_refs ce - 1" "ce_kref (?g ce) = ce_kref ce"
    using pe by (simp_all add: state_simps ctx_simps own_refs_def)
  have s: "gs_ctxs ?s = (gs_ctxs s)(c \<mapsto> ?g ce)" "frame s ?s" "gs_id_list ?s = gs_id_list s"
      "gs_destroyed ?s = gs_destroyed s" "gs_queue ?s = gs_queue s" "gs_stalled ?s = gs_stalled s"
      "gs_g2h ?s = ms" "gs_h2g ?s = gs_h2g s"
    using c by (simp_all add: decr_outstanding_submission_g2h_def ctxs_upd_ctx frame_def)
  have "sub_inv (?s, f)"
  proof (rule local_inv_receive [OF inv c s(1,2), where pre = "[SCHED_CONTEXT_MODE_DONE msg]" and ms = "[]"])
    show "frame_lists c s ?s"
      using D(3) s(3-5) by (simp add: frame_lists_def queues_ok_def queued_def)
    show "ctx_ok (c \<in> set (gs_id_list ?s)) (c \<in> set (gs_destroyed ?s)) (queued ?s c) (?g ce)"
    proof -
      have "own_pins (?g ce) = own_pins ce" by (simp add: own_pins_def state_simps ctx_simps)
      then have "counts_ok (queued s c) (?g ce)"
        using ok(1) unfolding counts_ok_def own by (auto simp: state_updates ctx_simps)
      moreover have "flags_ok (?g ce)" "fences_ok (queued s c) (?g ce)"
          "lists_ok (c \<in> set (gs_id_list s)) (c \<in> set (gs_destroyed s)) (?g ce)"
        using ok(2-4) by (auto simp: flags_ok_def fences_ok_def lists_ok_def state_simps ctx_simps)
      ultimately show ?thesis unfolding s(3,4) queued_cong [OF s(5)] by (simp add: ctx_ok_def)
    qed
    fix hs st gs
    assume "chan_ok (want ce) (expected ce) hs st (map g2h_kind_of [SCHED_CONTEXT_MODE_DONE msg] @ gs)"
    then have "chan_ok (want ce) (Sched_Done # expected (?g ce)) hs st (Sched_Done # gs)"
      using pe by (simp add: expected_def state_simps)
    note ch = chan_ok_receive [OF this]
    have "want (?g ce) = want ce" by (simp add: want_def state_simps)
    with ch show "chan_ok (want (?g ce)) (expected (?g ce)) (hs @ []) st gs" by simp
  next
    show "stall_ok ?s"
      using D(4) c unfolding stall_ok_def s(1,6) by (auto simp: state_updates ctx_simps)
  qed (use s g key v in \<open>auto simp: state_updates ctx_simps\<close>)
  then show ?thesis
    by (rule put_inv [OF _ fun_cong [OF s(1), of c, simplified]]) (use own refs in simp)
qed

text \<open>The end of a disabling gives the two pins back; the reference that it holds keeps the context.\<close>

lemma unpin_busy:
  assumes c: "gs_ctxs s c = Some ce" and k: "1 < ce_kref ce" and v: "valid ce" "ce_children ce = []"
    and ref: "ce_pin_count ce = 2 \<longrightarrow> ce_ref ce = 0"
  defines "s' \<equiv> intel_context_sched_disable_unpin c s"
  shows "gs_ctxs s' = (gs_ctxs s)(c \<mapsto> ce\<lparr>ce_pin_count := ce_pin_count ce - 2,
      ce_kref := ce_kref ce - of_bool (ce_pin_count ce = 2)\<rparr>)"
    "frame s s'" "gs_destroyed s' = gs_destroyed s" "gs_queue s' = gs_queue s" "gs_stalled s' = gs_stalled s"
    "gs_h2g s' = gs_h2g s" "gs_g2h s' = gs_g2h s"
    "gs_id_list s' = gs_id_list s @ (if ce_pin_count ce = 2 \<and> c \<notin> set (gs_id_list s) then [c] else [])"
  using assms
  by (auto simp: s'_def intel_context_sched_disable_unpin_def intel_context_do_unpin_def intel_context_put_def
      unpin_guc_id_def Let_def frame_def valid_def context_guc_id_invalid_def intel_context_is_parent_def
      upd_ctx_def the_ctx_def)

lemma receive_disabled:
  assumes inv: "sub_inv (s, f)" and g: "gs_g2h s = SCHED_CONTEXT_MODE_DONE msg # ms"
    and c: "gs_ctxs s c = Some ce" and pe: "\<not> PE ce" and pd: "PD ce" and key: "ctx_key ce = msg ! 0"
  defines "s2 \<equiv> intel_context_sched_disable_unpin c (s\<lparr>gs_g2h := ms\<rparr>)"
  defines "s3 \<equiv> upd_ctx c (\<lambda>ce. (clr_context_pending_disable (clr_context_banned ce))
                               \<lparr>ce_fences := [], ce_blocked_done := True\<rparr>) s2"
  shows "sub_inv (intel_context_put c (decr_outstanding_submission_g2h
      (if context_banned (the_ctx s2 c) then guc_cancel_context_requests c s3 else s3)), f)"
proof -
  note D = inv_ctxD [OF inv]
  note ok = ctx_okD [OF D(1) [OF c]]
  have v: "valid ce" "ce_children ce = []" "\<not> W ce" "\<not> EN ce" using ok(2) pd by (auto simp: flags_ok_def)
  have refs: "own_refs ce \<le> ce_kref ce" using ok(1) by (simp add: counts_ok_def)
  have pins: "own_pins ce \<le> ce_pin_count ce" "0 \<le> ce_ref ce" using ok(1) by (simp_all add: counts_ok_def)
  have pos: "2 \<le> ce_pin_count ce" "ce_pin_count ce = 2 \<longrightarrow> ce_ref ce = 0 \<and> \<not> ce_work ce"
    using pins pd by (cases "ce_work ce"; simp add: own_pins_def)+
  have k2: "2 \<le> own_refs ce" using pd pos(1) by (simp add: own_refs_def)
  have k: "1 < ce_kref ce" using k2 refs by linarith
  have nd: "\<not> DE ce" "c \<notin> set (gs_destroyed s)" using ok(4) k by (auto simp: lists_ok_def)
  have nl: "c \<notin> set (gs_id_list s)" using ok(4) pd by (auto simp: lists_ok_def)
  let ?z = "ce_pin_count ce = 2"
  define g where "g = (\<lambda>ce. (clr_context_pending_disable (clr_context_banned
      (ce\<lparr>ce_pin_count := ce_pin_count ce - 2, ce_kref := ce_kref ce - of_bool (ce_pin_count ce = 2)\<rparr>)))
      \<lparr>ce_fences := [], ce_blocked_done := True,
       ce_completed := if context_banned ce then ce_requests ce else ce_completed ce\<rparr>)"
  let ?s = "decr_outstanding_submission_g2h
      (if context_banned (the_ctx s2 c) then guc_cancel_context_requests c s3 else s3)"
  have c0: "gs_ctxs (s\<lparr>gs_g2h := ms\<rparr>) c = Some ce" using c by simp
  have "ce_pin_count ce = 2 \<longrightarrow> ce_ref ce = 0" using pos by simp
  note u = unpin_busy [OF c0 k v(1,2) this, folded s2_def]
  have ban: "context_banned (the_ctx s2 c) = context_banned ce"
    using u(1) by (simp add: the_ctx_def state_simps)
  have s: "gs_ctxs ?s = (gs_ctxs s)(c \<mapsto> g ce)" "frame s ?s" "gs_destroyed ?s = gs_destroyed s"
      "gs_queue ?s = gs_queue s" "gs_stalled ?s = gs_stalled s" "gs_g2h ?s = ms" "gs_h2g ?s = gs_h2g s"
      "gs_id_list ?s = gs_id_list s @ (if ?z then [c] else [])"
    using u nl unfolding ban
    by (auto simp: decr_outstanding_submission_g2h_def guc_cancel_context_requests_def s3_def frame_def
        ctxs_upd_ctx g_def state_updates ctx_simps)
  have fg: "ce_guc_id (g ce) = ce_guc_id ce" "ce_requests (g ce) = ce_requests ce"
      "ce_exiting (g ce) = ce_exiting ce" "\<not> PD (g ce)" "W (g ce) = W ce" "PE (g ce) = PE ce"
      "EN (g ce) = EN ce" "DE (g ce) = DE ce"
      "ce_completed (g ce) = (if context_banned ce then ce_requests ce else ce_completed ce)"
    by (simp_all add: g_def state_simps ctx_simps)
  have own: "own_refs (g ce) = own_refs ce - 1 - of_bool ?z" "own_pins (g ce) = own_pins ce - 2"
      "ce_kref (g ce) = ce_kref ce - of_bool ?z" "ce_pin_count (g ce) = ce_pin_count ce - 2"
    using pd pos(1) by (auto simp: g_def state_simps ctx_simps own_refs_def own_pins_def)
  have kg: "own_refs (g ce) < ce_kref (g ce)" "0 < ce_kref (g ce)"
    using own refs k by (auto simp: of_bool_def)
  have "sub_inv (?s, f)"
  proof (rule local_inv_receive [OF inv c s(1,2), where pre = "[SCHED_CONTEXT_MODE_DONE msg]" and ms = "[]"])
    show "frame_lists c s ?s"
      using D(3) s(3,4,8) nl by (simp add: frame_lists_def queues_ok_def queued_def)
    have counts: "counts_ok (queued s c) (g ce)"
      using ok(1) kg unfolding counts_ok_def own(2-4)
      by (auto simp: g_def state_simps ctx_simps)
    have flags: "flags_ok (g ce)"
      using ok(2) pd pe v by (auto simp: flags_ok_def g_def state_simps ctx_simps)
    have fences: "fences_ok (queued s c) (g ce)"
      using ok(3) pd v by (auto simp: fences_ok_def g_def state_simps ctx_simps)
    have "lists_ok ?z (c \<in> set (gs_destroyed s)) (g ce)"
    proof -
      have "ce_dirty ce \<longrightarrow> c \<in> set (gs_id_list s)" using ok(4) v k by (auto simp: lists_ok_def idle_listed_def)
      with nl have "\<not> ce_dirty ce" by blast
      then show ?thesis
        using kg(2) v pe pos nd unfolding lists_ok_def idle_listed_def fg
        by (auto simp: g_def state_simps ctx_simps)
    qed
    with counts flags fences
    show "ctx_ok (c \<in> set (gs_id_list ?s)) (c \<in> set (gs_destroyed ?s)) (queued ?s c) (g ce)"
      unfolding s(3,8) queued_cong [OF s(4)] using nl by (simp add: ctx_ok_def)
    fix hs st gs
    assume "chan_ok (want ce) (expected ce) hs st (map g2h_kind_of [SCHED_CONTEXT_MODE_DONE msg] @ gs)"
    then have "chan_ok (want ce) (Sched_Done # expected (g ce)) hs st (Sched_Done # gs)"
      using pd pe fg by (simp add: expected_def)
    note ch = chan_ok_receive [OF this]
    have "want (g ce) = want ce" by (simp add: want_def fg)
    with ch show "chan_ok (want (g ce)) (expected (g ce)) (hs @ []) st gs" by simp
  next
    have "context_banned ce \<longrightarrow> ce_exiting ce" using ok(2) by (simp add: flags_ok_def)
    then show "stall_ok ?s"
      using D(4) c fg unfolding stall_ok_def s(1,5) by auto
  qed (use s g key v fg in auto)
  from put_inv [OF this fun_cong [OF s(1), of c, simplified] kg(1)] show ?thesis .
qed

text \<open>The id of a destroyed context is free again when the GuC has deregistered it.\<close>

lemma in_use_minus:
  assumes "unat (x :: u32) = length xs" "distinct xs" "i \<in> set xs"
  shows "unat (x - 1) = length (removeAll i xs)"
proof -
  have "0 < unat x" using assms(1,3) by (cases xs) auto
  then have "1 \<le> x" by (simp add: word_le_nat_alt)
  then have "unat (x - 1) = unat x - 1" by (simp add: unat_sub word_le_nat_alt)
  then show ?thesis using assms by (simp add: distinct_remove1_removeAll [symmetric] length_remove1)
qed

lemma unat_ctx_key: "unat (ctx_key ce) = unat (ce_guc_id ce)"
proof -
  have "unat (ce_guc_id ce) < 65536" using unsigned_less [of "ce_guc_id ce", where ?'a = nat] by simp
  then show ?thesis by (simp add: ctx_key_def unat_ucast)
qed

lemma receive_deregister_destroyed:
  assumes inv: "sub_inv (s, f)" and g: "gs_g2h s = DEREGISTER_CONTEXT_DONE msg # ms"
    and c: "gs_ctxs s c = Some ce" and de: "DE ce" and key: "ctx_key ce = msg ! 0" and v: "valid ce"
  shows "sub_inv (guc_context_free c (release_guc_id c (s\<lparr>gs_g2h := ms\<rparr>)), f)"
proof -
  note D = inv_ctxD [OF inv]
  note ok = ctx_okD [OF D(1) [OF c]]
  have k: "ce_kref ce = 0" using ok(4) de by (simp add: lists_ok_def)
  then have "own_refs ce < 1" using ok(1) by (simp add: counts_ok_def)
  note z = own_refs_zero [OF this]
  have ref: "ce_ref ce = 0"
    using ok(1) z own_pins_nonneg [OF ok(1)] by (simp add: counts_ok_def)
  note idle = counts_idle [OF ok(1) ref]
  have out: "c \<notin> set (gs_id_list s)" "c \<notin> set (gs_destroyed s)" using ok(4) k de by (auto simp: lists_ok_def)
  have single: "\<not> intel_context_is_parent ce"
    using ok(2) by (simp add: flags_ok_def intel_context_is_parent_def)
  let ?i = "ctx_key ce"
  have un: "unat (ce_guc_id ce) = unat ?i" by (rule unat_ctx_key [symmetric])
  let ?s = "guc_context_free c (release_guc_id c (s\<lparr>gs_g2h := ms\<rparr>))"
  have init: "gs_initialized s" using D(3) by (simp add: queues_ok_def)
  have s: "gs_ctxs ?s = (gs_ctxs s)(c := None)" "gs_lookup ?s = (gs_lookup s)(?i := None)"
      "gs_ids ?s = removeAll (unat ?i) (gs_ids s)" "gs_in_use ?s = gs_in_use s - 1"
      "gs_id_list ?s = gs_id_list s" "gs_destroyed ?s = gs_destroyed s" "gs_queue ?s = gs_queue s"
      "gs_stalled ?s = gs_stalled s" "gs_g2h ?s = ms" "gs_h2g ?s = gs_h2g s" "gs_num_ids ?s = gs_num_ids s"
      "gs_bitmap ?s = gs_bitmap s" "gs_disabled ?s = gs_disabled s" "gs_initialized ?s = gs_initialized s"
    using c v single out init un
    by (simp_all add: guc_context_free_def release_guc_id_def Let_def the_ctx_def valid_def clr_ctx_id_mapping_def
        upd_ctx_def fun_eq_iff)
  have l: "gs_lookup s ?i = Some c" by (rule ids_validD [OF D(2) c v])
  have num: "number_slrc_guc_id ?s = number_slrc_guc_id s" "number_mlrc_guc_id ?s = number_mlrc_guc_id s"
    by (simp_all add: s number_slrc_guc_id_def number_mlrc_guc_id_def)
  have q: "queued ?s d = queued s d" for d by (rule queued_cong) (rule s(7))
  have ids: "distinct (gs_ids s)" "unat (gs_in_use s) = length (gs_ids s)" "unat ?i \<in> set (gs_ids s)"
      "\<And>i. gs_lookup s i \<noteq> None \<longleftrightarrow> unat i \<in> set (gs_ids s)"
    using D(2) l unfolding ids_ok_def by blast+
  have in_use: "unat (gs_in_use s - 1) = length (removeAll (unat ?i) (gs_ids s))"
    by (rule in_use_minus) (use ids in auto)
  have "ids_ok ?s"
    unfolding ids_ok_def num s
  proof (intro conjI allI impI)
    fix i
    show "((gs_lookup s)(?i := None)) i \<noteq> None \<longleftrightarrow> unat i \<in> set (removeAll (unat ?i) (gs_ids s))"
      using ids(4) [of i] unsigned_word_eqI [of i ?i, where ?'a = nat] by auto
  next
    fix i d assume "((gs_lookup s)(?i := None)) i = Some d"
    then have i: "gs_lookup s i = Some d" "i \<noteq> ?i" by (simp_all split: if_splits)
    with D(2) obtain de where de: "gs_ctxs s d = Some de" "valid de" "ctx_key de = i"
      unfolding ids_ok_def by blast
    with i c show "\<exists>ce. ((gs_ctxs s)(c := None)) d = Some ce \<and> valid ce \<and> ctx_key ce = i" by auto
  next
    fix d de assume "((gs_ctxs s)(c := None)) d = Some de \<and> valid de"
    then have d: "gs_ctxs s d = Some de" "valid de" "d \<noteq> c" by (simp_all split: if_splits)
    from ids_validD [OF D(2) d(1,2)] l d(3) show "((gs_lookup s)(?i := None)) (ctx_key de) = Some d" by auto
  qed (use D(2) ids in_use in \<open>auto simp: ids_ok_def distinct_removeAll\<close>)
  moreover have "queues_ok ?s"
    using D(3) out idle unfolding queues_ok_def num s q by (auto simp: c g)
  moreover have "id_ok ?s f i" for i
  proof (cases "i = ?i")
    case True
    have "chan_ok FW_Unregistered [Deregister_Done] (about i (gs_h2g s)) (f i)
        (Deregister_Done # answers_about i ms)"
      using D(5) [of i] l c de z g key True by (simp add: id_ok_def answers_about_def view_defs)
    from chan_ok_receive [OF this] True show ?thesis by (simp add: id_ok_def s)
  next
    case False
    then have "answers_about i (gs_g2h s) = answers_about i ms"
      using g key by (simp add: answers_about_def)
    moreover have "gs_lookup s i \<noteq> Some c" using ids_lookupD [OF D(2) _ c] False by blast
    ultimately show ?thesis
      using D(5) [of i] False by (auto simp: id_ok_def s the_ctx_def split: option.splits)
  qed
  moreover have "ctx_ok (d \<in> set (gs_id_list ?s)) (d \<in> set (gs_destroyed ?s)) (queued ?s d) de"
    if "gs_ctxs ?s d = Some de" for d de
    using that D(1) [of d de] unfolding s q by (auto split: if_splits)
  ultimately show ?thesis by (auto simp: sub_inv_def)
qed

text \<open>Every answer at the head of the queue is handled, and handling it keeps the invariant.\<close>

lemma receive_inv:
  assumes inv: "sub_inv (s, f)" and g: "gs_g2h s = m # ms" and up: "ct_up E"
  shows "fst (process_g2h E m (s\<lparr>gs_g2h := ms\<rparr>)) = Inr ()"
    "sub_inv (snd (process_g2h E m (s\<lparr>gs_g2h := ms\<rparr>)), f)"
proof -
  note D = inv_ctxD [OF inv]
  obtain c ce where r: "gs_lookup s (g2h_id m) = Some c" "gs_ctxs s c = Some ce" "valid ce"
      "ctx_key ce = g2h_id m" "\<exists>e. expected ce = g2h_kind_of m # e" "g2h_well_formed m"
      "g2h_context_lookup (g2h_id m) (s\<lparr>gs_g2h := ms\<rparr>) = Some c"
    by (rule receive_lookup [OF inv g])
  note ok = ctx_okD [OF D(1) [OF r(2)]]
  have the: "the_ctx (s\<lparr>gs_g2h := ms\<rparr>) c = ce" using r(2) by (simp add: the_ctx_def)
  have nd: "\<not> DE ce" if "PE ce \<or> PD ce"
  proof
    assume "DE ce"
    then have "own_refs ce < 1" using ok(1,4) by (simp add: counts_ok_def lists_ok_def)
    from own_refs_zero(3,4) [OF this] that show False by blast
  qed
  have "fst (process_g2h E m (s\<lparr>gs_g2h := ms\<rparr>)) = Inr () \<and> sub_inv (snd (process_g2h E m (s\<lparr>gs_g2h := ms\<rparr>)), f)"
  proof (cases m)
    case m: (DEREGISTER_CONTEXT_DONE msg)
    with r(5) have wd: "W ce \<or> DE ce" by (auto simp: expected_def split: if_splits)
    have g': "gs_g2h s = DEREGISTER_CONTEXT_DONE msg # ms" using g m by simp
    have key: "ctx_key ce = msg ! 0" using r(4) m by simp
    let ?s = "if W ce then intel_context_put c (guc_signal_context_fence c
          (snd (register_context E True c (s\<lparr>gs_g2h := ms\<rparr>))))
        else guc_context_free c (release_guc_id c (s\<lparr>gs_g2h := ms\<rparr>))"
    have e: "process_g2h E m (s\<lparr>gs_g2h := ms\<rparr>) = (Inr (), decr_outstanding_submission_g2h ?s)"
      using r(6,7) m wd the by (auto simp: process_g2h_def intel_guc_deregister_done_process_msg_def Let_def)
    have "sub_inv (?s, f)"
      using receive_deregister_wait [OF inv g' r(2) _ key up] receive_deregister_destroyed [OF inv g' r(2) _ key r(3)] wd
      by (cases "W ce") auto
    from sub_inv_fields(3) [OF this] show ?thesis
      unfolding e by (simp add: decr_outstanding_submission_g2h_def)
  next
    case m: (SCHED_CONTEXT_MODE_DONE msg)
    with r(5) have pp: "PE ce \<or> PD ce" by (auto simp: expected_def split: if_splits)
    have g': "gs_g2h s = SCHED_CONTEXT_MODE_DONE msg # ms" using g m by simp
    have key: "ctx_key ce = msg ! 0" using r(4) m by simp
    have lk: "\<not> length msg < 2" "g2h_context_lookup (msg ! 0) (s\<lparr>gs_g2h := ms\<rparr>) = Some c" "\<not> DE ce"
      using r(6,7) m nd [OF pp] by simp_all
    show ?thesis
    proof (cases "PE ce")
      case True
      with lk the receive_enabled [OF inv g' r(2) True key] show ?thesis
        unfolding m by (simp add: process_g2h_def intel_guc_sched_done_process_msg_def Let_def)
    next
      case False
      with pp have "PD ce" by blast
      from lk the False this receive_disabled [OF inv g' r(2) False this key] show ?thesis
        unfolding m by (simp add: process_g2h_def intel_guc_sched_done_process_msg_def Let_def)
    qed
  qed
  then show "fst (process_g2h E m (s\<lparr>gs_g2h := ms\<rparr>)) = Inr ()"
    "sub_inv (snd (process_g2h E m (s\<lparr>gs_g2h := ms\<rparr>)), f)" by blast+
qed

end
