(* ===== verification/Guc_Protocol_Requests.thy ===== *)
theory Guc_Protocol_Requests
  imports Guc_Protocol_Answers
begin

text \<open>
  The invariant when contexts are pinned, and when requests are created, submitted and taken off the
  queue of the scheduler.
\<close>

section \<open>Pinning\<close>

lemma pin_inv:
  assumes inv: "sub_inv (s, f)" and c: "gs_ctxs s c = Some ce" and h: "own_refs ce < ce_kref ce"
  shows "sub_inv (snd (intel_context_pin moved c s), f)"
proof -
  note D = inv_ctxD [OF inv]
  note ok = ctx_okD [OF D(1) [OF c]]
  from h own_refs_nonneg [of ce] have k: "0 < ce_kref ce" by linarith
  have pos: "0 \<le> ce_pin_count ce" using own_pins_nonneg [OF ok(1)] ok(1) by (simp add: counts_ok_def)
  consider (again) "ce_pin_count ce \<noteq> 0" | (closed) "ce_pin_count ce = 0" "ce_closed ce"
    | (first) "ce_pin_count ce = 0" "\<not> ce_closed ce" by blast
  then show ?thesis
  proof cases
    case again
    then have e: "snd (intel_context_pin moved c s) = upd_ctx c (\<lambda>ce. ce\<lparr>ce_pin_count := ce_pin_count ce + 1\<rparr>) s"
      using c by (simp add: intel_context_pin_def Let_def)
    show ?thesis
    proof (rule local_quiet [OF inv c e])
      fix inl des q assume "ctx_ok inl des q ce"
      with again pos show "ctx_ok inl des q (ce\<lparr>ce_pin_count := ce_pin_count ce + 1\<rparr>)"
        by (clarsimp simp: ok_defs state_simps ctx_simps)
    qed (simp_all add: state_simps)
  next
    case closed
    with inv c show ?thesis by (simp add: intel_context_pin_def)
  next
    case first
    let ?g = "\<lambda>ce. ce\<lparr>ce_pin_count := 1, ce_kref := ce_kref ce + 1, ce_dirty := ce_dirty ce \<or> moved\<rparr>"
    have e: "snd (intel_context_pin moved c s) = upd_ctx c ?g s"
      using first c by (simp add: intel_context_pin_def Let_def)
    have "own_pins ce \<le> 0" using ok(1) first by (simp add: counts_ok_def)
    note z = own_pins_zero [OF ok(1) this]
    show ?thesis
    proof (rule local_quiet [OF inv c e])
      fix inl des q assume o: "ctx_ok inl des q ce"
      have "idle_listed inl (?g ce)"
        using ctx_okD(4) [OF o] first k by (simp add: lists_ok_def idle_listed_def ctx_simps)
      with o first z h k show "ctx_ok inl des q (?g ce)"
        by (clarsimp simp: ok_defs state_simps ctx_simps)
    qed (simp_all add: state_simps)
  qed
qed

section \<open>Creation of requests\<close>

definition add_waiting :: "nat \<Rightarrow> intel_context \<Rightarrow> intel_context" where
  "add_waiting r ce = ce\<lparr>ce_ref := ce_ref ce + 1, ce_waiting := ce_waiting ce @ [r],
     ce_fences := ce_fences ce @ (if W ce \<or> PD ce then [r] else [])\<rparr>"

text \<open>A further request of a context whose id is in use.\<close>

lemma add_waiting_ok:
  assumes ok: "ctx_ok inl des q ce" and nw: "\<not> ce_work ce" and pins: "own_pins ce + 1 \<le> ce_pin_count ce"
    and r: "r \<notin> set (ce_waiting ce) \<union> set (ce_requests ce) \<union> set q" and inl: "\<not> inl" and v: "valid ce"
  shows "ctx_ok inl des q (add_waiting r ce)"
proof -
  note p = ctx_okD [OF ok]
  have fl: "W (add_waiting r ce) = W ce" "PD (add_waiting r ce) = PD ce" "PE (add_waiting r ce) = PE ce"
      "EN (add_waiting r ce) = EN ce" "DE (add_waiting r ce) = DE ce"
      "context_blocked (add_waiting r ce) = context_blocked ce" "valid (add_waiting r ce) = valid ce"
      "context_banned (add_waiting r ce) = context_banned ce" "idle_listed inl (add_waiting r ce) = idle_listed inl ce"
    by (simp_all add: add_waiting_def state_simps ctx_simps)
  have fields: "ce_waiting (add_waiting r ce) = ce_waiting ce @ [r]" "ce_requests (add_waiting r ce) = ce_requests ce"
      "ce_ref (add_waiting r ce) = ce_ref ce + 1" "ce_completed (add_waiting r ce) = ce_completed ce"
      "ce_work (add_waiting r ce) = ce_work ce" "ce_pin_count (add_waiting r ce) = ce_pin_count ce"
      "ce_kref (add_waiting r ce) = ce_kref ce" "ce_exiting (add_waiting r ce) = ce_exiting ce"
      "ce_children (add_waiting r ce) = ce_children ce" "ce_parent (add_waiting r ce) = ce_parent ce"
      "ce_blocked_done (add_waiting r ce) = ce_blocked_done ce"
      "ce_fences (add_waiting r ce) = ce_fences ce @ (if W ce \<or> PD ce then [r] else [])"
    by (simp_all add: add_waiting_def)
  have own: "own_pins (add_waiting r ce) = own_pins ce + 1" "own_refs (add_waiting r ce) = own_refs ce"
    by (simp_all add: own_pins_def own_refs_def fl fields)
  have "counts_ok q (add_waiting r ce)"
    using p(1) nw pins r unfolding counts_ok_def own fields by auto
  moreover have "flags_ok (add_waiting r ce)"
    using p(2) v unfolding flags_ok_def fl fields by auto
  moreover have "fences_ok q (add_waiting r ce)"
    using p(3) unfolding fences_ok_def fl fields by auto
  moreover have "lists_ok inl des (add_waiting r ce)"
    using p(4) inl unfolding lists_ok_def fl fields by auto
  ultimately show ?thesis by (simp add: ctx_ok_def)
qed

lemma another_request_inv:
  assumes inv: "sub_inv (s, f)" and c: "gs_ctxs s c = Some ce" and nw: "\<not> ce_work ce"
    and pins: "own_pins ce + 1 \<le> ce_pin_count ce" and ref: "ce_ref ce \<noteq> 0"
    and r: "r \<notin> set (ce_waiting ce) \<union> set (ce_requests ce) \<union> set (queued s c)"
  shows "sub_inv (upd_ctx c (add_waiting r) s, f)"
proof (rule local_quiet [OF inv c refl])
  fix inl des q assume q: "q = queued s c" and ok: "ctx_ok inl des q ce"
  have "\<not> inl" "valid ce" using ctx_okD(2,4) [OF ok] ref by (auto simp: lists_ok_def flags_ok_def)
  then show "ctx_ok inl des q (add_waiting r ce)"
    using add_waiting_ok [OF ok nw pins] r q by blast
qed (simp_all add: add_waiting_def state_simps)

text \<open>The ways in which a context gets an id: a free one, or that of the context at the head of the list.\<close>

definition fresh_id :: "nat \<Rightarrow> nat \<Rightarrow> guc_submission \<Rightarrow> guc_submission" where
  "fresh_id c i s = upd_ctx c (\<lambda>ce. ce\<lparr>ce_guc_id := of_nat i\<rparr>)
     (s\<lparr>gs_ids := i # gs_ids s, gs_in_use := gs_in_use s + 1\<rparr>)"

definition stolen_id :: "nat \<Rightarrow> nat \<Rightarrow> guc_submission \<Rightarrow> guc_submission" where
  "stolen_id c d s = upd_ctx d (\<lambda>ce. set_context_guc_id_invalid (clr_context_registered ce))
     (upd_ctx c (\<lambda>ce. ce\<lparr>ce_guc_id := ce_guc_id (the_ctx s d)\<rparr>) (s\<lparr>gs_id_list := tl (gs_id_list s)\<rparr>))"

definition take_id :: "nat \<Rightarrow> guc_submission \<Rightarrow> guc_submission" where
  "take_id c s = upd_ctx c (\<lambda>ce. ce\<lparr>ce_ref := ce_ref ce + 1\<rparr>) (s\<lparr>gs_id_list := removeAll c (gs_id_list s)\<rparr>)"

lemma new_id_cases:
  assumes c: "gs_ctxs s c = Some ce" and single: "ce_children ce = []" and n: "number_slrc_guc_id s \<noteq> 0"
  obtains (fail) e where "new_guc_id E c s = (Inl e, s)"
  | (fresh) i where "i < number_slrc_guc_id s" "i \<notin> set (gs_ids s)" "new_guc_id E c s = (Inr (), fresh_id c i s)"
proof (cases "ida_simple_get E (gs_ids s) (number_slrc_guc_id s)")
  case (Inl e)
  then show ?thesis
    using c single by (intro fail) (simp add: new_guc_id_def new_slrc_guc_id_def intel_context_is_parent_def)
next
  case (Inr i)
  then have "find (\<lambda>i. i \<notin> set (gs_ids s)) [0..<number_slrc_guc_id s] = Some i"
    using n by (auto simp: ida_simple_get_def split: if_splits option.splits)
  then have "i < number_slrc_guc_id s" "i \<notin> set (gs_ids s)" by (auto simp: find_Some_iff)
  then show ?thesis
    using Inr c single
    by (intro fresh) (simp_all add: new_guc_id_def new_slrc_guc_id_def intel_context_is_parent_def fresh_id_def)
qed

lemma assign_cases:
  assumes c: "gs_ctxs s c = Some ce" and single: "ce_children ce = []" and n: "number_slrc_guc_id s \<noteq> 0"
  obtains (fail) e where "assign_guc_id E c s = (Inl e, s)"
  | (fresh) i where "i < number_slrc_guc_id s" "i \<notin> set (gs_ids s)" "assign_guc_id E c s = (Inr (), fresh_id c i s)"
  | (stolen) d where "gs_id_list s = d # tl (gs_id_list s)" "assign_guc_id E c s = (Inr (), stolen_id c d s)"
proof (rule new_id_cases [OF c single n, of E])
  fix e assume e: "new_guc_id E c s = (Inl e, s)"
  then have a: "assign_guc_id E c s = steal_guc_id c s"
    using c single by (simp add: assign_guc_id_def intel_context_is_parent_def)
  show ?thesis
  proof (cases "gs_id_list s")
    case Nil
    then show ?thesis by (intro fail) (simp add: a steal_guc_id_def)
  next
    case (Cons d ds)
    then show ?thesis by (intro stolen [of d]) (simp_all add: a steal_guc_id_def stolen_id_def Let_def)
  qed
next
  fix i assume i: "i < number_slrc_guc_id s" "i \<notin> set (gs_ids s)" "new_guc_id E c s = (Inr (), fresh_id c i s)"
  have "ce_children (the_ctx (fresh_id c i s) c) = []"
    using c single by (simp add: fresh_id_def the_ctx_def ctxs_upd_ctx)
  with i show ?thesis by (intro fresh [of i]) (simp_all add: assign_guc_id_def Let_def)
qed

lemma pin_tries_eq:
  assumes c: "gs_ctxs s c = Some ce"
  shows "valid ce \<Longrightarrow> pin_guc_id_tries E n c s = (Inr False, take_id c s)"
    "\<not> valid ce \<Longrightarrow> assign_guc_id (guc_env.truncate E) c s = (Inr (), s') \<Longrightarrow>
      pin_guc_id_tries E n c s = (Inr True, take_id c s')"
    "\<not> valid ce \<Longrightarrow> assign_guc_id (guc_env.truncate E) c s = (Inl e, s') \<Longrightarrow>
      pin_guc_id_tries E n c s = (case n of
        Suc (Suc m) \<Rightarrow> if e = EAGAIN then pin_guc_id_tries E (Suc m) c (intel_gt_retire_requests E s') else (Inl e, s')
      | _ \<Rightarrow> (Inl e, s'))"
  using c by (subst pin_guc_id_tries.simps; simp add: valid_def take_id_def Let_def)+

lemma pin_id_cases:
  assumes inv: "sub_inv (s, f)" and c: "gs_ctxs s c = Some ce" and ref: "ce_ref ce = 0" and up: "ct_up E"
  obtains (fail) e s' where "pin_guc_id_tries E n c s = (Inl e, s')" "sub_inv (s', f)" "gs_ctxs s' c = Some ce"
  | (old) s' where "valid ce" "sub_inv (s', f)" "gs_ctxs s' c = Some ce"
      "pin_guc_id_tries E n c s = (Inr False, take_id c s')"
  | (new) s' s'' where "\<not> valid ce" "sub_inv (s', f)" "gs_ctxs s' c = Some ce"
      "assign_guc_id (guc_env.truncate E) c s' = (Inr (), s'')"
      "pin_guc_id_tries E n c s = (Inr True, take_id c s'')"
proof (cases "valid ce")
  case True
  from old [OF True inv c pin_tries_eq(1) [OF c True]] show ?thesis .
next
  case inval: False
  let ?P = "\<lambda>r. (\<exists>e s'. r = (Inl e, s') \<and> sub_inv (s', f) \<and> gs_ctxs s' c = Some ce)
    \<or> (\<exists>s' s''. sub_inv (s', f) \<and> gs_ctxs s' c = Some ce
         \<and> assign_guc_id (guc_env.truncate E) c s' = (Inr (), s'') \<and> r = (Inr True, take_id c s''))"
  have "?P (pin_guc_id_tries E n c s)"
    using inv c
  proof (induction n arbitrary: s)
    case (Suc n)
    note D = inv_ctxD [OF Suc.prems(1)]
    note ok = ctx_okD [OF D(1) [OF Suc.prems(2)]]
    have sg: "ce_children ce = []" "number_slrc_guc_id s \<noteq> 0"
      using ok(2) D(2) by (simp_all add: flags_ok_def ids_ok_def)
    show ?case
    proof (rule assign_cases [OF Suc.prems(2) sg, of "guc_env.truncate E"])
      fix e assume fail: "assign_guc_id (guc_env.truncate E) c s = (Inl e, s)"
      note idle = gt_retire_idle [OF Suc.prems(2) counts_idle(2) [OF ok(1) ref], of E]
      have "?P (pin_guc_id_tries E n c (intel_gt_retire_requests E s))"
        by (rule Suc.IH [OF gt_retire_inv [OF Suc.prems(1) up] idle])
      then show ?case
        unfolding pin_tries_eq(3) [OF Suc.prems(2) inval fail] using Suc.prems
        by (cases n; cases "e = EAGAIN") simp_all
    next
      fix i assume fresh: "assign_guc_id (guc_env.truncate E) c s = (Inr (), fresh_id c i s)"
      from pin_tries_eq(2) [OF Suc.prems(2) inval fresh] fresh Suc.prems show ?case by blast
    next
      fix d assume stolen: "assign_guc_id (guc_env.truncate E) c s = (Inr (), stolen_id c d s)"
      from pin_tries_eq(2) [OF Suc.prems(2) inval stolen] stolen Suc.prems show ?case by blast
    qed
  next
    case 0
    note D = inv_ctxD [OF 0(1)]
    have sg: "ce_children ce = []" "number_slrc_guc_id s \<noteq> 0"
      using ctx_okD(2) [OF D(1) [OF 0(2)]] D(2) by (simp_all add: flags_ok_def ids_ok_def)
    show ?case
    proof (rule assign_cases [OF 0(2) sg, of "guc_env.truncate E"])
      fix e assume fail: "assign_guc_id (guc_env.truncate E) c s = (Inl e, s)"
      from pin_tries_eq(3) [OF 0(2) inval fail] 0 show ?case by simp
    next
      fix i assume fresh: "assign_guc_id (guc_env.truncate E) c s = (Inr (), fresh_id c i s)"
      from pin_tries_eq(2) [OF 0(2) inval fresh] fresh 0 show ?case by blast
    next
      fix d assume stolen: "assign_guc_id (guc_env.truncate E) c s = (Inr (), stolen_id c d s)"
      from pin_tries_eq(2) [OF 0(2) inval stolen] stolen 0 show ?case by blast
    qed
  qed
  then show ?thesis using fail new inval by blast
qed

text \<open>What the first request of a context finds.\<close>

lemma first_requestD:
  assumes ok: "ctx_ok inl des q ce" and ref: "ce_ref ce = 0" and pins: "own_pins ce + 1 \<le> ce_pin_count ce"
  shows "\<not> W ce" "0 < ce_kref ce" "ce_pin_count ce \<noteq> 0" "\<not> des" "\<not> DE ce"
proof -
  note p = ctx_okD [OF ok]
  show "\<not> W ce" using counts_idle(1) [OF p(1) ref] p(3) by (auto simp: fences_ok_def)
  show pin: "ce_pin_count ce \<noteq> 0" using own_pins_nonneg [OF p(1)] pins by linarith
  have "\<not> own_refs ce < 1" using own_refs_zero(1) [of ce] pin by blast
  then show "0 < ce_kref ce" using p(1) by (simp add: counts_ok_def)
  then show "\<not> des" "\<not> DE ce" using p(4) by (auto simp: lists_ok_def)
qed

lemma unlist_ok:
  assumes ok: "ctx_ok inl des q ce" and pin: "ce_pin_count ce \<noteq> 0"
  shows "ctx_ok False des q (ce\<lparr>ce_dirty := False\<rparr>)"
proof -
  note p = ctx_okD [OF ok]
  have own: "own_pins (ce\<lparr>ce_dirty := False\<rparr>) = own_pins ce" "own_refs (ce\<lparr>ce_dirty := False\<rparr>) = own_refs ce"
    by (simp_all add: own_pins_def own_refs_def state_simps ctx_simps)
  have "counts_ok q (ce\<lparr>ce_dirty := False\<rparr>)" using p(1) unfolding counts_ok_def own by auto
  moreover have "flags_ok (ce\<lparr>ce_dirty := False\<rparr>)" "fences_ok q (ce\<lparr>ce_dirty := False\<rparr>)"
    using p(2,3) by (simp_all add: flags_ok_def fences_ok_def state_simps ctx_simps)
  moreover have "lists_ok False des (ce\<lparr>ce_dirty := False\<rparr>)"
    using p(4) pin by (simp add: lists_ok_def idle_listed_def state_simps ctx_simps)
  ultimately show ?thesis by (simp add: ctx_ok_def)
qed

lemma old_request_inv:
  assumes inv: "sub_inv (s, f)" and c: "gs_ctxs s c = Some ce" and ref: "ce_ref ce = 0" and nw: "\<not> ce_work ce"
    and pins: "own_pins ce + 1 \<le> ce_pin_count ce" and v: "valid ce"
    and s': "gs_ctxs s' = (gs_ctxs s)(c \<mapsto> add_waiting r (ce\<lparr>ce_dirty := False\<rparr>))" "frame s s'"
      "gs_id_list s' = removeAll c (gs_id_list s)" "gs_destroyed s' = gs_destroyed s" "gs_queue s' = gs_queue s"
      "gs_stalled s' = gs_stalled s" "gs_g2h s' = gs_g2h s" "gs_h2g s' = gs_h2g s"
  shows "sub_inv (s', f)"
proof (rule local_inv [OF inv c s'(1,2), where ms = "[]"])
  note D = inv_ctxD [OF inv]
  note ok = ctx_okD [OF D(1) [OF c]]
  note z = first_requestD [OF D(1) [OF c] ref pins]
  note idle = counts_idle [OF ok(1) ref]
  let ?ce = "ce\<lparr>ce_dirty := False\<rparr>"
  show "frame_lists c s s'"
    using D(3) s'(3-5) by (simp add: frame_lists_def queues_ok_def queued_def distinct_removeAll)
  have "ctx_ok False (c \<in> set (gs_destroyed s)) (queued s c) (add_waiting r ?ce)"
  proof (rule add_waiting_ok [OF unlist_ok [OF D(1) [OF c] z(3)]])
    show "own_pins ?ce + 1 \<le> ce_pin_count ?ce" using pins by (simp add: own_pins_def state_simps)
  qed (use nw idle v in \<open>simp_all add: ctx_simps\<close>)
  then show "ctx_ok (c \<in> set (gs_id_list s')) (c \<in> set (gs_destroyed s')) (queued s' c) (add_waiting r ?ce)"
    unfolding s'(3,4) queued_cong [OF s'(5)] by simp
  have "want (add_waiting r ?ce) = want ce" "expected (add_waiting r ?ce) = expected ce"
    by (rule view_cong; simp add: add_waiting_def state_simps)+
  then show "chan_ok (want (add_waiting r ?ce)) (expected (add_waiting r ?ce)) (hs @ []) st gs"
    if "chan_ok (want ce) (expected ce) hs st gs" for hs st gs
    using that by simp
  show "stall_ok s'"
    using D(4) c unfolding stall_ok_def s'(1,6) by (auto simp: add_waiting_def)
qed (use s' in \<open>simp_all add: add_waiting_def\<close>)

text \<open>A context with a new id, or with an id that is to be registered again, waits.\<close>

definition wait_with_id :: "u16 \<Rightarrow> nat \<Rightarrow> intel_context \<Rightarrow> intel_context" where
  "wait_with_id i r ce = (set_context_wait_for_deregister_to_register ce)
     \<lparr>ce_guc_id := i, ce_kref := ce_kref ce + 1, ce_dirty := False, ce_ref := 1, ce_waiting := [r], ce_fences := [r]\<rparr>"

lemma wait_with_id_ok:
  assumes ok: "ctx_ok inl des q ce" and ref: "ce_ref ce = 0" and nw: "\<not> ce_work ce"
    and pins: "own_pins ce + 1 \<le> ce_pin_count ce" and fl: "\<not> EN ce" "\<not> PE ce" "\<not> PD ce"
    and i: "i \<noteq> GUC_INVALID_CONTEXT_ID"
  shows "ctx_ok False des q (wait_with_id i r ce)"
proof -
  note p = ctx_okD [OF ok]
  note z = first_requestD [OF ok ref pins]
  note idle = counts_idle [OF p(1) ref]
  let ?ce = "wait_with_id i r ce"
  have flags: "W ?ce" "PD ?ce = PD ce" "PE ?ce = PE ce" "EN ?ce = EN ce" "DE ?ce = DE ce"
      "context_blocked ?ce = context_blocked ce" "context_banned ?ce = context_banned ce" "valid ?ce"
    using i by (simp_all add: wait_with_id_def state_simps ctx_simps valid_def context_guc_id_invalid_def)
  have fields: "ce_waiting ?ce = [r]" "ce_requests ?ce = ce_requests ce" "ce_ref ?ce = 1"
      "ce_completed ?ce = ce_completed ce" "ce_work ?ce = ce_work ce" "ce_pin_count ?ce = ce_pin_count ce"
      "ce_kref ?ce = ce_kref ce + 1" "ce_exiting ?ce = ce_exiting ce" "ce_children ?ce = ce_children ce"
      "ce_parent ?ce = ce_parent ce" "ce_blocked_done ?ce = ce_blocked_done ce" "ce_fences ?ce = [r]" "\<not> ce_dirty ?ce"
    by (simp_all add: wait_with_id_def state_updates ctx_simps)
  have own: "own_pins ?ce = own_pins ce + 1" "own_refs ?ce = own_refs ce + 1"
    using ref z(1) by (simp_all add: own_pins_def own_refs_def flags fields)
  have "counts_ok q ?ce"
    using p(1) nw pins idle unfolding counts_ok_def own fields by auto
  moreover have "flags_ok ?ce"
    using p(2) fl flags(8) unfolding flags_ok_def flags(2-7) fields by auto
  moreover have "fences_ok q ?ce"
    using idle flags(1) unfolding fences_ok_def fields by auto
  moreover have "lists_ok False des ?ce"
    using p(4) z flags(8) fields(13) unfolding lists_ok_def idle_listed_def flags(2-7) fields by auto
  ultimately show ?thesis by (simp add: ctx_ok_def)
qed

lemma wait_want:
  assumes "\<not> PE ce" "\<not> PD ce"
  shows "want (wait_with_id i r ce) = FW_Unregistered" "expected (wait_with_id i r ce) = [Deregister_Done]"
  using assms by (simp_all add: view_defs wait_with_id_def state_simps)

lemma listed_want:
  assumes ok: "ctx_ok True des q ce"
  shows "valid ce" "want ce = FW_Disabled" "expected ce = []" "ce_ref ce = 0" "\<not> W ce" "\<not> EN ce" "\<not> PE ce" "\<not> PD ce"
    "\<not> DE ce" "0 < ce_kref ce" "\<not> des"
proof -
  note p = ctx_okD [OF ok]
  show fl: "valid ce" "ce_ref ce = 0" "\<not> W ce" "\<not> EN ce" "\<not> PE ce" "\<not> PD ce" "0 < ce_kref ce"
    using p(4) by (auto simp: lists_ok_def)
  then show "\<not> DE ce" "\<not> des" using p(4) by (auto simp: lists_ok_def)
  with fl show "want ce = FW_Disabled" "expected ce = []" by (simp_all add: view_defs)
qed

lemma moved_request_inv:
  assumes inv: "sub_inv (s, f)" and c: "gs_ctxs s c = Some ce" and nw: "\<not> ce_work ce"
    and pins: "own_pins ce + 1 \<le> ce_pin_count ce" and inl: "c \<in> set (gs_id_list s)"
    and s': "gs_ctxs s' = (gs_ctxs s)(c \<mapsto> wait_with_id (ce_guc_id ce) r ce)" "frame s s'"
      "gs_id_list s' = removeAll c (gs_id_list s)" "gs_destroyed s' = gs_destroyed s" "gs_queue s' = gs_queue s"
      "gs_stalled s' = gs_stalled s" "gs_g2h s' = gs_g2h s"
      "gs_h2g s' = gs_h2g s @ [DEREGISTER_CONTEXT (ctx_key ce)]"
  shows "sub_inv (s', f)"
proof (rule local_inv [OF inv c s'(1,2) _ s'(7,8)])
  note D = inv_ctxD [OF inv]
  have "ctx_ok True (c \<in> set (gs_destroyed s)) (queued s c) ce" using D(1) [OF c] inl by simp
  note z = listed_want [OF this]
  show "frame_lists c s s'"
    using D(3) s'(3-5) by (simp add: frame_lists_def queues_ok_def queued_def distinct_removeAll)
  have "ce_guc_id ce \<noteq> GUC_INVALID_CONTEXT_ID" using z(1) by (simp add: valid_def context_guc_id_invalid_def)
  from wait_with_id_ok [OF D(1) [OF c] z(4) nw pins z(6-8) this]
  show "ctx_ok (c \<in> set (gs_id_list s')) (c \<in> set (gs_destroyed s')) (queued s' c) (wait_with_id (ce_guc_id ce) r ce)"
    unfolding s'(3,4) queued_cong [OF s'(5)] by simp
  fix hs st gs assume "chan_ok (want ce) (expected ce) hs st gs"
  then have "chan_ok FW_Disabled [] hs st gs" using z by simp
  from chan_ok_send [OF this, of "DEREGISTER_CONTEXT (ctx_key ce)" FW_Deregistering]
  show "chan_ok (want (wait_with_id (ce_guc_id ce) r ce)) (expected (wait_with_id (ce_guc_id ce) r ce))
      (hs @ [DEREGISTER_CONTEXT (ctx_key ce)]) st gs"
    by (simp add: wait_want z)
next
  show "stall_ok s'"
    using inv_ctxD(4) [OF inv] c unfolding stall_ok_def s'(1,6) by (auto simp: wait_with_id_def state_updates ctx_simps)
  show "[DEREGISTER_CONTEXT (ctx_key ce)] \<noteq> [] \<longrightarrow> valid ce"
    using listed_want(1) inv_ctxD(1) [OF inv c] inl by auto
qed (simp_all add: wait_with_id_def)

text \<open>What a change of ids leaves alone.\<close>

definition frame_ids :: "guc_submission \<Rightarrow> guc_submission \<Rightarrow> bool" where
  "frame_ids s s' \<longleftrightarrow> gs_num_ids s' = gs_num_ids s \<and> gs_bitmap s' = gs_bitmap s \<and> gs_disabled s' = gs_disabled s
     \<and> gs_initialized s' = gs_initialized s \<and> gs_destroyed s' = gs_destroyed s \<and> gs_queue s' = gs_queue s
     \<and> gs_stalled s' = gs_stalled s \<and> gs_g2h s' = gs_g2h s"

lemma frame_idsD:
  assumes "frame_ids s s'"
  shows "number_slrc_guc_id s' = number_slrc_guc_id s" "number_mlrc_guc_id s' = number_mlrc_guc_id s"
    "queued s' d = queued s d" "gs_num_ids s' = gs_num_ids s" "gs_bitmap s' = gs_bitmap s"
    "gs_disabled s' = gs_disabled s" "gs_initialized s' = gs_initialized s" "gs_destroyed s' = gs_destroyed s"
    "gs_queue s' = gs_queue s" "gs_stalled s' = gs_stalled s" "gs_g2h s' = gs_g2h s"
  using assms by (simp_all add: frame_ids_def number_slrc_guc_id_def number_mlrc_guc_id_def queued_def)

lemma key_of_nat:
  assumes "ce_guc_id ce = of_nat i" "i < 65535"
  shows "ctx_key ce = of_nat i" "unat (ctx_key ce) = i" "valid ce"
proof -
  have u: "unat (of_nat i :: u16) = i" "unat (of_nat i :: u32) = i"
    using assms(2) by (simp_all add: unat_of_nat)
  then show k: "unat (ctx_key ce) = i" using assms(1) by (simp add: unat_ctx_key)
  show "ctx_key ce = of_nat i" by (rule unsigned_word_eqI [where ?'a = nat]) (simp add: k u)
  have "(of_nat i :: u16) \<noteq> 65535"
  proof
    assume "(of_nat i :: u16) = 65535"
    then have "unat (of_nat i :: u16) = 65535" by simp
    with u(1) assms(2) show False by simp
  qed
  then show "valid ce"
    by (simp add: valid_def context_guc_id_invalid_def assms(1) GUC_INVALID_CONTEXT_ID_def)
qed

lemma fresh_request_inv:
  assumes inv: "sub_inv (s, f)" and c: "gs_ctxs s c = Some ce" and nv: "\<not> valid ce"
    and i: "i < number_slrc_guc_id s" "i \<notin> set (gs_ids s)"
    and s': "gs_ctxs s' = (gs_ctxs s)(c \<mapsto> ce')" "gs_lookup s' = (gs_lookup s)(of_nat i \<mapsto> c)" "gs_ids s' = i # gs_ids s"
      "gs_in_use s' = gs_in_use s + 1" "gs_id_list s' = removeAll c (gs_id_list s)" "frame_ids s s'"
      "gs_h2g s' = gs_h2g s @ REGISTER_CONTEXT (of_nat i) # ps"
    and ps: "ps = [] \<or> ps = [UPDATE_CONTEXT_POLICIES (of_nat i)]"
    and ok: "ctx_ok False (c \<in> set (gs_destroyed s)) (queued s c) ce'"
    and ce': "ce_guc_id ce' = of_nat i" "want ce' = FW_Disabled" "expected ce' = []" "ce_exiting ce' = ce_exiting ce"
      "ce_requests ce' = ce_requests ce" "ce_completed ce' = ce_completed ce"
  shows "sub_inv (s', f)"
proof -
  note D = inv_ctxD [OF inv]
  note F = frame_idsD [OF s'(6)]
  have ids: "distinct (gs_ids s)" "number_slrc_guc_id s \<noteq> 0" "gs_num_ids s \<le> GUC_MAX_CONTEXT_ID"
      "set (gs_ids s) \<subseteq> {..<number_slrc_guc_id s}" "unat (gs_in_use s) = length (gs_ids s)"
      "\<And>k. gs_lookup s k \<noteq> None \<longleftrightarrow> unat k \<in> set (gs_ids s)"
    using D(2) unfolding ids_ok_def by blast+
  have small: "i < 65535" "number_slrc_guc_id s \<le> 65535"
    using i(1) ids(3) by (simp_all add: number_slrc_guc_id_def)
  note key = key_of_nat [OF ce'(1) small(1)]
  let ?k = "of_nat i :: u32"
  have un: "unat ?k = i" using key by simp
  have free: "gs_lookup s ?k = None" using ids(6) [of ?k] i(2) un by auto
  have nl: "c \<notin> set (gs_id_list s)"
    using ctx_okD(4) [OF D(1) [OF c]] nv by (auto simp: lists_ok_def)
  have "card (set (gs_ids s)) \<le> card {..<number_slrc_guc_id s}"
    by (rule card_mono) (use ids(4) in auto)
  then have "unat (gs_in_use s) \<le> 65535"
    using small(2) ids(1,5) by (simp add: distinct_card)
  then have in_use: "unat (gs_in_use s + 1) = Suc (length (gs_ids s))"
    using ids(5) by (simp add: unat_word_ariths)
  have "ids_ok s'"
    unfolding ids_ok_def F s'(1-4)
  proof (intro conjI allI impI)
    fix k
    have "k = ?k \<longleftrightarrow> unat k = i" using un by (metis unsigned_word_eqI)
    then show "((gs_lookup s)(?k \<mapsto> c)) k \<noteq> None \<longleftrightarrow> unat k \<in> set (i # gs_ids s)"
      using ids(6) [of k] by simp
  next
    fix k d assume "((gs_lookup s)(?k \<mapsto> c)) k = Some d"
    then consider "k = ?k" "d = c" | "gs_lookup s k = Some d" "k \<noteq> ?k"
      by (cases "k = ?k") simp_all
    then show "\<exists>ce. ((gs_ctxs s)(c \<mapsto> ce')) d = Some ce \<and> valid ce \<and> ctx_key ce = k"
    proof cases
      case 2
      with D(2) obtain de where de: "gs_ctxs s d = Some de" "valid de" "ctx_key de = k"
        unfolding ids_ok_def by blast
      moreover have "d \<noteq> c" using de(1,2) c nv by auto
      ultimately show ?thesis by simp
    qed (use key in simp)
  next
    fix d de assume "((gs_ctxs s)(c \<mapsto> ce')) d = Some de \<and> valid de"
    then consider "d = c" "de = ce'" | "d \<noteq> c" "gs_ctxs s d = Some de" "valid de"
      by (cases "d = c") simp_all
    then show "((gs_lookup s)(?k \<mapsto> c)) (ctx_key de) = Some d"
    proof cases
      case 2
      from ids_validD [OF D(2) 2(2,3)] free show ?thesis by auto
    qed (use key in simp)
  qed (use ids i in_use in auto)
  moreover have "queues_ok s'"
    using D(3) D(4) c ce' unfolding queues_ok_def F s'(1,5) stall_ok_def
    by (auto simp: distinct_removeAll)
  moreover have "id_ok s' f k" for k
  proof (cases "k = ?k")
    case True
    have "chan_ok FW_Unregistered [] (about k (gs_h2g s)) (f k) (answers_about k (gs_g2h s))"
      using D(5) [of k] free True by (simp add: id_ok_def)
    from chan_ok_send [OF this, of "REGISTER_CONTEXT k" FW_Disabled]
    have "chan_ok FW_Disabled [] (about k (gs_h2g s) @ [REGISTER_CONTEXT k]) (f k) (answers_about k (gs_g2h s))" by simp
    from this chan_ok_policy [OF this _ refl, of k]
    have "chan_ok FW_Disabled [] (about k (gs_h2g s) @ REGISTER_CONTEXT k # ps) (f k) (answers_about k (gs_g2h s))"
      using ps True by auto
    moreover have "about k (REGISTER_CONTEXT ?k # ps) = REGISTER_CONTEXT k # ps"
      using ps True by (auto simp: about_def)
    ultimately show ?thesis using True ce' by (simp add: id_ok_def s' F the_ctx_def)
  next
    case False
    then have "about k (REGISTER_CONTEXT ?k # ps) = []" using ps by (intro about_other) auto
    moreover have "gs_lookup s k \<noteq> Some c" using ids_lookupD [OF D(2) _ c] nv by blast
    ultimately show ?thesis
      using D(5) [of k] False by (auto simp: id_ok_def s' F the_ctx_def split: option.splits)
  qed
  moreover have "ctx_ok (d \<in> set (gs_id_list s')) (d \<in> set (gs_destroyed s')) (queued s' d) de"
    if "gs_ctxs s' d = Some de" for d de
    using that D(1) [of d de] ok unfolding s'(1,5) F by (auto split: if_splits)
  ultimately show ?thesis by (auto simp: sub_inv_def)
qed

text \<open>A context whose id is stolen is left without one.\<close>

lemma robbed_ok:
  assumes ok: "ctx_ok True des q ce"
  shows "ctx_ok False des q (set_context_guc_id_invalid (clr_context_registered ce))"
proof -
  note p = ctx_okD [OF ok]
  note z = listed_want [OF ok]
  let ?ce = "set_context_guc_id_invalid (clr_context_registered ce)"
  have fl: "W ?ce = W ce" "PD ?ce = PD ce" "PE ?ce = PE ce" "EN ?ce = EN ce" "DE ?ce = DE ce"
      "context_blocked ?ce = context_blocked ce" "context_banned ?ce = context_banned ce" "\<not> valid ?ce"
    by (simp_all add: set_context_guc_id_invalid_def state_simps ctx_simps valid_def context_guc_id_invalid_def)
  have fields: "ce_waiting ?ce = ce_waiting ce" "ce_requests ?ce = ce_requests ce" "ce_ref ?ce = ce_ref ce"
      "ce_completed ?ce = ce_completed ce" "ce_work ?ce = ce_work ce" "ce_pin_count ?ce = ce_pin_count ce"
      "ce_kref ?ce = ce_kref ce" "ce_exiting ?ce = ce_exiting ce" "ce_children ?ce = ce_children ce"
      "ce_parent ?ce = ce_parent ce" "ce_blocked_done ?ce = ce_blocked_done ce" "ce_fences ?ce = ce_fences ce"
    by (simp_all add: set_context_guc_id_invalid_def state_updates ctx_simps)
  have own: "own_pins ?ce = own_pins ce" "own_refs ?ce = own_refs ce"
    by (simp_all add: own_pins_def own_refs_def fl fields)
  have "counts_ok q ?ce" using p(1) unfolding counts_ok_def own fields .
  moreover have "flags_ok ?ce" using p(2) z unfolding flags_ok_def fl(1-7) fields by auto
  moreover have "fences_ok q ?ce" using p(3) unfolding fences_ok_def fl fields .
  moreover have "lists_ok False des ?ce"
    using p(4) z fl(8) unfolding lists_ok_def idle_listed_def fl(1-7) fields by auto
  ultimately show ?thesis by (simp add: ctx_ok_def)
qed

lemma stolen_request_inv:
  assumes inv: "sub_inv (s, f)" and c: "gs_ctxs s c = Some ce" and nv: "\<not> valid ce" and nw: "\<not> ce_work ce"
    and ref: "ce_ref ce = 0" and pins: "own_pins ce + 1 \<le> ce_pin_count ce"
    and d: "gs_id_list s = d # ds" "gs_ctxs s d = Some de"
    and s': "gs_ctxs s' = (gs_ctxs s)(c \<mapsto> wait_with_id (ce_guc_id de) r ce,
          d \<mapsto> set_context_guc_id_invalid (clr_context_registered de))"
      "gs_lookup s' = (gs_lookup s)(ctx_key de \<mapsto> c)" "gs_ids s' = gs_ids s" "gs_in_use s' = gs_in_use s"
      "gs_id_list s' = removeAll c ds" "frame_ids s s'"
      "gs_h2g s' = gs_h2g s @ [DEREGISTER_CONTEXT (ctx_key de)]"
  shows "sub_inv (s', f)"
proof -
  note D = inv_ctxD [OF inv]
  note F = frame_idsD [OF s'(6)]
  have okd: "ctx_ok True (d \<in> set (gs_destroyed s)) (queued s d) de" using D(1) [OF d(2)] d(1) by simp
  note z = listed_want [OF okd]
  have cd: "c \<noteq> d" using c d(2) nv z(1) by auto
  let ?ce = "wait_with_id (ce_guc_id de) r ce"
  let ?de = "set_context_guc_id_invalid (clr_context_registered de)"
  let ?k = "ctx_key de"
  have flc: "\<not> EN ce" "\<not> PE ce" "\<not> PD ce" using ctx_okD(2) [OF D(1) [OF c]] nv by (auto simp: flags_ok_def)
  have nl: "c \<notin> set (gs_id_list s)"
    using ctx_okD(4) [OF D(1) [OF c]] nv by (auto simp: lists_ok_def)
  have ds: "d \<notin> set ds" "distinct ds" using D(3) d(1) by (auto simp: queues_ok_def)
  have lk: "gs_lookup s ?k = Some d" by (rule ids_validD [OF D(2) d(2) z(1)])
  have idl: "gs_lookup s k \<noteq> None \<longleftrightarrow> unat k \<in> set (gs_ids s)" for k
    using D(2) unfolding ids_ok_def by blast
  have inval: "ce_guc_id de \<noteq> GUC_INVALID_CONTEXT_ID" using z(1) by (simp add: valid_def context_guc_id_invalid_def)
  have vc: "valid ?ce" "ctx_key ?ce = ?k"
    using inval by (simp_all add: valid_def context_guc_id_invalid_def wait_with_id_def ctx_key_def)
  have vd: "\<not> valid ?de" by (simp add: valid_def context_guc_id_invalid_def set_context_guc_id_invalid_def)
  have nlc: "gs_lookup s k \<noteq> Some c" for k using ids_lookupD [OF D(2) _ c] nv by blast
  have other: "k = ?k" if "gs_lookup s k = Some d" for k
    using ids_lookupD [OF D(2) that d(2)] by simp
  have "ids_ok s'"
    unfolding ids_ok_def F s'(1-4)
  proof (intro conjI allI impI)
    fix k show "((gs_lookup s)(?k \<mapsto> c)) k \<noteq> None \<longleftrightarrow> unat k \<in> set (gs_ids s)"
      using idl [of k] idl [of ?k] lk by simp
  next
    fix k b assume "((gs_lookup s)(?k \<mapsto> c)) k = Some b"
    then consider "k = ?k" "b = c" | "gs_lookup s k = Some b" "k \<noteq> ?k"
      by (cases "k = ?k") simp_all
    then show "\<exists>x. ((gs_ctxs s)(c \<mapsto> ?ce, d \<mapsto> ?de)) b = Some x \<and> valid x \<and> ctx_key x = k"
    proof cases
      case 1
      with cd vc show ?thesis by simp
    next
      case 2
      with D(2) obtain be where be: "gs_ctxs s b = Some be" "valid be" "ctx_key be = k"
        unfolding ids_ok_def by blast
      moreover have "b \<noteq> c" "b \<noteq> d" using 2 nlc other by auto
      ultimately show ?thesis by simp
    qed
  next
    fix b be assume b: "((gs_ctxs s)(c \<mapsto> ?ce, d \<mapsto> ?de)) b = Some be \<and> valid be"
    with vd have "b \<noteq> d" by auto
    with b consider "b = c" "be = ?ce" | "b \<noteq> c" "b \<noteq> d" "gs_ctxs s b = Some be" "valid be"
      by (cases "b = c") simp_all
    then show "((gs_lookup s)(?k \<mapsto> c)) (ctx_key be) = Some b"
    proof cases
      case 2
      from ids_validD [OF D(2) 2(3,4)] lk 2 show ?thesis by auto
    qed (use vc in simp)
  qed (use D(2) in \<open>auto simp: ids_ok_def\<close>)
  moreover have "queues_ok s'"
  proof -
    have same: "ce_exiting ?ce = ce_exiting ce" "ce_requests ?ce = ce_requests ce" "ce_completed ?ce = ce_completed ce"
        "ce_exiting ?de = ce_exiting de" "ce_requests ?de = ce_requests de" "ce_completed ?de = ce_completed de"
      by (simp_all add: wait_with_id_def set_context_guc_id_invalid_def state_updates ctx_simps)
    have "stall_ok s'"
      using D(4) c d(2) cd unfolding stall_ok_def s'(1) F by (auto simp: same)
    then show ?thesis
      using D(3) d ds unfolding queues_ok_def F s'(1,5) stall_ok_def
      by (auto simp: distinct_removeAll)
  qed
  moreover have "id_ok s' f k" for k
  proof (cases "k = ?k")
    case True
    have "chan_ok FW_Disabled [] (about k (gs_h2g s)) (f k) (answers_about k (gs_g2h s))"
      using D(5) [of k] lk d(2) z True by (simp add: id_ok_def)
    from chan_ok_send [OF this, of "DEREGISTER_CONTEXT k" FW_Deregistering]
    have "chan_ok FW_Unregistered [Deregister_Done] (about k (gs_h2g s) @ [DEREGISTER_CONTEXT k]) (f k)
        (answers_about k (gs_g2h s))" by simp
    moreover have "about k [DEREGISTER_CONTEXT ?k] = [DEREGISTER_CONTEXT k]" using True by (simp add: about_def)
    ultimately show ?thesis using True cd flc by (simp add: id_ok_def s' F the_ctx_def wait_want)
  next
    case False
    then have "about k [DEREGISTER_CONTEXT ?k] = []" by (simp add: about_def)
    moreover have "gs_lookup s k \<noteq> Some c" "gs_lookup s k \<noteq> Some d" using nlc other False by auto
    ultimately show ?thesis
      using D(5) [of k] False by (auto simp: id_ok_def s' F the_ctx_def split: option.splits)
  qed
  moreover have "ctx_ok (b \<in> set (gs_id_list s')) (b \<in> set (gs_destroyed s')) (queued s' b) be"
    if b: "gs_ctxs s' b = Some be" for b be
  proof -
    consider "b = c" | "b = d" | "b \<noteq> c" "b \<noteq> d" by blast
    then show ?thesis
    proof cases
      case 1
      with b cd wait_with_id_ok [OF D(1) [OF c] ref nw pins flc inval] show ?thesis
        unfolding s'(1,5) F by auto
    next
      case 2
      with b robbed_ok [OF okd] ds show ?thesis unfolding s'(1,5) F by auto
    next
      case 3
      with b D(1) [of b be] d(1) show ?thesis unfolding s'(1,5) F by auto
    qed
  qed
  ultimately show ?thesis by (auto simp: sub_inv_def)
qed

text \<open>The registration of an id that the GuC knows waits for its deregistration.\<close>

lemma try_registration_eq:
  assumes c: "gs_ctxs s c = Some ce" and up: "ct_up E" and init: "gs_initialized s" "\<not> gs_disabled s"
  shows "ctx_id_mapped s (ctx_key ce) \<Longrightarrow> try_context_registration E loop c s = (Inr (),
      h2g_push (DEREGISTER_CONTEXT (ctx_key ce))
        ((upd_ctx c (\<lambda>ce. (set_context_wait_for_deregister_to_register ce)\<lparr>ce_kref := ce_kref ce + 1\<rparr>)
            (s\<lparr>gs_lookup := (gs_lookup s)(ctx_key ce \<mapsto> c)\<rparr>))\<lparr>gs_outstanding := gs_outstanding s + 1\<rparr>))"
    "\<not> ctx_id_mapped s (ctx_key ce) \<Longrightarrow> try_context_registration E True c s =
      register_context E True c (s\<lparr>gs_lookup := (gs_lookup s)(ctx_key ce \<mapsto> c)\<rparr>)"
proof -
  have lk: "set_ctx_id_mapping i c (clr_ctx_id_mapping i s) = s\<lparr>gs_lookup := (gs_lookup s)(i \<mapsto> c)\<rparr>" for i
    using init by (simp add: set_ctx_id_mapping_def clr_ctx_id_mapping_def)
  have the: "the_ctx s c = ce" using c by simp
  have key: "ctx_key (set_context_wait_for_deregister_to_register x) = ctx_key x"
      "ctx_key (x\<lparr>ce_kref := n\<rparr>) = ctx_key x" for x n
    by (simp_all add: ctx_key_def state_updates ctx_simps)
  show "try_context_registration E loop c s = (Inr (),
      h2g_push (DEREGISTER_CONTEXT (ctx_key ce))
        ((upd_ctx c (\<lambda>ce. (set_context_wait_for_deregister_to_register ce)\<lparr>ce_kref := ce_kref ce + 1\<rparr>)
            (s\<lparr>gs_lookup := (gs_lookup s)(ctx_key ce \<mapsto> c)\<rparr>))\<lparr>gs_outstanding := gs_outstanding s + 1\<rparr>))"
    if "ctx_id_mapped s (ctx_key ce)"
    unfolding try_context_registration_def Let_def the lk
    using that c up init by (simp add: deregister_context_def intel_context_get_def upd_ctx_def the_ctx_def state_updates ctx_simps)
  show "try_context_registration E True c s =
      register_context E True c (s\<lparr>gs_lookup := (gs_lookup s)(ctx_key ce \<mapsto> c)\<rparr>)"
    if "\<not> ctx_id_mapped s (ctx_key ce)"
    unfolding try_context_registration_def Let_def the lk
    using that up by (simp add: register_context_def Let_def)
qed

lemma register_eq:
  assumes c: "gs_ctxs s c = Some ce" and up: "ct_up E"
  defines "ps \<equiv> if ge_v70 E then [UPDATE_CONTEXT_POLICIES (ctx_key ce)] else []"
  defines "g \<equiv> \<lambda>ce. if ge_v70 E then clr_context_policy_required (set_context_registered ce) else set_context_registered ce"
  shows "register_context E True c s =
    (Inr (), (upd_ctx c g s)\<lparr>gs_h2g := gs_h2g s @ REGISTER_CONTEXT (ctx_key ce) # ps\<rparr>)"
proof -
  have "ctx_key (set_context_registered ce) = ctx_key ce"
    by (simp add: ctx_key_def set_context_registered_def ctx_simps)
  with c up show ?thesis
    by (simp add: register_context_def guc_context_policy_init_v70_def Let_def h2g_push_def upd_ctx_def
        ps_def g_def the_ctx_def)
qed

text \<open>The first request of a context, from the state in which the id is at hand.\<close>

definition request_done :: "nat \<Rightarrow> nat \<Rightarrow> guc_submission \<Rightarrow> guc_submission" where
  "request_done c r s = upd_ctx c (\<lambda>ce. ce\<lparr>ce_waiting := ce_waiting ce @ [r]\<rparr>)
     (guc_request_fence c r (upd_ctx c (\<lambda>ce. ce\<lparr>ce_dirty := False\<rparr>) s))"

definition done_ctx :: "nat \<Rightarrow> intel_context \<Rightarrow> intel_context" where
  "done_ctx r ce = ce\<lparr>ce_dirty := False, ce_fences := ce_fences ce @ (if W ce \<or> PD ce then [r] else []),
     ce_waiting := ce_waiting ce @ [r]\<rparr>"

lemma request_done_eq: "request_done c r s = upd_ctx c (done_ctx r) s"
  unfolding request_done_def guc_request_fence_def upd_ctx_upd_ctx
  by (rule arg_cong [where f = "\<lambda>g. upd_ctx c g s"]) (simp add: fun_eq_iff done_ctx_def state_simps)

lemma done_ctx_add: "done_ctx r (ce\<lparr>ce_ref := ce_ref ce + 1\<rparr>) = add_waiting r (ce\<lparr>ce_dirty := False\<rparr>)"
  by (rule intel_context.equality) (simp_all add: done_ctx_def add_waiting_def state_simps)

lemma done_ctx_wait:
  assumes "ce_waiting ce = []" "ce_fences ce = []" "ce_ref ce = 0"
  shows "done_ctx r ((set_context_wait_for_deregister_to_register (ce\<lparr>ce_guc_id := i, ce_ref := ce_ref ce + 1\<rparr>))
      \<lparr>ce_kref := ce_kref ce + 1\<rparr>) = wait_with_id i r ce"
  by (rule intel_context.equality)
    (use assms in \<open>simp_all add: done_ctx_def wait_with_id_def state_simps ctx_simps, simp_all add: state_set_def\<close>)

lemma take_id_simps:
  "gs_ctxs (take_id c s) = (gs_ctxs s)(c := map_option (\<lambda>ce. ce\<lparr>ce_ref := ce_ref ce + 1\<rparr>) (gs_ctxs s c))"
  "gs_id_list (take_id c s) = removeAll c (gs_id_list s)" "gs_lookup (take_id c s) = gs_lookup s"
  "gs_ids (take_id c s) = gs_ids s" "gs_in_use (take_id c s) = gs_in_use s" "gs_h2g (take_id c s) = gs_h2g s"
  "frame_ids s (take_id c s)" "frame s (take_id c s)"
  by (simp_all add: take_id_def ctxs_upd_ctx frame_ids_def frame_def)

lemma old_request_done:
  assumes inv: "sub_inv (s, f)" and c: "gs_ctxs s c = Some ce" and ref: "ce_ref ce = 0" and nw: "\<not> ce_work ce"
    and pins: "own_pins ce + 1 \<le> ce_pin_count ce" and v: "valid ce" and up: "ct_up E"
  defines "s1 \<equiv> take_id c s"
  shows "\<exists>s2. (if context_needs_register False c s1 then try_context_registration E True c s1 else (Inr (), s1)) = (Inr (), s2)
    \<and> sub_inv (request_done c r s2, f)"
proof -
  note D = inv_ctxD [OF inv]
  note ok = ctx_okD [OF D(1) [OF c]]
  note idle = counts_idle [OF ok(1) ref]
  have init: "gs_initialized s1" "\<not> gs_disabled s1"
    using D(3) by (simp_all add: queues_ok_def s1_def take_id_def)
  let ?c1 = "ce\<lparr>ce_ref := ce_ref ce + 1\<rparr>"
  have c1: "gs_ctxs s1 c = Some ?c1" using c by (simp add: s1_def take_id_simps)
  have key: "ctx_key ?c1 = ctx_key ce" by (simp add: ctx_key_def)
  have lk: "gs_lookup s (ctx_key ce) = Some c" by (rule ids_validD [OF D(2) c v])
  then have m: "ctx_id_mapped s1 (ctx_key ?c1)" by (simp add: ctx_id_mapped_def s1_def take_id_simps key)
  show ?thesis
  proof (cases "ce_dirty ce")
    case False
    have nr: "\<not> context_needs_register False c s1" using c1 False m by (simp add: context_needs_register_def)
    have "sub_inv (request_done c r s1, f)"
    proof (rule old_request_inv [OF inv c ref nw pins v])
      show "gs_ctxs (request_done c r s1) = (gs_ctxs s)(c \<mapsto> add_waiting r (ce\<lparr>ce_dirty := False\<rparr>))"
        using c by (simp add: request_done_eq s1_def ctxs_upd_ctx take_id_simps done_ctx_add)
    qed (simp_all add: request_done_eq s1_def take_id_def frame_def)
    with nr show ?thesis by simp
  next
    case True
    have inl: "c \<in> set (gs_id_list s)"
      using first_requestD(2) [OF D(1) [OF c] ref pins] ok(4) v True by (auto simp: lists_ok_def idle_listed_def)
    let ?s2 = "h2g_push (DEREGISTER_CONTEXT (ctx_key ce))
        ((upd_ctx c (\<lambda>ce. (set_context_wait_for_deregister_to_register ce)\<lparr>ce_kref := ce_kref ce + 1\<rparr>)
            (s1\<lparr>gs_lookup := (gs_lookup s1)(ctx_key ce \<mapsto> c)\<rparr>))\<lparr>gs_outstanding := gs_outstanding s1 + 1\<rparr>)"
    have t: "try_context_registration E True c s1 = (Inr (), ?s2)"
      using try_registration_eq(1) [OF c1 up init m, of True] by (simp add: key)
    have nr: "context_needs_register False c s1" using c1 True init by (simp add: context_needs_register_def)
    have "sub_inv (request_done c r ?s2, f)"
    proof (rule moved_request_inv [OF inv c nw pins inl])
      show "gs_ctxs (request_done c r ?s2) = (gs_ctxs s)(c \<mapsto> wait_with_id (ce_guc_id ce) r ce)"
        using c done_ctx_wait [OF idle(1,4) ref, of r "ce_guc_id ce"]
        by (simp add: request_done_eq s1_def ctxs_upd_ctx take_id_simps state_updates ctx_simps)
      show "frame s (request_done c r ?s2)"
        using lk by (simp add: request_done_eq s1_def take_id_def frame_def h2g_push_def fun_upd_idem)
    qed (simp_all add: request_done_eq s1_def take_id_def h2g_push_def)
    with nr t show ?thesis by simp
  qed
qed

lemma new_request_done:
  assumes inv: "sub_inv (s, f)" and c: "gs_ctxs s c = Some ce" and ref: "ce_ref ce = 0" and nw: "\<not> ce_work ce"
    and pins: "own_pins ce + 1 \<le> ce_pin_count ce" and nv: "\<not> valid ce" and up: "ct_up E"
    and a: "assign_guc_id E' c s = (Inr (), s0)"
  defines "s1 \<equiv> take_id c s0"
  shows "\<exists>s2. (if context_needs_register True c s1 then try_context_registration E True c s1 else (Inr (), s1)) = (Inr (), s2)
    \<and> sub_inv (request_done c r s2, f)"
proof -
  note D = inv_ctxD [OF inv]
  note ok = ctx_okD [OF D(1) [OF c]]
  note z = first_requestD [OF D(1) [OF c] ref pins]
  note idle = counts_idle [OF ok(1) ref]
  have init: "gs_initialized s" "\<not> gs_disabled s" using D(3) by (simp_all add: queues_ok_def)
  have sg: "ce_children ce = []" "number_slrc_guc_id s \<noteq> 0"
    using ok(2) D(2) by (simp_all add: flags_ok_def ids_ok_def)
  have flc: "\<not> EN ce" "\<not> PE ce" "\<not> PD ce" using ok(2) nv by (auto simp: flags_ok_def)
  show ?thesis
  proof (rule assign_cases [OF c sg, of E'])
    fix e assume "assign_guc_id E' c s = (Inl e, s)"
    with a show ?thesis by simp
  next
    fix i assume i: "i < number_slrc_guc_id s" "i \<notin> set (gs_ids s)" "assign_guc_id E' c s = (Inr (), fresh_id c i s)"
    then have s0: "s0 = fresh_id c i s" using a by simp
    let ?c1 = "ce\<lparr>ce_guc_id := of_nat i, ce_ref := ce_ref ce + 1\<rparr>"
    have "number_slrc_guc_id s \<le> gs_num_ids s" "gs_num_ids s \<le> 65535"
      using D(2) by (simp_all add: ids_ok_def number_slrc_guc_id_def)
    with i(1) have "i < 65535" by linarith
    note key = key_of_nat [OF _ this]
    have k1: "ctx_key ?c1 = of_nat i" using key(1) [of ?c1] by simp
    have c1: "gs_ctxs s1 c = Some ?c1" using c by (simp add: s1_def s0 fresh_id_def take_id_simps ctxs_upd_ctx)
    have init1: "gs_initialized s1" "\<not> gs_disabled s1" using init by (simp_all add: s1_def s0 fresh_id_def take_id_def)
    have un: "unat (of_nat i :: u32) = i" using key(1,2) [of ?c1] by simp
    have "gs_lookup s (of_nat i) = None"
    proof -
      have "gs_lookup s (of_nat i) \<noteq> None \<longleftrightarrow> unat (of_nat i :: u32) \<in> set (gs_ids s)"
        using D(2) unfolding ids_ok_def by blast
      with un i(2) show ?thesis by simp
    qed
    then have m: "\<not> ctx_id_mapped s1 (ctx_key ?c1)"
      by (simp add: ctx_id_mapped_def s1_def s0 fresh_id_def take_id_simps k1)
    have nr: "context_needs_register True c s1" using init1 by (simp add: context_needs_register_def)
    let ?ps = "if ge_v70 E then [UPDATE_CONTEXT_POLICIES (of_nat i)] else []"
    let ?g = "\<lambda>ce. if ge_v70 E then clr_context_policy_required (set_context_registered ce) else set_context_registered ce"
    let ?s2 = "(upd_ctx c ?g (s1\<lparr>gs_lookup := (gs_lookup s1)(of_nat i \<mapsto> c)\<rparr>))
        \<lparr>gs_h2g := gs_h2g s1 @ REGISTER_CONTEXT (of_nat i) # ?ps\<rparr>"
    have t: "try_context_registration E True c s1 = (Inr (), ?s2)"
      using try_registration_eq(2) [OF c1 up init1 m] register_eq [of "s1\<lparr>gs_lookup := (gs_lookup s1)(of_nat i \<mapsto> c)\<rparr>", OF _ up] c1
      by (simp add: k1)
    let ?b = "?g (ce\<lparr>ce_guc_id := of_nat i, ce_dirty := False\<rparr>)"
    have fb: "W ?b = W ce" "PD ?b = PD ce" "PE ?b = PE ce" "EN ?b = EN ce" "DE ?b = DE ce"
        "context_blocked ?b = context_blocked ce" "context_banned ?b = context_banned ce"
      by (simp_all add: state_simps ctx_simps)
    have fields: "ce_waiting ?b = ce_waiting ce" "ce_requests ?b = ce_requests ce" "ce_ref ?b = ce_ref ce"
        "ce_completed ?b = ce_completed ce" "ce_work ?b = ce_work ce" "ce_pin_count ?b = ce_pin_count ce"
        "ce_kref ?b = ce_kref ce" "ce_exiting ?b = ce_exiting ce" "ce_children ?b = ce_children ce"
        "ce_parent ?b = ce_parent ce" "ce_blocked_done ?b = ce_blocked_done ce" "ce_fences ?b = ce_fences ce"
        "\<not> ce_dirty ?b" "ce_guc_id ?b = of_nat i"
      by (simp_all add: state_updates ctx_simps)
    have vb: "valid ?b" using key(3) [OF fields(14)] .
    have own: "own_pins ?b = own_pins ce" "own_refs ?b = own_refs ce"
      by (simp_all add: own_pins_def own_refs_def fb fields del: if_split)
    have okb: "ctx_ok False (c \<in> set (gs_destroyed s)) (queued s c) ?b"
    proof -
      have "counts_ok (queued s c) ?b" using ok(1) unfolding counts_ok_def own fields by auto
      moreover have "flags_ok ?b" using ok(2) vb unfolding flags_ok_def fb fields by auto
      moreover have "fences_ok (queued s c) ?b" using ok(3) unfolding fences_ok_def fb fields by auto
      moreover have "lists_ok False (c \<in> set (gs_destroyed s)) ?b"
        using ok(4) z vb fields(13) unfolding lists_ok_def idle_listed_def fb fields by auto
      ultimately show ?thesis by (simp add: ctx_ok_def)
    qed
    have eqb: "done_ctx r (?g (ce\<lparr>ce_guc_id := of_nat i, ce_ref := ce_ref ce + 1\<rparr>)) = add_waiting r ?b"
      by (rule intel_context.equality; cases "ge_v70 E";
          simp add: done_ctx_def add_waiting_def state_simps ctx_simps; simp add: state_set_def state_clr_def)
    have "sub_inv (request_done c r ?s2, f)"
    proof (rule fresh_request_inv [OF inv c nv i(1,2), where ps = ?ps and ce' = "add_waiting r ?b"])
      show "gs_ctxs (request_done c r ?s2) = (gs_ctxs s)(c \<mapsto> add_waiting r ?b)"
        using c eqb by (simp add: request_done_eq s1_def s0 fresh_id_def ctxs_upd_ctx take_id_simps)
      show "ctx_ok False (c \<in> set (gs_destroyed s)) (queued s c) (add_waiting r ?b)"
        by (rule add_waiting_ok [OF okb]) (use nw pins idle vb in \<open>simp_all add: own fields del: if_split\<close>)
      show "want (add_waiting r ?b) = FW_Disabled" "expected (add_waiting r ?b) = []"
        using z flc by (simp_all add: view_defs add_waiting_def state_simps)
    qed (simp_all add: request_done_eq s1_def s0 fresh_id_def take_id_def frame_ids_def add_waiting_def state_updates ctx_simps)
    with nr t show ?thesis by simp
  next
    fix d assume d: "gs_id_list s = d # tl (gs_id_list s)" "assign_guc_id E' c s = (Inr (), stolen_id c d s)"
    then have s0: "s0 = stolen_id c d s" using a by simp
    have "d \<in> set (gs_id_list s)" using d(1) by (metis list.set_intros(1))
    with D(3) have "gs_ctxs s d \<noteq> None" unfolding queues_ok_def by blast
    then obtain de where de: "gs_ctxs s d = Some de" by auto
    have okd: "ctx_ok True (d \<in> set (gs_destroyed s)) (queued s d) de"
      using D(1) [OF de] \<open>d \<in> set (gs_id_list s)\<close> by simp
    note zd = listed_want [OF okd]
    have cd: "c \<noteq> d" using c de nv zd(1) by auto
    let ?c1 = "ce\<lparr>ce_guc_id := ce_guc_id de, ce_ref := ce_ref ce + 1\<rparr>"
    let ?d1 = "set_context_guc_id_invalid (clr_context_registered de)"
    have ctxs1: "gs_ctxs s1 = (gs_ctxs s)(c \<mapsto> ?c1, d \<mapsto> ?d1)"
      using c de cd by (auto simp: s1_def s0 stolen_id_def take_id_simps ctxs_upd_ctx)
    then have c1: "gs_ctxs s1 c = Some ?c1" using cd by simp
    have k1: "ctx_key ?c1 = ctx_key de" by (simp add: ctx_key_def)
    have init1: "gs_initialized s1" "\<not> gs_disabled s1" using init by (simp_all add: s1_def s0 stolen_id_def take_id_def)
    have "gs_lookup s (ctx_key de) = Some d" by (rule ids_validD [OF D(2) de zd(1)])
    then have m: "ctx_id_mapped s1 (ctx_key ?c1)"
      by (simp add: ctx_id_mapped_def s1_def s0 stolen_id_def take_id_simps k1)
    have nr: "context_needs_register True c s1" using init1 by (simp add: context_needs_register_def)
    let ?s2 = "h2g_push (DEREGISTER_CONTEXT (ctx_key de))
        ((upd_ctx c (\<lambda>ce. (set_context_wait_for_deregister_to_register ce)\<lparr>ce_kref := ce_kref ce + 1\<rparr>)
            (s1\<lparr>gs_lookup := (gs_lookup s1)(ctx_key de \<mapsto> c)\<rparr>))\<lparr>gs_outstanding := gs_outstanding s1 + 1\<rparr>)"
    have t: "try_context_registration E True c s1 = (Inr (), ?s2)"
      using try_registration_eq(1) [OF c1 up init1 m, of True] by (simp add: k1)
    have "sub_inv (request_done c r ?s2, f)"
    proof (rule stolen_request_inv [OF inv c nv nw ref pins d(1) de])
      show "gs_ctxs (request_done c r ?s2) = (gs_ctxs s)(c \<mapsto> wait_with_id (ce_guc_id de) r ce, d \<mapsto> ?d1)"
        using cd done_ctx_wait [OF idle(1,4) ref, of r "ce_guc_id de"]
        by (simp add: request_done_eq ctxs_upd_ctx ctxs1 fun_upd_twist state_updates ctx_simps)
    qed (simp_all add: request_done_eq s1_def s0 stolen_id_def take_id_def h2g_push_def frame_ids_def)
    with nr t show ?thesis by simp
  qed
qed

text \<open>Creation of a request: the context is pinned for it, and pending work is cancelled.\<close>

lemma request_start:
  assumes inv: "sub_inv (s, f)" and c: "gs_ctxs s c = Some ce" and pins: "own_pins ce < ce_pin_count ce"
  defines "s1 \<equiv> upd_ctx c (\<lambda>ce. ce\<lparr>ce_init := True\<rparr>) (upd_ctx c (\<lambda>ce. ce\<lparr>ce_pin_count := ce_pin_count ce + 1\<rparr>) s)"
  defines "s2 \<equiv> if ce_work (the_ctx s1 c)
                then intel_context_sched_disable_unpin c (upd_ctx c (\<lambda>ce. ce\<lparr>ce_work := False\<rparr>) s1)
                else s1"
  obtains ce' where "sub_inv (s2, f)" "gs_ctxs s2 c = Some ce'" "\<not> ce_work ce'" "own_pins ce' + 2 \<le> ce_pin_count ce'"
    "ce_waiting ce' = ce_waiting ce" "ce_requests ce' = ce_requests ce" "gs_queue s2 = gs_queue s"
proof -
  have s1: "s1 = upd_ctx c (\<lambda>ce. ce\<lparr>ce_pin_count := ce_pin_count ce + 1, ce_init := True\<rparr>) s" by (simp add: s1_def)
  note ok = ctx_okD [OF inv_ctxD(1) [OF inv c]]
  have pos: "0 < ce_pin_count ce" using pins own_pins_nonneg [OF ok(1)] by linarith
  have inv1: "sub_inv (s1, f)"
  proof (rule local_quiet [OF inv c s1])
    fix inl des q assume "ctx_ok inl des q ce"
    with pos show "ctx_ok inl des q (ce\<lparr>ce_pin_count := ce_pin_count ce + 1, ce_init := True\<rparr>)"
      by (clarsimp simp: ok_defs state_simps ctx_simps)
  qed (simp_all add: state_simps)
  let ?c1 = "ce\<lparr>ce_pin_count := ce_pin_count ce + 1, ce_init := True\<rparr>"
  have c1: "gs_ctxs s1 c = Some ?c1" using c by (simp add: s1)
  have own1: "own_pins ?c1 = own_pins ce" by (simp add: own_pins_def state_simps)
  show ?thesis
  proof (cases "ce_work ce")
    case False
    then have "s2 = s1" using c1 by (simp add: s2_def)
    with inv1 c1 False pins own1 show ?thesis by (intro that [of ?c1]) (simp_all add: s1)
  next
    case True
    let ?c2 = "?c1\<lparr>ce_work := False\<rparr>"
    let ?sw = "upd_ctx c (\<lambda>ce. ce\<lparr>ce_work := False\<rparr>) s1"
    have w: "ce_work ?c1" using True by simp
    note off = work_off [OF inv1 c1 w]
    have cw: "gs_ctxs ?sw c = Some ?c2" using c1 by simp
    have s2: "s2 = intel_context_do_unpin 2 c ?sw"
      using c1 True by (simp add: s2_def intel_context_sched_disable_unpin_def)
    have pins2: "own_pins ?c2 + 4 \<le> ce_pin_count ?c2" using off(2) own1 pins by simp
    have nn: "0 \<le> own_pins ?c2" using own_pins_nonneg [OF ctx_okD(1) [OF inv_ctxD(1) [OF off(1) cw]]] by linarith
    have ne: "ce_pin_count ?c2 \<noteq> 2" using pins2 nn by linarith
    have e: "s2 = upd_ctx c (\<lambda>ce. ce\<lparr>ce_pin_count := ce_pin_count ce - 2\<rparr>) ?sw"
      using cw c1 ne by (simp add: s2 intel_context_do_unpin_def Let_def)
    have inv2: "sub_inv (s2, f)"
      unfolding s2 by (rule do_unpin_inv [OF off(1) cw]) (use pins2 nn ne in auto)
    let ?c3 = "?c2\<lparr>ce_pin_count := ce_pin_count ?c2 - 2\<rparr>"
    have c3: "gs_ctxs s2 c = Some ?c3" 
      unfolding e by (rule ctxs_upd_ctx_same [OF cw, of "\<lambda>ce. ce\<lparr>ce_pin_count := ce_pin_count ce - 2\<rparr>"])
    have "own_pins ?c3 = own_pins ?c2" by (simp add: own_pins_def state_simps)
    with pins2 have "own_pins ?c3 + 2 \<le> ce_pin_count ?c3" by simp
    then show ?thesis
      using inv2 c3 by (intro that [of ?c3]) (simp_all add: e s1)
  qed
qed

lemma request_inv:
  assumes inv: "sub_inv (s, f)" and c: "gs_ctxs s c = Some ce" and up: "ct_up E"
    and pins: "own_pins ce < ce_pin_count ce"
    and r: "r \<notin> set (ce_waiting ce) \<union> set (ce_requests ce) \<union> set (queued s c)"
  shows "sub_inv (snd (i915_request_create E c r s), f)"
proof -
  let ?s1 = "upd_ctx c (\<lambda>ce. ce\<lparr>ce_init := True\<rparr>) (upd_ctx c (\<lambda>ce. ce\<lparr>ce_pin_count := ce_pin_count ce + 1\<rparr>) s)"
  define s2 where "s2 = (if ce_work (the_ctx ?s1 c)
                then intel_context_sched_disable_unpin c (upd_ctx c (\<lambda>ce. ce\<lparr>ce_work := False\<rparr>) ?s1)
                else ?s1)"
  obtain ce' where s2: "sub_inv (s2, f)" "gs_ctxs s2 c = Some ce'" "\<not> ce_work ce'" "own_pins ce' + 2 \<le> ce_pin_count ce'"
      "ce_waiting ce' = ce_waiting ce" "ce_requests ce' = ce_requests ce" "gs_queue s2 = gs_queue s"
    using request_start [OF inv c pins] unfolding s2_def by blast
  have rf: "r \<notin> set (ce_waiting ce') \<union> set (ce_requests ce') \<union> set (queued s2 c)"
    using r s2(5,6) queued_cong [OF s2(7)] by simp
  have p1: "own_pins ce' + 1 \<le> ce_pin_count ce'" using s2(4) by simp
  let ?done = "\<lambda>res. case res of (Inl e, s3) \<Rightarrow> (Inl e, intel_context_unpin E c s3)
         | (Inr _, s3) \<Rightarrow> (Inr (), upd_ctx c (\<lambda>ce. ce\<lparr>ce_waiting := ce_waiting ce @ [r]\<rparr>) s3)"
  have create: "i915_request_create E c r s =
      ?done (guc_request_alloc E c r (upd_ctx c (\<lambda>ce. ce\<lparr>ce_pin_count := ce_pin_count ce + 1\<rparr>) s))"
    by (simp add: i915_request_create_def)
  show ?thesis
  proof (cases "ce_ref ce' = 0")
    case False
    have "guc_request_alloc E c r (upd_ctx c (\<lambda>ce. ce\<lparr>ce_pin_count := ce_pin_count ce + 1\<rparr>) s) =
        (Inr (), guc_request_fence c r (upd_ctx c (\<lambda>ce. ce\<lparr>ce_ref := ce_ref ce + 1\<rparr>) s2))"
      using False s2(2) unfolding guc_request_alloc_def Let_def s2_def [symmetric] by simp
    moreover have "upd_ctx c (\<lambda>ce. ce\<lparr>ce_waiting := ce_waiting ce @ [r]\<rparr>)
        (guc_request_fence c r (upd_ctx c (\<lambda>ce. ce\<lparr>ce_ref := ce_ref ce + 1\<rparr>) s2)) = upd_ctx c (add_waiting r) s2"
      unfolding guc_request_fence_def upd_ctx_upd_ctx
      by (rule arg_cong [where f = "\<lambda>g. upd_ctx c g s2"]) (simp add: fun_eq_iff add_waiting_def state_simps)
    ultimately show ?thesis
      using another_request_inv [OF s2(1-3) p1 False rf] by (simp add: create)
  next
    case True
    note reg = guc_request_alloc_def Let_def s2_def [symmetric]
    show ?thesis
    proof (rule pin_id_cases [OF s2(1,2) True up, of PIN_GUC_ID_TRIES])
      fix e s' assume *: "pin_guc_id_tries E PIN_GUC_ID_TRIES c s2 = (Inl e, s')" "sub_inv (s', f)" "gs_ctxs s' c = Some ce'"
      have "guc_request_alloc E c r (upd_ctx c (\<lambda>ce. ce\<lparr>ce_pin_count := ce_pin_count ce + 1\<rparr>) s) = (Inl e, s')"
        using True s2(2) * unfolding reg by (simp add: pin_guc_id_def)
      with unpin_inv [OF *(2,3) up] p1 show ?thesis by (simp add: create)
    next
      fix s' assume *: "valid ce'" "sub_inv (s', f)" "gs_ctxs s' c = Some ce'"
        "pin_guc_id_tries E PIN_GUC_ID_TRIES c s2 = (Inr False, take_id c s')"
      from old_request_done [OF *(2,3) True s2(3) p1 *(1) up, of r] obtain s4 where s4:
          "(if context_needs_register False c (take_id c s') then try_context_registration E True c (take_id c s')
            else (Inr (), take_id c s')) = (Inr (), s4)" "sub_inv (request_done c r s4, f)" by blast
      have "guc_request_alloc E c r (upd_ctx c (\<lambda>ce. ce\<lparr>ce_pin_count := ce_pin_count ce + 1\<rparr>) s) =
          (Inr (), guc_request_fence c r (upd_ctx c (\<lambda>ce. ce\<lparr>ce_dirty := False\<rparr>) s4))"
        using True s2(2) *(4) s4(1) unfolding reg by (simp add: pin_guc_id_def)
      with s4(2) show ?thesis by (simp add: create request_done_def)
    next
      fix s' s'' assume *: "\<not> valid ce'" "sub_inv (s', f)" "gs_ctxs s' c = Some ce'"
        "assign_guc_id (guc_env.truncate E) c s' = (Inr (), s'')"
        "pin_guc_id_tries E PIN_GUC_ID_TRIES c s2 = (Inr True, take_id c s'')"
      from new_request_done [OF *(2,3) True s2(3) p1 *(1) up *(4), of r] obtain s4 where s4:
          "(if context_needs_register True c (take_id c s'') then try_context_registration E True c (take_id c s'')
            else (Inr (), take_id c s'')) = (Inr (), s4)" "sub_inv (request_done c r s4, f)" by blast
      have "guc_request_alloc E c r (upd_ctx c (\<lambda>ce. ce\<lparr>ce_pin_count := ce_pin_count ce + 1\<rparr>) s) =
          (Inr (), guc_request_fence c r (upd_ctx c (\<lambda>ce. ce\<lparr>ce_dirty := False\<rparr>) s4))"
        using True s2(2) *(5) s4(1) unfolding reg by (simp add: pin_guc_id_def)
      with s4(2) show ?thesis by (simp add: create request_done_def)
    qed
  qed
qed

end
