(* ===== verification/Guc_Protocol_Submit.thy ===== *)
theory Guc_Protocol_Submit
  imports Guc_Protocol_Requests
begin

text \<open>
  The invariant when requests are submitted, directly or by the tasklet, and the invariant of all
  reachable states.
\<close>

section \<open>Submission\<close>

lemma stall_inv:
  assumes inv: "sub_inv (s, f)" and c: "gs_ctxs s c = Some ce" and ex: "\<not> ce_exiting ce"
    and r: "r \<in> set (ce_requests ce) - set (ce_completed ce)"
  shows "sub_inv (s\<lparr>gs_stalled := Some (c, r), gs_stall_reason := x\<rparr>, f)"
proof -
  let ?s = "s\<lparr>gs_stalled := Some (c, r), gs_stall_reason := x\<rparr>"
  have same: "ids_ok ?s = ids_ok s" "id_ok ?s f i = id_ok s f i" "queued ?s d = queued s d" for i d
    by (simp_all add: ids_ok_def id_ok_def number_slrc_guc_id_def number_mlrc_guc_id_def queued_def the_ctx_def
        cong: option.case_cong)
  have "queues_ok ?s"
    using inv_ctxD(3) [OF inv] c ex r unfolding queues_ok_def same
    by (simp add: number_mlrc_guc_id_def)
  moreover have "\<forall>i. id_ok ?s f i" using inv_ctxD(5) [OF inv] by (simp add: same)
  ultimately show ?thesis using inv unfolding sub_inv_def by (auto simp: same)
qed

text \<open>A message about a context whose status does not change.\<close>

lemma send_inv:
  assumes inv: "sub_inv (s, f)" and c: "gs_ctxs s c = Some ce" and v: "valid ce" and m: "h2g_id m = ctx_key ce"
    and chan: "\<And>hs st gs. chan_ok (want ce) (expected ce) hs st gs \<Longrightarrow> chan_ok (want ce) (expected ce) (hs @ [m]) st gs"
  shows "sub_inv (h2g_push m s, f)"
proof (rule local_inv_flat [OF inv c, where ce' = ce and ms = "[m]"])
  show "gs_ctxs (h2g_push m s) = (gs_ctxs s)(c \<mapsto> ce)" using c by (simp add: fun_upd_idem)
qed (use v m chan in \<open>simp_all add: h2g_push_def frame_def\<close>)

text \<open>A request that was submitted to its context goes to the GuC.\<close>

lemma submitted_want:
  assumes ok: "ctx_ok inl des q ce" and r: "r \<in> set (ce_requests ce)"
  shows "valid ce" "\<not> W ce" "\<not> DE ce" "0 < ce_kref ce" "ce_pin_count ce \<noteq> 0" "want ce \<noteq> FW_Unregistered" "\<not> inl"
proof -
  note p = ctx_okD [OF ok]
  have "r \<in> set (ce_requests ce) \<union> set q" using r by simp
  note b = busy_flags [OF ok this]
  show pin: "ce_pin_count ce \<noteq> 0" using own_pins_nonneg [OF p(1)] p(1) b(3) by (auto simp: counts_ok_def)
  have "\<not> own_refs ce < 1" using own_refs_zero(1) [of ce] pin by blast
  then show k: "0 < ce_kref ce" using p(1) by (simp add: counts_ok_def)
  then show "\<not> DE ce" using p(4) by (auto simp: lists_ok_def)
  with b(1) show "\<not> W ce" "want ce \<noteq> FW_Unregistered" "\<not> inl" using b(2) by (simp_all add: want_def)
  show "valid ce" using p(2) b(3) by (auto simp: flags_ok_def)
qed

lemma policy_inv:
  fixes E :: guc_sub_env
  assumes inv: "sub_inv (s, f)" and c: "gs_ctxs s c = Some ce" and r: "r \<in> set (ce_requests ce)"
  defines "res \<equiv> guc_context_policy_init_v70 E False c s"
  shows "fst res = Inr () \<or> fst res = Inl EBUSY" "sub_inv (snd res, f)"
    "\<exists>ce'. gs_ctxs (snd res) c = Some ce' \<and> ce_requests ce' = ce_requests ce \<and> ce_completed ce' = ce_completed ce
      \<and> ce_exiting ce' = ce_exiting ce" "gs_stalled (snd res) = gs_stalled s" "gs_queue (snd res) = gs_queue s"
proof -
  note w = submitted_want [OF inv_ctxD(1) [OF inv c] r]
  let ?m = "UPDATE_CONTEXT_POLICIES (ctx_key ce)"
  have quiet: "sub_inv (upd_ctx c set_context_policy_required s, f)" "sub_inv (upd_ctx c clr_context_policy_required s, f)"
    if "sub_inv (s, f)" for s
    by (rule quiet_field_inv [OF that]; clarsimp simp: state_simps ctx_simps ok_defs)+
  have push: "sub_inv (h2g_push ?m s, f)"
    by (rule send_inv [OF inv c w(1)]) (use chan_ok_policy w(6) in auto)
  have e: "res = (if ge_h2g_room E s then (Inr (), upd_ctx c clr_context_policy_required (h2g_push ?m s))
      else (Inl EBUSY, upd_ctx c set_context_policy_required s))"
    using c by (simp add: res_def guc_context_policy_init_v70_def guc_submission_send_busy_loop_def
        guc_send_busy_loop_def guc_send_nb_def)
  show "fst res = Inr () \<or> fst res = Inl EBUSY" by (simp add: e)
  show "sub_inv (snd res, f)" using quiet(1) [OF inv] quiet(2) [OF push] by (simp add: e)
  show "\<exists>ce'. gs_ctxs (snd res) c = Some ce' \<and> ce_requests ce' = ce_requests ce \<and> ce_completed ce' = ce_completed ce
      \<and> ce_exiting ce' = ce_exiting ce"
    using c by (simp add: e ctxs_upd_ctx state_updates ctx_simps)
  show "gs_stalled (snd res) = gs_stalled s" "gs_queue (snd res) = gs_queue s"
    by (simp_all add: e h2g_push_def)
qed

lemma enable_failed:
  assumes "\<not> PE ce"
  shows "(clr_context_pending_enable ((set_context_pending_enable ce)\<lparr>ce_kref := ce_kref ce + 1\<rparr>))\<lparr>ce_kref := ce_kref ce\<rparr> = ce"
proof -
  let ?m = SCHED_STATE_PENDING_ENABLE
  have "(ce_state ce OR ?m) AND NOT ?m = ce_state ce AND NOT ?m"
    by (intro bit_word_eqI) (auto simp: bit_simps)
  also have "\<dots> = ce_state (state_clr ?m ce)" by (simp add: state_clr_def)
  also have "\<dots> = ce_state ce" using assms by (simp add: context_pending_enable_def state_clr_id)
  finally show ?thesis
    by (simp add: clr_context_pending_enable_def set_context_pending_enable_def state_set_def state_clr_def)
qed

lemma enable_inv:
  assumes inv: "sub_inv (s, f)" and c: "gs_ctxs s c = Some ce" and r: "r \<in> set (ce_requests ce)"
    and en: "\<not> EN ce" and b: "context_blocked ce = 0" and ex: "\<not> ce_exiting ce"
  defines "g \<equiv> \<lambda>ce. set_context_enabled ((set_context_pending_enable ce)\<lparr>ce_kref := ce_kref ce + 1\<rparr>)"
  shows "sub_inv (h2g_push (SCHED_CONTEXT_MODE_SET (ctx_key ce) True) ((upd_ctx c g s)\<lparr>gs_outstanding := n\<rparr>), f)"
    "\<not> PE ce"
proof -
  let ?s = "h2g_push (SCHED_CONTEXT_MODE_SET (ctx_key ce) True) ((upd_ctx c g s)\<lparr>gs_outstanding := n\<rparr>)"
  note D = inv_ctxD [OF inv]
  note ok = ctx_okD [OF D(1) [OF c]]
  note w = submitted_want [OF D(1) [OF c] r]
  have "r \<in> set (ce_requests ce) \<union> set (queued s c)" using r by simp
  from busy_flags(4) [OF D(1) [OF c] this] b ex have pd: "\<not> PD ce" by auto
  with ok(2) en show pe: "\<not> PE ce" by (auto simp: flags_ok_def)
  show "sub_inv (?s, f)"
  proof (rule local_inv_flat [OF inv c, where ce' = "g ce" and ms = "[SCHED_CONTEXT_MODE_SET (ctx_key ce) True]"])
    show "gs_ctxs ?s = (gs_ctxs s)(c \<mapsto> g ce)" using c by (simp add: ctxs_upd_ctx)
    fix inl des q assume "ctx_ok inl des q ce" "inl = (c \<in> set (gs_id_list s))"
    moreover from this w(7) have "\<not> inl" by simp
    ultimately show "ctx_ok inl des q (g ce)"
      using w b pd pe en by (clarsimp simp: g_def ok_defs state_simps ctx_simps)
  next
    fix hs st gs assume "chan_ok (want ce) (expected ce) hs st gs"
    then have "chan_ok FW_Disabled [] hs st gs" using w pd pe en by (simp add: view_defs)
    from chan_ok_send [OF this, of "SCHED_CONTEXT_MODE_SET (ctx_key ce) True" FW_Enabled]
    show "chan_ok (want (g ce)) (expected (g ce)) (hs @ [SCHED_CONTEXT_MODE_SET (ctx_key ce) True]) st gs"
      using w pd by (simp add: want_def expected_def g_def state_simps)
  qed (use w in \<open>simp_all add: h2g_push_def frame_def g_def state_updates ctx_simps\<close>)
qed

lemma add_request_inv:
  assumes inv: "sub_inv (s, f)" and c: "gs_ctxs s c = Some ce"
    and r: "r \<in> set (ce_requests ce) - set (ce_completed ce)"
    and st: "gs_stalled s = None \<or> gs_stalled s = Some (c, r)"
  shows "fst (guc_add_request E c r s) = Inr () \<or> fst (guc_add_request E c r s) = Inl EBUSY"
    "sub_inv (snd (guc_add_request E c r s), f)"
proof -
  have "(fst (guc_add_request E c r s) = Inr () \<or> fst (guc_add_request E c r s) = Inl EBUSY)
      \<and> sub_inv (snd (guc_add_request E c r s), f)"
  proof (cases "ce_exiting ce")
    case True
    then have "gs_stalled s \<noteq> Some (c, r)" using inv_ctxD(4) [OF inv] c by (auto simp: stall_ok_def)
    from complete_inv [OF inv c this r] True c show ?thesis
      by (simp add: guc_add_request_def intel_context_is_schedulable_def gpu_completes_def)
  next
    case ex: False
    define p where "p = (if context_policy_required (the_ctx s c)
        then guc_context_policy_init_v70 E False c s else (Inr (), s))"
    have p: "fst p = Inr () \<or> fst p = Inl EBUSY" "sub_inv (snd p, f)"
      "\<exists>ce'. gs_ctxs (snd p) c = Some ce' \<and> ce_requests ce' = ce_requests ce \<and> ce_completed ce' = ce_completed ce
        \<and> ce_exiting ce' = ce_exiting ce"
      using policy_inv [OF inv c, of r E] r inv c by (auto simp: p_def)
    then obtain e s1 ce1 where p1: "p = (e, s1)" and inv1: "sub_inv (s1, f)" and c1: "gs_ctxs s1 c = Some ce1"
        and same: "ce_requests ce1 = ce_requests ce" "ce_completed ce1 = ce_completed ce" "\<not> ce_exiting ce1"
      using ex by (cases p) auto
    let ?stall = "\<lambda>s. s\<lparr>gs_stalled := Some (c, r), gs_stall_reason := STALL_ADD_REQUEST\<rparr>"
    have r1: "r \<in> set (ce_requests ce1) - set (ce_completed ce1)" using r same by simp
    have stall: "sub_inv (?stall s1, f)" by (rule stall_inv [OF inv1 c1 same(3) r1])
    show ?thesis
    proof (cases "e = Inr ()")
      case False
      then have e: "e = Inl EBUSY" using p(1) p1 by auto
      have "guc_add_request E c r s = (Inl EBUSY, ?stall s1)"
        using c ex p1 e unfolding p_def
        by (simp add: guc_add_request_def intel_context_is_schedulable_def)
      with stall show ?thesis by simp
    next
      case True
      note w = submitted_want [OF inv_ctxD(1) [OF inv1 c1], of r]
      have single: "\<not> intel_context_is_parent ce1"
        using ctx_okD(2) [OF inv_ctxD(1) [OF inv1 c1]] by (simp add: flags_ok_def intel_context_is_parent_def)
      define t where "t = (if context_blocked ce1 \<noteq> 0 then (Inr (), s1)
          else if EN ce1 then guc_send_nb E (SCHED_CONTEXT (ctx_key ce1)) s1
          else let s2 = intel_context_get c (upd_ctx c set_context_pending_enable s1)
                in case guc_send_nb E (SCHED_CONTEXT_MODE_SET (ctx_key ce1) True) s2 of
                     (Inr _, s3) \<Rightarrow> (Inr (), upd_ctx c set_context_enabled (s3\<lparr>gs_outstanding := gs_outstanding s3 + 1\<rparr>))
                   | (Inl e, s3) \<Rightarrow> (Inl e, intel_context_put c (upd_ctx c clr_context_pending_enable s3)))"
      have eq: "guc_add_request E c r s = (fst t, if fst t = Inl EBUSY then ?stall (snd t) else snd t)"
        using c ex p1 True c1 single unfolding p_def t_def
        by (auto simp: guc_add_request_def intel_context_is_schedulable_def Let_def split: sum.split prod.split)
      have "(fst t = Inr () \<and> sub_inv (snd t, f)) \<or> t = (Inl EBUSY, s1)"
      proof -
        consider (blocked) "context_blocked ce1 \<noteq> 0" | (on) "context_blocked ce1 = 0" "EN ce1"
          | (off) "context_blocked ce1 = 0" "\<not> EN ce1" by blast
        then show ?thesis
        proof cases
          case blocked
          with inv1 show ?thesis by (simp add: t_def)
        next
          case on
          note e = enabled_want [OF inv_ctxD(1) [OF inv1 c1] on(2)]
          have "sub_inv (h2g_push (SCHED_CONTEXT (ctx_key ce1)) s1, f)"
          proof (rule send_inv [OF inv1 c1 e(3)])
            fix hs st gs assume "chan_ok (want ce1) (expected ce1) hs st gs"
            from this [unfolded e(1)] chan_ok_send_enabled [of "expected ce1" hs st gs "SCHED_CONTEXT (ctx_key ce1)" FW_Enabled]
            show "chan_ok (want ce1) (expected ce1) (hs @ [SCHED_CONTEXT (ctx_key ce1)]) st gs"
              by (simp add: e(1))
          qed simp
          with on show ?thesis by (simp add: t_def guc_send_nb_def)
        next
          case off
          have rr: "r \<in> set (ce_requests ce1)" using r1 by simp
          note en = enable_inv [OF inv1 c1 rr off(2,1) same(3)]
          let ?s2 = "upd_ctx c (\<lambda>ce. (set_context_pending_enable ce)\<lparr>ce_kref := ce_kref ce + 1\<rparr>) s1"
          have s2: "intel_context_get c (upd_ctx c set_context_pending_enable s1) = ?s2"
            by (simp add: intel_context_get_def state_updates ctx_simps)
          show ?thesis
          proof (cases "ge_h2g_room E ?s2")
            case True
            have "t = (Inr (), h2g_push (SCHED_CONTEXT_MODE_SET (ctx_key ce1) True)
                ((upd_ctx c (\<lambda>ce. set_context_enabled ((set_context_pending_enable ce)\<lparr>ce_kref := ce_kref ce + 1\<rparr>)) s1)
                   \<lparr>gs_outstanding := gs_outstanding s1 + 1\<rparr>))"
              using off True unfolding t_def s2 by (simp add: guc_send_nb_def Let_def h2g_push_def upd_ctx_def option.map_comp comp_def)
            with en(1) [of "gs_outstanding s1 + 1"] show ?thesis by simp
          next
            case False
            let ?f = "\<lambda>ce. clr_context_pending_enable ((set_context_pending_enable ce)\<lparr>ce_kref := ce_kref ce + 1\<rparr>)"
            have k: "ce_kref (?f ce1) = ce_kref ce1 + 1" by (simp add: state_updates ctx_simps)
            have "intel_context_put c (upd_ctx c ?f s1) = upd_ctx c (\<lambda>ce. (?f ce)\<lparr>ce_kref := ce_kref (?f ce) - 1\<rparr>) s1"
              using w(4) r1 c1 k by (simp add: intel_context_put_def Let_def)
            also have "\<dots> = s1"
              using c1 enable_failed [OF en(2)] k by (simp add: upd_ctx_def fun_upd_idem)
            finally show ?thesis
              using off False unfolding t_def s2 by (simp add: guc_send_nb_def Let_def)
          qed
        qed
      qed
      with stall show ?thesis unfolding eq by auto
    qed
  qed
  then show "fst (guc_add_request E c r s) = Inr () \<or> fst (guc_add_request E c r s) = Inl EBUSY"
    "sub_inv (snd (guc_add_request E c r s), f)" by blast+
qed

text \<open>A request whose fences have signalled goes to the queue or to its context.\<close>

lemma waiting_flags:
  assumes ok: "ctx_ok inl des q ce" and r: "r \<in> set (ce_waiting ce) - set (ce_fences ce)"
  shows "\<not> W ce" "\<not> (PD ce \<and> blocked ce = 0 \<and> \<not> ce_exiting ce)" "0 < ce_ref ce" "\<not> ce_work ce" "\<not> inl"
    "int (length (ce_waiting ce)) = int (length (remove1 r (ce_waiting ce))) + 1"
proof -
  note p = ctx_okD [OF ok]
  show "\<not> W ce" "\<not> (PD ce \<and> blocked ce = 0 \<and> \<not> ce_exiting ce)" using p(3) r by (auto simp: fences_ok_def)
  show "0 < ce_ref ce" "\<not> ce_work ce" using counts_busy [OF p(1), of r] r by auto
  then show "\<not> inl" using p(4) by (auto simp: lists_ok_def)
  have "r \<in> set (ce_waiting ce)" using r by simp
  then show "int (length (ce_waiting ce)) = int (length (remove1 r (ce_waiting ce))) + 1"
    using length_pos_if_in_set [of r "ce_waiting ce"] by (simp add: length_remove1 of_nat_diff Suc_leI)
qed

lemma signalled_ok:
  assumes ok: "ctx_ok inl des (q1 @ q2) ce" and r: "r \<in> set (ce_waiting ce) - set (ce_fences ce)"
  shows "ctx_ok inl des (q1 @ r # q2) (ce\<lparr>ce_waiting := remove1 r (ce_waiting ce)\<rparr>)" (is "ctx_ok _ _ ?q ?a")
    "ctx_ok inl des (q1 @ q2) (ce\<lparr>ce_waiting := remove1 r (ce_waiting ce), ce_requests := ce_requests ce @ [r]\<rparr>)"
      (is "ctx_ok _ _ _ ?b")
proof -
  note p = ctx_okD [OF ok]
  note w = waiting_flags [OF ok r]
  have own: "own_pins ?a = own_pins ce" "own_refs ?a = own_refs ce" "own_pins ?b = own_pins ce" "own_refs ?b = own_refs ce"
    by (simp_all add: own_pins_def own_refs_def state_simps ctx_simps)
  have dist: "distinct (ce_waiting ce @ ce_requests ce @ q1 @ q2)" using p(1) by (simp add: counts_ok_def)
  then have dw: "distinct (ce_waiting ce)" by simp
  have sets: "set (remove1 r (ce_waiting ce)) = set (ce_waiting ce) - {r}" by (simp add: set_remove1_eq dw)
  have len: "ce_ref ce = int (length (ce_waiting ce) + length (ce_requests ce) + length (q1 @ q2))"
    using p(1) by (simp only: counts_ok_def)
  have fsub: "set (ce_fences ce) \<subseteq> set (ce_waiting ce) - {r}" using p(1) r by (auto simp: counts_ok_def)
  have "distinct (remove1 r (ce_waiting ce) @ ce_requests ce @ q1 @ r # q2)"
      "distinct (remove1 r (ce_waiting ce) @ (ce_requests ce @ [r]) @ q1 @ q2)"
    using dist r by (auto simp: sets distinct_remove1)
  then have "counts_ok ?q ?a" "counts_ok (q1 @ q2) ?b"
    using p(1) fsub len w(6) unfolding counts_ok_def own by (auto simp: sets)
  moreover have "flags_ok ?a" "flags_ok ?b" using p(2) by (simp_all add: flags_ok_def state_simps ctx_simps)
  moreover have "fences_ok ?q ?a" "fences_ok (q1 @ q2) ?b"
    using p(3) w(1,2) by (simp_all add: fences_ok_def state_simps ctx_simps)
  moreover have "lists_ok inl des ?a" "lists_ok inl des ?b"
    using p(4) w(5) by (simp_all add: lists_ok_def state_simps ctx_simps)
  ultimately show "ctx_ok inl des ?q ?a" "ctx_ok inl des (q1 @ q2) ?b" by (simp_all add: ctx_ok_def)
qed

lemma queue_inv:
  assumes inv: "sub_inv (s, f)" and c: "gs_ctxs s c = Some ce" and r: "r \<in> set (ce_waiting ce) - set (ce_fences ce)"
  shows "sub_inv (queue_request prio c r (upd_ctx c (\<lambda>ce. ce\<lparr>ce_waiting := remove1 r (ce_waiting ce)\<rparr>) s), f)"
proof -
  let ?ce = "ce\<lparr>ce_waiting := remove1 r (ce_waiting ce)\<rparr>"
  let ?s = "queue_request prio c r (upd_ctx c (\<lambda>ce. ce\<lparr>ce_waiting := remove1 r (ce_waiting ce)\<rparr>) s)"
  let ?P = "\<lambda>(p, _). prio \<le> p"
  note D = inv_ctxD [OF inv]
  let ?l = "\<lambda>d xs. map (\<lambda>(_, _, r). r) (filter (\<lambda>(_, d', _). d' = d) xs)"
  let ?q1 = "?l c (takeWhile ?P (gs_queue s))" and ?q2 = "?l c (dropWhile ?P (gs_queue s))"
  have app: "?l d (takeWhile ?P (gs_queue s)) @ ?l d (dropWhile ?P (gs_queue s)) = queued s d" for d
    by (simp only: map_append [symmetric] filter_append [symmetric] takeWhile_dropWhile_id queued_def)
  have qc: "queued ?s c = ?q1 @ r # ?q2" by (simp add: queued_def queue_request_def)
  have qd: "queued ?s d = queued s d" if "d \<noteq> c" for d
    using that app [of d] by (simp add: queued_def queue_request_def)
  show ?thesis
  proof (rule local_inv [OF inv c, where ce' = ?ce and ms = "[]"])
    show "gs_ctxs ?s = (gs_ctxs s)(c \<mapsto> ?ce)" using c by (simp add: queue_request_def ctxs_upd_ctx)
    show "frame_lists c s ?s"
      using D(3) qd by (simp add: frame_lists_def queues_ok_def) (simp add: queue_request_def)
    have "ctx_ok (c \<in> set (gs_id_list s)) (c \<in> set (gs_destroyed s)) (?q1 @ ?q2) ce"
      unfolding app by (rule D(1) [OF c])
    from signalled_ok(1) [OF this r]
    show "ctx_ok (c \<in> set (gs_id_list ?s)) (c \<in> set (gs_destroyed ?s)) (queued ?s c) ?ce"
      unfolding qc by (simp add: queue_request_def)
    have "want ?ce = want ce" "expected ?ce = expected ce" by (rule view_cong; simp add: state_simps)+
    then show "chan_ok (want ?ce) (expected ?ce) (hs @ []) st gs"
      if "chan_ok (want ce) (expected ce) hs st gs" for hs st gs
      using that by simp
    show "stall_ok ?s"
      using D(4) c by (auto simp: stall_ok_def queue_request_def ctxs_upd_ctx)
  qed (simp_all add: queue_request_def frame_def)
qed

lemma submit_inv:
  assumes inv: "sub_inv (s, f)" and c: "gs_ctxs s c = Some ce" and r: "r \<in> set (ce_waiting ce) - set (ce_fences ce)"
  shows "sub_inv (guc_submit_request E prio c r s, f)"
proof -
  note ok = ctx_okD [OF inv_ctxD(1) [OF inv c]]
  let ?s1 = "upd_ctx c (\<lambda>ce. ce\<lparr>ce_waiting := remove1 r (ce_waiting ce)\<rparr>) s"
  show ?thesis
  proof (cases "need_tasklet c ?s1")
    case True
    with queue_inv [OF inv c r, of prio] show ?thesis by (simp add: guc_submit_request_def Let_def)
  next
    case False
    then have st: "gs_stalled s = None" by (cases "gs_stalled s") (auto simp: need_tasklet_def)
    let ?g = "\<lambda>ce. ce\<lparr>ce_waiting := remove1 r (ce_waiting ce), ce_requests := ce_requests ce @ [r]\<rparr>"
    have s2: "i915_request_submit c r ?s1 = upd_ctx c ?g s" by (simp add: i915_request_submit_def)
    have inv2: "sub_inv (upd_ctx c ?g s, f)"
    proof (rule local_quiet [OF inv c refl])
      fix inl des q assume "ctx_ok inl des q ce"
      then have "ctx_ok inl des ([] @ q) ce" by simp
      from signalled_ok(2) [OF this r] show "ctx_ok inl des q (?g ce)" by simp
    qed (auto simp: state_simps)
    have "r \<notin> set (ce_requests ce)" using ok(1) r by (auto simp: counts_ok_def)
    then have "r \<in> set (ce_requests (?g ce)) - set (ce_completed (?g ce))" using ok(1) by (auto simp: counts_ok_def)
    from add_request_inv [OF inv2 ctxs_upd_ctx_same [OF c, of ?g] this, of E] st
    have a: "fst (guc_add_request E c r (upd_ctx c ?g s)) = Inr () \<or> fst (guc_add_request E c r (upd_ctx c ?g s)) = Inl EBUSY"
        "sub_inv (snd (guc_add_request E c r (upd_ctx c ?g s)), f)" by simp_all
    then show ?thesis
      using False sub_inv_fields(2) [OF a(2), of True] unfolding guc_submit_request_def Let_def guc_bypass_tasklet_submit_def s2
      by (auto split: prod.split)
  qed
qed

section \<open>The tasklet\<close>

lemma dequeue_finish_inv:
  assumes inv: "sub_inv (s, f)" and c: "gs_ctxs s c = Some ce"
    and r: "r \<in> set (ce_requests ce) - set (ce_completed ce)"
    and st: "gs_stalled s = None \<or> gs_stalled s = Some (c, r)"
  shows "sub_inv (snd (guc_dequeue_finish E b (c, r) s), f)"
proof -
  note D = inv_ctxD [OF inv]
  have "valid ce" using submitted_want(1) [OF D(1) [OF c], of r] r by simp
  then have m: "ctx_id_mapped s (ctx_key (the_ctx s c))" using ids_validD [OF D(2) c] c by (simp add: ctx_id_mapped_def)
  note a = add_request_inv [OF inv c r st, of E]
  obtain ret s1 where e: "guc_add_request E c r s = (ret, s1)" by fastforce
  have inv1: "sub_inv (s1, f)" using a(2) e by simp
  have "sub_inv (s1\<lparr>gs_stalled := None, gs_stall_reason := STALL_NONE\<rparr>, f)"
    using sub_inv_fields(4) [OF sub_inv_fields(5) [OF inv1], of STALL_NONE] by simp
  with a(1) e sub_inv_fields(2) [OF inv1, of True] m show ?thesis
    by (auto simp: guc_dequeue_finish_def)
qed

lemma fold_submit:
  assumes "gs_ctxs s c = Some ce" "\<forall>x \<in> set xs. fst (snd x) = c"
  shows "fold (\<lambda>(_, c', r'). i915_request_submit c' r') xs s
    = upd_ctx c (\<lambda>ce. ce\<lparr>ce_requests := ce_requests ce @ map (\<lambda>(_, _, r). r) xs\<rparr>) s"
  using assms
proof (induction xs arbitrary: s ce)
  case Nil
  then show ?case by (simp add: upd_ctx_def fun_upd_idem)
next
  case (Cons x xs)
  obtain p r where x: "x = (p, c, r)" using Cons.prems(2) by (cases x) auto
  have "gs_ctxs (i915_request_submit c r s) c = Some (ce\<lparr>ce_requests := ce_requests ce @ [r]\<rparr>)"
    using Cons.prems(1) by (simp add: i915_request_submit_def)
  from Cons.IH [OF this] Cons.prems(2) show ?case by (simp add: x i915_request_submit_def)
qed

lemma dequeued_inv:
  assumes inv: "sub_inv (s, f)" and st: "gs_stalled s = None" and q: "gs_queue s = (p, c, r) # rest"
  defines "mine \<equiv> takeWhile (\<lambda>(_, c', _). c' = c) (gs_queue s)"
  defines "s1 \<equiv> fold (\<lambda>(_, c', r'). i915_request_submit c' r') mine
                     (s\<lparr>gs_queue := dropWhile (\<lambda>(_, c', _). c' = c) (gs_queue s)\<rparr>)"
  obtains ce where "sub_inv (s1, f)" "gs_ctxs s1 c = Some ce" "gs_stalled s1 = None"
    "snd (snd (last mine)) \<in> set (ce_requests ce) - set (ce_completed ce)"
proof -
  note D = inv_ctxD [OF inv]
  have "queued s c \<noteq> []" using q by (simp add: queued_def)
  with D(3) have "gs_ctxs s c \<noteq> None" unfolding queues_ok_def by blast
  then obtain ce where c: "gs_ctxs s c = Some ce" by auto
  note ok = ctx_okD [OF D(1) [OF c]]
  let ?l = "\<lambda>d xs. map (\<lambda>(_, _, r). r) (filter (\<lambda>(_, d', _). d' = d) xs)"
  let ?rest = "dropWhile (\<lambda>(_, c', _). c' = c) (gs_queue s)"
  have mine: "\<forall>x \<in> set mine. fst (snd x) = c" unfolding mine_def by (auto dest: set_takeWhileD)
  have ne: "mine \<noteq> []" by (simp add: mine_def q)
  have app: "?l d mine @ ?l d ?rest = queued s d" for d
    by (simp only: map_append [symmetric] filter_append [symmetric] takeWhile_dropWhile_id queued_def mine_def)
  have lc: "?l c mine = map (\<lambda>(_, _, r). r) mine" using mine by (auto intro!: arg_cong [where f = "map _"] filter_True)
  have ld: "?l d mine = []" if "d \<noteq> c" for d using mine that by (auto simp: filter_empty_conv)
  let ?rs = "map (\<lambda>(_, _, r). r) mine"
  let ?ce = "ce\<lparr>ce_requests := ce_requests ce @ ?rs\<rparr>"
  have s1: "s1 = upd_ctx c (\<lambda>ce. ce\<lparr>ce_requests := ce_requests ce @ ?rs\<rparr>) (s\<lparr>gs_queue := ?rest\<rparr>)"
    unfolding s1_def by (rule fold_submit [OF _ mine]) (use c in simp)
  have ctxs: "gs_ctxs s1 = (gs_ctxs s)(c \<mapsto> ?ce)" using c by (simp add: s1 ctxs_upd_ctx)
  have qs: "queued s1 d = ?l d ?rest" for d by (simp add: s1 queued_def)
  have split: "queued s c = ?rs @ queued s1 c" using app [of c] lc by (simp add: qs)
  have okq: "ctx_ok (c \<in> set (gs_id_list s)) (c \<in> set (gs_destroyed s)) (queued s1 c) ?ce"
  proof -
    have own: "own_pins ?ce = own_pins ce" "own_refs ?ce = own_refs ce"
      by (simp_all add: own_pins_def own_refs_def state_simps ctx_simps)
    have "counts_ok (queued s1 c) ?ce"
      using ok(1) unfolding counts_ok_def own split by auto
    moreover have "flags_ok ?ce" using ok(2) by (simp add: flags_ok_def state_simps ctx_simps)
    moreover have "fences_ok (queued s1 c) ?ce"
      using ok(3) ne unfolding fences_ok_def split by (auto simp: state_simps ctx_simps)
    moreover have "lists_ok (c \<in> set (gs_id_list s)) (c \<in> set (gs_destroyed s)) ?ce"
      using ok(4) by (simp add: lists_ok_def state_simps ctx_simps)
    ultimately show ?thesis by (simp add: ctx_ok_def)
  qed
  have inv1: "sub_inv (s1, f)"
  proof (rule local_inv [OF inv c ctxs, where ms = "[]"])
    have "queued s1 d = queued s d" if "d \<noteq> c" for d using app [of d] ld [OF that] by (simp add: qs)
    then show "frame_lists c s s1"
      using D(3) by (simp add: frame_lists_def queues_ok_def) (simp add: s1)
    show "ctx_ok (c \<in> set (gs_id_list s1)) (c \<in> set (gs_destroyed s1)) (queued s1 c) ?ce"
      using okq by (simp add: s1)
    have "want ?ce = want ce" "expected ?ce = expected ce" by (rule view_cong; simp add: state_simps)+
    then show "chan_ok (want ?ce) (expected ?ce) (hs @ []) st gs"
      if "chan_ok (want ce) (expected ce) hs st gs" for hs st gs
      using that by simp
    show "stall_ok s1" using st by (simp add: stall_ok_def s1)
  qed (simp_all add: s1 frame_def)
  have last: "snd (snd (last mine)) \<in> set ?rs"
    using ne by (auto simp: case_prod_beta' intro!: image_eqI [where x = "last mine"])
  moreover have "set ?rs \<inter> set (ce_completed ce) = {}"
  proof -
    have "distinct (ce_requests ce @ ?rs)" "set (ce_completed ce) \<subseteq> set (ce_requests ce)"
      using ok(1) unfolding counts_ok_def split distinct_append set_append by blast+
    then show ?thesis unfolding distinct_append by blast
  qed
  ultimately have "snd (snd (last mine)) \<in> set (ce_requests ?ce) - set (ce_completed ?ce)" by auto
  with inv1 ctxs st show ?thesis by (intro that [of ?ce]) (simp_all add: s1)
qed

lemma tasklet_inv:
  assumes inv: "sub_inv (s, f)"
  shows "sub_inv (guc_submission_tasklet E s, f)"
proof -
  let ?s = "s\<lparr>gs_tasklet := False\<rparr>"
  have inv0: "sub_inv (?s, f)" by (rule sub_inv_fields(2) [OF inv])
  have "sub_inv (snd (guc_dequeue_one_context E ?s), f)"
  proof (cases "gs_stalled s")
    case (Some x)
    obtain c r where x: "x = (c, r)" by (cases x)
    with inv_ctxD(4) [OF inv0] Some obtain ce where "gs_ctxs ?s c = Some ce"
        "r \<in> set (ce_requests ce) - set (ce_completed ce)" unfolding stall_ok_def by auto
    from dequeue_finish_inv [OF inv0 this] Some x show ?thesis by (simp add: guc_dequeue_one_context_def)
  next
    case None
    then have st: "gs_stalled ?s = None" by simp
    show ?thesis
    proof (cases "gs_queue s")
      case Nil
      have "sub_inv (?s\<lparr>gs_stalled := None, gs_stall_reason := STALL_NONE\<rparr>, f)"
        using sub_inv_fields(4) [OF sub_inv_fields(5) [OF inv0], of STALL_NONE] by simp
      with Nil None show ?thesis by (simp add: guc_dequeue_one_context_def)
    next
      case (Cons y rest)
      obtain p c r where y: "y = (p, c, r)" by (cases y)
      with Cons have q: "gs_queue ?s = (p, c, r) # rest" by simp
      show ?thesis
      proof (rule dequeued_inv [OF inv0 st q])
        fix ce
        let ?mine = "takeWhile (\<lambda>(_, c', _). c' = c) (gs_queue ?s)"
        let ?s1 = "fold (\<lambda>(_, c', r'). i915_request_submit c' r') ?mine
            (?s\<lparr>gs_queue := dropWhile (\<lambda>(_, c', _). c' = c) (gs_queue ?s)\<rparr>)"
        assume *: "sub_inv (?s1, f)" "gs_ctxs ?s1 c = Some ce" "gs_stalled ?s1 = None"
          "snd (snd (last ?mine)) \<in> set (ce_requests ce) - set (ce_completed ce)"
        have e: "guc_dequeue_one_context E ?s = guc_dequeue_finish E False (c, snd (snd (last ?mine))) ?s1"
          unfolding guc_dequeue_one_context_def st q Let_def by simp
        show ?thesis unfolding e by (rule dequeue_finish_inv [OF *(1,2,4)]) (rule disjI1, rule *(3))
      qed
    qed
  qed
  from this sub_inv_fields(2) [OF this, of True] show ?thesis
    by (auto simp: guc_submission_tasklet_def split: prod.split)
qed

section \<open>All reachable states\<close>

lemma step_inv:
  assumes "sub_step c1 c2" "sub_inv c1"
  shows "sub_inv c2"
  using assms
proof (induction rule: sub_step.induct)
  case (step_get s c f)
  then obtain ce where c: "gs_ctxs s c = Some ce" "own_refs ce < ce_kref ce" by (auto simp: held_def)
  with own_refs_nonneg [of ce] get_inv [OF step_get.prems c(1)] show ?case by linarith
next
  case (step_put s c f)
  then obtain ce where c: "gs_ctxs s c = Some ce" "own_refs ce < ce_kref ce" by (auto simp: held_def)
  from put_inv [OF step_put.prems c] show ?case .
next
  case (step_pin s c f moved)
  then obtain ce where c: "gs_ctxs s c = Some ce" "own_refs ce < ce_kref ce" by (auto simp: held_def)
  from pin_inv [OF step_pin.prems c] show ?case .
next
  case (step_unpin s c E f)
  then obtain ce where c: "gs_ctxs s c = Some ce" "own_pins ce < ce_pin_count ce" by (auto simp: pinned_def)
  from unpin_inv [OF step_unpin.prems c(1) step_unpin.hyps(2) c(2)] show ?case .
next
  case (step_close s c E f)
  then obtain ce where c: "gs_ctxs s c = Some ce" by (auto simp: held_def)
  from close_inv [OF step_close.prems c step_close.hyps(2)] show ?case .
next
  case (step_work s c E f)
  then obtain ce where c: "gs_ctxs s c = Some ce" by auto
  from work_inv [OF step_work.prems c step_work.hyps(2)] show ?case .
next
  case (step_request s c E r f)
  then obtain ce where c: "gs_ctxs s c = Some ce" "own_pins ce < ce_pin_count ce" by (auto simp: pinned_def)
  from step_request.hyps(3) have "r \<notin> set (ce_waiting ce) \<union> set (ce_requests ce) \<union> set (queued s c)" using c by simp
  from request_inv [OF step_request.prems c(1) step_request.hyps(2) c(2) this] show ?case .
next
  case (step_submit s c E r f prio)
  then obtain ce where c: "gs_ctxs s c = Some ce" by auto
  from step_submit.hyps(3) have "r \<in> set (ce_waiting ce) - set (ce_fences ce)" using c by simp
  from submit_inv [OF step_submit.prems c this] show ?case .
next
  case (step_tasklet s E f)
  from tasklet_inv [OF step_tasklet.prems] show ?case .
next
  case (step_complete s c r f)
  then obtain ce where c: "gs_ctxs s c = Some ce" by auto
  from step_complete.hyps(3) have "r \<in> set (ce_requests ce) - set (ce_completed ce)" using c by simp
  from complete_inv [OF step_complete.prems c step_complete.hyps(2) this] show ?case .
next
  case (step_retire E s f)
  from gt_retire_inv [OF step_retire.prems step_retire.hyps] show ?case .
next
  case (step_block s c E r f)
  then obtain ce where c: "gs_ctxs s c = Some ce" "own_refs ce < ce_kref ce" by (auto simp: held_def)
  with step_block.hyps have b: "blocked ce < 4095" "r \<in> set (ce_requests ce) \<union> set (queued s c)" by simp_all
  from block_inv [OF step_block.prems c(1) step_block.hyps(2) c(2) b] show ?case .
next
  case (step_unblock s c E f)
  then obtain ce where c: "gs_ctxs s c = Some ce" by auto
  with step_unblock.hyps have b: "context_blocked ce \<noteq> 0" "ce_blocked_done ce" "\<not> W ce" by simp_all
  from unblock_inv [OF step_unblock.prems c step_unblock.hyps(2) b(1,2) step_unblock.hyps(5) b(3)] show ?case .
next
  case (step_revoke s c E f)
  then obtain ce where c: "gs_ctxs s c = Some ce" "own_refs ce < ce_kref ce" by (auto simp: held_def)
  from revoke_inv [OF step_revoke.prems c(1) step_revoke.hyps(2) c(2) step_revoke.hyps(3)] show ?case .
next
  case (step_destroy s E f)
  from destroy_inv [OF step_destroy.prems step_destroy.hyps(2)] show ?case .
next
  case (step_receive s m ms E f)
  from receive_inv(2) [OF step_receive.prems step_receive.hyps] show ?case .
next
  case (step_fw_take s m ms f st)
  from fw_take_inv [OF step_fw_take.prems step_fw_take.hyps] show ?case .
next
  case (step_fw_finish s f i)
  from fw_finish_inv [OF step_fw_finish.prems] show ?case .
qed

definition good_start :: "u32 \<Rightarrow> (nat \<Rightarrow> intel_context option) \<Rightarrow> bool" where
  "good_start n C \<longleftrightarrow> 0 < unat n \<and> unat n \<le> GUC_MAX_CONTEXT_ID \<and> (\<forall>ce \<in> ran C. fresh_context ce)"

text \<open>No id is known to the GuC at the start.\<close>

definition fw_init :: fw where
  "fw_init = (\<lambda>i. FW_Unregistered)"

lemma init_inv:
  assumes "good_start n C"
  shows "sub_inv (sub_init n C, fw_init)"
proof -
  let ?s = "sub_init n C"
  have n: "0 < unat n" "unat n \<le> 65535" and fresh: "\<And>c ce. C c = Some ce \<Longrightarrow> fresh_context ce"
    using assms by (auto simp: good_start_def ran_def)
  have s: "gs_ctxs ?s = C" "gs_lookup ?s = Map.empty" "gs_ids ?s = []" "gs_num_ids ?s = unat n" "gs_in_use ?s = 0"
      "gs_id_list ?s = []" "gs_destroyed ?s = []" "\<not> gs_disabled ?s" "gs_initialized ?s" "gs_queue ?s = []"
      "gs_stalled ?s = None" "gs_h2g ?s = []" "gs_g2h ?s = []" "gs_bitmap ?s = bitmap_zero (number_mlrc_guc_id ?s)"
    using n by (simp_all add: sub_init_def submission_init_ids_def limit_guc_ids_def Let_def
        intel_guc_submission_init_early_def number_mlrc_guc_id_def)
  have inval: "\<not> valid ce" if "C c = Some ce" for c ce
    using fresh [OF that] by (simp add: fresh_context_def valid_def)
  have "number_slrc_guc_id ?s \<noteq> 0"
    using n by (simp add: number_slrc_guc_id_def number_mlrc_guc_id_def MLRC_GUC_ID_RATIO_def s(4) not_le div_less_dividend)
  then have "ids_ok ?s"
    using n inval by (auto simp: ids_ok_def s(1-7))
  moreover have "queues_ok ?s"
    using s by (simp add: queues_ok_def queued_def)
  moreover have "ctx_ok (c \<in> set (gs_id_list ?s)) (c \<in> set (gs_destroyed ?s)) (queued ?s c) ce"
    if "gs_ctxs ?s c = Some ce" for c ce
  proof -
    have f: "fresh_context ce" using fresh that s(1) by simp
    then have "context_blocked ce = 0" by (simp add: context_blocked_def fresh_context_def)
    with f inval [of c ce] that show ?thesis
      by (simp add: s queued_def fresh_context_def ok_defs state_simps idle_listed_def)
  qed
  moreover have "id_ok ?s fw_init i" for i
    by (simp add: id_ok_def s about_def answers_about_def chan_ok_def fw_init_def)
  ultimately show ?thesis by (auto simp: sub_inv_def)
qed

lemma reach_inv:
  assumes "sub_reach (sub_init n C, fw_init) c1" "good_start n C"
  shows "sub_inv c1"
  using assms(1)
  by induction (simp_all add: init_inv [OF assms(2)] step_inv)

text \<open>No step changes the limit on the ids.\<close>

named_theorems limit_simps \<comment> \<open>operations keep the limit on the ids\<close>

lemma limit_ids [limit_simps]:
  "gs_num_ids (h2g_push m s) = gs_num_ids s" "gs_num_ids (intel_context_get c s) = gs_num_ids s"
  "gs_num_ids (set_ctx_id_mapping i c s) = gs_num_ids s" "gs_num_ids (clr_ctx_id_mapping i s) = gs_num_ids s"
  "gs_num_ids (unpin_guc_id c s) = gs_num_ids s" "gs_num_ids (guc_context_free c s) = gs_num_ids s"
  "gs_num_ids (decr_outstanding_submission_g2h s) = gs_num_ids s" "gs_num_ids (disable_submission s) = gs_num_ids s"
  "gs_num_ids (guc_request_fence c r s) = gs_num_ids s" "gs_num_ids (remove_from_context c r s) = gs_num_ids s"
  "gs_num_ids (i915_request_submit c r s) = gs_num_ids s" "gs_num_ids (queue_request prio c r s) = gs_num_ids s"
  "gs_num_ids (guc_cancel_context_requests c s) = gs_num_ids s" "gs_num_ids (guc_signal_context_fence c s) = gs_num_ids s"
  "gs_num_ids (gpu_completes c r s) = gs_num_ids s"
  by (simp_all add: h2g_push_def intel_context_get_def set_ctx_id_mapping_def clr_ctx_id_mapping_def
      unpin_guc_id_def guc_context_free_def decr_outstanding_submission_g2h_def disable_submission_def
      guc_request_fence_def remove_from_context_def i915_request_submit_def queue_request_def
      guc_cancel_context_requests_def guc_signal_context_fence_def gpu_completes_def Let_def)

lemma limit_release [limit_simps]: "gs_num_ids (release_guc_id c s) = gs_num_ids s"
  by (simp add: release_guc_id_def Let_def limit_simps)

lemma limit_children [limit_simps]: "gs_num_ids (number_children i cs s) = gs_num_ids s"
  by (induction i cs s rule: number_children.induct) simp_all

lemma limit_new [limit_simps]: "gs_num_ids (snd (new_guc_id E c s)) = gs_num_ids s"
  by (auto simp: new_guc_id_def new_mlrc_guc_id_def new_slrc_guc_id_def Let_def split: sum.split prod.split)

lemma limit_steal [limit_simps]: "gs_num_ids (snd (steal_guc_id c s)) = gs_num_ids s"
  by (simp add: steal_guc_id_def Let_def split: list.split)

lemma limit_assign [limit_simps]: "gs_num_ids (snd (assign_guc_id E c s)) = gs_num_ids s"
  by (simp add: assign_guc_id_def case_prod_beta' Let_def limit_simps split: sum.split)

lemma limit_send [limit_simps]:
  "gs_num_ids (snd (guc_send_nb E m s)) = gs_num_ids s"
  "gs_num_ids (snd (guc_submission_send_busy_loop E m g2h loop s)) = gs_num_ids s"
  by (auto simp: guc_submission_send_busy_loop_def guc_send_busy_loop_def guc_send_nb_def limit_simps split: sum.split)

lemma limit_put [limit_simps]:
  "gs_num_ids (intel_context_put c s) = gs_num_ids s"
  "gs_num_ids (intel_context_do_unpin k c s) = gs_num_ids s"
  "gs_num_ids (intel_context_sched_disable_unpin c s) = gs_num_ids s"
  by (simp_all add: intel_context_put_def guc_context_destroy_def intel_context_do_unpin_def
      intel_context_sched_disable_unpin_def Let_def limit_simps)

lemma limit_disable [limit_simps]:
  "gs_num_ids (do_sched_disable E c s) = gs_num_ids s" "gs_num_ids (snd (bypass_sched_disable c s)) = gs_num_ids s"
  "gs_num_ids (delay_sched_disable E c s) = gs_num_ids s" "gs_num_ids (guc_context_sched_disable E c s) = gs_num_ids s"
  "gs_num_ids (intel_context_unpin E c s) = gs_num_ids s" "gs_num_ids (sched_disable_work E c s) = gs_num_ids s"
  by (simp_all add: do_sched_disable_def prep_eq guc_context_sched_disable_h2g_def bypass_sched_disable_def Let_def
      delay_sched_disable_def guc_context_sched_disable_def intel_context_unpin_def sched_disable_work_def limit_simps)

lemma limit_close [limit_simps]:
  "gs_num_ids (intel_context_close E c s) = gs_num_ids s" "gs_num_ids (cancel_request_block E c s) = gs_num_ids s"
  "gs_num_ids (cancel_request_unblock E c s) = gs_num_ids s" "gs_num_ids (intel_context_revoke E c s) = gs_num_ids s"
  by (simp_all add: intel_context_close_def guc_context_close_def cancel_request_block_def guc_context_block_def prep_eq
      guc_context_sched_disable_h2g_def guc_context_sched_enable_h2g_def cancel_request_unblock_def guc_context_unblock_def
      intel_context_revoke_def guc_context_revoke_def guc_context_set_preemption_timeout_def Let_def limit_simps)

lemma limit_retire [limit_simps]: "gs_num_ids (intel_gt_retire_requests E s) = gs_num_ids s"
proof -
  have rs: "gs_num_ids (retire_requests E c rs s) = gs_num_ids s" for c rs s
    by (induction rs arbitrary: s) (simp_all add: i915_request_retire_def limit_simps)
  have "gs_num_ids (fold (\<lambda>c s. if gs_ctxs s c = None then s else retire_requests E c (ce_requests (the_ctx s c)) s) tl s)
      = gs_num_ids s" for tl s
    by (induction tl arbitrary: s) (simp_all add: rs)
  then show ?thesis by (simp add: intel_gt_retire_requests_def)
qed

lemma limit_register [limit_simps]:
  "gs_num_ids (snd (guc_context_policy_init_v70 E loop c s)) = gs_num_ids s"
  "gs_num_ids (snd (register_context E loop c s)) = gs_num_ids s"
  "gs_num_ids (snd (try_context_registration E loop c s)) = gs_num_ids s"
proof -
  show pol: "gs_num_ids (snd (guc_context_policy_init_v70 E loop c s)) = gs_num_ids s" for s
    by (simp add: guc_context_policy_init_v70_def case_prod_beta' Let_def limit_simps)
  show reg: "gs_num_ids (snd (register_context E loop c s)) = gs_num_ids s" for s
    by (simp add: register_context_def case_prod_beta' Let_def limit_simps pol)
  show "gs_num_ids (snd (try_context_registration E loop c s)) = gs_num_ids s"
    by (simp add: try_context_registration_def deregister_context_def case_prod_beta' Let_def limit_simps reg)
qed

lemma limit_pin [limit_simps]: "gs_num_ids (snd (pin_guc_id_tries E n c s)) = gs_num_ids s"
proof (induction n arbitrary: s)
  case 0
  then show ?case
    by (subst pin_guc_id_tries.simps) (simp add: case_prod_beta' Let_def limit_simps split: sum.split)
next
  case (Suc n)
  show ?case
    using Suc.IH unfolding pin_guc_id_tries.simps [of E "Suc n" c s]
    by (cases n) (simp_all add: case_prod_beta' Let_def limit_simps split: sum.split)
qed

lemma limit_request [limit_simps]: "gs_num_ids (snd (i915_request_create E c r s)) = gs_num_ids s"
proof -
  have alloc: "gs_num_ids (snd (guc_request_alloc E c r s)) = gs_num_ids s" for s
    by (simp add: guc_request_alloc_def pin_guc_id_def case_prod_beta' Let_def limit_simps split: sum.split)
  show ?thesis
    by (simp add: i915_request_create_def case_prod_beta' Let_def limit_simps alloc split: sum.split)
qed

lemma limit_add [limit_simps]: "gs_num_ids (snd (guc_add_request E c r s)) = gs_num_ids s"
  by (simp add: guc_add_request_def case_prod_beta' Let_def limit_simps split: sum.split)

lemma limit_submit [limit_simps]:
  "gs_num_ids (guc_submit_request E prio c r s) = gs_num_ids s" "gs_num_ids (guc_submission_tasklet E s) = gs_num_ids s"
proof -
  show "gs_num_ids (guc_submit_request E prio c r s) = gs_num_ids s"
    by (simp add: guc_submit_request_def guc_bypass_tasklet_submit_def case_prod_beta' Let_def limit_simps)
  have fin: "gs_num_ids (snd (guc_dequeue_finish E b cr s)) = gs_num_ids s" for b cr s
    by (simp add: guc_dequeue_finish_def case_prod_beta' Let_def limit_simps)
  have sub: "gs_num_ids (fold (\<lambda>(_, c', r'). i915_request_submit c' r') xs s) = gs_num_ids s" for xs s
    by (induction xs arbitrary: s) (simp_all add: case_prod_beta' limit_simps)
  show "gs_num_ids (guc_submission_tasklet E s) = gs_num_ids s"
    by (simp add: guc_submission_tasklet_def guc_dequeue_one_context_def case_prod_beta' Let_def fin sub [unfolded case_prod_beta']
        limit_simps split: option.split list.split)
qed

lemma limit_destroy [limit_simps]: "gs_num_ids (destroyed_worker_func E s) = gs_num_ids s"
proof -
  have "gs_num_ids (deregister_destroyed_loop E cs s) = gs_num_ids s" for cs s
    by (induction cs arbitrary: s) (simp_all add: guc_lrc_desc_unpin_def deregister_context_def Let_def limit_simps)
  then show ?thesis by (simp add: destroyed_worker_func_def)
qed

lemma limit_receive [limit_simps]: "gs_num_ids (snd (process_g2h E m s)) = gs_num_ids s"
  by (simp add: process_g2h_def intel_guc_deregister_done_process_msg_def intel_guc_sched_done_process_msg_def
      Let_def limit_simps split: g2h_action.split option.split)

lemma limit_kept: "sub_step c1 c2 \<Longrightarrow> gs_num_ids (fst c2) = gs_num_ids (fst c1)"
  by (induction rule: sub_step.induct) (simp_all add: limit_simps intel_context_pin_def Let_def)

lemma limit_reach:
  assumes "sub_reach (sub_init n C, fw_init) c1" "good_start n C"
  shows "gs_num_ids (fst c1) = unat n"
  using assms(1)
proof induction
  case sub_reach_refl
  then show ?case
    using assms(2) by (simp add: good_start_def sub_init_def submission_init_ids_def limit_guc_ids_def Let_def
        intel_guc_submission_init_early_def)
qed (simp add: limit_kept)

end
