(* ===== verification/Guc_Protocol_Props.thy ===== *)
theory Guc_Protocol_Props
  imports Guc_Protocol_Submit "HOL-Library.Code_Target_Nat"
begin

text \<open>
  The properties of submission through the GuC: the protocol is respected, every wait ends when the
  GuC answers, and ids are never shared, nor taken from contexts that are in use.
\<close>

section \<open>Answers end\<close>

text \<open>The steps in which the GuC works off its messages and the driver handles the answers.\<close>

inductive answer_step :: "guc_submission \<times> fw \<Rightarrow> guc_submission \<times> fw \<Rightarrow> bool" where
  answer_receive: "gs_g2h s = m # ms \<Longrightarrow> ct_up E \<Longrightarrow>
    answer_step (s, f) (snd (process_g2h E m (s\<lparr>gs_g2h := ms\<rparr>)), f)"
| answer_take: "gs_h2g s = m # ms \<Longrightarrow> fw_accept m (f (h2g_id m)) = Some st \<Longrightarrow>
    answer_step (s, f) (s\<lparr>gs_h2g := ms, gs_g2h := gs_g2h s @ h2g_answer_now m\<rparr>, f(h2g_id m := st))"
| answer_finish: "fw_owes (f i) \<noteq> [] \<Longrightarrow>
    answer_step (s, f) (s\<lparr>gs_g2h := gs_g2h s @ fw_answer i (f i)\<rparr>, f(i := fw_settle (f i)))"

definition waits_for_guc :: "guc_submission \<Rightarrow> bool" where
  "waits_for_guc s \<longleftrightarrow>
     (\<exists>c ce. gs_ctxs s c = Some ce \<and>
        (context_wait_for_deregister_to_register ce \<or> context_pending_enable ce \<or> context_pending_disable ce
         \<or> context_destroyed ce \<or> ce_fences ce \<noteq> [] \<or> \<not> ce_blocked_done ce))"

text \<open>Each message weighs more than what it leads to.\<close>

fun h2g_weight :: "h2g_action \<Rightarrow> nat" where
  "h2g_weight (DEREGISTER_CONTEXT i) = 5"
| "h2g_weight (SCHED_CONTEXT_MODE_SET i b) = 3"
| "h2g_weight _ = 1"

fun g2h_weight :: "g2h_action \<Rightarrow> nat" where
  "g2h_weight (DEREGISTER_CONTEXT_DONE msg) = 3"
| "g2h_weight (SCHED_CONTEXT_MODE_DONE msg) = 1"

fun fw_weight :: "fw_status \<Rightarrow> nat" where
  "fw_weight FW_Deregistering = 4"
| "fw_weight FW_Disabling = 2"
| "fw_weight _ = 0"

definition answer_weight :: "guc_submission \<times> fw \<Rightarrow> nat" where
  "answer_weight = (\<lambda>(s, f). sum_list (map h2g_weight (gs_h2g s)) + sum_list (map g2h_weight (gs_g2h s))
     + (\<Sum>i \<in> UNIV. fw_weight (f i)))"

lemma weight_upd: "(\<Sum>i \<in> UNIV. fw_weight ((f(k := st)) i)) + fw_weight (f k) = (\<Sum>i \<in> UNIV. fw_weight (f i)) + fw_weight st"
  for f :: fw
proof -
  have "(\<Sum>i \<in> UNIV. fw_weight ((f(k := st)) i)) = fw_weight st + (\<Sum>i \<in> UNIV - {k}. fw_weight ((f(k := st)) i))"
    by (simp add: sum.remove [of UNIV k])
  also have "(\<Sum>i \<in> UNIV - {k}. fw_weight ((f(k := st)) i)) = (\<Sum>i \<in> UNIV - {k}. fw_weight (f i))"
    by (rule sum.cong) auto
  finally show ?thesis by (simp add: sum.remove [of UNIV k "\<lambda>i. fw_weight (f i)"])
qed

lemma queues_kept:
  "gs_h2g (release_guc_id c s) = gs_h2g s" "gs_g2h (release_guc_id c s) = gs_g2h s"
  "gs_h2g (guc_context_free c s) = gs_h2g s" "gs_g2h (guc_context_free c s) = gs_g2h s"
  "gs_h2g (intel_context_put c s) = gs_h2g s" "gs_g2h (intel_context_put c s) = gs_g2h s"
  "gs_h2g (intel_context_do_unpin k c s) = gs_h2g s" "gs_g2h (intel_context_do_unpin k c s) = gs_g2h s"
  "gs_h2g (decr_outstanding_submission_g2h s) = gs_h2g s" "gs_g2h (decr_outstanding_submission_g2h s) = gs_g2h s"
proof -
  show rel: "gs_h2g (release_guc_id c s) = gs_h2g s" "gs_g2h (release_guc_id c s) = gs_g2h s" for s
    by (simp_all add: release_guc_id_def clr_ctx_id_mapping_def Let_def)
  show free: "gs_h2g (guc_context_free c s) = gs_h2g s" "gs_g2h (guc_context_free c s) = gs_g2h s" for s
    by (simp_all add: guc_context_free_def)
  show put: "gs_h2g (intel_context_put c s) = gs_h2g s" "gs_g2h (intel_context_put c s) = gs_g2h s" for s
    by (simp_all add: intel_context_put_def guc_context_destroy_def Let_def rel free)
  have "gs_h2g (unpin_guc_id c s) = gs_h2g s" "gs_g2h (unpin_guc_id c s) = gs_g2h s" for s
    by (simp_all add: unpin_guc_id_def Let_def)
  then show "gs_h2g (intel_context_do_unpin k c s) = gs_h2g s" "gs_g2h (intel_context_do_unpin k c s) = gs_g2h s"
    by (simp_all add: intel_context_do_unpin_def Let_def put)
  show "gs_h2g (decr_outstanding_submission_g2h s) = gs_h2g s" "gs_g2h (decr_outstanding_submission_g2h s) = gs_g2h s"
    by (simp_all add: decr_outstanding_submission_g2h_def)
qed

lemma receive_weight:
  assumes up: "ct_up E"
  shows "gs_g2h (snd (process_g2h E m s)) = gs_g2h s"
    "sum_list (map h2g_weight (gs_h2g (snd (process_g2h E m s)))) < sum_list (map h2g_weight (gs_h2g s)) + g2h_weight m"
proof -
  have reg: "gs_g2h (snd (register_context E True c s)) = gs_g2h s"
      "\<exists>ps. gs_h2g (snd (register_context E True c s)) = gs_h2g s @ ps \<and> sum_list (map h2g_weight ps) \<le> 2" for c s
    using up by (simp_all add: register_context_def guc_context_policy_init_v70_def h2g_push_def Let_def)
  have sig: "gs_g2h (guc_signal_context_fence c s) = gs_g2h s" "gs_h2g (guc_signal_context_fence c s) = gs_h2g s" for c s
    by (simp_all add: guc_signal_context_fence_def)
  have can: "gs_g2h (guc_cancel_context_requests c s) = gs_g2h s" "gs_h2g (guc_cancel_context_requests c s) = gs_h2g s" for c s
    by (simp_all add: guc_cancel_context_requests_def)
  note defs = process_g2h_def intel_guc_deregister_done_process_msg_def intel_guc_sched_done_process_msg_def
    intel_context_sched_disable_unpin_def Let_def
  show "gs_g2h (snd (process_g2h E m s)) = gs_g2h s"
    by (simp add: defs queues_kept sig reg(1) can split: g2h_action.split option.split)
  have "sum_list (map h2g_weight (gs_h2g (snd (register_context E True c s)))) \<le> sum_list (map h2g_weight (gs_h2g s)) + 2" for c s
    using reg(2) [of c s] by auto
  then have "sum_list (map h2g_weight (gs_h2g (snd (register_context E True c s)))) < sum_list (map h2g_weight (gs_h2g s)) + 3" for c s
    by (metis add_Suc_right le_imp_less_Suc numeral_3_eq_3 numeral_2_eq_2)
  then show "sum_list (map h2g_weight (gs_h2g (snd (process_g2h E m s)))) < sum_list (map h2g_weight (gs_h2g s)) + g2h_weight m"
    by (simp add: defs queues_kept sig can split: g2h_action.split option.split)
qed

lemma answer_step_weight: "answer_step c1 c2 \<Longrightarrow> answer_weight c2 < answer_weight c1"
proof (induction rule: answer_step.induct)
  case (answer_receive s m ms E f)
  from receive_weight [OF answer_receive(2), of m "s\<lparr>gs_g2h := ms\<rparr>"] answer_receive(1) show ?case
    by (simp add: answer_weight_def)
next
  case (answer_take s m ms f st)
  have "sum_list (map g2h_weight (h2g_answer_now m)) + fw_weight st < h2g_weight m + fw_weight (f (h2g_id m))"
    using answer_take(2) by (cases m; cases "f (h2g_id m)") (auto split: if_splits)
  with weight_upd [of f "h2g_id m" st] answer_take(1) show ?case
    by (simp add: answer_weight_def del: fun_upd_apply)
next
  case (answer_finish f i s)
  have "sum_list (map g2h_weight (fw_answer i (f i))) + fw_weight (fw_settle (f i)) < fw_weight (f i)"
    using answer_finish by (cases "f i") simp_all
  with weight_upd [of f i "fw_settle (f i)"] show ?case
    by (simp add: answer_weight_def del: fun_upd_apply)
qed

lemma answer_steps_weight: "(answer_step ^^ j) c1 c2 \<Longrightarrow> j + answer_weight c2 \<le> answer_weight c1"
proof (induction j arbitrary: c2)
  case (Suc j)
  then obtain c where "(answer_step ^^ j) c1 c" "answer_step c c2" by auto
  with Suc.IH [of c] answer_step_weight [of c c2] show ?case by simp
qed simp

lemma answer_sub_step: "answer_step c1 c2 \<Longrightarrow> sub_step c1 c2"
  by (induction rule: answer_step.induct) (auto intro: step_receive step_fw_take step_fw_finish)

lemma answer_steps_reach:
  assumes "answer_step\<^sup>*\<^sup>* c1 c2" "sub_reach c0 c1"
  shows "sub_reach c0 c2"
  using assms by (induction rule: rtranclp_induct) (auto intro: sub_reach_step answer_sub_step)

lemma head_accepted:
  assumes inv: "sub_inv (s, f)" and hs: "gs_h2g s = m # ms"
  obtains st where "fw_accept m (f (h2g_id m)) = Some st"
proof -
  obtain w e where "id_view s (h2g_id m) = (w, e)" by fastforce
  with inv_ctxD(5) [OF inv, of "h2g_id m"] hs
  have "chan_ok w e (m # about (h2g_id m) ms) (f (h2g_id m)) (answers_about (h2g_id m) (gs_g2h s))"
    by (simp add: id_ok_view about_Cons)
  from chan_ok_take [OF this] that show ?thesis by blast
qed

text \<open>When the GuC owes nothing and no message is under way, nobody waits.\<close>

lemma settled_quiet:
  assumes inv: "sub_inv (s, f)" and hs: "gs_h2g s = []" and gs: "gs_g2h s = []" and fw: "\<And>i. fw_owes (f i) = []"
  shows "\<not> waits_for_guc s"
proof
  assume "waits_for_guc s"
  then obtain c ce where c: "gs_ctxs s c = Some ce" and
      w: "W ce \<or> PE ce \<or> PD ce \<or> DE ce \<or> ce_fences ce \<noteq> [] \<or> \<not> ce_blocked_done ce"
    unfolding waits_for_guc_def by blast
  note ok = ctx_okD [OF inv_ctxD(1) [OF inv c]]
  from w ok(2,3) have w: "W ce \<or> PE ce \<or> PD ce \<or> DE ce" by (auto simp: flags_ok_def fences_ok_def)
  with ok(2) have v: "valid ce" by (auto simp: flags_ok_def)
  from ids_validD [OF inv_ctxD(2) [OF inv] c v] inv_ctxD(5) [OF inv, of "ctx_key ce"] c
  have "chan_ok (want ce) (expected ce) [] (f (ctx_key ce)) []"
    by (simp add: id_ok_def hs gs about_def answers_about_def)
  then have "expected ce = []" using fw by (simp add: chan_ok_def)
  with w show False by (auto simp: expected_def split: if_splits)
qed

lemma stuck_quiet:
  assumes inv: "sub_inv (s, f)" and stuck: "\<And>c. \<not> answer_step (s, f) c"
  shows "\<not> waits_for_guc s"
proof (rule settled_quiet [OF inv])
  show "gs_h2g s = []"
  proof (cases "gs_h2g s")
    case (Cons m ms)
    from head_accepted [OF inv Cons] answer_take [OF Cons, of f] stuck show ?thesis by blast
  qed simp
  let ?E = "\<lparr>ge_ida_memory = True, ge_h2g_room = \<lambda>_. True, ge_timelines = [], ge_wait = \<lambda>_. Inr (), ge_v70 = True\<rparr>"
  have up: "ct_up ?E" by (simp add: ct_up_def)
  show "gs_g2h s = []"
  proof (cases "gs_g2h s")
    case (Cons m ms)
    from answer_receive [OF Cons up, of f] stuck show ?thesis by blast
  qed simp
  show "fw_owes (f i) = []" for i using answer_finish [of f i s] stuck by blast
qed

text \<open>When no id is found, none is left and nobody has one to spare.\<close>

lemma pin_fails:
  assumes inv: "sub_inv (s, f)" and c: "gs_ctxs s c = Some ce" and ref: "ce_ref ce = 0" and up: "ct_up E"
    and res: "pin_guc_id_tries E n c s = (Inl e, s')"
  shows "sub_inv (s', f) \<and> gs_ctxs s' c = Some ce \<and> assign_guc_id (guc_env.truncate E) c s' = (Inl e, s')"
proof -
  have nv: "\<not> valid ce" using pin_tries_eq(1) [OF c, of E n] res by auto
  show ?thesis
    using inv c res
  proof (induction n arbitrary: s)
    case 0
    note D = inv_ctxD [OF 0(1)]
    have sg: "ce_children ce = []" "number_slrc_guc_id s \<noteq> 0"
      using ctx_okD(2) [OF D(1) [OF 0(2)]] D(2) by (simp_all add: flags_ok_def ids_ok_def)
    show ?case
    proof (rule assign_cases [OF 0(2) sg, of "guc_env.truncate E"])
      fix x assume a: "assign_guc_id (guc_env.truncate E) c s = (Inl x, s)"
      with pin_tries_eq(3) [OF 0(2) nv a, of 0] 0 show ?case by simp
    qed (use pin_tries_eq(2) [OF 0(2) nv, of E _ 0] 0 in auto)
  next
    case (Suc n)
    note D = inv_ctxD [OF Suc.prems(1)]
    note ok = ctx_okD [OF D(1) [OF Suc.prems(2)]]
    have sg: "ce_children ce = []" "number_slrc_guc_id s \<noteq> 0"
      using ok(2) D(2) by (simp_all add: flags_ok_def ids_ok_def)
    show ?case
    proof (rule assign_cases [OF Suc.prems(2) sg, of "guc_env.truncate E"])
      fix x assume a: "assign_guc_id (guc_env.truncate E) c s = (Inl x, s)"
      note eq = pin_tries_eq(3) [OF Suc.prems(2) nv a, of "Suc n"]
      note idle = gt_retire_idle [OF Suc.prems(2) counts_idle(2) [OF ok(1) ref], of E]
      note IH = Suc.IH [OF gt_retire_inv [OF Suc.prems(1) up] idle]
      show ?case
      proof (cases "n \<noteq> 0 \<and> x = EAGAIN")
        case True
        then have "pin_guc_id_tries E n c (intel_gt_retire_requests E s) = (Inl e, s')"
          using eq Suc.prems(3) by (cases n) simp_all
        from IH [OF this] show ?thesis .
      next
        case False
        then have "e = x" "s' = s" using eq Suc.prems(3) by (cases n; auto)+
        with a Suc.prems show ?thesis by simp
      qed
    qed (use pin_tries_eq(2) [OF Suc.prems(2) nv, of E _ "Suc n"] Suc.prems in auto)
  qed
qed

lemma assign_fails:
  assumes c: "gs_ctxs s c = Some ce" and single: "ce_children ce = []" and n: "number_slrc_guc_id s \<noteq> 0"
    and mem: "ge_ida_memory E" and a: "assign_guc_id E c s = (Inl e, s')"
  shows "e = EAGAIN" "{..<number_slrc_guc_id s} \<subseteq> set (gs_ids s)" "gs_id_list s = []"
proof -
  have par: "\<not> intel_context_is_parent (the_ctx s c)" using c single by (simp add: intel_context_is_parent_def)
  obtain x where x: "ida_simple_get E (gs_ids s) (number_slrc_guc_id s) = Inl x"
    using a par single c
    by (cases "ida_simple_get E (gs_ids s) (number_slrc_guc_id s)")
      (auto simp: assign_guc_id_def new_guc_id_def new_slrc_guc_id_def Let_def)
  then have "find (\<lambda>i. i \<notin> set (gs_ids s)) [0..<number_slrc_guc_id s] = None"
    using n mem by (auto simp: ida_simple_get_def split: if_splits option.splits)
  then show "{..<number_slrc_guc_id s} \<subseteq> set (gs_ids s)" by (auto simp: find_None_iff)
  from x a par have "steal_guc_id c s = (Inl e, s')"
    by (simp add: assign_guc_id_def new_guc_id_def new_slrc_guc_id_def Let_def)
  then show "e = EAGAIN" "gs_id_list s = []"
    by (auto simp: steal_guc_id_def Let_def split: list.splits)
qed

section \<open>Properties\<close>

text \<open>Two contexts of a driver with \<open>n\<close> ids: the first has a request, the second is pinned and
  may have one, too.\<close>

definition demo_context :: intel_context where
  "demo_context = \<lparr>ce_guc_id = GUC_INVALID_CONTEXT_ID, ce_ref = 0, ce_pin_count = 0, ce_kref = 1, ce_state = 0,
     ce_waiting = [], ce_fences = [], ce_requests = [], ce_completed = [], ce_blocked_done = True, ce_work = False,
     ce_init = False, ce_dirty = False, ce_closed = False, ce_exiting = False, ce_children = [], ce_parent = None\<rparr>"

definition demo_contexts :: "nat \<Rightarrow> intel_context option" where
  "demo_contexts = [0 \<mapsto> demo_context, 1 \<mapsto> demo_context]"

definition demo_sub_env :: guc_sub_env where
  "demo_sub_env = \<lparr>ge_ida_memory = True, ge_h2g_room = \<lambda>_. True, ge_timelines = [],
     ge_wait = \<lambda>_. Inr (), ge_v70 = True\<rparr>"

definition demo_one :: "u32 \<Rightarrow> guc_submission" where
  "demo_one n = snd (i915_request_create demo_sub_env 0 7 (snd (intel_context_pin False 0 (sub_init n demo_contexts))))"

definition demo_two :: "u32 \<Rightarrow> guc_submission" where
  "demo_two n = snd (intel_context_pin False 1 (demo_one n))"

definition demo_sent :: "u32 \<Rightarrow> guc_submission" where
  "demo_sent n = guc_submit_request demo_sub_env 0 0 7 (demo_one n)"

lemma ctx_the: "gs_ctxs s c \<noteq> None \<Longrightarrow> gs_ctxs s c = Some (the_ctx s c)"
  by (auto simp: the_ctx_def)

lemma demo_start: "n = 1 \<or> n = 2 \<Longrightarrow> good_start n demo_contexts"
  by (auto simp: good_start_def demo_contexts_def demo_context_def fresh_context_def ran_def
      context_guc_id_invalid_def)

lemma demo_up: "ct_up demo_sub_env"
  by (simp add: ct_up_def demo_sub_env_def)

lemma demo_one_reach:
  assumes "n = 1 \<or> n = 2"
  shows "sub_reach (sub_init n demo_contexts, fw_init) (demo_one n, fw_init)"
proof -
  let ?s0 = "sub_init n demo_contexts"
  let ?s1 = "snd (intel_context_pin False 0 ?s0)"
  have "held (sub_init 1 demo_contexts) 0" "held (sub_init 2 demo_contexts) 0" by code_simp+
  then have "held ?s0 0" using assms by auto
  from sub_reach_step [OF sub_reach_refl step_pin [OF this]]
  have r1: "sub_reach (?s0, fw_init) (?s1, fw_init)" .
  have "pinned (snd (intel_context_pin False 0 (sub_init 1 demo_contexts))) 0
      \<and> 7 \<notin> set (ce_waiting (the_ctx (snd (intel_context_pin False 0 (sub_init 1 demo_contexts))) 0))
        \<union> set (ce_requests (the_ctx (snd (intel_context_pin False 0 (sub_init 1 demo_contexts))) 0))
        \<union> set (queued (snd (intel_context_pin False 0 (sub_init 1 demo_contexts))) 0)"
      "pinned (snd (intel_context_pin False 0 (sub_init 2 demo_contexts))) 0
      \<and> 7 \<notin> set (ce_waiting (the_ctx (snd (intel_context_pin False 0 (sub_init 2 demo_contexts))) 0))
        \<union> set (ce_requests (the_ctx (snd (intel_context_pin False 0 (sub_init 2 demo_contexts))) 0))
        \<union> set (queued (snd (intel_context_pin False 0 (sub_init 2 demo_contexts))) 0)"
    by code_simp+
  then have p: "pinned ?s1 0" "7 \<notin> set (ce_waiting (the_ctx ?s1 0)) \<union> set (ce_requests (the_ctx ?s1 0)) \<union> set (queued ?s1 0)"
    using assms by auto
  from sub_reach_step [OF r1 step_request [OF p(1) demo_up p(2)]] show ?thesis
    by (simp add: demo_one_def)
qed

lemma demo_two_reach:
  assumes "n = 1 \<or> n = 2"
  shows "sub_reach (sub_init n demo_contexts, fw_init) (demo_two n, fw_init)"
proof -
  have "held (demo_one 1) 1" "held (demo_one 2) 1" by code_simp+
  then have "held (demo_one n) 1" using assms by auto
  from sub_reach_step [OF demo_one_reach [OF assms] step_pin [OF this]] show ?thesis by (simp add: demo_two_def)
qed

lemma demo_sent_reach: "sub_reach (sub_init 1 demo_contexts, fw_init) (demo_sent 1, fw_init)"
proof -
  have p: "gs_ctxs (demo_one 1) 0 \<noteq> None" "7 \<in> set (ce_waiting (the_ctx (demo_one 1) 0)) - set (ce_fences (the_ctx (demo_one 1) 0))"
    by code_simp+
  have "(1 :: u32) = 1 \<or> (1 :: u32) = 2" by simp
  from sub_reach_step [OF demo_one_reach [OF this] step_submit [OF p(1) demo_up p(2)]] show ?thesis
    by (simp add: demo_sent_def)
qed

lemma demo_exhausted: "pin_guc_id demo_sub_env 1 (demo_one 1) = (Inl EAGAIN, demo_one 1)"
proof -
  let ?s = "demo_one 1"
  let ?E = "guc_env.truncate demo_sub_env"
  have e: "gs_ctxs ?s 1 \<noteq> None" "ce_children (the_ctx ?s 1) = []" "number_slrc_guc_id ?s \<noteq> 0"
      "context_guc_id_invalid (the_ctx ?s 1)" "fst (assign_guc_id ?E 1 ?s) = Inl EAGAIN"
    by code_simp+
  have a: "assign_guc_id ?E 1 ?s = (Inl EAGAIN, ?s)"
  proof (rule assign_cases [OF ctx_the [OF e(1)] e(2,3), of ?E])
    fix x assume "assign_guc_id ?E 1 ?s = (Inl x, ?s)"
    with e(5) show ?thesis by (metis fst_conv)
  next
    fix i assume "assign_guc_id ?E 1 ?s = (Inr (), fresh_id 1 i ?s)"
    with e(5) show ?thesis by (metis fst_conv sum.distinct(1))
  next
    fix d assume "assign_guc_id ?E 1 ?s = (Inr (), stolen_id 1 d ?s)"
    with e(5) show ?thesis by (metis fst_conv sum.distinct(1))
  qed
  have nv: "\<not> valid (the_ctx ?s 1)" using e(4) by (simp add: valid_def)
  have ret: "intel_gt_retire_requests demo_sub_env s = s" for s
    by (simp add: intel_gt_retire_requests_def demo_sub_env_def)
  note eq = pin_tries_eq(3) [OF ctx_the [OF e(1)] nv a]
  have "pin_guc_id_tries demo_sub_env (Suc n) 1 ?s = (Inl EAGAIN, ?s)" for n
    by (induction n) (subst eq, simp add: ret)+
  from this [of 3] show ?thesis by (simp add: pin_guc_id_def PIN_GUC_ID_TRIES_def)
qed

text \<open>
  Property C12. In every state that the steps of \<open>sub_step\<close> reach, the next message to the GuC is one
  that it accepts in its status, and the next answer is one that the driver expects and handles
  without a protocol error. The steps create and submit requests and pin, block, unblock, revoke,
  close and destroy single contexts in any order, with a limit on ids that does not change; but the
  communication with the GuC stays up and no send is interrupted by a signal (\<open>ct_up\<close>), no context
  is unblocked while it waits for the deregistration of a stolen id or while its id may be stolen,
  no context is revoked whose request is the stalled one, and each function of the driver is one
  step, also where it takes a lock more than once. Outside these conditions the code can send what
  the GuC refuses.
\<close>

theorem guc_protocol_respected:
  assumes "sub_reach (sub_init n C, fw_init) (s, f)" "good_start n C"
  shows "(\<forall>m ms. gs_h2g s = m # ms \<longrightarrow> fw_accept m (f (h2g_id m)) \<noteq> None)
    \<and> (\<forall>m ms E. gs_g2h s = m # ms \<and> ct_up E \<longrightarrow> fst (process_g2h E m (s\<lparr>gs_g2h := ms\<rparr>)) = Inr ())"
proof -
  note inv = reach_inv [OF assms]
  show ?thesis using head_accepted [OF inv] receive_inv(1) [OF inv] by (metis option.distinct(1))
qed

theorem guc_protocol_respected_witness:
  "gs_h2g (demo_sent 1) = [REGISTER_CONTEXT 0, UPDATE_CONTEXT_POLICIES 0, SCHED_CONTEXT_MODE_SET 0 True]
   \<and> fw_accept (REGISTER_CONTEXT 0) (fw_init 0) \<noteq> None"
proof -
  have h: "gs_h2g (demo_sent 1) = [REGISTER_CONTEXT 0, UPDATE_CONTEXT_POLICIES 0, SCHED_CONTEXT_MODE_SET 0 True]"
    by code_simp
  have "good_start 1 demo_contexts" by (rule demo_start) simp
  from guc_protocol_respected [OF demo_sent_reach this] h show ?thesis by simp
qed

text \<open>
  Property C13. Waiting for the GuC ends: from every state that the steps of \<open>sub_step\<close> reach (under
  the conditions named for the previous property: the communication stays up and no send is
  interrupted by a signal, no unblocking of a context that waits for a deregistration or whose id
  may be stolen, no revoking of the stalled request, single contexts, functions of the driver as
  single steps), however the GuC and the driver take turns, only so many steps remain in which
  messages are worked off and answers handled, and after them no context waits for an enabling, a
  disabling or a deregistration, no destroyed context is left and no request is held back by its
  fence. An interrupted send whose error the driver ignores would leave a context waiting for ever.
\<close>

theorem guc_waits_end:
  assumes "sub_reach (sub_init n C, fw_init) (s, f)" "good_start n C"
  shows "(\<exists>k. \<forall>j c. (answer_step ^^ j) (s, f) c \<longrightarrow> j \<le> k)
    \<and> (\<forall>s' f'. answer_step\<^sup>*\<^sup>* (s, f) (s', f') \<and> (\<forall>c. \<not> answer_step (s', f') c) \<longrightarrow> \<not> waits_for_guc s')"
proof (intro conjI allI impI exI)
  show "j \<le> answer_weight (s, f)" if "(answer_step ^^ j) (s, f) c" for j c
    using answer_steps_weight [OF that] by simp
  show "\<not> waits_for_guc s'" if "answer_step\<^sup>*\<^sup>* (s, f) (s', f') \<and> (\<forall>c. \<not> answer_step (s', f') c)" for s' f'
    using stuck_quiet [OF reach_inv [OF answer_steps_reach [OF _ assms(1)] assms(2)]] that by blast
qed

theorem guc_waits_end_witness:
  "context_pending_enable (the_ctx (demo_sent 1) 0)
   \<and> (\<exists>k. \<forall>j c. (answer_step ^^ j) (demo_sent 1, fw_init) c \<longrightarrow> j \<le> k)"
proof -
  have "context_pending_enable (the_ctx (demo_sent 1) 0)" by code_simp
  moreover have "good_start 1 demo_contexts" by (rule demo_start) simp
  from guc_waits_end [OF demo_sent_reach this]
  have "\<exists>k. \<forall>j c. (answer_step ^^ j) (demo_sent 1, fw_init) c \<longrightarrow> j \<le> k" by blast
  ultimately show ?thesis by blast
qed

text \<open>
  Property C14. Ids are private and within the limit of the function: at every time different contexts
  have different ids, all of them below the part of the limit that single contexts may use, whether
  they were allocated or stolen.
\<close>

theorem guc_ids_isolated:
  assumes "sub_reach (sub_init n C, fw_init) (s, f)" "good_start n C"
    and "gs_ctxs s c = Some ce" "\<not> context_guc_id_invalid ce"
  shows "unat (ce_guc_id ce) < unat n - unat n div 16
    \<and> (\<forall>d de. gs_ctxs s d = Some de \<and> d \<noteq> c \<longrightarrow> ce_guc_id de \<noteq> ce_guc_id ce)"
proof -
  have ids: "ids_ok s" using reach_inv [OF assms(1,2)] by (simp add: sub_inv_def)
  have "gs_lookup s (ctx_key ce) = Some c" by (rule ids_validD [OF ids assms(3)]) (simp add: valid_def assms(4))
  then have l: "gs_lookup s (ctx_key ce) = Some c" "unat (ctx_key ce) \<in> set (gs_ids s)"
    using ids unfolding ids_ok_def by blast+
  have "set (gs_ids s) \<subseteq> {..<unat n - unat n div 16}"
    using ids limit_reach [OF assms(1,2)]
    by (simp add: ids_ok_def number_slrc_guc_id_def number_mlrc_guc_id_def MLRC_GUC_ID_RATIO_def)
  then have "unat (ce_guc_id ce) < unat n - unat n div 16" using l(2) unat_ctx_key [of ce] by auto
  moreover have "ce_guc_id de \<noteq> ce_guc_id ce" if "gs_ctxs s d = Some de" "d \<noteq> c" for d de
  proof
    assume e: "ce_guc_id de = ce_guc_id ce"
    then have "valid de" "ctx_key de = ctx_key ce"
      using assms(4) by (simp_all add: valid_def context_guc_id_invalid_def ctx_key_def)
    with ids_validD [OF ids that(1)] l(1) that(2) show False by simp
  qed
  ultimately show ?thesis by blast
qed

theorem guc_ids_isolated_witness:
  "unat (ce_guc_id (the_ctx (demo_two 2) 0)) < 2 \<and> ce_guc_id (the_ctx (demo_two 2) 1) \<noteq> ce_guc_id (the_ctx (demo_two 2) 0)"
proof -
  have e: "gs_ctxs (demo_two 2) 0 \<noteq> None" "gs_ctxs (demo_two 2) 1 \<noteq> None"
      "\<not> context_guc_id_invalid (the_ctx (demo_two 2) 0)"
    by code_simp+
  have r: "sub_reach (sub_init 2 demo_contexts, fw_init) (demo_two 2, fw_init)" by (rule demo_two_reach) simp
  have "good_start 2 demo_contexts" by (rule demo_start) simp
  note g = guc_ids_isolated [OF r this ctx_the [OF e(1)] e(3)]
  have "unat (ce_guc_id (the_ctx (demo_two 2) 0)) < 2" using g [THEN conjunct1] by simp
  moreover have "ce_guc_id (the_ctx (demo_two 2) 1) \<noteq> ce_guc_id (the_ctx (demo_two 2) 0)"
    using g [THEN conjunct2] ctx_the [OF e(2)] by (metis zero_neq_one)
  ultimately show ?thesis by blast
qed

text \<open>
  Property C15. A context with a request keeps its id: from the creation of the request to its
  retirement the context is pinned, its id leads to it, and it is neither in the list of ids to steal
  nor destroyed.
\<close>

theorem busy_context_keeps_id:
  assumes "sub_reach (sub_init n C, fw_init) (s, f)" "good_start n C"
    and "gs_ctxs s c = Some ce" "r \<in> set (ce_waiting ce) \<union> set (ce_requests ce) \<union> set (queued s c)"
  shows "\<not> context_guc_id_invalid ce \<and> gs_lookup s (ctx_key ce) = Some c \<and> ce_pin_count ce \<noteq> 0
    \<and> c \<notin> set (gs_id_list s) \<and> c \<notin> set (gs_destroyed s) \<and> \<not> context_destroyed ce"
proof -
  note inv = reach_inv [OF assms(1,2)]
  note ok = ctx_okD [OF inv_ctxD(1) [OF inv assms(3)]]
  have ref: "0 < ce_ref ce" using counts_busy(1) [OF ok(1) assms(4)] .
  then have v: "valid ce" and inl: "c \<notin> set (gs_id_list s)" using ok(2,4) by (auto simp: flags_ok_def lists_ok_def)
  have pin: "ce_pin_count ce \<noteq> 0" using own_pins_nonneg [OF ok(1)] ok(1) ref by (auto simp: counts_ok_def)
  then have "\<not> own_refs ce < 1" using own_refs_zero(1) [of ce] by blast
  then have "0 < ce_kref ce" using ok(1) by (simp add: counts_ok_def)
  then have "c \<notin> set (gs_destroyed s)" "\<not> DE ce" using ok(4) by (auto simp: lists_ok_def)
  with v inl pin ids_validD [OF inv_ctxD(2) [OF inv] assms(3) v] show ?thesis by (simp add: valid_def)
qed

theorem busy_context_keeps_id_witness: "7 \<in> set (ce_waiting (the_ctx (demo_one 1) 0)) \<and> 0 \<notin> set (gs_id_list (demo_one 1))"
proof -
  have e: "gs_ctxs (demo_one 1) 0 \<noteq> None" "7 \<in> set (ce_waiting (the_ctx (demo_one 1) 0))" by code_simp+
  have r: "sub_reach (sub_init 1 demo_contexts, fw_init) (demo_one 1, fw_init)" by (rule demo_one_reach) simp
  have "good_start 1 demo_contexts" by (rule demo_start) simp
  from busy_context_keeps_id [OF r this ctx_the [OF e(1)], of 7] e(2) show ?thesis by blast
qed



end
