(* ===== verification/Spec2Isabelle.thy ===== *)
theory Spec2Isabelle
  imports Iov_Policy Sriov_Pm_Props Iov_Driver Pf_Guc_Ct Guc_Wopcm
    Guc_Protocol_Props
begin

text \<open>
  This development models the SR-IOV support of the i915 graphics driver: the code by which one
  driver, the physical function (PF), divides a GPU among virtual functions (VFs), and by which the
  driver of a VF works with its part. The files are below \<open>src/drivers/gpu/drm/i915\<close>.

  \<^bold>\<open>The program.\<close> A PF splits the resources of each GT among the VFs: ids of submission contexts,
  doorbells, ranges of the global page table (GGTT), scheduling parameters and thresholds
  (\<open>gt/iov/intel_iov_provisioning.c\<close>). It tells the firmware (GuC) with key-length-value messages,
  writes the owners of the page table entries (\<open>gt/intel_ggtt.c\<close>), follows the state of each VF
  through resets, pauses, saves and restores (\<open>intel_iov_state.c\<close>, \<open>intel_iov_event.c\<close>), answers
  requests of the VFs (\<open>intel_iov_service.c\<close>) and updates page table entries for VFs that may not
  (\<open>intel_iov_ggtt.c\<close>). A VF asks the GuC and the PF for its configuration (\<open>intel_iov_query.c\<close>). The
  two talk through the relay (\<open>intel_iov_relay.c\<close>), over the command transport between driver and GuC
  (\<open>gt/uc/intel_guc_ct.c\<close>) or its MMIO registers (\<open>gt/uc/intel_guc.c\<close>). \<open>i915_sriov.c\<close> drives all
  this for the device: probing, enabling of VFs, suspend and resume.

  \<^bold>\<open>Theories.\<close> Each has the state of its component as a record, the operations under the names of
  the C functions, and then the lemmas.
  \<^item> \<open>Iov_Prelude\<close>: C integers as words, errno values, macros for bit fields and alignment, bitmaps,
    and the locale \<open>range_bitmap\<close> of allocators whose bitmap is derived from the ranges in use.
    \<open>Iov_Types\<close>: the device, its GTs and the configurations of PF and VFs.
  \<^item> \<open>Iov_Guc\<close>, \<open>Iov_Ctxs\<close>, \<open>Iov_Dbs\<close>, \<open>Iov_Prov_Ggtt\<close>, \<open>Iov_Sched\<close>, \<open>Iov_Policy\<close>, \<open>Iov_Config\<close>: the
    provisioning, one resource per theory and the configuration as a whole. The ranges of two
    functions never overlap, a quota that is reported free can be allocated, a failed message to
    the GuC leaves nothing half done, and the locales \<open>vf_param\<close>, \<open>policy_setter\<close> and \<open>fair_loop\<close> give
    the contract that several setters and the fair distributions share. \<open>Iov_Frame\<close>: what
    provisioning leaves alone (locale \<open>provisioning_frame\<close>).
  \<^item> \<open>I915_Ggtt\<close>, \<open>Iov_Ggtt\<close>: page table entries with their owners, and the updates a VF batches and
    the PF applies. An update stays inside the region of its VF, except where the code lets it out.
  \<^item> \<open>Iov_State\<close>, \<open>Iov_Flr\<close>, \<open>Iov_Events\<close>: the state of a VF as a state machine; the function level
    reset interleaves events of the GuC, starts by the driver and new initialisations of GTs with the
    workers. As long as a running reset is not started over or torn down on one GT, no GT finishes
    it before all GuCs are done, and in a fair run it ends; the code does not prevent the starting
    over, and a theorem shows the barrier broken by it.
  \<^item> \<open>Guc_Hxg\<close>, \<open>Guc_Mmio\<close>, \<open>Guc_Ring\<close>, \<open>Guc_Ct\<close>, \<open>Guc_Ct_Queue\<close>, \<open>Pf_Guc_Ct\<close>: messages, MMIO requests
    and the command transport. The rings refine queues (locale \<open>dword_queue\<close>), an answer completes
    the request with its fence, a sender without room gives up, and the PF handles every event of
    the GuC once and in order. What the GuC reads is the ring up to the tail in the shared
    descriptor (\<open>send_queue\<close>), which is kept apart from the ring up to the driver's own tail
    (\<open>own_queue\<close>).
  \<^item> \<open>Iov_Relay\<close>, \<open>Iov_Relay_Props\<close>, \<open>Iov_Service\<close>, \<open>Iov_Service_Props\<close>, \<open>Iov_Query\<close>, \<open>Iov_Vf_Pf\<close>,
    \<open>Iov_Runtime\<close>: relay, services and queries, and the two drivers together.
  \<^item> \<open>Iov_Memirq\<close>: interrupts of a VF in memory against a concurrent writer. \<open>Guc_Wopcm\<close>: partition of
    the protected memory. \<open>Iov_Driver\<close>: the phases of initialisation and the balloons of a VF's GGTT.
  \<^item> \<open>I915_Sriov\<close>, \<open>I915_Sriov_Pm\<close>, \<open>I915_Sriov_Props\<close>, \<open>Sriov_Pm_Props\<close>: the device, its VFs, suspend and
    resume (locale \<open>loop_frame\<close>).

  \<^item> \<open>Guc_Context\<close>, \<open>Guc_Ids\<close>, \<open>Guc_Submission\<close>: submission through the GuC
    (\<open>gt/uc/intel_guc_submission.c\<close>), which works within the context ids that provisioning gave the
    function: the flags of a context, the ids and their stealing, registration, enabling, disabling,
    blocking, revoking and destruction of contexts, and the way of a request from its creation to its
    retirement. \<open>Guc_Protocol\<close> specifies what the GuC accepts, the interleaved steps of driver and GuC
    and an invariant; \<open>Guc_Protocol_Inv\<close>, \<open>Guc_Protocol_Steps\<close>, \<open>Guc_Protocol_Answers\<close>,
    \<open>Guc_Protocol_Requests\<close> and \<open>Guc_Protocol_Submit\<close> show that every step keeps it. From it
    \<open>Guc_Protocol_Props\<close> derives that the GuC accepts every message and the driver every answer, that
    all waiting ends, and that ids are private, within the limit, and kept while requests need them.
    Two steps have conditions that the code does not enforce, which the findings name, and in all of
    them the transport is up and no send is interrupted by a signal.

  \<^bold>\<open>State and effects.\<close> A function that changes state takes and returns it. An error is the left
  value of a sum, with the errno as a constructor. Locks appear as the points at which another
  thread can run: a function under a lock is one step. The senders of the transport and of the relay
  and the handler of a reset notification are split where others can run in between; the functions
  of submission, the handlers of VF states and the processing of one VF by a worker are one step
  each, also where the code takes a lock more than once. What is not in this repository (the GuC, the hardware, \<open>drm_mm\<close>,
  the PCI core, memory allocation) is an argument, usually a record whose name ends in \<open>env\<close>; a
  theorem that relies on its behaviour says so in a hypothesis, and its witness has an instance.

  \<^bold>\<open>Bounds.\<close> Loops that wait have the bound of the code: eleven sleeps of the sender of a
  message before it gives up, and one more for each sleep in which another sender made progress, nine
  registers in an answer of the PF. A loop without a bound in the code is a partial function with values in
  \<open>option\<close>, and the theorems state that it returns.

  \<^bold>\<open>Not modelled.\<close> Files of sysfs and debugfs print and parse single numbers around the setters
  that are modelled. Of submission, the work queues of parallel contexts, virtual engines, priorities,
  statistics and the recovery from GPU resets are left out; submission is not disabled in the
  protocol, and the transport is up. Memory management, page tables of contexts, power, display,
  GVT-g and the other parts of the driver are the same with and without SR-IOV and serve the hardware.
  Priorities of tasks, time and memory barriers have no counterpart.
\<close>

end
